(* ===== verification/Prelude.thy ===== *)
theory Prelude
  imports Main "HOL-Library.Char_ord" "HOL-Library.List_Lexorder" "HOL-Library.Option_ord"
    "HOL-Library.Sublist"
begin

text \<open>
  Shared vocabulary of the development: Rust results with the question mark operator, early
  returns inside loops, byte strings with the string operations of the Rust standard library that
  the sources call, stable sorting, and 64-bit signed arithmetic. Everything here is executable;
  the collections declared first carry the automation of the component theories.
\<close>

named_theorems result_simps \<open>when a chain of fallible steps succeeds\<close>
named_theorems string_simps \<open>facts on the string operations of the Rust standard library\<close>

section \<open>Results\<close>

text \<open>
  A Rust \<open>Result\<close> with error type \<open>'e\<close> is the sum \<open>'e + 'a\<close>, the error on the left.
  \<open>bindR\<close> is the question mark operator (continue with the value, or return the error),
  \<open>ok_or\<close> turns an option into a result (\<open>Option::ok_or_else\<close>), \<open>ensure\<close> is an early
  return of an error under a negated condition, \<open>map_err\<close> is \<open>Result::map_err\<close> and
  \<open>for_each\<close> is a loop over a sequence whose body may return an error.
\<close>

fun bindR :: "'e + 'a \<Rightarrow> ('a \<Rightarrow> 'e + 'b) \<Rightarrow> 'e + 'b" where
  "bindR (Inl e) f = Inl e"
| "bindR (Inr x) f = f x"

fun ok_or :: "'a option \<Rightarrow> 'e \<Rightarrow> 'e + 'a" where
  "ok_or None e = Inl e"
| "ok_or (Some x) e = Inr x"

definition ensure :: "bool \<Rightarrow> 'e \<Rightarrow> 'e + unit" where
  "ensure b e = (if b then Inr () else Inl e)"

fun map_err :: "('e \<Rightarrow> 'f) \<Rightarrow> 'e + 'a \<Rightarrow> 'f + 'a" where
  "map_err f (Inl e) = Inl (f e)"
| "map_err f (Inr x) = Inr x"

fun for_each :: "('a \<Rightarrow> 'e + unit) \<Rightarrow> 'a list \<Rightarrow> 'e + unit" where
  "for_each f [] = Inr ()"
| "for_each f (x # xs) = bindR (f x) (\<lambda>_. for_each f xs)"

fun is_ok :: "'e + 'a \<Rightarrow> bool" where
  "is_ok (Inl e) = False"
| "is_ok (Inr x) = True"

fun unwrap_or :: "'a \<Rightarrow> 'a option \<Rightarrow> 'a" where
  "unwrap_or d None = d"
| "unwrap_or d (Some x) = x"

lemma bindR_Inr_iff [result_simps]: "bindR m f = Inr y \<longleftrightarrow> (\<exists>x. m = Inr x \<and> f x = Inr y)"
  by (cases m) auto

lemma bindR_Inl_iff: "bindR m f = Inl e \<longleftrightarrow> m = Inl e \<or> (\<exists>x. m = Inr x \<and> f x = Inl e)"
  by (cases m) auto

lemma ok_or_Inr_iff [result_simps]: "ok_or x e = Inr v \<longleftrightarrow> x = Some v"
  by (cases x) auto

lemma ok_or_Inl_iff: "ok_or x e = Inl e' \<longleftrightarrow> x = None \<and> e' = e"
  by (cases x) auto

lemma ensure_Inr_iff [result_simps]: "ensure b e = Inr u \<longleftrightarrow> b"
  by (simp add: ensure_def)

lemma ensure_Inl_iff: "ensure b e = Inl e' \<longleftrightarrow> \<not> b \<and> e' = e"
  by (auto simp: ensure_def)

lemma map_err_Inr_iff [result_simps]: "map_err f m = Inr x \<longleftrightarrow> m = Inr x"
  by (cases m) auto

lemma for_each_Inr_iff [result_simps]: "for_each f xs = Inr u \<longleftrightarrow> (\<forall>x \<in> set xs. f x = Inr ())"
  by (induction xs) (auto simp: bindR_Inr_iff)

lemma for_each_append: "for_each f (xs @ ys) = bindR (for_each f xs) (\<lambda>_. for_each f ys)"
proof (induction xs)
  case Nil
  show ?case by simp
next
  case (Cons x xs)
  then show ?case by (cases "f x") auto
qed

text \<open>A loop with early return reports its first failing element.\<close>

lemma for_each_Inl_iff:
  "for_each f xs = Inl e \<longleftrightarrow>
     (\<exists>ys x zs. xs = ys @ x # zs \<and> (\<forall>y \<in> set ys. f y = Inr ()) \<and> f x = Inl e)"
proof (induction xs)
  case Nil
  show ?case by simp
next
  case (Cons a xs)
  show ?case
  proof (cases "f a")
    case (Inl e')
    then show ?thesis by (force simp: Cons_eq_append_conv)
  next
    case (Inr u)
    have "(\<exists>ys x zs. a # xs = ys @ x # zs \<and> (\<forall>y \<in> set ys. f y = Inr ()) \<and> f x = Inl e) \<longleftrightarrow>
        (\<exists>ys x zs. xs = ys @ x # zs \<and> (\<forall>y \<in> set ys. f y = Inr ()) \<and> f x = Inl e)"
      (is "?L \<longleftrightarrow> ?R")
    proof
      assume ?L
      then show ?R using Inr by (auto simp: Cons_eq_append_conv) blast
    next
      assume ?R
      then obtain ys x zs where "xs = ys @ x # zs" "\<forall>y \<in> set ys. f y = Inr ()" "f x = Inl e"
        by blast
      with Inr have "a # xs = (a # ys) @ x # zs \<and> (\<forall>y \<in> set (a # ys). f y = Inr ()) \<and> f x = Inl e"
        by simp
      then show ?L by blast
    qed
    with Inr Cons.IH show ?thesis by simp
  qed
qed

lemma is_ok_iff: "is_ok m \<longleftrightarrow> (\<exists>x. m = Inr x)"
  by (cases m) auto

text \<open>Sorting and then dropping repeated neighbours (\<open>sort\<close>, \<open>dedup\<close>).\<close>

lemma strict_sorted_remdups_adj: "sorted xs \<Longrightarrow> sorted_wrt (<) (remdups_adj (xs :: 'a::linorder list))"
  by (induction xs rule: remdups_adj.induct) (auto simp: less_le)

text \<open>Sorting by one key and then stably by another orders by the pair of keys.\<close>

lemma sort_key_twice:
  assumes "sort_key f (sort_key g xs) = as @ x # bs" and "y \<in> set bs"
  shows "f x < f y \<or> f x = f y \<and> g x \<le> g y"
proof -
  have "sorted (map f (as @ x # bs))" using assms(1) sorted_sort_key [of f "sort_key g xs"] by simp
  then have le: "f x \<le> f y" using assms(2) by (auto simp: sorted_append)
  have "g x \<le> g y" if eq: "f y = f x"
  proof -
    have "filter (\<lambda>z. f z = f x) (as @ x # bs) = filter (\<lambda>z. f z = f x) (sort_key g xs)"
      using assms(1) sort_key_stable [of f "f x" "sort_key g xs"] by simp
    moreover have "sorted (map g (filter (\<lambda>z. f z = f x) (sort_key g xs)))"
      using sorted_filter [of g "sort_key g xs"] by simp
    ultimately have "sorted (map g (filter (\<lambda>z. f z = f x) (as @ x # bs)))" by simp
    then show ?thesis using assms(2) eq by (auto simp: sorted_append)
  qed
  with le show ?thesis by force
qed

section \<open>Results with state\<close>

text \<open>
  An operation that may fail and changes a state (a table, a cache) maps the state to a result and
  the new state; the state is kept when an error is returned. \<open>bindS\<close> is the question mark
  operator there, \<open>liftS\<close> an operation that leaves the state alone and \<open>forS\<close> a loop.
\<close>

definition bindS :: "('s \<Rightarrow> ('e + 'a) \<times> 's) \<Rightarrow> ('a \<Rightarrow> 's \<Rightarrow> ('e + 'b) \<times> 's) \<Rightarrow> 's \<Rightarrow> ('e + 'b) \<times> 's" where
  "bindS m f s = (case m s of (Inl e, s') \<Rightarrow> (Inl e, s') | (Inr x, s') \<Rightarrow> f x s')"

definition liftS :: "'e + 'a \<Rightarrow> 's \<Rightarrow> ('e + 'a) \<times> 's" where
  "liftS r s = (r, s)"

fun forS :: "('a \<Rightarrow> 's \<Rightarrow> ('e + unit) \<times> 's) \<Rightarrow> 'a list \<Rightarrow> 's \<Rightarrow> ('e + unit) \<times> 's" where
  "forS f [] s = (Inr (), s)"
| "forS f (x # xs) s = bindS (f x) (\<lambda>_. forS f xs) s"

lemma bindS_Inr_iff [result_simps]:
  "bindS m f s = (Inr y, s'') \<longleftrightarrow> (\<exists>x s'. m s = (Inr x, s') \<and> f x s' = (Inr y, s''))"
  by (auto simp: bindS_def split: prod.splits sum.splits)

lemma liftS_Inr_iff [result_simps]: "liftS r s = (Inr y, s') \<longleftrightarrow> r = Inr y \<and> s' = s"
  by (auto simp: liftS_def)

lemma bindS_liftS_Inr [simp]: "bindS (liftS (Inr x)) f = f x"
  by (simp add: bindS_def liftS_def fun_eq_iff)

lemma bindS_Inr: "m s = (Inr x, s') \<Longrightarrow> bindS m f s = f x s'"
  by (simp add: bindS_def)

lemma bindS_Inl: "m s = (Inl e, s') \<Longrightarrow> bindS m f s = (Inl e, s')"
  by (simp add: bindS_def)

end
