(* ===== verification/Rust_Std.thy ===== *)
theory Rust_Std
  imports Prelude "HOL-Library.Word"
begin

text \<open>
  The parts of the Rust standard library the modelled sources call. A Rust \<open>String\<close> is a UTF-8
  byte sequence and is modelled byte for byte as a \<^typ>\<open>string\<close>; every character the sources
  search for, compare with or split at is ASCII, so byte positions and character boundaries
  agree. Integers of type \<open>i64\<close> are modelled by their value in \<^typ>\<open>int\<close>, with the
  wrap-around of release builds written out; ports are 16-bit words.
\<close>

section \<open>Strings\<close>

definition starts_with :: "string \<Rightarrow> char \<Rightarrow> bool" where
  "starts_with s c = (case s of [] \<Rightarrow> False | d # _ \<Rightarrow> d = c)"

definition ends_with :: "string \<Rightarrow> char \<Rightarrow> bool" where
  "ends_with s c = starts_with (rev s) c"

definition contains :: "string \<Rightarrow> char \<Rightarrow> bool" where
  "contains s c = List.member s c"

fun strip_prefix :: "string \<Rightarrow> string \<Rightarrow> string option" where
  "strip_prefix [] s = Some s"
| "strip_prefix (c # p) [] = None"
| "strip_prefix (c # p) (d # s) = (if c = d then strip_prefix p s else None)"

text \<open>\<open>find_char c s\<close> and \<open>rfind_char c s\<close> are the byte positions \<open>str::find\<close> and
  \<open>str::rfind\<close> return for an ASCII character.\<close>

fun find_char :: "char \<Rightarrow> string \<Rightarrow> nat option" where
  "find_char c [] = None"
| "find_char c (d # s) = (if d = c then Some 0 else map_option Suc (find_char c s))"

definition rfind_char :: "char \<Rightarrow> string \<Rightarrow> nat option" where
  "rfind_char c s = map_option (\<lambda>i. length s - Suc i) (find_char c (rev s))"

text \<open>\<open>str::contains\<close> with a string pattern.\<close>

definition contains_str :: "string \<Rightarrow> string \<Rightarrow> bool" where
  "contains_str s p = list_ex (\<lambda>t. strip_prefix p t \<noteq> None) (suffixes s)"

text \<open>\<open>str::find\<close> with a string pattern: the position of its first occurrence.\<close>

fun find_str :: "string \<Rightarrow> string \<Rightarrow> nat option" where
  "find_str p [] = (if p = [] then Some 0 else None)"
| "find_str p (c # s) = (if strip_prefix p (c # s) \<noteq> None then Some 0 else map_option Suc (find_str p s))"

text \<open>
  \<open>str::chars\<close>: every byte that does not continue a character begins one, so a character is the
  string of its bytes. A string may be cut only where a character begins, or at its end.
\<close>

definition continues_char :: "char \<Rightarrow> bool" where
  "continues_char c \<longleftrightarrow> 128 \<le> (of_char c :: nat) \<and> (of_char c :: nat) < 192"

function utf8_chars :: "string \<Rightarrow> string list" where
  "utf8_chars [] = []"
| "utf8_chars (c # s) = (c # takeWhile continues_char s) # utf8_chars (dropWhile continues_char s)"
  by pat_completeness auto

termination utf8_chars
  by (relation "measure length") (auto simp: le_imp_less_Suc length_dropWhile_le)

definition is_char_boundary :: "string \<Rightarrow> nat \<Rightarrow> bool" where
  "is_char_boundary s i \<longleftrightarrow> i = 0 \<or> i = length s \<or> i < length s \<and> \<not> continues_char (s ! i)"

text \<open>\<open>str::get\<close> on the ranges \<open>..n\<close> and \<open>n..\<close>: no value when the range leaves the string.\<close>

definition get_to :: "string \<Rightarrow> nat \<Rightarrow> string option" where
  "get_to s n = (if n \<le> length s then Some (take n s) else None)"

definition get_from :: "string \<Rightarrow> nat \<Rightarrow> string option" where
  "get_from s n = (if n \<le> length s then Some (drop n s) else None)"

fun split_once :: "char \<Rightarrow> string \<Rightarrow> (string \<times> string) option" where
  "split_once c [] = None"
| "split_once c (d # s) =
     (if d = c then Some ([], s) else map_option (\<lambda>(a, b). (d # a, b)) (split_once c s))"

text \<open>\<open>s.split(c).next()\<close>: the part before the first separator, the whole string without one.\<close>

definition split_first :: "char \<Rightarrow> string \<Rightarrow> string" where
  "split_first c s = takeWhile (\<lambda>d. d \<noteq> c) s"

definition byte :: "char \<Rightarrow> nat" where
  "byte c = of_char c"

text \<open>
  White space of \<open>str::trim\<close> within ASCII, and \<open>str::split\<close> at every occurrence of a character.
\<close>

definition is_ascii_space :: "char \<Rightarrow> bool" where
  "is_ascii_space c \<longleftrightarrow> c = CHR '' '' \<or> 9 \<le> byte c \<and> byte c \<le> 13"

definition trim :: "string \<Rightarrow> string" where
  "trim s = rev (dropWhile is_ascii_space (rev (dropWhile is_ascii_space s)))"

fun split_on :: "char \<Rightarrow> string \<Rightarrow> string list" where
  "split_on c [] = [[]]"
| "split_on c (d # s) =
     (if d = c then [] # split_on c s
      else case split_on c s of [] \<Rightarrow> [[d]] | part # parts \<Rightarrow> (d # part) # parts)"

definition is_ascii_digit :: "char \<Rightarrow> bool" where
  "is_ascii_digit c = (48 \<le> byte c \<and> byte c \<le> 57)"

definition is_ascii_upper :: "char \<Rightarrow> bool" where
  "is_ascii_upper c = (65 \<le> byte c \<and> byte c \<le> 90)"

definition is_ascii_lower :: "char \<Rightarrow> bool" where
  "is_ascii_lower c = (97 \<le> byte c \<and> byte c \<le> 122)"

definition is_ascii_alphanumeric :: "char \<Rightarrow> bool" where
  "is_ascii_alphanumeric c = (is_ascii_digit c \<or> is_ascii_upper c \<or> is_ascii_lower c)"

definition to_ascii_lower :: "char \<Rightarrow> char" where
  "to_ascii_lower c = (if is_ascii_upper c then char_of (byte c + 32) else c)"

lemma byte_eq_iff: "byte c = byte d \<longleftrightarrow> c = d"
  by (simp add: byte_def)

lemma starts_with_Cons [string_simps, simp]: "starts_with (d # s) c = (d = c)"
  by (simp add: starts_with_def)

lemma starts_with_Nil [string_simps, simp]: "\<not> starts_with [] c"
  by (simp add: starts_with_def)

lemma starts_with_in_set: "starts_with s c \<Longrightarrow> c \<in> set s"
  by (cases s) simp_all

lemma starts_with_append [string_simps]: "s \<noteq> [] \<Longrightarrow> starts_with (s @ t) c = starts_with s c"
  by (cases s) simp_all

lemma ends_with_snoc [string_simps, simp]: "ends_with (s @ [d]) c = (d = c)"
  by (simp add: ends_with_def)

lemma contains_iff [string_simps, simp]: "contains s c \<longleftrightarrow> c \<in> set s"
  by (simp add: contains_def)

lemma strip_prefix_iff [string_simps]: "strip_prefix p s = Some t \<longleftrightarrow> s = p @ t"
  by (induction p s rule: strip_prefix.induct) auto

lemma strip_prefix_append [string_simps, simp]: "strip_prefix p (p @ t) = Some t"
  by (simp add: strip_prefix_iff)

lemma strip_prefix_None_iff: "strip_prefix p s = None \<longleftrightarrow> \<not> prefix p s"
  by (auto simp: prefix_def strip_prefix_iff simp flip: not_Some_eq)

lemma find_char_None_iff [string_simps]: "find_char c s = None \<longleftrightarrow> c \<notin> set s"
  by (induction s) auto

lemma find_char_append [string_simps]: "c \<notin> set a \<Longrightarrow> find_char c (a @ c # b) = Some (length a)"
  by (induction a) auto

lemma find_char_SomeE:
  assumes "find_char c s = Some i"
  obtains a b where "s = a @ c # b" "c \<notin> set a" "i = length a"
proof -
  have "c \<in> set s" using assms find_char_None_iff [of c s] by auto
  then obtain a b where s: "s = a @ c # b" "c \<notin> set a"
    using split_list_first [of c s] by blast
  with assms have "i = length a" by (simp add: find_char_append)
  with s that show thesis by blast
qed

lemma rfind_char_None_iff [string_simps]: "rfind_char c s = None \<longleftrightarrow> c \<notin> set s"
  by (simp add: rfind_char_def find_char_None_iff)

lemma rfind_char_append [string_simps]:
  assumes "c \<notin> set b"
  shows "rfind_char c (a @ c # b) = Some (length a)"
proof -
  have "rev (a @ c # b) = rev b @ c # rev a" by simp
  with assms have "find_char c (rev (a @ c # b)) = Some (length b)"
    by (simp add: find_char_append)
  then show ?thesis by (simp add: rfind_char_def)
qed

lemma rfind_char_SomeE:
  assumes "rfind_char c s = Some i"
  obtains a b where "s = a @ c # b" "c \<notin> set b" "i = length a"
proof -
  have "c \<in> set s" using assms rfind_char_None_iff [of c s] by auto
  then obtain a b where s: "s = a @ c # b" "c \<notin> set b"
    using split_list_last [of c s] by blast
  with assms have "i = length a" by (simp add: rfind_char_append)
  with s that show thesis by blast
qed

lemma get_to_append [string_simps, simp]: "get_to (a @ b) (length a) = Some a"
  by (simp add: get_to_def)

lemma get_from_append [string_simps, simp]: "get_from (a @ c # b) (Suc (length a)) = Some b"
  by (simp add: get_from_def)

lemma split_once_append [string_simps]: "c \<notin> set a \<Longrightarrow> split_once c (a @ c # b) = Some (a, b)"
  by (induction a) auto

lemma split_once_None_iff [string_simps]: "split_once c s = None \<longleftrightarrow> c \<notin> set s"
  by (induction s) auto

lemma split_first_no_sep [string_simps]: "c \<notin> set (split_first c s)"
  by (auto simp: split_first_def dest: set_takeWhileD)

section \<open>Numbers\<close>

text \<open>
  \<open>char::to_digit\<close>, unsigned \<open>FromStr\<close> (an optional plus sign, then at least one decimal digit;
  an error as soon as the value leaves the type) and \<open>Display\<close> for unsigned numbers.
\<close>

definition to_digit :: "nat \<Rightarrow> char \<Rightarrow> nat option" where
  "to_digit radix c =
     (let v = (if is_ascii_digit c then Some (byte c - 48)
               else if is_ascii_lower c then Some (byte c - 87)
               else if is_ascii_upper c then Some (byte c - 55)
               else None)
      in case v of None \<Rightarrow> None | Some d \<Rightarrow> if d < radix then Some d else None)"

fun parse_digits :: "nat \<Rightarrow> nat \<Rightarrow> string \<Rightarrow> nat option" where
  "parse_digits m acc [] = Some acc"
| "parse_digits m acc (c # cs) =
     (case to_digit 10 c of
        None \<Rightarrow> None
      | Some d \<Rightarrow> if 10 * acc + d \<le> m then parse_digits m (10 * acc + d) cs else None)"

definition parse_unsigned :: "nat \<Rightarrow> string \<Rightarrow> nat option" where
  "parse_unsigned m s =
     (case s of
        [] \<Rightarrow> None
      | c # cs \<Rightarrow>
          if c = CHR ''+'' then (if cs = [] then None else parse_digits m 0 cs)
          else parse_digits m 0 s)"

definition parse_u16 :: "string \<Rightarrow> 16 word option" where
  "parse_u16 s = map_option of_nat (parse_unsigned 65535 s)"

definition digit_char :: "nat \<Rightarrow> char" where
  "digit_char d = char_of (48 + d)"

fun show_nat :: "nat \<Rightarrow> string" where
  "show_nat n = (if n < 10 then [digit_char n] else show_nat (n div 10) @ [digit_char (n mod 10)])"

declare show_nat.simps [simp del]

definition show_u16 :: "16 word \<Rightarrow> string" where
  "show_u16 w = show_nat (unat w)"

definition show_int :: "int \<Rightarrow> string" where
  "show_int i = (if i < 0 then CHR ''-'' # show_nat (nat (- i)) else show_nat (nat i))"

text \<open>Signed 64-bit values: the range, and the two's complement wrap-around of release builds.\<close>

definition i64_min :: int where "i64_min = - (2 ^ 63)"
definition i64_max :: int where "i64_max = 2 ^ 63 - 1"

definition in_i64 :: "int \<Rightarrow> bool" where
  "in_i64 x = (i64_min \<le> x \<and> x \<le> i64_max)"

definition i64_wrap :: "int \<Rightarrow> int" where
  "i64_wrap x = (x + 2 ^ 63) mod 2 ^ 64 - 2 ^ 63"

lemma i64_wrap_in_range [simp]: "in_i64 (i64_wrap x)"
proof -
  have "0 \<le> (x + 2 ^ 63) mod 2 ^ 64" and "(x + 2 ^ 63) mod 2 ^ 64 < (2 ^ 64 :: int)"
    by simp_all
  then show ?thesis by (simp add: in_i64_def i64_wrap_def i64_min_def i64_max_def)
qed

lemma i64_wrap_id [simp]: "in_i64 x \<Longrightarrow> i64_wrap x = x"
  by (simp add: in_i64_def i64_wrap_def i64_min_def i64_max_def)

lemma byte_digit_char: "d < 10 \<Longrightarrow> byte (digit_char d) = 48 + d"
  by (simp add: byte_def digit_char_def)

lemma to_digit_digit_char [simp]: "d < 10 \<Longrightarrow> to_digit 10 (digit_char d) = Some d"
  by (simp add: to_digit_def is_ascii_digit_def byte_digit_char)

lemma is_ascii_digit_digit_char: "d < 10 \<Longrightarrow> is_ascii_digit (digit_char d)"
  by (simp add: is_ascii_digit_def byte_digit_char)

lemma parse_digits_append:
  "parse_digits m acc (s @ t) =
     (case parse_digits m acc s of None \<Rightarrow> None | Some a \<Rightarrow> parse_digits m a t)"
  by (induction m acc s rule: parse_digits.induct) (auto split: option.splits)

lemma parse_digits_show_nat: "n \<le> m \<Longrightarrow> parse_digits m 0 (show_nat n) = Some n"
proof (induction n rule: show_nat.induct)
  case (1 n)
  show ?case
  proof (cases "n < 10")
    case True
    with 1 show ?thesis by (simp add: show_nat.simps [of n])
  next
    case False
    with 1 have "parse_digits m 0 (show_nat (n div 10)) = Some (n div 10)" by simp
    with False 1 show ?thesis by (simp add: show_nat.simps [of n] parse_digits_append)
  qed
qed

lemma show_nat_digits: "c \<in> set (show_nat n) \<Longrightarrow> is_ascii_digit c"
proof (induction n rule: show_nat.induct)
  case (1 n)
  then show ?case
    by (cases "n < 10") (auto simp: show_nat.simps [of n] is_ascii_digit_digit_char)
qed

lemma show_nat_nonempty [simp]: "show_nat n \<noteq> []"
  by (simp add: show_nat.simps [of n])

lemma parse_unsigned_show_nat:
  assumes "n \<le> m"
  shows "parse_unsigned m (show_nat n) = Some n"
proof -
  obtain c cs where s: "show_nat n = c # cs" by (cases "show_nat n") auto
  then have "is_ascii_digit c" using show_nat_digits [of c n] by simp
  then have "c \<noteq> CHR ''+''" by (auto simp: is_ascii_digit_def byte_def)
  with s have "parse_unsigned m (show_nat n) = parse_digits m 0 (show_nat n)"
    by (simp add: parse_unsigned_def)
  with assms show ?thesis by (simp add: parse_digits_show_nat)
qed

lemma parse_u16_show_u16 [simp]: "parse_u16 (show_u16 w) = Some w"
proof -
  have "unat w < 2 ^ LENGTH(16)" by (rule unsigned_less)
  then have "unat w \<le> 65535" by simp
  then show ?thesis by (simp add: parse_u16_def show_u16_def parse_unsigned_show_nat)
qed

lemma show_u16_digits: "c \<in> set (show_u16 w) \<Longrightarrow> is_ascii_digit c"
  by (simp add: show_u16_def show_nat_digits)

lemma show_u16_nonempty [simp]: "show_u16 w \<noteq> []"
  by (simp add: show_u16_def)

section \<open>IP address literals\<close>

text \<open>
  The acceptors behind \<open>str::parse\<close> at the types \<open>Ipv4Addr\<close> and \<open>Ipv6Addr\<close>. A reader takes the
  remaining input and gives the input it leaves, or nothing when it fails. Only whether the
  parse succeeds is used by the sources, so the address itself is not built.
\<close>

definition read_number :: "nat \<Rightarrow> nat \<Rightarrow> bool \<Rightarrow> nat \<Rightarrow> string \<Rightarrow> string option" where
  "read_number radix max_digits allow_zero_prefix limit s =
     (let ds = takeWhile (\<lambda>c. to_digit radix c \<noteq> None) s;
          v = foldl (\<lambda>a c. radix * a + the (to_digit radix c)) 0 ds
      in if ds = [] \<or> max_digits < length ds then None
         else if \<not> allow_zero_prefix \<and> starts_with s CHR ''0'' \<and> 1 < length ds then None
         else if limit < v then None
         else Some (dropWhile (\<lambda>c. to_digit radix c \<noteq> None) s))"

definition read_separator :: "char \<Rightarrow> nat \<Rightarrow> string \<Rightarrow> string option" where
  "read_separator sep i s =
     (if i = 0 then Some s
      else case s of [] \<Rightarrow> None | c # cs \<Rightarrow> if c = sep then Some cs else None)"

fun read_ipv4_groups :: "nat \<Rightarrow> nat \<Rightarrow> string \<Rightarrow> string option" where
  "read_ipv4_groups i 0 s = Some s"
| "read_ipv4_groups i (Suc n) s =
     Option.bind (read_separator CHR ''.'' i s) (\<lambda>s1.
     Option.bind (read_number 10 3 False 255 s1) (\<lambda>s2. read_ipv4_groups (Suc i) n s2))"

definition read_ipv4_addr :: "string \<Rightarrow> string option" where
  "read_ipv4_addr s = read_ipv4_groups 0 4 s"

definition is_ipv4 :: "string \<Rightarrow> bool" where
  "is_ipv4 s = (length s \<le> 15 \<and> read_ipv4_addr s = Some [])"

text \<open>\<open>read_groups limit i n s\<close> reads up to \<open>n = limit - i\<close> further groups: how many groups were
  read in all, whether an embedded IPv4 address ended them, and what is left.\<close>

fun read_groups :: "nat \<Rightarrow> nat \<Rightarrow> nat \<Rightarrow> string \<Rightarrow> nat \<times> bool \<times> string" where
  "read_groups limit i 0 s = (limit, False, s)"
| "read_groups limit i (Suc n) s =
     (case (if i < limit - 1 then Option.bind (read_separator CHR '':'' i s) read_ipv4_addr
            else None) of
        Some s1 \<Rightarrow> (i + 2, True, s1)
      | None \<Rightarrow>
          (case Option.bind (read_separator CHR '':'' i s) (read_number 16 4 True 65535) of
             None \<Rightarrow> (i, False, s)
           | Some s1 \<Rightarrow> read_groups limit (Suc i) n s1))"

definition read_ipv6_addr :: "string \<Rightarrow> string option" where
  "read_ipv6_addr s =
     (case read_groups 8 0 8 s of (head_size, head_ipv4, s1) \<Rightarrow>
        if head_size = 8 then Some s1
        else if head_ipv4 then None
        else case strip_prefix ''::'' s1 of
               None \<Rightarrow> None
             | Some s2 \<Rightarrow>
                 let limit = 8 - (head_size + 1)
                 in (case read_groups limit 0 limit s2 of (tail_size, _, s3) \<Rightarrow> Some s3))"

definition is_ipv6 :: "string \<Rightarrow> bool" where
  "is_ipv6 s = (read_ipv6_addr s = Some [])"

lemma read_number_suffix: "read_number r m z l s = Some t \<Longrightarrow> \<exists>p. s = p @ t \<and> p \<noteq> [] \<and>
    (\<forall>c \<in> set p. to_digit r c \<noteq> None)"
  unfolding read_number_def Let_def
  by (intro exI [of _ "takeWhile (\<lambda>c. to_digit r c \<noteq> None) s"])
    (auto split: if_splits dest: set_takeWhileD)

lemma read_separator_suffix: "read_separator c i s = Some t \<Longrightarrow> s = t \<or> s = c # t"
  by (auto simp: read_separator_def split: if_splits list.splits)

lemma read_ipv4_groups_chars:
  "read_ipv4_groups i n s = Some t \<Longrightarrow>
     \<exists>p. s = p @ t \<and> (\<forall>c \<in> set p. to_digit 10 c \<noteq> None \<or> c = CHR ''.'')"
proof (induction i n s rule: read_ipv4_groups.induct)
  case (1 i s)
  then show ?case by simp
next
  case (2 i n s)
  then obtain s1 s2 where s1: "read_separator CHR ''.'' i s = Some s1"
    and s2: "read_number 10 3 False 255 s1 = Some s2"
    and s3: "read_ipv4_groups (Suc i) n s2 = Some t"
    by (auto simp: bind_eq_Some_conv)
  obtain p where p: "s2 = p @ t" "\<forall>c \<in> set p. to_digit 10 c \<noteq> None \<or> c = CHR ''.''"
    using 2 s1 s2 s3 by blast
  obtain q where q: "s1 = q @ s2" "\<forall>c \<in> set q. to_digit 10 c \<noteq> None"
    using read_number_suffix [OF s2] by blast
  from read_separator_suffix [OF s1] show ?case
  proof
    assume "s = s1"
    with p q have "s = (q @ p) @ t \<and> (\<forall>c \<in> set (q @ p). to_digit 10 c \<noteq> None \<or> c = CHR ''.'')"
      by auto
    then show ?case by blast
  next
    assume "s = CHR ''.'' # s1"
    with p q have "s = (CHR ''.'' # q @ p) @ t \<and>
        (\<forall>c \<in> set (CHR ''.'' # q @ p). to_digit 10 c \<noteq> None \<or> c = CHR ''.'')"
      by auto
    then show ?case by blast
  qed
qed

lemma is_ipv4_chars: "is_ipv4 s \<Longrightarrow> c \<in> set s \<Longrightarrow> to_digit 10 c \<noteq> None \<or> c = CHR ''.''"
  using read_ipv4_groups_chars [of 0 4 s "[]"] by (auto simp: is_ipv4_def read_ipv4_addr_def)

lemma is_ipv4_no_colon: "is_ipv4 s \<Longrightarrow> CHR '':'' \<notin> set s"
  using is_ipv4_chars [of s "CHR '':''"] by (auto simp: to_digit_def is_ascii_digit_def
    is_ascii_lower_def is_ascii_upper_def byte_def Let_def)

lemma is_ipv4_no_bracket: "is_ipv4 s \<Longrightarrow> CHR ''['' \<notin> set s"
  using is_ipv4_chars [of s "CHR ''[''"] by (auto simp: to_digit_def is_ascii_digit_def
    is_ascii_lower_def is_ascii_upper_def byte_def Let_def)

lemma not_is_ipv4_Nil [simp]: "\<not> is_ipv4 []"
  by (simp add: is_ipv4_def read_ipv4_addr_def read_separator_def read_number_def numeral_eq_Suc)

text \<open>Every IPv6 literal holds a colon: without one, at most one group can be read.\<close>

lemma read_separator_no_colon: "CHR '':'' \<notin> set s \<Longrightarrow> read_separator CHR '':'' (Suc i) s = None"
  by (cases s) (auto simp: read_separator_def)

lemma read_groups_no_colon:
  assumes nc: "CHR '':'' \<notin> set s" and r: "read_groups limit 0 (Suc (Suc n)) s = (k, v4, t)"
  shows "v4 \<and> k = 2 \<or> k \<le> 1 \<and> CHR '':'' \<notin> set t"
proof (cases "read_number 16 4 True 65535 s")
  case None
  with r nc show ?thesis
    by (auto simp: read_separator_def split: option.splits if_splits)
next
  case (Some s1)
  then have "CHR '':'' \<notin> set s1" using read_number_suffix [OF Some] nc by auto
  then have "read_groups limit (Suc 0) (Suc n) s1 = (1, False, s1)"
    by (simp add: read_separator_no_colon)
  with r Some \<open>CHR '':'' \<notin> set s1\<close> show ?thesis
    by (auto simp: read_separator_def split: option.splits if_splits)
qed

lemma is_ipv6_colon:
  assumes "is_ipv6 s"
  shows "CHR '':'' \<in> set s"
proof (rule ccontr)
  assume nc: "CHR '':'' \<notin> set s"
  obtain k v4 t where r: "read_groups 8 0 8 s = (k, v4, t)" by (cases "read_groups 8 0 8 s") auto
  have e: "(8::nat) = Suc (Suc 6)" by simp
  have t: "v4 \<and> k = 2 \<or> k \<le> 1 \<and> CHR '':'' \<notin> set t"
    using read_groups_no_colon [OF nc, of 8 6 k v4 t] r unfolding e by simp
  from assms r t show False
    by (auto simp: is_ipv6_def read_ipv6_addr_def strip_prefix_iff split: if_splits option.splits)
qed

end
