(* ===== verification/Json.thy ===== *)
theory Json
  imports Rust_Std "HOL-Library.AList"
begin

text \<open>
  JSON values as the sources handle them through \<open>serde_json\<close>: the value type, the accessors the
  sources call (\<open>get\<close>, \<open>as_str\<close>, \<open>as_i64\<close>, \<open>as_object\<close>, \dots) and the map operations. An object
  is the list of its members in iteration order; its keys are distinct (\<open>json_wf\<close>). An integer
  that fits in 64 bits is kept exactly, any other number is an opaque 64-bit float pattern.
  \<open>btree_insert\<close> is \<open>BTreeMap::insert\<close> on the map's sorted sequence of entries.
\<close>

datatype number = NInt int | NFloat "64 word"

datatype json =
    JNull
  | JBool bool
  | JNumber number
  | JString string
  | JArray "json list"
  | JObject "(string \<times> json) list"

type_synonym members = "(string \<times> json) list"

section \<open>Accessors\<close>

fun as_object :: "json \<Rightarrow> members option" where
  "as_object (JObject ms) = Some ms"
| "as_object _ = None"

fun as_array :: "json \<Rightarrow> json list option" where
  "as_array (JArray xs) = Some xs"
| "as_array _ = None"

fun as_str :: "json \<Rightarrow> string option" where
  "as_str (JString s) = Some s"
| "as_str _ = None"

fun as_i64 :: "json \<Rightarrow> int option" where
  "as_i64 (JNumber (NInt i)) = (if in_i64 i then Some i else None)"
| "as_i64 _ = None"

definition is_i64 :: "json \<Rightarrow> bool" where
  "is_i64 v = (as_i64 v \<noteq> None)"

definition get :: "json \<Rightarrow> string \<Rightarrow> json option" where
  "get v k = Option.bind (as_object v) (\<lambda>ms. map_of ms k)"

definition get_str :: "members \<Rightarrow> string \<Rightarrow> string option" where
  "get_str ms k = Option.bind (map_of ms k) as_str"

definition get_i64 :: "members \<Rightarrow> string \<Rightarrow> int option" where
  "get_i64 ms k = Option.bind (map_of ms k) as_i64"

abbreviation int_json :: "int \<Rightarrow> json" where
  "int_json i \<equiv> JNumber (NInt i)"

lemma get_JObject [simp]: "get (JObject ms) k = map_of ms k"
  by (simp add: get_def)

lemma as_object_Some_iff: "as_object v = Some ms \<longleftrightarrow> v = JObject ms"
  by (cases v) auto

lemma as_i64_in_range: "as_i64 v = Some i \<Longrightarrow> in_i64 i"
  by (cases v rule: as_i64.cases) (auto split: if_splits)

lemma get_i64_in_range: "get_i64 ms k = Some i \<Longrightarrow> in_i64 i"
  by (auto simp: get_i64_def bind_eq_Some_conv intro: as_i64_in_range)

lemma get_str_Some_iff: "get_str ms k = Some s \<longleftrightarrow> map_of ms k = Some (JString s)"
proof -
  have "as_str v = Some s \<longleftrightarrow> v = JString s" for v by (cases v) auto
  then show ?thesis by (auto simp: get_str_def bind_eq_Some_conv)
qed

section \<open>Well-formed values and what they denote\<close>

text \<open>Keys of an object are distinct, at every level.\<close>

fun json_wf :: "json \<Rightarrow> bool" where
  "json_wf (JArray xs) = (\<forall>x \<in> set xs. json_wf x)"
| "json_wf (JObject ms) = (distinct (map fst ms) \<and> (\<forall>(k, v) \<in> set ms. json_wf v))"
| "json_wf _ = True"

text \<open>The document a value denotes: an object is a finite map, so member order is gone.\<close>

datatype document =
    DScalar json
  | DArray "document list"
  | DObject "string \<Rightarrow> document option"

fun denote :: "json \<Rightarrow> document" where
  "denote (JArray xs) = DArray (map denote xs)"
| "denote (JObject ms) = DObject (map_of (map (\<lambda>(k, v). (k, denote v)) ms))"
| "denote v = DScalar v"

section \<open>Ordered maps\<close>

fun btree_insert :: "'k::linorder \<Rightarrow> 'v \<Rightarrow> ('k \<times> 'v) list \<Rightarrow> ('k \<times> 'v) list" where
  "btree_insert k v [] = [(k, v)]"
| "btree_insert k v (e # m) =
     (if fst e = k then (k, v) # m
      else if fst e < k then e # btree_insert k v m
      else (k, v) # e # m)"

definition btree_of :: "('k::linorder \<times> 'v) list \<Rightarrow> ('k \<times> 'v) list" where
  "btree_of es = foldl (\<lambda>m (k, v). btree_insert k v m) [] es"

lemma set_btree_insert: "set (btree_insert k v m) \<subseteq> insert (k, v) (set m)"
  by (induction m) auto

lemma keys_btree_insert: "fst ` set (btree_insert k v m) = insert k (fst ` set m)"
  by (induction m) auto

lemma sorted_btree_insert:
  "sorted_wrt (<) (map fst m) \<Longrightarrow> sorted_wrt (<) (map fst (btree_insert k v m))"
proof (induction m)
  case Nil
  show ?case by simp
next
  case (Cons e m)
  then show ?case
    using keys_btree_insert [of k v m] by auto
qed

lemma map_of_btree_insert:
  "sorted_wrt (<) (map fst m) \<Longrightarrow> map_of (btree_insert k v m) = (map_of m)(k \<mapsto> v)"
proof (induction m)
  case Nil
  show ?case by simp
next
  case (Cons e m)
  then show ?case by (cases e) (auto simp: fun_eq_iff)
qed

lemma btree_insert_new:
  assumes "sorted_wrt (<) (map fst m)" and "k \<notin> fst ` set m"
  shows "btree_insert k v m = insort_key fst (k, v) m"
  using assms by (induction m) (auto simp: less_le)

lemma foldl_btree_insert_sorted:
  "sorted_wrt (<) (map fst m) \<Longrightarrow>
     sorted_wrt (<) (map fst (foldl (\<lambda>m (k, v). btree_insert k v m) m es))"
  by (induction es arbitrary: m) (auto simp: sorted_btree_insert split: prod.splits)

lemma foldl_btree_insert_set:
  assumes "sorted_wrt (<) (map fst m)" "distinct (map fst es)" "fst ` set es \<inter> fst ` set m = {}"
  shows "set (foldl (\<lambda>m (k, v). btree_insert k v m) m es) = set m \<union> set es"
  using assms
proof (induction es arbitrary: m)
  case Nil
  then show ?case by simp
next
  case (Cons e es)
  obtain k v where e: "e = (k, v)" by (cases e)
  with Cons.prems have new: "k \<notin> fst ` set m" by auto
  have "set (foldl (\<lambda>m (k, v). btree_insert k v m) (btree_insert k v m) es) =
      set (btree_insert k v m) \<union> set es"
    using Cons.prems e by (intro Cons.IH) (auto simp: sorted_btree_insert keys_btree_insert)
  with new Cons.prems(1) show ?case by (simp add: e btree_insert_new set_insort_key)
qed

text \<open>A B-tree map filled from entries with distinct keys lists them sorted by key.\<close>

lemma btree_of_sort:
  assumes "distinct (map fst es)"
  shows "btree_of es = sort_key fst es"
proof (rule map_sorted_distinct_set_unique [of fst])
  have s: "sorted_wrt (<) (map fst (btree_of es))"
    unfolding btree_of_def by (rule foldl_btree_insert_sorted) simp
  have set: "set (btree_of es) = set es"
    using foldl_btree_insert_set [of "[]" es] assms by (simp add: btree_of_def)
  show "inj_on fst (set (btree_of es) \<union> set (sort_key fst es))"
    using assms set by (simp add: distinct_map)
  show "sorted (map fst (btree_of es))" and "distinct (map fst (btree_of es))"
    using s by (simp_all add: strict_sorted_iff)
  show "sorted (map fst (sort_key fst es))" by simp
  show "distinct (map fst (sort_key fst es))" using assms by (simp add: distinct_map)
  show "set (btree_of es) = set (sort_key fst es)" using set by simp
qed

lemma map_of_sort_key:
  assumes "distinct (map fst es)"
  shows "map_of (sort_key fst es) = map_of es"
proof -
  have "distinct (map fst (sort_key fst es))" using assms by (simp add: distinct_map)
  then show ?thesis using assms by (simp add: map_of_inject_set)
qed

text \<open>Sorted entry lists with distinct keys are determined by the map they represent.\<close>

lemma sorted_entries_unique:
  assumes "sorted (map fst xs)" "distinct (map fst xs)" "sorted (map fst ys)" "distinct (map fst ys)"
    and "map_of xs = map_of ys"
  shows "xs = ys"
proof (rule map_sorted_distinct_set_unique [of fst])
  show "set xs = set ys" using assms by (metis map_of_inject_set)
  then show "inj_on fst (set xs \<union> set ys)" using assms by (simp add: distinct_map)
qed (use assms in auto)

end
