(* ===== verification/Entity.thy ===== *)
theory Entity
  imports Json
begin

text \<open>
  The shared data of the server, from the crate \<open>entity\<close>: events (PDUs) with their typed content,
  memberships, rooms and power levels, and the error type of the repositories. Record fields carry
  a prefix per struct. A hash map is the association list of its entries in iteration order, with
  distinct keys; timestamps are \<open>i64\<close> milliseconds. The JSON of a struct is what its derived
  serializer emits: fields in declaration order, absent options left out.
\<close>

section \<open>Event content\<close>

text \<open>
  The typed variants carry the JSON their serializer emits: the sources only test which variant a
  content is and serialize it.
\<close>

datatype event_content =
    Membership json
  | InviteMembership json
  | KnockMembership json
  | LeaveMembership json
  | ThirdPartyInvite json
  | Encrypted json
  | DirectToDevice json
  | Authentication json
  | Sticker json
  | ServerNotice json
  | Unknown json

definition opt_member :: "string \<Rightarrow> ('a \<Rightarrow> json) \<Rightarrow> 'a option \<Rightarrow> members" where
  "opt_member k f x = (case x of None \<Rightarrow> [] | Some v \<Rightarrow> [(k, f v)])"

text \<open>\<open>MembershipEventContent::new\<close> leaves every option empty.\<close>

definition membership_content :: "string \<Rightarrow> event_content" where
  "membership_content membership = Membership (JObject [(''membership'', JString membership)])"

fun content_as_object :: "event_content \<Rightarrow> members option" where
  "content_as_object (Unknown (JObject ms)) = Some ms"
| "content_as_object _ = None"

definition content_get :: "event_content \<Rightarrow> string \<Rightarrow> json option" where
  "content_get c k = Option.bind (content_as_object c) (\<lambda>ms. map_of ms k)"

definition content_is_null :: "event_content \<Rightarrow> bool" where
  "content_is_null c = (c = Unknown JNull)"

definition content_is_object :: "event_content \<Rightarrow> bool" where
  "content_is_object c = (content_as_object c \<noteq> None)"

definition content_default :: event_content where
  "content_default = Unknown JNull"

fun content_to_value :: "event_content \<Rightarrow> json" where
  "content_to_value (Membership v) = v"
| "content_to_value (InviteMembership v) = v"
| "content_to_value (KnockMembership v) = v"
| "content_to_value (LeaveMembership v) = v"
| "content_to_value (ThirdPartyInvite v) = v"
| "content_to_value (Encrypted v) = v"
| "content_to_value (DirectToDevice v) = v"
| "content_to_value (Authentication v) = v"
| "content_to_value (Sticker v) = v"
| "content_to_value (ServerNotice v) = v"
| "content_to_value (Unknown v) = v"

text \<open>Only untyped object content has members to the accessors.\<close>

lemma content_as_object_Some_iff: "content_as_object c = Some ms \<longleftrightarrow> c = Unknown (JObject ms)"
  by (cases c rule: content_as_object.cases) auto

lemma content_get_Unknown [simp]: "content_get (Unknown (JObject ms)) k = map_of ms k"
  by (simp add: content_get_def)

lemma content_as_object_to_value:
  "content_as_object c = Some ms \<Longrightarrow> as_object (content_to_value c) = Some ms"
  by (simp add: content_as_object_Some_iff)

section \<open>Events\<close>

record event =
  ev_event_id :: string
  ev_sender :: string
  ev_origin_server_ts :: int
  ev_event_type :: string
  ev_room_id :: string
  ev_content :: event_content
  ev_state_key :: "string option"
  ev_unsigned :: "json option"
  ev_auth_events :: "string list option"
  ev_depth :: "int option"
  ev_hashes :: "(string \<times> string) list option"
  ev_prev_events :: "string list option"
  ev_signatures :: "(string \<times> (string \<times> string) list) list option"
  ev_soft_failed :: "bool option"
  ev_received_ts :: "int option"
  ev_outlier :: "bool option"
  ev_redacts :: "string option"
  ev_rejected_reason :: "string option"

record pdu_params =
  pp_event_id :: string
  pp_sender :: string
  pp_origin_server_ts :: int
  pp_event_type :: string
  pp_room_id :: string
  pp_content :: event_content
  pp_auth_events :: "string list"
  pp_depth :: int
  pp_prev_events :: "string list"

definition new_event ::
  "string \<Rightarrow> string \<Rightarrow> int \<Rightarrow> string \<Rightarrow> string \<Rightarrow> event_content \<Rightarrow> event" where
  "new_event event_id sender origin_server_ts event_type room_id content =
     \<lparr>ev_event_id = event_id, ev_sender = sender, ev_origin_server_ts = origin_server_ts,
      ev_event_type = event_type, ev_room_id = room_id, ev_content = content,
      ev_state_key = None, ev_unsigned = None, ev_auth_events = None, ev_depth = None,
      ev_hashes = None, ev_prev_events = None, ev_signatures = None, ev_soft_failed = None,
      ev_received_ts = None, ev_outlier = None, ev_redacts = None, ev_rejected_reason = None\<rparr>"

definition new_pdu :: "pdu_params \<Rightarrow> event" where
  "new_pdu p =
     (new_event (pp_event_id p) (pp_sender p) (pp_origin_server_ts p) (pp_event_type p)
        (pp_room_id p) (pp_content p))
     \<lparr>ev_auth_events := Some (pp_auth_events p), ev_depth := Some (pp_depth p),
      ev_prev_events := Some (pp_prev_events p)\<rparr>"

definition strings_json :: "string list \<Rightarrow> json" where
  "strings_json xs = JArray (map JString xs)"

definition string_map_json :: "(string \<times> string) list \<Rightarrow> json" where
  "string_map_json m = JObject (map (\<lambda>(k, v). (k, JString v)) m)"

definition signatures_json :: "(string \<times> (string \<times> string) list) list \<Rightarrow> json" where
  "signatures_json m = JObject (map (\<lambda>(k, v). (k, string_map_json v)) m)"

definition event_to_value :: "event \<Rightarrow> json" where
  "event_to_value e = JObject (
     [(''event_id'', JString (ev_event_id e)),
      (''sender'', JString (ev_sender e)),
      (''origin_server_ts'', int_json (ev_origin_server_ts e)),
      (''type'', JString (ev_event_type e)),
      (''room_id'', JString (ev_room_id e)),
      (''content'', content_to_value (ev_content e))] @
     opt_member ''state_key'' JString (ev_state_key e) @
     opt_member ''unsigned'' (\<lambda>v. v) (ev_unsigned e) @
     opt_member ''auth_events'' strings_json (ev_auth_events e) @
     opt_member ''depth'' int_json (ev_depth e) @
     opt_member ''hashes'' string_map_json (ev_hashes e) @
     opt_member ''prev_events'' strings_json (ev_prev_events e) @
     opt_member ''signatures'' signatures_json (ev_signatures e) @
     opt_member ''soft_failed'' JBool (ev_soft_failed e) @
     opt_member ''received_ts'' int_json (ev_received_ts e) @
     opt_member ''outlier'' JBool (ev_outlier e) @
     opt_member ''redacts'' JString (ev_redacts e) @
     opt_member ''rejected_reason'' JString (ev_rejected_reason e))"

section \<open>Memberships\<close>

datatype membership_state = Invite | Join | Leave | Ban | Knock

fun show_membership :: "membership_state \<Rightarrow> string" where
  "show_membership Invite = ''invite''"
| "show_membership Join = ''join''"
| "show_membership Leave = ''leave''"
| "show_membership Ban = ''ban''"
| "show_membership Knock = ''knock''"

definition membership_from :: "string \<Rightarrow> membership_state" where
  "membership_from s =
     (if s = ''invite'' then Invite
      else if s = ''join'' then Join
      else if s = ''leave'' then Leave
      else if s = ''ban'' then Ban
      else if s = ''knock'' then Knock
      else Leave)"

lemma membership_from_show [simp]: "membership_from (show_membership m) = m"
  by (cases m) (simp_all add: membership_from_def)

record membership =
  m_room_id :: string
  m_user_id :: string
  m_membership :: membership_state
  m_display_name :: "string option"
  m_avatar_url :: "string option"
  m_reason :: "string option"
  m_invited_by :: "string option"
  m_updated_at :: "int option"
  m_is_direct :: "bool option"
  m_third_party_invite :: "json option"
  m_join_authorised_via_users_server :: "string option"

definition new_membership :: "string \<Rightarrow> string \<Rightarrow> membership_state \<Rightarrow> membership" where
  "new_membership room_id user_id m =
     \<lparr>m_room_id = room_id, m_user_id = user_id, m_membership = m, m_display_name = None,
      m_avatar_url = None, m_reason = None, m_invited_by = None, m_updated_at = None,
      m_is_direct = None, m_third_party_invite = None,
      m_join_authorised_via_users_server = None\<rparr>"

section \<open>Rooms\<close>

record room =
  r_room_id :: string
  r_room_version :: string
  r_creator :: string
  r_created_at :: int
  r_name :: "string option"
  r_topic :: "string option"
  r_avatar_url :: "string option"
  r_canonical_alias :: "string option"
  r_alt_aliases :: "string list option"
  r_join_rule :: "string option"
  r_history_visibility :: "string option"
  r_guest_access :: "string option"
  r_power_levels :: "members option"
  r_encryption :: "members option"
  r_federate :: "bool option"
  r_room_type :: "string option"
  r_is_public :: "bool option"
  r_is_direct :: "bool option"
  r_join_rules :: "string option"
  r_tombstone :: "json option"
  r_predecessor :: "json option"
  r_state_events_count :: "int option"
  r_updated_at :: "int option"

text \<open>\<open>Room::new\<close>, at the two clock readings it takes.\<close>

definition new_room :: "int \<Rightarrow> int \<Rightarrow> string \<Rightarrow> string \<Rightarrow> string \<Rightarrow> room" where
  "new_room created updated room_id room_version creator =
     \<lparr>r_room_id = room_id, r_room_version = room_version, r_creator = creator,
      r_created_at = created, r_name = None, r_topic = None, r_avatar_url = None,
      r_canonical_alias = None, r_alt_aliases = None, r_join_rule = Some ''invite'',
      r_history_visibility = Some ''shared'', r_guest_access = Some ''can_join'',
      r_power_levels = None, r_encryption = None, r_federate = Some True, r_room_type = None,
      r_is_public = Some False, r_is_direct = Some False, r_join_rules = Some ''invite'',
      r_tombstone = None, r_predecessor = None, r_state_events_count = Some 0,
      r_updated_at = Some updated\<rparr>"

section \<open>Power levels\<close>

record power_levels =
  pl_users_default :: int
  pl_events_default :: int
  pl_users :: "(string \<times> int) list"
  pl_events :: "(string \<times> int) list"
  pl_ban :: int
  pl_kick :: int
  pl_redact :: int
  pl_invite :: int
  pl_state_default :: int
  pl_notifications_room :: int

definition default_power_levels :: power_levels where
  "default_power_levels =
     \<lparr>pl_users_default = 0, pl_events_default = 0, pl_users = [], pl_events = [],
      pl_ban = 50, pl_kick = 50, pl_redact = 50, pl_invite = 50, pl_state_default = 50,
      pl_notifications_room = 50\<rparr>"

definition new_with_creator :: "string \<Rightarrow> power_levels" where
  "new_with_creator creator = default_power_levels\<lparr>pl_users := [(creator, 100)]\<rparr>"

definition get_user_level :: "power_levels \<Rightarrow> string \<Rightarrow> int" where
  "get_user_level pl user_id = unwrap_or (pl_users_default pl) (map_of (pl_users pl) user_id)"

definition get_event_level :: "power_levels \<Rightarrow> string \<Rightarrow> int" where
  "get_event_level pl event_type = unwrap_or (pl_events_default pl) (map_of (pl_events pl) event_type)"

definition user_can :: "power_levels \<Rightarrow> string \<Rightarrow> int \<Rightarrow> bool" where
  "user_can pl user_id required_level = (get_user_level pl user_id \<ge> required_level)"

definition user_can_send_event :: "power_levels \<Rightarrow> string \<Rightarrow> string \<Rightarrow> bool" where
  "user_can_send_event pl user_id event_type =
     (let user_level = get_user_level pl user_id;
          required_level = get_event_level pl event_type
      in user_level \<ge> required_level)"

section \<open>Repository errors\<close>

datatype repository_error =
    Database string
  | DatabaseError string string
  | NotFound string string
  | Unauthorized string
  | UnauthorizedAction string string string
  | Forbidden string
  | ForbiddenAction string string string
  | Validation string string
  | ValidationError string string
  | Conflict string
  | ConflictField string string string
  | Serialization string
  | RepoSerializationError string
  | AccessDenied string
  | InvalidOperation string
  | InvalidData string
  | SystemError string
  | StateResolution string
  | ExternalService string

text \<open>The texts of the error attribute of each variant.\<close>

fun repository_error_text :: "repository_error \<Rightarrow> string" where
  "repository_error_text (Database e) = ''Database error: '' @ e"
| "repository_error_text (DatabaseError message operation) =
     ''Database error: '' @ message @ '' (operation: '' @ operation @ '')''"
| "repository_error_text (NotFound entity_type entity_id) =
     ''Entity not found: '' @ entity_type @ '' with id '' @ entity_id"
| "repository_error_text (Unauthorized reason) = ''Unauthorized access: '' @ reason"
| "repository_error_text (UnauthorizedAction action resource reason) =
     ''Unauthorized '' @ action @ '' on '' @ resource @ '': '' @ reason"
| "repository_error_text (Forbidden reason) = ''Forbidden: '' @ reason"
| "repository_error_text (ForbiddenAction action resource reason) =
     ''Forbidden '' @ action @ '' on '' @ resource @ '': '' @ reason"
| "repository_error_text (Validation field message) = ''Validation error: '' @ field @ '': '' @ message"
| "repository_error_text (ValidationError field message) =
     ''Validation error for '' @ field @ '': '' @ message"
| "repository_error_text (Conflict message) = ''Conflict: '' @ message"
| "repository_error_text (ConflictField field v message) =
     ''Conflict in '' @ field @ '' with value '' @ v @ '': '' @ message"
| "repository_error_text (Serialization e) = ''Serialization error: '' @ e"
| "repository_error_text (RepoSerializationError message) = ''Serialization error: '' @ message"
| "repository_error_text (AccessDenied reason) = ''Access denied: '' @ reason"
| "repository_error_text (InvalidOperation reason) = ''Invalid operation: '' @ reason"
| "repository_error_text (InvalidData message) = ''Invalid data: '' @ message"
| "repository_error_text (SystemError e) = ''System metrics error: '' @ e"
| "repository_error_text (StateResolution e) = ''State resolution failed: '' @ e"
| "repository_error_text (ExternalService e) = ''External service error: '' @ e"

end
