(* ===== verification/Power_Hierarchy.thy ===== *)
theory Power_Hierarchy
  imports Prelude
begin

text \<open>
  What kicking, banning and similar actions promise: whoever may act on a member has a strictly
  higher power level, so the relation of acting on one another has no cycles and a member of
  highest level cannot be acted on. The room service and the federation engine are instances.
\<close>

locale power_hierarchy =
  fixes level :: "'u \<Rightarrow> int" and acts_on :: "'u \<Rightarrow> 'u \<Rightarrow> bool"
  assumes acts_above: "acts_on u v \<Longrightarrow> level v < level u"
begin

lemma acts_irrefl: "\<not> acts_on u u"
  using acts_above by blast

lemma acts_asym: "acts_on u v \<Longrightarrow> \<not> acts_on v u"
  by (meson acts_above less_asym)

lemma chain_above: "acts_on\<^sup>+\<^sup>+ u v \<Longrightarrow> level v < level u"
proof (induction rule: tranclp.induct)
  case (r_into_trancl u v)
  then show ?case by (rule acts_above)
next
  case (trancl_into_trancl u v w)
  then show ?case using acts_above by fastforce
qed

lemma no_cycle: "\<not> acts_on\<^sup>+\<^sup>+ u u"
  using chain_above by blast

lemma top_untouchable: "(\<And>u. level u \<le> level v) \<Longrightarrow> \<not> acts_on u v"
  using acts_above by (meson leD)

end

text \<open>An action that also asks for a level of its own, as kicking and banning do.\<close>

locale guarded_power_hierarchy = power_hierarchy +
  fixes required :: int
  assumes acts_required: "acts_on u v \<Longrightarrow> required \<le> level u"
begin

lemma chain_required: "acts_on\<^sup>+\<^sup>+ u v \<Longrightarrow> required \<le> level u"
  by (induction rule: tranclp.induct) (auto intro: acts_required)

lemma below_cannot_act: "level u < required \<Longrightarrow> \<not> acts_on\<^sup>+\<^sup>+ u v"
  using chain_required by (meson leD)

end

end
