(* ===== verification/Power_Levels.thy ===== *)
theory Power_Levels
  imports Entity Power_Hierarchy
begin

text \<open>
  Power levels on the client side: \<open>RoomRepository::get_room_power_levels\<close> of
  \<open>surrealdb/src/repository/room.rs\<close>, which reads the newest power levels event of a room, and the
  permission checks of \<open>server/src/room/power_levels.rs\<close> built on it. The rows the database
  returns and the membership lookup are arguments; HTTP status codes are the error values.
\<close>

section \<open>Reading power levels\<close>

definition i64_entries :: "json option \<Rightarrow> (string \<times> int) list" where
  "i64_entries v =
     (case Option.bind v as_object of
        None \<Rightarrow> []
      | Some obj \<Rightarrow> List.map_filter (\<lambda>(k, x). map_option (Pair k) (as_i64 x)) obj)"

definition i64_field :: "json \<Rightarrow> string \<Rightarrow> int \<Rightarrow> int" where
  "i64_field content k d = unwrap_or d (Option.bind (get content k) as_i64)"

definition power_levels_of_content :: "json \<Rightarrow> power_levels" where
  "power_levels_of_content content =
     \<lparr>pl_users_default = i64_field content ''users_default'' 0,
      pl_events_default = i64_field content ''events_default'' 0,
      pl_users = i64_entries (get content ''users''),
      pl_events = i64_entries (get content ''events''),
      pl_ban = i64_field content ''ban'' 50,
      pl_kick = i64_field content ''kick'' 50,
      pl_redact = i64_field content ''redact'' 50,
      pl_invite = i64_field content ''invite'' 50,
      pl_state_default = i64_field content ''state_default'' 50,
      pl_notifications_room = 50\<rparr>"

text \<open>The rows of the query for the newest power levels event of a room.\<close>

type_synonym level_rows = "string \<Rightarrow> repository_error + json list"

definition levels_of_rows :: "json list \<Rightarrow> power_levels" where
  "levels_of_rows events =
     (case events of
        [] \<Rightarrow> default_power_levels
      | row # _ \<Rightarrow>
          (case get row ''content'' of
             None \<Rightarrow> default_power_levels
           | Some content \<Rightarrow> power_levels_of_content content))"

definition repo_power_levels :: "level_rows \<Rightarrow> string \<Rightarrow> repository_error + power_levels" where
  "repo_power_levels rows room_id =
     bindR (rows room_id) (\<lambda>events. Inr (levels_of_rows events))"

section \<open>The validator\<close>

datatype status = FORBIDDEN | NOT_FOUND | INTERNAL_SERVER_ERROR

definition levels_json :: "(string \<times> int) list \<Rightarrow> json" where
  "levels_json m = JObject (map (\<lambda>(k, v). (k, int_json v)) m)"

definition power_levels_json :: "power_levels \<Rightarrow> json" where
  "power_levels_json pl = JObject
     [(''users'', levels_json (pl_users pl)),
      (''users_default'', int_json (pl_users_default pl)),
      (''events'', levels_json (pl_events pl)),
      (''events_default'', int_json (pl_events_default pl)),
      (''state_default'', int_json (pl_state_default pl)),
      (''ban'', int_json (pl_ban pl)),
      (''kick'', int_json (pl_kick pl)),
      (''redact'', int_json (pl_redact pl)),
      (''invite'', int_json (pl_invite pl))]"

definition get_default_power_levels :: json where
  "get_default_power_levels = JObject
     [(''users_default'', int_json 0), (''events_default'', int_json 0),
      (''state_default'', int_json 50), (''ban'', int_json 50), (''kick'', int_json 50),
      (''redact'', int_json 50), (''invite'', int_json 0), (''users'', JObject []),
      (''events'', JObject [])]"

definition get_room_power_levels :: "level_rows \<Rightarrow> string \<Rightarrow> status + json" where
  "get_room_power_levels rows room_id =
     (case repo_power_levels rows room_id of
        Inr pl \<Rightarrow> Inr (power_levels_json pl)
      | Inl _ \<Rightarrow> Inr get_default_power_levels)"

definition get_user_power_level :: "json \<Rightarrow> string \<Rightarrow> int" where
  "get_user_power_level power_levels user_id =
     (case Option.bind (Option.bind (get power_levels ''users'') as_object) (\<lambda>users.
             Option.bind (map_of users user_id) as_i64) of
        Some level \<Rightarrow> level
      | None \<Rightarrow> i64_field power_levels ''users_default'' 0)"

definition get_state_event_required_level :: "json \<Rightarrow> string \<Rightarrow> string \<Rightarrow> int" where
  "get_state_event_required_level power_levels event_type state_key =
     (case Option.bind (Option.bind (get power_levels ''events'') as_object) (\<lambda>events.
             Option.bind (map_of events event_type) as_i64) of
        Some level \<Rightarrow> level
      | None \<Rightarrow> i64_field power_levels ''state_default'' 50)"

definition check_invite_power ::
  "level_rows \<Rightarrow> string \<Rightarrow> string \<Rightarrow> string option \<Rightarrow> status + unit" where
  "check_invite_power rows room_id inviter_id target_id =
     bindR (get_room_power_levels rows room_id) (\<lambda>power_levels.
     let inviter_level = get_user_power_level power_levels inviter_id;
         required = i64_field power_levels ''invite'' 0
     in bindR (ensure (\<not> inviter_level < required) FORBIDDEN) (\<lambda>_.
        case target_id of
          None \<Rightarrow> Inr ()
        | Some target \<Rightarrow> ensure (\<not> inviter_level < get_user_power_level power_levels target) FORBIDDEN))"

definition check_kick_power :: "level_rows \<Rightarrow> string \<Rightarrow> string \<Rightarrow> string \<Rightarrow> status + unit" where
  "check_kick_power rows room_id kicker_id target_id =
     bindR (get_room_power_levels rows room_id) (\<lambda>power_levels.
     let kicker_level = get_user_power_level power_levels kicker_id;
         target_level = get_user_power_level power_levels target_id;
         required = i64_field power_levels ''kick'' 50
     in bindR (ensure (\<not> kicker_level < required) FORBIDDEN) (\<lambda>_.
        ensure (\<not> kicker_level \<le> target_level) FORBIDDEN))"

definition check_ban_power :: "level_rows \<Rightarrow> string \<Rightarrow> string \<Rightarrow> string \<Rightarrow> status + unit" where
  "check_ban_power rows room_id banner_id target_id =
     bindR (get_room_power_levels rows room_id) (\<lambda>power_levels.
     let banner_level = get_user_power_level power_levels banner_id;
         target_level = get_user_power_level power_levels target_id;
         required = i64_field power_levels ''ban'' 50
     in bindR (ensure (\<not> banner_level < required) FORBIDDEN) (\<lambda>_.
        ensure (\<not> banner_level \<le> target_level) FORBIDDEN))"

definition check_unban_power :: "level_rows \<Rightarrow> string \<Rightarrow> string \<Rightarrow> string \<Rightarrow> status + unit" where
  "check_unban_power rows room_id unbanner_id target_id =
     check_ban_power rows room_id unbanner_id target_id"

definition check_state_event_power ::
  "level_rows \<Rightarrow> string \<Rightarrow> string \<Rightarrow> string \<Rightarrow> string \<Rightarrow> status + unit" where
  "check_state_event_power rows room_id user_id event_type state_key =
     bindR (get_room_power_levels rows room_id) (\<lambda>power_levels.
     let user_level = get_user_power_level power_levels user_id;
         required = get_state_event_required_level power_levels event_type state_key
     in ensure (\<not> user_level < required) FORBIDDEN)"

definition check_redact_power :: "level_rows \<Rightarrow> string \<Rightarrow> string \<Rightarrow> string \<Rightarrow> status + unit" where
  "check_redact_power rows room_id redactor_id original_sender_id =
     (if redactor_id = original_sender_id then Inr ()
      else bindR (get_room_power_levels rows room_id) (\<lambda>power_levels.
           let redactor_level = get_user_power_level power_levels redactor_id;
               required = i64_field power_levels ''redact'' 50
           in ensure (\<not> redactor_level < required) FORBIDDEN))"

definition validate_power_hierarchy ::
  "level_rows \<Rightarrow> string \<Rightarrow> string \<Rightarrow> string \<Rightarrow> int \<Rightarrow> status + unit" where
  "validate_power_hierarchy rows room_id actor_id target_id required_level =
     bindR (get_room_power_levels rows room_id) (\<lambda>power_levels.
     let actor_level = get_user_power_level power_levels actor_id;
         target_level = get_user_power_level power_levels target_id
     in bindR (ensure (\<not> actor_level < required_level) FORBIDDEN) (\<lambda>_.
        ensure (\<not> actor_level \<le> target_level) FORBIDDEN))"

text \<open>The shared prefix of the two role checks: only joined members have a role.\<close>

definition member_level_reaches ::
  "(string \<Rightarrow> string \<Rightarrow> repository_error + membership option) \<Rightarrow> level_rows \<Rightarrow> string \<Rightarrow> string \<Rightarrow> int \<Rightarrow> status + bool"
where
  "member_level_reaches get_membership rows room_id user_id threshold =
     (case get_membership room_id user_id of
        Inl _ \<Rightarrow> Inl INTERNAL_SERVER_ERROR
      | Inr None \<Rightarrow> Inr False
      | Inr (Some m) \<Rightarrow>
          if m_membership m \<noteq> Join then Inr False
          else bindR (get_room_power_levels rows room_id) (\<lambda>power_levels.
               Inr (get_user_power_level power_levels user_id \<ge> threshold)))"

definition is_room_admin where
  "is_room_admin get_membership rows room_id user_id =
     member_level_reaches get_membership rows room_id user_id 50"

definition is_room_owner where
  "is_room_owner get_membership rows room_id user_id =
     member_level_reaches get_membership rows room_id user_id 100"

text \<open>\<open>bulk_rows\<close> is the result of the bulk query for the room and the listed users.\<close>

definition get_bulk_user_power_levels ::
  "level_rows \<Rightarrow> (string \<Rightarrow> string list \<Rightarrow> json list option) \<Rightarrow> string \<Rightarrow> string list \<Rightarrow>
   status + (string \<times> int) list" where
  "get_bulk_user_power_levels rows bulk_rows room_id user_ids =
     bindR (get_room_power_levels rows room_id) (\<lambda>power_levels.
     let users_default = i64_field power_levels ''users_default'' 0 in
     bindR (ok_or (bulk_rows room_id user_ids) INTERNAL_SERVER_ERROR) (\<lambda>db_results.
     Inr (map (\<lambda>user_id.
            (user_id,
             unwrap_or users_default
               (Option.bind (find (\<lambda>r. Option.bind (get r ''user_id'') as_str = Some user_id) db_results)
                 (\<lambda>r. Option.bind (get r ''power_level'') as_i64)))) user_ids)))"

section \<open>What the checks decide\<close>

text \<open>The levels in force in a room: those read, or the defaults when reading fails.\<close>

definition levels_in_force :: "level_rows \<Rightarrow> string \<Rightarrow> power_levels" where
  "levels_in_force rows room_id =
     (case repo_power_levels rows room_id of
        Inr pl \<Rightarrow> pl
      | Inl _ \<Rightarrow> default_power_levels\<lparr>pl_invite := 0\<rparr>)"

text \<open>All levels are 64-bit values, so the detour through JSON loses nothing.\<close>

definition levels_wf :: "power_levels \<Rightarrow> bool" where
  "levels_wf pl =
     (list_all in_i64 [pl_users_default pl, pl_events_default pl, pl_ban pl, pl_kick pl, pl_redact pl,
        pl_invite pl, pl_state_default pl] \<and>
      list_all (\<lambda>(k, v). in_i64 v) (pl_users pl) \<and> list_all (\<lambda>(k, v). in_i64 v) (pl_events pl))"

lemma in_i64_small: "in_i64 0" "in_i64 50" "in_i64 100"
  by (simp_all add: in_i64_def i64_min_def i64_max_def)

lemma i64_field_in_range: "in_i64 d \<Longrightarrow> in_i64 (i64_field content k d)"
  by (cases "Option.bind (get content k) as_i64")
    (auto simp: i64_field_def bind_eq_Some_conv intro: as_i64_in_range)

lemma i64_entries_in_range: "list_all (\<lambda>(k, v). in_i64 v) (i64_entries v)"
proof -
  have "list_all (\<lambda>(k, v). in_i64 v) (List.map_filter (\<lambda>(k, x). map_option (Pair k) (as_i64 x)) obj)" for obj
    by (induction obj) (auto simp: map_filter_simps as_i64_in_range split: option.splits)
  then show ?thesis by (auto simp: i64_entries_def split: option.splits)
qed

lemma levels_wf_default: "levels_wf default_power_levels" "levels_wf (default_power_levels\<lparr>pl_invite := 0\<rparr>)"
  by (simp_all add: levels_wf_def default_power_levels_def in_i64_small)

lemma levels_wf_content: "levels_wf (power_levels_of_content content)"
  by (simp add: levels_wf_def power_levels_of_content_def i64_field_in_range i64_entries_in_range
      in_i64_small)

lemma levels_in_force_wf: "levels_wf (levels_in_force rows room_id)"
  by (cases "rows room_id")
    (auto simp: levels_in_force_def repo_power_levels_def levels_of_rows_def levels_wf_default
      levels_wf_content split: list.splits option.splits)

lemma get_room_power_levels_eq:
  "get_room_power_levels rows room_id =
     (case repo_power_levels rows room_id of
        Inr pl \<Rightarrow> Inr (power_levels_json (levels_in_force rows room_id))
      | Inl _ \<Rightarrow> Inr get_default_power_levels)"
  by (simp add: get_room_power_levels_def levels_in_force_def split: sum.splits)

lemma map_of_levels_json:
  "list_all (\<lambda>(k, v). in_i64 v) m \<Longrightarrow>
     Option.bind (map_of (map (\<lambda>(k, v). (k, int_json v)) m) u) as_i64 = map_of m u"
  by (induction m) auto

text \<open>The answers of the lookups on the JSON are those of the record.\<close>

lemma json_lookups:
  assumes "get_room_power_levels rows room_id = Inr j"
  shows "get_user_power_level j u = get_user_level (levels_in_force rows room_id) u"
    and "i64_field j ''ban'' 50 = pl_ban (levels_in_force rows room_id)"
    and "i64_field j ''kick'' 50 = pl_kick (levels_in_force rows room_id)"
    and "i64_field j ''redact'' 50 = pl_redact (levels_in_force rows room_id)"
    and "i64_field j ''invite'' 0 = pl_invite (levels_in_force rows room_id)"
    and "get_state_event_required_level j t k =
           unwrap_or (pl_state_default (levels_in_force rows room_id))
             (map_of (pl_events (levels_in_force rows room_id)) t)"
proof -
  let ?pl = "levels_in_force rows room_id"
  have wf: "levels_wf ?pl" by (rule levels_in_force_wf)
  have "get_user_power_level j u = get_user_level ?pl u \<and>
    i64_field j ''ban'' 50 = pl_ban ?pl \<and> i64_field j ''kick'' 50 = pl_kick ?pl \<and>
    i64_field j ''redact'' 50 = pl_redact ?pl \<and> i64_field j ''invite'' 0 = pl_invite ?pl \<and>
    get_state_event_required_level j t k = unwrap_or (pl_state_default ?pl) (map_of (pl_events ?pl) t)"
  proof (cases "repo_power_levels rows room_id")
    case (Inl e)
    then have "j = get_default_power_levels" using assms by (simp add: get_room_power_levels_eq)
    with Inl show ?thesis
      by (simp add: levels_in_force_def get_default_power_levels_def
          get_user_power_level_def get_state_event_required_level_def i64_field_def get_user_level_def
          default_power_levels_def in_i64_small)
  next
    case (Inr pl)
    then have "j = power_levels_json ?pl" using assms by (simp add: get_room_power_levels_eq)
    with wf show ?thesis
      by (auto simp: power_levels_json_def levels_json_def get_user_power_level_def i64_field_def
          get_state_event_required_level_def get_user_level_def map_of_levels_json levels_wf_def
          split: option.splits)
  qed
  then show "get_user_power_level j u = get_user_level ?pl u"
    "i64_field j ''ban'' 50 = pl_ban ?pl" "i64_field j ''kick'' 50 = pl_kick ?pl"
    "i64_field j ''redact'' 50 = pl_redact ?pl" "i64_field j ''invite'' 0 = pl_invite ?pl"
    "get_state_event_required_level j t k = unwrap_or (pl_state_default ?pl) (map_of (pl_events ?pl) t)"
    by auto
qed

lemma levels_available: "\<exists>j. get_room_power_levels rows room_id = Inr j"
  by (simp add: get_room_power_levels_def split: sum.splits)

lemma check_kick_iff:
  "check_kick_power rows r u v = Inr x \<longleftrightarrow>
     pl_kick (levels_in_force rows r) \<le> get_user_level (levels_in_force rows r) u \<and>
     get_user_level (levels_in_force rows r) v < get_user_level (levels_in_force rows r) u"
  using levels_available [of rows r]
  by (auto simp: check_kick_power_def Let_def result_simps json_lookups)

lemma check_ban_iff:
  "check_ban_power rows r u v = Inr x \<longleftrightarrow>
     pl_ban (levels_in_force rows r) \<le> get_user_level (levels_in_force rows r) u \<and>
     get_user_level (levels_in_force rows r) v < get_user_level (levels_in_force rows r) u"
  using levels_available [of rows r]
  by (auto simp: check_ban_power_def Let_def result_simps json_lookups)

lemma validate_power_hierarchy_iff:
  "validate_power_hierarchy rows r u v n = Inr x \<longleftrightarrow>
     n \<le> get_user_level (levels_in_force rows r) u \<and>
     get_user_level (levels_in_force rows r) v < get_user_level (levels_in_force rows r) u"
  using levels_available [of rows r]
  by (auto simp: validate_power_hierarchy_def Let_def result_simps json_lookups)

interpretation room_kick: guarded_power_hierarchy "get_user_level (levels_in_force rows r)"
  "\<lambda>u v. check_kick_power rows r u v = Inr ()" "pl_kick (levels_in_force rows r)" for rows r
  by unfold_locales (auto simp: check_kick_iff)

interpretation room_ban: guarded_power_hierarchy "get_user_level (levels_in_force rows r)"
  "\<lambda>u v. check_ban_power rows r u v = Inr ()" "pl_ban (levels_in_force rows r)" for rows r
  by unfold_locales (auto simp: check_ban_iff)

interpretation room_action: guarded_power_hierarchy "get_user_level (levels_in_force rows r)"
  "\<lambda>u v. validate_power_hierarchy rows r u v n = Inr ()" n for rows r n
  by unfold_locales (auto simp: validate_power_hierarchy_iff)

section \<open>Claims\<close>

text \<open>
  The moderation checks decide exactly by the levels in force: kick and ban need the level
  configured for the action and a strictly higher level than the target, unban is ban, a redaction
  of one's own event is always allowed, and no chain of kicks leads from a user back to that user.
\<close>

theorem moderation_decisions:
  "(check_kick_power rows r u v = Inr () \<longleftrightarrow>
      pl_kick (levels_in_force rows r) \<le> get_user_level (levels_in_force rows r) u \<and>
      get_user_level (levels_in_force rows r) v < get_user_level (levels_in_force rows r) u) \<and>
   (check_ban_power rows r u v = Inr () \<longleftrightarrow>
      pl_ban (levels_in_force rows r) \<le> get_user_level (levels_in_force rows r) u \<and>
      get_user_level (levels_in_force rows r) v < get_user_level (levels_in_force rows r) u) \<and>
   check_unban_power rows r u v = check_ban_power rows r u v \<and>
   check_redact_power rows r u u = Inr () \<and>
   \<not> (\<lambda>u v. check_kick_power rows r u v = Inr ())\<^sup>+\<^sup>+ u u"
  using room_kick.no_cycle
  by (simp add: check_kick_iff check_ban_iff check_unban_power_def check_redact_power_def)

text \<open>
  Inviting needs level 50 in every room whose power levels are readable but do not mention
  \<open>invite\<close>, and level 0 when they cannot be read, whatever the documented default of 0.
\<close>

theorem invite_default_level:
  assumes "rows r = Inr events"
    and "\<And>row content. events = [row] \<Longrightarrow> get row ''content'' = Some content \<Longrightarrow> get content ''invite'' = None"
    and "length events \<le> 1"
  shows "check_invite_power rows r u None = Inr () \<longleftrightarrow> 50 \<le> get_user_level (levels_in_force rows r) u"
proof -
  have "pl_invite (levels_in_force rows r) = 50"
  proof (cases events)
    case Nil
    with assms(1) show ?thesis
      by (simp add: levels_in_force_def repo_power_levels_def levels_of_rows_def default_power_levels_def)
  next
    case (Cons row rest)
    with assms(3) have "events = [row]" by simp
    with assms(1,2) show ?thesis
      by (cases "get row ''content''")
        (auto simp: levels_in_force_def repo_power_levels_def levels_of_rows_def
          default_power_levels_def power_levels_of_content_def i64_field_def)
  qed
  then show ?thesis
    using levels_available [of rows r]
    by (auto simp: check_invite_power_def Let_def result_simps json_lookups)
qed

lemma map_of_i64_entries:
  "distinct (map fst obj) \<Longrightarrow>
     map_of (List.map_filter (\<lambda>(k, x). map_option (Pair k) (as_i64 x)) obj) u =
       Option.bind (map_of obj u) as_i64"
proof (induction obj)
  case Nil
  show ?case by (simp add: map_filter_simps)
next
  case (Cons a obj)
  obtain k x where a: "a = (k, x)" by (cases a)
  show ?case
  proof (cases "as_i64 x")
    case None
    moreover have "map_of obj k = None" using Cons.prems a by (simp add: map_of_eq_None_iff)
    ultimately show ?thesis using Cons a by (auto simp: map_filter_simps)
  next
    case (Some n)
    then show ?thesis using Cons a by (simp add: map_filter_simps)
  qed
qed

section \<open>Witnesses\<close>

theorem invite_default_level_witness:
  "check_invite_power (\<lambda>r. Inr []) ''!r:x'' ''@u:x'' None \<noteq> Inr ()"
  using invite_default_level [of "\<lambda>r. Inr []" "''!r:x''" "[]" "''@u:x''"]
  by (simp add: levels_in_force_def repo_power_levels_def levels_of_rows_def get_user_level_def
      default_power_levels_def)

end
