(* ===== verification/Level_Repository.thy ===== *)
theory Level_Repository
  imports Power_Levels
begin

text \<open>
  The power levels repository \<open>surrealdb/src/repository/power_levels.rs\<close>, with its 32-bit levels, and
  the operation \<open>update_room_state_event\<close> of \<open>surrealdb/src/repository/event.rs\<close> that asks it.
  Power levels are read from the event table, the newest event first, and written by storing an
  event. A hash map is the list of its entries. A query fails when \<open>lw_fail\<close> gives an error for it;
  clock readings and identifiers are arguments.
\<close>

section \<open>The event table\<close>

datatype level_call = LevelQuery | EventCreate

record level_world =
  lw_fail :: "level_call \<Rightarrow> repository_error option"
  lw_exists_error :: repository_error

definition level_result :: "level_world \<Rightarrow> level_call \<Rightarrow> 'a \<Rightarrow> repository_error + 'a" where
  "level_result w call x = (case lw_fail w call of Some e \<Rightarrow> Inl e | None \<Rightarrow> Inr x)"

text \<open>A record is created under the identifier of the event, and an existing record is an error.\<close>

definition event_repo_create ::
  "level_world \<Rightarrow> event \<Rightarrow> event list \<Rightarrow> (repository_error + event) \<times> event list" where
  "event_repo_create w e es =
     (case lw_fail w EventCreate of
        Some err \<Rightarrow> (Inl err, es)
      | None \<Rightarrow> if ev_event_id e \<in> ev_event_id ` set es then (Inl (lw_exists_error w), es) else (Inr e, es @ [e]))"

definition newest_ts_first :: "event list \<Rightarrow> event list" where
  "newest_ts_first es = sort_key (\<lambda>e. - ev_origin_server_ts e) es"

definition level_rows_of :: "string \<Rightarrow> event list \<Rightarrow> json list" where
  "level_rows_of room_id es =
     map (\<lambda>e. JObject [(''content'', content_to_value (ev_content e))])
       (take 1 (newest_ts_first (filter (\<lambda>e. ev_room_id e = room_id \<and> ev_event_type e = ''m.room.power_levels'' \<and>
          ev_state_key e = Some []) es)))"

section \<open>Levels of 32 bits\<close>

definition i32_wrap :: "int \<Rightarrow> int" where
  "i32_wrap x = (x + 2 ^ 31) mod 2 ^ 32 - 2 ^ 31"

definition in_i32 :: "int \<Rightarrow> bool" where
  "in_i32 x \<longleftrightarrow> - (2 ^ 31) \<le> x \<and> x < 2 ^ 31"

record level_table =
  lt_users :: "(string \<times> int) list"
  lt_users_default :: int
  lt_events :: "(string \<times> int) list"
  lt_events_default :: int
  lt_state_default :: int
  lt_ban :: int
  lt_kick :: int
  lt_redact :: int
  lt_invite :: int

datatype level_action =
    L_Ban | L_Kick | L_Invite | L_Redact | L_SendMessage | L_SendState string | L_ChangeSettings | L_ChangePowerLevels

definition i32_entries :: "json option \<Rightarrow> (string \<times> int) list" where
  "i32_entries v = map (\<lambda>(k, i). (k, i32_wrap i)) (i64_entries v)"

definition level_table_of_content :: "json \<Rightarrow> level_table" where
  "level_table_of_content content =
     \<lparr>lt_users = i32_entries (get content ''users''),
      lt_users_default = i32_wrap (i64_field content ''users_default'' 0),
      lt_events = i32_entries (get content ''events''),
      lt_events_default = i32_wrap (i64_field content ''events_default'' 0),
      lt_state_default = i32_wrap (i64_field content ''state_default'' 50),
      lt_ban = i32_wrap (i64_field content ''ban'' 50),
      lt_kick = i32_wrap (i64_field content ''kick'' 50),
      lt_redact = i32_wrap (i64_field content ''redact'' 50),
      lt_invite = i32_wrap (i64_field content ''invite'' 50)\<rparr>"

definition default_level_table :: level_table where
  "default_level_table =
     \<lparr>lt_users = [], lt_users_default = 0, lt_events = [], lt_events_default = 0, lt_state_default = 50,
      lt_ban = 50, lt_kick = 50, lt_redact = 50, lt_invite = 50\<rparr>"

definition level_table_of_rows :: "json list \<Rightarrow> level_table" where
  "level_table_of_rows events =
     (case Option.bind (case events of [] \<Rightarrow> None | e # _ \<Rightarrow> Some e) (\<lambda>e. get e ''content'') of
        Some content \<Rightarrow> level_table_of_content content
      | None \<Rightarrow> default_level_table)"

definition get_power_levels :: "level_world \<Rightarrow> string \<Rightarrow> event list \<Rightarrow> repository_error + level_table" where
  "get_power_levels w room_id es =
     bindR (level_result w LevelQuery (level_rows_of room_id es)) (\<lambda>events. Inr (level_table_of_rows events))"

definition level_of :: "level_table \<Rightarrow> string \<Rightarrow> int" where
  "level_of lt user_id = unwrap_or (lt_users_default lt) (map_of (lt_users lt) user_id)"

definition repo_user_power_level :: "level_world \<Rightarrow> string \<Rightarrow> string \<Rightarrow> event list \<Rightarrow> repository_error + int" where
  "repo_user_power_level w room_id user_id es =
     bindR (get_power_levels w room_id es) (\<lambda>power_levels. Inr (level_of power_levels user_id))"

fun required_level :: "level_table \<Rightarrow> level_action \<Rightarrow> int" where
  "required_level lt L_Ban = lt_ban lt"
| "required_level lt L_Kick = lt_kick lt"
| "required_level lt L_Invite = lt_invite lt"
| "required_level lt L_Redact = lt_redact lt"
| "required_level lt L_SendMessage = lt_events_default lt"
| "required_level lt (L_SendState event_type) = unwrap_or (lt_state_default lt) (map_of (lt_events lt) event_type)"
| "required_level lt L_ChangeSettings = lt_state_default lt"
| "required_level lt L_ChangePowerLevels = unwrap_or 100 (map_of (lt_events lt) ''m.room.power_levels'')"

definition can_user_perform_action ::
  "level_world \<Rightarrow> string \<Rightarrow> string \<Rightarrow> level_action \<Rightarrow> event list \<Rightarrow> repository_error + bool" where
  "can_user_perform_action w room_id user_id action es =
     bindR (repo_user_power_level w room_id user_id es) (\<lambda>user_level.
     bindR (get_power_levels w room_id es) (\<lambda>power_levels.
     Inr (user_level \<ge> required_level power_levels action)))"

definition repo_validate_power_level_change ::
  "level_world \<Rightarrow> string \<Rightarrow> string \<Rightarrow> string \<Rightarrow> int \<Rightarrow> event list \<Rightarrow> repository_error + bool" where
  "repo_validate_power_level_change w room_id user_id target_user new_level es =
     bindR (repo_user_power_level w room_id user_id es) (\<lambda>user_level.
     bindR (repo_user_power_level w room_id target_user es) (\<lambda>target_current_level.
     bindR (can_user_perform_action w room_id user_id L_ChangePowerLevels es) (\<lambda>can_change_power_levels.
     Inr (can_change_power_levels \<and> user_level > target_current_level \<and> user_level > new_level))))"

section \<open>Changing the levels\<close>

definition check_user_change :: "level_table \<Rightarrow> int \<Rightarrow> string \<times> int \<Rightarrow> repository_error + unit" where
  "check_user_change current sender_power entry =
     (case entry of (user_id, new_level) \<Rightarrow>
        let old_level = level_of current user_id in
        bindR (ensure (\<not> (new_level < old_level \<and> sender_power \<le> old_level))
          (Forbidden (''Cannot demote user '' @ user_id @ '' with equal or higher power level''))) (\<lambda>_.
        ensure (\<not> (new_level > old_level \<and> sender_power < new_level))
          (Forbidden (''Cannot promote user '' @ user_id @ '' above your power level''))))"

definition check_event_change :: "int \<Rightarrow> string \<times> int \<Rightarrow> repository_error + unit" where
  "check_event_change sender_power entry =
     (case entry of (event_type, new_level) \<Rightarrow>
        ensure (\<not> sender_power < new_level)
          (Forbidden (''Cannot set power level for '' @ event_type @ '' above your own level'')))"

definition level_table_json :: "level_table \<Rightarrow> json" where
  "level_table_json lt = JObject
     [(''users'', levels_json (lt_users lt)),
      (''users_default'', int_json (lt_users_default lt)),
      (''events'', levels_json (lt_events lt)),
      (''events_default'', int_json (lt_events_default lt)),
      (''state_default'', int_json (lt_state_default lt)),
      (''ban'', int_json (lt_ban lt)),
      (''kick'', int_json (lt_kick lt)),
      (''redact'', int_json (lt_redact lt)),
      (''invite'', int_json (lt_invite lt))]"

definition levels_event :: "string \<Rightarrow> int \<Rightarrow> string \<Rightarrow> string \<Rightarrow> level_table \<Rightarrow> event" where
  "levels_event uuid now room_id sender_id lt =
     (new_event (''$'' @ uuid) sender_id now ''m.room.power_levels'' room_id (Unknown (level_table_json lt)))
     \<lparr>ev_state_key := Some [], ev_outlier := Some False, ev_received_ts := Some now, ev_soft_failed := Some False\<rparr>"

definition check_level_changes :: "level_table \<Rightarrow> string \<Rightarrow> level_table \<Rightarrow> repository_error + unit" where
  "check_level_changes current sender_id new =
     (let sender_power = level_of current sender_id;
          required_power = unwrap_or 100 (map_of (lt_events current) ''m.room.power_levels'') in
      bindR (ensure (\<not> sender_power < required_power)
        (Forbidden (''Insufficient power level to change power levels: '' @ show_int sender_power @ '' < '' @
           show_int required_power))) (\<lambda>_.
      bindR (for_each (check_user_change current sender_power) (lt_users new)) (\<lambda>_.
      bindR (for_each (check_event_change sender_power) (lt_events new)) (\<lambda>_.
      case map_of (lt_users new) sender_id of
        None \<Rightarrow> Inr ()
      | Some new_level \<Rightarrow> ensure (\<not> new_level > sender_power) (Forbidden ''Cannot increase own power level'')))))"

definition update_power_levels ::
  "level_world \<Rightarrow> string \<Rightarrow> int \<Rightarrow> string \<Rightarrow> string \<Rightarrow> level_table \<Rightarrow> event list \<Rightarrow> (repository_error + unit) \<times> event list" where
  "update_power_levels w uuid now room_id sender_id new es =
     (case bindR (get_power_levels w room_id es) (\<lambda>current. check_level_changes current sender_id new) of
        Inl e \<Rightarrow> (Inl e, es)
      | Inr _ \<Rightarrow>
          (case event_repo_create w (levels_event uuid now room_id sender_id new) es of
             (Inl e, es') \<Rightarrow> (Inl e, es')
           | (Inr _, es') \<Rightarrow> (Inr (), es')))"

section \<open>Storing a state event\<close>

definition string_member :: "json \<Rightarrow> string \<Rightarrow> string \<Rightarrow> repository_error + unit" where
  "string_member content k message =
     (case get content k of
        Some v \<Rightarrow> ensure (as_str v \<noteq> None) (Validation k message)
      | None \<Rightarrow> Inr ())"

definition repo_state_content :: "string \<Rightarrow> json \<Rightarrow> repository_error + unit" where
  "repo_state_content event_type content =
     (if event_type = ''m.room.name'' then string_member content ''name'' ''m.room.name content.name must be a string''
      else if event_type = ''m.room.topic'' then string_member content ''topic'' ''m.room.topic content.topic must be a string''
      else if event_type = ''m.room.avatar'' then string_member content ''url'' ''m.room.avatar content.url must be a string''
      else if event_type = ''m.room.canonical_alias''
      then (case get content ''alias'' of
              Some v \<Rightarrow> ensure (as_str v \<noteq> None \<or> v = JNull)
                (Validation ''alias'' ''m.room.canonical_alias content.alias must be a string or null'')
            | None \<Rightarrow> Inr ())
      else Inr ())"

definition update_room_state_event ::
  "level_world \<Rightarrow> string \<Rightarrow> int \<Rightarrow> string \<Rightarrow> string \<Rightarrow> string \<Rightarrow> json \<Rightarrow> string \<Rightarrow> string \<Rightarrow> event list \<Rightarrow>
   (repository_error + event) \<times> event list" where
  "update_room_state_event w uuid now room_id event_type state_key content sender server_name es =
     (case bindR (repo_state_content event_type content) (\<lambda>_.
           bindR (can_user_perform_action w room_id sender (L_SendState event_type) es) (\<lambda>can_send.
           ensure can_send (Forbidden (''User '' @ sender @ '' does not have permission to send '' @ event_type @
             '' state events in room '' @ room_id)))) of
        Inl e \<Rightarrow> (Inl e, es)
      | Inr _ \<Rightarrow>
          event_repo_create w
            ((new_event (''$'' @ uuid @ '':'' @ server_name) sender now event_type room_id (Unknown content))
             \<lparr>ev_state_key := Some state_key, ev_prev_events := Some [], ev_auth_events := Some [], ev_depth := Some 1,
              ev_hashes := Some [], ev_signatures := Some [], ev_outlier := Some False, ev_received_ts := Some now\<rparr>) es)"

section \<open>Reading back\<close>

lemma level_result_Inr_iff [result_simps]: "level_result w call x = Inr y \<longleftrightarrow> lw_fail w call = None \<and> y = x"
  by (auto simp: level_result_def split: option.splits)

lemma event_repo_create_Inr_iff:
  "event_repo_create w e es = (Inr x, es') \<longleftrightarrow>
     lw_fail w EventCreate = None \<and> ev_event_id e \<notin> ev_event_id ` set es \<and> x = e \<and> es' = es @ [e]"
  by (auto simp: event_repo_create_def split: option.splits if_splits)

lemma i32_wrap_id [simp]: "in_i32 x \<Longrightarrow> i32_wrap x = x"
  by (simp add: in_i32_def i32_wrap_def)

lemma in_i32_wrap: "in_i32 (i32_wrap x)"
proof -
  have "0 \<le> (x + 2 ^ 31) mod 2 ^ 32" and "(x + 2 ^ 31) mod 2 ^ 32 < (2 ^ 32 :: int)" by simp_all
  then show ?thesis by (simp add: in_i32_def i32_wrap_def)
qed

lemma i32_in_i64: "in_i32 x \<Longrightarrow> in_i64 x"
  by (simp add: in_i32_def in_i64_def i64_min_def i64_max_def)

text \<open>An event that is newer than all others comes first.\<close>

lemma sort_key_least_last: "\<forall>x \<in> set xs. f y < f x \<Longrightarrow> sort_key f (xs @ [y]) = y # sort_key f xs"
  by (induction xs) auto

lemma newest_ts_last:
  "\<forall>x \<in> set es. ev_origin_server_ts x < ev_origin_server_ts e \<Longrightarrow> newest_ts_first (es @ [e]) = e # newest_ts_first es"
  by (simp add: newest_ts_first_def sort_key_least_last)

definition levels_stored_before :: "int \<Rightarrow> string \<Rightarrow> event list \<Rightarrow> bool" where
  "levels_stored_before now room_id es \<longleftrightarrow>
     list_all (\<lambda>e. ev_room_id e = room_id \<and> ev_event_type e = ''m.room.power_levels'' \<longrightarrow> ev_origin_server_ts e < now) es"

lemma level_rows_new:
  assumes "levels_stored_before (ev_origin_server_ts e) (ev_room_id e) es"
    and "ev_event_type e = ''m.room.power_levels''" and "ev_state_key e = Some []"
  shows "level_rows_of (ev_room_id e) (es @ [e]) = [JObject [(''content'', content_to_value (ev_content e))]]"
proof -
  let ?p = "\<lambda>x. ev_room_id x = ev_room_id e \<and> ev_event_type x = ''m.room.power_levels'' \<and> ev_state_key x = Some []"
  have "filter ?p (es @ [e]) = filter ?p es @ [e]" using assms(2,3) by simp
  moreover have "newest_ts_first (filter ?p es @ [e]) = e # newest_ts_first (filter ?p es)"
    using assms(1) by (intro newest_ts_last) (auto simp: levels_stored_before_def list_all_iff)
  ultimately show ?thesis by (simp add: level_rows_of_def)
qed

lemma get_power_levels_new:
  assumes "lw_fail w LevelQuery = None"
    and "levels_stored_before (ev_origin_server_ts e) (ev_room_id e) es"
    and "ev_event_type e = ''m.room.power_levels''" and "ev_state_key e = Some []" and "ev_room_id e = room_id"
  shows "get_power_levels w room_id (es @ [e]) = Inr (level_table_of_content (content_to_value (ev_content e)))"
  using level_rows_new [OF assms(2-4)] assms(1,5)
  by (simp add: get_power_levels_def level_result_def level_table_of_rows_def)

text \<open>A table whose levels fit their width is read back as it was written.\<close>

definition level_table_wf :: "level_table \<Rightarrow> bool" where
  "level_table_wf lt \<longleftrightarrow>
     list_all in_i32 [lt_users_default lt, lt_events_default lt, lt_state_default lt, lt_ban lt, lt_kick lt,
       lt_redact lt, lt_invite lt] \<and>
     list_all (\<lambda>(k, i). in_i32 i) (lt_users lt) \<and> list_all (\<lambda>(k, i). in_i32 i) (lt_events lt)"

lemma i32_entries_levels_json: "list_all (\<lambda>(k, i). in_i32 i) m \<Longrightarrow> i32_entries (Some (levels_json m)) = m"
  by (induction m) (auto simp: i32_entries_def i64_entries_def levels_json_def map_filter_simps i32_in_i64)

lemma level_table_json_reads: "level_table_wf lt \<Longrightarrow> level_table_of_content (level_table_json lt) = lt"
  by (auto simp: level_table_of_content_def level_table_json_def level_table_wf_def i64_field_def i32_in_i64
      i32_entries_levels_json)

lemma level_table_of_content_wf: "level_table_wf (level_table_of_content content)"
  by (auto simp: level_table_wf_def level_table_of_content_def i32_entries_def in_i32_wrap list_all_iff)

lemma default_level_table_wf: "level_table_wf default_level_table"
  by (simp add: level_table_wf_def default_level_table_def in_i32_def)

lemma levels_always_wf: "get_power_levels w room_id es = Inr lt \<Longrightarrow> level_table_wf lt"
  by (auto simp: get_power_levels_def result_simps level_table_of_rows_def level_table_of_content_wf
      default_level_table_wf split: option.splits)

lemma check_level_changes_Inr_iff:
  "check_level_changes current sender_id new = Inr u \<longleftrightarrow>
     required_level current L_ChangePowerLevels \<le> level_of current sender_id \<and>
     (\<forall>(v, n) \<in> set (lt_users new). (n < level_of current v \<longrightarrow> level_of current v < level_of current sender_id) \<and>
        (n > level_of current v \<longrightarrow> n \<le> level_of current sender_id)) \<and>
     (\<forall>(t, n) \<in> set (lt_events new). n \<le> level_of current sender_id) \<and>
     (\<forall>n. map_of (lt_users new) sender_id = Some n \<longrightarrow> n \<le> level_of current sender_id)"
  by (auto simp: check_level_changes_def Let_def result_simps check_user_change_def check_event_change_def not_less
      not_le split: option.splits)

lemma update_power_levels_ok_iff:
  "update_power_levels w uuid now room_id sender_id new es = (Inr u, es') \<longleftrightarrow>
     (\<exists>current. get_power_levels w room_id es = Inr current \<and> check_level_changes current sender_id new = Inr ()) \<and>
     lw_fail w EventCreate = None \<and> ''$'' @ uuid \<notin> ev_event_id ` set es \<and>
     es' = es @ [levels_event uuid now room_id sender_id new]"
proof -
  have "ev_event_id (levels_event uuid now room_id sender_id new) = ''$'' @ uuid"
    by (simp add: levels_event_def new_event_def)
  then show ?thesis
    by (auto simp: update_power_levels_def result_simps event_repo_create_def
        split: sum.splits option.splits if_splits)
qed

text \<open>The 32-bit table is the 64-bit one with every level narrowed.\<close>

definition narrow :: "power_levels \<Rightarrow> level_table" where
  "narrow pl =
     \<lparr>lt_users = map (\<lambda>(k, i). (k, i32_wrap i)) (pl_users pl), lt_users_default = i32_wrap (pl_users_default pl),
      lt_events = map (\<lambda>(k, i). (k, i32_wrap i)) (pl_events pl), lt_events_default = i32_wrap (pl_events_default pl),
      lt_state_default = i32_wrap (pl_state_default pl), lt_ban = i32_wrap (pl_ban pl), lt_kick = i32_wrap (pl_kick pl),
      lt_redact = i32_wrap (pl_redact pl), lt_invite = i32_wrap (pl_invite pl)\<rparr>"

lemma level_table_narrow: "level_table_of_rows rows = narrow (levels_of_rows rows)"
  by (auto simp: level_table_of_rows_def levels_of_rows_def narrow_def default_level_table_def default_power_levels_def
      level_table_of_content_def power_levels_of_content_def i32_entries_def in_i32_def split: list.splits option.splits)

lemma map_of_narrow: "map_of (map (\<lambda>(k, i). (k, i32_wrap i)) m) u = map_option i32_wrap (map_of m u)"
  by (induction m) auto

lemma level_of_narrow: "level_of (narrow pl) u = i32_wrap (get_user_level pl u)"
  by (cases "map_of (pl_users pl) u") (simp_all add: level_of_def narrow_def get_user_level_def map_of_narrow)

lemma state_level_narrow:
  "required_level (narrow pl) (L_SendState t) = i32_wrap (unwrap_or (pl_state_default pl) (map_of (pl_events pl) t))"
  by (cases "map_of (pl_events pl) t") (simp_all add: narrow_def map_of_narrow)

lemma can_perform_iff:
  "can_user_perform_action w room_id user_id action es = Inr b \<longleftrightarrow>
     (\<exists>lt. get_power_levels w room_id es = Inr lt \<and> b = (required_level lt action \<le> level_of lt user_id))"
  by (auto simp: can_user_perform_action_def repo_user_power_level_def result_simps)

lemma check_state_event_iff:
  "check_state_event_power rows r u t k = Inr x \<longleftrightarrow>
     unwrap_or (pl_state_default (levels_in_force rows r)) (map_of (pl_events (levels_in_force rows r)) t)
       \<le> get_user_level (levels_in_force rows r) u"
  using levels_available [of rows r]
  by (auto simp: check_state_event_power_def Let_def result_simps json_lookups not_less)

lemma update_reads_new:
  assumes "update_power_levels w uuid now room_id sender_id new es = (Inr (), es')"
    and "level_table_wf new" and "levels_stored_before now room_id es"
  shows "get_power_levels w room_id es' = Inr new"
proof -
  have es': "es' = es @ [levels_event uuid now room_id sender_id new]" and "lw_fail w LevelQuery = None"
    using assms(1) by (auto simp: update_power_levels_ok_iff get_power_levels_def result_simps)
  then show ?thesis
    using get_power_levels_new [of w "levels_event uuid now room_id sender_id new" es room_id] assms(3)
    by (simp add: levels_event_def new_event_def level_table_json_reads [OF assms(2)])
qed

section \<open>Claims\<close>

text \<open>
  A change of the power levels that is accepted was asked for by a user at the level the change
  needs. No listed user ends above both their old level and the level of the sender, nobody at or
  above the sender is demoted, no event type is set above the sender, and the sender gains nothing
  by their own entry; the table gains exactly the event with the new levels.
\<close>

theorem level_update_sound:
  assumes "update_power_levels w uuid now room_id sender_id new es = (Inr (), es')"
  shows "\<exists>current. get_power_levels w room_id es = Inr current \<and>
     required_level current L_ChangePowerLevels \<le> level_of current sender_id \<and>
     (\<forall>u n. (u, n) \<in> set (lt_users new) \<longrightarrow>
        n \<le> max (level_of current u) (level_of current sender_id) \<and>
        (n < level_of current u \<longrightarrow> level_of current u < level_of current sender_id)) \<and>
     (\<forall>t n. (t, n) \<in> set (lt_events new) \<longrightarrow> n \<le> level_of current sender_id) \<and>
     (\<forall>n. map_of (lt_users new) sender_id = Some n \<longrightarrow> n \<le> level_of current sender_id) \<and>
     es' = es @ [levels_event uuid now room_id sender_id new]"
proof -
  obtain current where "get_power_levels w room_id es = Inr current"
    "check_level_changes current sender_id new = Inr ()" "es' = es @ [levels_event uuid now room_id sender_id new]"
    using assms by (auto simp: update_power_levels_ok_iff)
  then show ?thesis unfolding check_level_changes_Inr_iff
    by (intro exI [of _ current]) (fastforce simp: le_max_iff_disj)
qed

text \<open>
  What an accepted change stores is what is read afterwards, as long as no stored power levels event
  of the room has a later or equal time stamp; and what is read always fits 32 bits.
\<close>

theorem level_update_read_back:
  assumes "update_power_levels w uuid now room_id sender_id new es = (Inr (), es')"
    and "level_table_wf new" and "levels_stored_before now room_id es"
  shows "get_power_levels w room_id es' = Inr new \<and> (\<forall>lt. get_power_levels w r xs = Inr lt \<longrightarrow> level_table_wf lt)"
  using update_reads_new [OF assms] levels_always_wf by blast

text \<open>
  The defaults are not checked: a user who may change the levels and who is not listed in the new
  ones gives themselves, and everybody not listed, any level by way of \<open>users_default\<close>.
\<close>

theorem level_default_escalates:
  assumes "get_power_levels w room_id es = Inr current"
    and "required_level current L_ChangePowerLevels \<le> level_of current sender_id"
    and "lw_fail w EventCreate = None" and "''$'' @ uuid \<notin> ev_event_id ` set es"
    and "levels_stored_before now room_id es" and "in_i32 n"
  shows "\<exists>new es'. update_power_levels w uuid now room_id sender_id new es = (Inr (), es') \<and>
     (\<forall>u. repo_user_power_level w room_id u es' = Inr n)"
proof -
  let ?new = "default_level_table\<lparr>lt_users_default := n\<rparr>"
  have "check_level_changes current sender_id ?new = Inr ()"
    using assms(2) by (simp add: check_level_changes_Inr_iff default_level_table_def)
  then have up: "update_power_levels w uuid now room_id sender_id ?new es =
      (Inr (), es @ [levels_event uuid now room_id sender_id ?new])"
    using assms by (auto simp: update_power_levels_ok_iff)
  have "level_table_wf ?new" using assms(6) by (simp add: level_table_wf_def default_level_table_def in_i32_def)
  from update_reads_new [OF up this assms(5)]
  have "\<forall>u. repo_user_power_level w room_id u (es @ [levels_event uuid now room_id sender_id ?new]) = Inr n"
    by (simp add: repo_user_power_level_def level_of_def default_level_table_def)
  with up show ?thesis by blast
qed

text \<open>
  The 32-bit repository and the 64-bit checks of the client API agree on who may send a state
  event, as long as the level of the user and the level needed fit 32 bits.
\<close>

theorem level_checks_agree:
  assumes "lw_fail w LevelQuery = None"
    and "in_i32 (get_user_level (levels_of_rows (level_rows_of room_id es)) u)"
    and "in_i32 (unwrap_or (pl_state_default (levels_of_rows (level_rows_of room_id es)))
           (map_of (pl_events (levels_of_rows (level_rows_of room_id es))) t))"
  shows "can_user_perform_action w room_id u (L_SendState t) es =
     Inr (check_state_event_power (\<lambda>r. Inr (level_rows_of r es)) room_id u t k = Inr ())"
proof -
  have "levels_in_force (\<lambda>r. Inr (level_rows_of r es)) room_id = levels_of_rows (level_rows_of room_id es)"
    by (simp add: levels_in_force_def repo_power_levels_def)
  then show ?thesis
    using assms
    by (simp add: can_perform_iff check_state_event_iff get_power_levels_def level_result_def level_table_narrow
        state_level_narrow level_of_narrow del: required_level.simps)
qed

text \<open>Outside 32 bits they do not: a level of two billion and more is read as a negative one.\<close>

theorem large_level_negative:
  assumes "get content ''users'' = Some (JObject [(u, int_json i)])" and "2 ^ 31 \<le> i" and "i < 2 ^ 32"
  shows "level_of (level_table_of_content content) u < 0 \<and> get_user_level (power_levels_of_content content) u = i"
proof -
  have "in_i64 i" using assms(2,3) by (simp add: in_i64_def i64_min_def i64_max_def)
  moreover have "i32_wrap i = i - 2 ^ 32"
  proof -
    have "(i - 2 ^ 31 + 2 ^ 32) mod 2 ^ 32 = (i - 2 ^ 31) mod 2 ^ 32" by (rule mod_add_self2)
    also have "\<dots> = i - 2 ^ 31" using assms(2,3) by (intro mod_pos_pos_trivial) simp_all
    finally show ?thesis by (simp add: i32_wrap_def add.commute [of i])
  qed
  ultimately show ?thesis using assms
    by (simp add: level_of_def level_table_of_content_def i32_entries_def i64_entries_def map_filter_simps
        get_user_level_def power_levels_of_content_def)
qed

section \<open>Witnesses\<close>

definition level_demo :: level_world where
  "level_demo = \<lparr>lw_fail = (\<lambda>_. None), lw_exists_error = Database ''exists''\<rparr>"

definition level_demo_new :: level_table where
  "level_demo_new = default_level_table\<lparr>lt_users := [(''@a:x'', 100), (''@b:x'', 50)]\<rparr>"

definition level_demo_events :: "event list" where
  "level_demo_events = [levels_event ''1'' 5 ''!r:x'' ''@a:x'' (default_level_table\<lparr>lt_users := [(''@a:x'', 100)]\<rparr>)]"

lemma level_demo_update:
  "update_power_levels level_demo ''2'' 9 ''!r:x'' ''@a:x'' level_demo_new level_demo_events =
     (Inr (), level_demo_events @ [levels_event ''2'' 9 ''!r:x'' ''@a:x'' level_demo_new])"
  by code_simp

theorem level_update_sound_witness:
  "\<exists>current. get_power_levels level_demo ''!r:x'' level_demo_events = Inr current \<and>
     required_level current L_ChangePowerLevels \<le> level_of current ''@a:x''"
  using level_update_sound [OF level_demo_update] by blast

theorem level_update_read_back_witness:
  "get_power_levels level_demo ''!r:x'' (level_demo_events @ [levels_event ''2'' 9 ''!r:x'' ''@a:x'' level_demo_new]) =
     Inr level_demo_new"
proof -
  have "level_table_wf level_demo_new" "levels_stored_before 9 ''!r:x'' level_demo_events" by code_simp+
  from level_update_read_back [OF level_demo_update this] show ?thesis by blast
qed

theorem level_default_escalates_witness:
  "\<exists>new es'. update_power_levels level_demo ''2'' 9 ''!r:x'' ''@a:x'' new level_demo_events = (Inr (), es') \<and>
     (\<forall>u. repo_user_power_level level_demo ''!r:x'' u es' = Inr 1000)"
  by (rule level_default_escalates [of _ _ _ "default_level_table\<lparr>lt_users := [(''@a:x'', 100)]\<rparr>"]) code_simp+

theorem level_checks_agree_witness:
  "can_user_perform_action level_demo ''!r:x'' ''@a:x'' (L_SendState ''m.room.name'') level_demo_events =
     Inr (check_state_event_power (\<lambda>r. Inr (level_rows_of r level_demo_events)) ''!r:x'' ''@a:x'' ''m.room.name'' [] = Inr ())"
  by (rule level_checks_agree) code_simp+

theorem large_level_negative_witness:
  "level_of (level_table_of_content (JObject [(''users'', JObject [(''@a:x'', int_json 3000000000)])])) ''@a:x'' < 0"
  using large_level_negative [of "JObject [(''users'', JObject [(''@a:x'', int_json 3000000000)])]" "''@a:x''" 3000000000]
  by simp

end
