(* ===== verification/Canonical_Json.thy ===== *)
theory Canonical_Json
  imports Json
begin

text \<open>
  Matrix canonical JSON, the form over which events are hashed and signed. Three implementations
  live in the sources: \<open>server/src/utils/canonical_json.rs\<close> (with a depth limit, a size limit, a
  check for empty keys and a set of visited node addresses), \<open>entity/src/utils/canonical_json.rs\<close>
  (plain recursion) and a string builder in \<open>server/src/federation/pdu_validator.rs\<close>, modelled with
  the validator. The address of a node is modelled by the path that leads to it, which like the
  address is different for different live nodes. \<open>serde_json::to_string\<close> is an argument.
\<close>

section \<open>The server's implementation\<close>

datatype canonical_error =
    InvalidJson string
  | SerializationError string
  | MemoryExhausted
  | RecursiveStructure

type_synonym address = "nat list"

definition MAX_DEPTH :: nat where "MAX_DEPTH = 1000"
definition MAX_MEMBERS :: nat where "MAX_MEMBERS = 10000"

text \<open>The two checks at the start of every call.\<close>

definition enter_node :: "address \<Rightarrow> address set \<Rightarrow> nat \<Rightarrow> canonical_error + unit" where
  "enter_node a visited depth =
     bindR (ensure (depth \<le> MAX_DEPTH) RecursiveStructure) (\<lambda>_.
     ensure (a \<notin> visited) RecursiveStructure)"

fun canonicalize_node ::
  "address \<Rightarrow> address set \<Rightarrow> nat \<Rightarrow> json \<Rightarrow> canonical_error + json \<times> address set"
and canonicalize_members ::
  "address \<Rightarrow> nat \<Rightarrow> address set \<Rightarrow> nat \<Rightarrow> members \<Rightarrow> members \<Rightarrow> canonical_error + members \<times> address set"
and canonicalize_items ::
  "address \<Rightarrow> nat \<Rightarrow> address set \<Rightarrow> nat \<Rightarrow> json list \<Rightarrow> json list \<Rightarrow> canonical_error + json list \<times> address set"
where
  "canonicalize_node a visited depth (JObject ms) =
     bindR (enter_node a visited depth) (\<lambda>_.
     bindR (ensure (length ms \<le> MAX_MEMBERS) MemoryExhausted) (\<lambda>_.
     bindR (canonicalize_members a 0 (insert a visited) depth ms []) (\<lambda>(m, visited').
     Inr (JObject m, visited' - {a}))))"
| "canonicalize_node a visited depth (JArray xs) =
     bindR (enter_node a visited depth) (\<lambda>_.
     bindR (ensure (length xs \<le> MAX_MEMBERS) MemoryExhausted) (\<lambda>_.
     bindR (canonicalize_items a 0 (insert a visited) depth xs []) (\<lambda>(ys, visited').
     Inr (JArray ys, visited' - {a}))))"
| "canonicalize_node a visited depth v =
     bindR (enter_node a visited depth) (\<lambda>_. Inr (v, visited))"
| "canonicalize_members a i visited depth [] acc = Inr (acc, visited)"
| "canonicalize_members a i visited depth ((k, v) # ms) acc =
     bindR (ensure (k \<noteq> []) (InvalidJson ''Empty object key found'')) (\<lambda>_.
     bindR (canonicalize_node (i # a) visited (depth + 1) v) (\<lambda>(v', visited').
     canonicalize_members a (i + 1) visited' depth ms (btree_insert k v' acc)))"
| "canonicalize_items a i visited depth [] acc = Inr (acc, visited)"
| "canonicalize_items a i visited depth (v # vs) acc =
     bindR (canonicalize_node (i # a) visited (depth + 1) v) (\<lambda>(v', visited').
     canonicalize_items a (i + 1) visited' depth vs (acc @ [v']))"

definition canonicalize_value :: "json \<Rightarrow> canonical_error + json" where
  "canonicalize_value v =
     bindR (canonicalize_node [] {} 0 v) (\<lambda>(v', _). Inr v')"

definition to_canonical_json :: "(json \<Rightarrow> canonical_error + string) \<Rightarrow> json \<Rightarrow> canonical_error + string" where
  "to_canonical_json to_string v =
     bindR (canonicalize_node [] {} 0 v) (\<lambda>(v', _). to_string v')"

section \<open>The entity crate's implementation\<close>

datatype entity_error =
    EntitySerializationError string
  | InvalidStructure string
  | UnsupportedType string

fun entity_canonicalize :: "json \<Rightarrow> entity_error + json"
and entity_members :: "members \<Rightarrow> members \<Rightarrow> entity_error + members"
and entity_items :: "json list \<Rightarrow> json list \<Rightarrow> entity_error + json list"
where
  "entity_canonicalize (JObject ms) = bindR (entity_members ms []) (\<lambda>m. Inr (JObject m))"
| "entity_canonicalize (JArray xs) = bindR (entity_items xs []) (\<lambda>ys. Inr (JArray ys))"
| "entity_canonicalize v = Inr v"
| "entity_members [] acc = Inr acc"
| "entity_members ((k, v) # ms) acc =
     bindR (entity_canonicalize v) (\<lambda>v'. entity_members ms (btree_insert k v' acc))"
| "entity_items [] acc = Inr acc"
| "entity_items (v # vs) acc =
     bindR (entity_canonicalize v) (\<lambda>v'. entity_items vs (acc @ [v']))"

definition entity_canonical_json :: "(json \<Rightarrow> entity_error + string) \<Rightarrow> json \<Rightarrow> entity_error + string" where
  "entity_canonical_json to_string v = bindR (entity_canonicalize v) to_string"

text \<open>\<open>as_object_mut\<close> followed by \<open>remove\<close>: only an object loses members.\<close>

fun remove_keys :: "string list \<Rightarrow> json \<Rightarrow> json" where
  "remove_keys ks (JObject ms) = JObject (filter (\<lambda>(k, v). k \<notin> set ks) ms)"
| "remove_keys ks v = v"

definition canonical_json_for_signing :: "(json \<Rightarrow> entity_error + string) \<Rightarrow> json \<Rightarrow> entity_error + string" where
  "canonical_json_for_signing to_string event =
     entity_canonical_json to_string (remove_keys [''signatures'', ''unsigned''] event)"

section \<open>Reference: sort every object by key\<close>

fun canon :: "json \<Rightarrow> json" where
  "canon (JArray xs) = JArray (map canon xs)"
| "canon (JObject ms) = JObject (sort_key fst (map (\<lambda>(k, v). (k, canon v)) ms))"
| "canon v = v"

text \<open>The documents the server accepts: nesting, width and key checks, counted from a depth.\<close>

fun within_limits :: "nat \<Rightarrow> json \<Rightarrow> bool" where
  "within_limits d (JArray xs) =
     (d \<le> MAX_DEPTH \<and> length xs \<le> MAX_MEMBERS \<and> (\<forall>x \<in> set xs. within_limits (d + 1) x))"
| "within_limits d (JObject ms) =
     (d \<le> MAX_DEPTH \<and> length ms \<le> MAX_MEMBERS \<and>
      (\<forall>(k, v) \<in> set ms. k \<noteq> [] \<and> within_limits (d + 1) v))"
| "within_limits d v = (d \<le> MAX_DEPTH)"

section \<open>The implementations compute the reference\<close>

lemma canonicalize_succeeds:
  "\<forall>q \<in> visited. length q < length a \<Longrightarrow> json_wf v \<Longrightarrow> within_limits depth v \<Longrightarrow>
     canonicalize_node a visited depth v = Inr (canon v, visited)"
  "\<forall>q \<in> visited. length q < Suc (length a) \<Longrightarrow>
     \<forall>(k, v) \<in> set ms. k \<noteq> [] \<and> json_wf v \<and> within_limits (depth + 1) v \<Longrightarrow>
     canonicalize_members a i visited depth ms acc =
       Inr (foldl (\<lambda>m (k, v). btree_insert k v m) acc (map (\<lambda>(k, v). (k, canon v)) ms), visited)"
  "\<forall>q \<in> visited. length q < Suc (length a) \<Longrightarrow>
     \<forall>v \<in> set vs. json_wf v \<and> within_limits (depth + 1) v \<Longrightarrow>
     canonicalize_items a i visited depth vs bcc = Inr (bcc @ map canon vs, visited)"
proof (induction a visited depth v and a i visited depth ms acc and a i visited depth vs bcc
    rule: canonicalize_node_canonicalize_members_canonicalize_items.induct)
  case (1 a visited depth ms)
  have "distinct (map fst (map (\<lambda>(k, v). (k, canon v)) ms))"
    using "1.prems"(2) by (simp add: case_prod_beta comp_def)
  then have "foldl (\<lambda>m (k, v). btree_insert k v m) [] (map (\<lambda>(k, v). (k, canon v)) ms) =
      sort_key fst (map (\<lambda>(k, v). (k, canon v)) ms)"
    using btree_of_sort unfolding btree_of_def by blast
  moreover have "a \<notin> visited" using "1.prems"(1) by auto
  ultimately show ?case using 1 by (fastforce simp: enter_node_def ensure_def)
next
  case (2 a visited depth xs)
  moreover have "a \<notin> visited" using "2.prems"(1) by auto
  ultimately show ?case by (fastforce simp: enter_node_def ensure_def)
qed (auto simp: enter_node_def ensure_def)

lemma canonicalize_within:
  "canonicalize_node a visited depth v = Inr r \<Longrightarrow> within_limits depth v"
  "canonicalize_members a i visited depth ms acc = Inr r' \<Longrightarrow>
     \<forall>(k, v) \<in> set ms. k \<noteq> [] \<and> within_limits (depth + 1) v"
  "canonicalize_items a i visited depth vs bcc = Inr r'' \<Longrightarrow>
     \<forall>v \<in> set vs. within_limits (depth + 1) v"
proof (induction a visited depth v and a i visited depth ms acc and a i visited depth vs bcc
    arbitrary: r and r' and r''
    rule: canonicalize_node_canonicalize_members_canonicalize_items.induct)
  case (1 a visited depth ms)
  then show ?case by (fastforce simp: result_simps enter_node_def)
next
  case (2 a visited depth xs)
  then show ?case by (fastforce simp: result_simps enter_node_def)
next
  case (5 a i visited depth k v ms acc)
  from "5.prems" obtain v' visited' where k: "k \<noteq> []"
    and v: "canonicalize_node (i # a) visited (depth + 1) v = Inr (v', visited')"
    and ms: "canonicalize_members a (i + 1) visited' depth ms (btree_insert k v' acc) = Inr r'"
    by (auto simp: result_simps)
  have "within_limits (depth + 1) v" using k v by (intro "5.IH"(1)) (auto simp: ensure_def)
  moreover have "\<forall>(k, v) \<in> set ms. k \<noteq> [] \<and> within_limits (depth + 1) v"
    using k v ms by (intro "5.IH"(2)) (auto simp: ensure_def)
  ultimately show ?case using k by simp
next
  case (7 a i visited depth v vs acc)
  from "7.prems" obtain v' visited' where
        v: "canonicalize_node (i # a) visited (depth + 1) v = Inr (v', visited')"
    and vs: "canonicalize_items a (i + 1) visited' depth vs (acc @ [v']) = Inr r''"
    by (auto simp: result_simps)
  have "within_limits (depth + 1) v" using v by (rule "7.IH"(1))
  moreover have "\<forall>v \<in> set vs. within_limits (depth + 1) v"
    using v vs by (intro "7.IH"(2)) auto
  ultimately show ?case by simp
qed (auto simp: result_simps enter_node_def)

lemma entity_computes_canon:
  "json_wf v \<Longrightarrow> entity_canonicalize v = Inr (canon v)"
  "\<forall>(k, v) \<in> set ms. json_wf v \<Longrightarrow>
     entity_members ms acc = Inr (foldl (\<lambda>m (k, v). btree_insert k v m) acc (map (\<lambda>(k, v). (k, canon v)) ms))"
  "\<forall>v \<in> set vs. json_wf v \<Longrightarrow> entity_items vs bcc = Inr (bcc @ map canon vs)"
proof (induction v and ms acc and vs bcc
    rule: entity_canonicalize_entity_members_entity_items.induct)
  case (1 ms)
  have "distinct (map fst (map (\<lambda>(k, v). (k, canon v)) ms))"
    using "1.prems" by (simp add: case_prod_beta comp_def)
  then have "foldl (\<lambda>m (k, v). btree_insert k v m) [] (map (\<lambda>(k, v). (k, canon v)) ms) =
      sort_key fst (map (\<lambda>(k, v). (k, canon v)) ms)"
    using btree_of_sort unfolding btree_of_def by blast
  with 1 show ?case by fastforce
qed auto

lemma canonicalize_value_iff:
  assumes "json_wf v"
  shows "canonicalize_value v = Inr w \<longleftrightarrow> within_limits 0 v \<and> w = canon v"
proof
  assume "canonicalize_value v = Inr w"
  then obtain s where s: "canonicalize_node [] {} 0 v = Inr (w, s)"
    by (auto simp: canonicalize_value_def result_simps)
  then have "within_limits 0 v" by (rule canonicalize_within)
  with s assms show "within_limits 0 v \<and> w = canon v"
    using canonicalize_succeeds(1) [of "{}" "[]" v 0] by simp
next
  assume "within_limits 0 v \<and> w = canon v"
  with assms show "canonicalize_value v = Inr w"
    using canonicalize_succeeds(1) [of "{}" "[]" v 0] by (simp add: canonicalize_value_def)
qed

section \<open>Properties of the reference\<close>

text \<open>Keys strictly increasing in every object of the value.\<close>

fun canonical :: "json \<Rightarrow> bool" where
  "canonical (JArray xs) = (\<forall>x \<in> set xs. canonical x)"
| "canonical (JObject ms) = (sorted_wrt (<) (map fst ms) \<and> (\<forall>(k, v) \<in> set ms. canonical v))"
| "canonical _ = True"

lemma keys_map_snd [simp]: "map (fst \<circ> (\<lambda>(k, v). (k, f v))) ms = map fst ms"
  by (simp add: case_prod_beta comp_def)

lemma map_of_map_snd: "map_of (map (\<lambda>(k, v). (k, f v)) ms) k = map_option f (map_of ms k)"
  by (induction ms) auto

lemma distinct_sort_key_fst: "distinct (map fst ms) \<Longrightarrow> distinct (map fst (sort_key fst ms))"
  by (simp add: distinct_map)

lemma json_wf_canon: "json_wf v \<Longrightarrow> json_wf (canon v)"
proof (induction v rule: canon.induct)
  case (2 ms)
  have "distinct (map fst (sort_key fst (map (\<lambda>(k, v). (k, canon v)) ms)))"
    using 2 by (intro distinct_sort_key_fst) simp
  with 2 show ?case by fastforce
qed auto

lemma canonical_canon: "json_wf v \<Longrightarrow> canonical (canon v)"
proof (induction v rule: canon.induct)
  case (2 ms)
  have "distinct (map fst (sort_key fst (map (\<lambda>(k, v). (k, canon v)) ms)))"
    using 2 by (intro distinct_sort_key_fst) simp
  then have "sorted_wrt (<) (map fst (sort_key fst (map (\<lambda>(k, v). (k, canon v)) ms)))"
    by (simp add: strict_sorted_iff)
  with 2 show ?case by fastforce
qed auto

lemma denote_canon: "json_wf v \<Longrightarrow> denote (canon v) = denote v"
proof (induction v rule: canon.induct)
  case (2 ms)
  have d: "distinct (map fst (map (\<lambda>(k, v). (k, canon v)) ms))"
    using 2 by simp
  have "map_option denote (map_option canon (map_of ms k)) = map_option denote (map_of ms k)" for k
  proof (cases "map_of ms k")
    case (Some v)
    then have "(k, v) \<in> set ms" by (rule map_of_SomeD)
    then show ?thesis using 2 Some by auto
  qed simp
  then show ?case
    by (simp add: fun_eq_iff map_of_map_snd map_of_sort_key [OF d])
qed auto

text \<open>The canonical form depends only on the document denoted.\<close>

lemma denote_scalar: "DScalar a = denote w \<Longrightarrow> w = a"
  by (cases w) auto

lemma canon_eqI: "json_wf v \<Longrightarrow> json_wf w \<Longrightarrow> denote v = denote w \<Longrightarrow> canon v = canon w"
proof (induction v arbitrary: w rule: canon.induct)
  case (1 xs)
  then obtain ys where w: "w = JArray ys" and eq: "map denote xs = map denote ys"
    by (cases w) auto
  have "map canon xs = map canon ys"
  proof (rule nth_equalityI)
    show len: "length (map canon xs) = length (map canon ys)" using map_eq_imp_length_eq [OF eq] by simp
    fix i assume i: "i < length (map canon xs)"
    then have "xs ! i \<in> set xs" "ys ! i \<in> set ys" using len by auto
    moreover have "denote (xs ! i) = denote (ys ! i)"
      using eq i len by (metis length_map nth_map)
    ultimately show "map canon xs ! i = map canon ys ! i"
      using 1 w i len by auto
  qed
  with w show ?case by simp
next
  case (2 ms)
  then obtain ns where w: "w = JObject ns"
    and eq: "\<And>k. map_option denote (map_of ms k) = map_option denote (map_of ns k)"
    by (cases w) (auto simp: fun_eq_iff map_of_map_snd)
  define cm where "cm \<equiv> map (\<lambda>(k, v). (k, canon v)) ms"
  define cn where "cn \<equiv> map (\<lambda>(k, v). (k, canon v)) ns"
  have d: "distinct (map fst cm)" "distinct (map fst cn)"
    using 2 w by (auto simp: cm_def cn_def)
  have "map_of cm k = map_of cn k" for k
  proof (cases "map_of ms k")
    case None
    then show ?thesis using eq [of k] by (simp add: cm_def cn_def map_of_map_snd)
  next
    case (Some v)
    with eq [of k] obtain u where u: "map_of ns k = Some u" "denote v = denote u"
      by (cases "map_of ns k") auto
    have v: "(k, v) \<in> set ms" and "(k, u) \<in> set ns" using Some u(1) by (auto dest: map_of_SomeD)
    then have "json_wf v" "json_wf u" using "2.prems" w by auto
    then have "canon v = canon u" by (intro "2.IH" [OF v refl] u(2))
    then show ?thesis using Some u by (simp add: cm_def cn_def map_of_map_snd)
  qed
  then have "map_of (sort_key fst cm) = map_of (sort_key fst cn)"
    using d by (simp add: fun_eq_iff map_of_sort_key)
  then have "sort_key fst cm = sort_key fst cn"
    by (intro sorted_entries_unique) (use d distinct_sort_key_fst in auto)
  with w show ?case by (simp add: cm_def cn_def)
qed (auto dest!: denote_scalar)

lemma canon_eq_iff: "json_wf v \<Longrightarrow> json_wf w \<Longrightarrow> canon v = canon w \<longleftrightarrow> denote v = denote w"
  by (metis canon_eqI denote_canon)

lemma canon_idem: "json_wf v \<Longrightarrow> canon (canon v) = canon v"
  by (intro canon_eqI json_wf_canon denote_canon)

lemma within_limits_canon: "within_limits d v \<Longrightarrow> within_limits d (canon v)"
proof (induction d v rule: within_limits.induct)
  case (2 d ms)
  then show ?case by fastforce
qed auto

section \<open>The contract of a canonicalizer\<close>

text \<open>
  What signing and hashing rely on: on well-formed values a canonicalizer that answers gives the
  reference form, and it answers again on its own output. The lemmas are the consequences a client
  uses; both implementations are instances.
\<close>

locale canonicalizer =
  fixes canonicalize :: "json \<Rightarrow> 'e + json"
  assumes computes: "json_wf v \<Longrightarrow> canonicalize v = Inr w \<Longrightarrow> w = canon v"
    and answers_again: "json_wf v \<Longrightarrow> canonicalize v = Inr w \<Longrightarrow> \<exists>u. canonicalize w = Inr u"
begin

lemma output_canonical: "json_wf v \<Longrightarrow> canonicalize v = Inr w \<Longrightarrow> canonical w \<and> json_wf w"
  using computes canonical_canon json_wf_canon by blast

lemma output_denotes: "json_wf v \<Longrightarrow> canonicalize v = Inr w \<Longrightarrow> denote w = denote v"
  using computes denote_canon by metis

lemma output_fixpoint: "json_wf v \<Longrightarrow> canonicalize v = Inr w \<Longrightarrow> canonicalize w = Inr w"
  by (metis answers_again canon_idem computes json_wf_canon)

lemma same_document:
  assumes "json_wf v" "json_wf v'" "canonicalize v = Inr w" "canonicalize v' = Inr w'"
  shows "w = w' \<longleftrightarrow> denote v = denote v'"
  using assms by (metis canon_eq_iff computes)

end

interpretation server: canonicalizer canonicalize_value
proof
  fix v w
  assume v: "json_wf v" and w: "canonicalize_value v = Inr w"
  then have lim: "within_limits 0 v" and canon: "w = canon v" by (auto simp: canonicalize_value_iff)
  show "w = canon v" by (rule canon)
  show "\<exists>u. canonicalize_value w = Inr u"
    using v lim canon canonicalize_value_iff json_wf_canon within_limits_canon by blast
qed

interpretation entity: canonicalizer entity_canonicalize
proof
  fix v w
  assume v: "json_wf v" and w: "entity_canonicalize v = Inr w"
  then show "w = canon v" by (simp add: entity_computes_canon(1))
  then show "\<exists>u. entity_canonicalize w = Inr u"
    using v by (simp add: entity_computes_canon(1) json_wf_canon)
qed

section \<open>Claims\<close>

text \<open>
  C37. The server's canonicalizer answers exactly on the well-formed documents within its limits
  (depth at most 1000, at most 10000 members per container, no empty key), and then it returns the
  value with the members of every object sorted by key: the visited-address check never rejects a
  tree.
\<close>

theorem canonicalize_value_exact:
  assumes "json_wf v"
  shows "canonicalize_value v = Inr w \<longleftrightarrow> within_limits 0 v \<and> w = canon v"
  using assms by (rule canonicalize_value_iff)

text \<open>
  The canonical form is a normal form: two well-formed documents get the same canonical value
  exactly when they denote the same document, the result has strictly increasing keys in every
  object, denotes the input, and is left unchanged by a second pass.
\<close>

theorem canonicalize_value_normal_form:
  assumes "json_wf v" "canonicalize_value v = Inr cv" "json_wf w" "canonicalize_value w = Inr cw"
  shows "(cv = cw \<longleftrightarrow> denote v = denote w) \<and> canonical cv \<and> denote cv = denote v \<and>
         canonicalize_value cv = Inr cv"
  using assms server.same_document server.output_canonical server.output_denotes
    server.output_fixpoint by blast

lemma json_wf_remove_keys: "json_wf v \<Longrightarrow> json_wf (remove_keys ks v)"
  by (cases v) (auto simp: distinct_map inj_on_def)

lemma get_remove_keys: "get (remove_keys ks v) k = (if k \<in> set ks then None else get v k)"
proof -
  have "map_of (filter (\<lambda>(k, v). k \<notin> set ks) ms) k = (if k \<in> set ks then None else map_of ms k)"
    for ms :: members by (induction ms) auto
  then show ?thesis by (cases v) (simp_all add: get_def)
qed

lemma denote_get: "denote v = denote w \<Longrightarrow> map_option denote (get v k) = map_option denote (get w k)"
  by (cases v; cases w) (auto simp: get_def map_of_map_snd dest: fun_cong [of _ _ k])

lemma for_signing_canon:
  "json_wf v \<Longrightarrow> canonical_json_for_signing to_string v =
     to_string (canon (remove_keys [''signatures'', ''unsigned''] v))"
  by (simp add: canonical_json_for_signing_def entity_canonical_json_def
      entity_computes_canon(1) json_wf_remove_keys)

text \<open>
  The two crates sign the same bytes: whenever the server's canonicalizer accepts a well-formed
  value, the entity crate's one returns the same canonical value, and what is signed for an event
  does not depend on its signatures, its unsigned data or the order of its members.
\<close>

theorem signing_forms_agree:
  assumes "json_wf v" "json_wf w"
    and "denote (remove_keys [''signatures'', ''unsigned''] v) =
         denote (remove_keys [''signatures'', ''unsigned''] w)"
  shows "canonical_json_for_signing to_string v = canonical_json_for_signing to_string w \<and>
         (\<forall>u. canonicalize_value v = Inr u \<longrightarrow> entity_canonicalize v = Inr u)"
proof -
  have "canon (remove_keys [''signatures'', ''unsigned''] v) =
      canon (remove_keys [''signatures'', ''unsigned''] w)"
    using assms by (intro canon_eqI json_wf_remove_keys)
  with assms(1,2) show ?thesis
    by (simp add: for_signing_canon canonicalize_value_iff entity_computes_canon(1))
qed

section \<open>Witnesses\<close>

definition sample_event :: json where
  "sample_event = JObject [(''type'', JString ''m''), (''signatures'', JNull),
     (''content'', JObject [(''b'', JBool True), (''a'', JNull)])]"

definition sample_event' :: json where
  "sample_event' = JObject [(''content'', JObject [(''a'', JNull), (''b'', JBool True)]),
     (''type'', JString ''m''), (''unsigned'', JArray [])]"

lemmas sample_defs = sample_event_def sample_event'_def

lemma sample_wf: "json_wf sample_event" "json_wf sample_event'"
  by (simp_all add: sample_defs)

lemma sample_within: "within_limits 0 sample_event" "within_limits 0 sample_event'"
  by (simp_all add: sample_defs MAX_DEPTH_def MAX_MEMBERS_def)

theorem canonicalize_value_exact_witness:
  "canonicalize_value sample_event = Inr (canon sample_event)"
  using canonicalize_value_exact [OF sample_wf(1)] sample_within by simp

theorem canonicalize_value_normal_form_witness:
  "canonical (canon sample_event) \<and> denote (canon sample_event) = denote sample_event"
  using canonicalize_value_normal_form [OF sample_wf(1) _ sample_wf(2)] sample_wf sample_within
  by (simp add: canonicalize_value_iff)

lemma sample_same_signed:
  "denote (remove_keys [''signatures'', ''unsigned''] sample_event) =
   denote (remove_keys [''signatures'', ''unsigned''] sample_event')"
  by (simp add: sample_defs fun_eq_iff)

theorem signing_forms_agree_witness:
  "canonical_json_for_signing (\<lambda>v. Inr (show_nat (size v))) sample_event =
   canonical_json_for_signing (\<lambda>v. Inr (show_nat (size v))) sample_event'"
  using signing_forms_agree [OF sample_wf sample_same_signed] by blast

end
