(* ===== verification/Matrix_Errors.thy ===== *)
theory Matrix_Errors
  imports Json
begin

text \<open>
  The errors a request handler answers with, \<open>server/src/error/matrix_errors.rs\<close>: the variants, the
  parts of the response each gives and the response itself (status, JSON body and the
  \<open>Retry-After\<close> header), with the conversions from authentication and media errors.
\<close>

datatype matrix_error =
    M_Forbidden
  | M_UnknownToken bool
  | M_MissingToken
  | M_Unauthorized
  | M_UserLocked
  | M_UserSuspended
  | M_UserDeactivated
  | M_BadJson
  | M_NotJson
  | M_NotFound
  | M_Unrecognized
  | M_TooLarge
  | M_MissingParams
  | M_InvalidParam
  | M_LimitExceeded "64 word option"
  | M_UserInUse
  | M_InvalidUsername
  | M_RoomInUse
  | M_InvalidRoomState
  | M_ThreepidInUse
  | M_UnableToAuthorizeJoin
  | M_UnableToGrantJoin
  | M_InvalidSignature
  | M_SessionNotValidated
  | M_NoValidSession
  | M_SessionExpired
  | M_NotYetUploaded
  | M_TooLargeFor string
  | M_Unknown

text \<open>The \<open>Display\<close> text of each variant.\<close>

fun error_text :: "matrix_error \<Rightarrow> string" where
  "error_text M_Forbidden = ''Forbidden access''"
| "error_text (M_UnknownToken soft_logout) = ''Unknown or invalid access token''"
| "error_text M_MissingToken = ''Missing access token''"
| "error_text M_Unauthorized = ''The request was not correctly authorized''"
| "error_text M_UserLocked = ''User account locked''"
| "error_text M_UserSuspended = ''User account suspended''"
| "error_text M_UserDeactivated = ''User account deactivated''"
| "error_text M_BadJson = ''Invalid JSON in request''"
| "error_text M_NotJson = ''Request body is not valid JSON''"
| "error_text M_NotFound = ''Resource not found''"
| "error_text M_Unrecognized = ''Unrecognized request''"
| "error_text M_TooLarge = ''Request entity too large''"
| "error_text M_MissingParams = ''Missing required parameters''"
| "error_text M_InvalidParam = ''Invalid parameter value''"
| "error_text (M_LimitExceeded retry_after_ms) = ''Rate limit exceeded''"
| "error_text M_UserInUse = ''Username already in use''"
| "error_text M_InvalidUsername = ''Invalid username format''"
| "error_text M_RoomInUse = ''Room alias already in use''"
| "error_text M_InvalidRoomState = ''Invalid room state''"
| "error_text M_ThreepidInUse = ''Third-party identifier already in use''"
| "error_text M_UnableToAuthorizeJoin = ''Unable to authorize join''"
| "error_text M_UnableToGrantJoin = ''Unable to grant join''"
| "error_text M_InvalidSignature = ''Invalid server signature''"
| "error_text M_SessionNotValidated = ''Session not validated''"
| "error_text M_NoValidSession = ''No valid session''"
| "error_text M_SessionExpired = ''Session expired''"
| "error_text M_NotYetUploaded = ''Content has not yet been uploaded''"
| "error_text (M_TooLargeFor action) = ''Content is too large to '' @ action"
| "error_text M_Unknown = ''Cannot process request''"

text \<open>The parts of a response: status, code and the extra members of the body.\<close>

fun to_response_parts :: "matrix_error \<Rightarrow> nat \<times> string \<times> string \<times> members option" where
  "to_response_parts M_Forbidden =
     (403, ''M_FORBIDDEN'', error_text M_Forbidden, None)"
| "to_response_parts (M_UnknownToken soft_logout) =
     (401, ''M_UNKNOWN_TOKEN'', error_text (M_UnknownToken soft_logout),
      Some [(''soft_logout'', JBool soft_logout)])"
| "to_response_parts M_MissingToken =
     (401, ''M_MISSING_TOKEN'', error_text M_MissingToken, None)"
| "to_response_parts M_Unauthorized =
     (401, ''M_UNAUTHORIZED'', error_text M_Unauthorized, None)"
| "to_response_parts M_UserLocked =
     (401, ''M_USER_LOCKED'', error_text M_UserLocked, None)"
| "to_response_parts M_UserSuspended =
     (401, ''M_USER_SUSPENDED'', error_text M_UserSuspended, None)"
| "to_response_parts M_UserDeactivated =
     (403, ''M_USER_DEACTIVATED'', error_text M_UserDeactivated, None)"
| "to_response_parts M_BadJson =
     (400, ''M_BAD_JSON'', error_text M_BadJson, None)"
| "to_response_parts M_NotJson =
     (400, ''M_NOT_JSON'', error_text M_NotJson, None)"
| "to_response_parts M_NotFound =
     (404, ''M_NOT_FOUND'', error_text M_NotFound, None)"
| "to_response_parts M_Unrecognized =
     (404, ''M_UNRECOGNIZED'', error_text M_Unrecognized, None)"
| "to_response_parts M_TooLarge =
     (413, ''M_TOO_LARGE'', error_text M_TooLarge, None)"
| "to_response_parts M_MissingParams =
     (400, ''M_MISSING_PARAMS'', error_text M_MissingParams, None)"
| "to_response_parts M_InvalidParam =
     (400, ''M_INVALID_PARAM'', error_text M_InvalidParam, None)"
| "to_response_parts (M_LimitExceeded retry_after_ms) =
     (429, ''M_LIMIT_EXCEEDED'', error_text (M_LimitExceeded retry_after_ms),
      map_option (\<lambda>ms. [(''retry_after_ms'', int_json (uint ms))]) retry_after_ms)"
| "to_response_parts M_UserInUse =
     (400, ''M_USER_IN_USE'', error_text M_UserInUse, None)"
| "to_response_parts M_InvalidUsername =
     (400, ''M_INVALID_USERNAME'', error_text M_InvalidUsername, None)"
| "to_response_parts M_RoomInUse =
     (400, ''M_ROOM_IN_USE'', error_text M_RoomInUse, None)"
| "to_response_parts M_InvalidRoomState =
     (400, ''M_INVALID_ROOM_STATE'', error_text M_InvalidRoomState, None)"
| "to_response_parts M_ThreepidInUse =
     (400, ''M_THREEPID_IN_USE'', error_text M_ThreepidInUse, None)"
| "to_response_parts M_UnableToAuthorizeJoin =
     (400, ''M_UNABLE_TO_AUTHORISE_JOIN'', error_text M_UnableToAuthorizeJoin, None)"
| "to_response_parts M_UnableToGrantJoin =
     (400, ''M_UNABLE_TO_GRANT_JOIN'', error_text M_UnableToGrantJoin, None)"
| "to_response_parts M_InvalidSignature =
     (401, ''M_UNAUTHORIZED'', error_text M_InvalidSignature, None)"
| "to_response_parts M_SessionNotValidated =
     (400, ''M_SESSION_NOT_VALIDATED'', error_text M_SessionNotValidated, None)"
| "to_response_parts M_NoValidSession =
     (400, ''M_NO_VALID_SESSION'', error_text M_NoValidSession, None)"
| "to_response_parts M_SessionExpired =
     (401, ''M_SESSION_EXPIRED'', error_text M_SessionExpired, None)"
| "to_response_parts M_NotYetUploaded =
     (504, ''M_NOT_YET_UPLOADED'', error_text M_NotYetUploaded, None)"
| "to_response_parts (M_TooLargeFor action) =
     (if contains_str action ''serve'' then 502 else 413, ''M_TOO_LARGE'',
      error_text (M_TooLargeFor action), None)"
| "to_response_parts M_Unknown =
     (400, ''M_UNKNOWN'', error_text M_Unknown, None)"

record response =
  resp_status :: nat
  resp_body :: json
  resp_retry_after :: "string option"

text \<open>The extra members are inserted one by one (\<open>Map::insert\<close>).\<close>

definition into_response :: "matrix_error \<Rightarrow> response" where
  "into_response e =
     (case to_response_parts e of (status, errcode, message, extra) \<Rightarrow>
        let body = [(''errcode'', JString errcode), (''error'', JString message)];
            body' = (case extra of None \<Rightarrow> body
                     | Some ms \<Rightarrow> foldl (\<lambda>m (k, v). AList.update k v m) body ms)
        in \<lparr>resp_status = status, resp_body = JObject body',
            resp_retry_after =
              (case e of
                 M_LimitExceeded (Some ms) \<Rightarrow> Some (show_nat (max (unat ms div 1000) 1))
               | _ \<Rightarrow> None)\<rparr>)"

definition status_code :: "matrix_error \<Rightarrow> nat" where
  "status_code e = fst (to_response_parts e)"

datatype matrix_auth_error =
    A_MissingToken
  | A_UnknownToken
  | A_Forbidden
  | A_InvalidSignature
  | A_MissingAuthorization
  | A_InvalidXMatrixFormat
  | A_SessionExpired
  | A_DatabaseError string
  | A_JwtError string
  | A_InvalidCredentials

fun from_auth_error :: "matrix_auth_error \<Rightarrow> matrix_error" where
  "from_auth_error A_MissingToken = M_MissingToken"
| "from_auth_error A_UnknownToken = M_UnknownToken False"
| "from_auth_error A_Forbidden = M_Forbidden"
| "from_auth_error A_InvalidSignature = M_InvalidSignature"
| "from_auth_error A_MissingAuthorization = M_Unauthorized"
| "from_auth_error A_InvalidXMatrixFormat = M_Unauthorized"
| "from_auth_error A_SessionExpired = M_SessionExpired"
| "from_auth_error (A_DatabaseError _) = M_Unknown"
| "from_auth_error (A_JwtError _) = M_UnknownToken False"
| "from_auth_error A_InvalidCredentials = M_Forbidden"

lemma error_status_range: "400 \<le> status_code e \<and> status_code e < 600"
  by (cases e) (simp_all add: status_code_def)

text \<open>The body always carries the code and the text, whatever the extra members.\<close>

lemma into_response_body:
  "get (resp_body (into_response e)) ''errcode'' = Some (JString (fst (snd (to_response_parts e)))) \<and>
   get (resp_body (into_response e)) ''error'' = Some (JString (error_text e))"
  by (cases e) (auto simp: into_response_def split: option.splits)

end
