(* ===== verification/X_Matrix.thy ===== *)
theory X_Matrix
  imports Rust_Std
begin

text \<open>
  The parser of X-Matrix authorization headers, \<open>server/src/auth/x_matrix_parser.rs\<close>: its state
  machine over the characters of the header, the parameters it collects and the credentials it
  extracts. A header is a byte string; the parser treats every non-ASCII byte alike, so reading
  bytes and reading characters give the same result.
\<close>

record x_matrix_auth =
  xm_origin :: string
  xm_destination :: "string option"
  xm_key_id :: string
  xm_signature :: string

datatype x_matrix_parse_error =
    InvalidScheme
  | InvalidParameterSyntax
  | InvalidToken
  | UnterminatedQuotedString
  | InvalidEscapeSequence
  | MissingRequiredParameter string
  | InvalidParameterValue string

datatype parse_state =
    ExpectingParamName
  | ExpectingEquals
  | ExpectingParamValue
  | InQuotedString
  | AfterBackslash
  | ExpectingCommaOrEnd

text \<open>The local variables of \<open>parse_auth_params\<close>.\<close>

record parser =
  state :: parse_state
  current_name :: string
  current_value :: string
  params :: "string \<rightharpoonup> string"

definition is_valid_token_char_with_matrix_compat :: "char \<Rightarrow> bool" where
  "is_valid_token_char_with_matrix_compat ch =
     (List.member (''!#$%&'' @ [CHR 0x27] @ ''*+-.^_'' @ [CHR 0x60] @ ''|~'') ch \<or>
      ch = CHR '':'' \<or> is_ascii_alphanumeric ch)"

definition is_blank :: "char \<Rightarrow> bool" where
  "is_blank ch = (ch = CHR '' '' \<or> ch = CHR 0x09)"

definition skip_blanks :: "string \<Rightarrow> string" where
  "skip_blanks s = dropWhile is_blank s"

text \<open>\<open>trim\<close> and \<open>to_lowercase\<close> on a parameter name, which holds token characters only.\<close>

definition param_key :: "string \<Rightarrow> string" where
  "param_key name = map to_ascii_lower (rev (skip_blanks (rev (skip_blanks name))))"

definition store_param :: "parser \<Rightarrow> parser" where
  "store_param p = p\<lparr>params := (params p)(param_key (current_name p) \<mapsto> current_value p)\<rparr>"

text \<open>One iteration of the main loop: the parser after the character, and the input left.\<close>

definition parse_char :: "parser \<Rightarrow> char \<Rightarrow> string \<Rightarrow> x_matrix_parse_error + parser \<times> string" where
  "parse_char p ch rest =
     (case state p of
        ExpectingParamName \<Rightarrow>
          if is_valid_token_char_with_matrix_compat ch
          then Inr (p\<lparr>current_name := current_name p @ [ch]\<rparr>, rest)
          else if ch = CHR ''='' then
            (if current_name p = [] then Inl InvalidParameterSyntax
             else Inr (p\<lparr>state := ExpectingParamValue\<rparr>, rest))
          else if is_blank ch then
            (if current_name p \<noteq> [] then Inr (p\<lparr>state := ExpectingEquals\<rparr>, rest)
             else Inr (p, rest))
          else Inl InvalidToken
      | ExpectingEquals \<Rightarrow>
          if ch = CHR ''='' then Inr (p\<lparr>state := ExpectingParamValue\<rparr>, rest)
          else if is_blank ch then Inr (p, rest)
          else Inl InvalidParameterSyntax
      | ExpectingParamValue \<Rightarrow>
          if ch = CHR 0x22 then Inr (p\<lparr>state := InQuotedString\<rparr>, rest)
          else if is_blank ch then Inr (p, rest)
          else if is_valid_token_char_with_matrix_compat ch
          then Inr (p\<lparr>current_value := current_value p @ [ch], state := ExpectingCommaOrEnd\<rparr>, rest)
          else Inl InvalidParameterSyntax
      | InQuotedString \<Rightarrow>
          if ch = CHR 0x22 then Inr (p\<lparr>state := ExpectingCommaOrEnd\<rparr>, rest)
          else if ch = CHR 0x5C then Inr (p\<lparr>state := AfterBackslash\<rparr>, rest)
          else Inr (p\<lparr>current_value := current_value p @ [ch]\<rparr>, rest)
      | AfterBackslash \<Rightarrow>
          Inr (p\<lparr>current_value := current_value p @ [ch], state := InQuotedString\<rparr>, rest)
      | ExpectingCommaOrEnd \<Rightarrow>
          if ch = CHR '','' then
            Inr ((store_param p)\<lparr>current_name := [], current_value := [],
                                 state := ExpectingParamName\<rparr>, skip_blanks rest)
          else if is_blank ch then Inr (p, rest)
          else if is_valid_token_char_with_matrix_compat ch
          then Inr (p\<lparr>current_value := current_value p @ [ch]\<rparr>, rest)
          else Inl InvalidParameterSyntax)"

lemma length_skip_blanks: "length (skip_blanks s) \<le> length s"
  by (simp add: skip_blanks_def length_dropWhile_le)

lemma parse_char_shrinks: "parse_char p ch rest = Inr (p', rest') \<Longrightarrow> length rest' \<le> length rest"
  using length_skip_blanks [of rest]
  by (auto simp: parse_char_def split: parse_state.splits if_splits)

function parse_loop :: "parser \<Rightarrow> string \<Rightarrow> x_matrix_parse_error + parser" where
  "parse_loop p [] = Inr p"
| "parse_loop p (ch # rest) =
     (case parse_char p ch rest of
        Inl e \<Rightarrow> Inl e
      | Inr (p', rest') \<Rightarrow> parse_loop p' rest')"
  by pat_completeness auto
termination
  by (relation "measure (\<lambda>(p, s). length s)") (auto dest!: parse_char_shrinks)

definition initial_parser :: parser where
  "initial_parser = \<lparr>state = ExpectingParamName, current_name = [], current_value = [],
                     params = Map.empty\<rparr>"

text \<open>What happens at the end of the input.\<close>

definition finish_params :: "parser \<Rightarrow> x_matrix_parse_error + (string \<rightharpoonup> string)" where
  "finish_params p =
     (case state p of
        InQuotedString \<Rightarrow> Inl UnterminatedQuotedString
      | AfterBackslash \<Rightarrow> Inl UnterminatedQuotedString
      | ExpectingParamValue \<Rightarrow> Inl InvalidParameterSyntax
      | ExpectingCommaOrEnd \<Rightarrow>
          Inr (params (if current_name p \<noteq> [] then store_param p else p))
      | ExpectingEquals \<Rightarrow>
          Inr (params (if current_name p \<noteq> [] then store_param p else p))
      | ExpectingParamName \<Rightarrow> Inr (params p))"

definition parse_auth_params :: "string \<Rightarrow> x_matrix_parse_error + (string \<rightharpoonup> string)" where
  "parse_auth_params s = bindR (parse_loop initial_parser (skip_blanks s)) finish_params"

definition parse_x_matrix_header :: "string \<Rightarrow> x_matrix_parse_error + x_matrix_auth" where
  "parse_x_matrix_header auth_header =
     bindR (ok_or (strip_prefix ''X-Matrix '' auth_header) InvalidScheme) (\<lambda>params_str.
     bindR (parse_auth_params params_str) (\<lambda>ps.
     bindR (ok_or (ps ''origin'') (MissingRequiredParameter ''origin'')) (\<lambda>origin.
     bindR (ok_or (ps ''key'') (MissingRequiredParameter ''key'')) (\<lambda>key_param.
     bindR (ok_or (strip_prefix ''ed25519:'' key_param) (InvalidParameterValue ''key'')) (\<lambda>key_id.
     bindR (ok_or (case ps ''signature'' of Some s \<Rightarrow> Some s | None \<Rightarrow> ps ''sig'')
                  (MissingRequiredParameter ''signature'')) (\<lambda>signature.
     Inr \<lparr>xm_origin = origin, xm_destination = ps ''destination'', xm_key_id = key_id,
          xm_signature = signature\<rparr>))))))"

section \<open>Runs of the parser\<close>

definition token :: "string \<Rightarrow> bool" where
  "token s = (s \<noteq> [] \<and> list_all is_valid_token_char_with_matrix_compat s)"

text \<open>The text of a quoted value: quotes and backslashes are escaped by a backslash.\<close>

fun quoted_text :: "string \<Rightarrow> string" where
  "quoted_text [] = []"
| "quoted_text (c # s) =
     (if c = CHR 0x22 \<or> c = CHR 0x5C then [CHR 0x5C, c] else [c]) @ quoted_text s"

definition plain_text :: "string \<Rightarrow> bool" where
  "plain_text s = (CHR 0x22 \<notin> set s \<and> CHR 0x5C \<notin> set s)"

lemma quoted_text_plain: "plain_text s \<Longrightarrow> quoted_text s = s"
  by (induction s) (auto simp: plain_text_def)

lemma token_char_distinct:
  "is_valid_token_char_with_matrix_compat ch \<Longrightarrow>
     ch \<noteq> CHR ''='' \<and> ch \<noteq> CHR '','' \<and> ch \<noteq> CHR 0x22 \<and> ch \<noteq> CHR 0x5C \<and> \<not> is_blank ch"
  by (auto simp: is_valid_token_char_with_matrix_compat_def is_blank_def is_ascii_alphanumeric_def
      is_ascii_digit_def is_ascii_upper_def is_ascii_lower_def byte_def)

lemma parse_loop_name:
  "state p = ExpectingParamName \<Longrightarrow> list_all is_valid_token_char_with_matrix_compat n \<Longrightarrow>
     parse_loop p (n @ rest) = parse_loop (p\<lparr>current_name := current_name p @ n\<rparr>) rest"
  by (induction n arbitrary: p) (simp_all add: parse_char_def)

lemma parse_loop_quoted:
  "state p = InQuotedString \<Longrightarrow>
     parse_loop p (quoted_text v @ rest) = parse_loop (p\<lparr>current_value := current_value p @ v\<rparr>) rest"
proof (induction v arbitrary: p)
  case Nil
  then show ?case by simp
next
  case (Cons c v)
  then show ?case by (cases p) (cases "c = CHR 0x22 \<or> c = CHR 0x5C", auto simp: parse_char_def)
qed

text \<open>A parameter written as a name, an equals sign and a quoted value, up to its closing quote.\<close>

definition print_param :: "string \<Rightarrow> string \<Rightarrow> string" where
  "print_param n v = n @ [CHR ''='', CHR 0x22] @ quoted_text v @ [CHR 0x22]"

lemma parse_loop_param:
  assumes "state p = ExpectingParamName" "current_name p = []" "current_value p = []" "token n"
  shows "parse_loop p (print_param n v @ rest) =
         parse_loop (p\<lparr>state := ExpectingCommaOrEnd, current_name := n, current_value := v\<rparr>) rest"
proof -
  have n: "list_all is_valid_token_char_with_matrix_compat n" "n \<noteq> []"
    using assms(4) by (auto simp: token_def)
  have eq: "\<not> is_valid_token_char_with_matrix_compat CHR ''=''"
    using token_char_distinct by blast
  show ?thesis
    using assms n eq
    by (cases p) (simp add: print_param_def parse_loop_name parse_loop_quoted parse_char_def)
qed

fun print_params :: "(string \<times> string) list \<Rightarrow> string" where
  "print_params [] = []"
| "print_params [(n, v)] = print_param n v"
| "print_params ((n, v) # ps) = print_param n v @ [CHR '',''] @ print_params ps"

lemma skip_blanks_Nil: "skip_blanks [] = []"
  by (simp add: skip_blanks_def)

lemma skip_blanks_token: "token n \<Longrightarrow> skip_blanks (n @ s) = n @ s"
  by (cases n) (auto simp: token_def skip_blanks_def dest: token_char_distinct)

lemma skip_blanks_print_params:
  "\<forall>(n, v) \<in> set ps. token n \<Longrightarrow> skip_blanks (print_params ps) = print_params ps"
  by (cases ps rule: print_params.cases)
    (auto simp: print_param_def skip_blanks_token skip_blanks_Nil)

lemma parse_loop_params:
  assumes "state p = ExpectingParamName" "current_name p = []" "current_value p = []"
    and "\<forall>(n, v) \<in> set ps. token n"
  shows "bindR (parse_loop p (print_params ps)) finish_params =
         Inr (params p ++ map_of (rev (map (\<lambda>(n, v). (param_key n, v)) ps)))"
  using assms
proof (induction ps arbitrary: p rule: print_params.induct)
  case 1
  then show ?case by (simp add: finish_params_def)
next
  case (2 n v)
  then have "n \<noteq> []" by (simp add: token_def)
  with 2 show ?case
    using parse_loop_param [of p n v "[]"] by (simp add: finish_params_def store_param_def map_add_def fun_eq_iff)
next
  case (3 n v q ps)
  define p' where "p' = (store_param (p\<lparr>current_name := n, current_value := v\<rparr>))
    \<lparr>current_name := [], current_value := [], state := ExpectingParamName\<rparr>"
  have "parse_loop p (print_params ((n, v) # q # ps)) = parse_loop p' (print_params (q # ps))"
    using 3 parse_loop_param [of p n v "CHR '','' # print_params (q # ps)"]
    by (simp add: parse_char_def p'_def skip_blanks_print_params store_param_def)
  moreover have "bindR (parse_loop p' (print_params (q # ps))) finish_params =
      Inr (params p' ++ map_of (rev (map (\<lambda>(n, v). (param_key n, v)) (q # ps))))"
    using "3.prems" by (intro "3.IH") (auto simp: p'_def store_param_def)
  moreover have "params p' = (params p)(param_key n \<mapsto> v)"
    by (simp add: p'_def store_param_def)
  ultimately show ?case by simp
qed

text \<open>The parameters of a printed list: the last one of each lower-case name wins.\<close>

lemma parse_auth_params_print:
  "\<forall>(n, v) \<in> set ps. token n \<Longrightarrow>
     parse_auth_params (print_params ps) = Inr (map_of (rev (map (\<lambda>(n, v). (param_key n, v)) ps)))"
  by (simp add: parse_auth_params_def skip_blanks_print_params parse_loop_params initial_parser_def)

end
