(* ===== verification/Event_Signing.thy ===== *)
theory Event_Signing
  imports Canonical_Json Entity Matrix_Errors X_Matrix
begin

text \<open>
  Signing and checking of events and federation requests: \<open>server/src/federation/event_signing.rs\<close>,
  the signing half of \<open>server/src/auth/session_service.rs\<close> and \<open>server/src/auth/signing.rs\<close>. What
  lies outside the sources is the record \<open>crypto\<close> of functions: base64, SHA-256, Ed25519, the JSON
  printer, the query of the key tables, DNS resolution and the HTTP client. The rows of the table
  of remote keys are the state that fetching a key extends. Error texts are those of the sources,
  except that the times and status codes some of them end with are left out.
\<close>

section \<open>The outside world\<close>

datatype signing_error =
    S_InvalidFormat string
  | S_SignatureCreationError matrix_auth_error
  | S_HashCalculationError string
  | S_KeyRetrievalError string
  | S_RedactionError string
  | S_JsonError string
  | S_InvalidDestination string
  | S_DatabaseError repository_error
  | S_HttpError string
  | S_Base64Error string
  | S_CryptoError string
  | S_DnsResolutionError string
  | S_InvalidSignature string
  | S_InvalidRequest string
  | S_HeaderFormatError string

record old_verify_key =
  ovk_key :: string
  ovk_expired_ts :: int

record server_keys_response =
  sk_old_verify_keys :: "(string \<times> old_verify_key) list option"
  sk_server_name :: string
  sk_signatures :: "(string \<times> (string \<times> string) list) list"
  sk_valid_until_ts :: int
  sk_verify_keys :: "(string \<times> string) list"

record http_response =
  hr_success :: bool
  hr_body :: "signing_error + server_keys_response"

text \<open>A row of the table of remote signing keys, as \<open>cache_server_signing_key\<close> creates it.\<close>

record key_row =
  kr_server_name :: string
  kr_key_id :: string
  kr_public_key :: string
  kr_fetched_at :: int
  kr_is_active :: bool
  kr_expires_at :: int

record crypto =
  homeserver_name :: string
  json_to_string :: "json \<Rightarrow> canonical_error + string"
  sha256 :: "string \<Rightarrow> string"
  b64_encode :: "string \<Rightarrow> string"
  b64_encode_no_pad :: "string \<Rightarrow> string"
  b64_decode :: "string \<Rightarrow> string option"
  ed_sign :: "string \<Rightarrow> string \<Rightarrow> string"
  ed_key_ok :: "string \<Rightarrow> bool"
  ed_verify :: "string \<Rightarrow> string \<Rightarrow> string \<Rightarrow> bool"
  private_key_query :: "string \<Rightarrow> repository_error + string option"
  public_key_query :: "key_row list \<Rightarrow> string \<Rightarrow> string \<Rightarrow> repository_error + string option"
  public_key_create :: "key_row \<Rightarrow> repository_error + unit"
  resolve_server :: "string \<Rightarrow> signing_error + string"
  http_get :: "string \<Rightarrow> signing_error + http_response"
  from_timestamp :: "int \<Rightarrow> int option"

section \<open>Ed25519 over canonical JSON\<close>

definition verify_ed25519_signature ::
  "crypto \<Rightarrow> string \<Rightarrow> string \<Rightarrow> string \<Rightarrow> matrix_auth_error + unit" where
  "verify_ed25519_signature w signature canonical_json public_key =
     bindR (ok_or (b64_decode w signature) A_InvalidSignature) (\<lambda>signature_bytes.
     bindR (ok_or (b64_decode w public_key) A_InvalidSignature) (\<lambda>public_key_bytes.
     bindR (ensure (length signature_bytes = 64) A_InvalidSignature) (\<lambda>_.
     bindR (ensure (length public_key_bytes = 32) A_InvalidSignature) (\<lambda>_.
     bindR (ensure (ed_key_ok w public_key_bytes) A_InvalidSignature) (\<lambda>_.
     ensure (ed_verify w public_key_bytes canonical_json signature_bytes) A_InvalidSignature)))))"

definition session_sign_json :: "crypto \<Rightarrow> string \<Rightarrow> string \<Rightarrow> matrix_auth_error + string" where
  "session_sign_json w json_content key_id =
     bindR (map_err (\<lambda>_. A_DatabaseError ''Failed to query signing key'') (private_key_query w key_id)) (\<lambda>row.
     bindR (ok_or row (A_DatabaseError (''Signing key '' @ key_id @ '' not found or expired''))) (\<lambda>private_key.
     bindR (ok_or (b64_decode w private_key) (A_DatabaseError ''Failed to decode private key'')) (\<lambda>key_bytes.
     bindR (ensure (length key_bytes = 32) (A_DatabaseError ''Invalid private key length'')) (\<lambda>_.
     Inr (b64_encode w (ed_sign w key_bytes json_content))))))"

fun canonical_error_text :: "canonical_error \<Rightarrow> string" where
  "canonical_error_text (InvalidJson m) = ''Invalid JSON structure: '' @ m"
| "canonical_error_text (SerializationError _) = ''JSON serialization failed''"
| "canonical_error_text MemoryExhausted =
     ''Memory exhausted during canonicalization of large JSON structure''"
| "canonical_error_text RecursiveStructure =
     ''Recursive JSON structure detected - cannot canonicalize circular references''"

text \<open>Canonicalization as the engine calls it, with its two ways of wrapping an error.\<close>

definition canonical_for_hash :: "crypto \<Rightarrow> json \<Rightarrow> signing_error + string" where
  "canonical_for_hash w v =
     map_err (\<lambda>e. S_HashCalculationError (''Canonical JSON error: '' @ canonical_error_text e))
       (to_canonical_json (json_to_string w) v)"

definition canonical_for_crypto :: "crypto \<Rightarrow> json \<Rightarrow> signing_error + string" where
  "canonical_for_crypto w v =
     map_err (\<lambda>e. S_CryptoError (''Canonical JSON error: '' @ canonical_error_text e))
       (to_canonical_json (json_to_string w) v)"

section \<open>Redaction and hashes\<close>

definition null_or :: "('a \<Rightarrow> json) \<Rightarrow> 'a option \<Rightarrow> json" where
  "null_or f x = (case x of None \<Rightarrow> JNull | Some v \<Rightarrow> f v)"

text \<open>The members of content that survive redaction; \<open>None\<close> stands for all of them.\<close>

definition preserved_fields :: "string \<Rightarrow> string \<Rightarrow> string list option" where
  "preserved_fields event_type room_version =
     (let among = (\<lambda>vs. List.member vs room_version);
          v1_8 = [''1'', ''2'', ''3'', ''4'', ''5'', ''6'', ''7'', ''8''];
          v1_10 = v1_8 @ [''9'', ''10'']
      in if event_type = ''m.room.member'' then
           (if among v1_8 then Some [''membership'']
            else Some [''membership'', ''join_authorised_via_users_server''])
         else if event_type = ''m.room.create'' then
           (if among v1_10 then Some [''creator'', ''m.federate'', ''room_version''] else None)
         else if event_type = ''m.room.join_rules'' then
           (if among v1_8 then Some [''join_rule''] else Some [''join_rule'', ''allow''])
         else if event_type = ''m.room.power_levels'' then
           (if among v1_10
            then Some [''ban'', ''events'', ''events_default'', ''kick'', ''redact'',
                       ''state_default'', ''users'', ''users_default'']
            else Some [''ban'', ''events'', ''events_default'', ''invite'', ''kick'', ''redact'',
                       ''state_default'', ''users'', ''users_default''])
         else if event_type = ''m.room.history_visibility'' then Some [''history_visibility'']
         else if event_type = ''m.room.aliases'' then
           (if among [''1'', ''2'', ''3'', ''4'', ''5''] then Some [''aliases''] else Some [])
         else if event_type = ''m.room.redaction'' then
           (if room_version = ''11'' then Some [''redacts''] else Some [])
         else Some [])"

definition get_preserved_content_fields :: "string \<Rightarrow> json \<Rightarrow> string \<Rightarrow> signing_error + json" where
  "get_preserved_content_fields event_type content room_version =
     bindR (ok_or (as_object content) (S_RedactionError ''Event content must be an object'')) (\<lambda>content_obj.
     case preserved_fields event_type room_version of
       None \<Rightarrow> Inr content
     | Some fs \<Rightarrow>
         Inr (JObject (List.map_filter (\<lambda>f. map_option (Pair f) (map_of content_obj f)) fs)))"

definition redact_event :: "event \<Rightarrow> string \<Rightarrow> signing_error + json" where
  "redact_event e room_version =
     (let redacted =
        [(''event_id'', JString (ev_event_id e)),
         (''type'', JString (ev_event_type e)),
         (''room_id'', JString (ev_room_id e)),
         (''sender'', JString (ev_sender e)),
         (''origin_server_ts'', int_json (ev_origin_server_ts e)),
         (''depth'', null_or int_json (ev_depth e)),
         (''prev_events'', null_or strings_json (ev_prev_events e)),
         (''auth_events'', null_or strings_json (ev_auth_events e))]
        @ opt_member ''state_key'' JString (ev_state_key e)
        @ opt_member ''hashes'' string_map_json (ev_hashes e)
      in bindR (get_preserved_content_fields (ev_event_type e) (content_to_value (ev_content e))
                  room_version) (\<lambda>preserved.
         Inr (JObject (redacted @
           (if as_object preserved \<noteq> None \<and> as_object preserved \<noteq> Some []
            then [(''content'', preserved)] else [])))))"

definition redact_event_for_signing :: "event \<Rightarrow> json" where
  "redact_event_for_signing e = JObject (
     [(''type'', JString (ev_event_type e)),
      (''room_id'', JString (ev_room_id e)),
      (''sender'', JString (ev_sender e)),
      (''origin_server_ts'', int_json (ev_origin_server_ts e)),
      (''depth'', null_or int_json (ev_depth e)),
      (''prev_events'', null_or strings_json (ev_prev_events e)),
      (''auth_events'', null_or strings_json (ev_auth_events e)),
      (''content'', content_to_value (ev_content e))]
     @ opt_member ''state_key'' JString (ev_state_key e)
     @ opt_member ''hashes'' string_map_json (ev_hashes e))"

definition calculate_content_hash :: "crypto \<Rightarrow> event \<Rightarrow> signing_error + string" where
  "calculate_content_hash w e =
     bindR (canonical_for_hash w
              (remove_keys [''unsigned'', ''signatures'', ''hashes''] (event_to_value e)))
       (\<lambda>canonical_json. Inr (b64_encode_no_pad w (sha256 w canonical_json)))"

definition calculate_reference_hash :: "crypto \<Rightarrow> event \<Rightarrow> string \<Rightarrow> signing_error + string" where
  "calculate_reference_hash w e room_version =
     bindR (redact_event e room_version) (\<lambda>redacted.
     bindR (canonical_for_hash w (remove_keys [''signatures'', ''unsigned''] redacted))
       (\<lambda>canonical_json. Inr (b64_encode_no_pad w (sha256 w canonical_json))))"

section \<open>Signing\<close>

text \<open>Reading a value back into the maps of an event.\<close>

fun decode_strings :: "members \<Rightarrow> signing_error + (string \<times> string) list" where
  "decode_strings [] = Inr []"
| "decode_strings ((k, JString v) # ms) = bindR (decode_strings ms) (\<lambda>m. Inr ((k, v) # m))"
| "decode_strings (_ # ms) = Inl (S_JsonError ''invalid type'')"

fun decode_signatures :: "members \<Rightarrow> signing_error + (string \<times> (string \<times> string) list) list" where
  "decode_signatures [] = Inr []"
| "decode_signatures ((k, JObject m) # ms) =
     bindR (decode_strings m) (\<lambda>m'. bindR (decode_signatures ms) (\<lambda>ms'. Inr ((k, m') # ms')))"
| "decode_signatures (_ # ms) = Inl (S_JsonError ''invalid type'')"

definition object_or_empty :: "json option \<Rightarrow> members" where
  "object_or_empty v = (case Option.bind v as_object of None \<Rightarrow> [] | Some ms \<Rightarrow> ms)"

text \<open>The signature map of a value with one signature of the server added.\<close>

definition add_signature :: "string \<Rightarrow> string \<Rightarrow> string \<Rightarrow> members \<Rightarrow> members" where
  "add_signature server key_id signature signatures_map =
     AList.update server
       (JObject (AList.update key_id (JString signature)
          (object_or_empty (map_of signatures_map server)))) signatures_map"

definition sign_event :: "crypto \<Rightarrow> event \<Rightarrow> string \<Rightarrow> (signing_error + unit) \<times> event" where
  "sign_event w e signing_key_id =
     (case calculate_content_hash w e of
        Inl err \<Rightarrow> (Inl err, e)
      | Inr content_hash \<Rightarrow>
          let e1 = e\<lparr>ev_hashes := Some [(''sha256'', content_hash)]\<rparr> in
          (case bindR (canonical_for_hash w (redact_event_for_signing e1)) (\<lambda>canonical_json.
                bindR (map_err S_SignatureCreationError
                         (session_sign_json w canonical_json signing_key_id)) (\<lambda>signature.
                decode_signatures
                  (add_signature (homeserver_name w) signing_key_id signature
                     (object_or_empty (map_option signatures_json (ev_signatures e)))))) of
             Inl err \<Rightarrow> (Inl err, e1)
           | Inr signatures \<Rightarrow> (Inr (), e1\<lparr>ev_signatures := Some signatures\<rparr>)))"

definition sign_json :: "crypto \<Rightarrow> json \<Rightarrow> string option \<Rightarrow> signing_error + json" where
  "sign_json w v key_name =
     (let signing_key_id = unwrap_or ''ed25519:auto'' key_name in
      bindR (canonical_for_hash w v) (\<lambda>canonical_json.
      bindR (map_err S_SignatureCreationError (session_sign_json w canonical_json signing_key_id)) (\<lambda>signature.
      bindR (ok_or (as_object v) (S_InvalidFormat ''Input must be JSON object'')) (\<lambda>obj.
      Inr (JObject (AList.update ''signatures''
        (JObject (add_signature (homeserver_name w) signing_key_id signature
           (object_or_empty (get v ''signatures'')))) obj))))))"

section \<open>Remote keys\<close>

definition old_verify_key_json :: "old_verify_key \<Rightarrow> json" where
  "old_verify_key_json k =
     JObject [(''key'', JString (ovk_key k)), (''expired_ts'', int_json (ovk_expired_ts k))]"

definition verify_key_json :: "string \<Rightarrow> json" where
  "verify_key_json k = JObject [(''key'', JString k)]"

definition server_keys_json :: "server_keys_response \<Rightarrow> json" where
  "server_keys_json r = JObject
     [(''old_verify_keys'',
        null_or (\<lambda>m. JObject (map (\<lambda>(k, v). (k, old_verify_key_json v)) m)) (sk_old_verify_keys r)),
      (''server_name'', JString (sk_server_name r)),
      (''signatures'', signatures_json (sk_signatures r)),
      (''valid_until_ts'', int_json (sk_valid_until_ts r)),
      (''verify_keys'', JObject (map (\<lambda>(k, v). (k, verify_key_json v)) (sk_verify_keys r)))]"

text \<open>A loop that stops at the first signature that verifies.\<close>

definition verify_server_key_signatures ::
  "crypto \<Rightarrow> server_keys_response \<Rightarrow> string \<Rightarrow> signing_error + unit" where
  "verify_server_key_signatures w r server_name =
     bindR (ok_or (map_of (sk_signatures r) server_name)
              (S_KeyRetrievalError (''No signatures from '' @ server_name))) (\<lambda>server_signatures.
     bindR (canonical_for_crypto w (remove_keys [''signatures''] (server_keys_json r))) (\<lambda>canonical_json.
     ensure (list_ex (\<lambda>(key_id, signature).
               case map_of (sk_verify_keys r) key_id of
                 None \<Rightarrow> False
               | Some key \<Rightarrow> is_ok (verify_ed25519_signature w signature canonical_json key))
             server_signatures)
       (S_CryptoError (''Failed to verify any server key signatures from '' @ server_name))))"

definition quot_i64 :: "int \<Rightarrow> int \<Rightarrow> int" where
  "quot_i64 a b = sgn a * sgn b * (\<bar>a\<bar> div \<bar>b\<bar>)"

definition store_key_row ::
  "crypto \<Rightarrow> string \<Rightarrow> int \<Rightarrow> int \<Rightarrow> string \<times> string \<Rightarrow> key_row list \<Rightarrow> (signing_error + unit) \<times> key_row list"
where
  "store_key_row w server_name now cache_until entry rows =
     (let row = \<lparr>kr_server_name = server_name, kr_key_id = fst entry, kr_public_key = snd entry,
                 kr_fetched_at = now, kr_is_active = True, kr_expires_at = cache_until\<rparr>
      in (case public_key_create w row of
            Inl e \<Rightarrow> (Inl (S_DatabaseError e), rows)
          | Inr _ \<Rightarrow> (Inr (), rows @ [row])))"

definition cache_server_keys ::
  "crypto \<Rightarrow> int \<Rightarrow> server_keys_response \<Rightarrow> string \<Rightarrow> key_row list \<Rightarrow> (signing_error + unit) \<times> key_row list"
where
  "cache_server_keys w now r server_name =
     bindS (liftS (ok_or (from_timestamp w (quot_i64 (sk_valid_until_ts r) 1000))
              (S_KeyRetrievalError ''Invalid timestamp in server keys''))) (\<lambda>valid_until.
     let cache_until = now + quot_i64 (valid_until - now) 2 in
     forS (store_key_row w server_name now cache_until) (sk_verify_keys r))"

definition seven_days :: int where "seven_days = 7 * 24 * 60 * 60 * 1000"

text \<open>\<open>now\<close> is the clock read by the expiry check and \<open>now'\<close> the one read when caching.\<close>

definition fetch_remote_server_key ::
  "crypto \<Rightarrow> int \<Rightarrow> int \<Rightarrow> string \<Rightarrow> string \<Rightarrow> key_row list \<Rightarrow> (signing_error + string) \<times> key_row list" where
  "fetch_remote_server_key w now now' server_name key_id rows =
     (case public_key_query w rows server_name key_id of
        Inl e \<Rightarrow> (Inl (S_DatabaseError e), rows)
      | Inr (Some cached_key) \<Rightarrow> (Inr cached_key, rows)
      | Inr None \<Rightarrow>
          bindS (liftS (resolve_server w server_name)) (\<lambda>base_url.
          bindS (liftS (http_get w (base_url @ ''/_matrix/key/v2/server''))) (\<lambda>response.
          bindS (liftS (ensure (hr_success response) (S_KeyRetrievalError ''HTTP status''))) (\<lambda>_.
          bindS (liftS (hr_body response)) (\<lambda>server_keys.
          let effective_valid_until = min (sk_valid_until_ts server_keys) (now + seven_days) in
          bindS (liftS (ensure (effective_valid_until > now)
                   (S_KeyRetrievalError (''Server key from '' @ server_name @ '' has expired'')))) (\<lambda>_.
          bindS (liftS (verify_server_key_signatures w server_keys server_name)) (\<lambda>_.
          bindS (cache_server_keys w now' server_keys server_name) (\<lambda>_.
          liftS (ok_or (map_of (sk_verify_keys server_keys) key_id)
            (S_KeyRetrievalError (''Key '' @ key_id @ '' not found''))))))))))
          rows)"

section \<open>Checking events\<close>

text \<open>The inner loop over the signatures of one server: whether one of them verifies.\<close>

fun verify_any_signature ::
  "crypto \<Rightarrow> int \<Rightarrow> int \<Rightarrow> string \<Rightarrow> string \<Rightarrow> members \<Rightarrow> key_row list \<Rightarrow> (signing_error + bool) \<times> key_row list"
where
  "verify_any_signature w now now' server_name canonical_json [] rows = (Inr False, rows)"
| "verify_any_signature w now now' server_name canonical_json ((key_id, signature) # sigs) rows =
     bindS (liftS (ok_or (as_str signature) (S_CryptoError ''Signature must be a string''))) (\<lambda>signature_str.
     bindS (fetch_remote_server_key w now now' server_name key_id) (\<lambda>public_key.
     if is_ok (verify_ed25519_signature w signature_str canonical_json public_key)
     then liftS (Inr True)
     else verify_any_signature w now now' server_name canonical_json sigs)) rows"

definition check_server_signatures ::
  "crypto \<Rightarrow> int \<Rightarrow> int \<Rightarrow> string \<Rightarrow> members \<Rightarrow> string \<Rightarrow> key_row list \<Rightarrow> (signing_error + unit) \<times> key_row list"
where
  "check_server_signatures w now now' canonical_json signatures_obj server_name =
     bindS (liftS (ok_or (Option.bind (map_of signatures_obj server_name) as_object)
              (S_CryptoError (''No signature from expected server '' @ server_name)))) (\<lambda>sigs.
     bindS (verify_any_signature w now now' server_name canonical_json sigs) (\<lambda>verified.
     liftS (ensure verified
       (S_CryptoError (''Failed to verify any signature from '' @ server_name)))))"

definition validate_event_signatures ::
  "crypto \<Rightarrow> int \<Rightarrow> int \<Rightarrow> event \<Rightarrow> string list \<Rightarrow> key_row list \<Rightarrow> (signing_error + unit) \<times> key_row list" where
  "validate_event_signatures w now now' e expected_servers =
     (let signatures_obj = object_or_empty (map_option signatures_json (ev_signatures e)) in
      bindS (liftS (canonical_for_crypto w (redact_event_for_signing e))) (\<lambda>canonical_json.
      forS (check_server_signatures w now now' canonical_json signatures_obj) expected_servers))"

definition validate_event_hash :: "crypto \<Rightarrow> event \<Rightarrow> signing_error + unit" where
  "validate_event_hash w e =
     (let hashes_obj = object_or_empty (map_option string_map_json (ev_hashes e)) in
      case get_str hashes_obj ''sha256'' of
        None \<Rightarrow> Inr ()
      | Some expected_hash \<Rightarrow>
          bindR (calculate_content_hash w e) (\<lambda>calculated_hash.
          ensure (expected_hash = calculated_hash) 
            (S_CryptoError (''Hash mismatch: expected '' @ expected_hash @ '', calculated '' @
               calculated_hash))))"

definition validate_event_crypto ::
  "crypto \<Rightarrow> int \<Rightarrow> int \<Rightarrow> event \<Rightarrow> string list \<Rightarrow> key_row list \<Rightarrow> (signing_error + unit) \<times> key_row list" where
  "validate_event_crypto w now now' e expected_servers =
     bindS (validate_event_signatures w now now' e expected_servers) (\<lambda>_.
     liftS (validate_event_hash w e))"

section \<open>Federation requests\<close>

record request_signing_data =
  rq_method :: string
  rq_uri :: string
  rq_origin :: string
  rq_destination :: string
  rq_content :: "json option"

definition signing_data_json :: "request_signing_data \<Rightarrow> json" where
  "signing_data_json d = JObject (
     [(''method'', JString (rq_method d)), (''uri'', JString (rq_uri d)),
      (''origin'', JString (rq_origin d)), (''destination'', JString (rq_destination d))]
     @ opt_member ''content'' (\<lambda>v. v) (rq_content d))"

text \<open>The header format of \<open>create_authorization_header\<close>; nothing is escaped.\<close>

definition format_header :: "string \<Rightarrow> string \<Rightarrow> string \<Rightarrow> string \<Rightarrow> string" where
  "format_header origin destination key_id signature =
     ''X-Matrix origin='' @ [CHR 0x22] @ origin @ [CHR 0x22] @ '',destination='' @ [CHR 0x22] @
     destination @ [CHR 0x22] @ '',key='' @ [CHR 0x22] @ key_id @ [CHR 0x22] @ '',signature='' @
     [CHR 0x22] @ signature @ [CHR 0x22]"

definition create_authorization_header ::
  "crypto \<Rightarrow> string \<Rightarrow> string \<Rightarrow> string \<Rightarrow> json option \<Rightarrow> signing_error + string" where
  "create_authorization_header w method uri destination content =
     (let signing_data = \<lparr>rq_method = method, rq_uri = uri, rq_origin = homeserver_name w,
                          rq_destination = destination, rq_content = content\<rparr> in
      bindR (sign_json w (signing_data_json signing_data) None) (\<lambda>signed_json.
      bindR (ok_or (Option.bind (get signed_json ''signatures'') as_object)
               (S_InvalidSignature ''Missing signatures in signed JSON'')) (\<lambda>signatures.
      bindR (ok_or (Option.bind (map_of signatures (homeserver_name w)) as_object)
               (S_InvalidSignature ''Missing origin signatures'')) (\<lambda>origin_signatures.
      bindR (case origin_signatures of
               [] \<Rightarrow> Inl (S_InvalidSignature ''No signatures found'')
             | entry # _ \<Rightarrow> Inr entry) (\<lambda>(key_id, signature_value).
      bindR (ok_or (as_str signature_value) (S_InvalidSignature ''Signature is not a string'')) (\<lambda>signature.
      Inr (format_header (homeserver_name w) destination key_id signature)))))))"

text \<open>
  The authorization header of a request is absent, not readable as text (\<open>Some None\<close>) or a text.
\<close>

definition verify_x_matrix_auth ::
  "crypto \<Rightarrow> int \<Rightarrow> int \<Rightarrow> string option option \<Rightarrow> string \<Rightarrow> string \<Rightarrow> string \<Rightarrow> json option \<Rightarrow>
   key_row list \<Rightarrow> (matrix_error + x_matrix_auth) \<times> key_row list" where
  "verify_x_matrix_auth w now now' header homeserver method uri content =
     bindS (liftS (ok_or header M_MissingToken)) (\<lambda>value.
     bindS (liftS (ok_or value M_Unauthorized)) (\<lambda>auth_header.
     bindS (liftS (map_err (\<lambda>_. M_Unauthorized) (parse_x_matrix_header auth_header))) (\<lambda>auth.
     bindS (liftS (ensure (xm_destination auth = None \<or> xm_destination auth = Some homeserver)
              M_Unauthorized)) (\<lambda>_.
     bindS (liftS (ensure (xm_key_id auth \<noteq> []) M_Unauthorized)) (\<lambda>_.
     bindS (liftS (ensure (xm_signature auth \<noteq> []) M_InvalidSignature)) (\<lambda>_.
     let signing_data = \<lparr>rq_method = method, rq_uri = uri, rq_origin = xm_origin auth,
                         rq_destination = homeserver, rq_content = content\<rparr> in
     bindS (liftS (map_err (\<lambda>_. M_Unknown)
              (to_canonical_json (json_to_string w) (signing_data_json signing_data)))) (\<lambda>canonical_json.
     bindS (\<lambda>rows. case fetch_remote_server_key w now now' (xm_origin auth) (xm_key_id auth) rows of
                     (r, rows') \<Rightarrow> (map_err (\<lambda>_. M_Unknown) r, rows')) (\<lambda>public_key.
     bindS (liftS (map_err (\<lambda>_. M_InvalidSignature)
              (verify_ed25519_signature w (xm_signature auth) canonical_json public_key))) (\<lambda>_.
     liftS (Inr auth))))))))))"

section \<open>Key pairs\<close>

text \<open>
  The server can sign with key \<open>key_id\<close>, and \<open>public_key\<close> is the other half: what the sources rely
  on from base64 (decoding inverts encoding) and Ed25519 (64-byte signatures, and the signature of
  a message verifies under the public key).
\<close>

definition key_pair :: "crypto \<Rightarrow> string \<Rightarrow> string \<Rightarrow> bool" where
  "key_pair w key_id public_key \<longleftrightarrow>
     (\<exists>private_key sk pk.
        private_key_query w key_id = Inr (Some private_key) \<and>
        b64_decode w private_key = Some sk \<and> length sk = 32 \<and>
        b64_decode w public_key = Some pk \<and> length pk = 32 \<and> ed_key_ok w pk \<and>
        (\<forall>m. length (ed_sign w sk m) = 64 \<and> ed_verify w pk m (ed_sign w sk m))) \<and>
     (\<forall>s. b64_decode w (b64_encode w s) = Some s)"

lemma key_pair_signs:
  assumes "key_pair w key_id public_key"
  obtains signature where "session_sign_json w m key_id = Inr signature"
    and "verify_ed25519_signature w signature m public_key = Inr ()"
proof -
  from assms obtain private_key sk pk where
    "private_key_query w key_id = Inr (Some private_key)"
    "b64_decode w private_key = Some sk" "length sk = 32"
    "b64_decode w public_key = Some pk" "length pk = 32" "ed_key_ok w pk"
    "length (ed_sign w sk m) = 64" "ed_verify w pk m (ed_sign w sk m)"
    "b64_decode w (b64_encode w (ed_sign w sk m)) = Some (ed_sign w sk m)"
    unfolding key_pair_def by blast
  then show thesis
    by (intro that [of "b64_encode w (ed_sign w sk m)"])
      (simp_all add: session_sign_json_def verify_ed25519_signature_def ensure_def)
qed

section \<open>Signed events\<close>

lemma decode_strings_json [simp]: "decode_strings (map (\<lambda>(k, v). (k, JString v)) m) = Inr m"
  by (induction m) auto

lemma decode_signatures_json [simp]:
  "decode_signatures (map (\<lambda>(k, v). (k, string_map_json v)) m) = Inr m"
  by (induction m) (auto simp: string_map_json_def)

lemma update_map_snd:
  "AList.update k (f v) (map (\<lambda>(k, v). (k, f v)) m) = map (\<lambda>(k, v). (k, f v)) (AList.update k v m)"
  by (induction m) auto

lemma object_or_empty_Some [simp]: "object_or_empty (Some (JObject ms)) = ms"
  by (simp add: object_or_empty_def)

lemma object_or_empty_None [simp]: "object_or_empty None = []"
  by (simp add: object_or_empty_def)

lemma event_signatures_object:
  "object_or_empty (map_option signatures_json s) =
     map (\<lambda>(k, v). (k, string_map_json v)) (unwrap_or [] s)"
  by (cases s) (simp_all add: signatures_json_def)

text \<open>The signatures of an event after one more by the server.\<close>

definition with_signature :: "string \<Rightarrow> string \<Rightarrow> string \<Rightarrow> (string \<times> (string \<times> string) list) list \<Rightarrow>
    (string \<times> (string \<times> string) list) list" where
  "with_signature server key_id signature m =
     AList.update server (AList.update key_id signature (unwrap_or [] (map_of m server))) m"

lemma add_signature_json:
  "add_signature server key_id signature (map (\<lambda>(k, v). (k, string_map_json v)) m) =
     map (\<lambda>(k, v). (k, string_map_json v)) (with_signature server key_id signature m)"
proof -
  have "object_or_empty (map_of (map (\<lambda>(k, v). (k, string_map_json v)) m) server) =
      map (\<lambda>(k, v). (k, JString v)) (unwrap_or [] (map_of m server))"
    by (cases "map_of m server") (simp_all add: map_of_map_snd string_map_json_def)
  then show ?thesis
    by (simp add: add_signature_def with_signature_def update_map_snd string_map_json_def
        flip: string_map_json_def)
qed

lemma sign_event_Inr_iff:
  "sign_event w e key_id = (Inr (), e') \<longleftrightarrow>
     (\<exists>hash canonical signature.
        calculate_content_hash w e = Inr hash \<and>
        canonical_for_hash w (redact_event_for_signing (e\<lparr>ev_hashes := Some [(''sha256'', hash)]\<rparr>))
          = Inr canonical \<and>
        session_sign_json w canonical key_id = Inr signature \<and>
        e' = e\<lparr>ev_hashes := Some [(''sha256'', hash)],
               ev_signatures := Some (with_signature (homeserver_name w) key_id signature
                 (unwrap_or [] (ev_signatures e)))\<rparr>)"
  by (auto simp: sign_event_def Let_def event_signatures_object add_signature_json
      bindR_Inl_iff bindR_Inr_iff map_err_Inr_iff split: sum.splits)

lemma redact_for_signing_signatures [simp]:
  "redact_event_for_signing (e\<lparr>ev_signatures := s\<rparr>) = redact_event_for_signing e"
  by (simp add: redact_event_for_signing_def)

text \<open>The content hash ignores hashes, signatures and unsigned data.\<close>

lemma calculate_content_hash_unsigned [simp]:
  "calculate_content_hash w (e\<lparr>ev_hashes := h, ev_signatures := s, ev_unsigned := u\<rparr>) =
   calculate_content_hash w e"
  by (cases "ev_hashes e"; cases h; cases "ev_signatures e"; cases s; cases "ev_unsigned e"; cases u)
    (simp_all add: calculate_content_hash_def event_to_value_def opt_member_def)

lemma calculate_content_hash_signed:
  "calculate_content_hash w (e\<lparr>ev_hashes := h, ev_signatures := s\<rparr>) = calculate_content_hash w e"
proof -
  have "e\<lparr>ev_hashes := h, ev_signatures := s\<rparr> =
      e\<lparr>ev_hashes := h, ev_signatures := s, ev_unsigned := ev_unsigned e\<rparr>" by simp
  then show ?thesis by (metis calculate_content_hash_unsigned)
qed

lemma canonical_wrap:
  "canonical_for_hash w v = Inr c \<longleftrightarrow> canonical_for_crypto w v = Inr c"
  by (simp add: canonical_for_hash_def canonical_for_crypto_def map_err_Inr_iff)

lemma map_of_with_signature:
  "map_of m server = None \<Longrightarrow>
     map_of (with_signature server key_id signature m) server = Some [(key_id, signature)]"
  by (simp add: with_signature_def update_conv)

lemma signed_event_validates:
  assumes keys: "key_pair w key_id public_key"
    and fetch: "fetch_remote_server_key w now now' (homeserver_name w) key_id rows = (Inr public_key, rows')"
    and fresh: "map_of (unwrap_or [] (ev_signatures e)) (homeserver_name w) = None"
    and signed: "sign_event w e key_id = (Inr (), e')"
  shows "validate_event_crypto w now now' e' [homeserver_name w] rows = (Inr (), rows')"
proof -
  from signed obtain hash canonical signature where
        hash: "calculate_content_hash w e = Inr hash"
    and canonical: "canonical_for_crypto w
          (redact_event_for_signing (e\<lparr>ev_hashes := Some [(''sha256'', hash)]\<rparr>)) = Inr canonical"
    and signature: "session_sign_json w canonical key_id = Inr signature"
    and e': "e' = e\<lparr>ev_hashes := Some [(''sha256'', hash)],
          ev_signatures := Some (with_signature (homeserver_name w) key_id signature
            (unwrap_or [] (ev_signatures e)))\<rparr>"
    by (auto simp: sign_event_Inr_iff canonical_wrap)
  have ok: "verify_ed25519_signature w signature canonical public_key = Inr ()"
    using key_pair_signs [OF keys, of canonical] signature by (metis Inr_inject)
  have "validate_event_signatures w now now' e' [homeserver_name w] rows = (Inr (), rows')"
    using canonical fetch ok
    by (simp add: validate_event_signatures_def check_server_signatures_def Let_def e' signatures_json_def
        map_of_map_snd map_of_with_signature [OF fresh] string_map_json_def
        bindS_def liftS_def ensure_def)
  moreover have "validate_event_hash w e' = Inr ()"
    using hash by (simp add: validate_event_hash_def e' calculate_content_hash_signed
        string_map_json_def get_str_def ensure_def)
  ultimately show ?thesis by (simp add: validate_event_crypto_def bindS_def liftS_def)
qed

text \<open>What an accepted event carries.\<close>

lemma verify_any_signature_sound:
  "verify_any_signature w now now' server cj sigs rows = (Inr True, rows') \<Longrightarrow>
     \<exists>key_id signature public_key rows1 rows2. (key_id, JString signature) \<in> set sigs \<and>
       fetch_remote_server_key w now now' server key_id rows1 = (Inr public_key, rows2) \<and>
       verify_ed25519_signature w signature cj public_key = Inr ()"
proof (induction sigs arbitrary: rows)
  case Nil
  then show ?case by simp
next
  case (Cons a sigs)
  obtain key_id sig where a: "a = (key_id, sig)" by (cases a)
  from Cons.prems a obtain s pk rows1 where s: "as_str sig = Some s"
    and f: "fetch_remote_server_key w now now' server key_id rows = (Inr pk, rows1)"
    and r: "(if is_ok (verify_ed25519_signature w s cj pk) then liftS (Inr True)
       else verify_any_signature w now now' server cj sigs) rows1 = (Inr True, rows')"
    by (auto simp: result_simps)
  from s have sig: "sig = JString s" by (cases sig) auto
  show ?case
  proof (cases "is_ok (verify_ed25519_signature w s cj pk)")
    case True
    then have "verify_ed25519_signature w s cj pk = Inr ()" by (auto simp: is_ok_iff)
    with a sig f show ?thesis by (metis list.set_intros(1))
  next
    case False
    with r have "verify_any_signature w now now' server cj sigs rows1 = (Inr True, rows')"
      by simp
    then show ?thesis using Cons.IH by fastforce
  qed
qed

lemma forS_Inr_each:
  "forS f xs s = (Inr (), s') \<Longrightarrow> x \<in> set xs \<Longrightarrow> \<exists>s1 s2. f x s1 = (Inr (), s2)"
  by (induction xs arbitrary: s) (auto simp: bindS_Inr_iff)

lemma validated_event_signed:
  assumes ok: "validate_event_crypto w now now' e servers rows = (Inr (), rows')"
    and server: "server \<in> set servers"
  shows "\<exists>cj key_id signature public_key rows1 rows2.
     to_canonical_json (json_to_string w) (redact_event_for_signing e) = Inr cj \<and>
     (\<exists>sigs. map_of (unwrap_or [] (ev_signatures e)) server = Some sigs \<and> (key_id, signature) \<in> set sigs) \<and>
     fetch_remote_server_key w now now' server key_id rows1 = (Inr public_key, rows2) \<and>
     verify_ed25519_signature w signature cj public_key = Inr ()"
proof -
  let ?sigs = "map (\<lambda>(k, v). (k, string_map_json v)) (unwrap_or [] (ev_signatures e))"
  from ok obtain cj where cj: "canonical_for_crypto w (redact_event_for_signing e) = Inr cj"
    and loop: "forS (check_server_signatures w now now' cj ?sigs) servers rows = (Inr (), rows')"
    by (auto simp: validate_event_crypto_def validate_event_signatures_def Let_def bindS_Inr_iff
        liftS_Inr_iff event_signatures_object)
  from forS_Inr_each [OF loop server] obtain sigs rows1 rows2 where
        m: "Option.bind (map_of ?sigs server) as_object = Some sigs"
    and v: "verify_any_signature w now now' server cj sigs rows1 = (Inr True, rows2)"
    by (auto simp: check_server_signatures_def result_simps)
  from m obtain m' where m': "map_of (unwrap_or [] (ev_signatures e)) server = Some m'"
    and sigs: "sigs = map (\<lambda>(k, v). (k, JString v)) m'"
    by (auto simp: bind_eq_Some_conv map_of_map_snd string_map_json_def)
  from verify_any_signature_sound [OF v] sigs cj m' show ?thesis
    by (force simp: canonical_for_crypto_def map_err_Inr_iff)
qed

section \<open>Redaction\<close>

lemma map_of_map_filter_Pair:
  "map_of (List.map_filter (\<lambda>f. map_option (Pair f) (g f)) fs) k = (if k \<in> set fs then g k else None)"
  by (induction fs) (auto simp: map_filter_simps split: option.splits)

lemma map_filter_Pair_idem:
  "List.map_filter (\<lambda>f. map_option (Pair f)
       (map_of (List.map_filter (\<lambda>f. map_option (Pair f) (g f)) fs) f)) fs =
   List.map_filter (\<lambda>f. map_option (Pair f) (g f)) fs"
proof -
  have cong: "\<forall>f \<in> set xs. h f = h' f \<Longrightarrow> List.map_filter h xs = List.map_filter h' xs"
    for h h' :: "'a \<Rightarrow> ('a \<times> 'b) option" and xs
    by (induction xs) (auto simp: map_filter_simps split: option.splits)
  show ?thesis by (rule cong) (simp add: map_of_map_filter_Pair)
qed

lemma preserved_content_idem:
  "get_preserved_content_fields t c v = Inr p \<Longrightarrow> get_preserved_content_fields t p v = Inr p"
  by (auto simp: get_preserved_content_fields_def result_simps map_filter_Pair_idem
      split: option.splits)

lemma preserved_content_object:
  "get_preserved_content_fields t c v = Inr p \<Longrightarrow>
     \<exists>ms ps. c = JObject ms \<and> p = JObject ps \<and>
       (\<forall>k. map_of ps k =
          (case preserved_fields t v of
             None \<Rightarrow> map_of ms k
           | Some fs \<Rightarrow> if k \<in> set fs then map_of ms k else None))"
  by (cases c)
    (auto simp: get_preserved_content_fields_def map_of_map_filter_Pair split: option.splits)

lemma redact_event_content:
  assumes "get_preserved_content_fields (ev_event_type e) (content_to_value (ev_content e)) v = Inr p"
  shows "redact_event (e\<lparr>ev_content := Unknown p\<rparr>) v = redact_event e v"
  using assms preserved_content_idem [OF assms] by (simp add: redact_event_def)

section \<open>Fetched keys\<close>

text \<open>The rows that caching a response adds.\<close>

definition rows_of :: "string \<Rightarrow> int \<Rightarrow> int \<Rightarrow> (string \<times> string) list \<Rightarrow> key_row list" where
  "rows_of server_name now expires keys =
     map (\<lambda>(key_id, key). \<lparr>kr_server_name = server_name, kr_key_id = key_id, kr_public_key = key,
            kr_fetched_at = now, kr_is_active = True, kr_expires_at = expires\<rparr>) keys"

lemma forS_create_rows:
  "forS (store_key_row w s n x) keys rows = (Inr (), rows') \<Longrightarrow> rows' = rows @ rows_of s n x keys"
proof (induction keys arbitrary: rows)
  case Nil
  then show ?case by (simp add: rows_of_def)
next
  case (Cons a keys)
  from Cons.prems obtain rows1 where 1: "store_key_row w s n x a rows = (Inr (), rows1)"
    and "forS (store_key_row w s n x) keys rows1 = (Inr (), rows')"
    by (auto simp: bindS_Inr_iff)
  then have "rows' = rows1 @ rows_of s n x keys" by (intro Cons.IH)
  with 1 show ?case
    by (cases a) (auto simp: store_key_row_def Let_def rows_of_def split: sum.splits)
qed

lemma cache_server_keys_rows:
  assumes "cache_server_keys w now r s rows = (Inr (), rows')"
  shows "\<exists>expires. rows' = rows @ rows_of s now expires (sk_verify_keys r)"
  using assms by (auto simp: cache_server_keys_def bindS_Inr_iff liftS_Inr_iff Let_def
      dest: forS_create_rows)

lemma fetched_key_sound:
  assumes "fetch_remote_server_key w now now' s k rows = (Inr pk, rows')"
  shows "public_key_query w rows s k = Inr (Some pk) \<and> rows' = rows \<or>
    (\<exists>r expires. map_of (sk_verify_keys r) k = Some pk \<and> now < sk_valid_until_ts r \<and>
       verify_server_key_signatures w r s = Inr () \<and>
       rows' = rows @ rows_of s now' expires (sk_verify_keys r))"
proof (cases "public_key_query w rows s k = Inr None")
  case True
  with assms obtain r where "map_of (sk_verify_keys r) k = Some pk"
    "min (sk_valid_until_ts r) (now + seven_days) > now" "verify_server_key_signatures w r s = Inr ()"
    "cache_server_keys w now' r s rows = (Inr (), rows')"
    by (auto simp: fetch_remote_server_key_def result_simps Let_def)
  then show ?thesis by (metis cache_server_keys_rows min_less_iff_conj)
next
  case False
  with assms show ?thesis
    by (auto simp: fetch_remote_server_key_def split: sum.splits option.splits)
qed

section \<open>Request headers\<close>

lemma param_key_lower:
  "param_key ''origin'' = ''origin''" "param_key ''destination'' = ''destination''"
  "param_key ''key'' = ''key''" "param_key ''signature'' = ''signature''"
  by (simp_all add: param_key_def skip_blanks_def is_blank_def to_ascii_lower_def
      is_ascii_upper_def byte_def)

lemma param_token: "token ''origin''" "token ''destination''" "token ''key''" "token ''signature''"
  by (simp_all add: token_def is_valid_token_char_with_matrix_compat_def is_ascii_alphanumeric_def
      is_ascii_lower_def byte_def)

lemma plain_text_append: "plain_text (s @ t) \<longleftrightarrow> plain_text s \<and> plain_text t"
  by (auto simp: plain_text_def)

lemma format_header_print:
  assumes "plain_text origin" "plain_text destination" "plain_text key" "plain_text signature"
  shows "format_header origin destination key signature =
    ''X-Matrix '' @ print_params [(''origin'', origin), (''destination'', destination),
      (''key'', key), (''signature'', signature)]"
  using assms by (simp add: format_header_def print_param_def quoted_text_plain)

lemma parse_print_header:
  "parse_x_matrix_header (''X-Matrix '' @ print_params [(''origin'', origin),
     (''destination'', destination), (''key'', ''ed25519:'' @ key_id), (''signature'', signature)]) =
   Inr \<lparr>xm_origin = origin, xm_destination = Some destination, xm_key_id = key_id,
        xm_signature = signature\<rparr>"
proof -
  let ?ps = "[(''origin'', origin), (''destination'', destination),
     (''key'', ''ed25519:'' @ key_id), (''signature'', signature)]"
  have "parse_auth_params (print_params ?ps) = Inr (map_of (rev (map (\<lambda>(n, v). (param_key n, v)) ?ps)))"
    by (rule parse_auth_params_print) (simp add: param_token)
  then have ps: "parse_auth_params (print_params ?ps) = Inr [''origin'' \<mapsto> origin,
      ''destination'' \<mapsto> destination, ''key'' \<mapsto> ''ed25519:'' @ key_id, ''signature'' \<mapsto> signature]"
    by (simp add: param_key_lower del: print_params.simps)
  show ?thesis
    unfolding parse_x_matrix_header_def strip_prefix_append ok_or.simps bindR.simps ps
    by simp
qed

lemma created_header:
  "create_authorization_header w method uri destination content = Inr h \<longleftrightarrow>
     (\<exists>cj signature.
        to_canonical_json (json_to_string w) (signing_data_json
          \<lparr>rq_method = method, rq_uri = uri, rq_origin = homeserver_name w,
           rq_destination = destination, rq_content = content\<rparr>) = Inr cj \<and>
        session_sign_json w cj ''ed25519:auto'' = Inr signature \<and>
        h = format_header (homeserver_name w) destination ''ed25519:auto'' signature)"
  by (cases content)
    (auto simp: create_authorization_header_def sign_json_def signing_data_json_def opt_member_def
      canonical_for_hash_def result_simps add_signature_def Let_def)

section \<open>Claims\<close>

text \<open>
  C5. Signing an event and checking it agree: when the server signs an event that carries none of
  its signatures yet, the result passes the complete cryptographic check for that server, given
  that the key lookup returns the public half of the signing key.
\<close>

theorem signed_event_accepted:
  assumes "key_pair w key_id public_key"
    and "fetch_remote_server_key w now now' (homeserver_name w) key_id rows = (Inr public_key, rows')"
    and "map_of (unwrap_or [] (ev_signatures e)) (homeserver_name w) = None"
    and "sign_event w e key_id = (Inr (), e')"
  shows "validate_event_crypto w now now' e' [homeserver_name w] rows = (Inr (), rows')"
  using assms by (rule signed_event_validates)

text \<open>
  C6. An event that passes the check carries, for every expected server, a signature listed under
  that server which verifies over the canonical JSON of the event under a key fetched from that
  server.
\<close>

theorem accepted_event_signed:
  assumes "validate_event_crypto w now now' e servers rows = (Inr (), rows')"
    and "server \<in> set servers"
  shows "\<exists>cj key_id signature public_key rows1 rows2.
     to_canonical_json (json_to_string w) (redact_event_for_signing e) = Inr cj \<and>
     (\<exists>sigs. map_of (unwrap_or [] (ev_signatures e)) server = Some sigs \<and> (key_id, signature) \<in> set sigs) \<and>
     fetch_remote_server_key w now now' server key_id rows1 = (Inr public_key, rows2) \<and>
     verify_ed25519_signature w signature cj public_key = Inr ()"
  using assms by (rule validated_event_signed)

text \<open>
  A key that is used was either in the table of remote keys already, or came from a response
  that had not expired and was signed by one of its own keys; in the second case exactly the keys
  of that response are added to the table.
\<close>

theorem fetched_key_authentic:
  assumes "fetch_remote_server_key w now now' s k rows = (Inr pk, rows')"
  shows "public_key_query w rows s k = Inr (Some pk) \<and> rows' = rows \<or>
    (\<exists>r expires. map_of (sk_verify_keys r) k = Some pk \<and> now < sk_valid_until_ts r \<and>
       verify_server_key_signatures w r s = Inr () \<and>
       rows' = rows @ rows_of s now' expires (sk_verify_keys r))"
  using assms by (rule fetched_key_sound)

text \<open>
  Redaction and reference hashes: the content that survives redaction consists of the preserved
  members of the event's type and room version with their values, and replacing the content of an
  event by it changes neither the redacted event nor the reference hash.
\<close>

theorem redaction_stable:
  assumes "get_preserved_content_fields (ev_event_type e) (content_to_value (ev_content e)) v = Inr p"
  shows "redact_event (e\<lparr>ev_content := Unknown p\<rparr>) v = redact_event e v \<and>
         calculate_reference_hash w (e\<lparr>ev_content := Unknown p\<rparr>) v = calculate_reference_hash w e v \<and>
         (\<forall>k. get p k = (case preserved_fields (ev_event_type e) v of
             None \<Rightarrow> get (content_to_value (ev_content e)) k
           | Some fs \<Rightarrow> if k \<in> set fs then get (content_to_value (ev_content e)) k else None))"
  using redact_event_content [OF assms] preserved_content_object [OF assms]
  by (auto simp: calculate_reference_hash_def split: option.splits)

text \<open>
  The header parser inverts the printing of credentials: for every origin, destination, key
  name and signature, with quotes and backslashes escaped, parsing returns the same credentials.
\<close>

theorem parse_header_roundtrip:
  "parse_x_matrix_header (''X-Matrix '' @ print_params [(''origin'', origin),
     (''destination'', destination), (''key'', ''ed25519:'' @ key_id), (''signature'', signature)]) =
   Inr \<lparr>xm_origin = origin, xm_destination = Some destination, xm_key_id = key_id,
        xm_signature = signature\<rparr>"
  by (rule parse_print_header)

text \<open>
  The libraries behind two servers agree on base64, Ed25519 and JSON printing, base64 text holds
  neither quotes nor backslashes and a signature is not empty.
\<close>

definition same_libraries :: "crypto \<Rightarrow> crypto \<Rightarrow> bool" where
  "same_libraries w w' \<longleftrightarrow>
     b64_decode w' = b64_decode w \<and> ed_key_ok w' = ed_key_ok w \<and> ed_verify w' = ed_verify w \<and>
     json_to_string w' = json_to_string w \<and>
     (\<forall>s. plain_text (b64_encode w s) \<and> (s \<noteq> [] \<longrightarrow> b64_encode w s \<noteq> []))"

lemma verify_ed25519_same:
  "same_libraries w w' \<Longrightarrow> verify_ed25519_signature w' = verify_ed25519_signature w"
  by (simp add: same_libraries_def verify_ed25519_signature_def fun_eq_iff)

lemma session_sign_plain:
  assumes "same_libraries w w'" "key_pair w key_id public_key" "session_sign_json w m key_id = Inr s"
  shows "plain_text s \<and> s \<noteq> []"
proof -
  from assms(2) obtain private_key sk where
    "private_key_query w key_id = Inr (Some private_key)" "b64_decode w private_key = Some sk"
    "length sk = 32" and len: "length (ed_sign w sk m) = 64"
    unfolding key_pair_def by blast
  with assms(3) have "s = b64_encode w (ed_sign w sk m)"
    by (simp add: session_sign_json_def ensure_def)
  moreover have "ed_sign w sk m \<noteq> []" using len by auto
  ultimately show ?thesis using assms(1) by (simp add: same_libraries_def)
qed

lemma plain_auto: "plain_text ''ed25519:auto''"
  by (simp add: plain_text_def)

text \<open>
  A request signed by one server is accepted by the server it is addressed to, for the same
  method, URI and content: the receiver gets the sender's name back, and the only remaining
  condition is that its key lookup, made with the key name \<open>auto\<close> without the algorithm prefix,
  finds the sender's public key.
\<close>

theorem signed_request_accepted:
  assumes keys: "key_pair w ''ed25519:auto'' public_key" and lib: "same_libraries w w'"
    and names: "plain_text (homeserver_name w)" "plain_text destination"
    and created: "create_authorization_header w method uri destination content = Inr h"
    and fetch: "fetch_remote_server_key w' now now' (homeserver_name w) ''auto'' rows = (Inr public_key, rows')"
  shows "\<exists>auth. verify_x_matrix_auth w' now now' (Some (Some h)) destination method uri content rows =
           (Inr auth, rows') \<and> xm_origin auth = homeserver_name w"
proof -
  from created obtain cj sg where
    cj: "to_canonical_json (json_to_string w) (signing_data_json
          \<lparr>rq_method = method, rq_uri = uri, rq_origin = homeserver_name w,
           rq_destination = destination, rq_content = content\<rparr>) = Inr cj"
    and sg: "session_sign_json w cj ''ed25519:auto'' = Inr sg"
    and h: "h = format_header (homeserver_name w) destination ''ed25519:auto'' sg"
    by (auto simp: created_header)
  have plain: "plain_text sg" "sg \<noteq> []" using session_sign_plain [OF lib keys sg] by auto
  have ok: "verify_ed25519_signature w' sg cj public_key = Inr ()"
    using key_pair_signs [OF keys, of cj] sg verify_ed25519_same [OF lib] by (metis Inr_inject)
  have parsed: "parse_x_matrix_header h = Inr \<lparr>xm_origin = homeserver_name w,
      xm_destination = Some destination, xm_key_id = ''auto'', xm_signature = sg\<rparr>"
    using parse_print_header [of "homeserver_name w" destination "''auto''" sg]
    unfolding h format_header_print [OF names plain_auto plain(1)] by simp
  have "json_to_string w' = json_to_string w" using lib by (simp add: same_libraries_def)
  with parsed cj fetch ok plain(2) show ?thesis
    by (simp add: verify_x_matrix_auth_def ensure_def bindS_def liftS_def)
qed

text \<open>
  The key lookup of a request drops the algorithm prefix, so a request signed by this server
  is never accepted by a receiver whose key table and whose key responses name keys in full
  (\<open>ed25519:\<dots>\<close>), whatever the signature.
\<close>

theorem signed_request_key_prefix_lost:
  assumes names: "plain_text (homeserver_name w)" "plain_text destination"
    and plain: "\<And>s. plain_text (b64_encode w s)"
    and created: "create_authorization_header w method uri destination content = Inr h"
    and table: "public_key_query w' rows (homeserver_name w) ''auto'' = Inr None"
    and responses: "\<And>url r ks. http_get w' url = Inr r \<Longrightarrow> hr_body r = Inr ks \<Longrightarrow>
          \<forall>(id, k) \<in> set (sk_verify_keys ks). prefix ''ed25519:'' id"
  shows "\<nexists>auth rows'. verify_x_matrix_auth w' now now' (Some (Some h)) destination method uri content rows =
           (Inr auth, rows')"
proof -
  from created obtain cj sg where sg: "session_sign_json w cj ''ed25519:auto'' = Inr sg"
    and h: "h = format_header (homeserver_name w) destination ''ed25519:auto'' sg"
    by (auto simp: created_header)
  from sg plain have "plain_text sg" by (auto simp: session_sign_json_def result_simps)
  then have parsed: "parse_x_matrix_header h = Inr \<lparr>xm_origin = homeserver_name w,
      xm_destination = Some destination, xm_key_id = ''auto'', xm_signature = sg\<rparr>"
    using parse_print_header [of "homeserver_name w" destination "''auto''" sg]
    unfolding h format_header_print [OF names plain_auto \<open>plain_text sg\<close>] by simp
  have "fetch_remote_server_key w' now now' (homeserver_name w) ''auto'' rows \<noteq> (Inr pk, rows')" for pk rows'
  proof
    assume "fetch_remote_server_key w' now now' (homeserver_name w) ''auto'' rows = (Inr pk, rows')"
    with table obtain url r ks where "http_get w' url = Inr r" "hr_body r = Inr ks"
      "map_of (sk_verify_keys ks) ''auto'' = Some pk"
      by (auto simp: fetch_remote_server_key_def result_simps Let_def)
    with responses have "prefix ''ed25519:'' ''auto''" by (fastforce dest: map_of_SomeD)
    then show False by (simp add: prefix_def)
  qed
  with parsed show ?thesis
    by (auto simp: verify_x_matrix_auth_def result_simps Let_def split: prod.splits)
qed

section \<open>Witnesses\<close>

text \<open>
  Concrete libraries: bytes are printed as two letters each and a signature is the padded message.
\<close>

fun letters :: "string \<Rightarrow> string" where
  "letters [] = []"
| "letters (c # s) = char_of (97 + byte c div 16) # char_of (97 + byte c mod 16) # letters s"

fun unletters :: "string \<Rightarrow> string option" where
  "unletters [] = Some []"
| "unletters [c] = None"
| "unletters (c # d # s) =
     map_option (Cons (char_of ((byte c - 97) * 16 + (byte d - 97)))) (unletters s)"

lemma byte_less: "byte c < 256"
  using nat_of_char_less_256 [of c] by (simp add: byte_def)

lemma unletters_letters: "unletters (letters s) = Some s"
proof (induction s)
  case Nil
  show ?case by simp
next
  case (Cons c s)
  have "byte c div 16 < 16" using byte_less [of c] by simp
  then have "byte (char_of (97 + byte c div 16)) = 97 + byte c div 16"
    "byte (char_of (97 + byte c mod 16)) = 97 + byte c mod 16"
    by (simp_all add: byte_def)
  moreover have "char_of (byte c div 16 * 16 + byte c mod 16) = c" by (simp add: byte_def)
  ultimately show ?case using Cons by simp
qed

lemma letters_range: "c \<in> set (letters s) \<Longrightarrow> 97 \<le> byte c \<and> byte c < 113"
proof (induction s)
  case Nil
  then show ?case by simp
next
  case (Cons d s)
  have "byte d div 16 < 16" using byte_less [of d] by simp
  then have "byte (char_of (97 + byte d div 16)) = 97 + byte d div 16"
    "byte (char_of (97 + byte d mod 16)) = 97 + byte d mod 16"
    by (simp_all add: byte_def)
  with Cons \<open>byte d div 16 < 16\<close> show ?case by auto
qed

lemma letters_plain: "plain_text (letters s)"
  using letters_range [of "CHR 0x22" s] letters_range [of "CHR 0x5C" s]
  by (auto simp: plain_text_def byte_def)

definition demo_sign :: "string \<Rightarrow> string" where
  "demo_sign m = take 64 (m @ replicate 64 CHR ''x'')"

definition demo_crypto :: crypto where
  "demo_crypto =
     \<lparr>homeserver_name = ''a.org'', json_to_string = (\<lambda>v. Inr ''json''), sha256 = (\<lambda>s. s),
      b64_encode = letters, b64_encode_no_pad = letters, b64_decode = unletters,
      ed_sign = (\<lambda>sk m. demo_sign m), ed_key_ok = (\<lambda>pk. True),
      ed_verify = (\<lambda>pk m s. s = demo_sign m),
      private_key_query = (\<lambda>k. Inr (Some (letters (replicate 32 CHR ''k'')))),
      public_key_query = (\<lambda>rows s k. Inr (Some (letters (replicate 32 CHR ''p'')))),
      public_key_create = (\<lambda>row. Inr ()), resolve_server = (\<lambda>s. Inr s),
      http_get = (\<lambda>url. Inl (S_HttpError url)), from_timestamp = Some\<rparr>"

lemma demo_key_pair: "key_pair demo_crypto key_id (letters (replicate 32 CHR ''p''))"
proof -
  have "length (demo_sign m) = 64" for m by (simp add: demo_sign_def min_def)
  then show ?thesis
    by (simp add: key_pair_def demo_crypto_def unletters_letters)
qed

lemma demo_fetch:
  "fetch_remote_server_key demo_crypto now now' s k rows = (Inr (letters (replicate 32 CHR ''p'')), rows)"
  by (simp add: fetch_remote_server_key_def demo_crypto_def)

lemma demo_canonical:
  "json_wf v \<Longrightarrow> within_limits 0 v \<Longrightarrow> to_canonical_json (json_to_string demo_crypto) v = Inr ''json''"
  using canonicalize_succeeds(1) [of "{}" "[]" v 0]
  by (simp add: to_canonical_json_def demo_crypto_def)

definition demo_event :: event where
  "demo_event = new_event ''$1'' ''@u:a.org'' 5 ''m.room.message'' ''!r:a.org''
     (Unknown (JObject [(''body'', JString ''hi'')]))"

lemma demo_signs: "\<exists>e'. sign_event demo_crypto demo_event ''ed25519:1'' = (Inr (), e')"
proof -
  have 1: "calculate_content_hash demo_crypto demo_event = Inr (letters ''json'')"
    unfolding calculate_content_hash_def canonical_for_hash_def
    by (subst demo_canonical) (simp_all add: demo_event_def new_event_def event_to_value_def
        opt_member_def MAX_DEPTH_def MAX_MEMBERS_def demo_crypto_def)
  have 2: "canonical_for_hash demo_crypto (redact_event_for_signing
      (demo_event\<lparr>ev_hashes := Some [(''sha256'', letters ''json'')]\<rparr>)) = Inr ''json''"
    unfolding canonical_for_hash_def
    by (subst demo_canonical) (simp_all add: demo_event_def new_event_def
        redact_event_for_signing_def opt_member_def null_or_def string_map_json_def
        MAX_DEPTH_def MAX_MEMBERS_def)
  obtain s where 3: "session_sign_json demo_crypto ''json'' ''ed25519:1'' = Inr s"
    using key_pair_signs [OF demo_key_pair] by metis
  show ?thesis using 1 2 3 sign_event_Inr_iff by blast
qed

definition demo_signed :: event where
  "demo_signed = snd (sign_event demo_crypto demo_event ''ed25519:1'')"

lemma demo_signed: "sign_event demo_crypto demo_event ''ed25519:1'' = (Inr (), demo_signed)"
  using demo_signs by (auto simp: demo_signed_def)

theorem signed_event_accepted_witness:
  "validate_event_crypto demo_crypto 0 0 demo_signed [''a.org''] [] = (Inr (), [])"
  using signed_event_accepted [OF demo_key_pair demo_fetch _ demo_signed]
  by (simp add: demo_event_def new_event_def demo_crypto_def)

theorem accepted_event_signed_witness:
  "\<exists>key_id signature sigs. map_of (unwrap_or [] (ev_signatures demo_signed)) ''a.org'' = Some sigs \<and>
     (key_id, signature) \<in> set sigs"
proof -
  have "validate_event_crypto demo_crypto 0 0 demo_signed [homeserver_name demo_crypto] [] = (Inr (), [])"
    by (rule signed_event_validates [OF demo_key_pair demo_fetch _ demo_signed])
      (simp add: demo_event_def new_event_def)
  from accepted_event_signed [OF this, of "''a.org''"] show ?thesis
    by (auto simp: demo_crypto_def)
qed

theorem fetched_key_authentic_witness:
  "public_key_query demo_crypto [] ''b.org'' ''k'' = Inr (Some (letters (replicate 32 CHR ''p''))) \<or>
   (\<exists>r. verify_server_key_signatures demo_crypto r ''b.org'' = Inr ())"
  using fetched_key_authentic [OF demo_fetch [of 0 0 "''b.org''" "''k''" "[]"]] by blast

theorem redaction_stable_witness:
  "redact_event (demo_event\<lparr>ev_content := Unknown (JObject [])\<rparr>) ''9'' = redact_event demo_event ''9''"
  using redaction_stable [of demo_event "''9''" "JObject []"]
  by (simp add: get_preserved_content_fields_def preserved_fields_def demo_event_def new_event_def
      map_filter_simps Let_def)

lemma demo_created:
  "\<exists>h. create_authorization_header demo_crypto ''GET'' ''/x'' ''b.org'' None = Inr h"
proof -
  have 1: "to_canonical_json (json_to_string demo_crypto) (signing_data_json
      \<lparr>rq_method = ''GET'', rq_uri = ''/x'', rq_origin = homeserver_name demo_crypto,
       rq_destination = ''b.org'', rq_content = None\<rparr>) = Inr ''json''"
    by (subst demo_canonical) (simp_all add: signing_data_json_def opt_member_def
        MAX_DEPTH_def MAX_MEMBERS_def)
  obtain s where "session_sign_json demo_crypto ''json'' ''ed25519:auto'' = Inr s"
    using key_pair_signs [OF demo_key_pair] by metis
  with 1 show ?thesis using created_header by blast
qed

definition demo_header :: string where
  "demo_header = projr (create_authorization_header demo_crypto ''GET'' ''/x'' ''b.org'' None)"

lemma demo_header: "create_authorization_header demo_crypto ''GET'' ''/x'' ''b.org'' None = Inr demo_header"
  using demo_created by (auto simp: demo_header_def)

lemma demo_libraries: "same_libraries demo_crypto demo_crypto"
proof -
  have "letters s \<noteq> []" if "s \<noteq> []" for s using that by (cases s) auto
  then show ?thesis by (simp add: same_libraries_def demo_crypto_def letters_plain)
qed

lemma demo_names: "plain_text (homeserver_name demo_crypto)" "plain_text ''b.org''"
  by (simp_all add: demo_crypto_def plain_text_def)

theorem signed_request_accepted_witness:
  "\<exists>auth. verify_x_matrix_auth demo_crypto 0 0 (Some (Some demo_header)) ''b.org'' ''GET'' ''/x'' None [] =
     (Inr auth, []) \<and> xm_origin auth = ''a.org''"
  using signed_request_accepted [OF demo_key_pair demo_libraries demo_names demo_header demo_fetch]
  by (simp add: demo_crypto_def)

text \<open>The same libraries at a receiver that knows no key yet.\<close>

definition demo_receiver :: crypto where
  "demo_receiver = demo_crypto\<lparr>public_key_query := (\<lambda>rows s k. Inr None)\<rparr>"

theorem signed_request_key_prefix_lost_witness:
  "\<nexists>auth rows'. verify_x_matrix_auth demo_receiver 0 0 (Some (Some demo_header)) ''b.org'' ''GET'' ''/x''
     None [] = (Inr auth, rows')"
  by (rule signed_request_key_prefix_lost [OF demo_names _ demo_header])
    (simp_all add: demo_receiver_def demo_crypto_def letters_plain)

end
