(* ===== verification/Membership_Machine.thy ===== *)
theory Membership_Machine
  imports Entity
begin

text \<open>
  The contract of every check of membership changes: a ban is left only by going back to \<open>leave\<close>,
  a knock is not a way in by itself, and a member is neither invited nor knocks. What follows for
  sequences of changes is proved once; the table of the client API and the transition rules of
  the federation engine are the instances.
\<close>

locale membership_machine =
  fixes step :: "membership_state \<Rightarrow> membership_state \<Rightarrow> bool"
  assumes from_ban: "step Ban m \<Longrightarrow> m \<in> {Ban, Leave}"
    and from_knock: "step Knock m \<Longrightarrow> m \<noteq> Join"
    and from_join: "step Join m \<Longrightarrow> m \<notin> {Invite, Knock}"
begin

lemma ban_until_leave:
  "successively step (Ban # ms) \<Longrightarrow> Join \<in> set ms \<Longrightarrow> \<exists>xs ys. ms = xs @ Leave # ys \<and> Join \<notin> set xs"
proof (induction ms)
  case (Cons m ms)
  from Cons.prems(1) have "m = Ban \<or> m = Leave" using from_ban by (auto simp: successively_Cons)
  then show ?case
  proof
    assume "m = Leave"
    then have "m # ms = [] @ Leave # ms \<and> Join \<notin> set []" by simp
    then show ?thesis by blast
  next
    assume m: "m = Ban"
    with Cons obtain xs ys where "ms = xs @ Leave # ys" "Join \<notin> set xs" by (auto simp: successively_Cons)
    with m have "m # ms = (Ban # xs) @ Leave # ys \<and> Join \<notin> set (Ban # xs)" by simp
    then show ?thesis by blast
  qed
qed simp

lemma knock_until_answer:
  "successively step (Knock # ms) \<Longrightarrow> Join \<in> set ms \<Longrightarrow>
     \<exists>xs m ys. ms = xs @ m # ys \<and> m \<in> {Invite, Leave} \<and> Join \<notin> set xs"
proof (induction ms)
  case (Cons m ms)
  have m: "step Knock m" and run: "successively step (m # ms)"
    using Cons.prems(1) by (simp_all add: successively_Cons)
  show ?case
  proof (cases m)
    case Join
    then show ?thesis using from_knock [OF m] by simp
  next
    case Knock
    with Cons run obtain xs m' ys where "ms = xs @ m' # ys" "m' \<in> {Invite, Leave}" "Join \<notin> set xs"
      by (auto simp: successively_Cons)
    with Knock have "m # ms = (Knock # xs) @ m' # ys \<and> m' \<in> {Invite, Leave} \<and> Join \<notin> set (Knock # xs)" by simp
    then show ?thesis by blast
  next
    case Ban
    with run Cons.prems(2) obtain xs ys where "ms = xs @ Leave # ys" "Join \<notin> set xs"
      using ban_until_leave [of ms] by auto
    with Ban have "m # ms = (Ban # xs) @ Leave # ys \<and> Leave \<in> {Invite, Leave} \<and> Join \<notin> set (Ban # xs)" by simp
    then show ?thesis by blast
  next
    case Invite
    then have "m # ms = [] @ m # ms \<and> m \<in> {Invite, Leave} \<and> Join \<notin> set []" by simp
    then show ?thesis by blast
  next
    case Leave
    then have "m # ms = [] @ m # ms \<and> m \<in> {Invite, Leave} \<and> Join \<notin> set []" by simp
    then show ?thesis by blast
  qed
qed simp

end

end
