(* ===== verification/Fed_Auth.thy ===== *)
theory Fed_Auth
  imports Entity Power_Hierarchy Membership_Machine
begin

text \<open>
  The event authorization engine, \<open>server/src/federation/authorization.rs\<close>: the pipeline
  \<open>authorize_event\<close> with its state built from auth events, the power level validator, the auth
  events selector, the event type validator with the membership transitions and join rules, the
  room version handler, server access control lists and the federation join, leave and knock
  checks. Repository reads, membership queries to other servers, glob patterns and the decoding
  of an access control list are the record \<open>auth_world\<close>; reads that only decide what is logged
  are left out.
\<close>

section \<open>Errors and environment\<close>

datatype authorization_error =
    AE_InsufficientPowerLevel int int
  | AE_InvalidMembershipTransition string string
  | AE_MissingAuthEvent string
  | AE_InvalidContent string
  | AE_AccessDenied string
  | AE_InvalidSender string
  | AE_EventIdCollision
  | AE_Forbidden string
  | AE_DatabaseError repository_error
  | AE_JsonError string

fun authorization_error_text :: "authorization_error \<Rightarrow> string" where
  "authorization_error_text (AE_InsufficientPowerLevel required actual) =
     ''Insufficient power level: required '' @ show_int required @ '', user has '' @ show_int actual"
| "authorization_error_text (AE_InvalidMembershipTransition old new) =
     ''Invalid membership transition: '' @ old @ '' -> '' @ new"
| "authorization_error_text (AE_MissingAuthEvent event_type) =
     ''Missing required auth event: '' @ event_type"
| "authorization_error_text (AE_InvalidContent reason) = ''Invalid event content: '' @ reason"
| "authorization_error_text (AE_AccessDenied reason) = ''Room access denied: '' @ reason"
| "authorization_error_text (AE_InvalidSender sender) = ''Invalid sender: '' @ sender"
| "authorization_error_text AE_EventIdCollision =
     ''Event ID collision: different senders for same event ID''"
| "authorization_error_text (AE_Forbidden reason) = ''Authorization forbidden: '' @ reason"
| "authorization_error_text (AE_DatabaseError e) = ''Database error: '' @ repository_error_text e"
| "authorization_error_text (AE_JsonError e) = ''JSON parsing error: '' @ e"

record server_acl =
  acl_allow :: "string list"
  acl_deny :: "string list"
  acl_allow_ip_literals :: bool

record auth_world =
  aw_homeserver :: string
  event_by_id :: "string \<Rightarrow> repository_error + event option"
  state_by_type_and_key :: "string \<Rightarrow> string \<Rightarrow> string \<Rightarrow> repository_error + event option"
  membership_by_room_user :: "string \<Rightarrow> string \<Rightarrow> repository_error + membership option"
  query_user_membership :: "string \<Rightarrow> string \<Rightarrow> string \<Rightarrow> string option"
  acl_from_value :: "json \<Rightarrow> server_acl option"
  glob_matcher :: "string \<Rightarrow> (string \<Rightarrow> bool) option"

section \<open>Auth state\<close>

record auth_state =
  state_map :: "string \<times> string \<rightharpoonup> event"
  create_event :: "event option"
  power_levels_event :: "event option"
  join_rules_event :: "event option"
  sender_membership :: "event option"

definition new_auth_state :: auth_state where
  "new_auth_state = \<lparr>state_map = Map.empty, create_event = None, power_levels_event = None,
                     join_rules_event = None, sender_membership = None\<rparr>"

definition add_auth_event :: "event \<Rightarrow> auth_state \<Rightarrow> auth_state" where
  "add_auth_event e s =
     (case ev_state_key e of
        None \<Rightarrow> s
      | Some k \<Rightarrow>
          let s1 = s\<lparr>state_map := (state_map s)((ev_event_type e, k) \<mapsto> e)\<rparr> in
          if ev_event_type e = ''m.room.create'' then s1\<lparr>create_event := Some e\<rparr>
          else if ev_event_type e = ''m.room.power_levels'' then s1\<lparr>power_levels_event := Some e\<rparr>
          else if ev_event_type e = ''m.room.join_rules'' then s1\<lparr>join_rules_event := Some e\<rparr>
          else if ev_event_type e = ''m.room.member'' \<and> k = ev_sender e
          then s1\<lparr>sender_membership := Some e\<rparr>
          else s1)"

definition build_auth_state :: "event list \<Rightarrow> auth_state" where
  "build_auth_state auth_events = fold add_auth_event auth_events new_auth_state"

definition content_i64 :: "event option \<Rightarrow> string \<Rightarrow> int option" where
  "content_i64 e k = Option.bind e (\<lambda>e. Option.bind (content_get (ev_content e) k) as_i64)"

definition content_str :: "event option \<Rightarrow> string \<Rightarrow> string option" where
  "content_str e k = Option.bind e (\<lambda>e. Option.bind (content_get (ev_content e) k) as_str)"

definition user_power_level :: "auth_state \<Rightarrow> string \<Rightarrow> int" where
  "user_power_level s user_id =
     unwrap_or 0 (Option.bind (power_levels_event s) (\<lambda>e.
       Option.bind (content_get (ev_content e) ''users'') (\<lambda>users.
       Option.bind (get users user_id) as_i64)))"

definition default_power_level :: "auth_state \<Rightarrow> int" where
  "default_power_level s = unwrap_or 0 (content_i64 (power_levels_event s) ''users_default'')"

definition required_power_level :: "auth_state \<Rightarrow> string \<Rightarrow> bool \<Rightarrow> int" where
  "required_power_level s event_type is_state_event =
     (let spec_default = (if is_state_event then 50 else 0) in
      case power_levels_event s of
        None \<Rightarrow> spec_default
      | Some e \<Rightarrow>
          (case Option.bind (content_get (ev_content e) ''events'') (\<lambda>events.
                  Option.bind (get events event_type) as_i64) of
             Some level \<Rightarrow> level
           | None \<Rightarrow>
               (case content_i64 (Some e) (if is_state_event then ''state_default''
                                           else ''events_default'') of
                  Some level \<Rightarrow> level
                | None \<Rightarrow> spec_default)))"

section \<open>Checks of the engine\<close>

definition validate_basic_constraints :: "event \<Rightarrow> authorization_error + unit" where
  "validate_basic_constraints e =
     bindR (ensure (ev_event_id e \<noteq> [] \<and> starts_with (ev_event_id e) CHR ''$'')
              (AE_InvalidContent ''Invalid event ID format'')) (\<lambda>_.
     bindR (ensure (ev_room_id e \<noteq> [] \<and> starts_with (ev_room_id e) CHR ''!'')
              (AE_InvalidContent ''Invalid room ID format'')) (\<lambda>_.
     bindR (ensure (ev_sender e \<noteq> [] \<and> starts_with (ev_sender e) CHR ''@'' \<and>
                    contains (ev_sender e) CHR '':'') (AE_InvalidSender (ev_sender e))) (\<lambda>_.
     bindR (ensure (ev_event_type e \<noteq> []) (AE_InvalidContent ''Event type cannot be empty'')) (\<lambda>_.
     ensure (case ev_depth e of None \<Rightarrow> True | Some d \<Rightarrow> d \<ge> 0)
       (AE_InvalidContent ''Event depth cannot be negative'')))))"

definition content_object :: "event \<Rightarrow> string \<Rightarrow> authorization_error + members" where
  "content_object e reason = ok_or (content_as_object (ev_content e)) (AE_InvalidContent reason)"

definition validate_sender_authorization :: "event \<Rightarrow> auth_state \<Rightarrow> authorization_error + unit" where
  "validate_sender_authorization e s =
     (case state_map s (''m.room.member'', ev_sender e) of
        Some membership_event \<Rightarrow>
          bindR (content_object membership_event ''Membership event content must be object'') (\<lambda>content.
          bindR (ok_or (get_str content ''membership'') (AE_InvalidContent ''Missing membership field'')) (\<lambda>membership.
          ensure (membership = ''join'' \<or> ev_event_type e = ''m.room.member'')
            (AE_AccessDenied (''User '' @ ev_sender e @ '' is not joined ('' @ membership @ '')''))))
      | None \<Rightarrow>
          ensure (ev_event_type e = ''m.room.member'' \<or> ev_event_type e = ''m.room.create'')
            (AE_AccessDenied (''User '' @ ev_sender e @ '' has no membership in room'')))"

text \<open>A mismatch of the lists is only logged; a missing list is an error when one is expected.\<close>

definition validate_auth_events_selection :: "event \<Rightarrow> string list \<Rightarrow> authorization_error + unit" where
  "validate_auth_events_selection e expected =
     (case ev_auth_events e of
        Some _ \<Rightarrow> Inr ()
      | None \<Rightarrow> ensure (sort expected = []) (AE_MissingAuthEvent ''auth_events field missing''))"

section \<open>Power level validator\<close>

definition check_granted_level ::
  "auth_state \<Rightarrow> int \<Rightarrow> string \<times> json \<Rightarrow> authorization_error + unit" where
  "check_granted_level s sender_power_level entry =
     (case as_i64 (snd entry) of
        None \<Rightarrow> Inr ()
      | Some new_level \<Rightarrow>
          bindR (ensure (new_level \<le> sender_power_level)
                   (AE_InsufficientPowerLevel new_level sender_power_level)) (\<lambda>_.
          let current_level = user_power_level s (fst entry) in
          ensure (\<not> (current_level \<ge> sender_power_level \<and> new_level < current_level))
            (AE_InsufficientPowerLevel current_level sender_power_level)))"

definition check_level_field :: "int \<Rightarrow> string \<times> json \<Rightarrow> authorization_error + unit" where
  "check_level_field sender_power_level entry =
     (case as_i64 (snd entry) of
        None \<Rightarrow> Inr ()
      | Some new_level \<Rightarrow>
          if fst entry = ''users'' then Inr ()
          else if List.member [''users_default'', ''events_default'', ''state_default'', ''invite'',
                               ''kick'', ''ban'', ''redact''] (fst entry)
          then ensure (new_level \<le> sender_power_level)
                 (AE_InsufficientPowerLevel new_level sender_power_level)
          else ensure (\<not> (fst entry \<noteq> ''events'' \<and> new_level > sender_power_level))
                 (AE_InsufficientPowerLevel new_level sender_power_level))"

definition validate_power_level_event ::
  "event \<Rightarrow> auth_state \<Rightarrow> int \<Rightarrow> authorization_error + unit" where
  "validate_power_level_event e s sender_power_level =
     bindR (content_object e ''Power levels content must be object'') (\<lambda>new_content.
     bindR (case Option.bind (map_of new_content ''users'') as_object of
              None \<Rightarrow> Inr ()
            | Some users \<Rightarrow> for_each (check_granted_level s sender_power_level) users) (\<lambda>_.
     for_each (check_level_field sender_power_level) new_content))"

definition validate_power_level :: "event \<Rightarrow> auth_state \<Rightarrow> authorization_error + unit" where
  "validate_power_level e s =
     (let user_level = user_power_level s (ev_sender e);
          required = required_power_level s (ev_event_type e) (ev_state_key e \<noteq> None)
      in bindR (ensure (\<not> user_level < required) (AE_InsufficientPowerLevel required user_level)) (\<lambda>_.
         if ev_event_type e = ''m.room.power_levels''
         then validate_power_level_event e s user_level
         else Inr ()))"

section \<open>Auth events selector\<close>

definition should_include_create_event :: "string \<Rightarrow> bool" where
  "should_include_create_event room_version = True"

text \<open>The identifier of an event of the state, as an optional element of a list.\<close>

definition id_of :: "event option \<Rightarrow> string list" where
  "id_of e = (case e of None \<Rightarrow> [] | Some e \<Rightarrow> [ev_event_id e])"

text \<open>The third-party invite an invitation refers to, and the member that authorised a join.\<close>

definition third_party_invite_ids :: "auth_state \<Rightarrow> members \<Rightarrow> string list" where
  "third_party_invite_ids s content =
     (case Option.bind (map_of content ''third_party_invite'') (\<lambda>tpi.
           Option.bind (get tpi ''signed'') (\<lambda>signed.
           Option.bind (get signed ''token'') as_str)) of
        None \<Rightarrow> []
      | Some token \<Rightarrow> id_of (state_map s (''m.room.third_party_invite'', token)))"

definition authorising_member_ids :: "auth_state \<Rightarrow> members \<Rightarrow> string list" where
  "authorising_member_ids s content =
     (case get_str content ''join_authorised_via_users_server'' of
        None \<Rightarrow> []
      | Some authorised \<Rightarrow> id_of (state_map s (''m.room.member'', authorised)))"

definition select_membership_auth_events ::
  "event \<Rightarrow> auth_state \<Rightarrow> string list \<Rightarrow> authorization_error + string list" where
  "select_membership_auth_events e s auth_events =
     bindR (ok_or (ev_state_key e) (AE_InvalidContent ''Membership event must have state_key'')) (\<lambda>target_user_id.
     bindR (content_object e ''Membership event content must be object'') (\<lambda>content.
     bindR (ok_or (get_str content ''membership'')
              (AE_InvalidContent ''Membership event must have membership field'')) (\<lambda>membership.
     Inr (auth_events
       @ id_of (state_map s (''m.room.member'', target_user_id))
       @ (if List.member [''join'', ''invite'', ''knock''] membership
          then id_of (join_rules_event s) else [])
       @ (if membership = ''invite'' then third_party_invite_ids s content else [])
       @ (if membership = ''join'' then authorising_member_ids s content else [])))))"

definition select_auth_events ::
  "event \<Rightarrow> auth_state \<Rightarrow> string \<Rightarrow> authorization_error + string list" where
  "select_auth_events e s room_version =
     (let auth_events =
        (if should_include_create_event room_version then id_of (create_event s) else [])
        @ id_of (power_levels_event s)
        @ id_of (state_map s (''m.room.member'', ev_sender e))
      in bindR (if ev_event_type e = ''m.room.member''
                then select_membership_auth_events e s auth_events
                else Inr auth_events) (\<lambda>auth_events.
         Inr (remdups_adj (sort auth_events))))"

section \<open>Room version handler\<close>

text \<open>The rules of every room version are empty in the sources.\<close>

definition validate_room_version_rules ::
  "event \<Rightarrow> auth_state \<Rightarrow> string \<Rightarrow> authorization_error + unit" where
  "validate_room_version_rules e s room_version = Inr ()"

definition handler_cross_server_membership ::
  "auth_world \<Rightarrow> string \<Rightarrow> string \<Rightarrow> authorization_error + bool" where
  "handler_cross_server_membership w user_id allowed_room_id =
     bindR (ok_or (split_once CHR '':'' user_id) (AE_InvalidContent ''Invalid user ID format'')) (\<lambda>(_, user_server).
     if user_server = aw_homeserver w
     then bindR (map_err AE_DatabaseError (membership_by_room_user w allowed_room_id user_id)) (\<lambda>m.
          Inr (case m of None \<Rightarrow> False | Some m \<Rightarrow> m_membership m = Join))
     else Inr (query_user_membership w user_server allowed_room_id user_id = Some ''join''))"

definition validate_allow_condition :: "json \<Rightarrow> authorization_error + string option" where
  "validate_allow_condition condition =
     bindR (ok_or (as_object condition) (AE_InvalidContent ''Allow condition must be object'')) (\<lambda>obj.
     bindR (ok_or (get_str obj ''type'') (AE_InvalidContent ''Allow condition missing type'')) (\<lambda>condition_type.
     if condition_type = ''m.room_membership''
     then bindR (ok_or (get_str obj ''room_id'')
                   (AE_InvalidContent ''m.room_membership condition missing room_id'')) (\<lambda>room_id.
          bindR (ensure (starts_with room_id CHR ''!'' \<and> contains room_id CHR '':'')
                   (AE_InvalidContent (''Invalid room ID in allow condition: '' @ room_id))) (\<lambda>_.
          Inr (Some room_id)))
     else Inr None))"

section \<open>Event type validator\<close>

definition validate_cross_server_membership ::
  "auth_world \<Rightarrow> string \<Rightarrow> string \<Rightarrow> auth_state \<Rightarrow> authorization_error + bool" where
  "validate_cross_server_membership w user_id room_id s =
     (if content_str (state_map s (''m.room.member'', user_id)) ''membership'' = Some ''join''
      then Inr True
      else handler_cross_server_membership w user_id room_id)"

definition allow_condition_met :: "auth_world \<Rightarrow> event \<Rightarrow> auth_state \<Rightarrow> json \<Rightarrow> bool" where
  "allow_condition_met w e s condition =
     (case validate_allow_condition condition of
        Inr (Some allowed_room_id) \<Rightarrow>
          validate_cross_server_membership w (ev_sender e) allowed_room_id s = Inr True
      | _ \<Rightarrow> False)"

definition validate_join_authorization ::
  "auth_world \<Rightarrow> event \<Rightarrow> auth_state \<Rightarrow> authorization_error + unit" where
  "validate_join_authorization w e s =
     (let join_rule = unwrap_or ''invite'' (content_str (join_rules_event s) ''join_rule'') in
      if List.member [''public'', ''invite'', ''private'', ''knock''] join_rule then Inr ()
      else if join_rule = ''restricted''
      then bindR (ok_or (join_rules_event s)
                    (AE_InvalidContent ''Missing join_rules state for restricted room'')) (\<lambda>jr.
           bindR (ok_or (Option.bind (content_get (ev_content jr) ''allow'') as_array)
                    (AE_InvalidContent ''Restricted room missing allow conditions'')) (\<lambda>conditions.
           ensure (list_ex (allow_condition_met w e s) conditions)
             (AE_Forbidden (''User '' @ ev_sender e @ '' not authorized for restricted room''))))
      else Inl (AE_InvalidContent (''Unknown join rule: '' @ join_rule)))"

definition room_allows_knocking :: "auth_state \<Rightarrow> bool" where
  "room_allows_knocking s =
     (case content_str (join_rules_event s) ''join_rule'' of
        None \<Rightarrow> False
      | Some join_rule \<Rightarrow>
          if join_rule = ''knock'' then True
          else if join_rule = ''knock_restricted''
          then (case Option.bind (join_rules_event s) (\<lambda>e.
                     Option.bind (content_get (ev_content e) ''allow'') as_array) of
                  None \<Rightarrow> False
                | Some conditions \<Rightarrow>
                    list_ex (\<lambda>c. case validate_allow_condition c of Inr (Some _) \<Rightarrow> True | _ \<Rightarrow> False)
                      conditions)
          else False)"

text \<open>The level a member must have for an action, and the check against the target's level.\<close>

definition action_level :: "auth_state \<Rightarrow> string \<Rightarrow> int \<Rightarrow> int" where
  "action_level s action d = unwrap_or d (content_i64 (power_levels_event s) action)"

definition check_above_target ::
  "auth_state \<Rightarrow> string \<Rightarrow> string \<Rightarrow> string \<Rightarrow> authorization_error + unit" where
  "check_above_target s action sender target =
     (let sender_power_level = user_power_level s sender;
          level = action_level s action 50;
          target_power_level = user_power_level s target
      in bindR (ensure (\<not> sender_power_level < level)
                  (AE_InsufficientPowerLevel level sender_power_level)) (\<lambda>_.
         ensure (\<not> target_power_level \<ge> sender_power_level)
           (AE_InsufficientPowerLevel (i64_wrap (target_power_level + 1)) sender_power_level)))"

definition validate_membership_transition ::
  "auth_world \<Rightarrow> event \<Rightarrow> string \<Rightarrow> string \<Rightarrow> string \<Rightarrow> string \<Rightarrow> auth_state \<Rightarrow> authorization_error + unit" where
  "validate_membership_transition w e sender target current new s =
     (if (current = ''leave'' \<or> current = ''invite'') \<and> new = ''join'' \<and> sender = target
      then validate_join_authorization w e s
      else if new = ''leave'' \<and> sender = target then Inr ()
      else if current = ''leave'' \<and> new = ''invite''
      then ensure (\<not> user_power_level s sender < action_level s ''invite'' 0)
             (AE_InsufficientPowerLevel (action_level s ''invite'' 0) (user_power_level s sender))
      else if new = ''ban'' then check_above_target s ''ban'' sender target
      else if new = ''leave'' \<and> sender \<noteq> target then check_above_target s ''kick'' sender target
      else if current = ''leave'' \<and> new = ''knock'' \<and> sender = target
      then bindR (ensure (room_allows_knocking s) (AE_AccessDenied ''Room does not allow knocking'')) (\<lambda>_.
           ensure (unwrap_or ''leave'' (content_str (state_map s (''m.room.member'', target)) ''membership'')
                     \<noteq> ''ban'') (AE_AccessDenied ''User is banned from the room''))
      else Inl (AE_InvalidMembershipTransition current new))"

definition current_membership :: "auth_state \<Rightarrow> string \<Rightarrow> string" where
  "current_membership s user_id =
     unwrap_or ''leave'' (content_str (state_map s (''m.room.member'', user_id)) ''membership'')"

definition validate_member_event ::
  "auth_world \<Rightarrow> event \<Rightarrow> auth_state \<Rightarrow> authorization_error + unit" where
  "validate_member_event w e s =
     bindR (ok_or (ev_state_key e) (AE_InvalidContent ''Membership event must have state_key'')) (\<lambda>target_user_id.
     bindR (content_object e ''Membership event content must be object'') (\<lambda>content.
     bindR (ok_or (get_str content ''membership'')
              (AE_InvalidContent ''Membership event must have membership field'')) (\<lambda>new_membership.
     bindR (ensure (List.member [''join'', ''leave'', ''invite'', ''ban'', ''knock''] new_membership)
              (AE_InvalidContent (''Invalid membership value: '' @ new_membership))) (\<lambda>_.
     validate_membership_transition w e (ev_sender e) target_user_id
       (current_membership s target_user_id) new_membership s))))"

definition validate_create_event :: "event \<Rightarrow> authorization_error + unit" where
  "validate_create_event e =
     bindR (ensure (ev_auth_events e = None \<or> ev_auth_events e = Some [])
              (AE_InvalidContent ''Create event must have empty auth_events'')) (\<lambda>_.
     bindR (ensure (ev_state_key e = Some [])
              (AE_InvalidContent ''Create event must have empty state_key'')) (\<lambda>_.
     bindR (content_object e ''Create event content must be object'') (\<lambda>content.
     ensure (map_of content ''creator'' \<noteq> None)
       (AE_InvalidContent ''Create event must have creator field''))))"

definition check_user_entry :: "string \<times> json \<Rightarrow> authorization_error + unit" where
  "check_user_entry entry =
     bindR (ensure (starts_with (fst entry) CHR ''@'' \<and> contains (fst entry) CHR '':'')
              (AE_InvalidContent (''Invalid user ID in power levels: '' @ fst entry))) (\<lambda>_.
     ensure (is_i64 (snd entry)) (AE_InvalidContent ''Power level values must be integers''))"

definition check_event_entry :: "string \<times> json \<Rightarrow> authorization_error + unit" where
  "check_event_entry entry =
     bindR (ensure (fst entry \<noteq> [])
              (AE_InvalidContent ''Event type in power levels cannot be empty'')) (\<lambda>_.
     ensure (is_i64 (snd entry)) (AE_InvalidContent ''Power level values must be integers''))"

definition check_power_levels_field :: "string \<times> json \<Rightarrow> authorization_error + unit" where
  "check_power_levels_field field =
     (if fst field = ''users'' then
        bindR (ok_or (as_object (snd field))
                 (AE_InvalidContent ''Power levels users field must be object''))
          (for_each check_user_entry)
      else if fst field = ''events'' then
        bindR (ok_or (as_object (snd field))
                 (AE_InvalidContent ''Power levels events field must be object''))
          (for_each check_event_entry)
      else if List.member [''users_default'', ''events_default'', ''state_default'', ''invite'',
                           ''kick'', ''ban'', ''redact''] (fst field)
      then ensure (is_i64 (snd field))
             (AE_InvalidContent (''Power level '' @ fst field @ '' must be integer''))
      else Inr ())"

definition validate_power_levels_event :: "event \<Rightarrow> authorization_error + unit" where
  "validate_power_levels_event e =
     bindR (content_object e ''Power levels content must be object'')
       (for_each check_power_levels_field)"

definition validate_join_rules_event :: "event \<Rightarrow> authorization_error + unit" where
  "validate_join_rules_event e =
     bindR (content_object e ''Join rules content must be object'') (\<lambda>content.
     bindR (ok_or (get_str content ''join_rule'')
              (AE_InvalidContent ''Join rules event must have join_rule field'')) (\<lambda>join_rule.
     ensure (List.member [''public'', ''invite'', ''private'', ''knock'', ''restricted''] join_rule)
       (AE_InvalidContent (''Invalid join rule: '' @ join_rule))))"

definition validate_history_visibility_event :: "event \<Rightarrow> authorization_error + unit" where
  "validate_history_visibility_event e =
     bindR (content_object e ''History visibility content must be object'') (\<lambda>content.
     bindR (ok_or (get_str content ''history_visibility'')
              (AE_InvalidContent ''History visibility event must have history_visibility field'')) (\<lambda>hv.
     ensure (List.member [''invited'', ''joined'', ''shared'', ''world_readable''] hv)
       (AE_InvalidContent (''Invalid history visibility: '' @ hv))))"

definition validate_redaction_event :: "event \<Rightarrow> auth_state \<Rightarrow> authorization_error + unit" where
  "validate_redaction_event e s =
     bindR (ensure (content_get (ev_content e) ''redacts'' \<noteq> None)
              (AE_InvalidContent ''Redaction event must have redacts field'')) (\<lambda>_.
     let sender_power_level = user_power_level s (ev_sender e);
         redact_level = action_level s ''redact'' 50
     in ensure (\<not> sender_power_level < redact_level)
          (AE_InsufficientPowerLevel redact_level sender_power_level))"

definition check_alias :: "json \<Rightarrow> authorization_error + unit" where
  "check_alias a =
     bindR (ok_or (as_str a) (AE_InvalidContent ''Alias must be string'')) (\<lambda>alias_str.
     ensure (starts_with alias_str CHR ''#'' \<and> contains alias_str CHR '':'')
       (AE_InvalidContent (''Invalid alias format: '' @ alias_str)))"

definition validate_aliases_event :: "event \<Rightarrow> authorization_error + unit" where
  "validate_aliases_event e =
     bindR (content_object e ''Aliases content must be object'') (\<lambda>content.
     case map_of content ''aliases'' of
       None \<Rightarrow> Inr ()
     | Some aliases \<Rightarrow>
         bindR (ok_or (as_array aliases) (AE_InvalidContent ''Aliases field must be array''))
           (for_each check_alias))"

definition validate_event_type ::
  "auth_world \<Rightarrow> event \<Rightarrow> auth_state \<Rightarrow> authorization_error + unit" where
  "validate_event_type w e s =
     (if ev_event_type e = ''m.room.create'' then validate_create_event e
      else if ev_event_type e = ''m.room.member'' then validate_member_event w e s
      else if ev_event_type e = ''m.room.power_levels'' then validate_power_levels_event e
      else if ev_event_type e = ''m.room.join_rules'' then validate_join_rules_event e
      else if ev_event_type e = ''m.room.history_visibility''
      then validate_history_visibility_event e
      else if ev_event_type e = ''m.room.redaction'' then validate_redaction_event e s
      else if ev_event_type e = ''m.room.aliases'' then validate_aliases_event e
      else Inr ())"

section \<open>The engine\<close>

definition check_event_id_collision :: "auth_world \<Rightarrow> event \<Rightarrow> authorization_error + unit" where
  "check_event_id_collision w e =
     (case event_by_id w (ev_event_id e) of
        Inr (Some existing) \<Rightarrow> ensure (ev_sender existing = ev_sender e) AE_EventIdCollision
      | _ \<Rightarrow> Inr ())"

definition authorize_event ::
  "auth_world \<Rightarrow> event \<Rightarrow> event list \<Rightarrow> string \<Rightarrow> authorization_error + unit" where
  "authorize_event w e auth_events room_version =
     (let s = build_auth_state auth_events in
      bindR (check_event_id_collision w e) (\<lambda>_.
      bindR (validate_basic_constraints e) (\<lambda>_.
      bindR (validate_sender_authorization e s) (\<lambda>_.
      bindR (validate_power_level e s) (\<lambda>_.
      bindR (validate_event_type w e s) (\<lambda>_.
      bindR (select_auth_events e s room_version) (\<lambda>expected_auth_events.
      bindR (validate_auth_events_selection e expected_auth_events) (\<lambda>_.
      validate_room_version_rules e s room_version))))))))"

definition check_user_membership_status ::
  "auth_world \<Rightarrow> string \<Rightarrow> string \<Rightarrow> authorization_error + membership_state" where
  "check_user_membership_status w user_id room_id =
     bindR (ok_or (split_once CHR '':'' user_id) (AE_InvalidContent ''Invalid user ID format'')) (\<lambda>(_, user_server).
     if user_server = aw_homeserver w
     then bindR (map_err AE_DatabaseError (membership_by_room_user w room_id user_id)) (\<lambda>m.
          Inr (case m of None \<Rightarrow> Leave | Some m \<Rightarrow> m_membership m))
     else Inr (case query_user_membership w user_server room_id user_id of
                 None \<Rightarrow> Leave
               | Some membership \<Rightarrow> membership_from membership))"

fun access_allowed :: "membership_state \<Rightarrow> membership_state \<Rightarrow> bool" where
  "access_allowed Join actual = (actual = Join)"
| "access_allowed Invite actual = (actual = Join \<or> actual = Invite)"
| "access_allowed Knock actual = (actual = Join \<or> actual = Invite \<or> actual = Knock)"
| "access_allowed Leave actual = True"
| "access_allowed Ban actual = (actual = Ban)"

definition validate_room_access ::
  "auth_world \<Rightarrow> string \<Rightarrow> string \<Rightarrow> membership_state \<Rightarrow> authorization_error + bool" where
  "validate_room_access w user_id room_id required =
     bindR (check_user_membership_status w user_id room_id) (\<lambda>actual.
     Inr (access_allowed required actual))"

section \<open>Server access control\<close>

definition default_acl :: server_acl where
  "default_acl = \<lparr>acl_allow = [''*''], acl_deny = [], acl_allow_ip_literals = True\<rparr>"

definition matches_server_pattern :: "auth_world \<Rightarrow> string \<Rightarrow> string \<Rightarrow> bool" where
  "matches_server_pattern w server_name pattern =
     (case glob_matcher w pattern of
        Some is_match \<Rightarrow> is_match server_name
      | None \<Rightarrow> server_name = pattern)"

definition acl_is_ip_literal :: "string \<Rightarrow> bool" where
  "acl_is_ip_literal server_name =
     (let host = split_first CHR '':'' server_name in
      if is_ipv4 host then True
      else let ipv6_host = (if starts_with host CHR ''['' \<and> ends_with host CHR '']''
                            then butlast (tl host) else host)
           in is_ipv6 ipv6_host)"

definition validate_server_against_acl :: "auth_world \<Rightarrow> string \<Rightarrow> server_acl \<Rightarrow> bool" where
  "validate_server_against_acl w server_name acl =
     (if acl_is_ip_literal server_name \<and> \<not> acl_allow_ip_literals acl then False
      else if list_ex (matches_server_pattern w server_name) (acl_deny acl) then False
      else if acl_allow acl = [] then True
      else list_ex (matches_server_pattern w server_name) (acl_allow acl))"

text \<open>\<open>room_version < "1"\<close> compares strings.\<close>

definition engine_federation_join_allowed :: "auth_world \<Rightarrow> room \<Rightarrow> string \<Rightarrow> bool" where
  "engine_federation_join_allowed w room origin_server =
     (if r_room_version room < ''1'' then False
      else case state_by_type_and_key w (r_room_id room) ''m.room.server_acl'' [] of
             Inr (Some acl_event) \<Rightarrow>
               (case acl_from_value w (content_to_value (ev_content acl_event)) of
                  Some acl \<Rightarrow> validate_server_against_acl w origin_server acl
                | None \<Rightarrow> True)
           | Inr None \<Rightarrow> True
           | Inl _ \<Rightarrow> True)"

definition validate_federation_join_allowed :: "room \<Rightarrow> string \<Rightarrow> bool" where
  "validate_federation_join_allowed room origin_server =
     (if r_room_version room < ''1'' then False
      else if r_federate room = Some False then False
      else True)"

definition validate_federation_leave_allowed :: "room \<Rightarrow> string \<Rightarrow> bool" where
  "validate_federation_leave_allowed room origin_server = (r_room_version room \<noteq> [])"

definition validate_room_knock_allowed :: "room \<Rightarrow> string \<Rightarrow> bool" where
  "validate_room_knock_allowed room origin_server =
     (let version_num = (case r_room_version room of
                           [] \<Rightarrow> 1
                         | c # _ \<Rightarrow> unwrap_or 1 (to_digit 10 c))
      in \<not> version_num < 7)"

section \<open>Auth state lookups\<close>

text \<open>The state map holds the last auth event of each type and state key.\<close>

definition state_entries :: "event list \<Rightarrow> ((string \<times> string) \<times> event) list" where
  "state_entries es =
     List.map_filter (\<lambda>e. map_option (\<lambda>k. ((ev_event_type e, k), e)) (ev_state_key e)) es"

lemma state_map_add:
  "state_map (add_auth_event e s) =
     (case ev_state_key e of None \<Rightarrow> state_map s
      | Some k \<Rightarrow> (state_map s)((ev_event_type e, k) \<mapsto> e))"
  by (auto simp: add_auth_event_def Let_def split: option.splits)

lemma state_map_fold:
  "state_map (fold add_auth_event es s) = state_map s ++ map_of (rev (state_entries es))"
proof (induction es arbitrary: s)
  case Nil
  show ?case by (simp add: state_entries_def map_filter_simps)
next
  case (Cons e es)
  then show ?case
    by (cases "ev_state_key e")
      (auto simp: state_entries_def map_filter_simps state_map_add map_add_def fun_eq_iff
        split: option.splits)
qed

lemma build_auth_state_map: "state_map (build_auth_state es) = map_of (rev (state_entries es))"
  by (simp add: build_auth_state_def state_map_fold new_auth_state_def)

lemma state_entries_set:
  "((t, k), e) \<in> set (state_entries es) \<longleftrightarrow>
     e \<in> set es \<and> t = ev_event_type e \<and> ev_state_key e = Some k"
  by (induction es) (auto simp: state_entries_def map_filter_simps split: option.splits)

lemma build_auth_state_lookup:
  assumes "state_map (build_auth_state es) (t, k) = Some e"
  shows "e \<in> set es \<and> ev_event_type e = t \<and> ev_state_key e = Some k"
proof -
  have "((t, k), e) \<in> set (rev (state_entries es))"
    using assms by (auto simp: build_auth_state_map dest: map_of_SomeD)
  then show ?thesis by (simp add: state_entries_set)
qed

text \<open>The cached events are auth events of their type.\<close>

lemma add_auth_event_cached:
  "power_levels_event (add_auth_event e s) = Some p \<Longrightarrow>
     power_levels_event s = Some p \<or> p = e \<and> ev_event_type e = ''m.room.power_levels''"
  "create_event (add_auth_event e s) = Some p \<Longrightarrow>
     create_event s = Some p \<or> p = e \<and> ev_event_type e = ''m.room.create''"
  "join_rules_event (add_auth_event e s) = Some p \<Longrightarrow>
     join_rules_event s = Some p \<or> p = e \<and> ev_event_type e = ''m.room.join_rules''"
  by (auto simp: add_auth_event_def Let_def split: option.splits if_splits)

lemma fold_cached:
  assumes "\<And>e s. f (add_auth_event e s) = Some p \<Longrightarrow> f s = Some p \<or> p = e \<and> P e"
  shows "f (fold add_auth_event es s) = Some p \<Longrightarrow> f s = Some p \<or> p \<in> set es \<and> P p"
proof (induction es arbitrary: s)
  case (Cons e es)
  then have "f (add_auth_event e s) = Some p \<or> p \<in> set es \<and> P p" by simp
  with assms [of e s] show ?case by auto
qed simp

lemma build_auth_state_cached:
  "power_levels_event (build_auth_state es) = Some p \<Longrightarrow>
     p \<in> set es \<and> ev_event_type p = ''m.room.power_levels''"
  "create_event (build_auth_state es) = Some p \<Longrightarrow>
     p \<in> set es \<and> ev_event_type p = ''m.room.create''"
  "join_rules_event (build_auth_state es) = Some p \<Longrightarrow>
     p \<in> set es \<and> ev_event_type p = ''m.room.join_rules''"
  using fold_cached [where f = power_levels_event, OF add_auth_event_cached(1)]
    fold_cached [where f = create_event, OF add_auth_event_cached(2)]
    fold_cached [where f = join_rules_event, OF add_auth_event_cached(3)]
  by (fastforce simp: build_auth_state_def new_auth_state_def)+

section \<open>Auth events selection\<close>

lemma set_id_of: "x \<in> set (id_of e) \<longleftrightarrow> (\<exists>f. e = Some f \<and> x = ev_event_id f)"
  by (auto simp: id_of_def split: option.splits)

lemma id_of_state:
  "set (id_of (state_map (build_auth_state es) k)) \<subseteq> ev_event_id ` set es"
  "set (id_of (create_event (build_auth_state es))) \<subseteq> ev_event_id ` set es"
  "set (id_of (power_levels_event (build_auth_state es))) \<subseteq> ev_event_id ` set es"
  "set (id_of (join_rules_event (build_auth_state es))) \<subseteq> ev_event_id ` set es"
  using build_auth_state_lookup [of es "fst k" "snd k"] build_auth_state_cached [of es]
  by (auto simp: set_id_of)

lemma membership_ids_state:
  "set (third_party_invite_ids (build_auth_state es) content) \<subseteq> ev_event_id ` set es"
  "set (authorising_member_ids (build_auth_state es) content) \<subseteq> ev_event_id ` set es"
  unfolding third_party_invite_ids_def authorising_member_ids_def
  by (auto split: option.splits dest: subsetD [OF id_of_state(1)])

lemma select_membership_ids:
  assumes "select_membership_auth_events e (build_auth_state es) ids = Inr ids'"
    and "set ids \<subseteq> ev_event_id ` set es"
  shows "set ids \<subseteq> set ids' \<and> set ids' \<subseteq> ev_event_id ` set es"
proof -
  from assms(1) obtain t c m where "ids' = ids
       @ id_of (state_map (build_auth_state es) (''m.room.member'', t))
       @ (if List.member [''join'', ''invite'', ''knock''] m
          then id_of (join_rules_event (build_auth_state es)) else [])
       @ (if m = ''invite'' then third_party_invite_ids (build_auth_state es) c else [])
       @ (if m = ''join'' then authorising_member_ids (build_auth_state es) c else [])"
    unfolding select_membership_auth_events_def bindR_Inr_iff by blast
  with assms(2) show ?thesis
    using id_of_state(1) [of es "(''m.room.member'', t)"] id_of_state(4) [of es]
      membership_ids_state [of es c]
    by (auto split: if_splits)
qed

lemma select_auth_events_ids:
  assumes "select_auth_events e (build_auth_state es) v = Inr ids"
  shows "sorted_wrt (<) ids \<and> set ids \<subseteq> ev_event_id ` set es \<and>
    set (id_of (create_event (build_auth_state es)) @ id_of (power_levels_event (build_auth_state es)) @
      id_of (state_map (build_auth_state es) (''m.room.member'', ev_sender e))) \<subseteq> set ids"
proof -
  let ?s = "build_auth_state es"
  let ?base = "id_of (create_event ?s) @ id_of (power_levels_event ?s) @
    id_of (state_map ?s (''m.room.member'', ev_sender e))"
  have base: "set ?base \<subseteq> ev_event_id ` set es"
    using id_of_state [of es] by simp
  from assms obtain ids' where ids: "ids = remdups_adj (sort ids')"
    and ids': "(if ev_event_type e = ''m.room.member''
                then select_membership_auth_events e ?s ?base else Inr ?base) = Inr ids'"
    by (auto simp: select_auth_events_def Let_def should_include_create_event_def result_simps
        split: if_splits)
  have "set ?base \<subseteq> set ids' \<and> set ids' \<subseteq> ev_event_id ` set es"
    using ids' base select_membership_ids [of e es ?base ids'] by (auto split: if_splits)
  moreover have "sorted_wrt (<) ids"
    using ids by (simp add: strict_sorted_remdups_adj)
  ultimately show ?thesis using ids by simp
qed

section \<open>Members acting on members\<close>

definition ban_accepted :: "auth_state \<Rightarrow> string \<Rightarrow> string \<Rightarrow> bool" where
  "ban_accepted s sender target = (check_above_target s ''ban'' sender target = Inr ())"

definition kick_accepted :: "auth_state \<Rightarrow> string \<Rightarrow> string \<Rightarrow> bool" where
  "kick_accepted s sender target = (check_above_target s ''kick'' sender target = Inr ())"

lemma check_above_target_iff:
  "check_above_target s action sender target = Inr u \<longleftrightarrow>
     action_level s action 50 \<le> user_power_level s sender \<and>
     user_power_level s target < user_power_level s sender"
  by (auto simp: check_above_target_def Let_def result_simps)

interpretation fed_ban: guarded_power_hierarchy "user_power_level s" "ban_accepted s"
  "action_level s ''ban'' 50" for s
  by unfold_locales (auto simp: ban_accepted_def check_above_target_iff)

interpretation fed_kick: guarded_power_hierarchy "user_power_level s" "kick_accepted s"
  "action_level s ''kick'' 50" for s
  by unfold_locales (auto simp: kick_accepted_def check_above_target_iff)

text \<open>When a membership transition is accepted, case by case.\<close>

lemma transition_Inr_iff:
  "validate_membership_transition w e sender target cur new s = Inr u \<longleftrightarrow>
     (cur = ''leave'' \<or> cur = ''invite'') \<and> new = ''join'' \<and> sender = target \<and>
       validate_join_authorization w e s = Inr () \<or>
     new = ''leave'' \<and> sender = target \<or>
     cur = ''leave'' \<and> new = ''invite'' \<and>
       action_level s ''invite'' 0 \<le> user_power_level s sender \<or>
     new = ''ban'' \<and> ban_accepted s sender target \<or>
     new = ''leave'' \<and> sender \<noteq> target \<and> kick_accepted s sender target \<or>
     cur = ''leave'' \<and> new = ''knock'' \<and> sender = target \<and> room_allows_knocking s \<and>
       current_membership s target \<noteq> ''ban''"
  by (auto simp: validate_membership_transition_def ban_accepted_def kick_accepted_def
      current_membership_def ensure_def)

section \<open>Power level events\<close>

lemma validate_power_level_event_users:
  assumes "validate_power_level_event e s l = Inr ()"
    and "Option.bind (content_get (ev_content e) ''users'') as_object = Some users"
    and "(u, v) \<in> set users" and "as_i64 v = Some n"
  shows "n \<le> l \<and> \<not> (l \<le> user_power_level s u \<and> n < user_power_level s u)"
  using assms
  by (fastforce simp: validate_power_level_event_def content_object_def content_get_def
      check_granted_level_def Let_def result_simps bind_eq_Some_conv)

lemma user_power_level_of:
  "power_levels_event s' = Some e \<Longrightarrow>
     user_power_level s' u = unwrap_or 0 (Option.bind (Option.bind (content_get (ev_content e) ''users'')
       as_object) (\<lambda>users. Option.bind (map_of users u) as_i64))"
  by (simp add: user_power_level_def get_def bind_assoc)

lemma no_escalation:
  assumes ok: "validate_power_level_event e s (user_power_level s (ev_sender e)) = Inr ()"
    and new: "power_levels_event s' = Some e"
  shows "user_power_level s' u \<le> max 0 (user_power_level s (ev_sender e))"
proof (cases "Option.bind (Option.bind (content_get (ev_content e) ''users'') as_object)
    (\<lambda>users. Option.bind (map_of users u) as_i64)")
  case None
  then show ?thesis using user_power_level_of [OF new, of u] by simp
next
  case (Some n)
  then obtain users v where "Option.bind (content_get (ev_content e) ''users'') as_object = Some users"
    "(u, v) \<in> set users" "as_i64 v = Some n"
    by (auto simp: bind_eq_Some_conv dest: map_of_SomeD)
  then have "n \<le> user_power_level s (ev_sender e)"
    using validate_power_level_event_users [OF ok] by blast
  then show ?thesis using user_power_level_of [OF new, of u] Some by simp
qed

section \<open>The pipeline\<close>

lemma authorize_event_Inr_iff:
  "authorize_event w e es v = Inr u \<longleftrightarrow>
     check_event_id_collision w e = Inr () \<and> validate_basic_constraints e = Inr () \<and>
     validate_sender_authorization e (build_auth_state es) = Inr () \<and>
     validate_power_level e (build_auth_state es) = Inr () \<and>
     validate_event_type w e (build_auth_state es) = Inr () \<and>
     (\<exists>ids. select_auth_events e (build_auth_state es) v = Inr ids \<and>
        validate_auth_events_selection e ids = Inr ())"
  by (auto simp: authorize_event_def Let_def validate_room_version_rules_def result_simps)

lemma sender_authorization_joined:
  assumes "validate_sender_authorization e s = Inr ()"
    and "ev_event_type e \<noteq> ''m.room.member''" "ev_event_type e \<noteq> ''m.room.create''"
  shows "content_str (state_map s (''m.room.member'', ev_sender e)) ''membership'' = Some ''join''"
  using assms
  by (auto simp: validate_sender_authorization_def content_object_def content_str_def content_get_def
      get_str_def result_simps split: option.splits)

lemma power_level_sufficient:
  "validate_power_level e s = Inr () \<Longrightarrow>
     required_power_level s (ev_event_type e) (ev_state_key e \<noteq> None) \<le> user_power_level s (ev_sender e)"
  by (auto simp: validate_power_level_def Let_def result_simps)

lemma basic_constraints_iff:
  "validate_basic_constraints e = Inr () \<longleftrightarrow>
     starts_with (ev_event_id e) CHR ''$'' \<and> starts_with (ev_room_id e) CHR ''!'' \<and>
     starts_with (ev_sender e) CHR ''@'' \<and> CHR '':'' \<in> set (ev_sender e) \<and>
     ev_event_type e \<noteq> [] \<and> (\<forall>d. ev_depth e = Some d \<longrightarrow> 0 \<le> d)"
  by (auto simp: validate_basic_constraints_def result_simps split: option.splits)
section \<open>Access control lists\<close>

lemma acl_is_ip_literal_iff: "acl_is_ip_literal s \<longleftrightarrow> is_ipv4 (split_first CHR '':'' s)"
proof -
  let ?h = "split_first CHR '':'' s"
  have nc: "CHR '':'' \<notin> set ?h" by (rule split_first_no_sep)
  then have "CHR '':'' \<notin> set (butlast (tl ?h))"
    by (cases ?h) (auto dest: in_set_butlastD)
  then have "\<not> is_ipv6 (butlast (tl ?h))" "\<not> is_ipv6 ?h"
    using is_ipv6_colon nc by auto
  then show ?thesis by (simp add: acl_is_ip_literal_def Let_def)
qed

lemma acl_decision:
  "validate_server_against_acl w s acl \<longleftrightarrow>
     (is_ipv4 (split_first CHR '':'' s) \<longrightarrow> acl_allow_ip_literals acl) \<and>
     (\<forall>p \<in> set (acl_deny acl). \<not> matches_server_pattern w s p) \<and>
     (acl_allow acl = [] \<or> (\<exists>p \<in> set (acl_allow acl). matches_server_pattern w s p))"
  by (auto simp: validate_server_against_acl_def acl_is_ip_literal_iff list_ex_iff)

section \<open>Membership changes as a state machine\<close>

text \<open>The changes the engine accepts from somebody, in some room, with some auth events.\<close>

definition engine_step :: "membership_state \<Rightarrow> membership_state \<Rightarrow> bool" where
  "engine_step m m' \<longleftrightarrow> (\<exists>w e sender target s.
     validate_membership_transition w e sender target (show_membership m) (show_membership m') s = Inr ())"

lemma engine_step_cases:
  "engine_step m m' \<Longrightarrow>
     m' \<in> {Leave, Ban} \<or> m \<in> {Leave, Invite} \<and> m' = Join \<or> m = Leave \<and> m' \<in> {Invite, Knock}"
  by (cases m; cases m') (auto simp: engine_step_def validate_membership_transition_def)

interpretation engine: membership_machine engine_step
  by unfold_locales (auto dest: engine_step_cases)

section \<open>Claims\<close>

text \<open>
  C1. Soundness of the pipeline: an authorized event has well-formed identifiers, its identifier
  is not one of a stored event by another sender, its sender has the level its type requires, and
  unless it is a membership or create event the sender's membership in the auth state is join.
\<close>

theorem authorize_event_sound:
  assumes "authorize_event w e es v = Inr ()"
  shows "starts_with (ev_event_id e) CHR ''$'' \<and> starts_with (ev_room_id e) CHR ''!'' \<and>
     starts_with (ev_sender e) CHR ''@'' \<and> CHR '':'' \<in> set (ev_sender e) \<and>
     (\<forall>old. event_by_id w (ev_event_id e) = Inr (Some old) \<longrightarrow> ev_sender old = ev_sender e) \<and>
     required_power_level (build_auth_state es) (ev_event_type e) (ev_state_key e \<noteq> None)
       \<le> user_power_level (build_auth_state es) (ev_sender e) \<and>
     (ev_event_type e \<in> {''m.room.member'', ''m.room.create''} \<or>
      content_str (state_map (build_auth_state es) (''m.room.member'', ev_sender e)) ''membership''
        = Some ''join'')"
proof -
  from assms have c: "check_event_id_collision w e = Inr ()"
    and b: "validate_basic_constraints e = Inr ()"
    and s: "validate_sender_authorization e (build_auth_state es) = Inr ()"
    and p: "validate_power_level e (build_auth_state es) = Inr ()"
    by (auto simp: authorize_event_Inr_iff)
  have "\<forall>old. event_by_id w (ev_event_id e) = Inr (Some old) \<longrightarrow> ev_sender old = ev_sender e"
    using c by (auto simp: check_event_id_collision_def ensure_def split: if_splits)
  with b p sender_authorization_joined [OF s] power_level_sufficient [OF p] show ?thesis
    unfolding basic_constraints_iff by blast
qed

text \<open>
  C2. No escalation: once an authorized power levels event becomes the room's power levels, no
  member's level exceeds that of its sender, or 0.
\<close>

theorem power_levels_no_escalation:
  assumes "authorize_event w e es v = Inr ()" and "ev_event_type e = ''m.room.power_levels''"
    and "power_levels_event s' = Some e"
  shows "user_power_level s' u \<le> max 0 (user_power_level (build_auth_state es) (ev_sender e))"
proof -
  have "validate_power_level_event e (build_auth_state es)
      (user_power_level (build_auth_state es) (ev_sender e)) = Inr ()"
    using assms(1,2) by (auto simp: authorize_event_Inr_iff validate_power_level_def Let_def result_simps)
  then show ?thesis using assms(3) by (rule no_escalation)
qed

lemma member_event_transition:
  assumes "authorize_event w e es v = Inr ()" and "ev_event_type e = ''m.room.member''"
    and "ev_state_key e = Some target" and "content_str (Some e) ''membership'' = Some new"
  shows "validate_membership_transition w e (ev_sender e) target
     (current_membership (build_auth_state es) target) new (build_auth_state es) = Inr ()"
proof -
  have "validate_member_event w e (build_auth_state es) = Inr ()"
    using assms(1,2) by (simp add: authorize_event_Inr_iff validate_event_type_def)
  with assms(3,4) show ?thesis
    by (auto simp: validate_member_event_def result_simps content_object_def content_str_def
        content_get_def get_str_def bind_eq_Some_conv)
qed

text \<open>
  C3. Bans and kicks respect the hierarchy: an authorized membership event that bans a user, or
  makes another user leave, comes from a sender of strictly higher level than the target, at least
  the level configured for the action; so no chain of bans leads back to its start.
\<close>

theorem ban_and_kick_hierarchy:
  assumes "authorize_event w e es v = Inr ()" and "ev_event_type e = ''m.room.member''"
    and "ev_state_key e = Some target" and "content_str (Some e) ''membership'' = Some new"
    and "new = ''ban'' \<or> new = ''leave'' \<and> ev_sender e \<noteq> target"
  shows "user_power_level (build_auth_state es) target
           < user_power_level (build_auth_state es) (ev_sender e) \<and>
         action_level (build_auth_state es) (if new = ''ban'' then ''ban'' else ''kick'') 50
           \<le> user_power_level (build_auth_state es) (ev_sender e) \<and>
         \<not> (ban_accepted (build_auth_state es))\<^sup>+\<^sup>+ target target"
proof -
  have t: "new = ''ban'' \<and> ban_accepted (build_auth_state es) (ev_sender e) target \<or>
      new = ''leave'' \<and> kick_accepted (build_auth_state es) (ev_sender e) target"
    using member_event_transition [OF assms(1-4)] assms(5) by (auto simp: transition_Inr_iff)
  then show ?thesis
    using fed_ban.acts_above fed_ban.acts_required fed_kick.acts_above fed_kick.acts_required
      fed_ban.no_cycle by auto
qed

text \<open>
  C4. Which membership changes are possible: a join is the user's own and starts from leave or
  invite, an invite starts from leave and needs the invite level, a knock is the user's own from
  leave in a room that allows knocking. Nobody can be joined or knock while banned.
\<close>

theorem membership_changes:
  assumes "authorize_event w e es v = Inr ()" and "ev_event_type e = ''m.room.member''"
    and "ev_state_key e = Some target" and "content_str (Some e) ''membership'' = Some new"
  shows "new \<in> {''join'', ''leave'', ''invite'', ''ban'', ''knock''} \<and>
    (new = ''join'' \<longrightarrow> ev_sender e = target \<and>
       current_membership (build_auth_state es) target \<in> {''leave'', ''invite''}) \<and>
    (new = ''invite'' \<longrightarrow> current_membership (build_auth_state es) target = ''leave'' \<and>
       action_level (build_auth_state es) ''invite'' 0
         \<le> user_power_level (build_auth_state es) (ev_sender e)) \<and>
    (new = ''knock'' \<longrightarrow> ev_sender e = target \<and> room_allows_knocking (build_auth_state es) \<and>
       current_membership (build_auth_state es) target = ''leave'')"
  using member_event_transition [OF assms] by (auto simp: transition_Inr_iff)

text \<open>
  The expected auth events are identifiers of auth events given, listed in strictly increasing
  order, and include those of the create event, the power levels and the sender's membership.
\<close>

theorem select_auth_events_correct:
  assumes "select_auth_events e (build_auth_state es) v = Inr ids"
  shows "sorted_wrt (<) ids \<and> set ids \<subseteq> ev_event_id ` set es \<and>
    set (id_of (create_event (build_auth_state es)) @ id_of (power_levels_event (build_auth_state es)) @
      id_of (state_map (build_auth_state es) (''m.room.member'', ev_sender e))) \<subseteq> set ids"
  using assms by (rule select_auth_events_ids)

text \<open>
  A server passes an access control list exactly when no deny pattern matches it, an allow
  pattern matches it or there is none, and it is not an IPv4 literal the list forbids. The ban on
  IP literals never applies to an IPv6 literal: the host is cut at its first colon.
\<close>

theorem acl_decision_exact:
  "validate_server_against_acl w s acl \<longleftrightarrow>
     (is_ipv4 (split_first CHR '':'' s) \<longrightarrow> acl_allow_ip_literals acl) \<and>
     (\<forall>p \<in> set (acl_deny acl). \<not> matches_server_pattern w s p) \<and>
     (acl_allow acl = [] \<or> (\<exists>p \<in> set (acl_allow acl). matches_server_pattern w s p))"
  by (rule acl_decision)

text \<open>
  With no power levels event among the auth events every state event needs level 50 and every
  user has level 0, so the engine rejects every create event and every first join of a room.
\<close>

theorem no_state_event_without_power_levels:
  assumes "power_levels_event (build_auth_state es) = None" and "ev_state_key e = Some k"
  shows "authorize_event w e es v \<noteq> Inr ()"
proof
  assume "authorize_event w e es v = Inr ()"
  then have "required_power_level (build_auth_state es) (ev_event_type e) True
      \<le> user_power_level (build_auth_state es) (ev_sender e)"
    using assms(2) power_level_sufficient [of e "build_auth_state es"]
    by (simp add: authorize_event_Inr_iff)
  with assms(1) show False by (simp add: required_power_level_def user_power_level_def)
qed

text \<open>
  The join rule invite does not ask for an invitation: a user who left, or never was a member,
  passes the check of a join to an invite-only room, whatever the rest of the auth state.
\<close>

theorem invite_rule_open:
  assumes "content_str (join_rules_event s) ''join_rule'' = Some ''invite''"
  shows "validate_membership_transition w e u u ''leave'' ''join'' s = Inr ()"
  using assms by (simp add: transition_Inr_iff validate_join_authorization_def Let_def)

text \<open>
  A banned user can lift the ban: the transition from ban to leave is accepted when the user
  makes it, and in the resulting state joining a public room is accepted too.
\<close>

theorem ban_self_lifted:
  assumes "content_str (join_rules_event s) ''join_rule'' = Some ''public''"
  shows "validate_membership_transition w e u u ''ban'' ''leave'' s = Inr () \<and>
         validate_membership_transition w e u u ''leave'' ''join'' s = Inr () \<and>
         validate_membership_transition w e u u ''ban'' ''join'' s \<noteq> Inr ()"
  using assms by (auto simp: transition_Inr_iff validate_join_authorization_def Let_def)

text \<open>
  Levels above the sender's are protected only where the new event lists them: a power levels
  event with an empty user list passes the check of any sender and leaves every user at level 0,
  and the levels under \<open>events\<close> are not checked at all.
\<close>

theorem power_levels_omission:
  assumes "ev_content e = Unknown (JObject [(''users'', JObject []), (''events'', JObject levels)])"
  shows "validate_power_level_event e s l = Inr () \<and>
         (power_levels_event s' = Some e \<longrightarrow>
            user_power_level s' u = 0 \<and>
            required_power_level s' t st =
              unwrap_or (if st then 50 else 0) (Option.bind (map_of levels t) as_i64))"
  using assms
  by (auto simp: validate_power_level_event_def content_object_def check_level_field_def
      user_power_level_def required_power_level_def content_i64_def split: option.splits)

text \<open>
  Knocking is decided by the first character of the room version, so rooms of versions 10 and
  11 refuse knocks while versions 7 to 9 accept them.
\<close>

theorem knock_version_digit:
  "validate_room_knock_allowed (r\<lparr>r_room_version := v\<rparr>) origin \<longleftrightarrow>
     (\<exists>c cs. v = c # cs \<and> (c = CHR ''7'' \<or> c = CHR ''8'' \<or> c = CHR ''9''))"
proof (cases v)
  case Nil
  then show ?thesis by (simp add: validate_room_knock_allowed_def)
next
  case (Cons c cs)
  have "\<not> unwrap_or 1 (to_digit 10 c) < 7 \<longleftrightarrow> 55 \<le> byte c \<and> byte c \<le> 57"
    by (auto simp: to_digit_def Let_def is_ascii_digit_def is_ascii_lower_def is_ascii_upper_def)
  also have "\<dots> \<longleftrightarrow> byte c = 55 \<or> byte c = 56 \<or> byte c = 57" by auto
  also have "\<dots> \<longleftrightarrow> c = CHR ''7'' \<or> c = CHR ''8'' \<or> c = CHR ''9''"
    using byte_eq_iff [of c "CHR ''7''"] byte_eq_iff [of c "CHR ''8''"] byte_eq_iff [of c "CHR ''9''"]
    by (simp add: byte_def)
  finally show ?thesis using Cons by (simp add: validate_room_knock_allowed_def)
qed

section \<open>Witnesses\<close>

definition demo_world :: auth_world where
  "demo_world = \<lparr>aw_homeserver = ''x'', event_by_id = (\<lambda>i. Inr None),
     state_by_type_and_key = (\<lambda>r t k. Inr None), membership_by_room_user = (\<lambda>r u. Inr None),
     query_user_membership = (\<lambda>s r u. None), acl_from_value = (\<lambda>v. None),
     glob_matcher = (\<lambda>p. None)\<rparr>"

definition state_event :: "string \<Rightarrow> string \<Rightarrow> string \<Rightarrow> members \<Rightarrow> event" where
  "state_event event_type key event_id content =
     (new_event event_id ''@a:x'' 1 event_type ''!r:x'' (Unknown (JObject content)))
     \<lparr>ev_state_key := Some key, ev_auth_events := Some []\<rparr>"

text \<open>A room where \<open>@a:x\<close> is joined with level 100 and \<open>@b:x\<close> is joined.\<close>

definition demo_auth_events :: "event list" where
  "demo_auth_events =
     [state_event ''m.room.power_levels'' [] ''$p'' [(''users'', JObject [(''@a:x'', int_json 100)])],
      state_event ''m.room.member'' ''@a:x'' ''$ma'' [(''membership'', JString ''join'')],
      state_event ''m.room.member'' ''@b:x'' ''$mb'' [(''membership'', JString ''join'')]]"

definition demo_ban :: event where
  "demo_ban = state_event ''m.room.member'' ''@b:x'' ''$ban'' [(''membership'', JString ''ban'')]"

definition demo_levels :: event where
  "demo_levels = state_event ''m.room.power_levels'' [] ''$q''
     [(''users'', JObject [(''@a:x'', int_json 100), (''@b:x'', int_json 60)])]"

lemmas fed_auth_eval = authorize_event_Inr_iff check_event_id_collision_def basic_constraints_iff
  validate_sender_authorization_def validate_power_level_def validate_power_level_event_def
  validate_event_type_def validate_member_event_def validate_power_levels_event_def
  validate_auth_events_selection_def check_power_levels_field_def check_user_entry_def
  check_granted_level_def check_level_field_def content_object_def content_str_def content_i64_def
  content_get_def get_str_def user_power_level_def required_power_level_def action_level_def
  current_membership_def transition_Inr_iff ban_accepted_def check_above_target_iff
  select_auth_events_def select_membership_auth_events_def third_party_invite_ids_def
  authorising_member_ids_def should_include_create_event_def id_of_def Let_def ensure_def
  build_auth_state_def add_auth_event_def new_auth_state_def state_event_def new_event_def
  demo_auth_events_def demo_world_def is_i64_def in_i64_def i64_min_def i64_max_def

lemma demo_ban_authorized: "authorize_event demo_world demo_ban demo_auth_events ''9'' = Inr ()"
  by (simp add: fed_auth_eval demo_ban_def)

lemma demo_levels_authorized:
  "authorize_event demo_world demo_levels demo_auth_events ''9'' = Inr ()"
  by (simp add: fed_auth_eval demo_levels_def)

theorem authorize_event_sound_witness:
  "100 \<ge> required_power_level (build_auth_state demo_auth_events) ''m.room.member'' True"
  using authorize_event_sound [OF demo_ban_authorized]
  by (simp add: fed_auth_eval demo_ban_def)

theorem power_levels_no_escalation_witness:
  "user_power_level (new_auth_state\<lparr>power_levels_event := Some demo_levels\<rparr>) ''@b:x'' \<le> 100"
  using power_levels_no_escalation [OF demo_levels_authorized,
      of "new_auth_state\<lparr>power_levels_event := Some demo_levels\<rparr>" "''@b:x''"]
  by (simp add: fed_auth_eval demo_levels_def)

theorem ban_and_kick_hierarchy_witness:
  "user_power_level (build_auth_state demo_auth_events) ''@b:x''
     < user_power_level (build_auth_state demo_auth_events) ''@a:x''"
proof -
  have "ev_event_type demo_ban = ''m.room.member''" "ev_state_key demo_ban = Some ''@b:x''"
    "content_str (Some demo_ban) ''membership'' = Some ''ban''" "ev_sender demo_ban = ''@a:x''"
    by (simp_all add: demo_ban_def state_event_def new_event_def content_str_def)
  then show ?thesis using ban_and_kick_hierarchy [OF demo_ban_authorized, of "''@b:x''" "''ban''"] by simp
qed

text \<open>
  A join by invited \<open>@a:x\<close>, an invitation of \<open>@c:x\<close> by joined \<open>@a:x\<close>, and a knock of \<open>@a:x\<close>,
  who has left a room that allows knocking. The engine asks the level of the event type of each.
\<close>

definition demo_member_levels :: event where
  "demo_member_levels = state_event ''m.room.power_levels'' [] ''$p''
     [(''users'', JObject [(''@a:x'', int_json 50)]), (''invite'', int_json 50)]"

definition demo_invited_events :: "event list" where
  "demo_invited_events = [demo_member_levels,
     state_event ''m.room.join_rules'' [] ''$j'' [(''join_rule'', JString ''knock'')],
     state_event ''m.room.member'' ''@a:x'' ''$ma'' [(''membership'', JString ''invite'')]]"

definition demo_joined_events :: "event list" where
  "demo_joined_events = [demo_member_levels,
     state_event ''m.room.member'' ''@a:x'' ''$ma'' [(''membership'', JString ''join'')]]"

definition demo_left_events :: "event list" where
  "demo_left_events = [demo_member_levels,
     state_event ''m.room.join_rules'' [] ''$j'' [(''join_rule'', JString ''knock'')],
     state_event ''m.room.member'' ''@a:x'' ''$ma'' [(''membership'', JString ''leave'')]]"

definition demo_change :: "string \<Rightarrow> string \<Rightarrow> event" where
  "demo_change target new =
     state_event ''m.room.member'' target ''$change'' [(''membership'', JString new)]"

lemmas demo_change_eval = fed_auth_eval demo_change_def demo_member_levels_def
  demo_invited_events_def demo_joined_events_def demo_left_events_def
  room_allows_knocking_def validate_join_authorization_def

lemma demo_join_authorized:
  "authorize_event demo_world (demo_change ''@a:x'' ''join'') demo_invited_events ''9'' = Inr ()"
  by (simp add: demo_change_eval)

lemma demo_invite_authorized:
  "authorize_event demo_world (demo_change ''@c:x'' ''invite'') demo_joined_events ''9'' = Inr ()"
  by (simp add: demo_change_eval)

lemma demo_knock_authorized:
  "authorize_event demo_world (demo_change ''@a:x'' ''knock'') demo_left_events ''9'' = Inr ()"
  by (simp add: demo_change_eval)

lemma demo_change_fields:
  "ev_event_type (demo_change target new) = ''m.room.member''"
  "ev_state_key (demo_change target new) = Some target"
  "ev_sender (demo_change target new) = ''@a:x''"
  "content_str (Some (demo_change target new)) ''membership'' = Some new"
  by (simp_all add: demo_change_def state_event_def new_event_def content_str_def)

theorem membership_changes_witness:
  "authorize_event demo_world (demo_change ''@a:x'' ''join'') demo_invited_events ''9'' = Inr () \<and>
   current_membership (build_auth_state demo_invited_events) ''@a:x'' \<in> {''leave'', ''invite''} \<and>
   authorize_event demo_world (demo_change ''@c:x'' ''invite'') demo_joined_events ''9'' = Inr () \<and>
   action_level (build_auth_state demo_joined_events) ''invite'' 0
     \<le> user_power_level (build_auth_state demo_joined_events) ''@a:x'' \<and>
   authorize_event demo_world (demo_change ''@a:x'' ''knock'') demo_left_events ''9'' = Inr () \<and>
   room_allows_knocking (build_auth_state demo_left_events)"
  using demo_join_authorized demo_invite_authorized demo_knock_authorized
    membership_changes [OF demo_join_authorized demo_change_fields(1,2,4)]
    membership_changes [OF demo_invite_authorized demo_change_fields(1,2,4)]
    membership_changes [OF demo_knock_authorized demo_change_fields(1,2,4)]
  by (simp add: demo_change_fields)

theorem select_auth_events_correct_witness:
  "\<exists>ids. select_auth_events demo_ban (build_auth_state demo_auth_events) ''9'' = Inr ids \<and>
     set ids \<subseteq> {''$p'', ''$ma'', ''$mb''}"
proof -
  obtain ids where ids: "select_auth_events demo_ban (build_auth_state demo_auth_events) ''9'' = Inr ids"
    using demo_ban_authorized by (auto simp: authorize_event_Inr_iff)
  then have "set ids \<subseteq> ev_event_id ` set demo_auth_events"
    using select_auth_events_correct by blast
  with ids show ?thesis by (auto simp: demo_auth_events_def state_event_def new_event_def)
qed

text \<open>A list that forbids IP literals, at a server named by an IPv6 address.\<close>

theorem acl_decision_exact_witness:
  "validate_server_against_acl demo_world ''[2001:db8::1]:8448''
     \<lparr>acl_allow = [], acl_deny = [], acl_allow_ip_literals = False\<rparr>"
proof -
  have "split_first CHR '':'' ''[2001:db8::1]:8448'' = ''[2001''" by (simp add: split_first_def)
  moreover have "\<not> is_ipv4 ''[2001''" using is_ipv4_no_bracket [of "''[2001''"] by auto
  ultimately show ?thesis
    using acl_decision_exact [of demo_world "''[2001:db8::1]:8448''"
        "\<lparr>acl_allow = [], acl_deny = [], acl_allow_ip_literals = False\<rparr>"] by simp
qed

theorem no_state_event_without_power_levels_witness:
  "authorize_event demo_world (state_event ''m.room.create'' [] ''$c'' [(''creator'', JString ''@a:x'')])
     [] ''9'' \<noteq> Inr ()"
  using no_state_event_without_power_levels [of "[]" _ "[]" demo_world "''9''"]
  by (simp add: build_auth_state_def new_auth_state_def state_event_def new_event_def)

definition demo_join_rules :: "string \<Rightarrow> auth_state" where
  "demo_join_rules rule = new_auth_state\<lparr>join_rules_event :=
     Some (state_event ''m.room.join_rules'' [] ''$j'' [(''join_rule'', JString rule)])\<rparr>"

lemma demo_join_rule: "content_str (join_rules_event (demo_join_rules rule)) ''join_rule'' = Some rule"
  by (simp add: demo_join_rules_def content_str_def state_event_def new_event_def)

theorem invite_rule_open_witness:
  "validate_membership_transition demo_world demo_ban ''@c:x'' ''@c:x'' ''leave'' ''join''
     (demo_join_rules ''invite'') = Inr ()"
  by (rule invite_rule_open [OF demo_join_rule])

theorem ban_self_lifted_witness:
  "validate_membership_transition demo_world demo_ban ''@c:x'' ''@c:x'' ''ban'' ''leave''
     (demo_join_rules ''public'') = Inr ()"
  using ban_self_lifted [OF demo_join_rule] by blast

theorem power_levels_omission_witness:
  "user_power_level (new_auth_state\<lparr>power_levels_event := Some
     (state_event ''m.room.power_levels'' [] ''$z'' [(''users'', JObject []), (''events'', JObject [])])\<rparr>)
     ''@a:x'' = 0"
  using power_levels_omission [of "state_event ''m.room.power_levels'' [] ''$z''
      [(''users'', JObject []), (''events'', JObject [])]" "[]"]
  by (simp add: state_event_def new_event_def)

end
