(* ===== verification/Event_Dag.thy ===== *)
theory Event_Dag
  imports Fed_Auth
begin

text \<open>
  The event graph checks of \<open>server/src/federation/pdu_validator.rs\<close> (step 4b of the validation of a
  PDU): existence of the previous events, depth, cycles, room. The event table is read through a
  function; the depth-first search is bounded by its depth argument, so it needs no fuel.
\<close>

section \<open>Errors of the validator\<close>

datatype pdu_validation_error =
    PV_InvalidFormat string
  | PV_SignatureError string
  | PV_HashMismatch string string
  | PV_AuthorizationError string
  | PV_MatrixAuthorizationError authorization_error
  | PV_StateError string
  | PV_DatabaseError repository_error
  | PV_JsonError string
  | PV_Base64Error string
  | PV_CryptoError string
  | PV_DnsResolutionError string

fun pdu_error_text :: "pdu_validation_error \<Rightarrow> string" where
  "pdu_error_text (PV_InvalidFormat m) = ''Invalid PDU format: '' @ m"
| "pdu_error_text (PV_SignatureError m) = ''Signature verification failed: '' @ m"
| "pdu_error_text (PV_HashMismatch expected actual) =
     ''Hash verification failed: expected '' @ expected @ '', got '' @ actual"
| "pdu_error_text (PV_AuthorizationError m) = ''Authorization failed: '' @ m"
| "pdu_error_text (PV_MatrixAuthorizationError e) =
     ''Matrix authorization error: '' @ authorization_error_text e"
| "pdu_error_text (PV_StateError m) = ''State validation failed: '' @ m"
| "pdu_error_text (PV_DatabaseError e) = ''Database error: '' @ repository_error_text e"
| "pdu_error_text (PV_JsonError m) = ''JSON parsing error: '' @ m"
| "pdu_error_text (PV_Base64Error m) = ''Base64 decode error: '' @ m"
| "pdu_error_text (PV_CryptoError m) = ''Crypto error: '' @ m"
| "pdu_error_text (PV_DnsResolutionError m) = ''DNS resolution failed: '' @ m"

type_synonym event_reader = "string \<Rightarrow> repository_error + event option"

section \<open>Depth-first search\<close>

datatype visit_state = Unvisited | Visiting | Visited

text \<open>The visit states and the recursion stack.\<close>

type_synonym dfs_state = "(string \<rightharpoonup> visit_state) \<times> string set"

text \<open>
  The identifiers a stored event names as its predecessors; an event that is absent or cannot be
  read is a leaf.
\<close>

definition prev_ids :: "event_reader \<Rightarrow> string \<Rightarrow> string list" where
  "prev_ids store i =
     (case store i of
        Inr (Some e) \<Rightarrow> unwrap_or [] (ev_prev_events e)
      | _ \<Rightarrow> [])"

function (sequential) dfs_cycle_detection ::
  "event_reader \<Rightarrow> string \<Rightarrow> dfs_state \<Rightarrow> nat \<Rightarrow> nat \<Rightarrow> bool \<times> dfs_state"
and dfs_prev_events ::
  "event_reader \<Rightarrow> string list \<Rightarrow> dfs_state \<Rightarrow> nat \<Rightarrow> nat \<Rightarrow> bool \<times> dfs_state"
where
  "dfs_cycle_detection store event_id (visit_states, stack) current_depth max_depth =
     (if current_depth > max_depth then (False, (visit_states, stack))
      else if event_id \<in> stack then (True, (visit_states, stack))
      else if visit_states event_id = Some Visited then (False, (visit_states, stack))
      else if visit_states event_id = Some Visiting then (True, (visit_states, stack))
      else (case dfs_prev_events store (prev_ids store event_id)
                   (visit_states(event_id \<mapsto> Visiting), insert event_id stack)
                   (current_depth + 1) max_depth of
              (True, s) \<Rightarrow> (True, s)
            | (False, (visit_states', stack')) \<Rightarrow>
                (False, (visit_states'(event_id \<mapsto> Visited), stack' - {event_id}))))"
| "dfs_prev_events store [] s current_depth max_depth = (False, s)"
| "dfs_prev_events store (i # ids) s current_depth max_depth =
     (case dfs_cycle_detection store i s current_depth max_depth of
        (True, s') \<Rightarrow> (True, s')
      | (False, s') \<Rightarrow> dfs_prev_events store ids s' current_depth max_depth)"
  by pat_completeness auto
termination
  by (relation "measures
      [case_sum (\<lambda>(_, _, _, d, m). Suc m - d) (\<lambda>(_, _, _, d, m). Suc m - d),
       case_sum (\<lambda>_. 0) (\<lambda>(_, ids, _, _, _). length ids)]") auto

declare dfs_cycle_detection.simps [simp del]

definition search_depth :: nat where "search_depth = 50"

text \<open>The loop over the previous events: each starts a search with what the earlier ones left.\<close>

fun check_cycles_from ::
  "event_reader \<Rightarrow> event list \<Rightarrow> dfs_state \<Rightarrow> pdu_validation_error + dfs_state" where
  "check_cycles_from store [] s = Inr s"
| "check_cycles_from store (p # ps) s =
     (case dfs_cycle_detection store (ev_event_id p) s 0 search_depth of
        (True, s') \<Rightarrow> Inl (PV_StateError
          (''Cycle detected in event DAG from previous event '' @ ev_event_id p))
      | (False, s') \<Rightarrow> check_cycles_from store ps s')"

definition detect_dag_cycles ::
  "event_reader \<Rightarrow> event \<Rightarrow> event list \<Rightarrow> pdu_validation_error + unit" where
  "detect_dag_cycles store e prev_events =
     (let visit_states = fold (\<lambda>p m. m(ev_event_id p \<mapsto> Unvisited)) prev_events
                           [ev_event_id e \<mapsto> Unvisited]
      in bindR (check_cycles_from store prev_events (visit_states, {})) (\<lambda>s.
         ensure (\<not> fst (dfs_cycle_detection store (ev_event_id e) s 0 search_depth))
           (PV_StateError (''Cycle detected in event DAG starting from event '' @ ev_event_id e))))"

section \<open>The other checks on previous events\<close>

definition depth_of :: "event \<Rightarrow> int" where
  "depth_of e = unwrap_or 0 (ev_depth e)"

fun max_depth_of :: "event list \<Rightarrow> int option" where
  "max_depth_of [] = None"
| "max_depth_of (e # es) =
     Some (case max_depth_of es of None \<Rightarrow> depth_of e | Some d \<Rightarrow> max (depth_of e) d)"

definition validate_depth_consistency :: "event \<Rightarrow> event list \<Rightarrow> pdu_validation_error + unit" where
  "validate_depth_consistency e prev_events =
     (let event_depth = depth_of e in
      if prev_events = []
      then ensure (event_depth = 0) (PV_StateError
             (''Genesis event must have depth 0, got depth '' @ show_int event_depth))
      else let max_prev_depth = unwrap_or 0 (max_depth_of prev_events);
               expected_depth = i64_wrap (max_prev_depth + 1)
           in ensure (event_depth = expected_depth) (PV_StateError
                (''Invalid event depth: expected '' @ show_int expected_depth @ '', got '' @
                 show_int event_depth @ '' (max prev depth: '' @ show_int max_prev_depth @ '')'')))"

definition validate_prev_events_room_consistency ::
  "event \<Rightarrow> event list \<Rightarrow> pdu_validation_error + unit" where
  "validate_prev_events_room_consistency e prev_events =
     for_each (\<lambda>p. ensure (ev_room_id p = ev_room_id e) (PV_StateError
       (''Prev event '' @ ev_event_id p @ '' is in different room '' @ ev_room_id p @
        '' than current event room '' @ ev_room_id e))) prev_events"

text \<open>Clock skew is only logged, so the check of timestamps accepts every event.\<close>

definition validate_temporal_ordering :: "event \<Rightarrow> event list \<Rightarrow> pdu_validation_error + unit" where
  "validate_temporal_ordering e prev_events = Inr ()"

definition is_outlier :: "event \<Rightarrow> bool" where
  "is_outlier e = unwrap_or False (ev_outlier e)"

text \<open>The loop that loads the previous events.\<close>

fun load_prev_events ::
  "event_reader \<Rightarrow> bool \<Rightarrow> string list \<Rightarrow> pdu_validation_error + event list" where
  "load_prev_events store outlier [] = Inr []"
| "load_prev_events store outlier (i # ids) =
     (case store i of
        Inl err \<Rightarrow> Inl (PV_DatabaseError err)
      | Inr (Some p) \<Rightarrow> bindR (load_prev_events store outlier ids) (\<lambda>ps. Inr (p # ps))
      | Inr None \<Rightarrow>
          if outlier then load_prev_events store outlier ids
          else Inl (PV_StateError (''Prev event '' @ i @ '' not found for non-outlier event'')))"

definition validate_prev_events_dag :: "event_reader \<Rightarrow> event \<Rightarrow> pdu_validation_error + unit" where
  "validate_prev_events_dag store e =
     (let prev_events = unwrap_or [] (ev_prev_events e) in
      if prev_events = []
      then ensure (depth_of e = 0 \<or> is_outlier e)
             (PV_StateError ''Non-genesis events must have prev_events'')
      else
        bindR (ensure (\<not> length prev_events > 20) (PV_StateError
          (''Too many prev_events: '' @ show_nat (length prev_events) @ '' (maximum: 20)''))) (\<lambda>_.
        bindR (load_prev_events store (is_outlier e) prev_events) (\<lambda>prev_event_data.
        bindR (validate_depth_consistency e prev_event_data) (\<lambda>_.
        bindR (detect_dag_cycles store e prev_event_data) (\<lambda>_.
        bindR (validate_prev_events_room_consistency e prev_event_data) (\<lambda>_.
        validate_temporal_ordering e prev_event_data))))))"

section \<open>What the search finds\<close>

definition edge :: "event_reader \<Rightarrow> string \<Rightarrow> string \<Rightarrow> bool" where
  "edge store u v \<longleftrightarrow> v \<in> set (prev_ids store u)"

lemma edge_iff: "v \<in> set (prev_ids store u) \<longleftrightarrow> edge store u v"
  by (simp add: edge_def)

text \<open>The two records of the search agree, and what is finished is closed and free of cycles.\<close>

definition tracks :: "dfs_state \<Rightarrow> bool" where
  "tracks s \<longleftrightarrow> (\<forall>x. fst s x = Some Visiting \<longleftrightarrow> x \<in> snd s)"

definition settled :: "event_reader \<Rightarrow> dfs_state \<Rightarrow> bool" where
  "settled store s \<longleftrightarrow>
     (\<forall>x. fst s x = Some Visited \<longrightarrow>
        \<not> (edge store)\<^sup>+\<^sup>+ x x \<and> (\<forall>y. edge store x y \<longrightarrow> fst s y = Some Visited))"

definition extends :: "dfs_state \<Rightarrow> dfs_state \<Rightarrow> bool" where
  "extends s s' \<longleftrightarrow> (\<forall>x. fst s x = Some Visited \<longrightarrow> fst s' x = Some Visited)"

lemma extends_refl [simp]: "extends s s"
  by (simp add: extends_def)

lemma extends_trans: "extends s s' \<Longrightarrow> extends s' s'' \<Longrightarrow> extends s s''"
  by (simp add: extends_def)

lemma settled_reach:
  assumes "settled store s" "(edge store)\<^sup>*\<^sup>* x y" "fst s x = Some Visited"
  shows "fst s y = Some Visited"
  using assms(2,3)
proof induction
  case (step y z)
  then show ?case using assms(1) by (simp add: settled_def)
qed

lemma dfs_cases:
  assumes "dfs_cycle_detection store i (vs, st) d m = (b, s')"
  obtains (limit) "m < d" "\<not> b" "s' = (vs, st)"
  | (hit) "i \<in> st \<or> vs i = Some Visiting" "b"
  | (finished) "vs i = Some Visited" "\<not> b" "s' = (vs, st)"
  | (search) vs2 st2 where "d \<le> m" "i \<notin> st" "vs i \<noteq> Some Visited" "vs i \<noteq> Some Visiting"
      "dfs_prev_events store (prev_ids store i) (vs(i \<mapsto> Visiting), insert i st) (d + 1) m = (b, (vs2, st2))"
      "s' = (if b then (vs2, st2) else (vs2(i \<mapsto> Visited), st2 - {i}))"
  using assms
  by (subst (asm) dfs_cycle_detection.simps) (auto split: if_splits prod.splits bool.splits)

lemma dfs_prev_Cons_iff:
  "dfs_prev_events store (i # ids) s d m = (b, s') \<longleftrightarrow>
     b \<and> dfs_cycle_detection store i s d m = (True, s') \<or>
     (\<exists>t. dfs_cycle_detection store i s d m = (False, t) \<and> dfs_prev_events store ids t d m = (b, s'))"
  by (auto split: prod.splits bool.splits)

lemma tracks_enter: "tracks (vs, st) \<Longrightarrow> tracks (vs(i \<mapsto> Visiting), insert i st)"
  by (auto simp: tracks_def)

lemma dfs_keeps_stack:
  "tracks s \<Longrightarrow> dfs_cycle_detection store i s d m = (False, s') \<Longrightarrow> tracks s' \<and> snd s' = snd s"
  "tracks s \<Longrightarrow> dfs_prev_events store ids s d m = (False, s') \<Longrightarrow> tracks s' \<and> snd s' = snd s"
proof (induction store i s d m and store ids s d m arbitrary: s' and s'
    rule: dfs_cycle_detection_dfs_prev_events.induct)
  case (1 store i vs st d m)
  from "1.prems"(2) show ?case
  proof (cases rule: dfs_cases)
    case (search vs2 st2)
    have "tracks (vs2, st2) \<and> snd (vs2, st2) = snd (vs(i \<mapsto> Visiting), insert i st)"
      by (rule "1.IH") (use search tracks_enter [OF "1.prems"(1)] in auto)
    with search show ?thesis by (auto simp: tracks_def)
  qed (use "1.prems"(1) in auto)
next
  case (3 store i ids s d m)
  from "3.prems"(2) obtain t where
    t: "dfs_cycle_detection store i s d m = (False, t)" "dfs_prev_events store ids t d m = (False, s')"
    by (auto simp: dfs_prev_Cons_iff simp del: dfs_prev_events.simps)
  have "tracks t \<and> snd t = snd s" by (rule "3.IH"(1)) fact+
  moreover have "tracks s' \<and> snd s' = snd t"
    by (rule "3.IH"(2) [OF t(1) [symmetric]]) (use t calculation in auto)
  ultimately show ?case by simp
qed simp

lemma dfs_finds_cycle:
  "tracks s \<Longrightarrow> \<forall>u \<in> snd s. (edge store)\<^sup>+\<^sup>+ u i \<Longrightarrow> dfs_cycle_detection store i s d m = (True, s') \<Longrightarrow>
     \<exists>c. (edge store)\<^sup>*\<^sup>* i c \<and> (edge store)\<^sup>+\<^sup>+ c c"
  "tracks s \<Longrightarrow> \<forall>u \<in> snd s. \<forall>i \<in> set ids. (edge store)\<^sup>+\<^sup>+ u i \<Longrightarrow>
   dfs_prev_events store ids s d m = (True, s') \<Longrightarrow>
     \<exists>i \<in> set ids. \<exists>c. (edge store)\<^sup>*\<^sup>* i c \<and> (edge store)\<^sup>+\<^sup>+ c c"
proof (induction store i s d m and store ids s d m arbitrary: s' and s'
    rule: dfs_cycle_detection_dfs_prev_events.induct)
  case (1 store i vs st d m)
  from "1.prems"(3) show ?case
  proof (cases rule: dfs_cases)
    case hit
    then show ?thesis using "1.prems"(1,2) by (auto simp: tracks_def)
  next
    case (search vs2 st2)
    have "\<exists>j \<in> set (prev_ids store i). \<exists>c. (edge store)\<^sup>*\<^sup>* j c \<and> (edge store)\<^sup>+\<^sup>+ c c"
    proof (rule "1.IH")
      show "\<forall>u \<in> snd (vs(i \<mapsto> Visiting), insert i st). \<forall>j \<in> set (prev_ids store i). (edge store)\<^sup>+\<^sup>+ u j"
        using "1.prems"(2) by (auto simp: edge_iff intro: tranclp.intros)
    qed (use search tracks_enter [OF "1.prems"(1)] in auto)
    then obtain j c where "edge store i j" "(edge store)\<^sup>*\<^sup>* j c" "(edge store)\<^sup>+\<^sup>+ c c"
      by (auto simp: edge_iff)
    then show ?thesis by (meson converse_rtranclp_into_rtranclp)
  qed auto
next
  case (3 store i ids s d m)
  from "3.prems"(3) consider "dfs_cycle_detection store i s d m = (True, s')"
    | t where "dfs_cycle_detection store i s d m = (False, t)" "dfs_prev_events store ids t d m = (True, s')"
    by (auto simp: dfs_prev_Cons_iff simp del: dfs_prev_events.simps)
  then show ?case
  proof cases
    case 1
    have "\<exists>c. (edge store)\<^sup>*\<^sup>* i c \<and> (edge store)\<^sup>+\<^sup>+ c c"
      by (rule "3.IH"(1)) (use 1 "3.prems" in auto)
    then show ?thesis by simp
  next
    case 2
    have "tracks t \<and> snd t = snd s" using dfs_keeps_stack(1) [OF "3.prems"(1) 2(1)] .
    then have "\<exists>i \<in> set ids. \<exists>c. (edge store)\<^sup>*\<^sup>* i c \<and> (edge store)\<^sup>+\<^sup>+ c c"
      by (intro "3.IH"(2) [OF 2(1) [symmetric]]) (use 2 "3.prems"(2) in auto)
    then show ?thesis by simp
  qed
qed simp

section \<open>What the search excludes\<close>

text \<open>
  The search stays within its depth when the inner nodes it can meet, those of \<open>R\<close> with
  predecessors, are no more than its depth limit.
\<close>

definition fits :: "event_reader \<Rightarrow> string set \<Rightarrow> nat \<Rightarrow> bool" where
  "fits store R m \<longleftrightarrow> (\<forall>x \<in> R. \<forall>y. edge store x y \<longrightarrow> y \<in> R) \<and>
     finite {x \<in> R. prev_ids store x \<noteq> []} \<and> card {x \<in> R. prev_ids store x \<noteq> []} \<le> m"

definition on_path :: "event_reader \<Rightarrow> string set \<Rightarrow> nat \<Rightarrow> dfs_state \<Rightarrow> bool" where
  "on_path store R d s \<longleftrightarrow> snd s \<subseteq> {x \<in> R. prev_ids store x \<noteq> []} \<and> card (snd s) = d"

lemma on_path_depth: "fits store R m \<Longrightarrow> on_path store R d s \<Longrightarrow> d \<le> m"
  unfolding fits_def on_path_def by (metis (no_types, lifting) card_mono le_trans)

lemma on_path_cong: "snd s = snd s' \<Longrightarrow> on_path store R d s = on_path store R d s'"
  by (simp add: on_path_def)

lemma on_path_enter:
  assumes "fits store R m" "on_path store R d (vs, st)" "i \<in> R" "i \<notin> st" "prev_ids store i \<noteq> []"
  shows "on_path store R (d + 1) (vs', insert i st)"
proof -
  have "finite st" using assms(1,2) unfolding fits_def on_path_def by (auto intro: finite_subset)
  then show ?thesis using assms by (auto simp: on_path_def)
qed

lemma settled_enter:
  assumes "settled store (vs, st)" "vs i \<noteq> Some Visited"
  shows "settled store (vs(i \<mapsto> Visiting), insert i st)"
  using assms by (auto simp: settled_def)

lemma settled_leave:
  assumes "settled store (vs, st)" "vs i = Some Visiting"
    and "\<forall>j \<in> set (prev_ids store i). vs j = Some Visited"
  shows "settled store (vs(i \<mapsto> Visited), st')"
proof -
  have "\<not> (edge store)\<^sup>+\<^sup>+ i i"
  proof
    assume "(edge store)\<^sup>+\<^sup>+ i i"
    then obtain j where "edge store i j" "(edge store)\<^sup>*\<^sup>* j i" by (meson tranclpD)
    then have "vs i = Some Visited"
      using settled_reach [OF assms(1)] assms(3) by (auto simp: edge_def)
    with assms(2) show False by simp
  qed
  then show ?thesis using assms by (auto simp: settled_def edge_def)
qed

lemma dfs_settles:
  "fits store R m \<Longrightarrow> tracks s \<Longrightarrow> settled store s \<Longrightarrow> on_path store R d s \<Longrightarrow> i \<in> R \<Longrightarrow>
   dfs_cycle_detection store i s d m = (False, s') \<Longrightarrow>
     settled store s' \<and> extends s s' \<and> fst s' i = Some Visited"
  "fits store R m \<Longrightarrow> tracks s \<Longrightarrow> settled store s \<Longrightarrow> ids = [] \<or> on_path store R d s \<Longrightarrow> set ids \<subseteq> R \<Longrightarrow>
   dfs_prev_events store ids s d m = (False, s') \<Longrightarrow>
     settled store s' \<and> extends s s' \<and> (\<forall>i \<in> set ids. fst s' i = Some Visited)"
proof (induction store i s d m and store ids s d m arbitrary: s' and s'
    rule: dfs_cycle_detection_dfs_prev_events.induct)
  case (1 store i vs st d m)
  from "1.prems"(6) show ?case
  proof (cases rule: dfs_cases)
    case limit
    then show ?thesis using on_path_depth [OF "1.prems"(1,4)] by simp
  next
    case finished
    then show ?thesis using "1.prems" by simp
  next
    case (search vs2 st2)
    let ?s1 = "(vs(i \<mapsto> Visiting), insert i st)"
    have search': "dfs_prev_events store (prev_ids store i) ?s1 (d + 1) m = (False, (vs2, st2))"
      using search by simp
    have s1: "tracks ?s1" "settled store ?s1" "extends (vs, st) ?s1"
      using "1.prems" search tracks_enter settled_enter by (auto simp: extends_def)
    have "settled store (vs2, st2) \<and> extends ?s1 (vs2, st2) \<and>
        (\<forall>j \<in> set (prev_ids store i). fst (vs2, st2) j = Some Visited)"
    proof (rule "1.IH")
      show "prev_ids store i = [] \<or> on_path store R (d + 1) ?s1"
        using on_path_enter [OF "1.prems"(1,4,5) search(2)] by blast
      show "set (prev_ids store i) \<subseteq> R"
        using "1.prems"(1,5) by (auto simp: fits_def edge_iff)
    qed (use search search' s1 "1.prems"(1) in auto)
    moreover have "vs2 i = Some Visiting"
      using dfs_keeps_stack(2) [OF s1(1) search'] by (simp add: tracks_def)
    ultimately have "settled store (vs2(i \<mapsto> Visited), st2 - {i})" "extends ?s1 (vs2(i \<mapsto> Visited), st2 - {i})"
      using settled_leave [of store vs2 st2 i] by (auto simp: extends_def)
    with s1(3) search show ?thesis by (auto dest: extends_trans)
  qed simp
next
  case (2 store s d m)
  then show ?case by simp
next
  case (3 store i ids s d m)
  from "3.prems"(6) obtain t where
    t: "dfs_cycle_detection store i s d m = (False, t)" "dfs_prev_events store ids t d m = (False, s')"
    by (auto simp: dfs_prev_Cons_iff simp del: dfs_prev_events.simps)
  have i: "settled store t \<and> extends s t \<and> fst t i = Some Visited"
    by (rule "3.IH"(1)) (use "3.prems" t in auto)
  have k: "tracks t \<and> snd t = snd s" by (rule dfs_keeps_stack(1) [OF "3.prems"(2) t(1)])
  have "settled store s' \<and> extends t s' \<and> (\<forall>i \<in> set ids. fst s' i = Some Visited)"
    by (rule "3.IH"(2) [OF t(1) [symmetric]]) (use "3.prems" t i k on_path_cong [of t s] in auto)
  with i show ?case by (auto simp: extends_def)
qed

section \<open>The check of an event\<close>

lemma check_cycles_from_eq:
  "check_cycles_from store ps s = Inr s' \<longleftrightarrow>
     dfs_prev_events store (map ev_event_id ps) s 0 search_depth = (False, s')"
  by (induction ps arbitrary: s) (auto split: prod.splits bool.splits)

lemma dfs_prev_snoc:
  "dfs_prev_events store (ids @ [i]) s d m = (False, s') \<longleftrightarrow>
     (\<exists>t. dfs_prev_events store ids s d m = (False, t) \<and> dfs_cycle_detection store i t d m = (False, s'))"
  by (induction ids arbitrary: s) (auto split: prod.splits bool.splits)

definition initial_visits :: "event \<Rightarrow> event list \<Rightarrow> string \<rightharpoonup> visit_state" where
  "initial_visits e ps = fold (\<lambda>p m. m(ev_event_id p \<mapsto> Unvisited)) ps [ev_event_id e \<mapsto> Unvisited]"

lemma initial_visits_unvisited: "initial_visits e ps x \<noteq> Some Visited \<and> initial_visits e ps x \<noteq> Some Visiting"
proof -
  have "m x \<noteq> Some Visited \<and> m x \<noteq> Some Visiting \<Longrightarrow>
      fold (\<lambda>p m. m(ev_event_id p \<mapsto> Unvisited)) ps m x \<noteq> Some Visited \<and>
      fold (\<lambda>p m. m(ev_event_id p \<mapsto> Unvisited)) ps m x \<noteq> Some Visiting" for m
    by (induction ps arbitrary: m) auto
  then show ?thesis by (simp add: initial_visits_def)
qed

lemma initial_state: "tracks (initial_visits e ps, {})" "settled store (initial_visits e ps, {})"
  using initial_visits_unvisited by (auto simp: tracks_def settled_def)

text \<open>The whole check is one search over the previous events and the event itself.\<close>

definition search_starts :: "event \<Rightarrow> event list \<Rightarrow> string list" where
  "search_starts e ps = map ev_event_id ps @ [ev_event_id e]"

lemma detect_dag_cycles_eq:
  "detect_dag_cycles store e ps = Inr () \<longleftrightarrow>
     (\<exists>s'. dfs_prev_events store (search_starts e ps) (initial_visits e ps, {}) 0 search_depth = (False, s'))"
proof -
  have "\<not> fst r \<longleftrightarrow> (\<exists>s'. r = (False, s'))" for r :: "bool \<times> dfs_state" by (cases r) auto
  then show ?thesis
    by (auto simp: detect_dag_cycles_def search_starts_def Let_def result_simps dfs_prev_snoc
        check_cycles_from_eq initial_visits_def)
qed

lemma detected_cycle:
  assumes "detect_dag_cycles store e ps \<noteq> Inr ()"
  shows "\<exists>i \<in> set (search_starts e ps). \<exists>c. (edge store)\<^sup>*\<^sup>* i c \<and> (edge store)\<^sup>+\<^sup>+ c c"
proof -
  obtain b s' where r: "dfs_prev_events store (search_starts e ps) (initial_visits e ps, {}) 0 search_depth = (b, s')"
    by (cases "dfs_prev_events store (search_starts e ps) (initial_visits e ps, {}) 0 search_depth")
  then have "b" using assms by (cases b) (auto simp: detect_dag_cycles_eq)
  then show ?thesis using dfs_finds_cycle(2) [OF initial_state(1) _] r by simp
qed

definition reachable_from :: "event_reader \<Rightarrow> string list \<Rightarrow> string set" where
  "reachable_from store ids = {v. \<exists>i \<in> set ids. (edge store)\<^sup>*\<^sup>* i v}"

lemma undetected_acyclic:
  assumes "detect_dag_cycles store e ps = Inr ()"
    and "fits store (reachable_from store (search_starts e ps)) search_depth"
    and "v \<in> reachable_from store (search_starts e ps)"
  shows "\<not> (edge store)\<^sup>+\<^sup>+ v v"
proof -
  let ?R = "reachable_from store (search_starts e ps)"
  obtain s' where r: "dfs_prev_events store (search_starts e ps) (initial_visits e ps, {}) 0 search_depth = (False, s')"
    using assms(1) by (auto simp: detect_dag_cycles_eq)
  have s': "settled store s' \<and> extends (initial_visits e ps, {}) s' \<and>
      (\<forall>i \<in> set (search_starts e ps). fst s' i = Some Visited)"
    by (rule dfs_settles(2) [OF assms(2) initial_state _ _ r]) (auto simp: on_path_def reachable_from_def)
  with assms(3) have "fst s' v = Some Visited"
    by (auto simp: reachable_from_def intro: settled_reach)
  with s' show ?thesis by (auto simp: settled_def)
qed

lemma load_prev_events_all:
  "load_prev_events store False ids = Inr ps \<Longrightarrow> map store ids = map (\<lambda>p. Inr (Some p)) ps"
  by (induction ids arbitrary: ps) (auto simp: result_simps split: sum.splits option.splits)

lemma max_depth_of_bound:
  "max_depth_of ps = Some d \<Longrightarrow> (\<forall>p \<in> set ps. depth_of p \<le> d) \<and> (\<exists>p \<in> set ps. depth_of p = d)"
proof (induction ps arbitrary: d)
  case (Cons a ps)
  show ?case
  proof (cases "max_depth_of ps")
    case None
    then have "ps = []" by (cases ps) auto
    with Cons.prems show ?thesis by simp
  next
    case (Some d')
    with Cons.prems have "d = max (depth_of a) d'" by simp
    then show ?thesis using Cons.IH [OF Some] by (cases "d' \<le> depth_of a") auto
  qed
qed simp

lemma depth_follows:
  assumes "validate_depth_consistency e ps = Inr ()" "ps \<noteq> []" "0 \<le> depth_of e"
    and "\<forall>p \<in> set ps. in_i64 (depth_of p)"
  shows "(\<forall>p \<in> set ps. depth_of p < depth_of e) \<and> (\<exists>p \<in> set ps. depth_of e = depth_of p + 1)"
proof -
  obtain d where d: "max_depth_of ps = Some d" using assms(2) by (cases ps) auto
  have e: "depth_of e = i64_wrap (d + 1)"
    using assms(1,2) d by (simp add: validate_depth_consistency_def result_simps Let_def)
  have b: "(\<forall>p \<in> set ps. depth_of p \<le> d) \<and> (\<exists>p \<in> set ps. depth_of p = d)"
    by (rule max_depth_of_bound [OF d])
  then have r: "in_i64 d" using assms(4) by auto
  have "i64_wrap (d + 1) = d + 1"
  proof (cases "d = i64_max")
    case True
    then show ?thesis using e assms(3) by (simp add: i64_wrap_def i64_max_def)
  next
    case False
    with r show ?thesis by (intro i64_wrap_id) (auto simp: in_i64_def i64_min_def)
  qed
  with e b show ?thesis by auto
qed

section \<open>Claims\<close>

text \<open>
  C28. Cycle detection is exact within its depth: when at most 50 of the events that can be reached
  from an event and its previous events have predecessors, the check passes exactly if none of the
  reachable events lies on a cycle. A reported cycle is always there, whatever the size.
\<close>

theorem cycle_detection_exact:
  assumes "finite {x \<in> reachable_from store (search_starts e ps). prev_ids store x \<noteq> []}"
    and "card {x \<in> reachable_from store (search_starts e ps). prev_ids store x \<noteq> []} \<le> 50"
  shows "detect_dag_cycles store e ps = Inr () \<longleftrightarrow>
    \<not> (\<exists>v \<in> reachable_from store (search_starts e ps). (edge store)\<^sup>+\<^sup>+ v v)"
proof -
  have "\<forall>x \<in> reachable_from store (search_starts e ps). \<forall>y. edge store x y \<longrightarrow>
      y \<in> reachable_from store (search_starts e ps)"
    unfolding reachable_from_def by (blast intro: rtranclp.rtrancl_into_rtrancl)
  then have "fits store (reachable_from store (search_starts e ps)) search_depth"
    using assms by (simp add: fits_def search_depth_def)
  then have "detect_dag_cycles store e ps = Inr () \<Longrightarrow>
      \<not> (\<exists>v \<in> reachable_from store (search_starts e ps). (edge store)\<^sup>+\<^sup>+ v v)"
    using undetected_acyclic by blast
  moreover have "detect_dag_cycles store e ps \<noteq> Inr () \<Longrightarrow>
      \<exists>v \<in> reachable_from store (search_starts e ps). (edge store)\<^sup>+\<^sup>+ v v"
    using detected_cycle [of store e ps] unfolding reachable_from_def by blast
  ultimately show ?thesis by blast
qed

text \<open>
  A cycle closed by the event itself is not found: the searches read the event table, in which
  the event being validated is not stored yet. So when the stored events have no cycle the check
  passes, even if a previous event can be reached from the event and reaches it in turn, and
  storing the event makes the cycle.
\<close>

theorem cycle_through_event_missed:
  assumes "store (ev_event_id e) = Inr None" and "\<forall>v. \<not> (edge store)\<^sup>+\<^sup>+ v v"
    and "p \<in> set ps" and "ev_prev_events e = Some (map ev_event_id ps)"
    and "(edge store)\<^sup>*\<^sup>* (ev_event_id p) (ev_event_id e)"
  shows "detect_dag_cycles store e ps = Inr () \<and>
    (edge (store(ev_event_id e := Inr (Some e))))\<^sup>+\<^sup>+ (ev_event_id e) (ev_event_id e)"
proof
  show "detect_dag_cycles store e ps = Inr ()" using detected_cycle assms(2) by blast
  let ?store = "store(ev_event_id e := Inr (Some e))"
  have "edge store u v \<Longrightarrow> edge ?store u v" for u v
    using assms(1) by (auto simp: edge_def prev_ids_def)
  then have "(edge ?store)\<^sup>*\<^sup>* (ev_event_id p) (ev_event_id e)"
    using assms(5) rtranclp_mono [of "edge store" "edge ?store"] by blast
  moreover have "edge ?store (ev_event_id e) (ev_event_id p)"
    using assms(3,4) by (auto simp: edge_def prev_ids_def)
  ultimately show "(edge ?store)\<^sup>+\<^sup>+ (ev_event_id e) (ev_event_id e)"
    by (rule rtranclp_into_tranclp2 [rotated])
qed

text \<open>
  What an event that passes the graph check promises, unless it is an outlier: it names at
  most 20 previous events, all of them are stored and belong to its room, and its depth is
  one more than the greatest of their depths, without overflow.
\<close>

theorem prev_events_checked:
  assumes "validate_prev_events_dag store e = Inr ()" and "\<not> is_outlier e"
    and "ev_prev_events e = Some ids" and "ids \<noteq> []" and "0 \<le> depth_of e"
    and "\<forall>i p. store i = Inr (Some p) \<longrightarrow> in_i64 (depth_of p)"
  shows "length ids \<le> 20 \<and>
    (\<exists>ps. map store ids = map (\<lambda>p. Inr (Some p)) ps \<and> detect_dag_cycles store e ps = Inr () \<and>
       (\<forall>p \<in> set ps. ev_room_id p = ev_room_id e \<and> depth_of p < depth_of e) \<and>
       (\<exists>p \<in> set ps. depth_of e = depth_of p + 1))"
proof -
  obtain ps where ps: "length ids \<le> 20" "load_prev_events store False ids = Inr ps"
    "validate_depth_consistency e ps = Inr ()" "detect_dag_cycles store e ps = Inr ()"
    "validate_prev_events_room_consistency e ps = Inr ()"
    using assms(1-4) by (auto simp: validate_prev_events_dag_def Let_def result_simps)
  have loaded: "map store ids = map (\<lambda>p. Inr (Some p)) ps" by (rule load_prev_events_all [OF ps(2)])
  then have "ps \<noteq> []" using assms(4) by auto
  moreover have "\<forall>p \<in> set ps. in_i64 (depth_of p)"
  proof
    fix p assume "p \<in> set ps"
    then have "Inr (Some p) \<in> set (map store ids)" unfolding loaded by simp
    then show "in_i64 (depth_of p)" using assms(6) by auto
  qed
  ultimately show ?thesis
    using ps loaded depth_follows [OF ps(3) _ assms(5)]
    by (auto simp: validate_prev_events_room_consistency_def result_simps)
qed

section \<open>Witnesses\<close>

text \<open>
  Two stored events, the second after the first, which names an event \<open>$new\<close> that is not stored
  yet and follows the second.
\<close>

definition dag_event :: "string \<Rightarrow> int \<Rightarrow> string list \<Rightarrow> event" where
  "dag_event i d prev = (new_event i ''@a:x'' 1 ''m.room.message'' ''!r:x'' (Unknown (JObject [])))
     \<lparr>ev_depth := Some d, ev_prev_events := Some prev\<rparr>"

definition dag_store :: event_reader where
  "dag_store i =
     (if i = ''$one'' then Inr (Some (dag_event ''$one'' 1 [''$new'']))
      else if i = ''$two'' then Inr (Some (dag_event ''$two'' 2 [''$one'']))
      else Inr None)"

lemma dag_edge: "edge dag_store u v \<longleftrightarrow> u = ''$one'' \<and> v = ''$new'' \<or> u = ''$two'' \<and> v = ''$one''"
  by (auto simp: edge_def prev_ids_def dag_store_def dag_event_def)

lemma dag_new: "\<not> edge dag_store ''$new'' v" "ev_event_id (dag_event i d prev) = i"
  "ev_prev_events (dag_event i d prev) = Some prev"
  by (simp_all add: dag_edge dag_event_def new_event_def)

lemma dag_acyclic: "\<not> (edge dag_store)\<^sup>+\<^sup>+ v v"
proof -
  have "(edge dag_store)\<^sup>+\<^sup>+ u v \<Longrightarrow> (u = ''$one'' \<and> v = ''$new'') \<or> u = ''$two'' \<and> v \<noteq> ''$two''" for u v
    by (induction rule: tranclp.induct) (auto simp: dag_edge)
  then show ?thesis by blast
qed

lemma dag_inner: "{x \<in> R. prev_ids dag_store x \<noteq> []} \<subseteq> {''$one'', ''$two''}"
  by (auto simp: prev_ids_def dag_store_def split: if_splits)

theorem cycle_detection_exact_witness:
  "detect_dag_cycles dag_store (dag_event ''$new'' 3 [''$two'']) [dag_event ''$two'' 2 [''$one'']] = Inr ()"
proof -
  let ?e = "dag_event ''$new'' 3 [''$two'']" and ?ps = "[dag_event ''$two'' 2 [''$one'']]"
  have "finite {x \<in> R. prev_ids dag_store x \<noteq> []}" "card {x \<in> R. prev_ids dag_store x \<noteq> []} \<le> 50" for R
    using finite_subset [OF dag_inner [of R]] card_mono [OF _ dag_inner [of R]] by simp_all
  then show ?thesis
    using cycle_detection_exact [of dag_store ?e ?ps] dag_acyclic by blast
qed

theorem cycle_through_event_missed_witness:
  "detect_dag_cycles dag_store (dag_event ''$new'' 3 [''$two'']) [dag_event ''$two'' 2 [''$one'']] = Inr () \<and>
   (edge (dag_store(''$new'' := Inr (Some (dag_event ''$new'' 3 [''$two''])))))\<^sup>+\<^sup>+ ''$new'' ''$new''"
proof -
  have "(edge dag_store)\<^sup>*\<^sup>* ''$two'' ''$new''"
    by (rule converse_rtranclp_into_rtranclp [of _ _ "''$one''"]) (auto simp: dag_edge)
  then show ?thesis
    using cycle_through_event_missed [of dag_store "dag_event ''$new'' 3 [''$two'']"
        "dag_event ''$two'' 2 [''$one'']" "[dag_event ''$two'' 2 [''$one'']]"] dag_acyclic
    by (simp add: dag_new dag_store_def)
qed

theorem prev_events_checked_witness:
  "\<exists>ps. map dag_store [''$two''] = map (\<lambda>p. Inr (Some p)) ps \<and>
     (\<exists>p \<in> set ps. depth_of (dag_event ''$new'' 3 [''$two'']) = depth_of p + 1)"
proof -
  let ?e = "dag_event ''$new'' 3 [''$two'']"
  have "detect_dag_cycles dag_store ?e [dag_event ''$two'' 2 [''$one'']] = Inr ()"
    using detected_cycle dag_acyclic by blast
  then have "validate_prev_events_dag dag_store ?e = Inr ()"
    by (simp add: validate_prev_events_dag_def validate_depth_consistency_def depth_of_def
        validate_prev_events_room_consistency_def validate_temporal_ordering_def dag_new
        dag_store_def is_outlier_def ensure_def in_i64_def i64_min_def i64_max_def)
      (simp add: dag_event_def new_event_def Let_def in_i64_def i64_min_def i64_max_def)
  moreover have "in_i64 (depth_of p)" if "dag_store i = Inr (Some p)" for i p
    using that by (auto simp: dag_store_def dag_event_def depth_of_def in_i64_def i64_min_def
        i64_max_def split: if_splits)
  moreover have "\<not> is_outlier ?e" "0 \<le> depth_of ?e"
    by (simp_all add: is_outlier_def depth_of_def dag_event_def new_event_def)
  ultimately show ?thesis
    using prev_events_checked [of dag_store ?e "[''$two'']"] dag_new(3) by blast
qed

end
