(* ===== verification/Pdu_Validator.thy ===== *)
theory Pdu_Validator
  imports Event_Signing Event_Dag "HOL-Library.Countable"
begin

text \<open>
  The validation of incoming PDUs, \<open>server/src/federation/pdu_validator.rs\<close>: format checks per room
  version, deduplication, signatures, hashes with redaction, auth events, the event graph
  (\<open>Event_Dag\<close>), authorization against auth events and against the current state, and the soft
  failure. Database reads, the decoder of events, JSON printing and the HTTP client are the record
  \<open>pdu_world\<close>, next to the worlds of the signing and authorization engines. The table of remote
  keys is the state. Clocks are read through \<open>clocks\<close>, one reading per place in the source.
\<close>

section \<open>Environment\<close>

record key_response =
  kh_success :: bool
  kh_status :: string
  kh_body :: "string + json"

record pdu_world =
  pw_crypto :: crypto
  pw_auth :: auth_world
  event_from_value :: "json \<Rightarrow> string + event"
  room_create_event :: "string \<Rightarrow> repository_error + event option"
  event_by_content_hash :: "string \<Rightarrow> string \<Rightarrow> repository_error + event option"
  current_state_event :: "string \<Rightarrow> string \<Rightarrow> string \<Rightarrow> repository_error + event option"
  recent_events_by_sender ::
    "string \<Rightarrow> string \<Rightarrow> string \<Rightarrow> int \<Rightarrow> int \<Rightarrow> nat option \<Rightarrow> repository_error + event list"
  room_by_id :: "string \<Rightarrow> repository_error + room option"
  current_room_events :: "string \<Rightarrow> repository_error + event list"
  json_to_vec :: "json \<Rightarrow> string + string"
  entity_to_string :: "json \<Rightarrow> entity_error + string"
  quote_string :: "string \<Rightarrow> string + string"
  number_text :: "number \<Rightarrow> string"
  b64_decode_no_pad :: "string \<Rightarrow> string option"
  debug_signing_error :: "signing_error \<Rightarrow> string"
  resolve_base_and_host :: "string \<Rightarrow> string + (string \<times> string)"
  get_server_keys :: "string \<Rightarrow> string \<Rightarrow> string + key_response"

record clocks =
  ck_received :: int
  ck_expiry :: int
  ck_cached :: int
  ck_key_expiry :: int
  ck_key_cached :: int
  ck_key_fetched :: int

abbreviation reads :: "pdu_world \<Rightarrow> event_reader" where
  "reads w \<equiv> event_by_id (pw_auth w)"

datatype validation_result =
    Valid event
  | Rejected string string
  | SoftFailed event string

datatype deduplication_result = New | Duplicate event

datatype hash_validation_result = HashesValid | HashesRedacted event

section \<open>Canonical JSON of the validator\<close>

text \<open>\<open>Iterator::collect\<close> into a \<open>Result\<close>: the first error, or all values.\<close>

fun collectR :: "('e + 'a) list \<Rightarrow> 'e + 'a list" where
  "collectR [] = Inr []"
| "collectR (r # rs) = bindR r (\<lambda>x. bindR (collectR rs) (\<lambda>xs. Inr (x # xs)))"

fun joined :: "string \<Rightarrow> string list \<Rightarrow> string" where
  "joined sep [] = []"
| "joined sep [x] = x"
| "joined sep (x # xs) = x @ sep @ joined sep xs"

text \<open>
  Keys of an object are distinct, so walking through the sorted keys and looking each up is walking
  through the members sorted by key.
\<close>

fun pdu_canonical_json :: "pdu_world \<Rightarrow> json \<Rightarrow> pdu_validation_error + string" where
  "pdu_canonical_json w JNull = Inr ''null''"
| "pdu_canonical_json w (JBool b) = Inr (if b then ''true'' else ''false'')"
| "pdu_canonical_json w (JNumber n) = Inr (number_text w n)"
| "pdu_canonical_json w (JString s) = map_err PV_JsonError (quote_string w s)"
| "pdu_canonical_json w (JArray xs) =
     bindR (collectR (map (pdu_canonical_json w) xs)) (\<lambda>elements.
     Inr (''['' @ joined '','' elements @ '']''))"
| "pdu_canonical_json w (JObject ms) =
     bindR (collectR (map snd (sort_key fst (map (\<lambda>(k, v). (k,
       bindR (map_err PV_JsonError (quote_string w k)) (\<lambda>key_json.
       bindR (pdu_canonical_json w v) (\<lambda>value_json.
       Inr (key_json @ '':'' @ value_json))))) ms)))) (\<lambda>pairs.
     Inr (''{'' @ joined '','' pairs @ ''}''))"

fun entity_error_text :: "entity_error \<Rightarrow> string" where
  "entity_error_text (EntitySerializationError m) = ''JSON serialization failed: '' @ m"
| "entity_error_text (InvalidStructure m) = ''Invalid JSON structure: '' @ m"
| "entity_error_text (UnsupportedType m) = ''Unsupported JSON type: '' @ m"

section \<open>Hashes\<close>

definition compute_sha256_content_hash :: "pdu_world \<Rightarrow> json \<Rightarrow> pdu_validation_error + string" where
  "compute_sha256_content_hash w pdu =
     bindR (map_err (\<lambda>e. PV_InvalidFormat (''Failed to create canonical JSON for hash: '' @ entity_error_text e))
              (entity_canonical_json (entity_to_string w)
                 (remove_keys [''hashes'', ''signatures'', ''unsigned''] pdu))) (\<lambda>canonical_json.
     Inr (b64_encode_no_pad (pw_crypto w) (sha256 (pw_crypto w) canonical_json)))"

definition compute_event_id_from_content :: "pdu_world \<Rightarrow> json \<Rightarrow> pdu_validation_error + string" where
  "compute_event_id_from_content w pdu =
     bindR (compute_sha256_content_hash w pdu) (\<lambda>content_hash. Inr (CHR ''$'' # content_hash))"

definition compute_event_id_v4 :: "pdu_world \<Rightarrow> json \<Rightarrow> pdu_validation_error + string" where
  "compute_event_id_v4 w pdu =
     bindR (map_err (\<lambda>e. PV_InvalidFormat (''Failed to create canonical JSON for event ID: '' @ entity_error_text e))
              (entity_canonical_json (entity_to_string w)
                 (remove_keys [''signatures'', ''unsigned''] pdu))) (\<lambda>canonical_json.
     Inr (CHR ''$'' # b64_encode_no_pad (pw_crypto w) (sha256 (pw_crypto w) canonical_json)))"

definition get_room_version :: "pdu_world \<Rightarrow> string \<Rightarrow> pdu_validation_error + string" where
  "get_room_version w room_id =
     (case room_create_event w room_id of
        Inl e \<Rightarrow> Inl (PV_DatabaseError e)
      | Inr None \<Rightarrow> Inr ''1''
      | Inr (Some created) \<Rightarrow>
          Inr (unwrap_or ''1'' (Option.bind (content_get (ev_content created) ''room_version'') as_str)))"

definition room_version_or_1 :: "pdu_world \<Rightarrow> string \<Rightarrow> string" where
  "room_version_or_1 w room_id =
     (case get_room_version w room_id of Inl _ \<Rightarrow> ''1'' | Inr v \<Rightarrow> v)"

text \<open>Room versions with hashes as event identifiers.\<close>

definition hash_versions :: "string list" where
  "hash_versions = [''4'', ''5'', ''6'', ''7'', ''8'', ''9'', ''10'']"

definition validate_content_hashes ::
  "pdu_world \<Rightarrow> json \<Rightarrow> json \<Rightarrow> string \<Rightarrow> pdu_validation_error + unit" where
  "validate_content_hashes w pdu hashes room_version =
     bindR (ok_or (as_object hashes) (PV_HashMismatch ''object'' ''not an object'')) (\<lambda>hashes_obj.
     case map_of hashes_obj ''sha256'' of
       Some sha256_hash \<Rightarrow>
         bindR (ok_or (as_str sha256_hash) (PV_HashMismatch ''string'' ''not a string'')) (\<lambda>provided_hash.
         bindR (compute_sha256_content_hash w pdu) (\<lambda>computed_hash.
         ensure (provided_hash = computed_hash) (PV_HashMismatch computed_hash provided_hash)))
     | None \<Rightarrow>
         ensure (\<not> room_version \<ge> ''6'')
           (PV_HashMismatch (''sha256 hash required for room version '' @ room_version)
              ''missing sha256 hash''))"

definition validate_event_id_hash :: "pdu_world \<Rightarrow> string \<Rightarrow> json \<Rightarrow> pdu_validation_error + unit" where
  "validate_event_id_hash w event_id pdu =
     bindR (compute_event_id_from_content w pdu) (\<lambda>computed_event_id.
     ensure (event_id = computed_event_id) (PV_HashMismatch computed_event_id event_id))"

definition validate_event_id_format :: "string \<Rightarrow> pdu_validation_error + unit" where
  "validate_event_id_format event_id =
     bindR (ensure (\<not> (event_id = [] \<or> \<not> starts_with event_id CHR ''$''))
              (PV_InvalidFormat (''Invalid event ID format: '' @ event_id))) (\<lambda>_.
     ensure (\<not> length (drop 1 event_id) < 10) (PV_InvalidFormat (''Event ID too short: '' @ event_id)))"

definition validate_reference_hashes :: "event \<Rightarrow> pdu_validation_error + unit" where
  "validate_reference_hashes e =
     bindR (for_each validate_event_id_format (unwrap_or [] (ev_prev_events e))) (\<lambda>_.
     for_each validate_event_id_format (unwrap_or [] (ev_auth_events e)))"

text \<open>The members of the content a redaction keeps, by event type.\<close>

definition redaction_keeps :: "string \<Rightarrow> string option" where
  "redaction_keeps event_type =
     (if event_type = ''m.room.member'' then Some ''membership''
      else if event_type = ''m.room.create'' then Some ''creator''
      else if event_type = ''m.room.join_rules'' then Some ''join_rule''
      else if event_type = ''m.room.history_visibility'' then Some ''history_visibility''
      else None)"

definition pdu_redact_event :: "event \<Rightarrow> string \<Rightarrow> string option \<Rightarrow> event" where
  "pdu_redact_event e room_version reason =
     (let content =
        (if ev_event_type e = ''m.room.power_levels'' then ev_content e
         else case redaction_keeps (ev_event_type e) of
                Some field \<Rightarrow> Unknown (JObject (opt_member field (\<lambda>v. v) (content_get (ev_content e) field)))
              | None \<Rightarrow> Unknown (JObject []));
          unsigned = unwrap_or [] (Option.bind (ev_unsigned e) as_object)
      in e\<lparr>ev_content := content,
           ev_unsigned := Some (JObject (AList.update ''redacted_because''
             (JObject [(''type'', JString ''m.room.redaction''),
                       (''reason'', JString (unwrap_or ''Hash validation failed'' reason))]) unsigned))\<rparr>)"

definition validate_event_hashes_with_redaction ::
  "pdu_world \<Rightarrow> event \<Rightarrow> json \<Rightarrow> pdu_validation_error + hash_validation_result" where
  "validate_event_hashes_with_redaction w e pdu =
     (let room_version = room_version_or_1 w (ev_room_id e);
          content_hashes =
            (case get pdu ''hashes'' of
               None \<Rightarrow> Inr ()
             | Some hashes \<Rightarrow> validate_content_hashes w pdu hashes room_version);
          event_id_hash =
            (if List.member hash_versions room_version
             then validate_event_id_hash w (ev_event_id e) pdu else Inr ())
      in case content_hashes of
           Inl hash_error \<Rightarrow> Inr (HashesRedacted (pdu_redact_event e room_version
             (Some (''Hash validation failed: '' @ pdu_error_text hash_error))))
         | Inr _ \<Rightarrow>
             (case event_id_hash of
                Inl hash_error \<Rightarrow> Inr (HashesRedacted (pdu_redact_event e room_version
                  (Some (''Event ID hash validation failed: '' @ pdu_error_text hash_error))))
              | Inr _ \<Rightarrow> bindR (validate_reference_hashes e) (\<lambda>_. Inr HashesValid)))"

section \<open>Step 1: format\<close>

definition quoted :: "string \<Rightarrow> string" where
  "quoted s = [CHR 0x27] @ s @ [CHR 0x27]"

definition validate_basic_format :: "event \<Rightarrow> pdu_validation_error + unit" where
  "validate_basic_format e =
     bindR (ensure (ev_event_id e \<noteq> []) (PV_InvalidFormat ''Event ID cannot be empty'')) (\<lambda>_.
     bindR (ensure (starts_with (ev_event_id e) CHR ''$'')
              (PV_InvalidFormat (''Event ID must start with '' @ quoted ''$''))) (\<lambda>_.
     bindR (ensure (ev_room_id e \<noteq> []) (PV_InvalidFormat ''Room ID cannot be empty'')) (\<lambda>_.
     bindR (ensure (starts_with (ev_room_id e) CHR ''!'')
              (PV_InvalidFormat (''Room ID must start with '' @ quoted ''!''))) (\<lambda>_.
     bindR (ensure (ev_sender e \<noteq> []) (PV_InvalidFormat ''Sender cannot be empty'')) (\<lambda>_.
     bindR (ensure (starts_with (ev_sender e) CHR ''@'' \<and> contains (ev_sender e) CHR '':'')
              (PV_InvalidFormat (''Invalid sender format: '' @ ev_sender e))) (\<lambda>_.
     bindR (ensure (ev_event_type e \<noteq> []) (PV_InvalidFormat ''Event type cannot be empty'')) (\<lambda>_.
     ensure (\<not> ev_origin_server_ts e \<le> 0)
       (PV_InvalidFormat ''Origin server timestamp must be positive''))))))))"

definition validate_room_v1_v2_format :: "event \<Rightarrow> pdu_validation_error + unit" where
  "validate_room_v1_v2_format e =
     bindR (ensure (\<not> length (drop 1 (ev_event_id e)) < 10)
              (PV_InvalidFormat ''Event ID too short for room v1-v2'')) (\<lambda>_.
     ensure (case ev_depth e of None \<Rightarrow> True | Some depth \<Rightarrow> \<not> depth < 0)
       (PV_InvalidFormat ''Event depth cannot be negative''))"

definition validate_room_v3_format :: "event \<Rightarrow> pdu_validation_error + unit" where
  "validate_room_v3_format e =
     bindR (validate_room_v1_v2_format e) (\<lambda>_.
     ensure (\<not> (ev_event_type e = ''m.room.create'' \<and> ev_state_key e \<noteq> None \<and> ev_state_key e \<noteq> Some []))
       (PV_InvalidFormat ''Room create event must have empty state key''))"

definition validate_event_hash_format :: "pdu_world \<Rightarrow> string \<Rightarrow> pdu_validation_error + unit" where
  "validate_event_hash_format w event_id =
     (let event_id_content = drop 1 event_id in
      bindR (ensure (\<not> (length event_id_content < 43 \<or> length event_id_content > 44))
               (PV_InvalidFormat ''Invalid event ID hash length for room v4+'')) (\<lambda>_.
      ensure (b64_decode_no_pad w event_id_content \<noteq> None)
        (PV_InvalidFormat ''Event ID must be valid base64 for room v4+'')))"

definition validate_room_v4_format :: "pdu_world \<Rightarrow> event \<Rightarrow> json \<Rightarrow> pdu_validation_error + unit" where
  "validate_room_v4_format w e pdu =
     bindR (validate_event_hash_format w (ev_event_id e)) (\<lambda>_.
     bindR (compute_event_id_v4 w pdu) (\<lambda>computed_event_id.
     bindR (ensure (ev_event_id e = computed_event_id) (PV_InvalidFormat
              (''Event ID mismatch: expected '' @ computed_event_id @ '', got '' @ ev_event_id e))) (\<lambda>_.
     ensure (ev_event_type e \<noteq> ''m.room.aliases'')
       (PV_InvalidFormat ''m.room.aliases events are not allowed in room v4+''))))"

definition check_integer_entry :: "string \<Rightarrow> string \<times> json \<Rightarrow> pdu_validation_error + unit" where
  "check_integer_entry what entry =
     ensure (is_i64 (snd entry))
       (PV_InvalidFormat (''Power level for '' @ what @ '' '' @ fst entry @ '' must be integer''))"

definition check_integer_field :: "members \<Rightarrow> string \<Rightarrow> pdu_validation_error + unit" where
  "check_integer_field obj field =
     (case map_of obj field of
        None \<Rightarrow> Inr ()
      | Some v \<Rightarrow> ensure (is_i64 v)
                  (PV_InvalidFormat (''Power level field '' @ field @ '' must be integer'')))"

definition integer_fields :: "string list" where
  "integer_fields = [''ban'', ''invite'', ''kick'', ''redact'', ''state_default'', ''events_default'',
     ''users_default'']"

definition validate_power_levels_integers :: "json \<Rightarrow> pdu_validation_error + unit" where
  "validate_power_levels_integers content =
     (case as_object content of
        None \<Rightarrow> Inr ()
      | Some obj \<Rightarrow>
          bindR (for_each (check_integer_entry ''user'')
                   (unwrap_or [] (Option.bind (map_of obj ''users'') as_object))) (\<lambda>_.
          bindR (for_each (check_integer_entry ''event'')
                   (unwrap_or [] (Option.bind (map_of obj ''events'') as_object))) (\<lambda>_.
          for_each (check_integer_field obj) integer_fields)))"

definition max_safe_depth :: int where "max_safe_depth = 9007199254740991"

definition validate_room_v5_format :: "pdu_world \<Rightarrow> event \<Rightarrow> json \<Rightarrow> pdu_validation_error + unit" where
  "validate_room_v5_format w e pdu =
     bindR (validate_room_v4_format w e pdu) (\<lambda>_.
     bindR (ensure (\<not> ev_origin_server_ts e < 0)
              (PV_InvalidFormat ''Origin server timestamp cannot be negative'')) (\<lambda>_.
     bindR (case ev_depth e of
              None \<Rightarrow> Inr ()
            | Some depth \<Rightarrow>
                bindR (ensure (\<not> depth < 0) (PV_InvalidFormat ''Event depth cannot be negative'')) (\<lambda>_.
                ensure (\<not> depth > max_safe_depth)
                  (PV_InvalidFormat ''Event depth exceeds reasonable maximum''))) (\<lambda>_.
     if ev_event_type e = ''m.room.power_levels''
     then validate_power_levels_integers (content_to_value (ev_content e))
     else Inr ())))"

definition validate_room_v6_format :: "pdu_world \<Rightarrow> event \<Rightarrow> json \<Rightarrow> pdu_validation_error + unit" where
  "validate_room_v6_format w e pdu = validate_room_v5_format w e pdu"

definition validate_room_v7_plus_format :: "pdu_world \<Rightarrow> event \<Rightarrow> json \<Rightarrow> pdu_validation_error + unit" where
  "validate_room_v7_plus_format w e pdu =
     bindR (validate_room_v6_format w e pdu) (\<lambda>_.
     bindR (map_err (\<lambda>m. PV_InvalidFormat (''Failed to serialize event for size check: '' @ m))
              (json_to_vec w pdu)) (\<lambda>bytes.
     let event_size = length bytes;
         max_size = (if ev_state_key e \<noteq> None then 10 * 1024 else 65 * 1024)
     in ensure (\<not> event_size > max_size)
          (PV_InvalidFormat (''Event size '' @ show_nat event_size @ '' exceeds maximum '' @
             show_nat max_size @ '' bytes''))))"

definition validate_version_format ::
  "pdu_world \<Rightarrow> event \<Rightarrow> json \<Rightarrow> string \<Rightarrow> pdu_validation_error + unit" where
  "validate_version_format w e pdu room_version =
     (if room_version = ''1'' \<or> room_version = ''2'' then validate_room_v1_v2_format e
      else if room_version = ''3'' then validate_room_v3_format e
      else if room_version = ''4'' then validate_room_v4_format w e pdu
      else if room_version = ''5'' then validate_room_v5_format w e pdu
      else if room_version = ''6'' then validate_room_v6_format w e pdu
      else if List.member [''7'', ''8'', ''9'', ''10''] room_version
      then validate_room_v7_plus_format w e pdu
      else validate_room_v1_v2_format e)"

definition validate_format :: "pdu_world \<Rightarrow> clocks \<Rightarrow> json \<Rightarrow> pdu_validation_error + event" where
  "validate_format w ck pdu =
     bindR (map_err (\<lambda>m. PV_InvalidFormat (''Failed to parse PDU as Event: '' @ m))
              (event_from_value w pdu)) (\<lambda>e.
     let room_version = (if ev_room_id e \<noteq> [] \<and> starts_with (ev_room_id e) CHR ''!''
                         then room_version_or_1 w (ev_room_id e) else ''1'')
     in bindR (validate_basic_format e) (\<lambda>_.
        bindR (validate_version_format w e pdu room_version) (\<lambda>_.
        Inr (e\<lparr>ev_received_ts := Some (ck_received ck)\<rparr>))))"

section \<open>Deduplication\<close>

text \<open>
  Two values are equal when their canonical forms are: equality of objects ignores the order of
  members.
\<close>

definition events_have_identical_content :: "event \<Rightarrow> event \<Rightarrow> bool" where
  "events_have_identical_content a b \<longleftrightarrow>
     ev_event_type a = ev_event_type b \<and> ev_sender a = ev_sender b \<and>
     canon (content_to_value (ev_content a)) = canon (content_to_value (ev_content b)) \<and>
     ev_state_key a = ev_state_key b"

definition check_content_hash_deduplication ::
  "pdu_world \<Rightarrow> event \<Rightarrow> pdu_validation_error + event option" where
  "check_content_hash_deduplication w e =
     bindR (compute_sha256_content_hash w (event_to_value e)) (\<lambda>content_hash.
     map_err PV_DatabaseError (event_by_content_hash w (ev_room_id e) content_hash))"

definition check_state_key_deduplication ::
  "pdu_world \<Rightarrow> event \<Rightarrow> pdu_validation_error + event option" where
  "check_state_key_deduplication w e =
     (case ev_state_key e of
        None \<Rightarrow> Inr None
      | Some state_key \<Rightarrow>
          bindR (map_err PV_DatabaseError
                   (current_state_event w (ev_room_id e) (ev_event_type e) state_key)) (\<lambda>existing.
          Inr (case existing of
                 None \<Rightarrow> None
               | Some old \<Rightarrow> if events_have_identical_content e old then Some old else None)))"

definition TEMPORAL_WINDOW_MS :: int where "TEMPORAL_WINDOW_MS = 1000"

definition check_temporal_deduplication ::
  "pdu_world \<Rightarrow> event \<Rightarrow> pdu_validation_error + event option" where
  "check_temporal_deduplication w e =
     bindR (map_err PV_DatabaseError
              (recent_events_by_sender w (ev_room_id e) (ev_sender e) (ev_event_type e)
                 (i64_wrap (ev_origin_server_ts e - TEMPORAL_WINDOW_MS))
                 (i64_wrap (ev_origin_server_ts e + TEMPORAL_WINDOW_MS)) (Some 5))) (\<lambda>recent.
     Inr (List.find (events_have_identical_content e) recent))"

definition dedup_or :: "event option \<Rightarrow> pdu_validation_error + deduplication_result \<Rightarrow>
  pdu_validation_error + deduplication_result" where
  "dedup_or found rest = (case found of Some old \<Rightarrow> Inr (Duplicate old) | None \<Rightarrow> rest)"

definition check_event_deduplication ::
  "pdu_world \<Rightarrow> event \<Rightarrow> pdu_validation_error + deduplication_result" where
  "check_event_deduplication w e =
     dedup_or (case reads w (ev_event_id e) of Inl _ \<Rightarrow> None | Inr found \<Rightarrow> found)
     (bindR (if List.member hash_versions (room_version_or_1 w (ev_room_id e))
             then check_content_hash_deduplication w e else Inr None) (\<lambda>by_hash.
      dedup_or by_hash
     (bindR (if ev_state_key e \<noteq> None then check_state_key_deduplication w e else Inr None) (\<lambda>by_state.
      dedup_or by_state
     (bindR (check_temporal_deduplication w e) (\<lambda>by_time.
      dedup_or by_time (Inr New)))))))"

section \<open>Step 2: keys and signatures\<close>

text \<open>The loop over the signatures of a key response, which ends at the first that verifies.\<close>

fun any_key_signature_verifies ::
  "pdu_world \<Rightarrow> string \<Rightarrow> members \<Rightarrow> members \<Rightarrow> pdu_validation_error + bool" where
  "any_key_signature_verifies w canonical_json verify_keys [] = Inr False"
| "any_key_signature_verifies w canonical_json verify_keys ((key_id, signature) # sigs) =
     bindR (ok_or (as_str signature) (PV_CryptoError ''Server key signature must be a string'')) (\<lambda>signature_str.
     case Option.bind (map_of verify_keys key_id) (\<lambda>key_data. Option.bind (get key_data ''key'') as_str) of
       None \<Rightarrow> any_key_signature_verifies w canonical_json verify_keys sigs
     | Some public_key \<Rightarrow>
         if is_ok (verify_ed25519_signature (pw_crypto w) signature_str canonical_json public_key)
         then Inr True
         else any_key_signature_verifies w canonical_json verify_keys sigs)"

definition pdu_verify_server_key_signatures ::
  "pdu_world \<Rightarrow> json \<Rightarrow> string \<Rightarrow> pdu_validation_error + unit" where
  "pdu_verify_server_key_signatures w response server_name =
     bindR (ok_or (Option.bind (get response ''signatures'') as_object)
              (PV_CryptoError ''Server key response missing signatures'')) (\<lambda>signatures.
     bindR (ok_or (Option.bind (map_of signatures server_name) as_object)
              (PV_CryptoError (''Server key response missing signatures from '' @ server_name))) (\<lambda>server_signatures.
     bindR (ok_or (Option.bind (get response ''verify_keys'') as_object)
              (PV_CryptoError ''Server key response missing verify_keys for signature verification'')) (\<lambda>verify_keys.
     bindR (pdu_canonical_json w (remove_keys [''signatures''] response)) (\<lambda>canonical_json.
     bindR (any_key_signature_verifies w canonical_json verify_keys server_signatures) (\<lambda>verified.
     ensure verified
       (PV_CryptoError (''Failed to verify any server key signatures from '' @ server_name)))))))"

definition pdu_fetch_remote_server_key ::
  "pdu_world \<Rightarrow> clocks \<Rightarrow> string \<Rightarrow> string \<Rightarrow> pdu_validation_error + string" where
  "pdu_fetch_remote_server_key w ck server_name key_id =
     bindR (map_err PV_DnsResolutionError (resolve_base_and_host w server_name)) (\<lambda>(base_url, host_header).
     bindR (map_err (\<lambda>m. PV_CryptoError (''Failed to fetch server keys from '' @ server_name @ '': '' @ m))
              (get_server_keys w (base_url @ ''/_matrix/key/v2/server'') host_header)) (\<lambda>response.
     bindR (ensure (kh_success response) (PV_CryptoError
              (''Server key request failed with status: '' @ kh_status response @ '' for '' @ server_name))) (\<lambda>_.
     bindR (map_err (\<lambda>m. PV_CryptoError (''Failed to parse server key response: '' @ m))
              (kh_body response)) (\<lambda>body.
     bindR (ok_or (Option.bind (get body ''server_name'') as_str)
              (PV_CryptoError ''Server key response missing server_name'')) (\<lambda>response_server_name.
     bindR (ensure (response_server_name = server_name) (PV_CryptoError
              (''Server key response server name mismatch: expected '' @ server_name @ '', got '' @
               response_server_name))) (\<lambda>_.
     let valid_until_ts = unwrap_or 0 (Option.bind (get body ''valid_until_ts'') as_i64) in
     bindR (ensure (\<not> (valid_until_ts > 0 \<and> ck_key_expiry ck > valid_until_ts))
              (PV_CryptoError (''Server key response has expired for '' @ server_name))) (\<lambda>_.
     bindR (ok_or (Option.bind (get body ''verify_keys'') as_object)
              (PV_CryptoError ''Server key response missing verify_keys'')) (\<lambda>verify_keys.
     bindR (ok_or (Option.bind (map_of verify_keys key_id) as_object)
              (PV_CryptoError (''Requested key '' @ key_id @ '' not found in server response''))) (\<lambda>key_data.
     bindR (ok_or (get_str key_data ''key'')
              (PV_CryptoError (''Public key data missing for key '' @ key_id))) (\<lambda>public_key.
     bindR (pdu_verify_server_key_signatures w body server_name) (\<lambda>_.
     Inr public_key)))))))))))"

text \<open>Dates are milliseconds; a fetched key is kept for 24 hours.\<close>

definition cache_server_key ::
  "pdu_world \<Rightarrow> clocks \<Rightarrow> string \<Rightarrow> string \<Rightarrow> string \<Rightarrow> key_row list \<Rightarrow>
   (pdu_validation_error + unit) \<times> key_row list" where
  "cache_server_key w ck server_name key_id public_key rows =
     (if server_name = homeserver_name (pw_crypto w) then (Inr (), rows)
      else let row = \<lparr>kr_server_name = server_name, kr_key_id = key_id, kr_public_key = public_key,
                      kr_fetched_at = ck_key_fetched ck, kr_is_active = True,
                      kr_expires_at = ck_key_cached ck + 24 * 60 * 60 * 1000\<rparr>
           in (case public_key_create (pw_crypto w) row of
                 Inl e \<Rightarrow> (Inl (PV_CryptoError (''Failed to cache server key: '' @ repository_error_text e)), rows)
               | Inr _ \<Rightarrow> (Inr (), rows @ [row])))"

definition get_server_public_key ::
  "pdu_world \<Rightarrow> clocks \<Rightarrow> string \<Rightarrow> string \<Rightarrow> key_row list \<Rightarrow> (pdu_validation_error + string) \<times> key_row list"
where
  "get_server_public_key w ck server_name key_id rows =
     (case public_key_query (pw_crypto w) rows server_name key_id of
        Inl e \<Rightarrow> (Inl (PV_CryptoError (''Failed to query server keys: '' @ repository_error_text e)), rows)
      | Inr (Some key) \<Rightarrow> (Inr key, rows)
      | Inr None \<Rightarrow>
          bindS (liftS (pdu_fetch_remote_server_key w ck server_name key_id)) (\<lambda>fetched_key.
          bindS (cache_server_key w ck server_name key_id fetched_key) (\<lambda>_.
          liftS (Inr fetched_key))) rows)"

text \<open>The loop over the signatures of the expected server: whether one verifies.\<close>

fun any_event_signature_verifies ::
  "pdu_world \<Rightarrow> clocks \<Rightarrow> string \<Rightarrow> string \<Rightarrow> (string \<times> string) list \<Rightarrow> key_row list \<Rightarrow> bool \<times> key_row list"
where
  "any_event_signature_verifies w ck server canonical_json [] rows = (False, rows)"
| "any_event_signature_verifies w ck server canonical_json ((key_id, signature) # sigs) rows =
     (case get_server_public_key w ck server key_id rows of
        (Inr public_key, rows') \<Rightarrow>
          if is_ok (verify_ed25519_signature (pw_crypto w) signature canonical_json public_key)
          then (True, rows')
          else any_event_signature_verifies w ck server canonical_json sigs rows'
      | (Inl _, rows') \<Rightarrow> any_event_signature_verifies w ck server canonical_json sigs rows')"

definition verify_event_signatures ::
  "pdu_world \<Rightarrow> clocks \<Rightarrow> event \<Rightarrow> string \<Rightarrow> key_row list \<Rightarrow> (pdu_validation_error + unit) \<times> key_row list"
where
  "verify_event_signatures w ck e expected_server =
     bindS (liftS (pdu_canonical_json w (remove_keys [''signatures'', ''unsigned''] (event_to_value e)))) (\<lambda>canonical_json.
     bindS (liftS (ok_or (ev_signatures e) (PV_SignatureError ''Event missing signatures''))) (\<lambda>signatures.
     (\<lambda>rows. case any_event_signature_verifies w ck expected_server canonical_json
                    (unwrap_or [] (map_of signatures expected_server)) rows of
               (True, rows') \<Rightarrow> (Inr (), rows')
             | (False, rows') \<Rightarrow> (Inl (PV_SignatureError
                 (''No valid signature found from server '' @ expected_server)), rows'))))"

section \<open>Steps 4 to 6: auth events, authorization, current state\<close>

definition validate_auth_events :: "pdu_world \<Rightarrow> event \<Rightarrow> pdu_validation_error + unit" where
  "validate_auth_events w e =
     for_each (\<lambda>i. ensure (case reads w i of Inr (Some _) \<Rightarrow> True | _ \<Rightarrow> is_outlier e)
                  (PV_AuthorizationError (''Auth event '' @ i @ '' not found'')))
       (unwrap_or [] (ev_auth_events e))"

fun load_auth_events ::
  "event_reader \<Rightarrow> bool \<Rightarrow> string list \<Rightarrow> pdu_validation_error + event list" where
  "load_auth_events store outlier [] = Inr []"
| "load_auth_events store outlier (i # ids) =
     (case store i of
        Inl err \<Rightarrow> Inl (PV_DatabaseError err)
      | Inr (Some a) \<Rightarrow> bindR (load_auth_events store outlier ids) (\<lambda>as. Inr (a # as))
      | Inr None \<Rightarrow>
          if outlier then load_auth_events store outlier ids
          else Inl (PV_AuthorizationError
                 (''Auth event '' @ i @ '' not found for authorization validation'')))"

definition validate_matrix_authorization :: "pdu_world \<Rightarrow> event \<Rightarrow> pdu_validation_error + unit" where
  "validate_matrix_authorization w e =
     bindR (load_auth_events (reads w) (is_outlier e) (unwrap_or [] (ev_auth_events e))) (\<lambda>auth_events.
     bindR (get_room_version w (ev_room_id e)) (\<lambda>room_version.
     map_err PV_MatrixAuthorizationError (authorize_event (pw_auth w) e auth_events room_version)))"

definition validate_state_before :: "event \<Rightarrow> pdu_validation_error + unit" where
  "validate_state_before e =
     (if ev_event_type e = ''m.room.member'' then
        bindR (ok_or (content_as_object (ev_content e))
                 (PV_AuthorizationError ''Membership event content must be object'')) (\<lambda>content.
        bindR (ok_or (get_str content ''membership'')
                 (PV_AuthorizationError ''Membership event must have membership field'')) (\<lambda>membership.
        ensure (List.member [''join'', ''leave'', ''invite'', ''ban'', ''knock''] membership)
          (PV_AuthorizationError (''Invalid membership state: '' @ membership))))
      else if ev_event_type e = ''m.room.message'' then
        ensure (content_get (ev_content e) ''body'' \<noteq> None)
          (PV_AuthorizationError ''Message event must have body'')
      else
        ensure (starts_with (ev_sender e) CHR ''@'' \<and> contains (ev_sender e) CHR '':'')
          (PV_AuthorizationError (''Invalid sender format: '' @ ev_sender e)))"

definition get_current_room_state :: "pdu_world \<Rightarrow> string \<Rightarrow> pdu_validation_error + event list" where
  "get_current_room_state w room_id = map_err PV_DatabaseError (current_room_events w room_id)"

definition validate_against_current_room_state :: "pdu_world \<Rightarrow> event \<Rightarrow> pdu_validation_error + unit" where
  "validate_against_current_room_state w e =
     bindR (map_err (\<lambda>err. PV_StateError (''Could not retrieve current room state: '' @ pdu_error_text err))
              (get_current_room_state w (ev_room_id e))) (\<lambda>current_state_events.
     bindR (get_room_version w (ev_room_id e)) (\<lambda>room_version.
     map_err PV_MatrixAuthorizationError
       (authorize_event (pw_auth w) e current_state_events room_version)))"

definition validate_current_state :: "pdu_world \<Rightarrow> event \<Rightarrow> pdu_validation_error + unit" where
  "validate_current_state w e =
     bindR (ensure (\<not> depth_of e < 0) (PV_StateError ''Event depth cannot be negative'')) (\<lambda>_.
     bindR (ensure (\<not> (unwrap_or [] (ev_prev_events e) = [] \<and> depth_of e > 0))
              (PV_StateError ''Non-genesis events must have prev_events'')) (\<lambda>_.
     bindR (ensure (room_by_id w (ev_room_id e) \<noteq> Inr None)
              (PV_StateError (''Room '' @ ev_room_id e @ '' not found locally''))) (\<lambda>_.
     map_err (\<lambda>err. PV_StateError (''Authorization against current state failed: '' @ pdu_error_text err))
       (validate_against_current_room_state w e))))"

section \<open>The pipeline\<close>

text \<open>Steps 4 to 6, which leave the key table alone.\<close>

definition validate_steps_4_to_6 :: "pdu_world \<Rightarrow> event \<Rightarrow> pdu_validation_error + validation_result" where
  "validate_steps_4_to_6 w e =
     bindR (validate_auth_events w e) (\<lambda>_.
     bindR (validate_prev_events_dag (reads w) e) (\<lambda>_.
     case validate_state_before e of
       Inl err \<Rightarrow> Inr (Rejected (ev_event_id e) (''State before validation failed: '' @ pdu_error_text err))
     | Inr _ \<Rightarrow>
         (case validate_matrix_authorization w e of
            Inl err \<Rightarrow> Inr (Rejected (ev_event_id e) (''Matrix authorization failed: '' @ pdu_error_text err))
          | Inr _ \<Rightarrow>
              (case validate_current_state w e of
                 Inr _ \<Rightarrow> Inr (Valid e)
               | Inl err \<Rightarrow> Inr (SoftFailed (e\<lparr>ev_soft_failed := Some True\<rparr>)
                   (''Current state validation failed: '' @ pdu_error_text err))))))"

definition validate_pdu ::
  "pdu_world \<Rightarrow> clocks \<Rightarrow> json \<Rightarrow> string \<Rightarrow> key_row list \<Rightarrow>
   (pdu_validation_error + validation_result) \<times> key_row list" where
  "validate_pdu w ck pdu origin_server =
     bindS (liftS (validate_format w ck pdu)) (\<lambda>e.
     bindS (liftS (check_event_deduplication w e)) (\<lambda>dedup.
     case dedup of
       Duplicate existing \<Rightarrow> liftS (Inr (Valid existing))
     | New \<Rightarrow>
         bindS (\<lambda>rows. case validate_event_crypto (pw_crypto w) (ck_expiry ck) (ck_cached ck) e
                               [origin_server] rows of
                          (r, rows') \<Rightarrow> (map_err (\<lambda>err. PV_SignatureError (debug_signing_error w err)) r, rows')) (\<lambda>_.
         (\<lambda>rows. case verify_event_signatures w ck e origin_server rows of
                   (Inl err, rows') \<Rightarrow>
                     (Inr (Rejected (ev_event_id e) (''Signature verification failed: '' @ pdu_error_text err)), rows')
                 | (Inr _, rows') \<Rightarrow>
                     bindS (liftS (validate_event_hashes_with_redaction w e pdu)) (\<lambda>hashes.
                     liftS (validate_steps_4_to_6 w
                       (case hashes of HashesValid \<Rightarrow> e | HashesRedacted redacted \<Rightarrow> redacted))) rows'))))"

section \<open>The text of canonical JSON\<close>

text \<open>
  The compact format of \<open>serde_json::to_string\<close>, members in the order of the object, from the
  escaping of strings and the printing of numbers.
\<close>

fun compact :: "(string \<Rightarrow> string) \<Rightarrow> (number \<Rightarrow> string) \<Rightarrow> json \<Rightarrow> string" where
  "compact q n JNull = ''null''"
| "compact q n (JBool b) = (if b then ''true'' else ''false'')"
| "compact q n (JNumber i) = n i"
| "compact q n (JString s) = q s"
| "compact q n (JArray xs) = ''['' @ joined '','' (map (compact q n) xs) @ '']''"
| "compact q n (JObject ms) =
     ''{'' @ joined '','' (map (\<lambda>(k, v). q k @ '':'' @ compact q n v) ms) @ ''}''"

lemma collectR_map_Inr: "(\<And>x. x \<in> set xs \<Longrightarrow> f x = Inr (g x)) \<Longrightarrow> collectR (map f xs) = Inr (map g xs)"
  by (induction xs) auto

lemma insort_key_map_snd:
  "insort_key fst (k, f k v) (map (\<lambda>(k, v). (k, f k v)) ms) = map (\<lambda>(k, v). (k, f k v)) (insort_key fst (k, v) ms)"
  by (induction ms) auto

lemma sort_key_map_snd:
  "sort_key fst (map (\<lambda>(k, v). (k, f k v)) ms) = map (\<lambda>(k, v). (k, f k v)) (sort_key fst ms)"
  by (induction ms) (auto simp: insort_key_map_snd)

lemma pdu_canonical_json_compact:
  assumes "\<And>s. quote_string w s = Inr (q s)"
  shows "pdu_canonical_json w v = Inr (compact q (number_text w) (canon v))"
proof (induction v rule: canon.induct)
  case (1 xs)
  then have "collectR (map (pdu_canonical_json w) xs) =
      Inr (map (\<lambda>x. compact q (number_text w) (canon x)) xs)" by (rule collectR_map_Inr)
  then show ?case by (simp add: comp_def)
next
  case (2 ms)
  let ?pair = "\<lambda>k v. bindR (map_err PV_JsonError (quote_string w k)) (\<lambda>key_json.
       bindR (pdu_canonical_json w v) (\<lambda>value_json. Inr (key_json @ '':'' @ value_json)))"
  have "collectR (map (\<lambda>(k, v). ?pair k v) (sort_key fst ms)) =
      Inr (map (\<lambda>(k, v). q k @ '':'' @ compact q (number_text w) (canon v)) (sort_key fst ms))"
    by (rule collectR_map_Inr) (use 2 assms in auto)
  moreover have "map snd (sort_key fst (map (\<lambda>(k, v). (k, ?pair k v)) ms)) =
      map (\<lambda>(k, v). ?pair k v) (sort_key fst ms)"
    unfolding sort_key_map_snd [of ?pair] by (simp add: case_prod_beta)
  moreover have "map (\<lambda>(k, v). q k @ '':'' @ compact q (number_text w) v)
        (sort_key fst (map (\<lambda>(k, v). (k, canon v)) ms)) =
      map (\<lambda>(k, v). q k @ '':'' @ compact q (number_text w) (canon v)) (sort_key fst ms)"
    unfolding sort_key_map_snd [of "\<lambda>k. canon"] by (simp add: comp_def case_prod_beta)
  ultimately show ?case
    unfolding pdu_canonical_json.simps canon.simps compact.simps by (simp only: bindR.simps)
qed (simp_all add: assms)

section \<open>What the steps promise\<close>

text \<open>
  Where a key comes from: it was in the table for that server and key name, or the response of
  that server held it. Whatever a lookup adds to the table is a row of the server looked up.
\<close>

definition key_of_server :: "pdu_world \<Rightarrow> clocks \<Rightarrow> key_row list \<Rightarrow> string \<Rightarrow> string \<Rightarrow> string \<Rightarrow> bool" where
  "key_of_server w ck rows server key_id public_key \<longleftrightarrow>
     public_key_query (pw_crypto w) rows server key_id = Inr (Some public_key) \<or>
     public_key_query (pw_crypto w) rows server key_id = Inr None \<and>
       pdu_fetch_remote_server_key w ck server key_id = Inr public_key"

definition rows_added :: "string \<Rightarrow> key_row list \<Rightarrow> key_row list \<Rightarrow> bool" where
  "rows_added server rows rows' \<longleftrightarrow>
     (\<exists>added. rows' = rows @ added \<and> (\<forall>r \<in> set added. kr_server_name r = server))"

lemma rows_added_refl: "rows_added server rows rows"
  by (simp add: rows_added_def)

lemma rows_added_trans: "rows_added s r1 r2 \<Longrightarrow> rows_added s r2 r3 \<Longrightarrow> rows_added s r1 r3"
  unfolding rows_added_def by (metis Un_iff append.assoc set_append)

lemma get_server_public_key_added:
  "get_server_public_key w ck server key_id rows = (r, rows') \<Longrightarrow> rows_added server rows rows'"
  by (auto simp: get_server_public_key_def cache_server_key_def rows_added_def bindS_def liftS_def Let_def
      split: sum.splits option.splits if_splits)

lemma get_server_public_key_origin:
  "get_server_public_key w ck server key_id rows = (Inr public_key, rows') \<Longrightarrow>
     key_of_server w ck rows server key_id public_key"
  by (auto simp: get_server_public_key_def key_of_server_def bindS_def liftS_def
      split: sum.splits option.splits prod.splits)

lemma any_event_signature_sound:
  "any_event_signature_verifies w ck server m sigs rows = (True, rows') \<Longrightarrow>
     \<exists>key_id signature public_key rows1. (key_id, signature) \<in> set sigs \<and>
       rows_added server rows rows1 \<and> key_of_server w ck rows1 server key_id public_key \<and>
       verify_ed25519_signature (pw_crypto w) signature m public_key = Inr ()"
proof (induction w ck server m sigs rows rule: any_event_signature_verifies.induct)
  case (2 w ck server m key_id signature sigs rows)
  obtain k rows1 where k: "get_server_public_key w ck server key_id rows = (k, rows1)"
    by (cases "get_server_public_key w ck server key_id rows")
  have later: ?case if "any_event_signature_verifies w ck server m sigs rows1 = (True, rows')"
    and "any_event_signature_verifies w ck server m sigs rows1 = (True, rows') \<Longrightarrow>
      \<exists>key_id signature public_key rows2. (key_id, signature) \<in> set sigs \<and>
        rows_added server rows1 rows2 \<and> key_of_server w ck rows2 server key_id public_key \<and>
        verify_ed25519_signature (pw_crypto w) signature m public_key = Inr ()"
    using that(2) [OF that(1)] rows_added_trans [OF get_server_public_key_added [OF k]]
    by (metis list.set_intros(2))
  show ?case
  proof (cases k)
    case (Inl err)
    then have "any_event_signature_verifies w ck server m sigs rows1 = (True, rows')"
      using "2.prems" k by simp
    then show ?thesis by (rule later) (rule "2.IH"(1) [OF k [symmetric] Inl])
  next
    case (Inr public_key)
    show ?thesis
    proof (cases "is_ok (verify_ed25519_signature (pw_crypto w) signature m public_key)")
      case True
      then have "verify_ed25519_signature (pw_crypto w) signature m public_key = Inr ()" by (auto simp: is_ok_iff)
      then show ?thesis
        using get_server_public_key_origin [OF k [unfolded Inr]] rows_added_refl
        by (metis list.set_intros(1))
    next
      case False
      then have "any_event_signature_verifies w ck server m sigs rows1 = (True, rows')"
        using "2.prems" k Inr by simp
      then show ?thesis by (rule later) (rule "2.IH"(2) [OF k [symmetric] Inr False])
    qed
  qed
qed simp

lemma verify_event_signatures_sound:
  assumes "verify_event_signatures w ck e server rows = (Inr (), rows')"
  shows "\<exists>m sigs key_id signature public_key rows1.
     pdu_canonical_json w (remove_keys [''signatures'', ''unsigned''] (event_to_value e)) = Inr m \<and>
     Option.bind (ev_signatures e) (\<lambda>s. map_of s server) = Some sigs \<and> (key_id, signature) \<in> set sigs \<and>
     rows_added server rows rows1 \<and> key_of_server w ck rows1 server key_id public_key \<and>
     verify_ed25519_signature (pw_crypto w) signature m public_key = Inr ()"
proof -
  obtain m s where m: "pdu_canonical_json w (remove_keys [''signatures'', ''unsigned''] (event_to_value e)) = Inr m"
    "ev_signatures e = Some s"
    "(case any_event_signature_verifies w ck server m (unwrap_or [] (map_of s server)) rows of
        (True, rows') \<Rightarrow> (Inr (), rows')
      | (False, rows') \<Rightarrow> (Inl (PV_SignatureError
          (''No valid signature found from server '' @ server)), rows')) = (Inr (), rows')"
    using assms by (auto simp: verify_event_signatures_def result_simps simp del: append_Cons)
  obtain b rows1 where a: "any_event_signature_verifies w ck server m (unwrap_or [] (map_of s server)) rows = (b, rows1)"
    by (cases "any_event_signature_verifies w ck server m (unwrap_or [] (map_of s server)) rows")
  with m(3) have b by (cases b) simp_all
  with a have "any_event_signature_verifies w ck server m (unwrap_or [] (map_of s server)) rows = (True, rows1)"
    by simp
  from any_event_signature_sound [OF this] m(1,2) show ?thesis
    by (cases "map_of s server") (simp, fastforce)
qed

text \<open>The cryptographic check before it also adds rows of the origin server only.\<close>

lemma fetched_rows_added:
  "fetch_remote_server_key w now now' server key_id rows = (Inr pk, rows') \<Longrightarrow> rows_added server rows rows'"
  by (drule fetched_key_sound) (auto simp: rows_added_def rows_of_def)

lemma verify_any_rows_added:
  "verify_any_signature w now now' server m sigs rows = (Inr b, rows') \<Longrightarrow> rows_added server rows rows'"
proof (induction sigs arbitrary: rows)
  case (Cons a sigs)
  obtain key_id sig where a: "a = (key_id, sig)" by (cases a)
  from Cons.prems a obtain s pk rows1 where f: "fetch_remote_server_key w now now' server key_id rows = (Inr pk, rows1)"
    and r: "(if is_ok (verify_ed25519_signature w s m pk) then liftS (Inr True)
       else verify_any_signature w now now' server m sigs) rows1 = (Inr b, rows')"
    by (auto simp: result_simps)
  have "rows_added server rows1 rows'"
    using r Cons.IH by (auto simp: rows_added_refl liftS_Inr_iff split: if_splits)
  with fetched_rows_added [OF f] show ?case by (rule rows_added_trans)
qed (simp add: rows_added_refl)

lemma crypto_rows_added:
  assumes "validate_event_crypto w now now' e [server] rows = (Inr (), rows')"
  shows "rows_added server rows rows'"
proof -
  obtain cj sigs where "forS (check_server_signatures w now now' cj sigs) [server] rows = (Inr (), rows')"
    using assms by (auto simp: validate_event_crypto_def validate_event_signatures_def Let_def
        bindS_Inr_iff liftS_Inr_iff)
  then obtain ms b where "verify_any_signature w now now' server cj ms rows = (Inr b, rows')"
    by (auto simp: check_server_signatures_def bindS_Inr_iff liftS_Inr_iff)
  then show ?thesis by (rule verify_any_rows_added)
qed

lemma steps_4_to_6_Valid_iff:
  "validate_steps_4_to_6 w e = Inr (Valid e') \<longleftrightarrow>
     e' = e \<and> validate_auth_events w e = Inr () \<and> validate_prev_events_dag (reads w) e = Inr () \<and>
     validate_state_before e = Inr () \<and> validate_matrix_authorization w e = Inr () \<and>
     validate_current_state w e = Inr ()"
  by (auto simp: validate_steps_4_to_6_def result_simps split: sum.splits)

lemma steps_4_to_6_SoftFailed_iff:
  "validate_steps_4_to_6 w e = Inr (SoftFailed e' reason) \<longleftrightarrow>
     e' = e\<lparr>ev_soft_failed := Some True\<rparr> \<and> validate_auth_events w e = Inr () \<and>
     validate_prev_events_dag (reads w) e = Inr () \<and>
     validate_state_before e = Inr () \<and> validate_matrix_authorization w e = Inr () \<and>
     (\<exists>err. validate_current_state w e = Inl err \<and>
            reason = ''Current state validation failed: '' @ pdu_error_text err)"
  by (auto simp: validate_steps_4_to_6_def result_simps split: sum.splits)

lemma matrix_authorization_iff:
  "validate_matrix_authorization w e = Inr () \<longleftrightarrow>
     (\<exists>as v. load_auth_events (reads w) (is_outlier e) (unwrap_or [] (ev_auth_events e)) = Inr as \<and>
        get_room_version w (ev_room_id e) = Inr v \<and> authorize_event (pw_auth w) e as v = Inr ())"
  by (auto simp: validate_matrix_authorization_def result_simps)

lemma current_state_iff:
  "validate_current_state w e = Inr () \<longleftrightarrow>
     0 \<le> depth_of e \<and> (unwrap_or [] (ev_prev_events e) = [] \<longrightarrow> depth_of e = 0) \<and>
     room_by_id w (ev_room_id e) \<noteq> Inr None \<and>
     (\<exists>cur v. current_room_events w (ev_room_id e) = Inr cur \<and> get_room_version w (ev_room_id e) = Inr v \<and>
        authorize_event (pw_auth w) e cur v = Inr ())"
  by (auto simp: validate_current_state_def validate_against_current_room_state_def
      get_current_room_state_def result_simps)

lemma hashes_redacted_or_valid:
  assumes "validate_event_hashes_with_redaction w e pdu = Inr h"
  shows "h = HashesValid \<or> (\<exists>v reason. h = HashesRedacted (pdu_redact_event e v reason))"
proof -
  have redacted: "(case a of Inl err \<Rightarrow> Inr (HashesRedacted (pdu_redact_event e v (f err)))
      | Inr _ \<Rightarrow> (case b of Inl err \<Rightarrow> Inr (HashesRedacted (pdu_redact_event e v (g err)))
          | Inr _ \<Rightarrow> bindR c (\<lambda>_. Inr HashesValid))) = Inr h \<Longrightarrow> ?thesis"
    for a b :: "pdu_validation_error + unit" and c :: "pdu_validation_error + unit" and v f g
    by (auto simp: result_simps split: sum.splits)
  show ?thesis
    by (rule redacted) (rule assms [unfolded validate_event_hashes_with_redaction_def Let_def])
qed

text \<open>A verdict on an event that is not a duplicate.\<close>

lemma validate_pdu_new:
  assumes "validate_pdu w ck pdu origin rows = (Inr r, rows')" and "validate_format w ck pdu = Inr e"
    and "check_event_deduplication w e = Inr New"
  obtains (unsigned) rows1 err where
      "validate_event_crypto (pw_crypto w) (ck_expiry ck) (ck_cached ck) e [origin] rows = (Inr (), rows1)"
      "verify_event_signatures w ck e origin rows1 = (Inl err, rows')"
      "r = Rejected (ev_event_id e) (''Signature verification failed: '' @ pdu_error_text err)"
  | (signed) rows1 e1 where
      "validate_event_crypto (pw_crypto w) (ck_expiry ck) (ck_cached ck) e [origin] rows = (Inr (), rows1)"
      "verify_event_signatures w ck e origin rows1 = (Inr (), rows')"
      "e1 = e \<or> (\<exists>v reason. e1 = pdu_redact_event e v reason)" "validate_steps_4_to_6 w e1 = Inr r"
proof -
  obtain c rows1 where c:
    "validate_event_crypto (pw_crypto w) (ck_expiry ck) (ck_cached ck) e [origin] rows = (c, rows1)"
    by (cases "validate_event_crypto (pw_crypto w) (ck_expiry ck) (ck_cached ck) e [origin] rows")
  obtain v rows2 where v: "verify_event_signatures w ck e origin rows1 = (v, rows2)"
    by (cases "verify_event_signatures w ck e origin rows1")
  have c': "c = Inr ()" using assms c by (cases c) (simp_all add: validate_pdu_def bindS_def liftS_def)
  have "(\<exists>err. v = Inl err \<and> rows2 = rows' \<and>
        r = Rejected (ev_event_id e) (''Signature verification failed: '' @ pdu_error_text err)) \<or>
     (\<exists>h. v = Inr () \<and> rows2 = rows' \<and> validate_event_hashes_with_redaction w e pdu = Inr h \<and>
        validate_steps_4_to_6 w (case h of HashesValid \<Rightarrow> e | HashesRedacted e1 \<Rightarrow> e1) = Inr r)"
    using assms c c' v
    by (cases v) (auto simp: validate_pdu_def bindS_def liftS_def split: sum.splits)
  then show thesis
  proof (elim disjE exE conjE)
    fix err assume "v = Inl err" "rows2 = rows'"
      and r: "r = Rejected (ev_event_id e) (''Signature verification failed: '' @ pdu_error_text err)"
    with c c' v show thesis by (intro unsigned [OF _ _ r]) auto
  next
    fix h assume h: "v = Inr ()" "rows2 = rows'" "validate_event_hashes_with_redaction w e pdu = Inr h"
      "validate_steps_4_to_6 w (case h of HashesValid \<Rightarrow> e | HashesRedacted e1 \<Rightarrow> e1) = Inr r"
    have "(case h of HashesValid \<Rightarrow> e | HashesRedacted e1 \<Rightarrow> e1) = e \<or>
        (\<exists>v reason. (case h of HashesValid \<Rightarrow> e | HashesRedacted e1 \<Rightarrow> e1) = pdu_redact_event e v reason)"
      using hashes_redacted_or_valid [OF h(3)] by (elim disjE exE) (simp_all, blast)
    with h c c' v show thesis by (intro signed [OF _ _ _ h(4)]) auto
  qed
qed

section \<open>Claims\<close>

text \<open>Every level an object gives users, event types and the named actions is a 64-bit integer.\<close>

definition integer_levels :: "members \<Rightarrow> bool" where
  "integer_levels obj \<longleftrightarrow>
     (\<forall>field\<in>set integer_fields. \<forall>v. map_of obj field = Some v \<longrightarrow> as_i64 v \<noteq> None) \<and>
     (\<forall>key\<in>{''users'', ''events''}. \<forall>entries. Option.bind (map_of obj key) as_object = Some entries \<longrightarrow>
        (\<forall>entry\<in>set entries. as_i64 (snd entry) \<noteq> None))"

lemma in_unwrap_or_Nil: "x \<in> set (unwrap_or [] r) \<longleftrightarrow> (\<exists>xs. r = Some xs \<and> x \<in> set xs)"
  by (cases r) auto

lemma power_levels_integers_iff:
  "validate_power_levels_integers content = Inr () \<longleftrightarrow> (\<forall>obj. as_object content = Some obj \<longrightarrow> integer_levels obj)"
  by (auto simp: validate_power_levels_integers_def check_integer_entry_def check_integer_field_def
      integer_levels_def is_i64_def in_unwrap_or_Nil result_simps split: option.splits)
    fastforce+

lemma version_format_levels:
  assumes "validate_version_format w e pdu v = Inr ()" and "v \<in> {''5'', ''6'', ''7'', ''8'', ''9'', ''10''}"
    and "ev_event_type e = ''m.room.power_levels''"
  shows "validate_power_levels_integers (content_to_value (ev_content e)) = Inr ()"
  using assms by (auto simp: validate_version_format_def validate_room_v5_format_def validate_room_v6_format_def
      validate_room_v7_plus_format_def result_simps)

lemma version_format_depth:
  "validate_version_format w e pdu v = Inr () \<Longrightarrow> v \<noteq> ''4'' \<Longrightarrow> ev_depth e = Some d \<Longrightarrow> 0 \<le> d"
  by (auto simp: validate_version_format_def validate_room_v1_v2_format_def validate_room_v3_format_def
      validate_room_v5_format_def validate_room_v6_format_def validate_room_v7_plus_format_def result_simps
      split: if_splits)

text \<open>
  C38. What the format check establishes of an event. It meets the basic constraints of the
  authorization engine, in rooms of version 4 except for the sign of its depth; and in rooms of versions 5 to 10 every level of a power levels event,
  of users, of event types and of the named actions, is a 64-bit integer.
\<close>

theorem format_check_types:
  assumes "validate_format w ck pdu = Inr e"
  shows "validate_basic_constraints (e\<lparr>ev_depth := None\<rparr>) = Inr () \<and>
    (room_version_or_1 w (ev_room_id e) \<noteq> ''4'' \<longrightarrow> validate_basic_constraints e = Inr ()) \<and>
    (\<forall>obj. room_version_or_1 w (ev_room_id e) \<in> {''5'', ''6'', ''7'', ''8'', ''9'', ''10''} \<and>
       ev_event_type e = ''m.room.power_levels'' \<and> as_object (content_to_value (ev_content e)) = Some obj \<longrightarrow>
       integer_levels obj)"
proof -
  obtain e0 where e: "e = e0\<lparr>ev_received_ts := Some (ck_received ck)\<rparr>" and basic: "validate_basic_format e0 = Inr ()"
    and version: "validate_version_format w e0 pdu (room_version_or_1 w (ev_room_id e0)) = Inr ()"
    using assms by (auto simp: validate_format_def validate_basic_format_def Let_def result_simps split: if_splits)
  have none: "validate_basic_constraints (e\<lparr>ev_depth := None\<rparr>) = Inr ()"
    using basic by (simp add: e validate_basic_format_def validate_basic_constraints_def result_simps)
  have "validate_basic_constraints e = Inr ()" if "room_version_or_1 w (ev_room_id e) \<noteq> ''4''"
    using none version_format_depth [OF version] that
    by (auto simp: e validate_basic_constraints_def result_simps split: option.splits)
  moreover have "validate_power_levels_integers (content_to_value (ev_content e)) = Inr ()"
    if "room_version_or_1 w (ev_room_id e) \<in> {''5'', ''6'', ''7'', ''8'', ''9'', ''10''}" "ev_event_type e = ''m.room.power_levels''"
    using version_format_levels [OF version] that by (simp add: e)
  ultimately show ?thesis using none unfolding power_levels_integers_iff by blast
qed

text \<open>
  C13. Soundness of the validation: a PDU declared valid is a duplicate of a known event, or its
  event, possibly redacted, carries a signature listed under the origin server that verifies over
  the event with a key of that server, passes the graph check, and is authorized both by the auth
  events it names and by the current state of the room, under the rules of the room's version. The
  key is the one the table holds for the origin and the key name of the signature, or the one a
  request for that name to the origin returned; the rows added to the table meanwhile are rows of
  the origin.
\<close>

theorem validated_pdu_sound:
  assumes "validate_pdu w ck pdu origin rows = (Inr (Valid e'), rows')"
  shows "\<exists>e. validate_format w ck pdu = Inr e \<and>
    (check_event_deduplication w e = Inr (Duplicate e') \<or>
     (e' = e \<or> (\<exists>v reason. e' = pdu_redact_event e v reason)) \<and>
     (\<exists>m sigs key_id signature public_key added.
        pdu_canonical_json w (remove_keys [''signatures'', ''unsigned''] (event_to_value e)) = Inr m \<and>
        Option.bind (ev_signatures e) (\<lambda>s. map_of s origin) = Some sigs \<and> (key_id, signature) \<in> set sigs \<and>
        (\<forall>r \<in> set added. kr_server_name r = origin) \<and>
        (public_key_query (pw_crypto w) (rows @ added) origin key_id = Inr (Some public_key) \<or>
         public_key_query (pw_crypto w) (rows @ added) origin key_id = Inr None \<and>
           pdu_fetch_remote_server_key w ck origin key_id = Inr public_key) \<and>
        verify_ed25519_signature (pw_crypto w) signature m public_key = Inr ()) \<and>
     validate_prev_events_dag (reads w) e' = Inr () \<and>
     (\<exists>auth_events current v.
        load_auth_events (reads w) (is_outlier e') (unwrap_or [] (ev_auth_events e')) = Inr auth_events \<and>
        current_room_events w (ev_room_id e') = Inr current \<and> get_room_version w (ev_room_id e') = Inr v \<and>
        authorize_event (pw_auth w) e' auth_events v = Inr () \<and>
        authorize_event (pw_auth w) e' current v = Inr ()))"
proof -
  obtain e dedup where e: "validate_format w ck pdu = Inr e" "check_event_deduplication w e = Inr dedup"
    using assms by (auto simp: validate_pdu_def bindS_Inr_iff liftS_Inr_iff)
  show ?thesis
  proof (cases dedup)
    case (Duplicate old)
    then have "old = e'" using assms e by (simp add: validate_pdu_def bindS_def liftS_def)
    then show ?thesis using e Duplicate by blast
  next
    case New
    from assms e(1) e(2) [unfolded New] show ?thesis
    proof (cases rule: validate_pdu_new)
      case (signed rows1 e1)
      then have "e1 = e'" "validate_prev_events_dag (reads w) e' = Inr ()"
        "validate_matrix_authorization w e' = Inr ()" "validate_current_state w e' = Inr ()"
        by (simp_all add: steps_4_to_6_Valid_iff)
      note steps = this
      from verify_event_signatures_sound [OF signed(2)] obtain m sigs key_id signature public_key rows2
        where s: "pdu_canonical_json w (remove_keys [''signatures'', ''unsigned''] (event_to_value e)) = Inr m"
          "Option.bind (ev_signatures e) (\<lambda>s. map_of s origin) = Some sigs" "(key_id, signature) \<in> set sigs"
          "rows_added origin rows1 rows2" "key_of_server w ck rows2 origin key_id public_key"
          "verify_ed25519_signature (pw_crypto w) signature m public_key = Inr ()" by blast
      from rows_added_trans [OF crypto_rows_added [OF signed(1)] s(4)] obtain added
        where "rows2 = rows @ added" "\<forall>r \<in> set added. kr_server_name r = origin"
        by (auto simp: rows_added_def)
      with s have "\<exists>m sigs key_id signature public_key added.
        pdu_canonical_json w (remove_keys [''signatures'', ''unsigned''] (event_to_value e)) = Inr m \<and>
        Option.bind (ev_signatures e) (\<lambda>s. map_of s origin) = Some sigs \<and> (key_id, signature) \<in> set sigs \<and>
        (\<forall>r \<in> set added. kr_server_name r = origin) \<and>
        (public_key_query (pw_crypto w) (rows @ added) origin key_id = Inr (Some public_key) \<or>
         public_key_query (pw_crypto w) (rows @ added) origin key_id = Inr None \<and>
           pdu_fetch_remote_server_key w ck origin key_id = Inr public_key) \<and>
        verify_ed25519_signature (pw_crypto w) signature m public_key = Inr ()"
        unfolding key_of_server_def by blast
      moreover have "e' = e \<or> (\<exists>v reason. e' = pdu_redact_event e v reason)"
        using signed(3) steps(1) by simp
      moreover have "\<exists>auth_events current v.
          load_auth_events (reads w) (is_outlier e') (unwrap_or [] (ev_auth_events e')) = Inr auth_events \<and>
          current_room_events w (ev_room_id e') = Inr current \<and> get_room_version w (ev_room_id e') = Inr v \<and>
          authorize_event (pw_auth w) e' auth_events v = Inr () \<and> authorize_event (pw_auth w) e' current v = Inr ()"
        using steps(3,4) by (auto simp: matrix_authorization_iff current_state_iff)
      ultimately show ?thesis using e(1) steps(2) by blast
    qed simp
  qed
qed

text \<open>
  What the verdict soft-failed means: the event was authorized by its auth events but not
  accepted in the current state, and it is returned with its flag set; a rejected or soft-failed
  PDU is never a duplicate.
\<close>

theorem soft_failed_pdu:
  assumes "validate_pdu w ck pdu origin rows = (Inr (SoftFailed e' reason), rows')"
  shows "ev_soft_failed e' = Some True \<and>
    (\<exists>e e1. validate_format w ck pdu = Inr e \<and> check_event_deduplication w e = Inr New \<and>
       e' = e1\<lparr>ev_soft_failed := Some True\<rparr> \<and> validate_matrix_authorization w e1 = Inr () \<and>
       validate_current_state w e1 \<noteq> Inr ())"
proof -
  obtain e dedup where e: "validate_format w ck pdu = Inr e" "check_event_deduplication w e = Inr dedup"
    using assms by (auto simp: validate_pdu_def bindS_Inr_iff liftS_Inr_iff)
  then have New: "dedup = New"
    using assms by (cases dedup) (simp_all add: validate_pdu_def bindS_def liftS_def)
  from assms e(1) e(2) [unfolded New] show ?thesis
  proof (cases rule: validate_pdu_new)
    case (signed rows1 e1)
    then show ?thesis using e New by (auto simp: steps_4_to_6_SoftFailed_iff)
  qed simp
qed

text \<open>
  C40. Events signed elsewhere are not accepted: the format step stores the local time of receipt
  in the event before its signature is checked over the whole event. If a signature verifies only
  over texts its server signed, and servers sign no document with that local field, then every PDU
  that is not a duplicate ends in an error or is rejected, whoever sent it.
\<close>

theorem received_pdu_rejected:
  assumes "\<And>m signature key. verify_ed25519_signature (pw_crypto w) signature m key = Inr () \<Longrightarrow> m \<in> signed_texts"
    and "\<And>m v. m \<in> signed_texts \<Longrightarrow> pdu_canonical_json w v = Inr m \<Longrightarrow> get v ''received_ts'' = None"
    and "validate_format w ck pdu = Inr e" and "check_event_deduplication w e = Inr New"
    and "validate_pdu w ck pdu origin rows = (Inr r, rows')"
  shows "\<exists>reason. r = Rejected (ev_event_id e) reason"
proof -
  have ts: "get (remove_keys [''signatures'', ''unsigned''] (event_to_value e)) ''received_ts'' \<noteq> None"
    using assms(3) by (auto simp: validate_format_def result_simps Let_def event_to_value_def opt_member_def
        map_of_filter_in split: option.splits)
  from assms(5,3,4) show ?thesis
  proof (cases rule: validate_pdu_new)
    case (signed rows1 e1)
    from verify_event_signatures_sound [OF signed(2)] obtain m where m:
      "pdu_canonical_json w (remove_keys [''signatures'', ''unsigned''] (event_to_value e)) = Inr m"
      "m \<in> signed_texts" using assms(1) by blast
    show ?thesis using assms(2) [OF m(2,1)] ts by simp
  qed blast
qed

text \<open>
  In rooms of versions 4 to 10 a PDU with hashes never keeps its content: the format step
  compares the event identifier with a hash over the PDU with its \<open>hashes\<close>, the hash step with
  a hash over the PDU without them. With hashes that do not collide both cannot hold, so an event
  that passes the first is redacted by the second.
\<close>

theorem hashed_pdu_redacted:
  assumes "json_wf pdu" and "get pdu ''hashes'' \<noteq> None"
    and "List.member hash_versions (room_version_or_1 w (ev_room_id e))"
    and "validate_room_v4_format w e pdu = Inr ()"
    and "\<And>u v. entity_to_string w u = entity_to_string w v \<Longrightarrow> u = v"
    and "\<And>s t. b64_encode_no_pad (pw_crypto w) (sha256 (pw_crypto w) s) =
              b64_encode_no_pad (pw_crypto w) (sha256 (pw_crypto w) t) \<Longrightarrow> s = t"
  shows "\<exists>reason. validate_event_hashes_with_redaction w e pdu =
     Inr (HashesRedacted (pdu_redact_event e (room_version_or_1 w (ev_room_id e)) reason))"
proof -
  let ?with = "remove_keys [''signatures'', ''unsigned''] pdu"
  let ?without = "remove_keys [''hashes'', ''signatures'', ''unsigned''] pdu"
  have wf: "json_wf ?with" "json_wf ?without" using assms(1) by (simp_all only: json_wf_remove_keys)
  have "denote ?with \<noteq> denote ?without"
  proof
    assume eq: "denote ?with = denote ?without"
    have "get ?with ''hashes'' = get pdu ''hashes''" "get ?without ''hashes'' = None"
      by (simp_all add: get_remove_keys)
    with denote_get [OF eq, of "''hashes''"] assms(2) show False by auto
  qed
  then have ne: "canon ?with \<noteq> canon ?without" using canon_eq_iff [OF wf] by simp
  obtain a where a: "entity_to_string w (canon ?with) = Inr a"
    "ev_event_id e = CHR ''$'' # b64_encode_no_pad (pw_crypto w) (sha256 (pw_crypto w) a)"
    using assms(4) by (auto simp: validate_room_v4_format_def compute_event_id_v4_def result_simps
        entity_canonical_json_def entity_computes_canon(1) [OF wf(1)])
  have "validate_event_id_hash w (ev_event_id e) pdu \<noteq> Inr ()"
  proof
    assume "validate_event_id_hash w (ev_event_id e) pdu = Inr ()"
    then obtain b where b: "entity_to_string w (canon ?without) = Inr b"
      "ev_event_id e = CHR ''$'' # b64_encode_no_pad (pw_crypto w) (sha256 (pw_crypto w) b)"
      by (auto simp: validate_event_id_hash_def compute_event_id_from_content_def
          compute_sha256_content_hash_def result_simps entity_canonical_json_def
          entity_computes_canon(1) [OF wf(2)])
    have "a = b" by (rule assms(6)) (use a(2) b(2) in simp)
    then show False using assms(5) [of "canon ?with" "canon ?without"] a(1) b(1) ne by simp
  qed
  then obtain err where err: "validate_event_id_hash w (ev_event_id e) pdu = Inl err"
    by (cases "validate_event_id_hash w (ev_event_id e) pdu") auto
  show ?thesis
    using assms(3) err unfolding validate_event_hashes_with_redaction_def Let_def
    by (cases "case get pdu ''hashes'' of None \<Rightarrow> Inr () | Some hashes \<Rightarrow>
        validate_content_hashes w pdu hashes (room_version_or_1 w (ev_room_id e))") auto
qed

text \<open>
  Three printers of canonical JSON agree: whatever text the server's canonicalizer produces for
  a well-formed document, the entity crate and the validator's own printer produce the same, given
  that the JSON library prints values compactly in member order.
\<close>

theorem canonical_texts_agree:
  assumes "json_wf v" and "to_canonical_json (json_to_string (pw_crypto w)) v = Inr text"
    and "\<And>s. quote_string w s = Inr (q s)"
    and "\<And>u. json_to_string (pw_crypto w) u = Inr (compact q (number_text w) u)"
    and "\<And>u. entity_to_string w u = Inr (compact q (number_text w) u)"
  shows "pdu_canonical_json w v = Inr text \<and> entity_canonical_json (entity_to_string w) v = Inr text"
proof -
  have "canonicalize_value v = Inr (canon v) \<and> text = compact q (number_text w) (canon v)"
    using assms(1,2,4) canonicalize_value_iff [OF assms(1)]
    by (auto simp: to_canonical_json_def canonicalize_value_def result_simps)
  then show ?thesis
    using pdu_canonical_json_compact [OF assms(3)] assms(5)
    by (simp add: entity_canonical_json_def entity_computes_canon(1) [OF assms(1)])
qed

text \<open>
  The requirement of a SHA-256 hash compares room versions as strings: without one, versions 6
  to 9 are refused, but versions 10 and 11 pass like version 1.
\<close>

theorem sha256_required_versions:
  "(validate_content_hashes w pdu (JObject []) v = Inr () \<longleftrightarrow> v < ''6'') \<and>
   ''10'' < ''6'' \<and> ''11'' < ''6'' \<and> \<not> ''6'' < ''6'' \<and> \<not> ''9'' < ''6''"
  by (simp add: validate_content_hashes_def result_simps not_le)

section \<open>Witnesses\<close>

text \<open>
  A room where \<open>@a:x\<close>, with level 100, bans \<open>@b:x\<close>; every signature of the right length verifies.
\<close>

definition pdu_auth_events :: "event list" where
  "pdu_auth_events =
     [state_event ''m.room.power_levels'' [] ''$power-levels'' [(''users'', JObject [(''@a:x'', int_json 100)])],
      state_event ''m.room.member'' ''@a:x'' ''$member-of-a'' [(''membership'', JString ''join'')],
      state_event ''m.room.member'' ''@b:x'' ''$member-of-b'' [(''membership'', JString ''join'')]]"

definition pdu_ban :: event where
  "pdu_ban = (state_event ''m.room.member'' ''@b:x'' ''$ban-of-member-b'' [(''membership'', JString ''ban'')])
     \<lparr>ev_auth_events := Some [''$power-levels'', ''$member-of-a'', ''$member-of-b''],
      ev_signatures := Some [(''x'', [(''k'', letters (replicate 64 CHR ''s''))])]\<rparr>"

definition pdu_reads :: event_reader where
  "pdu_reads i = Inr (List.find (\<lambda>e. ev_event_id e = i) pdu_auth_events)"

definition pdu_demo :: pdu_world where
  "pdu_demo =
     \<lparr>pw_crypto = demo_crypto\<lparr>ed_verify := (\<lambda>pk m s. True)\<rparr>,
      pw_auth = demo_world\<lparr>event_by_id := pdu_reads\<rparr>,
      event_from_value = (\<lambda>v. Inr pdu_ban), room_create_event = (\<lambda>r. Inr None),
      event_by_content_hash = (\<lambda>r h. Inr None), current_state_event = (\<lambda>r t k. Inr None),
      recent_events_by_sender = (\<lambda>r s t a b n. Inr []), room_by_id = (\<lambda>r. Inl (Database ''busy'')),
      current_room_events = (\<lambda>r. Inr pdu_auth_events), json_to_vec = (\<lambda>v. Inr []),
      entity_to_string = (\<lambda>v. Inr (compact (\<lambda>s. s) (\<lambda>n. ''0'') v)), quote_string = (\<lambda>s. Inr s),
      number_text = (\<lambda>n. ''0''), b64_decode_no_pad = Some, debug_signing_error = (\<lambda>e. []),
      resolve_base_and_host = (\<lambda>s. Inr (s, s)), get_server_keys = (\<lambda>u h. Inl u)\<rparr>"

definition pdu_clocks :: clocks where
  "pdu_clocks = \<lparr>ck_received = 9, ck_expiry = 0, ck_cached = 0, ck_key_expiry = 0, ck_key_cached = 0,
     ck_key_fetched = 0\<rparr>"

definition pdu_ban_received :: event where
  "pdu_ban_received = pdu_ban\<lparr>ev_received_ts := Some 9\<rparr>"

lemmas pdu_demo_defs = pdu_demo_def pdu_ban_received_def pdu_ban_def state_event_def new_event_def

lemma pdu_demo_format: "validate_format pdu_demo pdu_clocks (JObject []) = Inr pdu_ban_received"
  by (simp add: validate_format_def validate_basic_format_def validate_version_format_def
      room_version_or_1_def get_room_version_def validate_room_v1_v2_format_def ensure_def
      pdu_clocks_def pdu_demo_defs contains_iff)

lemma pdu_demo_reads:
  "reads pdu_demo ''$power-levels'' = Inr (Some (pdu_auth_events ! 0))"
  "reads pdu_demo ''$member-of-a'' = Inr (Some (pdu_auth_events ! 1))"
  "reads pdu_demo ''$member-of-b'' = Inr (Some (pdu_auth_events ! 2))"
  "reads pdu_demo ''$ban-of-member-b'' = Inr None"
  by (simp_all add: pdu_demo_def pdu_reads_def pdu_auth_events_def state_event_def new_event_def)

lemma pdu_ban_id: "ev_event_id pdu_ban_received = ''$ban-of-member-b''"
  by (simp add: pdu_demo_defs)

lemma pdu_demo_new: "check_event_deduplication pdu_demo pdu_ban_received = Inr New"
  unfolding check_event_deduplication_def pdu_ban_id pdu_demo_reads
  by (simp add: dedup_or_def room_version_or_1_def get_room_version_def hash_versions_def
      check_state_key_deduplication_def check_temporal_deduplication_def pdu_demo_defs)

lemma pdu_demo_verifies:
  "verify_ed25519_signature (pw_crypto pdu_demo) (letters (replicate 64 CHR ''s'')) m
     (letters (replicate 32 CHR ''p'')) = Inr ()"
  by (simp add: verify_ed25519_signature_def pdu_demo_def demo_crypto_def unletters_letters ensure_def)

lemma pdu_demo_key:
  "public_key_query (pw_crypto pdu_demo) rows s k = Inr (Some (letters (replicate 32 CHR ''p'')))"
  by (simp add: pdu_demo_def demo_crypto_def)

lemma pdu_ban_signatures:
  "ev_signatures pdu_ban_received = Some [(''x'', [(''k'', letters (replicate 64 CHR ''s''))])]"
  "ev_hashes pdu_ban_received = None"
  by (simp_all add: pdu_demo_defs)

lemma pdu_demo_crypto:
  "validate_event_crypto (pw_crypto pdu_demo) now now' pdu_ban_received [''x''] [] = (Inr (), [])"
proof -
  have "to_canonical_json (json_to_string demo_crypto) (redact_event_for_signing pdu_ban_received) = Inr ''json''"
    by (rule demo_canonical) (simp_all add: redact_event_for_signing_def pdu_demo_defs opt_member_def
        null_or_def strings_json_def MAX_DEPTH_def MAX_MEMBERS_def)
  moreover have "json_to_string (pw_crypto pdu_demo) = json_to_string demo_crypto" by (simp add: pdu_demo_def)
  ultimately show ?thesis
    by (simp add: validate_event_crypto_def validate_event_signatures_def canonical_for_crypto_def
        check_server_signatures_def object_or_empty_def signatures_json_def string_map_json_def
        pdu_ban_signatures fetch_remote_server_key_def pdu_demo_key pdu_demo_verifies bindS_def liftS_def
        ensure_def validate_event_hash_def get_str_def)
qed

lemma pdu_demo_text: "\<exists>m. pdu_canonical_json pdu_demo v = Inr m"
  by (subst pdu_canonical_json_compact [of _ "\<lambda>s. s"]) (simp_all add: pdu_demo_def)

lemma pdu_demo_signed: "verify_event_signatures pdu_demo ck pdu_ban_received ''x'' rows = (Inr (), rows)"
proof -
  obtain m where "pdu_canonical_json pdu_demo
      (remove_keys [''signatures'', ''unsigned''] (event_to_value pdu_ban_received)) = Inr m"
    using pdu_demo_text by blast
  then show ?thesis
    by (simp add: verify_event_signatures_def bindS_def liftS_def pdu_ban_signatures
        get_server_public_key_def pdu_demo_key pdu_demo_verifies)
qed

lemma pdu_demo_hashes:
  "validate_event_hashes_with_redaction pdu_demo pdu_ban_received (JObject []) = Inr HashesValid"
  by (simp add: validate_event_hashes_with_redaction_def room_version_or_1_def get_room_version_def
      hash_versions_def validate_reference_hashes_def validate_event_id_format_def ensure_def
      pdu_demo_defs)

lemma pdu_demo_load:
  "load_auth_events (reads pdu_demo) b [''$power-levels'', ''$member-of-a'', ''$member-of-b''] = Inr pdu_auth_events"
  by (simp add: pdu_demo_reads) (simp add: pdu_auth_events_def)

lemma pdu_demo_authorized:
  "authorize_event (pw_auth pdu_demo) pdu_ban_received pdu_auth_events ''1'' = Inr ()"
  by (simp add: fed_auth_eval pdu_demo_defs pdu_auth_events_def pdu_reads_def)

lemma pdu_demo_steps: "validate_steps_4_to_6 pdu_demo pdu_ban_received = Inr (Valid pdu_ban_received)"
proof -
  have fields: "ev_auth_events pdu_ban_received = Some [''$power-levels'', ''$member-of-a'', ''$member-of-b'']"
    "ev_prev_events pdu_ban_received = None" "depth_of pdu_ban_received = 0"
    "ev_event_type pdu_ban_received = ''m.room.member''"
    "ev_content pdu_ban_received = Unknown (JObject [(''membership'', JString ''ban'')])"
    by (simp_all add: pdu_demo_defs depth_of_def)
  have "validate_auth_events pdu_demo pdu_ban_received = Inr ()"
    unfolding validate_auth_events_def fields(1) by (simp add: pdu_demo_reads ensure_def)
  moreover have "validate_prev_events_dag (reads pdu_demo) pdu_ban_received = Inr ()"
    by (simp add: validate_prev_events_dag_def fields ensure_def)
  moreover have "validate_state_before pdu_ban_received = Inr ()"
    by (simp add: validate_state_before_def fields get_str_def ensure_def)
  moreover have v: "get_room_version pdu_demo r = Inr ''1''" for r
    by (simp add: get_room_version_def pdu_demo_def)
  moreover have "validate_matrix_authorization pdu_demo pdu_ban_received = Inr ()"
    unfolding matrix_authorization_iff using fields(1) pdu_demo_load v pdu_demo_authorized by simp
  moreover have "validate_current_state pdu_demo pdu_ban_received = Inr ()"
    unfolding current_state_iff using fields v pdu_demo_authorized
    by (simp add: pdu_demo_def)
  ultimately show ?thesis by (simp add: steps_4_to_6_Valid_iff)
qed

lemma pdu_demo_valid:
  "validate_pdu pdu_demo pdu_clocks (JObject []) ''x'' [] = (Inr (Valid pdu_ban_received), [])"
  by (simp add: validate_pdu_def bindS_def liftS_def pdu_demo_format pdu_demo_new pdu_demo_crypto
      pdu_demo_signed pdu_demo_hashes pdu_demo_steps)

theorem format_check_types_witness: "validate_basic_constraints pdu_ban_received = Inr ()"
proof -
  have "room_version_or_1 pdu_demo r \<noteq> ''4''" for r
    by (simp add: room_version_or_1_def get_room_version_def pdu_demo_def)
  then show ?thesis using format_check_types [OF pdu_demo_format] by blast
qed

theorem validated_pdu_sound_witness:
  "\<exists>auth_events v. authorize_event (pw_auth pdu_demo) pdu_ban_received auth_events v = Inr () \<and>
     load_auth_events (reads pdu_demo) (is_outlier pdu_ban_received)
       (unwrap_or [] (ev_auth_events pdu_ban_received)) = Inr auth_events"
  using validated_pdu_sound [OF pdu_demo_valid] pdu_demo_format pdu_demo_new by auto

text \<open>A world in which the only text ever signed is the empty object.\<close>

definition pdu_honest :: pdu_world where
  "pdu_honest = pdu_demo\<lparr>pw_crypto :=
     demo_crypto\<lparr>ed_verify := (\<lambda>pk m s. m = ''{}''), json_to_string := (\<lambda>v. Inr ''{}'')\<rparr>\<rparr>"

lemma pdu_honest_texts:
  assumes "pdu_canonical_json pdu_honest v = Inr ''{}''"
  shows "get v ''received_ts'' = None"
proof -
  have "compact (\<lambda>s. s) (\<lambda>n. ''0'') (canon v) = ''{}''"
    using assms pdu_canonical_json_compact [of pdu_honest "\<lambda>s. s" v] by (simp add: pdu_honest_def pdu_demo_def)
  moreover have "v = JObject ms \<Longrightarrow> ms = []" for ms
  proof -
    assume "v = JObject ms"
    moreover have "joined '','' xs = [] \<Longrightarrow> \<forall>x \<in> set xs. x \<noteq> [] \<Longrightarrow> xs = []" for xs
      by (induction xs rule: induct_list012) auto
    ultimately have "map (\<lambda>(k, v). k @ '':'' @ compact (\<lambda>s. s) (\<lambda>n. ''0'') v)
        (sort_key fst (map (\<lambda>(k, v). (k, canon v)) ms)) = []"
      using \<open>compact (\<lambda>s. s) (\<lambda>n. ''0'') (canon v) = ''{}''\<close> by (fastforce simp: case_prod_beta)
    then show "ms = []" unfolding sort_key_map_snd [of "\<lambda>k. canon"] by (simp flip: length_0_conv)
  qed
  ultimately show ?thesis by (cases v) (auto simp: get_def)
qed

lemma pdu_honest_new:
  "validate_format pdu_honest pdu_clocks (JObject []) = Inr pdu_ban_received"
  "check_event_deduplication pdu_honest pdu_ban_received = Inr New"
proof -
  have "validate_format pdu_honest pdu_clocks (JObject []) = validate_format pdu_demo pdu_clocks (JObject [])"
    by (simp add: validate_format_def validate_version_format_def room_version_or_1_def
        get_room_version_def pdu_honest_def pdu_demo_def)
  then show "validate_format pdu_honest pdu_clocks (JObject []) = Inr pdu_ban_received"
    by (simp add: pdu_demo_format)
  have "reads pdu_honest ''$ban-of-member-b'' = Inr None"
    using pdu_demo_reads(4) by (simp add: pdu_honest_def)
  then show "check_event_deduplication pdu_honest pdu_ban_received = Inr New"
    unfolding check_event_deduplication_def pdu_ban_id
    by (simp only:) (simp add: dedup_or_def room_version_or_1_def get_room_version_def hash_versions_def
        check_state_key_deduplication_def check_temporal_deduplication_def pdu_honest_def pdu_demo_defs)
qed

lemma pdu_honest_verifies:
  "verify_ed25519_signature (pw_crypto pdu_honest) signature m key = Inr () \<Longrightarrow> m = ''{}''"
  "verify_ed25519_signature (pw_crypto pdu_honest) (letters (replicate 64 CHR ''s'')) ''{}''
     (letters (replicate 32 CHR ''p'')) = Inr ()"
  by (auto simp: verify_ed25519_signature_def pdu_honest_def demo_crypto_def unletters_letters result_simps)

lemma pdu_honest_crypto:
  "validate_event_crypto (pw_crypto pdu_honest) now now' pdu_ban_received [''x''] [] = (Inr (), [])"
proof -
  have "to_canonical_json (json_to_string (pw_crypto pdu_honest)) (redact_event_for_signing pdu_ban_received) = Inr ''{}''"
    using canonicalize_succeeds(1) [of "{}" "[]" "redact_event_for_signing pdu_ban_received" 0]
    by (simp add: to_canonical_json_def pdu_honest_def redact_event_for_signing_def pdu_demo_defs opt_member_def
        null_or_def strings_json_def MAX_DEPTH_def MAX_MEMBERS_def)
  moreover have "public_key_query (pw_crypto pdu_honest) rows s k = Inr (Some (letters (replicate 32 CHR ''p'')))"
    for rows s k by (simp add: pdu_honest_def demo_crypto_def)
  ultimately show ?thesis
    by (simp add: validate_event_crypto_def validate_event_signatures_def canonical_for_crypto_def
        check_server_signatures_def object_or_empty_def signatures_json_def string_map_json_def
        pdu_ban_signatures fetch_remote_server_key_def pdu_honest_verifies(2) bindS_def liftS_def
        ensure_def validate_event_hash_def get_str_def)
qed

theorem received_pdu_rejected_witness:
  "\<exists>reason rows. validate_pdu pdu_honest pdu_clocks (JObject []) ''x'' [] =
     (Inr (Rejected ''$ban-of-member-b'' reason), rows)"
proof -
  let ?text = "remove_keys [''signatures'', ''unsigned''] (event_to_value pdu_ban_received)"
  have "\<exists>r rows. validate_pdu pdu_honest pdu_clocks (JObject []) ''x'' [] = (Inr r, rows)"
  proof -
    obtain v rows where v: "verify_event_signatures pdu_honest pdu_clocks pdu_ban_received ''x'' [] = (v, rows)"
      by (cases "verify_event_signatures pdu_honest pdu_clocks pdu_ban_received ''x'' []")
    have "v \<noteq> Inr ()"
    proof
      assume "v = Inr ()"
      with v verify_event_signatures_sound [of pdu_honest pdu_clocks pdu_ban_received "''x''" "[]" rows]
      have "pdu_canonical_json pdu_honest ?text = Inr ''{}''" using pdu_honest_verifies(1) by auto
      then have "get ?text ''received_ts'' = None" by (rule pdu_honest_texts)
      then show False by (simp add: event_to_value_def opt_member_def pdu_demo_defs)
    qed
    then show ?thesis using v
      by (cases v) (simp_all add: validate_pdu_def bindS_def liftS_def pdu_honest_new pdu_honest_crypto)
  qed
  then obtain r rows where r: "validate_pdu pdu_honest pdu_clocks (JObject []) ''x'' [] = (Inr r, rows)" by blast
  have "\<exists>reason. r = Rejected (ev_event_id pdu_ban_received) reason"
    by (rule received_pdu_rejected [where signed_texts = "{''{}''}", OF _ _ pdu_honest_new r])
      (use pdu_honest_verifies(1) pdu_honest_texts in auto)
  then show ?thesis using r pdu_ban_id by auto
qed

text \<open>A room of version 4, a printer that gives every value its own text, and a hash without collisions.\<close>

instance number :: countable by countable_datatype
instance json :: countable by countable_datatype

definition hashed_pdu :: json where
  "hashed_pdu = JObject [(''hashes'', JObject [])]"

definition unary :: "json \<Rightarrow> string" where
  "unary v = replicate (to_nat v) CHR ''x''"

definition unary_hash :: "string \<Rightarrow> string" where
  "unary_hash s = (if s = unary (canon (remove_keys [''signatures'', ''unsigned''] hashed_pdu))
                   then replicate 43 CHR ''a'' else replicate 100 CHR ''b'' @ s)"

definition pdu_v4 :: pdu_world where
  "pdu_v4 = pdu_demo
     \<lparr>pw_crypto := demo_crypto\<lparr>b64_encode_no_pad := unary_hash\<rparr>,
      entity_to_string := (\<lambda>v. Inr (unary v)),
      room_create_event := (\<lambda>r. Inr (Some (state_event ''m.room.create'' [] ''$create''
        [(''room_version'', JString ''4'')])))\<rparr>"

definition hashed_event :: event where
  "hashed_event = pdu_ban\<lparr>ev_event_id := CHR ''$'' # replicate 43 CHR ''a''\<rparr>"

theorem hashed_pdu_redacted_witness:
  "\<exists>reason. validate_event_hashes_with_redaction pdu_v4 hashed_event hashed_pdu =
     Inr (HashesRedacted (pdu_redact_event hashed_event ''4'' reason))"
proof -
  have v: "room_version_or_1 pdu_v4 r = ''4''" for r
    by (simp add: room_version_or_1_def get_room_version_def pdu_v4_def state_event_def new_event_def)
  have wf: "json_wf (remove_keys [''signatures'', ''unsigned''] hashed_pdu)" by (simp add: hashed_pdu_def)
  have "validate_room_v4_format pdu_v4 hashed_event hashed_pdu = Inr ()"
    using entity_computes_canon(1) [OF wf]
    by (simp add: validate_room_v4_format_def validate_event_hash_format_def compute_event_id_v4_def
        entity_canonical_json_def pdu_v4_def unary_hash_def hashed_event_def demo_crypto_def ensure_def
        pdu_demo_def pdu_ban_def state_event_def new_event_def)
  moreover have "u = v" if "entity_to_string pdu_v4 u = entity_to_string pdu_v4 v" for u v
    using that replicate_eq_replicate by (auto simp: pdu_v4_def unary_def)
  moreover have "s = t" if "b64_encode_no_pad (pw_crypto pdu_v4) (sha256 (pw_crypto pdu_v4) s) =
      b64_encode_no_pad (pw_crypto pdu_v4) (sha256 (pw_crypto pdu_v4) t)" for s t
  proof -
    have "replicate 43 CHR ''a'' \<noteq> replicate 100 CHR ''b'' @ u" for u
    proof
      assume "replicate 43 CHR ''a'' = replicate 100 CHR ''b'' @ u"
      then have "length (replicate 43 CHR ''a'') = length (replicate 100 CHR ''b'' @ u)" by (rule arg_cong)
      then show False by simp
    qed
    then have "unary_hash s = unary_hash t \<Longrightarrow> s = t"
      by (auto simp only: unary_hash_def split: if_splits dest: sym)
    with that show ?thesis by (simp add: pdu_v4_def demo_crypto_def)
  qed
  ultimately show ?thesis
    using hashed_pdu_redacted [of hashed_pdu pdu_v4 hashed_event] v
    by (simp add: hashed_pdu_def hash_versions_def)
qed

theorem canonical_texts_agree_witness:
  "pdu_canonical_json (pdu_demo\<lparr>pw_crypto := demo_crypto\<lparr>json_to_string := (\<lambda>v. Inr (compact (\<lambda>s. s) (\<lambda>n. ''0'') v))\<rparr>\<rparr>)
     (JObject [(''b'', JNull), (''a'', JArray [])]) = Inr ''{a:[],b:null}''"
proof -
  let ?w = "pdu_demo\<lparr>pw_crypto := demo_crypto\<lparr>json_to_string := (\<lambda>v. Inr (compact (\<lambda>s. s) (\<lambda>n. ''0'') v))\<rparr>\<rparr>"
  let ?v = "JObject [(''b'', JNull), (''a'', JArray [])]"
  have wf: "json_wf ?v" by simp
  have "canonicalize_value ?v = Inr (canon ?v)"
    using canonicalize_value_iff [OF wf] by (simp add: MAX_DEPTH_def MAX_MEMBERS_def)
  then have "to_canonical_json (json_to_string (pw_crypto ?w)) ?v = Inr ''{a:[],b:null}''"
    by (auto simp: to_canonical_json_def canonicalize_value_def result_simps)
  from canonical_texts_agree [OF wf this, of "\<lambda>s. s"] show ?thesis by (simp add: pdu_demo_def)
qed

end
