(* ===== verification/Sessions.thy ===== *)
theory Sessions
  imports Pdu_Validator
begin

text \<open>
  Access tokens and server authentication: \<open>server/src/auth/matrix_auth.rs\<close> and the session
  service \<open>server/src/auth/session_service.rs\<close> with the queries of the repositories
  \<open>session.rs\<close> and \<open>key_server.rs\<close> it runs. Encoding and checking of JSON Web Tokens, JSON printing
  and decoding, cryptography and the HTTP client are a record of functions (\<open>session_world\<close>). Clock
  readings and random values are arguments; times in tokens are seconds, dates are milliseconds.
\<close>

section \<open>Data\<close>

record matrix_access_token =
  at_token :: string
  at_user_id :: string
  at_device_id :: string
  at_expires_at :: "int option"

record matrix_server_auth =
  sa_server_name :: string
  sa_key_id :: string
  sa_signature :: string
  sa_expires_at :: "int option"

record server_signing_key =
  sg_key_id :: string
  sg_server_name :: string
  sg_private_key :: string
  sg_public_key :: string
  sg_created_at :: int
  sg_expires_at :: "int option"
  sg_is_active :: bool

datatype matrix_auth = User matrix_access_token | Server matrix_server_auth | Anonymous

record jwt_claims =
  jc_iss :: "string option"
  jc_sub :: "string option"
  jc_aud :: "string option"
  jc_exp :: "int option"
  jc_iat :: "int option"
  jc_nbf :: "int option"
  jc_jti :: "string option"
  jc_ns :: "string option"
  jc_db :: "string option"
  jc_ac :: "string option"
  jc_id :: "string option"
  jc_roles :: "string list option"
  jc_matrix_user_id :: "string option"
  jc_matrix_device_id :: "string option"
  jc_matrix_access_token :: "string option"
  jc_matrix_refresh_token :: "string option"
  jc_matrix_server_name :: "string option"
  jc_custom_claims :: "string \<rightharpoonup> json"

record user_access_token =
  ut_token :: string
  ut_user_id :: string
  ut_device_id :: string
  ut_created_at :: int
  ut_expires_at :: "int option"

text \<open>
  \<open>jwt_decode now t\<close> checks the signature, the expiry and the start of validity of a token at the
  time \<open>now\<close>.
\<close>

record session_world =
  sw_pdu :: pdu_world
  sw_from_slice :: "string \<Rightarrow> json option"
  sw_to_uppercase :: "string \<Rightarrow> string"
  jwt_encode :: "jwt_claims \<Rightarrow> string + string"
  jwt_decode :: "int \<Rightarrow> string \<Rightarrow> string + jwt_claims"
  sw_token_failure :: "repository_error option"
  sw_missing_field :: string
  sw_signing_failure :: "repository_error option"
  sw_get_keys :: "string \<Rightarrow> string + key_response"
  sw_ed_public :: "string \<Rightarrow> string"

abbreviation sw_crypto :: "session_world \<Rightarrow> crypto" where
  "sw_crypto w \<equiv> pw_crypto (sw_pdu w)"

record session_clocks =
  sc_key_expiry :: int
  sc_key_cached :: int
  sc_key_fetched :: int
  sc_authenticated :: int

section \<open>Authentication contexts\<close>

definition token_is_expired :: "int \<Rightarrow> matrix_access_token \<Rightarrow> bool" where
  "token_is_expired now t = (case at_expires_at t of Some expires_at \<Rightarrow> now > expires_at | None \<Rightarrow> False)"

fun auth_user_id :: "matrix_auth \<Rightarrow> string option" where
  "auth_user_id (User t) = Some (at_user_id t)"
| "auth_user_id _ = None"

fun auth_server_name :: "matrix_auth \<Rightarrow> string option" where
  "auth_server_name (Server s) = Some (sa_server_name s)"
| "auth_server_name _ = None"

fun can_access :: "int \<Rightarrow> matrix_auth \<Rightarrow> string \<Rightarrow> bool" where
  "can_access now (User t) _ = (case at_expires_at t of None \<Rightarrow> True | Some exp \<Rightarrow> exp > now)"
| "can_access now (Server s) _ = (case sa_expires_at s of None \<Rightarrow> True | Some exp \<Rightarrow> exp > now)"
| "can_access now Anonymous _ = False"

fun auth_is_expired :: "int \<Rightarrow> matrix_auth \<Rightarrow> bool" where
  "auth_is_expired now (User t) = (case at_expires_at t of None \<Rightarrow> False | Some exp \<Rightarrow> exp \<le> now)"
| "auth_is_expired now (Server s) = (case sa_expires_at s of None \<Rightarrow> False | Some exp \<Rightarrow> exp \<le> now)"
| "auth_is_expired now Anonymous = False"

fun auth_access_token :: "matrix_auth \<Rightarrow> string option" where
  "auth_access_token (User t) = Some (at_token t)"
| "auth_access_token _ = None"

fun auth_device_id :: "matrix_auth \<Rightarrow> string option" where
  "auth_device_id (User t) = Some (at_device_id t)"
| "auth_device_id _ = None"

fun auth_signature :: "matrix_auth \<Rightarrow> string option" where
  "auth_signature (Server s) = Some (sa_signature s)"
| "auth_signature _ = None"

section \<open>Claims\<close>

definition for_user :: "int \<Rightarrow> string \<Rightarrow> string \<Rightarrow> string \<Rightarrow> string option \<Rightarrow> int \<Rightarrow> jwt_claims" where
  "for_user now user_id device_id access_token refresh_token expires_in =
     \<lparr>jc_iss = Some ''matrix-homeserver'', jc_sub = Some user_id, jc_aud = None,
      jc_exp = Some (now + expires_in), jc_iat = Some now, jc_nbf = None, jc_jti = None,
      jc_ns = Some ''matrix'', jc_db = Some ''homeserver'', jc_ac = Some ''matrix_client'',
      jc_id = Some user_id, jc_roles = Some [''user''], jc_matrix_user_id = Some user_id,
      jc_matrix_device_id = Some device_id, jc_matrix_access_token = Some access_token,
      jc_matrix_refresh_token = refresh_token, jc_matrix_server_name = None,
      jc_custom_claims = Map.empty\<rparr>"

definition for_server :: "int \<Rightarrow> string \<Rightarrow> string \<Rightarrow> int \<Rightarrow> jwt_claims" where
  "for_server now server_name key_id expires_in =
     \<lparr>jc_iss = Some server_name, jc_sub = Some server_name, jc_aud = None,
      jc_exp = Some (now + expires_in), jc_iat = Some now, jc_nbf = None, jc_jti = None,
      jc_ns = Some ''matrix'', jc_db = Some ''federation'', jc_ac = Some ''matrix_server'',
      jc_id = Some server_name, jc_roles = Some [''server''], jc_matrix_user_id = None,
      jc_matrix_device_id = None, jc_matrix_access_token = None,
      jc_matrix_refresh_token = None, jc_matrix_server_name = Some server_name,
      jc_custom_claims = [''key_id'' \<mapsto> JString key_id]\<rparr>"

definition to_matrix_auth :: "jwt_claims \<Rightarrow> matrix_auth_error + matrix_auth" where
  "to_matrix_auth c =
     (case jc_matrix_server_name c of
        Some server_name \<Rightarrow>
          Inr (Server \<lparr>sa_server_name = server_name,
                 sa_key_id = unwrap_or ''default'' (Option.bind (jc_custom_claims c ''key_id'') as_str),
                 sa_signature = [], sa_expires_at = jc_exp c\<rparr>)
      | None \<Rightarrow>
          (case jc_matrix_user_id c of
             Some user_id \<Rightarrow>
               bindR (ok_or (jc_matrix_device_id c) A_InvalidXMatrixFormat) (\<lambda>device_id.
               bindR (ok_or (jc_matrix_access_token c) A_InvalidXMatrixFormat) (\<lambda>access_token.
               Inr (User \<lparr>at_token = access_token, at_user_id = user_id, at_device_id = device_id,
                          at_expires_at = jc_exp c\<rparr>)))
           | None \<Rightarrow> Inr Anonymous))"

section \<open>Tokens\<close>

definition create_user_token ::
  "session_world \<Rightarrow> int \<Rightarrow> string \<Rightarrow> string \<Rightarrow> string \<Rightarrow> string option \<Rightarrow> int \<Rightarrow> matrix_auth_error + string" where
  "create_user_token w now user_id device_id access_token refresh_token expires_in =
     map_err A_JwtError (jwt_encode w (for_user now user_id device_id access_token refresh_token expires_in))"

definition create_server_token ::
  "session_world \<Rightarrow> int \<Rightarrow> string \<Rightarrow> string \<Rightarrow> int \<Rightarrow> matrix_auth_error + string" where
  "create_server_token w now server_name key_id expires_in =
     map_err A_JwtError (jwt_encode w (for_server now server_name key_id expires_in))"

definition validate_token :: "session_world \<Rightarrow> int \<Rightarrow> string \<Rightarrow> matrix_auth_error + jwt_claims" where
  "validate_token w now t = map_err A_JwtError (jwt_decode w now t)"

definition create_user_session ::
  "int \<Rightarrow> string \<Rightarrow> string \<Rightarrow> string \<Rightarrow> string option \<Rightarrow> matrix_auth_error + matrix_access_token" where
  "create_user_session now user_id device_id access_token refresh_token =
     bindR (to_matrix_auth (for_user now user_id device_id access_token refresh_token 3600)) (\<lambda>auth.
     case auth of User access_token_info \<Rightarrow> Inr access_token_info | _ \<Rightarrow> Inl A_InvalidXMatrixFormat)"

definition create_server_session ::
  "int \<Rightarrow> string \<Rightarrow> string \<Rightarrow> string \<Rightarrow> matrix_auth_error + matrix_server_auth" where
  "create_server_session now server_name key_id signature =
     bindR (ensure (\<not> (signature = [] \<or> length signature < 32)) A_InvalidSignature) (\<lambda>_.
     bindR (ensure (prefix ''ed25519:'' key_id) A_InvalidSignature) (\<lambda>_.
     bindR (to_matrix_auth (for_server now server_name key_id 300)) (\<lambda>auth.
     case auth of Server server_auth \<Rightarrow> Inr server_auth | _ \<Rightarrow> Inl A_InvalidXMatrixFormat)))"

text \<open>
  The query of the repository selects three columns of the rows of a token that are not expired;
  the derived decoder of \<open>UserAccessToken\<close> then reads the struct from what was selected, and its
  fields other than \<open>expires_at\<close> are required.
\<close>

definition token_columns :: "user_access_token \<Rightarrow> members" where
  "token_columns r =
     [(''token'', JString (ut_token r)), (''user_id'', JString (ut_user_id r)),
      (''device_id'', JString (ut_device_id r)), (''created_at'', int_json (ut_created_at r)),
      (''expires_at'', null_or int_json (ut_expires_at r))]"

definition select_columns :: "string list \<Rightarrow> members \<Rightarrow> members" where
  "select_columns columns row = filter (\<lambda>(k, _). k \<in> set columns) row"

definition user_access_token_of :: "members \<Rightarrow> user_access_token option" where
  "user_access_token_of ms =
     Option.bind (get_str ms ''token'') (\<lambda>t.
     Option.bind (get_str ms ''user_id'') (\<lambda>user_id.
     Option.bind (get_str ms ''device_id'') (\<lambda>device_id.
     Option.bind (get_i64 ms ''created_at'') (\<lambda>created_at.
     Some \<lparr>ut_token = t, ut_user_id = user_id, ut_device_id = device_id, ut_created_at = created_at,
           ut_expires_at = get_i64 ms ''expires_at''\<rparr>))))"

definition get_user_access_token ::
  "session_world \<Rightarrow> int \<Rightarrow> string \<Rightarrow> user_access_token list \<Rightarrow> repository_error + user_access_token option" where
  "get_user_access_token w now t rows =
     (case sw_token_failure w of
        Some e \<Rightarrow> Inl e
      | None \<Rightarrow>
          bindR (collectR (map (\<lambda>r. ok_or (user_access_token_of
                     (select_columns [''user_id'', ''device_id'', ''expires_at''] (token_columns r)))
                     (Database (sw_missing_field w)))
                   (take 1 (filter (\<lambda>r. ut_token r = t \<and>
                      (case ut_expires_at r of None \<Rightarrow> True | Some x \<Rightarrow> x > now)) rows)))) (\<lambda>token_records.
          Inr (case token_records of [] \<Rightarrow> None | r # _ \<Rightarrow> Some r)))"

definition validate_opaque_token ::
  "session_world \<Rightarrow> int \<Rightarrow> string \<Rightarrow> user_access_token list \<Rightarrow> matrix_auth_error + matrix_access_token" where
  "validate_opaque_token w now access_token rows =
     (case get_user_access_token w now access_token rows of
        Inr (Some r) \<Rightarrow> Inr \<lparr>at_token = access_token, at_user_id = ut_user_id r,
                              at_device_id = ut_device_id r,
                              at_expires_at = map_option (\<lambda>ms. ms div 1000) (ut_expires_at r)\<rparr>
      | Inr None \<Rightarrow> Inl A_UnknownToken
      | Inl e \<Rightarrow> Inl (A_DatabaseError (''Token validation failed: '' @ repository_error_text e)))"

text \<open>
  \<open>now\<close> is read by the token library (in seconds, and in milliseconds by the query) and \<open>now'\<close> by
  the check that follows it.
\<close>

definition validate_access_token ::
  "session_world \<Rightarrow> int \<Rightarrow> int \<Rightarrow> string \<Rightarrow> user_access_token list \<Rightarrow> matrix_auth_error + matrix_access_token" where
  "validate_access_token w now now' access_token rows =
     (if prefix ''syt_'' access_token then validate_opaque_token w (now * 1000) access_token rows
      else
        bindR (validate_token w now access_token) (\<lambda>claims.
        bindR (ok_or (jc_matrix_user_id claims) A_InvalidXMatrixFormat) (\<lambda>user_id.
        bindR (ok_or (jc_matrix_device_id claims) A_InvalidXMatrixFormat) (\<lambda>device_id.
        bindR (ensure (starts_with user_id CHR ''@'') A_InvalidXMatrixFormat) (\<lambda>_.
        bindR (ensure (\<not> (case jc_exp claims of Some exp \<Rightarrow> exp \<le> now' | None \<Rightarrow> False)) A_SessionExpired) (\<lambda>_.
        bindR (to_matrix_auth claims) (\<lambda>auth.
        case auth of User access_token_info \<Rightarrow> Inr access_token_info | _ \<Rightarrow> Inl A_InvalidXMatrixFormat)))))))"

definition refresh_token ::
  "session_world \<Rightarrow> int \<Rightarrow> int \<Rightarrow> int \<Rightarrow> string \<Rightarrow> string \<Rightarrow> string \<Rightarrow> matrix_auth_error + string \<times> string" where
  "refresh_token w now now' now'' access_token_id refresh_token_id t =
     bindR (validate_token w now t) (\<lambda>claims.
     bindR (ok_or (jc_matrix_user_id claims) A_UnknownToken) (\<lambda>user_id.
     bindR (ok_or (jc_matrix_device_id claims) A_UnknownToken) (\<lambda>device_id.
     bindR (create_user_token w now' user_id device_id access_token_id (Some refresh_token_id) 3600) (\<lambda>new_access_jwt.
     bindR (create_user_token w now'' user_id device_id access_token_id (Some refresh_token_id) 2592000) (\<lambda>new_refresh_jwt.
     Inr (new_access_jwt, new_refresh_jwt))))))"

definition create_access_token ::
  "session_world \<Rightarrow> int \<Rightarrow> string \<Rightarrow> string \<Rightarrow> string \<Rightarrow> matrix_auth_error + string" where
  "create_access_token w now token_id user_id device_id =
     create_user_token w now user_id device_id token_id None 3600"

section \<open>Server signatures\<close>

text \<open>Canonical JSON of the service: keys sorted, each value printed in turn.\<close>

fun session_canonical_json :: "session_world \<Rightarrow> json \<Rightarrow> matrix_auth_error + string" where
  "session_canonical_json w JNull = Inr ''null''"
| "session_canonical_json w (JBool b) = Inr (if b then ''true'' else ''false'')"
| "session_canonical_json w (JNumber n) = Inr (number_text (sw_pdu w) n)"
| "session_canonical_json w (JString s) =
     map_err (\<lambda>_. A_InvalidSignature) (quote_string (sw_pdu w) s)"
| "session_canonical_json w (JArray xs) =
     bindR (collectR (map (session_canonical_json w) xs)) (\<lambda>elements.
     Inr (''['' @ joined '','' elements @ '']''))"
| "session_canonical_json w (JObject ms) =
     bindR (collectR (map snd (sort_key fst (map (\<lambda>(k, v). (k,
       bindR (map_err (\<lambda>_. A_InvalidSignature) (quote_string (sw_pdu w) k)) (\<lambda>key_json.
       bindR (session_canonical_json w v) (\<lambda>value_json.
       Inr (key_json @ '':'' @ value_json))))) ms)))) (\<lambda>pairs.
     Inr (''{'' @ joined '','' pairs @ ''}''))"

definition build_canonical_json ::
  "session_world \<Rightarrow> string \<Rightarrow> string \<Rightarrow> string \<Rightarrow> string \<Rightarrow> string \<Rightarrow> matrix_auth_error + string" where
  "build_canonical_json w method uri origin destination content =
     (let request = [(''method'', JString (sw_to_uppercase w method)), (''uri'', JString uri),
                     (''origin'', JString origin), (''destination'', JString destination)] in
      bindR (if content = [] then Inr request
             else bindR (ok_or (sw_from_slice w content) A_InvalidSignature) (\<lambda>content_json.
                  Inr (request @ [(''content'', content_json)]))) (\<lambda>canonical_request.
      session_canonical_json w (JObject canonical_request)))"

text \<open>The loop over the signatures of a key response.\<close>

fun session_key_signature_verifies ::
  "session_world \<Rightarrow> string \<Rightarrow> members \<Rightarrow> members \<Rightarrow> matrix_auth_error + bool" where
  "session_key_signature_verifies w canonical_json verify_keys [] = Inr False"
| "session_key_signature_verifies w canonical_json verify_keys ((key_id, signature) # sigs) =
     bindR (ok_or (as_str signature) (A_DatabaseError ''Server key signature must be a string'')) (\<lambda>signature_str.
     case Option.bind (map_of verify_keys key_id) (\<lambda>key_data. Option.bind (get key_data ''key'') as_str) of
       None \<Rightarrow> session_key_signature_verifies w canonical_json verify_keys sigs
     | Some public_key \<Rightarrow>
         if is_ok (verify_ed25519_signature (sw_crypto w) signature_str canonical_json public_key)
         then Inr True
         else session_key_signature_verifies w canonical_json verify_keys sigs)"

definition session_verify_server_key_signatures ::
  "session_world \<Rightarrow> json \<Rightarrow> string \<Rightarrow> matrix_auth_error + unit" where
  "session_verify_server_key_signatures w response server_name =
     bindR (ok_or (Option.bind (get response ''signatures'') as_object)
              (A_DatabaseError ''Server key response missing signatures'')) (\<lambda>signatures.
     bindR (ok_or (Option.bind (map_of signatures server_name) as_object)
              (A_DatabaseError (''Server key response missing signatures from '' @ server_name))) (\<lambda>server_signatures.
     bindR (ok_or (Option.bind (get response ''verify_keys'') as_object)
              (A_DatabaseError ''Server key response missing verify_keys for signature verification'')) (\<lambda>verify_keys.
     bindR (session_canonical_json w (remove_keys [''signatures''] response)) (\<lambda>canonical_json.
     bindR (session_key_signature_verifies w canonical_json verify_keys server_signatures) (\<lambda>verified.
     ensure verified
       (A_DatabaseError (''Failed to verify any server key signatures from '' @ server_name)))))))"

definition session_fetch_remote_server_key ::
  "session_world \<Rightarrow> session_clocks \<Rightarrow> string \<Rightarrow> string \<Rightarrow> matrix_auth_error + string" where
  "session_fetch_remote_server_key w ck server_name key_id =
     bindR (map_err (\<lambda>m. A_DatabaseError (''Failed to fetch server keys from '' @ server_name @ '': '' @ m))
              (sw_get_keys w (''https://'' @ server_name @ ''/_matrix/key/v2/server''))) (\<lambda>response.
     bindR (ensure (kh_success response) (A_DatabaseError
              (''Server key request failed with status: '' @ kh_status response @ '' for '' @ server_name))) (\<lambda>_.
     bindR (map_err (\<lambda>m. A_DatabaseError (''Failed to parse server key response: '' @ m))
              (kh_body response)) (\<lambda>body.
     bindR (ok_or (Option.bind (get body ''server_name'') as_str)
              (A_DatabaseError ''Server key response missing server_name'')) (\<lambda>response_server_name.
     bindR (ensure (response_server_name = server_name) (A_DatabaseError
              (''Server key response server name mismatch: expected '' @ server_name @ '', got '' @
               response_server_name))) (\<lambda>_.
     let valid_until_ts = unwrap_or 0 (Option.bind (get body ''valid_until_ts'') as_i64) in
     bindR (ensure (\<not> (valid_until_ts > 0 \<and> sc_key_expiry ck > valid_until_ts))
              (A_DatabaseError (''Server key response has expired for '' @ server_name))) (\<lambda>_.
     bindR (ok_or (Option.bind (get body ''verify_keys'') as_object)
              (A_DatabaseError ''Server key response missing verify_keys'')) (\<lambda>verify_keys.
     bindR (ok_or (Option.bind (map_of verify_keys key_id) as_object)
              (A_DatabaseError (''Requested key '' @ key_id @ '' not found in server response''))) (\<lambda>key_data.
     bindR (ok_or (get_str key_data ''key'')
              (A_DatabaseError (''Public key data missing for key '' @ key_id))) (\<lambda>public_key.
     bindR (session_verify_server_key_signatures w body server_name) (\<lambda>_.
     Inr public_key))))))))))"

definition session_cache_server_key ::
  "session_world \<Rightarrow> session_clocks \<Rightarrow> string \<Rightarrow> string \<Rightarrow> string \<Rightarrow> key_row list \<Rightarrow>
   (matrix_auth_error + unit) \<times> key_row list" where
  "session_cache_server_key w ck server_name key_id public_key rows =
     (let row = \<lparr>kr_server_name = server_name, kr_key_id = key_id, kr_public_key = public_key,
                 kr_fetched_at = sc_key_fetched ck, kr_is_active = True,
                 kr_expires_at = sc_key_cached ck + 24 * 60 * 60 * 1000\<rparr>
      in (case public_key_create (sw_crypto w) row of
            Inl e \<Rightarrow> (Inl (A_DatabaseError (''Failed to cache server key: '' @ repository_error_text e)), rows)
          | Inr _ \<Rightarrow> (Inr (), rows @ [row])))"

definition session_get_server_public_key ::
  "session_world \<Rightarrow> session_clocks \<Rightarrow> string \<Rightarrow> string \<Rightarrow> key_row list \<Rightarrow> (matrix_auth_error + string) \<times> key_row list"
where
  "session_get_server_public_key w ck server_name key_id rows =
     (case public_key_query (sw_crypto w) rows server_name key_id of
        Inl e \<Rightarrow> (Inl (A_DatabaseError (''Key query failed: '' @ repository_error_text e)), rows)
      | Inr (Some public_key) \<Rightarrow> (Inr public_key, rows)
      | Inr None \<Rightarrow>
          bindS (liftS (session_fetch_remote_server_key w ck server_name key_id)) (\<lambda>fetched_key.
          bindS (session_cache_server_key w ck server_name key_id fetched_key) (\<lambda>_.
          liftS (Inr fetched_key))) rows)"

definition validate_server_signature ::
  "session_world \<Rightarrow> session_clocks \<Rightarrow> string \<Rightarrow> string \<Rightarrow> string \<Rightarrow> string \<Rightarrow> string \<Rightarrow> string \<Rightarrow> key_row list \<Rightarrow>
   (matrix_auth_error + matrix_server_auth) \<times> key_row list" where
  "validate_server_signature w ck server_name key_id signature request_method request_uri request_body =
     bindS (session_get_server_public_key w ck server_name key_id) (\<lambda>public_key.
     bindS (liftS (build_canonical_json w request_method request_uri server_name
              (homeserver_name (sw_crypto w)) request_body)) (\<lambda>canonical_json.
     bindS (liftS (verify_ed25519_signature (sw_crypto w) signature canonical_json public_key)) (\<lambda>_.
     liftS (Inr \<lparr>sa_server_name = server_name, sa_key_id = key_id, sa_signature = signature,
                 sa_expires_at = Some (sc_authenticated ck + 5 * 60)\<rparr>))))"

section \<open>Keys of this server\<close>

definition key_usable :: "int \<Rightarrow> server_signing_key \<Rightarrow> bool" where
  "key_usable now k \<longleftrightarrow>
     sg_is_active k \<and> (case sg_expires_at k of None \<Rightarrow> True | Some x \<Rightarrow> x > now)"

text \<open>\<open>ORDER BY created_at DESC LIMIT 1\<close>.\<close>

definition get_server_signing_key_by_server ::
  "session_world \<Rightarrow> int \<Rightarrow> string \<Rightarrow> server_signing_key list \<Rightarrow> repository_error + server_signing_key option" where
  "get_server_signing_key_by_server w now server_name ks =
     (case sw_signing_failure w of
        Some e \<Rightarrow> Inl e
      | None \<Rightarrow>
          Inr (case sort_key (\<lambda>k. - sg_created_at k)
                      (filter (\<lambda>k. sg_server_name k = server_name \<and> key_usable now k) ks) of
                 [] \<Rightarrow> None
               | k # _ \<Rightarrow> Some k))"

definition get_private_key_for_signing ::
  "int \<Rightarrow> string \<Rightarrow> server_signing_key list \<Rightarrow> string option" where
  "get_private_key_for_signing now key_id ks =
     map_option sg_private_key (find (\<lambda>k. sg_key_id k = key_id \<and> key_usable now k) ks)"

text \<open>The record is created under its key identifier, which fails when the identifier is taken.\<close>

definition create_server_signing_key_record ::
  "session_world \<Rightarrow> server_signing_key \<Rightarrow> server_signing_key list \<Rightarrow>
   (repository_error + unit) \<times> server_signing_key list" where
  "create_server_signing_key_record w k ks =
     (case sw_signing_failure w of
        Some e \<Rightarrow> (Inl e, ks)
      | None \<Rightarrow>
          if sg_key_id k \<in> set (map sg_key_id ks)
          then (Inl (Database (''Database record already exists'')), ks)
          else (Inr (), ks @ [k]))"

definition generate_and_store_signing_key ::
  "session_world \<Rightarrow> int \<Rightarrow> string \<Rightarrow> string \<Rightarrow> server_signing_key list \<Rightarrow>
   (repository_error + server_signing_key) \<times> server_signing_key list" where
  "generate_and_store_signing_key w now seed server_name =
     (let verifying_key = sw_ed_public w seed;
          record_of_key = \<lparr>sg_key_id = ''ed25519:'' @ b64_encode (sw_crypto w) (take 8 verifying_key),
            sg_server_name = server_name, sg_private_key = b64_encode (sw_crypto w) seed,
            sg_public_key = b64_encode (sw_crypto w) verifying_key, sg_created_at = now,
            sg_expires_at = Some (now + 365 * 24 * 60 * 60 * 1000), sg_is_active = True\<rparr>
      in bindS (create_server_signing_key_record w record_of_key) (\<lambda>_. liftS (Inr record_of_key)))"

definition generate_server_signing_key ::
  "session_world \<Rightarrow> int \<Rightarrow> string \<Rightarrow> string \<Rightarrow> server_signing_key list \<Rightarrow>
   (matrix_auth_error + server_signing_key) \<times> server_signing_key list" where
  "generate_server_signing_key w now seed server_name ks =
     (case generate_and_store_signing_key w now seed server_name ks of
        (Inr k, ks') \<Rightarrow> (Inr k, ks')
      | (Inl e, ks') \<Rightarrow>
          (Inl (A_DatabaseError (''Failed to generate server signing key: '' @ repository_error_text e)), ks'))"

definition get_server_signing_key ::
  "session_world \<Rightarrow> int \<Rightarrow> int \<Rightarrow> string \<Rightarrow> string \<Rightarrow> server_signing_key list \<Rightarrow>
   (matrix_auth_error + server_signing_key) \<times> server_signing_key list" where
  "get_server_signing_key w now now' seed server_name ks =
     (case get_server_signing_key_by_server w now server_name ks of
        Inr (Some k) \<Rightarrow> (Inr k, ks)
      | Inr None \<Rightarrow> generate_server_signing_key w now' seed server_name ks
      | Inl e \<Rightarrow>
          (Inl (A_DatabaseError (''Failed to query server signing key: '' @ repository_error_text e)), ks))"

section \<open>What the token library promises\<close>

text \<open>
  The documented behaviour of the library for tokens with an expiry and neither a start of validity
  nor an audience: a token that was issued decodes to its claims until sixty seconds (the leeway)
  after its expiry, and not later.
\<close>

definition jwt_laws :: "session_world \<Rightarrow> bool" where
  "jwt_laws w \<longleftrightarrow>
     (\<forall>c t x now. jwt_encode w c = Inr t \<and> jc_exp c = Some x \<and> jc_nbf c = None \<and> jc_aud c = None \<longrightarrow>
        (if now \<le> x + 60 then jwt_decode w now t = Inr c else \<not> is_ok (jwt_decode w now t)))"

lemma user_token_decodes:
  assumes "jwt_laws w" and "create_user_token w t0 u d a r l = Inr t"
  shows "now \<le> t0 + l + 60 \<Longrightarrow> validate_token w now t = Inr (for_user t0 u d a r l)"
    and "now > t0 + l + 60 \<Longrightarrow> \<not> is_ok (validate_token w now t)"
proof -
  have "jwt_encode w (for_user t0 u d a r l) = Inr t"
    using assms(2) by (simp add: create_user_token_def result_simps)
  then have *: "if now \<le> t0 + l + 60 then jwt_decode w now t = Inr (for_user t0 u d a r l)
      else \<not> is_ok (jwt_decode w now t)"
    using assms(1)[unfolded jwt_laws_def, rule_format, of "for_user t0 u d a r l" t "t0 + l" now]
    by (simp add: for_user_def)
  show "now \<le> t0 + l + 60 \<Longrightarrow> validate_token w now t = Inr (for_user t0 u d a r l)"
    and "now > t0 + l + 60 \<Longrightarrow> \<not> is_ok (validate_token w now t)"
    using * by (auto simp: validate_token_def is_ok_iff result_simps)
qed

lemma user_token_auth:
  "to_matrix_auth (for_user t0 u d a r l) =
     Inr (User \<lparr>at_token = a, at_user_id = u, at_device_id = d, at_expires_at = Some (t0 + l)\<rparr>)"
  by (simp add: to_matrix_auth_def for_user_def)

lemma user_token_validates:
  assumes "jwt_laws w" and "create_user_token w t0 u d a r l = Inr t"
    and "starts_with u CHR ''@''" and "\<not> prefix ''syt_'' t"
  shows "now < t0 + l \<Longrightarrow> now' < t0 + l \<Longrightarrow> validate_access_token w now now' t rows =
      Inr \<lparr>at_token = a, at_user_id = u, at_device_id = d, at_expires_at = Some (t0 + l)\<rparr>"
    and "now' \<ge> t0 + l \<Longrightarrow> \<not> is_ok (validate_access_token w now now' t rows)"
proof -
  have d: "validate_access_token w now now' t rows =
      (if now' < t0 + l then Inr \<lparr>at_token = a, at_user_id = u, at_device_id = d, at_expires_at = Some (t0 + l)\<rparr>
       else Inl A_SessionExpired)" if "now \<le> t0 + l + 60"
    using user_token_decodes(1) [OF assms(1,2) that] assms(3,4) user_token_auth [of t0 u d a r l]
    by (simp add: validate_access_token_def for_user_def ensure_def)
  have l: "\<not> is_ok (validate_access_token w now now' t rows)" if "now > t0 + l + 60"
    using user_token_decodes(2) [OF assms(1,2) that] assms(4)
    by (auto simp: validate_access_token_def is_ok_iff result_simps)
  show "now < t0 + l \<Longrightarrow> now' < t0 + l \<Longrightarrow> validate_access_token w now now' t rows =
      Inr \<lparr>at_token = a, at_user_id = u, at_device_id = d, at_expires_at = Some (t0 + l)\<rparr>"
    using d by simp
  show "now' \<ge> t0 + l \<Longrightarrow> \<not> is_ok (validate_access_token w now now' t rows)"
    using d l by (cases "now \<le> t0 + l + 60") auto
qed

text \<open>
  C34. The life of an access token: until an hour after it was issued the session service accepts it for
  the user and the device it was issued for, and from then on it is refused, leeway or not.
\<close>

theorem access_token_lifecycle:
  assumes "jwt_laws w" and "create_access_token w t0 token_id user_id device_id = Inr t"
    and "starts_with user_id CHR ''@''" and "\<not> prefix ''syt_'' t"
  shows "(now < t0 + 3600 \<and> now' < t0 + 3600 \<longrightarrow> validate_access_token w now now' t rows =
       Inr \<lparr>at_token = token_id, at_user_id = user_id, at_device_id = device_id,
            at_expires_at = Some (t0 + 3600)\<rparr>) \<and>
     (now' \<ge> t0 + 3600 \<longrightarrow> \<not> is_ok (validate_access_token w now now' t rows))"
proof -
  have "create_user_token w t0 user_id device_id token_id None 3600 = Inr t"
    using assms(2) by (simp add: create_access_token_def)
  from user_token_validates [OF assms(1) this assms(3,4)] show ?thesis by blast
qed

text \<open>
  The refresh of the session service takes any valid token of a user for a refresh token: an access
  token, issued for an hour, is exchanged for a token that the service accepts as an access token
  of the same user for thirty days, and the exchange can be repeated.
\<close>

theorem access_token_refreshes:
  assumes "jwt_laws w" and "\<And>issued l. is_ok (create_user_token w issued user_id device_id access_id (Some refresh_id) l)"
    and "create_access_token w t0 token_id user_id device_id = Inr t" and "now \<le> t0 + 3660"
    and "starts_with user_id CHR ''@''"
  shows "\<exists>a r. refresh_token w now now1 now2 access_id refresh_id t = Inr (a, r) \<and>
     (\<not> prefix ''syt_'' r \<longrightarrow> (\<forall>later < now2 + 30 * 24 * 60 * 60. validate_access_token w later later r rows =
        Inr \<lparr>at_token = access_id, at_user_id = user_id, at_device_id = device_id,
             at_expires_at = Some (now2 + 30 * 24 * 60 * 60)\<rparr>))"
proof -
  have c: "validate_token w now t = Inr (for_user t0 user_id device_id token_id None 3600)"
    using user_token_decodes(1) [OF assms(1)] assms(3,4) by (simp add: create_access_token_def)
  obtain a where a: "create_user_token w now1 user_id device_id access_id (Some refresh_id) 3600 = Inr a"
    using assms(2) by (force simp: is_ok_iff)
  obtain r where r: "create_user_token w now2 user_id device_id access_id (Some refresh_id) 2592000 = Inr r"
    using assms(2) by (force simp: is_ok_iff)
  have "refresh_token w now now1 now2 access_id refresh_id t = Inr (a, r)"
    using c a r by (simp add: refresh_token_def for_user_def)
  then show ?thesis using user_token_validates(1) [OF assms(1) r assms(5)] by auto
qed

text \<open>
  The query for an opaque token selects three columns, and its result is decoded into a struct that
  needs five: a stored token is answered with a database error, any other token is unknown.
\<close>

lemma selected_token_columns:
  "user_access_token_of (select_columns [''user_id'', ''device_id'', ''expires_at''] (token_columns r)) = None"
  by (simp add: user_access_token_of_def select_columns_def token_columns_def get_str_def)

lemma opaque_token_result:
  "validate_opaque_token w now t rows =
     (case sw_token_failure w of
        Some e \<Rightarrow> Inl (A_DatabaseError (''Token validation failed: '' @ repository_error_text e))
      | None \<Rightarrow>
          if \<exists>r \<in> set rows. ut_token r = t \<and> (case ut_expires_at r of None \<Rightarrow> True | Some x \<Rightarrow> x > now)
          then Inl (A_DatabaseError (''Token validation failed: '' @
                 repository_error_text (Database (sw_missing_field w))))
          else Inl A_UnknownToken)"
proof (cases "filter (\<lambda>r. ut_token r = t \<and> (case ut_expires_at r of None \<Rightarrow> True | Some x \<Rightarrow> x > now)) rows")
  case Nil
  then have "\<not> (\<exists>r \<in> set rows. ut_token r = t \<and> (case ut_expires_at r of None \<Rightarrow> True | Some x \<Rightarrow> x > now))"
    by (auto simp: filter_empty_conv)
  with Nil show ?thesis
    by (simp add: validate_opaque_token_def get_user_access_token_def split: option.split)
next
  case (Cons r rs)
  then have "r \<in> set (filter (\<lambda>r. ut_token r = t \<and> (case ut_expires_at r of None \<Rightarrow> True | Some x \<Rightarrow> x > now)) rows)"
    by simp
  then have "\<exists>r \<in> set rows. ut_token r = t \<and> (case ut_expires_at r of None \<Rightarrow> True | Some x \<Rightarrow> x > now)"
    by auto
  with Cons show ?thesis
    by (simp add: validate_opaque_token_def get_user_access_token_def selected_token_columns split: option.split)
qed

theorem opaque_token_refused:
  "validate_opaque_token w now t rows = Inl A_UnknownToken \<or>
   (\<exists>m. validate_opaque_token w now t rows = Inl (A_DatabaseError m))"
  by (auto simp: opaque_token_result split: option.split)

lemma only_user_iff:
  "(case auth of User info \<Rightarrow> Inr info | Server s \<Rightarrow> Inl e | Anonymous \<Rightarrow> Inl e) = Inr a \<longleftrightarrow> auth = User a"
  by (cases auth) auto

text \<open>
  Whatever the token library does, a token that the session service accepts is a token the library
  decoded, its user identifier starts with \<open>@\<close>, it belongs to no server, and it is not expired at
  the time of the check.
\<close>

theorem accepted_token_claims:
  assumes "validate_access_token w now now' t rows = Inr a"
  shows "\<exists>c. jwt_decode w now t = Inr c \<and> jc_matrix_server_name c = None \<and>
     jc_matrix_user_id c = Some (at_user_id a) \<and> jc_matrix_device_id c = Some (at_device_id a) \<and>
     jc_matrix_access_token c = Some (at_token a) \<and> starts_with (at_user_id a) CHR ''@'' \<and>
     at_expires_at a = jc_exp c \<and> \<not> auth_is_expired now' (User a)"
proof -
  have no_opaque: "\<not> prefix ''syt_'' t"
    using assms by (auto simp: validate_access_token_def opaque_token_result split: option.splits if_splits)
  then obtain c where c: "jwt_decode w now t = Inr c"
    "\<not> (case jc_exp c of Some exp \<Rightarrow> exp \<le> now' | None \<Rightarrow> False)" "to_matrix_auth c = Inr (User a)"
    "\<exists>u. jc_matrix_user_id c = Some u \<and> starts_with u CHR ''@''"
    using assms by (auto simp: validate_access_token_def validate_token_def result_simps only_user_iff)
  then show ?thesis
    by (auto simp: to_matrix_auth_def result_simps split: option.splits)
qed

section \<open>Signed requests\<close>

lemma collectR_map_err: "collectR (map (\<lambda>x. map_err f (g x)) xs) = map_err f (collectR (map g xs))"
proof (induction xs)
  case (Cons x xs)
  then show ?case by (cases "g x"; cases "collectR (map g xs)") auto
qed simp

lemma map_err_map_err: "map_err f (map_err g m) = map_err (\<lambda>e. f (g e)) m"
  by (cases m) auto

text \<open>
  The session service and the PDU validator print canonical JSON alike: the same text, or an error
  on both sides.
\<close>

lemma session_canonical_agrees:
  "session_canonical_json w v = map_err (\<lambda>_. A_InvalidSignature) (pdu_canonical_json (sw_pdu w) v)"
proof (induction v rule: canon.induct)
  case (1 xs)
  then have "map (session_canonical_json w) xs =
      map (\<lambda>x. map_err (\<lambda>_. A_InvalidSignature) (pdu_canonical_json (sw_pdu w) x)) xs" by simp
  then have "collectR (map (session_canonical_json w) xs) =
      map_err (\<lambda>_. A_InvalidSignature) (collectR (map (pdu_canonical_json (sw_pdu w)) xs))"
    by (simp only: collectR_map_err)
  then show ?case by (cases "collectR (map (pdu_canonical_json (sw_pdu w)) xs)") auto
next
  case (2 ms)
  define p where "p k v = bindR (map_err PV_JsonError (quote_string (sw_pdu w) k)) (\<lambda>key_json.
       bindR (pdu_canonical_json (sw_pdu w) v) (\<lambda>value_json. Inr (key_json @ '':'' @ value_json)))" for k v
  define r where "r k v = bindR (map_err (\<lambda>_. A_InvalidSignature) (quote_string (sw_pdu w) k)) (\<lambda>key_json.
       bindR (session_canonical_json w v) (\<lambda>value_json. Inr (key_json @ '':'' @ value_json)))" for k v
  have "r k u = map_err (\<lambda>_. A_InvalidSignature) (p k u)" if "(k, u) \<in> set ms" for k u
  proof -
    have "session_canonical_json w u = map_err (\<lambda>_. A_InvalidSignature) (pdu_canonical_json (sw_pdu w) u)"
      using 2 that by force
    then show ?thesis
      unfolding p_def r_def by (cases "quote_string (sw_pdu w) k"; cases "pdu_canonical_json (sw_pdu w) u") auto
  qed
  then have e: "map (\<lambda>m. r (fst m) (snd m)) (sort_key fst ms) =
      map (\<lambda>m. map_err (\<lambda>_. A_InvalidSignature) (p (fst m) (snd m))) (sort_key fst ms)"
    by auto
  have c: "map snd (sort_key fst (map (\<lambda>(k, v). (k, f k v)) ms)) = map (\<lambda>m. f (fst m) (snd m)) (sort_key fst ms)"
    for f :: "string \<Rightarrow> json \<Rightarrow> 'b"
    unfolding sort_key_map_snd [of f] by (simp add: case_prod_beta)
  have "session_canonical_json w (JObject ms) =
      bindR (collectR (map (\<lambda>m. r (fst m) (snd m)) (sort_key fst ms))) (\<lambda>pairs. Inr (''{'' @ joined '','' pairs @ ''}''))"
    by (simp only: session_canonical_json.simps r_def [symmetric] c)
  moreover have "pdu_canonical_json (sw_pdu w) (JObject ms) =
      bindR (collectR (map (\<lambda>m. p (fst m) (snd m)) (sort_key fst ms))) (\<lambda>pairs. Inr (''{'' @ joined '','' pairs @ ''}''))"
    by (simp only: pdu_canonical_json.simps p_def [symmetric] c)
  ultimately show ?case
    unfolding e collectR_map_err by (cases "collectR (map (\<lambda>m. p (fst m) (snd m)) (sort_key fst ms))") auto
qed (simp_all add: map_err_map_err)

text \<open>
  What a request is signed over and what it is checked over agree: when the canonicalizer of
  \<open>signing.rs\<close> gives a text for the method, path, servers and content of a request, the session
  service of the receiver builds the same text from the bytes of the request, provided the body is
  absent or decodes to that content and the method is in upper case.
\<close>

theorem request_text_agrees:
  assumes "to_canonical_json (json_to_string (sw_crypto w)) (signing_data_json
       \<lparr>rq_method = method, rq_uri = uri, rq_origin = origin, rq_destination = destination, rq_content = content\<rparr>) = Inr text"
    and "case content of None \<Rightarrow> body = [] | Some c \<Rightarrow> body \<noteq> [] \<and> sw_from_slice w body = Some c \<and> json_wf c"
    and "sw_to_uppercase w method = method"
    and "\<And>s. quote_string (sw_pdu w) s = Inr (q s)"
    and "\<And>u. json_to_string (sw_crypto w) u = Inr (compact q (number_text (sw_pdu w)) u)"
  shows "build_canonical_json w method uri origin destination body = Inr text"
proof -
  let ?v = "signing_data_json
       \<lparr>rq_method = method, rq_uri = uri, rq_origin = origin, rq_destination = destination, rq_content = content\<rparr>"
  have wf: "json_wf ?v"
    using assms(2) by (cases content) (auto simp: signing_data_json_def opt_member_def)
  have "text = compact q (number_text (sw_pdu w)) (canon ?v)"
    using assms(1,5) canonicalize_value_iff [OF wf]
    by (auto simp: to_canonical_json_def canonicalize_value_def result_simps)
  then have "session_canonical_json w ?v = Inr text"
    unfolding session_canonical_agrees pdu_canonical_json_compact [OF assms(4)] by simp
  then show ?thesis
    using assms(2,3)
    by (cases content) (simp_all add: build_canonical_json_def signing_data_json_def opt_member_def)
qed

lemma session_key_signature_sound:
  "session_key_signature_verifies w m verify_keys sigs = Inr True \<Longrightarrow>
     \<exists>key_id signature public_key key_data. (key_id, JString signature) \<in> set sigs \<and>
       map_of verify_keys key_id = Some key_data \<and> Option.bind (get key_data ''key'') as_str = Some public_key \<and>
       verify_ed25519_signature (sw_crypto w) signature m public_key = Inr ()"
proof (induction w m verify_keys sigs rule: session_key_signature_verifies.induct)
  case (2 w m verify_keys key_id signature sigs)
  obtain s where s: "signature = JString s" using 2(3) by (cases signature) auto
  show ?case
  proof (cases "Option.bind (map_of verify_keys key_id) (\<lambda>key_data. Option.bind (get key_data ''key'') as_str)")
    case None
    then show ?thesis using 2(1,3) s by auto
  next
    case (Some pk)
    show ?thesis
    proof (cases "is_ok (verify_ed25519_signature (sw_crypto w) s m pk)")
      case True
      then show ?thesis using Some s by (auto simp: is_ok_iff bind_eq_Some_conv) blast
    next
      case False
      then show ?thesis using 2(2) [OF Some False] 2(3) s Some by (force split: if_splits)
    qed
  qed
qed simp

definition trusted_key_response :: "session_world \<Rightarrow> int \<Rightarrow> string \<Rightarrow> string \<Rightarrow> string \<Rightarrow> json \<Rightarrow> bool" where
  "trusted_key_response w now server_name key_id public_key body \<longleftrightarrow>
     Option.bind (get body ''server_name'') as_str = Some server_name \<and>
     (\<forall>t. Option.bind (get body ''valid_until_ts'') as_i64 = Some t \<and> t > 0 \<longrightarrow> now \<le> t) \<and>
     (\<exists>ks ms. Option.bind (get body ''verify_keys'') as_object = Some ks \<and>
        map_of ks key_id = Some (JObject ms) \<and> get_str ms ''key'' = Some public_key \<and>
        (\<exists>m key' signature pk data. session_canonical_json w (remove_keys [''signatures''] body) = Inr m \<and>
           map_of ks key' = Some data \<and> Option.bind (get data ''key'') as_str = Some pk \<and>
           verify_ed25519_signature (sw_crypto w) signature m pk = Inr ()))"

lemma session_fetch_sound:
  assumes "session_fetch_remote_server_key w ck server_name key_id = Inr public_key"
  shows "\<exists>response body. sw_get_keys w (''https://'' @ server_name @ ''/_matrix/key/v2/server'') = Inr response \<and>
     kh_success response \<and> kh_body response = Inr body \<and>
     trusted_key_response w (sc_key_expiry ck) server_name key_id public_key body"
proof -
  obtain response body ks ms where f:
    "sw_get_keys w (''https://'' @ server_name @ ''/_matrix/key/v2/server'') = Inr response"
    "kh_success response" "kh_body response = Inr body"
    "Option.bind (get body ''server_name'') as_str = Some server_name"
    "\<not> (unwrap_or 0 (Option.bind (get body ''valid_until_ts'') as_i64) > 0 \<and>
         sc_key_expiry ck > unwrap_or 0 (Option.bind (get body ''valid_until_ts'') as_i64))"
    "Option.bind (get body ''verify_keys'') as_object = Some ks"
    "Option.bind (map_of ks key_id) as_object = Some ms" "get_str ms ''key'' = Some public_key"
    "session_verify_server_key_signatures w body server_name = Inr ()"
    using assms unfolding session_fetch_remote_server_key_def Let_def result_simps
    by (elim exE conjE) (rule that; simp)
  obtain m server_signatures where v:
    "session_canonical_json w (remove_keys [''signatures''] body) = Inr m"
    "session_key_signature_verifies w m ks server_signatures = Inr True"
    using f(6,9) by (auto simp: session_verify_server_key_signatures_def result_simps)
  have "map_of ks key_id = Some (JObject ms)" using f(7) by (auto simp: bind_eq_Some_conv elim: as_object.elims)
  moreover have "now \<le> t" if "Option.bind (get body ''valid_until_ts'') as_i64 = Some t \<and> t > 0" "now = sc_key_expiry ck" for t now
    using f(5) that by auto
  ultimately show ?thesis
    using f v session_key_signature_sound [OF v(2)] unfolding trusted_key_response_def by blast
qed

text \<open>
  Checking a server signature is sound: it passes only when the signature verifies, over the text
  of this very request and for this destination, under a key that the key table gave for the server
  and key identifier, or that the server's own key response listed; such a response names the server,
  has not expired, and is signed with one of the keys it lists. A fetched key is stored once.
\<close>

theorem server_signature_sound:
  assumes "validate_server_signature w ck server_name key_id signature method uri body rows = (Inr auth, rows')"
  shows "\<exists>text public_key.
     build_canonical_json w method uri server_name (homeserver_name (sw_crypto w)) body = Inr text \<and>
     verify_ed25519_signature (sw_crypto w) signature text public_key = Inr () \<and>
     sa_server_name auth = server_name \<and> sa_key_id auth = key_id \<and>
     (public_key_query (sw_crypto w) rows server_name key_id = Inr (Some public_key) \<and> rows' = rows \<or>
      public_key_query (sw_crypto w) rows server_name key_id = Inr None \<and>
      (\<exists>response answer. sw_get_keys w (''https://'' @ server_name @ ''/_matrix/key/v2/server'') = Inr response \<and>
         kh_success response \<and> kh_body response = Inr answer \<and>
         trusted_key_response w (sc_key_expiry ck) server_name key_id public_key answer) \<and>
      (\<exists>row. rows' = rows @ [row] \<and> kr_server_name row = server_name \<and> kr_key_id row = key_id \<and>
         kr_public_key row = public_key))"
proof -
  obtain public_key msg where k:
    "session_get_server_public_key w ck server_name key_id rows = (Inr public_key, rows')"
    "build_canonical_json w method uri server_name (homeserver_name (sw_crypto w)) body = Inr msg"
    "verify_ed25519_signature (sw_crypto w) signature msg public_key = Inr ()"
    "sa_server_name auth = server_name" "sa_key_id auth = key_id"
    using assms by (auto simp: validate_server_signature_def result_simps)
  show ?thesis
  proof (cases "public_key_query (sw_crypto w) rows server_name key_id")
    case (Inl e)
    then show ?thesis using k(1) by (simp add: session_get_server_public_key_def)
  next
    case (Inr found)
    show ?thesis
    proof (cases found)
      case (Some pk)
      then show ?thesis using k Inr by (auto simp: session_get_server_public_key_def)
    next
      case None
      then have f: "session_fetch_remote_server_key w ck server_name key_id = Inr public_key"
        "session_cache_server_key w ck server_name key_id public_key rows = (Inr (), rows')"
        using k(1) Inr by (auto simp: session_get_server_public_key_def result_simps)
      have "\<exists>row. rows' = rows @ [row] \<and> kr_server_name row = server_name \<and> kr_key_id row = key_id \<and>
          kr_public_key row = public_key"
        using f(2) by (auto simp: session_cache_server_key_def Let_def split: sum.splits)
      then show ?thesis using k Inr None session_fetch_sound [OF f(1)] by blast
    qed
  qed
qed

section \<open>Own keys\<close>

text \<open>What the sources rely on from base64 and Ed25519 for a key made from a 32-byte seed.\<close>

definition ed25519_laws :: "session_world \<Rightarrow> string \<Rightarrow> bool" where
  "ed25519_laws w seed \<longleftrightarrow>
     length seed = 32 \<and> length (sw_ed_public w seed) = 32 \<and> ed_key_ok (sw_crypto w) (sw_ed_public w seed) \<and>
     (\<forall>m. length (ed_sign (sw_crypto w) seed m) = 64 \<and>
          ed_verify (sw_crypto w) (sw_ed_public w seed) m (ed_sign (sw_crypto w) seed m)) \<and>
     (\<forall>s. b64_decode (sw_crypto w) (b64_encode (sw_crypto w) s) = Some s)"

lemma generated_key:
  assumes "generate_server_signing_key w now seed server_name ks = (Inr k, ks')"
  shows "ks' = ks @ [k]" and "sg_key_id k \<notin> sg_key_id ` set ks" and "sg_server_name k = server_name"
    and "sg_private_key k = b64_encode (sw_crypto w) seed"
    and "sg_public_key k = b64_encode (sw_crypto w) (sw_ed_public w seed)"
    and "sw_signing_failure w = None"
    and "key_usable t k \<longleftrightarrow> t < now + 365 * 24 * 60 * 60 * 1000"
  using assms
  by (auto simp: generate_server_signing_key_def generate_and_store_signing_key_def Let_def bindS_def
      liftS_def create_server_signing_key_record_def key_usable_def split: option.splits if_splits)

text \<open>
  A key generated when the server has no usable one serves for a year: the query for the private key
  finds it, a text signed with it verifies under the public key of the record, and the next request
  for the signing key returns the same key and generates nothing.
\<close>

theorem generated_key_serves:
  assumes "get_server_signing_key_by_server w now server_name ks = Inr None"
    and "get_server_signing_key w now now seed server_name ks = (Inr k, ks')"
    and "ed25519_laws w seed" and "now \<le> later" and "later < now + 365 * 24 * 60 * 60 * 1000"
  shows "get_server_signing_key w later later' seed' server_name ks' = (Inr k, ks') \<and>
     get_private_key_for_signing later (sg_key_id k) ks' = Some (sg_private_key k) \<and>
     (\<exists>signature. session_sign_json ((sw_crypto w)
          \<lparr>private_key_query := \<lambda>key_id. Inr (get_private_key_for_signing later key_id ks')\<rparr>) m (sg_key_id k) = Inr signature \<and>
        verify_ed25519_signature (sw_crypto w) signature m (sg_public_key k) = Inr ())"
proof -
  have g: "generate_server_signing_key w now seed server_name ks = (Inr k, ks')"
    using assms(1,2) by (simp add: get_server_signing_key_def)
  note k = generated_key [OF g]
  have none: "filter (\<lambda>k. sg_server_name k = server_name \<and> key_usable later k) ks = []"
  proof -
    have "\<not> (sg_server_name x = server_name \<and> key_usable now x)" if "x \<in> set ks" for x
    proof
      assume "sg_server_name x = server_name \<and> key_usable now x"
      with that have "x \<in> set (sort_key (\<lambda>k. - sg_created_at k)
          (filter (\<lambda>k. sg_server_name k = server_name \<and> key_usable now k) ks))" by simp
      then have "sort_key (\<lambda>k. - sg_created_at k)
          (filter (\<lambda>k. sg_server_name k = server_name \<and> key_usable now k) ks) \<noteq> []" by force
      then show False
        using assms(1) k(6) by (auto simp: get_server_signing_key_by_server_def split: list.splits)
    qed
    moreover have "key_usable later x \<Longrightarrow> key_usable now x" for x
      using assms(4) by (auto simp: key_usable_def split: option.splits)
    ultimately show ?thesis by (auto simp: filter_empty_conv)
  qed
  have u: "key_usable later k" using k(7) assms(5) by simp
  have "get_server_signing_key_by_server w later server_name ks' = Inr (Some k)"
    using none u k(1,3,6) by (simp add: get_server_signing_key_by_server_def)
  moreover have "sg_key_id (ks ! j) \<noteq> sg_key_id k" if "j < length ks" for j
    using k(2) that by (metis image_eqI nth_mem)
  then have "find (\<lambda>x. sg_key_id x = sg_key_id k \<and> key_usable later x) (ks @ [k]) = Some k"
    using u unfolding find_Some_iff by (intro exI [of _ "length ks"]) (simp add: nth_append)
  then have p: "get_private_key_for_signing later (sg_key_id k) ks' = Some (sg_private_key k)"
    by (simp add: get_private_key_for_signing_def k(1))
  moreover have "\<exists>signature. session_sign_json ((sw_crypto w)
          \<lparr>private_key_query := \<lambda>key_id. Inr (get_private_key_for_signing later key_id ks')\<rparr>) m (sg_key_id k) = Inr signature \<and>
        verify_ed25519_signature (sw_crypto w) signature m (sg_public_key k) = Inr ()"
    using assms(3) p k(4,5)
    by (simp add: session_sign_json_def verify_ed25519_signature_def ed25519_laws_def ensure_def)
  ultimately show ?thesis by (simp add: get_server_signing_key_def)
qed

section \<open>Witnesses\<close>

text \<open>
  A token library that writes the claims of a user as a run of letters and checks only the expiry,
  and a world in which every key table lookup succeeds.
\<close>

definition demo_jwt_encode :: "jwt_claims \<Rightarrow> string + string" where
  "demo_jwt_encode c =
     (case (jc_iat c, jc_exp c, jc_sub c, jc_matrix_device_id c, jc_matrix_access_token c) of
        (Some i, Some x, Some u, Some d, Some a) \<Rightarrow>
          if c = for_user i u d a (jc_matrix_refresh_token c) (x - i)
          then Inr (replicate (to_nat (i, x, u, d, a, jc_matrix_refresh_token c)) CHR ''t'')
          else Inl ''unsupported''
      | _ \<Rightarrow> Inl ''unsupported'')"

definition demo_jwt_decode :: "int \<Rightarrow> string \<Rightarrow> string + jwt_claims" where
  "demo_jwt_decode now t =
     (case from_nat (length t) of (i, x, u, d, a, r) \<Rightarrow>
        if now \<le> x + 60 then Inr (for_user i u d a r (x - i)) else Inl ''expired'')"

definition session_demo :: session_world where
  "session_demo =
     \<lparr>sw_pdu = pdu_demo\<lparr>pw_crypto := demo_crypto
        \<lparr>json_to_string := (\<lambda>u. Inr (compact (\<lambda>s. s) (\<lambda>n. ''0'') u))\<rparr>\<rparr>,
      sw_from_slice = (\<lambda>b. Some (JString b)), sw_to_uppercase = (\<lambda>s. s),
      jwt_encode = demo_jwt_encode, jwt_decode = demo_jwt_decode,
      sw_token_failure = None, sw_missing_field = ''missing field'', sw_signing_failure = None,
      sw_get_keys = (\<lambda>url. Inl url), sw_ed_public = (\<lambda>s. s)\<rparr>"

lemma demo_encode_user:
  "demo_jwt_encode (for_user i u d a r l) = Inr (replicate (to_nat (i, i + l, u, d, a, r)) CHR ''t'')"
  by (simp add: demo_jwt_encode_def for_user_def)

lemma demo_jwt_laws: "jwt_laws session_demo"
proof -
  have "if now \<le> x + 60 then demo_jwt_decode now t = Inr c else \<not> is_ok (demo_jwt_decode now t)"
    if "demo_jwt_encode c = Inr t" "jc_exp c = Some x" for c t x now
    using that by (auto simp: demo_jwt_encode_def demo_jwt_decode_def split: option.splits if_splits)
  then show ?thesis unfolding jwt_laws_def by (auto simp: session_demo_def simp del: if_split)
qed

lemma replicate_not_opaque: "\<not> prefix ''syt_'' (replicate n CHR ''t'')"
  by (cases n) auto

definition demo_user_token :: string where
  "demo_user_token =
     replicate (to_nat (0 :: int, 3600 :: int, ''@a:x'', ''D'', ''T'', None :: string option)) CHR ''t''"

lemma demo_user_token_created:
  "create_access_token session_demo 0 ''T'' ''@a:x'' ''D'' = Inr demo_user_token"
  by (simp add: create_access_token_def create_user_token_def session_demo_def demo_encode_user
      demo_user_token_def)

theorem access_token_lifecycle_witness:
  "validate_access_token session_demo 10 10 demo_user_token [] =
     Inr \<lparr>at_token = ''T'', at_user_id = ''@a:x'', at_device_id = ''D'', at_expires_at = Some 3600\<rparr> \<and>
   \<not> is_ok (validate_access_token session_demo 3600 3600 demo_user_token [])"
  using access_token_lifecycle [OF demo_jwt_laws demo_user_token_created, of 10 10 "[]"]
    access_token_lifecycle [OF demo_jwt_laws demo_user_token_created, of 3600 3600 "[]"]
  by (simp add: starts_with_def demo_user_token_def replicate_not_opaque)

theorem access_token_refreshes_witness:
  "is_ok (refresh_token session_demo 10 10 10 ''A'' ''R'' demo_user_token)"
proof -
  have "is_ok (create_user_token session_demo i ''@a:x'' ''D'' ''A'' (Some ''R'') l)" for i l
    by (simp add: create_user_token_def session_demo_def demo_encode_user)
  from access_token_refreshes [OF demo_jwt_laws this demo_user_token_created, of 10 10 10 "[]"]
  show ?thesis by (auto simp: starts_with_def)
qed

theorem accepted_token_claims_witness: "is_ok (jwt_decode session_demo 10 demo_user_token)"
proof -
  have "validate_access_token session_demo 10 10 demo_user_token [] =
      Inr \<lparr>at_token = ''T'', at_user_id = ''@a:x'', at_device_id = ''D'', at_expires_at = Some 3600\<rparr>"
    using user_token_validates(1) [OF demo_jwt_laws, of 0 "''@a:x''" "''D''" "''T''" None 3600 demo_user_token 10 10 "[]"]
      demo_user_token_created
    by (simp add: create_access_token_def starts_with_def demo_user_token_def replicate_not_opaque)
  from accepted_token_claims [OF this] show ?thesis by auto
qed

lemma session_demo_printers:
  "quote_string (sw_pdu session_demo) s = Inr s"
  "json_to_string (sw_crypto session_demo) u =
     Inr (compact (\<lambda>s. s) (number_text (sw_pdu session_demo)) u)"
  by (simp_all add: session_demo_def pdu_demo_def)

definition session_demo_request :: request_signing_data where
  "session_demo_request = \<lparr>rq_method = ''PUT'', rq_uri = ''/x'', rq_origin = ''b.org'', rq_destination = ''a.org'',
     rq_content = Some (JString ''B'')\<rparr>"

lemma session_demo_request_signs:
  "\<exists>m. to_canonical_json (json_to_string (sw_crypto session_demo)) (signing_data_json session_demo_request) = Inr m"
proof -
  have "canonicalize_node [] {} 0 (signing_data_json session_demo_request) = Inr (canon (signing_data_json session_demo_request), {})"
    by (rule canonicalize_succeeds(1)) (simp_all add: session_demo_request_def signing_data_json_def opt_member_def
        MAX_DEPTH_def MAX_MEMBERS_def)
  then show ?thesis by (auto simp: to_canonical_json_def canonicalize_value_def session_demo_printers)
qed

theorem request_text_agrees_witness:
  "is_ok (build_canonical_json session_demo ''PUT'' ''/x'' ''b.org'' ''a.org'' ''B'')"
proof -
  obtain m where m: "to_canonical_json (json_to_string (sw_crypto session_demo)) (signing_data_json session_demo_request) = Inr m"
    using session_demo_request_signs by blast
  from request_text_agrees [OF m [unfolded session_demo_request_def], of "''B''"] session_demo_printers
  show ?thesis by (simp add: session_demo_def)
qed

definition session_demo_clocks :: session_clocks where
  "session_demo_clocks = \<lparr>sc_key_expiry = 0, sc_key_cached = 0, sc_key_fetched = 0, sc_authenticated = 0\<rparr>"

theorem server_signature_sound_witness:
  "\<exists>signature auth msg. validate_server_signature session_demo session_demo_clocks ''b.org'' ''k'' signature
      ''PUT'' ''/x'' ''B'' [] = (Inr auth, []) \<and> sa_server_name auth = ''b.org'' \<and>
     build_canonical_json session_demo ''PUT'' ''/x'' ''b.org'' ''a.org'' ''B'' = Inr msg"
proof -
  obtain m where m: "build_canonical_json session_demo ''PUT'' ''/x'' ''b.org'' ''a.org'' ''B'' = Inr m"
    by (simp add: build_canonical_json_def session_demo_def session_canonical_agrees
        pdu_canonical_json_compact [of _ "\<lambda>s. s"] pdu_demo_def)
  let ?s = "letters (demo_sign m)"
  obtain auth where v: "validate_server_signature session_demo session_demo_clocks ''b.org'' ''k'' ?s
      ''PUT'' ''/x'' ''B'' [] = (Inr auth, [])"
  proof -
    have "homeserver_name (sw_crypto session_demo) = ''a.org''"
      by (simp add: session_demo_def demo_crypto_def)
    moreover have "session_get_server_public_key session_demo session_demo_clocks ''b.org'' ''k'' [] =
        (Inr (letters (replicate 32 CHR ''p'')), [])"
      by (simp add: session_get_server_public_key_def session_demo_def demo_crypto_def)
    moreover have "verify_ed25519_signature (sw_crypto session_demo) ?s m (letters (replicate 32 CHR ''p'')) = Inr ()"
      by (simp add: verify_ed25519_signature_def session_demo_def demo_crypto_def unletters_letters ensure_def
          demo_sign_def min_def)
    ultimately show ?thesis using that m
      by (simp add: validate_server_signature_def bindS_def liftS_def)
  qed
  from server_signature_sound [OF v] v m show ?thesis by blast
qed

theorem generated_key_serves_witness:
  "\<exists>k ks'. get_server_signing_key session_demo 0 0 (replicate 32 CHR ''s'') ''a.org'' [] = (Inr k, ks') \<and>
     get_server_signing_key session_demo 5 5 [] ''a.org'' ks' = (Inr k, ks')"
proof -
  have none: "get_server_signing_key_by_server session_demo 0 ''a.org'' [] = Inr None"
    by (simp add: get_server_signing_key_by_server_def session_demo_def)
  obtain k ks' where k: "get_server_signing_key session_demo 0 0 (replicate 32 CHR ''s'') ''a.org'' [] = (Inr k, ks')"
    by (simp add: get_server_signing_key_def get_server_signing_key_by_server_def generate_server_signing_key_def
        generate_and_store_signing_key_def create_server_signing_key_record_def session_demo_def bindS_def liftS_def Let_def)
  have "ed25519_laws session_demo (replicate 32 CHR ''s'')"
    by (simp add: ed25519_laws_def session_demo_def demo_crypto_def unletters_letters demo_sign_def min_def)
  from generated_key_serves [OF none k this, of 5 5 "[]" "[]"] k show ?thesis by auto
qed


end
