(* ===== verification/Captcha.thy ===== *)
theory Captcha
  imports Entity Matrix_Errors
begin

text \<open>
  CAPTCHA challenges: the service \<open>server/src/auth/captcha.rs\<close> over the table of challenges and the
  repository \<open>surrealdb/src/repository/captcha.rs\<close>. The providers' answers, the answers of counting
  queries, identifiers and clock readings are arguments. A call of the database fails when
  \<open>cw_fail\<close> gives an error for it; what \<open>create\<close> does with an identifier that is taken is the field
  \<open>cw_taken\<close>: an error, or none when it replaces the record. A 64-bit float is its bit pattern.
\<close>

section \<open>Data\<close>

record captcha_challenge =
  ch_challenge_id :: string
  ch_challenge_type :: string
  ch_site_key :: "string option"
  ch_question :: "string option"
  ch_answer :: "string option"
  ch_created_at :: int
  ch_expires_at :: int
  ch_used :: bool
  ch_verified :: bool
  ch_user_id :: "string option"
  ch_client_ip :: "string option"
  ch_user_agent :: "string option"
  ch_session_id :: "string option"

record captcha_config =
  provider :: string
  site_key :: string
  secret_key :: string
  verify_url :: string
  min_score :: "64 word"
  captcha_enabled :: bool
  challenge_lifetime_minutes :: int

record verification_request =
  vr_challenge_id :: string
  vr_response :: string
  vr_remote_ip :: "string option"

record verification_response =
  vs_success :: bool
  vs_challenge_ts :: "int option"
  vs_hostname :: "string option"
  vs_error_codes :: "string list option"

record recaptcha_response =
  rc_success :: bool
  rc_challenge_ts :: "string option"
  rc_hostname :: "string option"
  rc_error_codes :: "string list option"
  rc_score :: "64 word option"
  rc_action :: "string option"

record hcaptcha_response =
  hc_success :: bool
  hc_challenge_ts :: "string option"
  hc_hostname :: "string option"
  hc_error_codes :: "string list option"
  hc_credit :: "bool option"

datatype captcha_call = CreateChallenge | GetChallenge | UpdateChallenge | CleanupChallenges | CountChallenges

text \<open>An answer of a provider: a failed request, an unreadable body, or the decoded body.\<close>

record captcha_world =
  cw_config :: captcha_config
  cw_fail :: "captcha_call \<Rightarrow> repository_error option"
  cw_taken :: "repository_error option"
  cw_recaptcha :: "string \<Rightarrow> (string \<times> string) list \<Rightarrow> string + (string + recaptcha_response)"
  cw_hcaptcha :: "string \<Rightarrow> (string \<times> string) list \<Rightarrow> string + (string + hcaptcha_response)"
  cw_rfc3339 :: "string \<Rightarrow> int option"
  cw_f64_ge :: "64 word \<Rightarrow> 64 word \<Rightarrow> bool"

type_synonym challenges = "string \<rightharpoonup> captcha_challenge"

section \<open>The repository\<close>

definition repo_create_challenge ::
  "captcha_world \<Rightarrow> captcha_challenge \<Rightarrow> challenges \<Rightarrow> (repository_error + captcha_challenge) \<times> challenges" where
  "repo_create_challenge w c t =
     (case cw_fail w CreateChallenge of
        Some e \<Rightarrow> (Inl e, t)
      | None \<Rightarrow>
          (case (if t (ch_challenge_id c) = None then None else cw_taken w) of
             Some e \<Rightarrow> (Inl e, t)
           | None \<Rightarrow> (Inr c, t(ch_challenge_id c \<mapsto> c))))"

definition get_challenge :: "captcha_world \<Rightarrow> string \<Rightarrow> challenges \<Rightarrow> repository_error + captcha_challenge option" where
  "get_challenge w challenge_id t =
     (case cw_fail w GetChallenge of Some e \<Rightarrow> Inl e | None \<Rightarrow> Inr (t challenge_id))"

definition update_challenge ::
  "captcha_world \<Rightarrow> captcha_challenge \<Rightarrow> challenges \<Rightarrow> (repository_error + unit) \<times> challenges" where
  "update_challenge w c t =
     (case cw_fail w UpdateChallenge of
        Some e \<Rightarrow> (Inl e, t)
      | None \<Rightarrow> (Inr (), if t (ch_challenge_id c) = None then t else t(ch_challenge_id c \<mapsto> c)))"

text \<open>\<open>deleted\<close> is the number the database reports.\<close>

definition repo_cleanup_challenges ::
  "captcha_world \<Rightarrow> int \<Rightarrow> nat option \<Rightarrow> challenges \<Rightarrow> (repository_error + nat) \<times> challenges" where
  "repo_cleanup_challenges w cutoff deleted t =
     (case cw_fail w CleanupChallenges of
        Some e \<Rightarrow> (Inl e, t)
      | None \<Rightarrow>
          (Inr (unwrap_or 0 deleted),
           (\<lambda>i. case t i of
                  Some c \<Rightarrow> if ch_expires_at c < cutoff \<or> ch_used c \<and> ch_verified c then None else Some c
                | None \<Rightarrow> None)))"

definition validate_response ::
  "captcha_world \<Rightarrow> int \<Rightarrow> string \<Rightarrow> string \<Rightarrow> challenges \<Rightarrow> (repository_error + bool) \<times> challenges" where
  "validate_response w now challenge_id response t =
     (case get_challenge w challenge_id t of
        Inl e \<Rightarrow> (Inl e, t)
      | Inr None \<Rightarrow> (Inr False, t)
      | Inr (Some c) \<Rightarrow>
          if ch_used c \<or> now > ch_expires_at c then (Inr False, t)
          else if ch_answer c = Some response
          then (case update_challenge w (c\<lparr>ch_challenge_id := challenge_id, ch_verified := True, ch_used := True\<rparr>) t of
                  (Inl e, t') \<Rightarrow> (Inl e, t')
                | (Inr _, t') \<Rightarrow> (Inr True, t'))
          else (Inr False, t))"

definition create_math_challenge ::
  "captcha_world \<Rightarrow> nat \<Rightarrow> nat \<Rightarrow> string \<Rightarrow> int \<Rightarrow> string option \<Rightarrow> string option \<Rightarrow> string option \<Rightarrow>
   challenges \<Rightarrow> (repository_error + captcha_challenge) \<times> challenges" where
  "create_math_challenge w a b uuid now user_id client_ip user_agent =
     repo_create_challenge w
       \<lparr>ch_challenge_id = uuid, ch_challenge_type = ''math'', ch_site_key = None,
        ch_question = Some (''What is '' @ show_nat a @ '' + '' @ show_nat b @ ''?''),
        ch_answer = Some (show_nat (a + b)), ch_created_at = now, ch_expires_at = now + 10 * 60,
        ch_used = False, ch_verified = False, ch_user_id = user_id, ch_client_ip = client_ip,
        ch_user_agent = user_agent, ch_session_id = None\<rparr>"

section \<open>The service\<close>

definition create_challenge ::
  "captcha_world \<Rightarrow> string \<Rightarrow> int \<Rightarrow> string option \<Rightarrow> string option \<Rightarrow> string option \<Rightarrow>
   challenges \<Rightarrow> (matrix_auth_error + captcha_challenge) \<times> challenges" where
  "create_challenge w uuid now ip_address user_agent session_id t =
     (if \<not> captcha_enabled (cw_config w) then (Inl A_InvalidXMatrixFormat, t)
      else case repo_create_challenge w
             \<lparr>ch_challenge_id = ''captcha_'' @ uuid, ch_challenge_type = provider (cw_config w),
              ch_site_key = Some (site_key (cw_config w)), ch_question = None, ch_answer = None,
              ch_created_at = now, ch_expires_at = now + challenge_lifetime_minutes (cw_config w) * 60,
              ch_used = False, ch_verified = False, ch_user_id = None, ch_client_ip = ip_address,
              ch_user_agent = user_agent, ch_session_id = session_id\<rparr> t of
             (r, t') \<Rightarrow> (map_err (\<lambda>e. A_DatabaseError (''Failed to store CAPTCHA challenge: '' @ repository_error_text e)) r, t'))"

definition form_params :: "captcha_world \<Rightarrow> string \<Rightarrow> string option \<Rightarrow> (string \<times> string) list" where
  "form_params w response remote_ip =
     [(''secret'', secret_key (cw_config w)), (''response'', response)] @
     (case remote_ip of Some ip \<Rightarrow> [(''remoteip'', ip)] | None \<Rightarrow> [])"

definition provider_reply :: "string \<Rightarrow> string + (string + 'a) \<Rightarrow> matrix_auth_error + 'a" where
  "provider_reply name reply =
     bindR (map_err (\<lambda>e. A_DatabaseError (name @ '' verification failed: '' @ e)) reply) (\<lambda>body.
     map_err (\<lambda>e. A_DatabaseError (''Failed to parse '' @ name @ '' response: '' @ e)) body)"

definition allowed_actions :: "string list" where
  "allowed_actions = [''login'', ''register'', ''submit'', ''matrix_auth'']"

definition verify_recaptcha ::
  "captcha_world \<Rightarrow> string \<Rightarrow> string option \<Rightarrow> matrix_auth_error + verification_response" where
  "verify_recaptcha w response remote_ip =
     bindR (provider_reply ''reCAPTCHA''
              (cw_recaptcha w (verify_url (cw_config w)) (form_params w response remote_ip))) (\<lambda>r.
     let score_ok = (rc_success r \<and>
           (case rc_score r of None \<Rightarrow> True | Some score \<Rightarrow> cw_f64_ge w score (min_score (cw_config w))));
         success = (case rc_action r of
                      Some action \<Rightarrow> if \<not> List.member allowed_actions action then False else score_ok
                    | None \<Rightarrow> score_ok)
     in Inr \<lparr>vs_success = success, vs_challenge_ts = Option.bind (rc_challenge_ts r) (cw_rfc3339 w),
             vs_hostname = rc_hostname r, vs_error_codes = rc_error_codes r\<rparr>)"

definition verify_hcaptcha ::
  "captcha_world \<Rightarrow> string \<Rightarrow> string option \<Rightarrow> matrix_auth_error + verification_response" where
  "verify_hcaptcha w response remote_ip =
     bindR (provider_reply ''hCaptcha''
              (cw_hcaptcha w (verify_url (cw_config w)) (form_params w response remote_ip))) (\<lambda>r.
     Inr \<lparr>vs_success = hc_success r, vs_challenge_ts = Option.bind (hc_challenge_ts r) (cw_rfc3339 w),
          vs_hostname = hc_hostname r, vs_error_codes = hc_error_codes r\<rparr>)"

definition verify_with_provider ::
  "captcha_world \<Rightarrow> verification_request \<Rightarrow> matrix_auth_error + verification_response" where
  "verify_with_provider w request =
     (if provider (cw_config w) = ''recaptcha'' then verify_recaptcha w (vr_response request) (vr_remote_ip request)
      else if provider (cw_config w) = ''hcaptcha'' then verify_hcaptcha w (vr_response request) (vr_remote_ip request)
      else Inl A_InvalidXMatrixFormat)"

definition failed_verification :: "string \<Rightarrow> verification_response" where
  "failed_verification code =
     \<lparr>vs_success = False, vs_challenge_ts = None, vs_hostname = None, vs_error_codes = Some [code]\<rparr>"

text \<open>\<open>now\<close> is read for the answer of a disabled service, or for the expiry.\<close>

definition verify_captcha ::
  "captcha_world \<Rightarrow> int \<Rightarrow> verification_request \<Rightarrow> challenges \<Rightarrow>
   (matrix_auth_error + verification_response) \<times> challenges" where
  "verify_captcha w now request t =
     (if \<not> captcha_enabled (cw_config w)
      then (Inr \<lparr>vs_success = True, vs_challenge_ts = Some now, vs_hostname = None, vs_error_codes = None\<rparr>, t)
      else bindS (liftS (bindR (map_err (\<lambda>e. A_DatabaseError (''Failed to get CAPTCHA challenge: '' @ repository_error_text e))
                           (get_challenge w (vr_challenge_id request) t)) (\<lambda>c. ok_or c A_UnknownToken))) (\<lambda>challenge.
           if now > ch_expires_at challenge then liftS (Inr (failed_verification ''challenge-expired''))
           else if ch_used challenge then liftS (Inr (failed_verification ''challenge-already-used''))
           else bindS (liftS (verify_with_provider w request)) (\<lambda>verification_result.
                bindS (\<lambda>t. case repo_create_challenge w
                              (challenge\<lparr>ch_used := True, ch_verified := vs_success verification_result\<rparr>) t of
                             (r, t') \<Rightarrow> (map_err (\<lambda>e. A_DatabaseError
                               (''Failed to update CAPTCHA challenge: '' @ repository_error_text e)) r, t')) (\<lambda>_.
                liftS (Inr verification_result)))) t)"

definition suspicious_threshold :: "string \<Rightarrow> 64 word" where
  "suspicious_threshold operation =
     (if operation = ''login'' then 5
      else if operation = ''register'' then 3
      else if operation = ''password_reset'' then 2
      else if operation = ''room_join'' then 10
      else 3)"

text \<open>\<open>count\<close> is the answer of the counting query.\<close>

definition check_suspicious_activity ::
  "(repository_error + 64 word) \<Rightarrow> string \<Rightarrow> matrix_auth_error + bool" where
  "check_suspicious_activity count operation =
     bindR (map_err (\<lambda>e. A_DatabaseError (''Failed to check suspicious activity for operation '' @ [CHR 0x27] @ operation @ [CHR 0x27] @
              '': '' @ repository_error_text e)) count) (\<lambda>attempt_count.
     Inr (attempt_count > suspicious_threshold operation))"

definition is_captcha_required ::
  "captcha_world \<Rightarrow> (repository_error + 64 word) \<Rightarrow> string \<Rightarrow> matrix_auth_error + bool" where
  "is_captcha_required w count operation =
     (if \<not> captcha_enabled (cw_config w) then Inr False else check_suspicious_activity count operation)"

definition get_public_config :: "captcha_world \<Rightarrow> (string \<rightharpoonup> json)" where
  "get_public_config w =
     (if captcha_enabled (cw_config w)
      then [''enabled'' \<mapsto> JBool True, ''provider'' \<mapsto> JString (provider (cw_config w)),
            ''site_key'' \<mapsto> JString (site_key (cw_config w))]
      else [''enabled'' \<mapsto> JBool False])"

definition cleanup_expired_challenges ::
  "captcha_world \<Rightarrow> int \<Rightarrow> nat option \<Rightarrow> challenges \<Rightarrow> (matrix_auth_error + nat) \<times> challenges" where
  "cleanup_expired_challenges w cutoff deleted t =
     (case repo_cleanup_challenges w cutoff deleted t of
        (r, t') \<Rightarrow> (map_err (\<lambda>e. A_DatabaseError (''Failed to cleanup CAPTCHA challenges: '' @ repository_error_text e)) r, t'))"

definition record_rate_limit_violation ::
  "captcha_world \<Rightarrow> string \<Rightarrow> int \<Rightarrow> int \<Rightarrow> string \<Rightarrow> string \<Rightarrow> challenges \<Rightarrow> (matrix_auth_error + unit) \<times> challenges" where
  "record_rate_limit_violation w uuid now1 now2 ip_address operation t =
     (case repo_create_challenge w
        \<lparr>ch_challenge_id = ''violation_'' @ uuid, ch_challenge_type = ''rate_limit_violation'',
         ch_site_key = Some [], ch_question = None, ch_answer = None, ch_created_at = now1,
         ch_expires_at = now2 + 60 * 60, ch_used = True, ch_verified = False, ch_user_id = None,
         ch_client_ip = Some ip_address, ch_user_agent = None, ch_session_id = Some operation\<rparr> t of
        (r, t') \<Rightarrow>
          (map_err (\<lambda>e. A_DatabaseError (''Failed to record rate limit violation: '' @ repository_error_text e))
             (bindR r (\<lambda>_. Inr ())), t'))"

section \<open>What a verification shows\<close>

lemma verify_captcha_enabled:
  assumes "captcha_enabled (cw_config w)"
  shows "verify_captcha w now request t =
    (case cw_fail w GetChallenge of
       Some e \<Rightarrow> (Inl (A_DatabaseError (''Failed to get CAPTCHA challenge: '' @ repository_error_text e)), t)
     | None \<Rightarrow>
         (case t (vr_challenge_id request) of
            None \<Rightarrow> (Inl A_UnknownToken, t)
          | Some c \<Rightarrow>
              if now > ch_expires_at c then (Inr (failed_verification ''challenge-expired''), t)
              else if ch_used c then (Inr (failed_verification ''challenge-already-used''), t)
              else (case verify_with_provider w request of
                      Inl e \<Rightarrow> (Inl e, t)
                    | Inr r \<Rightarrow>
                        (case repo_create_challenge w (c\<lparr>ch_used := True, ch_verified := vs_success r\<rparr>) t of
                           (Inl e, t') \<Rightarrow> (Inl (A_DatabaseError
                              (''Failed to update CAPTCHA challenge: '' @ repository_error_text e)), t')
                         | (Inr _, t') \<Rightarrow> (Inr r, t')))))"
  using assms
  by (simp add: verify_captcha_def get_challenge_def bindS_def liftS_def split: option.split sum.split prod.split)

lemma verify_captcha_success:
  assumes "verify_captcha w now request t = (Inr r, t')" and "vs_success r" and "captcha_enabled (cw_config w)"
  obtains c c' where "t (vr_challenge_id request) = Some c" "now \<le> ch_expires_at c" "\<not> ch_used c"
      "verify_with_provider w request = Inr r"
      "repo_create_challenge w (c\<lparr>ch_used := True, ch_verified := True\<rparr>) t = (Inr c', t')"
  using assms(1,2) unfolding verify_captcha_enabled [OF assms(3)]
  by (auto simp: failed_verification_def split: option.splits if_splits sum.splits prod.splits)

lemma used_challenge_fails:
  assumes "captcha_enabled (cw_config w)" and "t (vr_challenge_id request) = Some c" and "ch_used c"
  shows "\<not> (\<exists>r t'. verify_captcha w now request t = (Inr r, t') \<and> vs_success r)"
  unfolding verify_captcha_enabled [OF assms(1)]
  using assms(2,3) by (simp add: failed_verification_def split: option.split)

text \<open>Challenges are stored under their identifiers.\<close>

definition challenges_keyed :: "challenges \<Rightarrow> bool" where
  "challenges_keyed t \<longleftrightarrow> (\<forall>i c. t i = Some c \<longrightarrow> ch_challenge_id c = i)"

lemma keyed_create:
  "challenges_keyed t \<Longrightarrow> repo_create_challenge w c t = (r, t') \<Longrightarrow> challenges_keyed t'"
  by (auto simp: challenges_keyed_def repo_create_challenge_def split: option.splits if_splits)

text \<open>
  A successful verification of an enabled service rests on a stored challenge that has neither
  expired nor been used and on a positive answer of the provider, and it uses the challenge up: no
  later verification with the same challenge succeeds, whatever the provider answers.
\<close>

theorem captcha_single_use:
  assumes "verify_captcha w now request t = (Inr r, t')" and "vs_success r"
    and "captcha_enabled (cw_config w)" and "challenges_keyed t"
  shows "(\<exists>c. t (vr_challenge_id request) = Some c \<and> now \<le> ch_expires_at c \<and> \<not> ch_used c \<and>
      verify_with_provider w request = Inr r) \<and>
    (captcha_enabled (cw_config w') \<and> vr_challenge_id request' = vr_challenge_id request \<longrightarrow>
      \<not> (\<exists>r' t''. verify_captcha w' now' request' t' = (Inr r', t'') \<and> vs_success r'))"
proof -
  from assms(1-3) obtain c c' where c: "t (vr_challenge_id request) = Some c" "now \<le> ch_expires_at c" "\<not> ch_used c"
      "verify_with_provider w request = Inr r"
    and create: "repo_create_challenge w (c\<lparr>ch_used := True, ch_verified := True\<rparr>) t = (Inr c', t')"
    by (rule verify_captcha_success)
  have "ch_challenge_id c = vr_challenge_id request" using assms(4) c(1) by (simp add: challenges_keyed_def)
  with create have "t' (vr_challenge_id request) = Some (c\<lparr>ch_used := True, ch_verified := True\<rparr>)"
    by (auto simp: repo_create_challenge_def split: option.splits if_splits)
  then have "\<not> (\<exists>r' t''. verify_captcha w' now' request' t' = (Inr r', t'') \<and> vs_success r')"
    if "captcha_enabled (cw_config w')" "vr_challenge_id request' = vr_challenge_id request"
    using that used_challenge_fails [of w' t' request'] by simp
  with c show ?thesis by blast
qed

text \<open>
  Marking a challenge as used goes through \<open>create\<close>. On a database that refuses to create a
  record whose identifier is taken, no verification of an enabled service succeeds, and a challenge
  is never marked, so it can be tried again without limit.
\<close>

theorem captcha_never_verifies:
  assumes "cw_taken w = Some e" and "captcha_enabled (cw_config w)" and "challenges_keyed t"
  shows "(\<forall>r t'. verify_captcha w now request t = (Inr r, t') \<longrightarrow> \<not> vs_success r) \<and>
    snd (verify_captcha w now request t) = t"
proof -
  have over: "repo_create_challenge w (c\<lparr>ch_used := True, ch_verified := v\<rparr>) t =
      (Inl (unwrap_or e (cw_fail w CreateChallenge)), t)"
    if "t i = Some c" for i c v
  proof -
    have "t (ch_challenge_id c) = Some c" using that assms(3) by (simp add: challenges_keyed_def)
    with assms(1) show ?thesis by (auto simp: repo_create_challenge_def split: option.splits)
  qed
  then have "\<not> vs_success r" if "verify_captcha w now request t = (Inr r, t')" for r t'
    using that assms(2) verify_captcha_success [of w now request t r t'] by (metis Inl_Inr_False prod.inject)
  moreover have "snd (verify_captcha w now request t) = t"
    unfolding verify_captcha_enabled [OF assms(2)]
    using over [of "vr_challenge_id request"] by (simp split: option.split sum.split)
  ultimately show ?thesis by blast
qed

section \<open>Examples\<close>

definition demo_captcha :: "repository_error option \<Rightarrow> captcha_world" where
  "demo_captcha taken =
     \<lparr>cw_config = \<lparr>provider = ''recaptcha'', site_key = ''site'', secret_key = ''secret'', verify_url = ''https://c'',
        min_score = 1, captcha_enabled = True, challenge_lifetime_minutes = 10\<rparr>,
      cw_fail = (\<lambda>_. None), cw_taken = taken,
      cw_recaptcha = (\<lambda>url ps. Inr (Inr \<lparr>rc_success = True, rc_challenge_ts = None, rc_hostname = None,
        rc_error_codes = None, rc_score = Some 2, rc_action = Some ''login''\<rparr>)),
      cw_hcaptcha = (\<lambda>url ps. Inl ''no''), cw_rfc3339 = (\<lambda>s. None), cw_f64_ge = (\<lambda>a b. a \<ge> b)\<rparr>"

definition demo_challenge :: captcha_challenge where
  "demo_challenge = \<lparr>ch_challenge_id = ''captcha_1'', ch_challenge_type = ''recaptcha'', ch_site_key = None,
     ch_question = None, ch_answer = None, ch_created_at = 0, ch_expires_at = 600, ch_used = False,
     ch_verified = False, ch_user_id = None, ch_client_ip = None, ch_user_agent = None, ch_session_id = None\<rparr>"

definition demo_request :: verification_request where
  "demo_request = \<lparr>vr_challenge_id = ''captcha_1'', vr_response = ''ok'', vr_remote_ip = None\<rparr>"

lemmas captcha_eval = demo_captcha_def demo_challenge_def demo_request_def verify_captcha_def get_challenge_def
  bindS_def liftS_def verify_with_provider_def verify_recaptcha_def provider_reply_def allowed_actions_def
  repo_create_challenge_def Let_def

lemma demo_keyed: "challenges_keyed [''captcha_1'' \<mapsto> demo_challenge]"
  by (simp add: challenges_keyed_def demo_challenge_def)

theorem captcha_single_use_witness:
  "\<exists>r t'. verify_captcha (demo_captcha None) 5 demo_request [''captcha_1'' \<mapsto> demo_challenge] = (Inr r, t') \<and>
     vs_success r \<and> \<not> (\<exists>r' t''. verify_captcha (demo_captcha None) 6 demo_request t' = (Inr r', t'') \<and> vs_success r')"
proof -
  obtain r t' where v: "verify_captcha (demo_captcha None) 5 demo_request [''captcha_1'' \<mapsto> demo_challenge] = (Inr r, t')"
    and s: "vs_success r" by (auto simp: captcha_eval)
  have "captcha_enabled (cw_config (demo_captcha None))" by (simp add: demo_captcha_def)
  with captcha_single_use [OF v s _ demo_keyed] v s show ?thesis by blast
qed

theorem captcha_never_verifies_witness:
  "snd (verify_captcha (demo_captcha (Some (Conflict ''taken''))) 5 demo_request [''captcha_1'' \<mapsto> demo_challenge]) =
     [''captcha_1'' \<mapsto> demo_challenge]"
  using captcha_never_verifies [OF _ _ demo_keyed, of "demo_captcha (Some (Conflict ''taken''))"]
  by (simp add: demo_captcha_def)

end
