(* ===== verification/Uia.thy ===== *)
theory Uia
  imports Captcha
begin

text \<open>
  User-interactive authentication: the service \<open>server/src/auth/uia.rs\<close> with the repository of its
  sessions \<open>surrealdb/src/repository/uia.rs\<close>, and the endpoint that changes a password
  (\<open>server/src/_matrix/client/v3/account/password/mod.rs\<close>), which runs the service. Of a user the
  model keeps the password hash, of a login its user and whether it is active. bcrypt, third-party
  identifiers, identifiers and clock readings are arguments; a call of the database fails when
  \<open>uw_fail\<close> gives an error for it.
\<close>

section \<open>Data\<close>

record uia_flow =
  stages :: "string list"

record uia_session =
  us_session_id :: string
  us_user_id :: "string option"
  us_device_id :: "string option"
  us_flows :: "uia_flow list"
  us_completed_stages :: "string list"
  us_current_stage :: "string option"
  us_auth_data :: "string \<rightharpoonup> json"
  us_params :: "string \<rightharpoonup> json"
  us_created_at :: int
  us_expires_at :: int
  us_completed :: bool

record uia_auth =
  ua_auth_type :: string
  ua_session :: "string option"
  ua_auth_data :: members

record uia_auth_response =
  ur_flows :: "uia_flow list"
  ur_params :: "string \<rightharpoonup> json"
  ur_session :: string
  ur_completed :: "string list option"
  ur_error :: "string option"
  ur_errcode :: "string option"

record uia_error_response =
  ue_flows :: "uia_flow list"
  ue_params :: "string \<rightharpoonup> json"
  ue_session :: "string option"
  ue_completed :: "string list option"
  ue_error :: string
  ue_errcode :: string

record user_identifier =
  ui_id_type :: string
  ui_user :: "string option"
  ui_medium :: "string option"
  ui_address :: "string option"

record password_auth =
  pa_password :: string
  pa_user :: "string option"
  pa_identifier :: "user_identifier option"

record threepid_credentials =
  tc_sid :: string
  tc_client_secret :: string
  tc_id_server :: "string option"
  tc_id_access_token :: "string option"

record threepid_session =
  tp_verified :: bool
  tp_expires_at :: int

record login_session =
  ls_user_id :: string
  ls_is_active :: bool

record auth_db =
  uia_sessions :: "string \<rightharpoonup> uia_session"
  captcha_challenges :: challenges
  password_hashes :: "string \<rightharpoonup> string"
  login_sessions :: "login_session list"

datatype uia_call = CreateSession | GetSession | UpdateSession | DeleteSession | CleanupSessions
  | GetUser | UpdateUser | DeactivateSessions

record uia_world =
  uw_homeserver_name :: string
  uw_session_lifetime :: int
  uw_require_captcha :: bool
  uw_require_email_verification :: bool
  uw_fail :: "uia_call \<Rightarrow> repository_error option"
  uw_captcha :: captcha_world
  uw_bcrypt_verify :: "string \<Rightarrow> string \<Rightarrow> bool option"
  uw_bcrypt_hash :: "string \<Rightarrow> string option"
  uw_user_by_threepid :: "string \<Rightarrow> string \<Rightarrow> repository_error + string option"
  uw_threepid_session :: "string \<Rightarrow> string \<Rightarrow> repository_error + threepid_session option"
  uw_debug_auth_error :: "matrix_auth_error \<Rightarrow> string"

record uia_clocks =
  at_session_check :: int
  at_captcha_check :: int
  at_email_check :: int

section \<open>Decoding of stage data\<close>

text \<open>
  The derived decoders: a required string, an optional string (absent or null is none), and structs,
  which are read from an object, ignoring other members, or from an array of all fields in order.
\<close>

definition req_string :: "json option \<Rightarrow> string option" where
  "req_string v = Option.bind v as_str"

definition opt_string :: "json option \<Rightarrow> string option option" where
  "opt_string v =
     (case v of
        None \<Rightarrow> Some None
      | Some JNull \<Rightarrow> Some None
      | Some x \<Rightarrow> map_option Some (as_str x))"

definition struct_fields :: "string list \<Rightarrow> json \<Rightarrow> json option list option" where
  "struct_fields names v =
     (case v of
        JObject ms \<Rightarrow> Some (map (map_of ms) names)
      | JArray xs \<Rightarrow> if length xs = length names then Some (map Some xs) else None
      | _ \<Rightarrow> None)"

definition user_identifier_of :: "json \<Rightarrow> user_identifier option" where
  "user_identifier_of v =
     (case struct_fields [''type'', ''user'', ''medium'', ''address''] v of
        Some [t, u, m, a] \<Rightarrow>
          Option.bind (req_string t) (\<lambda>id_type.
          Option.bind (opt_string u) (\<lambda>user.
          Option.bind (opt_string m) (\<lambda>medium.
          Option.bind (opt_string a) (\<lambda>address.
          Some \<lparr>ui_id_type = id_type, ui_user = user, ui_medium = medium, ui_address = address\<rparr>))))
      | _ \<Rightarrow> None)"

definition password_auth_of :: "members \<Rightarrow> password_auth option" where
  "password_auth_of ms =
     Option.bind (req_string (map_of ms ''password'')) (\<lambda>password.
     Option.bind (opt_string (map_of ms ''user'')) (\<lambda>user.
     Option.bind (case map_of ms ''identifier'' of
                    None \<Rightarrow> Some None
                  | Some JNull \<Rightarrow> Some None
                  | Some v \<Rightarrow> map_option Some (user_identifier_of v)) (\<lambda>identifier.
     Some \<lparr>pa_password = password, pa_user = user, pa_identifier = identifier\<rparr>)))"

definition threepid_credentials_of :: "json \<Rightarrow> threepid_credentials option" where
  "threepid_credentials_of v =
     (case struct_fields [''sid'', ''client_secret'', ''id_server'', ''id_access_token''] v of
        Some [sid, secret, server, token] \<Rightarrow>
          Option.bind (req_string sid) (\<lambda>sid.
          Option.bind (req_string secret) (\<lambda>client_secret.
          Option.bind (opt_string server) (\<lambda>id_server.
          Option.bind (opt_string token) (\<lambda>id_access_token.
          Some \<lparr>tc_sid = sid, tc_client_secret = client_secret, tc_id_server = id_server,
                tc_id_access_token = id_access_token\<rparr>))))
      | _ \<Rightarrow> None)"

section \<open>The repository\<close>

definition result_of :: "repository_error option \<Rightarrow> 'a \<Rightarrow> repository_error + 'a" where
  "result_of failure x = (case failure of Some e \<Rightarrow> Inl e | None \<Rightarrow> Inr x)"

definition create_session ::
  "uia_world \<Rightarrow> string \<Rightarrow> int \<Rightarrow> string option \<Rightarrow> string option \<Rightarrow> uia_flow list \<Rightarrow> (string \<rightharpoonup> json) \<Rightarrow> int \<Rightarrow>
   auth_db \<Rightarrow> (repository_error + uia_session) \<times> auth_db" where
  "create_session w uuid now user_id device_id flows params session_lifetime db =
     (let session_id = ''uia_'' @ uuid;
          session = \<lparr>us_session_id = session_id, us_user_id = user_id, us_device_id = device_id, us_flows = flows,
            us_completed_stages = [], us_current_stage = None, us_auth_data = Map.empty, us_params = params,
            us_created_at = now, us_expires_at = now + session_lifetime, us_completed = False\<rparr>
      in case uw_fail w CreateSession of
           Some e \<Rightarrow> (Inl e, db)
         | None \<Rightarrow> (Inr session, db\<lparr>uia_sessions := (uia_sessions db)(session_id \<mapsto> session)\<rparr>))"

definition get_session :: "uia_world \<Rightarrow> string \<Rightarrow> auth_db \<Rightarrow> repository_error + uia_session option" where
  "get_session w session_id db = result_of (uw_fail w GetSession) (uia_sessions db session_id)"

definition update_session :: "uia_world \<Rightarrow> uia_session \<Rightarrow> auth_db \<Rightarrow> (repository_error + unit) \<times> auth_db" where
  "update_session w session db =
     (case uw_fail w UpdateSession of
        Some e \<Rightarrow> (Inl e, db)
      | None \<Rightarrow>
          (Inr (), if uia_sessions db (us_session_id session) = None then db
                   else db\<lparr>uia_sessions := (uia_sessions db)(us_session_id session \<mapsto> session)\<rparr>))"

definition delete_session :: "uia_world \<Rightarrow> string \<Rightarrow> auth_db \<Rightarrow> (repository_error + unit) \<times> auth_db" where
  "delete_session w session_id db =
     (case uw_fail w DeleteSession of
        Some e \<Rightarrow> (Inl e, db)
      | None \<Rightarrow> (Inr (), db\<lparr>uia_sessions := (uia_sessions db)(session_id := None)\<rparr>))"

definition is_session_valid :: "uia_world \<Rightarrow> int \<Rightarrow> string \<Rightarrow> auth_db \<Rightarrow> repository_error + bool" where
  "is_session_valid w now session_id db =
     bindR (get_session w session_id db) (\<lambda>s.
     Inr (case s of Some session \<Rightarrow> now \<le> us_expires_at session | None \<Rightarrow> False))"

definition flow_done :: "string list \<Rightarrow> uia_flow list \<Rightarrow> bool" where
  "flow_done completed flows =
     list_ex (\<lambda>flow. list_all (\<lambda>stage. List.member completed stage) (stages flow)) flows"

definition complete_stage ::
  "uia_world \<Rightarrow> string \<Rightarrow> string \<Rightarrow> auth_db \<Rightarrow> (repository_error + uia_session) \<times> auth_db" where
  "complete_stage w session_id stage db =
     (case get_session w session_id db of
        Inl e \<Rightarrow> (Inl e, db)
      | Inr None \<Rightarrow> (Inl (NotFound ''UiaSession'' session_id), db)
      | Inr (Some session) \<Rightarrow>
          if \<not> List.member (us_completed_stages session) stage
          then (let completed = us_completed_stages session @ [stage];
                    session' = session\<lparr>us_completed_stages := completed,
                      us_completed := (if flow_done completed (us_flows session) then True else us_completed session)\<rparr>
                in case uw_fail w UpdateSession of
                     Some e \<Rightarrow> (Inl e, db)
                   | None \<Rightarrow> (Inr session', db\<lparr>uia_sessions := (uia_sessions db)(session_id \<mapsto> session')\<rparr>))
          else (Inr session, db))"

definition repo_cleanup_sessions :: "uia_world \<Rightarrow> int \<Rightarrow> nat option \<Rightarrow> auth_db \<Rightarrow> (repository_error + nat) \<times> auth_db" where
  "repo_cleanup_sessions w now deleted db =
     (case uw_fail w CleanupSessions of
        Some e \<Rightarrow> (Inl e, db)
      | None \<Rightarrow>
          (Inr (unwrap_or 0 deleted),
           db\<lparr>uia_sessions := (\<lambda>i. case uia_sessions db i of
                Some s \<Rightarrow> if us_expires_at s < now then None else Some s | None \<Rightarrow> None)\<rparr>))"

text \<open>\<open>invalidate_user_sessions\<close> and \<open>revoke_user_sessions\<close> run the same query.\<close>

definition invalidate_user_sessions :: "uia_world \<Rightarrow> string \<Rightarrow> nat option \<Rightarrow> auth_db \<Rightarrow> (repository_error + nat) \<times> auth_db" where
  "invalidate_user_sessions w user_id deleted db =
     (case uw_fail w DeleteSession of
        Some e \<Rightarrow> (Inl e, db)
      | None \<Rightarrow>
          (Inr (unwrap_or 0 deleted),
           db\<lparr>uia_sessions := (\<lambda>i. case uia_sessions db i of
                Some s \<Rightarrow> if us_user_id s = Some user_id then None else Some s | None \<Rightarrow> None)\<rparr>))"

section \<open>Starting a session\<close>

text \<open>The service draws an identifier of its own beside the one of the repository.\<close>

definition start_session ::
  "uia_world \<Rightarrow> string \<Rightarrow> int \<Rightarrow> string \<Rightarrow> int \<Rightarrow> string option \<Rightarrow> string option \<Rightarrow> uia_flow list \<Rightarrow>
   (string \<rightharpoonup> json) \<Rightarrow> auth_db \<Rightarrow> (matrix_auth_error + uia_session) \<times> auth_db" where
  "start_session w uuid now repo_uuid repo_now user_id device_id flows params db =
     (case create_session w repo_uuid repo_now user_id device_id flows params (uw_session_lifetime w) db of
        (Inl e, db') \<Rightarrow> (Inl (A_DatabaseError (''Failed to create UIA session: '' @ repository_error_text e)), db')
      | (Inr _, db') \<Rightarrow>
          (Inr \<lparr>us_session_id = ''uia_'' @ uuid, us_user_id = user_id, us_device_id = device_id, us_flows = flows,
             us_completed_stages = [], us_current_stage = None, us_auth_data = Map.empty, us_params = params,
             us_created_at = now, us_expires_at = now + uw_session_lifetime w, us_completed = False\<rparr>, db'))"

definition get_default_flows :: "uia_world \<Rightarrow> uia_flow list" where
  "get_default_flows w =
     [\<lparr>stages = [''m.login.password'']\<rparr>] @
     (if uw_require_captcha w then [\<lparr>stages = [''m.login.recaptcha'', ''m.login.password'']\<rparr>] else []) @
     (if uw_require_email_verification w
      then [\<lparr>stages = [''m.login.email.identity'', ''m.login.password'']\<rparr>] else [])"

section \<open>Stages\<close>

definition resolve_threepid ::
  "uia_world \<Rightarrow> string \<Rightarrow> string \<Rightarrow> string \<Rightarrow> matrix_auth_error + string" where
  "resolve_threepid w failure medium address =
     (case uw_user_by_threepid w medium address of
        Inr (Some user_id) \<Rightarrow> Inr user_id
      | Inr None \<Rightarrow> Inl A_InvalidCredentials
      | Inl _ \<Rightarrow> Inl (A_DatabaseError failure))"

definition resolve_user_identifier :: "uia_world \<Rightarrow> user_identifier \<Rightarrow> matrix_auth_error + string" where
  "resolve_user_identifier w identifier =
     (if ui_id_type identifier = ''m.id.user''
      then (case ui_user identifier of
              Some user \<Rightarrow>
                if contains user CHR '':'' then Inr user
                else Inr (''@'' @ user @ '':'' @ uw_homeserver_name w)
            | None \<Rightarrow> Inl A_InvalidXMatrixFormat)
      else if ui_id_type identifier = ''m.id.thirdparty''
      then bindR (ok_or (ui_medium identifier) A_InvalidXMatrixFormat) (\<lambda>medium.
           bindR (ok_or (ui_address identifier) A_InvalidXMatrixFormat) (\<lambda>address.
           resolve_threepid w ''Failed to resolve user identifier'' medium address))
      else if ui_id_type identifier = ''m.id.phone''
      then bindR (ok_or (ui_address identifier) A_InvalidXMatrixFormat) (\<lambda>phone.
           resolve_threepid w ''Failed to resolve phone identifier'' ''msisdn'' phone)
      else Inl A_InvalidXMatrixFormat)"

definition verify_user_password :: "uia_world \<Rightarrow> string \<Rightarrow> string \<Rightarrow> auth_db \<Rightarrow> matrix_auth_error + bool" where
  "verify_user_password w user_id password db =
     (case result_of (uw_fail w GetUser) (password_hashes db user_id) of
        Inr (Some password_hash) \<Rightarrow> Inr (uw_bcrypt_verify w password password_hash = Some True)
      | Inr None \<Rightarrow> Inr False
      | Inl _ \<Rightarrow> Inl (A_DatabaseError ''Failed to get user''))"

definition verify_captcha_response ::
  "uia_world \<Rightarrow> int \<Rightarrow> string \<Rightarrow> challenges \<Rightarrow> (matrix_auth_error + bool) \<times> challenges" where
  "verify_captcha_response w now response t =
     (case verify_captcha (uw_captcha w) now
             \<lparr>vr_challenge_id = ''challenge_from_session'', vr_response = response, vr_remote_ip = None\<rparr> t of
        (Inr r, t') \<Rightarrow> (Inr (vs_success r), t')
      | (Inl _, t') \<Rightarrow> (Inr False, t'))"

definition verify_email_token :: "uia_world \<Rightarrow> int \<Rightarrow> threepid_credentials \<Rightarrow> matrix_auth_error + bool" where
  "verify_email_token w now creds =
     (case uw_threepid_session w (tc_sid creds) (tc_client_secret creds) of
        Inr (Some session) \<Rightarrow> Inr (tp_verified session \<and> \<not> now > tp_expires_at session)
      | Inr None \<Rightarrow> Inr False
      | Inl _ \<Rightarrow> Inl (A_DatabaseError ''Failed to validate email token''))"

text \<open>A stage ends with an error, or with whether it succeeded and the session afterwards.\<close>

definition mark_stage :: "string \<Rightarrow> string \<Rightarrow> uia_session \<Rightarrow> uia_session" where
  "mark_stage stage key session =
     session\<lparr>us_completed_stages := us_completed_stages session @ [stage],
             us_auth_data := (us_auth_data session)(key \<mapsto> JBool True)\<rparr>"

definition password_subject :: "uia_world \<Rightarrow> uia_session \<Rightarrow> password_auth \<Rightarrow> matrix_auth_error + string" where
  "password_subject w session auth =
     (case us_user_id session of
        Some user_id \<Rightarrow> Inr user_id
      | None \<Rightarrow>
          (case pa_identifier auth of
             Some identifier \<Rightarrow> resolve_user_identifier w identifier
           | None \<Rightarrow> ok_or (pa_user auth) A_InvalidXMatrixFormat))"

definition process_password_auth ::
  "uia_world \<Rightarrow> uia_session \<Rightarrow> uia_auth \<Rightarrow> auth_db \<Rightarrow> matrix_auth_error + (bool \<times> uia_session)" where
  "process_password_auth w session auth db =
     bindR (ok_or (password_auth_of (ua_auth_data auth)) A_InvalidXMatrixFormat) (\<lambda>password_auth.
     bindR (password_subject w session password_auth) (\<lambda>user_id.
     bindR (verify_user_password w user_id (pa_password password_auth) db) (\<lambda>valid.
     if valid then Inr (True, mark_stage ''m.login.password'' ''password_verified'' session)
     else Inr (False, session))))"

definition process_captcha_auth ::
  "uia_world \<Rightarrow> int \<Rightarrow> uia_session \<Rightarrow> uia_auth \<Rightarrow> challenges \<Rightarrow>
   (matrix_auth_error + (bool \<times> uia_session)) \<times> challenges" where
  "process_captcha_auth w now session auth =
     bindS (liftS (ok_or (req_string (map_of (ua_auth_data auth) ''response'')) A_InvalidXMatrixFormat)) (\<lambda>response.
     bindS (verify_captcha_response w now response) (\<lambda>valid.
     liftS (if valid then Inr (True, mark_stage ''m.login.recaptcha'' ''captcha_verified'' session)
            else Inr (False, session))))"

definition process_email_auth ::
  "uia_world \<Rightarrow> int \<Rightarrow> uia_session \<Rightarrow> uia_auth \<Rightarrow> matrix_auth_error + (bool \<times> uia_session)" where
  "process_email_auth w now session auth =
     bindR (ok_or (Option.bind (map_of (ua_auth_data auth) ''threepid_creds'') threepid_credentials_of)
              A_InvalidXMatrixFormat) (\<lambda>creds.
     bindR (verify_email_token w now creds) (\<lambda>valid.
     if valid then Inr (True, mark_stage ''m.login.email.identity'' ''email_verified'' session)
     else Inr (False, session)))"

definition process_terms_auth :: "uia_session \<Rightarrow> matrix_auth_error + (bool \<times> uia_session)" where
  "process_terms_auth session = Inr (True, mark_stage ''m.login.terms'' ''terms_accepted'' session)"

definition process_auth_stage ::
  "uia_world \<Rightarrow> uia_clocks \<Rightarrow> uia_session \<Rightarrow> uia_auth \<Rightarrow> auth_db \<Rightarrow>
   (matrix_auth_error + (bool \<times> uia_session)) \<times> auth_db" where
  "process_auth_stage w ck session auth db =
     (if ua_auth_type auth = ''m.login.password'' then (process_password_auth w session auth db, db)
      else if ua_auth_type auth = ''m.login.recaptcha''
      then (case process_captcha_auth w (at_captcha_check ck) session auth (captcha_challenges db) of
              (r, t) \<Rightarrow> (r, db\<lparr>captcha_challenges := t\<rparr>))
      else if ua_auth_type auth = ''m.login.email.identity''
      then (process_email_auth w (at_email_check ck) session auth, db)
      else if ua_auth_type auth = ''m.login.terms'' then (process_terms_auth session, db)
      else (Inl A_InvalidXMatrixFormat, db))"

definition is_flow_completed :: "uia_session \<Rightarrow> bool" where
  "is_flow_completed session = flow_done (us_completed_stages session) (us_flows session)"

section \<open>Processing a request\<close>

definition session_error :: "uia_session \<Rightarrow> string \<Rightarrow> string \<Rightarrow> string \<Rightarrow> uia_error_response" where
  "session_error session session_id error errcode =
     \<lparr>ue_flows = us_flows session, ue_params = us_params session, ue_session = Some session_id,
      ue_completed = Some (us_completed_stages session), ue_error = error, ue_errcode = errcode\<rparr>"

definition process_auth ::
  "uia_world \<Rightarrow> uia_clocks \<Rightarrow> string \<Rightarrow> uia_auth \<Rightarrow> auth_db \<Rightarrow>
   (uia_error_response + uia_auth_response) \<times> auth_db" where
  "process_auth w ck session_id auth db =
     (case get_session w session_id db of
        Inr (Some session) \<Rightarrow>
          if at_session_check ck > us_expires_at session
          then (Inl (session_error session session_id ''Session expired'' ''M_UNKNOWN''), db)
          else (case process_auth_stage w ck session auth db of
                  (Inr (True, session1), db1) \<Rightarrow>
                    let session2 = (if is_flow_completed session1 then session1\<lparr>us_completed := True\<rparr> else session1)
                    in (case update_session w session2 db1 of
                          (Inl _, db2) \<Rightarrow>
                            (Inl (session_error session2 session_id ''Failed to update session'' ''M_UNKNOWN''), db2)
                        | (Inr _, db2) \<Rightarrow>
                            if is_flow_completed session1
                            then (Inr \<lparr>ur_flows = us_flows session2, ur_params = us_params session2,
                                       ur_session = session_id, ur_completed = Some (us_completed_stages session2),
                                       ur_error = None, ur_errcode = None\<rparr>, db2)
                            else (Inl (session_error session2 session_id ''Additional authentication required''
                                         ''M_FORBIDDEN''), db2))
                | (Inr (False, session1), db1) \<Rightarrow>
                    (Inl (session_error session1 session_id ''Authentication failed'' ''M_FORBIDDEN''), db1)
                | (Inl e, db1) \<Rightarrow>
                    (Inl (session_error session session_id (''Authentication error: '' @ uw_debug_auth_error w e)
                            ''M_FORBIDDEN''), db1))
      | _ \<Rightarrow>
          (Inl \<lparr>ue_flows = get_default_flows w, ue_params = Map.empty, ue_session = None, ue_completed = None,
                ue_error = ''Invalid session'', ue_errcode = ''M_UNKNOWN''\<rparr>, db))"

definition read_session :: "uia_world \<Rightarrow> string \<Rightarrow> auth_db \<Rightarrow> matrix_auth_error + uia_session" where
  "read_session w session_id db =
     bindR (map_err (\<lambda>e. A_DatabaseError (''Failed to get UIA session: '' @ repository_error_text e))
              (get_session w session_id db)) (\<lambda>s. ok_or s A_UnknownToken)"

definition is_session_completed :: "uia_world \<Rightarrow> string \<Rightarrow> auth_db \<Rightarrow> matrix_auth_error + bool" where
  "is_session_completed w session_id db = bindR (read_session w session_id db) (\<lambda>s. Inr (us_completed s))"

definition get_session_data :: "uia_world \<Rightarrow> string \<Rightarrow> auth_db \<Rightarrow> matrix_auth_error + (string \<rightharpoonup> json)" where
  "get_session_data w session_id db = bindR (read_session w session_id db) (\<lambda>s. Inr (us_auth_data s))"

definition cleanup_expired_sessions ::
  "uia_world \<Rightarrow> int \<Rightarrow> nat option \<Rightarrow> auth_db \<Rightarrow> (matrix_auth_error + nat) \<times> auth_db" where
  "cleanup_expired_sessions w now deleted db =
     (case repo_cleanup_sessions w now deleted db of
        (r, db') \<Rightarrow> (map_err (\<lambda>e. A_DatabaseError (''Failed to cleanup UIA sessions: '' @ repository_error_text e)) r, db'))"

section \<open>Changing a password\<close>

record password_change_request =
  pc_new_password :: string
  pc_logout_devices :: "bool option"
  pc_auth :: "uia_auth option"

datatype password_answer =
    PasswordChanged
  | UiaFailed uia_error_response
  | UiaChallenge "uia_flow list" string bool

definition password_flows :: "uia_flow list" where
  "password_flows =
     [\<lparr>stages = [''m.login.password'']\<rparr>, \<lparr>stages = [''m.login.recaptcha'', ''m.login.password'']\<rparr>]"

definition deactivate_all_user_sessions :: "uia_world \<Rightarrow> string \<Rightarrow> auth_db \<Rightarrow> (repository_error + unit) \<times> auth_db" where
  "deactivate_all_user_sessions w user_id db =
     (case uw_fail w DeactivateSessions of
        Some e \<Rightarrow> (Inl e, db)
      | None \<Rightarrow> (Inr (), db\<lparr>login_sessions :=
          map (\<lambda>l. if ls_user_id l = user_id then l\<lparr>ls_is_active := False\<rparr> else l) (login_sessions db)\<rparr>))"

definition change_password :: "uia_world \<Rightarrow> string \<Rightarrow> password_change_request \<Rightarrow> auth_db \<Rightarrow> (matrix_error + unit) \<times> auth_db" where
  "change_password w user_id request =
     bindS (liftS (ok_or (uw_bcrypt_hash w (pc_new_password request)) M_Unknown)) (\<lambda>password_hash.
     bindS (\<lambda>db. (bindR (map_err (\<lambda>_. M_Unknown) (result_of (uw_fail w GetUser) (password_hashes db user_id)))
                    (\<lambda>u. ok_or u M_NotFound), db)) (\<lambda>_.
     bindS (\<lambda>db. case uw_fail w UpdateUser of
                    Some _ \<Rightarrow> (Inl M_Unknown, db)
                  | None \<Rightarrow> (Inr (), db\<lparr>password_hashes := (password_hashes db)(user_id \<mapsto> password_hash)\<rparr>)) (\<lambda>_.
     if unwrap_or False (pc_logout_devices request)
     then (\<lambda>db. case deactivate_all_user_sessions w user_id db of (r, db') \<Rightarrow> (map_err (\<lambda>_. M_Unknown) r, db'))
     else liftS (Inr ()))))"

definition post_password ::
  "uia_world \<Rightarrow> uia_clocks \<Rightarrow> string \<Rightarrow> int \<Rightarrow> string \<Rightarrow> int \<Rightarrow> string \<Rightarrow> password_change_request \<Rightarrow>
   auth_db \<Rightarrow> (matrix_error + password_answer) \<times> auth_db" where
  "post_password w ck uuid now repo_uuid repo_now user_id request db =
     (case pc_auth request of
        Some uia_auth \<Rightarrow>
          (case ua_session uia_auth of
             None \<Rightarrow> (Inl M_InvalidParam, db)
           | Some session_id \<Rightarrow>
               if session_id = [] then (Inl M_InvalidParam, db)
               else (case process_auth w ck session_id uia_auth db of
                       (Inr _, db') \<Rightarrow> bindS (change_password w user_id request) (\<lambda>_. liftS (Inr PasswordChanged)) db'
                     | (Inl uia_error, db') \<Rightarrow> (Inr (UiaFailed uia_error), db')))
      | None \<Rightarrow>
          (case start_session w uuid now repo_uuid repo_now (Some user_id) None password_flows Map.empty db of
             (Inl _, db') \<Rightarrow> (Inl M_Unknown, db')
           | (Inr session, db') \<Rightarrow>
               (Inr (UiaChallenge password_flows (us_session_id session) (us_completed session)), db')))"

section \<open>Verified stages\<close>

text \<open>What a stage of a stored session needs to succeed.\<close>

definition stage_evidence :: "uia_world \<Rightarrow> uia_clocks \<Rightarrow> uia_session \<Rightarrow> uia_auth \<Rightarrow> auth_db \<Rightarrow> bool" where
  "stage_evidence w ck session auth db \<longleftrightarrow>
     (if ua_auth_type auth = ''m.login.password''
      then (\<exists>pa user_id hash. password_auth_of (ua_auth_data auth) = Some pa \<and>
              password_subject w session pa = Inr user_id \<and> password_hashes db user_id = Some hash \<and>
              uw_bcrypt_verify w (pa_password pa) hash = Some True)
      else if ua_auth_type auth = ''m.login.recaptcha''
      then (\<exists>response. req_string (map_of (ua_auth_data auth) ''response'') = Some response \<and>
              fst (verify_captcha_response w (at_captcha_check ck) response (captcha_challenges db)) = Inr True)
      else if ua_auth_type auth = ''m.login.email.identity''
      then (\<exists>v creds ts. map_of (ua_auth_data auth) ''threepid_creds'' = Some v \<and>
              threepid_credentials_of v = Some creds \<and>
              uw_threepid_session w (tc_sid creds) (tc_client_secret creds) = Inr (Some ts) \<and>
              tp_verified ts \<and> at_email_check ck \<le> tp_expires_at ts)
      else ua_auth_type auth = ''m.login.terms'')"

definition stage_verified :: "uia_world \<Rightarrow> uia_clocks \<Rightarrow> string \<Rightarrow> uia_auth \<Rightarrow> auth_db \<Rightarrow> bool" where
  "stage_verified w ck session_id auth db \<longleftrightarrow>
     (\<exists>session. uia_sessions db session_id = Some session \<and> at_session_check ck \<le> us_expires_at session \<and>
        stage_evidence w ck session auth db)"

lemma result_of_Inr [result_simps]: "result_of failure x = Inr y \<longleftrightarrow> failure = None \<and> y = x"
  by (auto simp: result_of_def split: option.splits)

lemma verify_user_password_True:
  "verify_user_password w u p db = Inr True \<longleftrightarrow>
     uw_fail w GetUser = None \<and> (\<exists>hash. password_hashes db u = Some hash \<and> uw_bcrypt_verify w p hash = Some True)"
  by (auto simp: verify_user_password_def result_of_def split: option.splits)

lemma verify_email_token_True:
  "verify_email_token w now creds = Inr True \<longleftrightarrow>
     (\<exists>ts. uw_threepid_session w (tc_sid creds) (tc_client_secret creds) = Inr (Some ts) \<and>
        tp_verified ts \<and> now \<le> tp_expires_at ts)"
  by (auto simp: verify_email_token_def split: sum.splits option.splits)

lemma captcha_auth_True:
  "process_captcha_auth w now session auth t = (Inr (True, session1), t') \<longleftrightarrow>
     (\<exists>response. req_string (map_of (ua_auth_data auth) ''response'') = Some response \<and>
        verify_captcha_response w now response t = (Inr True, t')) \<and>
     session1 = mark_stage ''m.login.recaptcha'' ''captcha_verified'' session"
  by (auto simp: process_captcha_auth_def result_simps split: if_splits)

lemma process_auth_stage_True:
  assumes "process_auth_stage w ck session auth db = (Inr (True, session1), db1)"
  shows "stage_evidence w ck session auth db \<and>
    us_completed_stages session1 = us_completed_stages session @ [ua_auth_type auth] \<and>
    us_session_id session1 = us_session_id session \<and> us_flows session1 = us_flows session \<and>
    us_completed session1 = us_completed session"
  using assms
  by (auto simp: process_auth_stage_def stage_evidence_def process_password_auth_def process_email_auth_def
      process_terms_auth_def captcha_auth_True verify_user_password_True verify_email_token_True mark_stage_def
      bind_eq_Some_conv result_simps split: if_splits prod.splits)

lemma process_auth_stage_db:
  assumes "process_auth_stage w ck session auth db = (r, db1)"
  shows "uia_sessions db1 = uia_sessions db \<and> password_hashes db1 = password_hashes db \<and>
    login_sessions db1 = login_sessions db"
  using assms by (auto simp: process_auth_stage_def split: if_splits prod.splits)

text \<open>The ways a request ends, as far as the table of sessions is concerned.\<close>

lemma process_auth_cases:
  assumes "process_auth w ck session_id auth db = (r, db')"
  obtains (refused) e where "r = Inl e" "uia_sessions db' = uia_sessions db" "password_hashes db' = password_hashes db"
  | (stored) session session1 where "uia_sessions db session_id = Some session"
      "at_session_check ck \<le> us_expires_at session" "stage_evidence w ck session auth db"
      "us_completed_stages session1 = us_completed_stages session @ [ua_auth_type auth]"
      "us_session_id session1 = us_session_id session" "us_flows session1 = us_flows session"
      "us_completed session1 \<longleftrightarrow> us_completed session \<or> is_flow_completed session1"
      "uia_sessions db' = (if uia_sessions db (us_session_id session1) = None then uia_sessions db
         else (uia_sessions db)(us_session_id session1 \<mapsto> session1))"
      "(\<exists>resp. r = Inr resp) \<longleftrightarrow> is_flow_completed session1" "password_hashes db' = password_hashes db"
proof (cases "get_session w session_id db")
  case (Inl e)
  with assms refused show ?thesis by (auto simp: process_auth_def)
next
  case (Inr found)
  show ?thesis
  proof (cases found)
    case None
    with Inr assms refused show ?thesis by (auto simp: process_auth_def)
  next
    case (Some session)
    have sess: "uia_sessions db session_id = Some session"
      using Inr Some by (auto simp: get_session_def result_simps)
    show ?thesis
    proof (cases "at_session_check ck > us_expires_at session")
      case True
      with Inr Some assms refused show ?thesis by (auto simp: process_auth_def)
    next
      case False
      obtain r1 db1 where stage: "process_auth_stage w ck session auth db = (r1, db1)" by fastforce
      note db1 = process_auth_stage_db [OF stage]
      show ?thesis
      proof (cases "\<exists>session1. r1 = Inr (True, session1)")
        case True
        then obtain session0 where r1: "r1 = Inr (True, session0)" by blast
        let ?s = "if is_flow_completed session0 then session0\<lparr>us_completed := True\<rparr> else session0"
        have same: "is_flow_completed ?s = is_flow_completed session0" by (simp add: is_flow_completed_def)
        note ev = process_auth_stage_True [OF stage [unfolded r1]]
        obtain ru db2 where upd: "update_session w ?s db1 = (ru, db2)" by fastforce
        show ?thesis
        proof (cases ru)
          case (Inl e)
          have "r = Inl (session_error ?s session_id ''Failed to update session'' ''M_UNKNOWN'')" "db' = db2" "db2 = db1"
            using assms upd stage r1 Inl \<open>get_session w session_id db = Inr found\<close> Some False
            by (auto simp: process_auth_def update_session_def Let_def split: option.splits)
          then show ?thesis using refused db1 by simp
        next
          case (Inr u)
          have res: "(\<exists>resp. r = Inr resp) \<longleftrightarrow> is_flow_completed session0" "db' = db2"
            using assms upd stage r1 Inr \<open>get_session w session_id db = Inr found\<close> Some False
            by (auto simp: process_auth_def Let_def split: if_splits)
          have "uia_sessions db2 = (if uia_sessions db (us_session_id ?s) = None then uia_sessions db
              else (uia_sessions db)(us_session_id ?s \<mapsto> ?s))" "password_hashes db2 = password_hashes db"
            using upd Inr db1 by (auto simp: update_session_def split: option.splits if_splits)
          with stored [of session ?s] sess False ev res same show ?thesis by auto
        qed
      next
        case False
        with \<open>\<not> at_session_check ck > us_expires_at session\<close> have "\<exists>e. r = Inl e" "db' = db1"
          using assms stage Inr Some by (auto simp: process_auth_def split: sum.splits prod.splits bool.splits)
        then show ?thesis using refused db1 by blast
      qed
    qed
  qed
qed

section \<open>Runs of the service\<close>

text \<open>
  Calls one after the other, each in its own surroundings, with the set of stages that have been
  verified so far. Other parts of the server may change everything but the table of sessions.
\<close>

inductive uia_run :: "(string \<times> string) set \<Rightarrow> auth_db \<Rightarrow> bool" where
  empty: "uia_sessions db = Map.empty \<Longrightarrow> uia_run {} db"
| starts: "uia_run D db \<Longrightarrow>
    start_session w uuid now repo_uuid repo_now user_id device_id flows params db = (r, db') \<Longrightarrow> uia_run D db'"
| works: "uia_run D db \<Longrightarrow> process_auth w ck session_id auth db = (r, db') \<Longrightarrow>
    uia_run (D \<union> {(session_id, ua_auth_type auth) | x :: unit. stage_verified w ck session_id auth db}) db'"
| deletes: "uia_run D db \<Longrightarrow> delete_session w session_id db = (r, db') \<Longrightarrow> uia_run D db'"
| cleans: "uia_run D db \<Longrightarrow> repo_cleanup_sessions w now deleted db = (r, db') \<Longrightarrow> uia_run D db'"
| revokes: "uia_run D db \<Longrightarrow> invalidate_user_sessions w user_id deleted db = (r, db') \<Longrightarrow> uia_run D db'"
| others: "uia_run D db \<Longrightarrow> uia_sessions db' = uia_sessions db \<Longrightarrow> uia_run D db'"

definition sessions_backed :: "(string \<times> string) set \<Rightarrow> auth_db \<Rightarrow> bool" where
  "sessions_backed D db \<longleftrightarrow>
     (\<forall>i s. uia_sessions db i = Some s \<longrightarrow> us_session_id s = i \<and>
        (\<forall>stage \<in> set (us_completed_stages s). (i, stage) \<in> D) \<and> (us_completed s \<longrightarrow> is_flow_completed s))"

lemma sessions_backedD:
  assumes "sessions_backed D db" and "uia_sessions db i = Some s"
  shows "us_session_id s = i" and "\<forall>stage \<in> set (us_completed_stages s). (i, stage) \<in> D"
    and "us_completed s \<Longrightarrow> is_flow_completed s"
  using assms by (auto simp: sessions_backed_def)

lemma backed_part:
  assumes "sessions_backed D db" and "\<And>i s. uia_sessions db' i = Some s \<Longrightarrow> uia_sessions db i = Some s"
  shows "sessions_backed D db'"
  using assms unfolding sessions_backed_def by blast

lemma flow_done_mono: "flow_done xs flows \<Longrightarrow> set xs \<subseteq> set ys \<Longrightarrow> flow_done ys flows"
  unfolding flow_done_def list_ex_iff list_all_iff by (auto simp: List.member_iff subset_iff)

lemma backed_process_auth:
  assumes inv: "sessions_backed D db" and run: "process_auth w ck session_id auth db = (r, db')"
  shows "sessions_backed (D \<union> {(session_id, ua_auth_type auth) | x :: unit. stage_verified w ck session_id auth db}) db'"
  using run
proof (cases rule: process_auth_cases)
  case (refused e)
  then show ?thesis using inv by (auto simp: sessions_backed_def)
next
  case (stored session session1)
  have v: "stage_verified w ck session_id auth db" using stored(1-3) by (auto simp: stage_verified_def)
  have id: "us_session_id session1 = session_id" using stored(5) sessions_backedD(1) [OF inv stored(1)] by simp
  have "us_completed session1 \<Longrightarrow> is_flow_completed session1"
    using stored(4,6,7) sessions_backedD(3) [OF inv stored(1)]
      flow_done_mono [of "us_completed_stages session" _ "us_completed_stages session1"]
    by (auto simp: is_flow_completed_def)
  then show ?thesis
    using inv stored(4,8) id v sessions_backedD(2) [OF inv stored(1)]
    by (auto simp: sessions_backed_def split: if_splits)
qed

lemma run_backed: "uia_run D db \<Longrightarrow> sessions_backed D db"
proof (induction rule: uia_run.induct)
  case (empty db)
  then show ?case by (simp add: sessions_backed_def)
next
  case (starts D db w uuid now repo_uuid repo_now user_id device_id flows params r db')
  then show ?case
    by (auto simp: sessions_backed_def start_session_def create_session_def Let_def
        split: option.splits prod.splits sum.splits if_splits)
next
  case (works D db w ck session_id auth r db')
  then show ?case by (blast intro: backed_process_auth)
next
  case (deletes D db w session_id r db')
  then show ?case by (auto simp: delete_session_def elim!: backed_part split: option.splits if_splits)
next
  case (cleans D db w now deleted r db')
  then show ?case by (auto simp: repo_cleanup_sessions_def elim!: backed_part split: option.splits if_splits)
next
  case (revokes D db w user_id deleted r db')
  then show ?case by (auto simp: invalidate_user_sessions_def elim!: backed_part split: option.splits if_splits)
next
  case (others D db db')
  then show ?case by (simp add: sessions_backed_def)
qed

lemma completion_sound:
  assumes "uia_run D db" and "process_auth w ck session_id auth db = (Inr resp, db')"
  shows "\<exists>session flow. uia_sessions db session_id = Some session \<and> at_session_check ck \<le> us_expires_at session \<and>
    stage_evidence w ck session auth db \<and> flow \<in> set (us_flows session) \<and>
    (\<forall>stage \<in> set (stages flow). (session_id, stage) \<in> D \<or> stage = ua_auth_type auth)"
  using assms(2)
proof (cases rule: process_auth_cases)
  case (stored session session1)
  then obtain flow where "flow \<in> set (us_flows session)"
    "\<forall>stage \<in> set (stages flow). stage \<in> set (us_completed_stages session) \<or> stage = ua_auth_type auth"
    by (auto simp: is_flow_completed_def flow_done_def list_ex_iff list_all_iff List.member_iff)
  moreover have "\<forall>stage \<in> set (us_completed_stages session). (session_id, stage) \<in> D"
    using sessions_backedD(2) [OF run_backed [OF assms(1)] stored(1)] .
  ultimately show ?thesis using stored(1-3) by blast
qed simp

section \<open>Claims\<close>

text \<open>
  C29. Authentication completes only after its stages. When in any run of the service a request is
  answered with success, its session was stored and had not expired, the stage of the request was
  verified, and for one flow of the session every stage was verified, now or by an earlier request of
  the same session.
\<close>

theorem uia_completion_sound:
  assumes "uia_run D db" and "process_auth w ck session_id auth db = (Inr resp, db')"
  shows "\<exists>session flow. uia_sessions db session_id = Some session \<and> at_session_check ck \<le> us_expires_at session \<and>
    stage_evidence w ck session auth db \<and> flow \<in> set (us_flows session) \<and>
    (\<forall>stage \<in> set (stages flow). (session_id, stage) \<in> D \<or> stage = ua_auth_type auth)"
  using assms by (rule completion_sound)

text \<open>
  The session a client is told about does not exist: the service stores the session under one
  identifier and returns another, so every request with the returned one is refused as an invalid
  session, however long the client tries.
\<close>

theorem started_session_unknown:
  assumes "start_session w uuid now repo_uuid repo_now user_id device_id flows params db = (Inr session, db')"
    and "uuid \<noteq> repo_uuid" and "uia_sessions db (us_session_id session) = None"
  shows "\<exists>e. process_auth w' ck (us_session_id session) auth db' = (Inl e, db') \<and> ue_error e = ''Invalid session''"
proof -
  have "us_session_id session = ''uia_'' @ uuid" "uia_sessions db' (''uia_'' @ uuid) = uia_sessions db (''uia_'' @ uuid)"
    using assms(1,2) by (auto simp: start_session_def create_session_def Let_def split: option.splits)
  then have "get_session w' (us_session_id session) db' \<noteq> Inr (Some s)" for s
    using assms(3) by (auto simp: get_session_def result_simps)
  then show ?thesis
    by (cases "get_session w' (us_session_id session) db'") (auto simp: process_auth_def split: option.splits)
qed

lemma change_password_ok:
  "change_password w user_id request db = (Inr (), db') \<longleftrightarrow>
     (\<exists>hash. uw_bcrypt_hash w (pc_new_password request) = Some hash \<and> uw_fail w GetUser = None \<and>
        password_hashes db user_id \<noteq> None \<and> uw_fail w UpdateUser = None \<and>
        (if unwrap_or False (pc_logout_devices request)
         then uw_fail w DeactivateSessions = None \<and> db' = db\<lparr>password_hashes := (password_hashes db)(user_id \<mapsto> hash),
           login_sessions := map (\<lambda>l. if ls_user_id l = user_id then l\<lparr>ls_is_active := False\<rparr> else l) (login_sessions db)\<rparr>
         else db' = db\<lparr>password_hashes := (password_hashes db)(user_id \<mapsto> hash)\<rparr>))"
  by (auto simp: change_password_def deactivate_all_user_sessions_def result_simps split: option.splits if_splits)

text \<open>
  C30. A password changes only after a completed authentication: in any run, when the password
  endpoint reports a change, the request named a stored session that had not expired at the time of
  the request, the stage of the request was verified, for one flow of the session every other stage
  had been verified by earlier requests of the same session, and exactly the hash of the requesting
  user is replaced. Whose session it is does not matter (\<open>foreign_session_changes_password\<close>).
\<close>

theorem password_change_sound:
  assumes "uia_run D db"
    and "post_password w ck uuid now repo_uuid repo_now user_id request db = (Inr PasswordChanged, db')"
  shows "\<exists>auth session_id session flow hash. pc_auth request = Some auth \<and> ua_session auth = Some session_id \<and>
    uia_sessions db session_id = Some session \<and> at_session_check ck \<le> us_expires_at session \<and>
    stage_evidence w ck session auth db \<and> flow \<in> set (us_flows session) \<and>
    (\<forall>stage \<in> set (stages flow). (session_id, stage) \<in> D \<or> stage = ua_auth_type auth) \<and>
    uw_bcrypt_hash w (pc_new_password request) = Some hash \<and>
    password_hashes db' = (password_hashes db)(user_id \<mapsto> hash)"
proof -
  obtain auth session_id resp db1 where a: "pc_auth request = Some auth" "ua_session auth = Some session_id"
    and p: "process_auth w ck session_id auth db = (Inr resp, db1)"
    and c: "change_password w user_id request db1 = (Inr (), db')"
    using assms(2) by (auto simp: post_password_def result_simps split: option.splits if_splits prod.splits sum.splits)
  from p have "password_hashes db1 = password_hashes db" by (cases rule: process_auth_cases) auto
  with c a completion_sound [OF assms(1) p] show ?thesis
    by (auto simp: change_password_ok split: if_splits)
qed

text \<open>
  The password endpoint does not compare the session with the requesting user: whoever may act
  for one user, by a valid access token, and knows the password of another one replaces the
  password of the first by authenticating in a session of the second.
\<close>

theorem foreign_session_changes_password:
  assumes session: "uia_sessions db sid = Some session" "us_session_id session = sid" "sid \<noteq> []"
      "us_flows session = password_flows" "at_session_check ck \<le> us_expires_at session"
    and foreign: "us_user_id session = Some b" "b \<noteq> a"
    and password: "ua_auth_type auth = ''m.login.password''" "password_auth_of (ua_auth_data auth) = Some pa"
      "password_hashes db b = Some hb" "uw_bcrypt_verify w (pa_password pa) hb = Some True"
    and request: "pc_auth request = Some auth" "ua_session auth = Some sid" "pc_logout_devices request = None"
      "password_hashes db a \<noteq> None" "uw_bcrypt_hash w (pc_new_password request) = Some hash"
    and up: "\<And>c. uw_fail w c = None"
  shows "\<exists>db'. post_password w ck uuid now repo_uuid repo_now a request db = (Inr PasswordChanged, db') \<and>
    password_hashes db' = (password_hashes db)(a \<mapsto> hash)"
proof -
  let ?s = "mark_stage ''m.login.password'' ''password_verified'' session"
  have stage: "process_auth_stage w ck session auth db = (Inr (True, ?s), db)"
    using password foreign(1) up
    by (simp add: process_auth_stage_def process_password_auth_def password_subject_def verify_user_password_def
        result_of_def)
  have flow: "is_flow_completed ?s"
    using session(4) by (simp add: is_flow_completed_def flow_done_def password_flows_def mark_stage_def List.member_iff)
  have "process_auth w ck sid auth db = (r, db1) \<Longrightarrow>
      (\<exists>resp. r = Inr resp) \<and> password_hashes db1 = password_hashes db" for r db1
    using stage flow session up
    by (auto simp: process_auth_def get_session_def result_of_def update_session_def Let_def mark_stage_def)
  then obtain resp db1 where p: "process_auth w ck sid auth db = (Inr resp, db1)"
    and h: "password_hashes db1 = password_hashes db" by (cases "process_auth w ck sid auth db") blast
  have "change_password w a request db1 = (Inr (), db1\<lparr>password_hashes := (password_hashes db1)(a \<mapsto> hash)\<rparr>)"
    using request up h by (simp add: change_password_ok)
  then show ?thesis using p request(1,2) session(3) h by (simp add: post_password_def bindS_def liftS_def)
qed

section \<open>The CAPTCHA stage\<close>

text \<open>Tables the service's operations can make; an identifier has 36 characters.\<close>

inductive captcha_run :: "challenges \<Rightarrow> bool" where
  no_challenges: "captcha_run Map.empty"
| creates: "captcha_run t \<Longrightarrow> length uuid = 36 \<Longrightarrow>
    create_challenge w uuid now ip user_agent session_id t = (r, t') \<Longrightarrow> captcha_run t'"
| math: "captcha_run t \<Longrightarrow> length uuid = 36 \<Longrightarrow>
    create_math_challenge w a b uuid now user_id ip user_agent t = (r', t') \<Longrightarrow> captcha_run t'"
| violates: "captcha_run t \<Longrightarrow> length uuid = 36 \<Longrightarrow>
    record_rate_limit_violation w uuid now now2 ip operation t = (r'', t') \<Longrightarrow> captcha_run t'"
| verifies: "captcha_run t \<Longrightarrow> verify_captcha w now request t = (rv, t') \<Longrightarrow> captcha_run t'"
| answers: "captcha_run t \<Longrightarrow> validate_response w now challenge_id response t = (rb, t') \<Longrightarrow> captcha_run t'"
| cleans_up: "captcha_run t \<Longrightarrow> cleanup_expired_challenges w now deleted t = (rn, t') \<Longrightarrow> captcha_run t'"

definition no_session_challenge :: "challenges \<Rightarrow> bool" where
  "no_session_challenge t \<longleftrightarrow> challenges_keyed t \<and> t ''challenge_from_session'' = None"

lemma no_session_create:
  "no_session_challenge t \<Longrightarrow> ch_challenge_id c \<noteq> ''challenge_from_session'' \<Longrightarrow>
     repo_create_challenge w c t = (r, t') \<Longrightarrow> no_session_challenge t'"
  by (auto simp: no_session_challenge_def challenges_keyed_def repo_create_challenge_def split: option.splits if_splits)

lemma challenge_ids:
  "''captcha_'' @ uuid \<noteq> ''challenge_from_session''" "''violation_'' @ uuid \<noteq> ''challenge_from_session''"
  "length uuid = 36 \<Longrightarrow> uuid \<noteq> ''challenge_from_session''"
  by auto

lemma no_session_verify:
  assumes "no_session_challenge t" and "verify_captcha w now request t = (r, t')"
  shows "no_session_challenge t'"
proof (cases "captcha_enabled (cw_config w)")
  case True
  have "no_session_challenge t''" if "t i = Some c"
      "repo_create_challenge w (c\<lparr>ch_used := True, ch_verified := v\<rparr>) t = (r'', t'')" for i c v r'' t''
  proof -
    have "ch_challenge_id c = i" "i \<noteq> ''challenge_from_session''"
      using assms(1) that(1) by (auto simp: no_session_challenge_def challenges_keyed_def)
    then show ?thesis using no_session_create [OF assms(1) _ that(2)] by simp
  qed
  then show ?thesis
    using assms unfolding verify_captcha_enabled [OF True]
    by (auto split: option.splits if_splits sum.splits prod.splits)
next
  case False
  then show ?thesis using assms by (simp add: verify_captcha_def)
qed

lemma no_session_validate:
  assumes "no_session_challenge t" and "validate_response w now challenge_id response t = (r, t')"
  shows "no_session_challenge t'"
  using assms
  by (auto simp: validate_response_def get_challenge_def update_challenge_def
      no_session_challenge_def challenges_keyed_def split: option.splits if_splits)

lemma captcha_run_ids: "captcha_run t \<Longrightarrow> no_session_challenge t"
proof (induction rule: captcha_run.induct)
  case no_challenges
  show ?case by (simp add: no_session_challenge_def challenges_keyed_def)
next
  case (creates t uuid w now ip user_agent session_id r t')
  then show ?case
    using challenge_ids(1) [of uuid]
    by (auto simp: create_challenge_def elim!: no_session_create split: if_splits prod.splits)
next
  case (math t uuid w a b now user_id ip user_agent r' t')
  then show ?case using challenge_ids(3) [of uuid] by (auto simp: create_math_challenge_def elim!: no_session_create)
next
  case (violates t uuid w now now2 ip operation r'' t')
  then show ?case
    using challenge_ids(2) [of uuid]
    by (auto simp: record_rate_limit_violation_def elim!: no_session_create split: prod.splits)
next
  case (verifies t w now request rv t')
  then show ?case by (blast intro: no_session_verify)
next
  case (answers t w now challenge_id response rb t')
  then show ?case by (blast intro: no_session_validate)
next
  case (cleans_up t w now deleted rn t')
  then show ?case
    by (auto simp: cleanup_expired_challenges_def repo_cleanup_challenges_def no_session_challenge_def challenges_keyed_def
        split: option.splits if_splits prod.splits)
qed

text \<open>
  The CAPTCHA stage cannot be passed while CAPTCHAs are enabled: it asks for a challenge of a
  fixed name that no operation of the service ever creates, so the request fails and the stage is
  not recorded, whatever the provider would answer.
\<close>

theorem captcha_stage_fails:
  assumes "captcha_run (captcha_challenges db)" and "captcha_enabled (cw_config (uw_captcha w))"
    and "ua_auth_type auth = ''m.login.recaptcha''"
  shows "\<exists>e db'. process_auth w ck session_id auth db = (Inl e, db') \<and> uia_sessions db' = uia_sessions db"
proof -
  have "verify_captcha_response w now response (captcha_challenges db) = (Inr False, captcha_challenges db)" for now response
    using captcha_run_ids [OF assms(1)] verify_captcha_enabled [OF assms(2)]
    by (simp add: verify_captcha_response_def no_session_challenge_def split: option.split)
  then have no: "\<not> stage_evidence w ck session auth db" for session
    using assms(3) by (simp add: stage_evidence_def)
  obtain r db' where run: "process_auth w ck session_id auth db = (r, db')" by fastforce
  then show ?thesis
  proof (cases rule: process_auth_cases)
    case (refused e)
    with run show ?thesis by blast
  qed (use no in blast)
qed

section \<open>Witnesses\<close>

definition demo_uia :: uia_world where
  "demo_uia = \<lparr>uw_homeserver_name = ''x'', uw_session_lifetime = 600, uw_require_captcha = False,
     uw_require_email_verification = False, uw_fail = (\<lambda>_. None), uw_captcha = demo_captcha None,
     uw_bcrypt_verify = (\<lambda>p h. Some (h = ''hash of '' @ p)), uw_bcrypt_hash = (\<lambda>p. Some (''hash of '' @ p)),
     uw_user_by_threepid = (\<lambda>m a. Inr None), uw_threepid_session = (\<lambda>s c. Inr None), uw_debug_auth_error = (\<lambda>_. [])\<rparr>"

definition demo_auth_db :: auth_db where
  "demo_auth_db = \<lparr>uia_sessions = Map.empty, captcha_challenges = Map.empty,
     password_hashes = [''@a:x'' \<mapsto> ''hash of one'', ''@b:x'' \<mapsto> ''hash of two''], login_sessions = []\<rparr>"

definition uia_now :: uia_clocks where
  "uia_now = \<lparr>at_session_check = 5, at_captcha_check = 5, at_email_check = 5\<rparr>"

definition uia_password :: "string \<Rightarrow> uia_auth" where
  "uia_password p = \<lparr>ua_auth_type = ''m.login.password'', ua_session = Some ''uia_r'',
     ua_auth_data = [(''password'', JString p)]\<rparr>"

definition demo_started :: auth_db where
  "demo_started = snd (start_session demo_uia ''s'' 0 ''r'' 0 (Some ''@b:x'') None password_flows Map.empty demo_auth_db)"

definition new_password :: "uia_auth \<Rightarrow> password_change_request" where
  "new_password auth = \<lparr>pc_new_password = ''new'', pc_logout_devices = None, pc_auth = Some auth\<rparr>"

lemma demo_started_run: "uia_run {} demo_started"
  unfolding demo_started_def
  by (rule uia_run.starts [OF uia_run.empty [of demo_auth_db] prod.collapse [symmetric]]) (simp add: demo_auth_db_def)

lemma demo_started_session:
  "uia_sessions demo_started ''uia_r'' = Some \<lparr>us_session_id = ''uia_r'', us_user_id = Some ''@b:x'', us_device_id = None,
     us_flows = password_flows, us_completed_stages = [], us_current_stage = None, us_auth_data = Map.empty,
     us_params = Map.empty, us_created_at = 0, us_expires_at = 600, us_completed = False\<rparr>"
  "password_hashes demo_started = [''@a:x'' \<mapsto> ''hash of one'', ''@b:x'' \<mapsto> ''hash of two'']"
  by (simp_all add: demo_started_def start_session_def create_session_def demo_uia_def demo_auth_db_def Let_def)

lemma demo_password: "password_auth_of (ua_auth_data (uia_password p)) = Some \<lparr>pa_password = p, pa_user = None, pa_identifier = None\<rparr>"
  by (simp add: password_auth_of_def uia_password_def req_string_def opt_string_def)

theorem foreign_session_changes_password_witness:
  "\<exists>db'. post_password demo_uia uia_now ''u'' 0 ''v'' 0 ''@a:x'' (new_password (uia_password ''two'')) demo_started =
     (Inr PasswordChanged, db') \<and> password_hashes db' ''@a:x'' = Some ''hash of new''"
proof -
  have "\<exists>db'. post_password demo_uia uia_now ''u'' 0 ''v'' 0 ''@a:x'' (new_password (uia_password ''two'')) demo_started =
     (Inr PasswordChanged, db') \<and> password_hashes db' = (password_hashes demo_started)(''@a:x'' \<mapsto> ''hash of new'')"
    by (rule foreign_session_changes_password [OF demo_started_session(1) _ _ _ _ _ _ _ demo_password])
      (auto simp: demo_started_session(2) demo_uia_def uia_now_def uia_password_def new_password_def)
  then show ?thesis by auto
qed

lemma demo_changed:
  "\<exists>db'. post_password demo_uia uia_now ''u'' 0 ''v'' 0 ''@b:x'' (new_password (uia_password ''two'')) demo_started =
     (Inr PasswordChanged, db')"
  "\<exists>resp db'. process_auth demo_uia uia_now ''uia_r'' (uia_password ''two'') demo_started = (Inr resp, db')"
proof -
  have stage: "process_auth_stage demo_uia uia_now s (uia_password ''two'') demo_started =
      (Inr (True, mark_stage ''m.login.password'' ''password_verified'' s), demo_started)"
    if "us_user_id s = Some ''@b:x''" for s
    using that demo_password [of "''two''"]
    by (simp add: process_auth_stage_def process_password_auth_def password_subject_def verify_user_password_def
        result_of_def demo_started_session uia_password_def demo_uia_def)
  then show p: "\<exists>resp db'. process_auth demo_uia uia_now ''uia_r'' (uia_password ''two'') demo_started = (Inr resp, db')"
    by (simp add: process_auth_def get_session_def result_of_def demo_started_session update_session_def Let_def
        is_flow_completed_def flow_done_def password_flows_def mark_stage_def List.member_iff uia_now_def demo_uia_def)
  then obtain resp db1 where p1: "process_auth demo_uia uia_now ''uia_r'' (uia_password ''two'') demo_started = (Inr resp, db1)"
    by blast
  then have "password_hashes db1 = password_hashes demo_started" by (cases rule: process_auth_cases) auto
  then show "\<exists>db'. post_password demo_uia uia_now ''u'' 0 ''v'' 0 ''@b:x'' (new_password (uia_password ''two'')) demo_started =
     (Inr PasswordChanged, db')"
    using p1 by (simp add: post_password_def new_password_def uia_password_def change_password_def bindS_def liftS_def
        result_of_def demo_started_session demo_uia_def)
qed

theorem uia_completion_sound_witness:
  "\<exists>session. uia_sessions demo_started ''uia_r'' = Some session \<and>
     stage_evidence demo_uia uia_now session (uia_password ''two'') demo_started"
  using demo_changed(2) uia_completion_sound [OF demo_started_run] by blast

theorem password_change_sound_witness:
  "\<exists>db'. post_password demo_uia uia_now ''u'' 0 ''v'' 0 ''@b:x'' (new_password (uia_password ''two'')) demo_started =
     (Inr PasswordChanged, db') \<and> password_hashes db' = (password_hashes demo_started)(''@b:x'' \<mapsto> ''hash of new'') \<and>
     (\<exists>session. uia_sessions demo_started ''uia_r'' = Some session \<and> at_session_check uia_now \<le> us_expires_at session)"
proof -
  obtain db' where d: "post_password demo_uia uia_now ''u'' 0 ''v'' 0 ''@b:x'' (new_password (uia_password ''two'')) demo_started =
     (Inr PasswordChanged, db')" using demo_changed(1) by blast
  from password_change_sound [OF demo_started_run d] have "password_hashes db' = (password_hashes demo_started)(''@b:x'' \<mapsto> ''hash of new'')"
    by (auto simp: demo_uia_def new_password_def)
  moreover have "\<exists>session. uia_sessions demo_started ''uia_r'' = Some session \<and> at_session_check uia_now \<le> us_expires_at session"
    using password_change_sound [OF demo_started_run d] by (auto simp: new_password_def uia_password_def)
  ultimately show ?thesis using d by blast
qed

theorem started_session_unknown_witness:
  "\<exists>e. process_auth demo_uia uia_now ''uia_s'' (uia_password ''two'') demo_started = (Inl e, demo_started) \<and>
     ue_error e = ''Invalid session''"
proof -
  obtain session where s: "start_session demo_uia ''s'' 0 ''r'' 0 (Some ''@b:x'') None password_flows Map.empty demo_auth_db =
      (Inr session, demo_started)" "us_session_id session = ''uia_s''"
    by (auto simp: demo_started_def start_session_def create_session_def demo_uia_def Let_def)
  then show ?thesis
    using started_session_unknown [OF s(1)] by (simp add: demo_auth_db_def)
qed

theorem captcha_stage_fails_witness:
  "\<exists>e db'. process_auth demo_uia uia_now ''uia_r''
     \<lparr>ua_auth_type = ''m.login.recaptcha'', ua_session = None, ua_auth_data = []\<rparr> demo_started = (Inl e, db')"
proof -
  have "captcha_run (captcha_challenges demo_started)"
    by (simp add: demo_started_def start_session_def create_session_def demo_uia_def demo_auth_db_def Let_def no_challenges)
  moreover have "captcha_enabled (cw_config (uw_captcha demo_uia))" by (simp add: demo_uia_def demo_captcha_def)
  ultimately show ?thesis
    using captcha_stage_fails [of demo_started demo_uia "\<lparr>ua_auth_type = ''m.login.recaptcha'', ua_session = None, ua_auth_data = []\<rparr>"]
    by fastforce
qed

end
