(* ===== verification/Graph_Walk.thy ===== *)
theory Graph_Walk
  imports Prelude
begin

text \<open>
  Walks over the event graph in batches: a queue of identifiers is fetched as a whole, the results
  grow up to a limit, and what was not seen before forms the next queue. The locale \<open>batch_walk\<close>
  states what one pass over a batch promises; its lemmas show that walks end and what they return.
\<close>

inductive reached :: "('i \<Rightarrow> 'i set) \<Rightarrow> 'i set \<Rightarrow> 'i \<Rightarrow> bool" for succs roots where
  root: "i \<in> roots \<Longrightarrow> reached succs roots i"
| next_step: "reached succs roots i \<Longrightarrow> j \<in> succs i \<Longrightarrow> reached succs roots j"

lemma reached_closed:
  assumes "reached succs roots i" and "roots \<subseteq> V" and "\<And>x. x \<in> V \<Longrightarrow> succs x \<subseteq> V"
  shows "i \<in> V"
  using assms(1) by (induction rule: reached.induct) (use assms(2,3) in auto)

definition wanted :: "('i \<Rightarrow> 'i set) \<Rightarrow> ('i \<Rightarrow> bool) \<Rightarrow> 'i set \<Rightarrow> 'i set" where
  "wanted succs visible roots = {i. reached succs roots i \<and> visible i}"

text \<open>
  A pass gets the queue, the identifiers seen so far and the results; it returns all three for the
  next pass. \<open>base\<close> holds identifiers that count as seen from the start.
\<close>

locale batch_walk =
  fixes succs :: "'i \<Rightarrow> 'i set"
    and visible :: "'i \<Rightarrow> bool"
    and base :: "'i set"
    and universe :: "'i set"
    and limit :: nat
    and ident :: "'r \<Rightarrow> 'i"
    and pass :: "'i list \<Rightarrow> 'i set \<Rightarrow> 'r list \<Rightarrow> 'e + ('i set \<times> 'i list \<times> 'r list)"
  assumes finite_universe: "finite universe"
    and succs_universe: "succs i \<subseteq> universe"
    and succs_base: "succs i \<inter> base = {}"
    and pass_queue: "pass q v res = Inr (v', q', res') \<Longrightarrow>
      v' = v \<union> set q' \<and> set q' \<inter> v = {} \<and> set q' \<subseteq> universe \<and> distinct q'"
    and pass_results: "pass q v res = Inr (v', q', res') \<Longrightarrow> distinct q \<Longrightarrow> length res < limit \<Longrightarrow> base \<subseteq> v \<Longrightarrow>
      \<exists>new. res' = res @ new \<and> length res' \<le> limit \<and> distinct (map ident new) \<and>
        ident ` set new \<subseteq> {i \<in> set q. visible i} \<and> set q' \<subseteq> (\<Union>i \<in> set q. succs i) \<and>
        (length res' < limit \<longrightarrow> ident ` set new = {i \<in> set q. visible i} \<and> (\<Union>i \<in> set q. succs i) \<subseteq> v')"
begin

lemma pass_decreases:
  assumes "pass q v res = Inr (v', q', res')" and "q \<noteq> []"
  shows "card (universe - v') < card (universe - v) \<or>
    card (universe - v') = card (universe - v) \<and> length q' < length q"
proof (cases "q' = []")
  case True
  then show ?thesis using pass_queue [OF assms(1)] assms(2) by simp
next
  case False
  then obtain i where "i \<in> set q'" by (cases q') auto
  then have "i \<in> universe - v" "i \<notin> universe - v'" using pass_queue [OF assms(1)] by auto
  then have "universe - v' \<subset> universe - v" using pass_queue [OF assms(1)] by auto
  then show ?thesis using finite_universe by (simp add: psubset_card_mono)
qed

inductive walks :: "'i list \<Rightarrow> 'i set \<Rightarrow> 'r list \<Rightarrow> 'r list \<Rightarrow> bool" where
  walk_ends: "q = [] \<or> \<not> length res < limit \<Longrightarrow> walks q v res res"
| walk_pass: "q \<noteq> [] \<Longrightarrow> length res < limit \<Longrightarrow> pass q v res = Inr (v', q', res') \<Longrightarrow>
    walks q' v' res' out \<Longrightarrow> walks q v res out"

text \<open>What holds between two passes.\<close>

definition walk_inv :: "'i set \<Rightarrow> 'i list \<Rightarrow> 'i set \<Rightarrow> 'r list \<Rightarrow> bool" where
  "walk_inv roots q v res \<longleftrightarrow>
     distinct q \<and> base \<subseteq> v \<and> set q \<subseteq> v \<and> set q \<inter> base = {} \<and> roots \<subseteq> v - base \<and>
     (\<forall>i \<in> v - base. reached succs roots i) \<and>
     length res \<le> limit \<and> distinct (map ident res) \<and>
     ident ` set res \<subseteq> {i \<in> v - base - set q. visible i} \<and>
     (length res < limit \<longrightarrow> ident ` set res = {i \<in> v - base - set q. visible i} \<and>
        (\<forall>i \<in> v - base - set q. succs i \<subseteq> v))"

lemma walk_inv_pass:
  assumes inv: "walk_inv roots q v res" and "length res < limit" and p: "pass q v res = Inr (v', q', res')"
  shows "walk_inv roots q' v' res'"
proof -
  have "distinct q" "base \<subseteq> v" using inv by (simp_all add: walk_inv_def)
  then obtain new where new: "res' = res @ new" "length res' \<le> limit" "distinct (map ident new)"
      "ident ` set new \<subseteq> {i \<in> set q. visible i}" "set q' \<subseteq> (\<Union>i \<in> set q. succs i)"
      "length res' < limit \<longrightarrow> ident ` set new = {i \<in> set q. visible i} \<and> (\<Union>i \<in> set q. succs i) \<subseteq> v'"
    using pass_results [OF p \<open>distinct q\<close> assms(2) \<open>base \<subseteq> v\<close>] by (elim exE conjE) (rule that)
  note queue = pass_queue [OF p]
  have rest: "v' - base - set q' = v - base" using queue \<open>base \<subseteq> v\<close> by auto
  have old: "ident ` set res = {i \<in> v - base - set q. visible i}" "\<forall>i \<in> v - base - set q. succs i \<subseteq> v"
    "set q \<subseteq> v - base" "distinct (map ident res)" "\<forall>i \<in> v - base. reached succs roots i" "roots \<subseteq> v - base"
    using inv assms(2) by (auto simp: walk_inv_def)
  have "reached succs roots i" if "i \<in> v' - base" for i
  proof (cases "i \<in> v")
    case False
    then have "i \<in> set q'" using that queue by auto
    then obtain j where "j \<in> set q" "i \<in> succs j" using new(5) by blast
    then show ?thesis using old(3,5) by (auto intro: next_step)
  qed (use that old(5) in auto)
  moreover have "distinct (map ident res')" using new(1,3,4) old(1,4) by auto
  moreover have "set q' \<inter> base = {}" using queue \<open>base \<subseteq> v\<close> by blast
  moreover have "ident ` set res' \<subseteq> {i \<in> v' - base - set q'. visible i}"
    unfolding rest new(1) using new(4) old(1,3) by auto
  moreover have "ident ` set res' = {i \<in> v' - base - set q'. visible i} \<and> (\<forall>i \<in> v' - base - set q'. succs i \<subseteq> v')"
    if "length res' < limit"
  proof -
    have all: "ident ` set new = {i \<in> set q. visible i}" "(\<Union>i \<in> set q. succs i) \<subseteq> v'"
      using new(6) that by blast+
    have "ident ` set res' = {i \<in> v - base. visible i}" unfolding new(1) set_append image_Un all(1) old(1) using old(3) by auto
    moreover have "succs i \<subseteq> v'" if "i \<in> v - base" for i
      using that all(2) old(2) queue by (cases "i \<in> set q") auto
    ultimately show ?thesis unfolding rest by blast
  qed
  ultimately show ?thesis
    unfolding walk_inv_def using queue \<open>base \<subseteq> v\<close> old(6) new(2) by auto
qed

lemma walk_inv_walks: "walks q v res out \<Longrightarrow> walk_inv roots q v res \<Longrightarrow>
    \<exists>q' v'. walk_inv roots q' v' out \<and> (q' = [] \<or> \<not> length out < limit)"
  by (induction rule: walks.induct) (blast intro: walk_inv_pass)+

text \<open>
  A walk returns wanted identifiers, each once, and as many as there are and as the limit
  admits.
\<close>

lemma walk_result:
  assumes "walks q (base \<union> set q) [] out" and "distinct q" and "set q \<inter> base = {}"
  shows "distinct (map ident out) \<and> ident ` set out \<subseteq> wanted succs visible (set q) \<and>
    finite (wanted succs visible (set q)) \<and> length out = min limit (card (wanted succs visible (set q)))"
proof -
  have "walk_inv (set q) q (base \<union> set q) []"
    using assms(2,3) by (auto simp: walk_inv_def intro: root)
  then obtain q' v' where inv: "walk_inv (set q) q' v' out" and ends: "q' = [] \<or> \<not> length out < limit"
    using walk_inv_walks [OF assms(1)] by blast
  have sub: "ident ` set out \<subseteq> wanted succs visible (set q)" and d: "distinct (map ident out)"
    using inv by (auto simp: walk_inv_def wanted_def)
  have "i \<in> set q \<union> universe" if "reached succs (set q) i" for i
    using that by (rule reached_closed) (use succs_universe in auto)
  then have "wanted succs visible (set q) \<subseteq> set q \<union> universe" unfolding wanted_def by blast
  then have fin: "finite (wanted succs visible (set q))"
    by (rule finite_subset) (simp add: finite_universe)
  have len: "length out = card (ident ` set out)" using distinct_card [OF d] by simp
  have "length out = min limit (card (wanted succs visible (set q)))"
  proof (cases "length out < limit")
    case True
    then have closed: "ident ` set out = {i \<in> v' - base. visible i}" "\<forall>i \<in> v' - base. succs i \<subseteq> v'" "set q \<subseteq> v' - base"
      using inv ends by (auto simp: walk_inv_def)
    have step: "succs x \<subseteq> v' - base" if "x \<in> v' - base" for x
      using closed(2) that succs_base [of x] by blast
    have "i \<in> v' - base" if "reached succs (set q) i" for i
      using that closed(3) step by (rule reached_closed)
    then have "wanted succs visible (set q) \<subseteq> ident ` set out" unfolding closed(1) wanted_def by blast
    then have "wanted succs visible (set q) = ident ` set out" using sub by blast
    then have "card (wanted succs visible (set q)) = length out" using len by simp
    then show ?thesis using True by simp
  next
    case False
    then have "length out = limit" using inv by (simp add: walk_inv_def)
    moreover have "length out \<le> card (wanted succs visible (set q))" using len card_mono [OF fin sub] by simp
    ultimately show ?thesis by simp
  qed
  then show ?thesis using sub d fin by blast
qed

end

end
