(* ===== verification/Event_History.thy ===== *)
theory Event_History
  imports Sessions Uia Graph_Walk
begin

text \<open>
  The endpoints that serve history to other servers:
  \<open>server/src/_matrix/federation/v1/get_missing_events/by_room_id.rs\<close> and
  \<open>server/src/_matrix/federation/v1/backfill/by_room_id.rs\<close>, with the queries of \<open>event.rs\<close>,
  \<open>membership.rs\<close>, \<open>room.rs\<close> and \<open>user.rs\<close> they run. Both walk over previous events in
  batches and are instances of the locale \<open>batch_walk\<close>. The tables are lists, of which a query sees
  one record per identifier; a row of \<open>hi_memberships\<close> is a room, a user and the membership, and
  \<open>hi_partial_state\<close> is the column of that name. A query fails when \<open>hi_fail\<close> gives an error for it. The state that
  changes is the key table of the session service.
\<close>

section \<open>Environment\<close>

datatype history_call = RoomById | EventById | EventsByIds | ServerUsers | VisibilityRows | ErasedUsers | AclEvent
  | PartialState | MembersAtDepth

record erased_row =
  er_user_id :: string
  er_is_active :: "bool option"
  er_display_name :: "string option"
  er_avatar_url :: "string option"

record history_world =
  hi_session :: session_world
  hi_fail :: "history_call \<Rightarrow> repository_error option"
  hi_rooms :: "string \<rightharpoonup> room"
  hi_event_table :: "event list"
  hi_memberships :: "(string \<times> string \<times> string) list"
  hi_visibility_rows :: "string \<Rightarrow> json list"
  hi_row_error :: repository_error
  hi_users :: "erased_row list"
  hi_partial_state :: "string \<rightharpoonup> bool"
  hi_unsigned :: "json \<Rightarrow> json option"

record missing_events_request =
  mr_earliest_events :: "string list"
  mr_latest_events :: "string list"
  mr_limit :: "int option"
  mr_min_depth :: "int option"

record history_pdu =
  hp_event_id :: string
  hp_room_id :: string
  hp_sender :: string
  hp_origin_server_ts :: int
  hp_event_type :: string
  hp_content :: event_content
  hp_state_key :: "string option"
  hp_prev_events :: "string list"
  hp_auth_events :: "string list"
  hp_depth :: int
  hp_signatures :: "(string \<times> (string \<times> string) list) list"
  hp_hashes :: "(string \<times> string) list"
  hp_unsigned :: "json option"

record backfill_query =
  bq_limit :: int
  bq_v :: "string list"

section \<open>The header\<close>

record history_auth =
  hx_origin :: string
  hx_key_id :: string
  hx_signature :: string

definition trim_quotes :: "string \<Rightarrow> string" where
  "trim_quotes s = rev (dropWhile (\<lambda>c. c = CHR 0x22) (rev (dropWhile (\<lambda>c. c = CHR 0x22) s)))"

definition history_param ::
  "string \<Rightarrow> string option \<times> string option \<times> string option \<Rightarrow> nat + string option \<times> string option \<times> string option" where
  "history_param param acc =
     (case acc of (origin, key, signature) \<Rightarrow>
        (case split_once CHR ''='' (trim param) of
           None \<Rightarrow> Inr acc
         | Some (key_name, value) \<Rightarrow>
             if trim key_name = ''origin'' then Inr (Some (trim value), key, signature)
             else if trim key_name = ''key''
             then (case strip_prefix ''ed25519:'' (trim_quotes (trim value)) of
                     Some key_id \<Rightarrow> Inr (origin, Some key_id, signature)
                   | None \<Rightarrow> Inl 400)
             else if trim key_name = ''sig'' then Inr (origin, key, Some (trim_quotes (trim value)))
             else Inr acc))"

fun history_params ::
  "string list \<Rightarrow> string option \<times> string option \<times> string option \<Rightarrow> nat + string option \<times> string option \<times> string option" where
  "history_params [] acc = Inr acc"
| "history_params (p # ps) acc = bindR (history_param p acc) (history_params ps)"

definition history_parse_auth :: "string option option \<Rightarrow> nat + history_auth" where
  "history_parse_auth authorization =
     bindR (ok_or authorization 401) (\<lambda>header.
     bindR (ok_or header 400) (\<lambda>auth_header.
     bindR (ok_or (strip_prefix ''X-Matrix '' auth_header) 401) (\<lambda>auth_params.
     bindR (history_params (split_on CHR '','' auth_params) (None, None, None)) (\<lambda>(origin, key, signature).
     bindR (ok_or origin 400) (\<lambda>origin.
     bindR (ok_or key 400) (\<lambda>key_id.
     bindR (ok_or signature 400) (\<lambda>signature.
     Inr \<lparr>hx_origin = origin, hx_key_id = key_id, hx_signature = signature\<rparr>)))))))"

section \<open>Queries\<close>

text \<open>Records are stored under their identifier, so a query sees one record per identifier.\<close>

fun one_per_id :: "event list \<Rightarrow> event list" where
  "one_per_id [] = []"
| "one_per_id (e # es) = e # filter (\<lambda>x. ev_event_id x \<noteq> ev_event_id e) (one_per_id es)"

definition hi_events :: "history_world \<Rightarrow> event list" where
  "hi_events w = one_per_id (hi_event_table w)"

definition history_result :: "history_world \<Rightarrow> history_call \<Rightarrow> 'a \<Rightarrow> repository_error + 'a" where
  "history_result w call x = (case hi_fail w call of Some e \<Rightarrow> Inl e | None \<Rightarrow> Inr x)"

text \<open>\<open>ORDER BY depth DESC, origin_server_ts DESC\<close>; a missing depth is below every number.\<close>

definition depth_key :: "event \<Rightarrow> int" where
  "depth_key e = (case ev_depth e of Some d \<Rightarrow> d | None \<Rightarrow> i64_min - 1)"

definition newest_depth_first :: "event list \<Rightarrow> event list" where
  "newest_depth_first es = sort_key (\<lambda>e. - depth_key e) (sort_key (\<lambda>e. - ev_origin_server_ts e) es)"

definition get_events_by_ids_with_min_depth ::
  "history_world \<Rightarrow> string list \<Rightarrow> string \<Rightarrow> int \<Rightarrow> repository_error + event list" where
  "get_events_by_ids_with_min_depth w event_ids room_id min_depth =
     history_result w EventsByIds (newest_depth_first
       (filter (\<lambda>e. List.member event_ids (ev_event_id e) \<and> ev_room_id e = room_id \<and>
          (case ev_depth e of Some d \<Rightarrow> d \<ge> min_depth | None \<Rightarrow> False)) (hi_events w)))"

definition get_events_by_ids_for_backfill ::
  "history_world \<Rightarrow> string list \<Rightarrow> string \<Rightarrow> repository_error + event list" where
  "get_events_by_ids_for_backfill w event_ids room_id =
     history_result w EventsByIds (newest_depth_first
       (filter (\<lambda>e. List.member event_ids (ev_event_id e) \<and> ev_room_id e = room_id) (hi_events w)))"

definition history_event_by_id :: "history_world \<Rightarrow> string \<Rightarrow> repository_error + event option" where
  "history_event_by_id w event_id =
     history_result w EventById (find (\<lambda>e. ev_event_id e = event_id) (hi_events w))"

definition get_server_acl_event :: "history_world \<Rightarrow> string \<Rightarrow> repository_error + event option" where
  "get_server_acl_event w room_id =
     history_result w AclEvent (case newest_depth_first
         (filter (\<lambda>e. ev_room_id e = room_id \<and> ev_event_type e = ''m.room.server_acl'' \<and> ev_state_key e = Some [])
            (hi_events w)) of
       [] \<Rightarrow> None | e # _ \<Rightarrow> Some e)"

definition server_has_users_in_room :: "history_world \<Rightarrow> string \<Rightarrow> string \<Rightarrow> repository_error + bool" where
  "server_has_users_in_room w room_id server_name =
     history_result w ServerUsers
       (list_ex (\<lambda>(r, u, m). r = room_id \<and> contains_str u ('':'' @ server_name)) (hi_memberships w))"

text \<open>
  The memberships joined with the member events of their users: a membership that is now join or
  invite, of a user whose identifier contains the server's name after a colon, and some member event
  of that user, whatever its content, up to the depth. The query is written with a JOIN, which
  SurrealQL does not have; where the database refuses it \<open>hi_fail\<close> gives the error.
\<close>

definition get_server_membership_at_depth ::
  "history_world \<Rightarrow> string \<Rightarrow> string \<Rightarrow> int \<Rightarrow> repository_error + bool" where
  "get_server_membership_at_depth w room_id server_name depth =
     history_result w MembersAtDepth
       (list_ex (\<lambda>(r, u, m). r = room_id \<and> contains_str u ('':'' @ server_name) \<and>
            List.member [''join'', ''invite''] m \<and>
            list_ex (\<lambda>e. ev_room_id e = r \<and> ev_event_type e = ''m.room.member'' \<and> ev_state_key e = Some u \<and>
                depth_key e \<le> depth) (hi_events w))
          (hi_memberships w))"

definition is_partial_state_room :: "history_world \<Rightarrow> string \<Rightarrow> repository_error + bool" where
  "is_partial_state_room w room_id = history_result w PartialState (unwrap_or False (hi_partial_state w room_id))"

definition visibility_of_row :: "json \<Rightarrow> string option option" where
  "visibility_of_row row =
     (case struct_fields [''history_visibility''] row of Some [v] \<Rightarrow> opt_string v | _ \<Rightarrow> None)"

definition get_room_history_visibility :: "history_world \<Rightarrow> string \<Rightarrow> repository_error + string" where
  "get_room_history_visibility w room_id =
     bindR (history_result w VisibilityRows (hi_visibility_rows w room_id)) (\<lambda>rows.
     bindR (ok_or (those (map visibility_of_row rows)) (hi_row_error w)) (\<lambda>visibility_events.
     Inr (case visibility_events of Some visibility # _ \<Rightarrow> visibility | _ \<Rightarrow> ''shared'')))"

definition is_room_world_readable :: "history_world \<Rightarrow> string \<Rightarrow> repository_error + bool" where
  "is_room_world_readable w room_id =
     bindR (get_room_history_visibility w room_id) (\<lambda>visibility. Inr (visibility = ''world_readable''))"

definition is_erased :: "erased_row \<Rightarrow> bool" where
  "is_erased u \<longleftrightarrow> er_is_active u = Some False \<and> er_display_name u = None \<and> er_avatar_url u = None"

definition are_users_erased :: "history_world \<Rightarrow> string list \<Rightarrow> repository_error + (string \<rightharpoonup> bool)" where
  "are_users_erased w user_ids =
     (if user_ids = [] then Inr Map.empty
      else history_result w ErasedUsers (\<lambda>u. if List.member user_ids u
        then Some (unwrap_or False (map_of (rev (map (\<lambda>r. (er_user_id r, is_erased r)) (hi_users w))) u)) else None))"

section \<open>Checks of a request\<close>

definition validate_room_id :: "string \<Rightarrow> nat + unit" where
  "validate_room_id room_id =
     ensure (\<not> (\<not> starts_with room_id CHR ''!'' \<or> \<not> contains room_id CHR '':'')) 400"

definition validate_event_id :: "string \<Rightarrow> nat + unit" where
  "validate_event_id event_id =
     ensure (\<not> (\<not> starts_with event_id CHR ''$'' \<or> \<not> contains event_id CHR '':'')) 400"

fun no_duplicates :: "string set \<Rightarrow> string list \<Rightarrow> nat + unit" where
  "no_duplicates seen [] = Inr ()"
| "no_duplicates seen (i # ids) = (if i \<in> seen then Inl 400 else no_duplicates (insert i seen) ids)"

definition validate_event_id_list :: "string list \<Rightarrow> nat \<Rightarrow> nat + unit" where
  "validate_event_id_list event_ids max_size =
     bindR (ensure (\<not> length event_ids > max_size) 400) (\<lambda>_.
     bindR (for_each validate_event_id event_ids) (\<lambda>_.
     no_duplicates {} event_ids))"

definition supported_versions :: "string list" where
  "supported_versions = [''1'', ''2'', ''3'', ''4'', ''5'', ''6'', ''7'', ''8'', ''9'', ''10'', ''11'']"

definition validate_room_version_compatibility :: "room \<Rightarrow> nat + unit" where
  "validate_room_version_compatibility room =
     ensure (List.member supported_versions (r_room_version room)) 400"

definition validate_federation_access :: "room \<Rightarrow> nat + unit" where
  "validate_federation_access room = ensure (r_federate room \<noteq> Some False) 403"

text \<open>Room, access and starting events, the same steps in both handlers.\<close>

definition known_room :: "history_world \<Rightarrow> string \<Rightarrow> nat + room" where
  "known_room w room_id =
     bindR (map_err (\<lambda>_. 500) (history_result w RoomById (hi_rooms w room_id))) (\<lambda>room. ok_or room 404)"

definition server_may_read :: "history_world \<Rightarrow> string \<Rightarrow> string \<Rightarrow> nat + bool" where
  "server_may_read w room_id origin =
     bindR (map_err (\<lambda>_. 500) (server_has_users_in_room w room_id origin)) (\<lambda>has_users.
     bindR (if has_users then Inr True else map_err (\<lambda>_. 500) (is_room_world_readable w room_id)) (\<lambda>has_permission.
     bindR (ensure has_permission 403) (\<lambda>_. Inr has_users)))"

definition known_event :: "history_world \<Rightarrow> string \<Rightarrow> string \<Rightarrow> nat + unit" where
  "known_event w room_id event_id =
     bindR (map_err (\<lambda>_. 500) (history_event_by_id w event_id)) (\<lambda>found.
     bindR (ok_or found 404) (\<lambda>event.
     ensure (ev_room_id event = room_id) 400))"

section \<open>Missing events\<close>

fun queue_prev :: "string set \<Rightarrow> string list \<Rightarrow> string set \<times> string list \<Rightarrow> string set \<times> string list" where
  "queue_prev skip [] (visited, to_visit) = (visited, to_visit)"
| "queue_prev skip (p # ps) (visited, to_visit) =
     queue_prev skip ps (if p \<notin> visited \<and> p \<notin> skip then (insert p visited, to_visit @ [p]) else (visited, to_visit))"

fun queue_all :: "string set \<Rightarrow> event list \<Rightarrow> string set \<times> string list \<Rightarrow> string set \<times> string list" where
  "queue_all skip [] st = st"
| "queue_all skip (e # es) st = queue_all skip es (queue_prev skip (unwrap_or [] (ev_prev_events e)) st)"

definition pdu_of_event :: "history_world \<Rightarrow> event \<Rightarrow> int \<Rightarrow> history_pdu" where
  "pdu_of_event w e depth =
     \<lparr>hp_event_id = ev_event_id e, hp_room_id = ev_room_id e, hp_sender = ev_sender e,
      hp_origin_server_ts = ev_origin_server_ts e, hp_event_type = ev_event_type e,
      hp_content = ev_content e, hp_state_key = ev_state_key e,
      hp_prev_events = unwrap_or [] (ev_prev_events e), hp_auth_events = unwrap_or [] (ev_auth_events e),
      hp_depth = depth, hp_signatures = unwrap_or [] (ev_signatures e), hp_hashes = unwrap_or [] (ev_hashes e),
      hp_unsigned = Option.bind (ev_unsigned e) (hi_unsigned w)\<rparr>"

fun visit_missing ::
  "history_world \<Rightarrow> string set \<Rightarrow> nat \<Rightarrow> event list \<Rightarrow> string set \<times> string list \<times> history_pdu list \<Rightarrow>
   string + string set \<times> string list \<times> history_pdu list" where
  "visit_missing w earliest limit [] st = Inr st"
| "visit_missing w earliest limit (e # es) (visited, to_visit, results) =
     (if ev_event_id e \<in> earliest then visit_missing w earliest limit es (visited, to_visit, results)
      else (case queue_prev earliest (unwrap_or [] (ev_prev_events e)) (visited, to_visit) of
              (visited', to_visit') \<Rightarrow>
                if length results < limit
                then (case ev_depth e of
                        None \<Rightarrow> Inl ''Event missing required depth field''
                      | Some depth \<Rightarrow>
                          visit_missing w earliest limit es (visited', to_visit', results @ [pdu_of_event w e depth]))
                else visit_missing w earliest limit es (visited', to_visit', results)))"

definition missing_pass ::
  "history_world \<Rightarrow> string \<Rightarrow> string set \<Rightarrow> nat \<Rightarrow> int \<Rightarrow> string list \<Rightarrow> string set \<Rightarrow> history_pdu list \<Rightarrow>
   string + string set \<times> string list \<times> history_pdu list" where
  "missing_pass w room_id earliest limit min_depth current_batch visited results =
     bindR (map_err repository_error_text (get_events_by_ids_with_min_depth w current_batch room_id min_depth)) (\<lambda>events.
     visit_missing w earliest limit events (visited, [], results))"

section \<open>Backfill\<close>

fun visit_backfill ::
  "nat \<Rightarrow> event list \<Rightarrow> string set \<times> string list \<times> json list \<Rightarrow> string set \<times> string list \<times> json list" where
  "visit_backfill limit [] st = st"
| "visit_backfill limit (e # es) (visited, to_visit, results) =
     (if length results \<ge> limit then (visited, to_visit, results)
      else (case queue_prev {} (unwrap_or [] (ev_prev_events e)) (visited, to_visit) of
              (visited', to_visit') \<Rightarrow> visit_backfill limit es (visited', to_visit', results @ [event_to_value e])))"

definition backfill_pass ::
  "history_world \<Rightarrow> string \<Rightarrow> nat \<Rightarrow> string list \<Rightarrow> string set \<Rightarrow> json list \<Rightarrow>
   string + string set \<times> string list \<times> json list" where
  "backfill_pass w room_id limit current_batch visited results =
     bindR (map_err repository_error_text (get_events_by_ids_for_backfill w current_batch room_id)) (\<lambda>events.
     Inr (visit_backfill limit events (visited, [], results)))"

section \<open>What the walks reach\<close>

lemma set_one_per_id: "set (one_per_id es) \<subseteq> set es"
  by (induction es) auto

lemma distinct_one_per_id: "distinct (map ev_event_id (one_per_id es))"
  by (induction es) (auto simp: distinct_map inj_on_def)

lemma set_newest [simp]: "set (newest_depth_first es) = set es"
  by (simp add: newest_depth_first_def)

lemma distinct_newest [simp]: "distinct (map ev_event_id (newest_depth_first es)) \<longleftrightarrow> distinct (map ev_event_id es)"
  unfolding newest_depth_first_def distinct_map by simp

lemma history_result_Inr_iff [result_simps]: "history_result w call x = Inr y \<longleftrightarrow> hi_fail w call = None \<and> y = x"
  by (auto simp: history_result_def split: option.splits)

abbreviation prev_set :: "event \<Rightarrow> string set" where
  "prev_set e \<equiv> set (unwrap_or [] (ev_prev_events e))"

lemma queue_prev_spec:
  "queue_prev skip ps (v, q) = (v', q') \<Longrightarrow>
     \<exists>n. q' = q @ n \<and> v' = v \<union> set n \<and> set n \<inter> v = {} \<and> distinct n \<and> set n \<subseteq> set ps - skip \<and> set ps - skip \<subseteq> v'"
proof (induction ps arbitrary: v q)
  case (Cons p ps)
  show ?case
  proof (cases "p \<notin> v \<and> p \<notin> skip")
    case True
    then obtain n where "q' = (q @ [p]) @ n" "v' = insert p v \<union> set n" "set n \<inter> insert p v = {}" "distinct n"
      "set n \<subseteq> set ps - skip" "set ps - skip \<subseteq> v'"
      using Cons.IH [of "insert p v" "q @ [p]"] Cons.prems by auto
    then show ?thesis using True by (intro exI [of _ "p # n"]) auto
  next
    case False
    then obtain n where "q' = q @ n" "v' = v \<union> set n" "set n \<inter> v = {}" "distinct n" "set n \<subseteq> set ps - skip" "set ps - skip \<subseteq> v'"
      using Cons.IH [of v q] Cons.prems by auto
    then show ?thesis using False by (intro exI [of _ n]) auto
  qed
qed simp

lemma queue_all_spec:
  "queue_all skip es (v, q) = (v', q') \<Longrightarrow>
     \<exists>n. q' = q @ n \<and> v' = v \<union> set n \<and> set n \<inter> v = {} \<and> distinct n \<and>
       set n \<subseteq> (\<Union>e \<in> set es. prev_set e) - skip \<and> (\<Union>e \<in> set es. prev_set e) - skip \<subseteq> v'"
proof (induction es arbitrary: v q)
  case (Cons e es)
  obtain v1 q1 where q1: "queue_prev skip (unwrap_or [] (ev_prev_events e)) (v, q) = (v1, q1)" by fastforce
  from queue_prev_spec [OF this] obtain m where m: "q1 = q @ m" "v1 = v \<union> set m" "set m \<inter> v = {}" "distinct m"
    "set m \<subseteq> prev_set e - skip" "prev_set e - skip \<subseteq> v1" by blast
  have "queue_all skip es (v1, q1) = (v', q')" using Cons.prems q1 by simp
  from Cons.IH [OF this] obtain n where n: "q' = q1 @ n" "v' = v1 \<union> set n" "set n \<inter> v1 = {}" "distinct n"
    "set n \<subseteq> (\<Union>e \<in> set es. prev_set e) - skip" "(\<Union>e \<in> set es. prev_set e) - skip \<subseteq> v'" by blast
  show ?case using m n by (intro exI [of _ "m @ n"]) auto
qed simp

lemma visit_missing_spec:
  "visit_missing w earliest limit es (v, q, res) = Inr (v', q', res') \<Longrightarrow>
     queue_all earliest (filter (\<lambda>e. ev_event_id e \<notin> earliest) es) (v, q) = (v', q') \<and>
     res' = res @ map (\<lambda>e. pdu_of_event w e (the (ev_depth e)))
       (take (limit - length res) (filter (\<lambda>e. ev_event_id e \<notin> earliest) es))"
proof (induction es arbitrary: v q res)
  case (Cons e es)
  show ?case
  proof (cases "ev_event_id e \<in> earliest")
    case True
    then show ?thesis using Cons by simp
  next
    case False
    obtain v1 q1 where q1: "queue_prev earliest (unwrap_or [] (ev_prev_events e)) (v, q) = (v1, q1)" by fastforce
    show ?thesis
    proof (cases "length res < limit")
      case True
      then obtain d where d: "ev_depth e = Some d" using Cons.prems False q1 by (cases "ev_depth e") auto
      then have "visit_missing w earliest limit es (v1, q1, res @ [pdu_of_event w e d]) = Inr (v', q', res')"
        using Cons.prems False q1 True by simp
      from Cons.IH [OF this] show ?thesis
        using False q1 d True by (simp add: Suc_diff_Suc take_Cons')
    next
      case len: False
      then have "visit_missing w earliest limit es (v1, q1, res) = Inr (v', q', res')"
        using Cons.prems False q1 by simp
      from Cons.IH [OF this] show ?thesis using False q1 len by simp
    qed
  qed
qed simp

lemma visit_backfill_spec:
  "visit_backfill limit es (v, q, res) = (v', q', res') \<Longrightarrow>
     queue_all {} (take (limit - length res) es) (v, q) = (v', q') \<and>
     res' = res @ map event_to_value (take (limit - length res) es)"
proof (induction es arbitrary: v q res)
  case (Cons e es)
  obtain v1 q1 where q1: "queue_prev {} (unwrap_or [] (ev_prev_events e)) (v, q) = (v1, q1)" by fastforce
  show ?case
  proof (cases "length res \<ge> limit")
    case False
    then have "visit_backfill limit es (v1, q1, res @ [event_to_value e]) = (v', q', res')"
      using Cons.prems q1 by simp
    from Cons.IH [OF this] show ?thesis using False q1 by (simp add: take_Cons' Suc_diff_Suc)
  qed (use Cons.prems in simp)
qed simp

definition missing_selected :: "history_world \<Rightarrow> string \<Rightarrow> int \<Rightarrow> event \<Rightarrow> bool" where
  "missing_selected w room_id min_depth e \<longleftrightarrow>
     e \<in> set (hi_events w) \<and> ev_room_id e = room_id \<and> (case ev_depth e of Some d \<Rightarrow> d \<ge> min_depth | None \<Rightarrow> False)"

definition missing_visible :: "history_world \<Rightarrow> string \<Rightarrow> string set \<Rightarrow> int \<Rightarrow> string \<Rightarrow> bool" where
  "missing_visible w room_id earliest min_depth i \<longleftrightarrow>
     i \<notin> earliest \<and> (\<exists>e. missing_selected w room_id min_depth e \<and> ev_event_id e = i)"

definition missing_succs :: "history_world \<Rightarrow> string \<Rightarrow> string set \<Rightarrow> string set \<Rightarrow> int \<Rightarrow> string \<Rightarrow> string set" where
  "missing_succs w room_id earliest latest min_depth i =
     (if i \<in> earliest then {}
      else (\<Union>e \<in> {e. missing_selected w room_id min_depth e \<and> ev_event_id e = i}. prev_set e) - earliest - latest)"

definition backfill_visible :: "history_world \<Rightarrow> string \<Rightarrow> string \<Rightarrow> bool" where
  "backfill_visible w room_id i \<longleftrightarrow> (\<exists>e \<in> set (hi_events w). ev_room_id e = room_id \<and> ev_event_id e = i)"

definition backfill_succs :: "history_world \<Rightarrow> string \<Rightarrow> string \<Rightarrow> string set" where
  "backfill_succs w room_id i =
     (\<Union>e \<in> {e \<in> set (hi_events w). ev_room_id e = room_id \<and> ev_event_id e = i}. prev_set e)"

abbreviation history_universe :: "history_world \<Rightarrow> string set" where
  "history_universe w \<equiv> (\<Union>e \<in> set (hi_events w). prev_set e)"

lemma fetched_missing:
  assumes "get_events_by_ids_with_min_depth w q room_id min_depth = Inr es"
  shows "set es = {e. missing_selected w room_id min_depth e \<and> ev_event_id e \<in> set q} \<and> distinct (map ev_event_id es)"
proof -
  have "es = newest_depth_first (filter (\<lambda>e. List.member q (ev_event_id e) \<and> ev_room_id e = room_id \<and>
      (case ev_depth e of Some d \<Rightarrow> d \<ge> min_depth | None \<Rightarrow> False)) (hi_events w))"
    using assms unfolding get_events_by_ids_with_min_depth_def result_simps by blast
  then show ?thesis
    using distinct_one_per_id [of "hi_event_table w"]
    by (auto simp: missing_selected_def hi_events_def distinct_map_filter)
qed

lemma fetched_backfill:
  assumes "get_events_by_ids_for_backfill w q room_id = Inr es"
  shows "set es = {e \<in> set (hi_events w). ev_room_id e = room_id \<and> ev_event_id e \<in> set q} \<and> distinct (map ev_event_id es)"
proof -
  have "es = newest_depth_first (filter (\<lambda>e. List.member q (ev_event_id e) \<and> ev_room_id e = room_id) (hi_events w))"
    using assms unfolding get_events_by_ids_for_backfill_def result_simps by blast
  then show ?thesis
    using distinct_one_per_id [of "hi_event_table w"] by (auto simp: hi_events_def distinct_map_filter)
qed

lemma take_all_or_limit:
  "length (res @ map f (take (limit - length res) xs)) < limit \<Longrightarrow> take (limit - length res) xs = xs"
  by simp

lemma missing_pass_cases:
  assumes "missing_pass w room_id earliest limit min_depth q v res = Inr (v', q', res')"
  obtains es where "set es = {e. missing_selected w room_id min_depth e \<and> ev_event_id e \<in> set q \<and> ev_event_id e \<notin> earliest}"
    "distinct (map ev_event_id es)" "v' = v \<union> set q'" "set q' \<inter> v = {}" "distinct q'"
    "set q' \<subseteq> (\<Union>e \<in> set es. prev_set e) - earliest" "(\<Union>e \<in> set es. prev_set e) - earliest \<subseteq> v'"
    "res' = res @ map (\<lambda>e. pdu_of_event w e (the (ev_depth e))) (take (limit - length res) es)"
proof -
  obtain fetched where f: "get_events_by_ids_with_min_depth w q room_id min_depth = Inr fetched"
    "visit_missing w earliest limit fetched (v, [], res) = Inr (v', q', res')"
    using assms unfolding missing_pass_def result_simps by blast
  define es where "es = filter (\<lambda>e. ev_event_id e \<notin> earliest) fetched"
  have "queue_all earliest es (v, []) = (v', q')" and
    r: "res' = res @ map (\<lambda>e. pdu_of_event w e (the (ev_depth e))) (take (limit - length res) es)"
    using visit_missing_spec [OF f(2)] by (simp_all add: es_def)
  then obtain n where "q' = n" "v' = v \<union> set n" "set n \<inter> v = {}" "distinct n"
      "set n \<subseteq> (\<Union>e \<in> set es. prev_set e) - earliest" "(\<Union>e \<in> set es. prev_set e) - earliest \<subseteq> v'"
    using queue_all_spec [of earliest es v "[]" v' q'] by auto
  moreover have "set es = {e. missing_selected w room_id min_depth e \<and> ev_event_id e \<in> set q \<and> ev_event_id e \<notin> earliest}"
    using fetched_missing [OF f(1)] by (auto simp: es_def)
  moreover have "distinct (map ev_event_id es)" using fetched_missing [OF f(1)] by (simp add: es_def distinct_map_filter)
  ultimately show ?thesis using r that by simp
qed

interpretation missing: batch_walk
  "missing_succs w room_id earliest latest min_depth" "missing_visible w room_id earliest min_depth" latest
  "history_universe w" limit hp_event_id "missing_pass w room_id earliest limit min_depth"
  for w room_id earliest latest min_depth limit
proof
  show "finite (history_universe w)" by simp
next
  fix i
  show "missing_succs w room_id earliest latest min_depth i \<subseteq> history_universe w"
    by (auto simp: missing_succs_def missing_selected_def)
  show "missing_succs w room_id earliest latest min_depth i \<inter> latest = {}"
    by (auto simp: missing_succs_def)
next
  fix q v res v' q' res'
  assume p: "missing_pass w room_id earliest limit min_depth q v res = Inr (v', q', res')"
  from p obtain es where es: "set es = {e. missing_selected w room_id min_depth e \<and> ev_event_id e \<in> set q \<and> ev_event_id e \<notin> earliest}"
    "distinct (map ev_event_id es)" "v' = v \<union> set q'" "set q' \<inter> v = {}" "distinct q'"
    "set q' \<subseteq> (\<Union>e \<in> set es. prev_set e) - earliest" "(\<Union>e \<in> set es. prev_set e) - earliest \<subseteq> v'"
    "res' = res @ map (\<lambda>e. pdu_of_event w e (the (ev_depth e))) (take (limit - length res) es)"
    by (rule missing_pass_cases)
  have "set q' \<subseteq> history_universe w" using es(1,6) by (auto simp: missing_selected_def)
  then show "v' = v \<union> set q' \<and> set q' \<inter> v = {} \<and> set q' \<subseteq> history_universe w \<and> distinct q'"
    using es(3-5) by simp
  assume "length res < limit" and base: "latest \<subseteq> v"
  let ?new = "map (\<lambda>e. pdu_of_event w e (the (ev_depth e))) (take (limit - length res) es)"
  have ids: "map hp_event_id ?new = map ev_event_id (take (limit - length res) es)" by (simp add: pdu_of_event_def)
  have vis: "ev_event_id ` set es = {i \<in> set q. missing_visible w room_id earliest min_depth i}"
    using es(1) by (auto simp: missing_visible_def)
  have succs: "(\<Union>i \<in> set q. missing_succs w room_id earliest latest min_depth i) = (\<Union>e \<in> set es. prev_set e) - earliest - latest"
    using es(1) by (auto simp: missing_succs_def)
  have "set q' \<subseteq> (\<Union>i \<in> set q. missing_succs w room_id earliest latest min_depth i)"
    unfolding succs using es(4,6) base by blast
  moreover have "length res' \<le> limit" using es(8) \<open>length res < limit\<close> by simp
  moreover have "distinct (map hp_event_id ?new)"
    using distinct_take [OF es(2), of "limit - length res"] by (simp only: ids take_map)
  moreover have "hp_event_id ` set ?new \<subseteq> {i \<in> set q. missing_visible w room_id earliest min_depth i}"
    unfolding vis [symmetric] set_map [symmetric] ids by (auto dest: in_set_takeD)
  moreover have "hp_event_id ` set ?new = {i \<in> set q. missing_visible w room_id earliest min_depth i} \<and>
      (\<Union>i \<in> set q. missing_succs w room_id earliest latest min_depth i) \<subseteq> v'" if "length res' < limit"
  proof -
    have "take (limit - length res) es = es" using that unfolding es(8) by (rule take_all_or_limit)
    then have "hp_event_id ` set ?new = ev_event_id ` set es" unfolding set_map [symmetric] ids by simp
    then show ?thesis unfolding vis succs using es(7) by blast
  qed
  ultimately show "\<exists>new. res' = res @ new \<and> length res' \<le> limit \<and> distinct (map hp_event_id new) \<and>
      hp_event_id ` set new \<subseteq> {i \<in> set q. missing_visible w room_id earliest min_depth i} \<and>
      set q' \<subseteq> (\<Union>i \<in> set q. missing_succs w room_id earliest latest min_depth i) \<and>
      (length res' < limit \<longrightarrow> hp_event_id ` set new = {i \<in> set q. missing_visible w room_id earliest min_depth i} \<and>
        (\<Union>i \<in> set q. missing_succs w room_id earliest latest min_depth i) \<subseteq> v')"
    using es(8) by (intro exI [of _ ?new]) blast
qed

definition value_event_id :: "json \<Rightarrow> string" where
  "value_event_id v = unwrap_or [] (Option.bind (get v ''event_id'') as_str)"

lemma value_event_id_event [simp]: "value_event_id (event_to_value e) = ev_event_id e"
  by (simp add: value_event_id_def event_to_value_def)

lemma backfill_pass_cases:
  assumes "backfill_pass w room_id limit q v res = Inr (v', q', res')"
  obtains es where "set es = {e \<in> set (hi_events w). ev_room_id e = room_id \<and> ev_event_id e \<in> set q}"
    "distinct (map ev_event_id es)" "v' = v \<union> set q'" "set q' \<inter> v = {}" "distinct q'"
    "set q' \<subseteq> (\<Union>e \<in> set (take (limit - length res) es). prev_set e)"
    "(\<Union>e \<in> set (take (limit - length res) es). prev_set e) \<subseteq> v'"
    "res' = res @ map event_to_value (take (limit - length res) es)"
proof -
  obtain es where f: "get_events_by_ids_for_backfill w q room_id = Inr es"
    "visit_backfill limit es (v, [], res) = (v', q', res')"
    using assms unfolding backfill_pass_def result_simps by blast
  have "queue_all {} (take (limit - length res) es) (v, []) = (v', q')" and
    r: "res' = res @ map event_to_value (take (limit - length res) es)"
    using visit_backfill_spec [OF f(2)] by simp_all
  then obtain n where "q' = n" "v' = v \<union> set n" "set n \<inter> v = {}" "distinct n"
      "set n \<subseteq> (\<Union>e \<in> set (take (limit - length res) es). prev_set e)"
      "(\<Union>e \<in> set (take (limit - length res) es). prev_set e) \<subseteq> v'"
    using queue_all_spec [of "{}" "take (limit - length res) es" v "[]" v' q'] by auto
  then show ?thesis by (intro that [of es]) (use r fetched_backfill [OF f(1)] in auto)
qed

interpretation backfill: batch_walk "backfill_succs w room_id" "backfill_visible w room_id" "{}"
  "history_universe w" limit value_event_id "backfill_pass w room_id limit"
  for w room_id limit
proof
  show "finite (history_universe w)" by simp
next
  fix i
  show "backfill_succs w room_id i \<subseteq> history_universe w" by (auto simp: backfill_succs_def)
  show "backfill_succs w room_id i \<inter> {} = {}" by simp
next
  fix q v res v' q' res'
  assume p: "backfill_pass w room_id limit q v res = Inr (v', q', res')"
  from p obtain es where es: "set es = {e \<in> set (hi_events w). ev_room_id e = room_id \<and> ev_event_id e \<in> set q}"
    "distinct (map ev_event_id es)" "v' = v \<union> set q'" "set q' \<inter> v = {}" "distinct q'"
    "set q' \<subseteq> (\<Union>e \<in> set (take (limit - length res) es). prev_set e)"
    "(\<Union>e \<in> set (take (limit - length res) es). prev_set e) \<subseteq> v'"
    "res' = res @ map event_to_value (take (limit - length res) es)"
    by (rule backfill_pass_cases)
  have taken: "(\<Union>e \<in> set (take (limit - length res) es). prev_set e) \<subseteq> (\<Union>e \<in> set es. prev_set e)"
    using set_take_subset [of "limit - length res" es] by blast
  have "(\<Union>e \<in> set es. prev_set e) \<subseteq> history_universe w" unfolding es(1) by blast
  then have "set q' \<subseteq> history_universe w" using es(6) taken by (meson subset_trans)
  then show "v' = v \<union> set q' \<and> set q' \<inter> v = {} \<and> set q' \<subseteq> history_universe w \<and> distinct q'"
    using es(3-5) by simp
  assume "length res < limit"
  let ?new = "map event_to_value (take (limit - length res) es)"
  have ids: "map value_event_id ?new = map ev_event_id (take (limit - length res) es)" by simp
  have vis: "ev_event_id ` set es = {i \<in> set q. backfill_visible w room_id i}"
    using es(1) by (auto simp: backfill_visible_def)
  have succs: "(\<Union>i \<in> set q. backfill_succs w room_id i) = (\<Union>e \<in> set es. prev_set e)"
    using es(1) by (auto simp: backfill_succs_def)
  have "set q' \<subseteq> (\<Union>i \<in> set q. backfill_succs w room_id i)" unfolding succs using es(6) taken by blast
  moreover have "length res' \<le> limit" using es(8) \<open>length res < limit\<close> by simp
  moreover have "distinct (map value_event_id ?new)"
    using distinct_take [OF es(2), of "limit - length res"] by (simp only: ids take_map)
  moreover have "value_event_id ` set ?new \<subseteq> {i \<in> set q. backfill_visible w room_id i}"
    unfolding vis [symmetric] set_map [symmetric] ids by (auto dest: in_set_takeD)
  moreover have "value_event_id ` set ?new = {i \<in> set q. backfill_visible w room_id i} \<and>
      (\<Union>i \<in> set q. backfill_succs w room_id i) \<subseteq> v'" if "length res' < limit"
  proof -
    have all: "take (limit - length res) es = es" using that unfolding es(8) by (rule take_all_or_limit)
    then have "value_event_id ` set ?new = ev_event_id ` set es" unfolding set_map [symmetric] ids by simp
    then show ?thesis unfolding vis succs using es(7) all by simp
  qed
  ultimately show "\<exists>new. res' = res @ new \<and> length res' \<le> limit \<and> distinct (map value_event_id new) \<and>
      value_event_id ` set new \<subseteq> {i \<in> set q. backfill_visible w room_id i} \<and>
      set q' \<subseteq> (\<Union>i \<in> set q. backfill_succs w room_id i) \<and>
      (length res' < limit \<longrightarrow> value_event_id ` set new = {i \<in> set q. backfill_visible w room_id i} \<and>
        (\<Union>i \<in> set q. backfill_succs w room_id i) \<subseteq> v')"
    using es(8) by (intro exI [of _ ?new]) blast
qed

section \<open>The loops and the handlers\<close>

text \<open>Both loops end: each pass that leaves a queue has seen identifiers that were new.\<close>

function missing_loop ::
  "history_world \<Rightarrow> string \<Rightarrow> string set \<Rightarrow> nat \<Rightarrow> int \<Rightarrow> string list \<Rightarrow> string set \<Rightarrow> history_pdu list \<Rightarrow>
   string + history_pdu list" where
  "missing_loop w room_id earliest limit min_depth to_visit visited results =
     (if to_visit = [] \<or> \<not> length results < limit then Inr results
      else (case missing_pass w room_id earliest limit min_depth to_visit visited results of
              Inl e \<Rightarrow> Inl e
            | Inr (visited', to_visit', results') \<Rightarrow>
                missing_loop w room_id earliest limit min_depth to_visit' visited' results'))"
  by pat_completeness auto

termination missing_loop
proof (relation "measures [\<lambda>(w, _, _, _, _, q, v, _). card (history_universe w - v), \<lambda>(_, _, _, _, _, q, _, _). length q]")
  fix w room_id earliest limit min_depth q v res t v' t' q' res'
  assume "\<not> (q = [] \<or> \<not> length res < limit)" and
    "missing_pass w room_id earliest limit min_depth q v res = Inr t" and "(v', t') = t" and "(q', res') = t'"
  then have "missing_pass w room_id earliest limit min_depth q v res = Inr (v', q', res')" and "q \<noteq> []" by auto
  from missing.pass_decreases [OF this]
  show "((w, room_id, earliest, limit, min_depth, q', v', res'), w, room_id, earliest, limit, min_depth, q, v, res)
      \<in> measures [\<lambda>(w, _, _, _, _, q, v, _). card (history_universe w - v), \<lambda>(_, _, _, _, _, q, _, _). length q]"
    by auto
qed simp

function backfill_loop ::
  "history_world \<Rightarrow> string \<Rightarrow> nat \<Rightarrow> string list \<Rightarrow> string set \<Rightarrow> json list \<Rightarrow> string + json list" where
  "backfill_loop w room_id limit to_visit visited results =
     (if to_visit = [] \<or> \<not> length results < limit then Inr results
      else (case backfill_pass w room_id limit to_visit visited results of
              Inl e \<Rightarrow> Inl e
            | Inr (visited', to_visit', results') \<Rightarrow> backfill_loop w room_id limit to_visit' visited' results'))"
  by pat_completeness auto

termination backfill_loop
proof (relation "measures [\<lambda>(w, _, _, q, v, _). card (history_universe w - v), \<lambda>(_, _, _, q, _, _). length q]")
  fix w room_id limit q v res t v' t' q' res'
  assume "\<not> (q = [] \<or> \<not> length res < limit)" and
    "backfill_pass w room_id limit q v res = Inr t" and "(v', t') = t" and "(q', res') = t'"
  then have "backfill_pass w room_id limit q v res = Inr (v', q', res')" and "q \<noteq> []" by auto
  from backfill.pass_decreases [OF this]
  show "((w, room_id, limit, q', v', res'), w, room_id, limit, q, v, res)
      \<in> measures [\<lambda>(w, _, _, q, v, _). card (history_universe w - v), \<lambda>(_, _, _, q, _, _). length q]"
    by auto
qed simp

declare missing_loop.simps [simp del] backfill_loop.simps [simp del]

definition newest_pdus_first :: "history_pdu list \<Rightarrow> history_pdu list" where
  "newest_pdus_first ps = sort_key (\<lambda>p. - hp_depth p) (sort_key (\<lambda>p. - hp_origin_server_ts p) ps)"

definition get_missing_events_traversal ::
  "history_world \<Rightarrow> string \<Rightarrow> string list \<Rightarrow> string list \<Rightarrow> nat \<Rightarrow> int \<Rightarrow> string + history_pdu list" where
  "get_missing_events_traversal w room_id latest_events earliest_events limit min_depth =
     bindR (map_err repository_error_text
              (get_events_by_ids_with_min_depth w latest_events room_id min_depth)) (\<lambda>start_events.
     case queue_all (set earliest_events) start_events (set latest_events, []) of
       (visited, to_visit) \<Rightarrow>
         bindR (missing_loop w room_id (set earliest_events) limit min_depth to_visit visited []) (\<lambda>result_events.
         Inr (newest_pdus_first result_events)))"

text \<open>The last filter asks the database about every event; its first error is the outcome.\<close>

fun members_at_depth :: "history_world \<Rightarrow> string \<Rightarrow> string \<Rightarrow> history_pdu list \<Rightarrow> string + history_pdu list" where
  "members_at_depth w room_id server [] = Inr []"
| "members_at_depth w room_id server (p # ps) =
     bindR (map_err repository_error_text (get_server_membership_at_depth w room_id server (hp_depth p))) (\<lambda>had_members.
     bindR (members_at_depth w room_id server ps) (\<lambda>rest. Inr (if had_members then p # rest else rest)))"

definition sent_locally :: "history_world \<Rightarrow> history_pdu \<Rightarrow> bool" where
  "sent_locally w p =
     (case rfind_char CHR '':'' (hp_sender p) of
        Some colon_pos \<Rightarrow> drop (Suc colon_pos) (hp_sender p) = homeserver_name (sw_crypto (hi_session w))
      | None \<Rightarrow> False)"

definition filter_events_for_server ::
  "history_world \<Rightarrow> room \<Rightarrow> string \<Rightarrow> history_pdu list \<Rightarrow> bool \<Rightarrow> string + history_pdu list" where
  "filter_events_for_server w room requesting_server events server_has_users =
     (if unwrap_or ''shared'' (r_history_visibility room) \<noteq> ''world_readable'' \<and> \<not> server_has_users then Inr []
      else
        bindR (map_err repository_error_text (are_users_erased w (map hp_sender events))) (\<lambda>erased_senders.
        let kept = filter (\<lambda>p. erased_senders (hp_sender p) \<noteq> Some True) events in
        bindR (map_err repository_error_text (is_partial_state_room w (r_room_id room))) (\<lambda>is_partial_state.
        members_at_depth w (r_room_id room) requesting_server
          (if is_partial_state then filter (sent_locally w) kept else kept))))"

text \<open>\<open>as usize\<close> of a signed 64-bit number.\<close>

definition as_usize :: "int \<Rightarrow> nat" where
  "as_usize n = nat (n mod 2 ^ 64)"

definition missing_events_answer ::
  "history_world \<Rightarrow> string \<Rightarrow> string \<Rightarrow> missing_events_request \<Rightarrow> nat + history_pdu list" where
  "missing_events_answer w room_id origin payload =
     (let limit = as_usize (unwrap_or 10 (mr_limit payload));
          min_depth = unwrap_or 0 (mr_min_depth payload) in
      bindR (ensure (\<not> (limit = 0 \<or> limit > 20)) 400) (\<lambda>_.
      bindR (ensure (\<not> min_depth < 0) 400) (\<lambda>_.
      bindR (validate_room_id room_id) (\<lambda>_.
      bindR (ensure (mr_latest_events payload \<noteq> []) 400) (\<lambda>_.
      bindR (validate_event_id_list (mr_latest_events payload) 50) (\<lambda>_.
      bindR (validate_event_id_list (mr_earliest_events payload) 50) (\<lambda>_.
      bindR (known_room w room_id) (\<lambda>room.
      bindR (validate_room_version_compatibility room) (\<lambda>_.
      bindR (validate_federation_access room) (\<lambda>_.
      bindR (server_may_read w room_id origin) (\<lambda>has_users.
      bindR (for_each (known_event w room_id) (mr_latest_events payload)) (\<lambda>_.
      bindR (map_err (\<lambda>_. 500) (get_missing_events_traversal w room_id (mr_latest_events payload)
               (mr_earliest_events payload) limit min_depth)) (\<lambda>missing_events.
      map_err (\<lambda>_. 500) (filter_events_for_server w room origin missing_events has_users))))))))))))))"

definition missing_request_json :: "missing_events_request \<Rightarrow> json" where
  "missing_request_json p =
     JObject [(''earliest_events'', strings_json (mr_earliest_events p)),
              (''latest_events'', strings_json (mr_latest_events p)),
              (''limit'', case mr_limit p of Some n \<Rightarrow> int_json n | None \<Rightarrow> JNull),
              (''min_depth'', case mr_min_depth p of Some n \<Rightarrow> int_json n | None \<Rightarrow> JNull)]"

definition post_missing_events ::
  "history_world \<Rightarrow> session_clocks \<Rightarrow> string \<Rightarrow> string option option \<Rightarrow> missing_events_request \<Rightarrow> key_row list \<Rightarrow>
   (nat + history_pdu list) \<times> key_row list" where
  "post_missing_events w ck room_id authorization payload rows =
     (case bindR (history_parse_auth authorization) (\<lambda>auth.
           bindR (map_err (\<lambda>_. 400) (json_to_vec (sw_pdu (hi_session w)) (missing_request_json payload))) (\<lambda>body.
           Inr (auth, body))) of
        Inl status \<Rightarrow> (Inl status, rows)
      | Inr (auth, body) \<Rightarrow>
          (case validate_server_signature (hi_session w) ck (hx_origin auth) (hx_key_id auth) (hx_signature auth)
                  ''POST'' (''/_matrix/federation/v1/get_missing_events/'' @ room_id) body rows of
             (Inl _, rows') \<Rightarrow> (Inl 401, rows')
           | (Inr _, rows') \<Rightarrow> (missing_events_answer w room_id (hx_origin auth) payload, rows')))"

definition value_i64 :: "string \<Rightarrow> json \<Rightarrow> int" where
  "value_i64 field v = unwrap_or 0 (Option.bind (get v field) as_i64)"

definition backfill_events :: "history_world \<Rightarrow> string \<Rightarrow> string list \<Rightarrow> nat \<Rightarrow> string + json list" where
  "backfill_events w room_id starting_event_ids limit =
     bindR (backfill_loop w room_id limit starting_event_ids (set starting_event_ids) []) (\<lambda>result_events.
     Inr (sort_key (\<lambda>v. - value_i64 ''depth'' v) (sort_key (\<lambda>v. - value_i64 ''origin_server_ts'' v) result_events)))"

definition backfill_is_ip_literal :: "string \<Rightarrow> bool" where
  "backfill_is_ip_literal server_name =
     (let host_part = split_first CHR '':'' server_name;
          host_clean = rev (dropWhile (\<lambda>c. c = CHR '']'') (rev (dropWhile (\<lambda>c. c = CHR ''['') host_part))) in
      is_ipv4 host_clean \<or> is_ipv6 host_clean)"

definition backfill_acl_decision :: "auth_world \<Rightarrow> string list \<Rightarrow> string list \<Rightarrow> bool \<Rightarrow> string \<Rightarrow> bool" where
  "backfill_acl_decision aw allow_list deny_list allow_ip_literals requesting_server =
     (if \<not> allow_ip_literals \<and> backfill_is_ip_literal requesting_server then False
      else if list_ex (matches_server_pattern aw requesting_server) deny_list then False
      else list_ex (matches_server_pattern aw requesting_server) allow_list)"

definition acl_strings :: "members \<Rightarrow> string \<Rightarrow> string list \<Rightarrow> string list" where
  "acl_strings content field fallback =
     (case Option.bind (map_of content field) as_array of
        Some arr \<Rightarrow> List.map_filter as_str arr
      | None \<Rightarrow> fallback)"

definition value_bool :: "json \<Rightarrow> bool option" where
  "value_bool v = (case v of JBool b \<Rightarrow> Some b | _ \<Rightarrow> None)"

definition validate_server_acl :: "history_world \<Rightarrow> room \<Rightarrow> string \<Rightarrow> string + bool" where
  "validate_server_acl w room requesting_server =
     bindR (map_err repository_error_text (get_server_acl_event w (r_room_id room))) (\<lambda>acl_event.
     case acl_event of
       None \<Rightarrow> Inr True
     | Some event \<Rightarrow>
         bindR (ok_or (content_as_object (ev_content event)) ''Server ACL content is not an object'') (\<lambda>acl_content.
         Inr (backfill_acl_decision (pw_auth (sw_pdu (hi_session w)))
                (acl_strings acl_content ''allow'' [''*'']) (acl_strings acl_content ''deny'' [])
                (unwrap_or True (Option.bind (map_of acl_content ''allow_ip_literals'') value_bool)) requesting_server)))"

definition validate_room_access_for_backfill :: "room \<Rightarrow> nat + unit" where
  "validate_room_access_for_backfill room =
     ensure (\<not> (case r_tombstone room of Some tombstone \<Rightarrow> get tombstone ''replacement_room'' \<noteq> None | None \<Rightarrow> False)) 410"

definition backfill_answer ::
  "history_world \<Rightarrow> int \<Rightarrow> string \<Rightarrow> string \<Rightarrow> backfill_query \<Rightarrow> nat + json" where
  "backfill_answer w now room_id origin query =
     bindR (ensure (\<not> (bq_limit query \<le> 0 \<or> bq_limit query > 100)) 400) (\<lambda>_.
     bindR (ensure (bq_v query \<noteq> []) 400) (\<lambda>_.
     bindR (known_room w room_id) (\<lambda>room.
     bindR (validate_federation_access room) (\<lambda>_.
     bindR (validate_room_version_compatibility room) (\<lambda>_.
     bindR (map_err (\<lambda>_. 500) (validate_server_acl w room origin)) (\<lambda>allowed.
     bindR (ensure allowed 403) (\<lambda>_.
     bindR (validate_room_access_for_backfill room) (\<lambda>_.
     bindR (server_may_read w room_id origin) (\<lambda>_.
     bindR (for_each (known_event w room_id) (bq_v query)) (\<lambda>_.
     bindR (map_err (\<lambda>_. 500) (backfill_events w room_id (bq_v query) (nat (bq_limit query)))) (\<lambda>backfilled_events.
     Inr (JObject [(''origin'', JString (homeserver_name (sw_crypto (hi_session w)))),
                   (''origin_server_ts'', int_json now), (''pdus'', JArray backfilled_events)]))))))))))))"

definition backfill_body :: "string \<Rightarrow> backfill_query \<Rightarrow> string" where
  "backfill_body room_id query =
     ''room_id='' @ room_id @ ''&limit='' @ show_int (bq_limit query) @ ''&v='' @ joined ''&v='' (bq_v query)"

definition get_backfill ::
  "history_world \<Rightarrow> session_clocks \<Rightarrow> int \<Rightarrow> string \<Rightarrow> backfill_query \<Rightarrow> string option option \<Rightarrow> key_row list \<Rightarrow>
   (nat + json) \<times> key_row list" where
  "get_backfill w ck now room_id query authorization rows =
     (case history_parse_auth authorization of
        Inl status \<Rightarrow> (Inl status, rows)
      | Inr auth \<Rightarrow>
          (case validate_server_signature (hi_session w) ck (hx_origin auth) (hx_key_id auth) (hx_signature auth)
                  ''GET'' ''/backfill'' (backfill_body room_id query) rows of
             (Inl _, rows') \<Rightarrow> (Inl 401, rows')
           | (Inr _, rows') \<Rightarrow> (backfill_answer w now room_id (hx_origin auth) query, rows')))"

section \<open>What the walks return\<close>

definition missing_roots :: "history_world \<Rightarrow> string \<Rightarrow> string set \<Rightarrow> string set \<Rightarrow> int \<Rightarrow> string set" where
  "missing_roots w room_id earliest latest min_depth =
     (\<Union>e \<in> {e. missing_selected w room_id min_depth e \<and> ev_event_id e \<in> latest}. prev_set e) - earliest - latest"

definition missing_wanted :: "history_world \<Rightarrow> string \<Rightarrow> string list \<Rightarrow> string list \<Rightarrow> int \<Rightarrow> string set" where
  "missing_wanted w room_id latest earliest min_depth =
     wanted (missing_succs w room_id (set earliest) (set latest) min_depth)
       (missing_visible w room_id (set earliest) min_depth)
       (missing_roots w room_id (set earliest) (set latest) min_depth)"

lemma missing_loop_walks:
  "missing_loop w room_id earliest limit min_depth q v res = Inr out \<Longrightarrow>
     missing.walks limit w room_id earliest min_depth q v res out"
proof (induction w room_id earliest limit min_depth q v res rule: missing_loop.induct)
  case (1 w room_id earliest limit min_depth q v res)
  show ?case
  proof (cases "q = [] \<or> \<not> length res < limit")
    case True
    then have "out = res" using "1.prems" by (subst (asm) missing_loop.simps) simp
    then show ?thesis using True by (auto intro: missing.walk_ends)
  next
    case False
    then obtain v' q' res' where p: "missing_pass w room_id earliest limit min_depth q v res = Inr (v', q', res')"
      and l: "missing_loop w room_id earliest limit min_depth q' v' res' = Inr out"
      using "1.prems" by (subst (asm) missing_loop.simps) (auto split: sum.splits)
    have "missing.walks limit w room_id earliest min_depth q' v' res' out" using "1.IH" False p l by blast
    then show ?thesis using False p by (auto intro: missing.walk_pass)
  qed
qed

lemma backfill_loop_walks:
  "backfill_loop w room_id limit q v res = Inr out \<Longrightarrow> backfill.walks limit w room_id q v res out"
proof (induction w room_id limit q v res rule: backfill_loop.induct)
  case (1 w room_id limit q v res)
  show ?case
  proof (cases "q = [] \<or> \<not> length res < limit")
    case True
    then have "out = res" using "1.prems" by (subst (asm) backfill_loop.simps) simp
    then show ?thesis using True by (auto intro: backfill.walk_ends)
  next
    case False
    then obtain v' q' res' where p: "backfill_pass w room_id limit q v res = Inr (v', q', res')"
      and l: "backfill_loop w room_id limit q' v' res' = Inr out"
      using "1.prems" by (subst (asm) backfill_loop.simps) (auto split: sum.splits)
    have "backfill.walks limit w room_id q' v' res' out" using "1.IH" False p l by blast
    then show ?thesis using False p by (auto intro: backfill.walk_pass)
  qed
qed

text \<open>Every result of the walk is made from a selected event.\<close>

lemma missing_walk_events:
  assumes "missing.walks limit w room_id earliest min_depth q v res out"
    and "\<forall>p \<in> set res. \<exists>e d. missing_selected w room_id min_depth e \<and> ev_depth e = Some d \<and> p = pdu_of_event w e d"
  shows "\<forall>p \<in> set out. \<exists>e d. missing_selected w room_id min_depth e \<and> ev_depth e = Some d \<and> p = pdu_of_event w e d"
  using assms
proof (induction rule: missing.walks.induct)
  case (walk_pass q res v v' q' res' out)
  from walk_pass(3) obtain es where es: "set es = {e. missing_selected w room_id min_depth e \<and> ev_event_id e \<in> set q \<and> ev_event_id e \<notin> earliest}"
    "res' = res @ map (\<lambda>e. pdu_of_event w e (the (ev_depth e))) (take (limit - length res) es)"
    by (rule missing_pass_cases)
  have "\<exists>e' d. missing_selected w room_id min_depth e' \<and> ev_depth e' = Some d \<and> pdu_of_event w e (the (ev_depth e)) = pdu_of_event w e' d"
    if "e \<in> set (take (limit - length res) es)" for e
  proof -
    have "missing_selected w room_id min_depth e" using in_set_takeD [OF that] es(1) by blast
    then show ?thesis by (auto simp: missing_selected_def split: option.splits)
  qed
  then have "\<forall>p \<in> set res'. \<exists>e d. missing_selected w room_id min_depth e \<and> ev_depth e = Some d \<and> p = pdu_of_event w e d"
    using walk_pass.prems es(2) by auto
  then show ?case by (rule walk_pass.IH)
qed simp

lemma set_newest_pdus [simp]: "set (newest_pdus_first ps) = set ps"
  by (simp add: newest_pdus_first_def)

lemma length_newest_pdus [simp]: "length (newest_pdus_first ps) = length ps"
  by (simp add: newest_pdus_first_def)

lemma distinct_newest_pdus [simp]: "distinct (map hp_event_id (newest_pdus_first ps)) \<longleftrightarrow> distinct (map hp_event_id ps)"
  unfolding newest_pdus_first_def distinct_map by simp

lemma traversal_result:
  assumes "get_missing_events_traversal w room_id latest earliest limit min_depth = Inr pdus"
  shows "distinct (map hp_event_id pdus) \<and>
     hp_event_id ` set pdus \<subseteq> missing_wanted w room_id latest earliest min_depth \<and>
     length pdus = min limit (card (missing_wanted w room_id latest earliest min_depth)) \<and>
     (\<forall>p \<in> set pdus. \<exists>e d. missing_selected w room_id min_depth e \<and> ev_depth e = Some d \<and> p = pdu_of_event w e d)"
proof -
  obtain start where start: "get_events_by_ids_with_min_depth w latest room_id min_depth = Inr start"
    using assms unfolding get_missing_events_traversal_def result_simps by blast
  obtain v q where q0: "queue_all (set earliest) start (set latest, []) = (v, q)" by fastforce
  obtain out where "missing_loop w room_id (set earliest) limit min_depth q v [] = Inr out" "pdus = newest_pdus_first out"
    using assms by (auto simp: get_missing_events_traversal_def start q0 result_simps)
  note t = start q0 this
  from queue_all_spec [OF t(2)] have q: "v = set latest \<union> set q" "set q \<inter> set latest = {}" "distinct q"
      "set q \<subseteq> (\<Union>e \<in> set start. prev_set e) - set earliest" "(\<Union>e \<in> set start. prev_set e) - set earliest \<subseteq> v" by auto
  have roots: "set q = missing_roots w room_id (set earliest) (set latest) min_depth"
    using q fetched_missing [OF t(1)] unfolding missing_roots_def by auto
  note walk = missing_loop_walks [OF t(3)]
  have "distinct (map hp_event_id out) \<and> hp_event_id ` set out \<subseteq> missing_wanted w room_id latest earliest min_depth \<and>
     length out = min limit (card (missing_wanted w room_id latest earliest min_depth))"
    using missing.walk_result [OF walk [unfolded q(1)] q(3,2)] unfolding missing_wanted_def roots by blast
  then show ?thesis unfolding t(4) using missing_walk_events [OF walk] by simp
qed

lemma traversal_returns:
  assumes "hi_fail w EventsByIds = None"
  shows "\<exists>pdus. get_missing_events_traversal w room_id latest earliest limit min_depth = Inr pdus"
proof -
  have visits: "\<exists>st'. visit_missing w skip limit es st = Inr st'"
    if "\<forall>e \<in> set es. ev_depth e \<noteq> None" for skip es st
    using that by (induction w skip limit es st rule: visit_missing.induct) (auto split: prod.split)
  have pass: "\<exists>st'. missing_pass w room_id skip limit min_depth q v res = Inr st'" for skip q v res
  proof -
    obtain es where es: "get_events_by_ids_with_min_depth w q room_id min_depth = Inr es"
      using assms by (simp add: get_events_by_ids_with_min_depth_def history_result_def)
    have "\<forall>e \<in> set es. ev_depth e \<noteq> None"
      using fetched_missing [OF es] by (auto simp: missing_selected_def split: option.splits)
    then show ?thesis using visits es by (simp add: missing_pass_def)
  qed
  have "\<exists>out. missing_loop w' r skip l m q v res = Inr out" if "w' = w" "r = room_id" "l = limit" "m = min_depth"
    for w' r skip l m q v res
    using that
  proof (induction w' r skip l m q v res rule: missing_loop.induct)
    case (1 w' r skip l m q v res)
    obtain v' q' res' where "missing_pass w' r skip l m q v res = Inr (v', q', res')"
      using pass [of skip q v res] "1.prems" by auto
    then show ?case using 1 by (subst missing_loop.simps) auto
  qed
  moreover obtain start where "get_events_by_ids_with_min_depth w latest room_id min_depth = Inr start"
    using assms by (simp add: get_events_by_ids_with_min_depth_def history_result_def)
  moreover obtain v q where "queue_all (set earliest) start (set latest, []) = (v, q)" by fastforce
  moreover obtain out where "missing_loop w room_id (set earliest) limit min_depth q v [] = Inr out"
    using calculation(1) by blast
  ultimately show ?thesis by (simp add: get_missing_events_traversal_def)
qed

text \<open>
  C17. The walk for missing events is exact: it returns, each once, events that are reached from the
  latest events over previous events through stored events of the room of sufficient depth,
  neither latest nor earliest themselves; and it returns all of them, or as many as the limit
  admits. It always returns when the query succeeds.
\<close>

theorem missing_traversal_exact:
  assumes "hi_fail w EventsByIds = None"
  shows "\<exists>pdus. get_missing_events_traversal w room_id latest earliest limit min_depth = Inr pdus \<and>
     distinct (map hp_event_id pdus) \<and>
     hp_event_id ` set pdus \<subseteq> missing_wanted w room_id latest earliest min_depth \<and>
     length pdus = min limit (card (missing_wanted w room_id latest earliest min_depth))"
proof -
  obtain pdus where "get_missing_events_traversal w room_id latest earliest limit min_depth = Inr pdus"
    using traversal_returns [OF assms] by blast
  with traversal_result [OF this] show ?thesis by blast
qed

definition backfill_wanted :: "history_world \<Rightarrow> string \<Rightarrow> string list \<Rightarrow> string set" where
  "backfill_wanted w room_id starting =
     wanted (backfill_succs w room_id) (backfill_visible w room_id) (set starting)"

text \<open>
  The walk of a backfill is exact in the same sense: the stored events of the room that are reached from
  the starting events, these included, each once, all of them or as many as the limit admits.
\<close>

theorem backfill_exact:
  assumes "hi_fail w EventsByIds = None" and "distinct starting"
  shows "\<exists>values. backfill_events w room_id starting limit = Inr values \<and>
     distinct (map value_event_id values) \<and>
     value_event_id ` set values \<subseteq> backfill_wanted w room_id starting \<and>
     length values = min limit (card (backfill_wanted w room_id starting))"
proof -
  have pass: "\<exists>st'. backfill_pass w room_id limit q v res = Inr st'" for q v res
    using assms(1)
    by (simp only: backfill_pass_def get_events_by_ids_for_backfill_def history_result_def option.case map_err.simps
        bindR.simps) blast
  have "\<exists>out. backfill_loop w' r l q v res = Inr out" if "w' = w" "r = room_id" "l = limit" for w' r l q v res
    using that
  proof (induction w' r l q v res rule: backfill_loop.induct)
    case (1 w' r l q v res)
    obtain v' q' res' where "backfill_pass w' r l q v res = Inr (v', q', res')"
      using pass [of q v res] "1.prems" by auto
    then show ?case using 1 by (subst backfill_loop.simps) auto
  qed
  then obtain out where out: "backfill_loop w room_id limit starting (set starting) [] = Inr out" by blast
  have "distinct (map value_event_id out) \<and> value_event_id ` set out \<subseteq> backfill_wanted w room_id starting \<and>
     length out = min limit (card (backfill_wanted w room_id starting))"
    using backfill.walk_result [of limit w room_id starting out] backfill_loop_walks [OF out] assms(2)
    unfolding backfill_wanted_def by simp
  then show ?thesis using out by (simp add: backfill_events_def distinct_map)
qed

section \<open>The handlers\<close>

text \<open>What the query for members at a depth finds.\<close>

definition member_up_to :: "history_world \<Rightarrow> string \<Rightarrow> string \<Rightarrow> int \<Rightarrow> bool" where
  "member_up_to w room_id server depth \<longleftrightarrow>
     (\<exists>u m e. (room_id, u, m) \<in> set (hi_memberships w) \<and> m \<in> {''join'', ''invite''} \<and>
        (\<exists>before after. u = before @ '':'' @ server @ after) \<and>
        e \<in> set (hi_event_table w) \<and> ev_room_id e = room_id \<and> ev_event_type e = ''m.room.member'' \<and>
        ev_state_key e = Some u \<and> (\<forall>d. ev_depth e = Some d \<longrightarrow> d \<le> depth))"

lemma one_per_id_subset: "set (one_per_id es) \<subseteq> set es"
  by (induction es) auto

lemma contains_str_parts: "contains_str u part \<Longrightarrow> \<exists>before after. u = before @ part @ after"
  unfolding contains_str_def list_ex_iff
  by (fastforce simp: in_set_suffixes suffix_def strip_prefix_iff)

lemma membership_at_depth_found:
  assumes "get_server_membership_at_depth w room_id server depth = Inr True"
  shows "member_up_to w room_id server depth"
proof -
  obtain u m e where "(room_id, u, m) \<in> set (hi_memberships w)" "contains_str u ('':'' @ server)"
    "m \<in> {''join'', ''invite''}" "e \<in> set (hi_events w)" "ev_room_id e = room_id"
    "ev_event_type e = ''m.room.member''" "ev_state_key e = Some u" "depth_key e \<le> depth"
    using assms
    by (auto simp: get_server_membership_at_depth_def history_result_def list_ex_iff split: option.splits)
  moreover from this have "e \<in> set (hi_event_table w)" using one_per_id_subset unfolding hi_events_def by blast
  ultimately show ?thesis
    using contains_str_parts [of u "'':'' @ server"] unfolding member_up_to_def
    by (fastforce simp: depth_key_def)
qed

lemma members_at_depth_Inr:
  "members_at_depth w room_id server ps = Inr kept \<Longrightarrow>
     kept = filter (\<lambda>p. get_server_membership_at_depth w room_id server (hp_depth p) = Inr True) ps"
proof (induction ps arbitrary: kept)
  case (Cons p ps)
  then show ?case by (auto simp: result_simps)
qed simp

lemma filter_events_result:
  assumes "filter_events_for_server w room server events has_users = Inr kept"
  shows "\<exists>P. kept = filter P events \<and> (\<forall>p \<in> set kept. get_server_membership_at_depth w (r_room_id room) server (hp_depth p) = Inr True \<and>
      \<not> (\<exists>m. are_users_erased w (map hp_sender events) = Inr m \<and> m (hp_sender p) = Some True)) \<and>
    (kept \<noteq> [] \<longrightarrow> has_users \<or> r_history_visibility room = Some ''world_readable'')"
proof (cases "unwrap_or ''shared'' (r_history_visibility room) \<noteq> ''world_readable'' \<and> \<not> has_users")
  case True
  then have "kept = []" using assms by (simp add: filter_events_for_server_def)
  then show ?thesis by (intro exI [of _ "\<lambda>p. False"]) simp
next
  case False
  then obtain m partial where m: "are_users_erased w (map hp_sender events) = Inr m"
    "members_at_depth w (r_room_id room) server (if partial then filter (sent_locally w)
        (filter (\<lambda>p. m (hp_sender p) \<noteq> Some True) events) else filter (\<lambda>p. m (hp_sender p) \<noteq> Some True) events) = Inr kept"
    using assms unfolding filter_events_for_server_def if_not_P [OF False] Let_def result_simps by blast
  have "kept = filter (\<lambda>p. get_server_membership_at_depth w (r_room_id room) server (hp_depth p) = Inr True \<and>
      (partial \<longrightarrow> sent_locally w p) \<and> m (hp_sender p) \<noteq> Some True) events"
    using members_at_depth_Inr [OF m(2)] by (cases partial) (simp_all add: conj_ac)
  moreover have "has_users \<or> r_history_visibility room = Some ''world_readable''"
    using False by (cases "r_history_visibility room") auto
  ultimately show ?thesis using m(1) by (intro exI) auto
qed


text \<open>
  The check of members at a depth is a query no SurrealQL database accepts. Where it is refused the
  endpoint never discloses an event: it answers with an empty list or an error.
\<close>

theorem nothing_disclosed_without_join:
  assumes "hi_fail w MembersAtDepth = Some e"
    and "post_missing_events w ck room_id authorization payload rows = (Inr pdus, rows')"
  shows "pdus = []"
proof -
  obtain origin where "missing_events_answer w room_id origin payload = Inr pdus"
    using assms(2) by (auto simp: post_missing_events_def result_simps split: sum.splits prod.splits)
  then obtain room found has_users where
    "filter_events_for_server w room origin found has_users = Inr pdus"
    unfolding missing_events_answer_def Let_def result_simps by (elim exE conjE) (rule that; simp)
  from filter_events_result [OF this] obtain P where
    "\<forall>p \<in> set pdus. get_server_membership_at_depth w (r_room_id room) origin (hp_depth p) = Inr True"
    by blast
  with assms(1) show ?thesis
    by (cases pdus) (auto simp: get_server_membership_at_depth_def history_result_def)
qed

text \<open>
  Backfill never succeeds: the text that is checked contains the query as the body of the request,
  which is not JSON, so the signature check fails before it looks at the signature. What is needed of
  the JSON library is that it refuses a text that begins with \<open>room_id=\<close>.
\<close>

theorem backfill_refused:
  assumes "\<And>s. sw_from_slice (hi_session w) (''room_id='' @ s) = None"
  shows "\<exists>status. fst (get_backfill w ck now room_id query authorization rows) = Inl status \<and> status \<in> {400, 401}"
proof (cases "history_parse_auth authorization")
  case (Inl status)
  have "status \<in> {400, 401}"
  proof -
    have params: "history_params ps acc = Inl n \<Longrightarrow> n = 400" for ps acc n
      by (induction ps acc rule: history_params.induct)
        (auto simp: bindR_Inl_iff history_param_def split: prod.splits option.splits if_splits)
    show ?thesis
      using Inl by (auto simp: history_parse_auth_def bindR_Inl_iff ok_or_Inl_iff split: prod.splits dest: params)
  qed
  then show ?thesis using Inl by (simp add: get_backfill_def)
next
  case (Inr auth)
  have "build_canonical_json (hi_session w) m u o' d (backfill_body room_id query) = Inl A_InvalidSignature" for m u o' d
    using assms [of "room_id @ ''&limit='' @ show_int (bq_limit query) @ ''&v='' @ joined ''&v='' (bq_v query)"]
    by (simp add: build_canonical_json_def backfill_body_def Let_def)
  then have "\<exists>e rows'. validate_server_signature (hi_session w) ck (hx_origin auth) (hx_key_id auth) (hx_signature auth)
      ''GET'' ''/backfill'' (backfill_body room_id query) rows = (Inl e, rows')"
    by (cases "session_get_server_public_key (hi_session w) ck (hx_origin auth) (hx_key_id auth) rows"; cases "fst (session_get_server_public_key (hi_session w) ck (hx_origin auth) (hx_key_id auth) rows)")
      (simp_all add: validate_server_signature_def bindS_def liftS_def)
  then show ?thesis using Inr by (auto simp: get_backfill_def)
qed

text \<open>
  Access is granted by a part of a name: a server counts as having users in a room when some member's
  identifier contains a colon followed by its name, so every beginning of a member's server name is a
  server with users in the room. The membership may be any, also a ban.
\<close>

theorem name_prefix_has_users:
  assumes "hi_fail w ServerUsers = None" and "(room_id, local @ '':'' @ server @ rest, membership) \<in> set (hi_memberships w)"
  shows "server_has_users_in_room w room_id server = Inr True \<and> server_may_read w room_id server = Inr True"
proof -
  have "contains_str (local @ '':'' @ server @ rest) ('':'' @ server)"
  proof -
    have "'':'' @ server @ rest \<in> set (suffixes (local @ '':'' @ server @ rest))" by (simp add: in_set_suffixes suffix_def)
    moreover have "strip_prefix ('':'' @ server) ('':'' @ server @ rest) \<noteq> None"
      using strip_prefix_append [of "'':'' @ server" rest] by simp
    ultimately show ?thesis unfolding contains_str_def list_ex_iff by blast
  qed
  then have "server_has_users_in_room w room_id server = Inr True"
    using assms by (auto simp: server_has_users_in_room_def history_result_def list_ex_iff)
  then show ?thesis by (simp add: server_may_read_def ensure_def)
qed

text \<open>
  A room is never recognised as world readable by rows of the shape the query selects: they nest the
  setting under \<open>content\<close>, while the code reads it beside that. A server without members in the
  room is then refused with status 403 whatever the room's setting.
\<close>

theorem world_readable_unseen:
  assumes "hi_visibility_rows w room_id = map (\<lambda>v. JObject [(''content'', JObject [(''history_visibility'', v)])]) vs"
    and "hi_fail w ServerUsers = None" and "hi_fail w VisibilityRows = None"
    and "server_has_users_in_room w room_id origin = Inr False"
  shows "is_room_world_readable w room_id = Inr False \<and> server_may_read w room_id origin = Inl 403"
proof -
  have "those (map visibility_of_row (hi_visibility_rows w room_id)) = Some (map (\<lambda>v. None) vs)"
    unfolding assms(1) by (induction vs) (simp_all add: visibility_of_row_def struct_fields_def opt_string_def)
  then have "is_room_world_readable w room_id = Inr False"
    using assms(3)
    by (cases vs) (simp_all add: is_room_world_readable_def get_room_history_visibility_def history_result_def)
  then show ?thesis using assms(4) by (simp add: server_may_read_def ensure_def)
qed

text \<open>
  Backfill has its own check of server access lists. It agrees with the engine's for names without
  brackets, except for an empty list of allowed servers, which admits everybody in the engine and
  nobody here.
\<close>

theorem acl_checks_agree:
  assumes "CHR ''['' \<notin> set server" and "CHR '']'' \<notin> set server"
  shows "backfill_acl_decision aw (acl_allow acl) (acl_deny acl) (acl_allow_ip_literals acl) server \<longleftrightarrow>
     acl_allow acl \<noteq> [] \<and> validate_server_against_acl aw server acl"
proof -
  let ?h = "split_first CHR '':'' server"
  have h: "CHR ''['' \<notin> set ?h" "CHR '']'' \<notin> set ?h"
    using assms by (auto simp: split_first_def dest: set_takeWhileD)
  have "dropWhile (\<lambda>c. c = b) xs = xs" if "b \<notin> set xs" for b :: char and xs using that by (cases xs) auto
  then have "dropWhile (\<lambda>c. c = CHR ''['') ?h = ?h" "dropWhile (\<lambda>c. c = CHR '']'') (rev ?h) = rev ?h" using h by simp_all
  moreover have "\<not> starts_with ?h CHR ''[''" using h(1) starts_with_in_set by blast
  ultimately have "backfill_is_ip_literal server = acl_is_ip_literal server"
    by (simp add: backfill_is_ip_literal_def acl_is_ip_literal_def Let_def)
  then show ?thesis by (auto simp: backfill_acl_decision_def validate_server_against_acl_def)
qed

section \<open>Witnesses\<close>

definition history_event :: "string \<Rightarrow> int \<Rightarrow> string list \<Rightarrow> event" where
  "history_event i d prev = (new_event i ''@a:a.org'' d ''m.room.message'' ''!r:a.org'' (Unknown (JObject [])))
     \<lparr>ev_depth := Some d, ev_prev_events := Some prev\<rparr>"

text \<open>The member event of the other server's user.\<close>

definition history_member :: event where
  "history_member = (history_event ''$0:b'' 0 [])\<lparr>ev_event_type := ''m.room.member'', ev_state_key := Some ''@b:b.org''\<rparr>"

text \<open>Four events, the last of which is known to the other server; every text has a valid signature.\<close>

definition history_demo :: history_world where
  "history_demo =
     \<lparr>hi_session = session_demo\<lparr>sw_pdu := pdu_demo\<lparr>pw_crypto := demo_crypto
            \<lparr>ed_verify := (\<lambda>pk m s. True), public_key_query := (\<lambda>rows s k. Inr (Some ''pk'')),
             b64_decode := (\<lambda>s. Some (replicate (if s = ''pk'' then 32 else 64) CHR ''b''))\<rparr>,
          json_to_vec := (\<lambda>v. Inr ''body'')\<rparr>, sw_from_slice := (\<lambda>b. if prefix ''room_id='' b then None else Some JNull)\<rparr>,
      hi_fail = (\<lambda>call. None),
      hi_rooms = [''!r:a.org'' \<mapsto> new_room 0 0 ''!r:a.org'' ''6'' ''@a:a.org''],
      hi_event_table = [history_member, history_event ''$1:a'' 1 [], history_event ''$2:a'' 2 [''$1:a''],
        history_event ''$3:a'' 3 [''$2:a'', ''$1:a''], history_event ''$4:a'' 4 [''$3:a'']],
      hi_memberships = [(''!r:a.org'', ''@b:b.org'', ''join'')],
      hi_visibility_rows = (\<lambda>r. [JObject [(''content'', JObject [(''history_visibility'', JString ''world_readable'')])]]),
      hi_row_error = Database ''row'', hi_users = [], hi_partial_state = Map.empty, hi_unsigned = Some\<rparr>"

abbreviation history_header :: "string option option" where
  "history_header \<equiv> Some (Some ''X-Matrix origin=b.org,key=ed25519:k,sig=s'')"

definition history_request :: missing_events_request where
  "history_request = \<lparr>mr_earliest_events = [''$1:a''], mr_latest_events = [''$4:a''], mr_limit = None, mr_min_depth = None\<rparr>"

lemma history_demo_fails [simp]: "hi_fail history_demo call = None"
  by (simp add: history_demo_def)

lemma history_demo_header:
  "history_parse_auth history_header = Inr \<lparr>hx_origin = ''b.org'', hx_key_id = ''k'', hx_signature = ''s''\<rparr>"
  by (simp add: history_parse_auth_def history_param_def trim_def trim_quotes_def is_ascii_space_def byte_def)

lemma history_demo_users: "server_has_users_in_room history_demo ''!r:a.org'' ''b.org'' = Inr True"
  by (simp add: server_has_users_in_room_def history_result_def history_demo_def contains_str_def)

lemma history_demo_room: "hi_rooms history_demo ''!r:a.org'' = Some (new_room 0 0 ''!r:a.org'' ''6'' ''@a:a.org'')"
  by (simp add: history_demo_def)

lemma history_demo_event: "known_event history_demo ''!r:a.org'' ''$4:a'' = Inr ()"
  by (simp add: known_event_def history_event_by_id_def history_result_def hi_events_def history_demo_def history_member_def
      history_event_def new_event_def ensure_def)

lemma history_demo_answer: "\<exists>pdus. missing_events_answer history_demo ''!r:a.org'' ''b.org'' history_request = Inr pdus"
proof -
  obtain found where found: "get_missing_events_traversal history_demo ''!r:a.org'' [''$4:a''] [''$1:a''] 10 0 = Inr found"
    using traversal_returns [OF history_demo_fails] by blast
  have all: "\<exists>kept. members_at_depth history_demo r s ps = Inr kept" for r s ps
    by (induction ps) (auto simp: get_server_membership_at_depth_def history_result_def)
  obtain m where "are_users_erased history_demo (map hp_sender found) = Inr m"
    by (cases "found = []") (simp_all add: are_users_erased_def history_result_def)
  moreover have "is_partial_state_room history_demo r = Inr False" for r
    by (simp add: is_partial_state_room_def history_result_def, simp add: history_demo_def)
  ultimately have "\<exists>kept. filter_events_for_server history_demo (new_room 0 0 ''!r:a.org'' ''6'' ''@a:a.org'') ''b.org'' found True = Inr kept"
    using all by (auto simp: filter_events_for_server_def Let_def)
  then show ?thesis
    using found
    by (simp add: missing_events_answer_def history_request_def as_usize_def ensure_def validate_room_id_def
        validate_event_id_list_def validate_event_id_def starts_with_def contains_iff known_room_def history_result_def
        history_demo_room validate_room_version_compatibility_def supported_versions_def validate_federation_access_def
        server_may_read_def history_demo_users history_demo_event new_room_def map_err_Inr_iff)
qed

lemma history_demo_signature:
  "\<exists>sa. validate_server_signature (hi_session history_demo) session_demo_clocks ''b.org'' ''k'' ''s'' ''POST'' u ''body'' [] =
     (Inr sa, [])"
proof -
  obtain m where "build_canonical_json (hi_session history_demo) ''POST'' u ''b.org''
      (homeserver_name (sw_crypto (hi_session history_demo))) ''body'' = Inr m"
    by (simp add: build_canonical_json_def history_demo_def session_demo_def session_canonical_agrees
        pdu_canonical_json_compact [of _ "\<lambda>s. s"] pdu_demo_def)
  moreover have "session_get_server_public_key (hi_session history_demo) session_demo_clocks ''b.org'' ''k'' [] = (Inr ''pk'', [])"
    by (simp add: session_get_server_public_key_def history_demo_def)
  moreover have "verify_ed25519_signature (sw_crypto (hi_session history_demo)) ''s'' m ''pk'' = Inr ()" for m
    by (simp add: verify_ed25519_signature_def history_demo_def demo_crypto_def ensure_def)
  ultimately show ?thesis by (auto simp: validate_server_signature_def bindS_def liftS_def)
qed


theorem missing_traversal_exact_witness:
  "\<exists>pdus. get_missing_events_traversal history_demo ''!r:a.org'' [''$4:a''] [''$1:a''] 10 0 = Inr pdus \<and>
     length pdus = min 10 (card (missing_wanted history_demo ''!r:a.org'' [''$4:a''] [''$1:a''] 0))"
  using missing_traversal_exact [of history_demo "''!r:a.org''" "[''$4:a'']" "[''$1:a'']" 10 0] by auto

theorem backfill_exact_witness:
  "\<exists>values. backfill_events history_demo ''!r:a.org'' [''$4:a''] 2 = Inr values \<and>
     length values = min 2 (card (backfill_wanted history_demo ''!r:a.org'' [''$4:a'']))"
  using backfill_exact [of history_demo "[''$4:a'']" "''!r:a.org''" 2] by auto

theorem backfill_refused_witness:
  "\<exists>status. fst (get_backfill history_demo session_demo_clocks 0 ''!r:a.org'' \<lparr>bq_limit = 10, bq_v = [''$4:a'']\<rparr>
     history_header []) = Inl status \<and> status \<in> {400, 401}"
  by (rule backfill_refused) (simp add: history_demo_def)

theorem name_prefix_has_users_witness:
  "server_has_users_in_room history_demo ''!r:a.org'' ''b.o'' = Inr True \<and>
   server_may_read history_demo ''!r:a.org'' ''b.o'' = Inr True"
  by (rule name_prefix_has_users [of _ _ "''@b''" _ "''rg''" "''join''"]) (simp_all add: history_demo_def)

theorem world_readable_unseen_witness:
  "server_may_read history_demo ''!r:a.org'' ''c.org'' = Inl 403"
proof -
  have "server_has_users_in_room history_demo ''!r:a.org'' ''c.org'' = Inr False"
    by (simp add: server_has_users_in_room_def history_result_def history_demo_def contains_str_def)
  then show ?thesis
    using world_readable_unseen [of history_demo "''!r:a.org''" "[JString ''world_readable'']" "''c.org''"]
    by (simp add: history_demo_def)
qed

theorem acl_checks_agree_witness:
  "backfill_acl_decision demo_world [] [] True ''b.org'' = False \<and>
   validate_server_against_acl demo_world ''b.org'' \<lparr>acl_allow = [], acl_deny = [], acl_allow_ip_literals = True\<rparr>"
  using acl_checks_agree [of "''b.org''" demo_world "\<lparr>acl_allow = [], acl_deny = [], acl_allow_ip_literals = True\<rparr>"]
  by (simp add: validate_server_against_acl_def)

end
