(* ===== verification/Matrix_Ids.thy ===== *)
theory Matrix_Ids
  imports Rust_Std
begin

text \<open>
  Matrix identifiers and server names (\<open>server/src/utils/matrix_identifiers.rs\<close>): building room,
  user and event identifiers, and parsing a server name into hostname, port and the IP-literal
  flag that decides certificate validation. Errors are the \<open>String\<close> messages of the source. The
  configured homeserver name and the UUID generator are arguments.
\<close>

section \<open>Model\<close>

record parsed_server_name =
  hostname :: string
  port :: "16 word"
  ip_literal :: bool
  original :: string

definition cert_hostname :: "parsed_server_name \<Rightarrow> string" where
  "cert_hostname p = hostname p"

definition host_header :: "parsed_server_name \<Rightarrow> string" where
  "host_header p = (if port p = 8448 then hostname p else hostname p @ '':'' @ show_u16 (port p))"

definition server_name :: "parsed_server_name \<Rightarrow> string" where
  "server_name p = (if port p = 8448 then hostname p else hostname p @ '':'' @ show_u16 (port p))"

text \<open>\<open>ServerConfig::get()\<close> gives no configuration before the server is initialised.\<close>

definition get_server_name :: "string option \<Rightarrow> string" where
  "get_server_name config = (case config of Some name \<Rightarrow> name | None \<Rightarrow> ''localhost'')"

definition format_room_id :: "string option \<Rightarrow> string \<Rightarrow> string" where
  "format_room_id config localpart = ''!'' @ localpart @ '':'' @ get_server_name config"

definition generate_room_id :: "string option \<Rightarrow> string \<Rightarrow> string" where
  "generate_room_id config uuid = format_room_id config uuid"

definition format_user_id :: "string option \<Rightarrow> string \<Rightarrow> string" where
  "format_user_id config localpart = ''@'' @ localpart @ '':'' @ get_server_name config"

definition format_system_user_id :: "string option \<Rightarrow> string" where
  "format_system_user_id config = format_user_id config ''system''"

definition format_event_id :: "string option \<Rightarrow> string \<Rightarrow> string" where
  "format_event_id config localpart = ''$'' @ localpart @ '':'' @ get_server_name config"

definition generate_event_id :: "string option \<Rightarrow> string \<Rightarrow> string" where
  "generate_event_id config uuid = format_event_id config uuid"

definition is_valid_hostname :: "string \<Rightarrow> bool" where
  "is_valid_hostname h =
     (if h = [] \<or> 253 < length h then False
      else if \<not> contains h CHR ''.'' then False
      else list_all (\<lambda>c. is_ascii_alphanumeric c \<or> c = CHR ''.'' \<or> c = CHR ''-'') h
           \<and> \<not> starts_with h CHR ''-'' \<and> \<not> ends_with h CHR ''-''
           \<and> \<not> starts_with h CHR ''.'' \<and> \<not> ends_with h CHR ''.'')"

text \<open>The fragment that reads the port after a colon, the same in both server name forms.\<close>

definition quoted :: "char \<Rightarrow> string" where
  "quoted c = [CHR 0x27, c, CHR 0x27]"

definition parse_port :: "string \<Rightarrow> string + 16 word" where
  "parse_port s =
     bindR (ensure (s \<noteq> []) (''Port cannot be empty after '' @ quoted CHR '':'')) (\<lambda>_.
     ok_or (parse_u16 s) (''Invalid port number: '' @ s))"

definition parse_ipv6_server_name :: "string \<Rightarrow> string \<Rightarrow> string + parsed_server_name" where
  "parse_ipv6_server_name sn orig =
     bindR (ensure (starts_with sn CHR ''['') (''IPv6 address must start with '' @ quoted CHR ''['')) (\<lambda>_.
     bindR (ok_or (find_char CHR '']'' sn) (''IPv6 address missing closing '' @ quoted CHR '']'')) (\<lambda>bracket_end.
     bindR (ensure (bracket_end \<noteq> 1) ''IPv6 address cannot be empty'') (\<lambda>_.
     bindR (ok_or (Option.bind (strip_prefix ''['' sn) (\<lambda>s. get_to s (bracket_end - 1)))
              ''Failed to extract IPv6 address'') (\<lambda>ipv6_part.
     bindR (ok_or (get_from sn (bracket_end + 1))
              ''Failed to get remainder after IPv6 address'') (\<lambda>remainder.
     bindR (ensure (is_ipv6 ipv6_part) (''Invalid IPv6 address: '' @ ipv6_part)) (\<lambda>_.
     bindR (if remainder = [] then Inr 8448
            else case strip_prefix '':'' remainder of
                   Some port_str \<Rightarrow> parse_port port_str
                 | None \<Rightarrow> Inl ''Invalid characters after IPv6 address'') (\<lambda>p.
     Inr \<lparr>hostname = ''['' @ ipv6_part @ '']'', port = p, ip_literal = True, original = orig\<rparr>)))))))"

definition parse_hostname_or_ipv4_server_name :: "string \<Rightarrow> string \<Rightarrow> string + parsed_server_name" where
  "parse_hostname_or_ipv4_server_name sn orig =
     bindR (case rfind_char CHR '':'' sn of
              Some colon_pos \<Rightarrow>
                bindR (ok_or (get_to sn colon_pos) ''Failed to extract hostname part'') (\<lambda>h.
                bindR (ok_or (get_from sn (colon_pos + 1)) ''Failed to extract port part'') (\<lambda>ps.
                bindR (parse_port ps) (\<lambda>p. Inr (h, p))))
            | None \<Rightarrow> Inr (sn, 8448)) (\<lambda>(h, p).
     bindR (ensure (h \<noteq> []) ''Hostname cannot be empty'') (\<lambda>_.
     let lit = is_ipv4 h in
     bindR (ensure (lit \<or> is_valid_hostname h) (''Invalid hostname: '' @ h)) (\<lambda>_.
     Inr \<lparr>hostname = h, port = p, ip_literal = lit, original = orig\<rparr>)))"

definition parse_server_name :: "string \<Rightarrow> string + parsed_server_name" where
  "parse_server_name sn =
     (if sn = [] then Inl ''Server name cannot be empty''
      else if starts_with sn CHR ''['' then parse_ipv6_server_name sn sn
      else parse_hostname_or_ipv4_server_name sn sn)"

definition is_valid_server_name :: "string \<Rightarrow> bool" where
  "is_valid_server_name sn =
     (if sn = [] \<or> sn = ''localhost'' then False else is_ok (parse_server_name sn))"

definition is_ip_literal :: "string \<Rightarrow> bool" where
  "is_ip_literal h =
     (if starts_with h CHR ''['' \<and> ends_with h CHR '']''
      then is_ipv6 (take (length h - 2) (drop 1 h))
      else is_ipv4 h)"

section \<open>Shape of the parsed names\<close>

lemma valid_hostname_chars:
  "is_valid_hostname h \<Longrightarrow> c \<in> set h \<Longrightarrow> is_ascii_alphanumeric c \<or> c = CHR ''.'' \<or> c = CHR ''-''"
  by (auto simp: is_valid_hostname_def list_all_iff split: if_splits)

lemma valid_hostname_no_colon: "is_valid_hostname h \<Longrightarrow> CHR '':'' \<notin> set h"
  using valid_hostname_chars [of h "CHR '':''"]
  by (auto simp: is_ascii_alphanumeric_def is_ascii_digit_def is_ascii_upper_def is_ascii_lower_def
      byte_def)

lemma valid_hostname_no_bracket: "is_valid_hostname h \<Longrightarrow> CHR ''['' \<notin> set h"
  using valid_hostname_chars [of h "CHR ''[''"]
  by (auto simp: is_ascii_alphanumeric_def is_ascii_digit_def is_ascii_upper_def is_ascii_lower_def
      byte_def)

lemma host_no_colon: "is_ipv4 h \<or> is_valid_hostname h \<Longrightarrow> CHR '':'' \<notin> set h"
  using is_ipv4_no_colon valid_hostname_no_colon by blast

lemma host_no_bracket: "is_ipv4 h \<or> is_valid_hostname h \<Longrightarrow> \<not> starts_with h CHR ''[''"
  using is_ipv4_no_bracket valid_hostname_no_bracket starts_with_in_set by blast

lemma digit_not_colon: "is_ascii_digit c \<Longrightarrow> c \<noteq> CHR '':''"
  by (auto simp: is_ascii_digit_def byte_def)

lemma show_u16_no_colon: "CHR '':'' \<notin> set (show_u16 w)"
  using show_u16_digits digit_not_colon by blast

lemma parse_port_show [simp]: "parse_port (show_u16 w) = Inr w"
  by (simp add: parse_port_def ensure_def)

lemma parse_hostname_result:
  assumes "parse_hostname_or_ipv4_server_name sn orig = Inr p"
  shows "hostname p \<noteq> []" and "ip_literal p = is_ipv4 (hostname p)"
    and "is_ipv4 (hostname p) \<or> is_valid_hostname (hostname p)" and "original p = orig"
  using assms unfolding parse_hostname_or_ipv4_server_name_def Let_def
  by (auto simp: result_simps)

lemma parse_ipv6_result:
  assumes "parse_ipv6_server_name sn orig = Inr p"
  obtains a where "hostname p = ''['' @ a @ '']''" "is_ipv6 a" "CHR '']'' \<notin> set a" "ip_literal p"
    "original p = orig"
proof -
  from assms obtain be part rm q where be: "find_char CHR '']'' sn = Some be"
    and part: "Option.bind (strip_prefix ''['' sn) (\<lambda>s. get_to s (be - 1)) = Some part"
    and v6: "is_ipv6 part"
    and p: "p = \<lparr>hostname = ''['' @ part @ '']'', port = q, ip_literal = True, original = orig\<rparr>"
    unfolding parse_ipv6_server_name_def by (auto simp: result_simps)
  obtain a b where sn: "sn = a @ CHR '']'' # b" "CHR '']'' \<notin> set a" "be = length a"
    using find_char_SomeE [OF be] by blast
  from part obtain s where s: "sn = CHR ''['' # s" "get_to s (be - 1) = Some part"
    by (auto simp: bind_eq_Some_conv strip_prefix_iff)
  with sn obtain a' where "a = CHR ''['' # a'" by (cases a) auto
  with sn s have "part = a'" by (auto simp: get_to_def)
  with sn \<open>a = CHR ''['' # a'\<close> have "CHR '']'' \<notin> set part" by simp
  with p v6 that show thesis by simp
qed

lemma server_name_hostname_default:
  "is_ipv4 h \<or> is_valid_hostname h \<Longrightarrow> h \<noteq> [] \<Longrightarrow>
     parse_server_name h = Inr \<lparr>hostname = h, port = 8448, ip_literal = is_ipv4 h, original = h\<rparr>"
proof -
  assume h: "is_ipv4 h \<or> is_valid_hostname h" "h \<noteq> []"
  then have nc: "CHR '':'' \<notin> set h" and nb: "\<not> starts_with h CHR ''[''"
    using host_no_colon host_no_bracket by simp_all
  from nc have "rfind_char CHR '':'' h = None" by (simp add: rfind_char_None_iff)
  with h nb show ?thesis
    by (auto simp: parse_server_name_def parse_hostname_or_ipv4_server_name_def ensure_def Let_def)
qed

lemma server_name_hostname_port:
  "is_ipv4 h \<or> is_valid_hostname h \<Longrightarrow> h \<noteq> [] \<Longrightarrow>
     parse_server_name (h @ '':'' @ show_u16 w) =
       Inr \<lparr>hostname = h, port = w, ip_literal = is_ipv4 h, original = h @ '':'' @ show_u16 w\<rparr>"
proof -
  assume h: "is_ipv4 h \<or> is_valid_hostname h" "h \<noteq> []"
  then have "\<not> starts_with h CHR ''[''" by (simp add: host_no_bracket)
  with h have nb: "\<not> starts_with (h @ CHR '':'' # show_u16 w) CHR ''[''"
    by (simp add: starts_with_append)
  have "rfind_char CHR '':'' (h @ CHR '':'' # show_u16 w) = Some (length h)"
    by (simp add: rfind_char_append show_u16_no_colon)
  with h nb show ?thesis
    by (auto simp: parse_server_name_def parse_hostname_or_ipv4_server_name_def ensure_def Let_def)
qed

lemma server_name_ipv6:
  assumes "is_ipv6 a" "CHR '']'' \<notin> set a"
  shows "parse_server_name (''['' @ a @ '']'' @ r) =
     bindR (if r = [] then Inr 8448
            else case strip_prefix '':'' r of
                   Some port_str \<Rightarrow> parse_port port_str
                 | None \<Rightarrow> Inl ''Invalid characters after IPv6 address'')
       (\<lambda>p. Inr \<lparr>hostname = ''['' @ a @ '']'', port = p, ip_literal = True,
                 original = ''['' @ a @ '']'' @ r\<rparr>)"
proof -
  have ne: "a \<noteq> []" using is_ipv6_colon [OF assms(1)] by auto
  have f: "find_char CHR '']'' (CHR ''['' # a @ CHR '']'' # r) = Some (Suc (length a))"
    using find_char_append [of "CHR '']''" "CHR ''['' # a" r] assms(2) by simp
  have g: "get_from (CHR ''['' # a @ CHR '']'' # r) (Suc (Suc (length a))) = Some r"
    using get_from_append [of "CHR ''['' # a" "CHR '']''" r] by simp
  show ?thesis using assms ne f g
    by (simp add: parse_server_name_def parse_ipv6_server_name_def ensure_def)
qed

lemmas byte_class_defs = to_digit_def is_ascii_alphanumeric_def is_ascii_digit_def
  is_ascii_upper_def is_ascii_lower_def byte_def

lemmas parse_server_name_defs = parse_server_name_def parse_hostname_or_ipv4_server_name_def
  rfind_char_def get_to_def get_from_def parse_port_def ensure_def parse_u16_def
  parse_unsigned_def

lemmas ipv4_defs = is_ipv4_def read_ipv4_addr_def read_number_def read_separator_def numeral_eq_Suc

lemma example_hostname: "is_valid_hostname ''example.com''" "\<not> is_ipv4 ''example.com''"
  by (simp_all add: is_valid_hostname_def ends_with_def ipv4_defs byte_class_defs Let_def)

lemma example_ipv4: "is_ipv4 ''10.0.0.1''"
  by (simp add: ipv4_defs byte_class_defs Let_def)

section \<open>Properties\<close>

text \<open>
  C22. The canonical server name of a parsed name parses again, to the same hostname, the same
  port and the same IP-literal flag. The default port may be dropped on the way out and is put
  back on the way in; a colon inside an IPv6 literal is never taken for the port separator.
\<close>

theorem parse_server_name_roundtrip:
  assumes "parse_server_name sn = Inr p"
  shows "parse_server_name (server_name p) = Inr (p\<lparr>original := server_name p\<rparr>)"
proof (cases "starts_with sn CHR ''[''")
  case True
  with assms have "parse_ipv6_server_name sn sn = Inr p"
    by (auto simp: parse_server_name_def split: if_splits)
  then obtain a where a: "hostname p = ''['' @ a @ '']''" "is_ipv6 a" "CHR '']'' \<notin> set a"
    "ip_literal p" by (rule parse_ipv6_result)
  then show ?thesis
    using server_name_ipv6 [of a "[]"] server_name_ipv6 [of a "'':'' @ show_u16 (port p)"]
    by (cases p) (simp add: server_name_def)
next
  case False
  with assms have r: "parse_hostname_or_ipv4_server_name sn sn = Inr p"
    by (auto simp: parse_server_name_def split: if_splits)
  show ?thesis
    using parse_hostname_result [OF r] server_name_hostname_default [of "hostname p"]
      server_name_hostname_port [of "hostname p" "port p"]
    by (cases p) (simp add: server_name_def)
qed

theorem parse_server_name_roundtrip_witness:
  "parse_server_name ''example.com:80'' = Inr \<lparr>hostname = ''example.com'', port = 80,
      ip_literal = False, original = ''example.com:80''\<rparr> \<and>
   parse_server_name (server_name \<lparr>hostname = ''example.com'', port = 80,
      ip_literal = False, original = ''example.com:80''\<rparr>) =
   Inr \<lparr>hostname = ''example.com'', port = 80, ip_literal = False, original = ''example.com:80''\<rparr>"
proof -
  let ?p = "\<lparr>hostname = ''example.com'', port = 80, ip_literal = False, original = ''example.com:80''\<rparr>"
  have h: "parse_server_name ''example.com:80'' = Inr ?p"
    using example_hostname by (simp add: parse_server_name_defs byte_class_defs Let_def)
  have s: "server_name ?p = ''example.com:80''"
    by (simp add: server_name_def show_u16_def show_nat.simps digit_char_def char_of_eq_iff)
  show ?thesis using h parse_server_name_roundtrip [OF h] s by simp
qed

text \<open>
  The IP-literal flag of a parsed name, which decides how the peer's certificate is checked,
  is the verdict of the standalone detector on the parsed hostname, bracketed IPv6 included.
\<close>

theorem ip_literal_agrees:
  assumes "parse_server_name sn = Inr p"
  shows "ip_literal p = is_ip_literal (hostname p)"
proof (cases "starts_with sn CHR ''[''")
  case True
  with assms have "parse_ipv6_server_name sn sn = Inr p"
    by (auto simp: parse_server_name_def split: if_splits)
  then obtain a where a: "hostname p = ''['' @ a @ '']''" "is_ipv6 a" "ip_literal p"
    by (rule parse_ipv6_result)
  then show ?thesis by (simp add: is_ip_literal_def ends_with_def)
next
  case False
  with assms have r: "parse_hostname_or_ipv4_server_name sn sn = Inr p"
    by (auto simp: parse_server_name_def split: if_splits)
  then have "\<not> starts_with (hostname p) CHR ''[''"
    by (intro host_no_bracket parse_hostname_result(3))
  with parse_hostname_result [OF r] show ?thesis by (simp add: is_ip_literal_def)
qed

theorem ip_literal_agrees_witness:
  "ip_literal \<lparr>hostname = ''10.0.0.1'', port = 8448, ip_literal = True, original = ''10.0.0.1''\<rparr> =
     is_ip_literal ''10.0.0.1''"
proof -
  have h: "parse_server_name ''10.0.0.1'' = Inr \<lparr>hostname = ''10.0.0.1'', port = 8448,
      ip_literal = True, original = ''10.0.0.1''\<rparr>"
    using example_ipv4 by (simp add: parse_server_name_defs byte_class_defs Let_def)
  show ?thesis using ip_literal_agrees [OF h] by simp
qed

end
