(* ===== verification/Auth_Middleware.thy ===== *)
theory Auth_Middleware
  imports Sessions Matrix_Ids
begin

text \<open>
  Authentication of requests: the middleware \<open>server/src/auth/middleware.rs\<close>, which the router
  of \<open>main.rs\<close> wraps around every route, the extractor of users in
  \<open>server/src/auth/authenticated_user.rs\<close>, and the content type check of federation requests in
  \<open>main.rs\<close>. A handler behind the middleware runs when it returns an authentication context. The
  check of client certificates is only logged and is left out. Queries of the repositories are a
  record of functions; of \<open>MembershipRepository::get_user_power_level\<close> the reading of the selected
  row is modelled.
\<close>

section \<open>Environment\<close>

text \<open>A header is absent, not readable as text (\<open>Some None\<close>) or a text.\<close>

record http_request =
  hq_method :: string
  hq_path :: string
  hq_path_and_query :: "string option"
  hq_authorization :: "string option option"
  hq_matrix_token :: "string option option"
  hq_content_type :: "string option option"
  hq_body :: "string option"

record app_state =
  as_session :: session_world
  as_homeserver_name :: string
  as_access_tokens :: "user_access_token list"
  as_is_admin :: "string \<Rightarrow> repository_error + bool"
  as_membership :: "string \<Rightarrow> string \<Rightarrow> repository_error + membership option"
  as_power_levels_row :: "string \<Rightarrow> repository_error + json option"
  as_is_user_active :: "string \<Rightarrow> repository_error + bool"
  as_validate_device :: "string \<Rightarrow> string \<Rightarrow> repository_error + bool"
  as_guest_session :: "string \<Rightarrow> repository_error + bool option"
  as_is_user_admin :: "string \<Rightarrow> repository_error + bool"
  as_is_joined :: "string \<Rightarrow> string \<Rightarrow> repository_error + bool"

text \<open>Clock readings in the order of the checks, in seconds.\<close>

record request_clocks =
  rc_decode :: int
  rc_token :: int
  rc_server_token :: int
  rc_expired :: int
  rc_access :: int

fun unwrap_bool :: "'e + bool \<Rightarrow> bool" where
  "unwrap_bool (Inl _) = False"
| "unwrap_bool (Inr b) = b"

section \<open>Permissions of endpoints\<close>

definition extract_room_id_from_uri :: "string \<Rightarrow> string option" where
  "extract_room_id_from_uri uri =
     (case dropWhile (\<lambda>p. p \<noteq> ''rooms'') (split_on CHR ''/'' uri) of
        _ # room_id # _ \<Rightarrow> Some room_id
      | _ \<Rightarrow> None)"

definition is_user_in_room :: "app_state \<Rightarrow> string \<Rightarrow> string \<Rightarrow> repository_error + bool" where
  "is_user_in_room st room_id user_id =
     bindR (as_membership st room_id user_id) (\<lambda>m.
     Inr (case m of Some m \<Rightarrow> show_membership (m_membership m) = ''join'' | None \<Rightarrow> False))"

definition check_user_room_membership :: "app_state \<Rightarrow> string \<Rightarrow> string \<Rightarrow> bool" where
  "check_user_room_membership st user_id room_id = unwrap_bool (is_user_in_room st room_id user_id)"

definition level_of_row :: "json option \<Rightarrow> string \<Rightarrow> int" where
  "level_of_row row user_id =
     (case row of
        None \<Rightarrow> 0
      | Some power_levels \<Rightarrow>
          (case Option.bind (Option.bind (get power_levels ''users'') as_object)
                  (\<lambda>users. Option.bind (map_of users user_id) as_i64) of
             Some user_level \<Rightarrow> user_level
           | None \<Rightarrow> unwrap_or 0 (Option.bind (get power_levels ''users_default'') as_i64)))"

definition member_power_level :: "app_state \<Rightarrow> string \<Rightarrow> string \<Rightarrow> repository_error + int" where
  "member_power_level st room_id user_id =
     bindR (as_power_levels_row st room_id) (\<lambda>row. Inr (level_of_row row user_id))"

definition check_user_power_level :: "app_state \<Rightarrow> string \<Rightarrow> string \<Rightarrow> int \<Rightarrow> bool" where
  "check_user_power_level st user_id room_id required_level =
     (case member_power_level st room_id user_id of
        Inr user_level \<Rightarrow> user_level \<ge> required_level
      | Inl _ \<Rightarrow> False)"

fun check_admin_permission :: "app_state \<Rightarrow> matrix_auth \<Rightarrow> bool" where
  "check_admin_permission st (User access_token) = unwrap_bool (as_is_admin st (at_user_id access_token))"
| "check_admin_permission st (Server _) = False"
| "check_admin_permission st Anonymous = False"

fun check_state_event_permission :: "app_state \<Rightarrow> matrix_auth \<Rightarrow> string \<Rightarrow> bool" where
  "check_state_event_permission st (User access_token) uri =
     (case extract_room_id_from_uri uri of
        Some room_id \<Rightarrow> check_user_power_level st (at_user_id access_token) room_id 50
      | None \<Rightarrow> False)"
| "check_state_event_permission st (Server _) uri = True"
| "check_state_event_permission st Anonymous uri = False"

fun check_send_message_permission :: "app_state \<Rightarrow> matrix_auth \<Rightarrow> string \<Rightarrow> bool" where
  "check_send_message_permission st (User access_token) uri =
     (case extract_room_id_from_uri uri of
        Some room_id \<Rightarrow>
          check_user_room_membership st (at_user_id access_token) room_id \<and>
          check_user_power_level st (at_user_id access_token) room_id 0
      | None \<Rightarrow> False)"
| "check_send_message_permission st (Server _) uri = True"
| "check_send_message_permission st Anonymous uri = False"

fun check_invite_permission :: "app_state \<Rightarrow> matrix_auth \<Rightarrow> string \<Rightarrow> bool" where
  "check_invite_permission st (User access_token) uri =
     (case extract_room_id_from_uri uri of
        Some room_id \<Rightarrow> check_user_power_level st (at_user_id access_token) room_id 50
      | None \<Rightarrow> False)"
| "check_invite_permission st (Server _) uri = True"
| "check_invite_permission st Anonymous uri = False"

fun check_kick_permission :: "app_state \<Rightarrow> matrix_auth \<Rightarrow> string \<Rightarrow> bool" where
  "check_kick_permission st (User access_token) uri =
     (case extract_room_id_from_uri uri of
        Some room_id \<Rightarrow> check_user_power_level st (at_user_id access_token) room_id 50
      | None \<Rightarrow> False)"
| "check_kick_permission st (Server _) uri = True"
| "check_kick_permission st Anonymous uri = False"

fun check_ban_permission :: "app_state \<Rightarrow> matrix_auth \<Rightarrow> string \<Rightarrow> bool" where
  "check_ban_permission st (User access_token) uri =
     (case extract_room_id_from_uri uri of
        Some room_id \<Rightarrow> check_user_power_level st (at_user_id access_token) room_id 50
      | None \<Rightarrow> False)"
| "check_ban_permission st (Server _) uri = True"
| "check_ban_permission st Anonymous uri = False"

definition check_endpoint_authorization :: "app_state \<Rightarrow> matrix_auth \<Rightarrow> string \<Rightarrow> string \<Rightarrow> bool" where
  "check_endpoint_authorization st auth uri method =
     (if prefix ''/_synapse/admin/'' uri \<or> prefix ''/_matrix/client/v3/admin/'' uri
      then check_admin_permission st auth
      else if contains_str uri ''/rooms/'' \<and> contains_str uri ''/state/'' \<and> (method = ''PUT'' \<or> method = ''POST'')
      then check_state_event_permission st auth uri
      else if contains_str uri ''/rooms/'' \<and> contains_str uri ''/send/'' \<and> (method = ''PUT'' \<or> method = ''POST'')
      then check_send_message_permission st auth uri
      else if contains_str uri ''/rooms/'' \<and> suffix ''/invite'' uri \<and> method = ''POST''
      then check_invite_permission st auth uri
      else if contains_str uri ''/rooms/'' \<and> suffix ''/kick'' uri \<and> method = ''POST''
      then check_kick_permission st auth uri
      else if contains_str uri ''/rooms/'' \<and> suffix ''/ban'' uri \<and> method = ''POST''
      then check_ban_permission st auth uri
      else True)"

section \<open>The middleware\<close>

definition readable :: "string option option \<Rightarrow> string option" where
  "readable header = Option.bind header (\<lambda>h. h)"

definition extract_matrix_auth ::
  "app_state \<Rightarrow> request_clocks \<Rightarrow> string option option \<Rightarrow> matrix_auth_error + matrix_auth" where
  "extract_matrix_auth st ck authorization =
     bindR (ok_or (readable authorization) A_MissingAuthorization) (\<lambda>auth_header.
     if prefix ''Bearer '' auth_header
     then bindR (ok_or (strip_prefix ''Bearer '' auth_header) A_MissingToken) (\<lambda>t.
          bindR (validate_access_token (as_session st) (rc_decode ck) (rc_token ck) t (as_access_tokens st)) (\<lambda>access_token.
          Inr (User access_token)))
     else Inl A_MissingToken)"

text \<open>Every failure is answered as unauthorized.\<close>

definition middleware_server_signature ::
  "app_state \<Rightarrow> request_clocks \<Rightarrow> session_clocks \<Rightarrow> string \<Rightarrow> http_request \<Rightarrow> string \<Rightarrow> string \<Rightarrow> key_row list \<Rightarrow>
   (matrix_error + matrix_auth) \<times> key_row list" where
  "middleware_server_signature st ck sck x_matrix_header request request_uri request_body =
     (let homeserver = homeserver_name (sw_crypto (as_session st)) in
      bindS (liftS (map_err (\<lambda>_. M_Unauthorized) (parse_x_matrix_header x_matrix_header))) (\<lambda>auth.
      bindS (liftS (ensure (xm_destination auth = None \<or> xm_destination auth = Some homeserver) M_Unauthorized)) (\<lambda>_.
      bindS (\<lambda>rows. case validate_server_signature (as_session st) sck (xm_origin auth) (xm_key_id auth)
                             (xm_signature auth) (hq_method request) request_uri request_body rows of
                      (r, rows') \<Rightarrow> (map_err (\<lambda>_. M_Unauthorized) r, rows')) (\<lambda>_.
      bindS (liftS (ensure (xm_origin auth \<noteq> homeserver) M_Unauthorized)) (\<lambda>_.
      bindS (liftS (case hq_matrix_token request of
                      None \<Rightarrow> Inr ()
                    | Some header \<Rightarrow>
                        bindR (ok_or header M_Unauthorized) (\<lambda>token_str.
                        bindR (map_err (\<lambda>_. M_Unauthorized) (validate_token (as_session st) (rc_server_token ck) token_str)) (\<lambda>claims.
                        ensure (jc_matrix_server_name claims = Some (xm_origin auth)) M_Unauthorized)))) (\<lambda>_.
      liftS (Inr (Server \<lparr>sa_server_name = xm_origin auth, sa_key_id = xm_key_id auth,
                          sa_signature = xm_signature auth, sa_expires_at = None\<rparr>))))))))"

definition auth_middleware ::
  "app_state \<Rightarrow> request_clocks \<Rightarrow> session_clocks \<Rightarrow> http_request \<Rightarrow> key_row list \<Rightarrow> (matrix_error + matrix_auth) \<times> key_row list" where
  "auth_middleware st ck sck request =
     (let auth_header = readable (hq_authorization request);
          x_matrix_header = Option.bind (readable (hq_authorization request))
            (\<lambda>h. if prefix ''X-Matrix'' h then Some h else None)
      in bindS (case auth_header of
           Some h \<Rightarrow>
             if prefix ''Bearer '' h
             then liftS (map_err (\<lambda>_. M_Unauthorized) (extract_matrix_auth st ck (hq_authorization request)))
             else liftS (Inl M_Unauthorized)
         | None \<Rightarrow>
             (case x_matrix_header of
                Some x \<Rightarrow>
                  bindS (liftS (ok_or (hq_body request) M_Unauthorized)) (\<lambda>body_bytes.
                  middleware_server_signature st ck sck x request
                    (unwrap_or ''/'' (hq_path_and_query request)) body_bytes)
              | None \<Rightarrow> liftS (Inl M_Unauthorized))) (\<lambda>auth.
         bindS (liftS (ensure (\<not> auth_is_expired (rc_expired ck) auth) M_Unauthorized)) (\<lambda>_.
         bindS (liftS (ensure (check_endpoint_authorization st auth (hq_path request) (hq_method request)) M_Forbidden)) (\<lambda>_.
         bindS (liftS (ensure (can_access (rc_access ck) auth (hq_path request)) M_Forbidden)) (\<lambda>_.
         liftS (Inr auth))))))"

text \<open>\<open>require_auth_middleware\<close> looks for the context that \<open>auth_middleware\<close> leaves in the request.\<close>

definition require_auth_middleware :: "matrix_auth option \<Rightarrow> matrix_error + matrix_auth" where
  "require_auth_middleware extension = ok_or extension M_Unauthorized"

definition federation_content_type :: "http_request \<Rightarrow> matrix_error + unit" where
  "federation_content_type request =
     (if hq_method request = ''POST'' \<or> hq_method request = ''PUT''
      then (case hq_content_type request of
              Some ct \<Rightarrow>
                bindR (ok_or ct M_BadJson) (\<lambda>ct_str.
                bindR (ensure (prefix ''application/json'' ct_str) M_NotJson) (\<lambda>_.
                ensure (\<not> (contains_str ct_str ''charset='' \<and> \<not> contains_str ct_str ''charset=utf-8'' \<and>
                          \<not> contains_str ct_str ''charset=UTF-8'')) M_BadJson))
            | None \<Rightarrow> Inl M_NotJson)
      else Inr ())"

section \<open>Authenticated users\<close>

record authenticated_user =
  au_user_id :: string
  au_device_id :: string
  au_access_token :: string
  au_homeserver_name :: string
  au_is_guest :: bool

definition can_access_room :: "app_state \<Rightarrow> authenticated_user \<Rightarrow> string \<Rightarrow> bool" where
  "can_access_room st u room_id = unwrap_bool (as_is_joined st (au_user_id u) room_id)"

definition is_admin :: "app_state \<Rightarrow> authenticated_user \<Rightarrow> matrix_auth_error + bool" where
  "is_admin st u = map_err (\<lambda>e. A_DatabaseError (repository_error_text e)) (as_is_user_admin st (au_user_id u))"

definition can_access_resource ::
  "app_state \<Rightarrow> authenticated_user \<Rightarrow> string \<Rightarrow> string \<Rightarrow> matrix_auth_error + bool" where
  "can_access_resource st u resource_type resource_id =
     (if resource_type = ''room''
      then map_err (\<lambda>e. A_DatabaseError (repository_error_text e)) (as_is_joined st (au_user_id u) resource_id)
      else if resource_type = ''profile''
      then if resource_id = au_user_id u then Inr True else is_admin st u
      else Inr False)"

definition localpart :: "authenticated_user \<Rightarrow> string option" where
  "localpart u =
     Option.bind (strip_prefix ''@'' (au_user_id u)) (\<lambda>stripped.
     Option.bind (find_char CHR '':'' stripped) (\<lambda>colon_pos.
     if take colon_pos stripped = [] then None else Some (take colon_pos stripped)))"

text \<open>The extractor; rejections are status codes.\<close>

definition from_request_parts ::
  "app_state \<Rightarrow> request_clocks \<Rightarrow> string option option \<Rightarrow> nat + authenticated_user" where
  "from_request_parts st ck authorization =
     bindR (ok_or (readable authorization) 401) (\<lambda>auth_header.
     bindR (ok_or (strip_prefix ''Bearer '' auth_header) 401) (\<lambda>access_token.
     case validate_token (as_session st) (rc_decode ck) access_token of
       Inr claims \<Rightarrow>
         bindR (ok_or (jc_matrix_user_id claims) 401) (\<lambda>user_id.
         bindR (ok_or (jc_matrix_device_id claims) 401) (\<lambda>device_id.
         bindR (ensure (\<not> auth_is_expired (rc_expired ck) (User \<lparr>at_token = access_token, at_user_id = user_id,
                  at_device_id = device_id, at_expires_at = jc_exp claims\<rparr>)) 401) (\<lambda>_.
         bindR (ensure (suffix ('':'' @ homeserver_name (sw_crypto (as_session st))) user_id) 401) (\<lambda>_.
         bindR (map_err (\<lambda>_. 500) (as_is_user_active st user_id)) (\<lambda>user_active.
         bindR (ensure user_active 401) (\<lambda>_.
         bindR (map_err (\<lambda>_. 500) (as_validate_device st device_id user_id)) (\<lambda>device_valid.
         bindR (ensure device_valid 401) (\<lambda>_.
         bindR (map_err (\<lambda>_. 500) (as_guest_session st access_token)) (\<lambda>session.
         Inr \<lparr>au_user_id = user_id, au_device_id = device_id, au_access_token = access_token,
              au_homeserver_name = as_homeserver_name st,
              au_is_guest = unwrap_or False session\<rparr>)))))))))
     | Inl A_SessionExpired \<Rightarrow> Inl 401
     | Inl A_UnknownToken \<Rightarrow> Inl 401
     | Inl _ \<Rightarrow> Inl 500))"


section \<open>What gets through\<close>

lemma strip_prefix_prefix: "strip_prefix p s = Some t \<longleftrightarrow> s = p @ t"
  by (induction p s rule: strip_prefix.induct) auto

lemma middleware_outcome:
  "auth_middleware st ck sck request rows =
     (case readable (hq_authorization request) of
        None \<Rightarrow> (Inl M_Unauthorized, rows)
      | Some h \<Rightarrow>
          (case strip_prefix ''Bearer '' h of
             None \<Rightarrow> (Inl M_Unauthorized, rows)
           | Some t \<Rightarrow>
               (case validate_access_token (as_session st) (rc_decode ck) (rc_token ck) t (as_access_tokens st) of
                  Inl _ \<Rightarrow> (Inl M_Unauthorized, rows)
                | Inr a \<Rightarrow>
                    if auth_is_expired (rc_expired ck) (User a) then (Inl M_Unauthorized, rows)
                    else if \<not> check_endpoint_authorization st (User a) (hq_path request) (hq_method request)
                    then (Inl M_Forbidden, rows)
                    else if \<not> can_access (rc_access ck) (User a) (hq_path request) then (Inl M_Forbidden, rows)
                    else (Inr (User a), rows))))"
proof (cases "readable (hq_authorization request)")
  case None
  then show ?thesis by (simp add: auth_middleware_def bindS_def liftS_def)
next
  case (Some h)
  show ?thesis
  proof (cases "strip_prefix ''Bearer '' h")
    case None
    then have "\<not> prefix ''Bearer '' h" using strip_prefix_prefix by (auto simp: prefix_def)
    with Some None show ?thesis by (simp add: auth_middleware_def bindS_def liftS_def)
  next
    case t: (Some t)
    then have "prefix ''Bearer '' h" using strip_prefix_prefix by (auto simp: prefix_def)
    with Some t show ?thesis
      by (cases "validate_access_token (as_session st) (rc_decode ck) (rc_token ck) t (as_access_tokens st)")
        (simp_all add: auth_middleware_def extract_matrix_auth_def bindS_def liftS_def ensure_def del: can_access.simps
          auth_is_expired.simps)
  qed
qed

text \<open>
  Requests signed by another server are refused before their signature is looked at: an
  \<open>Authorization\<close> header that does not carry a bearer token is answered as unauthorized, no key is
  fetched, and no request is ever passed on as a server's, whatever its header.
\<close>

theorem server_auth_unreachable:
  "(readable (hq_authorization request) = Some (''X-Matrix '' @ parameters) \<longrightarrow>
      auth_middleware st ck sck request rows = (Inl M_Unauthorized, rows)) \<and>
   fst (auth_middleware st ck sck request rows) \<noteq> Inr (Server s)"
proof
  have "strip_prefix ''Bearer '' (''X-Matrix '' @ parameters) = None" by simp
  then show "readable (hq_authorization request) = Some (''X-Matrix '' @ parameters) \<longrightarrow>
      auth_middleware st ck sck request rows = (Inl M_Unauthorized, rows)"
    unfolding middleware_outcome by (simp del: strip_prefix.simps)
  show "fst (auth_middleware st ck sck request rows) \<noteq> Inr (Server s)"
    unfolding middleware_outcome by (auto split: option.splits sum.splits if_splits)
qed

text \<open>
  A request without an \<open>Authorization\<close> header is refused on every path, so also where a client
  obtains its first token.
\<close>

theorem login_needs_token:
  "hq_authorization request = None \<Longrightarrow> auth_middleware st ck sck request rows = (Inl M_Unauthorized, rows)"
  unfolding middleware_outcome by (simp add: readable_def)

lemma check_user_power_level_iff:
  "check_user_power_level st user_id room_id required \<longleftrightarrow>
     (\<exists>row. as_power_levels_row st room_id = Inr row \<and> required \<le> level_of_row row user_id)"
  by (auto simp: check_user_power_level_def member_power_level_def bindR_Inr_iff split: sum.splits)

lemma check_user_room_membership_iff:
  "check_user_room_membership st user_id room_id \<longleftrightarrow>
     (\<exists>m. as_membership st room_id user_id = Inr (Some m) \<and> m_membership m = Join)"
proof -
  have "show_membership m = ''join'' \<longleftrightarrow> m = Join" for m by (cases m) auto
  then show ?thesis
    by (cases "as_membership st room_id user_id")
      (auto simp: check_user_room_membership_def is_user_in_room_def split: option.splits)
qed

lemma admin_path_checked:
  assumes "check_endpoint_authorization st (User a) uri m"
    and "prefix ''/_synapse/admin/'' uri \<or> prefix ''/_matrix/client/v3/admin/'' uri"
  shows "as_is_admin st (at_user_id a) = Inr True"
  using assms by (cases "as_is_admin st (at_user_id a)") (auto simp: check_endpoint_authorization_def)

lemma moderation_path_checked:
  assumes "check_endpoint_authorization st (User a) uri m"
    and "\<not> (prefix ''/_synapse/admin/'' uri \<or> prefix ''/_matrix/client/v3/admin/'' uri)" "contains_str uri ''/rooms/''"
    and "m \<in> {''PUT'', ''POST''} \<and> contains_str uri ''/state/'' \<or>
      m = ''POST'' \<and> \<not> contains_str uri ''/send/'' \<and> (suffix ''/invite'' uri \<or> suffix ''/kick'' uri \<or> suffix ''/ban'' uri)"
  shows "\<exists>room_id row. extract_room_id_from_uri uri = Some room_id \<and> as_power_levels_row st room_id = Inr row \<and>
     50 \<le> level_of_row row (at_user_id a)"
  using assms
  by (auto simp: check_endpoint_authorization_def check_user_power_level_iff split: option.splits if_splits)

lemma sending_path_checked:
  assumes "check_endpoint_authorization st (User a) uri m"
    and "\<not> (prefix ''/_synapse/admin/'' uri \<or> prefix ''/_matrix/client/v3/admin/'' uri)" "contains_str uri ''/rooms/''"
    and "m \<in> {''PUT'', ''POST''}" "contains_str uri ''/send/''" "\<not> contains_str uri ''/state/''"
  shows "\<exists>room_id member row. extract_room_id_from_uri uri = Some room_id \<and>
     as_membership st room_id (at_user_id a) = Inr (Some member) \<and> m_membership member = Join \<and>
     as_power_levels_row st room_id = Inr row \<and> 0 \<le> level_of_row row (at_user_id a)"
  using assms
  by (auto simp: check_endpoint_authorization_def check_user_power_level_iff check_user_room_membership_iff
      split: option.splits if_splits)

text \<open>
  C35. What passes the middleware is a user's request: it carries a bearer token that the session
  service accepts and that has not expired at either later check. On a path of the administration the
  user is an administrator. On any other path with \<open>/rooms/\<close> and \<open>/state/\<close> that is written to, and for
  an invitation, a kick or a ban (unless the path has \<open>/send/\<close>), the room of the path has a row of
  levels that gives the user at least 50; for a message the user is joined to the room of the path, and
  its row gives at least 0.
\<close>

theorem passed_request_authorized:
  assumes "auth_middleware st ck sck request rows = (Inr auth, rows')"
  shows "\<exists>a t. auth = User a \<and> rows' = rows \<and>
     readable (hq_authorization request) = Some (''Bearer '' @ t) \<and>
     validate_access_token (as_session st) (rc_decode ck) (rc_token ck) t (as_access_tokens st) = Inr a \<and>
     (\<forall>exp. at_expires_at a = Some exp \<longrightarrow> rc_expired ck < exp \<and> rc_access ck < exp) \<and>
     (let uri = hq_path request; m = hq_method request;
          admin = prefix ''/_synapse/admin/'' uri \<or> prefix ''/_matrix/client/v3/admin/'' uri;
          in_room = \<not> admin \<and> contains_str uri ''/rooms/'' in
        (admin \<longrightarrow> as_is_admin st (at_user_id a) = Inr True) \<and>
        (in_room \<and> (m \<in> {''PUT'', ''POST''} \<and> contains_str uri ''/state/'' \<or>
           m = ''POST'' \<and> \<not> contains_str uri ''/send/'' \<and>
             (suffix ''/invite'' uri \<or> suffix ''/kick'' uri \<or> suffix ''/ban'' uri)) \<longrightarrow>
         (\<exists>room_id row. extract_room_id_from_uri uri = Some room_id \<and> as_power_levels_row st room_id = Inr row \<and>
            50 \<le> level_of_row row (at_user_id a))) \<and>
        (in_room \<and> m \<in> {''PUT'', ''POST''} \<and> contains_str uri ''/send/'' \<and> \<not> contains_str uri ''/state/'' \<longrightarrow>
         (\<exists>room_id member row. extract_room_id_from_uri uri = Some room_id \<and>
            as_membership st room_id (at_user_id a) = Inr (Some member) \<and> m_membership member = Join \<and>
            as_power_levels_row st room_id = Inr row \<and> 0 \<le> level_of_row row (at_user_id a))))"
proof -
  obtain h t a where r: "readable (hq_authorization request) = Some h" "strip_prefix ''Bearer '' h = Some t"
    "validate_access_token (as_session st) (rc_decode ck) (rc_token ck) t (as_access_tokens st) = Inr a"
    "can_access (rc_access ck) (User a) (hq_path request)" "\<not> auth_is_expired (rc_expired ck) (User a)"
    "check_endpoint_authorization st (User a) (hq_path request) (hq_method request)"
    "auth = User a" "rows' = rows"
    using assms unfolding middleware_outcome
    by (auto simp del: can_access.simps auth_is_expired.simps strip_prefix.simps
        split: option.splits sum.splits if_splits)
  have "\<forall>exp. at_expires_at a = Some exp \<longrightarrow> rc_expired ck < exp \<and> rc_access ck < exp"
    using r(4,5) by auto
  moreover note admin_path_checked [OF r(6)] moderation_path_checked [OF r(6)] sending_path_checked [OF r(6)]
  ultimately show ?thesis
    using r(1-3,7,8) strip_prefix_prefix [of "''Bearer ''" h t] unfolding Let_def by blast
qed

text \<open>
  The query for power levels selects the column \<open>content\<close>, so the row is an object with that one
  member, and the levels are looked for beside it: every user has level 0, and
  state events, invitations, kicks and bans are forbidden to all users.
\<close>

theorem moderation_forbidden:
  assumes "\<And>room_id. as_power_levels_row st room_id = Inr (Some (JObject [(''content'', levels room_id)]))"
    and "readable (hq_authorization request) = Some (''Bearer '' @ t)"
    and "\<not> prefix ''/_synapse/admin/'' (hq_path request)" "\<not> prefix ''/_matrix/client/v3/admin/'' (hq_path request)"
    and "contains_str (hq_path request) ''/rooms/''"
    and "hq_method request = ''PUT'' \<and> contains_str (hq_path request) ''/state/'' \<or>
      hq_method request = ''POST'' \<and> \<not> contains_str (hq_path request) ''/send/'' \<and>
      (suffix ''/invite'' (hq_path request) \<or> suffix ''/kick'' (hq_path request) \<or> suffix ''/ban'' (hq_path request))"
  shows "\<not> is_ok (fst (auth_middleware st ck sck request rows))"
proof -
  have level: "\<not> check_user_power_level st u r 50" for u r
    by (simp add: check_user_power_level_def member_power_level_def assms(1) level_of_row_def get_def)
  have "\<not> check_endpoint_authorization st (User a) (hq_path request) (hq_method request)" for a
    using assms(3-6) level by (auto simp: check_endpoint_authorization_def split: option.splits)
  then show ?thesis
    unfolding middleware_outcome using assms(2) strip_prefix_prefix [of "''Bearer ''" "''Bearer '' @ t" t]
    by (auto simp del: can_access.simps auth_is_expired.simps strip_prefix.simps check_state_event_permission.simps
        split: option.splits sum.splits)
qed

text \<open>
  The extractor of users is sound: the user it returns is active, named by a token the library
  decoded and that has not expired, belongs to this server, and the device is the user's.
\<close>

theorem extracted_user_valid:
  assumes "from_request_parts st ck authorization = Inr u"
  shows "\<exists>c. readable authorization = Some (''Bearer '' @ au_access_token u) \<and>
     jwt_decode (as_session st) (rc_decode ck) (au_access_token u) = Inr c \<and>
     jc_matrix_user_id c = Some (au_user_id u) \<and> jc_matrix_device_id c = Some (au_device_id u) \<and>
     (\<forall>x. jc_exp c = Some x \<longrightarrow> x > rc_expired ck) \<and>
     suffix ('':'' @ homeserver_name (sw_crypto (as_session st))) (au_user_id u) \<and>
     as_is_user_active st (au_user_id u) = Inr True \<and>
     as_validate_device st (au_device_id u) (au_user_id u) = Inr True"
proof -
  obtain h t where h: "readable authorization = Some h" "strip_prefix ''Bearer '' h = Some t"
    using assms by (auto simp: from_request_parts_def bindR_Inr_iff ok_or_Inr_iff simp del: strip_prefix.simps)
  obtain c where c: "validate_token (as_session st) (rc_decode ck) t = Inr c"
  proof (cases "validate_token (as_session st) (rc_decode ck) t")
    case (Inl e)
    then show ?thesis using assms h by (cases e) (simp_all add: from_request_parts_def del: strip_prefix.simps)
  qed (use that in blast)
  have r: "jwt_decode (as_session st) (rc_decode ck) t = Inr c" "au_access_token u = t"
    "jc_matrix_user_id c = Some (au_user_id u)" "jc_matrix_device_id c = Some (au_device_id u)"
    "case jc_exp c of None \<Rightarrow> True | Some x \<Rightarrow> \<not> x \<le> rc_expired ck"
    "suffix ('':'' @ homeserver_name (sw_crypto (as_session st))) (au_user_id u)"
    "as_is_user_active st (au_user_id u) = Inr True" "as_validate_device st (au_device_id u) (au_user_id u) = Inr True"
    using assms h c
    by (auto simp: from_request_parts_def result_simps validate_token_def simp del: strip_prefix.simps
        split: option.splits)
  then show ?thesis using h strip_prefix_prefix [of "''Bearer ''" h t] by (auto split: option.splits)
qed

text \<open>
  A token the library refuses (malformed, forged, or expired beyond the leeway) is reported as an
  internal error, status 500, and not as a missing authorization.
\<close>

theorem bad_token_internal_error:
  assumes "readable authorization = Some (''Bearer '' @ t)" and "jwt_decode (as_session st) (rc_decode ck) t = Inl e"
  shows "from_request_parts st ck authorization = Inl 500"
  using assms strip_prefix_prefix [of "''Bearer ''" "''Bearer '' @ t" t]
  by (simp add: from_request_parts_def validate_token_def del: strip_prefix.simps)

text \<open>The local part of a user identifier made by the server is the name it was made from.\<close>

lemma find_char_first: "c \<notin> set xs \<Longrightarrow> find_char c (xs @ c # ys) = Some (length xs)"
  by (induction xs) auto

theorem localpart_roundtrip:
  assumes "name \<noteq> []" and "CHR '':'' \<notin> set name"
  shows "localpart (u\<lparr>au_user_id := format_user_id server name\<rparr>) = Some name"
proof -
  have "format_user_id server name = ''@'' @ name @ '':'' @ get_server_name server"
    by (simp add: format_user_id_def)
  then have "strip_prefix ''@'' (format_user_id server name) = Some (name @ '':'' @ get_server_name server)"
    using strip_prefix_prefix by blast
  then show ?thesis
    using assms find_char_first [of "CHR '':''" name] by (simp add: localpart_def)
qed

section \<open>Witnesses\<close>

definition app_demo :: app_state where
  "app_demo = \<lparr>as_session = session_demo, as_homeserver_name = ''a.org'', as_access_tokens = [],
     as_is_admin = (\<lambda>u. Inr False), as_membership = (\<lambda>r u. Inr None),
     as_power_levels_row = (\<lambda>r. Inr (Some (JObject [(''content'', JObject [])]))),
     as_is_user_active = (\<lambda>u. Inr True), as_validate_device = (\<lambda>d u. Inr True),
     as_guest_session = (\<lambda>t. Inr None), as_is_user_admin = (\<lambda>u. Inr False), as_is_joined = (\<lambda>u r. Inr False)\<rparr>"

definition app_clocks :: request_clocks where
  "app_clocks = \<lparr>rc_decode = 10, rc_token = 10, rc_server_token = 10, rc_expired = 10, rc_access = 10\<rparr>"

definition app_token :: string where
  "app_token = replicate (to_nat (0 :: int, 3600 :: int, ''@a:a.org'', ''D'', ''T'', None :: string option)) CHR ''t''"

definition app_request :: "string \<Rightarrow> string \<Rightarrow> string option option \<Rightarrow> http_request" where
  "app_request method path authorization = \<lparr>hq_method = method, hq_path = path, hq_path_and_query = Some path,
     hq_authorization = authorization, hq_matrix_token = None, hq_content_type = None, hq_body = Some []\<rparr>"

lemma app_token_created: "create_user_token session_demo 0 ''@a:a.org'' ''D'' ''T'' None 3600 = Inr app_token"
  by (simp add: create_user_token_def session_demo_def demo_encode_user app_token_def)

lemma app_token_valid:
  "validate_access_token session_demo 10 10 app_token [] =
     Inr \<lparr>at_token = ''T'', at_user_id = ''@a:a.org'', at_device_id = ''D'', at_expires_at = Some 3600\<rparr>"
  using user_token_validates(1) [OF demo_jwt_laws app_token_created, of 10 10 "[]"]
  by (simp add: starts_with_def app_token_def replicate_not_opaque)

theorem server_auth_unreachable_witness:
  "auth_middleware app_demo app_clocks session_demo_clocks
     (app_request ''PUT'' ''/_matrix/federation/v1/send/1'' (Some (Some ''X-Matrix origin=b.org''))) [] =
   (Inl M_Unauthorized, [])"
  using server_auth_unreachable [of "app_request ''PUT'' ''/_matrix/federation/v1/send/1'' (Some (Some ''X-Matrix origin=b.org''))"
      "''origin=b.org''" app_demo app_clocks session_demo_clocks "[]"]
  by (simp add: app_request_def readable_def)

theorem login_needs_token_witness:
  "auth_middleware app_demo app_clocks session_demo_clocks
     (app_request ''POST'' ''/_matrix/client/v3/login'' None) [] = (Inl M_Unauthorized, [])"
  by (rule login_needs_token) (simp add: app_request_def)

text \<open>The same server where \<open>@a:a.org\<close> is joined everywhere and has level 50.\<close>

definition app_levels :: app_state where
  "app_levels = app_demo\<lparr>as_membership := (\<lambda>r u. Inr (Some (new_membership r u Join))),
     as_power_levels_row := (\<lambda>r. Inr (Some (JObject [(''users'', JObject [(''@a:a.org'', JNumber (NInt 50))])])))\<rparr>"

lemma app_request_passes:
  assumes "check_endpoint_authorization st (User \<lparr>at_token = ''T'', at_user_id = ''@a:a.org'', at_device_id = ''D'',
      at_expires_at = Some 3600\<rparr>) path m" and "as_session st = session_demo" "as_access_tokens st = []"
  shows "auth_middleware st app_clocks session_demo_clocks (app_request m path (Some (Some (''Bearer '' @ app_token)))) [] =
   (Inr (User \<lparr>at_token = ''T'', at_user_id = ''@a:a.org'', at_device_id = ''D'', at_expires_at = Some 3600\<rparr>), [])"
proof -
  have "strip_prefix ''Bearer '' (''Bearer '' @ app_token) = Some app_token"
    using strip_prefix_prefix by blast
  then show ?thesis
    using app_token_valid assms unfolding middleware_outcome
    by (simp add: app_request_def readable_def app_clocks_def del: strip_prefix.simps)
qed

lemma app_kick_passes:
  "\<exists>a. auth_middleware app_levels app_clocks session_demo_clocks
     (app_request ''POST'' ''/_matrix/client/v3/rooms/r/kick'' (Some (Some (''Bearer '' @ app_token)))) [] = (Inr a, [])"
  by (rule exI, rule app_request_passes)
    (simp_all add: app_levels_def app_demo_def check_endpoint_authorization_def contains_str_def suffix_def
      extract_room_id_from_uri_def check_user_power_level_def member_power_level_def level_of_row_def get_def in_i64_def i64_min_def i64_max_def)

lemma app_send_passes:
  "\<exists>a. auth_middleware app_levels app_clocks session_demo_clocks
     (app_request ''PUT'' ''/_matrix/client/v3/rooms/r/send/m/1'' (Some (Some (''Bearer '' @ app_token)))) [] = (Inr a, [])"
  by (rule exI, rule app_request_passes)
    (simp_all add: app_levels_def app_demo_def check_endpoint_authorization_def contains_str_def
      check_user_room_membership_iff new_membership_def
      extract_room_id_from_uri_def check_user_power_level_def member_power_level_def level_of_row_def get_def in_i64_def i64_min_def i64_max_def)

theorem passed_request_authorized_witness:
  "(\<exists>a row. validate_access_token session_demo 10 10 app_token [] = Inr a \<and>
      as_power_levels_row app_levels ''r'' = Inr row \<and> 50 \<le> level_of_row row (at_user_id a)) \<and>
   (\<exists>a member. validate_access_token session_demo 10 10 app_token [] = Inr a \<and>
      as_membership app_levels ''r'' (at_user_id a) = Inr (Some member) \<and> m_membership member = Join)"
proof
  have room: "extract_room_id_from_uri ''/_matrix/client/v3/rooms/r/kick'' = Some ''r''"
    "extract_room_id_from_uri ''/_matrix/client/v3/rooms/r/send/m/1'' = Some ''r''"
    by (simp_all add: extract_room_id_from_uri_def)
  obtain a where "auth_middleware app_levels app_clocks session_demo_clocks
     (app_request ''POST'' ''/_matrix/client/v3/rooms/r/kick'' (Some (Some (''Bearer '' @ app_token)))) [] = (Inr a, [])"
    using app_kick_passes by blast
  from passed_request_authorized [OF this] room
  show "\<exists>a row. validate_access_token session_demo 10 10 app_token [] = Inr a \<and>
      as_power_levels_row app_levels ''r'' = Inr row \<and> 50 \<le> level_of_row row (at_user_id a)"
    by (auto simp: app_request_def readable_def app_levels_def app_demo_def app_clocks_def contains_str_def suffix_def Let_def)
  obtain a where "auth_middleware app_levels app_clocks session_demo_clocks
     (app_request ''PUT'' ''/_matrix/client/v3/rooms/r/send/m/1'' (Some (Some (''Bearer '' @ app_token)))) [] = (Inr a, [])"
    using app_send_passes by blast
  from passed_request_authorized [OF this] room
  show "\<exists>a member. validate_access_token session_demo 10 10 app_token [] = Inr a \<and>
      as_membership app_levels ''r'' (at_user_id a) = Inr (Some member) \<and> m_membership member = Join"
    by (auto simp: app_request_def readable_def app_levels_def app_demo_def app_clocks_def contains_str_def Let_def)
qed

theorem moderation_forbidden_witness:
  "\<not> is_ok (fst (auth_middleware app_demo app_clocks session_demo_clocks
     (app_request ''POST'' ''/_matrix/client/v3/rooms/r/kick'' (Some (Some (''Bearer '' @ app_token)))) []))"
proof (rule moderation_forbidden)
  show "as_power_levels_row app_demo room_id = Inr (Some (JObject [(''content'', JObject [])]))" for room_id
    by (simp add: app_demo_def)
qed (simp_all add: app_request_def readable_def contains_str_def suffix_def)

lemma app_user_extracted:
  "\<exists>u. from_request_parts app_demo app_clocks (Some (Some (''Bearer '' @ app_token))) = Inr u"
proof -
  have "strip_prefix ''Bearer '' (''Bearer '' @ app_token) = Some app_token"
    using strip_prefix_prefix by blast
  moreover have "validate_token session_demo 10 app_token = Inr (for_user 0 ''@a:a.org'' ''D'' ''T'' None 3600)"
    by (rule user_token_decodes(1) [OF demo_jwt_laws app_token_created]) simp
  moreover have "suffix ('':'' @ homeserver_name (sw_crypto session_demo)) ''@a:a.org''"
    by (simp add: session_demo_def demo_crypto_def suffix_def)
  ultimately show ?thesis
    by (simp add: from_request_parts_def readable_def app_demo_def app_clocks_def for_user_def ensure_def
        del: strip_prefix.simps)
qed

theorem extracted_user_valid_witness: "\<exists>c. jwt_decode session_demo 10 app_token = Inr c"
proof -
  obtain u where "from_request_parts app_demo app_clocks (Some (Some (''Bearer '' @ app_token))) = Inr u"
    using app_user_extracted by blast
  from extracted_user_valid [OF this] show ?thesis
    by (auto simp: readable_def app_demo_def app_clocks_def)
qed

theorem bad_token_internal_error_witness:
  "from_request_parts app_demo (app_clocks\<lparr>rc_decode := 9999\<rparr>) (Some (Some (''Bearer '' @ app_token))) = Inl 500"
proof -
  have "\<not> is_ok (validate_token session_demo 9999 app_token)"
    by (rule user_token_decodes(2) [OF demo_jwt_laws app_token_created]) simp
  then obtain e where "jwt_decode session_demo 9999 app_token = Inl e"
    by (cases "jwt_decode session_demo 9999 app_token") (auto simp: validate_token_def)
  then show ?thesis
    by (intro bad_token_internal_error) (simp_all add: readable_def app_demo_def app_clocks_def)
qed

theorem localpart_roundtrip_witness:
  "localpart \<lparr>au_user_id = format_user_id (Some ''a.org'') ''bob'', au_device_id = ''D'', au_access_token = ''T'',
     au_homeserver_name = ''a.org'', au_is_guest = False\<rparr> = Some ''bob''"
  using localpart_roundtrip [where name = "''bob''" and server = "Some ''a.org''" and u = "\<lparr>au_user_id = [], au_device_id = ''D'', au_access_token = ''T'',
     au_homeserver_name = ''a.org'', au_is_guest = False\<rparr>"] by simp

end
