(* ===== verification/Room_State.thy ===== *)
theory Room_State
  imports Level_Repository Event_History Auth_Middleware
begin

text \<open>
  The state of a room in the client API: the endpoints
  \<open>server/src/_matrix/client/v3/rooms/by_room_id/state/by_event_type/by_state_key.rs\<close> and
  \<open>handlers.rs\<close>, which read and write state events, the signer of outgoing events
  \<open>server/src/federation/event_signer.rs\<close>, and the queries of \<open>surrealdb/src/repository/event.rs\<close> and
  \<open>membership.rs\<close> they run. The state that changes is the event table; a query fails when \<open>sr_fail\<close>
  gives an error for it, which also covers a query that the database rejects. The query for the
  previous events of a new event calls \<open>unnest\<close>, which is no function of SurrealQL: what the
  database makes of it is the argument \<open>sr_prev_rows\<close>.
\<close>

section \<open>Environment\<close>

datatype state_call = MembershipStatus | PrevEvents | EventDepth | AuthEvents | CurrentState | LevelsContent

record state_world =
  sr_app :: app_state
  sr_history :: history_world
  sr_levels :: level_world
  sr_fail :: "state_call \<Rightarrow> repository_error option"
  sr_prev_rows :: "string \<Rightarrow> event list \<Rightarrow> string list"
  sr_status_rows :: "string \<Rightarrow> string \<Rightarrow> string list"
  sr_row_error :: repository_error
  sr_signer_error :: "signing_error option"

record state_stamp =
  ss_uuid :: string
  ss_now :: int
  ss_received :: int

abbreviation sr_crypto :: "state_world \<Rightarrow> crypto" where
  "sr_crypto w \<equiv> sw_crypto (as_session (sr_app w))"

definition state_result :: "state_world \<Rightarrow> state_call \<Rightarrow> 'a \<Rightarrow> repository_error + 'a" where
  "state_result w call x = (case sr_fail w call of Some e \<Rightarrow> Inl e | None \<Rightarrow> Inr x)"

section \<open>Queries\<close>

text \<open>\<open>sr_status_rows\<close> holds the memberships of a user in a room, the last update first.\<close>

definition get_user_membership_status :: "state_world \<Rightarrow> string \<Rightarrow> string \<Rightarrow> repository_error + string option" where
  "get_user_membership_status w room_id user_id =
     state_result w MembershipStatus (case sr_status_rows w room_id user_id of [] \<Rightarrow> None | m # _ \<Rightarrow> Some m)"

definition state_events_of :: "string \<Rightarrow> string \<Rightarrow> string \<Rightarrow> event list \<Rightarrow> event list" where
  "state_events_of room_id event_type state_key es =
     filter (\<lambda>e. ev_room_id e = room_id \<and> ev_event_type e = event_type \<and> ev_state_key e = Some state_key) es"

definition get_current_state_event ::
  "state_world \<Rightarrow> string \<Rightarrow> string \<Rightarrow> string \<Rightarrow> event list \<Rightarrow> repository_error + event option" where
  "get_current_state_event w room_id event_type state_key es =
     state_result w CurrentState
       (case newest_depth_first (state_events_of room_id event_type state_key es) of [] \<Rightarrow> None | e # _ \<Rightarrow> Some e)"

definition event_repo_power_levels :: "state_world \<Rightarrow> string \<Rightarrow> event list \<Rightarrow> repository_error + json" where
  "event_repo_power_levels w room_id es =
     state_result w LevelsContent
       (case newest_depth_first (state_events_of room_id ''m.room.power_levels'' [] es) of
          [] \<Rightarrow> JObject [] | e # _ \<Rightarrow> content_to_value (ev_content e))"

text \<open>Events of the room that no event of the room names as a previous event.\<close>

definition extremities :: "string \<Rightarrow> event list \<Rightarrow> event list" where
  "extremities room_id es =
     filter (\<lambda>e. ev_room_id e = room_id \<and>
       \<not> list_ex (\<lambda>x. ev_room_id x = room_id \<and> List.member (unwrap_or [] (ev_prev_events x)) (ev_event_id e)) es) es"

definition get_prev_events :: "state_world \<Rightarrow> string \<Rightarrow> event list \<Rightarrow> repository_error + string list" where
  "get_prev_events w room_id es = state_result w PrevEvents (sr_prev_rows w room_id es)"

text \<open>What the query is written for: the last twenty of the extremities.\<close>

definition intended_prev_events :: "string \<Rightarrow> event list \<Rightarrow> string list" where
  "intended_prev_events room_id es = map ev_event_id (take 20 (newest_ts_first (extremities room_id es)))"

text \<open>A record without a depth is not a number; the addition wraps around.\<close>

definition calculate_event_depth :: "state_world \<Rightarrow> string list \<Rightarrow> event list \<Rightarrow> repository_error + int" where
  "calculate_event_depth w prev_events es =
     (if prev_events = [] then Inr 1
      else bindR (state_result w EventDepth
             (sort_key (\<lambda>e. - depth_key e) (filter (\<lambda>e. List.member prev_events (ev_event_id e)) es))) (\<lambda>rows.
           bindR (case rows of [] \<Rightarrow> Inr 0 | e # _ \<Rightarrow> ok_or (ev_depth e) (sr_row_error w)) (\<lambda>max_depth.
           Inr (i64_wrap (max_depth + 1)))))"

definition newest_state_id :: "string \<Rightarrow> string \<Rightarrow> string \<Rightarrow> event list \<Rightarrow> string list" where
  "newest_state_id room_id event_type state_key es =
     map ev_event_id (take 1 (newest_ts_first (state_events_of room_id event_type state_key es)))"

definition get_auth_events ::
  "state_world \<Rightarrow> string \<Rightarrow> string \<Rightarrow> string \<Rightarrow> string \<Rightarrow> event list \<Rightarrow> repository_error + string list" where
  "get_auth_events w room_id event_type sender state_key es =
     state_result w AuthEvents
       (map ev_event_id (take 1 (filter (\<lambda>e. ev_room_id e = room_id \<and> ev_event_type e = ''m.room.create'') es)) @
        newest_state_id room_id ''m.room.power_levels'' [] es @
        newest_state_id room_id ''m.room.member'' sender es @
        (if event_type = ''m.room.member''
         then newest_state_id room_id ''m.room.join_rules'' [] es @
              (if state_key \<noteq> sender then newest_state_id room_id ''m.room.member'' state_key es else [])
         else []))"

section \<open>Signing outgoing events\<close>

definition validate_event_for_signing :: "state_world \<Rightarrow> event \<Rightarrow> signing_error + unit" where
  "validate_event_for_signing w e =
     (let homeserver = as_homeserver_name (sr_app w) in
      bindR (ensure (ev_event_id e \<noteq> []) (S_InvalidFormat ''Event ID is required for signing'')) (\<lambda>_.
      bindR (ensure (ev_room_id e \<noteq> []) (S_InvalidFormat ''Room ID is required for signing'')) (\<lambda>_.
      bindR (ensure (ev_sender e \<noteq> []) (S_InvalidFormat ''Sender is required for signing'')) (\<lambda>_.
      bindR (ensure (ev_event_type e \<noteq> []) (S_InvalidFormat ''Event type is required for signing'')) (\<lambda>_.
      bindR (ensure (suffix ('':'' @ homeserver) (ev_sender e))
        (S_InvalidFormat (''Cannot sign event from '' @ ev_sender e @ '': sender domain must match homeserver '' @ homeserver))) (\<lambda>_.
      ensure (map_of (unwrap_or [] (ev_signatures e)) homeserver = None)
        (S_InvalidFormat ''Event already has signature from this server'')))))))"

definition sign_outgoing_event :: "state_world \<Rightarrow> event \<Rightarrow> string option \<Rightarrow> (signing_error + unit) \<times> event" where
  "sign_outgoing_event w e key_id =
     (case validate_event_for_signing w e of
        Inl err \<Rightarrow> (Inl err, e)
      | Inr _ \<Rightarrow> sign_event (sr_crypto w) e (unwrap_or ''ed25519:auto'' key_id))"

section \<open>Permissions\<close>

definition check_room_state_permission :: "state_world \<Rightarrow> string \<Rightarrow> string \<Rightarrow> repository_error + bool" where
  "check_room_state_permission w room_id user_id =
     bindR (get_user_membership_status w room_id user_id) (\<lambda>membership.
     case membership of
       Some m \<Rightarrow> Inr (m = ''join'' \<or> m = ''invite'' \<or> m = ''leave'')
     | None \<Rightarrow> is_room_world_readable (sr_history w) room_id)"

definition state_user_level :: "json \<Rightarrow> string \<Rightarrow> int" where
  "state_user_level power_levels user_id =
     (case Option.bind (Option.bind (get power_levels ''users'') as_object) (\<lambda>users.
             Option.bind (map_of users user_id) as_i64) of
        Some level \<Rightarrow> level
      | None \<Rightarrow> unwrap_or 0 (Option.bind (get power_levels ''users_default'') as_i64))"

definition state_required_level :: "json \<Rightarrow> string \<Rightarrow> int" where
  "state_required_level power_levels event_type =
     (case Option.bind (Option.bind (get power_levels ''events'') as_object) (\<lambda>events.
             Option.bind (map_of events event_type) as_i64) of
        Some level \<Rightarrow> level
      | None \<Rightarrow> unwrap_or 50 (Option.bind (get power_levels ''state_default'') as_i64))"

definition check_state_send_permission ::
  "state_world \<Rightarrow> string \<Rightarrow> string \<Rightarrow> string \<Rightarrow> event list \<Rightarrow> repository_error + bool" where
  "check_state_send_permission w room_id user_id event_type es =
     bindR (get_user_membership_status w room_id user_id) (\<lambda>membership.
     if membership \<noteq> Some ''join'' then Inr False
     else bindR (event_repo_power_levels w room_id es) (\<lambda>power_levels.
          Inr (state_user_level power_levels user_id \<ge> state_required_level power_levels event_type)))"

definition is_text_member :: "json \<Rightarrow> string \<Rightarrow> string \<Rightarrow> string + unit" where
  "is_text_member content k message =
     (case get content k of Some v \<Rightarrow> ensure (as_str v \<noteq> None) message | None \<Rightarrow> Inr ())"

definition validate_state_event_content :: "string \<Rightarrow> json \<Rightarrow> string + unit" where
  "validate_state_event_content event_type content =
     (if event_type = ''m.room.name'' then is_text_member content ''name'' ''name must be a string''
      else if event_type = ''m.room.topic'' then is_text_member content ''topic'' ''topic must be a string''
      else if event_type = ''m.room.avatar'' then is_text_member content ''url'' ''url must be a string''
      else if event_type = ''m.room.canonical_alias''
      then (case get content ''alias'' of
              Some v \<Rightarrow> ensure (as_str v \<noteq> None \<or> v = JNull) ''alias must be a string or null''
            | None \<Rightarrow> Inr ())
      else Inr ())"

section \<open>The endpoints\<close>

definition outgoing_state_event ::
  "state_stamp \<Rightarrow> string \<Rightarrow> string \<Rightarrow> string \<Rightarrow> string \<Rightarrow> json \<Rightarrow> string list \<Rightarrow> int \<Rightarrow> string list \<Rightarrow> event" where
  "outgoing_state_event stamp room_id sender event_type state_key content prev_events depth auth_events =
     (new_event (''$'' @ ss_uuid stamp) sender (ss_now stamp) event_type room_id (Unknown content))
     \<lparr>ev_state_key := Some state_key, ev_depth := Some depth, ev_received_ts := Some (ss_received stamp),
      ev_outlier := Some False, ev_auth_events := Some auth_events, ev_prev_events := Some prev_events\<rparr>"

definition prepared_state_event ::
  "state_world \<Rightarrow> state_stamp \<Rightarrow> string \<Rightarrow> string \<Rightarrow> string \<Rightarrow> string \<Rightarrow> json \<Rightarrow> event list \<Rightarrow> string + event" where
  "prepared_state_event w stamp room_id sender event_type state_key content es =
     bindR (map_err (\<lambda>_. ''Failed to get prev_events'') (get_prev_events w room_id es)) (\<lambda>prev_events.
     bindR (map_err (\<lambda>_. ''Failed to calculate depth'') (calculate_event_depth w prev_events es)) (\<lambda>depth.
     bindR (map_err (\<lambda>_. ''Failed to get auth_events'') (get_auth_events w room_id event_type sender state_key es)) (\<lambda>auth_events.
     bindR (ensure (sr_signer_error w = None) ''Failed to create event signer'') (\<lambda>_.
     case sign_outgoing_event w
            (outgoing_state_event stamp room_id sender event_type state_key content prev_events depth auth_events) None of
       (Inl _, _) \<Rightarrow> Inl ''Failed to sign state event''
     | (Inr _, signed_event) \<Rightarrow> Inr signed_event))))"

definition send_state_event ::
  "state_world \<Rightarrow> state_stamp \<Rightarrow> string \<Rightarrow> string \<Rightarrow> string \<Rightarrow> string \<Rightarrow> json \<Rightarrow> event list \<Rightarrow> (string + string) \<times> event list" where
  "send_state_event w stamp room_id sender event_type state_key content es =
     (case prepared_state_event w stamp room_id sender event_type state_key content es of
        Inl e \<Rightarrow> (Inl e, es)
      | Inr signed_event \<Rightarrow>
          (case event_repo_create (sr_levels w) signed_event es of
             (Inl e, es') \<Rightarrow> (Inl (repository_error_text e), es')
           | (Inr _, es') \<Rightarrow> (Inr (''$'' @ ss_uuid stamp), es')))"

definition put_state ::
  "state_world \<Rightarrow> request_clocks \<Rightarrow> state_stamp \<Rightarrow> string option option \<Rightarrow> string \<Rightarrow> string \<Rightarrow> string \<Rightarrow> json \<Rightarrow> event list \<Rightarrow>
   (nat + string) \<times> event list" where
  "put_state w ck stamp authorization room_id event_type state_key content es =
     (case bindR (from_request_parts (sr_app w) ck authorization) (\<lambda>auth.
           bindR (known_room (sr_history w) room_id) (\<lambda>_.
           bindR (map_err (\<lambda>_. 500) (check_state_send_permission w room_id (au_user_id auth) event_type es)) (\<lambda>has_permission.
           bindR (ensure has_permission 403) (\<lambda>_.
           bindR (map_err (\<lambda>_. 400) (validate_state_event_content event_type content)) (\<lambda>_.
           Inr (au_user_id auth)))))) of
        Inl status \<Rightarrow> (Inl status, es)
      | Inr user_id \<Rightarrow>
          (case send_state_event w stamp room_id user_id event_type state_key content es of
             (Inl _, es') \<Rightarrow> (Inl 500, es')
           | (Inr event_id, es') \<Rightarrow> (Inr event_id, es')))"

definition state_event_json :: "event \<Rightarrow> json" where
  "state_event_json e = JObject
     [(''event_id'', JString (ev_event_id e)), (''type'', JString (ev_event_type e)), (''room_id'', JString (ev_room_id e)),
      (''sender'', JString (ev_sender e)), (''content'', content_to_value (ev_content e)),
      (''state_key'', case ev_state_key e of Some k \<Rightarrow> JString k | None \<Rightarrow> JNull),
      (''origin_server_ts'', int_json (ev_origin_server_ts e)), (''unsigned'', unwrap_or JNull (ev_unsigned e))]"

definition get_state ::
  "state_world \<Rightarrow> request_clocks \<Rightarrow> string option option \<Rightarrow> string \<Rightarrow> string \<Rightarrow> string \<Rightarrow> event list \<Rightarrow> nat + json" where
  "get_state w ck authorization room_id event_type state_key es =
     bindR (from_request_parts (sr_app w) ck authorization) (\<lambda>auth.
     bindR (known_room (sr_history w) room_id) (\<lambda>_.
     bindR (map_err (\<lambda>_. 500) (check_room_state_permission w room_id (au_user_id auth))) (\<lambda>has_permission.
     bindR (ensure has_permission 403) (\<lambda>_.
     bindR (map_err (\<lambda>_. 500) (get_current_state_event w room_id event_type state_key es)) (\<lambda>event.
     bindR (ok_or event 404) (\<lambda>e. Inr (state_event_json e)))))))"

text \<open>Without a state key in the path, the event with the empty one.\<close>

definition get_state_of_type ::
  "state_world \<Rightarrow> request_clocks \<Rightarrow> string option option \<Rightarrow> string \<Rightarrow> string \<Rightarrow> event list \<Rightarrow> nat + json" where
  "get_state_of_type w ck authorization room_id event_type es =
     bindR (from_request_parts (sr_app w) ck authorization) (\<lambda>auth.
     bindR (known_room (sr_history w) room_id) (\<lambda>_.
     bindR (map_err (\<lambda>_. 500) (get_user_membership_status w room_id (au_user_id auth))) (\<lambda>membership.
     bindR (case membership of
              Some m \<Rightarrow> Inr (m = ''join'' \<or> m = ''invite'' \<or> m = ''leave'')
            | None \<Rightarrow> map_err (\<lambda>_. 500) (is_room_world_readable (sr_history w) room_id)) (\<lambda>has_permission.
     bindR (ensure has_permission 403) (\<lambda>_.
     bindR (map_err (\<lambda>_. 500) (get_current_state_event w room_id event_type [] es)) (\<lambda>event.
     bindR (ok_or event 404) (\<lambda>e. Inr (state_event_json e))))))))"

section \<open>What a request stores\<close>

lemma state_result_Inr_iff [result_simps]: "state_result w call x = Inr y \<longleftrightarrow> sr_fail w call = None \<and> y = x"
  by (auto simp: state_result_def split: option.splits)

lemma signed_case_iff:
  "(case sign_outgoing_event w out None of (Inl _, _) \<Rightarrow> Inl m | (Inr _, signed_event) \<Rightarrow> Inr signed_event) = Inr e \<longleftrightarrow>
     validate_event_for_signing w out = Inr () \<and> sign_event (sr_crypto w) out ''ed25519:auto'' = (Inr (), e)"
proof (cases "sign_event (sr_crypto w) out ''ed25519:auto''")
  case (Pair r e')
  then show ?thesis
    by (cases r; cases "validate_event_for_signing w out") (auto simp: sign_outgoing_event_def)
qed

lemma prepared_state_event_Inr_iff:
  "prepared_state_event w stamp room_id sender event_type state_key content es = Inr e \<longleftrightarrow>
     (\<exists>prev_events depth auth_events out.
        get_prev_events w room_id es = Inr prev_events \<and> calculate_event_depth w prev_events es = Inr depth \<and>
        get_auth_events w room_id event_type sender state_key es = Inr auth_events \<and> sr_signer_error w = None \<and>
        out = outgoing_state_event stamp room_id sender event_type state_key content prev_events depth auth_events \<and>
        validate_event_for_signing w out = Inr () \<and> sign_event (sr_crypto w) out ''ed25519:auto'' = (Inr (), e))"
  unfolding prepared_state_event_def result_simps signed_case_iff by blast

lemma put_state_ok_iff:
  "put_state w ck stamp authorization room_id event_type state_key content es = (Inr event_id, es') \<longleftrightarrow>
     (\<exists>auth room e. from_request_parts (sr_app w) ck authorization = Inr auth \<and>
        known_room (sr_history w) room_id = Inr room \<and>
        check_state_send_permission w room_id (au_user_id auth) event_type es = Inr True \<and>
        validate_state_event_content event_type content = Inr () \<and>
        prepared_state_event w stamp room_id (au_user_id auth) event_type state_key content es = Inr e \<and>
        lw_fail (sr_levels w) EventCreate = None \<and> ev_event_id e \<notin> ev_event_id ` set es \<and>
        event_id = ''$'' @ ss_uuid stamp \<and> es' = es @ [e])"
  by (auto simp: put_state_def send_state_event_def result_simps event_repo_create_def ensure_def split: sum.splits option.splits if_splits)

lemma send_permission_iff:
  "check_state_send_permission w room_id user_id event_type es = Inr True \<longleftrightarrow>
     get_user_membership_status w room_id user_id = Inr (Some ''join'') \<and>
     (\<exists>power_levels. event_repo_power_levels w room_id es = Inr power_levels \<and>
        state_required_level power_levels event_type \<le> state_user_level power_levels user_id)"
  by (auto simp: check_state_send_permission_def result_simps)

text \<open>Everything of a stored event but its hashes and signatures is what the request prepared.\<close>

lemma stored_event:
  assumes "prepared_state_event w stamp room_id sender event_type state_key content es = Inr e"
  shows "ev_event_id e = ''$'' @ ss_uuid stamp" "ev_room_id e = room_id" "ev_sender e = sender"
    "ev_event_type e = event_type" "ev_state_key e = Some state_key" "ev_content e = Unknown content"
    "ev_unsigned e = None"
    "\<exists>prev_events depth. get_prev_events w room_id es = Inr prev_events \<and>
       calculate_event_depth w prev_events es = Inr depth \<and>
       ev_prev_events e = Some prev_events \<and> ev_depth e = Some depth"
  using assms
  by (auto simp: prepared_state_event_Inr_iff sign_event_Inr_iff outgoing_state_event_def new_event_def)

lemma stored_event_validates:
  assumes "prepared_state_event w stamp room_id sender event_type state_key content es = Inr e"
    and "key_pair (sr_crypto w) ''ed25519:auto'' public_key"
    and "fetch_remote_server_key (sr_crypto w) now now' (homeserver_name (sr_crypto w)) ''ed25519:auto'' rows = (Inr public_key, rows')"
  shows "validate_event_crypto (sr_crypto w) now now' e [homeserver_name (sr_crypto w)] rows = (Inr (), rows')"
proof -
  obtain prev_events depth auth_events where
    "sign_event (sr_crypto w) (outgoing_state_event stamp room_id sender event_type state_key content prev_events depth auth_events)
       ''ed25519:auto'' = (Inr (), e)"
    using assms(1) unfolding prepared_state_event_Inr_iff by blast
  moreover have "ev_signatures (outgoing_state_event stamp room_id sender event_type state_key content p d a) = None" for p d a
    by (simp add: outgoing_state_event_def new_event_def)
  ultimately obtain out where "ev_signatures out = None" "sign_event (sr_crypto w) out ''ed25519:auto'' = (Inr (), e)" by blast
  then show ?thesis by (intro signed_event_validates [OF assms(2,3)]) simp_all
qed

section \<open>The graph of a room\<close>

text \<open>
  Identifiers are unique, every event of the room has a depth, and an event is deeper than the
  previous events it names.
\<close>

definition room_graph_ok :: "string \<Rightarrow> event list \<Rightarrow> bool" where
  "room_graph_ok room_id es \<longleftrightarrow> distinct (map ev_event_id es) \<and>
     (\<forall>e \<in> set es. ev_room_id e = room_id \<longrightarrow>
        (case ev_depth e of None \<Rightarrow> False | Some d \<Rightarrow> in_i64 d) \<and>
        (\<forall>p \<in> set es. ev_room_id p = room_id \<and> ev_event_id p \<in> prev_set e \<longrightarrow> depth_key p < depth_key e))"

definition depths_below_max :: "string \<Rightarrow> event list \<Rightarrow> bool" where
  "depths_below_max room_id es \<longleftrightarrow> (\<forall>e \<in> set es. ev_room_id e = room_id \<longrightarrow> depth_key e < i64_max)"

definition unnamed :: "string \<Rightarrow> event list \<Rightarrow> bool" where
  "unnamed event_id es \<longleftrightarrow> (\<forall>e \<in> set es. event_id \<notin> prev_set e)"

lemma set_extremities:
  "e \<in> set (extremities room_id es) \<longleftrightarrow> e \<in> set es \<and> ev_room_id e = room_id \<and>
     (\<forall>x \<in> set es. ev_room_id x = room_id \<longrightarrow> ev_event_id e \<notin> prev_set x)"
  by (auto simp: extremities_def list_ex_iff)

lemma sort_key_head: "sort_key f xs = h # t \<Longrightarrow> h \<in> set xs \<and> (\<forall>x \<in> set xs. f h \<le> f x)"
proof -
  assume s: "sort_key f xs = h # t"
  have "set xs = set (h # t)" using s set_sort [of f xs] by simp
  moreover have "sorted (map f (h # t))" using s sorted_sort_key [of f xs] by simp
  ultimately show ?thesis by auto
qed

lemma newest_first_head:
  assumes "newest_depth_first es = h # t"
  shows "h \<in> set es \<and> (\<forall>x \<in> set es. depth_key x \<le> depth_key h)"
  using sort_key_head [OF assms [unfolded newest_depth_first_def]] by simp

lemma newest_depth_head:
  assumes "e \<in> set es" and "\<forall>x \<in> set es. x \<noteq> e \<longrightarrow> depth_key x < depth_key e"
  shows "\<exists>t. newest_depth_first es = e # t"
proof (cases "newest_depth_first es")
  case Nil
  then have "set (newest_depth_first es) = {}" by simp
  then show ?thesis using assms(1) by simp
next
  case (Cons h t)
  then have "h = e" using newest_first_head [OF Cons] assms by force
  with Cons show ?thesis by simp
qed

text \<open>The deepest event of a room is an extremity, so a new event is deeper than all others.\<close>

lemma deepest_extremity:
  assumes "room_graph_ok room_id es" and "e \<in> set es" and "ev_room_id e = room_id"
  shows "\<exists>x \<in> set (extremities room_id es). depth_key e \<le> depth_key x"
proof -
  let ?room = "{x \<in> set es. ev_room_id x = room_id}"
  have "Max (depth_key ` ?room) \<in> depth_key ` ?room" using assms(2,3) by (intro Max_in) auto
  then obtain x where "x \<in> ?room" "depth_key x = Max (depth_key ` ?room)" by auto
  then have x: "x \<in> ?room" "\<forall>y \<in> ?room. depth_key y \<le> depth_key x" by auto
  then have "x \<in> set (extremities room_id es)"
    using assms(1) by (fastforce simp: set_extremities room_graph_ok_def)
  then show ?thesis using x assms(2,3) by auto
qed

lemma prev_events_all:
  "get_prev_events w room_id es = Inr prev_events \<Longrightarrow> sr_prev_rows w room_id es = intended_prev_events room_id es \<Longrightarrow>
     length (extremities room_id es) \<le> 20 \<Longrightarrow>
     set prev_events = ev_event_id ` set (extremities room_id es)"
proof -
  assume "get_prev_events w room_id es = Inr prev_events" and "sr_prev_rows w room_id es = intended_prev_events room_id es"
    and few: "length (extremities room_id es) \<le> 20"
  then have "prev_events = intended_prev_events room_id es"
    by (simp add: get_prev_events_def state_result_def split: option.splits)
  with few show ?thesis by (simp add: intended_prev_events_def newest_ts_first_def)
qed

lemma new_event_deepest:
  assumes ok: "room_graph_ok room_id es" and below: "depths_below_max room_id es"
    and intended: "sr_prev_rows w room_id es = intended_prev_events room_id es"
    and few: "length (extremities room_id es) \<le> 20"
    and prev: "get_prev_events w room_id es = Inr prev_events"
    and depth: "calculate_event_depth w prev_events es = Inr d"
  shows "in_i64 d \<and> (\<forall>e \<in> set es. ev_room_id e = room_id \<longrightarrow> depth_key e < d)"
proof (cases "prev_events = []")
  case True
  then have "extremities room_id es = []" using prev_events_all [OF prev intended few] by simp
  then show ?thesis using deepest_extremity [OF ok] depth True
    by (auto simp: calculate_event_depth_def in_i64_def i64_min_def i64_max_def)
next
  case False
  define rows where "rows = sort_key (\<lambda>e. - depth_key e) (filter (\<lambda>e. List.member prev_events (ev_event_id e)) es)"
  have named: "x \<in> set rows \<longleftrightarrow> x \<in> set (extremities room_id es)" for x
  proof -
    have inj: "inj_on ev_event_id (set es)" using ok by (simp add: room_graph_ok_def distinct_map)
    have sub: "set (extremities room_id es) \<subseteq> set es" by (auto simp: extremities_def)
    have "x \<in> set rows \<longleftrightarrow> x \<in> set es \<and> ev_event_id x \<in> ev_event_id ` set (extremities room_id es)"
      by (simp add: rows_def prev_events_all [OF prev intended few])
    also have "\<dots> \<longleftrightarrow> x \<in> set (extremities room_id es)"
      using inj_on_image_mem_iff [OF inj _ sub] sub by blast
    finally show ?thesis .
  qed
  obtain p where "p \<in> set prev_events" using False by (cases prev_events) auto
  then obtain x where "x \<in> set rows" using named prev_events_all [OF prev intended few] by auto
  then obtain h t where h: "rows = h # t" by (cases rows) auto
  have hmax: "\<forall>x \<in> set rows. depth_key x \<le> depth_key h"
    using sort_key_head [OF h [unfolded rows_def]] by (simp add: rows_def)
  moreover have ext: "h \<in> set (extremities room_id es)" using h named [of h] by simp
  ultimately obtain dh where dh: "ev_depth h = Some dh" "in_i64 dh" "dh < i64_max"
    using ok below by (auto simp: set_extremities room_graph_ok_def depths_below_max_def depth_key_def split: option.splits)
  have "calculate_event_depth w prev_events es = Inr d \<longleftrightarrow> sr_fail w EventDepth = None \<and> d = i64_wrap (dh + 1)"
    using False h [unfolded rows_def] dh(1) by (auto simp: calculate_event_depth_def result_simps)
  then have d: "d = dh + 1" "in_i64 d"
    using depth dh by (auto simp: in_i64_def)
  have "depth_key e < d" if e: "e \<in> set es" "ev_room_id e = room_id" for e
  proof -
    obtain x where "x \<in> set (extremities room_id es)" "depth_key e \<le> depth_key x"
      using deepest_extremity [OF ok e] by blast
    then have "depth_key e \<le> depth_key h" using hmax named [of x] by auto
    then show ?thesis using dh(1) d(1) by (simp add: depth_key_def)
  qed
  with d show ?thesis by blast
qed

lemma graph_after_put:
  assumes ok: "room_graph_ok room_id es" and below: "depths_below_max room_id es"
    and intended: "sr_prev_rows w room_id es = intended_prev_events room_id es"
    and few: "length (extremities room_id es) \<le> 20" and fresh: "unnamed (''$'' @ ss_uuid stamp) es"
    and e: "prepared_state_event w stamp room_id sender event_type state_key content es = Inr e"
    and new: "ev_event_id e \<notin> ev_event_id ` set es"
  shows "room_graph_ok room_id (es @ [e])" and "extremities room_id (es @ [e]) = [e]"
    and "\<forall>x \<in> set es. ev_room_id x = room_id \<longrightarrow> depth_key x < depth_key e"
proof -
  note fields = stored_event [OF e]
  obtain prev_events d where p: "get_prev_events w room_id es = Inr prev_events" "ev_prev_events e = Some prev_events"
    and d: "calculate_event_depth w prev_events es = Inr d" "ev_depth e = Some d"
    using fields(8) by blast
  have deep: "in_i64 d" "\<forall>x \<in> set es. ev_room_id x = room_id \<longrightarrow> depth_key x < d"
    using new_event_deepest [OF ok below intended few p(1) d(1)] by auto
  have named: "prev_set e = ev_event_id ` set (extremities room_id es)"
    using prev_events_all [OF p(1) intended few] p(2) by simp
  then have own: "ev_event_id e \<notin> prev_set e" using new by (auto simp: set_extremities)
  have others: "\<forall>x \<in> set es. ev_event_id e \<notin> prev_set x" using fresh fields(1) by (simp add: unnamed_def)
  show "\<forall>x \<in> set es. ev_room_id x = room_id \<longrightarrow> depth_key x < depth_key e" using deep d(2) by (simp add: depth_key_def)
  then show "room_graph_ok room_id (es @ [e])"
    using ok new own others deep(1) d(2) by (auto simp: room_graph_ok_def)
  have "filter (\<lambda>x. ev_room_id x = room_id \<and>
       \<not> list_ex (\<lambda>y. ev_room_id y = room_id \<and> List.member (unwrap_or [] (ev_prev_events y)) (ev_event_id x)) (es @ [e])) es = []"
    using named fields(2) by (auto simp: filter_empty_conv list_ex_iff set_extremities)
  then show "extremities room_id (es @ [e]) = [e]"
    using own others fields(2) by (simp add: extremities_def list_ex_iff)
qed

lemma current_after_put:
  assumes "\<forall>x \<in> set es. ev_room_id x = ev_room_id e \<longrightarrow> depth_key x < depth_key e" and "ev_state_key e = Some state_key"
  shows "\<exists>t. newest_depth_first (state_events_of (ev_room_id e) (ev_event_type e) state_key (es @ [e])) = e # t"
  using assms by (intro newest_depth_head) (auto simp: state_events_of_def)

section \<open>Claims\<close>

text \<open>
  C21. A state event is stored only for a user with a valid token of this server who is joined to an
  existing room and whose level reaches the level the event type needs. The table gains exactly one
  event, which carries the request, and which passes the full cryptographic check of a receiving
  server that fetches the public half of the signing key.
\<close>

theorem state_put_sound:
  assumes "put_state w ck stamp authorization room_id event_type state_key content es = (Inr event_id, es')"
  shows "\<exists>auth room power_levels e.
     from_request_parts (sr_app w) ck authorization = Inr auth \<and>
     known_room (sr_history w) room_id = Inr room \<and>
     get_user_membership_status w room_id (au_user_id auth) = Inr (Some ''join'') \<and>
     event_repo_power_levels w room_id es = Inr power_levels \<and>
     state_required_level power_levels event_type \<le> state_user_level power_levels (au_user_id auth) \<and>
     es' = es @ [e] \<and> ev_event_id e = event_id \<and> event_id \<notin> ev_event_id ` set es \<and> ev_room_id e = room_id \<and>
     ev_sender e = au_user_id auth \<and> ev_event_type e = event_type \<and> ev_state_key e = Some state_key \<and>
     ev_content e = Unknown content \<and>
     (\<forall>public_key now now' rows rows'.
        key_pair (sr_crypto w) ''ed25519:auto'' public_key \<and>
        fetch_remote_server_key (sr_crypto w) now now' (homeserver_name (sr_crypto w)) ''ed25519:auto'' rows = (Inr public_key, rows') \<longrightarrow>
        validate_event_crypto (sr_crypto w) now now' e [homeserver_name (sr_crypto w)] rows = (Inr (), rows'))"
proof -
  obtain auth room e where auth: "from_request_parts (sr_app w) ck authorization = Inr auth"
    and room: "known_room (sr_history w) room_id = Inr room"
    and permission: "check_state_send_permission w room_id (au_user_id auth) event_type es = Inr True"
    and e: "prepared_state_event w stamp room_id (au_user_id auth) event_type state_key content es = Inr e"
    and new: "ev_event_id e \<notin> ev_event_id ` set es" "event_id = ''$'' @ ss_uuid stamp" "es' = es @ [e]"
    using assms by (auto simp: put_state_ok_iff)
  obtain power_levels where "get_user_membership_status w room_id (au_user_id auth) = Inr (Some ''join'')"
    "event_repo_power_levels w room_id es = Inr power_levels"
    "state_required_level power_levels event_type \<le> state_user_level power_levels (au_user_id auth)"
    using permission by (auto simp: send_permission_iff)
  then show ?thesis
    using auth room new stored_event(1-6) [OF e] stored_event_validates [OF e]
    by (intro exI [of _ auth] exI [of _ room] exI [of _ power_levels] exI [of _ e]) auto
qed

text \<open>
  As the query for the previous events is no SurrealQL: a database that refuses it, as one has to,
  stores no state event for anybody; every request is answered with an error and changes nothing.
\<close>

theorem state_put_refused_without_unnest:
  assumes "sr_fail w PrevEvents = Some err"
  shows "\<exists>e. put_state w ck stamp authorization room_id event_type state_key content es = (Inl e, es)"
proof -
  obtain r es' where put: "put_state w ck stamp authorization room_id event_type state_key content es = (r, es')"
    by fastforce
  have refused: "prepared_state_event w stamp room_id sender event_type state_key content es = Inl ''Failed to get prev_events''"
    for sender
    using assms by (simp add: prepared_state_event_def get_prev_events_def state_result_def)
  have "es' = es"
    using put unfolding put_state_def
    by (auto simp: send_state_event_def refused Let_def split: sum.splits)
  moreover have "r \<noteq> Inr event_id" for event_id
    using put put_state_ok_iff [of w ck stamp authorization room_id event_type state_key content es event_id es'] refused
    by auto
  ultimately show ?thesis using put by (cases r) auto
qed

text \<open>
  What writing and reading would be with the intended answer of that query: in a room whose graph is in
  order, with depths below the maximum, at most twenty extremities and an identifier that no event
  names yet, a state event that was stored is the current one, the next read returns its content,
  the graph is in order afterwards and the new event is its only extremity.
\<close>

theorem state_put_then_get:
  assumes "put_state w ck stamp authorization room_id event_type state_key content es = (Inr event_id, es')"
    and "room_graph_ok room_id es" and "depths_below_max room_id es"
    and "sr_prev_rows w room_id es = intended_prev_events room_id es" and "length (extremities room_id es) \<le> 20"
    and "unnamed (''$'' @ ss_uuid stamp) es" and "sr_fail w CurrentState = None"
  shows "room_graph_ok room_id es' \<and> length (extremities room_id es') = 1 \<and>
     (\<exists>answer. get_state w ck authorization room_id event_type state_key es' = Inr answer \<and>
        get answer ''content'' = Some content \<and> get answer ''event_id'' = Some (JString event_id))"
proof -
  obtain auth room e where auth: "from_request_parts (sr_app w) ck authorization = Inr auth"
    and room: "known_room (sr_history w) room_id = Inr room"
    and permission: "check_state_send_permission w room_id (au_user_id auth) event_type es = Inr True"
    and e: "prepared_state_event w stamp room_id (au_user_id auth) event_type state_key content es = Inr e"
    and new: "ev_event_id e \<notin> ev_event_id ` set es" "event_id = ''$'' @ ss_uuid stamp" "es' = es @ [e]"
    using assms(1) by (auto simp: put_state_ok_iff)
  note graph = graph_after_put [OF assms(2-6) e new(1)] and fields = stored_event [OF e]
  obtain t where "newest_depth_first (state_events_of room_id event_type state_key es') = e # t"
    using current_after_put [of es e state_key] graph(3) fields new(3) by auto
  then have "get_current_state_event w room_id event_type state_key es' = Inr (Some e)"
    using assms(7) by (simp add: get_current_state_event_def state_result_def)
  moreover have "check_room_state_permission w room_id (au_user_id auth) = Inr True"
    using permission by (simp add: send_permission_iff check_room_state_permission_def)
  ultimately have "get_state w ck authorization room_id event_type state_key es' = Inr (state_event_json e)"
    using auth room by (simp add: get_state_def ensure_def)
  then show ?thesis using graph fields new by (simp add: state_event_json_def)
qed

text \<open>
  The levels of a power levels event are not compared with the levels of its sender: whatever level
  a sender gives themselves is the level the next request finds.
\<close>

theorem own_level_unchecked:
  assumes "put_state w ck stamp authorization room_id ''m.room.power_levels'' [] content es = (Inr event_id, es')"
    and "room_graph_ok room_id es" and "depths_below_max room_id es"
    and "sr_prev_rows w room_id es = intended_prev_events room_id es" and "length (extremities room_id es) \<le> 20"
    and "unnamed (''$'' @ ss_uuid stamp) es"
    and "get content ''users'' = Some (JObject users)" and "map_of users user = Some (int_json n)" and "in_i64 n"
  shows "\<exists>power_levels. event_repo_power_levels w room_id es' = Inr power_levels \<and> state_user_level power_levels user = n"
proof -
  obtain auth :: authenticated_user and e where permission: "check_state_send_permission w room_id (au_user_id auth) ''m.room.power_levels'' es = Inr True"
    and e: "prepared_state_event w stamp room_id (au_user_id auth) ''m.room.power_levels'' [] content es = Inr e"
    and new: "ev_event_id e \<notin> ev_event_id ` set es" "es' = es @ [e]"
    using assms(1) unfolding put_state_ok_iff by blast
  note graph = graph_after_put [OF assms(2-6) e new(1)] and fields = stored_event [OF e]
  obtain t where "newest_depth_first (state_events_of room_id ''m.room.power_levels'' [] es') = e # t"
    using current_after_put [of es e "[]"] graph(3) fields new(2) by auto
  moreover have "sr_fail w LevelsContent = None"
    using permission by (auto simp: send_permission_iff event_repo_power_levels_def result_simps)
  ultimately have "event_repo_power_levels w room_id es' = Inr content"
    using fields(6) by (simp add: event_repo_power_levels_def state_result_def)
  then show ?thesis using assms(7-9) by (simp add: state_user_level_def)
qed

text \<open>
  Two operations that store state disagree on depth: an event stored by the repository itself has
  depth 1 and stays hidden behind every deeper event of its type and key, while the repository that
  decides on levels goes by the time stamp.
\<close>

theorem shallow_event_hidden:
  assumes "update_room_state_event lw uuid now room_id event_type state_key content sender server es = (Inr e, es')"
    and "x \<in> set (state_events_of room_id event_type state_key es)" and "depth_key x > 1"
    and "sr_fail w CurrentState = None"
  shows "\<exists>y \<in> set es. y \<noteq> e \<and> get_current_state_event w room_id event_type state_key es' = Inr (Some y)"
proof -
  have e: "depth_key e = 1" "es' = es @ [e]" "ev_event_id e \<notin> ev_event_id ` set es"
    using assms(1) by (auto simp: update_room_state_event_def event_repo_create_Inr_iff new_event_def depth_key_def
        split: sum.splits)
  have x: "x \<in> set (state_events_of room_id event_type state_key es')"
    using assms(2) e(2) by (auto simp: state_events_of_def)
  then obtain h t where h: "newest_depth_first (state_events_of room_id event_type state_key es') = h # t"
    using set_newest [of "state_events_of room_id event_type state_key es'"]
    by (cases "newest_depth_first (state_events_of room_id event_type state_key es')") simp_all
  note head = newest_first_head [OF h]
  have "depth_key h > 1" using head x assms(3) by fastforce
  then have "h \<in> set es" "h \<noteq> e" using head e by (auto simp: state_events_of_def split: if_splits)
  then show ?thesis using h assms(4) by (auto simp: get_current_state_event_def state_result_def)
qed

text \<open>The endpoint and the repository accept the same contents.\<close>

theorem state_contents_agree:
  "validate_state_event_content event_type content = Inr () \<longleftrightarrow> repo_state_content event_type content = Inr ()"
  by (auto simp: validate_state_event_content_def repo_state_content_def is_text_member_def string_member_def
      result_simps split: option.splits)

section \<open>Witnesses\<close>

lemma session_demo_prints:
  assumes "json_wf v" and "within_limits 0 v"
  shows "\<exists>m. to_canonical_json (json_to_string (sw_crypto session_demo)) v = Inr m"
proof -
  have "canonicalize_node [] {} 0 v = Inr (canon v, {})" using assms by (intro canonicalize_succeeds(1)) simp_all
  then show ?thesis by (auto simp: to_canonical_json_def canonicalize_value_def session_demo_printers)
qed

definition state_demo :: state_world where
  "state_demo =
     \<lparr>sr_app = app_demo, sr_history = history_demo, sr_levels = level_demo, sr_fail = (\<lambda>_. None),
      sr_prev_rows = intended_prev_events, sr_status_rows = (\<lambda>r u. [''join'']), sr_row_error = Database ''row'', sr_signer_error = None\<rparr>"

definition state_demo_levels :: "int \<Rightarrow> json" where
  "state_demo_levels n = JObject [(''users'', JObject [(''@a:a.org'', int_json n)])]"

definition state_demo_event :: event where
  "state_demo_event =
     (new_event ''$l'' ''@a:a.org'' 1 ''m.room.power_levels'' ''!r:a.org'' (Unknown (state_demo_levels 50)))
     \<lparr>ev_state_key := Some [], ev_depth := Some 2\<rparr>"

abbreviation state_demo_header :: "string option option" where
  "state_demo_header \<equiv> Some (Some (''Bearer '' @ app_token))"

definition state_demo_stamp :: state_stamp where
  "state_demo_stamp = \<lparr>ss_uuid = ''u'', ss_now = 9, ss_received = 9\<rparr>"

definition state_demo_out :: event where
  "state_demo_out = outgoing_state_event state_demo_stamp ''!r:a.org'' ''@a:a.org'' ''m.room.power_levels'' []
     (state_demo_levels 1000) [''$l''] 3 [''$l'']"

lemma state_demo_reads:
  "get_prev_events state_demo ''!r:a.org'' [state_demo_event] = Inr [''$l'']"
  "calculate_event_depth state_demo [''$l''] [state_demo_event] = Inr 3"
  "get_auth_events state_demo ''!r:a.org'' ''m.room.power_levels'' ''@a:a.org'' [] [state_demo_event] = Inr [''$l'']"
  "check_state_send_permission state_demo ''!r:a.org'' ''@a:a.org'' ''m.room.power_levels'' [state_demo_event] = Inr True"
  by (simp_all add: get_prev_events_def intended_prev_events_def calculate_event_depth_def get_auth_events_def check_state_send_permission_def
      get_user_membership_status_def event_repo_power_levels_def newest_depth_first_def newest_state_id_def
      newest_ts_first_def state_result_def state_demo_def extremities_def state_demo_event_def state_events_of_def
      new_event_def depth_key_def state_demo_levels_def state_required_level_def state_user_level_def in_i64_def
      i64_min_def i64_max_def i64_wrap_def)

lemma session_demo_key_pair: "key_pair (sw_crypto session_demo) k (letters (replicate 32 CHR ''p''))"
  using demo_key_pair [of k] by (simp add: key_pair_def session_demo_def)

lemma session_demo_hashes:
  "json_wf v \<Longrightarrow> within_limits 0 v \<Longrightarrow> \<exists>m. canonical_for_hash (sw_crypto session_demo) v = Inr m"
  using session_demo_prints [of v] by (auto simp: canonical_for_hash_def)

lemma state_demo_signs: "\<exists>e. sign_event (sw_crypto session_demo) state_demo_out ''ed25519:auto'' = (Inr (), e)"
proof -
  have "\<exists>m. canonical_for_hash (sw_crypto session_demo)
      (remove_keys [''unsigned'', ''signatures'', ''hashes''] (event_to_value state_demo_out)) = Inr m"
    by (rule session_demo_hashes) (simp_all add: state_demo_out_def outgoing_state_event_def state_demo_stamp_def
        state_demo_levels_def new_event_def event_to_value_def opt_member_def strings_json_def MAX_DEPTH_def MAX_MEMBERS_def)
  then obtain h where h: "calculate_content_hash (sw_crypto session_demo) state_demo_out = Inr h"
    by (auto simp: calculate_content_hash_def)
  have "\<exists>m. canonical_for_hash (sw_crypto session_demo)
      (redact_event_for_signing (state_demo_out\<lparr>ev_hashes := Some [(''sha256'', h)]\<rparr>)) = Inr m"
    by (rule session_demo_hashes) (simp_all add: state_demo_out_def outgoing_state_event_def state_demo_stamp_def
        state_demo_levels_def new_event_def redact_event_for_signing_def opt_member_def null_or_def strings_json_def
        string_map_json_def MAX_DEPTH_def MAX_MEMBERS_def)
  then obtain m where m: "canonical_for_hash (sw_crypto session_demo)
      (redact_event_for_signing (state_demo_out\<lparr>ev_hashes := Some [(''sha256'', h)]\<rparr>)) = Inr m" by blast
  obtain s where "session_sign_json (sw_crypto session_demo) m ''ed25519:auto'' = Inr s"
    using key_pair_signs [OF session_demo_key_pair] by metis
  then show ?thesis using h m sign_event_Inr_iff by blast
qed

lemma state_demo_put:
  "\<exists>es'. put_state state_demo app_clocks state_demo_stamp state_demo_header ''!r:a.org'' ''m.room.power_levels'' []
     (state_demo_levels 1000) [state_demo_event] = (Inr ''$u'', es')"
proof -
  obtain e where e: "sign_event (sw_crypto session_demo) state_demo_out ''ed25519:auto'' = (Inr (), e)"
    using state_demo_signs by blast
  obtain u where u: "from_request_parts app_demo app_clocks state_demo_header = Inr u" using app_user_extracted by blast
  have user: "au_user_id u = ''@a:a.org''"
    using user_token_decodes(1) [OF demo_jwt_laws app_token_created, of 10] u
    by (auto simp: from_request_parts_def readable_def app_demo_def app_clocks_def for_user_def result_simps strip_prefix_prefix
        del: strip_prefix.simps split: sum.splits matrix_auth_error.splits)
  have "validate_event_for_signing state_demo state_demo_out = Inr ()"
    by (simp add: validate_event_for_signing_def state_demo_out_def outgoing_state_event_def state_demo_stamp_def new_event_def
        state_demo_def app_demo_def suffix_def ensure_def)
  then have prepared: "prepared_state_event state_demo state_demo_stamp ''!r:a.org'' ''@a:a.org'' ''m.room.power_levels'' []
      (state_demo_levels 1000) [state_demo_event] = Inr e"
    using e state_demo_reads(1-3)
    unfolding prepared_state_event_Inr_iff state_demo_out_def [symmetric]
    by (auto simp: state_demo_out_def state_demo_def app_demo_def)
  have "ev_event_id e \<notin> ev_event_id ` set [state_demo_event]"
    using stored_event(1) [OF prepared] by (simp add: state_demo_stamp_def state_demo_event_def new_event_def)
  then have "put_state state_demo app_clocks state_demo_stamp state_demo_header ''!r:a.org'' ''m.room.power_levels'' []
     (state_demo_levels 1000) [state_demo_event] = (Inr ''$u'', [state_demo_event] @ [e])"
    unfolding put_state_ok_iff
    using u user prepared state_demo_reads(4)
    by (intro exI [of _ u] exI [of _ "new_room 0 0 ''!r:a.org'' ''6'' ''@a:a.org''"] exI [of _ e])
      (simp add: state_demo_def known_room_def history_result_def history_demo_room validate_state_event_content_def
        level_demo_def state_demo_stamp_def)
  then show ?thesis by blast
qed

lemma state_demo_intended: "sr_prev_rows state_demo r es = intended_prev_events r es"
  by (simp add: state_demo_def)

lemma state_demo_graph:
  "room_graph_ok ''!r:a.org'' [state_demo_event]" "depths_below_max ''!r:a.org'' [state_demo_event]"
  "length (extremities ''!r:a.org'' [state_demo_event]) \<le> 20" "unnamed (''$'' @ ss_uuid state_demo_stamp) [state_demo_event]"
  by (simp_all add: room_graph_ok_def depths_below_max_def unnamed_def extremities_def state_demo_event_def new_event_def
      depth_key_def in_i64_def i64_min_def i64_max_def)

theorem state_put_sound_witness:
  "\<exists>auth e. put_state state_demo app_clocks state_demo_stamp state_demo_header ''!r:a.org'' ''m.room.power_levels'' []
       (state_demo_levels 1000) [state_demo_event] = (Inr ''$u'', [state_demo_event, e]) \<and>
     ev_sender e = au_user_id auth \<and> ev_content e = Unknown (state_demo_levels 1000) \<and>
     from_request_parts app_demo app_clocks state_demo_header = Inr auth \<and>
     get_user_membership_status state_demo ''!r:a.org'' (au_user_id auth) = Inr (Some ''join'')"
proof -
  obtain es' where put: "put_state state_demo app_clocks state_demo_stamp state_demo_header ''!r:a.org'' ''m.room.power_levels'' []
     (state_demo_levels 1000) [state_demo_event] = (Inr ''$u'', es')" using state_demo_put by blast
  have "sr_app state_demo = app_demo" by (simp add: state_demo_def)
  with state_put_sound [OF put] obtain auth e where "es' = [state_demo_event] @ [e]" "ev_sender e = au_user_id auth"
    "ev_content e = Unknown (state_demo_levels 1000)" "from_request_parts app_demo app_clocks state_demo_header = Inr auth"
    "get_user_membership_status state_demo ''!r:a.org'' (au_user_id auth) = Inr (Some ''join'')" by metis
  with put show ?thesis by auto
qed

theorem state_put_then_get_witness:
  "\<exists>es' answer. get_state state_demo app_clocks state_demo_header ''!r:a.org'' ''m.room.power_levels'' [] es' = Inr answer \<and>
     get answer ''content'' = Some (state_demo_levels 1000)"
proof -
  obtain es' where "put_state state_demo app_clocks state_demo_stamp state_demo_header ''!r:a.org'' ''m.room.power_levels'' []
     (state_demo_levels 1000) [state_demo_event] = (Inr ''$u'', es')" using state_demo_put by blast
  from state_put_then_get [OF this state_demo_graph(1,2) state_demo_intended state_demo_graph(3,4)] show ?thesis by (auto simp: state_demo_def)
qed

theorem own_level_unchecked_witness:
  "\<exists>es' power_levels. event_repo_power_levels state_demo ''!r:a.org'' es' = Inr power_levels \<and>
     state_user_level power_levels ''@a:a.org'' = 1000"
proof -
  obtain es' where put: "put_state state_demo app_clocks state_demo_stamp state_demo_header ''!r:a.org'' ''m.room.power_levels'' []
     (state_demo_levels 1000) [state_demo_event] = (Inr ''$u'', es')" using state_demo_put by blast
  from own_level_unchecked [OF put state_demo_graph(1,2) state_demo_intended state_demo_graph(3,4), of "[(''@a:a.org'', int_json 1000)]" "''@a:a.org''" 1000] show ?thesis
    by (auto simp: state_demo_levels_def in_i64_def i64_min_def i64_max_def)
qed

definition shallow_demo :: "event list" where
  "shallow_demo = [state_demo_event, state_demo_event\<lparr>ev_event_id := ''$n'', ev_event_type := ''m.room.name'', ev_depth := Some 3\<rparr>]"

lemma shallow_demo_update:
  "\<exists>e es'. update_room_state_event level_demo ''u'' 9 ''!r:a.org'' ''m.room.name'' [] (JObject []) ''@a:a.org'' ''a.org'' shallow_demo =
     (Inr e, es')"
proof -
  have "can_user_perform_action level_demo ''!r:a.org'' ''@a:a.org'' (L_SendState ''m.room.name'') shallow_demo = Inr True"
    by code_simp
  then show ?thesis
    by (auto simp: update_room_state_event_def repo_state_content_def string_member_def ensure_def event_repo_create_def
        level_demo_def new_event_def shallow_demo_def state_demo_event_def)
qed

theorem shallow_event_hidden_witness:
  "\<exists>e es' y. update_room_state_event level_demo ''u'' 9 ''!r:a.org'' ''m.room.name'' [] (JObject []) ''@a:a.org'' ''a.org'' shallow_demo =
       (Inr e, es') \<and> y \<noteq> e \<and> get_current_state_event state_demo ''!r:a.org'' ''m.room.name'' [] es' = Inr (Some y)"
proof -
  obtain e es' where up: "update_room_state_event level_demo ''u'' 9 ''!r:a.org'' ''m.room.name'' [] (JObject []) ''@a:a.org''
      ''a.org'' shallow_demo = (Inr e, es')"
    using shallow_demo_update by blast
  from shallow_event_hidden [OF up, of "shallow_demo ! 1" state_demo] up show ?thesis
    by (auto simp: shallow_demo_def state_demo_event_def new_event_def state_events_of_def depth_key_def state_demo_def)
qed

end
