(* ===== verification/Moderation.thy ===== *)
theory Moderation
  imports Room_State "HOL-Library.AList"
begin

text \<open>
  Moderation in the client API: the endpoints \<open>kick.rs\<close>, \<open>ban.rs\<close> and \<open>unban.rs\<close> under
  \<open>server/src/_matrix/client/v3/rooms/by_room_id\<close>, the service
  \<open>surrealdb/src/repository/room_operations.rs\<close> and the operations of \<open>membership.rs\<close>, \<open>room.rs\<close> and
  \<open>event.rs\<close> they run, and the event utilities \<open>server/src/utils/matrix_events.rs\<close>. Memberships are
  in two tables, \<open>membership\<close> and \<open>room_membership\<close>, each a list of records under their identifiers.
  Clock readings and identifiers are arguments; so is how the database compares a record identifier
  with a text, and how the client library reads a count, with and without grouping.
\<close>

section \<open>State\<close>

datatype mod_call =
    MembershipRead | MembershipWrite | MembershipUpsert | MembershipCount | KickUpdate | ModRoom | ModLevels | MemberLevels
  | SigningKey | NextDepth | LatestEvents | UnbanAuthEvents | DirectCounts

record mod_db =
  md_membership :: "(string \<times> membership) list"
  md_room_membership :: "(string \<times> membership) list"
  md_events :: "event list"

record mod_world =
  mo_app :: app_state
  mo_pdu :: pdu_world
  mo_levels :: level_world
  mo_fail :: "mod_call \<Rightarrow> repository_error option"
  mo_rooms :: "string \<rightharpoonup> room"
  mo_count :: "nat \<Rightarrow> repository_error + int option"
  mo_id_equals :: "string \<Rightarrow> string \<Rightarrow> bool"
  mo_signing_key :: "string \<Rightarrow> (string \<times> string) option"
  mo_count_rows :: "nat \<Rightarrow> repository_error + int option"

definition mod_result :: "mod_world \<Rightarrow> mod_call \<Rightarrow> 'a \<Rightarrow> repository_error + 'a" where
  "mod_result w call x = (case mo_fail w call of Some e \<Rightarrow> Inl e | None \<Rightarrow> Inr x)"

section \<open>Memberships\<close>

definition room_user_id :: "string \<Rightarrow> string \<Rightarrow> string" where
  "room_user_id room_id user_id = room_id @ '':'' @ user_id"

definition user_room_id :: "string \<Rightarrow> string \<Rightarrow> string" where
  "user_room_id user_id room_id = user_id @ '':'' @ room_id"

definition get_membership :: "mod_world \<Rightarrow> string \<Rightarrow> string \<Rightarrow> mod_db \<Rightarrow> repository_error + membership option" where
  "get_membership w room_id user_id db =
     mod_result w MembershipRead (map_of (md_membership db) (room_user_id room_id user_id))"

definition user_in_room :: "mod_world \<Rightarrow> string \<Rightarrow> string \<Rightarrow> mod_db \<Rightarrow> repository_error + bool" where
  "user_in_room w room_id user_id db =
     bindR (get_membership w room_id user_id db) (\<lambda>m.
     Inr (case m of Some m \<Rightarrow> show_membership (m_membership m) = ''join'' | None \<Rightarrow> False))"

definition create_membership :: "mod_world \<Rightarrow> membership \<Rightarrow> mod_db \<Rightarrow> (repository_error + membership) \<times> mod_db" where
  "create_membership w m db =
     (let key = room_user_id (m_room_id m) (m_user_id m) in
      case mo_fail w MembershipWrite of
        Some e \<Rightarrow> (Inl e, db)
      | None \<Rightarrow>
          if map_of (md_room_membership db) key \<noteq> None then (Inl (Database ''Record exists''), db)
          else (Inr m, db\<lparr>md_room_membership := (key, m) # md_room_membership db\<rparr>))"

definition update_membership :: "mod_world \<Rightarrow> membership \<Rightarrow> mod_db \<Rightarrow> (repository_error + membership) \<times> mod_db" where
  "update_membership w m db =
     (let key = room_user_id (m_room_id m) (m_user_id m) in
      case mo_fail w MembershipWrite of
        Some e \<Rightarrow> (Inl e, db)
      | None \<Rightarrow>
          if map_of (md_room_membership db) key = None then (Inl (Database ''Failed to update membership''), db)
          else (Inr m, db\<lparr>md_room_membership := AList.update key m (md_room_membership db)\<rparr>))"

definition upsert_membership_record :: "mod_world \<Rightarrow> membership \<Rightarrow> mod_db \<Rightarrow> (repository_error + unit) \<times> mod_db" where
  "upsert_membership_record w m db =
     (case mo_fail w MembershipUpsert of
        Some e \<Rightarrow> (Inl e, db)
      | None \<Rightarrow> (Inr (), db\<lparr>md_membership := AList.update (user_room_id (m_user_id m) (m_room_id m)) m (md_membership db)\<rparr>))"

definition kick_member :: "mod_world \<Rightarrow> int \<Rightarrow> string \<Rightarrow> string \<Rightarrow> string option \<Rightarrow> mod_db \<Rightarrow> (repository_error + unit) \<times> mod_db" where
  "kick_member w now room_id user_id reason db =
     (case mo_fail w KickUpdate of
        Some e \<Rightarrow> (Inl (DatabaseError (repository_error_text e) ''kick_member''), db)
      | None \<Rightarrow> (Inr (), db\<lparr>md_membership := map (\<lambda>(key, m).
          (key, if mo_id_equals w key (user_room_id user_id room_id)
                then m\<lparr>m_membership := Leave, m_reason := reason, m_updated_at := Some now\<rparr> else m)) (md_membership db)\<rparr>))"

section \<open>Levels\<close>

text \<open>The row of the query, with the column \<open>content\<close>.\<close>

definition member_level_row :: "string \<Rightarrow> mod_db \<Rightarrow> json option" where
  "member_level_row room_id db =
     (case newest_depth_first (state_events_of room_id ''m.room.power_levels'' [] (md_events db)) of
        [] \<Rightarrow> None
      | e # _ \<Rightarrow> Some (JObject [(''content'', content_to_value (ev_content e))]))"

definition member_level :: "mod_world \<Rightarrow> string \<Rightarrow> string \<Rightarrow> mod_db \<Rightarrow> repository_error + int" where
  "member_level w room_id user_id db =
     bindR (mod_result w MemberLevels (member_level_row room_id db)) (\<lambda>row. Inr (level_of_row row user_id))"

datatype repo_membership_action = MA_Kick | MA_Ban | MA_Unban | MA_Invite | MA_Join | MA_Leave | MA_Forget

fun repo_action_level :: "repo_membership_action \<Rightarrow> int" where
  "repo_action_level MA_Kick = 50"
| "repo_action_level MA_Ban = 50"
| "repo_action_level MA_Unban = 50"
| "repo_action_level _ = 0"

definition unwrap_or_zero :: "repository_error + int \<Rightarrow> int" where
  "unwrap_or_zero r = (case r of Inr n \<Rightarrow> n | Inl _ \<Rightarrow> 0)"

definition can_perform_action ::
  "mod_world \<Rightarrow> string \<Rightarrow> string \<Rightarrow> repo_membership_action \<Rightarrow> string option \<Rightarrow> mod_db \<Rightarrow> repository_error + bool" where
  "can_perform_action w room_id user_id action target_user db =
     (let user_power_level = unwrap_or_zero (member_level w room_id user_id db) in
      if user_power_level < repo_action_level action then Inr False
      else (case target_user of
              Some target_id \<Rightarrow>
                if target_id \<noteq> user_id \<and> user_power_level \<le> unwrap_or_zero (member_level w room_id target_id db)
                then Inr False else Inr True
            | None \<Rightarrow> Inr True))"

datatype room_operation =
    RO_SendMessage | RO_SendState string | RO_InviteUser | RO_KickUser | RO_BanUser | RO_ChangeSettings | RO_ChangePowerLevels

fun room_required_level :: "power_levels \<Rightarrow> room_operation \<Rightarrow> int" where
  "room_required_level pl RO_SendMessage = unwrap_or (pl_events_default pl) (map_of (pl_events pl) ''m.room.message'')"
| "room_required_level pl (RO_SendState event_type) = unwrap_or (pl_state_default pl) (map_of (pl_events pl) event_type)"
| "room_required_level pl RO_InviteUser = pl_invite pl"
| "room_required_level pl RO_KickUser = pl_kick pl"
| "room_required_level pl RO_BanUser = pl_ban pl"
| "room_required_level pl RO_ChangeSettings = pl_state_default pl"
| "room_required_level pl RO_ChangePowerLevels = unwrap_or 100 (map_of (pl_events pl) ''m.room.power_levels'')"

definition room_check_membership :: "mod_world \<Rightarrow> string \<Rightarrow> string \<Rightarrow> mod_db \<Rightarrow> repository_error + bool" where
  "room_check_membership w room_id user_id db =
     bindR (mod_result w MembershipCount (length (filter (\<lambda>(_, m). m_room_id m = room_id \<and> m_user_id m = user_id \<and>
              (m_membership m = Join \<or> m_membership m = Invite)) (md_membership db)))) (\<lambda>n.
     bindR (mo_count w n) (\<lambda>count. Inr (unwrap_or 0 count > 0)))"

definition validate_room_operation_enhanced ::
  "mod_world \<Rightarrow> string \<Rightarrow> string \<Rightarrow> room_operation \<Rightarrow> mod_db \<Rightarrow> repository_error + bool" where
  "validate_room_operation_enhanced w room_id user_id operation db =
     bindR (room_check_membership w room_id user_id db) (\<lambda>member.
     if \<not> member then Inr False
     else bindR (repo_power_levels (\<lambda>r. mod_result w ModLevels (level_rows_of r (md_events db))) room_id) (\<lambda>power_levels.
          Inr (get_user_level power_levels user_id \<ge> room_required_level power_levels operation)))"

datatype membership_operation = MO_Invite | MO_Ban | MO_Kick | MO_Leave | MO_Join | MO_Knock

definition validate_membership_operation ::
  "mod_world \<Rightarrow> string \<Rightarrow> string \<Rightarrow> string \<Rightarrow> membership_operation \<Rightarrow> mod_db \<Rightarrow> repository_error + bool" where
  "validate_membership_operation w room_id actor_id target_id operation db =
     bindR (user_in_room w room_id actor_id db) (\<lambda>present.
     if \<not> present then Inr False
     else (case operation of
             MO_Invite \<Rightarrow> validate_room_operation_enhanced w room_id actor_id RO_InviteUser db
           | MO_Ban \<Rightarrow> validate_room_operation_enhanced w room_id actor_id RO_BanUser db
           | MO_Kick \<Rightarrow> validate_room_operation_enhanced w room_id actor_id RO_KickUser db
           | MO_Leave \<Rightarrow> Inr (actor_id = target_id)
           | MO_Join \<Rightarrow> Inr True
           | MO_Knock \<Rightarrow> Inr True))"

section \<open>Events\<close>

definition create_room_event ::
  "mod_world \<Rightarrow> string \<Rightarrow> int \<Rightarrow> string \<Rightarrow> string \<Rightarrow> string \<Rightarrow> json \<Rightarrow> string option \<Rightarrow> mod_db \<Rightarrow> (repository_error + event) \<times> mod_db" where
  "create_room_event w uuid now room_id event_type sender content state_key db =
     (case event_repo_create (mo_levels w)
             ((new_event (''$'' @ uuid) sender now event_type room_id (Unknown content))
              \<lparr>ev_state_key := state_key, ev_outlier := Some False, ev_received_ts := Some now, ev_soft_failed := Some False\<rparr>)
             (md_events db) of
        (r, es) \<Rightarrow> (r, db\<lparr>md_events := es\<rparr>))"

text \<open>The canonical JSON of the event utilities.\<close>

fun util_canonical_json :: "pdu_world \<Rightarrow> json \<Rightarrow> string + string" where
  "util_canonical_json w JNull = Inr ''null''"
| "util_canonical_json w (JBool b) = Inr (if b then ''true'' else ''false'')"
| "util_canonical_json w (JNumber n) = Inr (number_text w n)"
| "util_canonical_json w (JString s) = quote_string w s"
| "util_canonical_json w (JArray xs) =
     bindR (collectR (map (util_canonical_json w) xs)) (\<lambda>elements. Inr (''['' @ joined '','' elements @ '']''))"
| "util_canonical_json w (JObject ms) =
     bindR (collectR (map snd (sort_key fst (map (\<lambda>(k, v). (k,
       bindR (quote_string w k) (\<lambda>key_json.
       bindR (util_canonical_json w v) (\<lambda>value_json. Inr (key_json @ '':'' @ value_json))))) ms)))) (\<lambda>pairs.
     Inr (''{'' @ joined '','' pairs @ ''}''))"

definition nullable_json :: "('a \<Rightarrow> json) \<Rightarrow> 'a option \<Rightarrow> json" where
  "nullable_json f v = (case v of Some x \<Rightarrow> f x | None \<Rightarrow> JNull)"

definition util_event_members :: "event \<Rightarrow> members" where
  "util_event_members e =
     [(''auth_events'', nullable_json strings_json (ev_auth_events e)), (''content'', content_to_value (ev_content e)),
      (''depth'', nullable_json int_json (ev_depth e)), (''event_type'', JString (ev_event_type e)),
      (''prev_events'', nullable_json strings_json (ev_prev_events e)), (''room_id'', JString (ev_room_id e)),
      (''sender'', JString (ev_sender e)), (''state_key'', nullable_json JString (ev_state_key e)),
      (''origin_server_ts'', int_json (ev_origin_server_ts e))]"

definition calculate_content_hashes :: "mod_world \<Rightarrow> event \<Rightarrow> string + (string \<times> string) list" where
  "calculate_content_hashes w e =
     bindR (util_canonical_json (mo_pdu w) (JObject (util_event_members e))) (\<lambda>canonical_json.
     Inr [(''sha256'', b64_encode (pw_crypto (mo_pdu w)) (sha256 (pw_crypto (mo_pdu w)) canonical_json))])"

definition util_sign_event :: "mod_world \<Rightarrow> event \<Rightarrow> string + (string \<times> (string \<times> string) list) list" where
  "util_sign_event w e =
     (let c = pw_crypto (mo_pdu w); homeserver = as_homeserver_name (mo_app w) in
      bindR (map_err repository_error_text (mod_result w SigningKey (mo_signing_key w homeserver))) (\<lambda>found.
      bindR (ok_or found ''No active signing key found for server'') (\<lambda>(key_id, private_key).
      bindR (util_canonical_json (mo_pdu w)
        (JObject ((''hashes'', nullable_json string_map_json (ev_hashes e)) # util_event_members e))) (\<lambda>canonical_json.
      bindR (ok_or (b64_decode c private_key) ''base64'') (\<lambda>private_key_bytes.
      bindR (ensure (length private_key_bytes = 32) ''Invalid private key length for Ed25519'') (\<lambda>_.
      Inr [(homeserver, [(key_id, b64_encode c (ed_sign c private_key_bytes canonical_json))])]))))))"

section \<open>Banning\<close>

definition ban_record :: "int \<Rightarrow> string \<Rightarrow> string \<Rightarrow> string option \<Rightarrow> membership option \<Rightarrow> membership" where
  "ban_record now room_id user_id reason existing =
     (new_membership room_id user_id Ban)\<lparr>m_reason := reason, m_updated_at := Some now,
       m_display_name := Option.bind existing m_display_name, m_avatar_url := Option.bind existing m_avatar_url\<rparr>"

definition store_ban :: "mod_world \<Rightarrow> membership option \<Rightarrow> membership \<Rightarrow> mod_db \<Rightarrow> (repository_error + membership) \<times> mod_db" where
  "store_ban w existing m db = (if existing \<noteq> None then update_membership w m db else create_membership w m db)"

definition ban_user_from_room ::
  "mod_world \<Rightarrow> int \<Rightarrow> string \<Rightarrow> string \<Rightarrow> string \<Rightarrow> string option \<Rightarrow> mod_db \<Rightarrow> (repository_error + unit) \<times> mod_db" where
  "ban_user_from_room w now room_id user_id banner_id reason db =
     (case bindR (user_in_room w room_id banner_id db) (\<lambda>present.
           bindR (ensure present (Unauthorized (''User '' @ banner_id @ '' not authorized to ban users from room '' @ room_id))) (\<lambda>_.
           bindR (get_membership w room_id user_id db) (\<lambda>existing.
           bindR (ensure (\<not> (case existing of Some m \<Rightarrow> m_membership m = Ban | None \<Rightarrow> False))
             (Conflict ''User is already banned from the room'')) (\<lambda>_. Inr existing)))) of
        Inl e \<Rightarrow> (Inl e, db)
      | Inr existing \<Rightarrow>
          (case store_ban w existing (ban_record now room_id user_id reason existing) db of
             (Inl e, db') \<Rightarrow> (Inl e, db')
           | (Inr _, db') \<Rightarrow> (Inr (), db')))"

definition ban_content :: "string option \<Rightarrow> json" where
  "ban_content reason = JObject [(''membership'', JString ''ban''), (''reason'', nullable_json JString reason)]"

definition ban_user ::
  "mod_world \<Rightarrow> string \<Rightarrow> int \<Rightarrow> string \<Rightarrow> string \<Rightarrow> string \<Rightarrow> string option \<Rightarrow> mod_db \<Rightarrow> (repository_error + unit) \<times> mod_db" where
  "ban_user w uuid now room_id user_id banner_id reason db =
     (case bindR (validate_membership_operation w room_id banner_id user_id MO_Ban db) (\<lambda>permitted.
           ensure permitted (Unauthorized (''User '' @ banner_id @ '' cannot ban users from room '' @ room_id))) of
        Inl e \<Rightarrow> (Inl e, db)
      | Inr _ \<Rightarrow>
          (case ban_user_from_room w now room_id user_id banner_id reason db of
             (Inl e, db') \<Rightarrow> (Inl e, db')
           | (Inr _, db') \<Rightarrow>
               (case create_room_event w uuid now room_id ''m.room.member'' banner_id (ban_content reason) (Some user_id) db' of
                  (Inl e, db'') \<Rightarrow> (Inl e, db'')
                | (Inr _, db'') \<Rightarrow> (Inr (), db''))))"

section \<open>The endpoints\<close>

definition acting_user :: "app_state \<Rightarrow> request_clocks \<Rightarrow> string option option \<Rightarrow> nat + string" where
  "acting_user st ck authorization =
     bindR (map_err (\<lambda>_. 401) (extract_matrix_auth st ck authorization)) (\<lambda>auth.
     case auth of
       User token_info \<Rightarrow> bindR (ensure (\<not> auth_is_expired (rc_expired ck) auth) 401) (\<lambda>_. Inr (at_user_id token_info))
     | Server _ \<Rightarrow> Inl 403
     | Anonymous \<Rightarrow> Inl 401)"

text \<open>The checks of the identifiers, the same in the three endpoints; the result is the acting user.\<close>

definition moderation_request ::
  "mod_world \<Rightarrow> request_clocks \<Rightarrow> string option option \<Rightarrow> string \<Rightarrow> string \<Rightarrow> nat + string" where
  "moderation_request w ck authorization room_id target =
     bindR (acting_user (mo_app w) ck authorization) (\<lambda>actor.
     bindR (ensure (starts_with room_id CHR ''!'') 400) (\<lambda>_.
     bindR (ensure (\<not> (\<not> starts_with target CHR ''@'' \<or> \<not> contains target CHR '':'')) 400) (\<lambda>_.
     bindR (ensure (actor \<noteq> target) 400) (\<lambda>_. Inr actor))))"

definition mod_room :: "mod_world \<Rightarrow> string \<Rightarrow> nat + room" where
  "mod_room w room_id =
     bindR (map_err (\<lambda>_. 500) (mod_result w ModRoom (mo_rooms w room_id))) (\<lambda>room. ok_or room 404)"

definition joined_actor :: "mod_world \<Rightarrow> string \<Rightarrow> string \<Rightarrow> mod_db \<Rightarrow> nat + unit" where
  "joined_actor w room_id actor db =
     bindR (map_err (\<lambda>_. 403) (get_membership w room_id actor db)) (\<lambda>found.
     bindR (ok_or found 403) (\<lambda>m. ensure (m_membership m = Join) 403))"

text \<open>A target that has left already is answered with success at once: the result is False.\<close>

definition kick_checks ::
  "mod_world \<Rightarrow> request_clocks \<Rightarrow> string option option \<Rightarrow> string \<Rightarrow> string \<Rightarrow> mod_db \<Rightarrow> nat + bool" where
  "kick_checks w ck authorization room_id target db =
     bindR (moderation_request w ck authorization room_id target) (\<lambda>kicker.
     bindR (mod_room w room_id) (\<lambda>_.
     bindR (joined_actor w room_id kicker db) (\<lambda>_.
     bindR (map_err (\<lambda>_. 403) (get_membership w room_id target db)) (\<lambda>found.
     bindR (ok_or found 403) (\<lambda>m.
     case m_membership m of
       Join \<Rightarrow>
         bindR (map_err (\<lambda>_. 500) (can_perform_action w room_id kicker MA_Kick (Some target) db)) (\<lambda>can_kick.
         bindR (ensure can_kick 403) (\<lambda>_. Inr True))
     | Leave \<Rightarrow> Inr False
     | _ \<Rightarrow> Inl 403)))))"

definition kick ::
  "mod_world \<Rightarrow> request_clocks \<Rightarrow> int \<Rightarrow> string option option \<Rightarrow> string \<Rightarrow> string \<Rightarrow> string option \<Rightarrow> mod_db \<Rightarrow> (nat + unit) \<times> mod_db" where
  "kick w ck now authorization room_id target reason db =
     (case kick_checks w ck authorization room_id target db of
        Inl e \<Rightarrow> (Inl e, db)
      | Inr False \<Rightarrow> (Inr (), db)
      | Inr True \<Rightarrow> (case kick_member w now room_id target reason db of (r, db') \<Rightarrow> (map_err (\<lambda>_. 500) r, db')))"

fun ban_status :: "repository_error \<Rightarrow> nat" where
  "ban_status (NotFound _ _) = 404"
| "ban_status (Unauthorized _) = 403"
| "ban_status (Validation _ _) = 400"
| "ban_status _ = 500"

definition ban ::
  "mod_world \<Rightarrow> request_clocks \<Rightarrow> string \<Rightarrow> int \<Rightarrow> string option option \<Rightarrow> string \<Rightarrow> string \<Rightarrow> string option \<Rightarrow> mod_db \<Rightarrow>
   (nat + unit) \<times> mod_db" where
  "ban w ck uuid now authorization room_id target reason db =
     (case moderation_request w ck authorization room_id target of
        Inl e \<Rightarrow> (Inl e, db)
      | Inr banner \<Rightarrow>
          (case ban_user w uuid now room_id target banner reason db of (r, db') \<Rightarrow> (map_err ban_status r, db')))"

text \<open>Only the levels listed in the room count, and a user without one has level 0.\<close>

definition listed_level :: "members \<Rightarrow> string \<Rightarrow> int" where
  "listed_level levels user_id =
     (case Option.bind (map_of levels ''users'') as_object of
        Some users \<Rightarrow> unwrap_or 0 (Option.bind (map_of users user_id) as_i64)
      | None \<Rightarrow> 0)"

definition can_user_unban :: "room \<Rightarrow> string \<Rightarrow> string \<Rightarrow> nat + bool" where
  "can_user_unban room unbanner_id target_id =
     bindR (ok_or (r_power_levels room) 500) (\<lambda>levels.
     Inr (listed_level levels unbanner_id \<ge> unwrap_or 50 (Option.bind (map_of levels ''ban'') as_i64) \<and>
          listed_level levels unbanner_id > listed_level levels target_id))"

definition next_event_depth :: "mod_world \<Rightarrow> string \<Rightarrow> mod_db \<Rightarrow> repository_error + int" where
  "next_event_depth w room_id db =
     mod_result w NextDepth (i64_wrap (unwrap_or 0
       (case List.map_filter ev_depth (filter (\<lambda>e. ev_room_id e = room_id) (md_events db)) of
          [] \<Rightarrow> None | ds \<Rightarrow> Some (Max (set ds))) + 1))"

definition latest_event_ids :: "mod_world \<Rightarrow> string \<Rightarrow> nat \<Rightarrow> mod_db \<Rightarrow> repository_error + string list" where
  "latest_event_ids w room_id limit db =
     mod_result w LatestEvents (map ev_event_id (take limit
       (sort_key (\<lambda>e. - depth_key e) (filter (\<lambda>e. ev_room_id e = room_id) (md_events db)))))"

definition auth_events_for_unban :: "mod_world \<Rightarrow> string \<Rightarrow> string \<Rightarrow> mod_db \<Rightarrow> repository_error + string list" where
  "auth_events_for_unban w room_id unbanner_id db =
     mod_result w UnbanAuthEvents (map ev_event_id (sort_key ev_origin_server_ts (filter (\<lambda>e. ev_room_id e = room_id \<and>
       (ev_event_type e = ''m.room.create'' \<and> ev_state_key e = Some [] \<or>
        ev_event_type e = ''m.room.power_levels'' \<and> ev_state_key e = Some [] \<or>
        ev_event_type e = ''m.room.member'' \<and> ev_state_key e = Some unbanner_id)) (md_events db))))"

definition member_content :: "membership_state \<Rightarrow> string option \<Rightarrow> json" where
  "member_content m reason =
     JObject ((''membership'', JString (show_membership m)) # opt_member ''reason'' JString reason)"

definition is_direct_message_room :: "mod_world \<Rightarrow> string \<Rightarrow> mod_db \<Rightarrow> repository_error + bool" where
  "is_direct_message_room w room_id db =
     bindR (mod_result w DirectCounts (length (filter (\<lambda>(_, m). m_room_id m = room_id \<and> m_membership m = Join) (md_membership db)))) (\<lambda>n.
     bindR (mo_count_rows w n) (\<lambda>members.
     bindR (mo_count_rows w (length (filter (\<lambda>e. ev_room_id e = room_id \<and>
        (ev_event_type e = ''m.room.name'' \<or> ev_event_type e = ''m.room.topic'') \<and> ev_state_key e = Some []) (md_events db)))) (\<lambda>named.
     Inr (unwrap_or 0 members = 2 \<and> \<not> unwrap_or False (map_option (\<lambda>c. c > 0) named)))))"

definition member_record ::
  "mod_world \<Rightarrow> int \<Rightarrow> string \<Rightarrow> string \<Rightarrow> membership_state \<Rightarrow> string option \<Rightarrow> mod_db \<Rightarrow> membership" where
  "member_record w now room_id target m reason db =
     (let existing = (case get_membership w room_id target db of Inr x \<Rightarrow> x | Inl _ \<Rightarrow> None);
          is_direct = (case is_direct_message_room w room_id db of Inr b \<Rightarrow> b | Inl _ \<Rightarrow> False) in
      (new_membership room_id target m)\<lparr>m_reason := reason, m_updated_at := Some now,
        m_display_name := Option.bind existing m_display_name, m_avatar_url := Option.bind existing m_avatar_url,
        m_is_direct := Some is_direct\<rparr>)"

text \<open>
  The event is hashed and signed, and then another one is stored: \<open>create_room_event\<close> makes its own
  event from the content.
\<close>

definition create_membership_event ::
  "mod_world \<Rightarrow> string \<Rightarrow> string \<Rightarrow> int \<Rightarrow> string \<Rightarrow> string \<Rightarrow> string \<Rightarrow> membership_state \<Rightarrow> string option \<Rightarrow> int \<Rightarrow>
   string list \<Rightarrow> string list \<Rightarrow> mod_db \<Rightarrow> (string + string) \<times> mod_db" where
  "create_membership_event w uuid uuid' now room_id sender target m reason depth prev_events auth_events db =
     (let event_id = ''$'' @ uuid @ '':'' @ as_homeserver_name (mo_app w);
          event = (new_event event_id sender now ''m.room.member'' room_id (Unknown (member_content m reason)))
            \<lparr>ev_state_key := Some target, ev_prev_events := Some prev_events, ev_auth_events := Some auth_events,
             ev_depth := Some depth, ev_hashes := Some [], ev_signatures := Some [], ev_outlier := Some False,
             ev_soft_failed := Some False, ev_received_ts := Some now\<rparr> in
      case bindR (calculate_content_hashes w event) (\<lambda>hashes.
           util_sign_event w (event\<lparr>ev_hashes := Some hashes\<rparr>)) of
        Inl e \<Rightarrow> (Inl e, db)
      | Inr signatures \<Rightarrow>
          (case create_room_event w uuid' now room_id ''m.room.member'' sender (member_content m reason) (Some target) db of
             (Inl e, db') \<Rightarrow> (Inl (repository_error_text e), db')
           | (Inr _, db') \<Rightarrow>
               (case upsert_membership_record w (member_record w now room_id target m reason db') db' of
                  (Inl e, db'') \<Rightarrow> (Inl (repository_error_text e), db'')
                | (Inr _, db'') \<Rightarrow> (Inr event_id, db''))))"

text \<open>As for a kick, a target that has left is answered with success: the result is None.\<close>

definition unban_checks ::
  "mod_world \<Rightarrow> request_clocks \<Rightarrow> string option option \<Rightarrow> string \<Rightarrow> string \<Rightarrow> mod_db \<Rightarrow>
   nat + (string \<times> int \<times> string list \<times> string list) option" where
  "unban_checks w ck authorization room_id target db =
     bindR (moderation_request w ck authorization room_id target) (\<lambda>unbanner.
     bindR (mod_room w room_id) (\<lambda>room.
     bindR (joined_actor w room_id unbanner db) (\<lambda>_.
     bindR (map_err (\<lambda>_. 400) (get_membership w room_id target db)) (\<lambda>found.
     bindR (ok_or found 400) (\<lambda>m.
     case m_membership m of
       Ban \<Rightarrow>
         bindR (can_user_unban room unbanner target) (\<lambda>can_unban.
         bindR (ensure can_unban 403) (\<lambda>_.
         bindR (map_err (\<lambda>_. 500) (next_event_depth w room_id db)) (\<lambda>depth.
         bindR (map_err (\<lambda>_. 500) (latest_event_ids w room_id 3 db)) (\<lambda>prev_events.
         bindR (map_err (\<lambda>_. 500) (auth_events_for_unban w room_id unbanner db)) (\<lambda>auth_events.
         Inr (Some (unbanner, depth, prev_events, auth_events)))))))
     | Leave \<Rightarrow> Inr None
     | _ \<Rightarrow> Inl 400)))))"

definition unban ::
  "mod_world \<Rightarrow> request_clocks \<Rightarrow> string \<Rightarrow> string \<Rightarrow> int \<Rightarrow> string option option \<Rightarrow> string \<Rightarrow> string \<Rightarrow> string option \<Rightarrow> mod_db \<Rightarrow>
   (nat + unit) \<times> mod_db" where
  "unban w ck uuid uuid' now authorization room_id target reason db =
     (case unban_checks w ck authorization room_id target db of
        Inl e \<Rightarrow> (Inl e, db)
      | Inr None \<Rightarrow> (Inr (), db)
      | Inr (Some (unbanner, depth, prev_events, auth_events)) \<Rightarrow>
          (case create_membership_event w uuid uuid' now room_id unbanner target Leave reason depth prev_events auth_events db of
             (Inl _, db') \<Rightarrow> (Inl 500, db')
           | (Inr _, db') \<Rightarrow> (Inr (), db')))"

section \<open>What the requests change\<close>

lemma mod_result_Inr_iff [result_simps]: "mod_result w call x = Inr y \<longleftrightarrow> mo_fail w call = None \<and> y = x"
  by (auto simp: mod_result_def split: option.splits)

text \<open>The row has the levels under \<open>content\<close>, where they are not looked for.\<close>

lemma member_level_zero: "level_of_row (member_level_row room_id db) user_id = 0"
  by (auto simp: member_level_row_def level_of_row_def get_def split: list.split)

lemma member_level_none: "unwrap_or_zero (member_level w room_id user_id db) = 0"
  by (auto simp: member_level_def member_level_zero unwrap_or_zero_def mod_result_def split: option.split)

lemma kick_never_permitted: "can_perform_action w room_id user_id MA_Kick target db = Inr False"
  by (simp add: can_perform_action_def member_level_none Let_def)

lemma moderation_request_iff:
  "moderation_request w ck authorization room_id target = Inr actor \<longleftrightarrow>
     acting_user (mo_app w) ck authorization = Inr actor \<and> starts_with room_id CHR ''!'' \<and>
     starts_with target CHR ''@'' \<and> contains target CHR '':'' \<and> actor \<noteq> target"
  by (auto simp: moderation_request_def result_simps)

text \<open>The two identifiers of a membership are different records.\<close>

lemma membership_keys_differ:
  assumes "starts_with room_id CHR ''!''" and "starts_with user_id CHR ''@''"
  shows "room_user_id room_id user_id \<noteq> user_room_id u room_id' \<or> \<not> starts_with u CHR ''@''"
  using assms by (cases room_id; cases u) (auto simp: room_user_id_def user_room_id_def starts_with_Cons starts_with_Nil)

lemma upsert_keeps_membership:
  assumes "starts_with room_id CHR ''!''" and "starts_with (m_user_id m) CHR ''@''"
  shows "get_membership w room_id user_id (snd (upsert_membership_record w m db)) = get_membership w room_id user_id db"
proof -
  have "room_user_id room_id user_id \<noteq> user_room_id (m_user_id m) (m_room_id m)"
    using assms by (cases room_id; cases "m_user_id m")
      (auto simp: room_user_id_def user_room_id_def starts_with_Cons starts_with_Nil)
  then show ?thesis
    by (simp add: upsert_membership_record_def get_membership_def update_conv' split: option.split)
qed

lemma create_room_event_memberships:
  "create_room_event w uuid now room_id event_type sender content state_key db = (x, db') \<Longrightarrow>
     md_membership db' = md_membership db \<and> md_room_membership db' = md_room_membership db"
  by (auto simp: create_room_event_def split: prod.splits)

lemma ban_user_from_room_ok:
  assumes "ban_user_from_room w now room_id user_id banner_id reason db = (Inr (), db')"
  shows "md_membership db' = md_membership db" "md_events db' = md_events db"
    "\<exists>m. map_of (md_room_membership db') (room_user_id room_id user_id) = Some m \<and> m_membership m = Ban \<and>
       m_room_id m = room_id \<and> m_user_id m = user_id \<and> m_reason m = reason"
proof -
  obtain existing x where step: "store_ban w existing (ban_record now room_id user_id reason existing) db = (Inr x, db')"
    using assms unfolding ban_user_from_room_def by (auto split: sum.splits prod.splits)
  let ?m = "ban_record now room_id user_id reason existing"
  have m: "m_membership ?m = Ban" "m_room_id ?m = room_id" "m_user_id ?m = user_id" "m_reason ?m = reason"
    by (simp_all add: ban_record_def new_membership_def)
  show "md_membership db' = md_membership db" "md_events db' = md_events db"
    using step by (auto simp: store_ban_def update_membership_def create_membership_def Let_def split: option.splits if_splits)
  have "map_of (md_room_membership db') (room_user_id room_id user_id) = Some ?m"
    using step m by (auto simp: store_ban_def update_membership_def create_membership_def Let_def update_conv'
        split: option.splits if_splits)
  with m show "\<exists>m. map_of (md_room_membership db') (room_user_id room_id user_id) = Some m \<and> m_membership m = Ban \<and>
       m_room_id m = room_id \<and> m_user_id m = user_id \<and> m_reason m = reason" by blast
qed

lemma ban_ok:
  assumes "ban w ck uuid now authorization room_id target reason db = (Inr (), db')"
  obtains banner db1 e where "moderation_request w ck authorization room_id target = Inr banner"
    "validate_membership_operation w room_id banner target MO_Ban db = Inr True"
    "ban_user_from_room w now room_id target banner reason db = (Inr (), db1)"
    "create_room_event w uuid now room_id ''m.room.member'' banner (ban_content reason) (Some target) db1 = (Inr e, db')"
proof -
  obtain banner where banner: "moderation_request w ck authorization room_id target = Inr banner"
    and ok: "ban_user w uuid now room_id target banner reason db = (Inr (), db')"
    using assms by (auto simp: ban_def result_simps split: sum.splits prod.splits)
  from ok have "validate_membership_operation w room_id banner target MO_Ban db = Inr True"
    by (auto simp: ban_user_def result_simps split: sum.splits)
  moreover from this ok obtain db1 where db1: "ban_user_from_room w now room_id target banner reason db = (Inr (), db1)"
    "(case create_room_event w uuid now room_id ''m.room.member'' banner (ban_content reason) (Some target) db1 of
        (Inl e, db'') \<Rightarrow> (Inl e, db'') | (Inr _, db'') \<Rightarrow> (Inr (), db'')) = (Inr (), db')"
    by (cases "ban_user_from_room w now room_id target banner reason db"; cases "fst (ban_user_from_room w now room_id target banner reason db)")
      (auto simp: ban_user_def ensure_def)
  moreover from db1(2) obtain e where
    "create_room_event w uuid now room_id ''m.room.member'' banner (ban_content reason) (Some target) db1 = (Inr e, db')"
    by (auto split: sum.splits prod.splits)
  ultimately show thesis using banner that by blast
qed

lemma ban_permission_iff:
  "validate_membership_operation w room_id actor target MO_Ban db = Inr True \<longleftrightarrow>
     user_in_room w room_id actor db = Inr True \<and> room_check_membership w room_id actor db = Inr True \<and>
     (\<exists>pl. repo_power_levels (\<lambda>r. mod_result w ModLevels (level_rows_of r (md_events db))) room_id = Inr pl \<and>
        pl_ban pl \<le> get_user_level pl actor)"
  by (auto simp: validate_membership_operation_def validate_room_operation_enhanced_def result_simps)

lemma ban_succeeds:
  assumes "moderation_request w ck authorization room_id target = Inr banner"
    and "user_in_room w room_id banner db = Inr True" and "room_check_membership w room_id banner db = Inr True"
    and "repo_power_levels (\<lambda>r. mod_result w ModLevels (level_rows_of r (md_events db))) room_id = Inr pl"
    and "pl_ban pl \<le> get_user_level pl banner"
    and "get_membership w room_id target db = Inr None" and "map_of (md_room_membership db) (room_user_id room_id target) = None"
    and "mo_fail w MembershipWrite = None" and "lw_fail (mo_levels w) EventCreate = None"
    and "''$'' @ uuid \<notin> ev_event_id ` set (md_events db)"
  shows "\<exists>db'. ban w ck uuid now authorization room_id target reason db = (Inr (), db')"
proof -
  have permitted: "validate_membership_operation w room_id banner target MO_Ban db = Inr True"
    using assms(2-5) by (auto simp: ban_permission_iff)
  have "\<exists>db1. ban_user_from_room w now room_id target banner reason db = (Inr (), db1) \<and> md_events db1 = md_events db"
    using assms(2,6-8)
    by (simp add: ban_user_from_room_def store_ban_def ban_record_def create_membership_def new_membership_def ensure_def Let_def)
  then obtain db1 where db1: "ban_user_from_room w now room_id target banner reason db = (Inr (), db1)" "md_events db1 = md_events db"
    by blast
  have "\<exists>e db2. create_room_event w uuid now room_id ''m.room.member'' banner (ban_content reason) (Some target) db1 = (Inr e, db2)"
    using assms(9,10) db1(2) by (simp add: create_room_event_def event_repo_create_def new_event_def)
  then show ?thesis using assms(1) permitted db1(1) by (auto simp: ban_def ban_user_def ensure_def)
qed

lemma util_canonical_json_total:
  assumes "\<And>s. \<exists>t. quote_string w s = Inr t"
  shows "\<exists>m. util_canonical_json w v = Inr m"
proof (induction v rule: canon.induct)
  case (1 xs)
  then obtain f where "\<And>x. x \<in> set xs \<Longrightarrow> util_canonical_json w x = Inr (f x)" by metis
  then have "collectR (map (util_canonical_json w) xs) = Inr (map f xs)" by (rule collectR_map_Inr)
  then show ?case by simp
next
  case (2 ms)
  let ?pair = "\<lambda>k v. bindR (quote_string w k) (\<lambda>key_json.
       bindR (util_canonical_json w v) (\<lambda>value_json. Inr (key_json @ '':'' @ value_json)))"
  have "\<exists>t. ?pair k v = Inr t" if mem: "(k, v) \<in> set (sort_key fst ms)" for k v
  proof -
    obtain t where "quote_string w k = Inr t" using assms by blast
    moreover obtain m where "util_canonical_json w v = Inr m" using 2 [of "(k, v)" k v] mem by auto
    ultimately show ?thesis by simp
  qed
  then obtain f where f: "\<And>x. x \<in> set (sort_key fst ms) \<Longrightarrow> (case x of (k, v) \<Rightarrow> ?pair k v) = Inr (f x)"
    by atomize_elim (rule choice, fastforce)
  then have "collectR (map (\<lambda>(k, v). ?pair k v) (sort_key fst ms)) = Inr (map f (sort_key fst ms))"
    by (rule collectR_map_Inr)
  moreover have "map snd (sort_key fst (map (\<lambda>(k, v). (k, ?pair k v)) ms)) = map (\<lambda>(k, v). ?pair k v) (sort_key fst ms)"
    unfolding sort_key_map_snd [of ?pair] by (simp add: case_prod_beta)
  ultimately show ?case unfolding util_canonical_json.simps by (simp only: bindR.simps) simp
qed (use assms in \<open>simp_all\<close>)

lemma create_membership_event_ok:
  assumes "create_membership_event w uuid uuid' now room_id sender target m reason depth prev_events auth_events db = (Inr x, db')"
  shows "\<exists>e db1. create_room_event w uuid' now room_id ''m.room.member'' sender (member_content m reason) (Some target) db = (Inr e, db1) \<and>
     db' = snd (upsert_membership_record w (member_record w now room_id target m reason db1) db1)"
proof -
  obtain r db1 where r: "create_room_event w uuid' now room_id ''m.room.member'' sender (member_content m reason) (Some target) db = (r, db1)"
    by fastforce
  obtain u db2 where u: "upsert_membership_record w (member_record w now room_id target m reason db1) db1 = (u, db2)" by fastforce
  show ?thesis using assms r u
    by (cases r; cases u) (auto simp: create_membership_event_def Let_def split: sum.splits)
qed

section \<open>Claims\<close>

text \<open>
  No member can be kicked: a kick only succeeds for a target that has left already, and changes
  nothing, because the level of every user is read as 0.
\<close>

theorem kick_never_removes:
  assumes "kick w ck now authorization room_id target reason db = (Inr (), db')"
  shows "db' = db \<and> (\<exists>m. get_membership w room_id target db = Inr (Some m) \<and> m_membership m = Leave)"
proof -
  have "kick_checks w ck authorization room_id target db \<noteq> Inr True"
    by (auto simp: kick_checks_def result_simps kick_never_permitted split: membership_state.splits)
  then have "kick_checks w ck authorization room_id target db = Inr False" "db' = db"
    using assms by (auto simp: kick_def split: sum.splits bool.splits)
  obtain kicker m where found: "get_membership w room_id target db = Inr (Some m)"
    and m: "(case m_membership m of
       Join \<Rightarrow>
         bindR (map_err (\<lambda>_. 500) (can_perform_action w room_id kicker MA_Kick (Some target) db)) (\<lambda>can_kick.
         bindR (ensure can_kick 403) (\<lambda>_. Inr True))
     | Leave \<Rightarrow> Inr False
     | _ \<Rightarrow> Inl (403 :: nat)) = Inr False"
    using \<open>kick_checks w ck authorization room_id target db = Inr False\<close>
    unfolding kick_checks_def bindR_Inr_iff map_err_Inr_iff ok_or_Inr_iff by auto
  from m have "m_membership m = Leave" by (cases "m_membership m") (auto simp: result_simps)
  with found \<open>db' = db\<close> show ?thesis by blast
qed

text \<open>
  C24. A ban is only carried out for a user with a valid token who is joined to the room and reaches the
  level for bans; it leaves a ban record for the target and adds exactly one membership event, sent
  by that user.
\<close>

theorem ban_sound:
  assumes "ban w ck uuid now authorization room_id target reason db = (Inr (), db')"
  shows "\<exists>banner pl m e. acting_user (mo_app w) ck authorization = Inr banner \<and> banner \<noteq> target \<and>
     user_in_room w room_id banner db = Inr True \<and>
     repo_power_levels (\<lambda>r. mod_result w ModLevels (level_rows_of r (md_events db))) room_id = Inr pl \<and>
     pl_ban pl \<le> get_user_level pl banner \<and>
     map_of (md_room_membership db') (room_user_id room_id target) = Some m \<and> m_membership m = Ban \<and> m_reason m = reason \<and>
     md_events db' = md_events db @ [e] \<and> ev_event_type e = ''m.room.member'' \<and> ev_sender e = banner \<and>
     ev_state_key e = Some target \<and> ev_content e = Unknown (ban_content reason)"
proof -
  obtain banner db1 e where banner: "moderation_request w ck authorization room_id target = Inr banner"
    and permitted: "validate_membership_operation w room_id banner target MO_Ban db = Inr True"
    and row: "ban_user_from_room w now room_id target banner reason db = (Inr (), db1)"
    and event: "create_room_event w uuid now room_id ''m.room.member'' banner (ban_content reason) (Some target) db1 = (Inr e, db')"
    using ban_ok [OF assms] by metis
  have "md_events db' = md_events db1 @ [e]" "ev_event_type e = ''m.room.member''" "ev_sender e = banner"
    "ev_state_key e = Some target" "ev_content e = Unknown (ban_content reason)"
    using event by (auto simp: create_room_event_def new_event_def event_repo_create_Inr_iff split: prod.splits)
  moreover obtain pl where "repo_power_levels (\<lambda>r. mod_result w ModLevels (level_rows_of r (md_events db))) room_id = Inr pl"
    "pl_ban pl \<le> get_user_level pl banner"
    using permitted by (auto simp: ban_permission_iff)
  moreover obtain m where "map_of (md_room_membership db') (room_user_id room_id target) = Some m" "m_membership m = Ban"
    "m_reason m = reason"
    using ban_user_from_room_ok(3) [OF row] create_room_event_memberships [OF event] by auto
  ultimately show ?thesis
    using banner permitted ban_user_from_room_ok(2) [OF row]
    by (intro exI [of _ banner] exI [of _ pl] exI [of _ m] exI [of _ e])
      (auto simp: moderation_request_iff ban_permission_iff)
qed

text \<open>
  The ban is written to one table and memberships are read from the other: after a successful ban
  every lookup of a membership answers as before, so the target stays in the room.
\<close>

theorem ban_not_seen:
  assumes "ban w ck uuid now authorization room_id target reason db = (Inr (), db')"
  shows "get_membership w r u db' = get_membership w r u db \<and> user_in_room w r u db' = user_in_room w r u db \<and>
     room_check_membership w r u db' = room_check_membership w r u db"
proof -
  obtain banner db1 e where row: "ban_user_from_room w now room_id target banner reason db = (Inr (), db1)"
    and event: "create_room_event w uuid now room_id ''m.room.member'' banner (ban_content reason) (Some target) db1 = (Inr e, db')"
    using ban_ok [OF assms] by metis
  have "md_membership db' = md_membership db"
    using ban_user_from_room_ok(1) [OF row] create_room_event_memberships [OF event] by simp
  then show ?thesis by (simp add: get_membership_def user_in_room_def room_check_membership_def)
qed

text \<open>
  The level of the target is not looked at: a joined user at the level for bans can ban a user whose
  level is higher, as long as the target has no membership record.
\<close>

theorem ban_of_superior:
  assumes "moderation_request w ck authorization room_id target = Inr banner"
    and "user_in_room w room_id banner db = Inr True" and "room_check_membership w room_id banner db = Inr True"
    and "repo_power_levels (\<lambda>r. mod_result w ModLevels (level_rows_of r (md_events db))) room_id = Inr pl"
    and "pl_ban pl \<le> get_user_level pl banner" and "get_user_level pl banner < get_user_level pl target"
    and "get_membership w room_id target db = Inr None" and "map_of (md_room_membership db) (room_user_id room_id target) = None"
    and "mo_fail w MembershipWrite = None" and "lw_fail (mo_levels w) EventCreate = None"
    and "''$'' @ uuid \<notin> ev_event_id ` set (md_events db)"
  shows "fst (ban w ck uuid now authorization room_id target reason db) = Inr ()"
proof -
  obtain db' where "ban w ck uuid now authorization room_id target reason db = (Inr (), db')"
    using ban_succeeds [OF assms(1-5,7-11)] by blast
  then show ?thesis by simp
qed

text \<open>
  C25. Unbanning does not unban: the record is stored under an identifier that lookups do not use, so a
  target that was banned is still banned after the unban has succeeded.
\<close>

theorem unban_leaves_ban:
  assumes "unban w ck uuid uuid' now authorization room_id target reason db = (Inr (), db')"
    and "get_membership w room_id target db = Inr (Some m)" and "m_membership m = Ban"
  shows "get_membership w room_id target db' = Inr (Some m)"
proof -
  obtain unbanner depth prev_events auth_events where
      checks: "unban_checks w ck authorization room_id target db = Inr (Some (unbanner, depth, prev_events, auth_events))"
    and create: "\<exists>x. create_membership_event w uuid uuid' now room_id unbanner target Leave reason depth prev_events auth_events db = (Inr x, db')"
    using assms
    by (auto simp: unban_def unban_checks_def result_simps split: sum.splits option.splits prod.splits)
  have ids: "starts_with room_id CHR ''!''" "starts_with target CHR ''@''"
    using checks by (auto simp: unban_checks_def result_simps moderation_request_iff)
  obtain x db1 where
      event: "create_room_event w uuid' now room_id ''m.room.member'' unbanner (member_content Leave reason) (Some target) db = (x, db1)"
    and db': "db' = snd (upsert_membership_record w (member_record w now room_id target Leave reason db1) db1)"
    using create create_membership_event_ok by blast
  have row: "m_user_id (member_record w now room_id target Leave reason db1) = target"
    by (simp add: member_record_def new_membership_def Let_def)
  have "get_membership w room_id target db' = get_membership w room_id target db1"
    unfolding db' by (rule upsert_keeps_membership) (use ids row in simp_all)
  also have "\<dots> = get_membership w room_id target db"
    using create_room_event_memberships [OF event] by (simp add: get_membership_def)
  finally show ?thesis using assms(2) by simp
qed

text \<open>
  An unban is only carried out for a joined user whose listed level reaches the level for bans and
  exceeds the listed level of the target, who has a ban record; otherwise it succeeds only for a
  target that has left, without a change.
\<close>

theorem unban_sound:
  assumes "unban w ck uuid uuid' now authorization room_id target reason db = (Inr (), db')"
  shows "\<exists>unbanner room m. acting_user (mo_app w) ck authorization = Inr unbanner \<and> mod_room w room_id = Inr room \<and>
     joined_actor w room_id unbanner db = Inr () \<and> get_membership w room_id target db = Inr (Some m) \<and>
     (m_membership m = Leave \<and> db' = db \<or>
      m_membership m = Ban \<and>
      (\<exists>levels. r_power_levels room = Some levels \<and>
         unwrap_or 50 (Option.bind (map_of levels ''ban'') as_i64) \<le> listed_level levels unbanner \<and>
         listed_level levels target < listed_level levels unbanner))"
proof -
  obtain result where checks: "unban_checks w ck authorization room_id target db = Inr result"
    and unchanged: "result = None \<longrightarrow> db' = db"
    using assms by (auto simp: unban_def split: sum.splits option.splits)
  obtain unbanner room m where facts: "moderation_request w ck authorization room_id target = Inr unbanner"
      "mod_room w room_id = Inr room" "joined_actor w room_id unbanner db = Inr ()" "get_membership w room_id target db = Inr (Some m)"
    and m: "(case m_membership m of
       Ban \<Rightarrow>
         bindR (can_user_unban room unbanner target) (\<lambda>can_unban.
         bindR (ensure can_unban 403) (\<lambda>_.
         bindR (map_err (\<lambda>_. 500) (next_event_depth w room_id db)) (\<lambda>depth.
         bindR (map_err (\<lambda>_. 500) (latest_event_ids w room_id 3 db)) (\<lambda>prev_events.
         bindR (map_err (\<lambda>_. 500) (auth_events_for_unban w room_id unbanner db)) (\<lambda>auth_events.
         Inr (Some (unbanner, depth, prev_events, auth_events)))))))
     | Leave \<Rightarrow> Inr None
     | _ \<Rightarrow> Inl 400) = Inr result"
    using checks unfolding unban_checks_def bindR_Inr_iff map_err_Inr_iff ok_or_Inr_iff by auto
  have "acting_user (mo_app w) ck authorization = Inr unbanner" using facts(1) by (simp add: moderation_request_iff)
  then show ?thesis using facts(2-4) m unchanged
    by (intro exI [of _ unbanner] exI [of _ room] exI [of _ m])
      (cases "m_membership m"; auto simp: result_simps can_user_unban_def)
qed

section \<open>Witnesses\<close>

text \<open>
  A room where \<open>@a:a.org\<close>, with level 50, is joined, \<open>@b:a.org\<close> has left and \<open>@c:a.org\<close> is banned;
  \<open>@d:a.org\<close> has level 100 and no record.
\<close>

definition mod_demo :: mod_world where
  "mod_demo =
     \<lparr>mo_app = app_demo, mo_pdu = pdu_demo, mo_levels = level_demo, mo_fail = (\<lambda>call. None),
      mo_rooms = [''!r:a.org'' \<mapsto> (new_room 0 0 ''!r:a.org'' ''6'' ''@a:a.org'')
        \<lparr>r_power_levels := Some [(''users'', JObject [(''@a:a.org'', int_json 100)])]\<rparr>],
      mo_count = (\<lambda>n. Inr (Some (int n))), mo_id_equals = (\<lambda>i t. False),
      mo_signing_key = (\<lambda>s. Some (''k'', letters (replicate 32 CHR ''k''))), mo_count_rows = (\<lambda>n. Inr (Some (int n)))\<rparr>"

definition mod_demo_row :: "string \<Rightarrow> membership_state \<Rightarrow> string \<times> membership" where
  "mod_demo_row user m = (room_user_id ''!r:a.org'' user, new_membership ''!r:a.org'' user m)"

definition mod_demo_db :: mod_db where
  "mod_demo_db =
     \<lparr>md_membership = [mod_demo_row ''@a:a.org'' Join, mod_demo_row ''@b:a.org'' Leave, mod_demo_row ''@c:a.org'' Ban],
      md_room_membership = [],
      md_events = [(new_event ''$l'' ''@a:a.org'' 1 ''m.room.power_levels'' ''!r:a.org''
          (Unknown (JObject [(''users'', JObject [(''@a:a.org'', int_json 50), (''@d:a.org'', int_json 100)])])))
        \<lparr>ev_state_key := Some [], ev_depth := Some 2\<rparr>]\<rparr>"

abbreviation mod_demo_header :: "string option option" where
  "mod_demo_header \<equiv> Some (Some (''Bearer '' @ app_token))"

lemma mod_demo_actor: "acting_user app_demo app_clocks mod_demo_header = Inr ''@a:a.org''"
proof -
  have "strip_prefix ''Bearer '' (''Bearer '' @ app_token) = Some app_token" using strip_prefix_prefix by blast
  then show ?thesis
    using app_token_valid
    by (simp add: acting_user_def extract_matrix_auth_def readable_def app_demo_def app_clocks_def ensure_def
        del: strip_prefix.simps)
qed

lemma mod_demo_request:
  "target \<in> {''@b:a.org'', ''@c:a.org'', ''@d:a.org''} \<Longrightarrow>
     moderation_request mod_demo app_clocks mod_demo_header ''!r:a.org'' target = Inr ''@a:a.org''"
  using mod_demo_actor by (auto simp: moderation_request_iff mod_demo_def)

lemma mod_demo_reads:
  "get_membership mod_demo ''!r:a.org'' ''@a:a.org'' mod_demo_db = Inr (Some (new_membership ''!r:a.org'' ''@a:a.org'' Join))"
  "get_membership mod_demo ''!r:a.org'' ''@b:a.org'' mod_demo_db = Inr (Some (new_membership ''!r:a.org'' ''@b:a.org'' Leave))"
  "get_membership mod_demo ''!r:a.org'' ''@c:a.org'' mod_demo_db = Inr (Some (new_membership ''!r:a.org'' ''@c:a.org'' Ban))"
  "get_membership mod_demo ''!r:a.org'' ''@d:a.org'' mod_demo_db = Inr None"
  "user_in_room mod_demo ''!r:a.org'' ''@a:a.org'' mod_demo_db = Inr True"
  "room_check_membership mod_demo ''!r:a.org'' ''@a:a.org'' mod_demo_db = Inr True"
  by (simp_all add: user_in_room_def room_check_membership_def get_membership_def mod_result_def mod_demo_def mod_demo_db_def
      mod_demo_row_def new_membership_def room_user_id_def)

lemma mod_demo_world:
  "mo_pdu mod_demo = pdu_demo" "mo_fail mod_demo call = None" "lw_fail (mo_levels mod_demo) EventCreate = None"
  by (simp_all add: mod_demo_def level_demo_def)

lemma mod_demo_levels:
  "\<exists>pl. repo_power_levels (\<lambda>r. mod_result mod_demo ModLevels (level_rows_of r (md_events mod_demo_db))) ''!r:a.org'' = Inr pl \<and>
     pl_ban pl = 50 \<and> get_user_level pl ''@a:a.org'' = 50 \<and> get_user_level pl ''@d:a.org'' = 100"
proof -
  have "pl_ban (levels_of_rows (level_rows_of ''!r:a.org'' (md_events mod_demo_db))) = 50 \<and>
      get_user_level (levels_of_rows (level_rows_of ''!r:a.org'' (md_events mod_demo_db))) ''@a:a.org'' = 50 \<and>
      get_user_level (levels_of_rows (level_rows_of ''!r:a.org'' (md_events mod_demo_db))) ''@d:a.org'' = 100"
    by code_simp
  then show ?thesis by (simp add: repo_power_levels_def mod_result_def mod_demo_def)
qed

lemma mod_demo_ban:
  "\<exists>db'. ban mod_demo app_clocks ''u'' 9 mod_demo_header ''!r:a.org'' ''@d:a.org'' None mod_demo_db = (Inr (), db')"
proof -
  obtain pl where "repo_power_levels (\<lambda>r. mod_result mod_demo ModLevels (level_rows_of r (md_events mod_demo_db))) ''!r:a.org'' = Inr pl"
    "pl_ban pl = 50" "get_user_level pl ''@a:a.org'' = 50" using mod_demo_levels by blast
  then show ?thesis using mod_demo_reads
    by (intro ban_succeeds [OF mod_demo_request, where pl = pl]) (simp_all add: mod_demo_world mod_demo_db_def new_event_def)
qed

lemma mod_demo_text: "\<exists>m. util_canonical_json pdu_demo v = Inr m"
  by (rule util_canonical_json_total) (simp add: pdu_demo_def)

lemma mod_demo_unban:
  "\<exists>db'. unban mod_demo app_clocks ''u'' ''v'' 9 mod_demo_header ''!r:a.org'' ''@c:a.org'' None mod_demo_db = (Inr (), db')"
proof -
  note world = mod_demo_world mod_result_def
  obtain x where checks: "unban_checks mod_demo app_clocks mod_demo_header ''!r:a.org'' ''@c:a.org'' mod_demo_db = Inr (Some (''@a:a.org'', x))"
    using mod_demo_reads mod_demo_request [of "''@c:a.org''"]
    by (simp add: unban_checks_def mod_room_def joined_actor_def world ensure_def new_membership_def can_user_unban_def
        next_event_depth_def latest_event_ids_def auth_events_for_unban_def)
      (simp add: mod_demo_def listed_level_def in_i64_def i64_min_def i64_max_def)
  obtain depth prev auth where x: "x = (depth, prev, auth)" by (cases x)
  have hashes: "\<exists>h. calculate_content_hashes mod_demo e = Inr h" for e
  proof -
    obtain m where "util_canonical_json pdu_demo (JObject (util_event_members e)) = Inr m" using mod_demo_text by blast
    then show ?thesis by (simp add: calculate_content_hashes_def world del: util_canonical_json.simps)
  qed
  have signs: "\<exists>s. util_sign_event mod_demo e = Inr s" for e
  proof -
    obtain m where "util_canonical_json pdu_demo (JObject ((''hashes'', nullable_json string_map_json (ev_hashes e)) # util_event_members e)) = Inr m"
      using mod_demo_text by blast
    then show ?thesis
      by (simp add: util_sign_event_def world Let_def del: util_canonical_json.simps) (simp add: mod_demo_def pdu_demo_def demo_crypto_def unletters_letters ensure_def)
  qed
  have "bindR (calculate_content_hashes mod_demo e) (\<lambda>h. util_sign_event mod_demo (f h)) \<noteq> Inl x" for e f x
  proof -
    obtain h where "calculate_content_hashes mod_demo e = Inr h" using hashes by blast
    moreover obtain s where "util_sign_event mod_demo (f h) = Inr s" using signs by blast
    ultimately show ?thesis by simp
  qed
  then have "\<exists>y db'. create_membership_event mod_demo ''u'' ''v'' 9 ''!r:a.org'' ''@a:a.org'' ''@c:a.org'' Leave None depth prev auth
      mod_demo_db = (Inr y, db')"
    by (auto simp: create_membership_event_def Let_def create_room_event_def event_repo_create_def
        new_event_def mod_demo_db_def upsert_membership_record_def world split: sum.splits prod.splits)
  then show ?thesis using checks x by (auto simp: unban_def)
qed

theorem kick_never_removes_witness:
  "\<exists>m. get_membership mod_demo ''!r:a.org'' ''@b:a.org'' mod_demo_db = Inr (Some m) \<and> m_membership m = Leave"
proof -
  have "kick mod_demo app_clocks 9 mod_demo_header ''!r:a.org'' ''@b:a.org'' None mod_demo_db = (Inr (), mod_demo_db)"
    using mod_demo_reads mod_demo_request [of "''@b:a.org''"]
    by (simp add: kick_def kick_checks_def mod_room_def joined_actor_def mod_result_def ensure_def new_membership_def
        mod_demo_def)
  from kick_never_removes [OF this] show ?thesis by blast
qed

theorem ban_sound_witness:
  "\<exists>(db' :: mod_db) m. map_of (md_room_membership db') (room_user_id ''!r:a.org'' ''@d:a.org'') = Some m \<and> m_membership m = Ban"
proof -
  obtain db' where "ban mod_demo app_clocks ''u'' 9 mod_demo_header ''!r:a.org'' ''@d:a.org'' None mod_demo_db = (Inr (), db')"
    using mod_demo_ban by blast
  from ban_sound [OF this] show ?thesis by fast
qed

theorem ban_not_seen_witness:
  "\<exists>db'. ban mod_demo app_clocks ''u'' 9 mod_demo_header ''!r:a.org'' ''@d:a.org'' None mod_demo_db = (Inr (), db') \<and>
     get_membership mod_demo ''!r:a.org'' ''@d:a.org'' db' = Inr None"
proof -
  obtain db' where db': "ban mod_demo app_clocks ''u'' 9 mod_demo_header ''!r:a.org'' ''@d:a.org'' None mod_demo_db = (Inr (), db')"
    using mod_demo_ban by blast
  from ban_not_seen [OF this, of "''!r:a.org''" "''@d:a.org''"] db' show ?thesis by (simp add: mod_demo_reads)
qed

theorem ban_of_superior_witness:
  "fst (ban mod_demo app_clocks ''u'' 9 mod_demo_header ''!r:a.org'' ''@d:a.org'' None mod_demo_db) = Inr ()"
proof -
  obtain pl where "repo_power_levels (\<lambda>r. mod_result mod_demo ModLevels (level_rows_of r (md_events mod_demo_db))) ''!r:a.org'' = Inr pl"
    "pl_ban pl = 50" "get_user_level pl ''@a:a.org'' = 50" "get_user_level pl ''@d:a.org'' = 100" using mod_demo_levels by blast
  then show ?thesis using mod_demo_reads
    by (intro ban_of_superior [OF mod_demo_request, where pl = pl]) (simp_all add: mod_demo_world mod_demo_db_def new_event_def)
qed

theorem unban_leaves_ban_witness:
  "\<exists>db' m. unban mod_demo app_clocks ''u'' ''v'' 9 mod_demo_header ''!r:a.org'' ''@c:a.org'' None mod_demo_db = (Inr (), db') \<and>
     get_membership mod_demo ''!r:a.org'' ''@c:a.org'' db' = Inr (Some m) \<and> m_membership m = Ban"
proof -
  obtain db' where db': "unban mod_demo app_clocks ''u'' ''v'' 9 mod_demo_header ''!r:a.org'' ''@c:a.org'' None mod_demo_db = (Inr (), db')"
    using mod_demo_unban by blast
  from unban_leaves_ban [OF this mod_demo_reads(3)] db' show ?thesis by (auto simp: new_membership_def)
qed

theorem unban_sound_witness:
  "\<exists>m. get_membership mod_demo ''!r:a.org'' ''@c:a.org'' mod_demo_db = Inr (Some m) \<and> m_membership m = Ban"
proof -
  obtain db' where "unban mod_demo app_clocks ''u'' ''v'' 9 mod_demo_header ''!r:a.org'' ''@c:a.org'' None mod_demo_db = (Inr (), db')"
    using mod_demo_unban by blast
  from unban_sound [OF this] show ?thesis using mod_demo_reads(3) by (auto simp: new_membership_def)
qed

end
