(* ===== verification/Fed_Handshake.thy ===== *)
theory Fed_Handshake
  imports Moderation
begin

text \<open>
  How users of other servers join and leave rooms of this server: the endpoints \<open>make_join\<close>,
  \<open>send_join\<close>, \<open>make_leave\<close> and \<open>send_leave\<close> of both versions under \<open>server/src/_matrix/federation\<close>,
  with the checks of \<open>server/src/federation/membership_federation.rs\<close> and the queries they run. The
  two tables of memberships and the events are those of \<open>Moderation\<close>; the keys of other servers and
  the own signing keys complete the state. What the database returns for a selected member of a
  content, how the client library reads selected identifiers, and the result of the query for the
  current state, whose text depends on its argument, are arguments.
\<close>

section \<open>Environment\<close>

datatype handshake_call =
    AuthorizingUser | JoinRulesRead | JoinRuleContent | JoinAuthEvents | RoomEvents | AuthChain | KnockRules | AclRules
  | KnockLevels | KnockState

record hs_db =
  hd_mod :: mod_db
  hd_keys :: "key_row list"
  hd_signing :: "server_signing_key list"

record hs_world =
  hs_mod :: mod_world
  hs_session :: session_world
  hs_pdu :: "hs_db \<Rightarrow> pdu_world"
  hs_validator_ok :: bool
  hs_fail :: "handshake_call \<Rightarrow> repository_error option"
  hs_member_row :: "string list \<Rightarrow> json \<Rightarrow> json"
  hs_row_error :: repository_error
  hs_ids :: "string list \<Rightarrow> repository_error + string list"
  hs_current_state :: "string \<Rightarrow> string option \<Rightarrow> event list \<Rightarrow> repository_error + event list"

record hs_clocks =
  hk_session :: session_clocks
  hk_pdu :: clocks
  hk_key :: int
  hk_key_created :: int
  hk_key_read :: int
  hk_seed :: string
  hk_now :: int

definition hs_result :: "hs_world \<Rightarrow> handshake_call \<Rightarrow> 'a \<Rightarrow> repository_error + 'a" where
  "hs_result w call x = (case hs_fail w call of Some e \<Rightarrow> Inl e | None \<Rightarrow> Inr x)"

abbreviation hs_homeserver :: "hs_world \<Rightarrow> string" where
  "hs_homeserver w \<equiv> as_homeserver_name (mo_app (hs_mod w))"

text \<open>\<open>split(':').nth(1)\<close>.\<close>

definition domain_part :: "string \<Rightarrow> string option" where
  "domain_part s = (case split_on CHR '':'' s of _ # d # _ \<Rightarrow> Some d | _ \<Rightarrow> None)"

section \<open>What a room admits\<close>

definition validate_room_join_rules_allow_federation :: "string \<Rightarrow> bool" where
  "validate_room_join_rules_allow_federation join_rules =
     List.member [''public'', ''invite'', ''restricted'', ''knock'', ''knock_restricted''] join_rules"

definition validate_room_version_supports_federation :: "string \<Rightarrow> bool" where
  "validate_room_version_supports_federation room_version = True"

definition handshake_join_allowed :: "room \<Rightarrow> bool" where
  "handshake_join_allowed room =
     (validate_room_join_rules_allow_federation (unwrap_or ''invite'' (r_join_rules room)) \<and>
      r_federate room \<noteq> Some False \<and> validate_room_version_supports_federation (r_room_version room))"

definition handshake_leave_allowed :: "room \<Rightarrow> bool" where
  "handshake_leave_allowed room =
     (r_federate room \<noteq> Some False \<and> validate_room_version_supports_federation (r_room_version room))"

section \<open>Queries\<close>

text \<open>The newest event by depth of a type, and the row with the selected members of its content.\<close>

definition newest_state :: "string \<Rightarrow> string \<Rightarrow> event list \<Rightarrow> event option" where
  "newest_state room_id event_type es =
     (case newest_depth_first (state_events_of room_id event_type [] es) of [] \<Rightarrow> None | e # _ \<Rightarrow> Some e)"

definition member_row :: "hs_world \<Rightarrow> string list \<Rightarrow> string \<Rightarrow> string \<Rightarrow> event list \<Rightarrow> json option" where
  "member_row w names room_id event_type es =
     map_option (\<lambda>e. hs_member_row w names (content_to_value (ev_content e))) (newest_state room_id event_type es)"

definition get_room_join_rules_string :: "hs_world \<Rightarrow> string \<Rightarrow> hs_db \<Rightarrow> repository_error + string" where
  "get_room_join_rules_string w room_id db =
     bindR (hs_result w JoinRulesRead (member_row w [''join_rule''] room_id ''m.room.join_rules'' (md_events (hd_mod db)))) (\<lambda>row.
     case row of
       None \<Rightarrow> Inr ''invite''
     | Some r \<Rightarrow> ok_or (case struct_fields [''join_rule''] r of Some [v] \<Rightarrow> req_string v | _ \<Rightarrow> None) (hs_row_error w))"

definition get_room_join_rule_content :: "hs_world \<Rightarrow> string \<Rightarrow> hs_db \<Rightarrow> repository_error + json" where
  "get_room_join_rule_content w room_id db =
     hs_result w JoinRuleContent (case newest_state room_id ''m.room.join_rules'' (md_events (hd_mod db)) of
       None \<Rightarrow> JObject [(''join_rule'', JString ''invite'')]
     | Some e \<Rightarrow> content_to_value (ev_content e))"

text \<open>The last update first; a record without one comes last.\<close>

definition last_update_first :: "membership list \<Rightarrow> membership list" where
  "last_update_first ms =
     sort_key (\<lambda>m. - unwrap_or 0 (m_updated_at m)) (filter (\<lambda>m. m_updated_at m \<noteq> None) ms) @
     filter (\<lambda>m. m_updated_at m = None) ms"

definition find_authorizing_user :: "hs_world \<Rightarrow> string \<Rightarrow> string \<Rightarrow> hs_db \<Rightarrow> repository_error + string option" where
  "find_authorizing_user w room_id homeserver db =
     hs_result w AuthorizingUser (case last_update_first (filter (\<lambda>m. m_room_id m = room_id \<and> m_membership m = Join \<and>
          contains_str (m_user_id m) ('':'' @ homeserver)) (map snd (md_membership (hd_mod db)))) of
       [] \<Rightarrow> None | m # _ \<Rightarrow> Some (m_user_id m))"

definition get_auth_events_for_join :: "hs_world \<Rightarrow> string \<Rightarrow> hs_db \<Rightarrow> repository_error + string list" where
  "get_auth_events_for_join w room_id db =
     bindR (hs_result w JoinAuthEvents (map ev_event_id (sort_key ev_origin_server_ts (filter (\<lambda>e. ev_room_id e = room_id \<and>
        List.member [''m.room.create'', ''m.room.join_rules'', ''m.room.power_levels''] (ev_event_type e) \<and>
        ev_state_key e = Some []) (md_events (hd_mod db)))))) (hs_ids w)"

definition get_room_events :: "hs_world \<Rightarrow> string \<Rightarrow> nat option \<Rightarrow> hs_db \<Rightarrow> repository_error + event list" where
  "get_room_events w room_id limit db =
     hs_result w RoomEvents
       (let es = newest_ts_first (filter (\<lambda>e. ev_room_id e = room_id) (md_events (hd_mod db)))
        in case limit of Some l \<Rightarrow> take l es | None \<Rightarrow> es)"

text \<open>\<open>ORDER BY depth, origin_server_ts\<close>.\<close>

definition get_auth_chain_for_events :: "hs_world \<Rightarrow> event list \<Rightarrow> hs_db \<Rightarrow> repository_error + event list" where
  "get_auth_chain_for_events w events db =
     (let auth_event_ids = concat (map (\<lambda>e. unwrap_or [] (ev_auth_events e)) events) in
      if auth_event_ids = [] then Inr []
      else hs_result w AuthChain (sort_key depth_key (sort_key ev_origin_server_ts
             (filter (\<lambda>e. List.member auth_event_ids (ev_event_id e)) (md_events (hd_mod db))))))"

section \<open>Signed requests\<close>

text \<open>The signature of a request of another server; keys that were fetched stay in the key table.\<close>

definition signed_request ::
  "hs_world \<Rightarrow> hs_clocks \<Rightarrow> string option option \<Rightarrow> string \<Rightarrow> string \<Rightarrow> (nat + string) \<Rightarrow> hs_db \<Rightarrow> (nat + string) \<times> hs_db" where
  "signed_request w ck authorization request_method uri body db =
     (case bindR (history_parse_auth authorization) (\<lambda>auth. bindR body (\<lambda>body. Inr (auth, body))) of
        Inl status \<Rightarrow> (Inl status, db)
      | Inr (auth, body) \<Rightarrow>
          (case validate_server_signature (hs_session w) (hk_session ck) (hx_origin auth) (hx_key_id auth) (hx_signature auth)
                  request_method uri body (hd_keys db) of
             (Inl _, rows) \<Rightarrow> (Inl 401, db\<lparr>hd_keys := rows\<rparr>)
           | (Inr _, rows) \<Rightarrow> (Inr (hx_origin auth), db\<lparr>hd_keys := rows\<rparr>)))"

definition known_hs_room :: "hs_world \<Rightarrow> string \<Rightarrow> nat + room" where
  "known_hs_room w room_id = mod_room (hs_mod w) room_id"

section \<open>Asking to join\<close>

record join_auth_result =
  ja_allowed :: bool
  ja_reason :: string
  ja_error_code :: string
  ja_authorizing_user :: "string option"

definition check_room_membership_condition ::
  "hs_world \<Rightarrow> string \<Rightarrow> string \<Rightarrow> string \<Rightarrow> hs_db \<Rightarrow> string + string" where
  "check_room_membership_condition w user_id condition_room_id origin_server db =
     bindR (ok_or (domain_part user_id) ''Invalid user ID format'') (\<lambda>user_server.
     bindR (ensure (\<not> user_server \<noteq> origin_server) (''Origin server mismatch: user '' @ user_id @ '' not from server '' @ origin_server)) (\<lambda>_.
     bindR (map_err repository_error_text (mod_result (hs_mod w) ModRoom (mo_rooms (hs_mod w) condition_room_id))) (\<lambda>room.
     bindR (ok_or room ''Condition room not known to this server'') (\<lambda>condition_room.
     bindR (ensure (\<not> r_room_version condition_room = []) ''Invalid condition room: missing room version'') (\<lambda>_.
     bindR (map_err repository_error_text (get_membership (hs_mod w) condition_room_id user_id (hd_mod db))) (\<lambda>membership.
     case membership of
       Some m \<Rightarrow>
         if m_membership m = Join
         then bindR (map_err (\<lambda>e. ''Failed to find authorizing user: '' @ repository_error_text e)
                (find_authorizing_user w condition_room_id (hs_homeserver w) db)) (\<lambda>found.
              ok_or found ''No authorizing user found from our server'')
         else Inl ''User is not a member of the condition room''
     | None \<Rightarrow> Inl ''User is not a member of the condition room''))))))"

fun handshake_allow_conditions :: "hs_world \<Rightarrow> string \<Rightarrow> string \<Rightarrow> hs_db \<Rightarrow> json list \<Rightarrow> string + join_auth_result" where
  "handshake_allow_conditions w user_id origin_server db [] =
     Inr \<lparr>ja_allowed = False, ja_reason = ''Unable to satisfy restricted room conditions'',
       ja_error_code = ''M_UNABLE_TO_AUTHORISE_JOIN'', ja_authorizing_user = None\<rparr>"
| "handshake_allow_conditions w user_id origin_server db (condition # conditions) =
     (if unwrap_or [] (Option.bind (get condition ''type'') as_str) = ''m.room_membership''
      then bindR (ok_or (Option.bind (get condition ''room_id'') as_str) ''Missing room_id in room membership condition'') (\<lambda>condition_room_id.
           case check_room_membership_condition w user_id condition_room_id origin_server db of
             Inr authorizing_user \<Rightarrow>
               Inr \<lparr>ja_allowed = True, ja_reason = ''User is member of allowed room '' @ condition_room_id,
                 ja_error_code = [], ja_authorizing_user = Some authorizing_user\<rparr>
           | Inl _ \<Rightarrow> handshake_allow_conditions w user_id origin_server db conditions)
      else handshake_allow_conditions w user_id origin_server db conditions)"

definition check_restricted_room_conditions ::
  "hs_world \<Rightarrow> room \<Rightarrow> string \<Rightarrow> string \<Rightarrow> hs_db \<Rightarrow> string + join_auth_result" where
  "check_restricted_room_conditions w room user_id origin_server db =
     bindR (ok_or (domain_part user_id) ''Invalid user ID format'') (\<lambda>user_server.
     bindR (ensure (\<not> user_server \<noteq> origin_server) (''Origin server mismatch: user '' @ user_id @ '' not from server '' @ origin_server)) (\<lambda>_.
     bindR (map_err (\<lambda>e. ''Failed to get room join rule content: '' @ repository_error_text e)
       (get_room_join_rule_content w (r_room_id room) db)) (\<lambda>join_rule_content.
     bindR (ok_or (Option.bind (get join_rule_content ''allow'') as_array) ''No allow conditions in restricted room'') (\<lambda>allow_conditions.
     handshake_allow_conditions w user_id origin_server db allow_conditions))))"

definition check_join_authorization ::
  "hs_world \<Rightarrow> room \<Rightarrow> string \<Rightarrow> string \<Rightarrow> hs_db \<Rightarrow> string + join_auth_result" where
  "check_join_authorization w room user_id origin_server db =
     bindR (ok_or (domain_part user_id) ''Invalid user ID format'') (\<lambda>user_server.
     bindR (ensure (\<not> user_server \<noteq> origin_server) (''Origin server mismatch: user '' @ user_id @ '' not from server '' @ origin_server)) (\<lambda>_.
     bindR (map_err (\<lambda>e. ''Failed to get room join rules: '' @ repository_error_text e)
       (get_room_join_rules_string w (r_room_id room) db)) (\<lambda>join_rules.
     if join_rules = ''public''
     then Inr \<lparr>ja_allowed = True, ja_reason = ''Public room'', ja_error_code = [], ja_authorizing_user = None\<rparr>
     else if join_rules = ''invite''
     then bindR (map_err repository_error_text (get_membership (hs_mod w) (r_room_id room) user_id (hd_mod db))) (\<lambda>membership.
          Inr (case membership of
                 Some m \<Rightarrow>
                   if m_membership m = Invite
                   then \<lparr>ja_allowed = True, ja_reason = ''User has invite'', ja_error_code = [], ja_authorizing_user = None\<rparr>
                   else \<lparr>ja_allowed = False, ja_reason = ''Room requires invite to join'', ja_error_code = ''M_FORBIDDEN'',
                          ja_authorizing_user = None\<rparr>
               | None \<Rightarrow> \<lparr>ja_allowed = False, ja_reason = ''Room requires invite to join'', ja_error_code = ''M_FORBIDDEN'',
                          ja_authorizing_user = None\<rparr>))
     else if join_rules = ''knock''
     then Inr \<lparr>ja_allowed = False, ja_reason = ''Room requires knocking before joining'', ja_error_code = ''M_FORBIDDEN'',
            ja_authorizing_user = None\<rparr>
     else if join_rules = ''restricted'' then check_restricted_room_conditions w room user_id origin_server db
     else Inr \<lparr>ja_allowed = False, ja_reason = ''Unknown join rule: '' @ join_rules, ja_error_code = ''M_FORBIDDEN'',
            ja_authorizing_user = None\<rparr>)))"

definition error_body :: "string \<Rightarrow> string \<Rightarrow> json" where
  "error_body errcode message = JObject [(''errcode'', JString errcode), (''error'', JString message)]"

definition join_template ::
  "hs_world \<Rightarrow> int \<Rightarrow> string \<Rightarrow> string \<Rightarrow> string \<Rightarrow> string option \<Rightarrow> string list \<Rightarrow> event list \<Rightarrow> json" where
  "join_template w now room_id user_id room_version authorizing_user auth_events prev_events =
     JObject
       [(''event'', JObject
          [(''type'', JString ''m.room.member''),
           (''content'', JObject ((''membership'', JString ''join'') #
              opt_member ''join_authorised_via_users_server'' JString authorizing_user)),
           (''state_key'', JString user_id), (''room_id'', JString room_id), (''sender'', JString user_id),
           (''origin'', JString (hs_homeserver w)), (''origin_server_ts'', int_json now),
           (''auth_events'', strings_json auth_events), (''prev_events'', JArray (map event_to_value prev_events))]),
        (''room_version'', JString room_version)]"

definition make_join_answer ::
  "hs_world \<Rightarrow> int \<Rightarrow> string \<Rightarrow> string \<Rightarrow> string list option \<Rightarrow> string \<Rightarrow> hs_db \<Rightarrow> nat + json" where
  "make_join_answer w now room_id user_id ver origin db =
     bindR (ensure (\<not> unwrap_or [] (domain_part user_id) \<noteq> origin) 400) (\<lambda>_.
     bindR (known_hs_room w room_id) (\<lambda>room.
     bindR (ensure (handshake_join_allowed room) 403) (\<lambda>_.
     let room_version = r_room_version room in
     if \<not> List.member (unwrap_or [''1''] ver) room_version
     then Inr (JObject [(''errcode'', JString ''M_INCOMPATIBLE_ROOM_VERSION''),
            (''error'', JString (''Room version '' @ room_version @ '' not supported'')), (''room_version'', JString room_version)])
     else
       bindR (case get_membership (hs_mod w) room_id user_id (hd_mod db) of
                Inr (Some m) \<Rightarrow>
                  (case m_membership m of Join \<Rightarrow> Inl 400 | Ban \<Rightarrow> Inl 403 | _ \<Rightarrow> Inr ())
              | _ \<Rightarrow> Inr ()) (\<lambda>_.
       bindR (map_err (\<lambda>_. 500) (check_join_authorization w room user_id origin db)) (\<lambda>can_join.
       if \<not> ja_allowed can_join
       then if ja_error_code can_join = ''M_UNABLE_TO_AUTHORISE_JOIN''
            then Inr (error_body ''M_UNABLE_TO_AUTHORISE_JOIN'' (ja_reason can_join))
            else if ja_error_code can_join = ''M_UNABLE_TO_GRANT_JOIN''
            then Inr (error_body ''M_UNABLE_TO_GRANT_JOIN'' (ja_reason can_join))
            else Inl 403
       else
         bindR (map_err (\<lambda>_. 500) (get_auth_events_for_join w room_id db)) (\<lambda>auth_events.
         bindR (map_err (\<lambda>_. 500) (get_room_events w room_id (Some 10) db)) (\<lambda>prev_events.
         Inr (join_template w now room_id user_id room_version (ja_authorizing_user can_join) auth_events prev_events))))))))"

definition make_join ::
  "hs_world \<Rightarrow> hs_clocks \<Rightarrow> string option option \<Rightarrow> string \<Rightarrow> string \<Rightarrow> string list option \<Rightarrow> hs_db \<Rightarrow> (nat + json) \<times> hs_db" where
  "make_join w ck authorization room_id user_id ver db =
     (case signed_request w ck authorization ''GET'' ''/make_join''
             (Inr (''room_id='' @ room_id @ ''&user_id='' @ user_id)) db of
        (Inl status, db') \<Rightarrow> (Inl status, db')
      | (Inr origin, db') \<Rightarrow> (make_join_answer w (hk_now ck) room_id user_id ver origin db', db'))"

section \<open>Asking to leave\<close>

definition make_leave_answer :: "hs_world \<Rightarrow> int \<Rightarrow> string \<Rightarrow> string \<Rightarrow> string \<Rightarrow> hs_db \<Rightarrow> nat + json" where
  "make_leave_answer w now room_id user_id origin db =
     bindR (ensure (\<not> unwrap_or [] (domain_part user_id) \<noteq> origin) 400) (\<lambda>_.
     bindR (known_hs_room w room_id) (\<lambda>room.
     bindR (ensure (handshake_leave_allowed room) 403) (\<lambda>_.
     bindR (map_err (\<lambda>_. 500) (get_membership (hs_mod w) room_id user_id (hd_mod db))) (\<lambda>existing.
     let template = JObject
           [(''event'', JObject
              [(''type'', JString ''m.room.member''), (''content'', JObject [(''membership'', JString ''leave'')]),
               (''state_key'', JString user_id), (''room_id'', JString room_id), (''sender'', JString user_id),
               (''origin'', JString (hs_homeserver w)), (''origin_server_ts'', int_json now)]),
            (''room_version'', JString (r_room_version room))] in
     Inr (case existing of
            None \<Rightarrow> error_body ''M_FORBIDDEN'' ''User is not in the room''
          | Some m \<Rightarrow>
              (case m_membership m of
                 Leave \<Rightarrow> error_body ''M_FORBIDDEN'' ''User has already left the room''
               | Ban \<Rightarrow> error_body ''M_FORBIDDEN'' ''User is banned and cannot leave''
               | _ \<Rightarrow> template))))))"

definition make_leave ::
  "hs_world \<Rightarrow> hs_clocks \<Rightarrow> string option option \<Rightarrow> string \<Rightarrow> string \<Rightarrow> hs_db \<Rightarrow> (nat + json) \<times> hs_db" where
  "make_leave w ck authorization room_id user_id db =
     (case signed_request w ck authorization ''GET'' ''/make_leave''
             (Inr (''room_id='' @ room_id @ ''&user_id='' @ user_id)) db of
        (Inl status, db') \<Rightarrow> (Inl status, db')
      | (Inr origin, db') \<Rightarrow> (make_leave_answer w (hk_now ck) room_id user_id origin db', db'))"

section \<open>Submitted events\<close>

text \<open>The sender of a submitted membership event, once its shape is checked.\<close>

definition submitted_sender :: "string \<Rightarrow> string \<Rightarrow> string \<Rightarrow> json \<Rightarrow> nat + string" where
  "submitted_sender expected origin event_id payload =
     bindR (ok_or (Option.bind (get payload ''sender'') as_str) 400) (\<lambda>sender.
     bindR (ok_or (Option.bind (get payload ''state_key'') as_str) 400) (\<lambda>state_key.
     bindR (ok_or (Option.bind (get payload ''type'') as_str) 400) (\<lambda>event_type.
     bindR (ensure (\<not> event_type \<noteq> ''m.room.member'') 400) (\<lambda>_.
     bindR (ensure (\<not> sender \<noteq> state_key) 400) (\<lambda>_.
     bindR (ok_or (Option.bind (Option.bind (get payload ''content'') (\<lambda>c. get c ''membership'')) as_str) 400) (\<lambda>membership.
     bindR (ensure (\<not> membership \<noteq> expected) 400) (\<lambda>_.
     bindR (ensure (\<not> unwrap_or [] (domain_part sender) \<noteq> origin) 400) (\<lambda>_.
     bindR (ensure (\<not> unwrap_or [] (Option.bind (get payload ''event_id'') as_str) \<noteq> event_id) 400) (\<lambda>_.
     Inr sender)))))))))"

definition validated_submission ::
  "hs_world \<Rightarrow> hs_clocks \<Rightarrow> string \<Rightarrow> json \<Rightarrow> hs_db \<Rightarrow> (nat + event) \<times> hs_db" where
  "validated_submission w ck origin payload db =
     (if \<not> hs_validator_ok w then (Inl 500, db)
      else case validate_pdu (hs_pdu w db) (hk_pdu ck) payload origin (hd_keys db) of
        (Inr (Valid e), rows) \<Rightarrow> (Inr e, db\<lparr>hd_keys := rows\<rparr>)
      | (Inr (SoftFailed e _), rows) \<Rightarrow> (Inr e, db\<lparr>hd_keys := rows\<rparr>)
      | (Inr (Rejected _ _), rows) \<Rightarrow> (Inl 403, db\<lparr>hd_keys := rows\<rparr>)
      | (Inl _, rows) \<Rightarrow> (Inl 400, db\<lparr>hd_keys := rows\<rparr>))"

definition with_own_signature :: "string \<Rightarrow> string \<Rightarrow> string \<Rightarrow> event \<Rightarrow> event" where
  "with_own_signature homeserver key_id signature e =
     e\<lparr>ev_signatures := Some (AList.update homeserver [(''ed25519:'' @ key_id, signature)] (unwrap_or [] (ev_signatures e)))\<rparr>"

definition signing_text :: "hs_world \<Rightarrow> event \<Rightarrow> canonical_error + string" where
  "signing_text w e =
     json_to_string (sw_crypto (hs_session w)) (event_to_value (e\<lparr>ev_signatures := None, ev_unsigned := None\<rparr>))"

definition sign_submitted_event :: "hs_world \<Rightarrow> hs_clocks \<Rightarrow> event \<Rightarrow> hs_db \<Rightarrow> (nat + event) \<times> hs_db" where
  "sign_submitted_event w ck e db =
     (case get_server_signing_key (hs_session w) (hk_key ck) (hk_key_created ck) (hk_seed ck) (hs_homeserver w) (hd_signing db) of
        (Inl _, ks) \<Rightarrow> (Inl 500, db\<lparr>hd_signing := ks\<rparr>)
      | (Inr signing_key, ks) \<Rightarrow>
          (bindR (map_err (\<lambda>_. 500) (signing_text w e)) (\<lambda>canonical_json.
           bindR (map_err (\<lambda>_. 500) (session_sign_json ((sw_crypto (hs_session w))\<lparr>private_key_query :=
               \<lambda>key_id. Inr (get_private_key_for_signing (hk_key_read ck) key_id ks)\<rparr>) canonical_json (sg_key_id signing_key))) (\<lambda>signature.
           Inr (with_own_signature (hs_homeserver w) (sg_key_id signing_key) signature e))),
           db\<lparr>hd_signing := ks\<rparr>))"

text \<open>The record of the member is made from the stored event.\<close>

definition submitted_member :: "int \<Rightarrow> string \<Rightarrow> string \<Rightarrow> membership_state \<Rightarrow> string option \<Rightarrow> event \<Rightarrow> membership" where
  "submitted_member now room_id sender m reason stored =
     (new_membership room_id sender m)\<lparr>m_reason := reason, m_updated_at := Some now,
       m_avatar_url := Option.bind (content_get (ev_content stored) ''avatar_url'') as_str,
       m_display_name := Option.bind (content_get (ev_content stored) ''displayname'') as_str, m_is_direct := Some False\<rparr>"

definition store_submission ::
  "hs_world \<Rightarrow> hs_clocks \<Rightarrow> (membership \<Rightarrow> mod_db \<Rightarrow> (repository_error + membership) \<times> mod_db) \<Rightarrow>
   string \<Rightarrow> string \<Rightarrow> membership_state \<Rightarrow> event \<Rightarrow> hs_db \<Rightarrow> (nat + event) \<times> hs_db" where
  "store_submission w ck store room_id sender m validated db =
     (case sign_submitted_event w ck validated db of
        (Inl status, db1) \<Rightarrow> (Inl status, db1)
      | (Inr signed_event, db1) \<Rightarrow>
          (case event_repo_create (mo_levels (hs_mod w)) signed_event (md_events (hd_mod db1)) of
             (Inl _, es) \<Rightarrow> (Inl 500, db1)
           | (Inr stored, es) \<Rightarrow>
               (let db2 = db1\<lparr>hd_mod := (hd_mod db1)\<lparr>md_events := es\<rparr>\<rparr>;
                    reason = (if m = Leave then Option.bind (content_get (ev_content stored) ''reason'') as_str else None) in
                case store (submitted_member (hk_now ck) room_id sender m reason stored) (hd_mod db2) of
                  (Inl _, md) \<Rightarrow> (Inl 500, db2\<lparr>hd_mod := md\<rparr>)
                | (Inr _, md) \<Rightarrow> (Inr stored, db2\<lparr>hd_mod := md\<rparr>))))"

section \<open>Joining\<close>

text \<open>The answer is the stored event, the state of the room and its auth chain.\<close>

definition send_join ::
  "hs_world \<Rightarrow> hs_clocks \<Rightarrow> string option option \<Rightarrow> string \<Rightarrow> string \<Rightarrow> json \<Rightarrow> hs_db \<Rightarrow>
   (nat + event \<times> event list \<times> event list) \<times> hs_db" where
  "send_join w ck authorization room_id event_id payload db =
     (case signed_request w ck authorization ''PUT'' ''/send_join''
             (Inr (case json_to_string (sw_crypto (hs_session w)) payload of Inr s \<Rightarrow> s | Inl _ \<Rightarrow> [])) db of
        (Inl status, db1) \<Rightarrow> (Inl status, db1)
      | (Inr origin, db1) \<Rightarrow>
          (case bindR (submitted_sender ''join'' origin event_id payload) (\<lambda>sender.
                bindR (known_hs_room w room_id) (\<lambda>room.
                bindR (ensure (handshake_join_allowed room) 403) (\<lambda>_. Inr sender))) of
             Inl status \<Rightarrow> (Inl status, db1)
           | Inr sender \<Rightarrow>
               (case validated_submission w ck origin payload db1 of
                  (Inl status, db2) \<Rightarrow> (Inl status, db2)
                | (Inr validated, db2) \<Rightarrow>
                    (case store_submission w ck (create_membership (hs_mod w)) room_id sender Join validated db2 of
                       (Inl status, db3) \<Rightarrow> (Inl status, db3)
                     | (Inr stored, db3) \<Rightarrow>
                         (bindR (map_err (\<lambda>_. 500)
                            (hs_current_state w room_id (Some (ev_event_id stored)) (md_events (hd_mod db3)))) (\<lambda>room_state.
                          bindR (map_err (\<lambda>_. 500) (get_auth_chain_for_events w room_state db3)) (\<lambda>auth_chain.
                          Inr (stored, room_state, auth_chain))), db3)))))"

definition state_json :: "event list \<Rightarrow> event list \<Rightarrow> members" where
  "state_json room_state auth_chain =
     [(''state'', JArray (map event_to_value room_state)), (''auth_chain'', JArray (map event_to_value auth_chain))]"

definition send_join_v1 ::
  "hs_world \<Rightarrow> hs_clocks \<Rightarrow> string option option \<Rightarrow> string \<Rightarrow> string \<Rightarrow> json \<Rightarrow> hs_db \<Rightarrow> (nat + json) \<times> hs_db" where
  "send_join_v1 w ck authorization room_id event_id payload db =
     (case send_join w ck authorization room_id event_id payload db of
        (Inl status, db') \<Rightarrow> (Inl status, db')
      | (Inr (_, room_state, auth_chain), db') \<Rightarrow>
          (Inr (JArray [int_json 200, JObject (state_json room_state auth_chain)]), db'))"

definition send_join_v2 ::
  "hs_world \<Rightarrow> hs_clocks \<Rightarrow> string option option \<Rightarrow> string \<Rightarrow> string \<Rightarrow> json \<Rightarrow> hs_db \<Rightarrow> (nat + json) \<times> hs_db" where
  "send_join_v2 w ck authorization room_id event_id payload db =
     (case send_join w ck authorization room_id event_id payload db of
        (Inl status, db') \<Rightarrow> (Inl status, db')
      | (Inr (stored, room_state, auth_chain), db') \<Rightarrow>
          (Inr (JObject (state_json room_state auth_chain @ [(''event'', event_to_value stored)])), db'))"

section \<open>Leaving\<close>

definition may_leave :: "hs_world \<Rightarrow> string \<Rightarrow> string \<Rightarrow> hs_db \<Rightarrow> nat + unit" where
  "may_leave w room_id sender db =
     bindR (map_err (\<lambda>_. 500) (get_membership (hs_mod w) room_id sender (hd_mod db))) (\<lambda>existing.
     bindR (ok_or existing 403) (\<lambda>m.
     case m_membership m of Leave \<Rightarrow> Inl 400 | Ban \<Rightarrow> Inl 403 | _ \<Rightarrow> Inr ()))"

definition send_leave ::
  "hs_world \<Rightarrow> hs_clocks \<Rightarrow> (membership \<Rightarrow> mod_db \<Rightarrow> (repository_error + membership) \<times> mod_db) \<Rightarrow> nat + string \<Rightarrow>
   string option option \<Rightarrow> string \<Rightarrow> string \<Rightarrow> json \<Rightarrow> hs_db \<Rightarrow> (nat + event) \<times> hs_db" where
  "send_leave w ck store body authorization room_id event_id payload db =
     (case signed_request w ck authorization ''PUT'' ''/send_leave'' body db of
        (Inl status, db1) \<Rightarrow> (Inl status, db1)
      | (Inr origin, db1) \<Rightarrow>
          (case bindR (submitted_sender ''leave'' origin event_id payload) (\<lambda>sender.
                bindR (known_hs_room w room_id) (\<lambda>room.
                bindR (ensure (handshake_leave_allowed room) 403) (\<lambda>_.
                bindR (may_leave w room_id sender db1) (\<lambda>_. Inr sender)))) of
             Inl status \<Rightarrow> (Inl status, db1)
           | Inr sender \<Rightarrow>
               (case validated_submission w ck origin payload db1 of
                  (Inl status, db2) \<Rightarrow> (Inl status, db2)
                | (Inr validated, db2) \<Rightarrow> store_submission w ck store room_id sender Leave validated db2)))"

text \<open>The first version creates the record of the member, the second updates it.\<close>

definition send_leave_v1 ::
  "hs_world \<Rightarrow> hs_clocks \<Rightarrow> string option option \<Rightarrow> string \<Rightarrow> string \<Rightarrow> json \<Rightarrow> hs_db \<Rightarrow> (nat + json) \<times> hs_db" where
  "send_leave_v1 w ck authorization room_id event_id payload db =
     (case send_leave w ck (create_membership (hs_mod w))
             (Inr (case json_to_string (sw_crypto (hs_session w)) payload of Inr s \<Rightarrow> s | Inl _ \<Rightarrow> []))
             authorization room_id event_id payload db of
        (Inl status, db') \<Rightarrow> (Inl status, db')
      | (Inr _, db') \<Rightarrow> (Inr (JArray [int_json 200, JObject []]), db'))"

definition send_leave_v2 ::
  "hs_world \<Rightarrow> hs_clocks \<Rightarrow> string option option \<Rightarrow> string \<Rightarrow> string \<Rightarrow> json \<Rightarrow> hs_db \<Rightarrow> (nat + json) \<times> hs_db" where
  "send_leave_v2 w ck authorization room_id event_id payload db =
     (case send_leave w ck (update_membership (hs_mod w)) (map_err (\<lambda>_. 400) (json_to_string (sw_crypto (hs_session w)) payload))
             authorization room_id event_id payload db of
        (Inl status, db') \<Rightarrow> (Inl status, db')
      | (Inr _, db') \<Rightarrow> (Inr (JObject []), db'))"

section \<open>What a submission does\<close>

text \<open>A signed request was made by its origin: the signature verifies over the text of the request.\<close>

definition signed_by ::
  "hs_world \<Rightarrow> hs_clocks \<Rightarrow> string option option \<Rightarrow> string \<Rightarrow> string \<Rightarrow> string \<Rightarrow> string \<Rightarrow> key_row list \<Rightarrow> bool" where
  "signed_by w ck authorization request_method uri body origin rows \<longleftrightarrow>
     (\<exists>auth key msg rows'. history_parse_auth authorization = Inr auth \<and> hx_origin auth = origin \<and>
        session_get_server_public_key (hs_session w) (hk_session ck) origin (hx_key_id auth) rows = (Inr key, rows') \<and>
        build_canonical_json (hs_session w) request_method uri origin (homeserver_name (sw_crypto (hs_session w))) body = Inr msg \<and>
        verify_ed25519_signature (sw_crypto (hs_session w)) (hx_signature auth) msg key = Inr ())"

lemma signed_request_Inr:
  assumes "signed_request w ck authorization m u body db = (Inr origin, db')"
  shows "(\<exists>b. body = Inr b \<and> signed_by w ck authorization m u b origin (hd_keys db)) \<and> hd_mod db' = hd_mod db"
proof -
  obtain auth b sa rows where a: "history_parse_auth authorization = Inr auth" "body = Inr b" "origin = hx_origin auth"
    "validate_server_signature (hs_session w) (hk_session ck) (hx_origin auth) (hx_key_id auth) (hx_signature auth)
       m u b (hd_keys db) = (Inr sa, rows)" "db' = db\<lparr>hd_keys := rows\<rparr>"
    using assms by (auto simp: signed_request_def result_simps split: sum.splits prod.splits)
  obtain key msg where
    "session_get_server_public_key (hs_session w) (hk_session ck) (hx_origin auth) (hx_key_id auth) (hd_keys db) = (Inr key, rows)"
    "build_canonical_json (hs_session w) m u (hx_origin auth) (homeserver_name (sw_crypto (hs_session w))) b = Inr msg"
    "verify_ed25519_signature (sw_crypto (hs_session w)) (hx_signature auth) msg key = Inr ()"
    using a(4) by (auto simp: validate_server_signature_def result_simps)
  then have "signed_by w ck authorization m u b origin (hd_keys db)"
    using a(1,3) unfolding signed_by_def by blast
  then show ?thesis using a(2,5) by simp
qed

lemma signed_request_mod: "signed_request w ck authorization m u body db = (r, db') \<Longrightarrow> hd_mod db' = hd_mod db"
  by (auto simp: signed_request_def split: sum.splits prod.splits)

text \<open>The validator accepts an event, perhaps without letting it take part.\<close>

definition accepts_submission :: "hs_world \<Rightarrow> hs_clocks \<Rightarrow> string \<Rightarrow> json \<Rightarrow> hs_db \<Rightarrow> event \<Rightarrow> bool" where
  "accepts_submission w ck origin payload db e \<longleftrightarrow>
     (\<exists>r. fst (validate_pdu (hs_pdu w db) (hk_pdu ck) payload origin (hd_keys db)) = Inr r \<and>
        (r = Valid e \<or> (\<exists>reason. r = SoftFailed e reason)))"

lemma validated_submission_result:
  assumes "validated_submission w ck origin payload db = (r, db')"
  shows "hd_mod db' = hd_mod db \<and> hd_signing db' = hd_signing db \<and>
     (\<forall>e. r = Inr e \<longrightarrow> hs_validator_ok w \<and> accepts_submission w ck origin payload db e)"
proof (cases "validate_pdu (hs_pdu w db) (hk_pdu ck) payload origin (hd_keys db)")
  case (Pair v rows)
  then show ?thesis
    using assms by (auto simp: validated_submission_def accepts_submission_def split: if_splits sum.splits validation_result.splits)
qed

text \<open>The event with a signature of this server, made with one of its usable keys over the event's text.\<close>

definition countersigned :: "hs_world \<Rightarrow> hs_clocks \<Rightarrow> server_signing_key list \<Rightarrow> event \<Rightarrow> event \<Rightarrow> bool" where
  "countersigned w ck ks e e' \<longleftrightarrow>
     (\<exists>key_id private_key key_bytes msg. get_private_key_for_signing (hk_key_read ck) key_id ks = Some private_key \<and>
        b64_decode (sw_crypto (hs_session w)) private_key = Some key_bytes \<and> length key_bytes = 32 \<and>
        signing_text w e = Inr msg \<and>
        e' = with_own_signature (hs_homeserver w) key_id
               (b64_encode (sw_crypto (hs_session w)) (ed_sign (sw_crypto (hs_session w)) key_bytes msg)) e)"

lemma session_sign_json_Inr:
  assumes "session_sign_json (c\<lparr>private_key_query := \<lambda>key_id. Inr (q key_id)\<rparr>) msg key_id = Inr signature"
  shows "\<exists>private_key key_bytes. q key_id = Some private_key \<and> b64_decode c private_key = Some key_bytes \<and>
     length key_bytes = 32 \<and> signature = b64_encode c (ed_sign c key_bytes msg)"
  using assms by (auto simp: session_sign_json_def result_simps)

lemma sign_submitted_event_result:
  assumes "sign_submitted_event w ck e db = (r, db')"
  shows "hd_mod db' = hd_mod db \<and> (\<forall>e'. r = Inr e' \<longrightarrow> countersigned w ck (hd_signing db') e e')"
proof (cases "get_server_signing_key (hs_session w) (hk_key ck) (hk_key_created ck) (hk_seed ck) (hs_homeserver w) (hd_signing db)")
  case (Pair v ks)
  show ?thesis
  proof (cases v)
    case (Inl err)
    then show ?thesis using assms Pair by (auto simp: sign_submitted_event_def)
  next
    case (Inr k)
    have "countersigned w ck ks e e'" if r: "r = Inr e'" for e'
    proof -
      obtain msg signature where m: "signing_text w e = Inr msg"
        "session_sign_json ((sw_crypto (hs_session w))\<lparr>private_key_query := \<lambda>key_id.
           Inr (get_private_key_for_signing (hk_key_read ck) key_id ks)\<rparr>) msg (sg_key_id k) = Inr signature"
        "e' = with_own_signature (hs_homeserver w) (sg_key_id k) signature e"
        using assms Pair Inr r by (auto simp: sign_submitted_event_def result_simps)
      then show ?thesis using session_sign_json_Inr [OF m(2)] unfolding countersigned_def by blast
    qed
    then show ?thesis using assms Pair Inr by (auto simp: sign_submitted_event_def)
  qed
qed

text \<open>A write to the table of records of members leaves the other tables alone.\<close>

definition records_only :: "(membership \<Rightarrow> mod_db \<Rightarrow> (repository_error + membership) \<times> mod_db) \<Rightarrow> bool" where
  "records_only store \<longleftrightarrow> (\<forall>m db. md_events (snd (store m db)) = md_events db \<and> md_membership (snd (store m db)) = md_membership db)"

lemma membership_writes_records_only:
  "records_only (create_membership w)" "records_only (update_membership w)"
  by (auto simp: records_only_def create_membership_def update_membership_def Let_def split: option.splits)

lemma store_submission_result:
  assumes "store_submission w ck store room_id sender m e db = (r, db')" and "records_only store"
  shows "md_membership (hd_mod db') = md_membership (hd_mod db) \<and>
     (md_events (hd_mod db') = md_events (hd_mod db) \<and> \<not> is_ok r \<or>
      (\<exists>e'. countersigned w ck (hd_signing db') e e' \<and> ev_event_id e' = ev_event_id e \<and>
         ev_event_id e \<notin> ev_event_id ` set (md_events (hd_mod db)) \<and>
         md_events (hd_mod db') = md_events (hd_mod db) @ [e'] \<and> (\<forall>x. r = Inr x \<longrightarrow> x = e')))"
proof -
  obtain v db1 where v: "sign_submitted_event w ck e db = (v, db1)" by fastforce
  note s = sign_submitted_event_result [OF v]
  show ?thesis
  proof (cases v)
    case (Inl status)
    then show ?thesis using assms(1) v s by (auto simp: store_submission_def)
  next
    case (Inr e')
    then have c: "countersigned w ck (hd_signing db1) e e'" using s by blast
    then have same_id: "ev_event_id e' = ev_event_id e" by (auto simp: countersigned_def with_own_signature_def)
    have writes: "md_events md = md_events db0" "md_membership md = md_membership db0" if st: "store x db0 = (y, md)" for x y db0 md
      using assms(2) st unfolding records_only_def by (metis snd_conv)+
    show ?thesis
      using assms(1) v s Inr c same_id
      by (auto simp: store_submission_def event_repo_create_def Let_def writes split: option.splits if_splits sum.splits prod.splits)
  qed
qed

text \<open>The table that is written gets one record for the room of the path and the member, which it did not hold.\<close>

definition record_made ::
  "string \<Rightarrow> string \<Rightarrow> membership_state \<Rightarrow> (string \<times> membership) list \<Rightarrow> (string \<times> membership) list \<Rightarrow> bool" where
  "record_made room_id user_id m rows rows' \<longleftrightarrow>
     map_of rows (room_user_id room_id user_id) = None \<and>
     (\<exists>x. m_room_id x = room_id \<and> m_user_id x = user_id \<and> m_membership x = m \<and>
        rows' = (room_user_id room_id user_id, x) # rows)"

lemma submitted_member_ids:
  "m_room_id (submitted_member now room_id sender m reason e) = room_id"
  "m_user_id (submitted_member now room_id sender m reason e) = sender"
  "m_membership (submitted_member now room_id sender m reason e) = m"
  by (simp_all add: submitted_member_def new_membership_def)

lemma create_membership_record:
  assumes "create_membership mw x md = (r, md')"
  shows "md_room_membership md' = md_room_membership md \<and> \<not> is_ok r \<or>
     record_made (m_room_id x) (m_user_id x) (m_membership x) (md_room_membership md) (md_room_membership md')"
  using assms by (auto simp: create_membership_def record_made_def Let_def split: option.splits if_splits)

lemma store_submission_record:
  assumes "store_submission w ck (create_membership mw) room_id sender m e db = (r, db')"
  shows "md_room_membership (hd_mod db') = md_room_membership (hd_mod db) \<and> \<not> is_ok r \<or>
     record_made room_id sender m (md_room_membership (hd_mod db)) (md_room_membership (hd_mod db')) \<and>
     md_events (hd_mod db') \<noteq> md_events (hd_mod db)"
proof -
  obtain v db1 where v: "sign_submitted_event w ck e db = (v, db1)" by fastforce
  note s = sign_submitted_event_result [OF v]
  show ?thesis
  proof (cases v)
    case (Inl status)
    then show ?thesis using assms v s by (auto simp: store_submission_def)
  next
    case signed: (Inr e')
    obtain u es where u: "event_repo_create (mo_levels (hs_mod w)) e' (md_events (hd_mod db1)) = (u, es)" by fastforce
    show ?thesis
    proof (cases u)
      case (Inl err)
      then show ?thesis using assms v s signed u by (auto simp: store_submission_def)
    next
      case (Inr stored)
      then have more: "es \<noteq> md_events (hd_mod db1)"
        using u by (auto simp: event_repo_create_def split: option.splits if_splits)
      let ?md = "(hd_mod db1)\<lparr>md_events := es\<rparr>"
      obtain reason y md where y: "create_membership mw (submitted_member (hk_now ck) room_id sender m reason stored) ?md = (y, md)"
        "hd_mod db' = md" "is_ok r \<longrightarrow> is_ok y"
        using assms v signed u Inr by (auto simp: store_submission_def Let_def split: sum.splits prod.splits)
      have "md_events md = es"
        using membership_writes_records_only(1) [of mw] y(1) unfolding records_only_def
        by (metis snd_conv mod_db.select_convs(3) mod_db.surjective mod_db.update_convs(3))
      then show ?thesis using create_membership_record [OF y(1), unfolded submitted_member_ids] y(2,3) s more by auto
    qed
  qed
qed

text \<open>The events that are stored do not depend on the room of the path.\<close>

lemma store_submission_room:
  assumes "records_only store"
  shows "md_events (hd_mod (snd (store_submission w ck store room_id sender m e db))) =
     md_events (hd_mod (snd (store_submission w ck store room_id' sender m e db)))"
proof -
  have writes: "md_events md = md_events db0" if "store x db0 = (y, md)" for x y db0 md
    using assms that unfolding records_only_def by (metis snd_conv)
  show ?thesis by (auto simp: store_submission_def Let_def writes split: sum.splits prod.splits)
qed

section \<open>Joins and leaves of other servers\<close>

text \<open>The event is a membership of its own sender, who is a user of the origin.\<close>

definition own_membership :: "string \<Rightarrow> string \<Rightarrow> string \<Rightarrow> json \<Rightarrow> string \<Rightarrow> bool" where
  "own_membership membership origin event_id payload sender \<longleftrightarrow>
     Option.bind (get payload ''type'') as_str = Some ''m.room.member'' \<and>
     Option.bind (get payload ''sender'') as_str = Some sender \<and>
     Option.bind (get payload ''state_key'') as_str = Some sender \<and>
     Option.bind (Option.bind (get payload ''content'') (\<lambda>c. get c ''membership'')) as_str = Some membership \<and>
     unwrap_or [] (Option.bind (get payload ''event_id'') as_str) = event_id \<and>
     unwrap_or [] (domain_part sender) = origin"

lemma submitted_sender_Inr_iff:
  "submitted_sender membership origin event_id payload = Inr sender \<longleftrightarrow> own_membership membership origin event_id payload sender"
  unfolding submitted_sender_def own_membership_def result_simps by auto

lemma known_hs_room_Inr_iff:
  "known_hs_room w room_id = Inr room \<longleftrightarrow> mo_fail (hs_mod w) ModRoom = None \<and> mo_rooms (hs_mod w) room_id = Some room"
  by (auto simp: known_hs_room_def mod_room_def result_simps)

lemma may_leave_Inr_iff:
  "may_leave w room_id sender db = Inr u \<longleftrightarrow>
     (\<exists>m. get_membership (hs_mod w) room_id sender (hd_mod db) = Inr (Some m) \<and> m_membership m \<notin> {Leave, Ban})"
  unfolding may_leave_def result_simps by (auto split: membership_state.splits) (metis membership_state.exhaust)

text \<open>What is stored of an accepted submission.\<close>

definition stored_submission ::
  "hs_world \<Rightarrow> hs_clocks \<Rightarrow> string \<Rightarrow> string \<Rightarrow> string \<Rightarrow> json \<Rightarrow> string \<Rightarrow> hs_db \<Rightarrow> hs_db \<Rightarrow> event \<Rightarrow> bool" where
  "stored_submission w ck membership origin event_id payload sender db db' e' \<longleftrightarrow>
     own_membership membership origin event_id payload sender \<and>
     (\<exists>e db0. hd_mod db0 = hd_mod db \<and> accepts_submission w ck origin payload db0 e \<and>
        countersigned w ck (hd_signing db') e e' \<and> ev_event_id e' = ev_event_id e \<and>
        ev_event_id e \<notin> ev_event_id ` set (md_events (hd_mod db))) \<and>
     md_events (hd_mod db') = md_events (hd_mod db) @ [e']"

lemma send_join_signed:
  assumes "send_join w ck authorization room_id event_id payload db = (r, db')"
    and "signed_request w ck authorization ''PUT'' ''/send_join''
           (Inr (case json_to_string (sw_crypto (hs_session w)) payload of Inr s \<Rightarrow> s | Inl _ \<Rightarrow> [])) db = (Inr origin, db1)"
  shows "md_membership (hd_mod db') = md_membership (hd_mod db) \<and>
     (md_events (hd_mod db') = md_events (hd_mod db) \<and>
        md_room_membership (hd_mod db') = md_room_membership (hd_mod db) \<and> \<not> is_ok r \<or>
      (\<exists>room sender e'. mo_rooms (hs_mod w) room_id = Some room \<and> handshake_join_allowed room \<and>
         stored_submission w ck ''join'' origin event_id payload sender db db' e' \<and>
         (md_room_membership (hd_mod db') = md_room_membership (hd_mod db) \<and> \<not> is_ok r \<or>
          record_made room_id sender Join (md_room_membership (hd_mod db)) (md_room_membership (hd_mod db'))) \<and>
         (\<forall>a. r = Inr a \<longrightarrow> fst a = e')))"
proof -
  let ?checks = "bindR (submitted_sender ''join'' origin event_id payload) (\<lambda>sender.
      bindR (known_hs_room w room_id) (\<lambda>room.
      bindR (ensure (handshake_join_allowed room) 403) (\<lambda>_. Inr sender)))"
  note same = signed_request_mod [OF assms(2)]
  show ?thesis
  proof (cases ?checks)
    case (Inl status)
    then show ?thesis using assms same by (auto simp: send_join_def)
  next
    case (Inr sender)
    then have checks: "own_membership ''join'' origin event_id payload sender"
      "\<exists>room. mo_rooms (hs_mod w) room_id = Some room \<and> handshake_join_allowed room"
      by (auto simp: result_simps submitted_sender_Inr_iff known_hs_room_Inr_iff)
    obtain v db2 where v: "validated_submission w ck origin payload db1 = (v, db2)" by fastforce
    note validated = validated_submission_result [OF v]
    show ?thesis
    proof (cases v)
      case (Inl status)
      then show ?thesis using assms same Inr v validated by (auto simp: send_join_def)
    next
      case e: (Inr e)
      obtain s db3 where s: "store_submission w ck (create_membership (hs_mod w)) room_id sender Join e db2 = (s, db3)" by fastforce
      note stored = store_submission_result [OF s membership_writes_records_only(1)]
      note made = store_submission_record [OF s]
      have db': "db' = db3" "\<And>a. r = Inr a \<Longrightarrow> s = Inr (fst a)"
        using assms Inr v e s by (auto simp: send_join_def result_simps split: sum.splits)
      have "stored_submission w ck ''join'' origin event_id payload sender db db' e'"
        if "countersigned w ck (hd_signing db3) e e'" "ev_event_id e' = ev_event_id e"
          "ev_event_id e \<notin> ev_event_id ` set (md_events (hd_mod db2))" "md_events (hd_mod db3) = md_events (hd_mod db2) @ [e']" for e'
        using that checks(1) validated e same db'(1) unfolding stored_submission_def by metis
      moreover have "\<not> is_ok s \<Longrightarrow> \<not> is_ok r" using db'(2) by (metis is_ok_iff)
      moreover have "\<forall>a. r = Inr a \<longrightarrow> fst a = e'" if "\<forall>x. s = Inr x \<longrightarrow> x = e'" for e' using that db'(2) by blast
      moreover have "hd_mod db2 = hd_mod db" using validated same by simp
      ultimately show ?thesis
        using stored made checks(2) unfolding db'(1) by metis
    qed
  qed
qed

lemma handshake_join_allowed_iff:
  "handshake_join_allowed room \<longleftrightarrow>
     unwrap_or ''invite'' (r_join_rules room) \<in> {''public'', ''invite'', ''restricted'', ''knock'', ''knock_restricted''} \<and>
     r_federate room \<noteq> Some False"
  by (auto simp: handshake_join_allowed_def validate_room_join_rules_allow_federation_def
      validate_room_version_supports_federation_def)


text \<open>
  The room of the path decides only whether a join is admitted: the events that are stored are the
  same for any two rooms that admit joins. So a room that is closed can be joined through an open one,
  with an event that names the closed one.
\<close>

theorem join_room_not_compared:
  assumes "known_hs_room w room_id = Inr room" "handshake_join_allowed room"
    and "known_hs_room w room_id' = Inr room'" "handshake_join_allowed room'"
  shows "md_events (hd_mod (snd (send_join w ck authorization room_id event_id payload db))) =
     md_events (hd_mod (snd (send_join w ck authorization room_id' event_id payload db)))"
proof -
  obtain v db1 where v: "signed_request w ck authorization ''PUT'' ''/send_join''
      (Inr (case json_to_string (sw_crypto (hs_session w)) payload of Inr s \<Rightarrow> s | Inl _ \<Rightarrow> [])) db = (v, db1)" by fastforce
  show ?thesis
  proof (cases v)
    case (Inl status)
    then show ?thesis using v by (simp add: send_join_def)
  next
    case origin: (Inr origin)
    show ?thesis
    proof (cases "submitted_sender ''join'' origin event_id payload")
      case (Inl status)
      then show ?thesis using v origin by (simp add: send_join_def)
    next
      case sender: (Inr sender)
      obtain u db2 where u: "validated_submission w ck origin payload db1 = (u, db2)" by fastforce
      show ?thesis
      proof (cases u)
        case (Inl status)
        then show ?thesis using v origin sender u assms by (simp add: send_join_def ensure_def)
      next
        case e: (Inr e)
        have join: "md_events (hd_mod (snd (send_join w ck authorization i event_id payload db))) =
            md_events (hd_mod (snd (store_submission w ck (create_membership (hs_mod w)) i sender Join e db2)))"
          if "known_hs_room w i = Inr room0" "handshake_join_allowed room0" for i room0
          using that v origin sender u e by (simp add: send_join_def ensure_def split: sum.splits prod.splits)
        show ?thesis
          unfolding join [OF assms(1,2)] join [OF assms(3,4)]
          by (rule store_submission_room [OF membership_writes_records_only(1)])
      qed
    qed
  qed
qed

text \<open>The same for a leave, which besides needs a record of the member that is neither a leave nor a ban.\<close>

theorem send_leave_sound:
  assumes "send_leave w ck store body authorization room_id event_id payload db = (r, db')" and "records_only store"
  shows "md_membership (hd_mod db') = md_membership (hd_mod db) \<and>
     (md_events (hd_mod db') = md_events (hd_mod db) \<and> \<not> is_ok r \<or>
      (\<exists>b origin room sender m e'. body = Inr b \<and> signed_by w ck authorization ''PUT'' ''/send_leave'' b origin (hd_keys db) \<and>
         mo_rooms (hs_mod w) room_id = Some room \<and> handshake_leave_allowed room \<and>
         get_membership (hs_mod w) room_id sender (hd_mod db) = Inr (Some m) \<and> m_membership m \<notin> {Leave, Ban} \<and>
         stored_submission w ck ''leave'' origin event_id payload sender db db' e' \<and> (\<forall>x. r = Inr x \<longrightarrow> x = e')))"
proof -
  obtain v db1 where v: "signed_request w ck authorization ''PUT'' ''/send_leave'' body db = (v, db1)" by fastforce
  note same = signed_request_mod [OF v]
  show ?thesis
  proof (cases v)
    case (Inl status)
    then show ?thesis using assms v same by (auto simp: send_leave_def)
  next
    case origin: (Inr origin)
    obtain b where b: "body = Inr b" "signed_by w ck authorization ''PUT'' ''/send_leave'' b origin (hd_keys db)"
      using signed_request_Inr [OF v [unfolded origin]] by blast
    let ?checks = "bindR (submitted_sender ''leave'' origin event_id payload) (\<lambda>sender.
        bindR (known_hs_room w room_id) (\<lambda>room.
        bindR (ensure (handshake_leave_allowed room) 403) (\<lambda>_.
        bindR (may_leave w room_id sender db1) (\<lambda>_. Inr sender))))"
    show ?thesis
    proof (cases ?checks)
      case (Inl status)
      then show ?thesis using assms v same origin by (auto simp: send_leave_def)
    next
      case (Inr sender)
      then obtain room m where checks: "own_membership ''leave'' origin event_id payload sender"
        "mo_rooms (hs_mod w) room_id = Some room" "handshake_leave_allowed room"
        "get_membership (hs_mod w) room_id sender (hd_mod db1) = Inr (Some m)" "m_membership m \<notin> {Leave, Ban}"
        by (auto simp: result_simps submitted_sender_Inr_iff known_hs_room_Inr_iff may_leave_Inr_iff)
      obtain u db2 where u: "validated_submission w ck origin payload db1 = (u, db2)" by fastforce
      note validated = validated_submission_result [OF u]
      show ?thesis
      proof (cases u)
        case (Inl status)
        then show ?thesis using assms v same origin Inr u validated by (auto simp: send_leave_def)
      next
        case e: (Inr e)
        have s: "store_submission w ck store room_id sender Leave e db2 = (r, db')"
          using assms(1) v origin Inr u e by (simp add: send_leave_def)
        note stored = store_submission_result [OF s assms(2)]
        have "stored_submission w ck ''leave'' origin event_id payload sender db db' e'"
          if "countersigned w ck (hd_signing db') e e'" "ev_event_id e' = ev_event_id e"
            "ev_event_id e \<notin> ev_event_id ` set (md_events (hd_mod db2))" "md_events (hd_mod db') = md_events (hd_mod db2) @ [e']" for e'
          using that checks(1) validated e same unfolding stored_submission_def by metis
        then show ?thesis using stored validated same b checks by metis
      qed
    qed
  qed
qed

text \<open>
  The query for the state of the room has its last condition behind its order, so it is refused
  whenever an event is to be left out: then no join is answered, although it may have been stored.
\<close>

theorem join_not_answered:
  assumes "\<And>left_out es. \<not> is_ok (hs_current_state w room_id (Some left_out) es)"
  shows "\<exists>status. fst (send_join_v1 w ck authorization room_id event_id payload db) = Inl status \<and>
     fst (send_join_v2 w ck authorization room_id event_id payload db) = Inl status"
proof -
  have refused: "hs_current_state w room_id (Some i) es \<noteq> Inr x" for i es x
    using assms [of i es] by auto
  obtain r db' where r: "send_join w ck authorization room_id event_id payload db = (r, db')" by fastforce
  have "r \<noteq> Inr a" for a
    using r refused by (auto simp: send_join_def result_simps split: sum.splits prod.splits)
  then obtain status where "r = Inl status" by (cases r) auto
  then show ?thesis using r by (simp add: send_join_v1_def send_join_v2_def)
qed

text \<open>
  The two versions of \<open>send_leave\<close> never succeed in the same state: the first needs that there is no
  record of the member in the table it writes, the second that there is one. Neither writes the table
  in which the leave would be seen.
\<close>

lemma store_submission_Inr:
  assumes "store_submission w ck store room_id sender m e db = (Inr e', db')"
  shows "\<exists>md reason x. md_room_membership md = md_room_membership (hd_mod db) \<and>
     store (submitted_member (hk_now ck) room_id sender m reason e') md = (Inr x, hd_mod db')"
proof -
  obtain v db1 where v: "sign_submitted_event w ck e db = (v, db1)" by fastforce
  show ?thesis
    using assms v sign_submitted_event_result [OF v]
    by (fastforce simp: store_submission_def event_repo_create_def Let_def split: option.splits if_splits sum.splits prod.splits)
qed

lemma send_leave_Inr:
  assumes "send_leave w ck store body authorization room_id event_id payload db = (Inr e', db')"
  shows "\<exists>md reason x sender. Option.bind (get payload ''sender'') as_str = Some sender \<and>
     md_room_membership md = md_room_membership (hd_mod db) \<and>
     store (submitted_member (hk_now ck) room_id sender Leave reason e') md = (Inr x, hd_mod db')"
proof -
  obtain origin db1 sender e db2 where a: "signed_request w ck authorization ''PUT'' ''/send_leave'' body db = (Inr origin, db1)"
    "submitted_sender ''leave'' origin event_id payload = Inr sender"
    "validated_submission w ck origin payload db1 = (Inr e, db2)"
    "store_submission w ck store room_id sender Leave e db2 = (Inr e', db')"
    using assms by (auto simp: send_leave_def result_simps split: sum.splits prod.splits)
  from store_submission_Inr [OF a(4)] signed_request_mod [OF a(1)] validated_submission_result [OF a(3)] a(2)
  show ?thesis unfolding submitted_sender_Inr_iff own_membership_def by metis
qed

theorem leave_versions_exclude:
  assumes "Option.bind (get payload ''sender'') as_str = Some sender"
  shows "(is_ok (fst (send_leave_v1 w ck authorization room_id event_id payload db)) \<longrightarrow>
       map_of (md_room_membership (hd_mod db)) (room_user_id room_id sender) = None) \<and>
     (is_ok (fst (send_leave_v2 w ck' authorization' room_id event_id payload db)) \<longrightarrow>
       map_of (md_room_membership (hd_mod db)) (room_user_id room_id sender) \<noteq> None)"
proof (intro conjI impI)
  assume "is_ok (fst (send_leave_v1 w ck authorization room_id event_id payload db))"
  then obtain e' db' where l: "send_leave w ck (create_membership (hs_mod w))
      (Inr (case json_to_string (sw_crypto (hs_session w)) payload of Inr s \<Rightarrow> s | Inl _ \<Rightarrow> []))
      authorization room_id event_id payload db = (Inr e', db')"
    by (auto simp: send_leave_v1_def split: sum.splits prod.splits)
  from send_leave_Inr [OF l] assms show "map_of (md_room_membership (hd_mod db)) (room_user_id room_id sender) = None"
    by (auto simp: create_membership_def Let_def submitted_member_ids split: option.splits if_splits)
next
  assume "is_ok (fst (send_leave_v2 w ck' authorization' room_id event_id payload db))"
  then obtain e' db' where l: "send_leave w ck' (update_membership (hs_mod w))
      (map_err (\<lambda>_. 400) (json_to_string (sw_crypto (hs_session w)) payload)) authorization' room_id event_id payload db = (Inr e', db')"
    by (auto simp: send_leave_v2_def split: sum.splits prod.splits)
  from send_leave_Inr [OF l] assms show "map_of (md_room_membership (hd_mod db)) (room_user_id room_id sender) \<noteq> None"
    by (auto simp: update_membership_def Let_def submitted_member_ids split: option.splits if_splits)
qed

section \<open>Templates\<close>

text \<open>
  No template is ever handed out: the text that is checked contains the query as the body of the
  request, which is not JSON, and the signature check fails before it looks at the signature.
\<close>

lemma history_parse_auth_Inl:
  assumes "history_parse_auth authorization = Inl status"
  shows "status \<in> {400, 401}"
proof -
  have params: "history_params ps acc = Inl n \<Longrightarrow> n = 400" for ps acc n
    by (induction ps acc rule: history_params.induct)
      (auto simp: bindR_Inl_iff history_param_def split: prod.splits option.splits if_splits)
  show ?thesis
    using assms by (auto simp: history_parse_auth_def bindR_Inl_iff ok_or_Inl_iff split: prod.splits dest: params)
qed

lemma unreadable_request_refused:
  assumes "sw_from_slice (hs_session w) body = None" and "body \<noteq> []"
  shows "\<exists>status db'. signed_request w ck authorization m u (Inr body) db = (Inl status, db') \<and> status \<in> {400, 401}"
proof (cases "history_parse_auth authorization")
  case (Inl status)
  then show ?thesis using history_parse_auth_Inl [OF Inl] by (simp add: signed_request_def)
next
  case (Inr auth)
  obtain v rows where v: "validate_server_signature (hs_session w) (hk_session ck) (hx_origin auth) (hx_key_id auth)
      (hx_signature auth) m u body (hd_keys db) = (v, rows)" by fastforce
  have "\<not> is_ok (build_canonical_json (hs_session w) m u o' d body)" for o' d
    using assms by (simp add: build_canonical_json_def Let_def)
  then show ?thesis using v Inr by (cases v) (auto simp: signed_request_def validate_server_signature_def result_simps is_ok_iff)
qed

theorem templates_refused:
  assumes "\<And>s. sw_from_slice (hs_session w) (''room_id='' @ s) = None"
  shows "(\<exists>status. fst (make_join w ck authorization room_id user_id ver db) = Inl status \<and> status \<in> {400, 401}) \<and>
     (\<exists>status. fst (make_leave w ck authorization room_id user_id db) = Inl status \<and> status \<in> {400, 401})"
  using unreadable_request_refused [OF assms [of "room_id @ ''&user_id='' @ user_id"], of ck authorization "''GET''" "''/make_join''" db]
    unreadable_request_refused [OF assms [of "room_id @ ''&user_id='' @ user_id"], of ck authorization "''GET''" "''/make_leave''" db]
  by (auto simp: make_join_def make_leave_def)

section \<open>Who may join\<close>

text \<open>
  The join of a user of \<open>origin_server\<close> is permitted by the join rule: to everyone in a public room,
  to who is invited in a room of invited members, and in a restricted room to the members of one of
  the rooms it names, through a local member of that room.
\<close>

definition joined_in :: "hs_world \<Rightarrow> string \<Rightarrow> string \<Rightarrow> hs_db \<Rightarrow> bool" where
  "joined_in w room_id user_id db \<longleftrightarrow>
     (\<exists>m. map_of (md_membership (hd_mod db)) (room_user_id room_id user_id) = Some m \<and> m_membership m = Join)"

definition allowed_by_room :: "hs_world \<Rightarrow> json list \<Rightarrow> string \<Rightarrow> string \<Rightarrow> hs_db \<Rightarrow> string \<Rightarrow> bool" where
  "allowed_by_room w conditions user_id condition_room_id db authorizing_user \<longleftrightarrow>
     (\<exists>condition \<in> set conditions. Option.bind (get condition ''type'') as_str = Some ''m.room_membership'' \<and>
        Option.bind (get condition ''room_id'') as_str = Some condition_room_id) \<and>
     joined_in w condition_room_id user_id db \<and>
     (\<exists>m \<in> snd ` set (md_membership (hd_mod db)). m_user_id m = authorizing_user \<and> m_room_id m = condition_room_id \<and>
        m_membership m = Join \<and> contains_str authorizing_user ('':'' @ hs_homeserver w))"

definition join_permitted :: "hs_world \<Rightarrow> room \<Rightarrow> string \<Rightarrow> hs_db \<Rightarrow> join_auth_result \<Rightarrow> bool" where
  "join_permitted w room user_id db r \<longleftrightarrow>
     (case get_room_join_rules_string w (r_room_id room) db of
        Inl _ \<Rightarrow> False
      | Inr rule \<Rightarrow>
          rule = ''public'' \<and> ja_authorizing_user r = None \<or>
          rule = ''invite'' \<and> ja_authorizing_user r = None \<and>
            (\<exists>m. map_of (md_membership (hd_mod db)) (room_user_id (r_room_id room) user_id) = Some m \<and> m_membership m = Invite) \<or>
          rule = ''restricted'' \<and>
            (\<exists>content conditions condition_room_id authorizing_user.
               get_room_join_rule_content w (r_room_id room) db = Inr content \<and>
               Option.bind (get content ''allow'') as_array = Some conditions \<and>
               ja_authorizing_user r = Some authorizing_user \<and>
               allowed_by_room w conditions user_id condition_room_id db authorizing_user))"

lemma last_update_first_set: "set (last_update_first ms) = set ms"
  by (auto simp: last_update_first_def)

lemma find_authorizing_user_sound:
  assumes "find_authorizing_user w room_id homeserver db = Inr (Some u)"
  shows "\<exists>m \<in> snd ` set (md_membership (hd_mod db)). m_user_id m = u \<and> m_room_id m = room_id \<and> m_membership m = Join \<and>
     contains_str u ('':'' @ homeserver)"
proof -
  obtain m ms where m: "last_update_first (filter (\<lambda>m. m_room_id m = room_id \<and> m_membership m = Join \<and>
      contains_str (m_user_id m) ('':'' @ homeserver)) (map snd (md_membership (hd_mod db)))) = m # ms" "m_user_id m = u"
    using assms by (auto simp: find_authorizing_user_def hs_result_def split: option.splits list.splits)
  then have "m \<in> set (last_update_first (filter (\<lambda>m. m_room_id m = room_id \<and> m_membership m = Join \<and>
      contains_str (m_user_id m) ('':'' @ homeserver)) (map snd (md_membership (hd_mod db)))))" by simp
  then show ?thesis using m(2) unfolding last_update_first_set by force
qed

lemma check_room_membership_condition_sound:
  assumes "check_room_membership_condition w user_id condition_room_id origin db = Inr u"
  shows "joined_in w condition_room_id user_id db \<and>
     (\<exists>m \<in> snd ` set (md_membership (hd_mod db)). m_user_id m = u \<and> m_room_id m = condition_room_id \<and> m_membership m = Join \<and>
       contains_str u ('':'' @ hs_homeserver w))"
proof -
  obtain m where m: "get_membership (hs_mod w) condition_room_id user_id (hd_mod db) = Inr (Some m)" "m_membership m = Join"
    "find_authorizing_user w condition_room_id (hs_homeserver w) db = Inr (Some u)"
    using assms unfolding check_room_membership_condition_def
    by (auto simp: result_simps split: option.splits if_splits)
  then have "joined_in w condition_room_id user_id db"
    using m(1) by (simp add: joined_in_def get_membership_def mod_result_Inr_iff) (metis m(2))
  then show ?thesis using find_authorizing_user_sound [OF m(3)] by blast
qed

lemma handshake_allow_conditions_sound:
  assumes "handshake_allow_conditions w user_id origin db conditions = Inr r" and "ja_allowed r"
  shows "\<exists>c u. ja_authorizing_user r = Some u \<and> allowed_by_room w conditions user_id c db u"
  using assms
proof (induction conditions)
  case Nil
  then show ?case by (cases r) auto
next
  case (Cons condition conditions)
  show ?case
  proof (cases "handshake_allow_conditions w user_id origin db conditions = Inr r")
    case True
    then show ?thesis using Cons.IH Cons.prems(2) unfolding allowed_by_room_def by (metis list.set_intros(2))
  next
    case False
    then obtain c where ty: "unwrap_or [] (Option.bind (get condition ''type'') as_str) = ''m.room_membership''"
      and id: "Option.bind (get condition ''room_id'') as_str = Some c"
      using Cons.prems by (auto simp: result_simps split: if_splits)
    obtain u where u: "check_room_membership_condition w user_id c origin db = Inr u" "ja_authorizing_user r = Some u"
      using Cons.prems ty id False by (cases r) (auto split: sum.splits)
    have "Option.bind (get condition ''type'') as_str = Some ''m.room_membership''"
      using ty by (cases "Option.bind (get condition ''type'') as_str") auto
    then show ?thesis using id u check_room_membership_condition_sound [OF u(1)] unfolding allowed_by_room_def by auto
  qed
qed

theorem join_authorization_sound:
  assumes "check_join_authorization w room user_id origin db = Inr r" and "ja_allowed r"
  shows "domain_part user_id = Some origin \<and> join_permitted w room user_id db r"
proof -
  obtain rule where j: "domain_part user_id = Some origin" "get_room_join_rules_string w (r_room_id room) db = Inr rule"
    using assms(1) unfolding check_join_authorization_def result_simps by auto
  show ?thesis
  proof (cases "rule = ''restricted''")
    case True
    then have "check_restricted_room_conditions w room user_id origin db = Inr r"
      using assms(1) j by (simp add: check_join_authorization_def ensure_def)
    then obtain content conditions where "get_room_join_rule_content w (r_room_id room) db = Inr content"
      "Option.bind (get content ''allow'') as_array = Some conditions"
      "handshake_allow_conditions w user_id origin db conditions = Inr r"
      unfolding check_restricted_room_conditions_def result_simps by auto
    then show ?thesis using j True handshake_allow_conditions_sound [OF _ assms(2)] by (fastforce simp: join_permitted_def)
  next
    case False
    then show ?thesis
      using assms j by (auto simp: check_join_authorization_def ensure_def join_permitted_def get_membership_def result_simps
          split: if_splits option.splits)
  qed
qed

section \<open>Witnesses\<close>

text \<open>
  A server with a signing key and a public room, where every signature verifies; the other server is
  \<open>x\<close>, whose user \<open>@b:x\<close> is joined to the room in the table that is read.
\<close>

definition handshake_demo :: hs_world where
  "handshake_demo =
     \<lparr>hs_mod = mod_demo\<lparr>mo_rooms := [''!r:x'' \<mapsto> (new_room 0 0 ''!r:x'' ''6'' ''@a:x'')\<lparr>r_join_rules := Some ''public''\<rparr>]\<rparr>,
      hs_session = hi_session history_demo, hs_pdu = (\<lambda>db. pdu_demo), hs_validator_ok = True, hs_fail = (\<lambda>call. None),
      hs_member_row = (\<lambda>fields v. JObject [(''join_rule'', JString ''public'')]), hs_row_error = Database ''row'',
      hs_ids = Inr, hs_current_state = (\<lambda>room left_out es. Inl (Database ''syntax''))\<rparr>"

definition handshake_demo_clocks :: hs_clocks where
  "handshake_demo_clocks = \<lparr>hk_session = session_demo_clocks, hk_pdu = pdu_clocks, hk_key = 0, hk_key_created = 0,
     hk_key_read = 0, hk_seed = [], hk_now = 7\<rparr>"

definition handshake_demo_key :: server_signing_key where
  "handshake_demo_key = \<lparr>sg_key_id = ''ed25519:k'', sg_server_name = ''a.org'', sg_private_key = ''pk'', sg_public_key = ''pk'',
     sg_created_at = 0, sg_expires_at = None, sg_is_active = True\<rparr>"

definition handshake_demo_db :: hs_db where
  "handshake_demo_db =
     \<lparr>hd_mod = \<lparr>md_membership = [(room_user_id ''!r:x'' ''@b:x'', new_membership ''!r:x'' ''@b:x'' Join)],
        md_room_membership = [], md_events = []\<rparr>, hd_keys = [], hd_signing = [handshake_demo_key]\<rparr>"

definition handshake_payload :: "string \<Rightarrow> json" where
  "handshake_payload membership = JObject [(''type'', JString ''m.room.member''), (''sender'', JString ''@b:x''),
     (''state_key'', JString ''@b:x''), (''content'', JObject [(''membership'', JString membership)]), (''event_id'', JString ''$e'')]"

abbreviation handshake_header :: "string option option" where
  "handshake_header \<equiv> Some (Some ''X-Matrix origin=x,key=ed25519:k,sig=s'')"

lemma handshake_demo_header:
  "history_parse_auth handshake_header = Inr \<lparr>hx_origin = ''x'', hx_key_id = ''k'', hx_signature = ''s''\<rparr>"
  by (simp add: history_parse_auth_def history_param_def trim_def trim_quotes_def is_ascii_space_def byte_def)

lemma handshake_demo_fields:
  "hs_session handshake_demo = hi_session history_demo" "hs_pdu handshake_demo = (\<lambda>db. pdu_demo)"
  "hs_validator_ok handshake_demo" "hk_session handshake_demo_clocks = session_demo_clocks"
  "hk_pdu handshake_demo_clocks = pdu_clocks" "hk_key handshake_demo_clocks = 0" "hk_key_read handshake_demo_clocks = 0"
  "hs_homeserver handshake_demo = ''a.org''" "hd_keys handshake_demo_db = []" "hd_signing handshake_demo_db = [handshake_demo_key]"
  "md_events (hd_mod handshake_demo_db) = []" "md_room_membership (hd_mod handshake_demo_db) = []"
  by (simp_all add: handshake_demo_def handshake_demo_clocks_def handshake_demo_db_def mod_demo_def app_demo_def)

lemma handshake_demo_rooms:
  "\<exists>room. known_hs_room handshake_demo ''!r:x'' = Inr room \<and> handshake_join_allowed room \<and>
     handshake_leave_allowed room"
  by (simp add: known_hs_room_Inr_iff handshake_demo_def mod_demo_def new_room_def handshake_join_allowed_def
      handshake_leave_allowed_def validate_room_join_rules_allow_federation_def
      validate_room_version_supports_federation_def)

lemma handshake_demo_text: "json_to_string (sw_crypto (hi_session history_demo)) v = Inr ''json''"
  by (simp add: history_demo_def demo_crypto_def)

lemma handshake_demo_signed:
  "signed_request handshake_demo handshake_demo_clocks handshake_header m u (Inr ''json'') handshake_demo_db =
     (Inr ''x'', handshake_demo_db)"
proof -
  obtain t where "build_canonical_json (hi_session history_demo) m u ''x''
      (homeserver_name (sw_crypto (hi_session history_demo))) ''json'' = Inr t"
    by (simp add: build_canonical_json_def history_demo_def session_demo_def session_canonical_agrees
        pdu_canonical_json_compact [of _ "\<lambda>s. s"] pdu_demo_def)
  moreover have "session_get_server_public_key (hi_session history_demo) session_demo_clocks ''x'' ''k'' [] = (Inr ''pk'', [])"
    by (simp add: session_get_server_public_key_def history_demo_def)
  moreover have "verify_ed25519_signature (sw_crypto (hi_session history_demo)) ''s'' t ''pk'' = Inr ()" for t
    by (simp add: verify_ed25519_signature_def history_demo_def demo_crypto_def ensure_def)
  ultimately have "\<exists>sa. validate_server_signature (hi_session history_demo) session_demo_clocks ''x'' ''k'' ''s'' m u ''json'' [] =
      (Inr sa, [])"
    by (auto simp: validate_server_signature_def bindS_def liftS_def)
  then show ?thesis by (auto simp: signed_request_def handshake_demo_header handshake_demo_fields)
qed

lemma handshake_demo_valid:
  "validated_submission handshake_demo handshake_demo_clocks ''x'' (handshake_payload m) handshake_demo_db =
     (Inr pdu_ban_received, handshake_demo_db)"
proof -
  have "validate_format pdu_demo pdu_clocks (handshake_payload m) = Inr pdu_ban_received"
    by (simp add: validate_format_def validate_basic_format_def validate_version_format_def
        room_version_or_1_def get_room_version_def validate_room_v1_v2_format_def ensure_def
        pdu_clocks_def pdu_demo_defs contains_iff)
  moreover have "validate_event_hashes_with_redaction pdu_demo pdu_ban_received (handshake_payload m) = Inr HashesValid"
    by (simp add: validate_event_hashes_with_redaction_def room_version_or_1_def get_room_version_def
        hash_versions_def validate_reference_hashes_def validate_event_id_format_def ensure_def handshake_payload_def
        pdu_demo_defs)
  ultimately have "validate_pdu pdu_demo pdu_clocks (handshake_payload m) ''x'' [] = (Inr (Valid pdu_ban_received), [])"
    by (simp add: validate_pdu_def bindS_def liftS_def pdu_demo_new pdu_demo_crypto pdu_demo_signed pdu_demo_steps)
  then show ?thesis by (simp add: validated_submission_def handshake_demo_fields)
qed

lemma handshake_demo_sender:
  "submitted_sender m ''x'' ''$e'' (handshake_payload m) = Inr ''@b:x''"
  by (simp add: submitted_sender_def handshake_payload_def domain_part_def ensure_def)

lemma handshake_demo_own:
  "\<exists>e. sign_submitted_event handshake_demo handshake_demo_clocks pdu_ban_received handshake_demo_db = (Inr e, handshake_demo_db) \<and>
     ev_event_id e = ''$ban-of-member-b''"
proof -
  have "get_server_signing_key (hi_session history_demo) 0 t s ''a.org'' [handshake_demo_key] = (Inr handshake_demo_key, [handshake_demo_key])" for t s
    by (simp add: get_server_signing_key_def get_server_signing_key_by_server_def handshake_demo_key_def key_usable_def
        history_demo_def session_demo_def)
  moreover have "get_private_key_for_signing 0 (sg_key_id handshake_demo_key) [handshake_demo_key] = Some ''pk''"
    by (simp add: get_private_key_for_signing_def handshake_demo_key_def key_usable_def)
  moreover have "b64_decode (sw_crypto (hi_session history_demo)) ''pk'' = Some (replicate 32 CHR ''b'')"
    by (simp add: history_demo_def)
  ultimately show ?thesis
    by (simp add: sign_submitted_event_def handshake_demo_fields signing_text_def handshake_demo_text session_sign_json_def
        ensure_def with_own_signature_def pdu_ban_id)
qed

lemma handshake_demo_store:
  assumes "store = create_membership (hs_mod handshake_demo)"
  shows "\<exists>e db'. store_submission handshake_demo handshake_demo_clocks store ''!r:x'' ''@b:x'' m pdu_ban_received handshake_demo_db =
     (Inr e, db') \<and> md_events (hd_mod db') = [e]"
proof -
  obtain e where e: "sign_submitted_event handshake_demo handshake_demo_clocks pdu_ban_received handshake_demo_db = (Inr e, handshake_demo_db)"
    using handshake_demo_own by blast
  have "mo_fail (hs_mod handshake_demo) MembershipWrite = None" "lw_fail (mo_levels (hs_mod handshake_demo)) EventCreate = None"
    by (simp_all add: handshake_demo_def mod_demo_def level_demo_def)
  then show ?thesis
    by (simp add: store_submission_def e event_repo_create_def Let_def assms create_membership_def handshake_demo_fields)
qed

lemma handshake_demo_join:
  "\<exists>db'. send_join handshake_demo handshake_demo_clocks handshake_header ''!r:x'' ''$e'' (handshake_payload ''join'') handshake_demo_db =
     (Inl 500, db') \<and> md_events (hd_mod db') \<noteq> []"
proof -
  obtain room where room: "known_hs_room handshake_demo ''!r:x'' = Inr room" "handshake_join_allowed room"
    using handshake_demo_rooms by blast
  obtain e db' where s: "store_submission handshake_demo handshake_demo_clocks (create_membership (hs_mod handshake_demo))
      ''!r:x'' ''@b:x'' Join pdu_ban_received handshake_demo_db = (Inr e, db')" "md_events (hd_mod db') = [e]"
    using handshake_demo_store by blast
  have "hs_current_state handshake_demo r i es = Inl (Database ''syntax'')" for r i es by (simp add: handshake_demo_def)
  then show ?thesis
    using s by (simp add: send_join_def handshake_demo_text handshake_demo_fields handshake_demo_signed [unfolded handshake_demo_fields]
        handshake_demo_signed handshake_demo_sender room handshake_demo_valid ensure_def)
qed


theorem join_not_answered_witness:
  "\<exists>db'. send_join handshake_demo handshake_demo_clocks handshake_header ''!r:x'' ''$e'' (handshake_payload ''join'') handshake_demo_db =
       (Inl 500, db') \<and> md_events (hd_mod db') \<noteq> [] \<and>
     (\<exists>status. fst (send_join_v1 handshake_demo handshake_demo_clocks handshake_header ''!r:x'' ''$e'' (handshake_payload ''join'')
        handshake_demo_db) = Inl status)"
proof -
  have "\<not> is_ok (hs_current_state handshake_demo ''!r:x'' (Some left_out) es)" for left_out es by (simp add: handshake_demo_def)
  from join_not_answered [OF this] handshake_demo_join show ?thesis by blast
qed

lemma handshake_demo_leave:
  "\<exists>db' e. send_leave handshake_demo handshake_demo_clocks (create_membership (hs_mod handshake_demo)) (Inr ''json'') handshake_header
       ''!r:x'' ''$e'' (handshake_payload ''leave'') handshake_demo_db = (Inr e, db') \<and> md_events (hd_mod db') \<noteq> []"
proof -
  obtain room where room: "known_hs_room handshake_demo ''!r:x'' = Inr room" "handshake_leave_allowed room"
    using handshake_demo_rooms by blast
  obtain e db' where s: "store_submission handshake_demo handshake_demo_clocks (create_membership (hs_mod handshake_demo))
      ''!r:x'' ''@b:x'' Leave pdu_ban_received handshake_demo_db = (Inr e, db')" "md_events (hd_mod db') = [e]"
    using handshake_demo_store by blast
  have "may_leave handshake_demo ''!r:x'' ''@b:x'' handshake_demo_db = Inr ()"
    by (simp add: may_leave_Inr_iff get_membership_def mod_result_def handshake_demo_def mod_demo_def handshake_demo_db_def
        new_membership_def)
  then show ?thesis
    using s by (simp add: send_leave_def handshake_demo_signed handshake_demo_sender room handshake_demo_valid ensure_def)
qed

theorem send_leave_sound_witness:
  "\<exists>e db' origin sender. send_leave handshake_demo handshake_demo_clocks (create_membership (hs_mod handshake_demo)) (Inr ''json'')
       handshake_header ''!r:x'' ''$e'' (handshake_payload ''leave'') handshake_demo_db = (Inr e, db') \<and>
     stored_submission handshake_demo handshake_demo_clocks ''leave'' origin ''$e'' (handshake_payload ''leave'') sender
       handshake_demo_db db' e"
proof -
  obtain e db' where l: "send_leave handshake_demo handshake_demo_clocks (create_membership (hs_mod handshake_demo)) (Inr ''json'')
       handshake_header ''!r:x'' ''$e'' (handshake_payload ''leave'') handshake_demo_db = (Inr e, db')"
    using handshake_demo_leave by blast
  from send_leave_sound [OF l membership_writes_records_only(1)] l show ?thesis by auto
qed

theorem leave_versions_exclude_witness:
  "is_ok (fst (send_leave_v1 handshake_demo handshake_demo_clocks handshake_header ''!r:x'' ''$e'' (handshake_payload ''leave'')
       handshake_demo_db)) \<and>
   \<not> is_ok (fst (send_leave_v2 handshake_demo handshake_demo_clocks handshake_header ''!r:x'' ''$e'' (handshake_payload ''leave'')
       handshake_demo_db))"
proof -
  have "Option.bind (get (handshake_payload ''leave'') ''sender'') as_str = Some ''@b:x''" by (simp add: handshake_payload_def)
  from leave_versions_exclude [OF this, of handshake_demo handshake_demo_clocks handshake_header "''!r:x''" "''$e''" handshake_demo_db
      handshake_demo_clocks handshake_header]
  have "\<not> is_ok (fst (send_leave_v2 handshake_demo handshake_demo_clocks handshake_header ''!r:x'' ''$e'' (handshake_payload ''leave'')
       handshake_demo_db))"
    by (simp add: handshake_demo_fields)
  moreover obtain e db' where "send_leave handshake_demo handshake_demo_clocks (create_membership (hs_mod handshake_demo)) (Inr ''json'')
       handshake_header ''!r:x'' ''$e'' (handshake_payload ''leave'') handshake_demo_db = (Inr e, db')"
    using handshake_demo_leave by blast
  ultimately show ?thesis by (simp add: send_leave_v1_def handshake_demo_fields(1) handshake_demo_text)
qed

theorem templates_refused_witness:
  "\<exists>status. fst (make_join handshake_demo handshake_demo_clocks handshake_header ''!r:x'' ''@b:x'' None handshake_demo_db) = Inl status"
proof -
  have "sw_from_slice (hs_session handshake_demo) (''room_id='' @ s) = None" for s
    by (simp add: handshake_demo_fields(1) history_demo_def)
  from templates_refused [OF this] show ?thesis by blast
qed

theorem join_authorization_sound_witness:
  "domain_part ''@b:x'' = Some ''x'' \<and>
   join_permitted handshake_demo (new_room 0 0 ''!r:x'' ''6'' ''@a:x'') ''@b:x''
     (handshake_demo_db\<lparr>hd_mod := (hd_mod handshake_demo_db)\<lparr>md_events :=
        [state_event ''m.room.join_rules'' [] ''$j'' [(''join_rule'', JString ''public'')]]\<rparr>\<rparr>)
     \<lparr>ja_allowed = True, ja_reason = ''Public room'', ja_error_code = [], ja_authorizing_user = None\<rparr>"
  (is "_ \<and> join_permitted _ ?room _ ?db ?r")
proof -
  have "check_join_authorization handshake_demo ?room ''@b:x'' ''x'' ?db = Inr ?r"
    by (simp add: check_join_authorization_def domain_part_def ensure_def get_room_join_rules_string_def member_row_def
        newest_state_def newest_depth_first_def state_events_of_def state_event_def new_event_def new_room_def
        handshake_demo_def hs_result_def handshake_demo_db_def req_string_def struct_fields_def)
  from join_authorization_sound [OF this] show ?thesis by simp
qed

end
