(* ===== verification/Fed_Knock.thy ===== *)
theory Fed_Knock
  imports Fed_Handshake
begin

text \<open>
  Knocks of users of other servers: the endpoints \<open>make_knock\<close> and \<open>send_knock\<close> under
  \<open>server/src/_matrix/federation/v1\<close> with \<open>validate_room_knock_allowed\<close> of
  \<open>server/src/federation/membership_federation.rs\<close> and the queries they run, over the state of
  \<open>Fed_Handshake\<close>.
\<close>

section \<open>Queries\<close>

definition opt_text :: "json option \<Rightarrow> string option option" where
  "opt_text v = (case v of None \<Rightarrow> Some None | Some JNull \<Rightarrow> Some None | Some v \<Rightarrow> map_option Some (as_str v))"

definition opt_texts :: "json option \<Rightarrow> string list option option" where
  "opt_texts v =
     (case v of None \<Rightarrow> Some None | Some JNull \<Rightarrow> Some None
      | Some v \<Rightarrow> map_option Some (Option.bind (as_array v) (\<lambda>xs. those (map as_str xs))))"

definition opt_object :: "json option \<Rightarrow> members option option" where
  "opt_object v = (case v of None \<Rightarrow> Some None | Some JNull \<Rightarrow> Some None | Some v \<Rightarrow> map_option Some (as_object v))"

definition check_room_allows_knocking :: "hs_world \<Rightarrow> string \<Rightarrow> hs_db \<Rightarrow> repository_error + bool" where
  "check_room_allows_knocking w room_id db =
     bindR (hs_result w KnockRules (member_row w [''join_rule''] room_id ''m.room.join_rules'' (md_events (hd_mod db)))) (\<lambda>row.
     case row of
       None \<Rightarrow> Inr False
     | Some r \<Rightarrow>
         bindR (ok_or (case struct_fields [''join_rule''] r of Some [v] \<Rightarrow> opt_text v | _ \<Rightarrow> None) (hs_row_error w)) (\<lambda>join_rule.
         Inr (List.member [''knock'', ''knock_restricted''] (unwrap_or ''invite'' join_rule))))"

definition server_matches_pattern :: "string \<Rightarrow> string \<Rightarrow> bool" where
  "server_matches_pattern server pattern =
     (if pattern = ''*'' then True
      else case strip_prefix ''*.'' pattern of
        Some domain_suffix \<Rightarrow> server = domain_suffix \<or> suffix (''.'' @ domain_suffix) server
      | None \<Rightarrow> server = pattern)"

definition check_server_acls :: "hs_world \<Rightarrow> string \<Rightarrow> string \<Rightarrow> hs_db \<Rightarrow> repository_error + bool" where
  "check_server_acls w room_id server db =
     bindR (hs_result w AclRules (member_row w [''allow'', ''deny''] room_id ''m.room.server_acl'' (md_events (hd_mod db)))) (\<lambda>row.
     case row of
       None \<Rightarrow> Inr True
     | Some r \<Rightarrow>
         ok_or (case struct_fields [''allow'', ''deny''] r of
                  Some [allow, deny] \<Rightarrow>
                    Option.bind (opt_texts allow) (\<lambda>allow.
                    Option.bind (opt_texts deny) (\<lambda>deny.
                    Some (if list_ex (server_matches_pattern server) (unwrap_or [] deny) then False
                          else case allow of
                            Some allow_list \<Rightarrow> list_ex (server_matches_pattern server) allow_list
                          | None \<Rightarrow> True)))
                | _ \<Rightarrow> None) (hs_row_error w))"

definition check_knock_authorization :: "hs_world \<Rightarrow> string \<Rightarrow> string \<Rightarrow> hs_db \<Rightarrow> repository_error + bool" where
  "check_knock_authorization w room_id user_id db =
     bindR (hs_result w KnockLevels (member_row w [''users''] room_id ''m.room.power_levels'' (md_events (hd_mod db)))) (\<lambda>row.
     case row of
       None \<Rightarrow> Inr True
     | Some r \<Rightarrow>
         bindR (ok_or (case struct_fields [''users''] r of Some [v] \<Rightarrow> opt_object v | _ \<Rightarrow> None) (hs_row_error w)) (\<lambda>users.
         Inr (case Option.bind (Option.bind users (\<lambda>us. map_of us user_id)) as_i64 of
                Some user_level \<Rightarrow> \<not> user_level < 0
              | None \<Rightarrow> True)))"

definition stripped_event :: "event \<Rightarrow> json" where
  "stripped_event e = JObject [(''content'', content_to_value (ev_content e)), (''sender'', JString (ev_sender e)),
     (''state_key'', JString (unwrap_or [] (ev_state_key e))), (''type'', JString (ev_event_type e))]"

definition knock_state_types :: "string list" where
  "knock_state_types = [''m.room.create'', ''m.room.join_rules'', ''m.room.power_levels'', ''m.room.name'', ''m.room.topic'',
     ''m.room.avatar'', ''m.room.canonical_alias'']"

definition get_room_state_for_knock :: "hs_world \<Rightarrow> string \<Rightarrow> hs_db \<Rightarrow> repository_error + json list" where
  "get_room_state_for_knock w room_id db =
     hs_result w KnockState (map stripped_event (newest_depth_first (filter (\<lambda>e. ev_room_id e = room_id \<and>
       ev_state_key e \<noteq> None \<and> List.member knock_state_types (ev_event_type e)) (md_events (hd_mod db)))))"

section \<open>Rooms\<close>

definition room_supports_knocking :: "string \<Rightarrow> bool" where
  "room_supports_knocking join_rules = List.member [''knock'', ''knock_restricted''] join_rules"

definition room_version_supports_knocking :: "string \<Rightarrow> bool" where
  "room_version_supports_knocking room_version =
     (if List.member [''7'', ''8'', ''9'', ''10'', ''11''] room_version then True
      else case parse_unsigned (2 ^ 32 - 1) room_version of Some version_num \<Rightarrow> version_num \<ge> 7 | None \<Rightarrow> False)"

definition handshake_knock_allowed :: "room \<Rightarrow> string + bool" where
  "handshake_knock_allowed room =
     (let join_rules = unwrap_or ''invite'' (r_join_rules room) in
      bindR (ensure (room_supports_knocking join_rules) (''Room join rules '' @ [CHR 0x27] @ join_rules @ [CHR 0x27] @ '' do not permit knocking'')) (\<lambda>_.
      bindR (ensure (room_version_supports_knocking (r_room_version room))
        (''Room version '' @ [CHR 0x27] @ r_room_version room @ [CHR 0x27] @ '' does not support knocking (requires v7+)'')) (\<lambda>_.
      bindR (ensure (r_federate room \<noteq> Some False) ''Room has federation disabled'') (\<lambda>_.
      Inr True))))"

text \<open>The first character of the version, as a digit.\<close>

definition version_digit :: "string \<Rightarrow> nat" where
  "version_digit room_version = unwrap_or 1 (case room_version of [] \<Rightarrow> None | c # _ \<Rightarrow> to_digit 10 c)"

section \<open>Members\<close>

definition knock_obstacle :: "hs_world \<Rightarrow> string \<Rightarrow> string \<Rightarrow> hs_db \<Rightarrow> string option" where
  "knock_obstacle w room_id user_id db =
     (case get_membership (hs_mod w) room_id user_id (hd_mod db) of
        Inr (Some m) \<Rightarrow>
          (case m_membership m of
             Join \<Rightarrow> Some ''You are already in the room''
           | Ban \<Rightarrow> Some ''You are banned from the room''
           | Knock \<Rightarrow> Some ''You are already knocking on this room''
           | Invite \<Rightarrow> Some ''You are already invited to this room''
           | _ \<Rightarrow> None)
      | _ \<Rightarrow> None)"

definition forbidden :: "string \<Rightarrow> json" where
  "forbidden message = error_body ''M_FORBIDDEN'' message"

section \<open>Asking to knock\<close>

definition knock_template :: "hs_world \<Rightarrow> int \<Rightarrow> string \<Rightarrow> string \<Rightarrow> string \<Rightarrow> json" where
  "knock_template w now room_id user_id room_version =
     JObject [(''event'', JObject
         [(''type'', JString ''m.room.member''), (''content'', JObject [(''membership'', JString ''knock'')]),
          (''origin'', JString (hs_homeserver w)), (''origin_server_ts'', int_json now), (''room_id'', JString room_id),
          (''sender'', JString user_id), (''state_key'', JString user_id)]),
       (''room_version'', JString room_version)]"

definition make_knock_answer :: "hs_world \<Rightarrow> int \<Rightarrow> string \<Rightarrow> string \<Rightarrow> string list \<Rightarrow> string \<Rightarrow> hs_db \<Rightarrow> nat + json" where
  "make_knock_answer w now room_id user_id ver origin db =
     bindR (ensure (\<not> unwrap_or [] (domain_part user_id) \<noteq> origin) 400) (\<lambda>_.
     bindR (known_hs_room w room_id) (\<lambda>room.
     if \<not> List.member ver (r_room_version room)
     then Inr (JObject [(''errcode'', JString ''M_INCOMPATIBLE_ROOM_VERSION''),
            (''error'', JString ''Your homeserver does not support the features required to knock on this room''),
            (''room_version'', JString (r_room_version room))])
     else
       bindR (map_err (\<lambda>_. 500) (check_room_allows_knocking w room_id db)) (\<lambda>join_rules_valid.
       if \<not> join_rules_valid then Inr (forbidden ''You are not permitted to knock on this room'')
       else case knock_obstacle w room_id user_id db of
         Some message \<Rightarrow> Inr (forbidden message)
       | None \<Rightarrow>
           bindR (map_err (\<lambda>_. 500) (check_server_acls w room_id origin db)) (\<lambda>server_allowed.
           if \<not> server_allowed then Inr (forbidden ''Your server is not permitted to knock on this room'')
           else
             bindR (map_err (\<lambda>_. 500) (handshake_knock_allowed room)) (\<lambda>allowed.
             bindR (ensure allowed 403) (\<lambda>_.
             Inr (knock_template w now room_id user_id (r_room_version room))))))))"

definition knock_uri :: "string \<Rightarrow> string \<Rightarrow> string list \<Rightarrow> string" where
  "knock_uri room_id user_id ver =
     ''/make_knock/'' @ room_id @ ''/'' @ user_id @ ''?ver='' @ joined ''&ver='' ver"

definition make_knock ::
  "hs_world \<Rightarrow> hs_clocks \<Rightarrow> string option option \<Rightarrow> string \<Rightarrow> string \<Rightarrow> string list \<Rightarrow> hs_db \<Rightarrow> (nat + json) \<times> hs_db" where
  "make_knock w ck authorization room_id user_id ver db =
     (case signed_request w ck authorization ''GET'' (knock_uri room_id user_id ver) (Inr []) db of
        (Inl status, db') \<Rightarrow> (Inl status, db')
      | (Inr origin, db') \<Rightarrow> (make_knock_answer w (hk_now ck) room_id user_id ver origin db', db'))"

section \<open>The signatures of a submitted knock\<close>

fun check_knock_signatures ::
  "hs_world \<Rightarrow> hs_clocks \<Rightarrow> json \<Rightarrow> string \<Rightarrow> members \<Rightarrow> key_row list \<Rightarrow> (string + bool) \<times> key_row list" where
  "check_knock_signatures w ck event origin [] rows = (Inr True, rows)"
| "check_knock_signatures w ck event origin ((key_id, signature) # sigs) rows =
     (case strip_prefix ''ed25519:'' key_id of
        None \<Rightarrow> check_knock_signatures w ck event origin sigs rows
      | Some key_id_only \<Rightarrow>
          (case as_str signature of
             None \<Rightarrow> (Inl ''Invalid signature format'', rows)
           | Some sig_str \<Rightarrow>
               (case json_to_string (sw_crypto (hs_session w)) (remove_keys [''signatures'', ''unsigned''] event) of
                  Inl _ \<Rightarrow> (Inl ''JSON'', rows)
                | Inr canonical_json \<Rightarrow>
                    (case validate_server_signature (hs_session w) (hk_session ck) origin key_id_only sig_str ''POST'' ''/events''
                            canonical_json rows of
                       (Inl _, rows') \<Rightarrow> (Inr False, rows')
                     | (Inr _, rows') \<Rightarrow> check_knock_signatures w ck event origin sigs rows'))))"

definition validate_knock_signatures :: "hs_world \<Rightarrow> hs_clocks \<Rightarrow> json \<Rightarrow> key_row list \<Rightarrow> (string + bool) \<times> key_row list" where
  "validate_knock_signatures w ck event rows =
     (case bindR (ok_or (Option.bind (get event ''signatures'') as_object) ''Missing signatures in event'') (\<lambda>signatures.
           bindR (ok_or (Option.bind (get event ''origin'') as_str) ''Missing origin in event'') (\<lambda>origin.
           bindR (ok_or (Option.bind (map_of signatures origin) as_object) ''Missing server signatures for origin'') (\<lambda>server_sigs.
           Inr (origin, server_sigs)))) of
        Inl e \<Rightarrow> (Inl e, rows)
      | Inr (origin, server_sigs) \<Rightarrow> check_knock_signatures w ck event origin server_sigs rows)"

definition validate_pdu_structure :: "json \<Rightarrow> string + bool" where
  "validate_pdu_structure event =
     bindR (ok_or (as_object event) ''Event must be a JSON object'') (\<lambda>event_obj.
     bindR (for_each (\<lambda>field. ensure (map_of event_obj field \<noteq> None) (''Missing required field: '' @ field))
       [''type'', ''content'', ''event_id'', ''sender'', ''origin_server_ts'', ''room_id'', ''signatures'']) (\<lambda>_.
     bindR (ok_or (Option.bind (map_of event_obj ''event_id'') as_str) ''Invalid event_id'') (\<lambda>event_id.
     bindR (ensure (starts_with event_id CHR ''$'') ''event_id must start with $'') (\<lambda>_.
     bindR (ok_or (Option.bind (map_of event_obj ''sender'') as_str) ''Invalid sender'') (\<lambda>sender.
     bindR (ensure (starts_with sender CHR ''@'') ''sender must start with @'') (\<lambda>_.
     bindR (ok_or (Option.bind (map_of event_obj ''room_id'') as_str) ''Invalid room_id'') (\<lambda>room_id.
     bindR (ensure (starts_with room_id CHR ''!'') ''room_id must start with !'') (\<lambda>_.
     bindR (ok_or (Option.bind (map_of event_obj ''origin_server_ts'') as_i64) ''origin_server_ts must be a number'') (\<lambda>_.
     Inr True)))))))))"

section \<open>Submitting a knock\<close>

text \<open>The checks of the event against the path and the origin; the result is its sender and content.\<close>

definition knock_request :: "string \<Rightarrow> string \<Rightarrow> string \<Rightarrow> json \<Rightarrow> nat + string \<times> members" where
  "knock_request origin room_id event_id payload =
     bindR (ok_or (as_object payload) 400) (\<lambda>knock_event.
     bindR (ok_or (Option.bind (map_of knock_event ''type'') as_str) 400) (\<lambda>event_type.
     bindR (ensure (\<not> event_type \<noteq> ''m.room.member'') 400) (\<lambda>_.
     bindR (ok_or (Option.bind (map_of knock_event ''room_id'') as_str) 400) (\<lambda>event_room_id.
     bindR (ensure (\<not> event_room_id \<noteq> room_id) 400) (\<lambda>_.
     bindR (ok_or (Option.bind (map_of knock_event ''event_id'') as_str) 400) (\<lambda>event_event_id.
     bindR (ensure (\<not> event_event_id \<noteq> event_id) 400) (\<lambda>_.
     bindR (ok_or (Option.bind (map_of knock_event ''sender'') as_str) 400) (\<lambda>sender.
     bindR (ok_or (Option.bind (map_of knock_event ''state_key'') as_str) 400) (\<lambda>state_key.
     bindR (ensure (\<not> sender \<noteq> state_key) 400) (\<lambda>_.
     bindR (ensure (\<not> unwrap_or [] (domain_part sender) \<noteq> origin) 400) (\<lambda>_.
     bindR (ok_or (Option.bind (map_of knock_event ''content'') as_object) 400) (\<lambda>content.
     bindR (ok_or (Option.bind (map_of content ''membership'') as_str) 400) (\<lambda>membership.
     bindR (ensure (\<not> membership \<noteq> ''knock'') 400) (\<lambda>_.
     Inr (sender, content)))))))))))))))"

definition knock_room :: "hs_world \<Rightarrow> string \<Rightarrow> nat + room" where
  "knock_room w room_id =
     bindR (known_hs_room w room_id) (\<lambda>room.
     bindR (map_err (\<lambda>_. 500) (handshake_knock_allowed room)) (\<lambda>allowed.
     bindR (ensure allowed 403) (\<lambda>_.
     bindR (ensure (\<not> version_digit (r_room_version room) < 7) 400) (\<lambda>_. Inr room))))"

definition text_list :: "json option \<Rightarrow> string list option" where
  "text_list v = map_option (List.map_filter as_str) (Option.bind v as_array)"

definition text_map :: "members \<Rightarrow> (string \<times> string) list" where
  "text_map ms = map (\<lambda>(k, v). (k, unwrap_or [] (as_str v))) ms"

definition knock_event_of :: "int \<Rightarrow> string \<Rightarrow> string \<Rightarrow> string \<Rightarrow> json \<Rightarrow> event" where
  "knock_event_of now room_id event_id sender payload =
     (new_event event_id sender (unwrap_or now (Option.bind (get payload ''origin_server_ts'') as_i64)) ''m.room.member'' room_id
        (Unknown (unwrap_or JNull (get payload ''content''))))
     \<lparr>ev_state_key := Some sender, ev_unsigned := get payload ''unsigned'',
      ev_prev_events := text_list (get payload ''prev_events''), ev_auth_events := text_list (get payload ''auth_events''),
      ev_depth := Option.bind (get payload ''depth'') as_i64,
      ev_hashes := map_option text_map (Option.bind (get payload ''hashes'') as_object),
      ev_signatures := map_option (map (\<lambda>(server, sigs). (server, text_map (unwrap_or [] (as_object sigs)))))
        (Option.bind (get payload ''signatures'') as_object),
      ev_redacts := Option.bind (get payload ''redacts'') as_str, ev_received_ts := Some now, ev_outlier := Some False\<rparr>"

definition knock_member :: "int \<Rightarrow> string \<Rightarrow> string \<Rightarrow> members \<Rightarrow> membership" where
  "knock_member now room_id sender content =
     (new_membership room_id sender Knock)
     \<lparr>m_reason := Option.bind (map_of content ''reason'') as_str,
      m_avatar_url := Option.bind (map_of content ''avatar_url'') as_str,
      m_display_name := Option.bind (map_of content ''displayname'') as_str,
      m_is_direct := Option.bind (map_of content ''is_direct'') value_bool,
      m_join_authorised_via_users_server := Option.bind (map_of content ''join_authorised_via_users_server'') as_str,
      m_updated_at := Some now\<rparr>"

text \<open>The checks between the request and the signatures; a refusal is an answer, not an error.\<close>

definition knock_refusal :: "hs_world \<Rightarrow> string \<Rightarrow> string \<Rightarrow> string \<Rightarrow> hs_db \<Rightarrow> nat + string option" where
  "knock_refusal w room_id sender origin db =
     bindR (map_err (\<lambda>_. 500) (check_room_allows_knocking w room_id db)) (\<lambda>join_rules_valid.
     if \<not> join_rules_valid then Inr (Some ''You are not permitted to knock on this room'')
     else case knock_obstacle w room_id sender db of
       Some message \<Rightarrow> Inr (Some message)
     | None \<Rightarrow>
         bindR (map_err (\<lambda>_. 500) (check_server_acls w room_id origin db)) (\<lambda>server_allowed.
         Inr (if server_allowed then None else Some ''Your server is not permitted to knock on this room'')))"

definition store_knock ::
  "hs_world \<Rightarrow> hs_clocks \<Rightarrow> string \<Rightarrow> string \<Rightarrow> string \<Rightarrow> members \<Rightarrow> json \<Rightarrow> hs_db \<Rightarrow> (nat + json) \<times> hs_db" where
  "store_knock w ck room_id event_id sender content payload db =
     (case event_repo_create (mo_levels (hs_mod w)) (knock_event_of (hk_now ck) room_id event_id sender payload) (md_events (hd_mod db)) of
        (Inl _, es) \<Rightarrow> (Inl 500, db)
      | (Inr _, es) \<Rightarrow>
          (case create_membership (hs_mod w) (knock_member (hk_now ck) room_id sender content) ((hd_mod db)\<lparr>md_events := es\<rparr>) of
             (Inl _, md) \<Rightarrow> (Inl 500, db\<lparr>hd_mod := md\<rparr>)
           | (Inr _, md) \<Rightarrow>
               (let db' = db\<lparr>hd_mod := md\<rparr> in
                (bindR (map_err (\<lambda>_. 500) (get_room_state_for_knock w room_id db')) (\<lambda>knock_state_events.
                 Inr (JObject [(''knock_room_state'', JArray knock_state_events)])), db'))))"

definition send_knock_signed ::
  "hs_world \<Rightarrow> hs_clocks \<Rightarrow> string \<Rightarrow> string \<Rightarrow> string \<Rightarrow> json \<Rightarrow> hs_db \<Rightarrow> (nat + json) \<times> hs_db" where
  "send_knock_signed w ck origin room_id event_id payload db =
     (case bindR (knock_room w room_id) (\<lambda>_.
           bindR (knock_request origin room_id event_id payload) (\<lambda>(sender, content).
           bindR (knock_refusal w room_id sender origin db) (\<lambda>refusal.
           Inr (sender, content, refusal)))) of
        Inl status \<Rightarrow> (Inl status, db)
      | Inr (_, _, Some message) \<Rightarrow> (Inr (forbidden message), db)
      | Inr (sender, content, None) \<Rightarrow>
          (case validate_knock_signatures w ck payload (hd_keys db) of
             (Inl _, rows) \<Rightarrow> (Inl 500, db\<lparr>hd_keys := rows\<rparr>)
           | (Inr False, rows) \<Rightarrow> (Inr (forbidden ''Invalid event signature''), db\<lparr>hd_keys := rows\<rparr>)
           | (Inr True, rows) \<Rightarrow>
               (case bindR (map_err (\<lambda>_. 400) (validate_pdu_structure payload)) (\<lambda>pdu_valid.
                     bindR (ensure pdu_valid 400) (\<lambda>_.
                     map_err (\<lambda>_. 500) (check_knock_authorization w room_id sender db))) of
                  Inl status \<Rightarrow> (Inl status, db\<lparr>hd_keys := rows\<rparr>)
                | Inr False \<Rightarrow> (Inr (forbidden ''You are not authorized to knock on this room''), db\<lparr>hd_keys := rows\<rparr>)
                | Inr True \<Rightarrow> store_knock w ck room_id event_id sender content payload (db\<lparr>hd_keys := rows\<rparr>))))"

definition send_knock ::
  "hs_world \<Rightarrow> hs_clocks \<Rightarrow> string option option \<Rightarrow> string \<Rightarrow> string \<Rightarrow> json \<Rightarrow> hs_db \<Rightarrow> (nat + json) \<times> hs_db" where
  "send_knock w ck authorization room_id event_id payload db =
     (case signed_request w ck authorization ''PUT'' (''/send_knock/'' @ room_id @ ''/'' @ event_id)
             (map_err (\<lambda>_. 400) (json_to_vec (sw_pdu (hs_session w)) payload)) db of
        (Inl status, db') \<Rightarrow> (Inl status, db')
      | (Inr origin, db') \<Rightarrow> send_knock_signed w ck origin room_id event_id payload db')"

section \<open>What a knock needs\<close>

lemma handshake_knock_allowed_Inr_iff:
  "handshake_knock_allowed room = Inr b \<longleftrightarrow>
     b \<and> room_supports_knocking (unwrap_or ''invite'' (r_join_rules room)) \<and>
     room_version_supports_knocking (r_room_version room) \<and> r_federate room \<noteq> Some False"
  by (auto simp: handshake_knock_allowed_def Let_def result_simps)

lemma knock_room_Inr_iff:
  "knock_room w room_id = Inr room \<longleftrightarrow>
     mo_fail (hs_mod w) ModRoom = None \<and> mo_rooms (hs_mod w) room_id = Some room \<and> handshake_knock_allowed room = Inr True \<and>
     7 \<le> version_digit (r_room_version room)"
  by (auto simp: knock_room_def result_simps known_hs_room_Inr_iff)

lemma knock_refusal_None_iff:
  "knock_refusal w room_id sender origin db = Inr None \<longleftrightarrow>
     check_room_allows_knocking w room_id db = Inr True \<and> knock_obstacle w room_id sender db = None \<and>
     check_server_acls w room_id origin db = Inr True"
  by (auto simp: knock_refusal_def result_simps split: option.splits)

text \<open>The event is a knock of its own sender, a user of the origin, for this room under this identifier.\<close>

definition own_knock :: "string \<Rightarrow> string \<Rightarrow> string \<Rightarrow> json \<Rightarrow> string \<Rightarrow> bool" where
  "own_knock origin room_id event_id payload sender \<longleftrightarrow>
     (\<exists>ms content. payload = JObject ms \<and>
        Option.bind (map_of ms ''type'') as_str = Some ''m.room.member'' \<and>
        Option.bind (map_of ms ''room_id'') as_str = Some room_id \<and>
        Option.bind (map_of ms ''event_id'') as_str = Some event_id \<and>
        Option.bind (map_of ms ''sender'') as_str = Some sender \<and>
        Option.bind (map_of ms ''state_key'') as_str = Some sender \<and>
        unwrap_or [] (domain_part sender) = origin \<and>
        Option.bind (map_of ms ''content'') as_object = Some content \<and>
        Option.bind (map_of content ''membership'') as_str = Some ''knock'')"

lemma knock_request_own:
  "knock_request origin room_id event_id payload = Inr (sender, content) \<Longrightarrow> own_knock origin room_id event_id payload sender"
  unfolding knock_request_def own_knock_def result_simps by (cases payload) auto

lemma store_knock_result:
  assumes "store_knock w ck room_id event_id sender content payload db = (r, db')"
  shows "md_membership (hd_mod db') = md_membership (hd_mod db) \<and>
     (md_events (hd_mod db') = md_events (hd_mod db) \<and> \<not> is_ok r \<or>
      md_events (hd_mod db') = md_events (hd_mod db) @ [knock_event_of (hk_now ck) room_id event_id sender payload] \<and>
      event_id \<notin> ev_event_id ` set (md_events (hd_mod db)))"
proof -
  have writes: "md_events md = md_events db0" "md_membership md = md_membership db0"
    if "create_membership (hs_mod w) x db0 = (y, md)" for x y db0 md
    using membership_writes_records_only(1) [of "hs_mod w"] that unfolding records_only_def by (metis snd_conv)+
  have "ev_event_id (knock_event_of now room_id event_id sender payload) = event_id" for now
    by (simp add: knock_event_of_def new_event_def)
  then show ?thesis
    using assms by (auto simp: store_knock_def event_repo_create_def Let_def writes split: option.splits if_splits sum.splits prod.splits)
qed

text \<open>
  A knock is stored only when its request is signed by the server of its sender, for the sender
  itself, the room is known and open to knocks in both of its descriptions, the sender is neither
  joined, banned, invited nor knocking already, and the server is not excluded; then exactly the
  event of the payload is appended.
\<close>

theorem send_knock_sound:
  assumes "send_knock w ck authorization room_id event_id payload db = (r, db')"
  shows "md_membership (hd_mod db') = md_membership (hd_mod db) \<and>
     (md_events (hd_mod db') = md_events (hd_mod db) \<or>
      (\<exists>body origin room sender hs rows. signed_by w ck authorization ''PUT'' (''/send_knock/'' @ room_id @ ''/'' @ event_id) body origin (hd_keys db) \<and>
         hd_mod hs = hd_mod db \<and> mo_rooms (hs_mod w) room_id = Some room \<and> handshake_knock_allowed room = Inr True \<and>
         7 \<le> version_digit (r_room_version room) \<and> own_knock origin room_id event_id payload sender \<and>
         check_room_allows_knocking w room_id hs = Inr True \<and> knock_obstacle w room_id sender hs = None \<and>
         check_server_acls w room_id origin hs = Inr True \<and>
         validate_knock_signatures w ck payload (hd_keys hs) = (Inr True, rows) \<and> validate_pdu_structure payload = Inr True \<and>
         check_knock_authorization w room_id sender hs = Inr True \<and>
         md_events (hd_mod db') = md_events (hd_mod db) @ [knock_event_of (hk_now ck) room_id event_id sender payload] \<and>
         event_id \<notin> ev_event_id ` set (md_events (hd_mod db))))"
proof -
  obtain v hs where v: "signed_request w ck authorization ''PUT'' (''/send_knock/'' @ room_id @ ''/'' @ event_id)
      (map_err (\<lambda>_. 400) (json_to_vec (sw_pdu (hs_session w)) payload)) db = (v, hs)" by fastforce
  note same = signed_request_mod [OF v]
  show ?thesis
  proof (cases "\<exists>origin room sender content rows. v = Inr origin \<and> knock_room w room_id = Inr room \<and>
      knock_request origin room_id event_id payload = Inr (sender, content) \<and>
      knock_refusal w room_id sender origin hs = Inr None \<and>
      validate_knock_signatures w ck payload (hd_keys hs) = (Inr True, rows) \<and> validate_pdu_structure payload = Inr True \<and>
      check_knock_authorization w room_id sender hs = Inr True \<and>
      store_knock w ck room_id event_id sender content payload (hs\<lparr>hd_keys := rows\<rparr>) = (r, db')")
    case False
    then show ?thesis
      using assms v same unfolding send_knock_def send_knock_signed_def
      by (auto simp: result_simps split: sum.splits option.splits prod.splits bool.splits)
  next
    case True
    then obtain origin room sender content rows where t: "v = Inr origin" "knock_room w room_id = Inr room"
      "knock_request origin room_id event_id payload = Inr (sender, content)"
      "knock_refusal w room_id sender origin hs = Inr None"
      "validate_knock_signatures w ck payload (hd_keys hs) = (Inr True, rows)" "validate_pdu_structure payload = Inr True"
      "check_knock_authorization w room_id sender hs = Inr True"
      "store_knock w ck room_id event_id sender content payload (hs\<lparr>hd_keys := rows\<rparr>) = (r, db')" by blast
    obtain body where "signed_by w ck authorization ''PUT'' (''/send_knock/'' @ room_id @ ''/'' @ event_id) body origin (hd_keys db)"
      using signed_request_Inr [OF v [unfolded t(1)]] by blast
    moreover have "mo_rooms (hs_mod w) room_id = Some room" "handshake_knock_allowed room = Inr True"
      "7 \<le> version_digit (r_room_version room)"
      using t(2) by (simp_all add: knock_room_Inr_iff)
    ultimately show ?thesis
      using store_knock_result [OF t(8)] t(4-7) knock_request_own [OF t(3)] same
      unfolding knock_refusal_None_iff by (simp; blast)
  qed
qed

section \<open>Why no knock is accepted\<close>

text \<open>
  The rows of the queries have the selected members under \<open>content\<close>, where they are not looked for:
  the join rule is taken for \<open>invite\<close>, so every knock is refused, and access lists are never seen.
\<close>

lemma nested_rule_missing:
  assumes "\<And>names v. \<exists>c. hs_member_row w names v = JObject [(''content'', c)]"
  shows "check_room_allows_knocking w room_id db \<noteq> Inr True"
proof -
  have "struct_fields [''join_rule''] (hs_member_row w names v) = Some [None]" for names v
    using assms [of names v] by (auto simp: struct_fields_def)
  then show ?thesis
    by (auto simp: check_room_allows_knocking_def member_row_def hs_result_def result_simps opt_text_def split: option.splits)
qed

theorem knocks_refused:
  assumes "\<And>names v. \<exists>c. hs_member_row w names v = JObject [(''content'', c)]"
  shows "md_events (hd_mod (snd (send_knock w ck authorization room_id event_id payload db))) = md_events (hd_mod db) \<and>
     (\<forall>t. fst (make_knock w ck authorization room_id user_id ver db) = Inr t \<longrightarrow> get t ''errcode'' \<noteq> None)"
proof -
  obtain r db' where p: "send_knock w ck authorization room_id event_id payload db = (r, db')" by fastforce
  have "make_knock_answer w now room_id user_id ver origin hs = Inr t \<Longrightarrow> get t ''errcode'' \<noteq> None" for now origin hs t
    using nested_rule_missing [OF assms, of room_id hs]
    by (auto simp: make_knock_answer_def result_simps forbidden_def error_body_def split: if_splits)
  then have "\<forall>t. fst (make_knock w ck authorization room_id user_id ver db) = Inr t \<longrightarrow> get t ''errcode'' \<noteq> None"
    by (auto simp: make_knock_def split: sum.splits prod.splits)
  moreover have "md_events (hd_mod db') = md_events (hd_mod db)"
    using send_knock_sound [OF p] nested_rule_missing [OF assms] by blast
  ultimately show ?thesis using p by simp
qed

theorem access_list_never_seen:
  assumes "\<And>names v. \<exists>c. hs_member_row w names v = JObject [(''content'', c)]" and "hs_fail w AclRules = None"
  shows "check_server_acls w room_id server db = Inr True"
proof -
  have "struct_fields [''allow'', ''deny''] (hs_member_row w names v) = Some [None, None]" for names v
    using assms(1) [of names v] by (auto simp: struct_fields_def)
  then show ?thesis
    using assms(2) by (auto simp: check_server_acls_def hs_result_def member_row_def opt_texts_def split: option.splits)
qed

text \<open>
  The version of the room is read from its first character: rooms of version 10 and later are
  refused, though the check before finds that they support knocks.
\<close>

theorem two_digit_versions_refused:
  assumes "mo_rooms (hs_mod w) room_id = Some room" and "r_room_version room \<in> {''10'', ''11''}"
  shows "room_version_supports_knocking (r_room_version room) \<and>
     \<not> is_ok (fst (send_knock w ck authorization room_id event_id payload db))"
proof -
  have "version_digit (r_room_version room) = 1"
    using assms(2) by (auto simp: version_digit_def to_digit_def is_ascii_digit_def byte_def)
  then have "knock_room w room_id \<noteq> Inr x" for x using assms(1) by (auto simp: knock_room_Inr_iff)
  then have "\<not> is_ok (knock_room w room_id)" by (simp add: is_ok_iff)
  then obtain status where "knock_room w room_id = Inl status" by (cases "knock_room w room_id") auto
  then show ?thesis
    using assms(2) by (auto simp: room_version_supports_knocking_def send_knock_def send_knock_signed_def split: sum.splits prod.splits)
qed

text \<open>
  The signatures that are checked are those of the server the event itself names as its origin; when
  it has none of the right kind there, the event counts as signed.
\<close>

theorem unsigned_knock_passes:
  assumes "Option.bind (get event ''signatures'') as_object = Some signatures" and "Option.bind (get event ''origin'') as_str = Some origin"
    and "Option.bind (map_of signatures origin) as_object = Some sigs" and "\<forall>k \<in> fst ` set sigs. strip_prefix ''ed25519:'' k = None"
  shows "validate_knock_signatures w ck event rows = (Inr True, rows)"
proof -
  have "check_knock_signatures w ck event origin sigs rows = (Inr True, rows)"
    using assms(4) by (induction sigs) auto
  then show ?thesis using assms(1-3) by (simp add: validate_knock_signatures_def)
qed

text \<open>What is checked of a listed signature is verified: an event passes only if each of them verifies.\<close>

theorem knock_signatures_sound:
  assumes "check_knock_signatures w ck event origin sigs rows = (Inr True, rows')" and "(key_id, JString s) \<in> set sigs"
    and "strip_prefix ''ed25519:'' key_id = Some k"
  shows "\<exists>msg sa rows1 rows2. json_to_string (sw_crypto (hs_session w)) (remove_keys [''signatures'', ''unsigned''] event) = Inr msg \<and>
     validate_server_signature (hs_session w) (hk_session ck) origin k s ''POST'' ''/events'' msg rows1 = (Inr sa, rows2)"
  using assms
proof (induction sigs arbitrary: rows)
  case (Cons kv sigs)
  obtain key sg where kv: "kv = (key, sg)" by fastforce
  show ?case
  proof (cases "(key_id, JString s) = kv")
    case True
    then show ?thesis using Cons.prems(1,3) kv by (auto split: sum.splits prod.splits) blast
  next
    case False
    then have "(key_id, JString s) \<in> set sigs" using Cons.prems(2) by simp
    then show ?thesis
      using Cons.IH Cons.prems(1,3) kv by (auto split: option.splits sum.splits prod.splits)
  qed
qed simp

section \<open>Witnesses\<close>

text \<open>A room of version \<open>version\<close> that is open to knocks, and a database whose rows have the form \<open>row\<close>.\<close>

definition knock_demo :: "json \<Rightarrow> string \<Rightarrow> hs_world" where
  "knock_demo row version = handshake_demo
     \<lparr>hs_mod := mod_demo\<lparr>mo_rooms := [''!r:x'' \<mapsto> (new_room 0 0 ''!r:x'' version ''@a:x'')\<lparr>r_join_rules := Some ''knock''\<rparr>]\<rparr>,
      hs_member_row := (\<lambda>names v. row)\<rparr>"

definition knock_demo_db :: hs_db where
  "knock_demo_db = handshake_demo_db\<lparr>hd_mod := \<lparr>md_membership = [], md_room_membership = [],
     md_events = [state_event ''m.room.join_rules'' [] ''$j'' [(''join_rule'', JString ''knock'')]]\<rparr>\<rparr>"

definition knock_demo_payload :: json where
  "knock_demo_payload = JObject [(''type'', JString ''m.room.member''), (''room_id'', JString ''!r:x''), (''event_id'', JString ''$e''),
     (''sender'', JString ''@b:x''), (''state_key'', JString ''@b:x''), (''content'', JObject [(''membership'', JString ''knock'')]),
     (''origin_server_ts'', int_json 5), (''origin'', JString ''x''), (''signatures'', JObject [(''x'', JObject [])])]"

lemma knock_demo_signed:
  "signed_request (knock_demo row version) handshake_demo_clocks handshake_header m u (Inr ''body'') knock_demo_db =
     (Inr ''x'', knock_demo_db)"
proof -
  obtain t where "build_canonical_json (hi_session history_demo) m u ''x''
      (homeserver_name (sw_crypto (hi_session history_demo))) ''body'' = Inr t"
    by (simp add: build_canonical_json_def history_demo_def session_demo_def session_canonical_agrees
        pdu_canonical_json_compact [of _ "\<lambda>s. s"] pdu_demo_def)
  moreover have "session_get_server_public_key (hi_session history_demo) session_demo_clocks ''x'' ''k'' [] = (Inr ''pk'', [])"
    by (simp add: session_get_server_public_key_def history_demo_def)
  moreover have "verify_ed25519_signature (sw_crypto (hi_session history_demo)) ''s'' t ''pk'' = Inr ()" for t
    by (simp add: verify_ed25519_signature_def history_demo_def demo_crypto_def ensure_def)
  ultimately have "\<exists>sa. validate_server_signature (hi_session history_demo) session_demo_clocks ''x'' ''k'' ''s'' m u ''body'' [] =
      (Inr sa, [])"
    by (auto simp: validate_server_signature_def bindS_def liftS_def)
  moreover have "hs_session (knock_demo row version) = hi_session history_demo"
    by (simp add: knock_demo_def handshake_demo_fields)
  ultimately show ?thesis
    by (auto simp: signed_request_def handshake_demo_header handshake_demo_fields knock_demo_db_def handshake_demo_db_def)
qed

theorem unsigned_knock_passes_witness:
  "validate_knock_signatures w ck knock_demo_payload rows = (Inr True, rows)"
  by (rule unsigned_knock_passes [of _ "[(''x'', JObject [])]" "''x''" "[]"]) (simp_all add: knock_demo_payload_def)

abbreviation flat_row :: json where
  "flat_row \<equiv> JObject [(''join_rule'', JString ''knock'')]"

lemma knock_demo_queries:
  "check_room_allows_knocking (knock_demo flat_row v) ''!r:x'' knock_demo_db = Inr True"
  "check_server_acls (knock_demo flat_row v) ''!r:x'' ''x'' knock_demo_db = Inr True"
  "check_knock_authorization (knock_demo flat_row v) ''!r:x'' ''@b:x'' knock_demo_db = Inr True"
  "knock_obstacle (knock_demo flat_row v) ''!r:x'' ''@b:x'' knock_demo_db = None"
  by (simp_all add: check_room_allows_knocking_def check_server_acls_def check_knock_authorization_def knock_obstacle_def
      member_row_def newest_state_def newest_depth_first_def state_events_of_def state_event_def new_event_def hs_result_def
      knock_demo_def handshake_demo_def knock_demo_db_def struct_fields_def opt_text_def get_membership_def mod_result_def mod_demo_def)

lemma knock_demo_stored:
  "\<exists>r db'. store_knock (knock_demo flat_row v) handshake_demo_clocks ''!r:x'' ''$e'' ''@b:x'' content knock_demo_payload knock_demo_db =
     (Inr r, db')"
  by (simp add: store_knock_def event_repo_create_def create_membership_def Let_def knock_demo_def handshake_demo_def mod_demo_def
      level_demo_def knock_demo_db_def knock_event_of_def new_event_def state_event_def get_room_state_for_knock_def hs_result_def)

lemma knock_demo_run:
  "\<exists>r db'. send_knock (knock_demo flat_row ''7'') handshake_demo_clocks handshake_header ''!r:x'' ''$e'' knock_demo_payload knock_demo_db =
     (Inr r, db')"
proof -
  obtain room where room: "knock_room (knock_demo flat_row ''7'') ''!r:x'' = Inr room"
    by (auto simp: knock_room_Inr_iff knock_demo_def handshake_demo_def mod_demo_def new_room_def handshake_knock_allowed_Inr_iff
        room_supports_knocking_def room_version_supports_knocking_def version_digit_def to_digit_def is_ascii_digit_def byte_def)
  have request: "knock_request ''x'' ''!r:x'' ''$e'' knock_demo_payload = Inr (''@b:x'', [(''membership'', JString ''knock'')])"
    by (simp add: knock_request_def knock_demo_payload_def domain_part_def ensure_def)
  have pdu: "validate_pdu_structure knock_demo_payload = Inr True"
    by (simp add: validate_pdu_structure_def knock_demo_payload_def ensure_def in_i64_def i64_min_def i64_max_def)
  have signatures: "validate_knock_signatures (knock_demo flat_row ''7'') handshake_demo_clocks knock_demo_payload (hd_keys knock_demo_db) =
      (Inr True, hd_keys knock_demo_db)"
    by (simp add: validate_knock_signatures_def knock_demo_payload_def)
  have body: "json_to_vec (sw_pdu (hs_session (knock_demo flat_row ''7''))) knock_demo_payload = Inr ''body''"
    by (simp add: knock_demo_def handshake_demo_fields history_demo_def)
  have same: "knock_demo_db\<lparr>hd_keys := hd_keys knock_demo_db\<rparr> = knock_demo_db" by simp
  show ?thesis
    using knock_demo_stored [of "''7''" "[(''membership'', JString ''knock'')]"]
    by (simp add: send_knock_def body knock_demo_signed send_knock_signed_def room request knock_refusal_def knock_demo_queries
        signatures pdu same ensure_def)
qed

theorem send_knock_sound_witness:
  "\<exists>r db'. send_knock (knock_demo flat_row ''7'') handshake_demo_clocks handshake_header ''!r:x'' ''$e'' knock_demo_payload knock_demo_db =
     (Inr r, db') \<and> md_membership (hd_mod db') = md_membership (hd_mod knock_demo_db)"
proof -
  obtain r db' where p: "send_knock (knock_demo flat_row ''7'') handshake_demo_clocks handshake_header ''!r:x'' ''$e'' knock_demo_payload
      knock_demo_db = (Inr r, db')"
    using knock_demo_run by blast
  from send_knock_sound [OF p] p show ?thesis by blast
qed

abbreviation nested_row :: json where
  "nested_row \<equiv> JObject [(''content'', JObject [(''join_rule'', JString ''knock'')])]"

theorem knocks_refused_witness:
  "md_events (hd_mod (snd (send_knock (knock_demo nested_row ''7'') handshake_demo_clocks handshake_header ''!r:x'' ''$e''
     knock_demo_payload knock_demo_db))) = md_events (hd_mod knock_demo_db)"
proof -
  have "\<exists>c. hs_member_row (knock_demo nested_row ''7'') names v = JObject [(''content'', c)]" for names v
    by (simp add: knock_demo_def)
  from knocks_refused [OF this] show ?thesis by blast
qed

theorem access_list_never_seen_witness:
  "check_server_acls (knock_demo nested_row ''7'') ''!r:x'' ''x'' knock_demo_db = Inr True"
  by (rule access_list_never_seen) (simp_all add: knock_demo_def handshake_demo_def)

theorem two_digit_versions_refused_witness:
  "\<not> is_ok (fst (send_knock (knock_demo flat_row ''10'') handshake_demo_clocks handshake_header ''!r:x'' ''$e'' knock_demo_payload
     knock_demo_db))"
  using two_digit_versions_refused [of "knock_demo flat_row ''10''" "''!r:x''"]
  by (simp add: knock_demo_def mod_demo_def new_room_def)

theorem knock_signatures_sound_witness:
  "\<exists>msg. json_to_string (sw_crypto (hi_session history_demo)) (remove_keys [''signatures'', ''unsigned''] knock_demo_payload) = Inr msg"
proof -
  obtain t where "build_canonical_json (hi_session history_demo) ''POST'' ''/events'' ''x''
      (homeserver_name (sw_crypto (hi_session history_demo))) ''json'' = Inr t"
    by (simp add: build_canonical_json_def history_demo_def session_demo_def session_canonical_agrees
        pdu_canonical_json_compact [of _ "\<lambda>s. s"] pdu_demo_def)
  moreover have "session_get_server_public_key (hi_session history_demo) session_demo_clocks ''x'' ''k'' [] = (Inr ''pk'', [])"
    by (simp add: session_get_server_public_key_def history_demo_def)
  moreover have "verify_ed25519_signature (sw_crypto (hi_session history_demo)) ''s'' t ''pk'' = Inr ()" for t
    by (simp add: verify_ed25519_signature_def history_demo_def demo_crypto_def ensure_def)
  ultimately have "\<exists>sa. validate_server_signature (hi_session history_demo) session_demo_clocks ''x'' ''k'' ''s'' ''POST'' ''/events''
      ''json'' [] = (Inr sa, [])"
    by (auto simp: validate_server_signature_def bindS_def liftS_def)
  then have c: "check_knock_signatures handshake_demo handshake_demo_clocks knock_demo_payload ''x'' [(''ed25519:k'', JString ''s'')] [] =
      (Inr True, [])"
    by (auto simp: handshake_demo_fields handshake_demo_text)
  from knock_signatures_sound [OF c, of "''ed25519:k''" "''s''" "''k''"] show ?thesis
    by (auto simp: handshake_demo_fields)
qed

end
