(* ===== verification/Edus.thy ===== *)
theory Edus
  imports Sessions Uia
begin

text \<open>
  Ephemeral data from other servers: the handlers of
  \<open>server/src/_matrix/federation/v1/send/by_txn_id.rs\<close> for typing, receipts, presence, device lists,
  signing keys and direct messages, \<open>server/src/federation/device_edu_handler.rs\<close> behind two of
  them, and the queries of \<open>federation.rs\<close>, \<open>device.rs\<close> and \<open>edu.rs\<close> they run. The
  tables they write are a record; an error is its text. A call of the database fails when
  \<open>ew_fail\<close> gives an error for it; membership and user lookups and clock readings are arguments.
  The result of four of the statements is not read: what the definition of a table refuses
  (\<open>ew_refuses\<close>, by the call and the state it would lead to) is dropped without an error.
\<close>

section \<open>Data\<close>

record typing_row =
  ty_room_id :: string
  ty_user_id :: string
  ty_server_name :: string
  ty_expires_at :: int

record receipt_row =
  rc_room_id :: string
  rc_user_id :: string
  rc_event_id :: string
  rc_receipt_type :: string
  rc_timestamp :: int

record presence_row =
  pr_user_id :: string
  pr_presence :: string
  pr_status_msg :: "string option"
  pr_last_active_ago :: "int option"
  pr_currently_active :: bool

record device =
  dv_device_id :: string
  dv_user_id :: string
  dv_display_name :: "string option"
  dv_last_seen_ts :: int
  dv_created_at :: int
  dv_device_keys :: "json option"

record edu_row =
  ed_edu_type :: string
  ed_sender :: string
  ed_content :: json

record to_device_row =
  td_message_id :: string
  td_origin :: string
  td_sender :: string
  td_message_type :: string
  td_content :: json
  td_target_user_id :: string
  td_target_device_id :: "string option"

record edu_db =
  typing_notifications :: "typing_row list"
  receipts :: "receipt_row list"
  presence_events :: "string \<rightharpoonup> presence_row"
  edus :: "edu_row list"
  devices :: "string \<rightharpoonup> device"
  to_device :: "to_device_row list"

record device_list_update =
  dl_user_id :: string
  dl_device_id :: string
  dl_stream_id :: int
  dl_prev_id :: "int list"
  dl_deleted :: bool
  dl_device_display_name :: "string option"
  dl_keys :: "json option"

record signing_key_update =
  su_user_id :: string
  su_master_key :: "json option"
  su_self_signing_key :: "json option"

datatype edu_call = StoreTyping | StoreReceipt | StorePresence | StoreEdu | DeleteDevice | WriteDevice
  | GetDevices | StoreToDevice

record edu_world =
  ew_fail :: "edu_call \<Rightarrow> repository_error option"
  ew_now :: int
  ew_check_membership :: "string \<Rightarrow> string \<Rightarrow> repository_error + bool"
  ew_user_exists :: "string \<Rightarrow> repository_error + bool"
  ew_timestamp_ok :: "int \<Rightarrow> bool"
  ew_refuses :: "edu_call \<Rightarrow> edu_db \<Rightarrow> bool"

type_synonym 'a edu_action = "edu_db \<Rightarrow> (string + 'a) \<times> edu_db"

section \<open>The repositories\<close>

definition edu_call_result :: "edu_world \<Rightarrow> edu_call \<Rightarrow> edu_db \<Rightarrow> edu_db \<Rightarrow> (repository_error + unit) \<times> edu_db" where
  "edu_call_result w call db' db = (case ew_fail w call of Some e \<Rightarrow> (Inl e, db) | None \<Rightarrow> (Inr (), db'))"

text \<open>A statement whose result is not read.\<close>

definition edu_query_result :: "edu_world \<Rightarrow> edu_call \<Rightarrow> edu_db \<Rightarrow> edu_db \<Rightarrow> (repository_error + unit) \<times> edu_db" where
  "edu_query_result w call db' db = edu_call_result w call (if ew_refuses w call db' then db else db') db"

definition repo_typing_edu ::
  "edu_world \<Rightarrow> string \<Rightarrow> string \<Rightarrow> string \<Rightarrow> bool \<Rightarrow> edu_db \<Rightarrow> (repository_error + unit) \<times> edu_db" where
  "repo_typing_edu w room_id user_id server_name typing db =
     (let others = filter (\<lambda>t. \<not> (ty_room_id t = room_id \<and> ty_user_id t = user_id)) (typing_notifications db)
      in edu_query_result w StoreTyping
           (db\<lparr>typing_notifications :=
              if typing then others @ [\<lparr>ty_room_id = room_id, ty_user_id = user_id,
                     ty_server_name = server_name, ty_expires_at = ew_now w + 30 * 1000\<rparr>]
              else others\<rparr>) db)"

definition repo_receipt_edu ::
  "edu_world \<Rightarrow> string \<Rightarrow> string \<Rightarrow> string \<Rightarrow> string \<Rightarrow> int \<Rightarrow> edu_db \<Rightarrow> (repository_error + unit) \<times> edu_db" where
  "repo_receipt_edu w room_id user_id event_id receipt_type timestamp db =
     edu_query_result w StoreReceipt
       (db\<lparr>receipts := receipts db @ [\<lparr>rc_room_id = room_id, rc_user_id = user_id, rc_event_id = event_id,
             rc_receipt_type = receipt_type, rc_timestamp = timestamp\<rparr>]\<rparr>) db"

text \<open>
  The query names the record \<open>presence_events:$user_id\<close> with the identifier in angle brackets, which
  makes it a literal: every user's presence is written to the one record of that name.
\<close>

definition presence_record :: string where "presence_record = ''$user_id''"

definition repo_presence_edu ::
  "edu_world \<Rightarrow> presence_row \<Rightarrow> edu_db \<Rightarrow> (repository_error + unit) \<times> edu_db" where
  "repo_presence_edu w row db =
     edu_query_result w StorePresence (db\<lparr>presence_events := (presence_events db)(presence_record \<mapsto> row)\<rparr>) db"

text \<open>A message is kept unless the table already holds one with its identifier and origin.\<close>

definition repo_direct_to_device_edu :: "edu_world \<Rightarrow> to_device_row \<Rightarrow> edu_db \<Rightarrow> (repository_error + unit) \<times> edu_db" where
  "repo_direct_to_device_edu w row db =
     (if list_ex (\<lambda>r. td_message_id r = td_message_id row \<and> td_origin r = td_origin row) (to_device db)
      then edu_query_result w StoreToDevice db db
      else edu_query_result w StoreToDevice (db\<lparr>to_device := to_device db @ [row]\<rparr>) db)"

definition edu_create :: "edu_world \<Rightarrow> edu_row \<Rightarrow> edu_db \<Rightarrow> (repository_error + unit) \<times> edu_db" where
  "edu_create w row db = edu_call_result w StoreEdu (db\<lparr>edus := edus db @ [row]\<rparr>) db"

text \<open>Devices are stored under their device identifier.\<close>

definition device_update :: "edu_world \<Rightarrow> device \<Rightarrow> edu_db \<Rightarrow> (repository_error + unit) \<times> edu_db" where
  "device_update w d db =
     (if devices db (dv_device_id d) = None then (Inl (Database ''Failed to update device''), db)
      else edu_call_result w WriteDevice (db\<lparr>devices := (devices db)(dv_device_id d \<mapsto> d)\<rparr>) db)"

definition device_create :: "edu_world \<Rightarrow> device \<Rightarrow> edu_db \<Rightarrow> (repository_error + unit) \<times> edu_db" where
  "device_create w d db =
     (if devices db (dv_device_id d) \<noteq> None then (Inl (Database ''Database record already exists''), db)
      else edu_call_result w WriteDevice (db\<lparr>devices := (devices db)(dv_device_id d \<mapsto> d)\<rparr>) db)"

definition device_delete :: "edu_world \<Rightarrow> string \<Rightarrow> edu_db \<Rightarrow> (repository_error + unit) \<times> edu_db" where
  "device_delete w device_id db =
     edu_call_result w DeleteDevice (db\<lparr>devices := (devices db)(device_id := None)\<rparr>) db"

text \<open>\<open>order\<close> lists the identifiers of the device table in its order.\<close>

definition get_user_devices :: "edu_world \<Rightarrow> string list \<Rightarrow> string \<Rightarrow> edu_db \<Rightarrow> repository_error + device list" where
  "get_user_devices w order user_id db =
     (case ew_fail w GetDevices of
        Some e \<Rightarrow> Inl e
      | None \<Rightarrow> Inr (filter (\<lambda>d. dv_user_id d = user_id) (List.map_filter (devices db) order)))"

definition verify_device :: "edu_world \<Rightarrow> string \<Rightarrow> string \<Rightarrow> edu_db \<Rightarrow> repository_error + bool" where
  "verify_device w user_id device_id db =
     (case ew_fail w GetDevices of
        Some e \<Rightarrow> Inl e
      | None \<Rightarrow> Inr (case devices db device_id of Some d \<Rightarrow> dv_user_id d = user_id | None \<Rightarrow> False))"

section \<open>Decoding\<close>

definition opt_json :: "json option \<Rightarrow> json option" where
  "opt_json v = (case v of Some JNull \<Rightarrow> None | _ \<Rightarrow> v)"

definition ints_of :: "json \<Rightarrow> int list option" where
  "ints_of v = Option.bind (as_array v) (\<lambda>xs. those (map as_i64 xs))"

fun as_bool :: "json \<Rightarrow> bool option" where
  "as_bool (JBool b) = Some b"
| "as_bool _ = None"

definition strings_of :: "json \<Rightarrow> string list option" where
  "strings_of v = Option.bind (as_array v) (\<lambda>xs. those (map as_str xs))"

definition all_strings :: "json \<Rightarrow> bool" where
  "all_strings v = (case v of JObject ms \<Rightarrow> list_all (\<lambda>(k, x). as_str x \<noteq> None) ms | _ \<Rightarrow> False)"

text \<open>The keys of a device, decoded and encoded again.\<close>

definition device_key_of :: "json \<Rightarrow> json option" where
  "device_key_of v =
     (case struct_fields [''user_id'', ''device_id'', ''algorithms'', ''keys'', ''signatures'', ''unsigned''] v of
        Some [u, d, a, k, s, n] \<Rightarrow>
          Option.bind (req_string u) (\<lambda>user_id.
          Option.bind (req_string d) (\<lambda>device_id.
          Option.bind (Option.bind a strings_of) (\<lambda>algorithms.
          Option.bind k (\<lambda>keys.
          Option.bind s (\<lambda>signatures.
          if all_strings keys \<and> (case signatures of JObject ms \<Rightarrow> list_all (\<lambda>(k, x). all_strings x) ms | _ \<Rightarrow> False)
             \<and> (case opt_json n of None \<Rightarrow> True | Some x \<Rightarrow> as_object x \<noteq> None)
          then Some (JObject ([(''user_id'', JString user_id), (''device_id'', JString device_id),
                 (''algorithms'', strings_json algorithms), (''keys'', keys), (''signatures'', signatures)]
                 @ opt_member ''unsigned'' (\<lambda>x. x) (opt_json n)))
          else None)))))
      | _ \<Rightarrow> None)"

definition device_list_update_of :: "json \<Rightarrow> device_list_update option" where
  "device_list_update_of v =
     (case struct_fields [''user_id'', ''device_id'', ''stream_id'', ''prev_id'', ''deleted'',
             ''device_display_name'', ''keys''] v of
        Some [u, d, s, p, x, n, k] \<Rightarrow>
          Option.bind (req_string u) (\<lambda>user_id.
          Option.bind (req_string d) (\<lambda>device_id.
          Option.bind (Option.bind s as_i64) (\<lambda>stream_id.
          Option.bind (Option.bind p ints_of) (\<lambda>prev_id.
          Option.bind (Option.bind x as_bool) (\<lambda>deleted.
          Option.bind (opt_string n) (\<lambda>name.
          Option.bind (case opt_json k of None \<Rightarrow> Some None | Some kv \<Rightarrow> map_option Some (device_key_of kv)) (\<lambda>keys.
          Some \<lparr>dl_user_id = user_id, dl_device_id = device_id, dl_stream_id = stream_id, dl_prev_id = prev_id,
                dl_deleted = deleted, dl_device_display_name = name, dl_keys = keys\<rparr>)))))))
      | _ \<Rightarrow> None)"

definition device_list_update_json :: "device_list_update \<Rightarrow> json" where
  "device_list_update_json u = JObject
     [(''user_id'', JString (dl_user_id u)), (''device_id'', JString (dl_device_id u)),
      (''stream_id'', int_json (dl_stream_id u)), (''prev_id'', JArray (map int_json (dl_prev_id u))),
      (''deleted'', JBool (dl_deleted u)),
      (''device_display_name'', null_or JString (dl_device_display_name u)),
      (''keys'', null_or (\<lambda>k. k) (dl_keys u))]"

definition signing_key_update_of :: "json \<Rightarrow> signing_key_update option" where
  "signing_key_update_of v =
     (case struct_fields [''user_id'', ''master_key'', ''self_signing_key''] v of
        Some [u, m, s] \<Rightarrow>
          Option.bind (req_string u) (\<lambda>user_id.
          Some \<lparr>su_user_id = user_id, su_master_key = opt_json m, su_self_signing_key = opt_json s\<rparr>)
      | _ \<Rightarrow> None)"

definition signing_key_update_json :: "signing_key_update \<Rightarrow> json" where
  "signing_key_update_json u = JObject
     [(''user_id'', JString (su_user_id u)), (''master_key'', null_or (\<lambda>k. k) (su_master_key u)),
      (''self_signing_key'', null_or (\<lambda>k. k) (su_self_signing_key u))]"

section \<open>Device lists and signing keys\<close>

text \<open>Failures of the database are reported as texts; of their contents only the fact matters.\<close>

definition or_text :: "string \<Rightarrow> (edu_db \<Rightarrow> (repository_error + 'a) \<times> edu_db) \<Rightarrow> 'a edu_action" where
  "or_text what f db = (case f db of (r, db') \<Rightarrow> (map_err (\<lambda>e. what @ repository_error_text e) r, db'))"

definition device_of_update :: "edu_world \<Rightarrow> device_list_update \<Rightarrow> device" where
  "device_of_update w u = \<lparr>dv_device_id = dl_device_id u, dv_user_id = dl_user_id u,
     dv_display_name = dl_device_display_name u, dv_last_seen_ts = ew_now w div 1000,
     dv_created_at = ew_now w, dv_device_keys = dl_keys u\<rparr>"

definition apply_update :: "edu_world \<Rightarrow> device_list_update \<Rightarrow> unit edu_action" where
  "apply_update w u db =
     (if dl_deleted u then or_text ''Failed to delete device: '' (device_delete w (dl_device_id u)) db
      else (case device_update w (device_of_update w u) db of
              (Inr _, db') \<Rightarrow> (Inr (), db')
            | (Inl _, db') \<Rightarrow> or_text ''Failed to create device: '' (device_create w (device_of_update w u)) db'))"

definition handle_device_list_update :: "edu_world \<Rightarrow> device_list_update \<Rightarrow> unit edu_action" where
  "handle_device_list_update w u =
     bindS (or_text ''Failed to store EDU: '' (edu_create w \<lparr>ed_edu_type = ''m.device_list_update'',
              ed_sender = dl_user_id u, ed_content = device_list_update_json u\<rparr>)) (\<lambda>_.
     apply_update w u)"

definition handle_signing_key_update :: "edu_world \<Rightarrow> signing_key_update \<Rightarrow> unit edu_action" where
  "handle_signing_key_update w u =
     bindS (or_text ''Failed to store EDU: '' (edu_create w \<lparr>ed_edu_type = ''m.signing_key_update'',
              ed_sender = su_user_id u, ed_content = signing_key_update_json u\<rparr>)) (\<lambda>_.
     liftS (Inr ()))"

definition as_u64 :: "json \<Rightarrow> int option" where
  "as_u64 v = (case v of JNumber (NInt i) \<Rightarrow> if 0 \<le> i \<and> i < 2 ^ 64 then Some i else None | _ \<Rightarrow> None)"

section \<open>The handlers of a transaction\<close>

abbreviation from_server :: "string \<Rightarrow> string \<Rightarrow> bool" where
  "from_server user_id origin \<equiv> suffix ('':'' @ origin) user_id"

definition process_typing_edu :: "edu_world \<Rightarrow> string \<Rightarrow> json \<Rightarrow> unit edu_action" where
  "process_typing_edu w origin content =
     bindS (liftS (ok_or (Option.bind (get content ''room_id'') as_str) ''Missing room_id in typing EDU'')) (\<lambda>room_id.
     bindS (liftS (ok_or (Option.bind (get content ''user_id'') as_str) ''Missing user_id in typing EDU'')) (\<lambda>user_id.
     bindS (liftS (ok_or (Option.bind (get content ''typing'') as_bool)
              ''Missing or invalid typing boolean in typing EDU'')) (\<lambda>typing.
     bindS (liftS (ensure (from_server user_id origin) (''Invalid user origin for typing EDU: '' @ user_id))) (\<lambda>_.
     case ew_check_membership w room_id user_id of
       Inr True \<Rightarrow> or_text ''Failed to process typing EDU: '' (repo_typing_edu w room_id user_id origin typing)
     | Inr False \<Rightarrow> liftS (Inr ())
     | Inl e \<Rightarrow> liftS (Inl (''Failed to check room membership: '' @ repository_error_text e))))))"

definition process_user_receipt ::
  "edu_world \<Rightarrow> string \<Rightarrow> string \<Rightarrow> string \<Rightarrow> string \<Rightarrow> string \<times> json \<Rightarrow> unit edu_action" where
  "process_user_receipt w origin room_id receipt_type event_id entry =
     (case entry of (user_id, user_receipt) \<Rightarrow>
        if \<not> from_server user_id origin then liftS (Inr ())
        else or_text ''Failed to store receipt EDU: '' (repo_receipt_edu w room_id user_id event_id receipt_type
               (case Option.bind (get user_receipt ''ts'') as_i64 of
                  Some ts \<Rightarrow> if ew_timestamp_ok w ts then ts else ew_now w
                | None \<Rightarrow> ew_now w)))"

definition process_receipt_type ::
  "edu_world \<Rightarrow> string \<Rightarrow> string \<Rightarrow> string \<times> json \<Rightarrow> unit edu_action" where
  "process_receipt_type w origin room_id entry =
     (case entry of (receipt_type, receipt_data) \<Rightarrow>
        if receipt_type \<noteq> ''m.read'' then liftS (Inr ())
        else bindS (liftS (ok_or (as_object receipt_data) ''Receipt data must be an object'')) (\<lambda>receipt_data_obj.
             forS (\<lambda>(event_id, event_receipts).
               bindS (liftS (ok_or (as_object event_receipts) ''Event receipts must be an object'')) (\<lambda>event_receipts_obj.
               forS (process_user_receipt w origin room_id receipt_type event_id) event_receipts_obj))
               receipt_data_obj))"

definition process_receipt_edu :: "edu_world \<Rightarrow> string \<Rightarrow> json \<Rightarrow> unit edu_action" where
  "process_receipt_edu w origin content =
     bindS (liftS (ok_or (as_object content) ''Receipt EDU content must be an object'')) (\<lambda>content_obj.
     forS (\<lambda>(room_id, room_receipts).
       bindS (liftS (ok_or (as_object room_receipts) ''Room receipts must be an object'')) (\<lambda>room_receipts_obj.
       forS (process_receipt_type w origin room_id) room_receipts_obj)) content_obj)"

definition process_presence_event :: "edu_world \<Rightarrow> string \<Rightarrow> json \<Rightarrow> unit edu_action" where
  "process_presence_event w origin presence_event =
     bindS (liftS (ok_or (Option.bind (get presence_event ''user_id'') as_str) ''Missing user_id in presence event'')) (\<lambda>user_id.
     if \<not> from_server user_id origin then liftS (Inr ())
     else or_text ''Failed to store presence EDU: '' (repo_presence_edu w
            \<lparr>pr_user_id = user_id, pr_presence = unwrap_or ''offline'' (Option.bind (get presence_event ''presence'') as_str),
             pr_status_msg = Option.bind (get presence_event ''status_msg'') as_str,
             pr_last_active_ago = map_option i64_wrap (Option.bind (get presence_event ''last_active_ago'') as_u64),
             pr_currently_active = unwrap_or False (Option.bind (get presence_event ''currently_active'') as_bool)\<rparr>))"

definition process_presence_edu :: "edu_world \<Rightarrow> string \<Rightarrow> json \<Rightarrow> unit edu_action" where
  "process_presence_edu w origin content =
     bindS (liftS (ok_or (Option.bind (get content ''push'') as_array)
              ''Missing or invalid push array in presence EDU'')) (\<lambda>push.
     forS (process_presence_event w origin) push)"

definition process_device_list_edu :: "edu_world \<Rightarrow> string \<Rightarrow> json \<Rightarrow> unit edu_action" where
  "process_device_list_edu w origin content =
     bindS (liftS (ok_or (device_list_update_of content) ''Failed to parse device list EDU'')) (\<lambda>device_update.
     bindS (liftS (ensure (from_server (dl_user_id device_update) origin)
              ''Invalid user origin for device list EDU'')) (\<lambda>_.
     handle_device_list_update w device_update))"

definition process_signing_key_update_edu :: "edu_world \<Rightarrow> string \<Rightarrow> json \<Rightarrow> unit edu_action" where
  "process_signing_key_update_edu w origin content =
     bindS (liftS (ok_or (signing_key_update_of content) ''Failed to parse signing key EDU'')) (\<lambda>signing_update.
     bindS (liftS (ensure (from_server (su_user_id signing_update) origin)
              (''Signing key update EDU user '' @ su_user_id signing_update @ '' not from origin server '' @ origin))) (\<lambda>_.
     handle_signing_key_update w signing_update))"

definition deliver_to_device ::
  "edu_world \<Rightarrow> string list \<Rightarrow> (string option \<Rightarrow> json \<Rightarrow> to_device_row) \<Rightarrow> string \<Rightarrow> string \<times> json \<Rightarrow> unit edu_action" where
  "deliver_to_device w order row user_id entry db =
     (case entry of (device_id, message_content) \<Rightarrow>
        if device_id = ''*''
        then (case get_user_devices w order user_id db of
                Inr user_devices \<Rightarrow>
                  forS (\<lambda>d. or_text [] (repo_direct_to_device_edu w (row (Some (dv_device_id d)) message_content)))
                    user_devices db
              | Inl e \<Rightarrow> (Inl (''Failed to get user devices: '' @ repository_error_text e), db))
        else (case verify_device w user_id device_id db of
                Inr True \<Rightarrow> or_text [] (repo_direct_to_device_edu w (row (Some device_id) message_content)) db
              | Inr False \<Rightarrow> (Inr (), db)
              | Inl e \<Rightarrow> (Inl (''Failed to verify device: '' @ repository_error_text e), db)))"

definition deliver_to_user ::
  "edu_world \<Rightarrow> string list \<Rightarrow> (string \<Rightarrow> string option \<Rightarrow> json \<Rightarrow> to_device_row) \<Rightarrow> string \<times> json \<Rightarrow> unit edu_action" where
  "deliver_to_user w order row entry =
     (case entry of (user_id, user_devices) \<Rightarrow>
        bindS (liftS (ok_or (as_object user_devices) (''Invalid device messages for user '' @ user_id))) (\<lambda>device_messages.
        case ew_user_exists w user_id of
          Inr True \<Rightarrow> forS (deliver_to_device w order (row user_id) user_id) device_messages
        | Inr False \<Rightarrow> liftS (Inr ())
        | Inl e \<Rightarrow> liftS (Inl (''Failed to check user existence: '' @ repository_error_text e))))"

definition process_direct_to_device_edu :: "edu_world \<Rightarrow> string list \<Rightarrow> string \<Rightarrow> json \<Rightarrow> unit edu_action" where
  "process_direct_to_device_edu w order origin content =
     bindS (liftS (ok_or (Option.bind (get content ''message_id'') as_str)
              ''Missing message_id in direct-to-device EDU'')) (\<lambda>message_id.
     bindS (liftS (ok_or (Option.bind (get content ''sender'') as_str)
              ''Missing sender in direct-to-device EDU'')) (\<lambda>sender.
     bindS (liftS (ok_or (Option.bind (get content ''type'') as_str)
              ''Missing type in direct-to-device EDU'')) (\<lambda>event_type.
     bindS (liftS (ok_or (Option.bind (get content ''messages'') as_object)
              ''Missing or invalid messages in direct-to-device EDU'')) (\<lambda>messages.
     forS (deliver_to_user w order (\<lambda>user_id device_id message_content.
       \<lparr>td_message_id = message_id, td_origin = origin, td_sender = sender, td_message_type = event_type,
        td_content = message_content, td_target_user_id = user_id, td_target_device_id = device_id\<rparr>)) messages))))"

text \<open>The body of the loop over the ephemeral data of a transaction.\<close>

definition transaction_edu :: "edu_world \<Rightarrow> string list \<Rightarrow> string \<Rightarrow> json \<Rightarrow> unit edu_action" where
  "transaction_edu w order origin edu =
     (case Option.bind (get edu ''type'') as_str of
        None \<Rightarrow> liftS (Inr ())
      | Some edu_type \<Rightarrow>
          (case get edu ''content'' of
             None \<Rightarrow> liftS (Inr ())
           | Some content \<Rightarrow>
               if edu_type = ''m.typing'' then process_typing_edu w origin content
               else if edu_type = ''m.receipt'' then process_receipt_edu w origin content
               else if edu_type = ''m.presence'' then process_presence_edu w origin content
               else if edu_type = ''m.device_list_update'' then process_device_list_edu w origin content
               else if edu_type = ''m.signing_key_update'' then process_signing_key_update_edu w origin content
               else if edu_type = ''m.direct_to_device'' then process_direct_to_device_edu w order origin content
               else liftS (Inr ())))"

section \<open>Relations between the states before and after\<close>

text \<open>
  A reflexive and transitive relation between states is kept by a chain of actions when every action
  keeps it; failures included, since the state reached by then is what remains.
\<close>

locale state_order =
  fixes R :: "'s \<Rightarrow> 's \<Rightarrow> bool"
  assumes order_refl: "R s s"
    and order_trans: "R s t \<Longrightarrow> R t u \<Longrightarrow> R s u"
begin

definition keeps :: "('s \<Rightarrow> ('e + 'a) \<times> 's) \<Rightarrow> bool" where
  "keeps f \<longleftrightarrow> (\<forall>s. R s (snd (f s)))"

lemma keeps_liftS: "keeps (liftS r)"
  by (simp add: keeps_def liftS_def order_refl)

lemma keeps_bindS: "keeps m \<Longrightarrow> (\<And>x. keeps (f x)) \<Longrightarrow> keeps (bindS m f)"
  unfolding keeps_def bindS_def by (auto split: prod.splits sum.splits) (metis order_trans snd_conv)+

lemma keeps_check: "(\<And>x. r = Inr x \<Longrightarrow> keeps (f x)) \<Longrightarrow> keeps (bindS (liftS r) f)"
  by (cases r) (auto simp: keeps_def bindS_def liftS_def order_refl)

lemma keeps_forS: "(\<And>x. x \<in> set xs \<Longrightarrow> keeps (f x)) \<Longrightarrow> keeps (forS f xs)"
proof (induction xs)
  case Nil
  then show ?case by (simp add: keeps_def order_refl)
next
  case (Cons x xs)
  have "forS f (x # xs) = bindS (f x) (\<lambda>_. forS f xs)" by (simp add: fun_eq_iff)
  then show ?case using Cons keeps_bindS [of "f x" "\<lambda>_. forS f xs"] by simp
qed

lemma keeps_state: "keeps f \<Longrightarrow> f s = (r, t) \<Longrightarrow> R s t"
  unfolding keeps_def by (metis snd_conv)

end

text \<open>
  What a server may write. The typing notices added or removed, the receipts added (public ones only)
  and the stored updates are about its own users. Presence changes in the one record it is kept in,
  to a row about one of its users. A device entry that changes is gone afterwards or belongs to one of
  its users, under its own identifier. Direct messages are recorded in its name, for users who exist.
  Nothing here says whose device or presence was there before.
\<close>

definition origin_writes :: "edu_world \<Rightarrow> string \<Rightarrow> edu_db \<Rightarrow> edu_db \<Rightarrow> bool" where
  "origin_writes w origin db db' \<longleftrightarrow>
     (\<forall>t. (t \<in> set (typing_notifications db)) \<noteq> (t \<in> set (typing_notifications db')) \<longrightarrow> from_server (ty_user_id t) origin) \<and>
     (\<exists>rs. receipts db' = receipts db @ rs \<and>
        (\<forall>r \<in> set rs. from_server (rc_user_id r) origin \<and> rc_receipt_type r = ''m.read'')) \<and>
     (\<forall>i. presence_events db' i \<noteq> presence_events db i \<longrightarrow> i = presence_record \<and>
        (\<exists>row. presence_events db' i = Some row \<and> from_server (pr_user_id row) origin)) \<and>
     (\<exists>es. edus db' = edus db @ es \<and> (\<forall>e \<in> set es. from_server (ed_sender e) origin)) \<and>
     (\<forall>i. devices db' i \<noteq> devices db i \<longrightarrow> devices db' i = None \<or>
        (\<exists>d. devices db' i = Some d \<and> dv_device_id d = i \<and> from_server (dv_user_id d) origin)) \<and>
     (\<exists>ms. to_device db' = to_device db @ ms \<and>
        (\<forall>m \<in> set ms. td_origin m = origin \<and> ew_user_exists w (td_target_user_id m) = Inr True))"

lemma list_extension_trans:
  "\<exists>xs. b = a @ xs \<and> (\<forall>x \<in> set xs. P x) \<Longrightarrow> \<exists>xs. c = b @ xs \<and> (\<forall>x \<in> set xs. P x) \<Longrightarrow>
   \<exists>xs. c = a @ xs \<and> (\<forall>x \<in> set xs. P x)"
  by (elim exE conjE, rule_tac x = "xs @ xsa" in exI) auto

interpretation origin_only: state_order "origin_writes w origin" for w origin
proof
  show "origin_writes w origin db db" for db by (simp add: origin_writes_def)
next
  fix a b c assume 1: "origin_writes w origin a b" and 2: "origin_writes w origin b c"
  note parts = 1 [unfolded origin_writes_def] 2 [unfolded origin_writes_def]
  have "\<forall>t. (t \<in> set (typing_notifications a)) \<noteq> (t \<in> set (typing_notifications c)) \<longrightarrow> from_server (ty_user_id t) origin"
    using parts by metis
  moreover have "\<forall>i. presence_events c i \<noteq> presence_events a i \<longrightarrow> i = presence_record \<and>
      (\<exists>row. presence_events c i = Some row \<and> from_server (pr_user_id row) origin)"
    using parts by metis
  moreover have "\<forall>i. devices c i \<noteq> devices a i \<longrightarrow> devices c i = None \<or>
      (\<exists>d. devices c i = Some d \<and> dv_device_id d = i \<and> from_server (dv_user_id d) origin)"
    using parts by metis
  moreover have "\<exists>x. receipts c = receipts a @ x \<and>
      (\<forall>r \<in> set x. from_server (rc_user_id r) origin \<and> rc_receipt_type r = ''m.read'')"
    by (rule list_extension_trans [of "receipts b"]) (use parts in blast)+
  moreover have "\<exists>x. edus c = edus a @ x \<and> (\<forall>e \<in> set x. from_server (ed_sender e) origin)"
    by (rule list_extension_trans [of "edus b"]) (use parts in blast)+
  moreover have "\<exists>x. to_device c = to_device a @ x \<and>
      (\<forall>m \<in> set x. td_origin m = origin \<and> ew_user_exists w (td_target_user_id m) = Inr True)"
    by (rule list_extension_trans [of "to_device b"]) (use parts in blast)+
  ultimately show "origin_writes w origin a c"
    unfolding origin_writes_def by (intro conjI)
qed

lemma or_text_state: "snd (or_text what f db) = snd (f db)"
  by (cases "f db") (simp add: or_text_def)

lemma keeps_or_text: "(\<And>db. origin_writes w origin db (snd (f db))) \<Longrightarrow> origin_only.keeps w origin (or_text what f)"
  by (simp add: origin_only.keeps_def or_text_state)

lemma edu_call_state: "snd (edu_call_result w call db' db) = db' \<or> snd (edu_call_result w call db' db) = db"
  by (simp add: edu_call_result_def split: option.split)

lemma edu_query_state: "snd (edu_query_result w call db' db) = db' \<or> snd (edu_query_result w call db' db) = db"
  using edu_call_state [of w call db' db] by (auto simp: edu_query_result_def edu_call_result_def split: option.split)

lemma origin_call:
  "origin_writes v origin db db' \<Longrightarrow> origin_writes v origin db (snd (edu_call_result w call db' db))"
  using edu_call_state [of w call db' db] origin_only.order_refl [of v origin db] by metis

lemma origin_query:
  "origin_writes v origin db db' \<Longrightarrow> origin_writes v origin db (snd (edu_query_result w call db' db))"
  using edu_query_state [of w call db' db] origin_only.order_refl [of v origin db] by metis

text \<open>Only the entry of the update's device changes: it is deleted, or becomes the device of the update.\<close>

lemma apply_update_state:
  "\<exists>x. snd (apply_update w u db) = db\<lparr>devices := x\<rparr> \<and>
     (\<forall>i. x i \<noteq> devices db i \<longrightarrow> i = dl_device_id u \<and> (x i = None \<or> x i = Some (device_of_update w u)))"
proof -
  have same: "\<exists>x. db = db\<lparr>devices := x\<rparr> \<and>
     (\<forall>i. x i \<noteq> devices db i \<longrightarrow> i = dl_device_id u \<and> (x i = None \<or> x i = Some (device_of_update w u)))"
    by (rule exI [of _ "devices db"]) simp
  have gone: "\<exists>x. db\<lparr>devices := (devices db)(dl_device_id u := v)\<rparr> = db\<lparr>devices := x\<rparr> \<and>
     (\<forall>i. x i \<noteq> devices db i \<longrightarrow> i = dl_device_id u \<and> (x i = None \<or> x i = Some (device_of_update w u)))"
    if "v = None \<or> v = Some (device_of_update w u)" for v
    by (rule exI [of _ "(devices db)(dl_device_id u := v)"]) (use that in auto)
  have named [simp]: "dv_device_id (device_of_update w u) = dl_device_id u" by (simp add: device_of_update_def)
  show ?thesis
    using same gone [of None] gone [of "Some (device_of_update w u)"]
    by (auto simp: apply_update_def or_text_state device_delete_def device_update_def device_create_def
        edu_call_result_def split: option.split sum.split prod.split)
qed

lemma device_writes:
  assumes "from_server (dl_user_id u) origin"
  shows "origin_writes w origin db (snd (apply_update v u db))"
proof -
  obtain x where x: "snd (apply_update v u db) = db\<lparr>devices := x\<rparr>"
    "\<And>i. x i \<noteq> devices db i \<Longrightarrow> i = dl_device_id u \<and> (x i = None \<or> x i = Some (device_of_update v u))"
    using apply_update_state [of v u db] by blast
  have "x i = None \<or> (\<exists>d. x i = Some d \<and> dv_device_id d = i \<and> from_server (dv_user_id d) origin)"
    if "x i \<noteq> devices db i" for i
    using x(2) [OF that] assms by (auto simp: device_of_update_def)
  then show ?thesis unfolding x(1) by (simp add: origin_writes_def)
qed

lemma typing_keeps: "origin_only.keeps w origin (process_typing_edu w origin content)"
proof -
  have stores: "origin_only.keeps w origin (or_text what (repo_typing_edu w room_id user_id origin typing))"
    if "from_server user_id origin" for what room_id user_id typing
  proof (rule keeps_or_text)
    show "origin_writes w origin db (snd (repo_typing_edu w room_id user_id origin typing db))" for db
      unfolding repo_typing_edu_def Let_def using that by (intro origin_query) (auto simp: origin_writes_def)
  qed
  show ?thesis
    unfolding process_typing_edu_def
    by (intro origin_only.keeps_check)
      (auto simp: result_simps origin_only.keeps_liftS stores split: sum.split bool.split)
qed

lemma receipt_keeps: "origin_only.keeps w origin (process_receipt_edu w origin content)"
proof -
  have stores: "origin_only.keeps w origin (process_user_receipt w origin room_id ''m.read'' event_id entry)"
    for room_id event_id entry
  proof (cases entry)
    case (Pair user_id user_receipt)
    show ?thesis
    proof (cases "from_server user_id origin")
      case True
      then have "origin_writes w origin db (snd (repo_receipt_edu w room_id user_id event_id ''m.read'' ts db))" for db ts
        unfolding repo_receipt_edu_def by (intro origin_query) (simp add: origin_writes_def)
      then show ?thesis using True Pair by (simp add: process_user_receipt_def keeps_or_text)
    qed (simp add: process_user_receipt_def Pair origin_only.keeps_liftS)
  qed
  have "origin_only.keeps w origin (process_receipt_type w origin room_id entry)" for room_id entry
    by (cases entry) (auto simp: process_receipt_type_def origin_only.keeps_liftS
        intro!: origin_only.keeps_check origin_only.keeps_forS stores)
  then show ?thesis
    unfolding process_receipt_edu_def
    by (auto intro!: origin_only.keeps_check origin_only.keeps_forS)
qed

lemma presence_keeps: "origin_only.keeps w origin (process_presence_edu w origin content)"
proof -
  have "origin_only.keeps w origin (process_presence_event w origin e)" for e
  proof -
    have "origin_writes w origin db (snd (repo_presence_edu w row db))" if "from_server (pr_user_id row) origin" for row db
      unfolding repo_presence_edu_def using that by (intro origin_query) (auto simp: origin_writes_def)
    then show ?thesis
      unfolding process_presence_event_def
      by (intro origin_only.keeps_check) (simp add: origin_only.keeps_liftS keeps_or_text)
  qed
  then show ?thesis
    unfolding process_presence_edu_def by (intro origin_only.keeps_check origin_only.keeps_forS)
qed

lemma store_edu_keeps:
  "from_server (ed_sender row) origin \<Longrightarrow> origin_only.keeps w origin (or_text what (edu_create w row))"
  unfolding edu_create_def by (intro keeps_or_text origin_call) (simp add: origin_writes_def)

lemma device_list_keeps: "origin_only.keeps w origin (process_device_list_edu w origin content)"
proof -
  have "origin_only.keeps w origin (apply_update w u)" if "from_server (dl_user_id u) origin" for u
    unfolding origin_only.keeps_def using device_writes [OF that] by blast
  then show ?thesis
    unfolding process_device_list_edu_def handle_device_list_update_def
    by (intro origin_only.keeps_check origin_only.keeps_bindS store_edu_keeps) (simp_all add: result_simps)
qed

lemma signing_key_keeps: "origin_only.keeps w origin (process_signing_key_update_edu w origin content)"
  unfolding process_signing_key_update_edu_def handle_signing_key_update_def
  by (intro origin_only.keeps_check origin_only.keeps_bindS store_edu_keeps origin_only.keeps_liftS)
    (simp_all add: result_simps)

lemma to_device_row_keeps:
  "td_origin row = origin \<Longrightarrow> ew_user_exists w (td_target_user_id row) = Inr True \<Longrightarrow>
     origin_only.keeps w origin (or_text what (repo_direct_to_device_edu w row))"
proof (rule keeps_or_text)
  assume row: "td_origin row = origin" "ew_user_exists w (td_target_user_id row) = Inr True"
  fix db
  have "origin_writes w origin db db" by (rule origin_only.order_refl)
  moreover have "origin_writes w origin db (db\<lparr>to_device := to_device db @ [row]\<rparr>)"
    using row by (simp add: origin_writes_def)
  ultimately show "origin_writes w origin db (snd (repo_direct_to_device_edu w row db))"
    unfolding repo_direct_to_device_edu_def by (simp add: origin_query)
qed

lemma direct_to_device_keeps: "origin_only.keeps w origin (process_direct_to_device_edu w order origin content)"
proof -
  have device: "origin_only.keeps w origin (deliver_to_device w order row user_id entry)"
    if "\<And>d c. td_origin (row d c) = origin \<and> td_target_user_id (row d c) = user_id"
      and "ew_user_exists w user_id = Inr True" for row user_id entry
  proof -
    have each: "origin_only.keeps w origin (forS (\<lambda>d. or_text [] (repo_direct_to_device_edu w (row (Some (dv_device_id d)) c))) ds)" for c ds
      by (intro origin_only.keeps_forS to_device_row_keeps) (simp_all add: that)
    have one: "origin_only.keeps w origin (or_text [] (repo_direct_to_device_edu w (row d c)))" for d c
      by (rule to_device_row_keeps) (simp_all add: that)
    show ?thesis
      using each one unfolding origin_only.keeps_def deliver_to_device_def
      by (auto simp: origin_only.order_refl split: prod.split sum.split bool.split)
  qed
  have "origin_only.keeps w origin (deliver_to_user w order row entry)"
    if "\<And>u d c. td_origin (row u d c) = origin \<and> td_target_user_id (row u d c) = u" for row entry
    using that unfolding deliver_to_user_def
    by (auto intro!: origin_only.keeps_check origin_only.keeps_forS device simp: origin_only.keeps_liftS
        split: prod.split sum.split bool.split)
  then show ?thesis
    unfolding process_direct_to_device_edu_def
    by (intro origin_only.keeps_check origin_only.keeps_forS) simp
qed

text \<open>
  C36. A server writes only rows about its own users: whatever ephemeral data it sends, the typing notices
  that come or go, the receipts and stored updates added, the presence row and the device entries
  written are about its users, receipts are public ones, and direct messages are recorded in its name
  for users who exist. This bounds the rows written, not the ones they replace: see the next
  two theorems for presence and devices.
\<close>

theorem edu_writes_own_users:
  assumes "transaction_edu w order origin edu db = (r, db')"
  shows "origin_writes w origin db db'"
proof -
  have "origin_only.keeps w origin (transaction_edu w order origin edu)"
    unfolding transaction_edu_def
    using typing_keeps receipt_keeps presence_keeps device_list_keeps signing_key_keeps direct_to_device_keeps
    by (auto simp: origin_only.keeps_liftS split: option.split)
  then show ?thesis using assms by (rule origin_only.keeps_state)
qed

text \<open>
  Presence is not protected: every update goes to the one record, and replaces whatever it holds. The
  presence of another server's user, or a local user's, is gone after an update about a user of the
  sender.
\<close>

theorem foreign_presence_replaced:
  assumes "Option.bind (get e ''user_id'') as_str = Some user_id" and "from_server user_id origin"
    and "\<And>call. ew_fail w call = None" and "\<And>db'. \<not> ew_refuses w StorePresence db'"
  shows "\<exists>db' row. process_presence_edu w origin (JObject [(''push'', JArray [e])]) db = (Inr (), db') \<and>
     pr_user_id row = user_id \<and> presence_events db' = (presence_events db)(presence_record \<mapsto> row)"
  using assms
  by (simp add: process_presence_edu_def process_presence_event_def bindS_def liftS_def ensure_def or_text_def
      repo_presence_edu_def edu_query_result_def edu_call_result_def get_def)
    (rule exI, rule conjI [OF _ refl], simp)

text \<open>
  Devices are not protected either: they are stored under the device identifier alone. An update
  of a server about its own user replaces, or deletes, whatever device is stored under that
  identifier, a local user's included.
\<close>

theorem foreign_device_replaced:
  assumes "device_list_update_of content = Some u" and "from_server (dl_user_id u) origin"
    and "\<And>call. ew_fail w call = None" and "devices db (dl_device_id u) = Some d"
  shows "\<exists>db'. process_device_list_edu w origin content db = (Inr (), db') \<and>
     (if dl_deleted u then devices db' (dl_device_id u) = None
      else \<exists>d'. devices db' (dl_device_id u) = Some d' \<and> dv_user_id d' = dl_user_id u \<and> dv_device_keys d' = dl_keys u)"
  using assms
  by (simp add: process_device_list_edu_def handle_device_list_update_def bindS_def liftS_def ensure_def or_text_def
      edu_create_def edu_call_result_def apply_update_def device_delete_def device_update_def device_of_update_def)

text \<open>
  A device list update has to carry the members \<open>prev_id\<close> and \<open>deleted\<close>: without them it is an error.
\<close>

theorem device_update_needs_deleted:
  "map_of ms ''deleted'' = None \<or> map_of ms ''prev_id'' = None \<Longrightarrow>
   process_device_list_edu w origin (JObject ms) db = (Inl ''Failed to parse device list EDU'', db)"
  by (auto simp: process_device_list_edu_def device_list_update_of_def struct_fields_def bindS_def liftS_def
      split: option.split)

text \<open>A relation between tables of direct messages that differ by at most one message.\<close>

definition at_most_one :: "string \<Rightarrow> string \<Rightarrow> edu_db \<Rightarrow> edu_db \<Rightarrow> bool" where
  "at_most_one message_id origin db db' \<longleftrightarrow>
     to_device db' = to_device db \<or>
     (\<exists>row. td_message_id row = message_id \<and> td_origin row = origin \<and> to_device db' = to_device db @ [row] \<and>
        \<not> list_ex (\<lambda>r. td_message_id r = message_id \<and> td_origin r = origin) (to_device db))"

interpretation one_copy: state_order "at_most_one message_id origin" for message_id origin
proof
  show "at_most_one message_id origin db db" for db by (simp add: at_most_one_def)
next
  fix a b c assume "at_most_one message_id origin a b" and "at_most_one message_id origin b c"
  then show "at_most_one message_id origin a c" unfolding at_most_one_def by fastforce
qed

lemma one_copy_row:
  assumes "td_message_id row = message_id" and "td_origin row = origin"
  shows "one_copy.keeps message_id origin (or_text what (repo_direct_to_device_edu w row))"
  using assms
  by (auto simp: one_copy.keeps_def or_text_state repo_direct_to_device_edu_def edu_query_result_def
      edu_call_result_def at_most_one_def
      split: option.split)

lemma one_copy_device:
  assumes "\<And>d c. td_message_id (row d c) = message_id \<and> td_origin (row d c) = origin"
  shows "one_copy.keeps message_id origin (deliver_to_device w order row user_id entry)"
proof -
  have each: "one_copy.keeps message_id origin (forS (\<lambda>d. or_text [] (repo_direct_to_device_edu w (row (Some (dv_device_id d)) c))) ds)" for c ds
    by (intro one_copy.keeps_forS one_copy_row) (simp_all add: assms)
  have one: "one_copy.keeps message_id origin (or_text [] (repo_direct_to_device_edu w (row d c)))" for d c
    by (rule one_copy_row) (simp_all add: assms)
  show ?thesis
    using each one unfolding one_copy.keeps_def deliver_to_device_def
    by (auto simp: one_copy.order_refl split: prod.split sum.split bool.split)
qed

lemma one_copy_user:
  assumes "\<And>u d c. td_message_id (row u d c) = message_id \<and> td_origin (row u d c) = origin"
  shows "one_copy.keeps message_id origin (deliver_to_user w order row entry)"
  using assms unfolding deliver_to_user_def
  by (auto intro!: one_copy.keeps_check one_copy.keeps_forS one_copy_device simp: one_copy.keeps_liftS
      split: prod.split sum.split bool.split)

text \<open>
  One direct message reaches one device: messages are told apart by identifier and origin only, and
  the copies for the devices and users of a message share them, so the first copy stored
  suppresses all others.
\<close>

theorem to_device_single_copy:
  assumes "process_direct_to_device_edu w order origin content db = (r, db')"
  shows "length (to_device db') \<le> Suc (length (to_device db))"
proof (cases "Option.bind (get content ''message_id'') as_str")
  case None
  then show ?thesis using assms by (auto simp: process_direct_to_device_edu_def bindS_def liftS_def)
next
  case (Some message_id)
  have "one_copy.keeps message_id origin (process_direct_to_device_edu w order origin content)"
    unfolding process_direct_to_device_edu_def using Some
    by (intro one_copy.keeps_check one_copy.keeps_forS one_copy_user) (auto simp: result_simps)
  from one_copy.keeps_state [OF this assms] show ?thesis by (auto simp: at_most_one_def)
qed

text \<open>
  The sender of a direct message is taken as it is: any name, a local user's or a third server's,
  is stored with the message.
\<close>

theorem to_device_sender_unchecked:
  assumes "\<And>call. ew_fail w call = None" and "ew_user_exists w user_id = Inr True"
    and "devices db device_id = Some d" and "dv_user_id d = user_id" and "device_id \<noteq> ''*''"
    and "\<forall>r \<in> set (to_device db). \<not> (td_message_id r = message_id \<and> td_origin r = origin)"
    and "\<And>db'. \<not> ew_refuses w StoreToDevice db'"
  shows "\<exists>db' row. process_direct_to_device_edu w order origin (JObject
       [(''message_id'', JString message_id), (''sender'', JString sender), (''type'', JString t),
        (''messages'', JObject [(user_id, JObject [(device_id, c)])])]) db = (Inr (), db') \<and>
     to_device db' = to_device db @ [row] \<and> td_sender row = sender \<and> td_target_user_id row = user_id"
proof -
  have "\<not> list_ex (\<lambda>r. td_message_id r = message_id \<and> td_origin r = origin) (to_device db)"
    using assms(6) by (auto simp: list_ex_iff)
  then show ?thesis
    using assms(1-5,7)
    by (simp add: process_direct_to_device_edu_def deliver_to_user_def deliver_to_device_def verify_device_def
        repo_direct_to_device_edu_def edu_query_result_def edu_call_result_def or_text_def bindS_def liftS_def get_def)
qed

section \<open>Witnesses\<close>

definition edu_demo :: edu_world where
  "edu_demo = \<lparr>ew_fail = (\<lambda>call. None), ew_now = 0, ew_check_membership = (\<lambda>r u. Inr True),
     ew_user_exists = (\<lambda>u. Inr True), ew_timestamp_ok = (\<lambda>t. True), ew_refuses = (\<lambda>call db. False)\<rparr>"

definition local_device :: "string \<Rightarrow> device" where
  "local_device i = \<lparr>dv_device_id = i, dv_user_id = ''@a:x'', dv_display_name = None, dv_last_seen_ts = 0,
     dv_created_at = 0, dv_device_keys = None\<rparr>"

definition edu_db_demo :: edu_db where
  "edu_db_demo = \<lparr>typing_notifications = [], receipts = [], presence_events = Map.empty, edus = [],
     devices = [''D'' \<mapsto> local_device ''D'', ''E'' \<mapsto> local_device ''E''], to_device = []\<rparr>"

definition presence_update :: json where
  "presence_update = JObject [(''type'', JString ''m.presence''), (''content'', JObject [(''push'',
     JArray [JObject [(''user_id'', JString ''@b:y'')]])])]"

definition presence_of :: "string \<Rightarrow> presence_row" where
  "presence_of u = \<lparr>pr_user_id = u, pr_presence = ''offline'', pr_status_msg = None, pr_last_active_ago = None,
     pr_currently_active = False\<rparr>"

theorem edu_writes_own_users_witness:
  "transaction_edu edu_demo [] ''y'' presence_update edu_db_demo =
     (Inr (), edu_db_demo\<lparr>presence_events := [presence_record \<mapsto> presence_of ''@b:y'']\<rparr>) \<and>
   origin_writes edu_demo ''y'' edu_db_demo (edu_db_demo\<lparr>presence_events := [presence_record \<mapsto> presence_of ''@b:y'']\<rparr>)"
proof -
  have run: "transaction_edu edu_demo [] ''y'' presence_update edu_db_demo =
     (Inr (), edu_db_demo\<lparr>presence_events := [presence_record \<mapsto> presence_of ''@b:y'']\<rparr>)"
    by (simp add: transaction_edu_def presence_update_def process_presence_edu_def process_presence_event_def
        bindS_def liftS_def or_text_def repo_presence_edu_def edu_query_result_def edu_call_result_def get_def
        edu_demo_def edu_db_demo_def presence_of_def suffix_def)
  from run edu_writes_own_users [OF run] show ?thesis by (rule conjI)
qed

theorem foreign_presence_replaced_witness:
  "\<exists>db'. process_presence_edu edu_demo ''y'' (JObject [(''push'', JArray [JObject [(''user_id'', JString ''@b:y'')]])])
       (edu_db_demo\<lparr>presence_events := [presence_record \<mapsto> presence_of ''@a:x'']\<rparr>) = (Inr (), db') \<and>
     (\<exists>row. pr_user_id row = ''@b:y'' \<and> presence_events db' = [presence_record \<mapsto> row])"
  using foreign_presence_replaced [of "JObject [(''user_id'', JString ''@b:y'')]" "''@b:y''" "''y''" edu_demo
      "edu_db_demo\<lparr>presence_events := [presence_record \<mapsto> presence_of ''@a:x'']\<rparr>"]
  by (auto simp: edu_demo_def get_def suffix_def)

definition device_update_content :: json where
  "device_update_content = JObject [(''user_id'', JString ''@b:y''), (''device_id'', JString ''D''),
     (''stream_id'', int_json 1), (''prev_id'', JArray []), (''deleted'', JBool True)]"

theorem foreign_device_replaced_witness:
  "devices edu_db_demo ''D'' = Some (local_device ''D'') \<and> dv_user_id (local_device ''D'') = ''@a:x'' \<and>
   (\<exists>db'. process_device_list_edu edu_demo ''y'' device_update_content edu_db_demo = (Inr (), db') \<and>
      devices db' ''D'' = None)"
proof -
  have u: "device_list_update_of device_update_content = Some \<lparr>dl_user_id = ''@b:y'', dl_device_id = ''D'',
      dl_stream_id = 1, dl_prev_id = [], dl_deleted = True, dl_device_display_name = None, dl_keys = None\<rparr>"
    by (simp add: device_list_update_of_def device_update_content_def struct_fields_def req_string_def ints_of_def
        opt_string_def opt_json_def in_i64_def i64_min_def i64_max_def)
  from foreign_device_replaced [OF u, of "''y''" edu_demo edu_db_demo "local_device ''D''"] show ?thesis
    by (simp add: edu_demo_def edu_db_demo_def local_device_def suffix_def)
qed

theorem device_update_needs_deleted_witness:
  "process_device_list_edu edu_demo ''y'' (JObject [(''user_id'', JString ''@b:y''), (''device_id'', JString ''D''),
     (''stream_id'', int_json 1)]) edu_db_demo = (Inl ''Failed to parse device list EDU'', edu_db_demo)"
  by (rule device_update_needs_deleted) simp

theorem to_device_single_copy_witness:
  "length (to_device (snd (process_direct_to_device_edu edu_demo [''D'', ''E''] ''y'' (JObject
     [(''message_id'', JString ''m''), (''sender'', JString ''@b:y''), (''type'', JString ''t''),
      (''messages'', JObject [(''@a:x'', JObject [(''*'', JNull)])])]) edu_db_demo))) \<le> 1"
  using to_device_single_copy [OF prod.collapse [symmetric], of edu_demo "[''D'', ''E'']" "''y''" "JObject
     [(''message_id'', JString ''m''), (''sender'', JString ''@b:y''), (''type'', JString ''t''),
      (''messages'', JObject [(''@a:x'', JObject [(''*'', JNull)])])]" edu_db_demo]
  by (simp add: edu_db_demo_def)

theorem to_device_sender_unchecked_witness:
  "\<exists>db' row. process_direct_to_device_edu edu_demo [] ''y'' (JObject
       [(''message_id'', JString ''m''), (''sender'', JString ''@admin:x''), (''type'', JString ''t''),
        (''messages'', JObject [(''@a:x'', JObject [(''D'', JNull)])])]) edu_db_demo = (Inr (), db') \<and>
     to_device db' = to_device edu_db_demo @ [row] \<and> td_sender row = ''@admin:x'' \<and> td_target_user_id row = ''@a:x''"
  by (rule to_device_sender_unchecked [where d = "local_device ''D''"])
    (simp_all add: edu_demo_def edu_db_demo_def local_device_def)

end
