(* ===== verification/Fed_Send.thy ===== *)
theory Fed_Send
  imports Edus
begin

text \<open>
  The endpoint that receives transactions of other servers,
  \<open>server/src/_matrix/federation/v1/send/by_txn_id.rs\<close>: its own parser of the \<open>Authorization\<close>
  header, its check of the request signature, the cache of transactions
  (\<open>surrealdb/src/repository/transaction.rs\<close>), the validation and storing of PDUs with
  \<open>Pdu_Validator\<close> and the processing of ephemeral data with \<open>Edus\<close>. The state is the record
  \<open>fed_db\<close>; what the validator reads of the database is a function of it. URL decoding and the
  character classes of Unicode are arguments, and so is whether the database runs with the table
  definition of \<open>018_federation_transactions.surql\<close>. A slice outside a string is the outcome
  \<open>Panicked\<close>.
\<close>

section \<open>Environment\<close>

datatype send_failure = Status nat | Panicked

record send_auth =
  sx_origin :: string
  sx_key_id :: string
  sx_signature :: string
  sx_destination :: "string option"

record transaction_row =
  tx_key :: string
  tx_result :: json
  tx_created_at :: int
  tx_expires_at :: int

record fed_db =
  fd_transactions :: "transaction_row list"
  fd_events :: "event list"
  fd_keys :: "key_row list"
  fd_edu :: edu_db

record send_world =
  sd_session :: session_world
  sd_pdu :: "fed_db \<Rightarrow> pdu_world"
  sd_edu :: edu_world
  sd_device_order :: "string list"
  sd_url_decode :: "string \<Rightarrow> string option"
  sd_is_whitespace :: "string \<Rightarrow> bool"
  sd_is_control :: "string \<Rightarrow> bool"
  sd_is_alphanumeric :: "string \<Rightarrow> bool"
  sd_event_failure :: "event \<Rightarrow> repository_error option"
  sd_cache_failure :: "repository_error option"
  sd_table_defined :: bool
  sd_validator_ok :: bool

record send_clocks =
  st_cache_read :: int
  st_session :: session_clocks
  st_server_session :: int
  st_pdu :: "nat \<Rightarrow> clocks"
  st_cached :: int

section \<open>The header\<close>

text \<open>Backslash escapes; an unknown escape is kept as it is.\<close>

fun parse_quoted_string :: "string \<Rightarrow> string" where
  "parse_quoted_string [] = []"
| "parse_quoted_string (c # cs) =
     (if c = CHR 0x5C
      then (case cs of
              [] \<Rightarrow> [CHR 0x5C]
            | d # ds \<Rightarrow>
                if d = CHR 0x22 then CHR 0x22 # parse_quoted_string ds
                else if d = CHR 0x5C then CHR 0x5C # parse_quoted_string ds
                else if d = CHR ''n'' then CHR 0x0A # parse_quoted_string ds
                else if d = CHR ''r'' then CHR 0x0D # parse_quoted_string ds
                else if d = CHR ''t'' then CHR 0x09 # parse_quoted_string ds
                else CHR 0x5C # d # parse_quoted_string ds)
      else c # parse_quoted_string cs)"

definition param_value_of :: "string \<Rightarrow> send_failure + string" where
  "param_value_of raw =
     (if starts_with raw CHR 0x22 \<and> ends_with raw CHR 0x22
      then if length raw = 1 then Inl Panicked
           else Inr (parse_quoted_string (butlast (tl raw)))
      else Inr raw)"

text \<open>Errors of the parser are all answered with the status 400.\<close>

definition parse_parameter ::
  "send_world \<Rightarrow> string \<Rightarrow> (string \<rightharpoonup> string) \<Rightarrow> send_failure + (string \<rightharpoonup> string)" where
  "parse_parameter w param_part acc =
     (let part = trim param_part in
      if part = [] then Inr acc
      else
        bindR (ok_or (split_once CHR ''='' part) (Status 400)) (\<lambda>(name_raw, value_raw).
        let param_name = map to_ascii_lower (trim name_raw) in
        bindR (ensure (param_name \<noteq> []) (Status 400)) (\<lambda>_.
        bindR (param_value_of (trim value_raw)) (\<lambda>param_value.
        bindR (if param_name = ''origin'' \<or> param_name = ''destination''
               then ok_or (sd_url_decode w param_value) (Status 400) else Inr param_value) (\<lambda>decoded_value.
        Inr (acc(param_name \<mapsto> decoded_value)))))))"

fun parse_parts ::
  "send_world \<Rightarrow> string list \<Rightarrow> (string \<rightharpoonup> string) \<Rightarrow> send_failure + (string \<rightharpoonup> string)" where
  "parse_parts w [] acc = Inr acc"
| "parse_parts w (p # ps) acc = bindR (parse_parameter w p acc) (parse_parts w ps)"

definition parse_x_matrix_parameters :: "send_world \<Rightarrow> string \<Rightarrow> send_failure + (string \<rightharpoonup> string)" where
  "parse_x_matrix_parameters w params_str = parse_parts w (split_on CHR '','' params_str) Map.empty"

definition send_valid_server_name :: "send_world \<Rightarrow> string \<Rightarrow> bool" where
  "send_valid_server_name w server_name \<longleftrightarrow>
     server_name \<noteq> [] \<and>
     \<not> list_ex (\<lambda>c. sd_is_whitespace w c \<or> sd_is_control w c) (utf8_chars server_name) \<and>
     contains server_name CHR ''.'' \<and> length server_name \<le> 255"

definition is_valid_signing_key_format :: "send_world \<Rightarrow> string \<Rightarrow> bool" where
  "is_valid_signing_key_format w key =
     (case split_once CHR '':'' key of
        Some (algorithm, key_id) \<Rightarrow>
          algorithm \<in> {''ed25519'', ''rsa'', ''curve25519''} \<and> key_id \<noteq> [] \<and> length key_id \<le> 64 \<and>
          list_all (\<lambda>c. sd_is_alphanumeric w c \<or> c \<in> {''+'', ''/'', ''='', ''_'', ''-''}) (utf8_chars key_id)
      | None \<Rightarrow> False)"

definition is_valid_base64_signature :: "send_world \<Rightarrow> string \<Rightarrow> bool" where
  "is_valid_base64_signature w signature \<longleftrightarrow>
     signature \<noteq> [] \<and> length signature \<le> 1024 \<and> b64_decode (sw_crypto (sd_session w)) signature \<noteq> None"

definition send_parse_x_matrix_auth :: "send_world \<Rightarrow> string option option \<Rightarrow> send_failure + send_auth" where
  "send_parse_x_matrix_auth w authorization =
     bindR (ok_or authorization (Status 401)) (\<lambda>header.
     bindR (ok_or header (Status 400)) (\<lambda>auth_header.
     bindR (ensure (prefix ''x-matrix '' (map to_ascii_lower auth_header)) (Status 401)) (\<lambda>_.
     let auth_params = trim (drop 9 auth_header) in
     bindR (ensure (auth_params \<noteq> []) (Status 400)) (\<lambda>_.
     bindR (parse_x_matrix_parameters w auth_params) (\<lambda>params.
     bindR (ok_or (params ''origin'') (Status 400)) (\<lambda>origin.
     bindR (ensure (send_valid_server_name w origin) (Status 400)) (\<lambda>_.
     bindR (ok_or (params ''key'') (Status 400)) (\<lambda>key.
     bindR (ensure (is_valid_signing_key_format w key) (Status 400)) (\<lambda>_.
     bindR (ok_or (params ''sig'') (Status 400)) (\<lambda>signature.
     bindR (ensure (is_valid_base64_signature w signature) (Status 400)) (\<lambda>_.
     let destination = params ''destination'' in
     bindR (ensure (case destination of Some dest \<Rightarrow> send_valid_server_name w dest | None \<Rightarrow> True) (Status 400)) (\<lambda>_.
     Inr \<lparr>sx_origin = origin, sx_key_id = key, sx_signature = signature, sx_destination = destination\<rparr>))))))))))))"

section \<open>The signature of the request\<close>

definition construct_canonical_request ::
  "send_world \<Rightarrow> string \<Rightarrow> string \<Rightarrow> string \<Rightarrow> string option \<Rightarrow> json \<Rightarrow> matrix_auth_error + string" where
  "construct_canonical_request w method path origin destination body =
     bindR (map_err (\<lambda>_. A_InvalidSignature)
              (to_canonical_json (json_to_string (sw_crypto (sd_session w))) body)) (\<lambda>canonical_body.
     Inr (joined [CHR 0x0A] ([sw_to_uppercase (sd_session w) method, path, origin]
            @ (case destination of Some dest \<Rightarrow> [dest] | None \<Rightarrow> []) @ [canonical_body])))"

definition verify_server_signature ::
  "send_world \<Rightarrow> session_clocks \<Rightarrow> send_auth \<Rightarrow> string \<Rightarrow> string \<Rightarrow> json \<Rightarrow> key_row list \<Rightarrow>
   (matrix_auth_error + unit) \<times> key_row list" where
  "verify_server_signature w ck auth method path body =
     (let c = sw_crypto (sd_session w) in
      bindS (\<lambda>rows. case session_get_server_public_key (sd_session w) ck (sx_origin auth) (sx_key_id auth) rows of
                      (r, rows') \<Rightarrow> (map_err (\<lambda>_. A_InvalidSignature) r, rows')) (\<lambda>public_key.
      liftS (bindR (construct_canonical_request w method path (sx_origin auth) (sx_destination auth) body) (\<lambda>canonical_request.
        bindR (ok_or (b64_decode c (sx_signature auth)) A_InvalidSignature) (\<lambda>signature_bytes.
        bindR (ensure (length signature_bytes = 64) A_InvalidSignature) (\<lambda>_.
        bindR (ok_or (b64_decode c public_key) A_InvalidSignature) (\<lambda>public_key_bytes.
        bindR (ensure (length public_key_bytes = 32) A_InvalidSignature) (\<lambda>_.
        bindR (ensure (ed_key_ok c public_key_bytes) A_InvalidSignature) (\<lambda>_.
        ensure (ed_verify c public_key_bytes canonical_request signature_bytes) A_InvalidSignature)))))))))"

section \<open>The cache of transactions\<close>

definition get_cached_result ::
  "send_world \<Rightarrow> int \<Rightarrow> string \<Rightarrow> fed_db \<Rightarrow> repository_error + json option" where
  "get_cached_result w now txn_key db =
     (case sd_cache_failure w of
        Some e \<Rightarrow> Inl e
      | None \<Rightarrow> Inr (map_option tx_result
          (find (\<lambda>t. tx_key t = txn_key \<and> tx_expires_at t > now) (fd_transactions db))))"

text \<open>
  The table definition wants three non-empty strings that have no default; the statement that caches an
  answer sets one of them. The statement's result is not read, so a row the table refuses is
  dropped and the call succeeds.
\<close>

definition transaction_required :: "string list" where
  "transaction_required = [''transaction_key'', ''origin_server'', ''transaction_id'']"

definition cache_result_sets :: "string list" where
  "cache_result_sets = [''transaction_key'', ''result'', ''created_at'', ''expires_at'']"

definition transaction_row_accepted :: "send_world \<Rightarrow> bool" where
  "transaction_row_accepted w \<longleftrightarrow>
     \<not> sd_table_defined w \<or> list_all (\<lambda>f. f \<in> set cache_result_sets) transaction_required"

definition cache_result ::
  "send_world \<Rightarrow> int \<Rightarrow> string \<Rightarrow> json \<Rightarrow> fed_db \<Rightarrow> (repository_error + unit) \<times> fed_db" where
  "cache_result w now txn_key result db =
     (case sd_cache_failure w of
        Some e \<Rightarrow> (Inl e, db)
      | None \<Rightarrow>
          if transaction_row_accepted w
          then (Inr (), db\<lparr>fd_transactions := fd_transactions db @
                  [\<lparr>tx_key = txn_key, tx_result = result, tx_created_at = now,
                    tx_expires_at = now + 24 * 60 * 60 * 1000\<rparr>]\<rparr>)
          else (Inr (), db))"

definition cleanup_expired_cache :: "int \<Rightarrow> fed_db \<Rightarrow> fed_db" where
  "cleanup_expired_cache cutoff db =
     db\<lparr>fd_transactions := filter (\<lambda>t. \<not> tx_expires_at t < cutoff) (fd_transactions db)\<rparr>"

section \<open>The transaction\<close>

definition event_create :: "send_world \<Rightarrow> event \<Rightarrow> fed_db \<Rightarrow> (repository_error + unit) \<times> fed_db" where
  "event_create w e db =
     (case sd_event_failure w e of
        Some err \<Rightarrow> (Inl err, db)
      | None \<Rightarrow>
          if ev_event_id e \<in> set (map ev_event_id (fd_events db))
          then (Inl (Database ''Database record already exists''), db)
          else (Inr (), db\<lparr>fd_events := fd_events db @ [e]\<rparr>))"

definition store_pdu :: "send_world \<Rightarrow> event \<Rightarrow> members \<Rightarrow> fed_db \<Rightarrow> members \<times> fed_db" where
  "store_pdu w e results db =
     (case event_create w e db of
        (Inr _, db') \<Rightarrow> (AList.update (ev_event_id e) (JObject []) results, db')
      | (Inl err, db') \<Rightarrow>
          (AList.update (ev_event_id e) (JObject [(''error'', JString (''Storage failed: '' @ repository_error_text err))]) results, db'))"

definition process_pdu ::
  "send_world \<Rightarrow> clocks \<Rightarrow> string \<Rightarrow> json \<Rightarrow> members \<Rightarrow> fed_db \<Rightarrow> members \<times> fed_db" where
  "process_pdu w ck origin pdu results db =
     (let event_id = unwrap_or ''unknown'' (Option.bind (get pdu ''event_id'') as_str) in
      case validate_pdu (sd_pdu w db) ck pdu origin (fd_keys db) of
        (r, keys) \<Rightarrow>
          (let db' = db\<lparr>fd_keys := keys\<rparr> in
           case r of
             Inr (Valid e) \<Rightarrow> store_pdu w e results db'
           | Inr (SoftFailed e reason) \<Rightarrow> store_pdu w e results db'
           | Inr (Rejected rejected_id reason) \<Rightarrow>
               (AList.update rejected_id (JObject [(''error'', JString reason)]) results, db')
           | Inl e \<Rightarrow>
               (AList.update event_id (JObject [(''error'', JString (''Validation failed: '' @ pdu_error_text e))]) results, db')))"

fun process_pdus ::
  "send_world \<Rightarrow> (nat \<Rightarrow> clocks) \<Rightarrow> nat \<Rightarrow> string \<Rightarrow> json list \<Rightarrow> members \<Rightarrow> fed_db \<Rightarrow> members \<times> fed_db" where
  "process_pdus w ck i origin [] results db = (results, db)"
| "process_pdus w ck i origin (pdu # pdus) results db =
     (case process_pdu w (ck i) origin pdu results db of
        (results', db') \<Rightarrow> process_pdus w ck (Suc i) origin pdus results' db')"

definition array_or_empty :: "json option \<Rightarrow> json list" where
  "array_or_empty v = unwrap_or [] (Option.bind v as_array)"

text \<open>What follows the checks of a transaction: the PDUs, the ephemeral data and the answer.\<close>

definition run_transaction ::
  "send_world \<Rightarrow> send_clocks \<Rightarrow> string \<Rightarrow> string \<Rightarrow> json list \<Rightarrow> json list \<Rightarrow> fed_db \<Rightarrow> (send_failure + json) \<times> fed_db" where
  "run_transaction w ck origin txn_key pdu_list edu_list db =
     (case process_pdus w (st_pdu ck) 0 origin pdu_list [] db of
        (pdu_results, db1) \<Rightarrow>
          (case forS (transaction_edu (sd_edu w) (sd_device_order w) origin) edu_list (fd_edu db1) of
             (Inl _, edu_db') \<Rightarrow> (Inl (Status 500), db1\<lparr>fd_edu := edu_db'\<rparr>)
           | (Inr _, edu_db') \<Rightarrow>
               (let response = JObject [(''pdus'', JObject pdu_results)] in
                (Inr response, snd (cache_result w (st_cached ck) txn_key response (db1\<lparr>fd_edu := edu_db'\<rparr>))))))"

definition transaction_key :: "string \<Rightarrow> string \<Rightarrow> string" where
  "transaction_key origin txn_id = origin @ '':'' @ txn_id"

definition put_transaction ::
  "send_world \<Rightarrow> send_clocks \<Rightarrow> string \<Rightarrow> string option option \<Rightarrow> json \<Rightarrow> fed_db \<Rightarrow> (send_failure + json) \<times> fed_db" where
  "put_transaction w ck txn_id authorization payload db =
     (case bindR (send_parse_x_matrix_auth w authorization) (\<lambda>auth.
           bindR (ok_or (Option.bind (get payload ''origin'') as_str) (Status 400)) (\<lambda>payload_origin.
           bindR (ensure (payload_origin = sx_origin auth) (Status 401)) (\<lambda>_. Inr auth))) of
        Inl e \<Rightarrow> (Inl e, db)
      | Inr auth \<Rightarrow>
          (let key = transaction_key (sx_origin auth) txn_id in
           case get_cached_result w (st_cache_read ck) key db of
             Inr (Some cached_result) \<Rightarrow> (Inr cached_result, db)
           | _ \<Rightarrow>
               (case verify_server_signature w (st_session ck) auth ''PUT''
                       (''/_matrix/federation/v1/send/'' @ txn_id) payload (fd_keys db) of
                  (Inl _, rows) \<Rightarrow> (Inl (Status 401), db\<lparr>fd_keys := rows\<rparr>)
                | (Inr _, rows) \<Rightarrow>
                    (let db1 = db\<lparr>fd_keys := rows\<rparr>;
                         pdu_list = array_or_empty (get payload ''pdus'');
                         edu_list = array_or_empty (get payload ''edus'') in
                     case bindR (map_err (\<lambda>_. Status 500) (create_server_session (st_server_session ck)
                                   (sx_origin auth) (sx_key_id auth) (sx_signature auth))) (\<lambda>_.
                          bindR (ok_or (Option.bind (get payload ''origin_server_ts'') as_i64) (Status 400)) (\<lambda>_.
                          bindR (ensure (\<not> length pdu_list > 50) (Status 400)) (\<lambda>_.
                          bindR (ensure (\<not> length edu_list > 100) (Status 400)) (\<lambda>_.
                          ensure (sd_validator_ok w) (Status 500))))) of
                       Inl e \<Rightarrow> (Inl e, db1)
                     | Inr _ \<Rightarrow> run_transaction w ck (sx_origin auth) key pdu_list edu_list db1))))"

section \<open>What a signature covers\<close>

lemma verify_as_session:
  "verify_server_signature w ck auth method path body rows =
     (case session_get_server_public_key (sd_session w) ck (sx_origin auth) (sx_key_id auth) rows of
        (Inl _, rows') \<Rightarrow> (Inl A_InvalidSignature, rows')
      | (Inr public_key, rows') \<Rightarrow>
          (bindR (construct_canonical_request w method path (sx_origin auth) (sx_destination auth) body) (\<lambda>m.
             verify_ed25519_signature (sw_crypto (sd_session w)) (sx_signature auth) m public_key), rows'))"
proof (cases "session_get_server_public_key (sd_session w) ck (sx_origin auth) (sx_key_id auth) rows")
  case (Pair r rows')
  show ?thesis
  proof (cases r)
    case (Inr public_key)
    have "bindR (ok_or (b64_decode c s) A_InvalidSignature) (\<lambda>sb. bindR (ensure (length sb = 64) A_InvalidSignature) (\<lambda>_.
        bindR (ok_or (b64_decode c k) A_InvalidSignature) (\<lambda>kb. bindR (ensure (length kb = 32) A_InvalidSignature) (\<lambda>_.
        bindR (ensure (ed_key_ok c kb) A_InvalidSignature) (\<lambda>_. ensure (ed_verify c kb m sb) A_InvalidSignature))))) =
      verify_ed25519_signature c s m k" for c s k m
      by (cases "b64_decode c s"; cases "b64_decode c k") (simp_all add: verify_ed25519_signature_def ensure_def)
    then show ?thesis using Pair Inr by (simp add: verify_server_signature_def bindS_def liftS_def Let_def)
  qed (simp add: Pair verify_server_signature_def bindS_def liftS_def Let_def)
qed

lemma joined_first: "xs \<noteq> [] \<Longrightarrow> x \<noteq> [] \<Longrightarrow> joined sep (x # xs) \<noteq> [] \<and> hd (joined sep (x # xs)) = hd x"
  by (cases xs) auto

lemma canonical_request_first:
  assumes "construct_canonical_request w method path origin destination body = Inr m"
    and "sw_to_uppercase (sd_session w) method \<noteq> []"
  shows "m \<noteq> [] \<and> hd m = hd (sw_to_uppercase (sd_session w) method)"
proof -
  obtain b where "m = joined [CHR 0x0A] (sw_to_uppercase (sd_session w) method # [path, origin]
      @ (case destination of Some dest \<Rightarrow> [dest] | None \<Rightarrow> []) @ [b])"
    using assms(1) by (auto simp: construct_canonical_request_def result_simps simp del: joined.simps)
  then show ?thesis using joined_first [OF _ assms(2)] by (simp del: joined.simps)
qed

lemma signed_text_first:
  assumes "build_canonical_json w method uri origin destination content = Inr m"
  shows "m \<noteq> [] \<and> hd m = CHR 0x7B"
proof -
  obtain ms where "session_canonical_json w (JObject ms) = Inr m"
    using assms by (auto simp: build_canonical_json_def Let_def result_simps simp del: session_canonical_json.simps split: if_splits)
  then show ?thesis by (auto simp: result_simps)
qed

text \<open>
  What this endpoint checks is not what servers sign: requests are signed over a JSON object
  (\<open>signing.rs\<close>, and the session service checks that), while the endpoint joins method, path,
  servers and body with line feeds. If the keys of the origin only ever signed texts of the first
  kind, a transaction that is not in the cache is refused as unauthorized.
\<close>

theorem honest_transaction_refused:
  assumes "send_parse_x_matrix_auth w authorization = Inr auth"
    and "Option.bind (get payload ''origin'') as_str = Some (sx_origin auth)"
    and "get_cached_result w (st_cache_read ck) (transaction_key (sx_origin auth) txn_id) db = Inr None"
    and "\<And>public_key rows' m s. session_get_server_public_key (sd_session w) (st_session ck) (sx_origin auth)
        (sx_key_id auth) (fd_keys db) = (Inr public_key, rows') \<Longrightarrow>
      verify_ed25519_signature (sw_crypto (sd_session w)) s m public_key = Inr () \<Longrightarrow>
      \<exists>method uri destination content.
        build_canonical_json (sd_session w) method uri (sx_origin auth) destination content = Inr m"
    and "sw_to_uppercase (sd_session w) ''PUT'' = ''PUT''"
  shows "\<exists>rows. put_transaction w ck txn_id authorization payload db = (Inl (Status 401), db\<lparr>fd_keys := rows\<rparr>)"
proof -
  have "\<exists>rows e. verify_server_signature w (st_session ck) auth ''PUT'' (''/_matrix/federation/v1/send/'' @ txn_id)
      payload (fd_keys db) = (Inl e, rows)"
  proof (cases "session_get_server_public_key (sd_session w) (st_session ck) (sx_origin auth) (sx_key_id auth) (fd_keys db)")
    case (Pair r rows)
    show ?thesis
    proof (cases r)
      case (Inr public_key)
      have "bindR (construct_canonical_request w ''PUT'' (''/_matrix/federation/v1/send/'' @ txn_id) (sx_origin auth)
          (sx_destination auth) payload) (\<lambda>m. verify_ed25519_signature (sw_crypto (sd_session w)) (sx_signature auth) m public_key)
          \<noteq> Inr ()"
      proof
        assume "bindR (construct_canonical_request w ''PUT'' (''/_matrix/federation/v1/send/'' @ txn_id) (sx_origin auth)
          (sx_destination auth) payload) (\<lambda>m. verify_ed25519_signature (sw_crypto (sd_session w)) (sx_signature auth) m public_key) = Inr ()"
        then obtain m where m: "construct_canonical_request w ''PUT'' (''/_matrix/federation/v1/send/'' @ txn_id)
            (sx_origin auth) (sx_destination auth) payload = Inr m"
          "verify_ed25519_signature (sw_crypto (sd_session w)) (sx_signature auth) m public_key = Inr ()"
          unfolding bindR_Inr_iff by blast
        obtain verb uri destination content where
          b: "build_canonical_json (sd_session w) verb uri (sx_origin auth) destination content = Inr m"
          using assms(4) [of public_key rows] Pair Inr m(2) by blast
        show False using canonical_request_first [OF m(1)] signed_text_first [OF b] assms(5) by simp
      qed
      then show ?thesis
        unfolding verify_as_session using Pair Inr
        by (cases "bindR (construct_canonical_request w ''PUT'' (''/_matrix/federation/v1/send/'' @ txn_id) (sx_origin auth)
          (sx_destination auth) payload) (\<lambda>m. verify_ed25519_signature (sw_crypto (sd_session w)) (sx_signature auth) m public_key)") auto
    qed (simp add: Pair verify_as_session)
  qed
  then show ?thesis using assms(1-3) by (auto simp: put_transaction_def ensure_def)
qed

section \<open>Accepted transactions\<close>

text \<open>The validation of a PDU, in a database with the given events, ends with an event to store.\<close>

definition admitted :: "send_world \<Rightarrow> string \<Rightarrow> event list \<Rightarrow> json \<Rightarrow> event \<Rightarrow> bool" where
  "admitted w origin events pdu e \<longleftrightarrow>
     (\<exists>ck db keys. fd_events db = events \<and>
        (validate_pdu (sd_pdu w db) ck pdu origin (fd_keys db) = (Inr (Valid e), keys) \<or>
         (\<exists>reason. validate_pdu (sd_pdu w db) ck pdu origin (fd_keys db) = (Inr (SoftFailed e reason), keys))))"

text \<open>Each of the events was admitted in the database that the ones before it had been added to.\<close>

fun admitted_in_turn :: "send_world \<Rightarrow> string \<Rightarrow> json list \<Rightarrow> event list \<Rightarrow> event list \<Rightarrow> bool" where
  "admitted_in_turn w origin pdus events [] \<longleftrightarrow> True"
| "admitted_in_turn w origin pdus events (e # es) \<longleftrightarrow>
     list_ex (\<lambda>pdu. admitted w origin events pdu e) pdus \<and> admitted_in_turn w origin pdus (events @ [e]) es"

lemma admitted_in_turn_more:
  "admitted_in_turn w origin pdus events es \<Longrightarrow> set pdus \<subseteq> set pdus' \<Longrightarrow> admitted_in_turn w origin pdus' events es"
  by (induction es arbitrary: events) (auto simp: list_ex_iff)

lemma store_pdu_state:
  assumes "store_pdu w e results db = (results', db')"
  shows "(fd_events db' = fd_events db \<or> fd_events db' = fd_events db @ [e]) \<and>
     fd_transactions db' = fd_transactions db \<and> fd_edu db' = fd_edu db"
  using assms by (auto simp: store_pdu_def event_create_def split: option.splits if_splits)

lemma process_pdu_state:
  assumes "process_pdu w ck origin pdu results db = (results', db')"
  shows "(fd_events db' = fd_events db \<or> (\<exists>e. admitted w origin (fd_events db) pdu e \<and> fd_events db' = fd_events db @ [e])) \<and>
     fd_transactions db' = fd_transactions db \<and> fd_edu db' = fd_edu db"
proof -
  obtain r keys where v: "validate_pdu (sd_pdu w db) ck pdu origin (fd_keys db) = (r, keys)" by fastforce
  show ?thesis
  proof (cases r)
    case (Inl e)
    then show ?thesis using assms v by (auto simp: process_pdu_def Let_def)
  next
    case (Inr result)
    then show ?thesis
    proof (cases result)
      case (Valid e)
      then have "admitted w origin (fd_events db) pdu e" using v Inr by (auto simp: admitted_def)
      then show ?thesis
        using assms v Inr Valid store_pdu_state [of w e results "db\<lparr>fd_keys := keys\<rparr>" results' db']
        by (auto simp: process_pdu_def Let_def)
    next
      case (Rejected i reason)
      then show ?thesis using assms v Inr by (auto simp: process_pdu_def Let_def)
    next
      case (SoftFailed e reason)
      then have "admitted w origin (fd_events db) pdu e" using v Inr by (auto simp: admitted_def)
      then show ?thesis
        using assms v Inr SoftFailed store_pdu_state [of w e results "db\<lparr>fd_keys := keys\<rparr>" results' db']
        by (auto simp: process_pdu_def Let_def)
    qed
  qed
qed

lemma process_pdus_state:
  "process_pdus w ck i origin pdus results db = (results', db') \<Longrightarrow>
     (\<exists>es. fd_events db' = fd_events db @ es \<and> admitted_in_turn w origin pdus (fd_events db) es) \<and>
     fd_transactions db' = fd_transactions db \<and> fd_edu db' = fd_edu db"
proof (induction w ck i origin pdus results db rule: process_pdus.induct)
  case (2 w ck i origin pdu pdus results db)
  obtain results1 db1 where p: "process_pdu w (ck i) origin pdu results db = (results1, db1)" by fastforce
  with 2 have IH: "(\<exists>es. fd_events db' = fd_events db1 @ es \<and> admitted_in_turn w origin pdus (fd_events db1) es) \<and>
      fd_transactions db' = fd_transactions db1 \<and> fd_edu db' = fd_edu db1" by simp
  then obtain es where es: "fd_events db' = fd_events db1 @ es" "admitted_in_turn w origin pdus (fd_events db1) es"
    by blast
  note later = admitted_in_turn_more [OF es(2), of "pdu # pdus"]
  from process_pdu_state [OF p] consider "fd_events db1 = fd_events db"
    | e where "admitted w origin (fd_events db) pdu e" "fd_events db1 = fd_events db @ [e]"
    by blast
  then have "\<exists>es. fd_events db' = fd_events db @ es \<and> admitted_in_turn w origin (pdu # pdus) (fd_events db) es"
  proof cases
    case 1
    then show ?thesis using es(1) later by auto
  next
    case (2 e)
    then show ?thesis using es(1) later by (intro exI [of _ "e # es"]) auto
  qed
  then show ?case using IH process_pdu_state [OF p] by simp
qed simp

lemma find_after: "find P xs = None \<Longrightarrow> find P (xs @ ys) = find P ys"
  by (induction xs) (auto split: if_splits)

lemma edus_state:
  "forS (transaction_edu w order origin) es db = (r, db') \<Longrightarrow> origin_writes w origin db db'"
proof -
  assume f: "forS (transaction_edu w order origin) es db = (r, db')"
  have "origin_only.keeps w origin (transaction_edu w order origin e)" for e
    unfolding transaction_edu_def
    using typing_keeps receipt_keeps presence_keeps device_list_keeps signing_key_keeps direct_to_device_keeps
    by (auto simp: origin_only.keeps_liftS split: option.split)
  then have "origin_only.keeps w origin (forS (transaction_edu w order origin) es)"
    by (intro origin_only.keeps_forS)
  then show ?thesis using f by (rule origin_only.keeps_state)
qed

lemma uncached_put:
  assumes "send_parse_x_matrix_auth w authorization = Inr auth"
    and "Option.bind (get payload ''origin'') as_str = Some (sx_origin auth)"
    and "\<nexists>r. get_cached_result w (st_cache_read ck) (transaction_key (sx_origin auth) txn_id) db = Inr (Some r)"
  shows "put_transaction w ck txn_id authorization payload db =
    (case verify_server_signature w (st_session ck) auth ''PUT'' (''/_matrix/federation/v1/send/'' @ txn_id) payload (fd_keys db) of
       (Inl _, rows) \<Rightarrow> (Inl (Status 401), db\<lparr>fd_keys := rows\<rparr>)
     | (Inr _, rows) \<Rightarrow>
         (let db1 = db\<lparr>fd_keys := rows\<rparr>;
              pdu_list = array_or_empty (get payload ''pdus'');
              edu_list = array_or_empty (get payload ''edus'') in
          case bindR (map_err (\<lambda>_. Status 500) (create_server_session (st_server_session ck)
                        (sx_origin auth) (sx_key_id auth) (sx_signature auth))) (\<lambda>_.
               bindR (ok_or (Option.bind (get payload ''origin_server_ts'') as_i64) (Status 400)) (\<lambda>_.
               bindR (ensure (\<not> length pdu_list > 50) (Status 400)) (\<lambda>_.
               bindR (ensure (\<not> length edu_list > 100) (Status 400)) (\<lambda>_.
               ensure (sd_validator_ok w) (Status 500))))) of
            Inl e \<Rightarrow> (Inl e, db1)
          | Inr _ \<Rightarrow> run_transaction w ck (sx_origin auth) (transaction_key (sx_origin auth) txn_id) pdu_list edu_list db1))"
proof -
  have h: "bindR (send_parse_x_matrix_auth w authorization) (\<lambda>auth.
      bindR (ok_or (Option.bind (get payload ''origin'') as_str) (Status 400)) (\<lambda>payload_origin.
      bindR (ensure (payload_origin = sx_origin auth) (Status 401)) (\<lambda>_. Inr auth))) = Inr auth"
    using assms(1,2) by (simp add: ensure_def)
  show ?thesis
  proof (cases "get_cached_result w (st_cache_read ck) (transaction_key (sx_origin auth) txn_id) db")
    case (Inl e)
    show ?thesis unfolding put_transaction_def h Let_def sum.case Inl by (rule refl)
  next
    case (Inr found)
    then have "found = None" using assms(3) by (cases found) auto
    then show ?thesis unfolding put_transaction_def h Let_def sum.case Inr by (simp only: option.case)
  qed
qed

lemma put_cases:
  assumes "put_transaction w ck txn_id authorization payload db = (Inr resp, db')"
  obtains (cached) auth where "send_parse_x_matrix_auth w authorization = Inr auth"
      "Option.bind (get payload ''origin'') as_str = Some (sx_origin auth)"
      "get_cached_result w (st_cache_read ck) (transaction_key (sx_origin auth) txn_id) db = Inr (Some resp)" "db' = db"
  | (fresh) auth rows where "send_parse_x_matrix_auth w authorization = Inr auth"
      "Option.bind (get payload ''origin'') as_str = Some (sx_origin auth)"
      "\<And>r. get_cached_result w (st_cache_read ck) (transaction_key (sx_origin auth) txn_id) db \<noteq> Inr (Some r)"
      "verify_server_signature w (st_session ck) auth ''PUT'' (''/_matrix/federation/v1/send/'' @ txn_id) payload (fd_keys db) = (Inr (), rows)"
      "length (array_or_empty (get payload ''pdus'')) \<le> 50" "length (array_or_empty (get payload ''edus'')) \<le> 100"
      "run_transaction w ck (sx_origin auth) (transaction_key (sx_origin auth) txn_id)
         (array_or_empty (get payload ''pdus'')) (array_or_empty (get payload ''edus'')) (db\<lparr>fd_keys := rows\<rparr>) = (Inr resp, db')"
proof -
  obtain auth where auth: "send_parse_x_matrix_auth w authorization = Inr auth"
    "Option.bind (get payload ''origin'') as_str = Some (sx_origin auth)"
  proof (cases "bindR (send_parse_x_matrix_auth w authorization) (\<lambda>auth.
           bindR (ok_or (Option.bind (get payload ''origin'') as_str) (Status 400)) (\<lambda>payload_origin.
           bindR (ensure (payload_origin = sx_origin auth) (Status 401)) (\<lambda>_. Inr auth)))")
    case (Inl e)
    then show ?thesis using assms by (simp add: put_transaction_def)
  next
    case (Inr auth)
    then show ?thesis using that by (auto simp: result_simps)
  qed
  define key where "key = transaction_key (sx_origin auth) txn_id"
  show ?thesis
  proof (cases "\<exists>r. get_cached_result w (st_cache_read ck) key db = Inr (Some r)")
    case True
    then obtain r where r: "get_cached_result w (st_cache_read ck) key db = Inr (Some r)" by blast
    then have "put_transaction w ck txn_id authorization payload db = (Inr r, db)"
      using auth by (simp add: put_transaction_def ensure_def key_def)
    then show ?thesis using assms auth r cached by (simp add: key_def)
  next
    case False
    note put = uncached_put [OF auth False [unfolded key_def]]
    obtain v rows where v: "verify_server_signature w (st_session ck) auth ''PUT''
        (''/_matrix/federation/v1/send/'' @ txn_id) payload (fd_keys db) = (v, rows)" by fastforce
    then have ok: "v = Inr ()" using assms put by (cases v) simp_all
    define checks where "checks = bindR (map_err (\<lambda>_. Status 500) (create_server_session (st_server_session ck)
          (sx_origin auth) (sx_key_id auth) (sx_signature auth))) (\<lambda>_.
        bindR (ok_or (Option.bind (get payload ''origin_server_ts'') as_i64) (Status 400)) (\<lambda>_.
        bindR (ensure (\<not> length (array_or_empty (get payload ''pdus'')) > 50) (Status 400)) (\<lambda>_.
        bindR (ensure (\<not> length (array_or_empty (get payload ''edus'')) > 100) (Status 400)) (\<lambda>_.
        ensure (sd_validator_ok w) (Status 500)))))"
    have run: "(case checks of Inl e \<Rightarrow> (Inl e, db\<lparr>fd_keys := rows\<rparr>)
        | Inr _ \<Rightarrow> run_transaction w ck (sx_origin auth) key (array_or_empty (get payload ''pdus''))
            (array_or_empty (get payload ''edus'')) (db\<lparr>fd_keys := rows\<rparr>)) = (Inr resp, db')"
      using put assms unfolding v ok checks_def [symmetric] key_def by (simp add: Let_def checks_def)
    then have c: "checks = Inr ()" by (cases checks) simp_all
    then have "length (array_or_empty (get payload ''pdus'')) \<le> 50" "length (array_or_empty (get payload ''edus'')) \<le> 100"
      unfolding checks_def by (auto simp: result_simps)
    then show ?thesis using fresh auth False v ok run c unfolding key_def by simp
  qed
qed

text \<open>
  C14. What an accepted transaction does: when it is not answered from the cache, its signature verified,
  it has at most 50 PDUs and 100 ephemeral units, every event it stores comes from one of its PDUs
  and passed validation for its origin in the database as it then was, and every row its ephemeral
  data writes is about a user of the origin (direct messages: in the name of the origin, for users who
  exist). The presence row and the device entries that are replaced or deleted may be of other users.
\<close>

theorem accepted_transaction_sound:
  assumes "put_transaction w ck txn_id authorization payload db = (Inr resp, db')"
    and "send_parse_x_matrix_auth w authorization = Inr auth"
    and "get_cached_result w (st_cache_read ck) (transaction_key (sx_origin auth) txn_id) db = Inr None"
  shows "(\<exists>rows. verify_server_signature w (st_session ck) auth ''PUT'' (''/_matrix/federation/v1/send/'' @ txn_id)
        payload (fd_keys db) = (Inr (), rows)) \<and>
     length (array_or_empty (get payload ''pdus'')) \<le> 50 \<and> length (array_or_empty (get payload ''edus'')) \<le> 100 \<and>
     (\<exists>es. fd_events db' = fd_events db @ es \<and>
        admitted_in_turn w (sx_origin auth) (array_or_empty (get payload ''pdus'')) (fd_events db) es) \<and>
     origin_writes (sd_edu w) (sx_origin auth) (fd_edu db) (fd_edu db')"
  using assms(1)
proof (cases rule: put_cases)
  case (cached auth')
  then show ?thesis using assms(2,3) by simp
next
  case (fresh auth' rows)
  then have [simp]: "auth' = auth" using assms(2) by simp
  let ?pdus = "array_or_empty (get payload ''pdus'')" and ?edus = "array_or_empty (get payload ''edus'')"
  obtain results db1 where p: "process_pdus w (st_pdu ck) 0 (sx_origin auth) ?pdus [] (db\<lparr>fd_keys := rows\<rparr>) = (results, db1)"
    by fastforce
  obtain r edb where e: "forS (transaction_edu (sd_edu w) (sd_device_order w) (sx_origin auth)) ?edus (fd_edu db1) = (r, edb)"
    by fastforce
  have "fd_events db' = fd_events db1 \<and> fd_edu db' = edb"
    using fresh(7) p e by (auto simp: run_transaction_def Let_def cache_result_def split: sum.splits option.splits if_splits)
  then show ?thesis using process_pdus_state [OF p] edus_state [OF e] fresh(4-6) by auto
qed

lemma run_keeps_cache:
  assumes "sd_table_defined w"
  shows "fd_transactions (snd (run_transaction w ck origin key pdus units db)) = fd_transactions db"
proof -
  obtain results db1 where p: "process_pdus w (st_pdu ck) 0 origin pdus [] db = (results, db1)" by fastforce
  have "\<not> transaction_row_accepted w"
    using assms by (simp add: transaction_row_accepted_def transaction_required_def cache_result_sets_def)
  then show ?thesis
    using p process_pdus_state [OF p]
    by (auto simp: run_transaction_def Let_def cache_result_def split: sum.splits prod.splits option.splits)
qed

lemma put_keeps_cache:
  assumes "sd_table_defined w"
  shows "fd_transactions (snd (put_transaction w ck txn_id authorization payload db)) = fd_transactions db"
  using run_keeps_cache [OF assms]
  by (auto simp: put_transaction_def Let_def split: sum.split option.split prod.split)

text \<open>The requests that come in, one after the other, each with its own clocks.\<close>

inductive requests :: "send_world \<Rightarrow> fed_db \<Rightarrow> fed_db \<Rightarrow> bool" for w where
  no_request: "requests w db db"
| next_request: "requests w db db1 \<Longrightarrow> put_transaction w ck txn_id authorization payload db1 = (r, db2) \<Longrightarrow>
    requests w db db2"

lemma requests_keep_cache:
  assumes "requests w db db'" and "sd_table_defined w"
  shows "fd_transactions db' = fd_transactions db"
  using assms(1)
proof induction
  case (next_request db db1 ck txn_id authorization payload r db2)
  then show ?case using put_keeps_cache [OF assms(2), of ck txn_id authorization payload db1] by simp
qed simp

text \<open>
  C15. A repeated transaction is processed again: under the definition of the table no answer is ever
  cached. After any requests to a server that starts with an empty cache, an answer to a transaction
  was not taken from the cache, whatever its identifier: its signature was verified and its PDUs and
  ephemeral data were processed, once more if they had been before.
\<close>

theorem transaction_repeated:
  assumes "sd_table_defined w" and "fd_transactions db = []" and "requests w db db1"
    and "put_transaction w ck txn_id authorization payload db1 = (Inr resp, db2)"
  shows "\<exists>auth rows. send_parse_x_matrix_auth w authorization = Inr auth \<and>
     verify_server_signature w (st_session ck) auth ''PUT'' (''/_matrix/federation/v1/send/'' @ txn_id)
       payload (fd_keys db1) = (Inr (), rows) \<and>
     run_transaction w ck (sx_origin auth) (transaction_key (sx_origin auth) txn_id)
       (array_or_empty (get payload ''pdus'')) (array_or_empty (get payload ''edus'')) (db1\<lparr>fd_keys := rows\<rparr>) =
       (Inr resp, db2) \<and>
     fd_transactions db2 = []"
proof -
  have empty: "fd_transactions db1 = []" using requests_keep_cache [OF assms(3,1)] assms(2) by simp
  moreover have "fd_transactions db2 = fd_transactions db1"
    using put_keeps_cache [OF assms(1), of ck txn_id authorization payload db1] assms(4) by simp
  moreover from assms(4) show ?thesis
  proof (cases rule: put_cases)
    case (cached auth)
    then show ?thesis using empty by (simp add: get_cached_result_def split: option.splits)
  next
    case (fresh auth rows)
    then show ?thesis using calculation by auto
  qed
qed

text \<open>
  What the cache is for, in a database without the definition of the table: when a transaction was
  processed and its answer cached, a request of the same origin with the same transaction identifier
  within the next day gets the same answer and changes nothing. The second request's signature is
  not looked at.
\<close>

theorem transaction_once:
  assumes "\<not> sd_table_defined w"
    and "put_transaction w ck txn_id authorization payload db = (Inr resp, db')"
    and "send_parse_x_matrix_auth w authorization = Inr auth"
    and "get_cached_result w (st_cache_read ck) (transaction_key (sx_origin auth) txn_id) db = Inr None"
    and "st_cache_read ck \<le> st_cache_read ck2"
    and "st_cache_read ck2 < st_cached ck + 24 * 60 * 60 * 1000"
    and "send_parse_x_matrix_auth w authorization2 = Inr auth2" and "sx_origin auth2 = sx_origin auth"
    and "Option.bind (get payload2 ''origin'') as_str = Some (sx_origin auth)"
  shows "put_transaction w ck2 txn_id authorization2 payload2 db' = (Inr resp, db')"
  using assms(2)
proof (cases rule: put_cases)
  case (cached auth')
  then show ?thesis using assms(3,4) by simp
next
  case (fresh auth' rows)
  then have [simp]: "auth' = auth" using assms(3) by simp
  let ?key = "transaction_key (sx_origin auth) txn_id"
  let ?pdus = "array_or_empty (get payload ''pdus'')" and ?edus = "array_or_empty (get payload ''edus'')"
  obtain results db1 where p: "process_pdus w (st_pdu ck) 0 (sx_origin auth) ?pdus [] (db\<lparr>fd_keys := rows\<rparr>) = (results, db1)"
    by fastforce
  have f: "sd_cache_failure w = None" using assms(4) by (simp add: get_cached_result_def split: option.splits)
  have t: "fd_transactions db' = fd_transactions db @ [\<lparr>tx_key = ?key, tx_result = resp, tx_created_at = st_cached ck,
      tx_expires_at = st_cached ck + 24 * 60 * 60 * 1000\<rparr>]"
    using fresh(7) p process_pdus_state [OF p] f assms(1)
    by (auto simp: run_transaction_def Let_def cache_result_def transaction_row_accepted_def split: sum.splits prod.splits)
  have "find (\<lambda>t. tx_key t = ?key \<and> tx_expires_at t > st_cache_read ck) (fd_transactions db) = None"
    using assms(4) f by (simp add: get_cached_result_def)
  then have "find (\<lambda>t. tx_key t = ?key \<and> tx_expires_at t > st_cache_read ck2) (fd_transactions db) = None"
    using assms(5) by (force simp: find_None_iff)
  then have "get_cached_result w (st_cache_read ck2) ?key db' = Inr (Some resp)"
    using f t assms(6) by (simp add: get_cached_result_def find_after)
  then show ?thesis using assms(7-9) by (simp add: put_transaction_def ensure_def)
qed

text \<open>
  The other side of it: while an answer is cached, a request with a well-formed header that names the
  origin is given the cached answer, whatever its signature.
\<close>

theorem cached_answer_unverified:
  assumes "get_cached_result w (st_cache_read ck) (transaction_key (sx_origin auth) txn_id) db = Inr (Some resp)"
    and "send_parse_x_matrix_auth w authorization = Inr auth"
    and "Option.bind (get payload ''origin'') as_str = Some (sx_origin auth)"
  shows "put_transaction w ck txn_id authorization payload db = (Inr resp, db)"
  using assms by (simp add: put_transaction_def ensure_def)

text \<open>
  An ephemeral unit that fails makes the whole transaction fail with status 500 after its PDUs were
  stored; nothing is cached, so the sender's retry runs through all of it again.
\<close>

theorem failed_edu_aborts:
  assumes "process_pdus w (st_pdu ck) 0 origin pdu_list [] db = (results, db1)"
    and "forS (transaction_edu (sd_edu w) (sd_device_order w) origin) edu_list (fd_edu db1) = (Inl e, edb)"
  shows "run_transaction w ck origin key pdu_list edu_list db = (Inl (Status 500), db1\<lparr>fd_edu := edb\<rparr>) \<and>
     fd_transactions (db1\<lparr>fd_edu := edb\<rparr>) = fd_transactions db"
  using assms process_pdus_state [OF assms(1)] by (simp add: run_transaction_def)

section \<open>Headers\<close>

lemma split_on_parts:
  "c \<notin> set x \<Longrightarrow> split_on c (x @ c # y) = x # split_on c y"
  "c \<notin> set x \<Longrightarrow> split_on c x = [x]"
  by (induction x) auto

lemma trim_id:
  assumes "s \<noteq> []" and "\<not> is_ascii_space (hd s)" and "\<not> is_ascii_space (last s)"
  shows "trim s = s"
proof -
  have "dropWhile is_ascii_space s = s" using assms(1,2) by (cases s) auto
  moreover have "dropWhile is_ascii_space (rev s) = rev s"
    using assms(1,3) by (cases "rev s") (auto simp flip: hd_rev)
  ultimately show ?thesis by (simp add: trim_def)
qed

text \<open>A parameter in quotes, and parameter names the parser leaves as they are.\<close>

definition quoted_param :: "string \<Rightarrow> string \<Rightarrow> string" where
  "quoted_param name v = name @ CHR ''='' # CHR 0x22 # v @ [CHR 0x22]"

definition plain_name :: "string \<Rightarrow> bool" where
  "plain_name name \<longleftrightarrow> name \<noteq> [] \<and> CHR ''='' \<notin> set name \<and> map to_ascii_lower name = name \<and>
     \<not> is_ascii_space (hd name) \<and> \<not> is_ascii_space (last name)"

lemma split_once_first: "c \<notin> set x \<Longrightarrow> split_once c (x @ c # y) = Some (x, y)"
  by (induction x) auto

lemma parse_quoted_param:
  assumes "plain_name name"
  shows "parse_parameter w (quoted_param name v) acc =
     bindR (if name = ''origin'' \<or> name = ''destination''
            then ok_or (sd_url_decode w (parse_quoted_string v)) (Status 400) else Inr (parse_quoted_string v))
       (\<lambda>decoded. Inr (acc(name \<mapsto> decoded)))"
proof -
  have quote: "\<not> is_ascii_space CHR 0x22" by (simp add: is_ascii_space_def byte_def)
  have "trim (quoted_param name v) = quoted_param name v"
    using assms quote by (intro trim_id) (auto simp: quoted_param_def plain_name_def)
  moreover have "trim (CHR 0x22 # v @ [CHR 0x22]) = CHR 0x22 # v @ [CHR 0x22]"
    using quote by (intro trim_id) auto
  moreover have "trim name = name" using assms by (intro trim_id) (auto simp: plain_name_def)
  moreover have "param_value_of (CHR 0x22 # v @ [CHR 0x22]) = Inr (parse_quoted_string v)"
    using ends_with_snoc [of "CHR 0x22 # v" "CHR 0x22" "CHR 0x22"]
    by (simp add: param_value_of_def starts_with_def butlast_append)
  moreover have "split_once CHR ''='' (quoted_param name v) = Some (name, CHR 0x22 # v @ [CHR 0x22])"
    using assms unfolding quoted_param_def plain_name_def by (intro split_once_first) simp
  ultimately show ?thesis
    using assms by (simp add: parse_parameter_def Let_def plain_name_def ensure_def quoted_param_def)
qed

lemma own_names:
  "plain_name ''origin''" "plain_name ''destination''" "plain_name ''key''" "plain_name ''signature''"
  by (simp_all add: plain_name_def to_ascii_lower_def is_ascii_upper_def is_ascii_space_def byte_def)

lemma format_header_params:
  "format_header origin destination key signature =
     ''X-Matrix '' @ quoted_param ''origin'' origin @ CHR '','' # quoted_param ''destination'' destination @
       CHR '','' # quoted_param ''key'' key @ CHR '','' # quoted_param ''signature'' signature"
  by (simp add: format_header_def quoted_param_def)

lemma scheme_lower: "map to_ascii_lower ''X-Matrix '' = ''x-matrix ''"
  by code_simp

lemma scheme_recognised:
  "prefix ''x-matrix '' (map to_ascii_lower (''X-Matrix '' @ s))" "drop 9 (''X-Matrix '' @ s) = s"
  by (simp_all only: map_append scheme_lower prefix_def) auto

lemma parse_auth_params_error:
  assumes "parse_x_matrix_parameters w (trim s) = Inl e" and "trim s \<noteq> []"
  shows "send_parse_x_matrix_auth w (Some (Some (''X-Matrix '' @ s))) = Inl e"
proof -
  have "send_parse_x_matrix_auth w (Some (Some h)) = Inl e"
    if "prefix ''x-matrix '' (map to_ascii_lower h)" and "drop 9 h = s" for h
    using assms that by (simp add: send_parse_x_matrix_auth_def ensure_def Let_def)
  then show ?thesis using scheme_recognised by blast
qed

lemma parse_auth_no_sig:
  assumes "parse_x_matrix_parameters w (trim s) = Inr ps" and "trim s \<noteq> []" and "ps ''sig'' = None"
  shows "send_parse_x_matrix_auth w (Some (Some (''X-Matrix '' @ s))) = Inl (Status 400)"
proof -
  have "send_parse_x_matrix_auth w (Some (Some h)) = Inl (Status 400)"
    if "prefix ''x-matrix '' (map to_ascii_lower h)" and "drop 9 h = s" for h
    using assms that
    by (cases "ps ''origin''"; cases "ps ''key''") (simp_all add: send_parse_x_matrix_auth_def ensure_def Let_def)
  then show ?thesis using scheme_recognised by blast
qed

text \<open>
  The endpoint does not understand the headers this server sends: \<open>signing.rs\<close> names the parameter
  \<open>signature\<close>, the endpoint asks for \<open>sig\<close>, and the request is answered with status 400.
\<close>

theorem own_header_refused:
  assumes "CHR '','' \<notin> set origin" and "CHR '','' \<notin> set destination" and "CHR '','' \<notin> set key"
    and "CHR '','' \<notin> set signature"
  shows "put_transaction w ck txn_id (Some (Some (format_header origin destination key signature))) payload db =
     (Inl (Status 400), db)"
proof -
  let ?ps = "quoted_param ''origin'' origin @ CHR '','' # quoted_param ''destination'' destination @
       CHR '','' # quoted_param ''key'' key @ CHR '','' # quoted_param ''signature'' signature"
  have "trim ?ps = ?ps" by (rule trim_id) (simp_all add: quoted_param_def is_ascii_space_def byte_def)
  have "CHR '','' \<notin> set (quoted_param ''origin'' origin)" "CHR '','' \<notin> set (quoted_param ''destination'' destination)"
    "CHR '','' \<notin> set (quoted_param ''key'' key)" "CHR '','' \<notin> set (quoted_param ''signature'' signature)"
    using assms by (simp_all add: quoted_param_def)
  then have split: "split_on CHR '','' ?ps = [quoted_param ''origin'' origin, quoted_param ''destination'' destination,
      quoted_param ''key'' key, quoted_param ''signature'' signature]"
    by (simp add: split_on_parts del: split_on.simps)
  consider "parse_x_matrix_parameters w ?ps = Inl (Status 400)"
    | ps where "parse_x_matrix_parameters w ?ps = Inr ps" "ps ''sig'' = None"
    unfolding parse_x_matrix_parameters_def split
    by (cases "sd_url_decode w (parse_quoted_string origin)"; cases "sd_url_decode w (parse_quoted_string destination)")
      (simp_all add: parse_quoted_param own_names)
  then have "send_parse_x_matrix_auth w (Some (Some (format_header origin destination key signature))) = Inl (Status 400)"
    unfolding format_header_params using parse_auth_params_error [of w ?ps] parse_auth_no_sig [of w ?ps] \<open>trim ?ps = ?ps\<close>
    by cases (simp_all add: quoted_param_def)
  then show ?thesis by (simp add: put_transaction_def)
qed

text \<open>
  A parameter whose value is a single quotation mark makes the handler slice the value outside its
  bounds: the request panics, before anything is authenticated.
\<close>

theorem lone_quote_panics:
  "put_transaction w ck txn_id (Some (Some (''X-Matrix key='' @ [CHR 0x22]))) payload db = (Inl Panicked, db)"
proof -
  have "trim (''key='' @ [CHR 0x22]) = ''key='' @ [CHR 0x22]" "trim [CHR 0x22] = [CHR 0x22]" "trim ''key'' = ''key''"
    by (rule trim_id; simp add: is_ascii_space_def byte_def)+
  then have "parse_x_matrix_parameters w (''key='' @ [CHR 0x22]) = Inl Panicked"
    by (simp add: parse_x_matrix_parameters_def parse_parameter_def Let_def ensure_def param_value_of_def
        starts_with_def ends_with_def to_ascii_lower_def is_ascii_upper_def byte_def)
  then show ?thesis
    using parse_auth_params_error [of w "''key='' @ [CHR 0x22]" Panicked] \<open>trim (''key='' @ [CHR 0x22]) = ''key='' @ [CHR 0x22]\<close>
    by (simp add: put_transaction_def)
qed

section \<open>Witnesses\<close>

text \<open>A server whose keys sign the texts that \<open>good\<close> holds of.\<close>

definition send_crypto :: "(string \<Rightarrow> bool) \<Rightarrow> crypto" where
  "send_crypto good = demo_crypto
     \<lparr>json_to_string := (\<lambda>u. Inr (compact (\<lambda>s. s) (\<lambda>n. ''0'') u)),
      b64_decode := (\<lambda>s. Some (replicate (if s = ''pk'' then 32 else 64) CHR ''b'')),
      public_key_query := (\<lambda>rows s k. Inr (Some ''pk'')), ed_verify := (\<lambda>pk m s. good m)\<rparr>"

text \<open>The first argument says whether the database has the definition of the table of transactions.\<close>

definition send_demo_table :: "bool \<Rightarrow> (string \<Rightarrow> bool) \<Rightarrow> send_world" where
  "send_demo_table table_defined good =
     \<lparr>sd_session = session_demo\<lparr>sw_pdu := pdu_demo\<lparr>pw_crypto := send_crypto good\<rparr>\<rparr>,
      sd_pdu = (\<lambda>db. pdu_demo), sd_edu = edu_demo, sd_device_order = [], sd_url_decode = Some,
      sd_is_whitespace = (\<lambda>c. c = '' ''), sd_is_control = (\<lambda>c. False), sd_is_alphanumeric = (\<lambda>c. True),
      sd_event_failure = (\<lambda>e. None), sd_cache_failure = None,
      sd_table_defined = table_defined, sd_validator_ok = True\<rparr>"

abbreviation send_demo :: "(string \<Rightarrow> bool) \<Rightarrow> send_world" where
  "send_demo \<equiv> send_demo_table True"

definition send_demo_clocks :: "int \<Rightarrow> send_clocks" where
  "send_demo_clocks now = \<lparr>st_cache_read = now, st_session = session_demo_clocks, st_server_session = now,
     st_pdu = (\<lambda>i. pdu_clocks), st_cached = now\<rparr>"

definition fed_db_demo :: fed_db where
  "fed_db_demo = \<lparr>fd_transactions = [], fd_events = [], fd_keys = [], fd_edu = edu_db_demo\<rparr>"

definition send_demo_auth :: send_auth where
  "send_demo_auth = \<lparr>sx_origin = ''b.org'', sx_key_id = ''ed25519:k'', sx_signature = ''0123456789abcdef0123456789abcdef'', sx_destination = None\<rparr>"

abbreviation send_demo_header :: "string option option" where
  "send_demo_header \<equiv> Some (Some ''X-Matrix origin=b.org,key=ed25519:k,sig=0123456789abcdef0123456789abcdef'')"

definition send_demo_payload :: "json list \<Rightarrow> json" where
  "send_demo_payload es = JObject [(''origin'', JString ''b.org''), (''origin_server_ts'', int_json 1),
     (''pdus'', JArray [JObject []]), (''edus'', JArray es)]"

lemma send_demo_params:
  "parse_x_matrix_parameters (send_demo_table d good) ''origin=b.org,key=ed25519:k,sig=0123456789abcdef0123456789abcdef'' =
     Inr [''origin'' \<mapsto> ''b.org'', ''key'' \<mapsto> ''ed25519:k'', ''sig'' \<mapsto> ''0123456789abcdef0123456789abcdef'']"
  by (simp add: parse_x_matrix_parameters_def parse_parameter_def Let_def ensure_def param_value_of_def
      starts_with_def trim_def is_ascii_space_def byte_def to_ascii_lower_def is_ascii_upper_def send_demo_table_def)

lemma send_demo_parsed: "send_parse_x_matrix_auth (send_demo_table d good) send_demo_header = Inr send_demo_auth"
proof -
  let ?p = "''origin=b.org,key=ed25519:k,sig=0123456789abcdef0123456789abcdef''"
  have valid: "send_valid_server_name (send_demo_table d good) ''b.org''"
    "is_valid_signing_key_format (send_demo_table d good) ''ed25519:k''" "is_valid_base64_signature (send_demo_table d good) ''0123456789abcdef0123456789abcdef''"
    by (simp_all add: send_valid_server_name_def is_valid_signing_key_format_def is_valid_base64_signature_def
        send_demo_table_def send_crypto_def contains_iff list_all_iff list_ex_iff continues_char_def byte_def)
  have "trim ?p = ?p" by (rule trim_id) (simp_all add: is_ascii_space_def byte_def)
  moreover have "send_parse_x_matrix_auth (send_demo_table d good) (Some (Some h)) = Inr send_demo_auth"
    if "prefix ''x-matrix '' (map to_ascii_lower h)" and "drop 9 h = ?p" and "trim ?p = ?p" for h
    using that valid by (simp add: send_parse_x_matrix_auth_def ensure_def Let_def send_demo_params send_demo_auth_def)
  ultimately have "send_parse_x_matrix_auth (send_demo_table d good) (Some (Some (''X-Matrix '' @ ?p))) = Inr send_demo_auth"
    using scheme_recognised by blast
  then show ?thesis by simp
qed

lemma send_demo_origin: "Option.bind (get (send_demo_payload es) ''origin'') as_str = Some (sx_origin send_demo_auth)"
  by (simp add: send_demo_payload_def send_demo_auth_def)

lemma send_demo_uncached:
  "get_cached_result (send_demo_table d good) now (transaction_key (sx_origin send_demo_auth) txn) fed_db_demo = Inr None"
  by (simp add: get_cached_result_def send_demo_table_def fed_db_demo_def)

lemma send_demo_empty:
  "fd_transactions db = [] \<Longrightarrow>
     get_cached_result (send_demo_table d good) now (transaction_key (sx_origin send_demo_auth) txn) db = Inr None"
  by (simp add: get_cached_result_def send_demo_table_def)

lemma send_demo_accepts:
  assumes "fd_transactions db = []"
  shows "\<exists>resp db'. put_transaction (send_demo_table d (\<lambda>m. True)) (send_demo_clocks now) ''t1'' send_demo_header
     (send_demo_payload []) db = (Inr resp, db')"
proof -
  let ?w = "send_demo_table d (\<lambda>m. True)"
  have canon: "\<exists>m. to_canonical_json (json_to_string (sw_crypto (sd_session ?w))) (send_demo_payload []) = Inr m"
  proof -
    have "canonicalize_node [] {} 0 (send_demo_payload []) = Inr (canon (send_demo_payload []), {})"
      by (rule canonicalize_succeeds(1)) (simp_all add: send_demo_payload_def MAX_DEPTH_def MAX_MEMBERS_def)
    then show ?thesis by (auto simp: to_canonical_json_def canonicalize_value_def send_demo_table_def send_crypto_def)
  qed
  have key: "session_get_server_public_key (sd_session ?w) ck s k rows = (Inr ''pk'', rows)" for ck s k rows
    by (simp add: session_get_server_public_key_def send_demo_table_def send_crypto_def)
  have "verify_ed25519_signature (sw_crypto (sd_session ?w)) (sx_signature send_demo_auth) m ''pk'' = Inr ()" for m
    by (simp add: verify_ed25519_signature_def send_demo_table_def send_crypto_def demo_crypto_def ensure_def send_demo_auth_def)
  with canon have v: "verify_server_signature ?w ck send_demo_auth ''PUT'' p (send_demo_payload []) rows = (Inr (), rows)"
    for ck p rows
    by (auto simp: verify_as_session key construct_canonical_request_def)
  have "\<exists>resp db'. run_transaction ?w ck o1 k ps [] db = (Inr resp, db')" for ck o1 k ps db
    by (simp add: run_transaction_def Let_def liftS_def split: prod.split)
  moreover have "get (send_demo_payload []) ''pdus'' = Some (JArray [JObject []])" "get (send_demo_payload []) ''edus'' = Some (JArray [])"
    "get (send_demo_payload []) ''origin_server_ts'' = Some (int_json 1)" "sd_validator_ok ?w"
    by (simp_all add: send_demo_payload_def send_demo_table_def)
  moreover obtain a where "create_server_session (st_server_session (send_demo_clocks now)) (sx_origin send_demo_auth)
      (sx_key_id send_demo_auth) (sx_signature send_demo_auth) = Inr a"
    by (simp add: create_server_session_def send_demo_auth_def ensure_def to_matrix_auth_def for_server_def)
  ultimately show ?thesis
    unfolding uncached_put [where w = ?w and ck = "send_demo_clocks now" and txn_id = "''t1''" and db = db,
        OF send_demo_parsed send_demo_origin, unfolded send_demo_empty [OF assms], simplified]
    by (auto simp: v array_or_empty_def ensure_def Let_def in_i64_def i64_min_def i64_max_def)
qed

theorem honest_transaction_refused_witness:
  "\<exists>m rows. build_canonical_json session_demo ''PUT'' ''/x'' ''b.org'' ''a.org'' ''B'' = Inr m \<and>
     put_transaction (send_demo (\<lambda>t. t = m)) (send_demo_clocks 0) ''t1'' send_demo_header (send_demo_payload [])
       fed_db_demo = (Inl (Status 401), fed_db_demo\<lparr>fd_keys := rows\<rparr>)"
proof -
  obtain m where m: "build_canonical_json session_demo ''PUT'' ''/x'' ''b.org'' ''a.org'' ''B'' = Inr m"
    by (simp add: build_canonical_json_def session_demo_def session_canonical_agrees
        pdu_canonical_json_compact [of _ "\<lambda>s. s"] pdu_demo_def)
  let ?w = "send_demo (\<lambda>t. t = m)"
  have same: "build_canonical_json (sd_session ?w) ''PUT'' ''/x'' ''b.org'' ''a.org'' ''B'' = Inr m"
    using m by (simp add: build_canonical_json_def session_demo_def send_demo_table_def session_canonical_agrees
        pdu_canonical_json_compact [of _ "\<lambda>s. s"] pdu_demo_def)
  have signed: "\<exists>method uri destination content. build_canonical_json (sd_session ?w) method uri (sx_origin send_demo_auth)
      destination content = Inr t"
    if "verify_ed25519_signature (sw_crypto (sd_session ?w)) s t k = Inr ()" for s t k
  proof -
    have "t = m"
      using that by (auto simp: verify_ed25519_signature_def result_simps send_demo_table_def send_crypto_def)
    then show ?thesis using same by (auto simp: send_demo_auth_def)
  qed
  have upper: "sw_to_uppercase (sd_session ?w) ''PUT'' = ''PUT''" by (simp add: send_demo_table_def session_demo_def)
  have "\<exists>rows. put_transaction ?w (send_demo_clocks 0) ''t1'' send_demo_header (send_demo_payload []) fed_db_demo =
      (Inl (Status 401), fed_db_demo\<lparr>fd_keys := rows\<rparr>)"
    by (rule honest_transaction_refused [OF send_demo_parsed send_demo_origin send_demo_uncached _ upper]) (rule signed)
  with m show ?thesis by blast
qed

lemma fed_db_demo_empty: "fd_transactions fed_db_demo = []"
  by (simp add: fed_db_demo_def)

theorem accepted_transaction_sound_witness:
  "\<exists>resp db'. put_transaction (send_demo (\<lambda>m. True)) (send_demo_clocks 0) ''t1'' send_demo_header
       (send_demo_payload []) fed_db_demo = (Inr resp, db') \<and>
     admitted_in_turn (send_demo (\<lambda>m. True)) ''b.org'' [JObject []] [] (fd_events db') \<and>
     origin_writes edu_demo ''b.org'' edu_db_demo (fd_edu db')"
proof -
  obtain resp db' where p: "put_transaction (send_demo (\<lambda>m. True)) (send_demo_clocks 0) ''t1'' send_demo_header
      (send_demo_payload []) fed_db_demo = (Inr resp, db')" using send_demo_accepts [OF fed_db_demo_empty] by blast
  have e: "sx_origin send_demo_auth = ''b.org''" "array_or_empty (get (send_demo_payload []) ''pdus'') = [JObject []]"
    "fd_events fed_db_demo = []" "fd_edu fed_db_demo = edu_db_demo" "sd_edu (send_demo (\<lambda>m. True)) = edu_demo"
    by (simp_all add: send_demo_auth_def send_demo_payload_def array_or_empty_def fed_db_demo_def send_demo_table_def)
  from accepted_transaction_sound [OF p send_demo_parsed send_demo_uncached, unfolded e]
  have "admitted_in_turn (send_demo (\<lambda>m. True)) ''b.org'' [JObject []] [] (fd_events db') \<and>
     origin_writes edu_demo ''b.org'' edu_db_demo (fd_edu db')" by (metis append_Nil)
  with p show ?thesis by blast
qed

text \<open>The same transaction twice: the second request is verified and processed like the first.\<close>

theorem transaction_repeated_witness:
  "\<exists>resp db1 resp2 db2 rows.
     put_transaction (send_demo (\<lambda>m. True)) (send_demo_clocks 0) ''t1'' send_demo_header
       (send_demo_payload []) fed_db_demo = (Inr resp, db1) \<and>
     put_transaction (send_demo (\<lambda>m. True)) (send_demo_clocks 5) ''t1'' send_demo_header
       (send_demo_payload []) db1 = (Inr resp2, db2) \<and>
     run_transaction (send_demo (\<lambda>m. True)) (send_demo_clocks 5) ''b.org'' ''b.org:t1'' [JObject []] []
       (db1\<lparr>fd_keys := rows\<rparr>) = (Inr resp2, db2)"
proof -
  obtain resp db1 where p: "put_transaction (send_demo (\<lambda>m. True)) (send_demo_clocks 0) ''t1'' send_demo_header
      (send_demo_payload []) fed_db_demo = (Inr resp, db1)" using send_demo_accepts [OF fed_db_demo_empty] by blast
  have d: "sd_table_defined (send_demo (\<lambda>m. True))" by (simp add: send_demo_table_def)
  have r: "requests (send_demo (\<lambda>m. True)) fed_db_demo db1"
    by (rule next_request [OF no_request p])
  have "fd_transactions db1 = []" using requests_keep_cache [OF r d] fed_db_demo_empty by simp
  then obtain resp2 db2 where q: "put_transaction (send_demo (\<lambda>m. True)) (send_demo_clocks 5) ''t1'' send_demo_header
      (send_demo_payload []) db1 = (Inr resp2, db2)" using send_demo_accepts by blast
  have e: "sx_origin send_demo_auth = ''b.org''" "array_or_empty (get (send_demo_payload []) ''pdus'') = [JObject []]"
    "array_or_empty (get (send_demo_payload []) ''edus'') = []"
    "transaction_key ''b.org'' ''t1'' = ''b.org:t1''"
    by (simp_all add: send_demo_auth_def send_demo_payload_def array_or_empty_def transaction_key_def)
  from transaction_repeated [OF d fed_db_demo_empty r q] p q show ?thesis
    unfolding send_demo_parsed e by (auto simp: e)
qed

theorem transaction_once_witness:
  "\<exists>resp db'. put_transaction (send_demo_table False (\<lambda>m. True)) (send_demo_clocks 0) ''t1'' send_demo_header
       (send_demo_payload []) fed_db_demo = (Inr resp, db') \<and>
     put_transaction (send_demo_table False (\<lambda>m. True)) (send_demo_clocks 5) ''t1'' send_demo_header (send_demo_payload [JNull]) db' =
       (Inr resp, db')"
proof -
  obtain resp db' where p: "put_transaction (send_demo_table False (\<lambda>m. True)) (send_demo_clocks 0) ''t1'' send_demo_header
      (send_demo_payload []) fed_db_demo = (Inr resp, db')" using send_demo_accepts [OF fed_db_demo_empty] by blast
  have d: "\<not> sd_table_defined (send_demo_table False (\<lambda>m. True))" by (simp add: send_demo_table_def)
  have "put_transaction (send_demo_table False (\<lambda>m. True)) (send_demo_clocks 5) ''t1'' send_demo_header (send_demo_payload [JNull]) db' =
      (Inr resp, db')"
    by (rule transaction_once [OF d p send_demo_parsed send_demo_uncached _ _ send_demo_parsed refl send_demo_origin])
      (simp_all add: send_demo_clocks_def)
  with p show ?thesis by blast
qed

theorem cached_answer_unverified_witness:
  "put_transaction (send_demo (\<lambda>m. False)) (send_demo_clocks 5) ''t1'' send_demo_header (send_demo_payload [])
     (fed_db_demo\<lparr>fd_transactions := [\<lparr>tx_key = ''b.org:t1'', tx_result = JNull, tx_created_at = 0, tx_expires_at = 9\<rparr>]\<rparr>) =
   (Inr JNull, fed_db_demo\<lparr>fd_transactions := [\<lparr>tx_key = ''b.org:t1'', tx_result = JNull, tx_created_at = 0, tx_expires_at = 9\<rparr>]\<rparr>)"
  by (rule cached_answer_unverified [OF _ send_demo_parsed send_demo_origin])
    (simp add: get_cached_result_def send_demo_table_def send_demo_clocks_def send_demo_auth_def transaction_key_def fed_db_demo_def)

theorem failed_edu_aborts_witness:
  "\<exists>db'. run_transaction (send_demo (\<lambda>m. True)) (send_demo_clocks 0) ''b.org'' ''b.org:t1'' []
     [JObject [(''type'', JString ''m.device_list_update''), (''content'', JObject [])]] fed_db_demo = (Inl (Status 500), db')"
proof -
  have "forS (transaction_edu (sd_edu (send_demo (\<lambda>m. True))) (sd_device_order (send_demo (\<lambda>m. True))) ''b.org'')
      [JObject [(''type'', JString ''m.device_list_update''), (''content'', JObject [])]] (fd_edu fed_db_demo) =
      (Inl ''Failed to parse device list EDU'', edu_db_demo)"
    by (simp add: transaction_edu_def process_device_list_edu_def bindS_def liftS_def fed_db_demo_def
        device_list_update_of_def struct_fields_def req_string_def)
  from failed_edu_aborts [OF process_pdus.simps(1) this] show ?thesis by blast
qed

theorem own_header_refused_witness:
  "put_transaction (send_demo (\<lambda>m. True)) (send_demo_clocks 0) ''t1''
     (Some (Some (format_header ''b.org'' ''a.org'' ''ed25519:k'' ''s''))) (send_demo_payload []) fed_db_demo =
   (Inl (Status 400), fed_db_demo)"
  by (rule own_header_refused) simp_all

end
