(* ===== verification/Join_Rules.thy ===== *)
theory Join_Rules
  imports Power_Levels
begin

text \<open>
  Access to rooms for local clients, \<open>server/src/room/authorization.rs\<close>: the join rules, the ban
  check, the power levels of membership actions, the checks on the target of an action, and guest
  access as \<open>RoomRepository::check_guest_access\<close> decides it. Repository reads are the record
  \<open>join_world\<close>; HTTP status codes are the error values. The abstract specification \<open>may_join\<close>
  states the join rules over memberships and allow lists only.
\<close>

section \<open>Environment\<close>

record join_world =
  jw_room :: "string \<Rightarrow> repository_error + room option"
  jw_membership :: "string \<Rightarrow> string \<Rightarrow> repository_error + membership option"
  jw_state_event :: "string \<Rightarrow> string \<Rightarrow> string \<Rightarrow> repository_error + event option"
  jw_state_events :: "string \<Rightarrow> repository_error + event list"
  jw_level_rows :: "string \<Rightarrow> json list option"

definition membership_or_500 :: "join_world \<Rightarrow> string \<Rightarrow> string \<Rightarrow> status + membership option" where
  "membership_or_500 w room_id user_id =
     map_err (\<lambda>_. INTERNAL_SERVER_ERROR) (jw_membership w room_id user_id)"

definition has_membership :: "membership option \<Rightarrow> membership_state \<Rightarrow> bool" where
  "has_membership m s = (case m of Some x \<Rightarrow> m_membership x = s | None \<Rightarrow> False)"

section \<open>Join rules\<close>

definition check_ban_status :: "join_world \<Rightarrow> string \<Rightarrow> string \<Rightarrow> status + unit" where
  "check_ban_status w room_id user_id =
     bindR (membership_or_500 w room_id user_id) (\<lambda>membership.
     ensure (\<not> has_membership membership Ban) FORBIDDEN)"

definition validate_public_join :: "join_world \<Rightarrow> room \<Rightarrow> string \<Rightarrow> status + unit" where
  "validate_public_join w room user_id = Inr ()"

definition validate_invite_join :: "join_world \<Rightarrow> room \<Rightarrow> string \<Rightarrow> bool \<Rightarrow> status + unit" where
  "validate_invite_join w room user_id via_invite =
     bindR (ensure via_invite FORBIDDEN) (\<lambda>_.
     bindR (membership_or_500 w (r_room_id room) user_id) (\<lambda>membership.
     ensure (has_membership membership Invite) FORBIDDEN))"

definition get_restricted_allow_conditions :: "join_world \<Rightarrow> string \<Rightarrow> unit + json list" where
  "get_restricted_allow_conditions w room_id =
     (case jw_state_event w room_id ''m.room.join_rules'' '''' of
        Inr (Some join_rules_event) \<Rightarrow>
          Inr (unwrap_or [] (Option.bind (get (content_to_value (ev_content join_rules_event)) ''allow'') as_array))
      | Inr None \<Rightarrow> Inr []
      | Inl _ \<Rightarrow> Inl ())"

text \<open>The room an allow condition names, when it is a membership condition.\<close>

definition condition_room :: "json \<Rightarrow> string option" where
  "condition_room condition =
     (if Option.bind (get condition ''type'') as_str = Some ''m.room_membership''
      then Option.bind (get condition ''room_id'') as_str else None)"

fun check_allow_conditions :: "join_world \<Rightarrow> string \<Rightarrow> json list \<Rightarrow> status + unit" where
  "check_allow_conditions w user_id [] = Inl FORBIDDEN"
| "check_allow_conditions w user_id (condition # conditions) =
     (case condition_room condition of
        None \<Rightarrow> check_allow_conditions w user_id conditions
      | Some allowed_room_id \<Rightarrow>
          bindR (membership_or_500 w allowed_room_id user_id) (\<lambda>allowed_membership.
          if has_membership allowed_membership Join then Inr ()
          else check_allow_conditions w user_id conditions))"

definition validate_restricted_join :: "join_world \<Rightarrow> room \<Rightarrow> string \<Rightarrow> bool \<Rightarrow> status + unit" where
  "validate_restricted_join w room user_id via_invite =
     bindR (if via_invite
            then bindR (membership_or_500 w (r_room_id room) user_id) (\<lambda>membership.
                 Inr (has_membership membership Invite))
            else Inr False) (\<lambda>invited.
     if invited then Inr ()
     else bindR (map_err (\<lambda>_. INTERNAL_SERVER_ERROR) (get_restricted_allow_conditions w (r_room_id room)))
            (check_allow_conditions w user_id))"

definition validate_knock_join :: "join_world \<Rightarrow> room \<Rightarrow> string \<Rightarrow> status + unit" where
  "validate_knock_join w room user_id =
     bindR (membership_or_500 w (r_room_id room) user_id) (\<lambda>membership.
     ensure (has_membership membership Invite) FORBIDDEN)"

definition validate_knock_restricted_join :: "join_world \<Rightarrow> room \<Rightarrow> string \<Rightarrow> status + unit" where
  "validate_knock_restricted_join w room user_id =
     (if is_ok (validate_knock_join w room user_id) then Inr ()
      else validate_restricted_join w room user_id False)"

definition validate_join_attempt :: "join_world \<Rightarrow> string \<Rightarrow> string \<Rightarrow> bool \<Rightarrow> status + unit" where
  "validate_join_attempt w room_id user_id via_invite =
     bindR (check_ban_status w room_id user_id) (\<lambda>_.
     bindR (map_err (\<lambda>_. INTERNAL_SERVER_ERROR) (jw_room w room_id)) (\<lambda>room_opt.
     bindR (ok_or room_opt NOT_FOUND) (\<lambda>room.
     let rule = unwrap_or ''invite'' (r_join_rules room) in
     if rule = ''public'' then validate_public_join w room user_id
     else if rule = ''invite'' then validate_invite_join w room user_id via_invite
     else if rule = ''restricted'' then validate_restricted_join w room user_id via_invite
     else if rule = ''knock'' then validate_knock_join w room user_id
     else if rule = ''knock_restricted'' then validate_knock_restricted_join w room user_id
     else Inl FORBIDDEN)))"

section \<open>Membership actions\<close>

datatype membership_action =
    ActJoin
  | ActLeave
  | ActInvite
  | ActKick
  | ActBan
  | ActUnban
  | ActKnock

definition actor_power_level :: "json \<Rightarrow> string \<Rightarrow> int" where
  "actor_power_level power_levels user_id =
     (case Option.bind (Option.bind (get power_levels ''users'') as_object) (\<lambda>users.
             Option.bind (map_of users user_id) as_i64) of
        Some user_power \<Rightarrow> user_power
      | None \<Rightarrow> unwrap_or 0 (Option.bind (get power_levels ''users_default'') as_i64))"

fun get_required_power_level :: "json \<Rightarrow> membership_action \<Rightarrow> int" where
  "get_required_power_level power_levels ActInvite = unwrap_or 0 (Option.bind (get power_levels ''invite'') as_i64)"
| "get_required_power_level power_levels ActKick = unwrap_or 50 (Option.bind (get power_levels ''kick'') as_i64)"
| "get_required_power_level power_levels ActBan = unwrap_or 50 (Option.bind (get power_levels ''ban'') as_i64)"
| "get_required_power_level power_levels ActUnban = unwrap_or 50 (Option.bind (get power_levels ''ban'') as_i64)"
| "get_required_power_level power_levels ActJoin = 0"
| "get_required_power_level power_levels ActLeave = 0"
| "get_required_power_level power_levels ActKnock = 0"

text \<open>The content of the first row of the power levels query, or an empty object.\<close>

definition levels_of_records :: "json list \<Rightarrow> json" where
  "levels_of_records records =
     unwrap_or (JObject [])
       (case records of [] \<Rightarrow> None | record # _ \<Rightarrow> get record ''content'')"

definition validate_power_level_authorization ::
  "join_world \<Rightarrow> string \<Rightarrow> string \<Rightarrow> membership_action \<Rightarrow> int option \<Rightarrow> status + bool" where
  "validate_power_level_authorization w room_id actor_id action target_power_level =
     bindR (ok_or (jw_level_rows w room_id) INTERNAL_SERVER_ERROR) (\<lambda>power_levels_records.
     let power_levels = levels_of_records power_levels_records;
         actor_power = actor_power_level power_levels actor_id;
         required_power = get_required_power_level power_levels action
     in if (action = ActBan \<or> action = ActKick) \<and>
           (case target_power_level of None \<Rightarrow> False | Some target_power \<Rightarrow> actor_power \<le> target_power)
        then Inr False
        else Inr (actor_power \<ge> required_power))"

definition validate_target_action ::
  "join_world \<Rightarrow> string \<Rightarrow> string \<Rightarrow> string \<Rightarrow> membership_action \<Rightarrow> status + unit" where
  "validate_target_action w room_id actor_id target_id action =
     bindR (ensure (\<not> (actor_id = target_id \<and> action \<in> {ActKick, ActBan, ActUnban})) FORBIDDEN) (\<lambda>_.
     bindR (membership_or_500 w room_id target_id) (\<lambda>target_membership.
     case action of
       ActInvite \<Rightarrow>
         ensure (\<not> (has_membership target_membership Join \<or> has_membership target_membership Invite \<or>
                    has_membership target_membership Ban)) FORBIDDEN
     | ActKick \<Rightarrow> ensure (has_membership target_membership Join) FORBIDDEN
     | ActBan \<Rightarrow> Inr ()
     | ActUnban \<Rightarrow> ensure (has_membership target_membership Ban) FORBIDDEN
     | _ \<Rightarrow> Inr ()))"

definition validate_membership_action ::
  "join_world \<Rightarrow> string \<Rightarrow> string \<Rightarrow> string option \<Rightarrow> membership_action \<Rightarrow> status + unit" where
  "validate_membership_action w room_id actor_id target_id action =
     bindR (membership_or_500 w room_id actor_id) (\<lambda>membership.
     bindR (ok_or membership FORBIDDEN) (\<lambda>actor_membership.
     bindR (ensure (m_membership actor_membership = Join) FORBIDDEN) (\<lambda>_.
     case target_id of
       Some target \<Rightarrow> validate_target_action w room_id actor_id target action
     | None \<Rightarrow> Inr ())))"

section \<open>Guest access\<close>

datatype guest_access_result = GuestAllowed | GuestForbidden | RequiresMembership

definition guest_access_of :: "event list \<Rightarrow> string" where
  "guest_access_of state_events =
     (case find (\<lambda>e. ev_event_type e = ''m.room.guest_access'' \<and> ev_state_key e = Some '''') state_events of
        Some e \<Rightarrow>
          (case ev_content e of
             Unknown content \<Rightarrow> unwrap_or ''forbidden'' (Option.bind (get content ''guest_access'') as_str)
           | _ \<Rightarrow> ''forbidden'')
      | None \<Rightarrow> ''forbidden'')"

definition check_guest_access ::
  "join_world \<Rightarrow> string \<Rightarrow> string option \<Rightarrow> bool \<Rightarrow> repository_error + guest_access_result" where
  "check_guest_access w room_id user_id is_guest =
     bindR (jw_state_events w room_id) (\<lambda>state_events.
     if guest_access_of state_events = ''can_join'' then Inr GuestAllowed
     else case user_id of
            Some uid \<Rightarrow>
              bindR (jw_membership w room_id uid) (\<lambda>membership.
              Inr (if has_membership membership Join then GuestAllowed else RequiresMembership))
          | None \<Rightarrow> Inr GuestForbidden)"

definition require_room_access :: "join_world \<Rightarrow> string \<Rightarrow> string \<Rightarrow> bool \<Rightarrow> status + unit" where
  "require_room_access w room_id user_id is_guest =
     bindR (map_err (\<lambda>_. INTERNAL_SERVER_ERROR) (check_guest_access w room_id (Some user_id) is_guest)) (\<lambda>access_result.
     ensure (access_result = GuestAllowed) FORBIDDEN)"

section \<open>The join rules as a specification\<close>

text \<open>
  What the rules depend on: the join rule of a room, memberships, and the rooms whose members may
  join. A join is allowed to everybody but the banned in public rooms, to the invited (where the
  rule asks for it, only when the join accepts the invitation), and to members of an allowed room.
\<close>

record join_policy =
  rule_of :: "string \<Rightarrow> string option"
  member_of :: "string \<Rightarrow> string \<Rightarrow> membership_state option"
  allowed_rooms :: "string \<Rightarrow> string set"

inductive may_join :: "join_policy \<Rightarrow> string \<Rightarrow> string \<Rightarrow> bool \<Rightarrow> bool" for P where
  public_room: "rule_of P r = Some ''public'' \<Longrightarrow> member_of P r u \<noteq> Some Ban \<Longrightarrow> may_join P r u via"
| accepts_invite: "rule_of P r \<in> {Some ''invite'', Some ''restricted''} \<Longrightarrow> member_of P r u = Some Invite \<Longrightarrow>
     may_join P r u True"
| invited_after_knock: "rule_of P r \<in> {Some ''knock'', Some ''knock_restricted''} \<Longrightarrow> member_of P r u = Some Invite \<Longrightarrow>
     may_join P r u via"
| vouched: "rule_of P r \<in> {Some ''restricted'', Some ''knock_restricted''} \<Longrightarrow> member_of P r u \<noteq> Some Ban \<Longrightarrow>
     r' \<in> allowed_rooms P r \<Longrightarrow> member_of P r' u = Some Join \<Longrightarrow> may_join P r u via"

inductive_simps may_join_iff: "may_join P r u via"

definition policy_of :: "join_world \<Rightarrow> join_policy" where
  "policy_of w =
     \<lparr>rule_of = (\<lambda>r. case jw_room w r of
        Inr (Some room) \<Rightarrow> Some (unwrap_or ''invite'' (r_join_rules room)) | _ \<Rightarrow> None),
      member_of = (\<lambda>r u. case jw_membership w r u of Inr (Some m) \<Rightarrow> Some (m_membership m) | _ \<Rightarrow> None),
      allowed_rooms = (\<lambda>r. case get_restricted_allow_conditions w r of
        Inr conditions \<Rightarrow> set (List.map_filter condition_room conditions) | Inl _ \<Rightarrow> {})\<rparr>"

text \<open>The room table answers with the room asked for; and no read fails.\<close>

definition rooms_keyed :: "join_world \<Rightarrow> bool" where
  "rooms_keyed w \<longleftrightarrow> (\<forall>r room. jw_room w r = Inr (Some room) \<longrightarrow> r_room_id room = r)"

definition reads_succeed :: "join_world \<Rightarrow> bool" where
  "reads_succeed w \<longleftrightarrow> (\<forall>r. is_ok (jw_room w r)) \<and> (\<forall>r u. is_ok (jw_membership w r u)) \<and>
     (\<forall>r t k. is_ok (jw_state_event w r t k))"

lemma has_membership_read:
  "membership_or_500 w r u = Inr m \<Longrightarrow> has_membership m s \<longleftrightarrow> member_of (policy_of w) r u = Some s"
  by (auto simp: membership_or_500_def has_membership_def policy_of_def result_simps split: option.splits)

lemma reads_succeed_membership: "reads_succeed w \<Longrightarrow> \<exists>m. membership_or_500 w r u = Inr m"
  by (auto simp: reads_succeed_def membership_or_500_def is_ok_iff result_simps)

lemma reads_succeed_conditions:
  assumes "reads_succeed w"
  shows "\<exists>cs. get_restricted_allow_conditions w r = Inr cs"
proof -
  obtain x where "jw_state_event w r ''m.room.join_rules'' [] = Inr x"
    using assms unfolding reads_succeed_def is_ok_iff by blast
  then show ?thesis by (cases x) (simp_all add: get_restricted_allow_conditions_def)
qed

lemma reads_succeed_room: "reads_succeed w \<Longrightarrow> \<exists>m. jw_room w r = Inr m"
  by (simp add: reads_succeed_def is_ok_iff)

lemma check_allow_conditions_sound:
  "check_allow_conditions w u cs = Inr () \<Longrightarrow>
     \<exists>r' \<in> set (List.map_filter condition_room cs). member_of (policy_of w) r' u = Some Join"
  by (induction cs)
    (auto simp: map_filter_simps result_simps has_membership_read split: option.splits if_splits)

lemma check_allow_conditions_exact:
  assumes "reads_succeed w"
  shows "check_allow_conditions w u cs =
     (if \<exists>r' \<in> set (List.map_filter condition_room cs). member_of (policy_of w) r' u = Some Join
      then Inr () else Inl FORBIDDEN)"
proof (induction cs)
  case (Cons c cs)
  show ?case
  proof (cases "condition_room c")
    case (Some r')
    obtain m where "membership_or_500 w r' u = Inr m" using reads_succeed_membership [OF assms] by blast
    with Some Cons show ?thesis by (simp add: map_filter_simps has_membership_read)
  qed (simp add: map_filter_simps Cons)
qed (simp add: map_filter_simps)

lemma ban_status_iff:
  "check_ban_status w r u = Inr () \<longleftrightarrow>
     is_ok (membership_or_500 w r u) \<and> member_of (policy_of w) r u \<noteq> Some Ban"
  by (auto simp: check_ban_status_def result_simps is_ok_iff has_membership_read)

lemma knock_join_iff:
  "validate_knock_join w room u = Inr () \<longleftrightarrow> member_of (policy_of w) (r_room_id room) u = Some Invite"
  by (cases "membership_or_500 w (r_room_id room) u")
    (auto simp: validate_knock_join_def result_simps has_membership_read,
     auto simp: membership_or_500_def policy_of_def split: sum.splits)

lemma invite_join_iff:
  "validate_invite_join w room u via = Inr () \<longleftrightarrow>
     via \<and> member_of (policy_of w) (r_room_id room) u = Some Invite"
  using knock_join_iff [of w room u]
  by (auto simp: validate_invite_join_def validate_knock_join_def result_simps)

lemma restricted_join_sound:
  "validate_restricted_join w room u via = Inr () \<Longrightarrow>
     via \<and> member_of (policy_of w) (r_room_id room) u = Some Invite \<or>
     (\<exists>r' \<in> allowed_rooms (policy_of w) (r_room_id room). member_of (policy_of w) r' u = Some Join)"
  by (auto simp: validate_restricted_join_def result_simps has_membership_read policy_of_def
      dest!: check_allow_conditions_sound split: if_splits)

lemma restricted_join_exact:
  assumes "reads_succeed w"
  shows "validate_restricted_join w room u via =
     (if via \<and> member_of (policy_of w) (r_room_id room) u = Some Invite \<or>
         (\<exists>r' \<in> allowed_rooms (policy_of w) (r_room_id room). member_of (policy_of w) r' u = Some Join)
      then Inr () else Inl FORBIDDEN)"
proof -
  obtain m where m: "membership_or_500 w (r_room_id room) u = Inr m"
    using reads_succeed_membership [OF assms] by blast
  obtain cs where cs: "get_restricted_allow_conditions w (r_room_id room) = Inr cs"
    using reads_succeed_conditions [OF assms] by blast
  have "allowed_rooms (policy_of w) (r_room_id room) = set (List.map_filter condition_room cs)"
    by (simp add: policy_of_def cs)
  with m cs show ?thesis
    by (auto simp: validate_restricted_join_def has_membership_read check_allow_conditions_exact [OF assms])
qed

text \<open>The route a join takes, once the ban check and the room lookup have passed.\<close>

lemma join_attempt_cases:
  assumes "jw_room w r = Inr (Some room)" and "check_ban_status w r u = Inr ()"
  obtains "rule_of (policy_of w) r = Some ''public''" "validate_join_attempt w r u via = Inr ()"
  | "rule_of (policy_of w) r = Some ''invite''" "validate_join_attempt w r u via = validate_invite_join w room u via"
  | "rule_of (policy_of w) r = Some ''restricted''" "validate_join_attempt w r u via = validate_restricted_join w room u via"
  | "rule_of (policy_of w) r = Some ''knock''" "validate_join_attempt w r u via = validate_knock_join w room u"
  | "rule_of (policy_of w) r = Some ''knock_restricted''"
      "validate_join_attempt w r u via = validate_knock_restricted_join w room u"
  | "rule_of (policy_of w) r \<notin> Some ` {''public'', ''invite'', ''restricted'', ''knock'', ''knock_restricted''}"
      "validate_join_attempt w r u via = Inl FORBIDDEN"
proof -
  have rule: "rule_of (policy_of w) r = Some (unwrap_or ''invite'' (r_join_rules room))"
    by (simp add: policy_of_def assms)
  show thesis
    using that assms unfolding validate_join_attempt_def rule Let_def validate_public_join_def
    by (cases "unwrap_or ''invite'' (r_join_rules room) \<in>
      {''public'', ''invite'', ''restricted'', ''knock'', ''knock_restricted''}") auto
qed

lemma join_attempt_sound:
  assumes "rooms_keyed w" and "validate_join_attempt w r u via = Inr ()"
  shows "may_join (policy_of w) r u via"
proof -
  obtain room where room: "jw_room w r = Inr (Some room)" and ban: "check_ban_status w r u = Inr ()"
    using assms(2) by (auto simp: validate_join_attempt_def result_simps)
  have r: "r_room_id room = r" using assms(1) room by (simp add: rooms_keyed_def)
  have "member_of (policy_of w) r u \<noteq> Some Ban" using ban by (simp add: ban_status_iff)
  with join_attempt_cases [OF room ban, of via] show ?thesis
    using assms(2) restricted_join_sound [of w room u] knock_join_iff [of w room u]
      invite_join_iff [of w room u via]
    by cases (auto simp: r may_join_iff validate_knock_restricted_join_def is_ok_iff split: if_splits)
qed

lemma join_attempt_exact:
  assumes "rooms_keyed w" and "reads_succeed w"
  shows "validate_join_attempt w r u via =
     (if may_join (policy_of w) r u via then Inr ()
      else if rule_of (policy_of w) r = None \<and> member_of (policy_of w) r u \<noteq> Some Ban then Inl NOT_FOUND
      else Inl FORBIDDEN)"
proof -
  obtain m where m: "membership_or_500 w r u = Inr m" using reads_succeed_membership [OF assms(2)] by blast
  obtain ro where ro: "jw_room w r = Inr ro" using reads_succeed_room [OF assms(2)] by blast
  consider (banned) "member_of (policy_of w) r u = Some Ban"
    | (missing) "member_of (policy_of w) r u \<noteq> Some Ban" "ro = None"
    | (room) room where "member_of (policy_of w) r u \<noteq> Some Ban" "ro = Some room"
    by (cases ro) auto
  then show ?thesis
  proof cases
    case banned
    then have "check_ban_status w r u = Inl FORBIDDEN"
      using m by (simp add: check_ban_status_def has_membership_read ensure_def)
    then show ?thesis using banned by (auto simp: validate_join_attempt_def may_join_iff)
  next
    case missing
    then have "check_ban_status w r u = Inr ()" using m by (simp add: ban_status_iff is_ok_iff)
    moreover have "rule_of (policy_of w) r = None" using missing ro by (simp add: policy_of_def)
    ultimately show ?thesis using missing ro by (simp add: validate_join_attempt_def may_join_iff)
  next
    case (room rm)
    then have ban: "check_ban_status w r u = Inr ()" using m by (simp add: ban_status_iff is_ok_iff)
    have rm: "jw_room w r = Inr (Some rm)" using ro room by simp
    have r: "r_room_id rm = r" using assms(1) rm by (simp add: rooms_keyed_def)
    have knock: "validate_knock_join w rm u =
        (if member_of (policy_of w) r u = Some Invite then Inr () else Inl FORBIDDEN)"
      using m by (simp add: validate_knock_join_def r has_membership_read ensure_def)
    have invite: "validate_invite_join w rm u via =
        (if via \<and> member_of (policy_of w) r u = Some Invite then Inr () else Inl FORBIDDEN)"
      using m by (simp add: validate_invite_join_def r has_membership_read ensure_def)
    obtain rule where rule: "rule_of (policy_of w) r = Some rule" by (simp add: policy_of_def rm)
    show ?thesis
      using join_attempt_cases [OF rm ban, of via] room(1) rule
      by cases (auto simp: may_join_iff knock invite restricted_join_exact [OF assms(2)] r
          validate_knock_restricted_join_def)
  qed
qed

section \<open>Power levels of membership actions\<close>

text \<open>The levels the validator reads in a room.\<close>

definition action_levels :: "join_world \<Rightarrow> string \<Rightarrow> json" where
  "action_levels w room_id = levels_of_records (unwrap_or [] (jw_level_rows w room_id))"

lemma power_authorization_iff:
  "validate_power_level_authorization w r u action target = Inr True \<longleftrightarrow>
     jw_level_rows w r \<noteq> None \<and>
     get_required_power_level (action_levels w r) action \<le> actor_power_level (action_levels w r) u \<and>
     (action \<in> {ActBan, ActKick} \<longrightarrow>
        (\<forall>level. target = Some level \<longrightarrow> level < actor_power_level (action_levels w r) u))"
  by (cases "jw_level_rows w r"; cases target)
    (auto simp: validate_power_level_authorization_def action_levels_def Let_def)

interpretation member_ban: guarded_power_hierarchy "actor_power_level (action_levels w r)"
  "\<lambda>u v. validate_power_level_authorization w r u ActBan (Some (actor_power_level (action_levels w r) v)) = Inr True"
  "get_required_power_level (action_levels w r) ActBan" for w r
  by unfold_locales (simp_all add: power_authorization_iff)

interpretation member_kick: guarded_power_hierarchy "actor_power_level (action_levels w r)"
  "\<lambda>u v. validate_power_level_authorization w r u ActKick (Some (actor_power_level (action_levels w r) v)) = Inr True"
  "get_required_power_level (action_levels w r) ActKick" for w r
  by unfold_locales (simp_all add: power_authorization_iff)

lemma actor_power_level_eq: "actor_power_level levels u = get_user_power_level levels u"
  unfolding actor_power_level_def get_user_power_level_def i64_field_def by (rule refl)

lemma user_level_of_content:
  assumes "json_wf content"
  shows "get_user_level (power_levels_of_content content) u = actor_power_level content u"
proof (cases "Option.bind (get content ''users'') as_object")
  case None
  then show ?thesis
    by (auto simp: get_user_level_def power_levels_of_content_def i64_entries_def actor_power_level_def
        i64_field_def split: option.splits)
next
  case (Some obj)
  have "distinct (map fst obj)"
    using assms Some by (cases content) (auto simp: get_def bind_eq_Some_conv as_object_Some_iff dest!: map_of_SomeD)
  from map_of_i64_entries [OF this, of u] Some show ?thesis
    by (auto simp: get_user_level_def power_levels_of_content_def i64_entries_def actor_power_level_def
        i64_field_def bind_eq_Some_conv split: option.splits)
qed

lemma target_action_iff:
  assumes "reads_succeed w"
  shows "validate_target_action w r u v action = Inr () \<longleftrightarrow>
     (u = v \<longrightarrow> action \<notin> {ActKick, ActBan, ActUnban}) \<and>
     (action = ActInvite \<longrightarrow> member_of (policy_of w) r v \<notin> {Some Join, Some Invite, Some Ban}) \<and>
     (action = ActKick \<longrightarrow> member_of (policy_of w) r v = Some Join) \<and>
     (action = ActUnban \<longrightarrow> member_of (policy_of w) r v = Some Ban)"
proof -
  obtain m where "membership_or_500 w r v = Inr m" using reads_succeed_membership [OF assms] by blast
  then show ?thesis
    by (cases action) (auto simp: validate_target_action_def result_simps has_membership_read)
qed

section \<open>Claims\<close>

text \<open>
  C18. The join checks implement the join rules: every join that is let through is allowed by the
  specification \<open>may_join\<close>, also when some reads of the database fail, and when none fails the
  answer is exactly the specification's, with 404 for a missing room and 403 for every refusal.
\<close>

theorem join_attempt_refines:
  assumes "rooms_keyed w"
  shows "(validate_join_attempt w r u via = Inr () \<longrightarrow> may_join (policy_of w) r u via) \<and>
     (reads_succeed w \<longrightarrow> validate_join_attempt w r u via =
       (if may_join (policy_of w) r u via then Inr ()
        else if rule_of (policy_of w) r = None \<and> member_of (policy_of w) r u \<noteq> Some Ban then Inl NOT_FOUND
        else Inl FORBIDDEN))"
  using join_attempt_sound [OF assms] join_attempt_exact [OF assms] by blast

text \<open>
  Two services decide the same kicks and bans: on the same power levels event the validator of
  this file, given the target's level, and the room service agree; no chain of bans leads from a
  user back to that user. Lifting a ban is different: here only the level for bans counts.
\<close>

theorem action_power_agrees:
  assumes "jw_level_rows w r = Some (row # rest)" and "rows r = Inr (row # rest)"
    and "get row ''content'' = Some content" and "json_wf content"
  shows "(validate_power_level_authorization w r u ActKick (Some (actor_power_level content v)) = Inr True \<longleftrightarrow>
        check_kick_power rows r u v = Inr ()) \<and>
     (validate_power_level_authorization w r u ActBan (Some (actor_power_level content v)) = Inr True \<longleftrightarrow>
        check_ban_power rows r u v = Inr ()) \<and>
     \<not> (\<lambda>u v. validate_power_level_authorization w r u ActBan (Some (actor_power_level content v)) = Inr True)\<^sup>+\<^sup>+ u u \<and>
     (validate_power_level_authorization w r u ActUnban target = Inr True \<longleftrightarrow>
        i64_field content ''ban'' 50 \<le> actor_power_level content u)"
proof -
  have here: "action_levels w r = content"
    using assms(1,3) by (simp add: action_levels_def levels_of_records_def)
  have there: "levels_in_force rows r = power_levels_of_content content"
    using assms(2,3) by (simp add: levels_in_force_def repo_power_levels_def levels_of_rows_def)
  have levels: "pl_kick (power_levels_of_content content) = get_required_power_level content ActKick"
    "pl_ban (power_levels_of_content content) = get_required_power_level content ActBan"
    by (simp_all add: power_levels_of_content_def i64_field_def)
  have "\<not> (\<lambda>u v. validate_power_level_authorization w r u ActBan (Some (actor_power_level content v)) = Inr True)\<^sup>+\<^sup>+ u u"
    using member_ban.no_cycle [of w r u] by (simp only: here not_False_eq_True)
  then show ?thesis
    using user_level_of_content [OF assms(4)] assms(1)
    by (simp add: power_authorization_iff here check_kick_iff check_ban_iff there levels i64_field_def)
qed

text \<open>
  What the check of a membership action looks at: the actor has joined, nobody kicks, bans or
  unbans themselves, an invited user is neither in the room nor banned, a kicked one is in it and an
  unbanned one is banned. Power levels do not matter, so any member passes it for any other.
\<close>

theorem membership_action_decision:
  assumes "reads_succeed w"
  shows "(validate_membership_action w r u (Some v) action = Inr () \<longleftrightarrow>
       member_of (policy_of w) r u = Some Join \<and>
       (u = v \<longrightarrow> action \<notin> {ActKick, ActBan, ActUnban}) \<and>
       (action = ActInvite \<longrightarrow> member_of (policy_of w) r v \<notin> {Some Join, Some Invite, Some Ban}) \<and>
       (action = ActKick \<longrightarrow> member_of (policy_of w) r v = Some Join) \<and>
       (action = ActUnban \<longrightarrow> member_of (policy_of w) r v = Some Ban)) \<and>
     validate_membership_action (w\<lparr>jw_level_rows := levels\<rparr>) r u (Some v) action =
       validate_membership_action w r u (Some v) action"
proof -
  obtain m where m: "membership_or_500 w r u = Inr m" using reads_succeed_membership [OF assms] by blast
  have "validate_membership_action w r u (Some v) action = Inr () \<longleftrightarrow>
      has_membership m Join \<and> validate_target_action w r u v action = Inr ()"
    using m by (cases m) (auto simp: validate_membership_action_def has_membership_def result_simps)
  moreover have "membership_or_500 (w\<lparr>jw_level_rows := levels\<rparr>) = membership_or_500 w"
    by (simp add: membership_or_500_def fun_eq_iff)
  ultimately show ?thesis
    using has_membership_read [OF m] target_action_iff [OF assms]
    by (simp add: validate_membership_action_def validate_target_action_def)
qed

text \<open>
  Access to the content of a room: everybody has it, guest or not, member or not, banned or not,
  once the guest access event of the room says \<open>can_join\<close>; otherwise only joined members have it.
\<close>

theorem room_access_decision:
  assumes "jw_state_events w r = Inr es" and "is_ok (jw_membership w r u)"
  shows "require_room_access w r u is_guest =
     (if guest_access_of es = ''can_join'' \<or> member_of (policy_of w) r u = Some Join
      then Inr () else Inl FORBIDDEN)"
proof -
  obtain m where m: "jw_membership w r u = Inr m" using assms(2) by (auto simp: is_ok_iff)
  then have "has_membership m Join \<longleftrightarrow> member_of (policy_of w) r u = Some Join"
    by (intro has_membership_read) (simp add: membership_or_500_def)
  with m assms(1) show ?thesis
    by (simp add: require_room_access_def check_guest_access_def ensure_def)
qed

section \<open>Witnesses\<close>

text \<open>A restricted room that admits the members of another room, and its guest access event.\<close>

definition join_demo :: join_world where
  "join_demo =
     \<lparr>jw_room = (\<lambda>r. if r = ''!r:x''
        then Inr (Some ((new_room 1 1 r ''10'' ''@o:x'')\<lparr>r_join_rules := Some ''restricted''\<rparr>)) else Inr None),
      jw_membership = (\<lambda>r u. if r = ''!s:x'' \<and> u = ''@a:x'' then Inr (Some (new_membership r u Join))
        else if r = ''!r:x'' \<and> u = ''@o:x'' then Inr (Some (new_membership r u Join)) else Inr None),
      jw_state_event = (\<lambda>r t k. Inr (if r = ''!r:x'' \<and> t = ''m.room.join_rules''
        then Some (new_event ''$j'' ''@o:x'' 1 t r (Unknown (JObject [(''join_rule'', JString ''restricted''),
          (''allow'', JArray [JObject [(''type'', JString ''m.room_membership''), (''room_id'', JString ''!s:x'')]])])))
        else None)),
      jw_state_events = (\<lambda>r. Inr [(new_event ''$g'' ''@o:x'' 1 ''m.room.guest_access'' r
        (Unknown (JObject [(''guest_access'', JString ''can_join'')])))\<lparr>ev_state_key := Some []\<rparr>]),
      jw_level_rows = (\<lambda>r. Some [JObject [(''content'',
        JObject [(''users'', JObject [(''@o:x'', int_json 100)])])]])\<rparr>"

lemma join_demo_wf: "rooms_keyed join_demo" "reads_succeed join_demo"
  by (auto simp: rooms_keyed_def reads_succeed_def join_demo_def new_room_def is_ok_iff split: if_splits)

theorem join_attempt_refines_witness:
  "may_join (policy_of join_demo) ''!r:x'' ''@a:x'' False \<and>
   validate_join_attempt join_demo ''!r:x'' ''@a:x'' False = Inr () \<and>
   validate_join_attempt join_demo ''!q:x'' ''@a:x'' False = Inl NOT_FOUND"
proof -
  have "validate_join_attempt join_demo ''!r:x'' ''@a:x'' False = Inr ()"
    by (simp add: validate_join_attempt_def check_ban_status_def membership_or_500_def join_demo_def
        has_membership_def ensure_def new_room_def validate_restricted_join_def
        get_restricted_allow_conditions_def new_event_def get_def condition_room_def new_membership_def)
  moreover have "rule_of (policy_of join_demo) ''!q:x'' = None" "member_of (policy_of join_demo) ''!q:x'' ''@a:x'' = None"
    by (simp_all add: policy_of_def join_demo_def)
  ultimately show ?thesis
    using join_attempt_refines [OF join_demo_wf(1), of "''!r:x''" "''@a:x''" False]
      join_attempt_refines [OF join_demo_wf(1), of "''!q:x''" "''@a:x''" False] join_demo_wf(2)
    by (simp add: may_join_iff)
qed

theorem action_power_agrees_witness:
  "check_ban_power (\<lambda>r. Inr [JObject [(''content'', JObject [(''users'', JObject [(''@o:x'', int_json 100)])])]])
     ''!r:x'' ''@o:x'' ''@a:x'' = Inr ()"
proof -
  have "validate_power_level_authorization join_demo ''!r:x'' ''@o:x'' ActBan
      (Some (actor_power_level (JObject [(''users'', JObject [(''@o:x'', int_json 100)])]) ''@a:x'')) = Inr True"
    by (simp add: validate_power_level_authorization_def join_demo_def levels_of_records_def get_def
        actor_power_level_def in_i64_def i64_min_def i64_max_def)
  then show ?thesis
    using action_power_agrees [of join_demo "''!r:x''" "JObject [(''content'', JObject [(''users'', JObject [(''@o:x'', int_json 100)])])]"
        "[]" "\<lambda>r. Inr [JObject [(''content'', JObject [(''users'', JObject [(''@o:x'', int_json 100)])])]]"
        "JObject [(''users'', JObject [(''@o:x'', int_json 100)])]" "''@o:x''" "''@a:x''"]
    by (simp add: join_demo_def get_def)
qed

theorem membership_action_decision_witness:
  "validate_membership_action join_demo ''!r:x'' ''@o:x'' (Some ''@a:x'') ActBan = Inr () \<and>
   validate_membership_action (join_demo\<lparr>jw_level_rows := \<lambda>r. None\<rparr>) ''!r:x'' ''@o:x'' (Some ''@a:x'') ActBan = Inr ()"
proof -
  have "member_of (policy_of join_demo) ''!r:x'' ''@o:x'' = Some Join"
    by (simp add: policy_of_def join_demo_def new_membership_def)
  then show ?thesis
    using membership_action_decision [OF join_demo_wf(2), of "''!r:x''" "''@o:x''" "''@a:x''" ActBan "\<lambda>r. None"]
    by simp
qed

theorem room_access_decision_witness:
  "require_room_access join_demo ''!r:x'' ''@b:x'' False = Inr ()"
  using room_access_decision [of join_demo "''!r:x''" _ "''@b:x''" False]
  by (simp add: join_demo_def guest_access_of_def new_event_def get_def)

end
