(* ===== verification/Membership_Errors.thy ===== *)
theory Membership_Errors
  imports Entity
begin

text \<open>
  The errors of membership operations, \<open>server/src/room/membership_errors.rs\<close>: the variants with
  their fields, the HTTP status and the Matrix error code of each, the text and the JSON body of the
  answer. Delays are unsigned 64-bit numbers.
\<close>

datatype membership_error =
    ME_InsufficientPermissions string int int string
  | ME_UserBanned string string "string option"
  | ME_InvalidMembershipTransition string string string string
  | ME_RoomNotFound string
  | ME_RoomAccessDenied string string string
  | ME_UserNotFound string
  | ME_MembershipAlreadyExists string string string string
  | ME_FederationError string "string option" string "64 word option"
  | ME_DnsResolutionError string string
  | ME_FederationTimeout string "64 word" string
  | ME_InvalidEvent "string option" string
  | ME_InvalidMatrixId string string
  | ME_DatabaseError string string
  | ME_JsonError string string
  | ME_ConflictingMembershipChange string string string
  | ME_InconsistentRoomState string string
  | ME_RateLimited "64 word"
  | ME_InternalError string string

fun to_status_code :: "membership_error \<Rightarrow> nat" where
  "to_status_code (ME_InsufficientPermissions action required level room_id) = 403"
| "to_status_code (ME_UserBanned user_id room_id reason) = 403"
| "to_status_code (ME_InvalidMembershipTransition from to user_id room_id) = 400"
| "to_status_code (ME_RoomNotFound room_id) = 404"
| "to_status_code (ME_RoomAccessDenied room_id join_rule reason) = 403"
| "to_status_code (ME_UserNotFound user_id) = 404"
| "to_status_code (ME_MembershipAlreadyExists user_id room_id current requested) = 409"
| "to_status_code (ME_FederationError server_name code message retry_after) = 502"
| "to_status_code (ME_FederationTimeout server_name timeout_ms operation) = 504"
| "to_status_code (ME_InvalidEvent event_id reason) = 400"
| "to_status_code (ME_InvalidMatrixId i expected_type) = 400"
| "to_status_code (ME_DatabaseError operation err) = 500"
| "to_status_code (ME_JsonError ctxt err) = 400"
| "to_status_code (ME_ConflictingMembershipChange user_id room_id event_id) = 409"
| "to_status_code (ME_InconsistentRoomState room_id details) = 500"
| "to_status_code (ME_RateLimited retry_after_ms) = 429"
| "to_status_code (ME_InternalError ctxt err) = 500"
| "to_status_code (ME_DnsResolutionError server_name err) = 502"

fun to_matrix_error_code :: "membership_error \<Rightarrow> string" where
  "to_matrix_error_code (ME_InsufficientPermissions action required level room_id) = ''M_FORBIDDEN''"
| "to_matrix_error_code (ME_UserBanned user_id room_id reason) = ''M_FORBIDDEN''"
| "to_matrix_error_code (ME_InvalidMembershipTransition from to user_id room_id) = ''M_BAD_STATE''"
| "to_matrix_error_code (ME_RoomNotFound room_id) = ''M_NOT_FOUND''"
| "to_matrix_error_code (ME_RoomAccessDenied room_id join_rule reason) = ''M_FORBIDDEN''"
| "to_matrix_error_code (ME_UserNotFound user_id) = ''M_NOT_FOUND''"
| "to_matrix_error_code (ME_MembershipAlreadyExists user_id room_id current requested) = ''M_BAD_STATE''"
| "to_matrix_error_code (ME_FederationError server_name code message retry_after) = ''M_UNKNOWN''"
| "to_matrix_error_code (ME_DnsResolutionError server_name err) = ''M_UNKNOWN''"
| "to_matrix_error_code (ME_FederationTimeout server_name timeout_ms operation) = ''M_UNKNOWN''"
| "to_matrix_error_code (ME_InvalidEvent event_id reason) = ''M_BAD_JSON''"
| "to_matrix_error_code (ME_InvalidMatrixId i expected_type) = ''M_INVALID_PARAM''"
| "to_matrix_error_code (ME_DatabaseError operation err) = ''M_UNKNOWN''"
| "to_matrix_error_code (ME_JsonError ctxt err) = ''M_BAD_JSON''"
| "to_matrix_error_code (ME_ConflictingMembershipChange user_id room_id event_id) = ''M_BAD_STATE''"
| "to_matrix_error_code (ME_InconsistentRoomState room_id details) = ''M_UNKNOWN''"
| "to_matrix_error_code (ME_RateLimited retry_after_ms) = ''M_LIMIT_EXCEEDED''"
| "to_matrix_error_code (ME_InternalError ctxt err) = ''M_UNKNOWN''"

definition show_u64 :: "64 word \<Rightarrow> string" where
  "show_u64 n = show_nat (unat n)"

fun membership_error_text :: "membership_error \<Rightarrow> string" where
  "membership_error_text (ME_InsufficientPermissions action required level room_id) =
     ''Insufficient permissions for '' @ action @ '': required level '' @ show_int required @
     '', user has '' @ show_int level"
| "membership_error_text (ME_UserBanned user_id room_id (Some r)) =
     ''User '' @ user_id @ '' is banned: '' @ r"
| "membership_error_text (ME_UserBanned user_id room_id None) = ''User '' @ user_id @ '' is banned''"
| "membership_error_text (ME_InvalidMembershipTransition from to user_id room_id) =
     ''Invalid membership transition for '' @ user_id @ '': '' @ from @ '' -> '' @ to"
| "membership_error_text (ME_RoomNotFound room_id) = ''Room '' @ room_id @ '' not found''"
| "membership_error_text (ME_RoomAccessDenied room_id join_rule reason) =
     ''Access denied to room '' @ room_id @ '' ('' @ join_rule @ ''): '' @ reason"
| "membership_error_text (ME_UserNotFound user_id) = ''User '' @ user_id @ '' not found''"
| "membership_error_text (ME_MembershipAlreadyExists user_id room_id current requested) =
     ''User '' @ user_id @ '' already has membership '' @ current @ '' (requested '' @ requested @ '')''"
| "membership_error_text (ME_FederationError server_name code message retry_after) =
     ''Federation error from '' @ server_name @ '': '' @ message"
| "membership_error_text (ME_DnsResolutionError server_name err) =
     ''DNS resolution failed for '' @ server_name @ '': '' @ err"
| "membership_error_text (ME_FederationTimeout server_name timeout_ms operation) =
     ''Federation timeout for '' @ operation @ '' on '' @ server_name @ '': '' @ show_u64 timeout_ms @ ''ms''"
| "membership_error_text (ME_InvalidEvent (Some i) reason) = ''Invalid event '' @ i @ '': '' @ reason"
| "membership_error_text (ME_InvalidEvent None reason) = ''Invalid event: '' @ reason"
| "membership_error_text (ME_InvalidMatrixId i expected_type) = ''Invalid '' @ expected_type @ '' ID: '' @ i"
| "membership_error_text (ME_DatabaseError operation err) =
     ''Database error during '' @ operation @ '': '' @ err"
| "membership_error_text (ME_JsonError ctxt err) = ''JSON error in '' @ ctxt @ '': '' @ err"
| "membership_error_text (ME_ConflictingMembershipChange user_id room_id event_id) =
     ''Conflicting membership change for '' @ user_id @ '' (conflict: '' @ event_id @ '')''"
| "membership_error_text (ME_InconsistentRoomState room_id details) =
     ''Inconsistent room state in '' @ room_id @ '': '' @ details"
| "membership_error_text (ME_RateLimited retry_after_ms) =
     ''Rate limited, retry after '' @ show_u64 retry_after_ms @ ''ms''"
| "membership_error_text (ME_InternalError ctxt err) = ''Internal error in '' @ ctxt @ '': '' @ err"

text \<open>The delay a client is told to wait.\<close>

fun retry_after_of :: "membership_error \<Rightarrow> 64 word option" where
  "retry_after_of (ME_RateLimited retry_after_ms) = Some retry_after_ms"
| "retry_after_of (ME_FederationError server_name code message retry_after) = retry_after"
| "retry_after_of _ = None"

definition to_matrix_response :: "membership_error \<Rightarrow> json" where
  "to_matrix_response e = JObject (
     [(''errcode'', JString (to_matrix_error_code e)), (''error'', JString (membership_error_text e))] @
     opt_member ''retry_after_ms'' (\<lambda>n. int_json (uint n)) (retry_after_of e))"

section \<open>Answers\<close>

lemma response_members:
  "get (to_matrix_response e) ''errcode'' = Some (JString (to_matrix_error_code e))"
  "get (to_matrix_response e) ''retry_after_ms'' = map_option (\<lambda>n. int_json (uint n)) (retry_after_of e)"
  by (auto simp: to_matrix_response_def get_def opt_member_def split: option.splits)

text \<open>Refusals for lack of rights are the answers with status 403, and no other error has their code.\<close>

lemma forbidden_iff: "to_status_code e = 403 \<longleftrightarrow> to_matrix_error_code e = ''M_FORBIDDEN''"
  by (cases e) auto

lemma not_found_iff: "to_status_code e = 404 \<longleftrightarrow> to_matrix_error_code e = ''M_NOT_FOUND''"
  by (cases e) auto

lemma server_error_unknown: "500 \<le> to_status_code e \<longleftrightarrow> to_matrix_error_code e = ''M_UNKNOWN''"
  by (cases e) auto

end
