(* ===== verification/State_Res.thy ===== *)
theory State_Res
  imports Entity "HOL-Library.Multiset"
begin

text \<open>
  State resolution, \<open>surrealdb/src/repository/state_resolution.rs\<close>: grouping of conflicted events
  by state key, the choice of an event per key, the auth chain of the result and its validation.
  Reads of the event and room tables are functions on a snapshot. The groups are listed in the
  order their keys first occur, which stands for the unspecified iteration order of the hash map.
  The recursion over auth events carries fuel; \<open>None\<close> is running out of it, and enough fuel is the
  number of stored events plus one.
\<close>

datatype state_resolution_error =
    SR_DatabaseError repository_error
  | SR_InvalidStateEvent string
  | SR_CircularDependency
  | SR_MissingAuthEvent string
  | SR_InvalidAuthorization string

type_synonym skey = "string \<times> string"
type_synonym event_store = "string \<Rightarrow> repository_error + event option"

record resolved_state =
  rs_state_events :: "skey \<rightharpoonup> event"
  rs_auth_chain :: "event list"
  rs_rejected_events :: "event list"
  rs_soft_failed_events :: "event list"

definition state_key_of :: "event \<Rightarrow> skey option" where
  "state_key_of e = map_option (Pair (ev_event_type e)) (ev_state_key e)"

section \<open>Choosing an event per state key\<close>

definition validate_event_for_resolution :: "event \<Rightarrow> bool" where
  "validate_event_for_resolution e =
     (if ev_event_id e = [] \<or> \<not> starts_with (ev_event_id e) CHR ''$'' then False
      else if ev_room_id e = [] \<or> \<not> starts_with (ev_room_id e) CHR ''!'' then False
      else if ev_sender e = [] \<or> \<not> starts_with (ev_sender e) CHR ''@'' \<or>
              \<not> contains (ev_sender e) CHR '':'' then False
      else if ev_state_key e = None then False
      else if content_is_null (ev_content e) then False
      else if ev_event_type e = ''m.room.member''
      then (case content_as_object (ev_content e) of
              None \<Rightarrow> False
            | Some content \<Rightarrow> get_str content ''membership'' \<noteq> None)
      else if ev_event_type e = ''m.room.power_levels'' then content_is_object (ev_content e)
      else True)"

definition membership_of :: "event \<Rightarrow> string option" where
  "membership_of e = Option.bind (content_as_object (ev_content e)) (\<lambda>c. get_str c ''membership'')"

text \<open>Stable sort, newest first.\<close>

definition newest_first :: "event list \<Rightarrow> event list" where
  "newest_first es = sort_key (\<lambda>e. - ev_origin_server_ts e) es"

definition first_of :: "string \<Rightarrow> event list \<Rightarrow> state_resolution_error + event" where
  "first_of reason es = (case es of [] \<Rightarrow> Inl (SR_InvalidStateEvent reason) | e # _ \<Rightarrow> Inr e)"

definition resolve_membership_conflict ::
  "string \<Rightarrow> event list \<Rightarrow> state_resolution_error + event" where
  "resolve_membership_conflict room_id conflicting =
     bindR (for_each (\<lambda>e. ensure (ev_room_id e = room_id)
              (SR_InvalidStateEvent (''Event '' @ ev_event_id e @ '' room mismatch: expected '' @
                 room_id @ '', got '' @ ev_room_id e))) conflicting) (\<lambda>_.
     case find (\<lambda>e. membership_of e = Some ''ban'') conflicting of
       Some ban \<Rightarrow> Inr ban
     | None \<Rightarrow> first_of ''Empty conflicting events collection'' (newest_first conflicting))"

definition resolve_state_key_conflict ::
  "string \<Rightarrow> event list \<Rightarrow> state_resolution_error + event" where
  "resolve_state_key_conflict room_id conflicting =
     (if length conflicting \<le> 1 then first_of ''Empty conflict set'' conflicting
      else let sorted_events = newest_first conflicting in
           if sorted_events \<noteq> [] \<and> ev_event_type (hd sorted_events) = ''m.room.member''
           then resolve_membership_conflict room_id sorted_events
           else first_of ''Empty sorted events collection'' sorted_events)"

definition resolve_state_key_conflict_with_tracking ::
  "string \<Rightarrow> event list \<Rightarrow> state_resolution_error + event \<times> event list \<times> event list" where
  "resolve_state_key_conflict_with_tracking room_id conflicting =
     (let valid_events = filter validate_event_for_resolution conflicting;
          rejected = filter (\<lambda>e. \<not> validate_event_for_resolution e) conflicting
      in if valid_events = []
         then Inl (SR_InvalidStateEvent ''No valid events remaining after filtering'')
         else if length valid_events = 1
         then bindR (first_of ''Empty valid events collection'' valid_events) (\<lambda>e. Inr (e, rejected, []))
         else bindR (resolve_state_key_conflict room_id valid_events) (\<lambda>resolved.
              Inr (resolved, rejected, filter (\<lambda>e. ev_event_id e \<noteq> ev_event_id resolved) valid_events)))"

text \<open>The two ways a group is resolved: alone, or against the other events of its key.\<close>

definition resolve_group ::
  "string \<Rightarrow> event list \<Rightarrow> state_resolution_error + event \<times> event list \<times> event list" where
  "resolve_group room_id events =
     (if length events = 1
      then bindR (first_of ''Empty state event collection'' events) (\<lambda>e. Inr (e, [], []))
      else resolve_state_key_conflict_with_tracking room_id events)"

fun push_group :: "skey \<Rightarrow> event \<Rightarrow> (skey \<times> event list) list \<Rightarrow> (skey \<times> event list) list" where
  "push_group k e [] = [(k, [e])]"
| "push_group k e ((k', es) # gs) =
     (if k' = k then (k', es @ [e]) # gs else (k', es) # push_group k e gs)"

definition state_groups :: "event list \<Rightarrow> (skey \<times> event list) list" where
  "state_groups events =
     foldl (\<lambda>gs e. case state_key_of e of None \<Rightarrow> gs | Some k \<Rightarrow> push_group k e gs) [] events"

section \<open>Auth chain\<close>

type_synonym chain_state = "event list \<times> string set"

fun collect_auth_chain ::
  "nat \<Rightarrow> event_store \<Rightarrow> string \<Rightarrow> string \<Rightarrow> chain_state \<Rightarrow> (state_resolution_error + chain_state) option"
and collect_auth_chains ::
  "nat \<Rightarrow> event_store \<Rightarrow> string \<Rightarrow> string list \<Rightarrow> chain_state \<Rightarrow> (state_resolution_error + chain_state) option"
where
  "collect_auth_chain 0 store room_id event_id acc = None"
| "collect_auth_chain (Suc n) store room_id event_id (chain, visited) =
     (if event_id \<in> visited then Some (Inr (chain, visited))
      else case store event_id of
             Inr (Some event) \<Rightarrow>
               if ev_room_id event \<noteq> room_id
               then Some (Inl (SR_InvalidAuthorization (''Auth event '' @ event_id @ '' belongs to wrong room'')))
               else (case collect_auth_chains n store room_id (unwrap_or [] (ev_auth_events event))
                            (chain, insert event_id visited) of
                       None \<Rightarrow> None
                     | Some (Inl e) \<Rightarrow> Some (Inl e)
                     | Some (Inr (chain', visited')) \<Rightarrow> Some (Inr (chain' @ [event], visited')))
           | _ \<Rightarrow> Some (Inr (chain, insert event_id visited)))"
| "collect_auth_chains n store room_id [] acc = Some (Inr acc)"
| "collect_auth_chains n store room_id (i # ids) acc =
     (case collect_auth_chain n store room_id i acc of
        None \<Rightarrow> None
      | Some (Inl e) \<Rightarrow> Some (Inl e)
      | Some (Inr acc') \<Rightarrow> collect_auth_chains n store room_id ids acc')"

text \<open>\<open>Vec::dedup_by\<close> keeps the first of each run of elements equal under the test.\<close>

fun dedup_by :: "('a \<Rightarrow> 'b) \<Rightarrow> 'a list \<Rightarrow> 'a list" where
  "dedup_by f (x # y # xs) = (if f x = f y then dedup_by f (x # xs) else x # dedup_by f (y # xs))"
| "dedup_by f xs = xs"

definition build_auth_chain ::
  "nat \<Rightarrow> event_store \<Rightarrow> string \<Rightarrow> string list \<Rightarrow> (state_resolution_error + event list) option" where
  "build_auth_chain n store room_id ids =
     map_option (\<lambda>r. bindR r (\<lambda>(chain, visited).
       Inr (dedup_by ev_event_id (sort_key ev_depth chain))))
     (collect_auth_chains n store room_id ids ([], {}))"

section \<open>Validation of the result\<close>

definition check_resolved_auth :: "string list \<Rightarrow> skey \<times> event \<Rightarrow> state_resolution_error + unit" where
  "check_resolved_auth auth_ids entry =
     (case entry of ((event_type, state_key), e) \<Rightarrow>
        bindR (case ev_state_key e of
                 Some k \<Rightarrow> ensure (k = state_key) (SR_InvalidStateEvent
                   (''State key mismatch for event '' @ ev_event_id e @ '': resolved as '' @ state_key @
                    '' but event has '' @ k))
               | None \<Rightarrow> ensure (state_key = []) (SR_InvalidStateEvent
                   (''Event '' @ ev_event_id e @ '' missing state_key but resolved state expects '' @ state_key))) (\<lambda>_.
        bindR (case ev_auth_events e of
                 None \<Rightarrow> Inr ()
               | Some ids \<Rightarrow> for_each (\<lambda>i. ensure (List.member auth_ids i) (SR_MissingAuthEvent
                   (''Auth event '' @ i @ '' for state event '' @ ev_event_id e @ '' not found in auth chain''))) ids) (\<lambda>_.
        ensure (\<not> (List.member [''m.room.member'', ''m.room.power_levels'', ''m.room.join_rules''] event_type \<and>
                   (ev_auth_events e = None \<or> ev_auth_events e = Some [])))
          (SR_InvalidStateEvent (''Event '' @ ev_event_id e @ '' of type '' @ event_type @
             '' missing required auth events'')))))"

definition check_resolved_entry :: "skey \<times> event \<Rightarrow> state_resolution_error + unit" where
  "check_resolved_entry entry =
     (case entry of ((event_type, state_key), e) \<Rightarrow>
        bindR (ensure (ev_event_type e = event_type) (SR_InvalidStateEvent
                 (''Event type mismatch: expected '' @ event_type @ '', got '' @ ev_event_type e))) (\<lambda>_.
        bindR (ensure (ev_state_key e = Some state_key)
                 (SR_InvalidStateEvent (''State key mismatch: expected '' @ state_key))) (\<lambda>_.
        ensure (\<not> content_is_null (ev_content e))
          (SR_InvalidStateEvent (''Event '' @ ev_event_id e @ '' has null content'')))))"

definition validate_resolved_state ::
  "(skey \<times> event) list \<Rightarrow> event list \<Rightarrow> state_resolution_error + unit" where
  "validate_resolved_state resolved auth_chain =
     bindR (for_each (check_resolved_auth (map ev_event_id auth_chain)) resolved) (\<lambda>_.
     for_each check_resolved_entry resolved)"

section \<open>The algorithm\<close>

text \<open>
  The loop over the groups: the resolved event of each key, then rejected and soft-failed events.
\<close>

fun resolve_groups ::
  "string \<Rightarrow> (skey \<times> event list) list \<Rightarrow>
   state_resolution_error + (skey \<times> event) list \<times> event list \<times> event list" where
  "resolve_groups room_id [] = Inr ([], [], [])"
| "resolve_groups room_id ((k, events) # gs) =
     bindR (resolve_group room_id events) (\<lambda>(e, rejected, soft_failed).
     bindR (resolve_groups room_id gs) (\<lambda>(state, rejected', soft_failed').
     Inr ((k, e) # state, rejected @ rejected', soft_failed @ soft_failed')))"

definition resolve_state_v2 ::
  "nat \<Rightarrow> (string \<Rightarrow> repository_error + room option) \<Rightarrow> event_store \<Rightarrow> string \<Rightarrow> event list \<Rightarrow>
   (state_resolution_error + resolved_state) option" where
  "resolve_state_v2 n room_by_id store room_id conflicted =
     (case bindR (map_err SR_DatabaseError (room_by_id room_id)) (\<lambda>room.
           bindR (ok_or room (SR_InvalidStateEvent (''Room '' @ room_id @ '' not found''))) (\<lambda>_.
           bindR (for_each (\<lambda>e. ensure (ev_room_id e = room_id) (SR_InvalidStateEvent
                    (''Event '' @ ev_event_id e @ '' belongs to room '' @ ev_room_id e @
                     '' but resolving for room '' @ room_id))) conflicted) (\<lambda>_.
           resolve_groups room_id (state_groups conflicted)))) of
        Inl e \<Rightarrow> Some (Inl e)
      | Inr (state, rejected, soft_failed) \<Rightarrow>
          map_option (\<lambda>r.
            bindR r (\<lambda>auth_chain.
            bindR (validate_resolved_state state auth_chain) (\<lambda>_.
            Inr \<lparr>rs_state_events = map_of state, rs_auth_chain = auth_chain,
                 rs_rejected_events = rejected, rs_soft_failed_events = soft_failed\<rparr>)))
          (build_auth_chain n store room_id
             (concat (remdups (List.map_filter (\<lambda>(k, e). ev_auth_events e) state)))))"

definition get_room_state ::
  "(string \<Rightarrow> repository_error + room option) \<Rightarrow> (string \<Rightarrow> repository_error + event list) \<Rightarrow> string \<Rightarrow>
   state_resolution_error + (skey \<rightharpoonup> event)" where
  "get_room_state room_by_id state_events room_id =
     bindR (map_err SR_DatabaseError (room_by_id room_id)) (\<lambda>room.
     bindR (ok_or room (SR_InvalidStateEvent (''Room '' @ room_id @ '' not found''))) (\<lambda>_.
     bindR (map_err SR_DatabaseError (state_events room_id)) (\<lambda>events.
     Inr (foldl (\<lambda>m e. case state_key_of e of None \<Rightarrow> m | Some k \<Rightarrow> m(k \<mapsto> e)) Map.empty events))))"

section \<open>Groups\<close>

lemma map_of_push_group:
  "map_of (push_group k e gs) k' =
     (if k' = k then Some (unwrap_or [] (map_of gs k) @ [e]) else map_of gs k')"
  by (induction k e gs rule: push_group.induct) auto

lemma keys_push_group: "set (map fst (push_group k e gs)) = insert k (set (map fst gs))"
  by (induction k e gs rule: push_group.induct) auto

lemma distinct_push_group:
  "distinct (map fst gs) \<Longrightarrow> distinct (map fst (push_group k e gs))"
  using keys_push_group by (induction k e gs rule: push_group.induct) fastforce+

lemma state_groups_snoc:
  "state_groups (es @ [e]) =
     (case state_key_of e of None \<Rightarrow> state_groups es | Some k \<Rightarrow> push_group k e (state_groups es))"
  by (simp add: state_groups_def cong: option.case_cong)

lemma distinct_state_groups: "distinct (map fst (state_groups es))"
proof (induction es rule: rev_induct)
  case Nil
  show ?case by (simp add: state_groups_def)
next
  case (snoc e es)
  then show ?case by (auto simp: state_groups_snoc distinct_push_group split: option.splits)
qed

text \<open>The group of a key holds the events of that key, in order.\<close>

lemma map_of_state_groups:
  "map_of (state_groups es) k =
     (let g = filter (\<lambda>e. state_key_of e = Some k) es in if g = [] then None else Some g)"
proof (induction es rule: rev_induct)
  case Nil
  show ?case by (simp add: state_groups_def)
next
  case (snoc e es)
  then show ?case
    by (cases "state_key_of e") (auto simp: state_groups_snoc map_of_push_group Let_def)
qed

lemma resolve_groups_keys:
  "resolve_groups r gs = Inr (state, rejected, soft) \<Longrightarrow> map fst state = map fst gs"
  by (induction r gs arbitrary: state rejected soft rule: resolve_groups.induct)
    (auto simp: result_simps)

lemma resolve_groups_lookup:
  "resolve_groups r gs = Inr (state, rejected, soft) \<Longrightarrow>
     (case map_of gs k of
        None \<Rightarrow> map_of state k = None
      | Some g \<Rightarrow> \<exists>e rj sf. map_of state k = Some e \<and> resolve_group r g = Inr (e, rj, sf))"
proof (induction r gs arbitrary: state rejected soft rule: resolve_groups.induct)
  case (1 r)
  then show ?case by simp
next
  case (2 r k' events gs)
  from "2.prems" obtain e rj sf st rj' sf' where
    g: "resolve_group r events = Inr (e, rj, sf)" and
    rest: "resolve_groups r gs = Inr (st, rj', sf')" and
    state: "state = (k', e) # st"
    by (auto simp: result_simps)
  show ?case
  proof (cases "k' = k")
    case True
    then show ?thesis using g state by simp
  next
    case False
    then show ?thesis using "2.IH" [OF rest] state by (simp split: option.splits)
  qed
qed

section \<open>The choice does not depend on the order of events\<close>

lemma newest_first_unique:
  assumes "mset xs = mset ys" "distinct xs" "inj_on ev_origin_server_ts (set xs)"
  shows "newest_first xs = newest_first ys"
proof -
  let ?f = "\<lambda>e. - ev_origin_server_ts e"
  have set: "set ys = set xs" using assms(1) by (metis set_mset_mset)
  have d: "distinct ys" using assms(1,2) by (metis mset_eq_imp_distinct_iff)
  have inj: "inj_on ?f (set xs)" using assms(3) by (simp add: inj_on_def)
  show ?thesis
    unfolding newest_first_def
  proof (rule map_sorted_distinct_set_unique [of ?f])
    show "inj_on ?f (set (sort_key ?f xs) \<union> set (sort_key ?f ys))" using inj set by simp
    show "distinct (map ?f (sort_key ?f xs))" using assms(2) inj by (simp add: distinct_map)
    show "distinct (map ?f (sort_key ?f ys))" using d inj set by (simp add: distinct_map)
  qed (simp_all add: set)
qed

lemma mset_singleton_eq: "mset xs = mset ys \<Longrightarrow> length xs \<le> 1 \<Longrightarrow> xs = ys"
proof -
  assume eq: "mset xs = mset ys" and "length xs \<le> 1"
  then consider "xs = []" | x where "xs = [x]" by (cases xs) auto
  then show "xs = ys"
  proof cases
    case 1
    then show ?thesis using eq by simp
  next
    case (2 x)
    then have "mset ys = {#x#}" using eq by simp
    then show ?thesis using 2 by (metis mset_single_iff_right)
  qed
qed

lemma resolve_conflict_perm:
  assumes "mset xs = mset ys" "distinct xs" "inj_on ev_origin_server_ts (set xs)"
  shows "resolve_state_key_conflict r xs = resolve_state_key_conflict r ys"
proof -
  have len: "length xs = length ys" using assms(1) by (metis size_mset)
  have nf: "newest_first xs = newest_first ys" using assms by (rule newest_first_unique)
  show ?thesis
  proof (cases "length xs \<le> 1")
    case True
    then show ?thesis using mset_singleton_eq [OF assms(1)] by simp
  next
    case False
    then show ?thesis using len nf by (simp add: resolve_state_key_conflict_def)
  qed
qed

lemma resolve_group_perm:
  assumes "mset xs = mset ys" "distinct xs" "inj_on ev_origin_server_ts (set xs)"
    and "resolve_group r xs = Inr (e, rj, sf)" "resolve_group r ys = Inr (e', rj', sf')"
  shows "e = e'"
proof -
  let ?v = "filter validate_event_for_resolution"
  have len: "length xs = length ys" using assms(1) by (metis size_mset)
  have v: "mset (?v xs) = mset (?v ys)" "distinct (?v xs)" "inj_on ev_origin_server_ts (set (?v xs))"
    using assms(1-3) by (auto simp: inj_on_def)
  have lv: "length (?v xs) = length (?v ys)" using v(1) by (metis size_mset)
  have single: "?v xs = ?v ys" if "length (?v xs) = 1" using that mset_singleton_eq [OF v(1)] by simp
  show ?thesis
  proof (cases "length xs = 1")
    case True
    then show ?thesis using mset_singleton_eq [OF assms(1)] assms(4,5) by simp
  next
    case False
    then show ?thesis
      using len lv single assms(4,5) resolve_conflict_perm [OF v, of r]
      by (auto simp: resolve_group_def resolve_state_key_conflict_with_tracking_def Let_def
          result_simps split: if_splits)
  qed
qed

lemma resolve_groups_perm:
  assumes "mset xs = mset ys" "distinct xs"
    and "\<And>k. inj_on ev_origin_server_ts {e \<in> set xs. state_key_of e = Some k}"
    and "resolve_groups r (state_groups xs) = Inr (st, rj, sf)"
    and "resolve_groups r (state_groups ys) = Inr (st', rj', sf')"
  shows "map_of st = map_of st'"
proof
  fix k
  let ?g = "\<lambda>es. filter (\<lambda>e. state_key_of e = Some k) es"
  have g: "mset (?g xs) = mset (?g ys)" "distinct (?g xs)" "inj_on ev_origin_server_ts (set (?g xs))"
    using assms(1,2) assms(3) [of k] by auto
  have empty: "?g xs = [] \<longleftrightarrow> ?g ys = []" using g(1) by (metis mset_zero_iff)
  show "map_of st k = map_of st' k"
  proof (cases "?g xs = []")
    case True
    then show ?thesis
      using resolve_groups_lookup [OF assms(4), of k] resolve_groups_lookup [OF assms(5), of k] empty
      by (simp add: map_of_state_groups Let_def)
  next
    case False
    then obtain e a b e' a' b' where
      "map_of st k = Some e" "resolve_group r (?g xs) = Inr (e, a, b)"
      "map_of st' k = Some e'" "resolve_group r (?g ys) = Inr (e', a', b')"
      using resolve_groups_lookup [OF assms(4), of k] resolve_groups_lookup [OF assms(5), of k] empty
      by (auto simp: map_of_state_groups Let_def)
    then show ?thesis using resolve_group_perm [OF g, of r e a b e' a' b'] by simp
  qed
qed

section \<open>Auth chains\<close>

abbreviation auths :: "event \<Rightarrow> string set" where
  "auths e \<equiv> set (unwrap_or [] (ev_auth_events e))"

inductive_set reach :: "event_store \<Rightarrow> string set \<Rightarrow> string set" for store roots where
  root: "i \<in> roots \<Longrightarrow> i \<in> reach store roots"
| step: "i \<in> reach store roots \<Longrightarrow> store i = Inr (Some e) \<Longrightarrow> j \<in> auths e \<Longrightarrow> j \<in> reach store roots"

definition stored :: "event_store \<Rightarrow> string set \<Rightarrow> event set" where
  "stored store V = {e. \<exists>x \<in> V. store x = Inr (Some e)}"

lemma reach_mono: "A \<subseteq> B \<Longrightarrow> reach store A \<subseteq> reach store B"
proof
  fix x assume "A \<subseteq> B" "x \<in> reach store A"
  show "x \<in> reach store B"
    using \<open>x \<in> reach store A\<close> \<open>A \<subseteq> B\<close> by induction (auto intro: reach.intros)
qed

lemma reach_step: "store i = Inr (Some e) \<Longrightarrow> x \<in> reach store (auths e) \<Longrightarrow> x \<in> reach store {i}"
proof -
  assume i: "store i = Inr (Some e)" and "x \<in> reach store (auths e)"
  from this(2) show "x \<in> reach store {i}"
  proof induction
    case (root j)
    have "i \<in> reach store {i}" by (simp add: reach.root)
    then show ?case using i root by (rule reach.step)
  qed (auto intro: reach.step)
qed

lemma reach_closed:
  assumes "roots \<subseteq> V" and "\<And>x e. x \<in> V \<Longrightarrow> store x = Inr (Some e) \<Longrightarrow> auths e \<subseteq> V"
  shows "reach store roots \<subseteq> V"
proof
  fix x assume "x \<in> reach store roots"
  then show "x \<in> V" using assms by induction auto
qed

text \<open>An event store returns events under their own identifier, as the event table does.\<close>

locale event_table =
  fixes store :: event_store
  assumes own_id: "store i = Inr (Some e) \<Longrightarrow> ev_event_id e = i"
begin

text \<open>What a traversal from some roots adds to the visited set and to the chain.\<close>

definition traversed :: "string \<Rightarrow> string set \<Rightarrow> chain_state \<Rightarrow> chain_state \<Rightarrow> bool" where
  "traversed r roots a b \<longleftrightarrow>
     (case (a, b) of ((c, V), (c', V')) \<Rightarrow>
        V \<subseteq> V' \<and> roots \<subseteq> V' \<and> V' \<subseteq> V \<union> reach store roots \<and>
        (\<forall>x \<in> V' - V. \<forall>e. store x = Inr (Some e) \<longrightarrow> ev_room_id e = r \<and> auths e \<subseteq> V') \<and>
        (\<exists>d. c' = c @ d \<and> set d = stored store (V' - V) \<and> distinct (map ev_event_id d)))"

lemma traversed_refl: "roots \<subseteq> V \<Longrightarrow> traversed r roots (c, V) (c, V)"
  by (auto simp: traversed_def stored_def)

lemma traversed_missing:
  "i \<notin> V \<Longrightarrow> (\<nexists>e. store i = Inr (Some e)) \<Longrightarrow> traversed r {i} (c, V) (c, insert i V)"
  by (auto simp: traversed_def stored_def intro: reach.root)

lemma stored_ids: "ev_event_id ` stored store V \<subseteq> V"
  using own_id by (auto simp: stored_def)

lemma traversed_node:
  assumes i: "i \<notin> V" "store i = Inr (Some e)" "ev_room_id e = r"
    and t: "traversed r (auths e) (c, insert i V) (c', V')"
  shows "traversed r {i} (c, V) (c' @ [e], V')"
proof -
  from t obtain d where d: "c' = c @ d" "set d = stored store (V' - insert i V)"
    "distinct (map ev_event_id d)" and sub: "insert i V \<subseteq> V'" "auths e \<subseteq> V'"
    "V' \<subseteq> insert i V \<union> reach store (auths e)"
    and closed: "\<forall>x \<in> V' - insert i V. \<forall>e. store x = Inr (Some e) \<longrightarrow> ev_room_id e = r \<and> auths e \<subseteq> V'"
    by (auto simp: traversed_def)
  have "set (d @ [e]) = stored store (V' - V)"
    using d(2) i sub(1) by (auto simp: stored_def)
  moreover have "distinct (map ev_event_id (d @ [e]))"
  proof -
    have "ev_event_id ` set d \<subseteq> V' - insert i V" using d(2) stored_ids by simp
    then have "ev_event_id e \<notin> ev_event_id ` set d" using own_id [OF i(2)] by blast
    then show ?thesis using d(3) by simp
  qed
  moreover have "V' \<subseteq> V \<union> reach store {i}"
    using sub(3) reach_step [of store i e] i(2) by (auto intro: reach.root)
  moreover have "ev_room_id f = r \<and> auths f \<subseteq> V'" if "x \<in> V' - V" "store x = Inr (Some f)" for x f
  proof (cases "x = i")
    case True
    then show ?thesis using that(2) i(2,3) sub(2) by simp
  next
    case False
    then have "x \<in> V' - insert i V" using that(1) by blast
    then show ?thesis using closed that(2) by blast
  qed
  ultimately show ?thesis using d(1) sub(1) by (simp add: traversed_def)
qed

lemma traversed_trans:
  assumes "traversed r A (c, V) (c1, V1)" and "traversed r B (c1, V1) (c2, V2)"
  shows "traversed r (A \<union> B) (c, V) (c2, V2)"
proof -
  from assms obtain d1 d2 where
    d1: "c1 = c @ d1" "set d1 = stored store (V1 - V)" "distinct (map ev_event_id d1)" and
    d2: "c2 = c1 @ d2" "set d2 = stored store (V2 - V1)" "distinct (map ev_event_id d2)" and
    sub: "V \<subseteq> V1" "V1 \<subseteq> V2" "A \<subseteq> V1" "B \<subseteq> V2" "V1 \<subseteq> V \<union> reach store A" "V2 \<subseteq> V1 \<union> reach store B" and
    closed: "\<forall>x \<in> V1 - V. \<forall>e. store x = Inr (Some e) \<longrightarrow> ev_room_id e = r \<and> auths e \<subseteq> V1"
      "\<forall>x \<in> V2 - V1. \<forall>e. store x = Inr (Some e) \<longrightarrow> ev_room_id e = r \<and> auths e \<subseteq> V2"
    by (auto simp: traversed_def)
  have "set (d1 @ d2) = stored store (V2 - V)"
    using d1(2) d2(2) sub(1,2) by (auto simp: stored_def)
  moreover have "ev_event_id ` set d1 \<inter> ev_event_id ` set d2 = {}"
    using stored_ids [of "V1 - V"] stored_ids [of "V2 - V1"] unfolding d1(2) d2(2) by blast
  moreover have "V2 \<subseteq> V \<union> reach store (A \<union> B)"
    using sub(5,6) reach_mono [of A "A \<union> B" store] reach_mono [of B "A \<union> B" store] by auto
  moreover have "\<forall>x \<in> V2 - V. \<forall>e. store x = Inr (Some e) \<longrightarrow> ev_room_id e = r \<and> auths e \<subseteq> V2"
    using closed sub(2) by blast
  ultimately show ?thesis using d1 d2 sub by (auto simp: traversed_def)
qed

lemma collect_traversed:
  "collect_auth_chain n st r i acc = Some (Inr acc') \<Longrightarrow> st = store \<Longrightarrow> traversed r {i} acc acc'"
  "collect_auth_chains n st r ids acc = Some (Inr acc') \<Longrightarrow> st = store \<Longrightarrow> traversed r (set ids) acc acc'"
proof (induction n st r i acc and n st r ids acc arbitrary: acc' and acc'
    rule: collect_auth_chain_collect_auth_chains.induct)
  case (1 st r i acc)
  then show ?case by simp
next
  case (2 n st r i chain visited)
  show ?case
  proof (cases "i \<in> visited")
    case True
    then show ?thesis using 2 by (auto intro: traversed_refl)
  next
    case new: False
    show ?thesis
    proof (cases "\<exists>e. store i = Inr (Some e)")
      case False
      then have "acc' = (chain, insert i visited)"
        using "2.prems" new by (auto split: sum.splits option.splits)
      then show ?thesis using False new by (auto intro: traversed_missing)
    next
      case True
      then obtain e where e: "store i = Inr (Some e)" by blast
      with "2.prems" new have room: "ev_room_id e = r"
        by (auto split: if_splits)
      with "2.prems" new e obtain c V where
        c: "collect_auth_chains n store r (unwrap_or [] (ev_auth_events e)) (chain, insert i visited) =
            Some (Inr (c, V))" and acc': "acc' = (c @ [e], V)"
        by (auto split: option.splits sum.splits)
      have "traversed r (auths e) (chain, insert i visited) (c, V)"
        using "2.IH" [of "Some e" e] new e room c "2.prems"(2) by auto
      then show ?thesis using new e room acc' traversed_node by auto
    qed
  qed
next
  case (3 n st r acc)
  then show ?case by (cases acc) (auto intro: traversed_refl)
next
  case (4 n st r i ids acc)
  then obtain acc1 where 1: "collect_auth_chain n st r i acc = Some (Inr acc1)"
    and 2: "collect_auth_chains n st r ids acc1 = Some (Inr acc')"
    by (auto split: option.splits sum.splits)
  have "traversed r {i} acc acc1" "traversed r (set ids) acc1 acc'"
    using "4.IH" 1 2 "4.prems"(2) by auto
  then show ?case using traversed_trans [of r "{i}" "fst acc" "snd acc" "fst acc1" "snd acc1"]
    by (cases acc; cases acc1; cases acc') auto
qed

text \<open>The chain of some roots: the stored events that can be reached, each once.\<close>

lemma collect_reachable:
  assumes "collect_auth_chains n store r ids ([], {}) = Some (Inr (c, V))"
  shows "V = reach store (set ids) \<and> set c = stored store (reach store (set ids)) \<and>
         distinct (map ev_event_id c) \<and> (\<forall>e \<in> set c. ev_room_id e = r)"
proof -
  have t: "traversed r (set ids) ([], {}) (c, V)"
    using assms by (rule collect_traversed(2)) simp
  then have sub: "V \<subseteq> reach store (set ids)" "set ids \<subseteq> V" and c: "set c = stored store V"
    and closed: "\<forall>x \<in> V. \<forall>e. store x = Inr (Some e) \<longrightarrow> ev_room_id e = r \<and> auths e \<subseteq> V"
    and d: "distinct (map ev_event_id c)"
    by (auto simp: traversed_def)
  have "reach store (set ids) \<subseteq> V" using sub(2) closed by (intro reach_closed) auto
  with sub(1) have "V = reach store (set ids)" by blast
  then show ?thesis using c closed d by (auto simp: stored_def)
qed

end

text \<open>
  \<open>EventRepository::get_by_id\<close> on a snapshot of the event table, where events are stored under
  their identifier.
\<close>

definition get_by_id :: "event list \<Rightarrow> event_store" where
  "get_by_id table event_id = Inr (find (\<lambda>e. ev_event_id e = event_id) table)"

interpretation snapshot: event_table "get_by_id table" for table
  by unfold_locales (auto simp: get_by_id_def find_Some_iff)

lemma get_by_id_finite: "finite {x. \<exists>e. get_by_id table x = Inr (Some e)}"
  "card {x. \<exists>e. get_by_id table x = Inr (Some e)} \<le> length table"
proof -
  have sub: "{x. \<exists>e. get_by_id table x = Inr (Some e)} \<subseteq> ev_event_id ` set table"
    by (auto simp: get_by_id_def find_Some_iff)
  then show "finite {x. \<exists>e. get_by_id table x = Inr (Some e)}" by (rule finite_subset) simp
  have "card {x. \<exists>e. get_by_id table x = Inr (Some e)} \<le> card (ev_event_id ` set table)"
    using sub by (rule card_mono [rotated]) simp
  also have "\<dots> \<le> card (set table)" by (rule card_image_le) simp
  also have "\<dots> \<le> length table" by (rule card_length)
  finally show "card {x. \<exists>e. get_by_id table x = Inr (Some e)} \<le> length table" .
qed

lemma collect_grows:
  "collect_auth_chain n st r i acc = Some (Inr acc') \<Longrightarrow> snd acc \<subseteq> snd acc'"
  "collect_auth_chains n st r ids acc = Some (Inr acc') \<Longrightarrow> snd acc \<subseteq> snd acc'"
proof (induction n st r i acc and n st r ids acc arbitrary: acc' and acc'
    rule: collect_auth_chain_collect_auth_chains.induct)
  case (2 n st r i chain visited)
  show ?case
  proof (cases "i \<in> visited \<or> (\<nexists>e. st i = Inr (Some e))")
    case True
    then show ?thesis using "2.prems" by (auto split: if_splits sum.splits option.splits)
  next
    case False
    then obtain e where e: "i \<notin> visited" "st i = Inr (Some e)" by blast
    with "2.prems" obtain c V where room: "ev_room_id e = r" and
      c: "collect_auth_chains n st r (unwrap_or [] (ev_auth_events e)) (chain, insert i visited) =
          Some (Inr (c, V))" and acc': "acc' = (c @ [e], V)"
      by (auto split: if_splits option.splits sum.splits)
    have "insert i visited \<subseteq> V" using "2.IH" [of "Some e" e] e room c by auto
    then show ?thesis using acc' by auto
  qed
next
  case (4 n st r i ids acc)
  then obtain acc1 where 1: "collect_auth_chain n st r i acc = Some (Inr acc1)"
    and 2: "collect_auth_chains n st r ids acc1 = Some (Inr acc')"
    by (auto split: option.splits sum.splits)
  have "snd acc \<subseteq> snd acc1" "snd acc1 \<subseteq> snd acc'" using "4.IH" 1 2 by auto
  then show ?case by blast
qed auto

text \<open>More fuel than stored events is enough: every nested call visits a new stored event.\<close>

lemma collect_enough_fuel:
  "finite S \<Longrightarrow> S = {x. \<exists>e. st x = Inr (Some e)} \<Longrightarrow> card (S - snd acc) < n \<Longrightarrow>
     collect_auth_chain n st r i acc \<noteq> None"
  "finite S \<Longrightarrow> S = {x. \<exists>e. st x = Inr (Some e)} \<Longrightarrow> card (S - snd acc) < n \<Longrightarrow>
     collect_auth_chains n st r ids acc \<noteq> None"
proof (induction n st r i acc and n st r ids acc
    rule: collect_auth_chain_collect_auth_chains.induct)
  case (2 n st r i chain visited)
  show ?case
  proof (cases "i \<notin> visited \<and> (\<exists>e. st i = Inr (Some e) \<and> ev_room_id e = r)")
    case False
    then show ?thesis by (auto split: sum.splits option.splits)
  next
    case True
    then obtain e where e: "i \<notin> visited" "st i = Inr (Some e)" "ev_room_id e = r" by blast
    then have "i \<in> S - visited" using "2.prems"(2) by simp
    then have "card (S - visited - {i}) < card (S - visited)"
      using "2.prems"(1) by (intro card_Diff1_less) auto
    moreover have "S - insert i visited = S - visited - {i}" by auto
    ultimately have "card (S - insert i visited) < n" using "2.prems"(3) by simp
    then have "collect_auth_chains n st r (unwrap_or [] (ev_auth_events e)) (chain, insert i visited) \<noteq> None"
      using "2.IH" [of "Some e" e] e "2.prems" by simp
    then show ?thesis using e by (auto split: sum.splits)
  qed
next
  case (4 n st r i ids acc)
  have "collect_auth_chain n st r i acc \<noteq> None" using 4 by auto
  moreover have "collect_auth_chains n st r ids acc' \<noteq> None"
    if acc': "collect_auth_chain n st r i acc = Some (Inr acc')" for acc'
  proof -
    have "card (S - snd acc') \<le> card (S - snd acc)"
      using collect_grows(1) [OF acc'] "4.prems"(1) by (intro card_mono) auto
    then show ?thesis using "4.IH"(2) [OF acc' refl] "4.prems" acc' by auto
  qed
  ultimately show ?case by (auto split: sum.splits)
qed auto

lemma resolution_returns:
  assumes "length table < n"
  shows "resolve_state_v2 n rooms (get_by_id table) r xs \<noteq> None"
proof -
  have "collect_auth_chains n (get_by_id table) r ids ([], {}) \<noteq> None" for ids
    using get_by_id_finite [of table] assms
    by (intro collect_enough_fuel(2) [where S = "{x. \<exists>e. get_by_id table x = Inr (Some e)}"]) auto
  then show ?thesis
    by (auto simp: resolve_state_v2_def build_auth_chain_def split: sum.splits prod.splits)
qed

lemma dedup_by_distinct: "distinct (map f xs) \<Longrightarrow> dedup_by f xs = xs"
  by (induction f xs rule: dedup_by.induct) auto

section \<open>Which event wins\<close>

lemma newest_first_set: "set (newest_first es) = set es" "newest_first es = [] \<longleftrightarrow> es = []"
  by (auto simp: newest_first_def simp flip: set_empty)

lemma newest_first_sorted:
  "i \<le> j \<Longrightarrow> j < length (newest_first es) \<Longrightarrow>
     ev_origin_server_ts (newest_first es ! j) \<le> ev_origin_server_ts (newest_first es ! i)"
  using sorted_nth_mono [of "map (\<lambda>e. - ev_origin_server_ts e) (newest_first es)" i j]
  by (simp add: newest_first_def)

lemma find_newest:
  assumes "find P (newest_first es) = Some e"
  shows "e \<in> set es \<and> P e \<and> (\<forall>f \<in> set es. P f \<longrightarrow> ev_origin_server_ts f \<le> ev_origin_server_ts e)"
proof -
  from assms obtain i where i: "i < length (newest_first es)" "P (newest_first es ! i)"
    "e = newest_first es ! i" and first: "\<And>j. j < i \<Longrightarrow> \<not> P (newest_first es ! j)"
    by (auto simp: find_Some_iff)
  have "ev_origin_server_ts f \<le> ev_origin_server_ts e" if "f \<in> set es" "P f" for f
  proof -
    obtain j where j: "j < length (newest_first es)" "f = newest_first es ! j"
      using \<open>f \<in> set es\<close> newest_first_set(1) by (metis in_set_conv_nth)
    then have "i \<le> j" using first \<open>P f\<close> by (meson not_le)
    then show ?thesis using newest_first_sorted [of i j es] i(3) j by simp
  qed
  then show ?thesis using i newest_first_set(1) by (metis nth_mem)
qed

lemma first_newest:
  assumes "first_of s (newest_first es) = Inr e"
  shows "e \<in> set es \<and> (\<forall>f \<in> set es. ev_origin_server_ts f \<le> ev_origin_server_ts e)"
proof -
  have "find (\<lambda>_. True) (newest_first es) = Some e"
    using assms by (cases "newest_first es") (auto simp: first_of_def)
  from find_newest [OF this] show ?thesis by simp
qed

lemma newest_first_idem: "newest_first (newest_first es) = newest_first es"
  by (simp add: newest_first_def sort_key_id_if_sorted)

lemma conflict_winner:
  assumes r: "resolve_state_key_conflict r es = Inr e"
    and types: "\<forall>f \<in> set es. ev_event_type f = t"
  shows "e \<in> set es \<and>
    (t = ''m.room.member'' \<and> 2 \<le> length es \<and> (\<exists>f \<in> set es. membership_of f = Some ''ban'') \<longrightarrow>
       membership_of e = Some ''ban'') \<and>
    (\<forall>f \<in> set es. (membership_of f = Some ''ban'' \<or> \<not> (t = ''m.room.member'' \<and> membership_of e = Some ''ban''))
       \<longrightarrow> ev_origin_server_ts f \<le> ev_origin_server_ts e)"
proof (cases "length es \<le> 1")
  case True
  then have "es = [e]" using r
    by (cases es) (auto simp: resolve_state_key_conflict_def first_of_def)
  then show ?thesis by simp
next
  case False
  then have ne: "newest_first es \<noteq> []" using newest_first_set(2) [of es] by auto
  then have hd: "ev_event_type (hd (newest_first es)) = t"
    using types newest_first_set(1) by (metis hd_in_set)
  show ?thesis
  proof (cases "t = ''m.room.member''")
    case other: False
    then have "first_of ''Empty sorted events collection'' (newest_first es) = Inr e"
      using r False hd by (simp add: resolve_state_key_conflict_def Let_def)
    from first_newest [OF this] other show ?thesis by simp
  next
    case member: True
    then have m: "resolve_membership_conflict r (newest_first es) = Inr e"
      using r False hd ne by (simp add: resolve_state_key_conflict_def Let_def)
    show ?thesis
    proof (cases "find (\<lambda>e. membership_of e = Some ''ban'') (newest_first es)")
      case None
      then have "\<forall>f \<in> set es. membership_of f \<noteq> Some ''ban''"
        using newest_first_set(1) by (auto simp: find_None_iff)
      moreover have "first_of ''Empty conflicting events collection'' (newest_first es) = Inr e"
        using m None by (auto simp: resolve_membership_conflict_def result_simps newest_first_idem)
      ultimately show ?thesis using first_newest by blast
    next
      case (Some b)
      then have "b = e" using m by (auto simp: resolve_membership_conflict_def result_simps)
      with find_newest [OF Some] show ?thesis using member by auto
    qed
  qed
qed

section \<open>Claims\<close>

text \<open>
  C7. Convergence: when the conflicted events of a state key have different timestamps, the
  resolved state does not depend on the order in which the events are given.
\<close>

theorem resolution_order_independent:
  assumes "mset xs = mset ys" "distinct xs"
    and "\<And>k. inj_on ev_origin_server_ts {e \<in> set xs. state_key_of e = Some k}"
    and "resolve_state_v2 n rooms store r xs = Some (Inr a)"
    and "resolve_state_v2 n rooms store r ys = Some (Inr b)"
  shows "rs_state_events a = rs_state_events b"
proof -
  from assms(4) obtain st rj sf where x: "resolve_groups r (state_groups xs) = Inr (st, rj, sf)"
    "rs_state_events a = map_of st"
    by (auto simp: resolve_state_v2_def result_simps split: sum.splits)
  from assms(5) obtain st' rj' sf' where y: "resolve_groups r (state_groups ys) = Inr (st', rj', sf')"
    "rs_state_events b = map_of st'"
    by (auto simp: resolve_state_v2_def result_simps split: sum.splits)
  show ?thesis using resolve_groups_perm [OF assms(1-3) x(1) y(1)] x(2) y(2) by simp
qed

text \<open>
  With equal timestamps the first event given wins, so the order of arrival decides the
  resolved state.
\<close>

theorem resolution_tie_order_dependent:
  assumes "ev_origin_server_ts a = ev_origin_server_ts b"
    and "ev_event_type a \<noteq> ''m.room.member''" "ev_event_type b \<noteq> ''m.room.member''"
  shows "resolve_state_key_conflict r [a, b] = Inr a \<and> resolve_state_key_conflict r [b, a] = Inr b"
  using assms by (simp add: resolve_state_key_conflict_def newest_first_def first_of_def Let_def)

text \<open>
  The winner of a conflict is one of the events; for memberships a ban wins over everything
  else, and among the events that can win it is the newest.
\<close>

theorem resolution_winner:
  assumes "resolve_state_key_conflict r es = Inr e" and "\<forall>f \<in> set es. ev_event_type f = t"
  shows "e \<in> set es \<and>
    (t = ''m.room.member'' \<and> 2 \<le> length es \<and> (\<exists>f \<in> set es. membership_of f = Some ''ban'') \<longrightarrow>
       membership_of e = Some ''ban'') \<and>
    (\<forall>f \<in> set es. (membership_of f = Some ''ban'' \<or> \<not> (t = ''m.room.member'' \<and> membership_of e = Some ''ban''))
       \<longrightarrow> ev_origin_server_ts f \<le> ev_origin_server_ts e)"
  using assms by (rule conflict_winner)

text \<open>
  C8. The auth chain built over the event table consists of exactly the stored events that can be
  reached from the given identifiers through auth events, each once, all of the room, sorted by
  depth.
\<close>

theorem auth_chain_exact:
  assumes "build_auth_chain n (get_by_id table) r ids = Some (Inr chain)"
  shows "set chain = stored (get_by_id table) (reach (get_by_id table) (set ids)) \<and>
         distinct (map ev_event_id chain) \<and> (\<forall>e \<in> set chain. ev_room_id e = r) \<and>
         sorted (map ev_depth chain)"
proof -
  from assms obtain c V where c: "collect_auth_chains n (get_by_id table) r ids ([], {}) = Some (Inr (c, V))"
    and chain: "chain = dedup_by ev_event_id (sort_key ev_depth c)"
    by (auto simp: build_auth_chain_def result_simps)
  note reachable = snapshot.collect_reachable [OF c]
  then have "distinct (map ev_event_id c)" by blast
  then have "distinct (map ev_event_id (sort_key ev_depth c))" by (simp add: distinct_map)
  then have "chain = sort_key ev_depth c" using chain by (simp add: dedup_by_distinct)
  then show ?thesis using reachable \<open>distinct (map ev_event_id (sort_key ev_depth c))\<close> by simp
qed

text \<open>
  C9. Resolution always ends: with more fuel than there are stored events it returns a result or
  an error, even when auth events refer to each other in a cycle.
\<close>

theorem resolution_terminates:
  assumes "length table < n"
  shows "\<exists>result. resolve_state_v2 n rooms (get_by_id table) r xs = Some result"
  using resolution_returns [OF assms] by auto

text \<open>
  C10. Every event of a resolved state sits under its own type and state key, has content, and all
  its auth events are in the auth chain; member, power level and join rule events have some.
\<close>

theorem resolved_state_sound:
  assumes "resolve_state_v2 n rooms store r xs = Some (Inr a)" and "rs_state_events a k = Some e"
  shows "state_key_of e = Some k \<and> \<not> content_is_null (ev_content e) \<and>
         auths e \<subseteq> ev_event_id ` set (rs_auth_chain a) \<and>
         (fst k \<in> {''m.room.member'', ''m.room.power_levels'', ''m.room.join_rules''} \<longrightarrow> auths e \<noteq> {})"
proof -
  from assms(1) obtain st where v: "validate_resolved_state st (rs_auth_chain a) = Inr ()"
    and st: "rs_state_events a = map_of st"
    by (auto simp: resolve_state_v2_def result_simps split: sum.splits)
  have "(k, e) \<in> set st" using st assms(2) by (auto dest: map_of_SomeD)
  with v have "check_resolved_auth (map ev_event_id (rs_auth_chain a)) (k, e) = Inr ()"
    "check_resolved_entry (k, e) = Inr ()"
    by (auto simp: validate_resolved_state_def result_simps)
  then show ?thesis
    by (cases k) (auto simp: check_resolved_auth_def check_resolved_entry_def result_simps
        state_key_of_def split: option.splits)
qed

section \<open>Witnesses\<close>

definition name_event :: "string \<Rightarrow> int \<Rightarrow> string list \<Rightarrow> event" where
  "name_event event_id ts auth =
     (new_event event_id ''@u:x'' ts ''m.room.name'' ''!r:x'' (Unknown (JObject [])))
     \<lparr>ev_state_key := Some [], ev_auth_events := Some auth\<rparr>"

definition demo_rooms :: "string \<Rightarrow> repository_error + room option" where
  "demo_rooms r = Inr (Some (new_room 0 0 r ''9'' ''@u:x''))"

text \<open>A table with a cycle of auth events.\<close>

definition demo_table :: "event list" where
  "demo_table = [name_event ''$1'' 1 [''$2''], name_event ''$2'' 2 [''$1'']]"

lemmas resolution_eval = resolve_state_v2_def demo_rooms_def state_groups_def state_key_of_def
  resolve_group_def resolve_state_key_conflict_with_tracking_def validate_event_for_resolution_def
  content_is_null_def resolve_state_key_conflict_def newest_first_def first_of_def
  build_auth_chain_def get_by_id_def validate_resolved_state_def check_resolved_auth_def
  check_resolved_entry_def ensure_def map_filter_simps name_event_def new_event_def demo_table_def

lemma demo_resolves:
  "\<exists>a. resolve_state_v2 3 demo_rooms (get_by_id demo_table) ''!r:x''
      [name_event ''$a'' 5 [''$1''], name_event ''$b'' 7 []] = Some (Inr a)"
  "\<exists>a. resolve_state_v2 3 demo_rooms (get_by_id demo_table) ''!r:x''
      [name_event ''$b'' 7 [], name_event ''$a'' 5 [''$1'']] = Some (Inr a)"
  by (simp_all add: resolution_eval Let_def)

theorem resolution_order_independent_witness:
  "\<exists>a b. resolve_state_v2 3 demo_rooms (get_by_id demo_table) ''!r:x''
      [name_event ''$a'' 5 [''$1''], name_event ''$b'' 7 []] = Some (Inr a) \<and>
    resolve_state_v2 3 demo_rooms (get_by_id demo_table) ''!r:x''
      [name_event ''$b'' 7 [], name_event ''$a'' 5 [''$1'']] = Some (Inr b) \<and>
    rs_state_events a = rs_state_events b"
proof -
  obtain a b where ab: "resolve_state_v2 3 demo_rooms (get_by_id demo_table) ''!r:x''
      [name_event ''$a'' 5 [''$1''], name_event ''$b'' 7 []] = Some (Inr a)"
    "resolve_state_v2 3 demo_rooms (get_by_id demo_table) ''!r:x''
      [name_event ''$b'' 7 [], name_event ''$a'' 5 [''$1'']] = Some (Inr b)"
    using demo_resolves by blast
  have "rs_state_events a = rs_state_events b"
    by (rule resolution_order_independent [OF _ _ _ ab])
      (auto simp: inj_on_def name_event_def new_event_def)
  with ab show ?thesis by blast
qed

theorem resolution_tie_order_dependent_witness:
  "resolve_state_key_conflict ''!r:x'' [name_event ''$a'' 5 [], name_event ''$b'' 5 []] \<noteq>
   resolve_state_key_conflict ''!r:x'' [name_event ''$b'' 5 [], name_event ''$a'' 5 []]"
  using resolution_tie_order_dependent [of "name_event ''$a'' 5 []" "name_event ''$b'' 5 []" "''!r:x''"]
  by (simp add: name_event_def new_event_def)

theorem resolution_winner_witness:
  "ev_origin_server_ts (name_event ''$a'' 5 []) \<le> ev_origin_server_ts (name_event ''$b'' 7 [])"
proof -
  have "resolve_state_key_conflict ''!r:x'' [name_event ''$a'' 5 [], name_event ''$b'' 7 []] =
      Inr (name_event ''$b'' 7 [])"
    by (simp add: resolution_eval Let_def)
  from resolution_winner [OF this, of "''m.room.name''"] show ?thesis
    by (simp add: name_event_def new_event_def)
qed

theorem auth_chain_exact_witness:
  "\<exists>chain. build_auth_chain 3 (get_by_id demo_table) ''!r:x'' [''$1''] = Some (Inr chain) \<and>
     set chain = stored (get_by_id demo_table) (reach (get_by_id demo_table) {''$1''})"
proof -
  have "\<exists>chain. build_auth_chain 3 (get_by_id demo_table) ''!r:x'' [''$1''] = Some (Inr chain)"
    by (simp add: resolution_eval numeral_3_eq_3)
  then show ?thesis using auth_chain_exact by fastforce
qed

theorem resolution_terminates_witness:
  "\<exists>result. resolve_state_v2 3 demo_rooms (get_by_id demo_table) ''!r:x'' demo_table = Some result"
  by (rule resolution_terminates) (simp add: demo_table_def)

theorem resolved_state_sound_witness:
  "\<exists>a e. resolve_state_v2 3 demo_rooms (get_by_id demo_table) ''!r:x''
      [name_event ''$a'' 5 [''$1''], name_event ''$b'' 7 []] = Some (Inr a) \<and>
    rs_state_events a (''m.room.name'', []) = Some e \<and> auths e \<subseteq> ev_event_id ` set (rs_auth_chain a)"
proof -
  have "\<exists>a e. resolve_state_v2 3 demo_rooms (get_by_id demo_table) ''!r:x''
      [name_event ''$a'' 5 [''$1''], name_event ''$b'' 7 []] = Some (Inr a) \<and>
    rs_state_events a (''m.room.name'', []) = Some e"
    by (simp add: resolution_eval Let_def)
  then show ?thesis using resolved_state_sound by blast
qed

end
