(* ===== verification/Membership_Validation.thy ===== *)
theory Membership_Validation
  imports Membership_Errors Membership_Machine State_Res
begin

text \<open>
  The validation of membership changes of local clients, \<open>server/src/room/membership_validation.rs\<close>:
  the form of the event, conflicting events and their resolution, the consistency queries, the table
  of transitions and the special cases. Reads of the database are the record \<open>member_world\<close>; a
  query fails when it is run or when its answer is decoded. Conflict resolution calls
  \<open>State_Res\<close>, whose recursion takes fuel, so the operations above it have an optional result.
\<close>

section \<open>Environment\<close>

datatype query_failure = QueryFailed string | TakeFailed string

record member_world =
  mw_conflicts :: "string \<Rightarrow> string \<Rightarrow> int \<Rightarrow> string \<Rightarrow> query_failure + json list"
  mw_event :: event_store
  mw_power_row :: "string \<Rightarrow> query_failure + json option"
  mw_membership :: "string \<Rightarrow> string \<Rightarrow> repository_error + membership option"
  mw_membership_row :: "string \<Rightarrow> string \<Rightarrow> query_failure + json option"
  mw_membership_count :: "string \<Rightarrow> string \<Rightarrow> string \<Rightarrow> query_failure + json option"
  mw_event_count :: "string \<Rightarrow> string \<Rightarrow> string \<Rightarrow> query_failure + json option"
  mw_state_event :: "string \<Rightarrow> string \<Rightarrow> string \<Rightarrow> repository_error + event option"
  mw_room :: "string \<Rightarrow> repository_error + room option"
  parse_rfc3339 :: "string \<Rightarrow> int option"

text \<open>The answer of a query, with the error texts for its two ways to fail.\<close>

definition query_result :: "string \<Rightarrow> string \<Rightarrow> query_failure + 'a \<Rightarrow> membership_error + 'a" where
  "query_result running parsing r =
     map_err (\<lambda>f. case f of QueryFailed m \<Rightarrow> ME_DatabaseError running m
                          | TakeFailed m \<Rightarrow> ME_DatabaseError parsing m) r"

text \<open>Continuing after a step that may run out of fuel.\<close>

fun bindO :: "('e + 'a) option \<Rightarrow> ('a \<Rightarrow> ('e + 'b) option) \<Rightarrow> ('e + 'b) option" where
  "bindO None f = None"
| "bindO (Some (Inl e)) f = Some (Inl e)"
| "bindO (Some (Inr x)) f = f x"

section \<open>Form of the event\<close>

definition membership_values :: "string list" where
  "membership_values = [''join'', ''leave'', ''invite'', ''ban'', ''knock'']"

definition validate_membership_state_value :: "string \<Rightarrow> membership_error + unit" where
  "validate_membership_state_value membership =
     ensure (List.member membership_values membership)
       (ME_InvalidEvent None (''Invalid membership state: '' @ membership))"

definition is_valid_matrix_user_id :: "string \<Rightarrow> bool" where
  "is_valid_matrix_user_id user_id =
     (starts_with user_id CHR ''@'' \<and> contains user_id CHR '':'' \<and> length user_id > 3)"

definition validate_membership_event_format :: "event \<Rightarrow> membership_error + unit" where
  "validate_membership_event_format e =
     bindR (ensure (ev_event_type e = ''m.room.member'')
              (ME_InvalidEvent (Some (ev_event_id e)) ''Event type must be m.room.member'')) (\<lambda>_.
     bindR (ok_or (ev_state_key e)
              (ME_InvalidEvent (Some (ev_event_id e)) ''Membership event must have state_key'')) (\<lambda>state_key.
     bindR (ensure (is_valid_matrix_user_id state_key) (ME_InvalidMatrixId state_key ''user'')) (\<lambda>_.
     bindR (ok_or (content_as_object (ev_content e))
              (ME_InvalidEvent (Some (ev_event_id e)) ''Membership event content must be object'')) (\<lambda>content.
     bindR (ok_or (map_of content ''membership'')
              (ME_InvalidEvent (Some (ev_event_id e)) ''Membership event must have membership field'')) (\<lambda>membership.
     bindR (ensure (as_str membership \<noteq> None)
              (ME_InvalidEvent (Some (ev_event_id e)) ''Membership field must be string'')) (\<lambda>_.
     ensure (case map_of content ''reason'' of None \<Rightarrow> True | Some reason \<Rightarrow> as_str reason \<noteq> None)
       (ME_InvalidEvent (Some (ev_event_id e)) ''Reason field must be string'')))))))"

section \<open>Conflicting events\<close>

text \<open>The events of a list of identifiers that can be read; the others are skipped.\<close>

definition known_events :: "event_store \<Rightarrow> string list \<Rightarrow> event list" where
  "known_events store ids = List.map_filter (\<lambda>i. case store i of Inr x \<Rightarrow> x | Inl _ \<Rightarrow> None) ids"

text \<open>The requirements are read and logged; nothing is compared with them.\<close>

definition validate_membership_power_requirements ::
  "json \<Rightarrow> event list \<Rightarrow> event list \<Rightarrow> membership_error + unit" where
  "validate_membership_power_requirements power_levels conflicting_auth current_auth = Inr ()"

definition validate_power_levels_in_auth_chains ::
  "member_world \<Rightarrow> event list \<Rightarrow> event list \<Rightarrow> membership_error + unit" where
  "validate_power_levels_in_auth_chains w conflicting_auth current_auth =
     (case conflicting_auth @ current_auth of
        [] \<Rightarrow> Inr ()
      | first # _ \<Rightarrow>
          bindR (query_result ''power level validation'' ''parsing power levels''
                   (mw_power_row w (ev_room_id first))) (\<lambda>power_levels.
          case Option.bind power_levels (\<lambda>power_data. get power_data ''content'') of
            None \<Rightarrow> Inr ()
          | Some content \<Rightarrow> validate_membership_power_requirements content conflicting_auth current_auth))"

definition validate_auth_chain_conflict :: "member_world \<Rightarrow> event \<Rightarrow> event \<Rightarrow> membership_error + unit" where
  "validate_auth_chain_conflict w conflicting_event current_event =
     validate_power_levels_in_auth_chains w
       (known_events (mw_event w) (unwrap_or [] (ev_auth_events conflicting_event)))
       (known_events (mw_event w) (unwrap_or [] (ev_auth_events current_event)))"

fun load_conflicts :: "member_world \<Rightarrow> event \<Rightarrow> json list \<Rightarrow> membership_error + event list" where
  "load_conflicts w e [] = Inr []"
| "load_conflicts w e (conflict # conflicts) =
     (case Option.bind (get conflict ''event_id'') as_str of
        None \<Rightarrow> load_conflicts w e conflicts
      | Some event_id \<Rightarrow>
          (case mw_event w event_id of
             Inr (Some conflicting_event) \<Rightarrow>
               bindR (validate_auth_chain_conflict w conflicting_event e) (\<lambda>_.
               bindR (load_conflicts w e conflicts) (\<lambda>es. Inr (conflicting_event # es)))
           | _ \<Rightarrow> load_conflicts w e conflicts))"

definition get_current_power_levels_event :: "member_world \<Rightarrow> string \<Rightarrow> membership_error + event option" where
  "get_current_power_levels_event w room_id =
     map_err (\<lambda>e. ME_DatabaseError ''get power levels'' (repository_error_text e))
       (mw_state_event w room_id ''m.room.power_levels'' '''')"

fun from_resolution_error :: "string \<Rightarrow> state_resolution_error \<Rightarrow> membership_error" where
  "from_resolution_error room_id (SR_DatabaseError e) =
     ME_DatabaseError ''state resolution'' (repository_error_text e)"
| "from_resolution_error room_id (SR_InvalidStateEvent m) =
     ME_InvalidEvent None (''State resolution failed: '' @ m)"
| "from_resolution_error room_id SR_CircularDependency =
     ME_InconsistentRoomState room_id ''Circular dependency in authorization events''"
| "from_resolution_error room_id (SR_MissingAuthEvent event_id) =
     ME_InvalidEvent (Some event_id) ''Missing required authorization event''"
| "from_resolution_error room_id (SR_InvalidAuthorization m) =
     ME_InsufficientPermissions ''membership change'' 0 (- 1) room_id"

definition resolve_membership_conflicts ::
  "nat \<Rightarrow> member_world \<Rightarrow> string \<Rightarrow> string \<Rightarrow> event list \<Rightarrow> (membership_error + event) option" where
  "resolve_membership_conflicts n w room_id user_id conflicting_events =
     (case conflicting_events of
        [] \<Rightarrow> Some (Inl (ME_InternalError ''resolve conflicts'' ''No events provided for conflict resolution''))
      | [e] \<Rightarrow> Some (Inr e)
      | _ \<Rightarrow>
          bindO (Some (get_current_power_levels_event w room_id)) (\<lambda>power_event.
          bindO (map_option (map_err (from_resolution_error room_id))
                   (resolve_state_v2 n (mw_room w) (mw_event w) room_id conflicting_events)) (\<lambda>resolved.
          Some (ok_or (rs_state_events resolved (''m.room.member'', user_id))
            (ME_InternalError ''state resolution''
               (''No membership event found for user '' @ user_id @ '' after resolution''))))))"

definition check_membership_conflicts ::
  "nat \<Rightarrow> member_world \<Rightarrow> string \<Rightarrow> string \<Rightarrow> event \<Rightarrow> (membership_error + unit) option" where
  "check_membership_conflicts n w room_id user_id e =
     bindO (Some (query_result ''conflict detection'' ''parsing conflicts''
              (mw_conflicts w room_id user_id (i64_wrap (ev_origin_server_ts e - 5000)) (ev_event_id e)))) (\<lambda>conflicts.
     bindO (Some (load_conflicts w e conflicts)) (\<lambda>conflicting.
     if length conflicting > 1
     then bindO (resolve_membership_conflicts n w room_id user_id (conflicting @ [e])) (\<lambda>_. Some (Inr ()))
     else Some (Inr ())))"

section \<open>Transitions\<close>

text \<open>The rows of the table in the order of the source; equal states are allowed by a row of their own.\<close>

definition valid_transitions :: "(string \<times> string) list" where
  "valid_transitions =
     [(''leave'', ''join''), (''leave'', ''invite''), (''leave'', ''ban''), (''leave'', ''knock''),
      (''join'', ''leave''), (''join'', ''ban''),
      (''invite'', ''join''), (''invite'', ''leave''), (''invite'', ''ban''),
      (''ban'', ''leave''), (''ban'', ''ban''),
      (''knock'', ''invite''), (''knock'', ''leave''), (''knock'', ''ban'')]"

definition invalid_transitions :: "(string \<times> string) list" where
  "invalid_transitions =
     [(''join'', ''invite''), (''join'', ''knock''), (''ban'', ''invite''), (''ban'', ''join''),
      (''knock'', ''join'')]"

definition is_valid_transition :: "string \<Rightarrow> string \<Rightarrow> bool" where
  "is_valid_transition from to =
     (if List.member valid_transitions (from, to) then True
      else if List.member invalid_transitions (from, to) then False
      else from = to)"

definition validate_state_transition_rules ::
  "string option \<Rightarrow> string \<Rightarrow> string \<Rightarrow> string \<Rightarrow> membership_error + unit" where
  "validate_state_transition_rules from to user_id room_id =
     (let from_state = unwrap_or ''leave'' from in
      ensure (is_valid_transition from_state to)
        (ME_InvalidMembershipTransition from_state to user_id room_id))"

section \<open>Current membership\<close>

definition row_str :: "json \<Rightarrow> string \<Rightarrow> string option" where
  "row_str row field = Option.bind (get row field) as_str"

definition state_of_text :: "string \<Rightarrow> membership_state option" where
  "state_of_text s =
     (if s = ''join'' then Some Join
      else if s = ''leave'' then Some Leave
      else if s = ''invite'' then Some Invite
      else if s = ''ban'' then Some Ban
      else if s = ''knock'' then Some Knock
      else None)"

definition get_membership_from_events ::
  "member_world \<Rightarrow> string \<Rightarrow> string \<Rightarrow> membership_error + membership option" where
  "get_membership_from_events w room_id user_id =
     bindR (query_result ''direct membership query'' ''parsing membership data''
              (mw_membership_row w room_id user_id)) (\<lambda>membership_data.
     case membership_data of
       None \<Rightarrow> Inr None
     | Some data \<Rightarrow>
         (case row_str data ''membership'' of
            None \<Rightarrow> Inr None
          | Some membership_str \<Rightarrow>
              bindR (ok_or (state_of_text membership_str)
                       (ME_InvalidEvent None (''Invalid membership state: '' @ membership_str))) (\<lambda>state.
              Inr (Some
                \<lparr>m_room_id = room_id, m_user_id = user_id, m_membership = state,
                 m_display_name = row_str data ''display_name'', m_avatar_url = row_str data ''avatar_url'',
                 m_reason = row_str data ''reason'', m_invited_by = row_str data ''invited_by'',
                 m_updated_at = Option.bind (row_str data ''updated_at'') (parse_rfc3339 w),
                 m_is_direct = None, m_third_party_invite = None,
                 m_join_authorised_via_users_server = None\<rparr>))))"

text \<open>The count a query reports, when it reports one.\<close>

definition count_of :: "string \<Rightarrow> json option \<Rightarrow> int option" where
  "count_of field row = Option.bind row (\<lambda>data. Option.bind (get data field) as_i64)"

definition validate_membership_database_consistency ::
  "member_world \<Rightarrow> string \<Rightarrow> string \<Rightarrow> membership \<Rightarrow> membership_error + unit" where
  "validate_membership_database_consistency w room_id user_id membership =
     bindR (query_result ''membership consistency validation'' ''parsing membership count data''
              (mw_membership_count w room_id user_id (show_membership (m_membership membership)))) (\<lambda>row.
     case count_of ''membership_count'' row of
       None \<Rightarrow> Inr ()
     | Some found \<Rightarrow>
         ensure (\<not> found < 1) (ME_InternalError ''membership consistency''
           (''Expected at least 1 membership record, found '' @ show_int found)))"

definition get_current_membership ::
  "member_world \<Rightarrow> string \<Rightarrow> string \<Rightarrow> membership_error + membership option" where
  "get_current_membership w room_id user_id =
     (case mw_membership w room_id user_id of
        Inr None \<Rightarrow> Inr None
      | Inr (Some member) \<Rightarrow>
          bindR (validate_membership_database_consistency w room_id user_id member) (\<lambda>_. Inr (Some member))
      | Inl _ \<Rightarrow> get_membership_from_events w room_id user_id)"

definition validate_membership_consistency ::
  "member_world \<Rightarrow> string \<Rightarrow> string \<Rightarrow> event \<Rightarrow> membership_error + unit" where
  "validate_membership_consistency w room_id user_id e =
     bindR (ensure (ev_event_type e = ''m.room.member'')
              (ME_InvalidEvent (Some (ev_event_id e)) ''Event is not a membership event'')) (\<lambda>_.
     bindR (ensure (ev_state_key e = Some user_id)
              (ME_InvalidEvent (Some (ev_event_id e))
                 (''State key '' @ unwrap_or ''None'' (ev_state_key e) @ '' does not match user ID '' @ user_id))) (\<lambda>_.
     bindR (query_result ''consistency validation'' ''parsing count data''
              (mw_event_count w (ev_event_id e) room_id user_id)) (\<lambda>row.
     case count_of ''event_count'' row of
       None \<Rightarrow> Inr ()
     | Some found \<Rightarrow>
         ensure (found = 1) (ME_InternalError ''membership consistency''
           (''Expected 1 event, found '' @ show_int found)))))"

section \<open>Special cases\<close>

definition validate_third_party_invite_content :: "json \<Rightarrow> membership_error + unit" where
  "validate_third_party_invite_content tpi_content =
     bindR (ok_or (as_object tpi_content) (ME_InvalidEvent None ''Third-party invite must be object'')) (\<lambda>tpi_obj.
     bindR (ok_or (map_of tpi_obj ''signed'')
              (ME_InvalidEvent None ''Third-party invite must have signed field'')) (\<lambda>signed.
     bindR (ok_or (as_object signed)
              (ME_InvalidEvent None ''Third-party invite signed field must be object'')) (\<lambda>signed_obj.
     ensure (map_of signed_obj ''token'' \<noteq> None)
       (ME_InvalidEvent None ''Third-party invite signed field must have token''))))"

definition membership_is :: "membership option \<Rightarrow> membership_state \<Rightarrow> bool" where
  "membership_is m s = (case m of Some x \<Rightarrow> m_membership x = s | None \<Rightarrow> False)"

definition validate_invite_edge_cases ::
  "member_world \<Rightarrow> string \<Rightarrow> string \<Rightarrow> event \<Rightarrow> membership_error + unit" where
  "validate_invite_edge_cases w room_id user_id e =
     bindR (get_current_membership w room_id user_id) (\<lambda>current.
     bindR (ensure (\<not> membership_is current Join)
              (ME_MembershipAlreadyExists user_id room_id ''join'' ''invite'')) (\<lambda>_.
     case content_get (ev_content e) ''third_party_invite'' of
       None \<Rightarrow> Inr ()
     | Some third_party_invite \<Rightarrow> validate_third_party_invite_content third_party_invite))"

definition validate_knock_edge_cases ::
  "member_world \<Rightarrow> string \<Rightarrow> string \<Rightarrow> event \<Rightarrow> membership_error + unit" where
  "validate_knock_edge_cases w room_id user_id e =
     bindR (get_current_membership w room_id user_id) (\<lambda>current.
     bindR (ensure (\<not> membership_is current Join)
              (ME_MembershipAlreadyExists user_id room_id ''join'' ''knock'')) (\<lambda>_.
     ensure (\<not> membership_is current Invite)
       (ME_MembershipAlreadyExists user_id room_id ''invite'' ''knock'')))"

definition validate_self_targeting_rules :: "string \<Rightarrow> event \<Rightarrow> string \<Rightarrow> membership_error + unit" where
  "validate_self_targeting_rules user_id e to_membership =
     (let is_self_targeting = (ev_state_key e = Some user_id);
          is_sender_self = (ev_sender e = user_id)
      in bindR (ensure (\<not> (is_self_targeting \<and> \<not> is_sender_self))
                  (ME_InsufficientPermissions (''change membership to '' @ to_membership) 100 0 (ev_room_id e))) (\<lambda>_.
         ensure (\<not> (to_membership = ''ban'' \<and> is_self_targeting))
           (ME_InvalidEvent (Some (ev_event_id e)) ''Users cannot ban themselves'')))"

definition validate_edge_cases ::
  "member_world \<Rightarrow> string \<Rightarrow> string \<Rightarrow> string \<Rightarrow> event \<Rightarrow> membership_error + unit" where
  "validate_edge_cases w room_id user_id to_membership e =
     bindR (if to_membership = ''join''
            then bindR (get_current_membership w room_id user_id) (\<lambda>current.
                 ensure (\<not> membership_is current Ban) (ME_UserBanned user_id room_id None))
            else Inr ()) (\<lambda>_.
     bindR (if to_membership = ''invite'' then validate_invite_edge_cases w room_id user_id e else Inr ()) (\<lambda>_.
     bindR (if to_membership = ''knock'' then validate_knock_edge_cases w room_id user_id e else Inr ()) (\<lambda>_.
     validate_self_targeting_rules user_id e to_membership)))"

section \<open>The validation\<close>

definition validate_transition_of_member ::
  "nat \<Rightarrow> member_world \<Rightarrow> string \<Rightarrow> string \<Rightarrow> string option \<Rightarrow> string \<Rightarrow> event \<Rightarrow>
   (membership_error + unit) option" where
  "validate_transition_of_member n w room_id user_id from_membership to_membership e =
     bindO (Some (validate_membership_state_value to_membership)) (\<lambda>_.
     bindO (Some (validate_membership_event_format e)) (\<lambda>_.
     bindO (check_membership_conflicts n w room_id user_id e) (\<lambda>_.
     bindO (Some (validate_membership_consistency w room_id user_id e)) (\<lambda>_.
     bindO (Some (validate_state_transition_rules from_membership to_membership user_id room_id)) (\<lambda>_.
     Some (validate_edge_cases w room_id user_id to_membership e))))))"

section \<open>When the steps pass\<close>

lemma bindO_Inr_iff [result_simps]:
  "bindO m f = Some (Inr y) \<longleftrightarrow> (\<exists>x. m = Some (Inr x) \<and> f x = Some (Inr y))"
  by (cases "(m, f)" rule: bindO.cases) auto

lemma bindO_returns: "m \<noteq> None \<Longrightarrow> (\<And>x. f x \<noteq> None) \<Longrightarrow> bindO m f \<noteq> None"
  by (cases "(m, f)" rule: bindO.cases) auto

lemma case_option_all: "(case x of None \<Rightarrow> True | Some y \<Rightarrow> P y) \<longleftrightarrow> (\<forall>y. x = Some y \<longrightarrow> P y)"
  by (cases x) auto

lemma event_format_iff:
  "validate_membership_event_format e = Inr () \<longleftrightarrow>
     ev_event_type e = ''m.room.member'' \<and>
     (\<exists>k. ev_state_key e = Some k \<and> is_valid_matrix_user_id k) \<and>
     (\<exists>content. ev_content e = Unknown (JObject content) \<and> get_str content ''membership'' \<noteq> None \<and>
        (\<forall>reason. map_of content ''reason'' = Some reason \<longrightarrow> as_str reason \<noteq> None))"
  by (auto simp: validate_membership_event_format_def result_simps content_as_object_Some_iff
      get_str_def bind_eq_Some_conv case_option_all)

lemma self_targeting_iff:
  "validate_self_targeting_rules user_id e to = Inr () \<longleftrightarrow>
     (ev_state_key e = Some user_id \<longrightarrow> ev_sender e = user_id \<and> to \<noteq> ''ban'')"
  by (auto simp: validate_self_targeting_rules_def Let_def result_simps)

lemma consistency_key:
  "validate_membership_consistency w room_id user_id e = Inr () \<Longrightarrow> ev_state_key e = Some user_id"
  by (auto simp: validate_membership_consistency_def result_simps)

lemma transition_of_member_iff:
  "validate_transition_of_member n w r u from to e = Some (Inr ()) \<longleftrightarrow>
     List.member membership_values to \<and> validate_membership_event_format e = Inr () \<and>
     check_membership_conflicts n w r u e = Some (Inr ()) \<and>
     validate_membership_consistency w r u e = Inr () \<and>
     is_valid_transition (unwrap_or ''leave'' from) to \<and> validate_edge_cases w r u to e = Inr ()"
  by (auto simp: validate_transition_of_member_def validate_membership_state_value_def
      validate_state_transition_rules_def Let_def result_simps)

lemma edge_cases_iff:
  "validate_edge_cases w r u to e = Inr () \<longleftrightarrow>
     (to = ''join'' \<longrightarrow> (\<exists>m. get_current_membership w r u = Inr m \<and> \<not> membership_is m Ban)) \<and>
     (to = ''invite'' \<longrightarrow> validate_invite_edge_cases w r u e = Inr ()) \<and>
     (to = ''knock'' \<longrightarrow> validate_knock_edge_cases w r u e = Inr ()) \<and>
     validate_self_targeting_rules u e to = Inr ()"
  by (auto simp: validate_edge_cases_def result_simps)

text \<open>The table on the states of a membership.\<close>

lemma valid_transition_iff:
  "is_valid_transition (show_membership m) (show_membership m') \<longleftrightarrow>
     m = m' \<or> (m, m') \<in> {(Leave, Join), (Leave, Invite), (Leave, Ban), (Leave, Knock), (Join, Leave),
       (Join, Ban), (Invite, Join), (Invite, Leave), (Invite, Ban), (Ban, Leave), (Knock, Invite),
       (Knock, Leave), (Knock, Ban)}"
  by (cases m; cases m')
    (simp_all add: is_valid_transition_def valid_transitions_def invalid_transitions_def)

interpretation client_table: membership_machine
  "\<lambda>m m'. is_valid_transition (show_membership m) (show_membership m')"
  by unfold_locales (simp_all only: valid_transition_iff, auto)

text \<open>Resolution of conflicts returns with enough fuel, so the whole validation does.\<close>

lemma conflicts_return:
  assumes "length table < n" and "mw_event w = get_by_id table"
  shows "check_membership_conflicts n w r u e \<noteq> None"
proof -
  have "resolve_membership_conflicts n w r u es \<noteq> None" for es
    unfolding resolve_membership_conflicts_def assms(2)
    using resolution_returns [OF assms(1)]
    by (simp split: list.splits del: bindO.simps not_None_eq add: bindO_returns)
  then show ?thesis
    unfolding check_membership_conflicts_def by (simp del: bindO.simps not_None_eq add: bindO_returns)
qed

text \<open>The event chosen for a user is the winner of the group of all the given events.\<close>

lemma resolved_member:
  assumes "resolve_membership_conflicts n w r u es = Some (Inr e)" and "2 \<le> length es"
    and "\<forall>f \<in> set es. state_key_of f = Some (''m.room.member'', u) \<and> validate_event_for_resolution f"
  shows "resolve_state_key_conflict r es = Inr e"
proof -
  obtain x y zs where es: "es = x # y # zs" using assms(2) by (cases es; cases "tl es") auto
  from assms(1) obtain resolved where
    res: "resolve_state_v2 n (mw_room w) (mw_event w) r es = Some (Inr resolved)"
    and e: "rs_state_events resolved (''m.room.member'', u) = Some e"
    by (auto simp: resolve_membership_conflicts_def es result_simps)
  from res obtain st rj sf where st: "resolve_groups r (state_groups es) = Inr (st, rj, sf)"
    "rs_state_events resolved = map_of st"
    by (auto simp: resolve_state_v2_def result_simps split: sum.splits)
  have group: "filter (\<lambda>f. state_key_of f = Some (''m.room.member'', u)) es = es"
    and valid: "filter validate_event_for_resolution es = es"
    using assms(3) by (simp_all add: filter_id_conv)
  have "map_of (state_groups es) (''m.room.member'', u) = Some es"
    unfolding map_of_state_groups group Let_def by (simp add: es)
  with resolve_groups_lookup [OF st(1), of "(''m.room.member'', u)"] e st(2)
  have "\<exists>rj sf. resolve_group r es = Inr (e, rj, sf)" by auto
  then show ?thesis
    using assms(2) unfolding resolve_group_def resolve_state_key_conflict_with_tracking_def valid Let_def
    by (auto simp: result_simps split: if_splits)
qed

section \<open>Claims\<close>


text \<open>
  The event's own membership plays no part: with at most one conflicting event, an event that passes
  for a named change passes for it with every other text as its membership. So an event that says
  ban, or join by a banned user, passes when the caller names leave.
\<close>

theorem named_change_unrelated:
  assumes "validate_transition_of_member n w r u from to e = Some (Inr ())"
    and "mw_conflicts w r u (i64_wrap (ev_origin_server_ts e - 5000)) (ev_event_id e) = Inr rows"
    and "load_conflicts w e rows = Inr es" and "length es \<le> 1"
  shows "validate_transition_of_member n w r u from to
     (e\<lparr>ev_content := Unknown (JObject [(''membership'', JString carried)])\<rparr>) = Some (Inr ())"
proof -
  let ?e = "e\<lparr>ev_content := Unknown (JObject [(''membership'', JString carried)])\<rparr>"
  have load: "load_conflicts w ?e cs = load_conflicts w e cs" for cs
    by (induction cs) (simp_all add: validate_auth_chain_conflict_def split: option.split sum.split)
  have "check_membership_conflicts n w r u ?e = Some (Inr ())"
    using assms(2-4) by (simp add: check_membership_conflicts_def query_result_def load)
  moreover have "validate_membership_consistency w r u ?e = validate_membership_consistency w r u e"
    by (simp add: validate_membership_consistency_def)
  moreover have "validate_membership_event_format ?e = Inr ()"
    using assms(1) by (auto simp: transition_of_member_iff event_format_iff get_str_def)
  moreover have "validate_invite_edge_cases w r u e = Inr () \<Longrightarrow> validate_invite_edge_cases w r u ?e = Inr ()"
    by (auto simp: validate_invite_edge_cases_def result_simps content_get_def)
  moreover have "validate_knock_edge_cases w r u ?e = validate_knock_edge_cases w r u e"
    by (simp add: validate_knock_edge_cases_def)
  ultimately show ?thesis
    using assms(1) by (simp add: transition_of_member_iff edge_cases_iff self_targeting_iff)
qed

text \<open>
  Nobody can change the membership of another user: an invitation, kick, ban or unban that
  passes every other check is refused with status 403, whatever the power level of the sender.
\<close>

theorem other_sender_rejected:
  assumes "ev_sender e \<noteq> u" and "to \<in> {''invite'', ''leave'', ''ban''}"
    and "validate_membership_event_format e = Inr ()"
    and "check_membership_conflicts n w r u e = Some (Inr ())"
    and "validate_membership_consistency w r u e = Inr ()"
    and "is_valid_transition (unwrap_or ''leave'' from) to"
    and "to = ''invite'' \<Longrightarrow> validate_invite_edge_cases w r u e = Inr ()"
  shows "\<exists>err. validate_transition_of_member n w r u from to e = Some (Inl err) \<and> to_status_code err = 403"
proof -
  have "ev_state_key e = Some u" using assms(5) by (rule consistency_key)
  then have "validate_self_targeting_rules u e to =
      Inl (ME_InsufficientPermissions (''change membership to '' @ to) 100 0 (ev_room_id e))"
    using assms(1) by (simp add: validate_self_targeting_rules_def ensure_def)
  then have "\<exists>err. validate_edge_cases w r u to e = Inl err \<and> to_status_code err = 403"
    using assms(2,7) by (auto simp: validate_edge_cases_def)
  moreover have "validate_membership_state_value to = Inr ()"
    using assms(2) by (auto simp: validate_membership_state_value_def membership_values_def ensure_def)
  ultimately show ?thesis
    using assms(3-6)
    by (auto simp: validate_transition_of_member_def validate_state_transition_rules_def ensure_def)
qed

text \<open>
  The outcome of conflict resolution is not used: when several recent events conflict with the
  new one and one of them is a ban, the resolution chooses a ban, and the new event still passes.
\<close>

theorem conflict_outcome_ignored:
  assumes "mw_conflicts w r u (i64_wrap (ev_origin_server_ts e - 5000)) (ev_event_id e) = Inr rows"
    and "load_conflicts w e rows = Inr es" and "2 \<le> length es"
    and "resolve_membership_conflicts n w r u (es @ [e]) = Some (Inr winner)"
    and "\<forall>f \<in> set (es @ [e]). state_key_of f = Some (''m.room.member'', u) \<and> validate_event_for_resolution f"
    and "b \<in> set es" "membership_of b = Some ''ban''"
  shows "check_membership_conflicts n w r u e = Some (Inr ()) \<and> membership_of winner = Some ''ban''"
proof -
  have winner: "resolve_state_key_conflict r (es @ [e]) = Inr winner"
    by (rule resolved_member [OF assms(4) _ assms(5)]) (use assms(3) in simp)
  have types: "\<forall>f \<in> set (es @ [e]). ev_event_type f = ''m.room.member''"
    using assms(5) by (auto simp: state_key_of_def)
  have "membership_of winner = Some ''ban''"
    using conflict_winner [OF winner types] assms(3,6,7) by auto
  then show ?thesis
    using assms(1-4) by (simp add: check_membership_conflicts_def query_result_def)
qed

text \<open>
  The validation always returns: over a table of events, any fuel above the number of events is
  enough for the resolution of conflicts, so there is an answer for every event and every database.
\<close>

theorem member_validation_returns:
  assumes "length table < n" and "mw_event w = get_by_id table"
  shows "\<exists>result. validate_transition_of_member n w r u from to e = Some result"
proof -
  have "validate_transition_of_member n w r u from to e \<noteq> None"
    unfolding validate_transition_of_member_def
    using conflicts_return [OF assms] by (simp del: bindO.simps not_None_eq add: bindO_returns)
  then show ?thesis by blast
qed

text \<open>
  Sequences of changes the table allows: a banned user is back in the room only after a change
  to \<open>leave\<close>, and one who knocked only after an invitation or a change to \<open>leave\<close>.
\<close>

theorem client_membership_runs:
  assumes "successively (\<lambda>m m'. is_valid_transition (show_membership m) (show_membership m')) (start # ms)"
    and "Join \<in> set ms"
  shows "(start = Ban \<longrightarrow> (\<exists>xs ys. ms = xs @ Leave # ys \<and> Join \<notin> set xs)) \<and>
     (start = Knock \<longrightarrow> (\<exists>xs m ys. ms = xs @ m # ys \<and> m \<in> {Invite, Leave} \<and> Join \<notin> set xs))"
  using client_table.ban_until_leave client_table.knock_until_answer assms by blast

section \<open>Witnesses\<close>

definition member_event :: "string \<Rightarrow> int \<Rightarrow> string \<Rightarrow> string \<Rightarrow> event" where
  "member_event i ts sender membership =
     (new_event i sender ts ''m.room.member'' ''!r:x'' (Unknown (JObject [(''membership'', JString membership)])))
     \<lparr>ev_state_key := Some ''@u:x'', ev_auth_events := Some [''$c'']\<rparr>"

definition member_table :: "event list" where
  "member_table = [member_event ''$1'' 10 ''@m:x'' ''ban'', member_event ''$2'' 11 ''@u:x'' ''leave'',
     new_event ''$c'' ''@m:x'' 1 ''m.room.create'' ''!r:x'' (Unknown (JObject []))]"

definition member_demo :: "json list \<Rightarrow> member_world" where
  "member_demo conflicts =
     \<lparr>mw_conflicts = (\<lambda>r u ts i. Inr conflicts), mw_event = get_by_id member_table,
      mw_power_row = (\<lambda>r. Inr None), mw_membership = (\<lambda>r u. Inr None),
      mw_membership_row = (\<lambda>r u. Inr None), mw_membership_count = (\<lambda>r u m. Inr None),
      mw_event_count = (\<lambda>i r u. Inr None), mw_state_event = (\<lambda>r t k. Inr None),
      mw_room = demo_rooms, parse_rfc3339 = (\<lambda>s. None)\<rparr>"

lemmas member_eval = member_demo_def member_event_def new_event_def check_membership_conflicts_def
  query_result_def validate_membership_consistency_def count_of_def is_valid_matrix_user_id_def
  starts_with_def contains_def is_valid_transition_def valid_transitions_def invalid_transitions_def
  membership_values_def


text \<open>A ban by the user that is let through as a change to leave.\<close>

theorem named_change_unrelated_witness:
  "validate_transition_of_member 0 (member_demo []) ''!r:x'' ''@u:x'' (Some ''join'') ''leave''
     ((member_event ''$n'' 12 ''@u:x'' ''leave'')\<lparr>ev_content := Unknown (JObject [(''membership'', JString ''ban'')])\<rparr>) =
   Some (Inr ())"
proof (rule named_change_unrelated [where rows = "[]" and es = "[]"])
  show "validate_transition_of_member 0 (member_demo []) ''!r:x'' ''@u:x'' (Some ''join'') ''leave''
      (member_event ''$n'' 12 ''@u:x'' ''leave'') = Some (Inr ())"
    by (simp add: transition_of_member_iff edge_cases_iff event_format_iff self_targeting_iff
        get_current_membership_def membership_is_def member_eval ensure_def get_str_def)
qed (simp_all add: member_demo_def)

theorem other_sender_rejected_witness:
  "\<exists>err. validate_transition_of_member 0 (member_demo []) ''!r:x'' ''@u:x'' (Some ''join'') ''ban''
     (member_event ''$n'' 12 ''@m:x'' ''ban'') = Some (Inl err) \<and> to_status_code err = 403"
  by (rule other_sender_rejected)
    (simp_all add: event_format_iff member_eval ensure_def get_str_def)

lemma member_conflicts:
  "load_conflicts (member_demo c) (member_event ''$n'' 12 ''@u:x'' ''join'')
     [JObject [(''event_id'', JString ''$1'')], JObject [(''event_id'', JString ''$2'')]] =
   Inr [member_event ''$1'' 10 ''@m:x'' ''ban'', member_event ''$2'' 11 ''@u:x'' ''leave'']"
  by (simp add: get_def member_demo_def get_by_id_def member_table_def member_event_def new_event_def
      validate_auth_chain_conflict_def validate_power_levels_in_auth_chains_def known_events_def
      map_filter_simps query_result_def)

theorem conflict_outcome_ignored_witness:
  "\<exists>winner. resolve_membership_conflicts 4 (member_demo []) ''!r:x'' ''@u:x''
      [member_event ''$1'' 10 ''@m:x'' ''ban'', member_event ''$2'' 11 ''@u:x'' ''leave'',
       member_event ''$n'' 12 ''@u:x'' ''join''] = Some (Inr winner) \<and>
    membership_of winner = Some ''ban'' \<and>
    check_membership_conflicts 4
      (member_demo [JObject [(''event_id'', JString ''$1'')], JObject [(''event_id'', JString ''$2'')]])
      ''!r:x'' ''@u:x'' (member_event ''$n'' 12 ''@u:x'' ''join'') = Some (Inr ())"
proof -
  let ?rows = "[JObject [(''event_id'', JString ''$1'')], JObject [(''event_id'', JString ''$2'')]]"
  let ?e = "member_event ''$n'' 12 ''@u:x'' ''join''"
  let ?es = "[member_event ''$1'' 10 ''@m:x'' ''ban'', member_event ''$2'' 11 ''@u:x'' ''leave'']"
  have res: "resolve_membership_conflicts 4 (member_demo c) ''!r:x'' ''@u:x'' (?es @ [?e]) =
      Some (Inr (member_event ''$1'' 10 ''@m:x'' ''ban''))" for c
    by (simp add: resolve_membership_conflicts_def get_current_power_levels_event_def member_demo_def
        resolution_eval member_table_def member_event_def resolve_membership_conflict_def
        membership_of_def get_str_def starts_with_def contains_def eval_nat_numeral)
  have valid: "\<forall>f \<in> set (?es @ [?e]). state_key_of f = Some (''m.room.member'', ''@u:x'') \<and> validate_event_for_resolution f"
    by (simp add: member_event_def new_event_def state_key_of_def validate_event_for_resolution_def
        content_is_null_def get_str_def starts_with_def contains_def)
  have ban: "membership_of (member_event ''$1'' 10 ''@m:x'' ''ban'') = Some ''ban''"
    by (simp add: membership_of_def member_event_def new_event_def get_str_def)
  have "check_membership_conflicts 4 (member_demo ?rows) ''!r:x'' ''@u:x'' ?e = Some (Inr ()) \<and>
      membership_of (member_event ''$1'' 10 ''@m:x'' ''ban'') = Some ''ban''"
    by (rule conflict_outcome_ignored [OF _ member_conflicts _ res valid _ ban])
      (simp_all add: member_demo_def)
  with res show ?thesis by (intro exI [of _ "member_event ''$1'' 10 ''@m:x'' ''ban''"]) simp
qed

theorem member_validation_returns_witness:
  "\<exists>result. validate_transition_of_member 4 (member_demo []) ''!r:x'' ''@u:x'' None ''join''
     (member_event ''$n'' 12 ''@u:x'' ''join'') = Some result"
  by (rule member_validation_returns [of member_table]) (simp_all add: member_table_def member_demo_def)

theorem client_membership_runs_witness:
  "\<exists>xs ys. [Leave, Invite, Join] = xs @ Leave # ys \<and> Join \<notin> set xs"
  using client_membership_runs [of Ban "[Leave, Invite, Join]"] by (simp add: valid_transition_iff del: show_membership.simps)

end
