(* ===== verification/Outbound_Queue.thy ===== *)
theory Outbound_Queue
  imports Prelude
begin

text \<open>
  The queue of outgoing federation traffic, \<open>server/src/federation/outbound_queue.rs\<close>: events are
  queued per destination, flushed in transactions of bounded size and sent with retries. PDUs and
  EDUs are opaque. The network, the clock and the generator of transaction identifiers are the
  record \<open>network\<close>, read at a counter the state carries; \<open>history\<close> records every transaction
  handed to the client with the result of sending it. The processing loop alternates
  between receiving an event and a timed flush, which is the step relation \<open>queue_step\<close>.
\<close>

datatype client_error =
    HttpError
  | JsonError
  | ServerError nat string
  | Timeout
  | InvalidResponse

record network =
  outcome_at :: "nat \<Rightarrow> client_error + unit"
  uuid_at :: "nat \<Rightarrow> string"
  now_at :: "nat \<Rightarrow> int"

record ('p, 'e) transaction =
  tx_origin :: string
  tx_origin_server_ts :: int
  tx_pdus :: "'p list"
  tx_edus :: "'e list"

datatype ('p, 'e) outbound_event = Pdu string 'p | Edu string 'e

record in_flight_transaction =
  if_txn_id :: string
  if_retry_count :: nat

record ('p, 'e) history_entry =
  h_destination :: string
  h_txn_id :: string
  h_transaction :: "('p, 'e) transaction"
  h_result :: "client_error + unit"

record ('p, 'e) outbound =
  pdu_queues :: "(string \<times> 'p list) list"
  edu_queues :: "(string \<times> 'e list) list"
  in_flight_transactions :: "string \<rightharpoonup> in_flight_transaction"
  origin :: string
  max_pdus_per_txn :: nat
  max_edus_per_txn :: nat
  counter :: nat
  history :: "('p, 'e) history_entry list"

definition new_outbound :: "string \<Rightarrow> ('p, 'e) outbound" where
  "new_outbound origin_server =
     \<lparr>pdu_queues = [], edu_queues = [], in_flight_transactions = Map.empty, origin = origin_server,
      max_pdus_per_txn = 50, max_edus_per_txn = 100, counter = 0, history = []\<rparr>"

section \<open>Queues of a hash map\<close>

definition queue_of :: "(string \<times> 'a list) list \<Rightarrow> string \<Rightarrow> 'a list" where
  "queue_of m d = unwrap_or [] (map_of m d)"

text \<open>\<open>entry(d).or_default()\<close> followed by an update.\<close>

fun update_queue :: "string \<Rightarrow> ('a list \<Rightarrow> 'a list) \<Rightarrow> (string \<times> 'a list) list \<Rightarrow> (string \<times> 'a list) list" where
  "update_queue d f [] = [(d, f [])]"
| "update_queue d f ((k, q) # m) = (if k = d then (k, f q) # m else (k, q) # update_queue d f m)"

text \<open>\<open>get_mut(d)\<close> and popping up to \<open>n\<close> elements; an absent queue stays absent.\<close>

definition pop_queue :: "string \<Rightarrow> nat \<Rightarrow> (string \<times> 'a list) list \<Rightarrow> (string \<times> 'a list) list" where
  "pop_queue d n m = (if map_of m d = None then m else update_queue d (drop n) m)"

section \<open>Sending\<close>

definition max_retries :: nat where "max_retries = 5"

text \<open>
  The retry loop from its \<open>retry_count\<close> and \<open>backoff\<close> (milliseconds): the result, the pauses made
  and the next counter value.
\<close>

definition retryable :: "client_error \<Rightarrow> bool" where
  "retryable e = (e = HttpError \<or> e = Timeout)"

function send_loop :: "network \<Rightarrow> nat \<Rightarrow> nat \<Rightarrow> nat \<Rightarrow> (client_error + unit) \<times> nat list \<times> nat" where
  "send_loop net c retry_count backoff =
     (case outcome_at net c of
        Inr _ \<Rightarrow> (Inr (), [], Suc c)
      | Inl e \<Rightarrow>
          if retryable e \<and> retry_count < max_retries
          then (case send_loop net (Suc c) (Suc retry_count) (min (backoff * 2) 30000) of
                  (result, pauses, c') \<Rightarrow> (result, backoff # pauses, c'))
          else (Inl e, [], Suc c))"
  by pat_completeness auto
termination
  by (relation "measure (\<lambda>(net, c, r, b). max_retries - r)") auto

declare send_loop.simps [simp del]

definition send_transaction_with_retry ::
  "network \<Rightarrow> nat \<Rightarrow> (client_error + unit) \<times> nat list \<times> nat" where
  "send_transaction_with_retry net c = send_loop net c 0 100"

definition flush_queue ::
  "network \<Rightarrow> string \<Rightarrow> ('p, 'e) outbound \<Rightarrow> (client_error + unit) \<times> ('p, 'e) outbound" where
  "flush_queue net destination s =
     (if in_flight_transactions s destination \<noteq> None then (Inr (), s)
      else let pdus = take (max_pdus_per_txn s) (queue_of (pdu_queues s) destination);
               edus = take (max_edus_per_txn s) (queue_of (edu_queues s) destination);
               s1 = s\<lparr>pdu_queues := pop_queue destination (max_pdus_per_txn s) (pdu_queues s),
                      edu_queues := pop_queue destination (max_edus_per_txn s) (edu_queues s)\<rparr>
           in if pdus = [] \<and> edus = [] then (Inr (), s1)
              else let txn_id = ''txn_'' @ uuid_at net (counter s1);
                       tx = \<lparr>tx_origin = origin s1, tx_origin_server_ts = now_at net (counter s1),
                             tx_pdus = pdus, tx_edus = edus\<rparr>;
                       s2 = s1\<lparr>in_flight_transactions := (in_flight_transactions s1)
                                (destination \<mapsto> \<lparr>if_txn_id = txn_id, if_retry_count = 0\<rparr>)\<rparr>
                   in (case send_transaction_with_retry net (counter s2) of
                         (result, pauses, c') \<Rightarrow>
                           (result, s2\<lparr>counter := c',
                                   history := history s2 @ [\<lparr>h_destination = destination,
                                     h_txn_id = txn_id, h_transaction = tx, h_result = result\<rparr>],
                                   in_flight_transactions :=
                                     (in_flight_transactions s2)(destination := None)\<rparr>)))"

fun queue_event :: "network \<Rightarrow> ('p, 'e) outbound_event \<Rightarrow> ('p, 'e) outbound \<Rightarrow> ('p, 'e) outbound" where
  "queue_event net (Pdu destination pdu) s =
     (let s1 = s\<lparr>pdu_queues := update_queue destination (\<lambda>q. q @ [pdu]) (pdu_queues s)\<rparr>
      in if length (queue_of (pdu_queues s1) destination) \<ge> max_pdus_per_txn s1
         then snd (flush_queue net destination s1) else s1)"
| "queue_event net (Edu destination edu) s =
     (let s1 = s\<lparr>edu_queues := update_queue destination (\<lambda>q. q @ [edu]) (edu_queues s)\<rparr>
      in if length (queue_of (edu_queues s1) destination) \<ge> max_edus_per_txn s1
         then snd (flush_queue net destination s1) else s1)"

text \<open>
  The destinations are collected through a hash set, so \<open>flush_all_queues\<close> takes the order in
  which they come out; the step relation below admits every order.
\<close>

definition destinations :: "('p, 'e) outbound \<Rightarrow> string set" where
  "destinations s = set (map fst (pdu_queues s) @ map fst (edu_queues s))"

definition flush_all_queues ::
  "network \<Rightarrow> string list \<Rightarrow> ('p, 'e) outbound \<Rightarrow> ('p, 'e) outbound" where
  "flush_all_queues net order s = fold (\<lambda>d s. snd (flush_queue net d s)) order s"

section \<open>The processing loop\<close>

datatype ('p, 'e) label = Received "('p, 'e) outbound_event" | Ticked

inductive queue_step ::
  "network \<Rightarrow> ('p, 'e) outbound \<Rightarrow> ('p, 'e) label \<Rightarrow> ('p, 'e) outbound \<Rightarrow> bool" for net where
  receive: "queue_step net s (Received e) (queue_event net e s)"
| tick: "distinct order \<Longrightarrow> set order = destinations s \<Longrightarrow>
    queue_step net s Ticked (flush_all_queues net order s)"

inductive_cases tickE: "queue_step net s Ticked s'"

inductive run :: "network \<Rightarrow> ('p, 'e) outbound \<Rightarrow> ('p, 'e) label list \<Rightarrow> ('p, 'e) outbound \<Rightarrow> bool" for net where
  start: "run net (new_outbound o') [] (new_outbound o')"
| more: "run net s0 ls s \<Longrightarrow> queue_step net s l s' \<Longrightarrow> run net s0 (ls @ [l]) s'"

section \<open>Bookkeeping\<close>

lemma queue_of_update:
  "queue_of (update_queue d f m) d' = (if d' = d then f (queue_of m d) else queue_of m d')"
  by (induction d f m rule: update_queue.induct) (auto simp: queue_of_def)

lemma queue_of_pop:
  "queue_of (pop_queue d n m) d' = (if d' = d then drop n (queue_of m d) else queue_of m d')"
  by (auto simp: pop_queue_def queue_of_update) (simp add: queue_of_def)

text \<open>Everything sent to a destination, in the order of sending.\<close>

definition sent_pdus :: "string \<Rightarrow> ('p, 'e) outbound \<Rightarrow> 'p list" where
  "sent_pdus d s = concat (map (\<lambda>h. tx_pdus (h_transaction h)) (filter (\<lambda>h. h_destination h = d) (history s)))"

definition sent_edus :: "string \<Rightarrow> ('p, 'e) outbound \<Rightarrow> 'e list" where
  "sent_edus d s = concat (map (\<lambda>h. tx_edus (h_transaction h)) (filter (\<lambda>h. h_destination h = d) (history s)))"

text \<open>Everything handed to the queue for a destination.\<close>

fun label_pdus :: "string \<Rightarrow> ('p, 'e) label \<Rightarrow> 'p list" where
  "label_pdus d (Received (Pdu d' p)) = (if d' = d then [p] else [])"
| "label_pdus d _ = []"

fun label_edus :: "string \<Rightarrow> ('p, 'e) label \<Rightarrow> 'e list" where
  "label_edus d (Received (Edu d' e)) = (if d' = d then [e] else [])"
| "label_edus d _ = []"

definition received_pdus where "received_pdus d ls = concat (map (label_pdus d) ls)"
definition received_edus where "received_edus d ls = concat (map (label_edus d) ls)"

text \<open>
  Between two steps nothing is in flight, the limits are those of the protocol and every
  transaction so far respected them.
\<close>

definition quiet :: "('p, 'e) outbound \<Rightarrow> bool" where
  "quiet s \<longleftrightarrow> in_flight_transactions s = Map.empty \<and> max_pdus_per_txn s = 50 \<and> max_edus_per_txn s = 100 \<and>
     (\<forall>h \<in> set (history s). length (tx_pdus (h_transaction h)) \<le> 50 \<and>
        length (tx_edus (h_transaction h)) \<le> 100)"

definition books :: "string \<Rightarrow> ('p, 'e) outbound \<Rightarrow> 'p list \<times> 'e list" where
  "books d s = (sent_pdus d s @ queue_of (pdu_queues s) d, sent_edus d s @ queue_of (edu_queues s) d)"

lemma flush_queue_effect:
  assumes "quiet s"
  shows "quiet (snd (flush_queue net d s))"
    and "books d' (snd (flush_queue net d s)) = books d' s"
    and "queue_of (pdu_queues (snd (flush_queue net d s))) d' =
         (if d' = d then drop 50 (queue_of (pdu_queues s) d) else queue_of (pdu_queues s) d')"
    and "queue_of (edu_queues (snd (flush_queue net d s))) d' =
         (if d' = d then drop 100 (queue_of (edu_queues s) d) else queue_of (edu_queues s) d')"
  using assms
  by (auto simp: flush_queue_def quiet_def books_def sent_pdus_def sent_edus_def queue_of_pop Let_def
      fun_eq_iff split: prod.splits)

definition small :: "('p, 'e) outbound \<Rightarrow> bool" where
  "small s \<longleftrightarrow> (\<forall>d. length (queue_of (pdu_queues s) d) < 50 \<and> length (queue_of (edu_queues s) d) < 100)"

lemma flush_queue_small: "quiet s \<Longrightarrow> small s \<Longrightarrow> small (snd (flush_queue net d s))"
  by (auto simp: small_def flush_queue_effect intro: le_less_trans [OF diff_le_self])

lemma flush_all_effect:
  assumes "quiet s"
  shows "quiet (flush_all_queues net order s) \<and> books d (flush_all_queues net order s) = books d s \<and>
         (small s \<longrightarrow> small (flush_all_queues net order s))"
  using assms
proof (induction order arbitrary: s)
  case (Cons d' order)
  then show ?case
    using flush_queue_effect(1,2) [where s = s and net = net]
      flush_queue_small [where s = s and net = net] by (simp add: flush_all_queues_def)
qed (simp add: flush_all_queues_def)

lemma books_push:
  "books d (s\<lparr>pdu_queues := update_queue d' (\<lambda>q. q @ [p]) (pdu_queues s)\<rparr>) =
     (fst (books d s) @ (if d' = d then [p] else []), snd (books d s))"
  "books d (s\<lparr>edu_queues := update_queue d' (\<lambda>q. q @ [e]) (edu_queues s)\<rparr>) =
     (fst (books d s), snd (books d s) @ (if d' = d then [e] else []))"
  by (auto simp: books_def sent_pdus_def sent_edus_def queue_of_update)

lemma quiet_push:
  "quiet (s\<lparr>pdu_queues := q\<rparr>) = quiet s" "quiet (s\<lparr>edu_queues := q'\<rparr>) = quiet s"
  by (simp_all add: quiet_def)

lemma queue_event_effect:
  assumes "quiet s"
  shows "quiet (queue_event net e s) \<and>
     books d (queue_event net e s) =
       (fst (books d s) @ label_pdus d (Received e), snd (books d s) @ label_edus d (Received e))"
  using assms by (cases e) (simp_all add: Let_def flush_queue_effect quiet_push books_push)

lemma queue_event_small:
  assumes "quiet s" "small s"
  shows "small (queue_event net e s)"
proof (cases e)
  case (Pdu d p)
  let ?s = "s\<lparr>pdu_queues := update_queue d (\<lambda>q. q @ [p]) (pdu_queues s)\<rparr>"
  have q: "quiet ?s" using assms(1) by (simp add: quiet_push)
  obtain n where "length (queue_of (pdu_queues s) d) = n" "n < 50" using assms(2) by (simp add: small_def)
  then show ?thesis
    using Pdu assms flush_queue_effect(3,4) [OF q, of net d]
    by (auto simp: Let_def small_def queue_of_update quiet_def intro: le_less_trans [OF diff_le_self])
next
  case (Edu d p)
  let ?s = "s\<lparr>edu_queues := update_queue d (\<lambda>q. q @ [p]) (edu_queues s)\<rparr>"
  have q: "quiet ?s" using assms(1) by (simp add: quiet_push)
  obtain n where "length (queue_of (edu_queues s) d) = n" "n < 100" using assms(2) by (simp add: small_def)
  then show ?thesis
    using Edu assms flush_queue_effect(3,4) [OF q, of net d]
    by (auto simp: Let_def small_def queue_of_update quiet_def intro: le_less_trans [OF diff_le_self])
qed

lemma run_invariant:
  "run net s0 ls s \<Longrightarrow> quiet s \<and> small s \<and> books d s = (received_pdus d ls, received_edus d ls)"
proof (induction rule: run.induct)
  case (start o')
  then show ?case
    by (simp add: new_outbound_def quiet_def small_def books_def sent_pdus_def sent_edus_def
        received_pdus_def received_edus_def queue_of_def)
next
  case (more s0 ls s l s')
  from more(2) show ?case
  proof (cases rule: queue_step.cases)
    case (receive e)
    then show ?thesis
      using more.IH queue_event_effect [of s net e d] queue_event_small [of s net e]
      by (simp add: received_pdus_def received_edus_def)
  next
    case (tick order)
    then show ?thesis
      using more.IH flush_all_effect [of s net order d]
      by (simp add: received_pdus_def received_edus_def)
  qed
qed

section \<open>Retries\<close>

definition pauses_from :: "nat \<Rightarrow> nat list" where
  "pauses_from k = map (\<lambda>i. min (100 * 2 ^ i) 30000) [k..<5]"

lemma send_loop_bounds:
  "retry_count \<le> 5 \<Longrightarrow> backoff = min (100 * 2 ^ retry_count) 30000 \<Longrightarrow>
   send_loop net c retry_count backoff = (result, pauses, c') \<Longrightarrow>
     prefix pauses (pauses_from retry_count) \<and> c' = c + length pauses + 1 \<and>
     result = outcome_at net (c' - 1) \<and> (\<forall>i < length pauses. \<exists>e. outcome_at net (c + i) = Inl e \<and> retryable e)"
proof (induction net c retry_count backoff arbitrary: pauses c' rule: send_loop.induct)
  case (1 net c retry_count backoff)
  show ?case
  proof (cases "\<exists>e. outcome_at net c = Inl e \<and> retryable e \<and> retry_count < max_retries")
    case False
    then have "pauses = []" "c' = Suc c" "result = outcome_at net c"
      using "1.prems"(3) by (auto simp: send_loop.simps split: sum.splits if_splits)
    then show ?thesis by simp
  next
    case True
    then obtain e where e: "outcome_at net c = Inl e" "retryable e" "retry_count < 5"
      by (auto simp: max_retries_def)
    obtain ps where ps: "send_loop net (Suc c) (Suc retry_count) (min (backoff * 2) 30000) = (result, ps, c')"
      and pauses: "pauses = backoff # ps"
      using "1.prems"(3) True e(1) by (auto simp: send_loop.simps [of net c] split: prod.splits)
    have b: "min (backoff * 2) 30000 = min (100 * 2 ^ Suc retry_count) 30000"
      using "1.prems"(2) by (simp add: min_def)
    have ih: "prefix ps (pauses_from (Suc retry_count)) \<and> c' = Suc c + length ps + 1 \<and>
        result = outcome_at net (c' - 1) \<and>
        (\<forall>i < length ps. \<exists>e. outcome_at net (Suc c + i) = Inl e \<and> retryable e)"
      using "1.IH" [OF e(1)] e True b ps by (simp add: max_retries_def)
    have "pauses_from retry_count = backoff # pauses_from (Suc retry_count)"
      using e(3) "1.prems"(2) by (simp add: pauses_from_def upt_conv_Cons)
    moreover have "\<forall>i < length pauses. \<exists>e. outcome_at net (c + i) = Inl e \<and> retryable e"
    proof (intro allI impI)
      fix i assume "i < length pauses"
      then show "\<exists>e. outcome_at net (c + i) = Inl e \<and> retryable e"
        using ih e pauses by (cases i) auto
    qed
    ultimately show ?thesis using ih pauses by simp
  qed
qed

section \<open>Ticks empty the queues\<close>

lemma queue_key: "queue_of m d \<noteq> [] \<Longrightarrow> d \<in> set (map fst m)"
  by (cases "map_of m d") (auto simp: queue_of_def dest: map_of_SomeD intro: rev_image_eqI)

lemma flush_all_empties:
  assumes "quiet s" "small s"
    and "d \<in> set order \<or> queue_of (pdu_queues s) d = [] \<and> queue_of (edu_queues s) d = []"
  shows "queue_of (pdu_queues (flush_all_queues net order s)) d = [] \<and>
         queue_of (edu_queues (flush_all_queues net order s)) d = []"
  using assms unfolding flush_all_queues_def
proof (induction order arbitrary: s)
  case (Cons d' order)
  let ?s = "snd (flush_queue net d' s)"
  have len: "length (queue_of (pdu_queues s) d') \<le> 50" "length (queue_of (edu_queues s) d') \<le> 100"
    using Cons.prems(2) by (auto simp: small_def less_imp_le)
  have "d \<in> set order \<or> queue_of (pdu_queues ?s) d = [] \<and> queue_of (edu_queues ?s) d = []"
    using len Cons.prems(1,3) by (auto simp: flush_queue_effect(3,4))
  then show ?case
    using Cons.IH [of ?s] Cons.prems(1,2) flush_queue_effect(1) flush_queue_small by fastforce
qed simp

section \<open>Claims\<close>

text \<open>
  C11. Nothing is lost, duplicated or reordered on the way to the client: in every run the PDUs put
  into transactions for a destination, followed by those still queued, are exactly the PDUs
  received for it, in order; likewise for EDUs.
\<close>

theorem outbound_fifo:
  assumes "run net s0 ls s"
  shows "sent_pdus d s @ queue_of (pdu_queues s) d = received_pdus d ls \<and>
         sent_edus d s @ queue_of (edu_queues s) d = received_edus d ls"
  using run_invariant [OF assms, of d] by (simp add: books_def)

text \<open>
  C12. Bounds of a run: every transaction holds at most 50 PDUs and 100 EDUs, between steps no
  transaction is in flight, and every queue is shorter than one transaction.
\<close>

theorem outbound_bounds:
  assumes "run net s0 ls s"
  shows "in_flight_transactions s = Map.empty \<and>
         (\<forall>h \<in> set (history s). length (tx_pdus (h_transaction h)) \<le> 50 \<and>
            length (tx_edus (h_transaction h)) \<le> 100) \<and>
         length (queue_of (pdu_queues s) d) < 50 \<and> length (queue_of (edu_queues s) d) < 100"
  using run_invariant [OF assms, of d] by (simp add: quiet_def small_def)

text \<open>
  C39. A tick delivers: after the periodic flush everything received so far has been put into a
  transaction, whatever the network does and in whatever order the
  destinations are flushed.
\<close>

theorem outbound_tick_drains:
  assumes "run net s0 ls s" and "queue_step net s Ticked s'"
  shows "sent_pdus d s' = received_pdus d ls \<and> sent_edus d s' = received_edus d ls"
proof -
  obtain order where order: "set order = destinations s" "s' = flush_all_queues net order s"
    using assms(2) by (elim tickE)
  have "d \<in> set order \<or> queue_of (pdu_queues s) d = [] \<and> queue_of (edu_queues s) d = []"
    using order queue_key [of "pdu_queues s" d] queue_key [of "edu_queues s" d]
    by (auto simp: destinations_def)
  then show ?thesis
    using order run_invariant [OF assms(1), of d] flush_all_effect [of s net order d]
      flush_all_empties [of s d order net]
    by (simp add: books_def)
qed

text \<open>
  Retries end: a transaction is attempted at most six times, with pauses that double from 100
  to 1600 milliseconds, and the result is that of the last attempt; the cap of 30 seconds is never
  reached.
\<close>

theorem retry_bounds:
  assumes "send_transaction_with_retry net c = (result, pauses, c')"
  shows "prefix pauses [100, 200, 400, 800, 1600] \<and> c' = c + length pauses + 1 \<and> c' \<le> c + 6 \<and>
         result = outcome_at net (c' - 1)"
proof -
  have p: "pauses_from 0 = [100, 200, 400, 800, 1600]"
    by (simp add: pauses_from_def upt_rec)
  have "prefix pauses (pauses_from 0) \<and> c' = c + length pauses + 1 \<and> result = outcome_at net (c' - 1)"
    using send_loop_bounds [of 0 100 net c result pauses c'] assms
    by (simp add: send_transaction_with_retry_def)
  moreover then have "length pauses \<le> 5" unfolding p by (auto dest: prefix_length_le)
  ultimately show ?thesis by (simp add: p)
qed

text \<open>
  A failed transaction is dropped: when the destination answers with a server error the flush
  makes one attempt, reports the error, and the PDUs it took are in no queue any more.
\<close>

theorem failed_flush_drops:
  assumes "quiet s" and "outcome_at net (counter s) = Inl (ServerError code message)"
    and "queue_of (pdu_queues s) d = pdus" and "pdus \<noteq> []" and "length pdus \<le> 50"
  shows "fst (flush_queue net d s) = Inl (ServerError code message) \<and>
         queue_of (pdu_queues (snd (flush_queue net d s))) d = [] \<and>
         counter (snd (flush_queue net d s)) = counter s + 1"
proof -
  have "send_transaction_with_retry net (counter s) = (Inl (ServerError code message), [], Suc (counter s))"
    using assms(2) by (simp add: send_transaction_with_retry_def send_loop.simps retryable_def)
  then show ?thesis
    using assms flush_queue_effect(3) [OF assms(1), of net d d]
    by (auto simp: flush_queue_def quiet_def Let_def)
qed

section \<open>Witnesses\<close>

definition flaky :: network where
  "flaky = \<lparr>outcome_at = (\<lambda>c. if c = 0 then Inl (ServerError 503 ''busy'') else Inr ()),
            uuid_at = (\<lambda>c. replicate c CHR ''u''), now_at = int\<rparr>"

definition demo_run :: "(nat, nat) outbound" where
  "demo_run = queue_event flaky (Pdu ''b'' 7) (new_outbound ''a'')"

lemma demo_run: "run flaky (new_outbound ''a'') ([] @ [Received (Pdu ''b'' 7)]) demo_run"
  unfolding demo_run_def by (rule run.more [OF run.start queue_step.receive])

theorem outbound_fifo_witness:
  "sent_pdus ''b'' demo_run @ queue_of (pdu_queues demo_run) ''b'' = [7]"
  using outbound_fifo [OF demo_run] by (simp add: received_pdus_def)

theorem outbound_bounds_witness: "length (queue_of (pdu_queues demo_run) ''b'') < 50"
  using outbound_bounds [OF demo_run] by blast

theorem outbound_tick_drains_witness: "sent_pdus ''b'' (flush_all_queues flaky [''b''] demo_run) = [7]"
proof -
  have "queue_step flaky demo_run Ticked (flush_all_queues flaky [''b''] demo_run)"
    by (rule queue_step.tick)
      (simp_all add: destinations_def demo_run_def new_outbound_def Let_def queue_of_def)
  from outbound_tick_drains [OF demo_run this] show ?thesis by (simp add: received_pdus_def)
qed

theorem retry_bounds_witness:
  "\<exists>result pauses c'. send_transaction_with_retry flaky 3 = (result, pauses, c') \<and> c' \<le> 9"
proof -
  obtain result pauses c' where r: "send_transaction_with_retry flaky 3 = (result, pauses, c')"
    by (metis prod_cases3)
  with retry_bounds [OF r] show ?thesis by auto
qed

theorem failed_flush_drops_witness:
  "fst (flush_queue flaky ''b'' demo_run) = Inl (ServerError 503 ''busy'') \<and>
   queue_of (pdu_queues (snd (flush_queue flaky ''b'' demo_run))) ''b'' = []"
proof -
  have "quiet demo_run" using run_invariant [OF demo_run] by blast
  moreover have "counter demo_run = 0" "queue_of (pdu_queues demo_run) ''b'' = [7]"
    by (simp_all add: demo_run_def new_outbound_def Let_def queue_of_def)
  ultimately show ?thesis
    using failed_flush_drops [of demo_run flaky 503 "''busy''" "''b''" "[7]"] by (simp add: flaky_def)
qed

end
