(* ===== verification/Push_Rules.thy ===== *)
theory Push_Rules
  imports Entity Canonical_Json
begin

text \<open>
  Push rules: the evaluator of the server, \<open>server/src/push/rules.rs\<close>, with its glob patterns, dotted
  paths and word boundaries, and the evaluator of the push repository,
  \<open>surrealdb/src/repository/push.rs\<close>. The Unicode tables behind \<open>to_lowercase\<close> and
  \<open>is_alphanumeric\<close> are the record \<open>unicode\<close>. Cutting a string off a character boundary or
  beyond its end panics in Rust; such a panic is the error value of the evaluation.
\<close>

section \<open>Data\<close>

record unicode =
  to_lowercase :: "string \<Rightarrow> string"
  is_alphanumeric :: "string \<Rightarrow> bool"

datatype panic = StrIndexPanic

datatype push_condition =
    EventMatch string string
  | ContainsDisplayName
  | RoomMemberCount string
  | SenderNotificationPermission string
  | EventPropertyContains string string
  | EventPropertyIs string json

datatype push_action =
    Notify
  | DontNotify
  | Coalesce
  | SetTweak string json

record push_rule =
  pr_rule_id :: string
  pr_priority_class :: int
  pr_priority :: int
  pr_conditions :: "push_condition list"
  pr_actions :: "push_action list"
  pr_default :: bool
  pr_enabled :: bool

record push_rule_evaluation =
  pe_should_notify :: bool
  pe_actions :: "push_action list"
  pe_matched_rule :: "string option"

record room_context =
  rc_room_id :: string
  rc_member_count :: "64 word"
  rc_user_display_name :: "string option"
  rc_power_levels :: "(string \<times> int) list"

text \<open>The fields of a PDU the rules look at, and the event of the push repository.\<close>

record pdu =
  pdu_event_id :: string
  pdu_event_type :: string
  pdu_sender :: string
  pdu_room_id :: string
  pdu_content :: event_content
  pdu_state_key :: "string option"

record push_event =
  pv_event_id :: string
  pv_event_type :: string
  pv_sender :: string
  pv_content :: json
  pv_state_key :: "string option"

section \<open>Patterns and paths\<close>

abbreviation star :: string where "star \<equiv> ''*''"
abbreviation any_char :: string where "any_char \<equiv> ''?''"

text \<open>
  \<open>glob_match_internal\<close> walks over the characters of the pattern; a star that is not the last
  character tries the rest of the pattern at each remaining position of the value, \<open>glob_tails\<close>.
\<close>

function glob_match_internal :: "string list \<Rightarrow> string list \<Rightarrow> bool"
and glob_tails :: "string list \<Rightarrow> string list \<Rightarrow> bool" where
  "glob_match_internal [] v = (v = [])"
| "glob_match_internal (p # ps) v =
     (if p = star then ps = [] \<or> glob_tails ps v
      else if p = any_char then v \<noteq> [] \<and> glob_match_internal ps (tl v)
      else v \<noteq> [] \<and> p = hd v \<and> glob_match_internal ps (tl v))"
| "glob_tails ps [] = False"
| "glob_tails ps (c # v) = (glob_match_internal ps (c # v) \<or> glob_tails ps v)"
  by pat_completeness auto

termination
  by (relation "inv_image (less_than <*lex*> (less_than <*lex*> less_than))
    (\<lambda>x. case x of Inl (p, v) \<Rightarrow> (length p, length v, 0) | Inr (p, v) \<Rightarrow> (length p, length v, Suc 0))") auto

definition glob_match :: "unicode \<Rightarrow> string \<Rightarrow> string \<Rightarrow> bool" where
  "glob_match u pattern v =
     glob_match_internal (utf8_chars (to_lowercase u pattern)) (utf8_chars (to_lowercase u v))"

text \<open>
  The loop of \<open>parse_dot_path\<close>, with the current part and the characters still to read. The
  separator and the escape character are ASCII, so the walk over bytes is the walk over characters.
\<close>

abbreviation backslash :: char where "backslash \<equiv> CHR 0x5C"

fun parse_dot_loop :: "string \<Rightarrow> string \<Rightarrow> string list" where
  "parse_dot_loop current [] = (if current = [] then [] else [current])"
| "parse_dot_loop current (ch # cs) =
     (if ch = backslash
      then (case cs of
              [] \<Rightarrow> parse_dot_loop (current @ [ch]) []
            | next # rest \<Rightarrow>
                if next = CHR ''.'' \<or> next = backslash then parse_dot_loop (current @ [next]) rest
                else parse_dot_loop (current @ [ch]) cs)
      else if ch = CHR ''.''
      then (if current = [] then parse_dot_loop [] cs else current # parse_dot_loop [] cs)
      else parse_dot_loop (current @ [ch]) cs)"

definition parse_dot_path :: "string \<Rightarrow> string list" where
  "parse_dot_path path = parse_dot_loop [] path"

fun get_nested_value :: "json \<Rightarrow> string list \<Rightarrow> json option" where
  "get_nested_value v [] = Some v"
| "get_nested_value v (part # parts) = Option.bind (get v part) (\<lambda>v'. get_nested_value v' parts)"

text \<open>A position of the body is a word boundary at the ends and next to a character of no word.\<close>

definition word_char :: "unicode \<Rightarrow> string \<Rightarrow> bool" where
  "word_char u c \<longleftrightarrow> is_alphanumeric u c \<or> c = ''_''"

definition start_ok :: "unicode \<Rightarrow> string \<Rightarrow> nat \<Rightarrow> bool" where
  "start_ok u body i \<longleftrightarrow> i = 0 \<or>
     (case rev (utf8_chars (take i body)) of [] \<Rightarrow> False | prev # _ \<Rightarrow> \<not> word_char u prev)"

definition end_ok :: "unicode \<Rightarrow> string \<Rightarrow> nat \<Rightarrow> bool" where
  "end_ok u body i \<longleftrightarrow> i = length body \<or>
     (case utf8_chars (drop i body) of [] \<Rightarrow> False | next # _ \<Rightarrow> \<not> word_char u next)"

function word_loop :: "unicode \<Rightarrow> string \<Rightarrow> string \<Rightarrow> nat \<Rightarrow> panic + bool" where
  "word_loop u body pattern start =
     (if length body < start \<or> \<not> is_char_boundary body start then Inl StrIndexPanic
      else case find_str pattern (drop start body) of
             None \<Rightarrow> Inr False
           | Some pos \<Rightarrow>
               let actual_pos = start + pos; end_pos = actual_pos + length pattern in
               if start_ok u body actual_pos \<and> end_ok u body end_pos then Inr True
               else word_loop u body pattern (actual_pos + 1))"
  by pat_completeness auto

termination
  by (relation "measure (\<lambda>(u, body, pattern, start). Suc (length body) - start)") auto

declare word_loop.simps [simp del]

definition match_at_word_boundary :: "unicode \<Rightarrow> string \<Rightarrow> string \<Rightarrow> panic + bool" where
  "match_at_word_boundary u body pattern =
     word_loop u (to_lowercase u body) (to_lowercase u pattern) 0"

section \<open>Conditions of the server's evaluator\<close>

definition evaluate_event_match :: "unicode \<Rightarrow> string \<Rightarrow> string \<Rightarrow> pdu \<Rightarrow> panic + bool" where
  "evaluate_event_match u key pattern e =
     (case parse_dot_path key of
        [] \<Rightarrow> Inr False
      | first # remaining_path \<Rightarrow>
          if key = ''content.body''
          then (case Option.bind (content_get (pdu_content e) ''body'') as_str of
                  Some body \<Rightarrow> match_at_word_boundary u body pattern
                | None \<Rightarrow> Inr False)
          else if first = ''type'' then Inr (glob_match u pattern (pdu_event_type e))
          else if first = ''sender'' then Inr (glob_match u pattern (pdu_sender e))
          else if first = ''room_id'' then Inr (glob_match u pattern (pdu_room_id e))
          else if first = ''state_key''
          then Inr (case pdu_state_key e of Some state_key \<Rightarrow> glob_match u pattern state_key | None \<Rightarrow> False)
          else if first = ''content'' \<and> remaining_path \<noteq> []
          then Inr (case Option.bind (as_object (content_to_value (pdu_content e)))
                           (\<lambda>obj. Option.bind (get_nested_value (JObject obj) remaining_path) as_str) of
                      Some v \<Rightarrow> glob_match u pattern v
                    | None \<Rightarrow> False)
          else Inr False)"

definition evaluate_contains_display_name :: "pdu \<Rightarrow> room_context \<Rightarrow> bool" where
  "evaluate_contains_display_name e ctxt =
     (case (rc_user_display_name ctxt, Option.bind (content_get (pdu_content e) ''body'') as_str) of
        (Some display_name, Some body) \<Rightarrow> contains_str body display_name
      | _ \<Rightarrow> False)"

definition parse_u64 :: "string \<Rightarrow> 64 word option" where
  "parse_u64 s = map_option of_nat (parse_unsigned 18446744073709551615 s)"

definition evaluate_room_member_count :: "string \<Rightarrow> room_context \<Rightarrow> bool" where
  "evaluate_room_member_count is_condition ctxt =
     (case strip_prefix ''=='' is_condition of
        Some num_str \<Rightarrow> (case parse_u64 num_str of Some num \<Rightarrow> rc_member_count ctxt = num | None \<Rightarrow> False)
      | None \<Rightarrow>
          (case strip_prefix ''>'' is_condition of
             Some num_str \<Rightarrow> (case parse_u64 num_str of Some num \<Rightarrow> rc_member_count ctxt > num | None \<Rightarrow> False)
           | None \<Rightarrow>
               (case strip_prefix ''<'' is_condition of
                  Some num_str \<Rightarrow> (case parse_u64 num_str of Some num \<Rightarrow> rc_member_count ctxt < num | None \<Rightarrow> False)
                | None \<Rightarrow> False)))"

definition evaluate_sender_notification_permission :: "string \<Rightarrow> string \<Rightarrow> room_context \<Rightarrow> bool" where
  "evaluate_sender_notification_permission key sender ctxt =
     (case map_of (rc_power_levels ctxt) sender of
        Some sender_power \<Rightarrow> sender_power \<ge> (if key = ''room'' then 50 else 0)
      | None \<Rightarrow> False)"

text \<open>The two keys about mentions; the backslash of the source is part of the key.\<close>

definition user_mentions_key :: string where
  "user_mentions_key = ''content.m'' @ [backslash] @ ''.mentions.user_ids''"

definition room_mention_key :: string where
  "room_mention_key = ''content.m'' @ [backslash] @ ''.mentions.room''"

definition evaluate_event_property_contains :: "string \<Rightarrow> string \<Rightarrow> pdu \<Rightarrow> bool" where
  "evaluate_event_property_contains key v e =
     (if key = user_mentions_key
      then case Option.bind (content_get (pdu_content e) ''m.mentions'') (\<lambda>mentions.
                  Option.bind (get mentions ''user_ids'') as_array) of
             Some user_ids \<Rightarrow>
               list_ex (\<lambda>i. case as_str i of Some s \<Rightarrow> contains_str s v | None \<Rightarrow> False) user_ids
           | None \<Rightarrow> False
      else False)"

definition evaluate_event_property_is :: "string \<Rightarrow> json \<Rightarrow> pdu \<Rightarrow> bool" where
  "evaluate_event_property_is key v e =
     (if key = room_mention_key
      then case Option.bind (content_get (pdu_content e) ''m.mentions'') (\<lambda>mentions. get mentions ''room'') of
             Some room_mention \<Rightarrow> canon room_mention = canon v
           | None \<Rightarrow> False
      else False)"

fun evaluate_condition :: "unicode \<Rightarrow> push_condition \<Rightarrow> pdu \<Rightarrow> room_context \<Rightarrow> panic + bool" where
  "evaluate_condition u (EventMatch key pattern) e ctxt = evaluate_event_match u key pattern e"
| "evaluate_condition u ContainsDisplayName e ctxt = Inr (evaluate_contains_display_name e ctxt)"
| "evaluate_condition u (RoomMemberCount is_condition) e ctxt = Inr (evaluate_room_member_count is_condition ctxt)"
| "evaluate_condition u (SenderNotificationPermission key) e ctxt =
     Inr (evaluate_sender_notification_permission key (pdu_sender e) ctxt)"
| "evaluate_condition u (EventPropertyContains key v) e ctxt = Inr (evaluate_event_property_contains key v e)"
| "evaluate_condition u (EventPropertyIs key v) e ctxt = Inr (evaluate_event_property_is key v e)"

fun evaluate_conditions :: "unicode \<Rightarrow> push_condition list \<Rightarrow> pdu \<Rightarrow> room_context \<Rightarrow> panic + bool" where
  "evaluate_conditions u [] e ctxt = Inr True"
| "evaluate_conditions u (condition # conditions) e ctxt =
     bindR (evaluate_condition u condition e ctxt) (\<lambda>holds.
     if holds then evaluate_conditions u conditions e ctxt else Inr False)"

section \<open>The evaluation\<close>

fun first_match :: "unicode \<Rightarrow> push_rule list \<Rightarrow> pdu \<Rightarrow> room_context \<Rightarrow> panic + push_action list" where
  "first_match u [] e ctxt = Inr []"
| "first_match u (rule # rules) e ctxt =
     (if \<not> pr_enabled rule then first_match u rules e ctxt
      else bindR (evaluate_conditions u (pr_conditions rule) e ctxt) (\<lambda>holds.
           if holds then Inr (pr_actions rule) else first_match u rules e ctxt))"

definition evaluate_event :: "unicode \<Rightarrow> push_rule list \<Rightarrow> pdu \<Rightarrow> room_context \<Rightarrow> panic + push_action list" where
  "evaluate_event u default_rules e ctxt =
     bindR (first_match u (sort_key pr_priority_class (sort_key pr_priority default_rules)) e ctxt) (\<lambda>actions.
     Inr (if actions = [] then [Notify] else actions))"

definition sound_tweak :: push_action where
  "sound_tweak = SetTweak ''sound'' (JString ''default'')"

definition highlight_tweak :: push_action where
  "highlight_tweak = SetTweak ''highlight'' (JBool True)"

definition master_rule :: push_rule where
  "master_rule = \<lparr>pr_rule_id = ''.m.rule.master'', pr_priority_class = 5, pr_priority = 0,
     pr_conditions = [], pr_actions = [DontNotify], pr_default = True, pr_enabled = False\<rparr>"

definition display_name_rule :: push_rule where
  "display_name_rule = \<lparr>pr_rule_id = ''.m.rule.contains_display_name'', pr_priority_class = 4, pr_priority = 0,
     pr_conditions = [ContainsDisplayName], pr_actions = [Notify, sound_tweak, highlight_tweak],
     pr_default = True, pr_enabled = True\<rparr>"

definition message_rule :: push_rule where
  "message_rule = \<lparr>pr_rule_id = ''.m.rule.message'', pr_priority_class = 1, pr_priority = 0,
     pr_conditions = [EventMatch ''type'' ''m.room.message''], pr_actions = [Notify],
     pr_default = True, pr_enabled = True\<rparr>"

definition get_default_rules :: "push_rule list" where
  "get_default_rules =
     [master_rule, display_name_rule,
      \<lparr>pr_rule_id = ''.m.rule.is_user_mention'', pr_priority_class = 4, pr_priority = 1,
       pr_conditions = [EventPropertyContains user_mentions_key
         (''[the user'' @ [CHR 0x27] @ ''s Matrix ID]'')],
       pr_actions = [Notify, sound_tweak, highlight_tweak], pr_default = True, pr_enabled = True\<rparr>,
      \<lparr>pr_rule_id = ''.m.rule.is_room_mention'', pr_priority_class = 4, pr_priority = 2,
       pr_conditions = [EventPropertyIs room_mention_key (JBool True), SenderNotificationPermission ''room''],
       pr_actions = [Notify, highlight_tweak], pr_default = True, pr_enabled = True\<rparr>,
      message_rule]"

section \<open>The evaluator of the repository\<close>

definition repo_event_match :: "string \<Rightarrow> string \<Rightarrow> push_event \<Rightarrow> bool" where
  "repo_event_match key pattern e =
     (if key = ''type'' then contains_str (pv_event_type e) pattern
      else if key = ''content.msgtype''
      then (case get (pv_content e) ''msgtype'' of
              Some msgtype \<Rightarrow> contains_str (unwrap_or [] (as_str msgtype)) pattern | None \<Rightarrow> False)
      else if key = ''content.body''
      then (case get (pv_content e) ''body'' of
              Some body \<Rightarrow> contains_str (unwrap_or [] (as_str body)) pattern | None \<Rightarrow> False)
      else False)"

definition repo_contains_display_name :: "push_event \<Rightarrow> room_context \<Rightarrow> bool" where
  "repo_contains_display_name e ctxt =
     (case (rc_user_display_name ctxt, Option.bind (get (pv_content e) ''body'') as_str) of
        (Some display_name, Some body) \<Rightarrow> contains_str body display_name
      | _ \<Rightarrow> False)"

definition repo_room_member_count :: "string \<Rightarrow> room_context \<Rightarrow> bool" where
  "repo_room_member_count is_condition ctxt =
     (case Option.bind (strip_prefix ''=='' is_condition) parse_u64 of
        Some num \<Rightarrow> rc_member_count ctxt = num
      | None \<Rightarrow>
          (case Option.bind (strip_prefix ''>'' is_condition) parse_u64 of
             Some num \<Rightarrow> rc_member_count ctxt > num
           | None \<Rightarrow>
               (case Option.bind (strip_prefix ''<'' is_condition) parse_u64 of
                  Some num \<Rightarrow> rc_member_count ctxt < num
                | None \<Rightarrow> False)))"

definition repo_event_property_contains :: "string \<Rightarrow> string \<Rightarrow> push_event \<Rightarrow> bool" where
  "repo_event_property_contains key v e =
     (if key = user_mentions_key
      then case Option.bind (get (pv_content e) ''m.mentions'') (\<lambda>mentions.
                  Option.bind (get mentions ''user_ids'') as_array) of
             Some user_ids \<Rightarrow>
               list_ex (\<lambda>i. case as_str i of Some s \<Rightarrow> contains_str s v | None \<Rightarrow> False) user_ids
           | None \<Rightarrow> False
      else False)"

definition repo_event_property_is :: "string \<Rightarrow> json \<Rightarrow> push_event \<Rightarrow> bool" where
  "repo_event_property_is key v e =
     (if key = room_mention_key
      then case Option.bind (get (pv_content e) ''m.mentions'') (\<lambda>mentions. get mentions ''room'') of
             Some room_mention \<Rightarrow> canon room_mention = canon v
           | None \<Rightarrow> False
      else False)"

fun repo_condition :: "push_condition \<Rightarrow> push_event \<Rightarrow> room_context \<Rightarrow> bool" where
  "repo_condition (EventMatch key pattern) e ctxt = repo_event_match key pattern e"
| "repo_condition ContainsDisplayName e ctxt = repo_contains_display_name e ctxt"
| "repo_condition (RoomMemberCount is_condition) e ctxt = repo_room_member_count is_condition ctxt"
| "repo_condition (SenderNotificationPermission key) e ctxt =
     evaluate_sender_notification_permission key (pv_sender e) ctxt"
| "repo_condition (EventPropertyContains key v) e ctxt = repo_event_property_contains key v e"
| "repo_condition (EventPropertyIs key v) e ctxt = repo_event_property_is key v e"

definition repo_conditions :: "push_condition list \<Rightarrow> push_event \<Rightarrow> room_context \<Rightarrow> bool" where
  "repo_conditions conditions e ctxt = list_all (\<lambda>c. repo_condition c e ctxt) conditions"

fun repo_first_match :: "push_rule list \<Rightarrow> push_event \<Rightarrow> room_context \<Rightarrow> push_rule_evaluation" where
  "repo_first_match [] e ctxt = \<lparr>pe_should_notify = True, pe_actions = [Notify], pe_matched_rule = None\<rparr>"
| "repo_first_match (rule # rules) e ctxt =
     (if pr_enabled rule \<and> repo_conditions (pr_conditions rule) e ctxt
      then \<lparr>pe_should_notify = List.member (pr_actions rule) Notify, pe_actions = pr_actions rule,
            pe_matched_rule = Some (pr_rule_id rule)\<rparr>
      else repo_first_match rules e ctxt)"

definition get_default_push_rules :: "push_rule list" where
  "get_default_push_rules =
     [master_rule, display_name_rule, message_rule,
      \<lparr>pr_rule_id = ''.m.rule.member_event'', pr_priority_class = 1, pr_priority = 10,
       pr_conditions = [EventMatch ''type'' ''m.room.member''], pr_actions = [Notify],
       pr_default = True, pr_enabled = True\<rparr>]"

text \<open>\<open>user_rules\<close> is the answer of the query for the rules of a user, ordered by class and priority.\<close>

definition evaluate_push_rules ::
  "(string \<Rightarrow> repository_error + push_rule list) \<Rightarrow> string \<Rightarrow> push_event \<Rightarrow> room_context \<Rightarrow>
   repository_error + push_rule_evaluation" where
  "evaluate_push_rules user_rules user_id e ctxt =
     bindR (user_rules user_id) (\<lambda>rules.
     Inr (repo_first_match (if rules = [] then get_default_push_rules else rules) e ctxt))"

definition push_event_of :: "pdu \<Rightarrow> push_event" where
  "push_event_of e = \<lparr>pv_event_id = pdu_event_id e, pv_event_type = pdu_event_type e,
     pv_sender = pdu_sender e, pv_content = content_to_value (pdu_content e), pv_state_key = pdu_state_key e\<rparr>"

definition evaluate_event_for_user ::
  "(string \<Rightarrow> repository_error + push_rule list) \<Rightarrow> string \<Rightarrow> pdu \<Rightarrow> room_context \<Rightarrow>
   repository_error + push_rule_evaluation" where
  "evaluate_event_for_user user_rules user_id e ctxt =
     evaluate_push_rules user_rules user_id (push_event_of e) ctxt"

section \<open>Glob patterns\<close>

text \<open>What a pattern means: a star stands for any characters, a question mark for one.\<close>

inductive glob_spec :: "string list \<Rightarrow> string list \<Rightarrow> bool" where
  glob_nil: "glob_spec [] []"
| glob_star: "glob_spec ps v \<Longrightarrow> glob_spec (star # ps) (skipped @ v)"
| glob_any: "glob_spec ps v \<Longrightarrow> glob_spec (any_char # ps) (c # v)"
| glob_char: "p \<noteq> star \<Longrightarrow> p \<noteq> any_char \<Longrightarrow> glob_spec ps v \<Longrightarrow> glob_spec (p # ps) (p # v)"

inductive_cases glob_spec_emptyE: "glob_spec ps []"

lemma glob_sound:
  "glob_match_internal ps v \<Longrightarrow> glob_spec ps v"
  "glob_tails ps v \<Longrightarrow> \<exists>u w. v = u @ w \<and> glob_spec ps w"
proof (induction ps v and ps v rule: glob_match_internal_glob_tails.induct)
  case (2 p ps v)
  show ?case
  proof (cases "p = star")
    case True
    show ?thesis
    proof (cases "ps = []")
      case empty: True
      have "glob_spec [star] (v @ [])" by (rule glob_star) (rule glob_nil)
      with True empty show ?thesis by simp
    next
      case False
      then have "glob_tails ps v" using "2.prems" True by simp
      then obtain u w where "v = u @ w" "glob_spec ps w" using "2.IH"(1) True False by blast
      then show ?thesis using True by (simp add: glob_star)
    qed
  next
    case False
    then obtain c w where v: "v = c # w" using "2.prems" by (cases v) (simp_all split: if_splits)
    show ?thesis
    proof (cases "p = any_char")
      case True
      then have "glob_match_internal ps w" using "2.prems" v by simp
      then have "glob_spec ps w" using "2.IH"(2) True v by simp
      then show ?thesis unfolding v True by (rule glob_any)
    next
      case other: False
      then have "p = c" "glob_match_internal ps w" using "2.prems" v False by simp_all
      then have "glob_spec ps w" using "2.IH"(3) False other v by simp
      with \<open>p = c\<close> False other show ?thesis unfolding v by (auto intro: glob_char)
    qed
  qed
next
  case (4 ps c v)
  from "4.prems" consider "glob_match_internal ps (c # v)" | "glob_tails ps v" by auto
  then show ?case
  proof cases
    case 1
    then have "c # v = [] @ (c # v) \<and> glob_spec ps (c # v)" using "4.IH"(1) by simp
    then show ?thesis by blast
  next
    case 2
    then obtain u w where "v = u @ w" "glob_spec ps w" using "4.IH"(2) by blast
    then have "c # v = (c # u) @ w \<and> glob_spec ps w" by simp
    then show ?thesis by blast
  qed
qed (auto intro: glob_nil)

lemma glob_spec_empty: "glob_spec ps [] \<Longrightarrow> set ps \<subseteq> {star}"
proof (induction ps)
  case (Cons p ps)
  then show ?case by (auto elim: glob_spec_emptyE)
qed simp

lemma glob_tails_append: "glob_match_internal ps v \<Longrightarrow> v \<noteq> [] \<Longrightarrow> glob_tails ps (u @ v)"
proof (induction u)
  case Nil
  then show ?case by (cases v) auto
qed auto

lemma double_star_end:
  assumes "ps \<noteq> []" and "set ps \<subseteq> {star}"
  shows "suffix [star, star] (star # ps)"
proof -
  have "butlast (star # ps) @ [last (star # ps)] = star # ps" by simp
  obtain qs where "ps = qs @ [star]"
    using assms by (metis append_butlast_last_id last_in_set singletonD subsetD)
  moreover obtain rs where "star # qs = rs @ [star]"
  proof (cases qs rule: rev_cases)
    case Nil
    then show ?thesis by (intro that [of "[]"]) simp
  next
    case (snoc ts t)
    then have "t = star" using assms(2) calculation by auto
    with snoc show ?thesis by (intro that [of "star # ts"]) simp
  qed
  ultimately have "star # ps = rs @ [star, star]" by simp
  then show ?thesis by (auto simp: suffix_def)
qed

lemma glob_complete: "glob_spec ps v \<Longrightarrow> \<not> suffix [star, star] ps \<Longrightarrow> glob_match_internal ps v"
proof (induction rule: glob_spec.induct)
  case (glob_star ps v skipped)
  then have m: "glob_match_internal ps v" by (auto simp: suffix_Cons)
  show ?case
  proof (cases "ps = []")
    case False
    have "v \<noteq> []"
      using double_star_end [OF False] glob_spec_empty [of ps] glob_star by blast
    with m show ?thesis by (simp add: glob_tails_append)
  qed simp
qed (auto simp: suffix_Cons)

section \<open>Dotted paths\<close>

text \<open>A path whose parts may hold dots and backslashes, as a key is written.\<close>

definition escape_part :: "string \<Rightarrow> string" where
  "escape_part s = concat (map (\<lambda>c. if c = CHR ''.'' \<or> c = backslash then [backslash, c] else [c]) s)"

fun dot_path :: "string list \<Rightarrow> string" where
  "dot_path [] = []"
| "dot_path [p] = escape_part p"
| "dot_path (p # ps) = escape_part p @ CHR ''.'' # dot_path ps"

lemma parse_escaped: "parse_dot_loop current (escape_part s @ rest) = parse_dot_loop (current @ s) rest"
proof (induction s arbitrary: current)
  case Nil
  show ?case by (simp add: escape_part_def)
next
  case (Cons c s)
  have IH: "parse_dot_loop (current @ [c])
      (concat (map (\<lambda>c. if c = CHR ''.'' \<or> c = backslash then [backslash, c] else [c]) s) @ rest) =
      parse_dot_loop (current @ c # s) rest"
    using Cons.IH [of "current @ [c]"] by (simp add: escape_part_def)
  show ?case
    by (cases "c = CHR ''.'' \<or> c = backslash") (auto simp: escape_part_def IH)
qed

lemma parse_dot_path_roundtrip: "[] \<notin> set parts \<Longrightarrow> parse_dot_path (dot_path parts) = parts"
proof (induction parts rule: dot_path.induct)
  case (2 p)
  then show ?case using parse_escaped [of "[]" p "[]"] by (simp add: parse_dot_path_def)
next
  case (3 p q ps)
  then show ?case by (auto simp: parse_dot_path_def parse_escaped)
qed (simp add: parse_dot_path_def)

section \<open>Words\<close>

lemma find_str_Some:
  "find_str p s = Some i \<Longrightarrow> i \<le> length s \<and> prefix p (drop i s) \<and> (\<forall>j < i. \<not> prefix p (drop j s))"
proof (induction s arbitrary: i)
  case (Cons c s)
  show ?case
  proof (cases "prefix p (c # s)")
    case True
    then show ?thesis using Cons.prems by (simp add: strip_prefix_None_iff)
  next
    case False
    then obtain k where k: "find_str p s = Some k" "i = Suc k"
      using Cons.prems by (auto simp: strip_prefix_None_iff)
    have "\<not> prefix p (drop j (c # s))" if "j < i" for j
      using that Cons.IH [OF k(1)] k(2) False by (cases j) auto
    then show ?thesis using Cons.IH [OF k(1)] k(2) by simp
  qed
qed (auto split: if_splits)

lemma find_str_None: "find_str p s = None \<Longrightarrow> j \<le> length s \<Longrightarrow> \<not> prefix p (drop j s)"
proof (induction s arbitrary: j)
  case (Cons c s)
  then show ?case by (cases j) (auto simp: strip_prefix_None_iff split: if_splits)
qed (auto split: if_splits)

definition ascii_text :: "string \<Rightarrow> bool" where
  "ascii_text s \<longleftrightarrow> (\<forall>c \<in> set s. (of_char c :: nat) < 128)"

lemma ascii_boundary:
  assumes "ascii_text s" and "i \<le> length s"
  shows "is_char_boundary s i"
proof (cases "i = length s")
  case False
  then have "s ! i \<in> set s" using assms(2) by simp
  then show ?thesis using assms by (auto simp: ascii_text_def is_char_boundary_def continues_char_def)
qed (simp add: is_char_boundary_def)

lemma utf8_chars_ascii: "ascii_text s \<Longrightarrow> utf8_chars s = map (\<lambda>c. [c]) s"
proof (induction s)
  case (Cons c s)
  then have "utf8_chars s = map (\<lambda>c. [c]) s" by (simp add: ascii_text_def)
  moreover have "takeWhile continues_char s = []" "dropWhile continues_char s = s"
    using Cons.prems by (cases s; auto simp: ascii_text_def continues_char_def)+
  ultimately show ?case by simp
qed simp

text \<open>An occurrence of the pattern between word boundaries.\<close>

definition word_at :: "unicode \<Rightarrow> string \<Rightarrow> string \<Rightarrow> nat \<Rightarrow> bool" where
  "word_at u body pattern i \<longleftrightarrow> i \<le> length body \<and> prefix pattern (drop i body) \<and>
     start_ok u body i \<and> end_ok u body (i + length pattern)"

lemma word_loop_exact:
  "ascii_text body \<Longrightarrow> pattern \<noteq> [] \<Longrightarrow> start \<le> length body \<Longrightarrow>
     word_loop u body pattern start = Inr (\<exists>i \<ge> start. word_at u body pattern i)"
proof (induction u body pattern start rule: word_loop.induct)
  case (1 u body pattern start)
  have here: "\<not> (length body < start \<or> \<not> is_char_boundary body start)"
    using "1.prems" ascii_boundary by auto
  show ?case
  proof (cases "find_str pattern (drop start body)")
    case None
    have "\<not> word_at u body pattern i" if "start \<le> i" for i
    proof
      assume w: "word_at u body pattern i"
      then have "prefix pattern (drop (i - start) (drop start body))" "i - start \<le> length (drop start body)"
        using that by (auto simp: word_at_def)
      then show False using find_str_None [OF None] by blast
    qed
    then show ?thesis using None here by (subst word_loop.simps) auto
  next
    case (Some pos)
    note pos = find_str_Some [OF Some]
    let ?i = "start + pos"
    have i: "prefix pattern (drop ?i body)" "?i \<le> length body" using pos here by (auto simp: add.commute)
    have before: "\<not> prefix pattern (drop j body)" if "start \<le> j" "j < ?i" for j
    proof -
      have "j - start < pos" using that by simp
      then have "\<not> prefix pattern (drop (j - start) (drop start body))" using pos by blast
      then show ?thesis using that by simp
    qed
    show ?thesis
    proof (cases "start_ok u body ?i \<and> end_ok u body (?i + length pattern)")
      case True
      then have "word_at u body pattern ?i" using i by (simp add: word_at_def)
      then have "\<exists>i \<ge> start. word_at u body pattern i" using le_add1 by blast
      moreover have "word_loop u body pattern start = Inr True"
        using here Some True by (subst word_loop.simps) (simp add: Let_def)
      ultimately show ?thesis by simp
    next
      case False
      have "length pattern \<le> length (drop ?i body)" using prefix_length_le [OF i(1)] .
      then have le: "?i + 1 \<le> length body" using "1.prems"(2) i(2) by (cases pattern) auto
      have loop: "word_loop u body pattern start = word_loop u body pattern (?i + 1)"
        using here Some False by (subst word_loop.simps) (auto simp: Let_def)
      have IH: "word_loop u body pattern (?i + 1) = Inr (\<exists>i \<ge> ?i + 1. word_at u body pattern i)"
        using "1.IH" [OF here Some refl refl False "1.prems"(1,2) le] .
      have "(\<exists>i \<ge> ?i + 1. word_at u body pattern i) \<longleftrightarrow> (\<exists>i \<ge> start. word_at u body pattern i)"
      proof
        assume "\<exists>i \<ge> start. word_at u body pattern i"
        then obtain k where k: "start \<le> k" "word_at u body pattern k" by blast
        have "k \<noteq> ?i" using k(2) False by (auto simp: word_at_def)
        moreover have "\<not> k < ?i" using before [of k] k by (auto simp: word_at_def)
        ultimately have "?i + 1 \<le> k" by simp
        with k(2) show "\<exists>i \<ge> ?i + 1. word_at u body pattern i" by blast
      next
        assume "\<exists>i \<ge> ?i + 1. word_at u body pattern i"
        then obtain k where "?i + 1 \<le> k" "word_at u body pattern k" by blast
        then have "start \<le> k \<and> word_at u body pattern k" by simp
        then show "\<exists>i \<ge> start. word_at u body pattern i" by blast
      qed
      then show ?thesis unfolding loop IH by simp
    qed
  qed
qed

text \<open>The empty pattern occurs everywhere; inside a word the search runs off the end.\<close>

lemma word_loop_empty:
  assumes "ascii_text body" and "\<And>c. c \<in> set body \<Longrightarrow> word_char u [c]" and "body \<noteq> []"
  shows "start \<le> Suc (length body) \<Longrightarrow> word_loop u body [] start = Inl StrIndexPanic"
proof (induction "Suc (length body) - start" arbitrary: start)
  case 0
  then show ?case by (subst word_loop.simps) simp
next
  case (Suc n)
  then have le: "start \<le> length body" by simp
  have found: "find_str [] (drop start body) = Some 0" by (cases "drop start body") simp_all
  have "\<not> (start_ok u body start \<and> end_ok u body start)"
  proof (cases "start = 0")
    case True
    have "utf8_chars body = map (\<lambda>c. [c]) body" using assms(1) by (rule utf8_chars_ascii)
    with True show ?thesis using assms(2,3) by (cases body) (simp_all add: end_ok_def)
  next
    case False
    have "ascii_text (take start body)" using assms(1) by (auto simp: ascii_text_def dest: in_set_takeD)
    then have chars: "utf8_chars (take start body) = map (\<lambda>c. [c]) (take start body)"
      by (rule utf8_chars_ascii)
    have "take start body \<noteq> []" using False assms(3) by simp
    then obtain cs c where "take start body = cs @ [c]" by (cases "take start body" rule: rev_cases) auto
    moreover have "c \<in> set body" using calculation by (metis in_set_conv_decomp in_set_takeD)
    ultimately have "\<not> start_ok u body start"
      using assms(2) False unfolding start_ok_def chars by simp
    then show ?thesis by simp
  qed
  then have "word_loop u body [] start = word_loop u body [] (Suc start)"
    using le found ascii_boundary [OF assms(1) le] by (subst word_loop.simps) (auto simp: Let_def)
  then show ?case using Suc by simp
qed

section \<open>Which rule decides\<close>

lemma first_match_cases:
  assumes "first_match u rules e ctxt = Inr acts"
  obtains as r bs where "rules = as @ r # bs" "pr_enabled r"
      "evaluate_conditions u (pr_conditions r) e ctxt = Inr True" "acts = pr_actions r"
      "\<forall>x \<in> set as. pr_enabled x \<longrightarrow> evaluate_conditions u (pr_conditions x) e ctxt = Inr False"
  | "acts = []" "\<forall>x \<in> set rules. pr_enabled x \<longrightarrow> evaluate_conditions u (pr_conditions x) e ctxt = Inr False"
  using assms
proof (induction rules arbitrary: thesis)
  case (Cons rule rules)
  show ?case
  proof (cases "pr_enabled rule \<and> evaluate_conditions u (pr_conditions rule) e ctxt = Inr True")
    case True
    then show ?thesis using Cons.prems(1) [of "[]" rule rules] Cons.prems(3) by simp
  next
    case False
    then have skipped: "pr_enabled rule \<longrightarrow> evaluate_conditions u (pr_conditions rule) e ctxt = Inr False"
      and rest: "first_match u rules e ctxt = Inr acts"
      using Cons.prems(3) by (auto simp: result_simps split: if_splits)
    show ?thesis
    proof (rule Cons.IH [OF _ _ rest])
      fix as r bs
      assume "rules = as @ r # bs" "pr_enabled r" "evaluate_conditions u (pr_conditions r) e ctxt = Inr True"
        "acts = pr_actions r"
        "\<forall>x \<in> set as. pr_enabled x \<longrightarrow> evaluate_conditions u (pr_conditions x) e ctxt = Inr False"
      then show ?thesis using Cons.prems(1) [of "rule # as" r bs] skipped by simp
    qed (use Cons.prems(2) skipped in auto)
  qed
qed simp

text \<open>Without patterns the two evaluators decide every condition alike on untyped content.\<close>

definition no_pattern :: "push_condition \<Rightarrow> bool" where
  "no_pattern c = (case c of EventMatch key pattern \<Rightarrow> False | _ \<Rightarrow> True)"

lemma member_counts_agree: "repo_room_member_count is_condition ctxt = evaluate_room_member_count is_condition ctxt"
  by (auto simp: repo_room_member_count_def evaluate_room_member_count_def strip_prefix_iff
      split: option.splits)

lemma conditions_agree:
  assumes "pdu_content e = Unknown (JObject ms)" and "no_pattern c"
  shows "evaluate_condition u c e ctxt = Inr (repo_condition c (push_event_of e) ctxt)"
  using assms(2)
  by (cases c)
    (simp_all add: assms(1) no_pattern_def member_counts_agree push_event_of_def get_def
      evaluate_contains_display_name_def repo_contains_display_name_def
      evaluate_event_property_contains_def repo_event_property_contains_def
      evaluate_event_property_is_def repo_event_property_is_def)

lemma conditions_list_agree:
  assumes "pdu_content e = Unknown (JObject ms)" and "list_all no_pattern cs"
  shows "evaluate_conditions u cs e ctxt = Inr (repo_conditions cs (push_event_of e) ctxt)"
  using assms(2) by (induction cs) (auto simp: conditions_agree [OF assms(1)] repo_conditions_def)

lemma first_match_agree:
  assumes "pdu_content e = Unknown (JObject ms)"
    and "\<forall>r \<in> set rules. list_all no_pattern (pr_conditions r)"
  shows "\<exists>acts. first_match u rules e ctxt = Inr acts \<and>
    (if acts = [] then [Notify] else acts) =
    (let ev = repo_first_match rules (push_event_of e) ctxt
     in if pe_actions ev = [] then [Notify] else pe_actions ev)"
  using assms(2) by (induction rules) (auto simp: conditions_list_agree [OF assms(1)] Let_def)

section \<open>Claims\<close>

text \<open>
  C33. The glob matcher computes the meaning of its pattern, character by character after lower
  casing, for every pattern that does not end in two stars; what it accepts is always right, and
  two stars do not match the empty string.
\<close>

theorem glob_match_exact:
  "(glob_match u pattern v \<longrightarrow>
      glob_spec (utf8_chars (to_lowercase u pattern)) (utf8_chars (to_lowercase u v))) \<and>
   (\<not> suffix [star, star] (utf8_chars (to_lowercase u pattern)) \<longrightarrow>
      glob_match u pattern v = glob_spec (utf8_chars (to_lowercase u pattern)) (utf8_chars (to_lowercase u v))) \<and>
   glob_spec [star, star] [] \<and> \<not> glob_match_internal [star, star] []"
proof -
  have "glob_spec [star, star] ([] @ [] @ [])" by (intro glob_star glob_nil)
  then show ?thesis using glob_sound(1) glob_complete by (auto simp: glob_match_def)
qed

text \<open>
  Keys are read as they are written: parsing the dotted path of any sequence of non-empty parts,
  with dots and backslashes inside a part escaped, gives the parts back.
\<close>

theorem dot_path_roundtrip:
  assumes "[] \<notin> set parts"
  shows "parse_dot_path (dot_path parts) = parts"
  using assms by (rule parse_dot_path_roundtrip)

text \<open>
  The rule that decides: of the enabled rules whose conditions hold, one with the smallest class
  and within it the smallest priority gives the actions; when none holds, or it has no actions, the
  event is notified.
\<close>

theorem push_rule_priority:
  assumes "evaluate_event u rules e ctxt = Inr acts"
  shows "(\<exists>r \<in> set rules. pr_enabled r \<and> evaluate_conditions u (pr_conditions r) e ctxt = Inr True \<and>
      acts = (if pr_actions r = [] then [Notify] else pr_actions r) \<and>
      (\<forall>r' \<in> set rules. pr_enabled r' \<and> evaluate_conditions u (pr_conditions r') e ctxt = Inr True \<longrightarrow>
         pr_priority_class r < pr_priority_class r' \<or>
         pr_priority_class r = pr_priority_class r' \<and> pr_priority r \<le> pr_priority r')) \<or>
    acts = [Notify] \<and>
      (\<forall>r \<in> set rules. pr_enabled r \<longrightarrow> evaluate_conditions u (pr_conditions r) e ctxt = Inr False)"
proof -
  let ?sorted = "sort_key pr_priority_class (sort_key pr_priority rules)"
  obtain found where found: "first_match u ?sorted e ctxt = Inr found"
    and acts: "acts = (if found = [] then [Notify] else found)"
    using assms by (auto simp: evaluate_event_def result_simps)
  have rules: "set ?sorted = set rules" by simp
  show ?thesis
    using found
  proof (cases rule: first_match_cases)
    case (1 as r bs)
    have "r \<in> set rules" using 1(1) rules by (metis in_set_conv_decomp)
    moreover have "pr_priority_class r < pr_priority_class r' \<or>
        pr_priority_class r = pr_priority_class r' \<and> pr_priority r \<le> pr_priority r'"
      if r': "r' \<in> set rules" "pr_enabled r'" "evaluate_conditions u (pr_conditions r') e ctxt = Inr True" for r'
    proof -
      have "r' \<in> set (as @ r # bs)" using r'(1) 1(1) rules by simp
      moreover have "r' \<notin> set as" using r' 1(5) by auto
      ultimately have "r' = r \<or> r' \<in> set bs" by auto
      then show ?thesis using sort_key_twice [OF 1(1)] by auto
    qed
    ultimately show ?thesis using 1 acts by blast
  next
    case 2
    then show ?thesis using acts rules by auto
  qed
qed

text \<open>
  Among the default rules the lowest class wins, so every message is notified plainly: the rule
  for all messages hides the rules for display names and mentions, whose highlight is never set.
\<close>

theorem message_rule_hides_highlights:
  assumes "pdu_event_type e = ''m.room.message''" and "to_lowercase u ''m.room.message'' = ''m.room.message''"
  shows "evaluate_event u get_default_rules e ctxt = Inr [Notify] \<and>
    (evaluate_contains_display_name e ctxt \<longrightarrow>
       evaluate_event u [display_name_rule] e ctxt = Inr [Notify, sound_tweak, highlight_tweak])"
proof -
  have "glob_match u ''m.room.message'' ''m.room.message''"
    by (simp add: glob_match_def assms(2) continues_char_def)
  then have "evaluate_conditions u (pr_conditions message_rule) e ctxt = Inr True"
    by (simp add: message_rule_def evaluate_event_match_def parse_dot_path_def assms(1))
  moreover have "sort_key pr_priority_class (sort_key pr_priority get_default_rules) =
      message_rule # filter (\<lambda>r. pr_priority_class r = 4) get_default_rules @ [master_rule]"
    by (simp add: get_default_rules_def master_rule_def message_rule_def display_name_rule_def)
  ultimately show ?thesis
    by (simp add: evaluate_event_def) (simp add: message_rule_def display_name_rule_def)
qed

text \<open>
  The two evaluators agree: on untyped content and rules without patterns, the actions the server
  computes from a user's rules are those the repository reports for the same rules in query order.
\<close>

theorem push_evaluators_agree:
  assumes "pdu_content e = Unknown (JObject ms)" and "rules \<noteq> []"
    and "\<forall>r \<in> set rules. list_all no_pattern (pr_conditions r)"
    and "user_rules user_id = Inr (sort_key pr_priority_class (sort_key pr_priority rules))"
  shows "\<exists>ev. evaluate_event_for_user user_rules user_id e ctxt = Inr ev \<and>
    evaluate_event u rules e ctxt = Inr (if pe_actions ev = [] then [Notify] else pe_actions ev)"
proof -
  let ?sorted = "sort_key pr_priority_class (sort_key pr_priority rules)"
  have "?sorted \<noteq> []" using assms(2) by (metis set_empty set_sort)
  then have "evaluate_event_for_user user_rules user_id e ctxt =
      Inr (repo_first_match ?sorted (push_event_of e) ctxt)"
    by (simp add: evaluate_event_for_user_def evaluate_push_rules_def assms(4))
  moreover obtain acts where "first_match u ?sorted e ctxt = Inr acts"
    "(if acts = [] then [Notify] else acts) =
       (let ev = repo_first_match ?sorted (push_event_of e) ctxt
        in if pe_actions ev = [] then [Notify] else pe_actions ev)"
    using first_match_agree [OF assms(1), of ?sorted u ctxt] assms(3) by auto
  ultimately show ?thesis by (simp add: evaluate_event_def Let_def)
qed

text \<open>
  Words in a body: for ASCII text and a non-empty pattern the search finds exactly the
  occurrences between word boundaries. The empty pattern makes it panic on a body that is one word.
\<close>

theorem word_match_exact:
  assumes "ascii_text (to_lowercase u body)" and "to_lowercase u body \<noteq> []"
  shows "(to_lowercase u pattern \<noteq> [] \<longrightarrow> match_at_word_boundary u body pattern =
      Inr (\<exists>i. word_at u (to_lowercase u body) (to_lowercase u pattern) i)) \<and>
    (to_lowercase u pattern = [] \<and> (\<forall>c \<in> set (to_lowercase u body). word_char u [c]) \<longrightarrow>
      match_at_word_boundary u body pattern = Inl StrIndexPanic)"
  using word_loop_exact [OF assms(1), of "to_lowercase u pattern" 0 u]
    word_loop_empty [OF assms(1) _ assms(2), of u 0]
  by (simp add: match_at_word_boundary_def)

section \<open>Witnesses\<close>

definition ascii_unicode :: unicode where
  "ascii_unicode = \<lparr>to_lowercase = (\<lambda>s. s),
     is_alphanumeric = (\<lambda>s. case s of [c] \<Rightarrow> is_ascii_alphanumeric c | _ \<Rightarrow> False)\<rparr>"

definition push_message :: pdu where
  "push_message = \<lparr>pdu_event_id = ''$1'', pdu_event_type = ''m.room.message'', pdu_sender = ''@a:x'',
     pdu_room_id = ''!r:x'', pdu_content = Unknown (JObject [(''body'', JString ''hi bob'')]), pdu_state_key = None\<rparr>"

definition push_context :: room_context where
  "push_context = \<lparr>rc_room_id = ''!r:x'', rc_member_count = 2, rc_user_display_name = Some ''bob'',
     rc_power_levels = [(''@a:x'', 50)]\<rparr>"

theorem glob_match_exact_witness:
  "glob_match ascii_unicode ''m.*'' ''m.room'' \<and> glob_spec (utf8_chars ''m.*'') (utf8_chars ''m.room'')"
proof -
  have m: "glob_match ascii_unicode ''m.*'' ''m.room''"
    by (simp add: glob_match_def ascii_unicode_def continues_char_def)
  then show ?thesis using glob_match_exact [of ascii_unicode "''m.*''" "''m.room''"] by (simp add: ascii_unicode_def)
qed

theorem dot_path_roundtrip_witness:
  "parse_dot_path (''content.m'' @ [backslash] @ ''.relates_to'') = [''content'', ''m.relates_to'']"
  using dot_path_roundtrip [of "[''content'', ''m.relates_to'']"] by (simp add: escape_part_def)

theorem push_rule_priority_witness:
  "evaluate_event ascii_unicode [display_name_rule, message_rule] push_message push_context = Inr [Notify] \<and>
   pr_priority_class message_rule < pr_priority_class display_name_rule"
proof -
  have g: "glob_match ascii_unicode ''m.room.message'' ''m.room.message''"
    by (simp add: glob_match_def ascii_unicode_def continues_char_def)
  have e: "evaluate_event ascii_unicode [display_name_rule, message_rule] push_message push_context = Inr [Notify]"
    by (simp add: evaluate_event_def message_rule_def display_name_rule_def evaluate_event_match_def
        parse_dot_path_def push_message_def g)
  from push_rule_priority [OF e] e show ?thesis by (simp add: message_rule_def display_name_rule_def)
qed

theorem message_rule_hides_highlights_witness:
  "evaluate_event ascii_unicode get_default_rules push_message push_context = Inr [Notify] \<and>
   evaluate_event ascii_unicode [display_name_rule] push_message push_context =
     Inr [Notify, sound_tweak, highlight_tweak]"
proof -
  have "evaluate_contains_display_name push_message push_context"
    by (simp add: evaluate_contains_display_name_def push_message_def push_context_def contains_str_def)
  then show ?thesis
    using message_rule_hides_highlights [of push_message ascii_unicode push_context]
    by (simp add: push_message_def ascii_unicode_def)
qed

theorem push_evaluators_agree_witness:
  "\<exists>ev. evaluate_event_for_user (\<lambda>user_id. Inr [display_name_rule]) ''@b:x'' push_message push_context = Inr ev \<and>
     evaluate_event ascii_unicode [display_name_rule] push_message push_context =
       Inr (if pe_actions ev = [] then [Notify] else pe_actions ev)"
  by (rule push_evaluators_agree [where ms = "[(''body'', JString ''hi bob'')]"])
    (simp_all add: push_message_def display_name_rule_def no_pattern_def)

theorem word_match_exact_witness:
  "match_at_word_boundary ascii_unicode ''bob'' '''' = Inl StrIndexPanic"
proof -
  have lower: "to_lowercase ascii_unicode s = s" for s by (simp add: ascii_unicode_def)
  have "word_char ascii_unicode [CHR ''b'']" "word_char ascii_unicode [CHR ''o'']"
    by (simp_all add: ascii_unicode_def word_char_def is_ascii_alphanumeric_def is_ascii_lower_def
        is_ascii_upper_def is_ascii_digit_def byte_def)
  then show ?thesis
    using word_match_exact [of ascii_unicode "''bob''" "[]"] by (simp add: lower ascii_text_def)
qed

end
