(* ===== verification/Refresh_Tokens.thy ===== *)
theory Refresh_Tokens
  imports Sessions
begin

text \<open>
  Refresh tokens with rotation: the service \<open>server/src/auth/refresh_token.rs\<close>, the queries of
  \<open>surrealdb/src/repository/auth.rs\<close> it runs and the endpoint \<open>client/v3/refresh.rs\<close>. The table maps
  record keys to rows. A call of the database fails when \<open>rw_fail\<close> gives an error for it; how the
  database compares a record identifier with a text is an argument (\<open>rw_id_equals\<close>), since one
  query depends on it. The walk to the root of a rotation chain is a loop that may not end, so
  its result is an option and \<open>None\<close> stands for not returning.
\<close>

section \<open>Data\<close>

record refresh_record =
  rt_token :: string
  rt_user_id :: string
  rt_device_id :: string
  rt_access_token :: string
  rt_created_at :: int
  rt_expires_at :: int
  rt_used :: bool
  rt_revoked :: bool
  rt_rotation_count :: int
  rt_parent_token :: "string option"

type_synonym token_table = "string \<rightharpoonup> refresh_record"

record token_pair =
  tp_access_token :: string
  tp_refresh_token :: string
  tp_expires_in :: int
  tp_device_id :: string

record refresh_response =
  rr_access_token :: string
  rr_refresh_token :: string
  rr_token_type :: string
  rr_expires_in :: int

datatype token_call = StoreToken | GetToken | MarkUsed | RevokeUser | RevokeDevice | RevokeChain | CleanupTokens

record refresh_world =
  rw_session :: session_world
  rw_fail :: "token_call \<Rightarrow> repository_error option"
  rw_id_equals :: "string \<Rightarrow> string \<Rightarrow> bool"
  rw_deleted_count :: "token_table \<Rightarrow> nat option"

definition access_token_lifetime :: int where "access_token_lifetime = 3600"
definition refresh_token_lifetime :: int where "refresh_token_lifetime = 30 * 24 * 60 * 60 * 1000"
definition max_rotation_count :: int where "max_rotation_count = 100"

section \<open>The repository\<close>

definition update_rows :: "(string \<Rightarrow> refresh_record \<Rightarrow> bool) \<Rightarrow> (refresh_record \<Rightarrow> refresh_record) \<Rightarrow> token_table \<Rightarrow> token_table" where
  "update_rows P f tbl = (\<lambda>k. map_option (\<lambda>r. if P k r then f r else r) (tbl k))"

definition table_call :: "refresh_world \<Rightarrow> token_call \<Rightarrow> token_table \<Rightarrow> token_table \<Rightarrow> (repository_error + unit) \<times> token_table" where
  "table_call w call tbl' tbl = (case rw_fail w call of Some e \<Rightarrow> (Inl e, tbl) | None \<Rightarrow> (Inr (), tbl'))"

definition store_extended_refresh_token ::
  "refresh_world \<Rightarrow> refresh_record \<Rightarrow> token_table \<Rightarrow> (repository_error + unit) \<times> token_table" where
  "store_extended_refresh_token w r tbl =
     (if tbl (rt_token r) \<noteq> None then (Inl (Database ''Database record already exists''), tbl)
      else table_call w StoreToken (tbl(rt_token r \<mapsto> r)) tbl)"

definition get_extended_refresh_token ::
  "refresh_world \<Rightarrow> string \<Rightarrow> token_table \<Rightarrow> repository_error + refresh_record option" where
  "get_extended_refresh_token w t tbl =
     (case rw_fail w GetToken of Some e \<Rightarrow> Inl e | None \<Rightarrow> Inr (tbl t))"

definition validate_extended_refresh_token ::
  "refresh_world \<Rightarrow> int \<Rightarrow> string \<Rightarrow> token_table \<Rightarrow> repository_error + refresh_record option" where
  "validate_extended_refresh_token w now t tbl =
     bindR (get_extended_refresh_token w t tbl) (\<lambda>found.
     Inr (case found of
            None \<Rightarrow> None
          | Some token_data \<Rightarrow>
              if rt_revoked token_data then None
              else if rt_used token_data then None
              else if now > rt_expires_at token_data then None
              else Some token_data))"

definition mark_refresh_token_used ::
  "refresh_world \<Rightarrow> string \<Rightarrow> token_table \<Rightarrow> (repository_error + unit) \<times> token_table" where
  "mark_refresh_token_used w t tbl =
     table_call w MarkUsed (update_rows (\<lambda>k r. rw_id_equals w k t) (rt_used_update (\<lambda>_. True)) tbl) tbl"

definition revoke_all_user_refresh_tokens ::
  "refresh_world \<Rightarrow> string \<Rightarrow> token_table \<Rightarrow> (repository_error + unit) \<times> token_table" where
  "revoke_all_user_refresh_tokens w user_id tbl =
     table_call w RevokeUser (update_rows (\<lambda>k r. rt_user_id r = user_id \<and> \<not> rt_revoked r)
       (rt_revoked_update (\<lambda>_. True)) tbl) tbl"

definition revoke_device_refresh_tokens ::
  "refresh_world \<Rightarrow> string \<Rightarrow> string \<Rightarrow> token_table \<Rightarrow> (repository_error + unit) \<times> token_table" where
  "revoke_device_refresh_tokens w user_id device_id tbl =
     table_call w RevokeDevice (update_rows
       (\<lambda>k r. rt_user_id r = user_id \<and> rt_device_id r = device_id \<and> \<not> rt_revoked r)
       (rt_revoked_update (\<lambda>_. True)) tbl) tbl"

definition revoke_token_chain_from_root ::
  "refresh_world \<Rightarrow> string \<Rightarrow> token_table \<Rightarrow> (repository_error + unit) \<times> token_table" where
  "revoke_token_chain_from_root w root_token tbl =
     table_call w RevokeChain (update_rows (\<lambda>k r. rt_token r = root_token \<or> rt_parent_token r = Some root_token)
       (rt_revoked_update (\<lambda>_. True)) tbl) tbl"

definition seven_days_ms :: int where "seven_days_ms = 7 * 24 * 60 * 60 * 1000"

definition cleanup_expired_refresh_tokens_extended ::
  "refresh_world \<Rightarrow> int \<Rightarrow> token_table \<Rightarrow> (repository_error + nat) \<times> token_table" where
  "cleanup_expired_refresh_tokens_extended w now tbl =
     (case rw_fail w CleanupTokens of
        Some e \<Rightarrow> (Inl e, tbl)
      | None \<Rightarrow>
          (Inr (unwrap_or 0 (rw_deleted_count w tbl)),
           (\<lambda>k. case tbl k of
                  None \<Rightarrow> None
                | Some r \<Rightarrow> if rt_expires_at r < now \<or> rt_used r \<and> rt_created_at r < now - seven_days_ms
                            then None else Some r)))"

section \<open>The service\<close>

definition failed :: "string \<Rightarrow> repository_error \<Rightarrow> matrix_auth_error" where
  "failed what e = A_DatabaseError (what @ repository_error_text e)"

definition on_table ::
  "string \<Rightarrow> (token_table \<Rightarrow> (repository_error + 'a) \<times> token_table) \<Rightarrow> token_table \<Rightarrow> (matrix_auth_error + 'a) \<times> token_table" where
  "on_table what f tbl = (case f tbl of (r, tbl') \<Rightarrow> (map_err (failed what) r, tbl'))"

text \<open>
  \<open>now\<close> is the clock read for the access token (seconds), \<open>created\<close> the one read for the row
  (milliseconds).
\<close>

definition create_initial_tokens ::
  "refresh_world \<Rightarrow> int \<Rightarrow> int \<Rightarrow> string \<Rightarrow> string \<Rightarrow> string \<Rightarrow> string \<Rightarrow> token_table \<Rightarrow> (matrix_auth_error + token_pair) \<times> token_table"
where
  "create_initial_tokens w now created token_id uuid user_id device_id =
     bindS (liftS (create_access_token (rw_session w) now token_id user_id device_id)) (\<lambda>access_token.
     let new_token = ''syr_'' @ uuid;
         refresh_row = \<lparr>rt_token = new_token, rt_user_id = user_id, rt_device_id = device_id,
           rt_access_token = access_token, rt_created_at = created,
           rt_expires_at = created + refresh_token_lifetime, rt_used = False, rt_revoked = False,
           rt_rotation_count = 0, rt_parent_token = None\<rparr> in
     bindS (on_table ''Failed to store refresh token: '' (store_extended_refresh_token w refresh_row)) (\<lambda>_.
     bindS (liftS (create_user_session now user_id device_id access_token (Some new_token))) (\<lambda>_.
     liftS (Inr \<lparr>tp_access_token = access_token, tp_refresh_token = new_token,
                 tp_expires_in = access_token_lifetime, tp_device_id = device_id\<rparr>))))"

text \<open>The loop that follows the parents of a token; a parent that cannot be read ends it.\<close>

partial_function (option) chain_root :: "refresh_world \<Rightarrow> token_table \<Rightarrow> refresh_record \<Rightarrow> refresh_record option" where
  "chain_root w tbl current =
     (case rt_parent_token current of
        None \<Rightarrow> Some current
      | Some parent \<Rightarrow>
          (case get_extended_refresh_token w parent tbl of
             Inr (Some parent_token) \<Rightarrow> chain_root w tbl parent_token
           | _ \<Rightarrow> Some current))"

definition revoke_token_chain ::
  "refresh_world \<Rightarrow> refresh_record \<Rightarrow> token_table \<Rightarrow> ((matrix_auth_error + unit) \<times> token_table) option" where
  "revoke_token_chain w t tbl =
     map_option (\<lambda>root. on_table ''Failed to revoke token chain: ''
        (revoke_token_chain_from_root w (rt_token root)) tbl) (chain_root w tbl t)"

definition revoke_refresh_token ::
  "refresh_world \<Rightarrow> string \<Rightarrow> token_table \<Rightarrow> ((matrix_auth_error + unit) \<times> token_table) option" where
  "revoke_refresh_token w t tbl =
     (case bindR (map_err (failed ''Failed to get refresh token: '') (get_extended_refresh_token w t tbl))
             (\<lambda>found. ok_or found A_UnknownToken) of
        Inl e \<Rightarrow> Some (Inl e, tbl)
      | Inr token_record \<Rightarrow> revoke_token_chain w token_record tbl)"

definition rotate_token ::
  "refresh_world \<Rightarrow> int \<Rightarrow> int \<Rightarrow> string \<Rightarrow> string \<Rightarrow> refresh_record \<Rightarrow> token_table \<Rightarrow>
   (matrix_auth_error + refresh_response) \<times> token_table" where
  "rotate_token w now created token_id uuid old_refresh =
     bindS (liftS (create_access_token (rw_session w) now token_id (rt_user_id old_refresh) (rt_device_id old_refresh))) (\<lambda>new_access_token.
     let new_refresh_token = ''syr_'' @ uuid;
         new_refresh_row = \<lparr>rt_token = new_refresh_token, rt_user_id = rt_user_id old_refresh,
           rt_device_id = rt_device_id old_refresh, rt_access_token = new_access_token,
           rt_created_at = created, rt_expires_at = created + refresh_token_lifetime,
           rt_used = False, rt_revoked = False, rt_rotation_count = rt_rotation_count old_refresh + 1,
           rt_parent_token = Some (rt_token old_refresh)\<rparr> in
     bindS (on_table ''Failed to store new refresh token: '' (store_extended_refresh_token w new_refresh_row)) (\<lambda>_.
     bindS (on_table ''Failed to mark token as used: '' (mark_refresh_token_used w (rt_token old_refresh))) (\<lambda>_.
     bindS (liftS (create_user_session now (rt_user_id old_refresh) (rt_device_id old_refresh)
              new_access_token (Some new_refresh_token))) (\<lambda>_.
     liftS (Inr \<lparr>rr_access_token = new_access_token, rr_refresh_token = new_refresh_token,
                 rr_token_type = ''Bearer'', rr_expires_in = access_token_lifetime\<rparr>)))))"

text \<open>\<open>checked\<close> is the clock read by the validation of the token.\<close>

definition refresh_tokens ::
  "refresh_world \<Rightarrow> int \<Rightarrow> int \<Rightarrow> int \<Rightarrow> string \<Rightarrow> string \<Rightarrow> string \<Rightarrow> token_table \<Rightarrow>
   ((matrix_auth_error + refresh_response) \<times> token_table) option" where
  "refresh_tokens w checked now created token_id uuid t tbl =
     (case bindR (map_err (failed ''Failed to validate refresh token: '')
                    (validate_extended_refresh_token w checked t tbl))
             (\<lambda>found. ok_or found A_UnknownToken) of
        Inl e \<Rightarrow> Some (Inl e, tbl)
      | Inr old_refresh \<Rightarrow>
          if rt_rotation_count old_refresh \<ge> max_rotation_count
          then map_option (\<lambda>(r, tbl'). (bindR r (\<lambda>_. Inl A_SessionExpired), tbl')) (revoke_refresh_token w t tbl)
          else Some (rotate_token w now created token_id uuid old_refresh tbl))"

definition revoke_all_user_tokens ::
  "refresh_world \<Rightarrow> string \<Rightarrow> token_table \<Rightarrow> (matrix_auth_error + unit) \<times> token_table" where
  "revoke_all_user_tokens w user_id =
     on_table ''Failed to revoke user tokens: '' (revoke_all_user_refresh_tokens w user_id)"

definition revoke_device_tokens ::
  "refresh_world \<Rightarrow> string \<Rightarrow> string \<Rightarrow> token_table \<Rightarrow> (matrix_auth_error + unit) \<times> token_table" where
  "revoke_device_tokens w user_id device_id =
     on_table ''Failed to revoke device tokens: '' (revoke_device_refresh_tokens w user_id device_id)"

definition cleanup_expired_tokens ::
  "refresh_world \<Rightarrow> int \<Rightarrow> token_table \<Rightarrow> (matrix_auth_error + nat) \<times> token_table" where
  "cleanup_expired_tokens w now =
     on_table ''Failed to cleanup tokens: '' (cleanup_expired_refresh_tokens_extended w now)"

text \<open>The endpoint: every error of the service is the status 401.\<close>

definition post_refresh ::
  "refresh_world \<Rightarrow> int \<Rightarrow> int \<Rightarrow> int \<Rightarrow> string \<Rightarrow> string \<Rightarrow> string \<Rightarrow> token_table \<Rightarrow>
   ((nat + refresh_response) \<times> token_table) option" where
  "post_refresh w checked now created token_id uuid t tbl =
     map_option (\<lambda>(r, tbl'). (map_err (\<lambda>_. 401) r, tbl'))
       (refresh_tokens w checked now created token_id uuid t tbl)"

section \<open>Histories of the table\<close>

text \<open>
  The states the service can reach, with the set of tokens issued so far: identifiers are random, and
  a token is never issued twice. Every step has surroundings of its own: which calls of the
  database fail, and what the library and the clocks answer, may differ from step to step.
\<close>

inductive token_run :: "string set \<Rightarrow> token_table \<Rightarrow> string set \<Rightarrow> token_table \<Rightarrow> bool"
  for issued0 :: "string set" and tbl0 :: token_table where
  start: "token_run issued0 tbl0 issued0 tbl0"
| initial: "token_run issued0 tbl0 issued tbl \<Longrightarrow> ''syr_'' @ uuid \<notin> issued \<Longrightarrow>
    create_initial_tokens w now created token_id uuid user_id device_id tbl = (r, tbl') \<Longrightarrow>
    token_run issued0 tbl0 (insert (''syr_'' @ uuid) issued) tbl'"
| refresh: "token_run issued0 tbl0 issued tbl \<Longrightarrow> ''syr_'' @ uuid \<notin> issued \<Longrightarrow>
    refresh_tokens w checked now created token_id uuid t tbl = Some (r', tbl') \<Longrightarrow>
    token_run issued0 tbl0 (insert (''syr_'' @ uuid) issued) tbl'"
| revoke: "token_run issued0 tbl0 issued tbl \<Longrightarrow>
    revoke_refresh_token w t tbl = Some (r'', tbl') \<Longrightarrow> token_run issued0 tbl0 issued tbl'"
| revoke_user: "token_run issued0 tbl0 issued tbl \<Longrightarrow>
    revoke_all_user_tokens w user_id tbl = (r'', tbl') \<Longrightarrow> token_run issued0 tbl0 issued tbl'"
| revoke_device: "token_run issued0 tbl0 issued tbl \<Longrightarrow>
    revoke_device_tokens w user_id device_id tbl = (r'', tbl') \<Longrightarrow> token_run issued0 tbl0 issued tbl'"
| cleanup: "token_run issued0 tbl0 issued tbl \<Longrightarrow>
    cleanup_expired_tokens w now tbl = (n, tbl') \<Longrightarrow> token_run issued0 tbl0 issued tbl'"

section \<open>How the table changes\<close>

text \<open>
  Rows keep their contents: an operation only raises the flags of rows, or removes rows, apart from
  the one row it may add.
\<close>

definition raised :: "refresh_record \<Rightarrow> refresh_record \<Rightarrow> bool" where
  "raised r r' \<longleftrightarrow> (\<exists>u v. r' = r\<lparr>rt_used := u, rt_revoked := v\<rparr> \<and> (rt_used r \<longrightarrow> u) \<and> (rt_revoked r \<longrightarrow> v))"

definition raises :: "token_table \<Rightarrow> token_table \<Rightarrow> bool" where
  "raises tbl tbl' \<longleftrightarrow> (\<forall>k r'. tbl' k = Some r' \<longrightarrow> (\<exists>r. tbl k = Some r \<and> raised r r'))"

lemma raised_refl [simp]: "raised r r"
  unfolding raised_def by (rule exI [of _ "rt_used r"], rule exI [of _ "rt_revoked r"]) simp

lemma raised_fields [simp]:
  assumes "raised r r'"
  shows "rt_token r' = rt_token r" "rt_user_id r' = rt_user_id r" "rt_device_id r' = rt_device_id r"
    "rt_rotation_count r' = rt_rotation_count r" "rt_parent_token r' = rt_parent_token r"
    "rt_expires_at r' = rt_expires_at r" "rt_used r \<Longrightarrow> rt_used r'" "rt_revoked r \<Longrightarrow> rt_revoked r'"
  using assms by (auto simp: raised_def)

lemma raises_refl [simp]: "raises tbl tbl"
  by (auto simp: raises_def intro: exI [of _ "_ :: refresh_record"])

lemma raises_update_rows:
  "(\<And>r. raised r (f r)) \<Longrightarrow> raises tbl (update_rows P f tbl)"
  by (auto simp: raises_def update_rows_def)

lemma raised_flags [simp]: "raised r (r\<lparr>rt_used := True\<rparr>)" "raised r (r\<lparr>rt_revoked := True\<rparr>)"
proof -
  have "r\<lparr>rt_used := True\<rparr> = r\<lparr>rt_used := True, rt_revoked := rt_revoked r\<rparr>"
    and "r\<lparr>rt_revoked := True\<rparr> = r\<lparr>rt_used := rt_used r, rt_revoked := True\<rparr>" by simp_all
  then show "raised r (r\<lparr>rt_used := True\<rparr>)" "raised r (r\<lparr>rt_revoked := True\<rparr>)"
    unfolding raised_def by metis+
qed

lemma raises_table_call: "raises tbl tbl' \<Longrightarrow> table_call w call tbl' tbl = (x, tbl'') \<Longrightarrow> raises tbl tbl''"
  by (auto simp: table_call_def split: option.splits)

lemma raises_on_table: "on_table what f tbl = (x, tbl') \<Longrightarrow> (\<And>y tbl''. f tbl = (y, tbl'') \<Longrightarrow> raises tbl tbl'') \<Longrightarrow> raises tbl tbl'"
  by (auto simp: on_table_def split: prod.splits)

lemma mark_raises: "mark_refresh_token_used w t tbl = (x, tbl') \<Longrightarrow> raises tbl tbl'"
  unfolding mark_refresh_token_used_def by (rule raises_table_call [OF raises_update_rows]) simp_all

lemma revoke_user_raises: "revoke_all_user_tokens w u tbl = (x, tbl') \<Longrightarrow> raises tbl tbl'"
  unfolding revoke_all_user_tokens_def revoke_all_user_refresh_tokens_def
  by (erule raises_on_table) (rule raises_table_call [OF raises_update_rows], simp_all)

lemma revoke_device_raises: "revoke_device_tokens w u d tbl = (x, tbl') \<Longrightarrow> raises tbl tbl'"
  unfolding revoke_device_tokens_def revoke_device_refresh_tokens_def
  by (erule raises_on_table) (rule raises_table_call [OF raises_update_rows], simp_all)

lemma revoke_root_raises: "revoke_token_chain_from_root w t tbl = (x, tbl') \<Longrightarrow> raises tbl tbl'"
  unfolding revoke_token_chain_from_root_def by (rule raises_table_call [OF raises_update_rows]) simp_all

lemma revoke_chain_raises: "revoke_token_chain w r tbl = Some (x, tbl') \<Longrightarrow> raises tbl tbl'"
  by (auto simp: revoke_token_chain_def elim!: raises_on_table dest: revoke_root_raises)

lemma revoke_raises: "revoke_refresh_token w t tbl = Some (x, tbl') \<Longrightarrow> raises tbl tbl'"
  by (auto simp: revoke_refresh_token_def dest: revoke_chain_raises split: sum.splits)

lemma cleanup_raises: "cleanup_expired_tokens w now tbl = (x, tbl') \<Longrightarrow> raises tbl tbl'"
  by (auto simp: cleanup_expired_tokens_def on_table_def cleanup_expired_refresh_tokens_extended_def
      raises_def split: option.splits if_splits)

text \<open>A row the service adds: the first of a chain, or the successor of a row of the table.\<close>

definition new_row :: "token_table \<Rightarrow> string \<Rightarrow> refresh_record \<Rightarrow> bool" where
  "new_row tbl uuid r \<longleftrightarrow>
     rt_token r = ''syr_'' @ uuid \<and> \<not> rt_used r \<and> \<not> rt_revoked r \<and>
     (rt_parent_token r = None \<and> rt_rotation_count r = 0 \<or>
      (\<exists>k old. tbl k = Some old \<and> rt_parent_token r = Some (rt_token old) \<and>
         rt_rotation_count old < max_rotation_count \<and> rt_rotation_count r = rt_rotation_count old + 1 \<and>
         rt_user_id r = rt_user_id old \<and> rt_device_id r = rt_device_id old))"

definition adds :: "token_table \<Rightarrow> string \<Rightarrow> token_table \<Rightarrow> bool" where
  "adds tbl uuid tbl' \<longleftrightarrow>
     raises tbl tbl' \<or>
     (\<exists>r. new_row tbl uuid r \<and> tbl (rt_token r) = None \<and> raises (tbl(rt_token r \<mapsto> r)) tbl')"

lemma store_adds:
  "store_extended_refresh_token w r tbl = (x, tbl') \<Longrightarrow>
     tbl' = tbl \<and> x \<noteq> Inr () \<or> x = Inr () \<and> tbl (rt_token r) = None \<and> tbl' = tbl(rt_token r \<mapsto> r)"
  by (auto simp: store_extended_refresh_token_def table_call_def split: if_splits option.splits)

lemma initial_adds:
  assumes "create_initial_tokens w now created token_id uuid user_id device_id tbl = (x, tbl')"
  shows "adds tbl uuid tbl'"
proof (cases "create_access_token (rw_session w) now token_id user_id device_id")
  case (Inl e)
  then show ?thesis using assms by (auto simp: create_initial_tokens_def bindS_def liftS_def adds_def)
next
  case (Inr a)
  define row where "row = \<lparr>rt_token = ''syr_'' @ uuid, rt_user_id = user_id, rt_device_id = device_id,
      rt_access_token = a, rt_created_at = created, rt_expires_at = created + refresh_token_lifetime,
      rt_used = False, rt_revoked = False, rt_rotation_count = 0, rt_parent_token = None\<rparr>"
  have row: "new_row tbl uuid row" by (simp add: new_row_def row_def)
  obtain y tbl1 where s: "store_extended_refresh_token w row tbl = (y, tbl1)" by fastforce
  have "tbl' = tbl1"
    using assms s Inr unfolding row_def
    by (cases y) (auto simp: create_initial_tokens_def bindS_def liftS_def Let_def on_table_def split: sum.splits prod.splits)
  with store_adds [OF s] row show ?thesis by (auto simp: adds_def)
qed

lemma rotate_adds:
  assumes "rotate_token w now created token_id uuid old tbl = (x, tbl')" and "tbl k = Some old"
    and "rt_rotation_count old < max_rotation_count"
  shows "adds tbl uuid tbl'"
proof (cases "create_access_token (rw_session w) now token_id (rt_user_id old) (rt_device_id old)")
  case (Inl e)
  then show ?thesis using assms(1) by (auto simp: rotate_token_def bindS_def liftS_def adds_def)
next
  case (Inr a)
  define row where "row = \<lparr>rt_token = ''syr_'' @ uuid, rt_user_id = rt_user_id old,
      rt_device_id = rt_device_id old, rt_access_token = a, rt_created_at = created,
      rt_expires_at = created + refresh_token_lifetime, rt_used = False, rt_revoked = False,
      rt_rotation_count = rt_rotation_count old + 1, rt_parent_token = Some (rt_token old)\<rparr>"
  have row: "new_row tbl uuid row" using assms(2,3) by (auto simp: new_row_def row_def)
  obtain y tbl1 where s: "store_extended_refresh_token w row tbl = (y, tbl1)" by fastforce
  obtain z tbl2 where m: "mark_refresh_token_used w (rt_token old) tbl1 = (z, tbl2)" by fastforce
  have "tbl' = tbl1 \<and> y \<noteq> Inr () \<or> y = Inr () \<and> tbl' = tbl2"
    using assms(1) s m Inr unfolding row_def
    by (cases y; cases z) (auto simp: rotate_token_def bindS_def liftS_def Let_def on_table_def split: sum.splits prod.splits)
  with store_adds [OF s] mark_raises [OF m] row show ?thesis by (auto simp: adds_def)
qed

lemma validated_row:
  "validate_extended_refresh_token w checked t tbl = Inr (Some r) \<longleftrightarrow>
     rw_fail w GetToken = None \<and> tbl t = Some r \<and> \<not> rt_revoked r \<and> \<not> rt_used r \<and> checked \<le> rt_expires_at r"
  by (auto simp: validate_extended_refresh_token_def get_extended_refresh_token_def result_simps not_less
      split: option.splits if_splits)

lemma refresh_cases:
  assumes "refresh_tokens w checked now created token_id uuid t tbl = Some (x, tbl')"
  obtains (refused) e where "x = Inl e" "tbl' = tbl" "\<And>r. validate_extended_refresh_token w checked t tbl \<noteq> Inr (Some r)"
  | (exhausted) r y where "validate_extended_refresh_token w checked t tbl = Inr (Some r)"
      "rt_rotation_count r \<ge> max_rotation_count" "revoke_refresh_token w t tbl = Some (y, tbl')" "\<not> is_ok x"
  | (rotated) r where "validate_extended_refresh_token w checked t tbl = Inr (Some r)"
      "rt_rotation_count r < max_rotation_count" "rotate_token w now created token_id uuid r tbl = (x, tbl')"
proof (cases "bindR (map_err (failed ''Failed to validate refresh token: '')
    (validate_extended_refresh_token w checked t tbl)) (\<lambda>found. ok_or found A_UnknownToken)")
  case (Inl e)
  then show ?thesis using assms by (intro refused) (auto simp: refresh_tokens_def)
next
  case (Inr r)
  then have v: "validate_extended_refresh_token w checked t tbl = Inr (Some r)"
    by (auto simp: result_simps)
  show ?thesis
  proof (cases "rt_rotation_count r \<ge> max_rotation_count")
    case True
    then obtain y where "revoke_refresh_token w t tbl = Some (y, tbl')" "x = bindR y (\<lambda>_. Inl A_SessionExpired)"
      using assms Inr by (auto simp: refresh_tokens_def)
    moreover from this have "\<not> is_ok x" by (cases y) auto
    ultimately show ?thesis using exhausted v True by blast
  next
    case False
    then show ?thesis using assms Inr v by (intro rotated) (auto simp: refresh_tokens_def)
  qed
qed

lemma refresh_adds:
  assumes "refresh_tokens w checked now created token_id uuid t tbl = Some (x, tbl')"
  shows "adds tbl uuid tbl'"
  using assms
proof (cases rule: refresh_cases)
  case (rotated r)
  then show ?thesis using rotate_adds validated_row by blast
qed (auto simp: adds_def dest: revoke_raises)

section \<open>The invariant of rotation chains\<close>

definition chain_ok :: "token_table \<Rightarrow> bool" where
  "chain_ok tbl \<longleftrightarrow>
     (\<forall>k r. tbl k = Some r \<longrightarrow> rt_token r = k \<and> 0 \<le> rt_rotation_count r \<and> rt_rotation_count r \<le> max_rotation_count \<and>
        (\<forall>p pr. rt_parent_token r = Some p \<and> tbl p = Some pr \<longrightarrow>
           rt_rotation_count r = rt_rotation_count pr + 1 \<and> rt_user_id r = rt_user_id pr \<and>
           rt_device_id r = rt_device_id pr))"

definition history_ok :: "string set \<Rightarrow> token_table \<Rightarrow> bool" where
  "history_ok issued tbl \<longleftrightarrow>
     chain_ok tbl \<and> dom tbl \<subseteq> issued \<and>
     (\<forall>k r p. tbl k = Some r \<and> rt_parent_token r = Some p \<longrightarrow> p \<in> issued)"

lemma history_raises:
  assumes "history_ok issued tbl" and "raises tbl tbl'"
  shows "history_ok issued tbl'"
proof -
  have below: "\<exists>r. tbl k = Some r \<and> raised r r'" if "tbl' k = Some r'" for k r'
    using assms(2) that by (auto simp: raises_def)
  have "chain_ok tbl'"
    unfolding chain_ok_def
  proof (intro allI impI)
    fix k r' assume "tbl' k = Some r'"
    then obtain r where r: "tbl k = Some r" "raised r r'" using below by blast
    have "rt_rotation_count r' = rt_rotation_count pr' + 1 \<and> rt_user_id r' = rt_user_id pr' \<and>
        rt_device_id r' = rt_device_id pr'" if h: "rt_parent_token r' = Some p \<and> tbl' p = Some pr'" for p pr'
    proof -
      obtain pr where "tbl p = Some pr" "raised pr pr'" using below h by blast
      then show ?thesis using assms(1) r h by (simp add: history_ok_def chain_ok_def)
    qed
    then show "rt_token r' = k \<and> 0 \<le> rt_rotation_count r' \<and> rt_rotation_count r' \<le> max_rotation_count \<and>
        (\<forall>p pr. rt_parent_token r' = Some p \<and> tbl' p = Some pr \<longrightarrow>
           rt_rotation_count r' = rt_rotation_count pr + 1 \<and> rt_user_id r' = rt_user_id pr \<and>
           rt_device_id r' = rt_device_id pr)"
      using assms(1) r unfolding history_ok_def chain_ok_def by (metis raised_fields(1,4))
  qed
  moreover have "dom tbl' \<subseteq> issued" using below assms(1) by (auto simp: history_ok_def)
  moreover have "\<forall>k r p. tbl' k = Some r \<and> rt_parent_token r = Some p \<longrightarrow> p \<in> issued"
  proof (intro allI impI)
    fix k r' p assume h: "tbl' k = Some r' \<and> rt_parent_token r' = Some p"
    then obtain r where "tbl k = Some r" "raised r r'" using below by blast
    then show "p \<in> issued" using assms(1) h by (auto simp: history_ok_def)
  qed
  ultimately show ?thesis by (simp add: history_ok_def)
qed

lemma history_new_row:
  assumes "history_ok issued tbl" and "new_row tbl uuid r" and "''syr_'' @ uuid \<notin> issued"
  shows "history_ok (insert (''syr_'' @ uuid) issued) (tbl(rt_token r \<mapsto> r))"
proof -
  have fresh: "rt_token r = ''syr_'' @ uuid" "rt_token r \<notin> issued" "tbl (rt_token r) = None"
    using assms by (auto simp: new_row_def history_ok_def)
  have known: "rt_parent_token x \<noteq> Some (rt_token r)" if "tbl k = Some x" for k x
    using that assms(1) fresh(2) by (auto simp: history_ok_def)
  have parent: "p \<in> issued \<and> (\<forall>pr. tbl p = Some pr \<longrightarrow>
      rt_rotation_count r = rt_rotation_count pr + 1 \<and> rt_user_id r = rt_user_id pr \<and> rt_device_id r = rt_device_id pr)"
    if h: "rt_parent_token r = Some p" for p
  proof -
    obtain k old where old: "tbl k = Some old" "rt_token old = p"
      "rt_rotation_count r = rt_rotation_count old + 1" "rt_user_id r = rt_user_id old" "rt_device_id r = rt_device_id old"
      using assms(2) h by (auto simp: new_row_def)
    then have "k = p" using assms(1) by (auto simp: history_ok_def chain_ok_def)
    then show ?thesis using old assms(1) by (auto simp: history_ok_def)
  qed
  have "0 \<le> rt_rotation_count r \<and> rt_rotation_count r \<le> max_rotation_count"
    using assms(1,2) by (auto simp: new_row_def history_ok_def chain_ok_def max_rotation_count_def)
  then have "chain_ok (tbl(rt_token r \<mapsto> r))"
    using assms(1) parent known fresh unfolding chain_ok_def history_ok_def by (auto split: if_splits)
  then show ?thesis
    using assms(1) parent fresh(1) unfolding history_ok_def by (auto split: if_splits)
qed

lemma history_mono: "history_ok issued tbl \<Longrightarrow> issued \<subseteq> issued' \<Longrightarrow> history_ok issued' tbl"
  by (fastforce simp: history_ok_def)

lemma history_adds:
  assumes "history_ok issued tbl" and "adds tbl uuid tbl'" and "''syr_'' @ uuid \<notin> issued"
  shows "history_ok (insert (''syr_'' @ uuid) issued) tbl'"
  using assms(2) unfolding adds_def
proof
  assume "raises tbl tbl'"
  then show ?thesis using history_mono [OF history_raises [OF assms(1)]] by blast
next
  assume "\<exists>r. new_row tbl uuid r \<and> tbl (rt_token r) = None \<and> raises (tbl(rt_token r \<mapsto> r)) tbl'"
  then show ?thesis using history_raises history_new_row [OF assms(1) _ assms(3)] by blast
qed

lemma run_history: "token_run issued0 tbl0 issued tbl \<Longrightarrow> history_ok issued0 tbl0 \<Longrightarrow> history_ok issued tbl"
proof (induction rule: token_run.induct)
  case (initial issued tbl uuid now created token_id user_id device_id r tbl')
  then show ?case using history_adds initial_adds by blast
next
  case (refresh issued tbl uuid checked now created token_id t r' tbl')
  then show ?case using history_adds refresh_adds by blast
next
  case (revoke issued tbl t r'' tbl')
  then show ?case using history_raises revoke_raises by blast
next
  case (revoke_user issued tbl user_id r'' tbl')
  then show ?case using history_raises revoke_user_raises by blast
next
  case (revoke_device issued tbl user_id device_id r'' tbl')
  then show ?case using history_raises revoke_device_raises by blast
next
  case (cleanup issued tbl now n tbl')
  then show ?case using history_raises cleanup_raises by blast
qed

lemma empty_history: "history_ok {} Map.empty"
  by (simp add: history_ok_def chain_ok_def)

text \<open>
  C31. The rotation chains stay well formed in every history of the service: a row is stored under its
  own token, its rotation count lies between 0 and 100, and a row whose parent is still stored
  belongs to the parent's user and device and counts one rotation more.
\<close>

theorem rotation_chain_invariant: "token_run {} Map.empty issued tbl \<Longrightarrow> chain_ok tbl"
  using run_history [OF _ empty_history] by (auto simp: history_ok_def)

section \<open>The walk to the root\<close>

lemma chain_root_ends:
  assumes "chain_ok tbl" and "tbl (rt_token r) = Some r"
  shows "\<exists>root. chain_root w tbl r = Some root \<and> tbl (rt_token root) = Some root \<and>
     (rw_fail w GetToken = None \<longrightarrow> (\<forall>p. rt_parent_token root = Some p \<longrightarrow> tbl p = None))"
  using assms(2)
proof (induction "nat (rt_rotation_count r)" arbitrary: r rule: less_induct)
  case less
  show ?case
  proof (cases "\<exists>p pr. rt_parent_token r = Some p \<and> rw_fail w GetToken = None \<and> tbl p = Some pr")
    case True
    then obtain p pr where p: "rt_parent_token r = Some p" "rw_fail w GetToken = None" "tbl p = Some pr" by blast
    have pr: "rt_token pr = p" "rt_rotation_count r = rt_rotation_count pr + 1" "0 \<le> rt_rotation_count pr"
      using assms(1) less(2) p by (auto simp: chain_ok_def)
    then have "nat (rt_rotation_count pr) < nat (rt_rotation_count r)" by simp
    moreover have "tbl (rt_token pr) = Some pr" using p(3) pr(1) by simp
    ultimately have "\<exists>root. chain_root w tbl pr = Some root \<and> tbl (rt_token root) = Some root \<and>
        (rw_fail w GetToken = None \<longrightarrow> (\<forall>p. rt_parent_token root = Some p \<longrightarrow> tbl p = None))"
      by (rule less(1))
    moreover have "chain_root w tbl r = chain_root w tbl pr"
      using p by (subst chain_root.simps) (simp add: get_extended_refresh_token_def)
    ultimately show ?thesis by simp
  next
    case False
    then have "chain_root w tbl r = Some r"
      by (subst chain_root.simps) (auto simp: get_extended_refresh_token_def split: option.splits)
    then show ?thesis using False less(2) by auto
  qed
qed

lemma revoke_returns:
  assumes "chain_ok tbl"
  shows "\<exists>x tbl'. revoke_refresh_token w t tbl = Some (x, tbl')"
proof (cases "bindR (map_err (failed ''Failed to get refresh token: '') (get_extended_refresh_token w t tbl))
    (\<lambda>found. ok_or found A_UnknownToken)")
  case (Inl e)
  then show ?thesis by (simp add: revoke_refresh_token_def)
next
  case (Inr r)
  then have "tbl t = Some r"
    by (auto simp: result_simps get_extended_refresh_token_def split: option.splits)
  then have "tbl (rt_token r) = Some r" using assms by (auto simp: chain_ok_def)
  then obtain root where "chain_root w tbl r = Some root" using chain_root_ends [OF assms, of r w] by blast
  then show ?thesis
    using Inr by (cases "revoke_token_chain_from_root w (rt_token root) tbl")
      (simp add: revoke_refresh_token_def revoke_token_chain_def on_table_def)
qed

text \<open>
  C32. No operation hangs: in every history of the service, the loop that follows the parents of a token
  ends, so both revocation and refresh return.
\<close>

theorem token_operations_return:
  assumes "token_run {} Map.empty issued tbl"
  shows "revoke_refresh_token w t tbl \<noteq> None \<and>
     refresh_tokens w checked now created token_id uuid t tbl \<noteq> None"
proof -
  have "chain_ok tbl" using run_history [OF assms empty_history] by (simp add: history_ok_def)
  from revoke_returns [OF this, of w t] show ?thesis by (auto simp: refresh_tokens_def split: sum.splits)
qed

section \<open>Single use\<close>

definition spent :: "string \<Rightarrow> token_table \<Rightarrow> bool" where
  "spent t tbl \<longleftrightarrow> (\<forall>r. tbl t = Some r \<longrightarrow> rt_used r \<or> rt_revoked r)"

lemma spent_raises: "spent t tbl \<Longrightarrow> raises tbl tbl' \<Longrightarrow> spent t tbl'"
  by (fastforce simp: spent_def raises_def)

lemma spent_adds: "spent t tbl \<Longrightarrow> adds tbl uuid tbl' \<Longrightarrow> t \<noteq> ''syr_'' @ uuid \<Longrightarrow> spent t tbl'"
proof -
  assume s: "spent t tbl" "adds tbl uuid tbl'" "t \<noteq> ''syr_'' @ uuid"
  have "spent t (tbl(rt_token r \<mapsto> r))" if "new_row tbl uuid r" for r
    using s(1,3) that by (auto simp: spent_def new_row_def)
  then show ?thesis using s spent_raises unfolding adds_def by blast
qed

lemma spent_run:
  "token_run issued0 tbl0 issued tbl \<Longrightarrow> spent t tbl0 \<and> t \<in> issued0 \<Longrightarrow> spent t tbl \<and> t \<in> issued"
proof (induction rule: token_run.induct)
  case (initial issued tbl uuid now created token_id user_id device_id r tbl')
  then show ?case using spent_adds initial_adds by (metis insertCI)
next
  case (refresh issued tbl uuid checked now created token_id t' r' tbl')
  then show ?case using spent_adds refresh_adds by (metis insertCI)
next
  case (revoke issued tbl t' r'' tbl')
  then show ?case using spent_raises revoke_raises by blast
next
  case (revoke_user issued tbl user_id r'' tbl')
  then show ?case using spent_raises revoke_user_raises by blast
next
  case (revoke_device issued tbl user_id device_id r'' tbl')
  then show ?case using spent_raises revoke_device_raises by blast
next
  case (cleanup issued tbl now n tbl')
  then show ?case using spent_raises cleanup_raises by blast
qed

lemma spent_refused:
  assumes "spent t tbl"
  shows "\<exists>e. refresh_tokens w checked now created token_id uuid t tbl = Some (Inl e, tbl)"
proof -
  have "validate_extended_refresh_token w checked t tbl \<noteq> Inr (Some r)" for r
    using assms unfolding validated_row by (auto simp: spent_def)
  then have "\<exists>e. bindR (map_err (failed ''Failed to validate refresh token: '')
      (validate_extended_refresh_token w checked t tbl)) (\<lambda>found. ok_or found A_UnknownToken) = Inl e"
    by (cases "validate_extended_refresh_token w checked t tbl"; cases "projr (validate_extended_refresh_token w checked t tbl)") auto
  then show ?thesis by (auto simp: refresh_tokens_def)
qed

lemma on_table_Inr_iff: "on_table what f tbl = (Inr x, tbl') \<longleftrightarrow> f tbl = (Inr x, tbl')"
  by (cases "f tbl") (auto simp: on_table_def result_simps)

lemma table_call_Inr_iff: "table_call w call tbl1 tbl = (Inr u, tbl') \<longleftrightarrow> rw_fail w call = None \<and> tbl' = tbl1"
  by (auto simp: table_call_def split: option.splits)

lemma store_Inr_iff:
  "store_extended_refresh_token w r tbl = (Inr u, tbl') \<longleftrightarrow>
     tbl (rt_token r) = None \<and> rw_fail w StoreToken = None \<and> tbl' = tbl(rt_token r \<mapsto> r)"
  by (auto simp: store_extended_refresh_token_def table_call_Inr_iff)

lemmas rotation_simps = rotate_token_def Let_def bindS_Inr_iff liftS_Inr_iff on_table_Inr_iff store_Inr_iff
  mark_refresh_token_used_def table_call_Inr_iff

lemma rotate_succeeds:
  assumes "rotate_token w now created token_id uuid old tbl = (Inr resp, tbl')"
  shows "\<exists>a. create_access_token (rw_session w) now token_id (rt_user_id old) (rt_device_id old) = Inr a \<and>
     resp = \<lparr>rr_access_token = a, rr_refresh_token = ''syr_'' @ uuid, rr_token_type = ''Bearer'',
             rr_expires_in = access_token_lifetime\<rparr> \<and> tbl (''syr_'' @ uuid) = None \<and>
     tbl' = update_rows (\<lambda>k r. rw_id_equals w k (rt_token old)) (rt_used_update (\<lambda>_. True))
       (tbl(''syr_'' @ uuid \<mapsto> \<lparr>rt_token = ''syr_'' @ uuid, rt_user_id = rt_user_id old,
          rt_device_id = rt_device_id old, rt_access_token = a, rt_created_at = created,
          rt_expires_at = created + refresh_token_lifetime, rt_used = False, rt_revoked = False,
          rt_rotation_count = rt_rotation_count old + 1, rt_parent_token = Some (rt_token old)\<rparr>))"
  using assms unfolding rotation_simps by auto

text \<open>
  What the mark is for: if the database's comparison of record identifiers with texts found the row to be
  marked, then after a successful refresh no later refresh with the same token would succeed,
  whatever the service does in between.
\<close>

theorem refresh_single_use:
  assumes "token_run {} Map.empty issued tbl"
    and "\<And>k t. rw_id_equals w k t \<longleftrightarrow> k = t"
    and "refresh_tokens w checked now created token_id uuid t tbl = Some (Inr resp, tbl')"
    and "''syr_'' @ uuid \<notin> issued"
    and "token_run (insert (''syr_'' @ uuid) issued) tbl' issued2 tbl2"
  shows "\<exists>e. refresh_tokens w checked2 now2 created2 token_id2 uuid2 t tbl2 = Some (Inl e, tbl2)"
proof -
  have h: "history_ok issued tbl" by (rule run_history [OF assms(1) empty_history])
  from assms(3) obtain r where r: "validate_extended_refresh_token w checked t tbl = Inr (Some r)"
    "rotate_token w now created token_id uuid r tbl = (Inr resp, tbl')"
    by (cases rule: refresh_cases) auto
  have "tbl t = Some r" using r(1) unfolding validated_row by blast
  with h have t: "rt_token r = t" "t \<in> issued" by (auto simp: history_ok_def chain_ok_def)
  have "spent t tbl'"
    using rotate_succeeds [OF r(2)] t assms(2) by (auto simp: spent_def update_rows_def)
  then have "spent t tbl2" using spent_run [OF assms(5)] t(2) by blast
  then show ?thesis by (rule spent_refused)
qed

text \<open>
  But a record identifier and a text are values of different types: with that comparison false nothing
  is marked and the same token refreshes again.
\<close>

theorem unmarked_token_replays:
  assumes "token_run {} Map.empty issued tbl" and "\<And>k t. \<not> rw_id_equals w k t"
    and "refresh_tokens w checked now created token_id uuid t tbl = Some (Inr resp, tbl')"
    and "''syr_'' @ uuid \<notin> issued" and "''syr_'' @ uuid2 \<notin> insert (''syr_'' @ uuid) issued"
    and "checked2 \<le> checked" and "\<And>u d. is_ok (create_access_token (rw_session w) now2 token_id2 u d)"
  shows "\<exists>resp2 tbl2. refresh_tokens w checked2 now2 created2 token_id2 uuid2 t tbl' = Some (Inr resp2, tbl2)"
proof -
  have h: "history_ok issued tbl" by (rule run_history [OF assms(1) empty_history])
  from assms(3) obtain r where r: "validate_extended_refresh_token w checked t tbl = Inr (Some r)"
    "rt_rotation_count r < max_rotation_count"
    "rotate_token w now created token_id uuid r tbl = (Inr resp, tbl')"
    by (cases rule: refresh_cases) auto
  note s = rotate_succeeds [OF r(3)]
  have tbl': "tbl' k = tbl k" if "k \<noteq> ''syr_'' @ uuid" for k
    using s assms(2) that by (auto simp: update_rows_def map_option_case split: option.splits)
  have t: "t \<in> issued" using r(1) h unfolding validated_row by (auto simp: history_ok_def)
  have fails: "rw_fail w StoreToken = None" "rw_fail w MarkUsed = None"
    using r(3) unfolding rotation_simps by auto
  have v: "validate_extended_refresh_token w checked2 t tbl' = Inr (Some r)"
    using r(1) tbl' [of t] t assms(4,6) unfolding validated_row by auto
  have "tbl' (''syr_'' @ uuid2) = None"
    using tbl' [of "''syr_'' @ uuid2"] h assms(5) by (auto simp: history_ok_def)
  moreover obtain a where "create_access_token (rw_session w) now2 token_id2 (rt_user_id r) (rt_device_id r) = Inr a"
    using assms(7) by (force simp: is_ok_iff)
  ultimately have "\<exists>resp2 tbl2. rotate_token w now2 created2 token_id2 uuid2 r tbl' = (Inr resp2, tbl2)"
    using fails by (simp add: rotate_token_def Let_def bindS_def liftS_def on_table_def store_extended_refresh_token_def
      table_call_def mark_refresh_token_used_def create_user_session_def user_token_auth)
  then show ?thesis using v r(2) by (auto simp: refresh_tokens_def)
qed

section \<open>Revocation\<close>

lemma chain_root_not_near:
  assumes "chain_ok tbl" and "rw_fail w GetToken = None" and "tbl t = Some r" and "rt_parent_token r = Some p"
    and "tbl p = Some pr" and "rt_parent_token pr = Some g" and "tbl g = Some gr"
    and "chain_root w tbl r = Some root"
  shows "rt_token root \<noteq> t \<and> rt_token root \<noteq> p"
proof -
  have tok: "rt_token r = t" using assms(1,3) by (auto simp: chain_ok_def)
  then obtain root' where "chain_root w tbl r = Some root'" "tbl (rt_token root') = Some root'"
    "\<forall>q. rt_parent_token root' = Some q \<longrightarrow> tbl q = None"
    using chain_root_ends [OF assms(1), of r w] assms(2,3) by auto
  with assms(3-8) show ?thesis by auto
qed

text \<open>
  Revoking a token does not revoke its chain: the query marks the root of the chain and the rows
  directly after it. A token that was rotated at least twice, its two ancestors still stored,
  is left as it was by its own revocation, and a refresh with it is judged as before.
\<close>

theorem revocation_misses_chain:
  assumes "token_run {} Map.empty issued tbl" and "rw_fail w GetToken = None"
    and "tbl t = Some r" and "rt_parent_token r = Some p" and "tbl p = Some pr"
    and "rt_parent_token pr = Some g" and "tbl g = Some gr"
    and "revoke_refresh_token w t tbl = Some (x, tbl')"
  shows "tbl' t = Some r \<and>
     validate_extended_refresh_token w checked t tbl' = validate_extended_refresh_token w checked t tbl"
proof -
  have ok: "chain_ok tbl" using run_history [OF assms(1) empty_history] by (simp add: history_ok_def)
  have tok: "rt_token r = t" using ok assms(3) by (auto simp: chain_ok_def)
  obtain root where root: "chain_root w tbl r = Some root"
    "on_table ''Failed to revoke token chain: '' (revoke_token_chain_from_root w (rt_token root)) tbl = (x, tbl')"
    using assms(2,3,8) by (auto simp: revoke_refresh_token_def revoke_token_chain_def get_extended_refresh_token_def)
  have "tbl' t = Some r"
    using root(2) chain_root_not_near [OF ok assms(2-7) root(1)] tok assms(3,4)
    by (auto simp: on_table_def revoke_token_chain_from_root_def table_call_def update_rows_def
        split: prod.splits option.splits)
  then show ?thesis
    using assms(3) by (simp add: validate_extended_refresh_token_def get_extended_refresh_token_def split: option.split)
qed

text \<open>
  Revoking all tokens of a user works: afterwards every stored token of the user is refused, until
  tokens are issued to the user again.
\<close>

theorem user_revocation_complete:
  assumes "revoke_all_user_tokens w user_id tbl = (Inr (), tbl')"
    and "tbl t = Some r" and "rt_user_id r = user_id"
  shows "\<exists>e. refresh_tokens w checked now created token_id uuid t tbl' = Some (Inl e, tbl')"
proof -
  have "spent t tbl'"
    using assms by (auto simp: revoke_all_user_tokens_def on_table_def revoke_all_user_refresh_tokens_def
        table_call_def spent_def update_rows_def result_simps split: option.splits prod.splits)
  then show ?thesis by (rule spent_refused)
qed

section \<open>Witnesses\<close>

text \<open>
  One user: a first token, a refresh and a second refresh, with a database that finds the rows to
  mark; \<open>refresh_demo'\<close> differs in that it finds none.
\<close>

definition refresh_demo :: refresh_world where
  "refresh_demo = \<lparr>rw_session = session_demo\<lparr>jwt_encode := \<lambda>c. Inr ''jwt''\<rparr>, rw_fail = (\<lambda>call. None),
     rw_id_equals = (\<lambda>k t. k = t), rw_deleted_count = (\<lambda>tbl. None)\<rparr>"

definition refresh_demo' :: refresh_world where
  "refresh_demo' = refresh_demo\<lparr>rw_id_equals := \<lambda>k t. False\<rparr>"

definition demo_row :: "string \<Rightarrow> int \<Rightarrow> string option \<Rightarrow> bool \<Rightarrow> refresh_record" where
  "demo_row t n parent used = \<lparr>rt_token = t, rt_user_id = ''@a:x'', rt_device_id = ''D'', rt_access_token = ''jwt'',
     rt_created_at = 0, rt_expires_at = refresh_token_lifetime, rt_used = used, rt_revoked = False,
     rt_rotation_count = n, rt_parent_token = parent\<rparr>"

definition demo_table1 :: token_table where
  "demo_table1 = [''syr_0'' \<mapsto> demo_row ''syr_0'' 0 None False]"

definition demo_table2 :: token_table where
  "demo_table2 = [''syr_0'' \<mapsto> demo_row ''syr_0'' 0 None True, ''syr_1'' \<mapsto> demo_row ''syr_1'' 1 (Some ''syr_0'') False]"

definition demo_table3 :: token_table where
  "demo_table3 = [''syr_0'' \<mapsto> demo_row ''syr_0'' 0 None True, ''syr_1'' \<mapsto> demo_row ''syr_1'' 1 (Some ''syr_0'') True,
     ''syr_2'' \<mapsto> demo_row ''syr_2'' 2 (Some ''syr_1'') False]"

lemmas refresh_demo_defs = refresh_demo_def refresh_demo'_def create_access_token_def create_user_token_def
  bindS_def liftS_def on_table_def store_extended_refresh_token_def table_call_def
  create_user_session_def user_token_auth Let_def

lemmas refresh_demo_steps = refresh_tokens_def rotate_token_def validate_extended_refresh_token_def
  get_extended_refresh_token_def mark_refresh_token_used_def update_rows_def max_rotation_count_def

lemma demo_initial:
  "\<exists>pair. create_initial_tokens refresh_demo 0 0 ''i'' ''0'' ''@a:x'' ''D'' Map.empty = (Inr pair, demo_table1)"
  by (auto simp: create_initial_tokens_def refresh_demo_defs demo_table1_def demo_row_def)

lemma demo_run1: "token_run {} Map.empty {''syr_0''} demo_table1"
proof -
  obtain pair where "create_initial_tokens refresh_demo 0 0 ''i'' ''0'' ''@a:x'' ''D'' Map.empty = (Inr pair, demo_table1)"
    using demo_initial by blast
  from token_run.initial [OF token_run.start _ this, where issued0 = "{}"] show ?thesis by simp
qed

lemma demo_refresh1:
  "\<exists>resp. refresh_tokens refresh_demo 1 0 0 ''i'' ''1'' ''syr_0'' demo_table1 = Some (Inr resp, demo_table2)"
  by (auto simp: refresh_demo_steps refresh_demo_defs demo_table1_def demo_table2_def demo_row_def
      refresh_token_lifetime_def fun_eq_iff)

lemma demo_refresh2:
  "\<exists>resp. refresh_tokens refresh_demo 1 0 0 ''i'' ''2'' ''syr_1'' demo_table2 = Some (Inr resp, demo_table3)"
  by (auto simp: refresh_demo_steps refresh_demo_defs demo_table3_def demo_table2_def demo_row_def
      refresh_token_lifetime_def fun_eq_iff)

lemma demo_run3: "token_run {} Map.empty {''syr_2'', ''syr_1'', ''syr_0''} demo_table3"
proof -
  obtain r1 where r1: "refresh_tokens refresh_demo 1 0 0 ''i'' ''1'' ''syr_0'' demo_table1 = Some (Inr r1, demo_table2)"
    using demo_refresh1 by blast
  have 2: "token_run {} Map.empty {''syr_1'', ''syr_0''} demo_table2"
    using token_run.refresh [OF demo_run1 _ r1] by simp
  obtain r2 where r2: "refresh_tokens refresh_demo 1 0 0 ''i'' ''2'' ''syr_1'' demo_table2 = Some (Inr r2, demo_table3)"
    using demo_refresh2 by blast
  show ?thesis using token_run.refresh [OF 2 _ r2] by simp
qed

theorem rotation_chain_invariant_witness: "chain_ok demo_table3"
  by (rule rotation_chain_invariant [OF demo_run3])

theorem token_operations_return_witness: "revoke_refresh_token refresh_demo ''syr_2'' demo_table3 \<noteq> None"
  using token_operations_return [OF demo_run3] by blast

theorem refresh_single_use_witness:
  "\<exists>e. refresh_tokens refresh_demo 1 0 0 ''i'' ''9'' ''syr_0'' demo_table2 = Some (Inl e, demo_table2)"
proof -
  obtain r1 where r1: "refresh_tokens refresh_demo 1 0 0 ''i'' ''1'' ''syr_0'' demo_table1 = Some (Inr r1, demo_table2)"
    using demo_refresh1 by blast
  have eq: "rw_id_equals refresh_demo k t \<longleftrightarrow> k = t" for k t by (simp add: refresh_demo_def)
  show ?thesis
    by (rule refresh_single_use [OF demo_run1 eq r1 _ token_run.start]) simp_all
qed

theorem unmarked_token_replays_witness:
  "\<exists>resp tbl' resp2 tbl2. refresh_tokens refresh_demo' 1 0 0 ''i'' ''1'' ''syr_0'' demo_table1 = Some (Inr resp, tbl') \<and>
     refresh_tokens refresh_demo' 1 0 0 ''i'' ''2'' ''syr_0'' tbl' = Some (Inr resp2, tbl2)"
proof -
  obtain r1 tbl' where r1: "refresh_tokens refresh_demo' 1 0 0 ''i'' ''1'' ''syr_0'' demo_table1 = Some (Inr r1, tbl')"
    by (simp add: refresh_demo_steps refresh_demo_defs demo_table1_def demo_row_def refresh_token_lifetime_def)
  have "\<not> rw_id_equals refresh_demo' k t" for k t by (simp add: refresh_demo'_def)
  moreover have "is_ok (create_access_token (rw_session refresh_demo') 0 ''i'' u d)" for u d
    by (simp add: refresh_demo_defs)
  ultimately show ?thesis
    using unmarked_token_replays [OF demo_run1 _ r1, where ?uuid2.0 = "''2''" and ?checked2.0 = 1 and ?now2.0 = 0
        and ?token_id2.0 = "''i''" and ?created2.0 = 0] r1 by simp
qed

theorem revocation_misses_chain_witness:
  "\<exists>x tbl'. revoke_refresh_token refresh_demo ''syr_2'' demo_table3 = Some (x, tbl') \<and>
     tbl' ''syr_2'' = Some (demo_row ''syr_2'' 2 (Some ''syr_1'') False)"
proof -
  have "chain_ok demo_table3" using run_history [OF demo_run3 empty_history] by (simp add: history_ok_def)
  then obtain x tbl' where x: "revoke_refresh_token refresh_demo ''syr_2'' demo_table3 = Some (x, tbl')"
    using revoke_returns by blast
  have "rw_fail refresh_demo GetToken = None" by (simp add: refresh_demo_def)
  from revocation_misses_chain [OF demo_run3 this _ _ _ _ _ x] x show ?thesis
    by (simp add: demo_table3_def demo_row_def)
qed

theorem user_revocation_complete_witness:
  "\<exists>tbl' e. revoke_all_user_tokens refresh_demo ''@a:x'' demo_table1 = (Inr (), tbl') \<and>
     refresh_tokens refresh_demo 1 0 0 ''i'' ''9'' ''syr_0'' tbl' = Some (Inl e, tbl')"
proof -
  obtain tbl' where t: "revoke_all_user_tokens refresh_demo ''@a:x'' demo_table1 = (Inr (), tbl')"
    by (simp add: revoke_all_user_tokens_def on_table_def revoke_all_user_refresh_tokens_def table_call_def
        refresh_demo_def)
  have "demo_table1 ''syr_0'' = Some (demo_row ''syr_0'' 0 None False)" by (simp add: demo_table1_def)
  from user_revocation_complete [OF t this] t show ?thesis by (auto simp: demo_row_def)
qed

end
