(* ===== verification/Room_Aliases.thy ===== *)
theory Room_Aliases
  imports Level_Repository Auth_Middleware
begin

text \<open>
  Room aliases: the repository \<open>surrealdb/src/repository/room_alias.rs\<close>, the resolver
  \<open>server/src/room/alias_resolution.rs\<close>, the endpoint
  \<open>server/src/_matrix/client/v3/directory/room/by_room_alias.rs\<close> and the directory query of
  \<open>server/src/_matrix/federation/v1/query/by_query_type.rs\<close>. The state is the alias table, the cache
  of remote aliases and the event table. What depends on the database beyond storing and finding rows
  is an argument: what it keeps of the column \<open>servers\<close>, which the schema of the table does not
  define, how the client library reads a count, and what a deletion returns. The outcome of the
  request to a remote directory is an argument, too.
\<close>

section \<open>Environment\<close>

datatype alias_call =
    AliasInsert | AliasDelete | AliasSelect | AliasCount | AliasRoom | AliasEvents | AliasEventInsert | CacheWrite | CacheRead
  | AliasInfo

record alias_row =
  al_alias :: string
  al_room_id :: string
  al_creator :: string
  al_created_at :: int
  al_servers :: "string list option"

record room_alias_info =
  ai_alias :: string
  ai_room_id :: string
  ai_creator :: string
  ai_created_at :: int
  ai_servers :: "string list"

record cache_row =
  cr_room_id :: string
  cr_expires_at :: int

datatype directory_outcome =
    DirectoryBadUrl | DirectoryNotSigned | DirectoryNotSent | DirectoryAnswer nat "string option"

record alias_world =
  aw_app :: app_state
  aw_levels :: level_world
  aw_fail :: "alias_call \<Rightarrow> repository_error option"
  aw_rooms :: "string \<rightharpoonup> room"
  aw_stored_servers :: "string list \<Rightarrow> string list option"
  aw_row_error :: repository_error
  aw_count :: "nat \<Rightarrow> repository_error + int option"
  aw_deleted :: "alias_row list \<Rightarrow> repository_error + json option"
  aw_alphanumeric :: "string \<Rightarrow> bool"
  aw_directory :: "string \<Rightarrow> string \<Rightarrow> directory_outcome"
  aw_room_servers :: "string \<Rightarrow> string list option"

record alias_db =
  ad_aliases :: "alias_row list"
  ad_cache :: "string \<rightharpoonup> cache_row"
  ad_events :: "event list"

definition alias_result :: "alias_world \<Rightarrow> alias_call \<Rightarrow> 'a \<Rightarrow> repository_error + 'a" where
  "alias_result w call x = (case aw_fail w call of Some e \<Rightarrow> Inl e | None \<Rightarrow> Inr x)"

section \<open>The repository\<close>

text \<open>
  \<open>is_alphanumeric\<close> of a character outside ASCII is an argument; it is asked for the bytes of a text
  that are not ASCII.
\<close>

definition alias_chars :: "alias_world \<Rightarrow> string \<Rightarrow> string \<Rightarrow> bool" where
  "alias_chars w extra s \<longleftrightarrow>
     list_all (\<lambda>c. byte c \<ge> 128 \<or> is_ascii_alphanumeric c \<or> contains extra c) s \<and>
     aw_alphanumeric w (filter (\<lambda>c. byte c \<ge> 128) s)"

definition validate_alias_format :: "alias_world \<Rightarrow> string \<Rightarrow> bool" where
  "validate_alias_format w alias =
     (if \<not> starts_with alias CHR ''#'' then False
      else if count_list alias CHR '':'' \<noteq> 1 then False
      else case rfind_char CHR '':'' alias of
             None \<Rightarrow> False
           | Some colon_pos \<Rightarrow>
               let local_name = drop 1 (take colon_pos alias); server_name = drop (colon_pos + 1) alias
               in local_name \<noteq> [] \<and> server_name \<noteq> [] \<and> alias_chars w ''_.-'' local_name \<and> alias_chars w ''_.-:'' server_name)"

definition server_part :: "string \<Rightarrow> string option" where
  "server_part s = map_option (\<lambda>colon_pos. drop (colon_pos + 1) s) (rfind_char CHR '':'' s)"

definition can_create_alias :: "string \<Rightarrow> string \<Rightarrow> bool" where
  "can_create_alias alias user_id =
     (case server_part alias of
        None \<Rightarrow> False
      | Some server \<Rightarrow> (case server_part user_id of None \<Rightarrow> False | Some user_server \<Rightarrow> server = user_server))"

definition alias_exists :: "alias_world \<Rightarrow> string \<Rightarrow> alias_db \<Rightarrow> repository_error + bool" where
  "alias_exists w alias db =
     bindR (alias_result w AliasCount (length (filter (\<lambda>r. al_alias r = alias) (ad_aliases db)))) (\<lambda>n.
     bindR (aw_count w n) (\<lambda>count. Inr (unwrap_or 0 count > 0)))"

text \<open>
  The assertions and the unique index of the table. A statement that the database refuses is not an
  error of \<open>query\<close>: the row is not stored and the caller goes on.
\<close>

definition tagged_id :: "char \<Rightarrow> string \<Rightarrow> bool" where
  "tagged_id c s \<longleftrightarrow> starts_with s c \<and> contains s CHR '':''"

definition alias_row_accepted :: "alias_row \<Rightarrow> alias_row list \<Rightarrow> bool" where
  "alias_row_accepted r rows \<longleftrightarrow>
     tagged_id CHR ''#'' (al_alias r) \<and> tagged_id CHR ''!'' (al_room_id r) \<and> tagged_id CHR ''@'' (al_creator r) \<and>
     al_alias r \<notin> al_alias ` set rows"

definition insert_alias :: "alias_row \<Rightarrow> alias_db \<Rightarrow> alias_db" where
  "insert_alias r db =
     (if alias_row_accepted r (ad_aliases db) then db\<lparr>ad_aliases := ad_aliases db @ [r]\<rparr> else db)"

definition repo_create_alias ::
  "alias_world \<Rightarrow> int \<Rightarrow> string \<Rightarrow> string \<Rightarrow> string \<Rightarrow> alias_db \<Rightarrow> (repository_error + room_alias_info) \<times> alias_db" where
  "repo_create_alias w now alias room_id creator db =
     (case bindR (ensure (validate_alias_format w alias) (Validation ''alias'' (''Invalid alias format: '' @ alias))) (\<lambda>_.
           bindR (alias_exists w alias db) (\<lambda>exists.
           bindR (ensure (\<not> exists) (Conflict (''Room alias '' @ [CHR 0x27] @ alias @ [CHR 0x27] @ '' already exists''))) (\<lambda>_.
           bindR (ensure (can_create_alias alias creator)
             (Unauthorized (''User '' @ creator @ '' not authorized to create alias '' @ alias))) (\<lambda>_.
           bindR (ok_or (server_part alias) (Validation ''alias'' ''Alias must contain server name'')) (\<lambda>server.
           bindR (alias_result w AliasInsert ()) (\<lambda>_. Inr server)))))) of
        Inl e \<Rightarrow> (Inl e, db)
      | Inr server \<Rightarrow>
          (Inr \<lparr>ai_alias = alias, ai_room_id = room_id, ai_creator = creator, ai_created_at = now, ai_servers = [server]\<rparr>,
           insert_alias \<lparr>al_alias = alias, al_room_id = room_id, al_creator = creator, al_created_at = now,
             al_servers = aw_stored_servers w [server]\<rparr> db))"

definition repo_delete_alias :: "alias_world \<Rightarrow> string \<Rightarrow> alias_db \<Rightarrow> (repository_error + unit) \<times> alias_db" where
  "repo_delete_alias w alias db =
     (case aw_fail w AliasDelete of
        Some e \<Rightarrow> (Inl e, db)
      | None \<Rightarrow>
          (bindR (aw_deleted w (filter (\<lambda>r. al_alias r = alias) (ad_aliases db))) (\<lambda>deleted.
             ensure (deleted \<noteq> None) (NotFound ''Room alias'' alias)),
           db\<lparr>ad_aliases := filter (\<lambda>r. al_alias r \<noteq> alias) (ad_aliases db)\<rparr>))"

text \<open>A row without the column \<open>servers\<close> cannot be read as a \<open>RoomAliasInfo\<close>.\<close>

definition alias_info_of :: "alias_row \<Rightarrow> room_alias_info option" where
  "alias_info_of r = map_option (\<lambda>servers. \<lparr>ai_alias = al_alias r, ai_room_id = al_room_id r, ai_creator = al_creator r,
     ai_created_at = al_created_at r, ai_servers = servers\<rparr>) (al_servers r)"

definition alias_infos :: "alias_world \<Rightarrow> alias_row list \<Rightarrow> repository_error + room_alias_info list" where
  "alias_infos w rows =
     bindR (alias_result w AliasSelect rows) (\<lambda>rows. ok_or (those (map alias_info_of rows)) (aw_row_error w))"

definition repo_resolve_alias :: "alias_world \<Rightarrow> string \<Rightarrow> alias_db \<Rightarrow> repository_error + room_alias_info option" where
  "repo_resolve_alias w alias db =
     bindR (alias_infos w (take 1 (filter (\<lambda>r. al_alias r = alias) (ad_aliases db)))) (\<lambda>infos.
     Inr (case infos of [] \<Rightarrow> None | i # _ \<Rightarrow> Some i))"

definition get_room_aliases :: "alias_world \<Rightarrow> string \<Rightarrow> alias_db \<Rightarrow> repository_error + room_alias_info list" where
  "get_room_aliases w room_id db =
     alias_infos w (sort_key al_created_at (filter (\<lambda>r. al_room_id r = room_id) (ad_aliases db)))"

definition get_alias_creator :: "alias_world \<Rightarrow> string \<Rightarrow> alias_db \<Rightarrow> repository_error + string option" where
  "get_alias_creator w alias db =
     alias_result w AliasSelect (map_option al_creator (find (\<lambda>r. al_alias r = alias) (ad_aliases db)))"

definition canonical_alias_content :: "alias_world \<Rightarrow> string \<Rightarrow> alias_db \<Rightarrow> repository_error + json option" where
  "canonical_alias_content w room_id db =
     alias_result w AliasEvents
       (case newest_ts_first (filter (\<lambda>e. ev_room_id e = room_id \<and> ev_event_type e = ''m.room.canonical_alias'' \<and>
               ev_state_key e = Some []) (ad_events db)) of
          [] \<Rightarrow> None
        | e # _ \<Rightarrow> Some (content_to_value (ev_content e)))"

definition get_canonical_alias :: "alias_world \<Rightarrow> string \<Rightarrow> alias_db \<Rightarrow> repository_error + string option" where
  "get_canonical_alias w room_id db =
     bindR (canonical_alias_content w room_id db) (\<lambda>content.
     Inr (Option.bind (Option.bind content (\<lambda>c. get c ''alias'')) as_str))"

definition get_alternative_aliases :: "alias_world \<Rightarrow> string \<Rightarrow> alias_db \<Rightarrow> repository_error + string list" where
  "get_alternative_aliases w room_id db =
     bindR (canonical_alias_content w room_id db) (\<lambda>content.
     Inr (case Option.bind content (\<lambda>c. get c ''alt_aliases'') of
            Some (JArray xs) \<Rightarrow> List.map_filter as_str xs
          | _ \<Rightarrow> []))"

definition alias_points_to :: "alias_world \<Rightarrow> string \<Rightarrow> string \<Rightarrow> string \<Rightarrow> alias_db \<Rightarrow> repository_error + unit" where
  "alias_points_to w room_id message alias db =
     bindR (alias_exists w alias db) (\<lambda>exists.
     bindR (ensure exists (NotFound ''Room alias'' alias)) (\<lambda>_.
     bindR (repo_resolve_alias w alias db) (\<lambda>info.
     case info of
       Some i \<Rightarrow> ensure (\<not> ai_room_id i \<noteq> room_id) (Validation ''alias'' message)
     | None \<Rightarrow> Inr ())))"

definition canonical_alias_event :: "string \<Rightarrow> int \<Rightarrow> string \<Rightarrow> string \<Rightarrow> json \<Rightarrow> event" where
  "canonical_alias_event uuid now room_id sender content =
     (new_event (''$'' @ uuid @ '':localhost'') sender now ''m.room.canonical_alias'' room_id (Unknown content))
     \<lparr>ev_state_key := Some [], ev_unsigned := Some (JObject []), ev_auth_events := Some [], ev_prev_events := Some [],
      ev_depth := Some 1\<rparr>"

definition set_canonical_alias ::
  "alias_world \<Rightarrow> string \<Rightarrow> int \<Rightarrow> string \<Rightarrow> string option \<Rightarrow> string \<Rightarrow> alias_db \<Rightarrow> (repository_error + unit) \<times> alias_db" where
  "set_canonical_alias w uuid now room_id alias sender db =
     (case bindR (case alias of Some a \<Rightarrow> alias_points_to w room_id ''Alias does not point to this room'' a db | None \<Rightarrow> Inr ()) (\<lambda>_.
           alias_result w AliasEventInsert ()) of
        Inl e \<Rightarrow> (Inl e, db)
      | Inr _ \<Rightarrow> (Inr (), db\<lparr>ad_events := ad_events db @ [canonical_alias_event uuid now room_id sender
          (JObject (case alias of Some a \<Rightarrow> [(''alias'', JString a)] | None \<Rightarrow> []))]\<rparr>))"

definition set_alternative_aliases ::
  "alias_world \<Rightarrow> string \<Rightarrow> int \<Rightarrow> string \<Rightarrow> string list \<Rightarrow> string \<Rightarrow> alias_db \<Rightarrow> (repository_error + unit) \<times> alias_db" where
  "set_alternative_aliases w uuid now room_id alt_aliases sender db =
     (case bindR (for_each (\<lambda>a. alias_points_to w room_id (''Alias '' @ a @ '' does not point to this room'') a db) alt_aliases) (\<lambda>_.
           bindR (get_canonical_alias w room_id db) (\<lambda>canonical_alias.
           bindR (alias_result w AliasEventInsert ()) (\<lambda>_. Inr canonical_alias))) of
        Inl e \<Rightarrow> (Inl e, db)
      | Inr canonical_alias \<Rightarrow> (Inr (), db\<lparr>ad_events := ad_events db @ [canonical_alias_event uuid now room_id sender
          (JObject ((''alt_aliases'', strings_json alt_aliases) #
            (case canonical_alias of Some a \<Rightarrow> [(''alias'', JString a)] | None \<Rightarrow> [])))]\<rparr>))"

definition repo_cache_alias_resolution ::
  "alias_world \<Rightarrow> int \<Rightarrow> string \<Rightarrow> string \<Rightarrow> int \<Rightarrow> alias_db \<Rightarrow> (repository_error + unit) \<times> alias_db" where
  "repo_cache_alias_resolution w now alias room_id ttl_seconds db =
     (case aw_fail w CacheWrite of
        Some e \<Rightarrow> (Inl e, db)
      | None \<Rightarrow> (Inr (), db\<lparr>ad_cache := (ad_cache db)(''alias_resolution:'' @ alias \<mapsto>
          \<lparr>cr_room_id = room_id, cr_expires_at = now + ttl_seconds\<rparr>)\<rparr>))"

definition repo_get_cached_alias :: "alias_world \<Rightarrow> int \<Rightarrow> string \<Rightarrow> alias_db \<Rightarrow> repository_error + string option" where
  "repo_get_cached_alias w now alias db =
     alias_result w CacheRead
       (case ad_cache db (''alias_resolution:'' @ alias) of
          Some row \<Rightarrow> if cr_expires_at row > now then Some (cr_room_id row) else None
        | None \<Rightarrow> None)"

section \<open>The resolver\<close>

definition is_valid_localpart :: "string \<Rightarrow> bool" where
  "is_valid_localpart local_name = list_all (\<lambda>c. is_ascii_alphanumeric c \<or> contains ''-.=/+'' c) local_name"

definition alias_server_valid :: "string \<Rightarrow> bool" where
  "alias_server_valid name \<longleftrightarrow>
     contains name CHR ''.'' \<and> list_all (\<lambda>c. is_ascii_alphanumeric c \<or> contains ''.-:'' c) name"

definition parse_alias :: "string \<Rightarrow> nat + string \<times> string" where
  "parse_alias alias =
     bindR (ensure (starts_with alias CHR ''#'') 400) (\<lambda>_.
     case split_on CHR '':'' (drop 1 alias) of
       [local_name, name] \<Rightarrow> Inr (local_name, name)
     | _ \<Rightarrow> Inl 400)"

definition is_valid_alias_format :: "string \<Rightarrow> bool" where
  "is_valid_alias_format alias =
     (starts_with alias CHR ''#'' \<and>
      (case split_on CHR '':'' (drop 1 alias) of
         [local_name, name] \<Rightarrow> \<not> (local_name = [] \<or> \<not> is_valid_localpart local_name) \<and> \<not> (name = [] \<or> \<not> alias_server_valid name)
       | _ \<Rightarrow> False))"

definition is_valid_room_id_format :: "string \<Rightarrow> bool" where
  "is_valid_room_id_format room_id =
     (starts_with room_id CHR ''!'' \<and>
      (case split_on CHR '':'' (drop 1 room_id) of
         [local_name, name] \<Rightarrow> local_name \<noteq> [] \<and> \<not> (name = [] \<or> \<not> alias_server_valid name)
       | _ \<Rightarrow> False))"

definition extract_server_name :: "string \<Rightarrow> nat + string" where
  "extract_server_name alias =
     bindR (ensure (starts_with alias CHR ''#'') 400) (\<lambda>_.
     bindR (ok_or (server_part alias) 400) (\<lambda>name.
     bindR (ensure (name \<noteq> []) 400) (\<lambda>_.
     bindR (ensure (\<not> (contains name CHR '' '' \<or> contains name (char_of (10 :: nat)))) 400) (\<lambda>_. Inr name))))"

definition query_federation_directory :: "alias_world \<Rightarrow> string \<Rightarrow> string \<Rightarrow> nat + string option" where
  "query_federation_directory w alias server =
     (case aw_directory w alias server of
        DirectoryBadUrl \<Rightarrow> Inl 400
      | DirectoryNotSigned \<Rightarrow> Inl 500
      | DirectoryNotSent \<Rightarrow> Inl 502
      | DirectoryAnswer status body \<Rightarrow>
          if status = 200 then (case body of Some room_id \<Rightarrow> Inr (Some room_id) | None \<Rightarrow> Inl 502)
          else if status = 404 then Inr None
          else if status = 403 then Inl 403
          else Inl 502)"

definition resolve_local_alias :: "alias_world \<Rightarrow> string \<Rightarrow> alias_db \<Rightarrow> nat + string option" where
  "resolve_local_alias w local_name db =
     bindR (map_err (\<lambda>_. 500) (repo_resolve_alias w (''#'' @ local_name @ '':'' @ as_homeserver_name (aw_app w)) db)) (\<lambda>info.
     Inr (map_option ai_room_id info))"

definition resolve_remote_alias ::
  "alias_world \<Rightarrow> int \<Rightarrow> int \<Rightarrow> string \<Rightarrow> string \<Rightarrow> alias_db \<Rightarrow> (nat + string option) \<times> alias_db" where
  "resolve_remote_alias w now now' alias server db =
     (case map_err (\<lambda>_. 500) (repo_get_cached_alias w now alias db) of
        Inl e \<Rightarrow> (Inl e, db)
      | Inr (Some cached_room_id) \<Rightarrow> (Inr (Some cached_room_id), db)
      | Inr None \<Rightarrow>
          (case query_federation_directory w alias server of
             Inl e \<Rightarrow> (Inl e, db)
           | Inr None \<Rightarrow> (Inr None, db)
           | Inr (Some room_id) \<Rightarrow> (Inr (Some room_id), snd (repo_cache_alias_resolution w now' alias room_id 3600 db))))"

text \<open>The two clock readings are the one of the cache lookup and the one of the cache entry.\<close>

definition resolve_alias :: "alias_world \<Rightarrow> int \<Rightarrow> int \<Rightarrow> string \<Rightarrow> alias_db \<Rightarrow> (nat + string option) \<times> alias_db" where
  "resolve_alias w now now' alias db =
     (case bindR (ensure (is_valid_alias_format alias) 400) (\<lambda>_. parse_alias alias) of
        Inl e \<Rightarrow> (Inl e, db)
      | Inr (local_name, server) \<Rightarrow>
          if server = as_homeserver_name (aw_app w) then (resolve_local_alias w local_name db, db)
          else resolve_remote_alias w now now' alias server db)"

definition resolve_room_identifier ::
  "alias_world \<Rightarrow> int \<Rightarrow> int \<Rightarrow> string \<Rightarrow> alias_db \<Rightarrow> (nat + string) \<times> alias_db" where
  "resolve_room_identifier w now now' room_id_or_alias db =
     (if starts_with room_id_or_alias CHR ''#''
      then (case resolve_alias w now now' room_id_or_alias db of (r, db') \<Rightarrow> (bindR r (\<lambda>x. ok_or x 404), db'))
      else if starts_with room_id_or_alias CHR ''!''
      then (bindR (ensure (is_valid_room_id_format room_id_or_alias) 400) (\<lambda>_.
            bindR (map_err (\<lambda>_. 500) (alias_result w AliasRoom (aw_rooms w room_id_or_alias))) (\<lambda>room.
            bindR (ok_or room 404) (\<lambda>_. Inr room_id_or_alias))), db)
      else (Inl 400, db))"

definition create_alias ::
  "alias_world \<Rightarrow> int \<Rightarrow> string \<Rightarrow> string \<Rightarrow> string \<Rightarrow> alias_db \<Rightarrow> (nat + unit) \<times> alias_db" where
  "create_alias w now alias room_id creator_id db =
     (case bindR (ensure (is_valid_alias_format alias) 400) (\<lambda>_.
           bindR (extract_server_name alias) (\<lambda>server.
           bindR (ensure (\<not> server \<noteq> as_homeserver_name (aw_app w)) 400) (\<lambda>_.
           bindR (case alias_result w AliasRoom (aw_rooms w room_id) of Inr (Some _) \<Rightarrow> Inr () | _ \<Rightarrow> Inl 404) (\<lambda>_.
           bindR (map_err (\<lambda>_. 500) (alias_exists w alias db)) (\<lambda>exists.
           ensure (\<not> exists) 409))))) of
        Inl e \<Rightarrow> (Inl e, db)
      | Inr _ \<Rightarrow>
          (case repo_create_alias w now alias room_id creator_id db of
             (Inl _, db') \<Rightarrow> (Inl 500, db')
           | (Inr _, db') \<Rightarrow> (Inr (), db')))"

definition delete_alias :: "alias_world \<Rightarrow> string \<Rightarrow> alias_db \<Rightarrow> (nat + bool) \<times> alias_db" where
  "delete_alias w alias db =
     (case bindR (ensure (is_valid_alias_format alias) 400) (\<lambda>_.
           bindR (extract_server_name alias) (\<lambda>server.
           ensure (\<not> server \<noteq> as_homeserver_name (aw_app w)) 400)) of
        Inl e \<Rightarrow> (Inl e, db)
      | Inr _ \<Rightarrow>
          (case repo_delete_alias w alias db of
             (Inr _, db') \<Rightarrow> (Inr True, db')
           | (Inl e, db') \<Rightarrow> (case e of NotFound _ _ \<Rightarrow> Inr False | _ \<Rightarrow> Inl 500, db')))"

section \<open>The endpoints\<close>

definition endpoint_user :: "app_state \<Rightarrow> request_clocks \<Rightarrow> string option option \<Rightarrow> nat + string" where
  "endpoint_user st ck authorization =
     bindR (map_err (\<lambda>_. 401) (extract_matrix_auth st ck authorization)) (\<lambda>auth.
     case auth of
       User token_info \<Rightarrow> bindR (ensure (\<not> auth_is_expired (rc_expired ck) auth) 401) (\<lambda>_. Inr (at_user_id token_info))
     | _ \<Rightarrow> Inl 403)"

definition alias_shape :: "string \<Rightarrow> nat + unit" where
  "alias_shape alias = ensure (\<not> (\<not> starts_with alias CHR ''#'' \<or> \<not> contains alias CHR '':'')) 400"

definition validate_alias_permissions :: "alias_world \<Rightarrow> string \<Rightarrow> string \<Rightarrow> string \<Rightarrow> alias_db \<Rightarrow> nat + unit" where
  "validate_alias_permissions w user_id alias room_id db =
     bindR (map_err (\<lambda>_. 500) (as_membership (aw_app w) room_id user_id)) (\<lambda>membership.
     case membership of
       None \<Rightarrow> Inl 403
     | Some m \<Rightarrow>
         if m_membership m \<noteq> Join then Inl 403
         else bindR (map_err (\<lambda>_. 500) (can_user_perform_action (aw_levels w) room_id user_id
                (L_SendState ''m.room.canonical_alias'') (ad_events db))) (\<lambda>can_manage_aliases.
              bindR (ensure can_manage_aliases 403) (\<lambda>_.
              case split_on CHR '':'' alias of
                _ # alias_domain # _ \<Rightarrow> ensure (\<not> alias_domain \<noteq> as_homeserver_name (aw_app w)) 403
              | _ \<Rightarrow> Inr ())))"

definition delete_room_alias ::
  "alias_world \<Rightarrow> request_clocks \<Rightarrow> string option option \<Rightarrow> string \<Rightarrow> alias_db \<Rightarrow> (nat + unit) \<times> alias_db" where
  "delete_room_alias w ck authorization room_alias db =
     (case bindR (endpoint_user (aw_app w) ck authorization) (\<lambda>user_id.
           bindR (alias_shape room_alias) (\<lambda>_.
           bindR (map_err (\<lambda>_. 500) (repo_resolve_alias w room_alias db)) (\<lambda>info.
           bindR (ok_or info 404) (\<lambda>alias_info.
           validate_alias_permissions w user_id room_alias (ai_room_id alias_info) db)))) of
        Inl e \<Rightarrow> (Inl e, db)
      | Inr _ \<Rightarrow>
          (case repo_delete_alias w room_alias db of (r, db') \<Rightarrow> (map_err (\<lambda>_. 500) r, db')))"

text \<open>The answer is the room and the servers.\<close>

definition get_room_alias :: "alias_world \<Rightarrow> string \<Rightarrow> alias_db \<Rightarrow> nat + string \<times> string list" where
  "get_room_alias w room_alias db =
     bindR (alias_shape room_alias) (\<lambda>_.
     bindR (map_err (\<lambda>_. 500) (repo_resolve_alias w room_alias db)) (\<lambda>info.
     bindR (ok_or info 404) (\<lambda>alias_info. Inr (ai_room_id alias_info, [as_homeserver_name (aw_app w)]))))"

definition put_room_alias ::
  "alias_world \<Rightarrow> request_clocks \<Rightarrow> int \<Rightarrow> string option option \<Rightarrow> string \<Rightarrow> string \<Rightarrow> alias_db \<Rightarrow> (nat + unit) \<times> alias_db" where
  "put_room_alias w ck now authorization room_alias room_id db =
     (case bindR (endpoint_user (aw_app w) ck authorization) (\<lambda>user_id.
           bindR (alias_shape room_alias) (\<lambda>_.
           bindR (validate_alias_permissions w user_id room_alias room_id db) (\<lambda>_. Inr user_id))) of
        Inl e \<Rightarrow> (Inl e, db)
      | Inr user_id \<Rightarrow>
          (case repo_create_alias w now room_alias room_id user_id db of
             (Inl _, db') \<Rightarrow> (Inl 500, db')
           | (Inr _, db') \<Rightarrow> (Inr (), db')))"

text \<open>
  The directory query of another server; \<open>aw_room_servers\<close> is the subquery for the servers of a
  room.
\<close>

definition get_room_alias_info :: "alias_world \<Rightarrow> string \<Rightarrow> alias_db \<Rightarrow> repository_error + (string \<times> string list option) option" where
  "get_room_alias_info w alias db =
     alias_result w AliasInfo (map_option (\<lambda>r. (al_room_id r, aw_room_servers w (al_room_id r)))
       (find (\<lambda>r. al_alias r = alias) (ad_aliases db)))"

definition handle_directory_query :: "alias_world \<Rightarrow> (string \<rightharpoonup> string) \<Rightarrow> alias_db \<Rightarrow> nat + json" where
  "handle_directory_query w query db =
     bindR (ok_or (query ''room_alias'') 400) (\<lambda>room_alias.
     bindR (alias_shape room_alias) (\<lambda>_.
     bindR (map_err (\<lambda>_. 500) (get_room_alias_info w room_alias db)) (\<lambda>alias_result.
     bindR (ok_or alias_result 404) (\<lambda>(room_id, servers).
     Inr (JObject [(''room_id'', JString room_id),
       (''servers'', strings_json (unwrap_or [as_homeserver_name (aw_app w)] servers))])))))"

section \<open>The shape of aliases\<close>

lemma alias_result_Inr_iff [result_simps]: "alias_result w call x = Inr y \<longleftrightarrow> aw_fail w call = None \<and> y = x"
  by (auto simp: alias_result_def split: option.splits)

lemma split_on_none: "c \<notin> set s \<Longrightarrow> split_on c s = [s]"
  by (induction s) auto

lemma split_on_first: "c \<notin> set a \<Longrightarrow> split_on c (a @ c # b) = a # split_on c b"
  by (induction a) auto

lemma split_on_two_iff: "split_on c s = [a, b] \<longleftrightarrow> s = a @ c # b \<and> c \<notin> set a \<and> c \<notin> set b"
proof
  assume s: "split_on c s = [a, b]"
  have "c \<in> set s" using s split_on_none [of c s] by fastforce
  then obtain x y where xy: "s = x @ c # y" "c \<notin> set x" using split_list_first [of c s] by blast
  then have "a = x" "split_on c y = [b]" using s by (auto simp: split_on_first)
  moreover from this(2) have "c \<notin> set y"
  proof (rule contrapos_pn)
    assume "c \<in> set y"
    then obtain u v where uv: "y = u @ c # v" "c \<notin> set u" using split_list_first [of c y] by blast
    moreover have "split_on c v \<noteq> []" by (cases v) (auto split: list.splits)
    ultimately show "split_on c y \<noteq> [b]" by (simp add: split_on_first)
  qed
  ultimately show "s = a @ c # b \<and> c \<notin> set a \<and> c \<notin> set b" using xy by (auto simp: split_on_none)
qed (auto simp: split_on_first split_on_none)

lemma server_part_of: "CHR '':'' \<notin> set b \<Longrightarrow> server_part (a @ CHR '':'' # b) = Some b"
  by (simp add: server_part_def rfind_char_append)

definition alias_of :: "string \<Rightarrow> string \<Rightarrow> string" where
  "alias_of local_name server = ''#'' @ local_name @ '':'' @ server"

lemma starts_with_hash: "starts_with s c \<longleftrightarrow> (\<exists>t. s = c # t)"
  by (cases s) (auto simp: starts_with_Cons starts_with_Nil)

lemma is_valid_alias_format_iff:
  "is_valid_alias_format alias \<longleftrightarrow>
     (\<exists>l s. alias = alias_of l s \<and> CHR '':'' \<notin> set l \<and> CHR '':'' \<notin> set s \<and> l \<noteq> [] \<and> s \<noteq> [] \<and>
        is_valid_localpart l \<and> alias_server_valid s)"
proof
  assume v: "is_valid_alias_format alias"
  then obtain l s where ls: "split_on CHR '':'' (drop 1 alias) = [l, s]" "starts_with alias CHR ''#''"
    by (auto simp: is_valid_alias_format_def split: list.splits)
  then show "\<exists>l s. alias = alias_of l s \<and> CHR '':'' \<notin> set l \<and> CHR '':'' \<notin> set s \<and> l \<noteq> [] \<and> s \<noteq> [] \<and>
        is_valid_localpart l \<and> alias_server_valid s"
    using v by (intro exI [of _ l] exI [of _ s])
      (auto simp: split_on_two_iff starts_with_hash alias_of_def is_valid_alias_format_def split_on_first split_on_none)
next
  assume "\<exists>l s. alias = alias_of l s \<and> CHR '':'' \<notin> set l \<and> CHR '':'' \<notin> set s \<and> l \<noteq> [] \<and> s \<noteq> [] \<and>
        is_valid_localpart l \<and> alias_server_valid s"
  then show "is_valid_alias_format alias"
    by (auto simp: is_valid_alias_format_def alias_of_def starts_with_hash split_on_first split_on_none)
qed

lemma parse_alias_of:
  "CHR '':'' \<notin> set l \<Longrightarrow> CHR '':'' \<notin> set s \<Longrightarrow> parse_alias (alias_of l s) = Inr (l, s)"
  by (simp add: parse_alias_def alias_of_def starts_with_hash split_on_first split_on_none ensure_def)

lemma one_colon: "count_list s CHR '':'' = 1 \<Longrightarrow> \<exists>a b. s = a @ CHR '':'' # b \<and> CHR '':'' \<notin> set a \<and> CHR '':'' \<notin> set b"
proof -
  assume c: "count_list s CHR '':'' = 1"
  then have "CHR '':'' \<in> set s" by (metis count_notin zero_neq_one)
  then obtain a b where "s = a @ CHR '':'' # b" "CHR '':'' \<notin> set a" using split_list_first by metis
  moreover from this c have "CHR '':'' \<notin> set b" by (simp add: count_list_0_iff)
  ultimately show ?thesis by blast
qed

lemma validate_alias_format_iff:
  "validate_alias_format w alias \<longleftrightarrow>
     (\<exists>l s. alias = alias_of l s \<and> CHR '':'' \<notin> set l \<and> CHR '':'' \<notin> set s \<and> l \<noteq> [] \<and> s \<noteq> [] \<and>
        alias_chars w ''_.-'' l \<and> alias_chars w ''_.-:'' s)"
proof
  assume v: "validate_alias_format w alias"
  then have "count_list alias CHR '':'' = 1" "starts_with alias CHR ''#''"
    by (auto simp: validate_alias_format_def split: if_splits)
  then obtain a b where ab: "alias = a @ CHR '':'' # b" "CHR '':'' \<notin> set a" "CHR '':'' \<notin> set b"
    using one_colon by blast
  then obtain l where "a = CHR ''#'' # l" using \<open>starts_with alias CHR ''#''\<close> by (cases a) (auto simp: starts_with_hash)
  then show "\<exists>l s. alias = alias_of l s \<and> CHR '':'' \<notin> set l \<and> CHR '':'' \<notin> set s \<and> l \<noteq> [] \<and> s \<noteq> [] \<and>
        alias_chars w ''_.-'' l \<and> alias_chars w ''_.-:'' s"
    using v ab rfind_char_append [of "CHR '':''" b a]
    by (intro exI [of _ l] exI [of _ b]) (auto simp: validate_alias_format_def alias_of_def Let_def split: if_splits)
next
  assume "\<exists>l s. alias = alias_of l s \<and> CHR '':'' \<notin> set l \<and> CHR '':'' \<notin> set s \<and> l \<noteq> [] \<and> s \<noteq> [] \<and>
        alias_chars w ''_.-'' l \<and> alias_chars w ''_.-:'' s"
  then obtain l s where ls: "alias = alias_of l s" "CHR '':'' \<notin> set l" "CHR '':'' \<notin> set s" "l \<noteq> []" "s \<noteq> []"
    "alias_chars w ''_.-'' l" "alias_chars w ''_.-:'' s" by blast
  then have "rfind_char CHR '':'' alias = Some (Suc (length l))"
    using rfind_char_append [of "CHR '':''" s "CHR ''#'' # l"] by (simp add: alias_of_def)
  then show "validate_alias_format w alias"
    using ls by (simp add: validate_alias_format_def alias_of_def starts_with_hash Let_def count_list_0_iff [THEN iffD2])
qed

section \<open>What the operations do\<close>

lemma server_part_alias_of: "CHR '':'' \<notin> set s \<Longrightarrow> server_part (alias_of l s) = Some s"
  using server_part_of [of s "CHR ''#'' # l"] by (simp add: alias_of_def)

lemma can_create_alias_iff:
  "can_create_alias alias user_id \<longleftrightarrow> (\<exists>s. server_part alias = Some s \<and> server_part user_id = Some s)"
  by (auto simp: can_create_alias_def split: option.splits)

lemma repo_create_alias_Inr_iff:
  "repo_create_alias w now alias room_id creator db = (Inr info, db') \<longleftrightarrow>
     (\<exists>l s. alias = alias_of l s \<and> CHR '':'' \<notin> set l \<and> CHR '':'' \<notin> set s \<and> l \<noteq> [] \<and> s \<noteq> [] \<and>
        alias_chars w ''_.-'' l \<and> alias_chars w ''_.-:'' s \<and> server_part creator = Some s \<and>
        alias_exists w alias db = Inr False \<and> aw_fail w AliasInsert = None \<and>
        info = \<lparr>ai_alias = alias, ai_room_id = room_id, ai_creator = creator, ai_created_at = now, ai_servers = [s]\<rparr> \<and>
        db' = insert_alias \<lparr>al_alias = alias, al_room_id = room_id, al_creator = creator, al_created_at = now,
          al_servers = aw_stored_servers w [s]\<rparr> db)"
  (is "?lhs \<longleftrightarrow> ?rhs")
proof
  assume ?lhs
  then obtain s where s: "validate_alias_format w alias" "alias_exists w alias db = Inr False" "can_create_alias alias creator"
    "server_part alias = Some s" "aw_fail w AliasInsert = None"
    "info = \<lparr>ai_alias = alias, ai_room_id = room_id, ai_creator = creator, ai_created_at = now, ai_servers = [s]\<rparr>"
    "db' = insert_alias \<lparr>al_alias = alias, al_room_id = room_id, al_creator = creator, al_created_at = now,
          al_servers = aw_stored_servers w [s]\<rparr> db"
    by (auto simp: repo_create_alias_def result_simps split: sum.splits)
  then show ?rhs by (auto simp: validate_alias_format_iff server_part_alias_of can_create_alias_iff)
next
  assume rhs: ?rhs
  then obtain l s where ls: "alias = alias_of l s" "CHR '':'' \<notin> set s" "server_part creator = Some s" by blast
  moreover from rhs have "validate_alias_format w alias" unfolding validate_alias_format_iff by blast
  moreover from rhs ls have "info = \<lparr>ai_alias = alias, ai_room_id = room_id, ai_creator = creator, ai_created_at = now, ai_servers = [s]\<rparr>"
    "db' = insert_alias \<lparr>al_alias = alias, al_room_id = room_id, al_creator = creator, al_created_at = now,
          al_servers = aw_stored_servers w [s]\<rparr> db" "alias_exists w alias db = Inr False" "aw_fail w AliasInsert = None"
    by auto
  ultimately show ?lhs
    by (simp add: repo_create_alias_def can_create_alias_iff server_part_alias_of ensure_def alias_result_def)
qed

lemma insert_alias_rows: "r \<in> set (ad_aliases (insert_alias q db)) \<Longrightarrow> r \<in> set (ad_aliases db) \<or> r = q"
  by (auto simp: insert_alias_def split: if_splits)

lemma repo_create_alias_Inl: "repo_create_alias w now alias room_id creator db = (Inl e, db') \<Longrightarrow> db' = db"
  by (auto simp: repo_create_alias_def split: sum.splits)

lemma repo_delete_alias_rows:
  "repo_delete_alias w alias db = (x, db') \<Longrightarrow>
     ad_aliases db' = ad_aliases db \<or> ad_aliases db' = filter (\<lambda>r. al_alias r \<noteq> alias) (ad_aliases db)"
  by (auto simp: repo_delete_alias_def split: option.splits)

lemma permissions_iff:
  "validate_alias_permissions w user_id alias room_id db = Inr u \<longleftrightarrow>
     (\<exists>m. as_membership (aw_app w) room_id user_id = Inr (Some m) \<and> m_membership m = Join) \<and>
     can_user_perform_action (aw_levels w) room_id user_id (L_SendState ''m.room.canonical_alias'') (ad_events db) = Inr True \<and>
     (case split_on CHR '':'' alias of _ # d # _ \<Rightarrow> d = as_homeserver_name (aw_app w) | _ \<Rightarrow> True)"
proof (cases "as_membership (aw_app w) room_id user_id")
  case (Inl e)
  then show ?thesis by (simp add: validate_alias_permissions_def)
next
  case (Inr x)
  then show ?thesis
    by (cases x) (auto simp: validate_alias_permissions_def result_simps ensure_def split: list.splits)
qed

lemma split_alias_of:
  "CHR '':'' \<notin> set l \<Longrightarrow> CHR '':'' \<notin> set s \<Longrightarrow> split_on CHR '':'' (alias_of l s) = [''#'' @ l, s]"
  using split_on_first [of "CHR '':''" "''#'' @ l" s] by (simp add: alias_of_def split_on_none del: split_on.simps)

lemma put_room_alias_Inr_iff:
  "put_room_alias w ck now authorization alias room_id db = (Inr (), db') \<longleftrightarrow>
     (\<exists>user_id info. endpoint_user (aw_app w) ck authorization = Inr user_id \<and> alias_shape alias = Inr () \<and>
        validate_alias_permissions w user_id alias room_id db = Inr () \<and>
        repo_create_alias w now alias room_id user_id db = (Inr info, db'))"
  by (auto simp: put_room_alias_def result_simps split: sum.splits prod.splits)

lemma create_alias_Inr_iff:
  "create_alias w now alias room_id creator_id db = (Inr (), db') \<longleftrightarrow>
     is_valid_alias_format alias \<and> extract_server_name alias = Inr (as_homeserver_name (aw_app w)) \<and>
     aw_fail w AliasRoom = None \<and> (\<exists>room. aw_rooms w room_id = Some room) \<and> alias_exists w alias db = Inr False \<and>
     (\<exists>info. repo_create_alias w now alias room_id creator_id db = (Inr info, db'))"
  by (auto simp: create_alias_def result_simps alias_result_def ensure_def split: sum.splits prod.splits option.splits if_splits)

text \<open>The rows of the table belong to this server.\<close>

definition alias_row_ok :: "alias_world \<Rightarrow> alias_row \<Rightarrow> bool" where
  "alias_row_ok w r \<longleftrightarrow>
     tagged_id CHR ''#'' (al_alias r) \<and> tagged_id CHR ''!'' (al_room_id r) \<and> tagged_id CHR ''@'' (al_creator r) \<and>
     server_part (al_alias r) = Some (as_homeserver_name (aw_app w)) \<and>
     server_part (al_creator r) = Some (as_homeserver_name (aw_app w))"

definition aliases_ok :: "alias_world \<Rightarrow> alias_db \<Rightarrow> bool" where
  "aliases_ok w db \<longleftrightarrow> distinct (map al_alias (ad_aliases db)) \<and> list_all (alias_row_ok w) (ad_aliases db)"

datatype alias_op =
    PutAlias request_clocks int "string option option" string string
  | DeleteAlias request_clocks "string option option" string
  | CreateAlias int string string string
  | RemoveAlias string
  | ResolveAlias int int string
  | SetCanonical string int string "string option" string
  | SetAlternative string int string "string list" string

fun alias_step :: "alias_world \<Rightarrow> alias_op \<Rightarrow> alias_db \<Rightarrow> alias_db" where
  "alias_step w (PutAlias ck now authorization alias room_id) db = snd (put_room_alias w ck now authorization alias room_id db)"
| "alias_step w (DeleteAlias ck authorization alias) db = snd (delete_room_alias w ck authorization alias db)"
| "alias_step w (CreateAlias now alias room_id creator) db = snd (create_alias w now alias room_id creator db)"
| "alias_step w (RemoveAlias alias) db = snd (delete_alias w alias db)"
| "alias_step w (ResolveAlias now now' alias) db = snd (resolve_alias w now now' alias db)"
| "alias_step w (SetCanonical uuid now room_id alias sender) db = snd (set_canonical_alias w uuid now room_id alias sender db)"
| "alias_step w (SetAlternative uuid now room_id aliases sender) db =
     snd (set_alternative_aliases w uuid now room_id aliases sender db)"

definition alias_run :: "alias_world \<Rightarrow> alias_op list \<Rightarrow> alias_db \<Rightarrow> alias_db" where
  "alias_run w ops db = fold (alias_step w) ops db"

lemma aliases_ok_rows: "ad_aliases db' = ad_aliases db \<Longrightarrow> aliases_ok w db' = aliases_ok w db"
  by (simp add: aliases_ok_def)

lemma aliases_ok_filter: "aliases_ok w db \<Longrightarrow> ad_aliases db' = filter P (ad_aliases db) \<Longrightarrow> aliases_ok w db'"
  by (auto simp: aliases_ok_def distinct_map_filter list_all_iff)

lemma aliases_ok_insert:
  assumes "aliases_ok w db" and "alias_row_accepted r (ad_aliases db) \<Longrightarrow> alias_row_ok w r"
  shows "aliases_ok w (insert_alias r db)"
  using assms by (auto simp: aliases_ok_def insert_alias_def alias_row_accepted_def)

lemma aliases_ok_created:
  assumes "repo_create_alias w now alias room_id creator db = (Inr info, db')" and "aliases_ok w db"
    and "server_part alias = Some (as_homeserver_name (aw_app w))"
  shows "aliases_ok w db'"
proof -
  obtain l s where ls: "alias = alias_of l s" "CHR '':'' \<notin> set s" "server_part creator = Some s"
    "db' = insert_alias \<lparr>al_alias = alias, al_room_id = room_id, al_creator = creator, al_created_at = now,
          al_servers = aw_stored_servers w [s]\<rparr> db"
    using assms(1) by (auto simp: repo_create_alias_Inr_iff)
  then show ?thesis
    using assms(2,3) by (auto intro!: aliases_ok_insert simp: alias_row_ok_def alias_row_accepted_def server_part_alias_of)
qed

lemma extract_server_name_iff: "extract_server_name alias = Inr s \<Longrightarrow> server_part alias = Some s"
  by (auto simp: extract_server_name_def result_simps)

lemma aliases_ok_deleted: "repo_delete_alias w alias db = (x, db') \<Longrightarrow> aliases_ok w db \<Longrightarrow> aliases_ok w db'"
  using repo_delete_alias_rows [of w "alias" db x db'] aliases_ok_filter aliases_ok_rows by blast

lemma cache_keeps_rows: "ad_aliases (snd (repo_cache_alias_resolution w now al room_id ttl db)) = ad_aliases db"
  by (simp add: repo_cache_alias_resolution_def split: option.split)

lemma remote_keeps_rows: "ad_aliases (snd (resolve_remote_alias w now now' al server db)) = ad_aliases db"
  unfolding resolve_remote_alias_def
  by (cases "map_err (\<lambda>_. 500 :: nat) (repo_get_cached_alias w now al db)"; cases "query_federation_directory w al server")
    (auto simp: cache_keeps_rows split: option.split)

lemma resolve_keeps_rows: "ad_aliases (snd (resolve_alias w now now' al db)) = ad_aliases db"
  unfolding resolve_alias_def
  by (cases "bindR (ensure (is_valid_alias_format al) 400) (\<lambda>_. parse_alias al)") (auto simp: remote_keeps_rows)

lemma events_keep_rows:
  "ad_aliases (snd (case m of Inl e \<Rightarrow> (Inl e, db) | Inr x \<Rightarrow> (Inr (), db\<lparr>ad_events := f x\<rparr>))) = ad_aliases db"
  by (cases m) simp_all

lemma aliases_ok_step: "aliases_ok w db \<Longrightarrow> aliases_ok w (alias_step w op db)"
proof (induction w op db rule: alias_step.induct)
  case (1 w ck now authorization al room_id db)
  obtain x db' where x: "put_room_alias w ck now authorization al room_id db = (x, db')" by fastforce
  show ?case
  proof (cases x)
    case (Inl e)
    then have "db' = db" using x repo_create_alias_Inl by (auto simp: put_room_alias_def split: sum.splits prod.splits)
    then show ?thesis using x 1 by simp
  next
    case (Inr u)
    then obtain user_id info where u: "validate_alias_permissions w user_id al room_id db = Inr ()"
      "repo_create_alias w now al room_id user_id db = (Inr info, db')"
      using x by (auto simp: put_room_alias_Inr_iff)
    then obtain l s where ls: "al = alias_of l s" "CHR '':'' \<notin> set l" "CHR '':'' \<notin> set s"
      by (auto simp: repo_create_alias_Inr_iff)
    then have "server_part al = Some (as_homeserver_name (aw_app w))"
      using u(1) by (simp add: permissions_iff split_alias_of server_part_alias_of)
    then show ?thesis using aliases_ok_created [OF u(2) 1] x by simp
  qed
next
  case (2 w ck authorization al db)
  obtain x db' where "repo_delete_alias w al db = (x, db')" by fastforce
  then show ?case using 2 aliases_ok_deleted by (auto simp: delete_room_alias_def split: sum.splits)
next
  case (3 w now al room_id creator db)
  obtain x db' where x: "create_alias w now al room_id creator db = (x, db')" by fastforce
  show ?case
  proof (cases x)
    case (Inl e)
    then have "db' = db" using x repo_create_alias_Inl by (auto simp: create_alias_def split: sum.splits prod.splits)
    then show ?thesis using x 3 by simp
  next
    case (Inr u)
    then obtain info where c: "repo_create_alias w now al room_id creator db = (Inr info, db')"
      "extract_server_name al = Inr (as_homeserver_name (aw_app w))"
      using x by (auto simp: create_alias_Inr_iff)
    show ?thesis using aliases_ok_created [OF c(1) 3 extract_server_name_iff [OF c(2)]] x by simp
  qed
next
  case (4 w al db)
  obtain x db' where x: "repo_delete_alias w al db = (x, db')" by fastforce
  have "snd (delete_alias w al db) = db \<or> snd (delete_alias w al db) = db'"
    unfolding delete_alias_def x by (auto split: sum.split)
  then show ?case using 4 aliases_ok_deleted [OF x] by auto
next
  case (5 w now now' al db)
  then show ?case using aliases_ok_rows [OF resolve_keeps_rows] by simp
next
  case (6 w uuid now room_id al sender db)
  have "ad_aliases (snd (set_canonical_alias w uuid now room_id al sender db)) = ad_aliases db"
    unfolding set_canonical_alias_def by (rule events_keep_rows)
  from aliases_ok_rows [OF this] show ?case using 6 by simp
next
  case (7 w uuid now room_id als sender db)
  have "ad_aliases (snd (set_alternative_aliases w uuid now room_id als sender db)) = ad_aliases db"
    unfolding set_alternative_aliases_def by (rule events_keep_rows)
  from aliases_ok_rows [OF this] show ?case using 7 by simp
qed

lemma aliases_ok_run: "aliases_ok w db \<Longrightarrow> aliases_ok w (alias_run w ops db)"
  unfolding alias_run_def by (induction ops arbitrary: db) (simp_all add: aliases_ok_step)

section \<open>Reading what was stored\<close>

definition counts_rows :: "alias_world \<Rightarrow> bool" where
  "counts_rows w \<longleftrightarrow> (\<forall>n. aw_count w n = Inr (Some (int n)))"

lemma alias_exists_counted:
  "counts_rows w \<Longrightarrow> alias_exists w al db = Inr b \<longleftrightarrow> aw_fail w AliasCount = None \<and> b = (al \<in> al_alias ` set (ad_aliases db))"
  by (auto simp: alias_exists_def result_simps counts_rows_def filter_empty_conv)

lemma resolve_row:
  assumes "distinct (map al_alias (ad_aliases db))" and "r \<in> set (ad_aliases db)" and "aw_fail w AliasSelect = None"
  shows "repo_resolve_alias w (al_alias r) db =
     (case alias_info_of r of None \<Rightarrow> Inl (aw_row_error w) | Some i \<Rightarrow> Inr (Some i))"
proof -
  have "filter (\<lambda>x. al_alias x = al_alias r) rows = [r]" if "distinct (map al_alias rows)" "r \<in> set rows" for rows
    using that
  proof (induction rows)
    case (Cons a rows)
    show ?case
    proof (cases "a = r")
      case True
      then have "filter (\<lambda>x. al_alias x = al_alias r) rows = []" using Cons.prems by (auto simp: filter_empty_conv image_iff)
      then show ?thesis using True by simp
    next
      case False
      then have "r \<in> set rows" "al_alias a \<noteq> al_alias r" using Cons.prems by (auto simp: image_iff)
      then show ?thesis using Cons by simp
    qed
  qed simp
  then show ?thesis using assms
    by (auto simp: repo_resolve_alias_def alias_infos_def alias_result_def split: option.splits)
qed

text \<open>The row that a successful creation leaves in the table.\<close>

lemma put_row:
  assumes "put_room_alias w ck now authorization al room_id db = (Inr (), db')" and "aliases_ok w db" and "counts_rows w"
    and "endpoint_user (aw_app w) ck authorization = Inr user_id" and "tagged_id CHR ''!'' room_id" and "tagged_id CHR ''@'' user_id"
  obtains r where "al_alias r = al" "al_room_id r = room_id" "al_servers r = aw_stored_servers w [as_homeserver_name (aw_app w)]"
    "ad_aliases db' = ad_aliases db @ [r]" "aliases_ok w db'"
proof -
  obtain info where create: "repo_create_alias w now al room_id user_id db = (Inr info, db')"
    and permissions: "validate_alias_permissions w user_id al room_id db = Inr ()"
    using assms(1,4) by (auto simp: put_room_alias_Inr_iff)
  then obtain l s where ls: "al = alias_of l s" "CHR '':'' \<notin> set l" "CHR '':'' \<notin> set s" "alias_exists w al db = Inr False"
    and db': "db' = insert_alias \<lparr>al_alias = al, al_room_id = room_id, al_creator = user_id, al_created_at = now,
          al_servers = aw_stored_servers w [s]\<rparr> db"
    by (auto simp: repo_create_alias_Inr_iff)
  have home: "s = as_homeserver_name (aw_app w)" using permissions ls by (simp add: permissions_iff split_alias_of)
  have new: "al \<notin> al_alias ` set (ad_aliases db)" using ls(4) by (simp add: alias_exists_counted [OF assms(3)])
  have "tagged_id CHR ''#'' al" using ls(1) by (auto simp: tagged_id_def alias_of_def starts_with_hash contains_iff)
  then have rows: "ad_aliases db' = ad_aliases db @ [\<lparr>al_alias = al, al_room_id = room_id, al_creator = user_id,
      al_created_at = now, al_servers = aw_stored_servers w [s]\<rparr>]"
    using db' new assms(5,6) by (simp add: insert_alias_def alias_row_accepted_def)
  have ok: "aliases_ok w db'"
    using aliases_ok_created [OF create assms(2)] ls home by (simp add: server_part_alias_of)
  show thesis by (rule that [OF _ _ _ rows ok]) (simp_all add: home)
qed

section \<open>Claims\<close>

text \<open>
  C23. Whatever sequence of requests and calls runs, the aliases in the table stay distinct, well formed
  and of this server, and so do their creators.
\<close>

theorem alias_table_invariant:
  assumes "aliases_ok w db"
  shows "distinct (map al_alias (ad_aliases (alias_run w ops db))) \<and>
     (\<forall>r \<in> set (ad_aliases (alias_run w ops db)).
        tagged_id CHR ''#'' (al_alias r) \<and> tagged_id CHR ''!'' (al_room_id r) \<and>
        server_part (al_alias r) = Some (as_homeserver_name (aw_app w)) \<and>
        server_part (al_creator r) = Some (as_homeserver_name (aw_app w)))"
  using aliases_ok_run [OF assms, of ops] by (auto simp: aliases_ok_def list_all_iff alias_row_ok_def)

text \<open>
  An alias is only created for a user of this server with a valid token who is joined to the room
  and whose level allows sending \<open>m.room.canonical_alias\<close>; the alias has a local part and the name of
  this server, it was not taken, and at most its own row is added.
\<close>

theorem alias_put_sound:
  assumes "put_room_alias w ck now authorization al room_id db = (Inr (), db')"
  shows "\<exists>user_id l m. endpoint_user (aw_app w) ck authorization = Inr user_id \<and>
     al = alias_of l (as_homeserver_name (aw_app w)) \<and> l \<noteq> [] \<and>
     server_part user_id = Some (as_homeserver_name (aw_app w)) \<and>
     as_membership (aw_app w) room_id user_id = Inr (Some m) \<and> m_membership m = Join \<and>
     can_user_perform_action (aw_levels w) room_id user_id (L_SendState ''m.room.canonical_alias'') (ad_events db) = Inr True \<and>
     alias_exists w al db = Inr False \<and>
     (\<forall>r \<in> set (ad_aliases db'). r \<in> set (ad_aliases db) \<or> al_alias r = al \<and> al_room_id r = room_id \<and> al_creator r = user_id)"
proof -
  obtain user_id info where user: "endpoint_user (aw_app w) ck authorization = Inr user_id"
    and permissions: "validate_alias_permissions w user_id al room_id db = Inr ()"
    and create: "repo_create_alias w now al room_id user_id db = (Inr info, db')"
    using assms by (auto simp: put_room_alias_Inr_iff)
  from create obtain l s where ls: "al = alias_of l s" "CHR '':'' \<notin> set l" "CHR '':'' \<notin> set s" "l \<noteq> []"
      "server_part user_id = Some s" "alias_exists w al db = Inr False"
    and db': "db' = insert_alias \<lparr>al_alias = al, al_room_id = room_id, al_creator = user_id, al_created_at = now,
          al_servers = aw_stored_servers w [s]\<rparr> db"
    by (auto simp: repo_create_alias_Inr_iff)
  have home: "s = as_homeserver_name (aw_app w)" using permissions ls by (simp add: permissions_iff split_alias_of)
  obtain m where m: "as_membership (aw_app w) room_id user_id = Inr (Some m)" "m_membership m = Join"
    using permissions by (auto simp: permissions_iff)
  have "\<forall>r \<in> set (ad_aliases db'). r \<in> set (ad_aliases db) \<or> al_alias r = al \<and> al_room_id r = room_id \<and> al_creator r = user_id"
    unfolding db' using insert_alias_rows by fastforce
  then show ?thesis
    using user permissions ls home m by (intro exI [of _ user_id] exI [of _ l] exI [of _ m]) (simp add: permissions_iff)
qed

text \<open>
  Creating and resolving agree: an alias that was created resolves to its room, and every other
  alias resolves as before, provided that the database counts rows, keeps the column \<open>servers\<close> and
  accepts the identifiers.
\<close>

theorem alias_put_then_get:
  assumes "put_room_alias w ck now authorization al room_id db = (Inr (), db')" and "aliases_ok w db" and "counts_rows w"
    and "endpoint_user (aw_app w) ck authorization = Inr user_id" and "tagged_id CHR ''!'' room_id" and "tagged_id CHR ''@'' user_id"
    and "aw_fail w AliasSelect = None" and "\<forall>s. aw_stored_servers w s = Some s"
  shows "get_room_alias w al db' = Inr (room_id, [as_homeserver_name (aw_app w)]) \<and>
     (\<forall>other. other \<noteq> al \<longrightarrow> repo_resolve_alias w other db' = repo_resolve_alias w other db)"
proof -
  obtain r where r: "al_alias r = al" "al_room_id r = room_id" "al_servers r = Some [as_homeserver_name (aw_app w)]"
    "ad_aliases db' = ad_aliases db @ [r]" "aliases_ok w db'"
    using put_row [OF assms(1-6)] assms(8) by metis
  then have "repo_resolve_alias w al db' = (case alias_info_of r of None \<Rightarrow> Inl (aw_row_error w) | Some i \<Rightarrow> Inr (Some i))"
    using resolve_row [of db' r w] assms(7) by (simp add: aliases_ok_def)
  moreover have "alias_shape al = Inr ()" using assms(1) by (auto simp: put_room_alias_Inr_iff)
  ultimately have "get_room_alias w al db' = Inr (room_id, [as_homeserver_name (aw_app w)])"
    using r(2,3) by (simp add: get_room_alias_def alias_info_of_def)
  moreover have "repo_resolve_alias w other db' = repo_resolve_alias w other db" if "other \<noteq> al" for other
    using that r(1,4) by (simp add: repo_resolve_alias_def)
  ultimately show ?thesis by blast
qed

text \<open>
  When the database drops the column \<open>servers\<close>, which its schema does not define, an alias that was
  just created answers every lookup with an internal error.
\<close>

theorem alias_without_servers_unreadable:
  assumes "put_room_alias w ck now authorization al room_id db = (Inr (), db')" and "aliases_ok w db" and "counts_rows w"
    and "endpoint_user (aw_app w) ck authorization = Inr user_id" and "tagged_id CHR ''!'' room_id" and "tagged_id CHR ''@'' user_id"
    and "aw_fail w AliasSelect = None" and "\<forall>s. aw_stored_servers w s = None"
  shows "get_room_alias w al db' = Inl 500 \<and> fst (delete_room_alias w ck authorization al db') = Inl 500"
proof -
  obtain r where r: "al_alias r = al" "al_servers r = None" "ad_aliases db' = ad_aliases db @ [r]" "aliases_ok w db'"
    using put_row [OF assms(1-6)] assms(8) by metis
  then have "repo_resolve_alias w al db' = Inl (aw_row_error w)"
    using resolve_row [of db' r w] assms(7) by (simp add: aliases_ok_def alias_info_of_def)
  moreover have "alias_shape al = Inr ()" using assms(1) by (auto simp: put_room_alias_Inr_iff)
  ultimately show ?thesis using assms(4) by (simp add: get_room_alias_def delete_room_alias_def)
qed

text \<open>
  When a deletion returns no rows, which is what the database does unless it is asked for them, the
  alias is gone but the resolver reports that it did not exist and the endpoint never succeeds.
\<close>

theorem alias_deletion_misreported:
  assumes "\<forall>rows. aw_deleted w rows = Inr None" and "aw_fail w AliasDelete = None"
    and "is_valid_alias_format al" and "extract_server_name al = Inr (as_homeserver_name (aw_app w))"
  shows "fst (delete_alias w al db) = Inr False \<and> al \<notin> al_alias ` set (ad_aliases (snd (delete_alias w al db))) \<and>
     fst (delete_room_alias w ck authorization al db) \<noteq> Inr ()"
proof -
  have r: "repo_delete_alias w al db =
      (Inl (NotFound ''Room alias'' al), db\<lparr>ad_aliases := filter (\<lambda>r. al_alias r \<noteq> al) (ad_aliases db)\<rparr>)"
    using assms(1,2) by (simp add: repo_delete_alias_def ensure_def)
  have "delete_alias w al db = (Inr False, db\<lparr>ad_aliases := filter (\<lambda>r. al_alias r \<noteq> al) (ad_aliases db)\<rparr>)"
    using assms(3,4) by (simp add: delete_alias_def r ensure_def)
  moreover have "fst (delete_room_alias w ck authorization al db) \<noteq> Inr ()"
    by (auto simp: delete_room_alias_def r split: sum.split)
  ultimately show ?thesis by auto
qed

text \<open>
  A resolved remote alias is remembered for an hour: within it the answer is the same whatever the
  remote server says by then.
\<close>

theorem remote_alias_cached:
  assumes "is_valid_alias_format (alias_of l server)" and "CHR '':'' \<notin> set l" and "CHR '':'' \<notin> set server"
    and "server \<noteq> as_homeserver_name (aw_app w)"
    and "repo_get_cached_alias w now (alias_of l server) db = Inr None"
    and "aw_directory w (alias_of l server) server = DirectoryAnswer 200 (Some room_id)" and "aw_fail w CacheWrite = None"
    and "t < now' + 3600" and "aw_app w' = aw_app w" and "aw_fail w' CacheRead = None"
  shows "fst (resolve_alias w now now' (alias_of l server) db) = Inr (Some room_id) \<and>
     resolve_alias w' t t' (alias_of l server) (snd (resolve_alias w now now' (alias_of l server) db)) =
       (Inr (Some room_id), snd (resolve_alias w now now' (alias_of l server) db))"
proof -
  have parse: "bindR (ensure (is_valid_alias_format (alias_of l server)) 400) (\<lambda>_. parse_alias (alias_of l server)) = Inr (l, server)"
    using assms(1) by (simp add: ensure_def parse_alias_of [OF assms(2,3)])
  have first: "resolve_alias w now now' (alias_of l server) db =
      (Inr (Some room_id), snd (repo_cache_alias_resolution w now' (alias_of l server) room_id 3600 db))"
    using assms(4-6) by (simp add: resolve_alias_def parse resolve_remote_alias_def query_federation_directory_def)
  have "repo_get_cached_alias w' t (alias_of l server) (snd (repo_cache_alias_resolution w now' (alias_of l server) room_id 3600 db)) =
      Inr (Some room_id)"
    using assms(7,8,10) by (simp add: repo_get_cached_alias_def repo_cache_alias_resolution_def alias_result_def)
  then have "resolve_alias w' t t' (alias_of l server)
      (snd (repo_cache_alias_resolution w now' (alias_of l server) room_id 3600 db)) =
      (Inr (Some room_id), snd (repo_cache_alias_resolution w now' (alias_of l server) room_id 3600 db))"
    using assms(4,9) by (simp add: resolve_alias_def parse resolve_remote_alias_def)
  then show ?thesis by (simp add: first)
qed

text \<open>
  The two checks of the format differ: an alias with an underscore can be created and looked up by
  the endpoint, and the resolver refuses it as malformed.
\<close>

theorem underscore_alias_unresolvable:
  assumes "aliases_ok w db" and "r \<in> set (ad_aliases db)" and "al_servers r = Some servers" and "aw_fail w AliasSelect = None"
    and "al_alias r = alias_of l server" and "CHR '':'' \<notin> set l" and "CHR '':'' \<notin> set server" and "CHR ''_'' \<in> set l"
  shows "get_room_alias w (al_alias r) db = Inr (al_room_id r, [as_homeserver_name (aw_app w)]) \<and>
     fst (resolve_alias w now now' (al_alias r) db) = Inl 400"
proof -
  have "alias_shape (al_alias r) = Inr ()"
    using assms(5) by (auto simp: alias_shape_def alias_of_def starts_with_hash contains_iff ensure_def)
  moreover have "repo_resolve_alias w (al_alias r) db = (case alias_info_of r of None \<Rightarrow> Inl (aw_row_error w) | Some i \<Rightarrow> Inr (Some i))"
    using assms(1,2,4) by (intro resolve_row) (simp_all add: aliases_ok_def)
  ultimately have "get_room_alias w (al_alias r) db = Inr (al_room_id r, [as_homeserver_name (aw_app w)])"
    using assms(3) by (simp add: get_room_alias_def alias_info_of_def)
  moreover have "\<not> is_ascii_alphanumeric CHR ''_'' \<and> \<not> contains ''-.=/+'' CHR ''_''" by code_simp
  then have "\<not> is_valid_localpart l" using assms(8) by (auto simp: is_valid_localpart_def list_all_iff)
  then have "\<not> is_valid_alias_format (al_alias r)"
    using assms(5) split_on_first [OF assms(6), of server] split_on_none [OF assms(7)]
    by (simp add: is_valid_alias_format_def alias_of_def)
  then have "fst (resolve_alias w now now' (al_alias r) db) = Inl 400" by (simp add: resolve_alias_def ensure_def)
  ultimately show ?thesis by blast
qed

text \<open>
  A row that the database refuses is not noticed: creating an alias for a room whose identifier the
  schema does not admit succeeds and changes nothing.
\<close>

theorem refused_alias_reported_created:
  assumes "put_room_alias w ck now authorization al room_id db = (Inr (), db')" and "\<not> tagged_id CHR ''!'' room_id"
  shows "db' = db"
  using assms by (auto simp: put_room_alias_Inr_iff repo_create_alias_Inr_iff insert_alias_def alias_row_accepted_def)

section \<open>Witnesses\<close>

definition alias_demo_app :: app_state where
  "alias_demo_app = app_demo\<lparr>as_membership := (\<lambda>r u. Inr (Some (new_membership r u Join)))\<rparr>"

definition alias_demo :: alias_world where
  "alias_demo =
     \<lparr>aw_app = alias_demo_app, aw_levels = level_demo, aw_fail = (\<lambda>_. None), aw_rooms = Map.empty,
      aw_stored_servers = Some, aw_row_error = Database ''row'', aw_count = (\<lambda>n. Inr (Some (int n))),
      aw_deleted = (\<lambda>rows. Inr None), aw_alphanumeric = (\<lambda>s. s = []),
      aw_directory = (\<lambda>a s. DirectoryAnswer 200 (Some ''!r:b.org'')), aw_room_servers = (\<lambda>r. None)\<rparr>"

definition alias_demo_db :: alias_db where
  "alias_demo_db = \<lparr>ad_aliases = [], ad_cache = Map.empty,
     ad_events = [levels_event ''1'' 5 ''!r:a.org'' ''@a:a.org'' (default_level_table\<lparr>lt_users := [(''@a:a.org'', 100)]\<rparr>)]\<rparr>"

abbreviation alias_demo_header :: "string option option" where
  "alias_demo_header \<equiv> Some (Some (''Bearer '' @ app_token))"

abbreviation demo_alias :: string where
  "demo_alias \<equiv> ''#x_y:a.org''"

lemma demo_alias_of: "demo_alias = alias_of ''x_y'' ''a.org''"
  by (simp add: alias_of_def)

lemma alias_demo_user: "endpoint_user alias_demo_app app_clocks alias_demo_header = Inr ''@a:a.org''"
proof -
  have "strip_prefix ''Bearer '' (''Bearer '' @ app_token) = Some app_token" using strip_prefix_prefix by blast
  then show ?thesis
    using app_token_valid
    by (simp add: endpoint_user_def extract_matrix_auth_def readable_def alias_demo_app_def app_demo_def app_clocks_def ensure_def
        del: strip_prefix.simps)
qed

lemma alias_demo_permissions: "validate_alias_permissions w ''@a:a.org'' demo_alias ''!r:a.org'' alias_demo_db = Inr ()"
  if "aw_app w = alias_demo_app" "aw_levels w = level_demo" for w
proof -
  have "can_user_perform_action level_demo ''!r:a.org'' ''@a:a.org'' (L_SendState ''m.room.canonical_alias'') (ad_events alias_demo_db) =
      Inr True" by code_simp
  then show ?thesis using that
    by (simp add: validate_alias_permissions_def alias_demo_app_def app_demo_def new_membership_def ensure_def)
qed

lemma alias_demo_chars: "alias_chars w ''_.-'' ''x_y'' \<and> alias_chars w ''_.-:'' ''a.org''" if "aw_alphanumeric w = (\<lambda>s. s = [])"
proof -
  have "list_all (\<lambda>c. byte c \<ge> 128 \<or> is_ascii_alphanumeric c \<or> contains ''_.-'' c) ''x_y''"
    "list_all (\<lambda>c. byte c \<ge> 128 \<or> is_ascii_alphanumeric c \<or> contains ''_.-:'' c) ''a.org''"
    "filter (\<lambda>c. byte c \<ge> 128) ''x_y'' = []" "filter (\<lambda>c. byte c \<ge> 128) ''a.org'' = []"
    by code_simp+
  then show ?thesis using that by (simp add: alias_chars_def)
qed

lemma demo_alias_created:
  assumes "alias_exists w demo_alias db = Inr False" and "aw_fail w AliasInsert = None" and "aw_alphanumeric w = (\<lambda>s. s = [])"
  shows "\<exists>info db'. repo_create_alias w now demo_alias room_id ''@a:a.org'' db = (Inr info, db')"
proof -
  have "server_part ''@a:a.org'' = Some ''a.org''" by code_simp
  then have "repo_create_alias w now demo_alias room_id ''@a:a.org'' db =
     (Inr \<lparr>ai_alias = demo_alias, ai_room_id = room_id, ai_creator = ''@a:a.org'', ai_created_at = now, ai_servers = [''a.org'']\<rparr>,
      insert_alias \<lparr>al_alias = demo_alias, al_room_id = room_id, al_creator = ''@a:a.org'', al_created_at = now,
        al_servers = aw_stored_servers w [''a.org'']\<rparr> db)"
    unfolding repo_create_alias_Inr_iff using assms alias_demo_chars [OF assms(3)]
    by - (rule exI [of _ "''x_y''"], rule exI [of _ "''a.org''"], simp add: alias_of_def)
  then show ?thesis by blast
qed

lemma alias_demo_put: "\<exists>db'. put_room_alias (alias_demo\<lparr>aw_stored_servers := f\<rparr>) app_clocks 7 alias_demo_header demo_alias ''!r:a.org''
    alias_demo_db = (Inr (), db')"
proof -
  let ?w = "alias_demo\<lparr>aw_stored_servers := f\<rparr>"
  have "alias_exists ?w demo_alias alias_demo_db = Inr False"
    by (simp add: alias_exists_def alias_demo_def alias_demo_db_def alias_result_def)
  then have "\<exists>info db'. repo_create_alias ?w 7 demo_alias ''!r:a.org'' ''@a:a.org'' alias_demo_db = (Inr info, db')"
    by (rule demo_alias_created) (simp_all add: alias_demo_def)
  moreover have "alias_shape demo_alias = Inr ()" by code_simp
  ultimately show ?thesis
    using alias_demo_user alias_demo_permissions [of ?w]
    unfolding put_room_alias_Inr_iff by (simp add: alias_demo_def) blast
qed

lemma alias_demo_ok: "aliases_ok w alias_demo_db"
  by (simp add: aliases_ok_def alias_demo_db_def)

lemma alias_demo_counts: "counts_rows (alias_demo\<lparr>aw_stored_servers := f\<rparr>)"
  by (simp add: counts_rows_def alias_demo_def)

lemma alias_demo_ids: "tagged_id CHR ''!'' ''!r:a.org''" "tagged_id CHR ''@'' ''@a:a.org''"
  by code_simp+

theorem alias_table_invariant_witness:
  "distinct (map al_alias (ad_aliases (alias_run alias_demo
     [PutAlias app_clocks 7 alias_demo_header demo_alias ''!r:a.org'', RemoveAlias demo_alias] alias_demo_db)))"
  using alias_table_invariant [OF alias_demo_ok] by blast

lemma alias_demo_same: "alias_demo\<lparr>aw_stored_servers := Some\<rparr> = alias_demo"
  by (simp add: alias_demo_def)

theorem alias_put_sound_witness:
  "\<exists>user_id m. endpoint_user alias_demo_app app_clocks alias_demo_header = Inr user_id \<and>
     as_membership alias_demo_app ''!r:a.org'' user_id = Inr (Some m) \<and> m_membership m = Join"
proof -
  obtain db' where "put_room_alias alias_demo app_clocks 7 alias_demo_header demo_alias ''!r:a.org'' alias_demo_db = (Inr (), db')"
    using alias_demo_put [of Some] unfolding alias_demo_same by blast
  from alias_put_sound [OF this] show ?thesis by (auto simp: alias_demo_def)
qed

theorem alias_put_then_get_witness:
  "\<exists>db'. get_room_alias alias_demo demo_alias db' = Inr (''!r:a.org'', [''a.org''])"
proof -
  obtain db' where put: "put_room_alias alias_demo app_clocks 7 alias_demo_header demo_alias ''!r:a.org'' alias_demo_db = (Inr (), db')"
    using alias_demo_put [of Some] unfolding alias_demo_same by blast
  have "endpoint_user (aw_app alias_demo) app_clocks alias_demo_header = Inr ''@a:a.org''"
    using alias_demo_user by (simp add: alias_demo_def)
  from alias_put_then_get [OF put alias_demo_ok _ this alias_demo_ids] alias_demo_counts [of Some] show ?thesis
    unfolding alias_demo_same by (auto simp: alias_demo_def alias_demo_app_def app_demo_def)
qed

theorem alias_without_servers_unreadable_witness:
  "\<exists>db'. get_room_alias (alias_demo\<lparr>aw_stored_servers := (\<lambda>s. None)\<rparr>) demo_alias db' = Inl 500"
proof -
  let ?w = "alias_demo\<lparr>aw_stored_servers := (\<lambda>s. None)\<rparr>"
  obtain db' where put: "put_room_alias ?w app_clocks 7 alias_demo_header demo_alias ''!r:a.org'' alias_demo_db = (Inr (), db')"
    using alias_demo_put by blast
  have "endpoint_user (aw_app ?w) app_clocks alias_demo_header = Inr ''@a:a.org''"
    using alias_demo_user by (simp add: alias_demo_def)
  from alias_without_servers_unreadable [OF put alias_demo_ok alias_demo_counts this alias_demo_ids] show ?thesis
    by (auto simp: alias_demo_def)
qed

theorem alias_deletion_misreported_witness: "fst (delete_alias alias_demo ''#x:a.org'' alias_demo_db) = Inr False"
proof -
  have "is_valid_alias_format ''#x:a.org''" "extract_server_name ''#x:a.org'' = Inr ''a.org''" by code_simp+
  with alias_deletion_misreported [of alias_demo "''#x:a.org''"] show ?thesis
    by (auto simp: alias_demo_def alias_demo_app_def app_demo_def)
qed

theorem remote_alias_cached_witness:
  "fst (resolve_alias (alias_demo\<lparr>aw_directory := (\<lambda>a s. DirectoryNotSent)\<rparr>) 3000 3000 (alias_of ''x'' ''b.org'')
     (snd (resolve_alias alias_demo 5 6 (alias_of ''x'' ''b.org'') alias_demo_db))) = Inr (Some ''!r:b.org'')"
proof -
  have "is_valid_alias_format (alias_of ''x'' ''b.org'')" by code_simp
  from remote_alias_cached [OF this, of alias_demo 5 alias_demo_db "''!r:b.org''" 3000 6
      "alias_demo\<lparr>aw_directory := (\<lambda>a s. DirectoryNotSent)\<rparr>" 3000]
  show ?thesis
    by (simp add: alias_demo_def alias_demo_app_def app_demo_def repo_get_cached_alias_def alias_result_def alias_demo_db_def)
qed

theorem underscore_alias_unresolvable_witness:
  "fst (resolve_alias alias_demo 0 0 demo_alias (alias_demo_db\<lparr>ad_aliases :=
     [\<lparr>al_alias = demo_alias, al_room_id = ''!r:a.org'', al_creator = ''@a:a.org'', al_created_at = 0, al_servers = Some []\<rparr>]\<rparr>)) = Inl 400"
  (is "fst (resolve_alias _ _ _ _ ?db) = _")
proof -
  have "server_part demo_alias = Some ''a.org''" "server_part ''@a:a.org'' = Some ''a.org''" "tagged_id CHR ''#'' demo_alias"
    by code_simp+
  then have "aliases_ok alias_demo ?db"
    using alias_demo_ids by (simp add: aliases_ok_def alias_row_ok_def alias_demo_def alias_demo_app_def app_demo_def)
  from underscore_alias_unresolvable [OF this, of "hd (ad_aliases ?db)" "[]" "''x_y''" "''a.org''" 0 0] show ?thesis
    by (simp add: alias_of_def alias_demo_def)
qed

theorem refused_alias_reported_created_witness:
  "\<exists>db. put_room_alias alias_demo app_clocks 7 alias_demo_header demo_alias ''r'' db = (Inr (), db)"
proof -
  let ?db = "alias_demo_db\<lparr>ad_events := [levels_event ''1'' 5 ''r'' ''@a:a.org'' (default_level_table\<lparr>lt_users := [(''@a:a.org'', 100)]\<rparr>)]\<rparr>"
  have "can_user_perform_action level_demo ''r'' ''@a:a.org'' (L_SendState ''m.room.canonical_alias'') (ad_events ?db) = Inr True"
    by code_simp
  then have "validate_alias_permissions alias_demo ''@a:a.org'' demo_alias ''r'' ?db = Inr ()"
    by (simp add: validate_alias_permissions_def alias_demo_def alias_demo_app_def app_demo_def new_membership_def ensure_def)
  moreover have "alias_exists alias_demo demo_alias ?db = Inr False"
    by (simp add: alias_exists_def alias_demo_def alias_demo_db_def alias_result_def)
  then have "\<exists>info db'. repo_create_alias alias_demo 7 demo_alias ''r'' ''@a:a.org'' ?db = (Inr info, db')"
    by (rule demo_alias_created) (simp_all add: alias_demo_def)
  moreover have "alias_shape demo_alias = Inr ()" by code_simp
  ultimately obtain db' where put: "put_room_alias alias_demo app_clocks 7 alias_demo_header demo_alias ''r'' ?db = (Inr (), db')"
    using alias_demo_user unfolding put_room_alias_Inr_iff by (simp add: alias_demo_def) blast
  have "\<not> tagged_id CHR ''!'' ''r''" by code_simp
  from refused_alias_reported_created [OF put this] put show ?thesis by blast
qed

end
