(* ===== verification/Server_Discovery.thy ===== *)
theory Server_Discovery
  imports Matrix_Ids
begin

text \<open>
  Server discovery: the resolver \<open>server/src/federation/dns_resolver.rs\<close> with its three caches,
  the well-known client \<open>well_known_client.rs\<close> and the orchestrator \<open>server_discovery.rs\<close>.
  DNS and HTTP answers are the record \<open>net\<close>. An IP address is the text Rust prints for it; the
  printed form of an IPv6 address is an argument. Instants are seconds, one clock reading per place
  of the source that reads the clock (\<open>dns_clocks\<close>). Maps are partial functions.
\<close>

section \<open>Data\<close>

datatype dns_error =
    ResolveError string
  | WellKnownFailed string
  | NoServerFound string
  | InvalidHostname string
  | SrvParsingError string

fun dns_error_text :: "dns_error \<Rightarrow> string" where
  "dns_error_text (ResolveError m) = ''DNS resolution failed: '' @ m"
| "dns_error_text (WellKnownFailed m) = ''Well-known lookup failed: '' @ m"
| "dns_error_text (NoServerFound m) = ''No valid server found for hostname: '' @ m"
| "dns_error_text (InvalidHostname m) = ''Invalid hostname: '' @ m"
| "dns_error_text (SrvParsingError m) = ''SRV record parsing failed: '' @ m"

datatype resolution_method =
    IpLiteral
  | ExplicitPort
  | WellKnownDelegation
  | SrvMatrixFed
  | SrvMatrixLegacy
  | FallbackPort8448

record resolved_server =
  ip_address :: string
  resolved_port :: "16 word"
  resolved_host_header :: string
  tls_hostname :: string
  resolution_method_used :: resolution_method

record srv_record =
  srv_priority :: "16 word"
  srv_weight :: "16 word"
  srv_port :: "16 word"
  srv_target :: string

type_synonym well_known_response = string

record backoff_state =
  failure_count :: "32 word"
  next_retry_at :: int
  base_delay :: int

record 'a cache_entry =
  entry_value :: 'a
  expires_at :: int

record resolver =
  well_known_cache :: "string \<rightharpoonup> well_known_response option cache_entry"
  error_cache :: "string \<rightharpoonup> dns_error cache_entry"
  backoff_states :: "string \<rightharpoonup> backoff_state"

datatype lookup_failure = LookupTimeout | LookupError string

record net =
  ipv6_text :: "string \<Rightarrow> string"
  lookup_ip :: "string \<Rightarrow> lookup_failure + string list"
  srv_lookup :: "string \<Rightarrow> lookup_failure + srv_record list"
  get_well_known :: "string \<Rightarrow> string + well_known_response option"

record dns_clocks =
  at_error_check :: int
  at_retry_check :: int
  at_well_known_check :: int
  at_well_known_store :: int
  at_outcome :: int
  at_error_store :: int

section \<open>Cache entries and backoff\<close>

definition new_entry :: "int \<Rightarrow> 'a \<Rightarrow> int \<Rightarrow> 'a cache_entry" where
  "new_entry now v ttl = \<lparr>entry_value = v, expires_at = now + ttl\<rparr>"

definition is_expired :: "int \<Rightarrow> 'a cache_entry \<Rightarrow> bool" where
  "is_expired now e \<longleftrightarrow> now > expires_at e"

definition new_backoff :: "int \<Rightarrow> backoff_state" where
  "new_backoff now = \<lparr>failure_count = 0, next_retry_at = now, base_delay = 1\<rparr>"

definition backoff_delay :: "backoff_state \<Rightarrow> int" where
  "backoff_delay b = base_delay b * 2 ^ min (unat (failure_count b)) 10"

definition backoff_failure :: "int \<Rightarrow> backoff_state \<Rightarrow> backoff_state" where
  "backoff_failure now b =
     (let b' = b\<lparr>failure_count := failure_count b + 1\<rparr>
      in b'\<lparr>next_retry_at := now + backoff_delay b'\<rparr>)"

definition can_retry :: "int \<Rightarrow> backoff_state \<Rightarrow> bool" where
  "can_retry now b \<longleftrightarrow> now \<ge> next_retry_at b"

definition backoff_reset :: "int \<Rightarrow> backoff_state \<Rightarrow> backoff_state" where
  "backoff_reset now b = b\<lparr>failure_count := 0, next_retry_at := now\<rparr>"

section \<open>Names and addresses\<close>

text \<open>\<open>str::parse\<close> into an address, printed: an IPv4 address has one text, IPv6 is normalized.\<close>

definition parse_ip :: "net \<Rightarrow> string \<Rightarrow> string option" where
  "parse_ip w s = (if is_ipv4 s then Some s else if is_ipv6 s then Some (ipv6_text w s) else None)"

definition parse_dns_port :: "string \<Rightarrow> dns_error + 16 word option" where
  "parse_dns_port port_str =
     bindR (ok_or (parse_u16 port_str) (InvalidHostname (''Invalid port: '' @ port_str))) (\<lambda>p. Inr (Some p))"

definition parse_dns_server_name :: "string \<Rightarrow> dns_error + (string \<times> 16 word option)" where
  "parse_dns_server_name sn =
     (if sn = [] then Inl (InvalidHostname ''Empty server name'')
      else if starts_with sn CHR ''['' then
        (case find_char CHR '']'' sn of
           None \<Rightarrow> Inl (InvalidHostname (''Unclosed IPv6 literal: '' @ sn))
         | Some bracket_end \<Rightarrow>
             let ipv6_part = take (bracket_end - 1) (drop 1 sn); remainder = drop (bracket_end + 1) sn in
             if remainder = [] then Inr (ipv6_part, None)
             else (case strip_prefix '':'' remainder of
                     Some port_str \<Rightarrow> bindR (parse_dns_port port_str) (\<lambda>p. Inr (ipv6_part, p))
                   | None \<Rightarrow> Inl (InvalidHostname (''Invalid IPv6 literal: '' @ sn))))
      else (case rfind_char CHR '':'' sn of
              None \<Rightarrow> Inr (sn, None)
            | Some colon_pos \<Rightarrow>
                let h = take colon_pos sn; port_str = drop (colon_pos + 1) sn in
                if contains h CHR '':'' then Inr (sn, None)
                else bindR (parse_dns_port port_str) (\<lambda>p. Inr (h, p))))"

definition lookup_result :: "string \<Rightarrow> lookup_failure + 'a \<Rightarrow> dns_error + 'a" where
  "lookup_result timeout_text r =
     map_err (\<lambda>f. case f of LookupTimeout \<Rightarrow> ResolveError timeout_text | LookupError m \<Rightarrow> ResolveError m) r"

definition resolve_hostname_to_ip :: "net \<Rightarrow> string \<Rightarrow> dns_error + string" where
  "resolve_hostname_to_ip w h =
     bindR (lookup_result (''DNS resolution timeout for '' @ h) (lookup_ip w h)) (\<lambda>ips.
     case ips of
       [] \<Rightarrow> Inl (NoServerFound (''No IP addresses found for '' @ h))
     | ip # _ \<Rightarrow> Inr ip)"

section \<open>SRV records\<close>

text \<open>The target without its trailing dots.\<close>

definition parse_srv_records :: "srv_record list \<Rightarrow> srv_record list" where
  "parse_srv_records records =
     map (\<lambda>r. r\<lparr>srv_target := rev (dropWhile (\<lambda>c. c = CHR ''.'') (rev (srv_target r)))\<rparr>) records"

definition srv_order :: "srv_record list \<Rightarrow> srv_record list" where
  "srv_order records = sort_key srv_priority (sort_key (\<lambda>r. - uint (srv_weight r)) records)"

fun try_srv_records :: "net \<Rightarrow> string \<Rightarrow> string \<Rightarrow> srv_record list \<Rightarrow> resolved_server option" where
  "try_srv_records w h service [] = None"
| "try_srv_records w h service (r # records) =
     (case resolve_hostname_to_ip w (srv_target r) of
        Inr ip \<Rightarrow> Some \<lparr>ip_address = ip, resolved_port = srv_port r, resolved_host_header = h,
          tls_hostname = h,
          resolution_method_used = (if service = ''_matrix-fed._tcp'' then SrvMatrixFed else SrvMatrixLegacy)\<rparr>
      | Inl _ \<Rightarrow> try_srv_records w h service records)"

definition resolve_via_srv :: "net \<Rightarrow> string \<Rightarrow> string \<Rightarrow> dns_error + resolved_server" where
  "resolve_via_srv w h service =
     (let srv_name = service @ ''.'' @ h in
      bindR (lookup_result (''SRV lookup timeout for '' @ srv_name) (srv_lookup w srv_name)) (\<lambda>lookup.
      let srv_records = parse_srv_records lookup in
      if srv_records = [] then Inl (NoServerFound (''No SRV records found for '' @ srv_name))
      else ok_or (try_srv_records w h service (srv_order srv_records))
             (NoServerFound (''All SRV targets failed for '' @ srv_name))))"

section \<open>Well-known delegation\<close>

text \<open>A delegated name without address and port: SRV records of either service, else port 8448.\<close>

definition resolve_delegated :: "net \<Rightarrow> string \<Rightarrow> dns_error + resolved_server" where
  "resolve_delegated w h =
     (let delegated = (\<lambda>r. Inr (r\<lparr>resolved_host_header := h, tls_hostname := h,
            resolution_method_used := WellKnownDelegation\<rparr>)) in
      case resolve_via_srv w h ''_matrix-fed._tcp'' of
        Inr r \<Rightarrow> delegated r
      | Inl _ \<Rightarrow>
          (case resolve_via_srv w h ''_matrix._tcp'' of
             Inr r \<Rightarrow> delegated r
           | Inl _ \<Rightarrow>
               bindR (resolve_hostname_to_ip w h) (\<lambda>ip.
               Inr \<lparr>ip_address = ip, resolved_port = 8448, resolved_host_header = h, tls_hostname = h,
                    resolution_method_used = WellKnownDelegation\<rparr>)))"

definition process_well_known_response ::
  "net \<Rightarrow> string \<Rightarrow> well_known_response \<Rightarrow> dns_error + resolved_server" where
  "process_well_known_response w h well_known =
     bindR (parse_dns_server_name well_known) (\<lambda>(delegated_hostname, delegated_port).
     case parse_ip w delegated_hostname of
       Some ip \<Rightarrow>
         let p = unwrap_or 8448 delegated_port in
         Inr \<lparr>ip_address = ip, resolved_port = p, resolved_host_header = ip @ '':'' @ show_u16 p,
              tls_hostname = ip, resolution_method_used = WellKnownDelegation\<rparr>
     | None \<Rightarrow>
         (case delegated_port of
            Some p \<Rightarrow>
              bindR (resolve_hostname_to_ip w delegated_hostname) (\<lambda>ip.
              Inr \<lparr>ip_address = ip, resolved_port = p,
                   resolved_host_header = delegated_hostname @ '':'' @ show_u16 p,
                   tls_hostname = delegated_hostname, resolution_method_used = WellKnownDelegation\<rparr>)
          | None \<Rightarrow> resolve_delegated w delegated_hostname))"

definition get_cached_well_known :: "int \<Rightarrow> resolver \<Rightarrow> string \<Rightarrow> well_known_response option option" where
  "get_cached_well_known now s h =
     (case well_known_cache s h of
        Some e \<Rightarrow> if is_expired now e then None else Some (entry_value e)
      | None \<Rightarrow> None)"

definition cache_well_known :: "int \<Rightarrow> string \<Rightarrow> well_known_response option \<Rightarrow> resolver \<Rightarrow> resolver" where
  "cache_well_known now h r s =
     s\<lparr>well_known_cache := (well_known_cache s)(h \<mapsto> new_entry now r (24 * 60 * 60))\<rparr>"

definition resolve_via_well_known_cached ::
  "net \<Rightarrow> dns_clocks \<Rightarrow> string \<Rightarrow> resolver \<Rightarrow> (dns_error + resolved_server) \<times> resolver" where
  "resolve_via_well_known_cached w ck h s =
     (case get_cached_well_known (at_well_known_check ck) s h of
        Some (Some well_known) \<Rightarrow> (process_well_known_response w h well_known, s)
      | Some None \<Rightarrow> (Inl (WellKnownFailed ''Cached well-known response is None''), s)
      | None \<Rightarrow>
          (case get_well_known w h of
             Inr well_known_opt \<Rightarrow>
               ((case well_known_opt of
                   Some well_known \<Rightarrow> process_well_known_response w h well_known
                 | None \<Rightarrow> Inl (WellKnownFailed ''No well-known response'')),
                cache_well_known (at_well_known_store ck) h well_known_opt s)
           | Inl e \<Rightarrow>
               (Inl (WellKnownFailed e), cache_well_known (at_well_known_store ck) h None s)))"

section \<open>Resolution\<close>

definition resolve_server_internal ::
  "net \<Rightarrow> dns_clocks \<Rightarrow> string \<Rightarrow> resolver \<Rightarrow> (dns_error + resolved_server) \<times> resolver" where
  "resolve_server_internal w ck sn s =
     (case parse_dns_server_name sn of
        Inl e \<Rightarrow> (Inl e, s)
      | Inr (h, explicit_port) \<Rightarrow>
          (case parse_ip w h of
             Some ip \<Rightarrow>
               (Inr \<lparr>ip_address = ip, resolved_port = unwrap_or 8448 explicit_port,
                     resolved_host_header = sn, tls_hostname = ip, resolution_method_used = IpLiteral\<rparr>, s)
           | None \<Rightarrow>
               (case explicit_port of
                  Some p \<Rightarrow>
                    (bindR (resolve_hostname_to_ip w h) (\<lambda>ip.
                     Inr \<lparr>ip_address = ip, resolved_port = p, resolved_host_header = sn, tls_hostname = h,
                          resolution_method_used = ExplicitPort\<rparr>), s)
                | None \<Rightarrow>
                    (case resolve_via_well_known_cached w ck h s of
                       (Inr resolved, s') \<Rightarrow> (Inr resolved, s')
                     | (Inl _, s') \<Rightarrow>
                         ((case resolve_via_srv w h ''_matrix-fed._tcp'' of
                             Inr resolved \<Rightarrow> Inr resolved
                           | Inl _ \<Rightarrow>
                               (case resolve_via_srv w h ''_matrix._tcp'' of
                                  Inr resolved \<Rightarrow> Inr resolved
                                | Inl _ \<Rightarrow>
                                    bindR (resolve_hostname_to_ip w h) (\<lambda>ip.
                                    Inr \<lparr>ip_address = ip, resolved_port = 8448, resolved_host_header = h,
                                         tls_hostname = h, resolution_method_used = FallbackPort8448\<rparr>))), s')))))"

definition get_cached_error :: "int \<Rightarrow> resolver \<Rightarrow> string \<Rightarrow> dns_error option" where
  "get_cached_error now s sn =
     (case error_cache s sn of
        Some e \<Rightarrow> if is_expired now e then None else Some (entry_value e)
      | None \<Rightarrow> None)"

definition cache_error :: "int \<Rightarrow> string \<Rightarrow> dns_error \<Rightarrow> resolver \<Rightarrow> resolver" where
  "cache_error now sn e s = s\<lparr>error_cache := (error_cache s)(sn \<mapsto> new_entry now e (60 * 60))\<rparr>"

definition can_retry_server :: "int \<Rightarrow> resolver \<Rightarrow> string \<Rightarrow> bool" where
  "can_retry_server now s sn = (case backoff_states s sn of Some b \<Rightarrow> can_retry now b | None \<Rightarrow> True)"

definition record_failure :: "int \<Rightarrow> string \<Rightarrow> resolver \<Rightarrow> resolver" where
  "record_failure now sn s =
     s\<lparr>backoff_states := (backoff_states s)
        (sn \<mapsto> backoff_failure now (unwrap_or (new_backoff now) (backoff_states s sn)))\<rparr>"

definition reset_backoff_state :: "int \<Rightarrow> string \<Rightarrow> resolver \<Rightarrow> resolver" where
  "reset_backoff_state now sn s =
     (case backoff_states s sn of
        Some b \<Rightarrow> s\<lparr>backoff_states := (backoff_states s)(sn \<mapsto> backoff_reset now b)\<rparr>
      | None \<Rightarrow> s)"

definition resolve_server ::
  "net \<Rightarrow> dns_clocks \<Rightarrow> string \<Rightarrow> resolver \<Rightarrow> (dns_error + resolved_server) \<times> resolver" where
  "resolve_server w ck sn s =
     (case get_cached_error (at_error_check ck) s sn of
        Some cached_error \<Rightarrow> (Inl cached_error, s)
      | None \<Rightarrow>
          if \<not> can_retry_server (at_retry_check ck) s sn
          then (Inl (NoServerFound (''Server '' @ sn @ '' is in backoff state'')), s)
          else case resolve_server_internal w ck sn s of
                 (Inr resolved, s') \<Rightarrow> (Inr resolved, reset_backoff_state (at_outcome ck) sn s')
               | (Inl e, s') \<Rightarrow>
                   (Inl e, cache_error (at_error_store ck) sn e (record_failure (at_outcome ck) sn s')))"

definition cleanup_cache :: "int \<Rightarrow> int \<Rightarrow> int \<Rightarrow> resolver \<Rightarrow> resolver" where
  "cleanup_cache now1 now2 now3 s =
     \<lparr>well_known_cache = (\<lambda>k. case well_known_cache s k of
             Some e \<Rightarrow> if is_expired now1 e then None else Some e | None \<Rightarrow> None),
          error_cache = (\<lambda>k. case error_cache s k of
             Some e \<Rightarrow> if is_expired now2 e then None else Some e | None \<Rightarrow> None),
          backoff_states = (\<lambda>k. case backoff_states s k of
             Some b \<Rightarrow> if next_retry_at b > now3 - 24 * 60 * 60 then Some b else None | None \<Rightarrow> None)\<rparr>"

definition new_resolver :: resolver where
  "new_resolver = \<lparr>well_known_cache = Map.empty, error_cache = Map.empty, backoff_states = Map.empty\<rparr>"

definition get_base_url :: "bool \<Rightarrow> resolved_server \<Rightarrow> string" where
  "get_base_url use_https r =
     (if use_https then ''https'' else ''http'') @ ''://'' @ ip_address r @ '':'' @ show_u16 (resolved_port r)"

section \<open>The orchestrator\<close>

datatype server_discovery_error =
    DnsError dns_error
  | InvalidServerName string
  | DiscoveryNoServerFound string
  | AllMethodsFailed string

datatype certificate_validation =
    CertServerName string
  | CertHostname string
  | CertIpLiteral

fun show_method :: "resolution_method \<Rightarrow> string" where
  "show_method IpLiteral = ''IpLiteral''"
| "show_method ExplicitPort = ''ExplicitPort''"
| "show_method WellKnownDelegation = ''WellKnownDelegation''"
| "show_method SrvMatrixFed = ''SrvMatrixFed''"
| "show_method SrvMatrixLegacy = ''SrvMatrixLegacy''"
| "show_method FallbackPort8448 = ''FallbackPort8448''"

record federation_connection =
  socket_addr :: "string \<times> 16 word"
  base_url :: string
  conn_host_header :: string
  cert_validation :: certificate_validation
  conn_resolution_method :: string

fun cert_validation_of :: "resolution_method \<Rightarrow> string \<Rightarrow> string \<Rightarrow> certificate_validation" where
  "cert_validation_of IpLiteral tls sn = CertIpLiteral"
| "cert_validation_of ExplicitPort tls sn = CertServerName sn"
| "cert_validation_of WellKnownDelegation tls sn = CertHostname tls"
| "cert_validation_of SrvMatrixFed tls sn = CertHostname tls"
| "cert_validation_of SrvMatrixLegacy tls sn = CertHostname tls"
| "cert_validation_of FallbackPort8448 tls sn = CertServerName sn"

definition create_federation_connection ::
  "bool \<Rightarrow> resolved_server \<Rightarrow> string \<Rightarrow> federation_connection" where
  "create_federation_connection use_https r original_server_name =
     \<lparr>socket_addr = (ip_address r, resolved_port r), base_url = get_base_url use_https r,
      conn_host_header = resolved_host_header r,
      cert_validation = cert_validation_of (resolution_method_used r) (tls_hostname r) original_server_name,
      conn_resolution_method = show_method (resolution_method_used r)\<rparr>"

definition discover_server ::
  "net \<Rightarrow> bool \<Rightarrow> dns_clocks \<Rightarrow> string \<Rightarrow> resolver \<Rightarrow>
   (server_discovery_error + federation_connection) \<times> resolver" where
  "discover_server w use_https ck sn s =
     (case resolve_server w ck sn s of
        (Inl e, s') \<Rightarrow> (Inl (DnsError e), s')
      | (Inr r, s') \<Rightarrow> (Inr (create_federation_connection use_https r sn), s'))"

definition validate_server_name :: "string \<Rightarrow> server_discovery_error + unit" where
  "validate_server_name sn =
     bindR (ensure (sn \<noteq> []) (InvalidServerName ''Empty server name'')) (\<lambda>_.
     bindR (ensure (\<not> contains_str sn ''://'')
              (InvalidServerName ''Server name should not contain protocol scheme'')) (\<lambda>_.
     ensure (\<not> (starts_with sn CHR ''.'' \<or> ends_with sn CHR ''.''))
       (InvalidServerName ''Server name cannot start or end with dot'')))"

section \<open>The well-known client\<close>

datatype well_known_error =
    WK_HttpError string
  | WK_JsonError string
  | WK_InvalidResponse string
  | WK_TooManyRedirects
  | WK_CacheError string

text \<open>
  An answer of the HTTP client: the class of its status and its text, the headers the client looks
  at (no value when absent or not text), and the body with its decoding.
\<close>

datatype status_class = StatusRedirect | StatusSuccess | StatusOther

record well_known_answer =
  wa_class :: status_class
  wa_status :: string
  wa_location :: "string option option"
  wa_cache_control :: "string option"
  wa_expires :: "int option"
  wa_body :: "string + (string + well_known_response)"

fun first_max_age :: "string list \<Rightarrow> nat option" where
  "first_max_age [] = None"
| "first_max_age (directive # directives) =
     (case Option.bind (strip_prefix ''max-age='' (trim directive)) (parse_unsigned 18446744073709551615) of
        Some max_age \<Rightarrow> Some max_age
      | None \<Rightarrow> first_max_age directives)"

definition parse_max_age :: "string \<Rightarrow> nat option" where
  "parse_max_age cache_control = first_max_age (split_on CHR '','' cache_control)"

text \<open>Seconds to keep an answer; \<open>now\<close> is the time since the epoch, in seconds.\<close>

definition calculate_cache_ttl_from_response :: "nat \<Rightarrow> well_known_answer \<Rightarrow> nat" where
  "calculate_cache_ttl_from_response now a =
     (case Option.bind (wa_cache_control a) parse_max_age of
        Some max_age \<Rightarrow> min max_age (48 * 60 * 60)
      | None \<Rightarrow>
          (case wa_expires a of
             Some expires \<Rightarrow>
               if 0 \<le> expires \<and> nat expires > now then min (nat expires - now) (48 * 60 * 60)
               else 24 * 60 * 60
           | None \<Rightarrow> 24 * 60 * 60))"

definition max_redirects :: nat where "max_redirects = 5"

text \<open>The loop, with the number of redirects still allowed.\<close>

fun fetch_loop ::
  "(string \<Rightarrow> string + well_known_answer) \<Rightarrow> nat \<Rightarrow> nat \<Rightarrow> string \<Rightarrow>
   well_known_error + (well_known_response \<times> nat)" where
  "fetch_loop http now left url =
     bindR (map_err WK_HttpError (http url)) (\<lambda>a.
     if wa_class a = StatusRedirect
     then (if left = 0 then Inl WK_TooManyRedirects
           else case wa_location a of
                  None \<Rightarrow> Inl (WK_InvalidResponse ''Redirect without location header'')
                | Some None \<Rightarrow> Inl (WK_InvalidResponse ''Invalid redirect location'')
                | Some (Some location) \<Rightarrow> fetch_loop http now (left - 1) location)
     else if wa_class a \<noteq> StatusSuccess then Inl (WK_InvalidResponse (''HTTP '' @ wa_status a))
     else bindR (map_err WK_HttpError (wa_body a)) (\<lambda>parsed.
          bindR (map_err WK_JsonError parsed) (\<lambda>well_known.
          if well_known = [] then Inl (WK_InvalidResponse ''Empty m.server field'')
          else Inr (well_known, calculate_cache_ttl_from_response now a))))"

declare fetch_loop.simps [simp del]

definition fetch_well_known_from_network ::
  "(string \<Rightarrow> string + well_known_answer) \<Rightarrow> bool \<Rightarrow> nat \<Rightarrow> string \<Rightarrow>
   well_known_error + (well_known_response \<times> nat)" where
  "fetch_well_known_from_network http use_https now h =
     fetch_loop http now max_redirects
       ((if use_https then ''https'' else ''http'') @ ''://'' @ h @ ''/.well-known/matrix/server'')"

record cached_well_known =
  cw_response :: "well_known_response option"
  cw_cached_at :: nat
  cw_expires_at :: nat
  cw_is_error :: bool

text \<open>
  \<open>cached\<close> is what the client's cache answers for the host. The result is the answer and the entry
  stored, if any; times are read once each for the check, the entry's age and its end.
\<close>

definition client_get_well_known ::
  "(string \<Rightarrow> string + well_known_answer) \<Rightarrow> bool \<Rightarrow> nat \<Rightarrow> nat \<Rightarrow> nat \<Rightarrow> cached_well_known option \<Rightarrow> string \<Rightarrow>
   well_known_response option \<times> cached_well_known option" where
  "client_get_well_known http use_https now now1 now2 cached h =
     (let fetch =
        (case fetch_well_known_from_network http use_https now h of
           Inr (r, ttl) \<Rightarrow> (Some r,
             Some \<lparr>cw_response = Some r, cw_cached_at = now1, cw_expires_at = now2 + ttl, cw_is_error = False\<rparr>)
         | Inl e \<Rightarrow> (None,
             Some \<lparr>cw_response = None, cw_cached_at = now1, cw_expires_at = now2 + 60 * 60, cw_is_error = True\<rparr>))
      in case cached of
           Some c \<Rightarrow> if now < cw_expires_at c then (cw_response c, None) else fetch
         | None \<Rightarrow> fetch)"

section \<open>Two parsers of server names\<close>

lemma dns_name_hostname:
  assumes "parse_hostname_or_ipv4_server_name sn sn = Inr p" and "sn \<noteq> []" and "\<not> starts_with sn CHR ''[''"
  shows "\<exists>q. parse_dns_server_name sn = Inr (hostname p, q) \<and> port p = unwrap_or 8448 q"
proof (cases "rfind_char CHR '':'' sn")
  case None
  then show ?thesis
    using assms unfolding parse_hostname_or_ipv4_server_name_def parse_dns_server_name_def Let_def
    by (auto simp: result_simps)
next
  case (Some i)
  have host: "CHR '':'' \<notin> set (hostname p)"
    using parse_hostname_result(3) [OF assms(1)] host_no_colon by blast
  have p: "hostname p = take i sn" "i \<le> length sn" "parse_u16 (drop (i + 1) sn) = Some (port p)"
    using assms(1) Some unfolding parse_hostname_or_ipv4_server_name_def parse_port_def Let_def
    by (auto simp: result_simps get_to_def get_from_def split: if_splits)
  then show ?thesis
    using assms(2,3) Some host
    by (simp add: parse_dns_server_name_def parse_dns_port_def contains_def Let_def)
qed

lemma dns_name_ipv6:
  assumes "parse_ipv6_server_name sn sn = Inr p" and "starts_with sn CHR ''[''"
  shows "\<exists>a q. parse_dns_server_name sn = Inr (a, q) \<and> hostname p = ''['' @ a @ '']'' \<and> is_ipv6 a \<and>
    port p = unwrap_or 8448 q"
proof -
  from assms(1) obtain be part rm where be: "find_char CHR '']'' sn = Some be"
    and part: "Option.bind (strip_prefix ''['' sn) (\<lambda>s. get_to s (be - 1)) = Some part"
    and rm: "get_from sn (be + 1) = Some rm" and v6: "is_ipv6 part" and h: "hostname p = ''['' @ part @ '']''"
    and q: "(if rm = [] then Inr 8448 else case strip_prefix '':'' rm of
        Some port_str \<Rightarrow> parse_port port_str | None \<Rightarrow> Inl ''Invalid characters after IPv6 address'') = Inr (port p)"
    unfolding parse_ipv6_server_name_def by (auto simp: result_simps)
  have part': "part = take (be - 1) (drop 1 sn)" and rm': "rm = drop (be + 1) sn"
    using part rm by (auto simp: bind_eq_Some_conv strip_prefix_iff get_to_def get_from_def split: if_splits)
  have "sn \<noteq> []" using assms(2) by (auto simp: starts_with_def)
  with q v6 h be assms(2) show ?thesis
    unfolding part' rm'
    by (auto simp: parse_dns_server_name_def parse_dns_port_def parse_port_def Let_def result_simps
        split: if_splits option.splits)
qed

section \<open>Backoff and cached errors\<close>

lemma internal_keeps_errors:
  "resolve_server_internal w ck sn s = (r, s') \<Longrightarrow>
     error_cache s' = error_cache s \<and> backoff_states s' = backoff_states s"
  by (auto simp: resolve_server_internal_def resolve_via_well_known_cached_def cache_well_known_def
      split: sum.splits option.splits prod.splits)

text \<open>The clock readings of a call, in order, between the times before and after it.\<close>

definition clocks_between :: "int \<Rightarrow> dns_clocks \<Rightarrow> int \<Rightarrow> bool" where
  "clocks_between t ck t' \<longleftrightarrow>
     sorted [t, at_error_check ck, at_retry_check ck, at_well_known_check ck, at_well_known_store ck,
       at_outcome ck, at_error_store ck, t']"

text \<open>Calls of a resolver one after the other, with any answers of the network.\<close>

inductive resolver_at :: "int \<Rightarrow> resolver \<Rightarrow> bool" where
  fresh: "resolver_at t new_resolver"
| later: "resolver_at t s \<Longrightarrow> t \<le> t' \<Longrightarrow> resolver_at t' s"
| resolves: "resolver_at t s \<Longrightarrow> clocks_between t ck t' \<Longrightarrow> resolve_server w ck sn s = (r, s') \<Longrightarrow> resolver_at t' s'"
| cleans: "resolver_at t s \<Longrightarrow> sorted [t, now1, now2, now3, t'] \<Longrightarrow> resolver_at t' (cleanup_cache now1 now2 now3 s)"

text \<open>
  A waiting time never ends after the cached error of the same server, or it is over.
\<close>

definition waits_covered :: "int \<Rightarrow> resolver \<Rightarrow> bool" where
  "waits_covered t s \<longleftrightarrow> (\<forall>sn b. backoff_states s sn = Some b \<longrightarrow> base_delay b = 1 \<and>
     (next_retry_at b \<le> t \<or> (\<exists>e. error_cache s sn = Some e \<and> next_retry_at b \<le> expires_at e)))"

lemma waits_coveredD:
  assumes "waits_covered t s" and "backoff_states s sn = Some b"
  shows "base_delay b = 1" and "next_retry_at b \<le> t \<or> (\<exists>e. error_cache s sn = Some e \<and> next_retry_at b \<le> expires_at e)"
  using assms by (auto simp: waits_covered_def)

lemma backoff_delay_bounds: "base_delay b = 1 \<Longrightarrow> 1 \<le> backoff_delay b \<and> backoff_delay b \<le> 1024"
proof -
  assume b: "base_delay b = 1"
  have "(2 :: int) ^ min (unat (failure_count b)) 10 \<le> 2 ^ 10" by (rule power_increasing) auto
  with b show ?thesis by (simp add: backoff_delay_def)
qed

lemma waits_covered_failure:
  assumes inv: "waits_covered t s" and order: "t \<le> out" "out \<le> stored" "stored \<le> t'"
  shows "waits_covered t' (cache_error stored sn e (record_failure out sn s))"
  unfolding waits_covered_def
proof (intro allI impI)
  fix sn' b
  assume b: "backoff_states (cache_error stored sn e (record_failure out sn s)) sn' = Some b"
  show "base_delay b = 1 \<and> (next_retry_at b \<le> t' \<or>
      (\<exists>e'. error_cache (cache_error stored sn e (record_failure out sn s)) sn' = Some e' \<and>
         next_retry_at b \<le> expires_at e'))"
  proof (cases "sn' = sn")
    case True
    let ?old = "unwrap_or (new_backoff out) (backoff_states s sn)"
    have old: "base_delay ?old = 1"
      using waits_coveredD(1) [OF inv] by (cases "backoff_states s sn") (auto simp: new_backoff_def)
    have "b = backoff_failure out ?old" using b True by (simp add: cache_error_def record_failure_def)
    then have "base_delay b = 1" "next_retry_at b = out + backoff_delay (?old\<lparr>failure_count := failure_count ?old + 1\<rparr>)"
      using old by (simp_all add: backoff_failure_def Let_def)
    moreover have "backoff_delay (?old\<lparr>failure_count := failure_count ?old + 1\<rparr>) \<le> 1024"
      using backoff_delay_bounds old by simp
    ultimately show ?thesis
      using True order by (simp add: cache_error_def new_entry_def record_failure_def)
  next
    case False
    then have "backoff_states s sn' = Some b" using b by (simp add: cache_error_def record_failure_def)
    from waits_coveredD [OF inv this] False order show ?thesis
      by (auto simp: cache_error_def record_failure_def)
  qed
qed

lemma waits_covered_mono: "waits_covered t s \<Longrightarrow> t \<le> t' \<Longrightarrow> waits_covered t' s"
  unfolding waits_covered_def by (meson order_trans)

lemma waits_covered_reset:
  assumes "waits_covered t s" and "t \<le> out" and "out \<le> t'"
  shows "waits_covered t' (reset_backoff_state out sn s)"
  using waits_covered_mono [OF assms(1), of t'] assms(2,3)
  by (auto simp: waits_covered_def reset_backoff_state_def backoff_reset_def split: option.splits if_splits)

lemma waits_covered_cleanup:
  assumes "waits_covered t s" and "t \<le> now2" and "now2 \<le> t'"
  shows "waits_covered t' (cleanup_cache now1 now2 now3 s)"
  unfolding waits_covered_def
proof (intro allI impI)
  fix sn b
  assume "backoff_states (cleanup_cache now1 now2 now3 s) sn = Some b"
  then have "backoff_states s sn = Some b" by (auto simp: cleanup_cache_def split: option.splits if_splits)
  from waits_coveredD [OF assms(1) this] show "base_delay b = 1 \<and> (next_retry_at b \<le> t' \<or>
      (\<exists>e. error_cache (cleanup_cache now1 now2 now3 s) sn = Some e \<and> next_retry_at b \<le> expires_at e))"
    using assms(2,3) by (auto simp: cleanup_cache_def is_expired_def)
qed

lemma resolver_waits_covered: "resolver_at t s \<Longrightarrow> waits_covered t s"
proof (induction rule: resolver_at.induct)
  case (fresh t)
  show ?case by (simp add: waits_covered_def new_resolver_def)
next
  case (later t s t')
  then show ?case by (blast intro: waits_covered_mono)
next
  case (cleans t s now1 now2 now3 t')
  then show ?case using waits_covered_cleanup [of t s now2 t'] by auto
next
  case (resolves t s ck t' w sn r s')
  have order: "t \<le> at_outcome ck" "at_outcome ck \<le> at_error_store ck" "at_error_store ck \<le> t'" "t \<le> t'"
    using resolves.hyps(2) by (auto simp: clocks_between_def)
  obtain r1 s1 where i: "resolve_server_internal w ck sn s = (r1, s1)" by (cases "resolve_server_internal w ck sn s")
  have "waits_covered t s1" using resolves.IH internal_keeps_errors [OF i] by (simp add: waits_covered_def)
  moreover have "s' = s \<or> s' = reset_backoff_state (at_outcome ck) sn s1 \<or>
      (\<exists>e. s' = cache_error (at_error_store ck) sn e (record_failure (at_outcome ck) sn s1))"
    using resolves.hyps(3) i by (auto simp: resolve_server_def split: option.splits sum.splits if_splits)
  ultimately show ?case
    using order waits_covered_mono [OF resolves.IH order(4)]
      waits_covered_reset [of t s1 "at_outcome ck" t' sn] waits_covered_failure [of t s1 "at_outcome ck"] by auto
qed

section \<open>Choosing a server\<close>

lemma try_srv_records_Some:
  "try_srv_records w h service records = Some r \<Longrightarrow>
     \<exists>as x bs. records = as @ x # bs \<and> resolve_hostname_to_ip w (srv_target x) = Inr (ip_address r) \<and>
       resolved_port r = srv_port x \<and> (\<forall>y\<in>set as. \<exists>e. resolve_hostname_to_ip w (srv_target y) = Inl e)"
proof (induction records)
  case (Cons a records)
  show ?case
  proof (cases "resolve_hostname_to_ip w (srv_target a)")
    case (Inl e)
    with Cons obtain as x bs where "records = as @ x # bs"
      "resolve_hostname_to_ip w (srv_target x) = Inr (ip_address r)" "resolved_port r = srv_port x"
      "\<forall>y\<in>set as. \<exists>e. resolve_hostname_to_ip w (srv_target y) = Inl e" by auto
    with Inl show ?thesis by (intro exI [of _ "a # as"] exI [of _ x] exI [of _ bs]) auto
  next
    case (Inr ip)
    with Cons.prems show ?thesis by (intro exI [of _ "[]"] exI [of _ a] exI [of _ records]) auto
  qed
qed simp

lemma try_srv_records_None:
  "try_srv_records w h service records = None \<longleftrightarrow>
     (\<forall>y\<in>set records. \<exists>e. resolve_hostname_to_ip w (srv_target y) = Inl e)"
  by (induction records) (auto split: sum.splits)

lemma set_srv_order [simp]: "set (srv_order records) = set records"
  by (simp add: srv_order_def)

lemma resolve_via_srv_cases:
  assumes "srv_lookup w (service @ ''.'' @ h) = Inr records"
  shows "resolve_via_srv w h service = Inr r \<longleftrightarrow>
    try_srv_records w h service (srv_order (parse_srv_records records)) = Some r"
  using assms by (auto simp: resolve_via_srv_def lookup_result_def srv_order_def Let_def result_simps
      split: option.splits)

text \<open>
  The server taken from SRV records. When the lookup answers, the resolution fails exactly when no
  target resolves, and otherwise the address and port come from a record whose target resolves, while the
  target of every record of smaller priority, and of every record of equal priority and larger weight, does not.
\<close>

theorem srv_choice:
  assumes "srv_lookup w (service @ ''.'' @ h) = Inr records"
  shows "((\<forall>r. resolve_via_srv w h service \<noteq> Inr r) \<longleftrightarrow>
      (\<forall>x\<in>set (parse_srv_records records). \<exists>e. resolve_hostname_to_ip w (srv_target x) = Inl e)) \<and>
    (\<forall>r. resolve_via_srv w h service = Inr r \<longrightarrow>
      (\<exists>x\<in>set (parse_srv_records records). resolve_hostname_to_ip w (srv_target x) = Inr (ip_address r) \<and>
        resolved_port r = srv_port x \<and>
        (\<forall>y\<in>set (parse_srv_records records).
           srv_priority y < srv_priority x \<or> srv_priority y = srv_priority x \<and> srv_weight y > srv_weight x
           \<longrightarrow> (\<exists>e. resolve_hostname_to_ip w (srv_target y) = Inl e))))"
proof (intro conjI allI impI)
  let ?recs = "parse_srv_records records"
  show "(\<forall>r. resolve_via_srv w h service \<noteq> Inr r) \<longleftrightarrow>
      (\<forall>x\<in>set ?recs. \<exists>e. resolve_hostname_to_ip w (srv_target x) = Inl e)"
    using try_srv_records_None [of w h service "srv_order ?recs"]
    by (simp add: resolve_via_srv_cases [OF assms])
  fix r
  assume "resolve_via_srv w h service = Inr r"
  then obtain as x bs where o: "srv_order ?recs = as @ x # bs"
    and x: "resolve_hostname_to_ip w (srv_target x) = Inr (ip_address r)" "resolved_port r = srv_port x"
    and before: "\<forall>y\<in>set as. \<exists>e. resolve_hostname_to_ip w (srv_target y) = Inl e"
    using try_srv_records_Some [of w h service "srv_order ?recs" r] resolve_via_srv_cases [OF assms] by blast
  have set: "set ?recs = set (as @ x # bs)" using o set_srv_order [of ?recs] by simp
  have "\<exists>e. resolve_hostname_to_ip w (srv_target y) = Inl e"
    if y: "y \<in> set ?recs" and better: "srv_priority y < srv_priority x \<or>
        srv_priority y = srv_priority x \<and> srv_weight y > srv_weight x" for y
  proof -
    have "y \<notin> set bs"
      using sort_key_twice [OF o [unfolded srv_order_def], of y] better by (auto simp: word_less_def)
    with y set better before show ?thesis by auto
  qed
  with x set show "\<exists>x\<in>set ?recs. resolve_hostname_to_ip w (srv_target x) = Inr (ip_address r) \<and>
        resolved_port r = srv_port x \<and>
        (\<forall>y\<in>set ?recs.
           srv_priority y < srv_priority x \<or> srv_priority y = srv_priority x \<and> srv_weight y > srv_weight x
           \<longrightarrow> (\<exists>e. resolve_hostname_to_ip w (srv_target y) = Inl e))" by auto
qed

text \<open>
  The identifier parser and the resolver's own parser of server names agree: a name the former
  accepts is accepted by the latter, with the same port, 8448 where none is given, and the same host,
  for an IPv6 literal without its brackets.
\<close>

theorem server_name_parsers_agree:
  assumes "parse_server_name sn = Inr p"
  shows "\<exists>h q. parse_dns_server_name sn = Inr (h, q) \<and> port p = unwrap_or 8448 q \<and>
    hostname p = (if starts_with sn CHR ''['' then ''['' @ h @ '']'' else h)"
proof (cases "starts_with sn CHR ''[''")
  case True
  with assms have "parse_ipv6_server_name sn sn = Inr p" by (auto simp: parse_server_name_def split: if_splits)
  from dns_name_ipv6 [OF this True] True show ?thesis by auto
next
  case False
  with assms have "parse_hostname_or_ipv4_server_name sn sn = Inr p" "sn \<noteq> []"
    by (auto simp: parse_server_name_def split: if_splits)
  from dns_name_hostname [OF this False] False show ?thesis by auto
qed

text \<open>
  The backoff of a server never decides. In every state a resolver reaches, a call that finds no cached
  error of the server is not refused by its backoff, and the failure it may record ends before the error it
  caches: the cached error lasts an hour, the delays grow from 2 to 1024 seconds.
\<close>

theorem backoff_never_decides:
  assumes "resolver_at t s" and "clocks_between t ck t'"
    and "get_cached_error (at_error_check ck) s sn = None"
  shows "can_retry_server (at_retry_check ck) s sn \<and>
    resolve_server w ck sn s =
      (case resolve_server_internal w ck sn s of
         (Inr resolved, s') \<Rightarrow> (Inr resolved, reset_backoff_state (at_outcome ck) sn s')
       | (Inl e, s') \<Rightarrow> (Inl e, cache_error (at_error_store ck) sn e (record_failure (at_outcome ck) sn s')))"
proof (rule conjI)
  have order: "t \<le> at_error_check ck" "at_error_check ck \<le> at_retry_check ck"
    using assms(2) by (auto simp: clocks_between_def)
  show retry: "can_retry_server (at_retry_check ck) s sn"
  proof (cases "backoff_states s sn")
    case (Some b)
    from waits_coveredD(2) [OF resolver_waits_covered [OF assms(1)] Some] have "next_retry_at b \<le> at_retry_check ck"
      using assms(3) order by (auto simp: get_cached_error_def is_expired_def split: if_splits)
    with Some show ?thesis by (simp add: can_retry_server_def can_retry_def)
  qed (simp add: can_retry_server_def)
  show "resolve_server w ck sn s =
      (case resolve_server_internal w ck sn s of
         (Inr resolved, s') \<Rightarrow> (Inr resolved, reset_backoff_state (at_outcome ck) sn s')
       | (Inl e, s') \<Rightarrow> (Inl e, cache_error (at_error_store ck) sn e (record_failure (at_outcome ck) sn s')))"
    using retry assms(3) by (simp add: resolve_server_def)
qed

text \<open>
  A failed well-known lookup is not repeated for a day. When the well-known client answers nothing, or
  fails, the state after the resolution answers every lookup of that host in the next 24 hours with the
  same failure, whatever the network would answer then.
\<close>

theorem failed_well_known_cached_day:
  assumes "parse_dns_server_name sn = Inr (h, None)" and "parse_ip w h = None"
    and "get_cached_well_known (at_well_known_check ck) s h = None"
    and "get_well_known w h = Inr None \<or> get_well_known w h = Inl e"
    and "resolve_server_internal w ck sn s = (r, s')"
    and "at_well_known_check ck' \<le> at_well_known_store ck + 24 * 60 * 60"
  shows "resolve_via_well_known_cached w' ck' h s' =
    (Inl (WellKnownFailed ''Cached well-known response is None''), s')"
proof -
  have "s' = cache_well_known (at_well_known_store ck) h None s"
    using assms(1-5) by (auto simp: resolve_server_internal_def resolve_via_well_known_cached_def)
  then show ?thesis
    using assms(6)
    by (simp add: resolve_via_well_known_cached_def get_cached_well_known_def cache_well_known_def
        is_expired_def new_entry_def)
qed

lemma resolve_server_method:
  assumes "resolve_server w ck sn s = (Inr r, s')"
    and "parse_dns_server_name sn = Inr (h, q)"
  shows "parse_ip w h = Some ip \<Longrightarrow> ip_address r = ip \<and> resolution_method_used r = IpLiteral"
    and "parse_ip w h = None \<Longrightarrow> q = Some p \<Longrightarrow> resolution_method_used r = ExplicitPort \<and> resolved_port r = p"
  using assms by (auto simp: resolve_server_def resolve_server_internal_def result_simps
      split: option.splits if_splits sum.splits prod.splits)

lemma dns_name_shorter: "parse_dns_server_name sn = Inr (h, Some p) \<Longrightarrow> length h < length sn"
  by (auto simp: parse_dns_server_name_def Let_def result_simps elim!: rfind_char_SomeE
      split: if_splits option.splits)

text \<open>
  Two names of a connection that no peer can satisfy. With an explicit port the certificate is checked
  against the server name with its port, which the host, the name the resolver keeps for TLS, never equals;
  for an IPv6 literal the base URL is made from the address without brackets.
\<close>

theorem connection_names:
  assumes "discover_server w use_https ck sn s = (Inr c, s')"
    and "parse_dns_server_name sn = Inr (h, q)"
  shows "(parse_ip w h = None \<and> q \<noteq> None \<longrightarrow> cert_validation c = CertServerName sn \<and> sn \<noteq> h) \<and>
    (is_ipv6 h \<and> \<not> is_ipv4 h \<longrightarrow>
      base_url c = (if use_https then ''https'' else ''http'') @ ''://'' @ ipv6_text w h @ '':'' @ show_u16 (unwrap_or 8448 q))"
proof (intro conjI impI)
  obtain r where r: "resolve_server w ck sn s = (Inr r, s')" and c: "c = create_federation_connection use_https r sn"
    using assms(1) by (auto simp: discover_server_def split: prod.splits sum.splits)
  { assume q: "parse_ip w h = None \<and> q \<noteq> None"
    then obtain p where p: "q = Some p" by blast
    show "cert_validation c = CertServerName sn"
      using resolve_server_method(2) [OF r assms(2) _ p] q c by (simp add: create_federation_connection_def)
    show "sn \<noteq> h" using dns_name_shorter [of sn h p] assms(2) p by auto }
  show "base_url c = (if use_https then ''https'' else ''http'') @ ''://'' @ ipv6_text w h @ '':'' @ show_u16 (unwrap_or 8448 q)"
    if "is_ipv6 h \<and> \<not> is_ipv4 h"
    using r c that assms(2)
    by (auto simp: create_federation_connection_def get_base_url_def resolve_server_def resolve_server_internal_def
        parse_ip_def split: option.splits if_splits)
qed

section \<open>Fetching well-known documents\<close>

lemma ttl_bound: "calculate_cache_ttl_from_response now a \<le> 172800"
  by (auto simp: calculate_cache_ttl_from_response_def split: option.splits)

lemma fetch_loop_ok: "fetch_loop http now left url = Inr (r, ttl) \<Longrightarrow> r \<noteq> [] \<and> ttl \<le> 172800"
proof (induction http now left url rule: fetch_loop.induct)
  case (1 http now left url)
  from "1.prems" show ?case
    by (subst (asm) fetch_loop.simps)
      (auto simp: result_simps intro: ttl_bound dest!: "1.IH" split: if_splits option.splits)
qed

lemma fetch_loop_redirects:
  assumes "\<And>u. \<exists>a v. http u = Inr a \<and> wa_class a = StatusRedirect \<and> wa_location a = Some (Some v)"
  shows "fetch_loop http now left url = Inl WK_TooManyRedirects"
proof (induction left arbitrary: url)
  case 0
  from assms [of url] show ?case by (auto simp: fetch_loop.simps [of _ _ 0])
next
  case (Suc left)
  from assms [of url] Suc show ?case by (auto simp: fetch_loop.simps [of _ _ "Suc left"])
qed

text \<open>
  What the well-known client stores. A new cache entry lasts at most 48 hours, an entry of a failure
  exactly one hour; the server name it returns is not empty; and a host that redirects for ever is given up
  after five redirects, with a stored failure.
\<close>

theorem well_known_fetch_bounds:
  assumes "client_get_well_known http use_https now now1 now2 cached h = (r, Some c)"
  shows "cw_response c = r \<and> r \<noteq> Some [] \<and> (cw_is_error c \<longleftrightarrow> r = None) \<and>
    cw_expires_at c \<le> now2 + 172800 \<and> (cw_is_error c \<longrightarrow> cw_expires_at c = now2 + 3600) \<and>
    ((\<forall>u. \<exists>a v. http u = Inr a \<and> wa_class a = StatusRedirect \<and> wa_location a = Some (Some v)) \<longrightarrow> cw_is_error c)"
proof (intro conjI impI)
  let ?f = "fetch_well_known_from_network http use_https now h"
  have c: "(case ?f of
           Inr (r, ttl) \<Rightarrow> (Some r,
             Some \<lparr>cw_response = Some r, cw_cached_at = now1, cw_expires_at = now2 + ttl, cw_is_error = False\<rparr>)
         | Inl e \<Rightarrow> (None,
             Some \<lparr>cw_response = None, cw_cached_at = now1, cw_expires_at = now2 + 60 * 60, cw_is_error = True\<rparr>)) = (r, Some c)"
    using assms by (auto simp: client_get_well_known_def Let_def split: option.splits if_splits)
  then show "cw_response c = r" "cw_is_error c \<longleftrightarrow> r = None" "cw_is_error c \<Longrightarrow> cw_expires_at c = now2 + 3600"
    by (auto split: sum.splits prod.splits)
  show "r \<noteq> Some []" "cw_expires_at c \<le> now2 + 172800"
    using c fetch_loop_ok by (fastforce simp: fetch_well_known_from_network_def split: sum.splits prod.splits)+
  show "cw_is_error c" if "\<forall>u. \<exists>a v. http u = Inr a \<and> wa_class a = StatusRedirect \<and> wa_location a = Some (Some v)"
    using c fetch_loop_redirects [of http, OF that [rule_format]] by (auto simp: fetch_well_known_from_network_def)
qed

section \<open>Examples\<close>

definition demo_net :: net where
  "demo_net = \<lparr>ipv6_text = (\<lambda>s. s),
     lookup_ip = (\<lambda>h. if h = ''a.org'' then Inr [''10.0.0.1''] else Inl LookupTimeout),
     srv_lookup = (\<lambda>n. if n = ''_matrix-fed._tcp.x.org''
        then Inr [\<lparr>srv_priority = 20, srv_weight = 1, srv_port = 443, srv_target = ''a.org.''\<rparr>,
                  \<lparr>srv_priority = 10, srv_weight = 1, srv_port = 444, srv_target = ''b.org.''\<rparr>]
        else Inl LookupTimeout),
     get_well_known = (\<lambda>h. Inr None)\<rparr>"

definition clocks_at :: "int \<Rightarrow> dns_clocks" where
  "clocks_at t = \<lparr>at_error_check = t, at_retry_check = t, at_well_known_check = t, at_well_known_store = t,
     at_outcome = t, at_error_store = t\<rparr>"

lemmas discovery_eval = demo_net_def clocks_at_def resolve_hostname_to_ip_def lookup_result_def
  parse_srv_records_def srv_order_def resolve_via_srv_def Let_def

lemma discovery_names:
  "parse_dns_server_name ''y.org'' = Inr (''y.org'', None)"
  "parse_dns_server_name ''a.org:80'' = Inr (''a.org'', Some 80)"
  "parse_ip w ''y.org'' = None" "parse_ip w ''a.org'' = None"
proof -
  have "\<not> is_ipv6 ''y.org''" "\<not> is_ipv6 ''a.org''" using is_ipv6_colon by fastforce+
  then show "parse_ip w ''y.org'' = None" "parse_ip w ''a.org'' = None"
    by (simp_all add: parse_ip_def ipv4_defs byte_class_defs Let_def)
  show "parse_dns_server_name ''y.org'' = Inr (''y.org'', None)"
    by (simp add: parse_dns_server_name_def starts_with_def rfind_char_def)
  show "parse_dns_server_name ''a.org:80'' = Inr (''a.org'', Some 80)"
    by (simp add: parse_dns_server_name_def parse_dns_port_def starts_with_def contains_def rfind_char_def
        parse_server_name_defs byte_class_defs Let_def)
qed

theorem srv_choice_witness:
  "\<exists>x\<in>set (parse_srv_records [\<lparr>srv_priority = 20, srv_weight = 1, srv_port = 443, srv_target = ''a.org.''\<rparr>,
                  \<lparr>srv_priority = 10, srv_weight = 1, srv_port = 444, srv_target = ''b.org.''\<rparr>]).
     resolve_hostname_to_ip demo_net (srv_target x) = Inr ''10.0.0.1''"
proof -
  have "srv_lookup demo_net (''_matrix-fed._tcp'' @ ''.'' @ ''x.org'') =
      Inr [\<lparr>srv_priority = 20, srv_weight = 1, srv_port = 443, srv_target = ''a.org.''\<rparr>,
           \<lparr>srv_priority = 10, srv_weight = 1, srv_port = 444, srv_target = ''b.org.''\<rparr>]"
    by (simp add: demo_net_def)
  moreover have "resolve_via_srv demo_net ''x.org'' ''_matrix-fed._tcp'' =
      Inr \<lparr>ip_address = ''10.0.0.1'', resolved_port = 443, resolved_host_header = ''x.org'',
        tls_hostname = ''x.org'', resolution_method_used = SrvMatrixFed\<rparr>"
    by (simp add: discovery_eval)
  ultimately show ?thesis using srv_choice [of demo_net "''_matrix-fed._tcp''" "''x.org''"] by fastforce
qed

theorem server_name_parsers_agree_witness:
  "\<exists>h q. parse_dns_server_name ''example.com:80'' = Inr (h, q) \<and> unwrap_or 8448 q = 80 \<and> h = ''example.com''"
proof -
  have h: "parse_server_name ''example.com:80'' = Inr \<lparr>hostname = ''example.com'', port = 80,
      ip_literal = False, original = ''example.com:80''\<rparr>"
    using example_hostname by (simp add: parse_server_name_defs byte_class_defs Let_def)
  show ?thesis using server_name_parsers_agree [OF h] by (simp add: starts_with_def)
qed

lemma demo_internal_failure:
  "resolve_server_internal demo_net ck ''y.org'' new_resolver =
     (Inl (ResolveError ''DNS resolution timeout for y.org''),
      cache_well_known (at_well_known_store ck) ''y.org'' None new_resolver)"
  by (simp add: resolve_server_internal_def discovery_names resolve_via_well_known_cached_def
      get_cached_well_known_def new_resolver_def discovery_eval)

lemma demo_connection:
  "discover_server demo_net True ck ''a.org:80'' new_resolver =
     (Inr (create_federation_connection True \<lparr>ip_address = ''10.0.0.1'', resolved_port = 80,
        resolved_host_header = ''a.org:80'', tls_hostname = ''a.org'', resolution_method_used = ExplicitPort\<rparr> ''a.org:80''),
      new_resolver)"
  by (simp add: discover_server_def resolve_server_def resolve_server_internal_def discovery_names reset_backoff_state_def
      get_cached_error_def can_retry_server_def new_resolver_def discovery_eval)

theorem backoff_never_decides_witness:
  "\<exists>s. resolver_at 10 s \<and> backoff_states s ''y.org'' = Some \<lparr>failure_count = 1, next_retry_at = 7, base_delay = 1\<rparr> \<and>
     can_retry_server 4000 s ''y.org''"
proof -
  obtain r s where s: "resolve_server demo_net (clocks_at 5) ''y.org'' new_resolver = (r, s)" by fastforce
  have at: "resolver_at 10 s"
    by (rule resolver_at.resolves [OF resolver_at.fresh [of 0] _ s]) (simp add: clocks_between_def clocks_at_def)
  have st: "backoff_states s ''y.org'' = Some \<lparr>failure_count = 1, next_retry_at = 7, base_delay = 1\<rparr>"
    "error_cache s ''y.org'' = Some \<lparr>entry_value = ResolveError ''DNS resolution timeout for y.org'', expires_at = 3605\<rparr>"
    using s demo_internal_failure [of "clocks_at 5"]
    by (auto simp: resolve_server_def get_cached_error_def can_retry_server_def new_resolver_def clocks_at_def
        cache_error_def record_failure_def cache_well_known_def backoff_failure_def backoff_delay_def new_backoff_def
        new_entry_def Let_def)
  have "clocks_between 10 (clocks_at 4000) 4000" by (simp add: clocks_between_def clocks_at_def)
  moreover have "get_cached_error (at_error_check (clocks_at 4000)) s ''y.org'' = None"
    using st by (simp add: get_cached_error_def is_expired_def clocks_at_def)
  ultimately have "can_retry_server (at_retry_check (clocks_at 4000)) s ''y.org''"
    using backoff_never_decides [OF at] by blast
  with at st show ?thesis by (auto simp: clocks_at_def)
qed

theorem failed_well_known_cached_day_witness:
  "fst (resolve_via_well_known_cached (demo_net\<lparr>get_well_known := (\<lambda>h. Inr (Some ''a.org''))\<rparr>) (clocks_at 80000) ''y.org''
     (snd (resolve_server_internal demo_net (clocks_at 5) ''y.org'' new_resolver))) =
   Inl (WellKnownFailed ''Cached well-known response is None'')"
proof -
  obtain r s where rs: "resolve_server_internal demo_net (clocks_at 5) ''y.org'' new_resolver = (r, s)" by fastforce
  have "get_cached_well_known (at_well_known_check (clocks_at 5)) new_resolver ''y.org'' = None"
    by (simp add: get_cached_well_known_def new_resolver_def)
  moreover have "get_well_known demo_net ''y.org'' = Inr None \<or> get_well_known demo_net ''y.org'' = Inl []"
    by (simp add: demo_net_def)
  moreover have "at_well_known_check (clocks_at 80000) \<le> at_well_known_store (clocks_at 5) + 24 * 60 * 60"
    by (simp add: clocks_at_def)
  ultimately have "resolve_via_well_known_cached (demo_net\<lparr>get_well_known := (\<lambda>h. Inr (Some ''a.org''))\<rparr>)
      (clocks_at 80000) ''y.org'' s = (Inl (WellKnownFailed ''Cached well-known response is None''), s)"
    using failed_well_known_cached_day [OF discovery_names(1) discovery_names(3) _ _ rs] by blast
  with rs show ?thesis by simp
qed

theorem connection_names_witness:
  "\<exists>c. fst (discover_server demo_net True (clocks_at 5) ''a.org:80'' new_resolver) = Inr c \<and>
     cert_validation c = CertServerName ''a.org:80'' \<and> ''a.org:80'' \<noteq> ''a.org''"
  using connection_names [OF demo_connection [of "clocks_at 5"] discovery_names(2)] demo_connection [of "clocks_at 5"] discovery_names(4)
  by auto

theorem well_known_fetch_bounds_witness:
  "\<exists>c. client_get_well_known (\<lambda>u. Inr \<lparr>wa_class = StatusRedirect, wa_status = ''302 Found'',
       wa_location = Some (Some ''https://x''), wa_cache_control = None, wa_expires = None, wa_body = Inl []\<rparr>)
       True 0 0 0 None ''x'' = (None, Some c) \<and> cw_expires_at c = 3600"
proof -
  let ?http = "\<lambda>u. Inr \<lparr>wa_class = StatusRedirect, wa_status = ''302 Found'',
       wa_location = Some (Some ''https://x''), wa_cache_control = None, wa_expires = None, wa_body = Inl []\<rparr>"
  obtain r c where rc: "client_get_well_known ?http True 0 0 0 None ''x'' = (r, Some c)"
    by (cases "fetch_well_known_from_network ?http True 0 ''x''") (auto simp: client_get_well_known_def Let_def)
  from well_known_fetch_bounds [OF rc] have "cw_is_error c" "r = None" "cw_expires_at c = 3600" by auto
  with rc show ?thesis by blast
qed

end
