(* ===== verification/Third_Party_Invites.thy ===== *)
theory Third_Party_Invites
  imports Fed_Handshake
begin

text \<open>
  The exchange of an invitation of a third-party identifier for one of a user
  (\<open>server/src/_matrix/federation/v1/exchange_third_party_invite/by_room_id.rs\<close>) with the queries of
  \<open>surrealdb/src/repository/federation.rs\<close> and \<open>room.rs\<close> it runs. The state is that of
  \<open>Fed_Handshake\<close> and the log of invitations, which bounds their rate. Requests to identity servers,
  the signing of such requests and the rows of configuration tables are arguments.
\<close>

section \<open>Environment\<close>

datatype invite_call = InviteEvent | TrustedServers | Blocklist | FederationConfig | RateLog | InviteLevels
  | TargetMember

record invite_world =
  ti_hs :: hs_world
  ti_fail :: "invite_call \<Rightarrow> repository_error option"
  ti_content_row :: "json \<Rightarrow> json"
  ti_trusted_row :: "json option"
  ti_blocked_row :: "string \<Rightarrow> bool option"
  ti_federation_row :: "string \<Rightarrow> bool option"
  ti_count_row :: "nat \<Rightarrow> repository_error + int option"
  ti_log_written :: bool
  ti_level_error :: repository_error
  ti_sign_request :: "string \<Rightarrow> string \<Rightarrow> string \<Rightarrow> signing_error + unit"
  ti_status :: "bool \<Rightarrow> string \<Rightarrow> string + bool"
  ti_key :: "string \<Rightarrow> string + bool \<times> (string + json)"
  ti_content_of_value :: "json \<Rightarrow> string + event_content"

type_synonym invite_log = "(string \<times> int) list"

record invite_db =
  td_hs :: hs_db
  td_log :: invite_log

record invite_clocks =
  tk_hs :: hs_clocks
  tk_rate :: int
  tk_uuid :: string
  tk_created :: int

definition invite_result :: "invite_world \<Rightarrow> invite_call \<Rightarrow> 'a \<Rightarrow> repository_error + 'a" where
  "invite_result w call x = (case ti_fail w call of Some e \<Rightarrow> Inl e | None \<Rightarrow> Inr x)"

abbreviation ti_session :: "invite_world \<Rightarrow> session_world" where
  "ti_session w \<equiv> hs_session (ti_hs w)"

abbreviation ti_homeserver :: "invite_world \<Rightarrow> string" where
  "ti_homeserver w \<equiv> hs_homeserver (ti_hs w)"

section \<open>Queries\<close>

definition get_third_party_invite_event :: "invite_world \<Rightarrow> string \<Rightarrow> string \<Rightarrow> event list \<Rightarrow> repository_error + json option" where
  "get_third_party_invite_event w room_id tok es =
     invite_result w InviteEvent
       (case newest_ts_first (filter (\<lambda>e. ev_room_id e = room_id \<and> ev_event_type e = ''m.room.third_party_invite'' \<and>
            content_get (ev_content e) ''token'' = Some (JString tok)) es) of
          [] \<Rightarrow> None
        | e # _ \<Rightarrow> Some (ti_content_row w (content_to_value (ev_content e))))"

definition repo_trusted_identity_servers :: "invite_world \<Rightarrow> repository_error + string list option" where
  "repo_trusted_identity_servers w =
     invite_result w TrustedServers
       (map_option (List.map_filter as_str) (Option.bind (ti_trusted_row w) as_array))"

definition repo_server_blocked :: "invite_world \<Rightarrow> string \<Rightarrow> repository_error + bool" where
  "repo_server_blocked w server = invite_result w Blocklist (unwrap_or False (ti_blocked_row w server))"

definition check_server_federation_config :: "invite_world \<Rightarrow> string \<Rightarrow> repository_error + bool" where
  "check_server_federation_config w server = invite_result w FederationConfig (unwrap_or True (ti_federation_row w server))"

definition MAX_THIRD_PARTY_INVITES_PER_HOUR :: int where
  "MAX_THIRD_PARTY_INVITES_PER_HOUR = 100"

text \<open>An attempt below the limit is logged; the result of the insertion is ignored.\<close>

definition repo_server_rate_limited :: "invite_world \<Rightarrow> int \<Rightarrow> string \<Rightarrow> invite_log \<Rightarrow> (repository_error + bool) \<times> invite_log" where
  "repo_server_rate_limited w now server log =
     (case bindR (invite_result w RateLog (length (filter (\<lambda>(s, t). s = server \<and> t \<ge> now - 60 * 60 * 1000) log))) (ti_count_row w) of
        Inl e \<Rightarrow> (Inl e, log)
      | Inr count \<Rightarrow>
          (let is_rate_limited = unwrap_or 0 count \<ge> MAX_THIRD_PARTY_INVITES_PER_HOUR in
           (Inr is_rate_limited, if is_rate_limited \<or> \<not> ti_log_written w then log else log @ [(server, now)])))"

text \<open>The members of the row: an integer, and a map of integers; null and a missing member are \<open>None\<close>.\<close>

definition opt_int :: "json option \<Rightarrow> int option option" where
  "opt_int v =
     (case v of None \<Rightarrow> Some None | Some JNull \<Rightarrow> Some None | Some v \<Rightarrow> map_option Some (as_i64 v))"

definition opt_level_map :: "json option \<Rightarrow> (string \<times> int) list option option" where
  "opt_level_map v =
     (case v of
        None \<Rightarrow> Some None
      | Some JNull \<Rightarrow> Some None
      | Some (JObject ms) \<Rightarrow>
          if list_all (\<lambda>(k, v). as_i64 v \<noteq> None) ms
          then Some (Some (map (\<lambda>(k, v). (k, the (as_i64 v))) ms)) else None
      | Some _ \<Rightarrow> None)"

definition check_invite_power_level :: "invite_world \<Rightarrow> string \<Rightarrow> string \<Rightarrow> hs_db \<Rightarrow> repository_error + bool" where
  "check_invite_power_level w room_id user_id db =
     bindR (invite_result w InviteLevels
       (member_row (ti_hs w) [''invite'', ''users''] room_id ''m.room.power_levels'' (md_events (hd_mod db)))) (\<lambda>row.
     case row of
       None \<Rightarrow> Inr True
     | Some r \<Rightarrow>
         ok_or (case struct_fields [''invite'', ''users''] r of
                  Some [invite, users] \<Rightarrow>
                    Option.bind (opt_int invite) (\<lambda>invite.
                    Option.bind (opt_level_map users) (\<lambda>users.
                    Some (unwrap_or 0 (Option.bind users (\<lambda>us. map_of us user_id)) \<ge> unwrap_or 0 invite)))
                | _ \<Rightarrow> None) (ti_level_error w))"

section \<open>Names of identity servers\<close>

definition is_valid_matrix_server_name :: "string \<Rightarrow> bool" where
  "is_valid_matrix_server_name name =
     (name \<noteq> [] \<and>
      (let hostname = hd (split_on CHR '':'' name) in
       hostname \<noteq> [] \<and>
       (if starts_with hostname CHR ''['' \<and> ends_with hostname CHR '']''
        then is_ipv6 (take (length hostname - 2) (drop 1 hostname))
        else if is_ipv4 hostname \<or> is_ipv6 hostname then True
        else list_all (\<lambda>c. is_ascii_alphanumeric c \<or> c \<in> {CHR ''-'', CHR ''.'', CHR ''_''}) hostname \<and>
             \<not> starts_with hostname CHR ''-'' \<and> \<not> ends_with hostname CHR ''-'' \<and> contains hostname CHR ''.'')))"

definition validate_matrix_destination_parameter :: "string \<Rightarrow> nat + unit" where
  "validate_matrix_destination_parameter destination =
     bindR (ensure (is_valid_matrix_server_name destination) 400) (\<lambda>_.
     bindR (ensure (\<not> length destination > 255) 400) (\<lambda>_.
     case domain_part destination of
       Some port_str \<Rightarrow> bindR (ok_or (parse_u16 port_str) 400) (\<lambda>port. ensure (port \<noteq> 0) 400)
     | None \<Rightarrow> Inr ()))"

section \<open>Requests to identity servers\<close>

fun status_of_signing_error :: "signing_error \<Rightarrow> nat" where
  "status_of_signing_error (S_InvalidDestination _) = 400"
| "status_of_signing_error (S_KeyRetrievalError _) = 503"
| "status_of_signing_error (S_InvalidSignature _) = 401"
| "status_of_signing_error (S_DatabaseError _) = 500"
| "status_of_signing_error (S_JsonError _) = 400"
| "status_of_signing_error (S_HttpError _) = 503"
| "status_of_signing_error (S_InvalidRequest _) = 400"
| "status_of_signing_error (S_InvalidFormat _) = 400"
| "status_of_signing_error _ = 500"

definition sign_federation_request :: "invite_world \<Rightarrow> string \<Rightarrow> string \<Rightarrow> string \<Rightarrow> signing_error + unit" where
  "sign_federation_request w request_method uri destination =
     bindR (ensure (\<not> (destination = [] \<or> \<not> contains destination CHR ''.'')) (S_InvalidDestination destination)) (\<lambda>_.
     ti_sign_request w request_method uri destination)"

text \<open>A request that cannot be signed is sent without a signature, and a failure to send it is no error.\<close>

definition validate_identity_server_reachability :: "invite_world \<Rightarrow> string \<Rightarrow> nat + unit" where
  "validate_identity_server_reachability w identity_server =
     bindR (validate_matrix_destination_parameter identity_server) (\<lambda>_.
     case ti_status w (is_ok (sign_federation_request w ''GET'' ''/_matrix/identity/api/v1/status'' identity_server))
            (''https://'' @ identity_server @ ''/_matrix/identity/api/v1/status'') of
       Inr success \<Rightarrow> ensure success 503
     | Inl _ \<Rightarrow> Inr ())"

definition fetch_identity_server_key :: "invite_world \<Rightarrow> string \<Rightarrow> string \<Rightarrow> nat + string" where
  "fetch_identity_server_key w identity_server key_id =
     bindR (validate_matrix_destination_parameter identity_server) (\<lambda>_.
     bindR (map_err status_of_signing_error
       (sign_federation_request w ''GET'' (''/_matrix/identity/api/v1/pubkey/'' @ key_id) identity_server)) (\<lambda>_.
     bindR (map_err (\<lambda>_. 503) (ti_key w (''https://'' @ identity_server @ ''/_matrix/identity/api/v1/pubkey/'' @ key_id))) (\<lambda>(success, body).
     bindR (ensure success 503) (\<lambda>_.
     bindR (map_err (\<lambda>_. 502) body) (\<lambda>key_data.
     ok_or (Option.bind (get key_data ''public_key'') as_str) 502)))))"

section \<open>The signature of an invitation\<close>

record signature_data =
  sig_server_name :: string
  sig_key_id :: string
  sig_signature :: string

definition is_ed25519 :: "string \<Rightarrow> bool" where
  "is_ed25519 k = prefix ''ed25519:'' k"

definition extract_signature_data :: "json \<Rightarrow> string \<Rightarrow> nat + signature_data" where
  "extract_signature_data signed_object identity_server =
     bindR (ok_or (Option.bind (get signed_object ''signatures'') as_object) 400) (\<lambda>signatures.
     bindR (ok_or (Option.bind (map_of signatures identity_server) as_object) 400) (\<lambda>server_signatures.
     bindR (ok_or (List.find (\<lambda>(k, _). is_ed25519 k) server_signatures) 400) (\<lambda>(key_id, signature_b64).
     bindR (ok_or (as_str signature_b64) 400) (\<lambda>signature.
     Inr \<lparr>sig_server_name = identity_server, sig_key_id = key_id, sig_signature = signature\<rparr>))))"

fun find_matching_public_key :: "json list \<Rightarrow> string \<Rightarrow> string option" where
  "find_matching_public_key [] key_id = None"
| "find_matching_public_key (key # keys) key_id =
     (if Option.bind (get key ''key_id'') as_str = Some key_id \<and> Option.bind (get key ''public_key'') as_str \<noteq> None
      then Option.bind (get key ''public_key'') as_str
      else find_matching_public_key keys key_id)"

definition get_trusted_identity_servers :: "invite_world \<Rightarrow> string list option" where
  "get_trusted_identity_servers w = (case repo_trusted_identity_servers w of Inr servers \<Rightarrow> servers | Inl _ \<Rightarrow> None)"

definition validate_identity_server_authorization :: "invite_world \<Rightarrow> string \<Rightarrow> string \<Rightarrow> nat + unit" where
  "validate_identity_server_authorization w name identity_server =
     bindR (ensure (case get_trusted_identity_servers w of
              Some trusted_servers \<Rightarrow> List.member trusted_servers identity_server | None \<Rightarrow> True) 403) (\<lambda>_.
     bindR (ensure (is_valid_matrix_server_name name) 400) (\<lambda>_.
     bindR (ensure (is_valid_matrix_server_name identity_server) 400) (\<lambda>_.
     validate_identity_server_reachability w identity_server)))"

definition is_server_blocked :: "invite_world \<Rightarrow> string \<Rightarrow> bool" where
  "is_server_blocked w server = (case repo_server_blocked w server of Inr blocked \<Rightarrow> blocked | Inl _ \<Rightarrow> False)"

definition validate_server_federation_config :: "invite_world \<Rightarrow> string \<Rightarrow> nat + unit" where
  "validate_server_federation_config w server =
     ensure (\<not> (case check_server_federation_config w server of Inr enabled \<Rightarrow> \<not> enabled | Inl _ \<Rightarrow> False)) 403"

definition is_server_rate_limited :: "invite_world \<Rightarrow> int \<Rightarrow> string \<Rightarrow> invite_log \<Rightarrow> bool \<times> invite_log" where
  "is_server_rate_limited w now server log =
     (case repo_server_rate_limited w now server log of
        (Inr is_rate_limited, log') \<Rightarrow> (is_rate_limited, log')
      | (Inl _, log') \<Rightarrow> (False, log'))"

definition validate_server_third_party_permissions ::
  "invite_world \<Rightarrow> int \<Rightarrow> string \<Rightarrow> invite_log \<Rightarrow> (nat + unit) \<times> invite_log" where
  "validate_server_third_party_permissions w now server =
     bindS (liftS (ensure (\<not> is_server_blocked w server) 403)) (\<lambda>_.
     bindS (liftS (validate_server_federation_config w server)) (\<lambda>_.
     (\<lambda>log. case is_server_rate_limited w now server log of
        (limited, log') \<Rightarrow> (ensure (\<not> limited) 429, log'))))"

definition invite_public_key :: "invite_world \<Rightarrow> json list \<Rightarrow> string \<Rightarrow> string \<Rightarrow> nat + string" where
  "invite_public_key w public_keys identity_server key_id =
     (case find_matching_public_key public_keys key_id of
        Some key \<Rightarrow> Inr key
      | None \<Rightarrow> fetch_identity_server_key w identity_server key_id)"

definition verify_third_party_invite_signature ::
  "invite_world \<Rightarrow> int \<Rightarrow> json \<Rightarrow> string \<Rightarrow> json list \<Rightarrow> invite_log \<Rightarrow> (nat + bool) \<times> invite_log" where
  "verify_third_party_invite_signature w now signed_object identity_server public_keys =
     bindS (liftS (extract_signature_data signed_object identity_server)) (\<lambda>d.
     bindS (liftS (validate_identity_server_authorization w (sig_server_name d) identity_server)) (\<lambda>_.
     bindS (liftS (ensure (\<not> sig_server_name d \<noteq> identity_server) 400)) (\<lambda>_.
     bindS (validate_server_third_party_permissions w now (sig_server_name d)) (\<lambda>_.
     liftS (bindR (invite_public_key w public_keys identity_server (sig_key_id d)) (\<lambda>public_key.
       bindR (map_err (\<lambda>_. 500) (to_canonical_json (json_to_string (sw_crypto (ti_session w)))
         (remove_keys [''signatures''] signed_object))) (\<lambda>canonical_json.
       Inr (is_ok (verify_ed25519_signature (sw_crypto (ti_session w)) (sig_signature d) canonical_json public_key)))))))))"

text \<open>The keys that the event of the invitation lists.\<close>

definition listed_public_keys :: "json \<Rightarrow> json list option" where
  "listed_public_keys event_content =
     (case Option.bind (get event_content ''public_keys'') as_array of
        Some keys \<Rightarrow> Some keys
      | None \<Rightarrow> map_option (\<lambda>key. [JObject [(''public_key'', JString key)]]) (Option.bind (get event_content ''public_key'') as_str))"

definition has_ed25519_signature :: "json \<Rightarrow> bool" where
  "has_ed25519_signature sigs = (case as_object sigs of Some ms \<Rightarrow> list_ex (\<lambda>(k, _). is_ed25519 k) ms | None \<Rightarrow> False)"

text \<open>Every failure of the verification itself counts as a signature that does not verify.\<close>

definition verify_room_third_party_invite_signature ::
  "invite_world \<Rightarrow> int \<Rightarrow> string \<Rightarrow> json \<Rightarrow> event list \<Rightarrow> invite_log \<Rightarrow> (string + bool) \<times> invite_log" where
  "verify_room_third_party_invite_signature w now room_id third_party_invite es log =
     (case bindR (ok_or (Option.bind (Option.bind (get third_party_invite ''signed'') (\<lambda>s. get s ''token'')) as_str)
                    ''Missing token in third-party invite'') (\<lambda>tok.
           bindR (map_err repository_error_text (get_third_party_invite_event w room_id tok es)) (\<lambda>found.
           bindR (ok_or found ''Third-party invite event not found'') (\<lambda>event_content.
           bindR (ok_or (listed_public_keys event_content) ''No public keys found in third-party invite event'') (\<lambda>public_keys.
           bindR (ok_or (get third_party_invite ''signed'') ''Missing signed object in third-party invite'') (\<lambda>signed_object.
           if unwrap_or [] (Option.bind (get signed_object ''mxid'') as_str) = [] \<or> tok = [] then Inr None
           else bindR (ok_or (Option.bind (get signed_object ''signatures'') as_object) ''Missing signatures in third-party invite'') (\<lambda>signatures.
                bindR (ok_or (List.find (\<lambda>(_, sigs). has_ed25519_signature sigs) signatures) ''No Ed25519 signatures found'') (\<lambda>(identity_server, _).
                Inr (Some (signed_object, identity_server, public_keys))))))))) of
        Inl e \<Rightarrow> (Inl e, log)
      | Inr None \<Rightarrow> (Inr False, log)
      | Inr (Some (signed_object, identity_server, public_keys)) \<Rightarrow>
          (case verify_third_party_invite_signature w now signed_object identity_server public_keys log of
             (Inr valid, log') \<Rightarrow> (Inr valid, log')
           | (Inl _, log') \<Rightarrow> (Inr False, log')))"

section \<open>The exchange\<close>

definition check_invite_authorization :: "invite_world \<Rightarrow> room \<Rightarrow> string \<Rightarrow> hs_db \<Rightarrow> string + bool" where
  "check_invite_authorization w room sender db =
     bindR (map_err repository_error_text (get_membership (hs_mod (ti_hs w)) (r_room_id room) sender (hd_mod db))) (\<lambda>sender_membership.
     case sender_membership of
       Some m \<Rightarrow>
         if m_membership m = Join
         then map_err (\<lambda>e. ''Failed to check invite power level: '' @ repository_error_text e)
                (check_invite_power_level w (r_room_id room) sender db)
         else Inr False
     | None \<Rightarrow> Inr False)"

definition create_invite_event_from_third_party ::
  "invite_world \<Rightarrow> invite_clocks \<Rightarrow> string \<Rightarrow> string \<Rightarrow> string \<Rightarrow> json \<Rightarrow> string + event" where
  "create_invite_event_from_third_party w ck room_id sender state_key third_party_invite =
     bindR (ti_content_of_value w (JObject
       [(''membership'', JString ''invite''),
        (''displayname'', JString (unwrap_or [] (Option.bind (get third_party_invite ''display_name'') as_str))),
        (''third_party_invite'', third_party_invite)])) (\<lambda>content.
     Inr ((new_event (CHR ''$'' # tk_uuid ck @ '':'' @ ti_homeserver w) sender (tk_created ck) ''m.room.member'' room_id content)
       \<lparr>ev_state_key := Some state_key, ev_auth_events := Some [], ev_depth := Some 0, ev_hashes := Some [],
        ev_prev_events := Some []\<rparr>))"

definition refused :: "string \<Rightarrow> json" where
  "refused message = error_body ''M_FORBIDDEN'' message"

text \<open>The request: sender, invited user and the invitation of the third party.\<close>

definition exchange_request :: "invite_world \<Rightarrow> string \<Rightarrow> string \<Rightarrow> json \<Rightarrow> nat + string \<times> string \<times> json" where
  "exchange_request w room_id origin payload =
     bindR (ok_or (Option.bind (get payload ''room_id'') as_str) 400) (\<lambda>payload_room_id.
     bindR (ok_or (Option.bind (get payload ''type'') as_str) 400) (\<lambda>event_type.
     bindR (ok_or (Option.bind (get payload ''sender'') as_str) 400) (\<lambda>sender.
     bindR (ok_or (Option.bind (get payload ''state_key'') as_str) 400) (\<lambda>state_key.
     bindR (ok_or (get payload ''content'') 400) (\<lambda>content.
     bindR (ok_or (Option.bind (get content ''membership'') as_str) 400) (\<lambda>membership.
     bindR (ok_or (get content ''third_party_invite'') 400) (\<lambda>third_party_invite.
     bindR (ensure (\<not> payload_room_id \<noteq> room_id) 400) (\<lambda>_.
     bindR (ensure (\<not> event_type \<noteq> ''m.room.member'') 400) (\<lambda>_.
     bindR (ensure (\<not> membership \<noteq> ''invite'') 400) (\<lambda>_.
     bindR (ensure (\<not> unwrap_or [] (domain_part state_key) \<noteq> ti_homeserver w) 400) (\<lambda>_.
     bindR (ensure (\<not> unwrap_or [] (domain_part sender) \<noteq> origin) 400) (\<lambda>_.
     Inr (sender, state_key, third_party_invite)))))))))))))"

text \<open>A lookup that fails does not stop the exchange.\<close>

definition already_member :: "invite_world \<Rightarrow> string \<Rightarrow> string \<Rightarrow> hs_db \<Rightarrow> string option" where
  "already_member w room_id user_id db =
     (case invite_result w TargetMember (map_of (md_membership (hd_mod db)) (room_user_id room_id user_id)) of
        Inr (Some m) \<Rightarrow>
          (case m_membership m of
             Join \<Rightarrow> Some ''User is already in the room''
           | Ban \<Rightarrow> Some ''User is banned from the room''
           | Invite \<Rightarrow> Some ''User is already invited to the room''
           | _ \<Rightarrow> None)
      | _ \<Rightarrow> None)"

definition invited_member :: "int \<Rightarrow> string \<Rightarrow> string \<Rightarrow> string \<Rightarrow> json \<Rightarrow> event \<Rightarrow> membership" where
  "invited_member now room_id sender state_key third_party_invite stored =
     (new_membership room_id state_key Invite)\<lparr>m_invited_by := Some sender, m_updated_at := Some now,
       m_avatar_url := Option.bind (content_get (ev_content stored) ''avatar_url'') as_str,
       m_display_name := Option.bind (get third_party_invite ''display_name'') as_str, m_is_direct := Some False,
       m_third_party_invite := Some third_party_invite\<rparr>"

definition store_invite ::
  "invite_world \<Rightarrow> invite_clocks \<Rightarrow> string \<Rightarrow> string \<Rightarrow> string \<Rightarrow> json \<Rightarrow> event \<Rightarrow> hs_db \<Rightarrow> (nat + json) \<times> hs_db" where
  "store_invite w ck room_id sender state_key third_party_invite validated db =
     (case sign_submitted_event (ti_hs w) (tk_hs ck) validated db of
        (Inl status, db1) \<Rightarrow> (Inl status, db1)
      | (Inr signed_event, db1) \<Rightarrow>
          (case event_repo_create (mo_levels (hs_mod (ti_hs w))) signed_event (md_events (hd_mod db1)) of
             (Inl _, es) \<Rightarrow> (Inl 500, db1)
           | (Inr stored, es) \<Rightarrow>
               (case create_membership (hs_mod (ti_hs w))
                       (invited_member (hk_now (tk_hs ck)) room_id sender state_key third_party_invite stored)
                       ((hd_mod db1)\<lparr>md_events := es\<rparr>) of
                  (Inl _, md) \<Rightarrow> (Inl 500, db1\<lparr>hd_mod := md\<rparr>)
                | (Inr _, md) \<Rightarrow> (Inr (JObject []), db1\<lparr>hd_mod := md\<rparr>))))"

definition exchange_invite ::
  "invite_world \<Rightarrow> invite_clocks \<Rightarrow> string \<Rightarrow> string \<Rightarrow> string \<Rightarrow> string \<Rightarrow> json \<Rightarrow> hs_db \<Rightarrow> (nat + json) \<times> hs_db" where
  "exchange_invite w ck origin room_id sender state_key third_party_invite db =
     (case create_invite_event_from_third_party w ck room_id sender state_key third_party_invite of
        Inl _ \<Rightarrow> (Inl 500, db)
      | Inr invite_event \<Rightarrow>
          if \<not> hs_validator_ok (ti_hs w) then (Inl 500, db)
          else case validate_pdu (hs_pdu (ti_hs w) db) (hk_pdu (tk_hs ck)) (event_to_value invite_event) origin (hd_keys db) of
            (Inr (Valid e), rows) \<Rightarrow> store_invite w ck room_id sender state_key third_party_invite e (db\<lparr>hd_keys := rows\<rparr>)
          | (Inr (SoftFailed e _), rows) \<Rightarrow> store_invite w ck room_id sender state_key third_party_invite e (db\<lparr>hd_keys := rows\<rparr>)
          | (Inr (Rejected _ reason), rows) \<Rightarrow> (Inr (refused (''Third-party invite rejected: '' @ reason)), db\<lparr>hd_keys := rows\<rparr>)
          | (Inl _, rows) \<Rightarrow> (Inl 400, db\<lparr>hd_keys := rows\<rparr>))"

definition put_exchange ::
  "invite_world \<Rightarrow> invite_clocks \<Rightarrow> string option option \<Rightarrow> string \<Rightarrow> json \<Rightarrow> invite_db \<Rightarrow> (nat + json) \<times> invite_db" where
  "put_exchange w ck authorization room_id payload db =
     (case signed_request (ti_hs w) (tk_hs ck) authorization ''PUT'' ''/exchange_third_party_invite''
             (Inr (case json_to_string (sw_crypto (ti_session w)) payload of Inr s \<Rightarrow> s | Inl _ \<Rightarrow> [])) (td_hs db) of
        (Inl status, hs) \<Rightarrow> (Inl status, db\<lparr>td_hs := hs\<rparr>)
      | (Inr origin, hs) \<Rightarrow>
          (case bindR (exchange_request w room_id origin payload) (\<lambda>r.
                bindR (known_hs_room (ti_hs w) room_id) (\<lambda>room. Inr (r, room))) of
             Inl status \<Rightarrow> (Inl status, db\<lparr>td_hs := hs\<rparr>)
           | Inr ((sender, state_key, third_party_invite), room) \<Rightarrow>
               (case already_member w room_id state_key hs of
                  Some message \<Rightarrow> (Inr (refused message), db\<lparr>td_hs := hs\<rparr>)
                | None \<Rightarrow>
                    (case verify_room_third_party_invite_signature w (tk_rate ck) room_id third_party_invite
                            (md_events (hd_mod hs)) (td_log db) of
                       (Inl _, log) \<Rightarrow> (Inl 500, \<lparr>td_hs = hs, td_log = log\<rparr>)
                     | (Inr False, log) \<Rightarrow> (Inr (refused ''Invalid third-party invite signature''), \<lparr>td_hs = hs, td_log = log\<rparr>)
                     | (Inr True, log) \<Rightarrow>
                         (case check_invite_authorization w room sender hs of
                            Inl _ \<Rightarrow> (Inl 500, \<lparr>td_hs = hs, td_log = log\<rparr>)
                          | Inr False \<Rightarrow> (Inr (refused ''Sender is not allowed to invite users to this room''), \<lparr>td_hs = hs, td_log = log\<rparr>)
                          | Inr True \<Rightarrow>
                              (case exchange_invite w ck origin room_id sender state_key third_party_invite hs of
                                 (answer, hs') \<Rightarrow> (answer, \<lparr>td_hs = hs', td_log = log\<rparr>)))))))"

section \<open>Names\<close>

lemma split_on_head: "c \<notin> set (hd (split_on c s)) \<and> split_on c s \<noteq> []"
  by (induction s) (auto split: list.splits)

lemma split_on_hd_in: "set (hd (split_on c s)) \<subseteq> set s"
  by (induction s) (auto split: list.splits)

lemma hd_split_on_Cons: "d \<noteq> c \<Longrightarrow> hd (split_on c (d # s)) = d # hd (split_on c s)"
  by (simp split: list.splits) (use split_on_head [of c s] in auto)

text \<open>
  A name in brackets is never valid: it is cut at its first colon, so the address that is checked has
  no colon.
\<close>

theorem bracketed_name_refused:
  assumes "starts_with name CHR ''[''"
  shows "\<not> is_valid_matrix_server_name name \<and> validate_matrix_destination_parameter name = Inl 400"
proof -
  obtain rest where name: "name = CHR ''['' # rest" using assms by (cases name) simp_all
  let ?h = "hd (split_on CHR '':'' name)"
  have nc: "CHR '':'' \<notin> set ?h" and h: "?h = CHR ''['' # hd (split_on CHR '':'' rest)"
    using split_on_head [of "CHR '':''" name] hd_split_on_Cons [of "CHR ''[''" "CHR '':''" rest] by (simp_all add: name)
  have "set (take (length ?h - 2) (drop 1 ?h)) \<subseteq> set ?h" by (meson dual_order.trans set_drop_subset set_take_subset)
  then have "\<not> is_ipv6 (take (length ?h - 2) (drop 1 ?h))" "\<not> is_ipv6 ?h" using nc is_ipv6_colon by blast+
  moreover have "\<not> is_ipv4 ?h" using is_ipv4_no_bracket [of ?h] h by auto
  moreover have "\<not> list_all (\<lambda>c. is_ascii_alphanumeric c \<or> c \<in> {CHR ''-'', CHR ''.'', CHR ''_''}) ?h"
    unfolding h by (simp add: is_ascii_alphanumeric_def is_ascii_digit_def is_ascii_lower_def is_ascii_upper_def byte_def)
  ultimately have "\<not> is_valid_matrix_server_name name" unfolding is_valid_matrix_server_name_def Let_def by auto
  then show ?thesis by (simp add: validate_matrix_destination_parameter_def ensure_def)
qed

section \<open>The rate of invitations\<close>

text \<open>Attempts one after the other, each with the time and the server it is made for.\<close>

fun attempts :: "invite_world \<Rightarrow> (int \<times> string) list \<Rightarrow> invite_log \<Rightarrow> invite_log" where
  "attempts w [] log = log"
| "attempts w ((now, server) # as) log = attempts w as (snd (is_server_rate_limited w now server log))"

definition logged_within :: "string \<Rightarrow> int \<Rightarrow> invite_log \<Rightarrow> nat" where
  "logged_within server start log = length (filter (\<lambda>(s, t). s = server \<and> start \<le> t \<and> t \<le> start + 60 * 60 * 1000) log)"

lemma logged_within_append: "logged_within server start (log @ log') = logged_within server start log + logged_within server start log'"
  by (simp add: logged_within_def)

lemma rate_limit_step:
  assumes "\<And>n. ti_count_row w n = Inr (Some (int n))" and "\<forall>server start. logged_within server start log \<le> 100"
    and "\<forall>(s, t) \<in> set log. t \<le> now" and "ti_fail w RateLog = None"
  shows "(\<forall>server start. logged_within server start (snd (is_server_rate_limited w now name log)) \<le> 100) \<and>
     (\<forall>(s, t) \<in> set (snd (is_server_rate_limited w now name log)). t \<le> now)"
proof -
  let ?recent = "length (filter (\<lambda>(s, t). s = name \<and> t \<ge> now - 60 * 60 * 1000) log)"
  have step: "snd (is_server_rate_limited w now name log) =
      (if int ?recent \<ge> 100 \<or> \<not> ti_log_written w then log else log @ [(name, now)])"
    using assms(1,4) by (simp add: is_server_rate_limited_def repo_server_rate_limited_def invite_result_def Let_def
        MAX_THIRD_PARTY_INVITES_PER_HOUR_def)
  have new: "logged_within server start (log @ [(name, now)]) \<le> 100" if "?recent < 100" for server start
  proof (cases "server = name \<and> start \<le> now \<and> now \<le> start + 60 * 60 * 1000")
    case True
    have "logged_within server start log \<le> ?recent"
      unfolding logged_within_def using True
      by (induction log) (auto)
    then show ?thesis using that True by (simp add: logged_within_append) (simp add: logged_within_def)
  next
    case False
    then have "logged_within server start [(name, now)] = 0" by (auto simp: logged_within_def)
    then show ?thesis using assms(2) by (simp add: logged_within_append)
  qed
  show ?thesis using new assms(2,3) unfolding step by auto
qed

text \<open>
  When the count of the query is the number of its rows, at most a hundred invitations of a server
  are logged in any hour, for attempts in the order of their times.
\<close>

theorem invite_rate_bounded:
  assumes "\<And>n. ti_count_row w n = Inr (Some (int n))" and "ti_fail w RateLog = None" and "sorted (map fst as)"
  shows "logged_within server start (attempts w as []) \<le> 100"
proof -
  have "(\<forall>server start. logged_within server start log \<le> 100) \<Longrightarrow> (\<forall>(s, t) \<in> set log. \<forall>a \<in> set as. t \<le> fst a) \<Longrightarrow>
      sorted (map fst as) \<Longrightarrow> logged_within server start (attempts w as log) \<le> 100" for log
  proof (induction as arbitrary: log)
    case (Cons a as)
    obtain now name where a: "a = (now, name)" by fastforce
    have "\<forall>(s, t) \<in> set log. t \<le> now" using Cons.prems(2) a by auto
    note step = rate_limit_step [OF assms(1) Cons.prems(1) this assms(2), of name]
    have later: "\<forall>b \<in> set as. now \<le> fst b" using Cons.prems(3) a by auto
    show ?case unfolding a attempts.simps
    proof (rule Cons.IH)
      show "\<forall>(s, t) \<in> set (snd (is_server_rate_limited w now name log)). \<forall>a \<in> set as. t \<le> fst a"
        using step later by fastforce
    qed (use step Cons.prems(3) in auto)
  qed simp
  from this [of "[]"] show ?thesis using assms(3) by (simp add: logged_within_def)
qed

section \<open>What an exchange does\<close>

text \<open>
  The invitation is signed: its event is stored in the room, and a server it names has signed its
  object under a key of the event or one it serves itself. Nothing is said of who is invited.
\<close>

definition identity_server_allowed :: "invite_world \<Rightarrow> string \<Rightarrow> bool" where
  "identity_server_allowed w server \<longleftrightarrow>
     (\<forall>trusted. get_trusted_identity_servers w = Some trusted \<longrightarrow> server \<in> set trusted) \<and>
     is_valid_matrix_server_name server \<and> \<not> is_server_blocked w server"

definition invite_signed :: "invite_world \<Rightarrow> string \<Rightarrow> json \<Rightarrow> event list \<Rightarrow> bool" where
  "invite_signed w room_id third_party_invite es \<longleftrightarrow>
     (\<exists>signed_object tok event_content keys server d key msg.
        get third_party_invite ''signed'' = Some signed_object \<and>
        Option.bind (get signed_object ''token'') as_str = Some tok \<and> tok \<noteq> [] \<and>
        unwrap_or [] (Option.bind (get signed_object ''mxid'') as_str) \<noteq> [] \<and>
        get_third_party_invite_event w room_id tok es = Inr (Some event_content) \<and>
        listed_public_keys event_content = Some keys \<and>
        extract_signature_data signed_object server = Inr d \<and> identity_server_allowed w server \<and>
        invite_public_key w keys server (sig_key_id d) = Inr key \<and>
        to_canonical_json (json_to_string (sw_crypto (ti_session w))) (remove_keys [''signatures''] signed_object) = Inr msg \<and>
        verify_ed25519_signature (sw_crypto (ti_session w)) (sig_signature d) msg key = Inr ())"

lemma verify_third_party_invite_signature_sound:
  assumes "verify_third_party_invite_signature w now signed_object server keys log = (Inr True, log')"
  shows "\<exists>d key msg. extract_signature_data signed_object server = Inr d \<and> identity_server_allowed w server \<and>
     invite_public_key w keys server (sig_key_id d) = Inr key \<and>
     to_canonical_json (json_to_string (sw_crypto (ti_session w))) (remove_keys [''signatures''] signed_object) = Inr msg \<and>
     verify_ed25519_signature (sw_crypto (ti_session w)) (sig_signature d) msg key = Inr ()"
proof -
  obtain d key msg log1 where d: "extract_signature_data signed_object server = Inr d"
    "validate_identity_server_authorization w (sig_server_name d) server = Inr ()"
    "sig_server_name d = server"
    "validate_server_third_party_permissions w now (sig_server_name d) log = (Inr (), log1)"
    "invite_public_key w keys server (sig_key_id d) = Inr key"
    "to_canonical_json (json_to_string (sw_crypto (ti_session w))) (remove_keys [''signatures''] signed_object) = Inr msg"
    "is_ok (verify_ed25519_signature (sw_crypto (ti_session w)) (sig_signature d) msg key)"
    using assms unfolding verify_third_party_invite_signature_def result_simps by auto
  have "identity_server_allowed w server"
    using d(2-4) unfolding identity_server_allowed_def validate_identity_server_authorization_def
      validate_server_third_party_permissions_def result_simps
    by (auto split: option.splits)
  moreover have "verify_ed25519_signature (sw_crypto (ti_session w)) (sig_signature d) msg key = Inr ()"
    using d(7) by (auto simp: is_ok_iff)
  ultimately show ?thesis using d(1,5,6) by blast
qed

lemma verify_room_signature_sound:
  assumes "verify_room_third_party_invite_signature w now room_id third_party_invite es log = (Inr True, log')"
  shows "invite_signed w room_id third_party_invite es"
proof -
  obtain tok event_content keys signed_object server sigs where v:
    "Option.bind (Option.bind (get third_party_invite ''signed'') (\<lambda>s. get s ''token'')) as_str = Some tok"
    "get_third_party_invite_event w room_id tok es = Inr (Some event_content)"
    "listed_public_keys event_content = Some keys" "get third_party_invite ''signed'' = Some signed_object"
    "unwrap_or [] (Option.bind (get signed_object ''mxid'') as_str) \<noteq> []" "tok \<noteq> []"
    "verify_third_party_invite_signature w now signed_object server keys log = (Inr True, log')"
    using assms unfolding verify_room_third_party_invite_signature_def
    by (auto simp: result_simps split: sum.splits option.splits prod.splits if_splits)
  from verify_third_party_invite_signature_sound [OF v(7)] v show ?thesis unfolding invite_signed_def by fastforce
qed

text \<open>The request and its parties.\<close>

definition exchange_parties :: "invite_world \<Rightarrow> string \<Rightarrow> string \<Rightarrow> json \<Rightarrow> string \<Rightarrow> string \<Rightarrow> json \<Rightarrow> bool" where
  "exchange_parties w room_id origin payload sender state_key third_party_invite \<longleftrightarrow>
     Option.bind (get payload ''room_id'') as_str = Some room_id \<and>
     Option.bind (get payload ''type'') as_str = Some ''m.room.member'' \<and>
     Option.bind (get payload ''sender'') as_str = Some sender \<and> unwrap_or [] (domain_part sender) = origin \<and>
     Option.bind (get payload ''state_key'') as_str = Some state_key \<and>
     unwrap_or [] (domain_part state_key) = ti_homeserver w \<and>
     (\<exists>content. get payload ''content'' = Some content \<and> Option.bind (get content ''membership'') as_str = Some ''invite'' \<and>
        get content ''third_party_invite'' = Some third_party_invite)"

lemma exchange_request_Inr_iff:
  "exchange_request w room_id origin payload = Inr (sender, state_key, third_party_invite) \<longleftrightarrow>
     exchange_parties w room_id origin payload sender state_key third_party_invite"
  unfolding exchange_request_def exchange_parties_def result_simps by auto

lemma invited_member_ids:
  "m_room_id (invited_member now room_id sender state_key third_party_invite e) = room_id"
  "m_user_id (invited_member now room_id sender state_key third_party_invite e) = state_key"
  "m_membership (invited_member now room_id sender state_key third_party_invite e) = Invite"
  by (simp_all add: invited_member_def new_membership_def)

lemma store_invite_result:
  assumes "store_invite w ck room_id sender state_key third_party_invite e db = (r, db')"
  shows "md_membership (hd_mod db') = md_membership (hd_mod db) \<and>
     (md_events (hd_mod db') = md_events (hd_mod db) \<and>
        md_room_membership (hd_mod db') = md_room_membership (hd_mod db) \<and> \<not> is_ok r \<or>
      (\<exists>e'. countersigned (ti_hs w) (tk_hs ck) (hd_signing db') e e' \<and> md_events (hd_mod db') = md_events (hd_mod db) @ [e'] \<and>
         (md_room_membership (hd_mod db') = md_room_membership (hd_mod db) \<and> \<not> is_ok r \<or>
          record_made room_id state_key Invite (md_room_membership (hd_mod db)) (md_room_membership (hd_mod db')))))"
proof -
  obtain v db1 where v: "sign_submitted_event (ti_hs w) (tk_hs ck) e db = (v, db1)" by fastforce
  note s = sign_submitted_event_result [OF v]
  have writes: "md_events md = md_events db0" "md_membership md = md_membership db0"
    if st: "create_membership (hs_mod (ti_hs w)) x db0 = (y, md)" for x y db0 md
    using membership_writes_records_only(1) [of "hs_mod (ti_hs w)"] st unfolding records_only_def by (metis snd_conv)+
  show ?thesis
  proof (cases v)
    case (Inl status)
    then show ?thesis using assms v s by (auto simp: store_invite_def)
  next
    case (Inr e')
    then have c: "countersigned (ti_hs w) (tk_hs ck) (hd_signing db1) e e'" using s by blast
    obtain u es where u: "event_repo_create (mo_levels (hs_mod (ti_hs w))) e' (md_events (hd_mod db1)) = (u, es)" by fastforce
    show ?thesis
    proof (cases u)
      case (Inl err)
      then show ?thesis using assms v s \<open>v = Inr e'\<close> u by (auto simp: store_invite_def)
    next
      case stored: (Inr stored)
      let ?md = "(hd_mod db1)\<lparr>md_events := es\<rparr>"
      obtain y md where y: "create_membership (hs_mod (ti_hs w))
          (invited_member (hk_now (tk_hs ck)) room_id sender state_key third_party_invite stored) ?md = (y, md)" by fastforce
      have es: "es = md_events (hd_mod db1) @ [e']"
        using u stored by (auto simp: event_repo_create_def split: option.splits if_splits)
      have db': "hd_mod db' = md" "hd_signing db' = hd_signing db1" "is_ok r \<longrightarrow> is_ok y"
        using assms v Inr u stored y by (auto simp: store_invite_def split: sum.splits)
      show ?thesis
        using create_membership_record [OF y, unfolded invited_member_ids] writes [OF y] db' es c s by auto
    qed
  qed
qed

lemma exchange_invite_result:
  assumes "exchange_invite w ck origin room_id sender state_key third_party_invite db = (r, db')"
  shows "md_membership (hd_mod db') = md_membership (hd_mod db) \<and>
     (md_events (hd_mod db') = md_events (hd_mod db) \<and>
        md_room_membership (hd_mod db') = md_room_membership (hd_mod db) \<and> r \<noteq> Inr (JObject []) \<or>
      (\<exists>invite e e'. create_invite_event_from_third_party w ck room_id sender state_key third_party_invite = Inr invite \<and>
         accepts_submission (ti_hs w) (tk_hs ck) origin (event_to_value invite) db e \<and>
         countersigned (ti_hs w) (tk_hs ck) (hd_signing db') e e' \<and> md_events (hd_mod db') = md_events (hd_mod db) @ [e'] \<and>
         (md_room_membership (hd_mod db') = md_room_membership (hd_mod db) \<and> r \<noteq> Inr (JObject []) \<or>
          record_made room_id state_key Invite (md_room_membership (hd_mod db)) (md_room_membership (hd_mod db')))))"
proof (cases "create_invite_event_from_third_party w ck room_id sender state_key third_party_invite")
  case (Inl m)
  then show ?thesis using assms by (auto simp: exchange_invite_def)
next
  case (Inr invite)
  obtain v rows where v: "validate_pdu (hs_pdu (ti_hs w) db) (hk_pdu (tk_hs ck)) (event_to_value invite) origin (hd_keys db) = (v, rows)"
    by fastforce
  show ?thesis
  proof (cases "\<exists>e. store_invite w ck room_id sender state_key third_party_invite e (db\<lparr>hd_keys := rows\<rparr>) = (r, db') \<and>
      (v = Inr (Valid e) \<or> (\<exists>reason. v = Inr (SoftFailed e reason)))")
    case True
    then obtain e where e: "store_invite w ck room_id sender state_key third_party_invite e (db\<lparr>hd_keys := rows\<rparr>) = (r, db')"
      "accepts_submission (ti_hs w) (tk_hs ck) origin (event_to_value invite) db e"
      using v by (auto simp: accepts_submission_def)
    from store_invite_result [OF e(1)] e(2) Inr show ?thesis by (auto simp: is_ok_iff)
  next
    case False
    then show ?thesis
      using assms v Inr by (auto simp: exchange_invite_def refused_def error_body_def split: if_splits sum.splits validation_result.splits)
  qed
qed

text \<open>The sender reaches the level that the row of the levels asks for; without a row every level is enough.\<close>

lemma check_invite_power_level_Inr:
  assumes "check_invite_power_level w room_id user_id db = Inr True"
    and "member_row (ti_hs w) [''invite'', ''users''] room_id ''m.room.power_levels'' (md_events (hd_mod db)) = Some row"
  shows "\<exists>v us invite users. struct_fields [''invite'', ''users''] row = Some [v, us] \<and> opt_int v = Some invite \<and>
     opt_level_map us = Some users \<and> unwrap_or 0 invite \<le> unwrap_or 0 (Option.bind users (\<lambda>us. map_of us user_id))"
proof -
  have read: "invite_result w InviteLevels (Some row) = Inr (Some row)"
    using assms by (cases "ti_fail w InviteLevels") (simp_all add: check_invite_power_level_def invite_result_def)
  have "(case struct_fields [''invite'', ''users''] row of
      Some [invite, users] \<Rightarrow> Option.bind (opt_int invite) (\<lambda>invite. Option.bind (opt_level_map users) (\<lambda>users.
        Some (unwrap_or 0 (Option.bind users (\<lambda>us. map_of us user_id)) \<ge> unwrap_or 0 invite)))
    | _ \<Rightarrow> None) = Some True" (is "?level = _")
    using assms(1) unfolding check_invite_power_level_def assms(2) read by (cases ?level) simp_all
  then obtain v us where "struct_fields [''invite'', ''users''] row = Some [v, us]"
    by (cases "struct_fields [''invite'', ''users''] row") (auto split: list.splits)
  with \<open>?level = Some True\<close> show ?thesis by (auto simp: bind_eq_Some_conv)
qed

lemma check_invite_authorization_Inr:
  assumes "check_invite_authorization w room sender db = Inr True"
  shows "(\<exists>m. map_of (md_membership (hd_mod db)) (room_user_id (r_room_id room) sender) = Some m \<and> m_membership m = Join) \<and>
     check_invite_power_level w (r_room_id room) sender db = Inr True"
  using assms
  by (auto simp: check_invite_authorization_def get_membership_def mod_result_def result_simps split: option.splits if_splits)

lemma already_member_None:
  assumes "already_member w room_id user_id db = None"
    and "map_of (md_membership (hd_mod db)) (room_user_id room_id user_id) = Some m" and "ti_fail w TargetMember = None"
  shows "m_membership m \<notin> {Join, Ban, Invite}"
  using assms by (auto simp: already_member_def invite_result_def)

text \<open>
  What an exchange stores, with the conditions as the code has them: the event of the invitation in
  state \<open>db'\<close>, or nothing.
\<close>

definition exchange_checked ::
  "invite_world \<Rightarrow> invite_clocks \<Rightarrow> string option option \<Rightarrow> string \<Rightarrow> json \<Rightarrow> invite_db \<Rightarrow> string \<Rightarrow> string \<Rightarrow> string \<Rightarrow> json \<Rightarrow> bool" where
  "exchange_checked w ck authorization room_id payload db origin sender state_key third_party_invite \<longleftrightarrow>
     (\<exists>body. signed_by (ti_hs w) (tk_hs ck) authorization ''PUT'' ''/exchange_third_party_invite'' body origin (hd_keys (td_hs db))) \<and>
     exchange_parties w room_id origin payload sender state_key third_party_invite \<and>
     invite_signed w room_id third_party_invite (md_events (hd_mod (td_hs db)))"

lemma exchange_result:
  assumes "put_exchange w ck authorization room_id payload db = (r, db')"
  shows "md_membership (hd_mod (td_hs db')) = md_membership (hd_mod (td_hs db)) \<and>
     (md_events (hd_mod (td_hs db')) = md_events (hd_mod (td_hs db)) \<and>
        md_room_membership (hd_mod (td_hs db')) = md_room_membership (hd_mod (td_hs db)) \<and> r \<noteq> Inr (JObject []) \<or>
      (\<exists>origin sender state_key third_party_invite room hs invite e e'.
         exchange_checked w ck authorization room_id payload db origin sender state_key third_party_invite \<and>
         mo_rooms (hs_mod (ti_hs w)) room_id = Some room \<and> hd_mod hs = hd_mod (td_hs db) \<and>
         already_member w room_id state_key hs = None \<and> check_invite_authorization w room sender hs = Inr True \<and>
         create_invite_event_from_third_party w ck room_id sender state_key third_party_invite = Inr invite \<and>
         accepts_submission (ti_hs w) (tk_hs ck) origin (event_to_value invite) hs e \<and>
         countersigned (ti_hs w) (tk_hs ck) (hd_signing (td_hs db')) e e' \<and>
         md_events (hd_mod (td_hs db')) = md_events (hd_mod (td_hs db)) @ [e'] \<and>
         (md_room_membership (hd_mod (td_hs db')) = md_room_membership (hd_mod (td_hs db)) \<and> r \<noteq> Inr (JObject []) \<or>
          record_made room_id state_key Invite (md_room_membership (hd_mod (td_hs db))) (md_room_membership (hd_mod (td_hs db'))))))"
proof -
  obtain v hs where v: "signed_request (ti_hs w) (tk_hs ck) authorization ''PUT'' ''/exchange_third_party_invite''
      (Inr (case json_to_string (sw_crypto (ti_session w)) payload of Inr s \<Rightarrow> s | Inl _ \<Rightarrow> [])) (td_hs db) = (v, hs)" by fastforce
  note same = signed_request_mod [OF v]
  have not_ok: "refused m \<noteq> JObject []" for m by (simp add: refused_def error_body_def)
  show ?thesis
  proof (cases "\<exists>origin sender state_key third_party_invite room log hs'. v = Inr origin \<and>
      exchange_request w room_id origin payload = Inr (sender, state_key, third_party_invite) \<and>
      known_hs_room (ti_hs w) room_id = Inr room \<and> already_member w room_id state_key hs = None \<and>
      verify_room_third_party_invite_signature w (tk_rate ck) room_id third_party_invite (md_events (hd_mod hs)) (td_log db) = (Inr True, log) \<and>
      check_invite_authorization w room sender hs = Inr True \<and>
      exchange_invite w ck origin room_id sender state_key third_party_invite hs = (r, hs') \<and> db' = \<lparr>td_hs = hs', td_log = log\<rparr>")
    case False
    then show ?thesis
      using assms v same not_ok unfolding put_exchange_def
      by (auto simp: result_simps split: sum.splits option.splits prod.splits bool.splits)
  next
    case True
    then obtain origin sender state_key third_party_invite room log hs' where t: "v = Inr origin"
      "exchange_request w room_id origin payload = Inr (sender, state_key, third_party_invite)"
      "known_hs_room (ti_hs w) room_id = Inr room" "already_member w room_id state_key hs = None"
      "verify_room_third_party_invite_signature w (tk_rate ck) room_id third_party_invite (md_events (hd_mod hs)) (td_log db) = (Inr True, log)"
      "check_invite_authorization w room sender hs = Inr True"
      "exchange_invite w ck origin room_id sender state_key third_party_invite hs = (r, hs')" "db' = \<lparr>td_hs = hs', td_log = log\<rparr>"
      by blast
    obtain body where body: "signed_by (ti_hs w) (tk_hs ck) authorization ''PUT'' ''/exchange_third_party_invite'' body origin (hd_keys (td_hs db))"
      using signed_request_Inr [OF v [unfolded t(1)]] by blast
    have signed: "invite_signed w room_id third_party_invite (md_events (hd_mod (td_hs db)))"
      using verify_room_signature_sound [OF t(5)] same by simp
    have room: "mo_rooms (hs_mod (ti_hs w)) room_id = Some room" using t(3) by (simp add: known_hs_room_Inr_iff)
    have db': "td_hs db' = hs'" using t(8) by simp
    have checked: "exchange_checked w ck authorization room_id payload db origin sender state_key third_party_invite"
      using body t(2) signed unfolding exchange_request_Inr_iff exchange_checked_def by blast
    from exchange_invite_result [OF t(7)] show ?thesis
      using checked room same t(4,6) unfolding db' by metis
  qed
qed


section \<open>Why no exchange completes\<close>

text \<open>
  The row of the query has the content of the event under \<open>content\<close>, so no keys are found in it and
  the request fails as soon as the event of the invitation is there.
\<close>

theorem nested_row_refuses_exchange:
  assumes "\<And>c. ti_content_row w c = JObject [(''content'', c)]"
    and "put_exchange w ck authorization room_id payload db = (r, db')"
  shows "md_events (hd_mod (td_hs db')) = md_events (hd_mod (td_hs db)) \<and> r \<noteq> Inr (JObject [])"
proof -
  have "\<not> invite_signed w room_id third_party_invite es" for third_party_invite es
  proof
    assume "invite_signed w room_id third_party_invite es"
    then obtain tok event_content keys where "get_third_party_invite_event w room_id tok es = Inr (Some event_content)"
      "listed_public_keys event_content = Some keys"
      unfolding invite_signed_def by blast
    then obtain c where "listed_public_keys (ti_content_row w c) = Some keys"
      by (auto simp: get_third_party_invite_event_def invite_result_def split: option.splits list.splits)
    then show False by (simp add: assms(1) listed_public_keys_def)
  qed
  then show ?thesis using exchange_result [OF assms(2)] unfolding exchange_checked_def by blast
qed

text \<open>
  The event made for the invitation carries no signature, but is validated like one received: without
  the signature of the other server it is refused, unless it passes for one that is known already.
\<close>

lemma accepted_submission_read:
  assumes "accepts_submission w ck origin payload db e"
  shows "\<exists>e0. event_from_value (hs_pdu w db) payload = Inr e0"
proof (cases "event_from_value (hs_pdu w db) payload")
  case (Inl m)
  then show ?thesis
    using assms by (auto simp: accepts_submission_def validate_pdu_def validate_format_def bindS_def liftS_def)
qed simp

lemma accepted_submission_signed:
  assumes "accepts_submission w ck origin payload db e"
    and "event_from_value (hs_pdu w db) payload = Inr e0"
    and "\<And>ts. check_event_deduplication (hs_pdu w db) (e0\<lparr>ev_received_ts := ts\<rparr>) = Inr New"
  shows "ev_signatures e0 \<noteq> None"
proof -
  let ?w = "hs_pdu w db" and ?ck = "hk_pdu ck"
  obtain r rows where r: "validate_pdu ?w ?ck payload origin (hd_keys db) = (Inr r, rows)" "r = Valid e \<or> (\<exists>reason. r = SoftFailed e reason)"
    using assms(1) by (auto simp: accepts_submission_def) (metis prod.collapse)+
  obtain e1 rows1 rows2 where e1: "validate_format ?w ?ck payload = Inr e1"
    "validate_event_crypto (pw_crypto ?w) (ck_expiry ?ck) (ck_cached ?ck) e1 [origin] rows1 = (Inr (), rows2)"
  proof -
    have "\<exists>e1. validate_format ?w ?ck payload = Inr e1 \<and> e1 = e0\<lparr>ev_received_ts := Some (ck_received ?ck)\<rparr>"
      using r(1) assms(2) by (auto simp: validate_pdu_def validate_format_def result_simps Let_def)
    then obtain e1 where f: "validate_format ?w ?ck payload = Inr e1" "check_event_deduplication ?w e1 = Inr New"
      using assms(3) by blast
    then show thesis
      using r(1) that
      by (cases "validate_event_crypto (pw_crypto ?w) (ck_expiry ?ck) (ck_cached ?ck) e1 [origin] (hd_keys db)")
        (auto simp: validate_pdu_def result_simps map_err_Inr_iff split: prod.splits)
  qed
  have "\<exists>sigs. map_of (unwrap_or [] (ev_signatures e1)) origin = Some sigs"
    using validated_event_signed [OF e1(2)] by auto
  then have "ev_signatures e1 \<noteq> None" by (cases "ev_signatures e1") auto
  moreover have "ev_signatures e1 = ev_signatures e0"
    using e1(1) assms(2) by (auto simp: validate_format_def result_simps Let_def)
  ultimately show ?thesis by simp
qed

theorem unsigned_invite_refused:
  assumes "\<And>db e e0. ev_signatures e = None \<Longrightarrow> event_from_value (hs_pdu (ti_hs w) db) (event_to_value e) = Inr e0 \<Longrightarrow>
           ev_signatures e0 = None \<and> ev_event_id e0 = ev_event_id e"
    and "\<And>db e. ev_event_id e = CHR ''$'' # tk_uuid ck @ '':'' @ ti_homeserver w \<Longrightarrow>
           check_event_deduplication (hs_pdu (ti_hs w) db) e = Inr New"
    and "put_exchange w ck authorization room_id payload db = (r, db')"
  shows "md_events (hd_mod (td_hs db')) = md_events (hd_mod (td_hs db)) \<and> r \<noteq> Inr (JObject [])"
proof -
  have "\<not> accepts_submission (ti_hs w) (tk_hs ck) origin (event_to_value invite) hs e"
    if "create_invite_event_from_third_party w ck room_id sender state_key third_party_invite = Inr invite"
    for sender state_key third_party_invite invite origin hs e
  proof
    assume a: "accepts_submission (ti_hs w) (tk_hs ck) origin (event_to_value invite) hs e"
    have i: "ev_signatures invite = None" "ev_event_id invite = CHR ''$'' # tk_uuid ck @ '':'' @ ti_homeserver w"
      using that by (auto simp: create_invite_event_from_third_party_def new_event_def result_simps)
    obtain e0 where e0: "event_from_value (hs_pdu (ti_hs w) hs) (event_to_value invite) = Inr e0"
      using accepted_submission_read [OF a] by blast
    with assms(1) [OF i(1)] i(2) assms(2) accepted_submission_signed [OF a e0] show False by simp
  qed
  then show ?thesis using exchange_result [OF assms(3)] by blast
qed

section \<open>Who may sign an invitation\<close>

text \<open>
  When the keys in the room carry no identifier, as the protocol has them, and no list of trusted
  servers is configured, the key is asked of the very server that the invitation names: any server
  signs invitations under its own key, whatever keys the room lists.
\<close>

theorem foreign_identity_server_accepted:
  assumes "extract_signature_data signed_object server = Inr d" and "get_trusted_identity_servers w = None"
    and "is_valid_matrix_server_name server" and "validate_identity_server_reachability w server = Inr ()"
    and "validate_server_third_party_permissions w now server log = (Inr (), log')"
    and "\<forall>key \<in> set keys. Option.bind (get key ''key_id'') as_str = None"
    and "fetch_identity_server_key w server (sig_key_id d) = Inr own_key"
    and "to_canonical_json (json_to_string (sw_crypto (ti_session w))) (remove_keys [''signatures''] signed_object) = Inr msg"
    and "verify_ed25519_signature (sw_crypto (ti_session w)) (sig_signature d) msg own_key = Inr ()"
  shows "verify_third_party_invite_signature w now signed_object server keys log = (Inr True, log')"
proof -
  have "find_matching_public_key keys k = None" for k using assms(6) by (induction keys) auto
  moreover have "sig_server_name d = server" using assms(1) by (auto simp: extract_signature_data_def result_simps)
  ultimately show ?thesis
    using assms by (simp add: verify_third_party_invite_signature_def bindS_def liftS_def validate_identity_server_authorization_def
        ensure_def invite_public_key_def)
qed

section \<open>Witnesses\<close>

text \<open>
  The server of \<open>handshake_demo\<close>: \<open>@b:x\<close> exchanges an invitation for \<open>@c:a.org\<close>, signed by
  \<open>id.org\<close> with a key it serves itself. The rows of the content query have the form \<open>row\<close>.
\<close>

definition invite_demo :: "(json \<Rightarrow> json) \<Rightarrow> invite_world" where
  "invite_demo row =
     \<lparr>ti_hs = handshake_demo, ti_fail = (\<lambda>call. None), ti_content_row = row, ti_trusted_row = None,
      ti_blocked_row = (\<lambda>s. None), ti_federation_row = (\<lambda>s. None), ti_count_row = (\<lambda>n. Inr (Some (int n))),
      ti_log_written = True, ti_level_error = Database ''row'', ti_sign_request = (\<lambda>m u d. Inr ()),
      ti_status = (\<lambda>b u. Inr True), ti_key = (\<lambda>u. Inr (True, Inr (JObject [(''public_key'', JString ''pk'')]))),
      ti_content_of_value = (\<lambda>v. Inr (Unknown v))\<rparr>"

definition invite_demo_clocks :: invite_clocks where
  "invite_demo_clocks = \<lparr>tk_hs = handshake_demo_clocks, tk_rate = 5, tk_uuid = ''u'', tk_created = 5\<rparr>"

definition invite_demo_content :: json where
  "invite_demo_content = JObject [(''token'', JString ''t''), (''public_keys'', JArray [JObject [(''public_key'', JString ''room'')]])]"

definition invite_demo_db :: invite_db where
  "invite_demo_db =
     \<lparr>td_hs = handshake_demo_db\<lparr>hd_mod := (hd_mod handshake_demo_db)\<lparr>md_events :=
        [new_event ''$i'' ''@b:x'' 1 ''m.room.third_party_invite'' ''!r:x'' (Unknown invite_demo_content)]\<rparr>\<rparr>, td_log = []\<rparr>"

definition invite_demo_signed :: json where
  "invite_demo_signed = JObject [(''mxid'', JString ''@c:a.org''), (''token'', JString ''t''),
     (''signatures'', JObject [(''id.org'', JObject [(''ed25519:0'', JString ''s'')])])]"

definition invite_demo_payload :: json where
  "invite_demo_payload = JObject [(''room_id'', JString ''!r:x''), (''type'', JString ''m.room.member''), (''sender'', JString ''@b:x''),
     (''state_key'', JString ''@c:a.org''), (''content'', JObject [(''membership'', JString ''invite''),
       (''third_party_invite'', JObject [(''signed'', invite_demo_signed)])])]"

lemma invite_demo_fields:
  "ti_hs (invite_demo row) = handshake_demo" "tk_hs invite_demo_clocks = handshake_demo_clocks"
  "td_log invite_demo_db = []" "ti_fail (invite_demo row) call = None" "ti_content_row (invite_demo row) = row"
  by (simp_all add: invite_demo_def invite_demo_clocks_def invite_demo_db_def)

lemma invite_demo_name: "is_valid_matrix_server_name ''id.org''"
  by (simp add: is_valid_matrix_server_name_def is_ascii_alphanumeric_def is_ascii_digit_def is_ascii_lower_def
      is_ascii_upper_def byte_def contains_iff ends_with_def)

lemma invite_demo_destination: "validate_matrix_destination_parameter ''id.org'' = Inr ()"
  by (simp add: validate_matrix_destination_parameter_def invite_demo_name ensure_def domain_part_def)

lemma invite_demo_reachable: "validate_identity_server_reachability (invite_demo row) ''id.org'' = Inr ()"
  by (simp add: validate_identity_server_reachability_def invite_demo_destination invite_demo_def ensure_def)

lemma invite_demo_permitted:
  "validate_server_third_party_permissions (invite_demo row) 5 ''id.org'' [] = (Inr (), [(''id.org'', 5)])"
  by (simp add: validate_server_third_party_permissions_def is_server_blocked_def repo_server_blocked_def invite_result_def
      validate_server_federation_config_def check_server_federation_config_def is_server_rate_limited_def
      repo_server_rate_limited_def MAX_THIRD_PARTY_INVITES_PER_HOUR_def invite_demo_def ensure_def bindS_def liftS_def)

lemma invite_demo_key: "fetch_identity_server_key (invite_demo row) ''id.org'' k = Inr ''pk''"
  by (simp add: fetch_identity_server_key_def invite_demo_destination sign_federation_request_def invite_demo_def ensure_def
      contains_iff)

lemma invite_demo_extract:
  "extract_signature_data invite_demo_signed ''id.org'' =
     Inr \<lparr>sig_server_name = ''id.org'', sig_key_id = ''ed25519:0'', sig_signature = ''s''\<rparr>"
  by (simp add: extract_signature_data_def invite_demo_signed_def is_ed25519_def)

lemma invite_demo_text:
  "to_canonical_json (json_to_string (sw_crypto (hi_session history_demo))) (remove_keys [''signatures''] invite_demo_signed) = Inr ''json''"
proof -
  have "json_to_string (sw_crypto (hi_session history_demo)) = json_to_string demo_crypto" by (simp add: history_demo_def)
  moreover have "to_canonical_json (json_to_string demo_crypto) (remove_keys [''signatures''] invite_demo_signed) = Inr ''json''"
    by (rule demo_canonical) (simp_all add: invite_demo_signed_def MAX_DEPTH_def MAX_MEMBERS_def)
  ultimately show ?thesis by simp
qed

lemma invite_demo_verifies: "verify_ed25519_signature (sw_crypto (hi_session history_demo)) ''s'' m ''pk'' = Inr ()"
  by (simp add: verify_ed25519_signature_def history_demo_def demo_crypto_def ensure_def)

theorem bracketed_name_refused_witness: "\<not> is_valid_matrix_server_name ''[2001:db8::1]''"
  using bracketed_name_refused [of "''[2001:db8::1]''"] by simp

theorem invite_rate_bounded_witness:
  "logged_within ''id.org'' 0 (attempts (invite_demo row) [(5, ''id.org''), (7, ''id.org'')] []) \<le> 100"
  by (rule invite_rate_bounded) (simp_all add: invite_demo_def)

theorem foreign_identity_server_accepted_witness:
  "verify_third_party_invite_signature (invite_demo row) 5 invite_demo_signed ''id.org''
     [JObject [(''public_key'', JString ''room'')]] [] = (Inr True, [(''id.org'', 5)])"
proof -
  have "get_trusted_identity_servers (invite_demo row) = None"
    by (simp add: get_trusted_identity_servers_def repo_trusted_identity_servers_def invite_result_def invite_demo_def)
  from foreign_identity_server_accepted [OF invite_demo_extract this invite_demo_name invite_demo_reachable invite_demo_permitted _
      invite_demo_key, of "[JObject [(''public_key'', JString ''room'')]]" "''json''"]
  show ?thesis
    by (simp add: invite_demo_fields handshake_demo_fields invite_demo_text invite_demo_verifies)
qed

lemma invite_demo_request:
  "exchange_request (invite_demo row) ''!r:x'' ''x'' invite_demo_payload =
     Inr (''@b:x'', ''@c:a.org'', JObject [(''signed'', invite_demo_signed)])"
  unfolding exchange_request_Inr_iff
  by (simp add: exchange_parties_def invite_demo_payload_def domain_part_def invite_demo_fields handshake_demo_fields)

lemma invite_demo_verified:
  "verify_room_third_party_invite_signature (invite_demo (\<lambda>c. c)) 5 ''!r:x'' (JObject [(''signed'', invite_demo_signed)])
     (md_events (hd_mod (td_hs invite_demo_db))) [] = (Inr True, [(''id.org'', 5)])"
proof -
  have "get_third_party_invite_event (invite_demo (\<lambda>c. c)) ''!r:x'' ''t'' (md_events (hd_mod (td_hs invite_demo_db))) =
      Inr (Some invite_demo_content)"
    by (simp add: get_third_party_invite_event_def invite_result_def invite_demo_db_def new_event_def newest_ts_first_def
        invite_demo_content_def invite_demo_fields)
  then show ?thesis
    using foreign_identity_server_accepted_witness [of "\<lambda>c. c"]
    by (simp add: verify_room_third_party_invite_signature_def listed_public_keys_def invite_demo_content_def
        invite_demo_signed_def has_ed25519_signature_def is_ed25519_def)
qed

lemma invite_demo_signed_request:
  "signed_request handshake_demo handshake_demo_clocks handshake_header m u (Inr ''json'') (td_hs invite_demo_db) =
     (Inr ''x'', td_hs invite_demo_db)"
  using handshake_demo_signed [of m u]
  by (auto simp: signed_request_def handshake_demo_header handshake_demo_fields invite_demo_db_def handshake_demo_db_def
      split: sum.splits prod.splits)

lemma invite_demo_stored:
  "\<exists>hs. exchange_invite (invite_demo row) invite_demo_clocks ''x'' ''!r:x'' ''@b:x'' ''@c:a.org'' tpi (td_hs invite_demo_db) =
     (Inr (JObject []), hs)"
proof -
  obtain invite where i: "create_invite_event_from_third_party (invite_demo row) invite_demo_clocks ''!r:x'' ''@b:x'' ''@c:a.org'' tpi =
      Inr invite"
    by (simp add: create_invite_event_from_third_party_def invite_demo_def)
  have "validate_format pdu_demo pdu_clocks (event_to_value invite) = Inr pdu_ban_received"
    by (simp add: validate_format_def validate_basic_format_def validate_version_format_def
        room_version_or_1_def get_room_version_def validate_room_v1_v2_format_def ensure_def
        pdu_clocks_def pdu_demo_defs contains_iff)
  moreover have "validate_event_hashes_with_redaction pdu_demo pdu_ban_received (event_to_value invite) = Inr HashesValid"
  proof -
    have "ev_hashes invite = Some []"
      using i by (auto simp: create_invite_event_from_third_party_def result_simps)
    then have "get (event_to_value invite) ''hashes'' = Some (JObject [])"
      by (simp add: event_to_value_def opt_member_def string_map_json_def map_add_def split: option.split)
    moreover have "validate_content_hashes pdu_demo (event_to_value invite) (JObject []) ''1'' = Inr ()"
      by (simp add: validate_content_hashes_def ensure_def)
    moreover have "room_version_or_1 pdu_demo r = ''1''" for r
      by (simp add: room_version_or_1_def get_room_version_def pdu_demo_def)
    ultimately show ?thesis
      by (simp add: validate_event_hashes_with_redaction_def hash_versions_def validate_reference_hashes_def
          validate_event_id_format_def ensure_def pdu_ban_received_def pdu_ban_def state_event_def new_event_def)
  qed
  ultimately have v: "validate_pdu pdu_demo pdu_clocks (event_to_value invite) ''x'' [] = (Inr (Valid pdu_ban_received), [])"
    by (simp add: validate_pdu_def bindS_def liftS_def pdu_demo_new pdu_demo_crypto pdu_demo_signed pdu_demo_steps)
  obtain e where e: "sign_submitted_event handshake_demo handshake_demo_clocks pdu_ban_received handshake_demo_db = (Inr e, handshake_demo_db)"
      "ev_event_id e = ''$ban-of-member-b''"
    using handshake_demo_own by blast
  have k: "hd_keys (td_hs invite_demo_db) = []" "(td_hs invite_demo_db)\<lparr>hd_keys := []\<rparr> = td_hs invite_demo_db"
    by (simp_all add: invite_demo_db_def handshake_demo_db_def)
  have s: "sign_submitted_event handshake_demo handshake_demo_clocks pdu_ban_received (td_hs invite_demo_db) = (Inr e, td_hs invite_demo_db)"
    using e(1) by (auto simp: sign_submitted_event_def invite_demo_db_def handshake_demo_db_def split: sum.splits prod.splits)
  have "mo_fail (hs_mod handshake_demo) MembershipWrite = None" "lw_fail (mo_levels (hs_mod handshake_demo)) EventCreate = None"
    by (simp_all add: handshake_demo_def mod_demo_def level_demo_def)
  then show ?thesis
    by (simp add: exchange_invite_def i invite_demo_fields handshake_demo_fields v k store_invite_def s
        event_repo_create_def create_membership_def Let_def) (simp add: invite_demo_db_def handshake_demo_db_def new_event_def e(2))
qed

lemma invite_demo_exchange:
  "\<exists>db'. put_exchange (invite_demo (\<lambda>c. c)) invite_demo_clocks handshake_header ''!r:x'' invite_demo_payload invite_demo_db =
     (Inr (JObject []), db')"
proof -
  have body: "json_to_string (sw_crypto (ti_session (invite_demo (\<lambda>c. c)))) invite_demo_payload = Inr ''json''"
    by (simp add: invite_demo_fields handshake_demo_fields handshake_demo_text)
  obtain room where room: "known_hs_room handshake_demo ''!r:x'' = Inr room" "r_room_id room = ''!r:x''"
    by (auto simp: known_hs_room_Inr_iff handshake_demo_def mod_demo_def new_room_def)
  have "already_member (invite_demo (\<lambda>c. c)) ''!r:x'' ''@c:a.org'' (td_hs invite_demo_db) = None"
    by (simp add: already_member_def invite_result_def invite_demo_def
        invite_demo_db_def handshake_demo_db_def room_user_id_def)
  moreover have "check_invite_authorization (invite_demo (\<lambda>c. c)) room ''@b:x'' (td_hs invite_demo_db) = Inr True"
    by (simp add: check_invite_authorization_def room(2) get_membership_def mod_result_def invite_demo_fields handshake_demo_def
        mod_demo_def invite_demo_db_def handshake_demo_db_def new_membership_def check_invite_power_level_def invite_result_def
        member_row_def newest_state_def newest_depth_first_def state_events_of_def new_event_def)
  ultimately show ?thesis
    using invite_demo_stored [of "\<lambda>c. c" "JObject [(''signed'', invite_demo_signed)]"] invite_demo_verified room(1)
    by (auto simp: put_exchange_def invite_demo_fields handshake_demo_fields body invite_demo_signed_request invite_demo_request
        handshake_demo_text invite_demo_clocks_def)
qed


theorem nested_row_refuses_exchange_witness:
  "fst (put_exchange (invite_demo (\<lambda>c. JObject [(''content'', c)])) invite_demo_clocks handshake_header ''!r:x'' invite_demo_payload
     invite_demo_db) \<noteq> Inr (JObject [])"
proof -
  let ?w = "invite_demo (\<lambda>c. JObject [(''content'', c)])"
  obtain r db' where p: "put_exchange ?w invite_demo_clocks handshake_header ''!r:x'' invite_demo_payload invite_demo_db = (r, db')"
    by fastforce
  have "ti_content_row ?w c = JObject [(''content'', c)]" for c by (simp add: invite_demo_fields)
  from nested_row_refuses_exchange [OF this p] p show ?thesis by simp
qed

text \<open>A library that reads of an event the identifier only, and a database without events.\<close>

definition invite_bare :: invite_world where
  "invite_bare = (invite_demo (\<lambda>c. c))\<lparr>ti_hs := handshake_demo\<lparr>hs_pdu := (\<lambda>db. pdu_demo
     \<lparr>event_from_value := (\<lambda>v. case get v ''event_id'' of Some (JString i) \<Rightarrow> Inr (new_event i [] 0 [] [] (Unknown JNull)) | _ \<Rightarrow> Inl []),
      pw_auth := demo_world\<lparr>event_by_id := (\<lambda>i. Inr None)\<rparr>\<rparr>)\<rparr>\<rparr>"

theorem unsigned_invite_refused_witness:
  "fst (put_exchange invite_bare invite_demo_clocks handshake_header ''!r:x'' invite_demo_payload invite_demo_db) \<noteq> Inr (JObject [])"
proof -
  obtain r db' where p: "put_exchange invite_bare invite_demo_clocks handshake_header ''!r:x'' invite_demo_payload invite_demo_db = (r, db')"
    by fastforce
  have read: "ev_signatures e0 = None \<and> ev_event_id e0 = ev_event_id e"
    if "event_from_value (hs_pdu (ti_hs invite_bare) db) (event_to_value e) = Inr e0" for db e e0
    using that by (auto simp: invite_bare_def event_to_value_def new_event_def)
  have dedup: "check_event_deduplication (hs_pdu (ti_hs invite_bare) db) e = Inr New" for db e
    by (simp add: check_event_deduplication_def dedup_or_def invite_bare_def room_version_or_1_def get_room_version_def pdu_demo_def
        hash_versions_def check_state_key_deduplication_def check_temporal_deduplication_def split: option.split)
  from unsigned_invite_refused [OF read dedup p] p show ?thesis by simp
qed

end
