(* ===== verification/Spec2Isabelle.thy ===== *)
theory Spec2Isabelle
  imports Fed_Knock Fed_Send Join_Rules Membership_Validation Outbound_Queue Pdu_Validator Push_Rules Refresh_Tokens
    Room_Aliases Server_Discovery Third_Party_Invites Uia
begin

text \<open>
  \<^bold>\<open>Matryx, a Matrix homeserver: the federation core.\<close>

  Matryx (\<open>src/packages\<close>) is a homeserver in four crates: \<open>entity\<close> (data types), \<open>surrealdb\<close>
  (repositories over the database), \<open>server\<close> (HTTP endpoints and the protocol logic) and
  \<open>client\<close>. Events arrive from other servers in signed requests; the server checks the request,
  the hashes and signatures of each event, authorizes it against its auth events, resolves
  conflicting state, and sends its own events in signed transactions. This development models that
  path and the decisions on it.

  \<^bold>\<open>Theories and sources.\<close>
  \<^item> \<open>Prelude\<close>, \<open>Rust_Std\<close>: results, options, loops with early return, strings, numbers and the
    standard library functions the sources call.
  \<^item> \<open>Json\<close>, \<open>Canonical_Json\<close>: JSON values; both canonicalizers
    (\<open>server/src/utils/canonical_json.rs\<close>, \<open>entity/src/utils/canonical_json.rs\<close>). Their common
    contract is the locale \<open>canonicalizer\<close>, interpreted for both.
  \<^item> \<open>Matrix_Ids\<close>: server names and identifiers (\<open>server/src/utils/matrix_identifiers.rs\<close>).
  \<^item> \<open>X_Matrix\<close>: the parser of X-Matrix headers (\<open>server/src/auth/x_matrix_parser.rs\<close>), a state
    machine over characters.
  \<^item> \<open>Entity\<close>, \<open>Matrix_Errors\<close>: events, contents, rooms, memberships, power levels
    (\<open>entity/src/types\<close>); errors and the responses they give (\<open>server/src/error\<close>).
  \<^item> \<open>Event_Signing\<close>: hashes, redaction, signing and validation of events, remote keys
    (\<open>server/src/federation/event_signing.rs\<close>), and the signing of requests
    (\<open>server/src/auth/signing.rs\<close>).
  \<^item> \<open>Fed_Auth\<close>: the authorization engine (\<open>server/src/federation/authorization.rs\<close>).
  \<^item> \<open>Power_Hierarchy\<close>, \<open>Power_Levels\<close>: what acting on other members promises, as a locale with
    instances in the engine and in the room service (\<open>server/src/room/power_levels.rs\<close>,
    \<open>get_room_power_levels\<close> of \<open>surrealdb/src/repository/room.rs\<close>).
  \<^item> \<open>State_Res\<close>: state resolution and auth chains
    (\<open>surrealdb/src/repository/state_resolution.rs\<close>), with the locale \<open>event_table\<close> for the
    table of events and its interpretation on a snapshot.
  \<^item> \<open>Outbound_Queue\<close>: the transaction queue (\<open>server/src/federation/outbound_queue.rs\<close>) as a
    step relation of its processing loop.
  \<^item> \<open>Event_Dag\<close>, \<open>Pdu_Validator\<close>: the checks of the event graph and the pipeline of incoming
    PDUs (\<open>server/src/federation/pdu_validator.rs\<close>), which runs the signing and authorization
    components.
  \<^item> \<open>Join_Rules\<close>, \<open>Membership_Errors\<close>, \<open>Membership_Machine\<close>, \<open>Membership_Validation\<close>: joins,
    membership actions and membership events of local clients (\<open>authorization.rs\<close>,
    \<open>membership_errors.rs\<close>, \<open>membership_validation.rs\<close> of \<open>server/src/room\<close>). The locale
    \<open>membership_machine\<close> states what a table of membership changes promises, with instances for the
    table of the client API and for the engine.
  \<^item> \<open>Push_Rules\<close>: both evaluators of push rules (\<open>server/src/push/rules.rs\<close>,
    \<open>surrealdb/src/repository/push.rs\<close>).
  \<^item> \<open>Server_Discovery\<close>: the resolver with its caches, the well-known client and the orchestrator
    (\<open>dns_resolver.rs\<close>, \<open>well_known_client.rs\<close>, \<open>server_discovery.rs\<close> of
    \<open>server/src/federation\<close>); its calls run one after the other, with a clock reading at each place
    that reads the clock.
  \<^item> \<open>Captcha\<close>, \<open>Uia\<close>: challenges and their verification (\<open>captcha.rs\<close>), user-interactive
    authentication (\<open>uia.rs\<close>, both under \<open>server/src/auth\<close>, with their repositories) and the
    endpoint that changes passwords (\<open>server/src/_matrix/client/v3/account/password\<close>).
  \<^item> \<open>Sessions\<close>, \<open>Refresh_Tokens\<close>: access tokens, server signatures and signing keys
    (\<open>matrix_auth.rs\<close>, \<open>session_service.rs\<close>), refresh tokens and their rotation
    (\<open>refresh_token.rs\<close>, \<open>surrealdb/src/repository/auth.rs\<close>). The history of the token table is
    a step relation.
  \<^item> \<open>Auth_Middleware\<close>: the checks every request passes (\<open>middleware.rs\<close>) and the extractor of
    users (\<open>authenticated_user.rs\<close>).
  \<^item> \<open>Edus\<close>, \<open>Fed_Send\<close>: the endpoint that receives transactions
    (\<open>server/src/_matrix/federation/v1/send/by_txn_id.rs\<close>); the ephemeral data it processes goes
    into tables whose changes are described by relations, which the locale \<open>state_order\<close> carries
    through chains of actions.
  \<^item> \<open>Graph_Walk\<close>, \<open>Event_History\<close>: the breadth-first walk over a graph with a limit, and the
    endpoints that serve missing events and backfill to other servers
    (\<open>server/src/_matrix/federation/v1\<close>, \<open>get_missing_events\<close> and \<open>backfill\<close>) with their queries.
  \<^item> \<open>Level_Repository\<close>: the repository of power levels
    (\<open>surrealdb/src/repository/power_levels.rs\<close>) over the event table, and
    \<open>update_room_state_event\<close> of \<open>event.rs\<close>.
  \<^item> \<open>Room_State\<close>: reading and writing of room state by clients (\<open>by_state_key.rs\<close> and
    \<open>handlers.rs\<close> under \<open>server/src/_matrix/client/v3/rooms/by_room_id/state\<close>) with the signing of
    outgoing events (\<open>server/src/federation/event_signer.rs\<close>).
  \<^item> \<open>Room_Aliases\<close>: the table of aliases and its repository
    (\<open>surrealdb/src/repository/room_alias.rs\<close>), the resolver (\<open>server/src/room/alias_resolution.rs\<close>),
    the directory endpoint and the directory query of other servers.
  \<^item> \<open>Moderation\<close>: the endpoints \<open>kick\<close>, \<open>ban\<close> and \<open>unban\<close> with the operations of
    \<open>room_operations.rs\<close>, \<open>membership.rs\<close> and \<open>event.rs\<close> they run, over the two tables in which
    memberships are kept, and \<open>server/src/utils/matrix_events.rs\<close>.
  \<^item> \<open>Fed_Handshake\<close>: joins and leaves of users of other servers (\<open>make_join\<close>, \<open>send_join\<close>,
    \<open>make_leave\<close>, \<open>send_leave\<close> under \<open>server/src/_matrix/federation\<close>, with the checks of
    \<open>server/src/federation/membership_federation.rs\<close>), over the state of \<open>Moderation\<close>.
  \<^item> \<open>Fed_Knock\<close>: knocks of users of other servers (\<open>make_knock\<close>, \<open>send_knock\<close>).
  \<^item> \<open>Third_Party_Invites\<close>: the exchange of invitations of third-party identifiers
    (\<open>server/src/_matrix/federation/v1/exchange_third_party_invite\<close>) with its queries.

  \<^bold>\<open>How code is represented.\<close> A function is an executable definition of the same name where
  the name is free. A \<open>Result\<close> is a sum with the error on the left, the question mark operator is
  \<open>bindR\<close>, an early return is \<open>ensure\<close> or a branch. Asynchronous functions are ordinary functions:
  each runs to its end on one snapshot of the database. What the sources only call (hash and
  signature functions, base64, the printer of \<open>serde_json\<close>, HTTP and DNS, the database, clocks and
  random numbers) is a record of functions given as an argument, and the properties state what
  they need of it. Where a query uses what the database does not have, or a table refuses a row, the
  refusal is a value of the model too. Logging is left out.

  \<^bold>\<open>What is shown.\<close>
  \<^item> Authorization: soundness of the pipeline, no escalation through power level events, the
    hierarchy of bans and kicks, the possible membership changes (C1 to C4).
  \<^item> Signatures: what is signed is accepted and what is accepted was signed (C5, C6); server names
    survive printing and parsing (C22).
  \<^item> State resolution: independence of the order, the auth chain, termination, soundness of the
    result (C7 to C10).
  \<^item> Outgoing traffic: order and completeness of what is sent, the bounds, the effect of a tick
    (C11, C12, C39).
  \<^item> Incoming PDUs and transactions: soundness of the pipeline and of the endpoint around it, that a
    repeated transaction is processed again because no answer is ever cached, what ephemeral data
    writes, exactness of the cycle search, the types the format check establishes (C13 to C15, C28,
    C36, C38).
  \<^item> History for other servers: what is served to whom, and that the walk finds exactly what is asked
    for (C16, C17).
  \<^item> Memberships of local clients: refinement of the join rules, soundness of the event validation,
    and how the engine refines the table of membership changes (C18 to C20).
  \<^item> Rooms: who writes state (C21), the invariant of the table of aliases under every sequence of
    operations (C23), bans and unbans (C24, C25), joins of other servers (C26) and invitations of
    third-party identifiers (C27).
  \<^item> Authentication: completed authentications and password changes (C29, C30), rotation of refresh
    tokens (C31, C32), the life of access tokens (C34), what the middleware lets pass (C35).
  \<^item> Push rules: glob matching against the meaning of patterns (C33). Canonical JSON: equivalence
    with a reference definition (C37).
  \<^item> Behaviour of the code that differs from what its comments or the protocol say: C15, C25 and C40, and
    further theorems without a number (such as \<open>kick_never_removes\<close>, \<open>ban_not_seen\<close>,
    \<open>backfill_refused\<close>, \<open>join_not_answered\<close>, \<open>leave_versions_exclude\<close>, \<open>shallow_event_hidden\<close>,
    \<open>join_room_not_compared\<close>, \<open>nothing_disclosed_without_join\<close>, \<open>state_put_refused_without_unnest\<close>,
    \<open>foreign_presence_replaced\<close>, \<open>levels_of_engine_and_room\<close>); these are proved of the code as it is.

  \<^bold>\<open>Bounds and fuel.\<close> Fuel occurs only in the recursion over auth events: any amount above the
  number of stored events is enough (C9). The loop over the parents of a refresh token is a partial
  function, total in every reachable table (C32). The walk over previous events takes each event once
  and ends at its limit (C17). The search for cycles has the depth bound of the
  source, the retry loop, the parsers, glob matching and redirects end by a measure. Integers of the
  protocol are 64 bits wide where arithmetic is done on them.

  \<^bold>\<open>Not modelled.\<close> The client crate, media, metrics, caches, rate limits and live queries are
  wrappers of libraries or of the database. The retrying client of \<open>membership_federation.rs\<close>, the
  delivery of push notifications and the OAuth 2.0 server send requests whose answers decide their
  outcome; of these the decisions could be modelled next, as could the federation endpoints for
  invitations, which have the form of \<open>Fed_Handshake\<close>. The remaining endpoints decode a request and run one query each; the queries
  themselves are texts for the database, which only those that decide something above translate.
\<close>

section \<open>Properties that span components\<close>

text \<open>
  The two components read the same power levels event differently: for a user it lists they
  agree, for any other user the room service uses \<open>users_default\<close> while the federation engine
  uses 0.
\<close>

theorem levels_of_engine_and_room:
  assumes "power_levels_event s = Some e" and "ev_content e = Unknown content" and "json_wf content"
    and "rows r = Inr [JObject [(''content'', content)]]"
  shows "get_user_level (levels_in_force rows r) u =
    (case Option.bind (get content ''users'') (\<lambda>users. Option.bind (get users u) as_i64) of
       Some n \<Rightarrow> user_power_level s u
     | None \<Rightarrow> i64_field content ''users_default'' 0) \<and>
    (Option.bind (get content ''users'') (\<lambda>users. Option.bind (get users u) as_i64) = None \<longrightarrow>
       user_power_level s u = 0)"
proof -
  have fed: "user_power_level s u =
      unwrap_or 0 (Option.bind (get content ''users'') (\<lambda>users. Option.bind (get users u) as_i64))"
    using assms(1,2) by (cases content) (auto simp: user_power_level_def content_get_def get_def)
  have users: "map_of (i64_entries (get content ''users'')) u =
      Option.bind (get content ''users'') (\<lambda>users. Option.bind (get users u) as_i64)"
  proof (cases "get content ''users''")
    case None
    then show ?thesis by (simp add: i64_entries_def)
  next
    case (Some v)
    then have wf: "json_wf v"
      using assms(3) by (cases content) (auto simp: get_def dest: map_of_SomeD)
    show ?thesis
    proof (cases v)
      case (JObject obj)
      then have "distinct (map fst obj)" using wf by simp
      from map_of_i64_entries [OF this, of u] show ?thesis
        using Some JObject by (simp add: i64_entries_def)
    qed (use Some in \<open>simp_all add: i64_entries_def get_def\<close>)
  qed
  have "levels_in_force rows r = power_levels_of_content content"
    using assms(4) by (simp add: levels_in_force_def repo_power_levels_def levels_of_rows_def)
  then show ?thesis
    using fed users by (auto simp: get_user_level_def power_levels_of_content_def split: option.splits)
qed

text \<open>
  C19. The federation engine refines the table of the client API: every sequence of membership
  changes the engine accepts is one the table allows. The table allows more: answering a knock with
  an invitation, and a new event of a member who stays joined, which the engine accepts from nobody.
\<close>

theorem engine_refines_client_table:
  "(successively engine_step ms \<longrightarrow>
      successively (\<lambda>m m'. is_valid_transition (show_membership m) (show_membership m')) ms) \<and>
   is_valid_transition (show_membership Knock) (show_membership Invite) \<and> \<not> engine_step Knock Invite \<and>
   is_valid_transition (show_membership Join) (show_membership Join) \<and> \<not> engine_step Join Join"
proof -
  have "is_valid_transition (show_membership m) (show_membership m')" if "engine_step m m'" for m m'
    using engine_step_cases [OF that] by (cases m) (auto simp only: valid_transition_iff)
  then show ?thesis
    using successively_mono [of engine_step ms] engine_step_cases [of Knock Invite] engine_step_cases [of Join Join]
    by (auto simp only: valid_transition_iff)
qed

section \<open>Witnesses\<close>

definition demo_content :: json where
  "demo_content = JObject [(''users'', JObject [(''@a:x'', int_json 70)]), (''users_default'', int_json 10)]"

definition demo_levels_event :: event where
  "demo_levels_event = new_event ''$p'' ''@a:x'' 1 ''m.room.power_levels'' ''!r:x'' (Unknown demo_content)"

theorem levels_of_engine_and_room_witness:
  "get_user_level (levels_in_force (\<lambda>r. Inr [JObject [(''content'', demo_content)]]) ''!r:x'') ''@b:x'' = 10 \<and>
   user_power_level (new_auth_state\<lparr>power_levels_event := Some demo_levels_event\<rparr>) ''@b:x'' = 0"
  using levels_of_engine_and_room [of "new_auth_state\<lparr>power_levels_event := Some demo_levels_event\<rparr>"
      demo_levels_event demo_content "\<lambda>r. Inr [JObject [(''content'', demo_content)]]" "''!r:x''" "''@b:x''"]
  by (simp add: demo_levels_event_def new_event_def demo_content_def i64_field_def
      in_i64_def i64_min_def i64_max_def)

theorem engine_refines_client_table_witness:
  "successively engine_step [Ban, Leave] \<and> is_valid_transition (show_membership Ban) (show_membership Leave)"
proof -
  have "engine_step Ban Leave"
    unfolding engine_step_def
    by (intro exI [of _ "[]"] exI) (simp add: validate_membership_transition_def)
  then have "successively engine_step [Ban, Leave]" by simp
  then show ?thesis using engine_refines_client_table [of "[Ban, Leave]"] by auto
qed

end
